(* ===== verification/Prelude.thy ===== *)
theory Prelude
  imports "HOL-Library.Word" "HOL-Library.Multiset" "HOL-Library.State_Monad"
begin

unbundle bit_operations_syntax

text \<open>
  The prelude of the development.  It holds

  \<^item> the integer types of the C code and the two conversions the code relies on;
  \<^item> the environment of a process: every call that leaves the sources (libibverbs, librdmacm,
    the kernel, the allocator) is an element of a call type \<open>'c\<close>, its result is chosen by an
    environment that may look at the whole history of the process, and each call is recorded in
    the history (newest first);
  \<^item> two ways to compose code: the state monad over the history (functions that return a value
    and clean up by \<open>goto\<close>), and commands with an \<open>exit\<close> outcome (functions
    that call \<open>die\<close> / \<open>rc_die\<close>);
  \<^item> the proof rules shared by the components.
\<close>

section \<open>Collections of facts\<close>

named_theorems sat_intro \<open>introduction rules of the state-monad logic\<close>
named_theorems cmd_simps \<open>evaluation of commands with an exit outcome\<close>
named_theorems model_defs \<open>definitions a component's proofs unfold together\<close>

section \<open>C integers\<close>

type_synonym u32 = "32 word"
type_synonym u64 = "64 word"

text \<open>Conversion of a wider integer to \<open>int\<close> (32 bits, two's complement, as gcc does it).\<close>

definition to_int32 :: "int \<Rightarrow> int" where
  "to_int32 x = (x + 2 ^ 31) mod 2 ^ 32 - 2 ^ 31"

lemma to_int32_id [simp]: "- (2 ^ 31) \<le> x \<Longrightarrow> x < 2 ^ 31 \<Longrightarrow> to_int32 x = x"
  by (simp add: to_int32_def)

lemma to_int32_range: "- (2 ^ 31) \<le> to_int32 x" "to_int32 x < 2 ^ 31"
proof -
  have "0 \<le> (x + 2 ^ 31) mod (2 ^ 32 :: int)" and "(x + 2 ^ 31) mod (2 ^ 32 :: int) < 2 ^ 32"
    by simp_all
  then show "- (2 ^ 31) \<le> to_int32 x" and "to_int32 x < 2 ^ 31"
    by (simp_all add: to_int32_def)
qed

text \<open>The remainder of C (the sign of the dividend), used with a non-zero divisor.\<close>

definition c_rem :: "int \<Rightarrow> int \<Rightarrow> int" where
  "c_rem a b = sgn a * (\<bar>a\<bar> mod \<bar>b\<bar>)"

lemma c_rem_nonneg [simp]: "0 \<le> a \<Longrightarrow> 0 < b \<Longrightarrow> c_rem a b = a mod b"
  by (cases "a = 0") (simp_all add: c_rem_def)

text \<open>Byte order: \<open>htonl\<close> and \<open>ntohl\<close> on a little-endian host.\<close>

definition bswap32 :: "u32 \<Rightarrow> u32" where
  "bswap32 x = push_bit 24 (take_bit 8 x) OR push_bit 16 (take_bit 8 (drop_bit 8 x))
     OR push_bit 8 (take_bit 8 (drop_bit 16 x)) OR drop_bit 24 x"

lemma bit_bswap32: "bit (bswap32 x) n \<longleftrightarrow>
  (if n < 8 then bit x (n + 24) else if n < 16 then bit x (n + 8)
   else if n < 24 then bit x (n - 8) else n < 32 \<and> bit x (n - 24))"
  by (auto simp: bswap32_def bit_simps add.commute dest: bit_imp_le_length)

lemma bswap32_bswap32 [simp]: "bswap32 (bswap32 x) = x"
  by (rule bit_word_eqI) (auto simp: bit_bswap32)

section \<open>The environment of a process and its history\<close>

type_synonym 'c history = "('c \<times> int) list"

text \<open>
  What a call returns and what it stores through its pointer arguments: its integer or pointer
  result (0 is \<open>NULL\<close> or success), the bytes a read fills in, and the fields of an
  attribute structure a query fills in.
\<close>

record 'c env =
  ret :: "'c history \<Rightarrow> 'c \<Rightarrow> int"
  data_in :: "'c history \<Rightarrow> 'c \<Rightarrow> string"
  attr_in :: "'c history \<Rightarrow> 'c \<Rightarrow> string \<Rightarrow> int"

type_synonym ('c, 'a) io = "('c history, 'a) state"

definition invoke :: "('c, 'e) env_scheme \<Rightarrow> 'c \<Rightarrow> ('c, int) io" where
  "invoke E c = State (\<lambda>h. (ret E h c, (c, ret E h c) # h))"

text \<open>A call together with what it stored: the bytes, or the attribute structure.\<close>

definition invoke_data :: "('c, 'e) env_scheme \<Rightarrow> 'c \<Rightarrow> ('c, int \<times> string) io" where
  "invoke_data E c = State (\<lambda>h. ((ret E h c, data_in E h c), (c, ret E h c) # h))"

definition invoke_attr :: "('c, 'e) env_scheme \<Rightarrow> 'c \<Rightarrow> ('c, int \<times> (string \<Rightarrow> int)) io" where
  "invoke_attr E c = State (\<lambda>h. ((ret E h c, attr_in E h c), (c, ret E h c) # h))"

abbreviation ret_io :: "'a \<Rightarrow> ('c, 'a) io" where
  "ret_io \<equiv> State_Monad.return"

text \<open>A call made only if a condition holds; its result is 0 otherwise.\<close>

definition when_io :: "bool \<Rightarrow> ('c, int) io \<Rightarrow> ('c, int) io" where
  "when_io b m = (if b then m else ret_io 0)"

lemma run_invoke: "run_state (invoke E c) h = (ret E h c, (c, ret E h c) # h)"
  by (simp add: invoke_def)

lemma run_invoke_data:
  "run_state (invoke_data E c) h = ((ret E h c, data_in E h c), (c, ret E h c) # h)"
  by (simp add: invoke_data_def)

lemma run_invoke_attr:
  "run_state (invoke_attr E c) h = ((ret E h c, attr_in E h c), (c, ret E h c) # h)"
  by (simp add: invoke_attr_def)

lemmas run_invokes = run_invoke run_invoke_data run_invoke_attr

section \<open>A logic of histories\<close>

text \<open>
  Properties of the calls a function makes are stated against an automaton that reads the
  history: \<open>obs f q0 h\<close> is the automaton's state after the history \<open>h\<close>, \<open>None\<close> once a call was
  not allowed.  \<open>sat f m q Q\<close> says that \<open>m\<close>, started in any history that leads the
  automaton to \<open>q\<close>, makes only allowed calls and ends with a result and a state in \<open>Q\<close>,
  whatever the environment answers.
\<close>

fun obs :: "('q \<Rightarrow> 'c \<Rightarrow> int \<Rightarrow> 'q option) \<Rightarrow> 'q \<Rightarrow> 'c history \<Rightarrow> 'q option" where
  "obs f q0 [] = Some q0"
| "obs f q0 ((c, r) # h) = (case obs f q0 h of None \<Rightarrow> None | Some q \<Rightarrow> f q c r)"

definition sat :: "('q \<Rightarrow> 'c \<Rightarrow> int \<Rightarrow> 'q option) \<Rightarrow> ('c, 'a) io \<Rightarrow> 'q \<Rightarrow> ('a \<Rightarrow> 'q \<Rightarrow> bool) \<Rightarrow> bool" where
  "sat f m q Q \<longleftrightarrow> (\<forall>q0 h. obs f q0 h = Some q \<longrightarrow>
     (case run_state m h of (a, h') \<Rightarrow> \<exists>q'. obs f q0 h' = Some q' \<and> Q a q'))"

lemma sat_return [sat_intro]: "Q a q \<Longrightarrow> sat f (State_Monad.return a) q Q"
  by (simp add: sat_def)

lemma sat_bind [sat_intro]:
  "sat f m q (\<lambda>a q'. sat f (k a) q' Q) \<Longrightarrow> sat f (State_Monad.bind m k) q Q"
  by (fastforce simp: sat_def split: prod.splits)

lemma sat_invoke [sat_intro]:
  "(\<And>r. \<exists>q'. f q c r = Some q' \<and> Q r q') \<Longrightarrow> sat f (invoke E c) q Q"
  by (simp add: sat_def run_invoke)

lemma sat_invoke_data [sat_intro]:
  "(\<And>r d. \<exists>q'. f q c r = Some q' \<and> Q (r, d) q') \<Longrightarrow> sat f (invoke_data E c) q Q"
  by (simp add: sat_def run_invoke_data)

lemma sat_invoke_attr [sat_intro]:
  "(\<And>r d. \<exists>q'. f q c r = Some q' \<and> Q (r, d) q') \<Longrightarrow> sat f (invoke_attr E c) q Q"
  by (simp add: sat_def run_invoke_attr)

lemma sat_if [sat_intro]:
  "(b \<Longrightarrow> sat f m q Q) \<Longrightarrow> (\<not> b \<Longrightarrow> sat f n q Q) \<Longrightarrow> sat f (if b then m else n) q Q"
  by simp

lemma sat_when [sat_intro]:
  "(b \<Longrightarrow> sat f m q Q) \<Longrightarrow> (\<not> b \<Longrightarrow> Q 0 q) \<Longrightarrow> sat f (when_io b m) q Q"
  by (simp add: when_io_def sat_return)

lemma sat_case_prod [sat_intro]:
  "(\<And>a b. p = (a, b) \<Longrightarrow> sat f (k a b) q Q) \<Longrightarrow> sat f (case p of (a, b) \<Rightarrow> k a b) q Q"
  by (cases p) simp

lemma sat_case_option [sat_intro]:
  "(x = None \<Longrightarrow> sat f m q Q) \<Longrightarrow> (\<And>y. x = Some y \<Longrightarrow> sat f (k y) q Q) \<Longrightarrow>
   sat f (case x of None \<Rightarrow> m | Some y \<Rightarrow> k y) q Q"
  by (cases x) simp_all

lemma sat_case_sum [sat_intro]:
  "(\<And>a. x = Inl a \<Longrightarrow> sat f (m a) q Q) \<Longrightarrow> (\<And>b. x = Inr b \<Longrightarrow> sat f (k b) q Q) \<Longrightarrow>
   sat f (case x of Inl a \<Rightarrow> m a | Inr b \<Rightarrow> k b) q Q"
  by (cases x) simp_all

lemma sat_conseq: "sat f m q Q \<Longrightarrow> (\<And>a q'. Q a q' \<Longrightarrow> R a q') \<Longrightarrow> sat f m q R"
  by (fastforce simp: sat_def split: prod.splits)

lemma satD:
  assumes "sat f m q Q" and "obs f q0 h = Some q" and "run_state m h = (a, h')"
  shows "\<exists>q'. obs f q0 h' = Some q' \<and> Q a q'"
  using assms(1) [unfolded sat_def, rule_format, OF assms(2)] assms(3) by simp

lemma sat_conj: "sat f m q Q \<Longrightarrow> sat f m q R \<Longrightarrow> sat f m q (\<lambda>a q. Q a q \<and> R a q)"
  unfolding sat_def by (fastforce split: prod.splits)

text \<open>
  When what a call delivers depends on the history, a function is run symbolically: \<open>wp m Q h\<close>
  says that \<open>m\<close>, started after \<open>h\<close>, ends with a result and a history in \<open>Q\<close>.
\<close>

definition wp :: "('c, 'a) io \<Rightarrow> ('a \<Rightarrow> 'c history \<Rightarrow> bool) \<Rightarrow> 'c history \<Rightarrow> bool" where
  "wp m Q h \<longleftrightarrow> (case run_state m h of (a, h') \<Rightarrow> Q a h')"

lemma wp_return [simp]: "wp (State_Monad.return a) Q = Q a"
  by (rule ext) (simp add: wp_def State_Monad.return_def)

lemma wp_bind [simp]: "wp (State_Monad.bind m k) Q = wp m (\<lambda>a. wp (k a) Q)"
proof
  show "wp (State_Monad.bind m k) Q h = wp m (\<lambda>a. wp (k a) Q) h" for h
    by (cases "run_state m h") (simp add: wp_def State_Monad.bind_def)
qed

lemma wp_invoke [simp]: "wp (invoke E c) Q = (\<lambda>h. Q (ret E h c) ((c, ret E h c) # h))"
  by (rule ext) (simp add: wp_def run_invoke)

lemma wp_invoke_data [simp]:
  "wp (invoke_data E c) Q = (\<lambda>h. Q (ret E h c, data_in E h c) ((c, ret E h c) # h))"
  by (rule ext) (simp add: wp_def run_invoke_data)

lemma wp_invoke_attr [simp]:
  "wp (invoke_attr E c) Q = (\<lambda>h. Q (ret E h c, attr_in E h c) ((c, ret E h c) # h))"
  by (rule ext) (simp add: wp_def run_invoke_attr)

lemma wp_if [simp]: "wp (if b then m else m') Q = (if b then wp m Q else wp m' Q)"
  by simp

lemma wp_case_prod [simp]: "wp (case p of (a, b) \<Rightarrow> k a b) Q = wp (k (fst p) (snd p)) Q"
  by (cases p) simp

lemma wp_case_option [simp]:
  "wp (case x of None \<Rightarrow> m | Some y \<Rightarrow> k y) Q =
     (case x of None \<Rightarrow> wp m Q | Some y \<Rightarrow> wp (k y) Q)"
  by (cases x) simp_all

lemma wp_of_sat:
  "sat f m q Q \<Longrightarrow> obs f q0 h = Some q \<Longrightarrow> wp m (\<lambda>a h'. \<exists>q'. obs f q0 h' = Some q' \<and> Q a q') h"
  by (simp add: sat_def wp_def)

lemma wp_conseq: "wp m Q h \<Longrightarrow> (\<And>a h'. Q a h' \<Longrightarrow> R a h') \<Longrightarrow> wp m R h"
  by (auto simp: wp_def split: prod.splits)

lemma wp_conj: "wp m Q h \<Longrightarrow> wp m R h \<Longrightarrow> wp m (\<lambda>a h'. Q a h' \<and> R a h') h"
  by (auto simp: wp_def split: prod.splits)

lemma wpD: "wp m Q h \<Longrightarrow> run_state m h = (a, h') \<Longrightarrow> Q a h'"
  by (simp add: wp_def)

text \<open>
  When only the result matters: \<open>gives m Q\<close> says that whatever the history and the answers, the
  result of \<open>m\<close> is in \<open>Q\<close>.
\<close>

definition gives :: "('c, 'a) io \<Rightarrow> ('a \<Rightarrow> bool) \<Rightarrow> bool" where
  "gives m Q \<longleftrightarrow> (\<forall>h. Q (fst (run_state m h)))"

lemma gives_return: "Q a \<Longrightarrow> gives (State_Monad.return a) Q"
  by (simp add: gives_def State_Monad.return_def)

lemma gives_bind: "gives m (\<lambda>a. gives (k a) Q) \<Longrightarrow> gives (State_Monad.bind m k) Q"
  by (simp add: gives_def State_Monad.bind_def case_prod_unfold)

lemma gives_any: "(\<And>a. Q a) \<Longrightarrow> gives m Q"
  by (simp add: gives_def)

lemma gives_if: "(b \<Longrightarrow> gives m Q) \<Longrightarrow> (\<not> b \<Longrightarrow> gives m' Q) \<Longrightarrow> gives (if b then m else m') Q"
  by simp

lemma gives_case_prod:
  "(\<And>a b. p = (a, b) \<Longrightarrow> gives (k a b) Q) \<Longrightarrow> gives (case p of (a, b) \<Rightarrow> k a b) Q"
  by (cases p) simp

lemma gives_case_option:
  "(x = None \<Longrightarrow> gives m Q) \<Longrightarrow> (\<And>y. x = Some y \<Longrightarrow> gives (k y) Q) \<Longrightarrow>
   gives (case x of None \<Rightarrow> m | Some y \<Rightarrow> k y) Q"
  by (cases x) simp_all

lemmas gives_intro = gives_return gives_bind gives_if gives_case_prod gives_case_option

lemma gives_then: "(\<And>a. gives (k a) Q) \<Longrightarrow> gives (State_Monad.bind m k) Q"
  by (rule gives_bind, rule gives_any)

lemma gives_invoke: "(\<And>h. Q (ret E h c)) \<Longrightarrow> gives (invoke E c) Q"
  by (simp add: gives_def run_invoke)

lemma gives_when: "gives m Q \<Longrightarrow> Q 0 \<Longrightarrow> gives (when_io b m) Q"
  by (simp add: when_io_def gives_return)

lemma gives_conseq: "gives m Q \<Longrightarrow> (\<And>a. Q a \<Longrightarrow> R a) \<Longrightarrow> gives m R"
  by (simp add: gives_def)

lemma sat_gives: "sat f m q R \<Longrightarrow> gives m Q \<Longrightarrow> sat f m q (\<lambda>a q. R a q \<and> Q a)"
  by (simp add: sat_def gives_def case_prod_unfold)

section \<open>Commands that may exit\<close>

text \<open>
  \<open>die(reason)\<close> prints and calls \<open>exit(EXIT_FAILURE)\<close>: the process stops where it
  stands.  A command maps a state to the state it leaves, or to the state at the exit.
\<close>

datatype 's outcome = Run 's | Exit string 's

type_synonym 's cmd = "'s \<Rightarrow> 's outcome"

fun seq :: "'s cmd list \<Rightarrow> 's cmd" where
  "seq [] s = Run s"
| "seq (c # cs) s = (case c s of Run s' \<Rightarrow> seq cs s' | Exit m s' \<Rightarrow> Exit m s')"

fun final :: "'s outcome \<Rightarrow> 's" where
  "final (Run s) = s"
| "final (Exit m s) = s"

fun running :: "'s outcome \<Rightarrow> bool" where
  "running (Run s) = True"
| "running (Exit m s) = False"

definition die :: "string \<Rightarrow> 's cmd" where
  "die reason s = Exit reason s"

definition assign :: "('s \<Rightarrow> 's) \<Rightarrow> 's cmd" where
  "assign f s = Run (f s)"

text \<open>Run a command chosen by looking at the state, and a conditional command.\<close>

definition look :: "('s \<Rightarrow> 's cmd) \<Rightarrow> 's cmd" where
  "look k s = k s s"

definition if_cmd :: "bool \<Rightarrow> 's cmd \<Rightarrow> 's cmd \<Rightarrow> 's cmd" where
  "if_cmd b c d s = (if b then c s else d s)"

definition skip :: "'s cmd" where
  "skip s = Run s"

lemmas cmd_defs [cmd_simps] = die_def assign_def look_def if_cmd_def skip_def

lemma seq_append: "seq (cs @ ds) s = (case seq cs s of Run s' \<Rightarrow> seq ds s' | Exit m s' \<Rightarrow> Exit m s')"
  by (induction cs arbitrary: s) (auto split: outcome.splits)

text \<open>A predicate every command of a sequence keeps holds of the final state, exit or not.\<close>

lemma seq_invariant:
  assumes "\<And>c s. c \<in> set cs \<Longrightarrow> I s \<Longrightarrow> I (final (c s))" and "I s"
  shows "I (final (seq cs s))"
  using assms
proof (induction cs arbitrary: s)
  case Nil
  then show ?case by simp
next
  case (Cons c cs)
  have "I (final (c s))" using Cons.prems by simp
  then show ?case using Cons by (cases "c s") auto
qed

end
