(* ===== verification/CLib.thy ===== *)
theory CLib
  imports Prelude
begin

text \<open>
  The parts of the C library the sources compute with: character classes, the integer
  conversions of \<open>strtol\<close>, \<open>sscanf\<close> and \<open>sprintf\<close>, and C strings
  in character arrays.  A C string is the part of an array before its first NUL.
\<close>

section \<open>Characters and C strings\<close>

definition NUL :: char where
  "NUL = CHR 0x00"

definition cstr :: "string \<Rightarrow> string" where
  "cstr a = takeWhile (\<lambda>c. c \<noteq> NUL) a"

lemma cstr_append_NUL: "NUL \<notin> set s \<Longrightarrow> cstr (s @ NUL # t) = s"
  unfolding cstr_def by (subst takeWhile_append2) auto

definition is_space :: "char \<Rightarrow> bool" where
  "is_space c \<longleftrightarrow> of_char c = (32 :: nat) \<or> (9 \<le> (of_char c :: nat) \<and> of_char c \<le> (13 :: nat))"

text \<open>The value of a digit; anything else has a value no base admits.\<close>

definition digit_val :: "char \<Rightarrow> nat" where
  "digit_val c = (let n = of_char c in
     if 48 \<le> n \<and> n \<le> 57 then n - 48
     else if 97 \<le> n \<and> n \<le> 122 then n - 87
     else if 65 \<le> n \<and> n \<le> 90 then n - 55 else 99)"

definition digits :: "nat \<Rightarrow> string \<Rightarrow> string" where
  "digits b s = takeWhile (\<lambda>c. digit_val c < b) s"

definition after_digits :: "nat \<Rightarrow> string \<Rightarrow> string" where
  "after_digits b s = dropWhile (\<lambda>c. digit_val c < b) s"

definition num :: "nat \<Rightarrow> string \<Rightarrow> nat" where
  "num b ds = foldl (\<lambda>a c. a * b + digit_val c) 0 ds"

fun sign :: "string \<Rightarrow> bool \<times> string" where
  "sign [] = (False, [])"
| "sign (c # s) =
    (if c = CHR ''-'' then (True, s) else if c = CHR ''+'' then (False, s) else (False, c # s))"

definition signed :: "bool \<Rightarrow> nat \<Rightarrow> int" where
  "signed neg n = (if neg then - int n else int n)"

fun hex_prefix :: "string \<Rightarrow> bool" where
  "hex_prefix (a # b # s) \<longleftrightarrow> a = CHR ''0'' \<and> (b = CHR ''x'' \<or> b = CHR ''X'')"
| "hex_prefix _ \<longleftrightarrow> False"

section \<open>strtol with base 0, and the scanning of integers\<close>

text \<open>
  \<open>strtol(s, NULL, 0)\<close>: leading white space, a sign, then a hexadecimal (\<open>0x\<close>), octal
  (\<open>0\<close>) or decimal number; what follows is ignored, and a string with no number gives 0.  The
  result saturates at the limits of a 64-bit \<open>long\<close>.
\<close>

definition clamp_long :: "int \<Rightarrow> int" where
  "clamp_long v = max (- (2 ^ 63)) (min (2 ^ 63 - 1) v)"

definition strtol0 :: "string \<Rightarrow> int" where
  "strtol0 str = (case sign (dropWhile is_space str) of (neg, s) \<Rightarrow>
     clamp_long (signed neg
       (if hex_prefix s \<and> digits 16 (drop 2 s) \<noteq> [] then num 16 (digits 16 (drop 2 s))
        else if take 1 s = ''0'' then num 8 (digits 8 s)
        else num 10 (digits 10 s))))"

text \<open>An \<open>int\<close> variable assigned from \<open>strtol\<close>.\<close>

definition strtol_int :: "string \<Rightarrow> int" where
  "strtol_int s = to_int32 (strtol0 s)"

text \<open>\<open>atoi\<close>: \<open>(int) strtol(s, NULL, 10)\<close>.\<close>

definition atoi :: "string \<Rightarrow> int" where
  "atoi str = (case sign (dropWhile is_space str) of (neg, s) \<Rightarrow>
     to_int32 (clamp_long (signed neg (num 10 (digits 10 s)))))"

text \<open>\<open>%d\<close> of \<open>sscanf\<close>: the value and the rest of the input.\<close>

definition scan_d :: "string \<Rightarrow> (int \<times> string) option" where
  "scan_d str = (case sign (dropWhile is_space str) of (neg, s) \<Rightarrow>
     if digits 10 s = [] then None
     else Some (to_int32 (clamp_long (signed neg (num 10 (digits 10 s)))), after_digits 10 s))"

text \<open>
  \<open>%x\<close> of \<open>sscanf\<close> into an \<open>unsigned int\<close>: an optional \<open>0x\<close> is
  skipped; the conversion is that of \<open>strtoul\<close>, cut to 32 bits.
\<close>

definition scan_x :: "string \<Rightarrow> (u32 \<times> string) option" where
  "scan_x str = (case sign (dropWhile is_space str) of (neg, s0) \<Rightarrow>
     let s = (if hex_prefix s0 then drop 2 s0 else s0) in
     if digits 16 s = [] then None
     else Some (word_of_int (signed neg (min (2 ^ 64 - 1) (num 16 (digits 16 s)))), after_digits 16 s))"

text \<open>A literal character of a \<open>sscanf\<close> format, and \<open>%s\<close>.\<close>

fun scan_lit :: "string \<Rightarrow> string \<Rightarrow> string option" where
  "scan_lit [] s = Some s"
| "scan_lit (c # cs) [] = None"
| "scan_lit (c # cs) (d # s) = (if c = d then scan_lit cs s else None)"

definition scan_s :: "string \<Rightarrow> (string \<times> string) option" where
  "scan_s str = (let s = dropWhile is_space str; w = takeWhile (\<lambda>c. \<not> is_space c) s in
     if w = [] then None else Some (w, drop (length w) s))"

section \<open>Printing integers\<close>

definition digit_char :: "nat \<Rightarrow> char" where
  "digit_char d = (''0123456789abcdef'' ! d)"

fun print_base :: "nat \<Rightarrow> nat \<Rightarrow> string" where
  "print_base b n =
    (if n < b \<or> b < 2 then [digit_char n] else print_base b (n div b) @ [digit_char (n mod b)])"

declare print_base.simps [simp del]

text \<open>\<open>%0wx\<close>: hexadecimal, padded with zeros to at least \<open>w\<close> characters.\<close>

definition print_0x :: "nat \<Rightarrow> u32 \<Rightarrow> string" where
  "print_0x w x = (let ds = print_base 16 (unat x) in replicate (w - length ds) CHR ''0'' @ ds)"

text \<open>\<open>%d\<close>.\<close>

definition print_d :: "int \<Rightarrow> string" where
  "print_d x = (if x < 0 then CHR ''-'' # print_base 10 (nat (- x)) else print_base 10 (nat x))"

section \<open>Digits round trip\<close>

text \<open>A printed digit: its value, and what it is not.  The sixteen cases are evaluated.\<close>

definition plain_digit :: "nat \<Rightarrow> bool" where
  "plain_digit d \<longleftrightarrow> digit_val (digit_char d) = d \<and> \<not> is_space (digit_char d)
    \<and> digit_char d \<noteq> CHR ''-'' \<and> digit_char d \<noteq> CHR ''+'' \<and> digit_char d \<noteq> CHR ''x''
    \<and> digit_char d \<noteq> CHR ''X'' \<and> digit_char d \<noteq> CHR '':'' \<and> digit_char d \<noteq> NUL"

lemma plain_digits: "list_all plain_digit [0..<16]"
  by code_simp

lemma digit_char_facts: "d < 16 \<Longrightarrow> plain_digit d"
  using plain_digits by (simp add: list_all_iff)

lemma digit_val_digit_char [simp]: "d < 16 \<Longrightarrow> digit_val (digit_char d) = d"
  using digit_char_facts by (simp add: plain_digit_def)

text \<open>Strings of printed digits.\<close>

definition digit_string :: "nat \<Rightarrow> string \<Rightarrow> bool" where
  "digit_string b s \<longleftrightarrow> (\<forall>c \<in> set s. \<exists>d < b. c = digit_char d)"

lemma digit_string_simps [simp]:
  "digit_string b []"
  "digit_string b (c # s) \<longleftrightarrow> (\<exists>d < b. c = digit_char d) \<and> digit_string b s"
  "digit_string b (s @ t) \<longleftrightarrow> digit_string b s \<and> digit_string b t"
  by (auto simp: digit_string_def)

lemma digit_string_char:
  assumes "digit_string b s" and "b \<le> 16" and "c \<in> set s"
  shows "digit_val c < b" "\<not> is_space c" "c \<noteq> CHR ''-''" "c \<noteq> CHR ''+''" "c \<noteq> CHR ''x''"
    "c \<noteq> CHR ''X''" "c \<noteq> CHR '':''" "c \<noteq> NUL"
proof -
  from assms obtain d where d: "d < b" "c = digit_char d" by (auto simp: digit_string_def)
  then have "d < 16" using assms(2) by simp
  from digit_char_facts [OF this, unfolded plain_digit_def] d
  show "digit_val c < b" "\<not> is_space c" "c \<noteq> CHR ''-''" "c \<noteq> CHR ''+''" "c \<noteq> CHR ''x''"
    "c \<noteq> CHR ''X''" "c \<noteq> CHR '':''" "c \<noteq> NUL"
    by auto
qed

lemma print_base_digits: "2 \<le> b \<Longrightarrow> digit_string b (print_base b n)"
proof (induction b n rule: print_base.induct)
  case (1 b n)
  show ?case
  proof (cases "n < b")
    case True
    then show ?thesis by (subst print_base.simps) auto
  next
    case False
    have "n mod b < b" using 1 by simp
    then have "\<exists>d < b. digit_char (n mod b) = digit_char d" by blast
    with 1 False show ?thesis by (subst print_base.simps) simp
  qed
qed

lemma print_base_nonempty: "print_base b n \<noteq> []"
  by (subst print_base.simps) simp

lemma num_append: "num b (s @ t) = num b s * b ^ length t + num b t"
proof (induction t rule: rev_induct)
  case Nil
  then show ?case by (simp add: num_def)
next
  case (snoc c t)
  then show ?case by (simp add: num_def algebra_simps flip: append_assoc)
qed

lemma num_simps [simp]: "num b [] = 0" "num b [c] = digit_val c"
  by (simp_all add: num_def)

lemma num_zeros [simp]: "num b (replicate k CHR ''0'') = 0"
proof (induction k)
  case 0
  then show ?case by simp
next
  case (Suc k)
  have "num b (replicate (Suc k) CHR ''0'') = num b ([CHR ''0''] @ replicate k CHR ''0'')" by simp
  also have "\<dots> = 0" using Suc by (simp only: num_append) (simp add: digit_val_def)
  finally show ?case .
qed

lemma num_print_base: "2 \<le> b \<Longrightarrow> b \<le> 16 \<Longrightarrow> num b (print_base b n) = n"
proof (induction b n rule: print_base.induct)
  case (1 b n)
  show ?case
  proof (cases "n < b")
    case True
    then show ?thesis using 1 by (subst print_base.simps) simp
  next
    case False
    have "n mod b < b" using "1.prems" by simp
    then have "n mod b < 16" using "1.prems" by linarith
    then show ?thesis using 1 False
      by (subst print_base.simps) (simp add: num_append mod_mult_div_eq mult.commute)
  qed
qed

lemma length_print_base: "2 \<le> b \<Longrightarrow> 0 < w \<Longrightarrow> length (print_base b n) \<le> w \<longleftrightarrow> n < b ^ w"
proof (induction b n arbitrary: w rule: print_base.induct)
  case (1 b n)
  show ?case
  proof (cases "n < b")
    case True
    moreover have "b \<le> b ^ w" using 1 by (simp add: self_le_power)
    ultimately show ?thesis using 1 by (subst print_base.simps) auto
  next
    case False
    then obtain v where w: "w = Suc v" using 1 by (cases w) auto
    show ?thesis
    proof (cases v)
      case 0
      then show ?thesis using w False print_base_nonempty
        by (subst print_base.simps) (use 1 in auto)
    next
      case (Suc u)
      have "length (print_base b n) \<le> w \<longleftrightarrow> length (print_base b (n div b)) \<le> v"
        using False 1 w by (subst print_base.simps) simp
      also have "\<dots> \<longleftrightarrow> n div b < b ^ v" using 1 False Suc by simp
      also have "\<dots> \<longleftrightarrow> n < b ^ w" using 1 w
        by (simp add: less_mult_imp_div_less div_less_iff_less_mult mult.commute)
      finally show ?thesis .
    qed
  qed
qed

lemma digit_string_zeros [simp]: "2 \<le> b \<Longrightarrow> digit_string b (replicate k CHR ''0'')"
proof -
  assume "2 \<le> b"
  then have "0 < b \<and> CHR ''0'' = digit_char 0" by (simp add: digit_char_def)
  then show "digit_string b (replicate k CHR ''0'')" unfolding digit_string_def by auto
qed

lemma print_0x_digits: "digit_string 16 (print_0x w x)"
  by (simp add: print_0x_def Let_def print_base_digits)

lemma print_0x_nonempty: "print_0x w x \<noteq> []"
  by (simp add: print_0x_def Let_def print_base_nonempty)

lemma num_print_0x: "num 16 (print_0x w x) = unat x"
  by (simp add: print_0x_def Let_def num_append num_print_base)

lemma length_print_0x: "0 < w \<Longrightarrow> length (print_0x w x) = w \<longleftrightarrow> unat x < 16 ^ w"
proof -
  assume "0 < w"
  then have "length (print_base 16 (unat x)) \<le> w \<longleftrightarrow> unat x < 16 ^ w"
    by (simp add: length_print_base)
  then show ?thesis by (auto simp: print_0x_def Let_def)
qed

text \<open>A run of digits that ends where the run ends is what the scanner takes.\<close>

lemma digits_append:
  assumes "digit_string b s" and "b \<le> 16" and "t = [] \<or> \<not> digit_val (hd t) < b"
  shows "digits b (s @ t) = s" "after_digits b (s @ t) = t"
proof -
  have s: "\<forall>c \<in> set s. digit_val c < b" using digit_string_char(1) [OF assms(1,2)] by blast
  then show "digits b (s @ t) = s" using assms(3)
    by (cases t) (auto simp: digits_def)
  from s show "after_digits b (s @ t) = t" using assms(3)
    by (cases t) (auto simp: after_digits_def)
qed

lemma digit_string_start:
  assumes "digit_string b s" and "b \<le> 16" and "s \<noteq> []"
  shows "dropWhile is_space (s @ t) = s @ t" "sign (s @ t) = (False, s @ t)"
proof -
  obtain c s' where s: "s = c # s'" using assms(3) by (cases s) auto
  have c: "\<not> is_space c" "c \<noteq> CHR ''-''" "c \<noteq> CHR ''+''"
    using digit_string_char(2-4) [OF assms(1,2), of c] s by auto
  then show "dropWhile is_space (s @ t) = s @ t" "sign (s @ t) = (False, s @ t)"
    by (simp_all add: s)
qed

lemma no_hex_prefix:
  assumes "digit_string b s" and "b \<le> 16" and "s \<noteq> []"
    and "t = [] \<or> hd t \<noteq> CHR ''x'' \<and> hd t \<noteq> CHR ''X''"
  shows "\<not> hex_prefix (s @ t)"
proof (cases s)
  case (Cons c s')
  then show ?thesis
  proof (cases s')
    case Nil
    then show ?thesis using Cons assms(4) by (cases t) auto
  next
    case (Cons d s'')
    then show ?thesis using \<open>s = c # s'\<close> digit_string_char(5,6) [OF assms(1,2), of d] by auto
  qed
qed (use assms in simp)

lemma scan_x_print:
  assumes "t = [] \<or> \<not> digit_val (hd t) < 16" and "t = [] \<or> hd t \<noteq> CHR ''x'' \<and> hd t \<noteq> CHR ''X''"
  shows "scan_x (print_0x w x @ t) = Some (x, t)"
proof -
  note d = print_0x_digits [of w x] order_refl
  note n = print_0x_nonempty [of w x]
  have "unat x < 2 ^ 32" using unsigned_less [of x] by simp
  then have "min (2 ^ 64 - 1) (unat x) = unat x" by simp
  then show ?thesis
    by (simp add: scan_x_def digit_string_start [OF d n] no_hex_prefix [OF d n assms(2)]
        digits_append [OF d assms(1)] n num_print_0x signed_def)
qed

section \<open>Path names\<close>

text \<open>
  \<open>basename\<close> of libgen: the last component, trailing slashes ignored.
\<close>

definition basename :: "string \<Rightarrow> string" where
  "basename p = (let q = rev (dropWhile (\<lambda>c. c = CHR ''/'') (rev p)) in
     if p = [] then ''.'' else if q = [] then ''/''
     else rev (takeWhile (\<lambda>c. c \<noteq> CHR ''/'') (rev q)))"

section \<open>Memory\<close>

text \<open>A buffer is a function of the offset.\<close>

type_synonym buffer = "nat \<Rightarrow> char"

definition store_at :: "buffer \<Rightarrow> string \<Rightarrow> buffer" where
  "store_at b d = (\<lambda>i. if i < length d then d ! i else b i)"

definition read_at :: "buffer \<Rightarrow> nat \<Rightarrow> string" where
  "read_at b n = map b [0..<n]"

lemma read_store [simp]: "n \<le> length d \<Longrightarrow> read_at (store_at b d) n = take n d"
  by (rule nth_equalityI) (simp_all add: read_at_def store_at_def)

lemma length_read_at [simp]: "length (read_at b n) = n"
  by (simp add: read_at_def)

lemma cstr_read_store:
  assumes "NUL \<notin> set d" and "length d < n"
  shows "cstr (read_at (store_at b (d @ [NUL])) n) = d"
proof -
  have "read_at (store_at b (d @ [NUL])) n = d @ NUL # map (store_at b (d @ [NUL])) [Suc (length d)..<n]"
    using assms(2) by (auto simp: read_at_def store_at_def nth_append less_Suc_eq intro!: nth_equalityI)
  then show ?thesis using assms(1) by (simp add: cstr_append_NUL)
qed

end
