(* ===== verification/Verbs.thy ===== *)
theory Verbs
  imports Prelude
begin

text \<open>
  The vocabulary of libibverbs, librdmacm and the C library as the examples use it: the request
  and attribute structures the code fills in, the calls it makes, and the completions and
  attributes it reads back.  None of these calls is given a behaviour here: what a call returns
  is the environment's choice (theory Prelude).  The theory also defines the two automata the
  properties of call sequences are stated against: which resources a process holds, and through
  which states it drives a queue pair.
\<close>

section \<open>Structures\<close>

type_synonym ptr = int

text \<open>A GID is read by the code as four 32-bit words (\<open>(uint32_t *) gid->raw\<close>).\<close>

type_synonym gid = "u32 list"

definition zero_gid :: gid where
  "zero_gid = [0, 0, 0, 0]"

text \<open>\<open>gid.global.interface_id\<close> is the second half of the 16 bytes.\<close>

definition interface_id_set :: "gid \<Rightarrow> bool" where
  "interface_id_set g \<longleftrightarrow> g ! 2 \<noteq> 0 \<or> g ! 3 \<noteq> 0"

datatype access = LOCAL_WRITE | REMOTE_WRITE | REMOTE_READ | ON_DEMAND | ALLOCATE_MR

datatype send_opcode = WR_SEND | WR_RDMA_WRITE | WR_RDMA_WRITE_WITH_IMM | WR_RDMA_READ | WR_NOP

record sge =
  sg_addr :: int
  sg_length :: int
  sg_lkey :: int

record send_wr =
  swr_id :: int
  swr_opcode :: send_opcode
  swr_sges :: "sge list"
  swr_signaled :: bool
  swr_imm :: u32
  swr_remote_addr :: int
  swr_rkey :: int
  swr_ah :: ptr
  swr_remote_qpn :: u32
  swr_remote_qkey :: u32
  swr_remote_srqn :: u32
  swr_dct_key :: u64
  swr_dct_number :: u32

record recv_wr =
  rwr_id :: int
  rwr_sges :: "sge list"

datatype wc_opcode = WC_SEND | WC_RDMA_WRITE | WC_RDMA_READ | WC_RECV | WC_RECV_RDMA_WITH_IMM

text \<open>\<open>wc.status\<close> is 0 for \<open>IBV_WC_SUCCESS\<close>.\<close>

record wc =
  wc_wr_id :: int
  wc_status :: int
  wc_opcode :: wc_opcode
  wc_imm :: u32
  wc_qp_num :: u32

text \<open>
  \<open>opcode & IBV_WC_RECV\<close>: verbs.h documents that consumers test the bit to see whether a
  completion is a receive.
\<close>

definition wc_is_recv :: "wc_opcode \<Rightarrow> bool" where
  "wc_is_recv op \<longleftrightarrow> op = WC_RECV \<or> op = WC_RECV_RDMA_WITH_IMM"

datatype qp_state = QPS_RESET | QPS_INIT | QPS_RTR | QPS_RTS

datatype qp_mask = M_STATE | M_PKEY_INDEX | M_PORT | M_ACCESS_FLAGS | M_AV | M_PATH_MTU
  | M_DEST_QPN | M_RQ_PSN | M_MAX_DEST_RD_ATOMIC | M_MIN_RNR_TIMER | M_TIMEOUT | M_RETRY_CNT
  | M_RNR_RETRY | M_SQ_PSN | M_MAX_QP_RD_ATOMIC | M_OOO_RW_DATA_PLACEMENT | M_QKEY | M_DC_KEY

record ah_attr =
  is_global :: int
  dlid :: u32
  ah_sl :: int
  src_path_bits :: int
  ah_port_num :: int
  grh_hop_limit :: int
  grh_dgid :: gid
  grh_sgid_index :: int

record qp_attr =
  qp_state :: qp_state
  path_mtu :: u32
  dest_qp_num :: u32
  rq_psn :: u32
  sq_psn :: u32
  max_dest_rd_atomic :: int
  max_rd_atomic :: int
  min_rnr_timer :: int
  timeout :: int
  retry_cnt :: int
  rnr_retry :: int
  pkey_index :: int
  port_num :: int
  qp_access_flags :: int
  qkey :: u32
  qa_dct_key :: u64
  av :: ah_attr

definition zero_ah :: ah_attr where
  "zero_ah = \<lparr>is_global = 0, dlid = 0, ah_sl = 0, src_path_bits = 0, ah_port_num = 0,
     grh_hop_limit = 0, grh_dgid = zero_gid, grh_sgid_index = 0\<rparr>"

definition zero_qp_attr :: qp_attr where
  "zero_qp_attr = \<lparr>qp_state = QPS_RESET, path_mtu = 0, dest_qp_num = 0, rq_psn = 0, sq_psn = 0,
     max_dest_rd_atomic = 0, max_rd_atomic = 0, min_rnr_timer = 0, timeout = 0, retry_cnt = 0,
     rnr_retry = 0, pkey_index = 0, port_num = 0, qp_access_flags = 0,
     qkey = 0, qa_dct_key = 0, av = zero_ah\<rparr>"

datatype qp_type = QPT_RC | QPT_UC | QPT_UD | QPT_XRC_RECV | QPT_XRC_SEND | QPT_DC_INI

record qp_init =
  send_cq :: ptr
  recv_cq :: ptr
  qi_type :: qp_type
  max_send_wr :: int
  max_recv_wr :: int
  max_send_sge :: int
  max_recv_sge :: int
  max_inline_data :: int
  qi_pd :: ptr
  qi_comp_mask :: "string set"
  qi_max_inl_recv :: int
  qi_res_domain :: ptr
  qi_srq :: ptr
  qi_xrcd :: ptr
  qi_max_inl_klms :: int

definition zero_qp_init :: qp_init where
  "zero_qp_init = \<lparr>send_cq = 0, recv_cq = 0, qi_type = QPT_RC, max_send_wr = 0, max_recv_wr = 0,
     max_send_sge = 0, max_recv_sge = 0, max_inline_data = 0, qi_pd = 0, qi_comp_mask = {},
     qi_max_inl_recv = 0, qi_res_domain = 0, qi_srq = 0, qi_xrcd = 0,
     qi_max_inl_klms = 0\<rparr>"

record reg_mr_in =
  rin_pd :: ptr
  rin_addr :: ptr
  rin_length :: int
  rin_access :: "access set"
  rin_comp_mask :: "string set"
  rin_contig :: bool
  rin_dm :: ptr

text \<open>
  The target of the dynamically connected transport, and the memory a user-mode registration maps
  to one region: whole regions, or a number of blocks of each at a stride; each with its address
  and the region it is part of.
\<close>

record dct_init =
  di_pd :: ptr
  di_cq :: ptr
  di_srq :: ptr
  di_key :: u64
  di_port :: int
  di_access :: "access set"
  di_min_rnr_timer :: int
  di_mtu :: u32
  di_gid_index :: int
  di_hop_limit :: int
  di_ooo :: bool
  di_inline_size :: int

datatype umr_memory = Umr_list "(int \<times> int \<times> ptr) list" | Umr_repeat int "(int \<times> int \<times> int \<times> ptr) list"

record umr_fill =
  uf_umr :: ptr
  uf_base :: int
  uf_inline :: bool
  uf_container :: ptr
  uf_memory :: umr_memory

record conn_param =
  initiator_depth :: int
  responder_resources :: int
  rnr_retry_count :: int

definition zero_conn_param :: conn_param where
  "zero_conn_param = \<lparr>initiator_depth = 0, responder_resources = 0, rnr_retry_count = 0\<rparr>"

section \<open>Calls\<close>

text \<open>The C library and the kernel.\<close>

datatype libc_call =
    Calloc string | Malloc string | Memalign int int | Free ptr
  | Open string | Close int | Read int int | Recv int int | Write int string
  | Getaddrinfo "string option" int | Getaddrinfo_service string string | Freeaddrinfo
  | Asprintf int | Free_service | Getpid
  | Socket ptr | Connect_sock int ptr | Setsockopt_reuse int | Bind_sock int ptr
  | Listen_sock int int | Accept_sock int
  | Sem_init string int | Sem_post string | Sem_wait string | Pthread_create string
  | Lrand48 | Gettimeofday
  | Pthread_cancel string | Pthread_join string
  | Set_affinity int | Get_affinity int | Get_cpu_hz | Get_cycles

text \<open>The control path of libibverbs: devices, memory regions, queues.\<close>

datatype ibv_call =
    Get_device_list | Free_device_list ptr | Open_device ptr | Close_device ptr
  | Query_device ptr "string set" | Query_port ptr int | Query_gid ptr int int
  | Create_comp_channel ptr | Destroy_comp_channel ptr
  | Alloc_pd ptr | Dealloc_pd ptr
  | Reg_mr ptr ptr int "access set" | Exp_reg_mr reg_mr_in | Dereg_mr ptr
  | Alloc_dm ptr int | Free_dm ptr | Memcpy_dm ptr ptr int
  | Create_cq ptr int ptr | Exp_create_cq ptr int "ptr option" | Destroy_cq ptr
  | Create_qp ptr qp_init | Destroy_qp ptr | Modify_qp ptr qp_attr "qp_mask set"
  | Query_intf ptr string ptr | Release_intf ptr ptr
  | Create_res_domain ptr | Destroy_res_domain ptr ptr
  | Create_srq ptr int int | Destroy_srq ptr | Create_ah ptr ah_attr | Destroy_ah ptr
  | Open_xrcd ptr int | Close_xrcd ptr | Create_srq_ex ptr int int ptr ptr ptr | Get_srq_num ptr
  | Create_dct ptr dct_init | Query_dct ptr | Destroy_dct ptr | Arm_dct ptr
  | Get_async_event ptr | Ack_async_event
  | Create_indirect_mr ptr int | Alloc_mkey_list ptr int | Dealloc_mkey_list ptr

text \<open>The data path: work requests, completions, the burst interfaces.\<close>

datatype data_call =
    Post_send ptr "send_wr list" | Post_recv ptr "recv_wr list" | Post_srq_recv ptr "recv_wr list"
  | Poll_cq ptr int | Req_notify_cq ptr | Get_cq_event ptr | Ack_cq_events ptr int
  | Post_umr_fill ptr umr_fill | Post_umr_invalidate ptr ptr
  | Send_pending ptr sge | Send_pending_inline ptr sge | Send_pending_sg_list ptr sge
  | Send_flush ptr | Send_burst ptr "sge list" | Recv_burst ptr "sge list"
  | Poll_cnt ptr int | Poll_length ptr bool

text \<open>librdmacm.\<close>

datatype cm_call =
    Create_event_channel | Destroy_event_channel ptr | Create_id ptr | Destroy_id ptr
  | Resolve_addr ptr int | Resolve_route ptr int | Connect ptr conn_param
  | Accept ptr conn_param | Bind_addr ptr int | Listen ptr int
  | Rdma_create_qp ptr ptr qp_init | Rdma_destroy_qp ptr | Disconnect ptr | Ack_cm_event
  | Get_src_port ptr

datatype api = Libc libc_call | Ibv ibv_call | Data data_call | Cm cm_call

type_synonym trace = "api history"

text \<open>The environment of the examples also delivers completions to a poll.\<close>

record api_env = "api env" +
  wcs_in :: "trace \<Rightarrow> api \<Rightarrow> wc list"

type_synonym 'a prog = "(api, 'a) io"

text \<open>A poll returns a count and stores that many completions.\<close>

definition invoke_wcs :: "api_env \<Rightarrow> api \<Rightarrow> (int \<times> wc list) prog" where
  "invoke_wcs E c = State (\<lambda>h. ((ret E h c, take (nat (ret E h c)) (wcs_in E h c)), (c, ret E h c) # h))"

lemma run_invoke_wcs:
  "run_state (invoke_wcs E c) h =
     ((ret E h c, take (nat (ret E h c)) (wcs_in E h c)), (c, ret E h c) # h)"
  by (simp add: invoke_wcs_def)

lemma sat_invoke_wcs [sat_intro]:
  "(\<And>r ws. \<exists>q'. f q c r = Some q' \<and> Q (r, ws) q') \<Longrightarrow> sat f (invoke_wcs E c) q Q"
  by (simp add: sat_def run_invoke_wcs)

text \<open>Look at the history: what the adapter has stored by now depends on it.\<close>

definition peek :: "(trace \<Rightarrow> 'a) \<Rightarrow> 'a prog" where
  "peek f = State (\<lambda>h. (f h, h))"

lemma run_peek: "run_state (peek f) h = (f h, h)"
  by (simp add: peek_def)

lemma sat_peek [sat_intro]: "(\<And>x. Q x q) \<Longrightarrow> sat g (peek f) q Q"
  by (simp add: sat_def run_peek)

text \<open>A read or receive returns a count and stores that many bytes.\<close>

definition bytes_of :: "api_env \<Rightarrow> trace \<Rightarrow> api \<Rightarrow> string" where
  "bytes_of E h c = take (nat (ret E h c)) (data_in E h c @ replicate (nat (ret E h c)) CHR 0x00)"

definition invoke_bytes :: "api_env \<Rightarrow> api \<Rightarrow> (int \<times> string) prog" where
  "invoke_bytes E c = do {
     (r, d) \<leftarrow> invoke_data E c;
     ret_io (r, take (nat r) (d @ replicate (nat r) CHR 0x00)) }"

lemma sat_invoke_bytes [sat_intro]:
  "(\<And>r d. \<exists>q'. f q c r = Some q' \<and> Q (r, d) q') \<Longrightarrow> sat f (invoke_bytes E c) q Q"
  by (simp add: sat_def invoke_bytes_def run_invoke_data State_Monad.bind_def State_Monad.return_def)

lemma wp_invoke_bytes [simp]:
  "wp (invoke_bytes E c) Q = (\<lambda>h. Q (ret E h c, bytes_of E h c) ((c, ret E h c) # h))"
  by (rule ext) (simp add: invoke_bytes_def bytes_of_def)

text \<open>An environment whose answers depend on the call alone, for concrete runs.\<close>

definition const_env :: "(api \<Rightarrow> int) \<Rightarrow> (api \<Rightarrow> string) \<Rightarrow> api_env" where
  "const_env f d = \<lparr>ret = (\<lambda>h. f), data_in = (\<lambda>h. d), attr_in = (\<lambda>h c a. 1), wcs_in = (\<lambda>h c. [])\<rparr>"

text \<open>The bytes a process has written, in order.\<close>

fun written :: "trace \<Rightarrow> string list" where
  "written [] = []"
| "written ((c, r) # h) = (case c of Libc (Write fd s) \<Rightarrow> written h @ [s] | _ \<Rightarrow> written h)"

lemma run_bind: "run_state (State_Monad.bind m k) h =
  (case run_state m h of (a, h') \<Rightarrow> run_state (k a) h')"
  by (simp add: State_Monad.bind_def)

lemma run_return: "run_state (State_Monad.return a) h = (a, h)"
  by (simp add: State_Monad.return_def)

lemmas run_simps = run_bind run_return run_invokes run_invoke_wcs run_peek invoke_bytes_def when_io_def

lemma gives_invoke_bytes:
  "(\<And>h. Q (ret E h c, bytes_of E h c)) \<Longrightarrow> gives (invoke_bytes E c) Q"
  by (simp add: gives_def invoke_bytes_def bytes_of_def run_simps)

text \<open>The sends and receives posted with success, counted, and the send requests in order.\<close>

fun sends :: "trace \<Rightarrow> int" where
  "sends [] = 0"
| "sends ((c, r) # h) = sends h + (case c of Data (Post_send q w) \<Rightarrow> if r = 0 then 1 else 0 | _ \<Rightarrow> 0)"

fun recvs :: "trace \<Rightarrow> int" where
  "recvs [] = 0"
| "recvs ((c, r) # h) = recvs h + (case c of Data (Post_recv q w) \<Rightarrow> if r = 0 then 1 else 0
     | Data (Post_srq_recv q w) \<Rightarrow> if r = 0 then 1 else 0 | _ \<Rightarrow> 0)"

fun sent_wrs :: "trace \<Rightarrow> send_wr list" where
  "sent_wrs [] = []"
| "sent_wrs ((c, r) # h) =
    sent_wrs h @ (case c of Data (Post_send q ws) \<Rightarrow> if r = 0 then ws else [] | _ \<Rightarrow> [])"

text \<open>How often the process has asked for a disconnect.\<close>

fun disconnects :: "trace \<Rightarrow> nat" where
  "disconnects [] = 0"
| "disconnects ((c, r) # h) = (case c of Cm (Disconnect i) \<Rightarrow> 1 | _ \<Rightarrow> 0) + disconnects h"

section \<open>The resources a process holds\<close>

datatype res = Heap | Service | Fd | Addrinfo | Device_list | Device | Channel | Pd | Mr | Dm | Cq | Qp
  | Intf | Res_domain | Srq | Ah | Xrcd | Dct | Mkey_list

text \<open>
  What a successful call acquires.  A descriptor is acquired when the result is not negative, a
  pointer when it is not \<open>NULL\<close>; \<open>getaddrinfo\<close> and \<open>asprintf\<close> return a status, so their
  resource is the one their result parameter (\<open>res\<close>, \<open>service\<close>) holds.
\<close>

definition acquired :: "api \<Rightarrow> int \<Rightarrow> (res \<times> int) option" where
  "acquired c r = (case c of
      Libc l \<Rightarrow> (case l of
          Calloc _ \<Rightarrow> if r \<noteq> 0 then Some (Heap, r) else None
        | Malloc _ \<Rightarrow> if r \<noteq> 0 then Some (Heap, r) else None
        | Memalign _ _ \<Rightarrow> if r \<noteq> 0 then Some (Heap, r) else None
        | Asprintf _ \<Rightarrow> if 0 \<le> r then Some (Service, 0) else None
        | Getaddrinfo _ _ \<Rightarrow> if 0 \<le> r then Some (Addrinfo, 0) else None
        | Getaddrinfo_service _ _ \<Rightarrow> if r = 0 then Some (Addrinfo, 0) else None
        | Socket _ \<Rightarrow> if 0 \<le> r then Some (Fd, r) else None
        | Accept_sock _ \<Rightarrow> if 0 \<le> r then Some (Fd, r) else None
        | Open _ \<Rightarrow> if 0 \<le> r then Some (Fd, r) else None
        | _ \<Rightarrow> None)
    | Ibv i \<Rightarrow> (case i of
          Get_device_list \<Rightarrow> if r \<noteq> 0 then Some (Device_list, r) else None
        | Open_device _ \<Rightarrow> if r \<noteq> 0 then Some (Device, r) else None
        | Create_comp_channel _ \<Rightarrow> if r \<noteq> 0 then Some (Channel, r) else None
        | Alloc_pd _ \<Rightarrow> if r \<noteq> 0 then Some (Pd, r) else None
        | Reg_mr _ _ _ _ \<Rightarrow> if r \<noteq> 0 then Some (Mr, r) else None
        | Exp_reg_mr _ \<Rightarrow> if r \<noteq> 0 then Some (Mr, r) else None
        | Alloc_dm _ _ \<Rightarrow> if r \<noteq> 0 then Some (Dm, r) else None
        | Create_cq _ _ _ \<Rightarrow> if r \<noteq> 0 then Some (Cq, r) else None
        | Exp_create_cq _ _ _ \<Rightarrow> if r \<noteq> 0 then Some (Cq, r) else None
        | Create_qp _ _ \<Rightarrow> if r \<noteq> 0 then Some (Qp, r) else None
        | Query_intf _ _ _ \<Rightarrow> if r \<noteq> 0 then Some (Intf, r) else None
        | Create_res_domain _ \<Rightarrow> if r \<noteq> 0 then Some (Res_domain, r) else None
        | Create_srq _ _ _ \<Rightarrow> if r \<noteq> 0 then Some (Srq, r) else None
        | Create_ah _ _ \<Rightarrow> if r \<noteq> 0 then Some (Ah, r) else None
        | Open_xrcd _ _ \<Rightarrow> if r \<noteq> 0 then Some (Xrcd, r) else None
        | Create_srq_ex _ _ _ _ _ _ \<Rightarrow> if r \<noteq> 0 then Some (Srq, r) else None
        | Create_dct _ _ \<Rightarrow> if r \<noteq> 0 then Some (Dct, r) else None
        | Create_indirect_mr _ _ \<Rightarrow> if r \<noteq> 0 then Some (Mr, r) else None
        | Alloc_mkey_list _ _ \<Rightarrow> if r \<noteq> 0 then Some (Mkey_list, r) else None
        | _ \<Rightarrow> None)
    | _ \<Rightarrow> None)"

text \<open>
  What a call gives back.  \<open>free(NULL)\<close> is allowed and does nothing; no interface is released
  through a null pointer.
\<close>

definition released :: "api \<Rightarrow> (res \<times> int) option" where
  "released c = (case c of
      Libc l \<Rightarrow> (case l of
          Free p \<Rightarrow> if p = 0 then None else Some (Heap, p)
        | Close fd \<Rightarrow> Some (Fd, fd)
        | Freeaddrinfo \<Rightarrow> Some (Addrinfo, 0)
        | Free_service \<Rightarrow> Some (Service, 0)
        | _ \<Rightarrow> None)
    | Ibv i \<Rightarrow> (case i of
          Free_device_list p \<Rightarrow> Some (Device_list, p)
        | Close_device p \<Rightarrow> Some (Device, p)
        | Destroy_comp_channel p \<Rightarrow> Some (Channel, p)
        | Dealloc_pd p \<Rightarrow> Some (Pd, p)
        | Dereg_mr p \<Rightarrow> Some (Mr, p)
        | Free_dm p \<Rightarrow> Some (Dm, p)
        | Destroy_cq p \<Rightarrow> Some (Cq, p)
        | Destroy_qp p \<Rightarrow> Some (Qp, p)
        | Release_intf _ p \<Rightarrow> if p = 0 then None else Some (Intf, p)
        | Destroy_res_domain _ p \<Rightarrow> Some (Res_domain, p)
        | Destroy_srq p \<Rightarrow> Some (Srq, p)
        | Destroy_ah p \<Rightarrow> Some (Ah, p)
        | Close_xrcd p \<Rightarrow> Some (Xrcd, p)
        | Destroy_dct p \<Rightarrow> Some (Dct, p)
        | Dealloc_mkey_list p \<Rightarrow> Some (Mkey_list, p)
        | _ \<Rightarrow> None)
    | _ \<Rightarrow> None)"

text \<open>
  The automaton: the multiset of resources held.  Giving back something that is not held (a
  double free, or the cleanup of something never acquired) is not allowed.
\<close>

definition track :: "(res \<times> int) multiset \<Rightarrow> api \<Rightarrow> int \<Rightarrow> (res \<times> int) multiset option" where
  "track M c r = (case released c of
      Some x \<Rightarrow> if x \<in># M then Some (M - {#x#}) else None
    | None \<Rightarrow> (case acquired c r of Some x \<Rightarrow> Some (add_mset x M) | None \<Rightarrow> Some M))"

abbreviation held :: "trace \<Rightarrow> (res \<times> int) multiset option" where
  "held \<equiv> obs track {#}"

lemmas track_simps = track_def released_def acquired_def

section \<open>The states of a queue pair\<close>

text \<open>
  The abstract specification of \<open>ibv_modify_qp\<close> for a reliable connection: the states
  follow one another, and each transition carries the attributes the InfiniBand specification
  requires (optional ones may be added).
\<close>

definition rc_required :: "qp_state \<Rightarrow> qp_mask set" where
  "rc_required s = (case s of
      QPS_RESET \<Rightarrow> {M_STATE}
    | QPS_INIT \<Rightarrow> {M_STATE, M_PKEY_INDEX, M_PORT, M_ACCESS_FLAGS}
    | QPS_RTR \<Rightarrow> {M_STATE, M_AV, M_PATH_MTU, M_DEST_QPN, M_RQ_PSN, M_MAX_DEST_RD_ATOMIC,
        M_MIN_RNR_TIMER}
    | QPS_RTS \<Rightarrow> {M_STATE, M_TIMEOUT, M_RETRY_CNT, M_RNR_RETRY, M_SQ_PSN, M_MAX_QP_RD_ATOMIC})"

fun next_qp_state :: "qp_state \<Rightarrow> qp_state option" where
  "next_qp_state QPS_RESET = Some QPS_INIT"
| "next_qp_state QPS_INIT = Some QPS_RTR"
| "next_qp_state QPS_RTR = Some QPS_RTS"
| "next_qp_state QPS_RTS = None"

text \<open>The queue-pair states are ordered by the way to \<open>RTS\<close>.\<close>

fun qp_rank :: "qp_state \<Rightarrow> nat" where
  "qp_rank QPS_RESET = 0"
| "qp_rank QPS_INIT = 1"
| "qp_rank QPS_RTR = 2"
| "qp_rank QPS_RTS = 3"

lemma qp_rank_inj: "qp_rank a = qp_rank b \<longleftrightarrow> a = b"
  by (cases a; cases b) simp_all

instantiation qp_state :: linorder
begin

definition less_eq_qp_state :: "qp_state \<Rightarrow> qp_state \<Rightarrow> bool" where
  "less_eq_qp_state a b \<longleftrightarrow> qp_rank a \<le> qp_rank b"

definition less_qp_state :: "qp_state \<Rightarrow> qp_state \<Rightarrow> bool" where
  "less_qp_state a b \<longleftrightarrow> qp_rank a < qp_rank b"

instance
  by standard (auto simp: less_eq_qp_state_def less_qp_state_def qp_rank_inj)

end

text \<open>
  The automaton for the queue pair \<open>q\<close>: every \<open>modify\<close> of \<open>q\<close> asks for the
  next state with the required attributes, and takes effect when it succeeds.
\<close>

definition qp_step :: "ptr \<Rightarrow> qp_state \<Rightarrow> api \<Rightarrow> int \<Rightarrow> qp_state option" where
  "qp_step q s c r = (case c of
      Ibv (Modify_qp p a m) \<Rightarrow>
        if p \<noteq> q then Some s
        else if next_qp_state s = Some (qp_state a) \<and> rc_required (qp_state a) \<subseteq> m
        then Some (if r = 0 then qp_state a else s) else None
    | _ \<Rightarrow> Some s)"

lemma qp_step_mono: "qp_step q s c r = Some s' \<Longrightarrow> s \<le> s'"
  by (cases s) (auto simp: qp_step_def less_eq_qp_state_def split: api.splits ibv_call.splits if_splits)

end
