(* ===== verification/Wire.thy ===== *)
theory Wire
  imports CLib Verbs
begin

text \<open>
  pingpong.c and the address messages of rc_pingpong.c (\<open>pp_client_exch_dest\<close>,
  \<open>pp_server_exch_dest\<close>): a destination is sent as a fixed-size text message.  The
  contract of such a message, that a stream of them can be cut and read back, is the locale
  \<open>wire_codec\<close>; the GID and the destination message are its instances here, the messages of
  intf.c in IntfExchange.
\<close>

section \<open>pingpong.c\<close>

text \<open>\<open>enum ibv_mtu\<close> has the values 1 to 5; gcc gives it the type \<open>unsigned int\<close>.\<close>

definition pp_mtu_to_enum :: "int \<Rightarrow> u32" where
  "pp_mtu_to_enum mtu =
    (if mtu = 256 then 1 else if mtu = 512 then 2 else if mtu = 1024 then 3
     else if mtu = 2048 then 4 else if mtu = 4096 then 5 else - 1)"

definition pp_get_local_lid :: "api_env \<Rightarrow> ptr \<Rightarrow> int \<Rightarrow> u32 prog" where
  "pp_get_local_lid E context port = do {
     (r, attr) \<leftarrow> invoke_attr E (Ibv (Query_port context port));
     if r \<noteq> 0 then ret_io 0 else ret_io (take_bit 16 (word_of_int (attr ''lid'')))
   }"

definition pp_get_port_info :: "api_env \<Rightarrow> ptr \<Rightarrow> int \<Rightarrow> (int \<times> (string \<Rightarrow> int)) prog" where
  "pp_get_port_info E context port = invoke_attr E (Ibv (Query_port context port))"

text \<open>
  \<open>wire_gid_to_gid\<close> copies eight characters at a time into \<open>tmp\<close> and scans them.  A
  scan that fails leaves \<open>v32\<close> as it was, before the first success that is the value of an
  uninitialised variable, here the argument \<open>v32\<close>.
\<close>

fun scan_gid_words :: "nat \<Rightarrow> string \<Rightarrow> u32 \<Rightarrow> gid" where
  "scan_gid_words 0 wgid v32 = []"
| "scan_gid_words (Suc n) wgid v32 =
    (let v = (case scan_x (cstr (take 8 wgid)) of Some (x, _) \<Rightarrow> x | None \<Rightarrow> v32)
     in bswap32 v # scan_gid_words n (drop 8 wgid) v)"

definition wire_gid_to_gid :: "u32 \<Rightarrow> string \<Rightarrow> gid" where
  "wire_gid_to_gid v32 wgid = scan_gid_words 4 wgid v32"

text \<open>
  Each \<open>sprintf\<close> writes eight characters and a NUL the next one overwrites: the array of
  33 characters holds 32 digits and one NUL.
\<close>

definition gid_to_wire_gid :: "gid \<Rightarrow> string" where
  "gid_to_wire_gid gid = concat (map (\<lambda>raw. print_0x 8 (bswap32 raw)) (take 4 gid)) @ [NUL]"

section \<open>The destination message of rc_pingpong.c\<close>

record pp_dest =
  d_lid :: u32
  d_qpn :: u32
  d_psn :: u32
  d_gid :: gid

text \<open>A string stored into a character array by \<open>sprintf\<close> or \<open>sscanf\<close>.\<close>

definition store_str :: "string \<Rightarrow> string \<Rightarrow> string" where
  "store_str s a = s @ [NUL] @ drop (length s + 1) a"

lemma cstr_store_str [simp]: "NUL \<notin> set s \<Longrightarrow> cstr (store_str s a) = s"
  by (simp add: store_str_def cstr_append_NUL)

text \<open>\<open>sizeof "0000:000000:000000:00000000000000000000000000000000"\<close>\<close>

definition MSG_SIZE :: nat where
  "MSG_SIZE = 52"

definition print_dest :: "pp_dest \<Rightarrow> string" where
  "print_dest d = print_0x 4 (d_lid d) @ '':'' @ print_0x 6 (d_qpn d) @ '':''
     @ print_0x 6 (d_psn d) @ '':'' @ cstr (gid_to_wire_gid (d_gid d))"

text \<open>The bytes \<open>write\<close> sends: the string, its NUL and, were it short, what \<open>msg\<close> held.\<close>

definition dest_msg :: "string \<Rightarrow> pp_dest \<Rightarrow> string" where
  "dest_msg old d = take MSG_SIZE (store_str (print_dest d) old)"

text \<open>
  A run of \<open>%x:\<close> fields of a \<open>sscanf\<close> format: the values assigned, and the input that is
  left when every field matched.
\<close>

fun scan_xs :: "nat \<Rightarrow> string \<Rightarrow> u32 list \<times> string option" where
  "scan_xs 0 s = ([], Some s)"
| "scan_xs (Suc n) s = (case scan_x s of
      None \<Rightarrow> ([], None)
    | Some (x, r) \<Rightarrow> (case scan_lit '':'' r of
          None \<Rightarrow> ([x], None)
        | Some r' \<Rightarrow> (case scan_xs n r' of (xs, t) \<Rightarrow> (x # xs, t))))"

text \<open>
  \<open>sscanf(msg, "%x:%x:%x:%s", &lid, &qpn, &psn, gid)\<close> followed by \<open>wire_gid_to_gid\<close>.  The
  destination is fresh from \<open>malloc\<close> (its fields are \<open>junk\<close>), \<open>gid\<close> holds what it held.
\<close>

definition scan_dest :: "u32 \<Rightarrow> string \<Rightarrow> pp_dest \<Rightarrow> string \<Rightarrow> pp_dest" where
  "scan_dest v32 gid junk msg = (case scan_xs 3 (cstr msg) of (xs, t) \<Rightarrow>
     let gid' = (case t of None \<Rightarrow> gid | Some s \<Rightarrow>
                   (case scan_s s of None \<Rightarrow> gid | Some (w, _) \<Rightarrow> store_str w gid))
     in \<lparr>d_lid = (if 0 < length xs then xs ! 0 else d_lid junk),
         d_qpn = (if 1 < length xs then xs ! 1 else d_qpn junk),
         d_psn = (if 2 < length xs then xs ! 2 else d_psn junk),
         d_gid = wire_gid_to_gid v32 gid'\<rparr>)"

text \<open>The \<open>%s\<close> has no width: a word of more than 32 characters overruns \<open>char gid[33]\<close>.\<close>

definition overruns_gid :: "nat \<Rightarrow> string \<Rightarrow> bool" where
  "overruns_gid n msg = (case snd (scan_xs n (cstr msg)) of None \<Rightarrow> False | Some s \<Rightarrow>
     (case scan_s s of None \<Rightarrow> False | Some (w, _) \<Rightarrow> 32 < length w))"

text \<open>What a LID, a QP number and a masked PSN are: the message has room for exactly these.\<close>

definition dest_fits :: "pp_dest \<Rightarrow> bool" where
  "dest_fits d \<longleftrightarrow> unat (d_lid d) < 2 ^ 16 \<and> unat (d_qpn d) < 2 ^ 24 \<and> unat (d_psn d) < 2 ^ 24
     \<and> length (d_gid d) = 4"

section \<open>Fixed-size messages on a stream\<close>

locale wire_codec =
  fixes valid :: "'a \<Rightarrow> bool" and enc :: "'a \<Rightarrow> string" and dec :: "string \<Rightarrow> 'a" and msg_size :: nat
  assumes enc_size: "valid x \<Longrightarrow> length (enc x) = msg_size"
    and dec_enc: "valid x \<Longrightarrow> dec (enc x) = x"
begin

text \<open>Cut a stream of \<open>n\<close> messages, each read whole (\<open>MSG_WAITALL\<close>), and decode them.\<close>

fun unframe :: "nat \<Rightarrow> string \<Rightarrow> 'a list" where
  "unframe 0 s = []"
| "unframe (Suc n) s = dec (take msg_size s) # unframe n (drop msg_size s)"

lemma unframe_stream:
  "list_all valid xs \<Longrightarrow> unframe (length xs) (concat (map enc xs) @ rest) = xs"
  by (induction xs) (simp_all add: enc_size dec_enc)

lemma enc_inj: "valid x \<Longrightarrow> valid y \<Longrightarrow> enc x = enc y \<Longrightarrow> x = y"
  by (metis dec_enc)

lemma enc_stream_inj:
  assumes "list_all valid xs" and "list_all valid ys" and "length xs = length ys"
    and "concat (map enc xs) = concat (map enc ys)"
  shows "xs = ys"
  using assms unframe_stream [of xs "[]"] unframe_stream [of ys "[]"] by simp

end

section \<open>Round trips\<close>

lemma cstr_digits: "digit_string 16 s \<Longrightarrow> cstr s = s"
  unfolding cstr_def using digit_string_char(8) [of 16 s] by (simp add: takeWhile_eq_all_conv)

lemma no_NUL_digits: "digit_string 16 s \<Longrightarrow> NUL \<notin> set s"
  using digit_string_char(8) by blast

lemma digit_string_wire_gid: "digit_string 16 (concat (map (\<lambda>raw. print_0x 8 (bswap32 raw)) g))"
  by (induction g) (simp_all add: print_0x_digits)

lemma length_wire_gid: "length (concat (map (\<lambda>raw. print_0x 8 (bswap32 raw)) g)) = 8 * length g"
proof (induction g)
  case (Cons a g)
  have "unat (bswap32 a) < 16 ^ 8" using unsigned_less [of "bswap32 a"] by simp
  then show ?case using Cons by (simp add: length_print_0x [THEN iffD2])
qed simp

lemma cstr_gid_to_wire_gid:
  "length g = 4 \<Longrightarrow> cstr (gid_to_wire_gid g) = concat (map (\<lambda>raw. print_0x 8 (bswap32 raw)) g)"
  using cstr_append_NUL [OF no_NUL_digits [OF digit_string_wire_gid]]
  by (simp add: gid_to_wire_gid_def)

lemma scan_gid_words_print:
  "scan_gid_words (length g) (concat (map (\<lambda>raw. print_0x 8 (bswap32 raw)) g) @ t) v = g"
proof (induction g arbitrary: v)
  case (Cons a g)
  have "unat (bswap32 a) < 16 ^ 8" using unsigned_less [of "bswap32 a"] by simp
  then have "length (print_0x 8 (bswap32 a)) = 8" by (simp add: length_print_0x)
  moreover have "scan_x (cstr (print_0x 8 (bswap32 a))) = Some (bswap32 a, [])"
    using scan_x_print [of "[]"] by (simp add: cstr_digits print_0x_digits)
  ultimately show ?case using Cons by simp
qed simp

lemma wire_gid_to_gid_print:
  "length g = 4 \<Longrightarrow> wire_gid_to_gid v (gid_to_wire_gid g @ t) = g"
  using scan_gid_words_print [of g "NUL # t" v]
  by (simp add: wire_gid_to_gid_def gid_to_wire_gid_def)

lemma length_gid_to_wire_gid: "length g = 4 \<Longrightarrow> length (gid_to_wire_gid g) = 33"
  by (simp add: gid_to_wire_gid_def length_wire_gid)

interpretation wire_gid: wire_codec "\<lambda>g. length g = 4" gid_to_wire_gid "wire_gid_to_gid v" 33
  for v
  by unfold_locales (use wire_gid_to_gid_print [of _ v "[]"] in \<open>simp_all add: length_gid_to_wire_gid\<close>)

text \<open>A field printed before a colon is scanned back.\<close>

lemma scan_x_colon: "scan_x (print_0x w x @ CHR '':'' # t) = Some (x, CHR '':'' # t)"
  by (rule scan_x_print) (simp_all add: digit_val_def)

lemma scan_s_word:
  assumes "digit_string 16 s" and "s \<noteq> []"
  shows "scan_s s = Some (s, [])"
proof -
  have "\<forall>c \<in> set s. \<not> is_space c" using digit_string_char(2) [OF assms(1)] by blast
  moreover have "dropWhile is_space s = s"
    using digit_string_start(1) [OF assms(1) _ assms(2), of "[]"] by simp
  ultimately show ?thesis using assms(2)
    by (simp add: scan_s_def takeWhile_eq_all_conv [THEN iffD2])
qed

lemma no_NUL_print_0x [simp]: "NUL \<notin> set (print_0x w x)"
  by (simp add: no_NUL_digits print_0x_digits)

lemma wire_gid_word:
  assumes "length g = 4"
  shows "scan_s (cstr (gid_to_wire_gid g)) = Some (cstr (gid_to_wire_gid g), [])"
    and "NUL \<notin> set (cstr (gid_to_wire_gid g))" and "length (cstr (gid_to_wire_gid g)) = 32"
    and "wire_gid_to_gid v (store_str (cstr (gid_to_wire_gid g)) a) = g"
proof -
  have l: "length (cstr (gid_to_wire_gid g)) = 32"
    using assms by (simp add: cstr_gid_to_wire_gid length_wire_gid)
  then show "length (cstr (gid_to_wire_gid g)) = 32" .
  show "scan_s (cstr (gid_to_wire_gid g)) = Some (cstr (gid_to_wire_gid g), [])"
    using l assms by (intro scan_s_word) (simp add: cstr_gid_to_wire_gid digit_string_wire_gid, force)
  show "NUL \<notin> set (cstr (gid_to_wire_gid g))"
    using assms by (simp add: cstr_gid_to_wire_gid no_NUL_digits digit_string_wire_gid)
  have "store_str (cstr (gid_to_wire_gid g)) a = gid_to_wire_gid g @ drop 33 a"
    using assms cstr_gid_to_wire_gid [OF assms] length_wire_gid [of g]
    by (simp add: store_str_def gid_to_wire_gid_def)
  then show "wire_gid_to_gid v (store_str (cstr (gid_to_wire_gid g)) a) = g"
    using assms by (simp add: wire_gid_to_gid_print)
qed

lemma NUL_not_colon [simp]: "NUL \<noteq> CHR '':''"
  by (simp add: NUL_def)

lemma scan_xs_dest:
  "scan_xs 3 (print_dest d) = ([d_lid d, d_qpn d, d_psn d], Some (cstr (gid_to_wire_gid (d_gid d))))"
  by (simp add: print_dest_def scan_x_colon numeral_3_eq_3)

lemma length_print_dest: "dest_fits d \<Longrightarrow> length (print_dest d) = 51"
  by (simp add: dest_fits_def print_dest_def wire_gid_word(3) length_print_0x [THEN iffD2])

lemma no_NUL_print_dest: "dest_fits d \<Longrightarrow> NUL \<notin> set (print_dest d)"
  by (simp add: dest_fits_def print_dest_def wire_gid_word(2))

lemma dest_msg_eq: "dest_fits d \<Longrightarrow> dest_msg old d = print_dest d @ [NUL]"
  by (simp add: dest_msg_def store_str_def MSG_SIZE_def length_print_dest)

lemma cstr_dest_msg: "dest_fits d \<Longrightarrow> cstr (dest_msg old d) = print_dest d"
  by (simp add: dest_msg_eq cstr_append_NUL no_NUL_print_dest)

lemma scan_dest_msg:
  assumes "dest_fits d"
  shows "scan_dest v gid junk (dest_msg old d) = d"
  using assms wire_gid_word [of "d_gid d"]
  by (simp add: scan_dest_def cstr_dest_msg scan_xs_dest dest_fits_def)

interpretation rc_msg: wire_codec dest_fits "dest_msg old" "scan_dest v gid junk" MSG_SIZE
  for old v gid junk
  by unfold_locales (simp add: dest_msg_eq length_print_dest MSG_SIZE_def, rule scan_dest_msg)

section \<open>Properties\<close>

definition demo_dest :: pp_dest where
  "demo_dest = \<lparr>d_lid = 0x1a, d_qpn = 0x2b3c, d_psn = 0xffffff, d_gid = [0xfe800000, 0, 7, 0x01020304]\<rparr>"

lemma demo_dest_fits: "dest_fits demo_dest"
  by (simp add: dest_fits_def demo_dest_def)

text \<open>
  C6: A destination with a 16-bit LID, a 24-bit QP number and a 24-bit PSN is sent as exactly the
  52 bytes the receiver waits for, the receiver reads back that destination whatever its own
  variables held before, and its array for the GID is not overrun.
\<close>

theorem dest_message_roundtrip:
  assumes "dest_fits d"
  shows "length (dest_msg old d) = MSG_SIZE \<and> scan_dest v gid junk (dest_msg old d) = d
    \<and> \<not> overruns_gid 3 (dest_msg old d)"
  using assms wire_gid_word [of "d_gid d"]
  by (simp add: scan_dest_msg overruns_gid_def cstr_dest_msg scan_xs_dest dest_fits_def
      rc_msg.enc_size)

theorem dest_message_roundtrip_witness:
  "scan_dest 0 ''x'' demo_dest (dest_msg ''junk'' demo_dest) = demo_dest"
  using dest_message_roundtrip [OF demo_dest_fits] by blast

text \<open>
  The buffer of 52 characters is large enough for a destination exactly when its LID has 16
  bits and its QP number and PSN have 24: anything wider makes \<open>sprintf\<close> write past its end.
\<close>

theorem dest_message_bound:
  assumes "length (d_gid d) = 4"
  shows "length (print_dest d) < MSG_SIZE \<longleftrightarrow> dest_fits d"
proof
  assume "dest_fits d"
  then show "length (print_dest d) < MSG_SIZE" by (simp add: length_print_dest MSG_SIZE_def)
next
  have w: "k \<le> length (print_0x k x)" for k x
    by (simp add: print_0x_def Let_def)
  assume "length (print_dest d) < MSG_SIZE"
  then have "length (print_0x 4 (d_lid d)) + length (print_0x 6 (d_qpn d))
      + length (print_0x 6 (d_psn d)) \<le> 16"
    by (simp add: print_dest_def MSG_SIZE_def wire_gid_word(3) [OF assms])
  then have "length (print_0x 4 (d_lid d)) = 4 \<and> length (print_0x 6 (d_qpn d)) = 6
      \<and> length (print_0x 6 (d_psn d)) = 6"
    using w [of 4 "d_lid d"] w [of 6 "d_qpn d"] w [of 6 "d_psn d"] by linarith
  then show "dest_fits d" using assms by (simp add: dest_fits_def length_print_0x)
qed

theorem dest_message_bound_witness: "length (print_dest demo_dest) < MSG_SIZE"
  using dest_message_bound [of demo_dest] demo_dest_fits by (simp add: demo_dest_def)

text \<open>
  A GID is converted to 32 digits and back without loss, whatever the uninitialised variable
  of \<open>wire_gid_to_gid\<close> holds and whatever follows the text, and different GIDs have different
  texts.
\<close>

theorem gid_roundtrip:
  assumes "length g = 4" and "length g' = 4"
  shows "wire_gid_to_gid v (gid_to_wire_gid g @ t) = g \<and> length (gid_to_wire_gid g) = 33
    \<and> (gid_to_wire_gid g = gid_to_wire_gid g' \<longleftrightarrow> g = g')"
  using assms wire_gid_to_gid_print length_gid_to_wire_gid
    wire_gid.enc_inj [of g g'] by blast

theorem gid_roundtrip_witness:
  "wire_gid_to_gid 5 (gid_to_wire_gid [1, 2, 3, 0xfe80] @ ''tail'') = [1, 2, 3, 0xfe80]"
  using gid_roundtrip [of "[1, 2, 3, 0xfe80]" "[1, 2, 3, 0xfe80]"] by simp

text \<open>
  A peer can overrun \<open>char gid[33]\<close>: the format \<open>%s\<close> has no width, so a fourth field of more
  than 32 characters, for which the message has room, is stored past the end of the array.
\<close>

theorem long_gid_overruns:
  assumes "digit_string 16 w" and "32 < length w"
  shows "overruns_gid 3 (''0:0:0:'' @ w @ [NUL])"
proof -
  have z: "print_0x (Suc 0) 0 = ''0''"
    by (simp add: print_0x_def print_base.simps [of 16 0] digit_char_def)
  have c: "cstr (''0:0:0:'' @ w @ [NUL]) = print_0x 1 0 @ CHR '':'' # print_0x 1 0 @ CHR '':''
      # print_0x 1 0 @ CHR '':'' # w"
    using cstr_append_NUL [of "''0:0:0:'' @ w" "[]"] no_NUL_digits [OF assms(1)]
    by (simp add: z NUL_def)
  have "w \<noteq> []" using assms(2) by auto
  then show ?thesis using assms scan_s_word [OF assms(1)]
    unfolding overruns_gid_def c by (simp add: numeral_3_eq_3 scan_x_colon)
qed

theorem long_gid_overruns_witness:
  "overruns_gid 3 (''0:0:0:'' @ replicate 40 (CHR ''0'') @ [NUL])"
  by (rule long_gid_overruns) simp_all

end
