(* ===== verification/RcContext.thy ===== *)
theory RcContext
  imports Verbs
begin

text \<open>
  The context of rc_pingpong.c: \<open>pp_connect_ctx\<close>, \<open>pp_init_ctx\<close> with its cleanup labels,
  \<open>pp_close_ctx\<close>, \<open>pp_post_recv\<close>, \<open>pp_post_send\<close> and \<open>send_nop\<close>.  Each \<open>goto\<close> label is a
  definition that runs the statements from the label to the end of the function.  The contract
  of a context, that failing to make one leaks nothing and closing one gives everything back, is
  the locale \<open>ctx_lifecycle\<close>; the way a queue pair is driven to \<open>RTS\<close> is stated
  with the automaton \<open>qp_step\<close>.
\<close>

section \<open>State\<close>

text \<open>The file's static flags.  Those the code counts up are only tested for zero.\<close>

record rc_flags =
  page_size :: int
  use_contiguous_mr :: bool
  use_odp :: bool
  use_dm :: bool
  use_upstream :: bool
  use_ooo :: bool
  contig_addr :: ptr

text \<open>
  \<open>struct pingpong_context\<close>, with its own address, and with the fields of \<open>*mr\<close> and
  \<open>*qp\<close> the code reads.
\<close>

record pp_ctx =
  self :: ptr
  context_of :: ptr
  channel :: ptr
  pd :: ptr
  mr :: ptr
  mr_lkey :: int
  mr_addr :: ptr
  dm :: ptr
  cq :: ptr
  qp :: ptr
  qp_num :: u32
  buf :: ptr
  ctx_size :: int
  rx_depth :: int
  pending :: int
  inlr_recv :: int

definition new_ctx :: "ptr \<Rightarrow> pp_ctx" where
  "new_ctx p = \<lparr>self = p, context_of = 0, channel = 0, pd = 0, mr = 0, mr_lkey = 0, mr_addr = 0,
     dm = 0, cq = 0, qp = 0, qp_num = 0, buf = 0, ctx_size = 0, rx_depth = 0, pending = 0,
     inlr_recv = 0\<rparr>"

definition PINGPONG_RECV_WRID :: int where
  "PINGPONG_RECV_WRID = 1"

definition PINGPONG_SEND_WRID :: int where
  "PINGPONG_SEND_WRID = 2"

text \<open>The remote end, as \<open>pp_connect_ctx\<close> reads it.\<close>

definition rtr_attr :: "u32 \<Rightarrow> u32 \<Rightarrow> u32 \<Rightarrow> u32 \<Rightarrow> int \<Rightarrow> int \<Rightarrow> gid \<Rightarrow> int \<Rightarrow> qp_attr" where
  "rtr_attr mtu lid qpn psn sl port g sgid_idx =
    (let ah = zero_ah\<lparr>is_global := 0, dlid := lid, ah_sl := sl, src_path_bits := 0,
                      ah_port_num := port\<rparr>
     in zero_qp_attr\<lparr>qp_state := QPS_RTR, path_mtu := mtu, dest_qp_num := qpn, rq_psn := psn,
          max_dest_rd_atomic := 1, min_rnr_timer := 12,
          av := (if interface_id_set g
                 then ah\<lparr>is_global := 1, grh_hop_limit := 1, grh_dgid := g,
                         grh_sgid_index := sgid_idx\<rparr>
                 else ah)\<rparr>)"

definition rts_attr :: "u32 \<Rightarrow> qp_attr \<Rightarrow> qp_attr" where
  "rts_attr my_psn a = a\<lparr>qp_state := QPS_RTS, timeout := 14, retry_cnt := 7, rnr_retry := 7,
     sq_psn := my_psn, max_rd_atomic := 1\<rparr>"

definition pp_connect_ctx ::
    "api_env \<Rightarrow> rc_flags \<Rightarrow> pp_ctx \<Rightarrow> int \<Rightarrow> u32 \<Rightarrow> u32 \<Rightarrow> int \<Rightarrow> u32 \<Rightarrow> u32 \<Rightarrow> u32 \<Rightarrow> gid
      \<Rightarrow> int \<Rightarrow> int prog" where
  "pp_connect_ctx E g ctx port my_psn mtu sl lid qpn psn dgid sgid_idx = do {
     let attr = rtr_attr mtu lid qpn psn sl port dgid sgid_idx;
     let attr_mask = {M_STATE, M_AV, M_PATH_MTU, M_DEST_QPN, M_RQ_PSN, M_MAX_DEST_RD_ATOMIC,
                      M_MIN_RNR_TIMER} \<union> (if use_ooo g then {M_OOO_RW_DATA_PLACEMENT} else {});
     r \<leftarrow> invoke E (Ibv (Modify_qp (qp ctx) attr attr_mask));
     if r \<noteq> 0 then ret_io 1
     else do {
       r' \<leftarrow> invoke E (Ibv (Modify_qp (qp ctx) (rts_attr my_psn attr)
               {M_STATE, M_TIMEOUT, M_RETRY_CNT, M_RNR_RETRY, M_SQ_PSN, M_MAX_QP_RD_ATOMIC}));
       if r' \<noteq> 0 then ret_io 1 else ret_io 0
     }
   }"

section \<open>The cleanup labels of pp_init_ctx\<close>

definition clean_ctx :: "api_env \<Rightarrow> pp_ctx \<Rightarrow> pp_ctx option prog" where
  "clean_ctx E ctx = do { invoke E (Libc (Free (self ctx))); ret_io None }"

definition clean_buffer :: "api_env \<Rightarrow> rc_flags \<Rightarrow> pp_ctx \<Rightarrow> pp_ctx option prog" where
  "clean_buffer E g ctx = do {
     when_io (\<not> use_contiguous_mr g) (invoke E (Libc (Free (buf ctx))));
     clean_ctx E ctx }"

definition clean_device :: "api_env \<Rightarrow> rc_flags \<Rightarrow> pp_ctx \<Rightarrow> pp_ctx option prog" where
  "clean_device E g ctx = do {
     invoke E (Ibv (Close_device (context_of ctx)));
     clean_buffer E g ctx }"

definition clean_comp_channel :: "api_env \<Rightarrow> rc_flags \<Rightarrow> pp_ctx \<Rightarrow> pp_ctx option prog" where
  "clean_comp_channel E g ctx = do {
     when_io (channel ctx \<noteq> 0) (invoke E (Ibv (Destroy_comp_channel (channel ctx))));
     clean_device E g ctx }"

definition clean_pd :: "api_env \<Rightarrow> rc_flags \<Rightarrow> pp_ctx \<Rightarrow> pp_ctx option prog" where
  "clean_pd E g ctx = do {
     invoke E (Ibv (Dealloc_pd (pd ctx)));
     clean_comp_channel E g ctx }"

definition clean_dm :: "api_env \<Rightarrow> rc_flags \<Rightarrow> pp_ctx \<Rightarrow> pp_ctx option prog" where
  "clean_dm E g ctx = do {
     when_io (dm ctx \<noteq> 0) (invoke E (Ibv (Free_dm (dm ctx))));
     clean_pd E g ctx }"

definition clean_mr :: "api_env \<Rightarrow> rc_flags \<Rightarrow> pp_ctx \<Rightarrow> pp_ctx option prog" where
  "clean_mr E g ctx = do {
     invoke E (Ibv (Dereg_mr (mr ctx)));
     clean_dm E g ctx }"

definition clean_cq :: "api_env \<Rightarrow> rc_flags \<Rightarrow> pp_ctx \<Rightarrow> pp_ctx option prog" where
  "clean_cq E g ctx = do {
     invoke E (Ibv (Destroy_cq (cq ctx)));
     clean_mr E g ctx }"

definition clean_qp :: "api_env \<Rightarrow> rc_flags \<Rightarrow> pp_ctx \<Rightarrow> pp_ctx option prog" where
  "clean_qp E g ctx = do {
     invoke E (Ibv (Destroy_qp (qp ctx)));
     clean_cq E g ctx }"

lemmas clean_defs = clean_ctx_def clean_buffer_def clean_device_def clean_comp_channel_def
  clean_pd_def clean_dm_def clean_mr_def clean_cq_def clean_qp_def

section \<open>pp_init_ctx\<close>

text \<open>From \<open>ibv_modify_qp\<close> to \<open>INIT\<close> on.\<close>

definition init_to_INIT :: "api_env \<Rightarrow> rc_flags \<Rightarrow> int \<Rightarrow> pp_ctx \<Rightarrow> pp_ctx option prog" where
  "init_to_INIT E g port ctx = do {
     r \<leftarrow> invoke E (Ibv (Modify_qp (qp ctx)
            (zero_qp_attr\<lparr>qp_state := QPS_INIT, pkey_index := 0, port_num := port,
                          qp_access_flags := 0\<rparr>)
            {M_STATE, M_PKEY_INDEX, M_PORT, M_ACCESS_FLAGS}));
     if r \<noteq> 0 then clean_qp E g ctx else ret_io (Some ctx)
   }"

definition rc_qp_init :: "pp_ctx \<Rightarrow> qp_init" where
  "rc_qp_init ctx = zero_qp_init\<lparr>send_cq := cq ctx, recv_cq := cq ctx, max_send_wr := 1,
     max_recv_wr := rx_depth ctx, max_send_sge := 1, max_recv_sge := 1, qi_type := QPT_RC,
     qi_pd := pd ctx,
     qi_comp_mask := (if inlr_recv ctx \<noteq> 0 then {''PD'', ''INL_RECV''} else {''PD''}),
     qi_max_inl_recv := inlr_recv ctx\<rparr>"

definition init_cq_qp :: "api_env \<Rightarrow> rc_flags \<Rightarrow> int \<Rightarrow> pp_ctx \<Rightarrow> pp_ctx option prog" where
  "init_cq_qp E g port ctx = do {
     q \<leftarrow> invoke E (Ibv (Create_cq (context_of ctx) (rx_depth ctx + 1) (channel ctx)));
     let ctx = ctx\<lparr>cq := q\<rparr>;
     if cq ctx = 0 then clean_mr E g ctx
     else do {
       (p, attr) \<leftarrow> invoke_attr E (Ibv (Create_qp (context_of ctx) (rc_qp_init ctx)));
       let ctx = ctx\<lparr>qp := p, qp_num := word_of_int (attr ''qp_num'')\<rparr>;
       if qp ctx = 0 then clean_cq E g ctx else init_to_INIT E g port ctx
     }
   }"

text \<open>
  After the registration: the memory is filled (its contents are never read back) and copied to
  the device memory.  A copy that fails goes to \<open>clean_dm\<close>.
\<close>

definition init_fill :: "api_env \<Rightarrow> rc_flags \<Rightarrow> int \<Rightarrow> pp_ctx \<Rightarrow> pp_ctx option prog" where
  "init_fill E g port ctx =
    (if mr ctx = 0 then clean_dm E g ctx
     else do {
       let ctx = (if use_contiguous_mr g then ctx\<lparr>buf := mr_addr ctx\<rparr> else ctx);
       r \<leftarrow> when_io (use_dm g) (invoke E (Ibv (Memcpy_dm (dm ctx) (buf ctx) (ctx_size ctx))));
       if r \<noteq> 0 then clean_dm E g ctx else init_cq_qp E g port ctx
     })"

text \<open>The bits of \<open>dattr.comp_mask\<close> the code tests, after a query.\<close>

definition comp_mask :: "(string \<Rightarrow> int) \<Rightarrow> string set" where
  "comp_mask attr = set (filter (\<lambda>f. attr f \<noteq> 0) [''INLINE_RECV_SZ'', ''ODP'', ''MAX_DM_SIZE''])"

definition set_mr :: "int \<times> (string \<Rightarrow> int) \<Rightarrow> pp_ctx \<Rightarrow> pp_ctx" where
  "set_mr ra ctx = ctx\<lparr>mr := fst ra, mr_lkey := snd ra ''lkey'', mr_addr := snd ra ''addr''\<rparr>"

definition reg_plain :: "api_env \<Rightarrow> rc_flags \<Rightarrow> int \<Rightarrow> pp_ctx \<Rightarrow> pp_ctx option prog" where
  "reg_plain E g port ctx = do {
     ra \<leftarrow> invoke_attr E (Ibv (Reg_mr (pd ctx) (buf ctx) (ctx_size ctx) {LOCAL_WRITE}));
     init_fill E g port (set_mr ra ctx)
   }"

definition reg_odp_upstream :: "api_env \<Rightarrow> rc_flags \<Rightarrow> int \<Rightarrow> pp_ctx \<Rightarrow> pp_ctx option prog" where
  "reg_odp_upstream E g port ctx = do {
     (r, attrx) \<leftarrow> invoke_attr E (Ibv (Query_device (context_of ctx) {''ex''}));
     if r \<noteq> 0 then clean_pd E g ctx
     else if attrx ''ODP_SUPPORT'' = 0 \<or> attrx ''rc:SEND'' = 0 \<or> attrx ''rc:RECV'' = 0
     then clean_pd E g ctx
     else do {
       ra \<leftarrow> invoke_attr E (Ibv (Reg_mr (pd ctx) (buf ctx) (ctx_size ctx) {LOCAL_WRITE, ON_DEMAND}));
       init_fill E g port (set_mr ra ctx)
     }
   }"

definition reg_odp_exp ::
    "api_env \<Rightarrow> rc_flags \<Rightarrow> int \<Rightarrow> string set \<Rightarrow> pp_ctx \<Rightarrow> pp_ctx option prog" where
  "reg_odp_exp E g port cmask ctx = do {
     (r, dattr) \<leftarrow> invoke_attr E (Ibv (Query_device (context_of ctx) (cmask \<union> {''ODP''})));
     if r \<noteq> 0 then clean_pd E g ctx
     else if dattr ''ODP'' = 0 then clean_pd E g ctx
     else if dattr ''rc:SEND'' = 0 then clean_pd E g ctx
     else if dattr ''rc:RECV'' = 0 then clean_pd E g ctx
     else do {
       ra \<leftarrow> invoke_attr E (Ibv (Exp_reg_mr \<lparr>rin_pd = pd ctx, rin_addr = buf ctx,
               rin_length = ctx_size ctx, rin_access = {LOCAL_WRITE, ON_DEMAND},
               rin_comp_mask = {}, rin_contig = False, rin_dm = 0\<rparr>));
       init_fill E g port (set_mr ra ctx)
     }
   }"

definition reg_contig :: "api_env \<Rightarrow> rc_flags \<Rightarrow> int \<Rightarrow> pp_ctx \<Rightarrow> pp_ctx option prog" where
  "reg_contig E g port ctx = do {
     let at_addr = (contig_addr g \<noteq> 0);
     ra \<leftarrow> invoke_attr E (Ibv (Exp_reg_mr \<lparr>rin_pd = pd ctx, rin_addr = contig_addr g,
             rin_length = ctx_size ctx,
             rin_access = (if at_addr then {LOCAL_WRITE} else {LOCAL_WRITE, ALLOCATE_MR}),
             rin_comp_mask = (if at_addr then {''CREATE_FLAGS''} else {}), rin_contig = at_addr,
             rin_dm = 0\<rparr>));
     init_fill E g port (set_mr ra ctx)
   }"

definition reg_dm :: "api_env \<Rightarrow> rc_flags \<Rightarrow> int \<Rightarrow> pp_ctx \<Rightarrow> pp_ctx option prog" where
  "reg_dm E g port ctx = do {
     (r, dattr) \<leftarrow> invoke_attr E (Ibv (Query_device (context_of ctx) {''MAX_DM_SIZE''}));
     if r \<noteq> 0 then clean_pd E g ctx
     else if dattr ''MAX_DM_SIZE'' = 0 then clean_pd E g ctx
     else if dattr ''max_dm_size'' = 0 then clean_pd E g ctx
     else do {
       d \<leftarrow> invoke E (Ibv (Alloc_dm (context_of ctx) (ctx_size ctx)));
       let ctx = ctx\<lparr>dm := d\<rparr>;
       if dm ctx = 0 then clean_pd E g ctx
       else do {
         ra \<leftarrow> invoke_attr E (Ibv (Exp_reg_mr \<lparr>rin_pd = pd ctx, rin_addr = 0,
                 rin_length = ctx_size ctx, rin_access = {LOCAL_WRITE},
                 rin_comp_mask = {''DM''}, rin_contig = False, rin_dm = dm ctx\<rparr>));
         init_fill E g port (set_mr ra ctx)
       }
     }
   }"

definition register_mr ::
    "api_env \<Rightarrow> rc_flags \<Rightarrow> int \<Rightarrow> string set \<Rightarrow> pp_ctx \<Rightarrow> pp_ctx option prog" where
  "register_mr E g port cmask ctx =
    (if \<not> use_contiguous_mr g \<and> \<not> use_odp g \<and> \<not> use_dm g then reg_plain E g port ctx
     else if use_odp g
     then (if use_upstream g then reg_odp_upstream E g port ctx else reg_odp_exp E g port cmask ctx)
     else if use_contiguous_mr g then reg_contig E g port ctx
     else reg_dm E g port ctx)"

text \<open>From the opening of the device on.\<close>

definition init_pd ::
    "api_env \<Rightarrow> rc_flags \<Rightarrow> int \<Rightarrow> string set \<Rightarrow> pp_ctx \<Rightarrow> pp_ctx option prog" where
  "init_pd E g port cmask ctx = do {
     p \<leftarrow> invoke E (Ibv (Alloc_pd (context_of ctx)));
     let ctx = ctx\<lparr>pd := p\<rparr>;
     if pd ctx = 0 then clean_comp_channel E g ctx else register_mr E g port cmask ctx
   }"

definition init_channel ::
    "api_env \<Rightarrow> rc_flags \<Rightarrow> int \<Rightarrow> int \<Rightarrow> string set \<Rightarrow> pp_ctx \<Rightarrow> pp_ctx option prog" where
  "init_channel E g port use_event cmask ctx =
    (if use_event \<noteq> 0 then do {
       ch \<leftarrow> invoke E (Ibv (Create_comp_channel (context_of ctx)));
       let ctx = ctx\<lparr>channel := ch\<rparr>;
       if channel ctx = 0 then clean_device E g ctx else init_pd E g port cmask ctx
     } else init_pd E g port cmask (ctx\<lparr>channel := 0\<rparr>))"

definition init_device ::
    "api_env \<Rightarrow> rc_flags \<Rightarrow> ptr \<Rightarrow> int \<Rightarrow> int \<Rightarrow> int \<Rightarrow> pp_ctx \<Rightarrow> pp_ctx option prog" where
  "init_device E g ib_dev port use_event inlr ctx = do {
     d \<leftarrow> invoke E (Ibv (Open_device ib_dev));
     let ctx = ctx\<lparr>context_of := d\<rparr>;
     if context_of ctx = 0 then clean_buffer E g ctx
     else if inlr \<noteq> 0 then do {
       (r, dattr) \<leftarrow> invoke_attr E (Ibv (Query_device (context_of ctx) {''INLINE_RECV_SZ''}));
       init_channel E g port use_event (comp_mask dattr) (ctx\<lparr>inlr_recv := inlr\<rparr>)
     } else init_channel E g port use_event {} (ctx\<lparr>inlr_recv := inlr\<rparr>)
   }"

definition pp_init_ctx ::
    "api_env \<Rightarrow> rc_flags \<Rightarrow> ptr \<Rightarrow> int \<Rightarrow> int \<Rightarrow> int \<Rightarrow> int \<Rightarrow> int \<Rightarrow> pp_ctx option prog" where
  "pp_init_ctx E g ib_dev sz rx port use_event inlr = do {
     p \<leftarrow> invoke E (Libc (Calloc ''pingpong_context''));
     if p = 0 then ret_io None
     else do {
       let ctx = (new_ctx p)\<lparr>ctx_size := sz, rx_depth := rx\<rparr>;
       if \<not> use_contiguous_mr g then do {
         b \<leftarrow> invoke E (Libc (Memalign (page_size g) sz));
         let ctx = ctx\<lparr>buf := b\<rparr>;
         if buf ctx = 0 then clean_ctx E ctx
         else init_device E g ib_dev port use_event inlr ctx
       } else init_device E g ib_dev port use_event inlr ctx
     }
   }"

section \<open>pp_close_ctx\<close>

definition close_buffers :: "api_env \<Rightarrow> rc_flags \<Rightarrow> pp_ctx \<Rightarrow> int prog" where
  "close_buffers E g ctx = do {
     when_io (\<not> use_contiguous_mr g) (invoke E (Libc (Free (buf ctx))));
     invoke E (Libc (Free (self ctx)));
     ret_io 0 }"

definition pp_close_ctx :: "api_env \<Rightarrow> rc_flags \<Rightarrow> pp_ctx \<Rightarrow> int prog" where
  "pp_close_ctx E g ctx = do {
     r \<leftarrow> invoke E (Ibv (Destroy_qp (qp ctx)));
     if r \<noteq> 0 then ret_io 1 else do {
     r \<leftarrow> invoke E (Ibv (Destroy_cq (cq ctx)));
     if r \<noteq> 0 then ret_io 1 else do {
     r \<leftarrow> invoke E (Ibv (Dereg_mr (mr ctx)));
     if r \<noteq> 0 then ret_io 1 else do {
     r \<leftarrow> when_io (use_dm g) (invoke E (Ibv (Free_dm (dm ctx))));
     if r \<noteq> 0 then ret_io 1 else do {
     r \<leftarrow> invoke E (Ibv (Dealloc_pd (pd ctx)));
     if r \<noteq> 0 then ret_io 1 else do {
     r \<leftarrow> when_io (channel ctx \<noteq> 0) (invoke E (Ibv (Destroy_comp_channel (channel ctx))));
     if r \<noteq> 0 then ret_io 1 else do {
     r \<leftarrow> invoke E (Ibv (Close_device (context_of ctx)));
     if r \<noteq> 0 then ret_io 1 else close_buffers E g ctx }}}}}}
   }"

section \<open>Work requests\<close>

definition MAX_SGE_LEN :: int where
  "MAX_SGE_LEN = 0xFFFFFFF"

definition pp_sge :: "rc_flags \<Rightarrow> pp_ctx \<Rightarrow> sge" where
  "pp_sge g ctx = \<lparr>sg_addr = (if use_dm g then 0 else buf ctx),
     sg_length = (if ctx_size ctx < MAX_SGE_LEN then ctx_size ctx else MAX_SGE_LEN),
     sg_lkey = mr_lkey ctx\<rparr>"

text \<open>The loop \<open>for (i = 0; i < n; ++i)\<close>, with the iterations left and \<open>i\<close>.\<close>

fun post_recv_loop :: "api_env \<Rightarrow> ptr \<Rightarrow> recv_wr \<Rightarrow> nat \<Rightarrow> int \<Rightarrow> int prog" where
  "post_recv_loop E q wr 0 i = ret_io i"
| "post_recv_loop E q wr (Suc n) i = do {
     r \<leftarrow> invoke E (Data (Post_recv q [wr]));
     if r \<noteq> 0 then ret_io i else post_recv_loop E q wr n (i + 1) }"

definition pp_post_recv :: "api_env \<Rightarrow> rc_flags \<Rightarrow> pp_ctx \<Rightarrow> int \<Rightarrow> int prog" where
  "pp_post_recv E g ctx n =
     post_recv_loop E (qp ctx) \<lparr>rwr_id = PINGPONG_RECV_WRID, rwr_sges = [pp_sge g ctx]\<rparr> (nat n) 0"

definition pp_send_wr :: "rc_flags \<Rightarrow> pp_ctx \<Rightarrow> send_wr" where
  "pp_send_wr g ctx = \<lparr>swr_id = PINGPONG_SEND_WRID, swr_opcode = WR_SEND,
     swr_sges = [pp_sge g ctx], swr_signaled = True, swr_imm = 0, swr_remote_addr = 0,
     swr_rkey = 0, swr_ah = 0,
     swr_remote_qpn = 0, swr_remote_qkey = 0,
     swr_remote_srqn = 0, swr_dct_key = 0, swr_dct_number = 0\<rparr>"

definition pp_post_send :: "api_env \<Rightarrow> rc_flags \<Rightarrow> pp_ctx \<Rightarrow> int prog" where
  "pp_post_send E g ctx = invoke E (Data (Post_send (qp ctx) [pp_send_wr g ctx]))"

text \<open>
  Polling until a completion or an error arrives may take for ever: \<open>fuel\<close> bounds the number
  of polls, \<open>None\<close> is a loop still running.
\<close>

fun poll_one :: "api_env \<Rightarrow> nat \<Rightarrow> ptr \<Rightarrow> (int \<times> wc list) option prog" where
  "poll_one E 0 q = ret_io None"
| "poll_one E (Suc fuel) q = do {
     (n, wcs) \<leftarrow> invoke_wcs E (Data (Poll_cq q 1));
     if n = 0 then poll_one E fuel q else ret_io (Some (n, wcs)) }"

definition send_nop :: "api_env \<Rightarrow> nat \<Rightarrow> pp_ctx \<Rightarrow> int option prog" where
  "send_nop E fuel ctx = do {
     err \<leftarrow> invoke E (Data (Post_send (qp ctx) [\<lparr>swr_id = PINGPONG_SEND_WRID,
              swr_opcode = WR_NOP, swr_sges = [], swr_signaled = True, swr_imm = 0,
              swr_remote_addr = 0, swr_rkey = 0, swr_ah = 0,
     swr_remote_qpn = 0, swr_remote_qkey = 0,
     swr_remote_srqn = 0, swr_dct_key = 0, swr_dct_number = 0\<rparr>]));
     if err \<noteq> 0 then ret_io (Some err)
     else do {
       p \<leftarrow> poll_one E fuel (cq ctx);
       ret_io (case p of
           None \<Rightarrow> None
         | Some (n, wcs) \<Rightarrow>
             if n < 0 then Some (- 1)
             else if wcs \<noteq> [] \<and> wc_status (hd wcs) \<noteq> 0 then Some (- 1) else Some 0)
     }
   }"

section \<open>What a context owns\<close>

text \<open>The resources held at each label, innermost first.\<close>

definition own_buffer :: "rc_flags \<Rightarrow> pp_ctx \<Rightarrow> (res \<times> int) multiset" where
  "own_buffer g c = (if use_contiguous_mr g then {#} else {#(Heap, buf c)#}) + {#(Heap, self c)#}"

definition own_channel :: "rc_flags \<Rightarrow> pp_ctx \<Rightarrow> (res \<times> int) multiset" where
  "own_channel g c = (if channel c \<noteq> 0 then {#(Channel, channel c)#} else {#})
     + add_mset (Device, context_of c) (own_buffer g c)"

definition own_dm :: "rc_flags \<Rightarrow> pp_ctx \<Rightarrow> (res \<times> int) multiset" where
  "own_dm g c = (if dm c \<noteq> 0 then {#(Dm, dm c)#} else {#}) + add_mset (Pd, pd c) (own_channel g c)"

definition ctx_owns :: "rc_flags \<Rightarrow> pp_ctx \<Rightarrow> (res \<times> int) multiset" where
  "ctx_owns g c = {#(Qp, qp c), (Cq, cq c), (Mr, mr c)#} + own_dm g c"

lemmas own_defs = own_buffer_def own_channel_def own_dm_def ctx_owns_def

text \<open>The allocations of the context succeeded.\<close>

definition ctx_ok :: "rc_flags \<Rightarrow> pp_ctx \<Rightarrow> bool" where
  "ctx_ok g c \<longleftrightarrow> self c \<noteq> 0 \<and> (\<not> use_contiguous_mr g \<longrightarrow> buf c \<noteq> 0)"

definition failed :: "'q \<Rightarrow> 'a option \<Rightarrow> 'q \<Rightarrow> bool" where
  "failed M r M' \<longleftrightarrow> r = None \<and> M' = M"

lemma sat_clean_buffer:
  "ctx_ok g c \<Longrightarrow> M = M0 + own_buffer g c \<Longrightarrow> sat track (clean_buffer E g c) M (failed M0)"
  unfolding clean_defs by (auto intro!: sat_intro simp: own_defs ctx_ok_def track_simps failed_def)

lemma sat_clean_comp_channel:
  "ctx_ok g c \<Longrightarrow> M = M0 + own_channel g c \<Longrightarrow>
   sat track (clean_comp_channel E g c) M (failed M0)"
  unfolding clean_comp_channel_def clean_device_def
  by (auto intro!: sat_intro sat_clean_buffer simp: own_channel_def track_simps)

lemma sat_clean_dm:
  "ctx_ok g c \<Longrightarrow> M = M0 + own_dm g c \<Longrightarrow> sat track (clean_dm E g c) M (failed M0)"
  unfolding clean_dm_def clean_pd_def
  by (auto intro!: sat_intro sat_clean_comp_channel simp: own_dm_def track_simps)

lemma sat_clean_qp:
  "ctx_ok g c \<Longrightarrow> M = M0 + ctx_owns g c \<Longrightarrow> sat track (clean_qp E g c) M (failed M0)"
  unfolding clean_qp_def clean_cq_def clean_mr_def
  by (auto intro!: sat_intro sat_clean_dm simp: ctx_owns_def track_simps)

text \<open>
  What \<open>main\<close> checks of the flags, and the outcome of an initialisation: a context that
  owns all it acquired, or no context and nothing acquired.  Where a copy into the device memory
  can fail, a registration may be left behind.
\<close>

definition flags_ok :: "rc_flags \<Rightarrow> bool" where
  "flags_ok g \<longleftrightarrow> \<not> (use_dm g \<and> (use_contiguous_mr g \<or> use_odp g))"

definition ctx_wf :: "rc_flags \<Rightarrow> pp_ctx \<Rightarrow> bool" where
  "ctx_wf g c \<longleftrightarrow> ctx_ok g c \<and> (use_dm g \<longleftrightarrow> dm c \<noteq> 0)"

definition copies_ok :: "api_env \<Rightarrow> bool" where
  "copies_ok E \<longleftrightarrow> (\<forall>h d b n. ret E h (Ibv (Memcpy_dm d b n)) = 0)"

definition init_post ::
    "api_env \<Rightarrow> rc_flags \<Rightarrow> (res \<times> int) multiset \<Rightarrow> pp_ctx option \<Rightarrow> (res \<times> int) multiset \<Rightarrow> bool" where
  "init_post E g M r M' \<longleftrightarrow> (case r of
      None \<Rightarrow> M' = M \<or> (use_dm g \<and> \<not> copies_ok E \<and> (\<exists>m. M' = add_mset (Mr, m) M))
    | Some c \<Rightarrow> M' = M + ctx_owns g c \<and> ctx_wf g c)"

lemma failed_init_post: "sat track m M (failed M0) \<Longrightarrow> sat track m M (init_post E g M0)"
  by (erule sat_conseq) (simp add: failed_def init_post_def)

lemmas sat_clean_post = sat_clean_buffer [THEN failed_init_post]
  sat_clean_comp_channel [THEN failed_init_post] sat_clean_dm [THEN failed_init_post]
  sat_clean_qp [THEN failed_init_post]

text \<open>What a later assignment leaves alone.\<close>

lemma own_updates [simp]:
  "own_dm g (c\<lparr>cq := x\<rparr>) = own_dm g c" "own_dm g (c\<lparr>qp := x\<rparr>) = own_dm g c"
  "own_dm g (c\<lparr>qp_num := n\<rparr>) = own_dm g c" "own_dm g (set_mr ra c) = own_dm g c"
  "own_channel g (c\<lparr>dm := x\<rparr>) = own_channel g c" "own_channel g (c\<lparr>pd := x\<rparr>) = own_channel g c"
  "own_buffer g (c\<lparr>channel := x\<rparr>) = own_buffer g c"
  "own_buffer g (c\<lparr>inlr_recv := i\<rparr>) = own_buffer g c"
  "own_buffer g (c\<lparr>context_of := x\<rparr>) = own_buffer g c"
  "use_contiguous_mr g \<Longrightarrow> own_dm g (c\<lparr>buf := x\<rparr>) = own_dm g c"
  by (simp_all add: own_defs set_mr_def)

lemma ok_updates [simp]:
  "ctx_wf g (c\<lparr>cq := x\<rparr>) = ctx_wf g c" "ctx_wf g (c\<lparr>qp := x\<rparr>) = ctx_wf g c"
  "ctx_wf g (c\<lparr>qp_num := n\<rparr>) = ctx_wf g c" "ctx_wf g (set_mr ra c) = ctx_wf g c"
  "ctx_ok g (c\<lparr>dm := x\<rparr>) = ctx_ok g c" "ctx_ok g (c\<lparr>pd := x\<rparr>) = ctx_ok g c"
  "ctx_ok g (c\<lparr>channel := x\<rparr>) = ctx_ok g c" "ctx_ok g (c\<lparr>inlr_recv := i\<rparr>) = ctx_ok g c"
  "ctx_ok g (c\<lparr>context_of := x\<rparr>) = ctx_ok g c"
  "use_contiguous_mr g \<Longrightarrow> ctx_wf g (c\<lparr>buf := x\<rparr>) = ctx_wf g c"
  by (simp_all add: ctx_wf_def ctx_ok_def set_mr_def)

lemma ctx_wf_ok: "ctx_wf g c \<Longrightarrow> ctx_ok g c"
  by (simp add: ctx_wf_def)

lemma sat_init_to_INIT:
  "ctx_wf g c \<Longrightarrow> M = M0 + ctx_owns g c \<Longrightarrow> sat track (init_to_INIT E g port c) M (init_post E g M0)"
  unfolding init_to_INIT_def
  by (rule sat_intro)+ (auto intro!: sat_intro sat_clean_post ctx_wf_ok simp: track_simps init_post_def)

lemma sat_init_cq_qp:
  assumes "ctx_wf g c" and "M = M0 + add_mset (Mr, mr c) (own_dm g c)"
  shows "sat track (init_cq_qp E g port c) M (init_post E g M0)"
  using assms unfolding init_cq_qp_def clean_cq_def clean_mr_def Let_def
  by (auto intro!: sat_intro sat_clean_post sat_init_to_INIT ctx_wf_ok simp: track_simps ctx_owns_def)

lemma sat_copy_ok: "copies_ok E \<Longrightarrow> f q (Ibv (Memcpy_dm d b n)) 0 = Some q' \<Longrightarrow> Q 0 q' \<Longrightarrow>
  sat f (invoke E (Ibv (Memcpy_dm d b n))) q Q"
  by (simp add: sat_def run_invoke copies_ok_def)

lemma sat_leak_mr:
  assumes "use_dm g" and "\<not> copies_ok E" and "ctx_wf g c" and "M = add_mset (Mr, m) M0 + own_dm g c"
  shows "sat track (clean_dm E g c) M (init_post E g M0)"
  by (rule sat_conseq, rule sat_clean_dm [OF ctx_wf_ok [OF assms(3)] assms(4)])
    (use assms(1,2) in \<open>auto simp: failed_def init_post_def\<close>)

lemma sat_init_fill:
  assumes "ctx_wf g c" and "flags_ok g"
    and "M = M0 + (if mr c = 0 then {#} else {#(Mr, mr c)#}) + own_dm g c"
  shows "sat track (init_fill E g port c) M (init_post E g M0)"
proof (cases "mr c = 0")
  case True
  then show ?thesis
    using assms unfolding init_fill_def by (simp add: sat_clean_post(3) ctx_wf_ok)
next
  case False
  define c' where "c' = (if use_contiguous_mr g then c\<lparr>buf := mr_addr c\<rparr> else c)"
  have c': "ctx_wf g c'" "own_dm g c' = own_dm g c" "mr c' = mr c"
    using assms(1) by (simp_all add: c'_def)
  have leak: "use_dm g \<Longrightarrow> \<not> copies_ok E \<Longrightarrow> sat track (clean_dm E g c') M (init_post E g M0)"
    using False assms(3) c' by (intro sat_leak_mr) auto
  have ok: "sat track (init_cq_qp E g port c') M (init_post E g M0)"
    using False assms(3) c' by (intro sat_init_cq_qp) auto
  show ?thesis
  proof (cases "copies_ok E")
    case True
    with False show ?thesis
      unfolding init_fill_def Let_def c'_def [symmetric]
      by (auto intro!: sat_bind sat_when sat_copy_ok ok simp: track_simps)
  next
    case copies: False
    with False show ?thesis
      unfolding init_fill_def Let_def c'_def [symmetric]
      by (auto intro!: sat_intro ok leak simp: track_simps)
  qed
qed

text \<open>The five ways of registering; before them nothing but the protection domain is new.\<close>

lemma sat_clean_pd:
  assumes "ctx_ok g c" and "dm c = 0" and "M = M0 + add_mset (Pd, pd c) (own_channel g c)"
  shows "sat track (clean_pd E g c) M (init_post E g M0)"
  using sat_clean_post(3) [of g c M M0 E] assms
  by (auto simp: own_dm_def clean_dm_def when_io_def sat_def)

lemma sat_registered:
  assumes "ctx_ok g c" and "flags_ok g" and "\<not> use_dm g" and "dm c = 0"
    and "M = M0 + (if mr c = 0 then {#} else {#(Mr, mr c)#}) + add_mset (Pd, pd c) (own_channel g c)"
  shows "sat track (init_fill E g port c) M (init_post E g M0)"
  using assms by (intro sat_init_fill) (auto simp: own_dm_def ctx_wf_def)

lemma own_channel_set_mr [simp]: "own_channel g (set_mr ra c) = own_channel g c"
  "ctx_ok g (set_mr ra c) = ctx_ok g c" "dm (set_mr ra c) = dm c" "pd (set_mr ra c) = pd c"
  "mr (set_mr ra c) = fst ra"
  by (simp_all add: own_defs ctx_ok_def set_mr_def)

lemma sat_reg_plain:
  assumes "ctx_ok g c" and "flags_ok g" and "\<not> use_dm g" and "dm c = 0"
    and "M = M0 + add_mset (Pd, pd c) (own_channel g c)"
  shows "sat track (reg_plain E g port c) M (init_post E g M0)"
    and "sat track (reg_contig E g port c) M (init_post E g M0)"
  using assms unfolding reg_plain_def reg_contig_def Let_def
  by (auto intro!: sat_intro sat_registered simp: track_simps)

lemma sat_reg_odp:
  assumes "ctx_ok g c" and "flags_ok g" and "\<not> use_dm g" and "dm c = 0"
    and "M = M0 + add_mset (Pd, pd c) (own_channel g c)"
  shows "sat track (reg_odp_upstream E g port c) M (init_post E g M0)"
    and "sat track (reg_odp_exp E g port cmask c) M (init_post E g M0)"
  using assms unfolding reg_odp_upstream_def reg_odp_exp_def Let_def
  by (auto intro!: sat_intro sat_registered sat_clean_pd simp: track_simps)

lemma sat_reg_dm:
  assumes "ctx_ok g c" and "flags_ok g" and "use_dm g" and "dm c = 0"
    and "M = M0 + add_mset (Pd, pd c) (own_channel g c)"
  shows "sat track (reg_dm E g port c) M (init_post E g M0)"
proof -
  have dm: "sat track (init_fill E g port (set_mr ra (c\<lparr>dm := d\<rparr>))) M' (init_post E g M0)"
    if "d \<noteq> 0" "M' = M0 + (if fst ra = 0 then {#} else {#(Mr, fst ra)#})
       + add_mset (Dm, d) (add_mset (Pd, pd c) (own_channel g c))" for d ra M'
    using that assms(1-3) by (intro sat_init_fill) (auto simp: own_dm_def ctx_wf_def)
  show ?thesis
    using assms unfolding reg_dm_def Let_def
    by (auto intro!: sat_intro dm sat_clean_pd simp: track_simps)
qed

lemma sat_register_mr:
  assumes "ctx_ok g c" and "flags_ok g" and "dm c = 0"
    and "M = M0 + add_mset (Pd, pd c) (own_channel g c)"
  shows "sat track (register_mr E g port cmask c) M (init_post E g M0)"
  using assms unfolding register_mr_def
  by (auto intro: sat_reg_plain sat_reg_odp sat_reg_dm simp: flags_ok_def)

lemma sat_init_pd:
  assumes "ctx_ok g c" and "flags_ok g" and "dm c = 0" and "M = M0 + own_channel g c"
  shows "sat track (init_pd E g port cmask c) M (init_post E g M0)"
  using assms unfolding init_pd_def Let_def
  by (auto intro!: sat_intro sat_register_mr sat_clean_post(2) simp: track_simps)

lemma sat_clean_device:
  assumes "ctx_ok g c" and "M = M0 + add_mset (Device, context_of c) (own_buffer g c)"
  shows "sat track (clean_device E g c) M (init_post E g M0)"
  using assms unfolding clean_device_def
  by (auto intro!: sat_intro sat_clean_post(1) simp: track_simps)

lemma own_channel_none: "channel c = 0 \<Longrightarrow>
  own_channel g c = add_mset (Device, context_of c) (own_buffer g c)"
  by (simp add: own_channel_def)

lemma own_channel_new [simp]: "own_channel g (c\<lparr>channel := x\<rparr>) =
  (if x \<noteq> 0 then {#(Channel, x)#} else {#}) + add_mset (Device, context_of c) (own_buffer g c)"
  by (simp add: own_channel_def own_buffer_def)

lemma sat_init_channel:
  assumes "ctx_ok g c" and "flags_ok g" and "dm c = 0" and "channel c = 0"
    and "M = M0 + add_mset (Device, context_of c) (own_buffer g c)"
  shows "sat track (init_channel E g port use_event cmask c) M (init_post E g M0)"
  using assms unfolding init_channel_def Let_def
  by (auto intro!: sat_intro sat_init_pd sat_clean_device simp: track_simps)

lemma sat_init_device:
  assumes "ctx_ok g c" and "flags_ok g" and "dm c = 0" and "channel c = 0"
    and "M = M0 + own_buffer g c"
  shows "sat track (init_device E g ib_dev port use_event inlr c) M (init_post E g M0)"
  using assms unfolding init_device_def Let_def
  by (auto intro!: sat_intro sat_init_channel sat_clean_post(1) simp: track_simps)

lemma sat_pp_init_ctx:
  assumes "flags_ok g"
  shows "sat track (pp_init_ctx E g ib_dev sz rx port use_event inlr) M (init_post E g M)"
  using assms unfolding pp_init_ctx_def clean_ctx_def Let_def
  by (auto intro!: sat_intro sat_init_device
      simp: track_simps ctx_ok_def own_buffer_def new_ctx_def init_post_def)

lemma sat_pp_close_ctx:
  assumes "ctx_wf g c"
  shows "sat track (pp_close_ctx E g c) (M + ctx_owns g c)
           (\<lambda>r M'. if r = 0 then M' = M else M \<subseteq># M')"
  using assms unfolding pp_close_ctx_def close_buffers_def
  by (auto intro!: sat_intro simp: track_simps ctx_wf_def ctx_ok_def own_defs)

section \<open>The contract of a context\<close>

text \<open>
  A provider makes a context from a configuration, or fails; a context owns resources; closing
  it gives them back.  The client is a session that makes a context, uses it without acquiring
  anything, and closes it.
\<close>

locale ctx_lifecycle =
  fixes good :: "'g \<Rightarrow> bool"
    and make :: "'g \<Rightarrow> 'ctx option prog"
    and close :: "'g \<Rightarrow> 'ctx \<Rightarrow> int prog"
    and owns :: "'g \<Rightarrow> 'ctx \<Rightarrow> (res \<times> int) multiset"
    and wf :: "'g \<Rightarrow> 'ctx \<Rightarrow> bool"
  assumes make_sat: "good g \<Longrightarrow> sat track (make g) M
      (\<lambda>r M'. case r of None \<Rightarrow> M' = M | Some c \<Rightarrow> M' = M + owns g c \<and> wf g c)"
    and close_sat: "good g \<Longrightarrow> wf g c \<Longrightarrow> sat track (close g c) (M + owns g c)
      (\<lambda>r M'. if r = 0 then M' = M else M \<subseteq># M')"
begin

definition session :: "'g \<Rightarrow> ('ctx \<Rightarrow> unit prog) \<Rightarrow> int prog" where
  "session g use = do {
     r \<leftarrow> make g;
     case r of None \<Rightarrow> ret_io 1 | Some c \<Rightarrow> do { use c; close g c } }"

lemma session_balanced:
  assumes "good g" and "\<And>c M. sat track (use c) M (\<lambda>_ M'. M' = M)"
  shows "sat track (session g use) M (\<lambda>r M'. if r = 0 then M' = M else M \<subseteq># M')"
  unfolding session_def
proof (rule sat_bind, rule sat_conseq [OF make_sat [OF assms(1)]])
  fix r M'
  assume r: "case r of None \<Rightarrow> M' = M | Some c \<Rightarrow> M' = M + owns g c \<and> wf g c"
  show "sat track (case r of None \<Rightarrow> ret_io 1 | Some c \<Rightarrow> do { use c; close g c }) M'
          (\<lambda>r M'. if r = 0 then M' = M else M \<subseteq># M')"
  proof (cases r)
    case (Some c)
    with r have "M' = M + owns g c" "wf g c" by auto
    then show ?thesis unfolding Some option.case
      by (intro sat_bind sat_conseq [OF assms(2)]) (use assms(1) in \<open>simp add: close_sat\<close>)
  qed (use r in \<open>auto intro: sat_return\<close>)
qed

text \<open>Any number of sessions, one after the other, until one fails.\<close>

fun sessions :: "nat \<Rightarrow> 'g \<Rightarrow> ('ctx \<Rightarrow> unit prog) \<Rightarrow> int prog" where
  "sessions 0 g use = ret_io 0"
| "sessions (Suc n) g use = do {
     r \<leftarrow> session g use;
     if r \<noteq> 0 then ret_io r else sessions n g use }"

lemma sessions_balanced:
  assumes "good g" and "\<And>c M. sat track (use c) M (\<lambda>_ M'. M' = M)"
  shows "sat track (sessions n g use) M (\<lambda>r M'. if r = 0 then M' = M else M \<subseteq># M')"
proof (induction n arbitrary: M)
  case 0
  then show ?case by (auto intro: sat_return)
next
  case (Suc n)
  show ?case unfolding sessions.simps
    by (rule sat_bind, rule sat_conseq [OF session_balanced [OF assms]])
      (use Suc in \<open>auto intro: sat_return split: if_splits\<close>)
qed

end

text \<open>The parameters of \<open>pp_init_ctx\<close>, and the instance.\<close>

record rc_config =
  cf_flags :: rc_flags
  cf_dev :: ptr
  cf_size :: int
  cf_rx :: int
  cf_port :: int
  cf_event :: int
  cf_inlr :: int

definition init_of :: "api_env \<Rightarrow> rc_config \<Rightarrow> pp_ctx option prog" where
  "init_of E k = pp_init_ctx E (cf_flags k) (cf_dev k) (cf_size k) (cf_rx k) (cf_port k)
     (cf_event k) (cf_inlr k)"

interpretation rc: ctx_lifecycle "\<lambda>k. \<not> use_dm (cf_flags k)" "init_of E"
  "\<lambda>k. pp_close_ctx E (cf_flags k)" "\<lambda>k. ctx_owns (cf_flags k)" "\<lambda>k. ctx_wf (cf_flags k)" for E
proof unfold_locales
  fix k :: rc_config and M
  assume dm: "\<not> use_dm (cf_flags k)"
  show "sat track (init_of E k) M (\<lambda>r M'. case r of None \<Rightarrow> M' = M
          | Some c \<Rightarrow> M' = M + ctx_owns (cf_flags k) c \<and> ctx_wf (cf_flags k) c)"
    unfolding init_of_def
    by (rule sat_conseq [OF sat_pp_init_ctx])
      (use dm in \<open>auto simp: init_post_def flags_ok_def split: option.splits\<close>)
next
  fix k :: rc_config and M c
  assume "ctx_wf (cf_flags k) c"
  then show "sat track (pp_close_ctx E (cf_flags k) c) (M + ctx_owns (cf_flags k) c)
          (\<lambda>r M'. if r = 0 then M' = M else M \<subseteq># M')"
    by (rule sat_pp_close_ctx)
qed

section \<open>The queue pair's way to RTS\<close>

text \<open>The calls that are not a modification leave the automaton where it is.\<close>

lemma qp_step_simps [simp]:
  "qp_step p s (Libc l) r = Some s" "qp_step p s (Data d) r = Some s" "qp_step p s (Cm m) r = Some s"
  by (simp_all add: qp_step_def)

lemma qp_step_other [simp]:
  "(\<And>q a m. c \<noteq> Modify_qp q a m) \<Longrightarrow> qp_step p s (Ibv c) r = Some s"
  unfolding qp_step_def by (auto split: ibv_call.split)

lemma qp_step_modify: "qp_step p s (Ibv (Modify_qp q a m)) r =
  (if q \<noteq> p then Some s
   else if next_qp_state s = Some (qp_state a) \<and> rc_required (qp_state a) \<subseteq> m
   then Some (if r = 0 then qp_state a else s) else None)"
  by (simp add: qp_step_def)

definition at_INIT :: "ptr \<Rightarrow> pp_ctx option \<Rightarrow> qp_state \<Rightarrow> bool" where
  "at_INIT p r s \<longleftrightarrow> (\<forall>c. r = Some c \<and> qp c = p \<longrightarrow> s = QPS_INIT)"

lemma qp_clean:
  "sat (qp_step p) (clean_buffer E g c) s (at_INIT p)"
  "sat (qp_step p) (clean_device E g c) s (at_INIT p)"
  "sat (qp_step p) (clean_comp_channel E g c) s (at_INIT p)"
  "sat (qp_step p) (clean_pd E g c) s (at_INIT p)"
  "sat (qp_step p) (clean_dm E g c) s (at_INIT p)"
  "sat (qp_step p) (clean_mr E g c) s (at_INIT p)"
  "sat (qp_step p) (clean_cq E g c) s (at_INIT p)"
  "sat (qp_step p) (clean_qp E g c) s (at_INIT p)"
  unfolding clean_defs by (auto intro!: sat_intro simp: at_INIT_def)

lemma qp_init_cq_qp: "sat (qp_step p) (init_cq_qp E g port c) QPS_RESET (at_INIT p)"
  unfolding init_cq_qp_def init_to_INIT_def Let_def
  by (auto intro!: sat_intro qp_clean simp: qp_step_modify rc_required_def at_INIT_def zero_qp_attr_def)

lemma qp_init_fill: "sat (qp_step p) (init_fill E g port c) QPS_RESET (at_INIT p)"
  unfolding init_fill_def Let_def
  by (auto intro!: sat_intro qp_clean qp_init_cq_qp)

lemma qp_register_mr: "sat (qp_step p) (register_mr E g port cmask c) QPS_RESET (at_INIT p)"
  unfolding register_mr_def reg_plain_def reg_contig_def reg_odp_upstream_def reg_odp_exp_def
    reg_dm_def Let_def
  by (auto intro!: sat_intro qp_clean qp_init_fill)

lemma qp_pp_init_ctx:
  "sat (qp_step p) (pp_init_ctx E g ib_dev sz rx port use_event inlr) QPS_RESET (at_INIT p)"
  unfolding pp_init_ctx_def init_device_def init_channel_def init_pd_def Let_def clean_ctx_def
  by (auto intro!: sat_intro qp_clean qp_register_mr simp: at_INIT_def)

lemma qp_pp_connect_ctx:
  "sat (qp_step (qp c)) (pp_connect_ctx E g c port my_psn mtu sl lid qpn psn dgid gidx) QPS_INIT
     (\<lambda>r s. QPS_INIT \<le> s \<and> (r = 0 \<longleftrightarrow> s = QPS_RTS))"
  unfolding pp_connect_ctx_def Let_def
  by (auto intro!: sat_intro simp: qp_step_modify rc_required_def rtr_attr_def rts_attr_def
      less_eq_qp_state_def Let_def)

section \<open>Properties\<close>

text \<open>
  For the concrete runs: all allocations return 1, status calls return 0, and the call \<open>bad\<close> fails.
\<close>

definition status_call :: "api \<Rightarrow> bool" where
  "status_call c = (case c of
      Ibv i \<Rightarrow> (case i of Query_device _ _ \<Rightarrow> True | Query_port _ _ \<Rightarrow> True | Query_gid _ _ _ \<Rightarrow> True
        | Modify_qp _ _ _ \<Rightarrow> True | Memcpy_dm _ _ _ \<Rightarrow> True | Destroy_qp _ \<Rightarrow> True
        | Destroy_cq _ \<Rightarrow> True | Dereg_mr _ \<Rightarrow> True | Dealloc_pd _ \<Rightarrow> True
        | Destroy_comp_channel _ \<Rightarrow> True | Close_device _ \<Rightarrow> True | Free_dm _ \<Rightarrow> True | _ \<Rightarrow> False)
    | Data d \<Rightarrow> True
    | _ \<Rightarrow> False)"

definition good_env :: api_env where
  "good_env = const_env (\<lambda>c. if status_call c then 0 else 1) (\<lambda>c. [])"

definition no_qp_env :: api_env where
  "no_qp_env = const_env (\<lambda>c. case c of Ibv (Create_qp d i) \<Rightarrow> 0 | _ \<Rightarrow> if status_call c then 0 else 1)
     (\<lambda>c. [])"

definition bad_copy_env :: api_env where
  "bad_copy_env = const_env (\<lambda>c. case c of Ibv (Memcpy_dm d b n) \<Rightarrow> - 1
     | _ \<Rightarrow> if status_call c then 0 else 1) (\<lambda>c. [])"

definition plain_flags :: rc_flags where
  "plain_flags = \<lparr>page_size = 4096, use_contiguous_mr = False, use_odp = False, use_dm = False,
     use_upstream = False, use_ooo = False, contig_addr = 0\<rparr>"

definition dm_flags :: rc_flags where
  "dm_flags = plain_flags\<lparr>use_dm := True\<rparr>"

lemmas demo_defs = good_env_def no_qp_env_def bad_copy_env_def plain_flags_def dm_flags_def
  const_env_def status_call_def

lemmas init_defs = pp_init_ctx_def init_device_def init_channel_def init_pd_def register_mr_def
  reg_plain_def reg_dm_def init_fill_def init_cq_qp_def init_to_INIT_def clean_defs

text \<open>
  C3: For the flags that \<open>main\<close> lets pass, device memory included, and for every behaviour of
  the libraries, \<open>pp_init_ctx\<close> either returns a context, and the process then holds exactly
  the resources of that context in addition to what it held, or returns \<open>NULL\<close> at whichever
  of its calls failed, and has released everything it had acquired, each resource once.  The one
  exception is the copy into the device memory: where that copy can fail, one memory region, and
  nothing else, may be left registered.
\<close>

theorem pp_init_ctx_no_leak:
  assumes "flags_ok g" and "held h = Some M"
    and "run_state (pp_init_ctx E g dev sz rx port ev inl) h = (r, h')"
  shows "\<exists>M'. held h' = Some M' \<and> (case r of
      Some c \<Rightarrow> M' = M + ctx_owns g c
    | None \<Rightarrow> M' = M \<or> (use_dm g \<and> \<not> copies_ok E \<and> (\<exists>m. M' = add_mset (Mr, m) M)))"
  using satD [OF sat_pp_init_ctx [OF assms(1)] assms(2,3)]
  by (auto simp: init_post_def split: option.splits)

theorem pp_init_ctx_no_leak_witness:
  "\<exists>h'. run_state (pp_init_ctx no_qp_env dm_flags 1 4096 500 1 0 0) [] = (None, h')
     \<and> held h' = Some {#}"
proof -
  have "\<exists>h'. run_state (pp_init_ctx no_qp_env dm_flags 1 4096 500 1 0 0) [] = (None, h')"
    by (simp add: init_defs run_simps demo_defs new_ctx_def set_mr_def Let_def)
  then obtain h' where r: "run_state (pp_init_ctx no_qp_env dm_flags 1 4096 500 1 0 0) [] = (None, h')"
    by blast
  have f: "flags_ok dm_flags" by (simp add: flags_ok_def dm_flags_def plain_flags_def)
  have "copies_ok no_qp_env" by (simp add: copies_ok_def demo_defs)
  with pp_init_ctx_no_leak [OF f _ r, of "{#}"] r show ?thesis by auto
qed

text \<open>
  A context that was initialised and is later closed with status 0 leaves the process with
  the resources it held before, with device memory too; between the two calls the process may have
  done anything that leaves its resources as they were.
\<close>

theorem pp_init_close_balanced:
  assumes "flags_ok g" and "held h = Some M"
    and "run_state (pp_init_ctx E g dev sz rx port ev inl) h = (Some c, h1)"
    and "held h2 = held h1" and "run_state (pp_close_ctx E' g c) h2 = (0, h3)"
  shows "held h3 = Some M"
proof -
  from satD [OF sat_pp_init_ctx [OF assms(1)] assms(2,3)]
  have c: "ctx_wf g c" and "held h1 = Some (M + ctx_owns g c)"
    by (auto simp: init_post_def)
  with assms(4) have "held h2 = Some (M + ctx_owns g c)" by simp
  from satD [OF sat_pp_close_ctx [OF c] this assms(5)] show ?thesis by simp
qed

theorem pp_init_close_balanced_witness:
  "\<exists>c h1 h3. run_state (pp_init_ctx good_env dm_flags 1 4096 500 1 1 0) [] = (Some c, h1)
     \<and> run_state (pp_close_ctx good_env dm_flags c) h1 = (0, h3) \<and> held h3 = Some {#}"
proof -
  have "\<exists>c h1. run_state (pp_init_ctx good_env dm_flags 1 4096 500 1 1 0) [] = (Some c, h1)"
    by (simp add: init_defs run_simps demo_defs new_ctx_def set_mr_def Let_def)
  then obtain c h1 where
    i: "run_state (pp_init_ctx good_env dm_flags 1 4096 500 1 1 0) [] = (Some c, h1)"
    by blast
  have "fst (run_state (pp_close_ctx good_env dm_flags c) h1) = 0"
    by (simp add: pp_close_ctx_def close_buffers_def run_simps demo_defs)
  then obtain h3 where c: "run_state (pp_close_ctx good_env dm_flags c) h1 = (0, h3)"
    by (cases "run_state (pp_close_ctx good_env dm_flags c) h1") auto
  have "held h3 = Some {#}"
    by (rule pp_init_close_balanced [OF _ _ i refl c])
      (simp_all add: flags_ok_def dm_flags_def plain_flags_def)
  with i c show ?thesis by blast
qed

text \<open>
  With device memory a failing copy leaks: \<open>pp_init_ctx\<close> returns \<open>NULL\<close> through
  \<open>clean_dm\<close>, which frees the device memory without having deregistered the memory region,
  and the process still holds the region.
\<close>

theorem dm_copy_failure_leaks_mr:
  "fst (run_state (pp_init_ctx bad_copy_env dm_flags 1 4096 500 1 0 0) []) = None
   \<and> held (snd (run_state (pp_init_ctx bad_copy_env dm_flags 1 4096 500 1 0 0) [])) = Some {#(Mr, 1)#}"
  by (simp add: init_defs run_simps demo_defs new_ctx_def set_mr_def Let_def track_simps)

text \<open>
  C7: The queue pair of a context is driven through \<open>INIT\<close>, \<open>RTR\<close> and
  \<open>RTS\<close> in that order, each \<open>ibv_modify_qp\<close> passing the attributes a reliable
  connection needs for the transition; \<open>pp_connect_ctx\<close> returns 0 exactly on a queue pair
  that has reached \<open>RTS\<close>, and otherwise leaves it short of that state.
\<close>

theorem qp_driven_to_RTS:
  assumes "obs (qp_step (qp c)) QPS_RESET h = Some QPS_RESET"
    and "run_state (pp_init_ctx E g dev sz rx port ev inl) h = (Some c, h1)"
    and "run_state (pp_connect_ctx E' g c port my_psn mtu sl lid qpn psn dgid gidx) h1 = (r, h2)"
  shows "\<exists>s. obs (qp_step (qp c)) QPS_RESET h2 = Some s \<and> QPS_INIT \<le> s \<and> (r = 0 \<longleftrightarrow> s = QPS_RTS)"
proof -
  from satD [OF qp_pp_init_ctx assms(1,2)] have "obs (qp_step (qp c)) QPS_RESET h1 = Some QPS_INIT"
    by (auto simp: at_INIT_def)
  from satD [OF qp_pp_connect_ctx this assms(3)] show ?thesis
    by (auto simp: less_eq_qp_state_def split: if_splits)
qed

theorem qp_driven_to_RTS_witness:
  "\<exists>c h1 h2. run_state (pp_init_ctx good_env plain_flags 1 4096 500 1 0 0) [] = (Some c, h1)
     \<and> run_state (pp_connect_ctx good_env plain_flags c 1 5 3 0 1 2 3 zero_gid 0) h1 = (0, h2)
     \<and> obs (qp_step (qp c)) QPS_RESET h2 = Some QPS_RTS"
proof -
  have "\<exists>c h1. run_state (pp_init_ctx good_env plain_flags 1 4096 500 1 0 0) [] = (Some c, h1)"
    by (simp add: init_defs run_simps demo_defs new_ctx_def set_mr_def Let_def)
  then obtain c h1 where
    i: "run_state (pp_init_ctx good_env plain_flags 1 4096 500 1 0 0) [] = (Some c, h1)"
    by blast
  have "fst (run_state (pp_connect_ctx good_env plain_flags c 1 5 3 0 1 2 3 zero_gid 0) h1) = 0"
    by (simp add: pp_connect_ctx_def run_simps demo_defs Let_def)
  then obtain h2 where
    c: "run_state (pp_connect_ctx good_env plain_flags c 1 5 3 0 1 2 3 zero_gid 0) h1 = (0, h2)"
    by (cases "run_state (pp_connect_ctx good_env plain_flags c 1 5 3 0 1 2 3 zero_gid 0) h1") auto
  have "obs (qp_step (qp c)) QPS_RESET h2 = Some QPS_RTS"
    using qp_driven_to_RTS [OF _ i c] by auto
  with i c show ?thesis by blast
qed

end
