(* ===== verification/RcExchange.thy ===== *)
theory RcExchange
  imports Wire RcContext
begin

text \<open>
  The exchange of destinations over TCP in rc_pingpong.c: \<open>pp_client_exch_dest\<close> and
  \<open>pp_server_exch_dest\<close>.  The connection set-up over the address list is shared with
  intf.c, whose functions have the same text.
\<close>

section \<open>Connecting and listening\<close>

text \<open>
  \<open>for (t = res; t; t = t->ai_next)\<close>: the addresses left and \<open>sockfd\<close>.  The client
  stops at the first address that accepts the connection.
\<close>

fun connect_loop :: "api_env \<Rightarrow> ptr list \<Rightarrow> int \<Rightarrow> int prog" where
  "connect_loop E [] sockfd = ret_io sockfd"
| "connect_loop E (t # ts) sockfd = do {
     s \<leftarrow> invoke E (Libc (Socket t));
     if s \<ge> 0 then do {
       r \<leftarrow> invoke E (Libc (Connect_sock s t));
       if r = 0 then ret_io s
       else do { invoke E (Libc (Close s)); connect_loop E ts (- 1) }
     } else connect_loop E ts s }"

fun bind_loop :: "api_env \<Rightarrow> ptr list \<Rightarrow> int \<Rightarrow> int prog" where
  "bind_loop E [] sockfd = ret_io sockfd"
| "bind_loop E (t # ts) sockfd = do {
     s \<leftarrow> invoke E (Libc (Socket t));
     if s \<ge> 0 then do {
       invoke E (Libc (Setsockopt_reuse s));
       r \<leftarrow> invoke E (Libc (Bind_sock s t));
       if r = 0 then ret_io s
       else do { invoke E (Libc (Close s)); bind_loop E ts (- 1) }
     } else bind_loop E ts s }"

text \<open>
  From \<open>asprintf\<close> to the end of the loop: a connected (listening) socket, or \<open>None\<close> for
  the early returns.  \<open>addrs\<close> is the list \<open>getaddrinfo\<close> stored.
\<close>

definition open_client :: "api_env \<Rightarrow> ptr list \<Rightarrow> string \<Rightarrow> int \<Rightarrow> int option prog" where
  "open_client E addrs servername port = do {
     r \<leftarrow> invoke E (Libc (Asprintf port));
     if r < 0 then ret_io None
     else do {
       n \<leftarrow> invoke E (Libc (Getaddrinfo (Some servername) port));
       if n < 0 then do { invoke E (Libc Free_service); ret_io None }
       else do {
         sockfd \<leftarrow> connect_loop E addrs (- 1);
         invoke E (Libc Freeaddrinfo);
         invoke E (Libc Free_service);
         ret_io (if sockfd < 0 then None else Some sockfd) } } }"

definition open_server :: "api_env \<Rightarrow> ptr list \<Rightarrow> int \<Rightarrow> int option prog" where
  "open_server E addrs port = do {
     r \<leftarrow> invoke E (Libc (Asprintf port));
     if r < 0 then ret_io None
     else do {
       n \<leftarrow> invoke E (Libc (Getaddrinfo None port));
       if n < 0 then do { invoke E (Libc Free_service); ret_io None }
       else do {
         sockfd \<leftarrow> bind_loop E addrs (- 1);
         invoke E (Libc Freeaddrinfo);
         invoke E (Libc Free_service);
         if sockfd < 0 then ret_io None
         else do {
           invoke E (Libc (Listen_sock sockfd 1));
           connfd \<leftarrow> invoke E (Libc (Accept_sock sockfd));
           invoke E (Libc (Close sockfd));
           ret_io (if connfd < 0 then None else Some connfd) } } } }"

section \<open>pp_client_exch_dest\<close>

text \<open>What the stack holds before it is written to.\<close>

record stack =
  junk_msg :: string
  junk_gid :: string
  junk_v32 :: u32
  junk_dest :: pp_dest

definition done_msg :: string where
  "done_msg = ''done'' @ [NUL]"

text \<open>The label \<open>out\<close>: the socket is closed and \<open>rem_dest\<close> returned.\<close>

definition out_label :: "api_env \<Rightarrow> int \<Rightarrow> 'a \<Rightarrow> 'a prog" where
  "out_label E fd r = do { invoke E (Libc (Close fd)); ret_io r }"

definition client_talk ::
    "api_env \<Rightarrow> stack \<Rightarrow> pp_dest \<Rightarrow> int \<Rightarrow> (ptr \<times> pp_dest) option prog" where
  "client_talk E k my_dest sockfd = do {
     let gid = gid_to_wire_gid (d_gid my_dest);
     w \<leftarrow> invoke E (Libc (Write sockfd (dest_msg (junk_msg k) my_dest)));
     if w \<noteq> int MSG_SIZE then out_label E sockfd None
     else do {
       (r, msg) \<leftarrow> invoke_bytes E (Libc (Recv sockfd (int MSG_SIZE)));
       if r \<noteq> int MSG_SIZE then out_label E sockfd None
       else do {
         w \<leftarrow> invoke E (Libc (Write sockfd done_msg));
         if w \<noteq> int (length done_msg) then out_label E sockfd None
         else do {
           p \<leftarrow> invoke E (Libc (Malloc ''pingpong_dest''));
           if p = 0 then out_label E sockfd None
           else out_label E sockfd (Some (p, scan_dest (junk_v32 k) gid (junk_dest k) msg))
         } } } }"

definition pp_client_exch_dest ::
    "api_env \<Rightarrow> stack \<Rightarrow> ptr list \<Rightarrow> string \<Rightarrow> int \<Rightarrow> pp_dest \<Rightarrow> (ptr \<times> pp_dest) option prog" where
  "pp_client_exch_dest E k addrs servername port my_dest = do {
     s \<leftarrow> open_client E addrs servername port;
     case s of None \<Rightarrow> ret_io None | Some sockfd \<Rightarrow> client_talk E k my_dest sockfd }"

section \<open>pp_server_exch_dest\<close>

text \<open>After the remote destination has been read: connect, answer, wait for \<open>done\<close>.\<close>

definition server_answer ::
    "api_env \<Rightarrow> rc_flags \<Rightarrow> stack \<Rightarrow> pp_ctx \<Rightarrow> int \<Rightarrow> u32 \<Rightarrow> int \<Rightarrow> pp_dest \<Rightarrow> int \<Rightarrow> int \<Rightarrow> string
      \<Rightarrow> ptr \<Rightarrow> pp_dest \<Rightarrow> (ptr \<times> pp_dest) option prog" where
  "server_answer E g k ctx ib_port mtu sl my_dest sgid_idx connfd msg p rem_dest = do {
     c \<leftarrow> pp_connect_ctx E g ctx ib_port (d_psn my_dest) mtu sl (d_lid rem_dest) (d_qpn rem_dest)
            (d_psn rem_dest) (d_gid rem_dest) sgid_idx;
     if c \<noteq> 0 then do { invoke E (Libc (Free p)); out_label E connfd None }
     else do {
       w \<leftarrow> invoke E (Libc (Write connfd (dest_msg msg my_dest)));
       if w \<noteq> int MSG_SIZE then do { invoke E (Libc (Free p)); out_label E connfd None }
       else do {
         (r, m) \<leftarrow> invoke_bytes E (Libc (Read connfd (int MSG_SIZE)));
         if r \<le> 0 then do { invoke E (Libc (Free p)); out_label E connfd None }
         else out_label E connfd (Some (p, rem_dest)) } } }"

definition server_talk ::
    "api_env \<Rightarrow> rc_flags \<Rightarrow> stack \<Rightarrow> pp_ctx \<Rightarrow> int \<Rightarrow> u32 \<Rightarrow> int \<Rightarrow> pp_dest \<Rightarrow> int \<Rightarrow> int
      \<Rightarrow> (ptr \<times> pp_dest) option prog" where
  "server_talk E g k ctx ib_port mtu sl my_dest sgid_idx connfd = do {
     (n, msg) \<leftarrow> invoke_bytes E (Libc (Recv connfd (int MSG_SIZE)));
     if n \<noteq> int MSG_SIZE then out_label E connfd None
     else do {
       p \<leftarrow> invoke E (Libc (Malloc ''pingpong_dest''));
       if p = 0 then out_label E connfd None
       else server_answer E g k ctx ib_port mtu sl my_dest sgid_idx connfd msg p
              (scan_dest (junk_v32 k) (junk_gid k) (junk_dest k) msg) } }"

definition pp_server_exch_dest ::
    "api_env \<Rightarrow> rc_flags \<Rightarrow> stack \<Rightarrow> ptr list \<Rightarrow> pp_ctx \<Rightarrow> int \<Rightarrow> u32 \<Rightarrow> int \<Rightarrow> int \<Rightarrow> pp_dest
      \<Rightarrow> int \<Rightarrow> (ptr \<times> pp_dest) option prog" where
  "pp_server_exch_dest E g k addrs ctx ib_port mtu port sl my_dest sgid_idx = do {
     s \<leftarrow> open_server E addrs port;
     case s of None \<Rightarrow> ret_io None
       | Some connfd \<Rightarrow> server_talk E g k ctx ib_port mtu sl my_dest sgid_idx connfd }"

section \<open>Descriptors and memory\<close>

definition sock_bag :: "int \<Rightarrow> (res \<times> int) multiset" where
  "sock_bag s = (if 0 \<le> s then {#(Fd, s)#} else {#})"

lemma sat_connect_loop:
  "M = M0 + sock_bag s \<Longrightarrow> s < 0 \<Longrightarrow>
   sat track (connect_loop E ts s) M (\<lambda>s M'. M' = M0 + sock_bag s)"
  by (induction ts arbitrary: s M) (auto intro!: sat_intro simp: track_simps sock_bag_def)

lemma sat_bind_loop:
  "M = M0 + sock_bag s \<Longrightarrow> s < 0 \<Longrightarrow>
   sat track (bind_loop E ts s) M (\<lambda>s M'. M' = M0 + sock_bag s)"
  by (induction ts arbitrary: s M) (auto intro!: sat_intro simp: track_simps sock_bag_def)

lemmas sat_loops = sat_connect_loop [of M M "- 1"  for M, simplified sock_bag_def, simplified]
  sat_bind_loop [of M M "- 1" for M, simplified sock_bag_def, simplified]

definition opened :: "(res \<times> int) multiset \<Rightarrow> int option \<Rightarrow> (res \<times> int) multiset \<Rightarrow> bool" where
  "opened M r M' \<longleftrightarrow> M' = M + (case r of None \<Rightarrow> {#} | Some s \<Rightarrow> {#(Fd, s)#})"

lemma sat_open_client: "sat track (open_client E addrs nm port) M (opened M)"
  unfolding open_client_def
  by (auto intro!: sat_intro sat_conseq [OF sat_loops(1)] simp: track_simps opened_def)

lemma sat_open_server: "sat track (open_server E addrs port) M (opened M)"
  unfolding open_server_def
  by (auto intro!: sat_intro sat_conseq [OF sat_loops(2)] simp: track_simps opened_def)

text \<open>The outcome of an exchange: the destination's memory and nothing else.\<close>

definition exchanged ::
    "(res \<times> int) multiset \<Rightarrow> (ptr \<times> 'd) option \<Rightarrow> (res \<times> int) multiset \<Rightarrow> bool" where
  "exchanged M r M' \<longleftrightarrow> (case r of None \<Rightarrow> M' = M
     | Some (p, d) \<Rightarrow> p \<noteq> 0 \<and> M' = M + {#(Heap, p)#})"

lemma sat_client_talk: "sat track (client_talk E k d s) (add_mset (Fd, s) M) (exchanged M)"
  unfolding client_talk_def out_label_def Let_def
  by (auto intro!: sat_intro simp: track_simps exchanged_def)

lemma sat_pp_connect_ctx:
  "sat track (pp_connect_ctx E g c port my_psn mtu sl lid qpn psn dgid gidx) M (\<lambda>r M'. M' = M)"
  unfolding pp_connect_ctx_def Let_def by (auto intro!: sat_intro simp: track_simps)

lemma sat_server_talk:
  "sat track (server_talk E g k c ib mtu sl d gidx s) (add_mset (Fd, s) M) (exchanged M)"
  unfolding server_talk_def server_answer_def out_label_def
  by (auto intro!: sat_intro sat_conseq [OF sat_pp_connect_ctx] simp: track_simps exchanged_def)

lemma sat_pp_client_exch_dest:
  "sat track (pp_client_exch_dest E k addrs nm port d) M (exchanged M)"
  unfolding pp_client_exch_dest_def
  by (auto intro!: sat_intro sat_conseq [OF sat_open_client] sat_client_talk
      simp: opened_def exchanged_def)

lemma sat_pp_server_exch_dest:
  "sat track (pp_server_exch_dest E g k addrs c ib mtu port sl d gidx) M (exchanged M)"
  unfolding pp_server_exch_dest_def
  by (auto intro!: sat_intro sat_conseq [OF sat_open_server] sat_server_talk
      simp: opened_def exchanged_def)

section \<open>What is sent and what is returned\<close>

text \<open>The automaton that collects the bytes written.\<close>

definition writes :: "string list \<Rightarrow> api \<Rightarrow> int \<Rightarrow> string list option" where
  "writes q c r = Some (case c of Libc (Write fd s) \<Rightarrow> q @ [s] | _ \<Rightarrow> q)"

lemma obs_writes: "obs writes q h = Some (q @ written h)"
  by (induction h) (auto simp: writes_def split: api.splits libc_call.splits)

text \<open>The peer's bytes: every receive is filled from the same stream.\<close>

definition fed :: "api_env \<Rightarrow> string \<Rightarrow> bool" where
  "fed E m \<longleftrightarrow> (\<forall>h fd n. data_in E h (Libc (Recv fd n)) = m)"

definition read_in :: "string \<Rightarrow> string" where
  "read_in m = take MSG_SIZE (m @ replicate MSG_SIZE CHR 0x00)"

lemma sat_recv_fed:
  assumes "fed E m"
    and "\<And>r. \<exists>q'. f q (Libc (Recv fd n)) r = Some q' \<and>
           Q (r, take (nat r) (m @ replicate (nat r) CHR 0x00)) q'"
  shows "sat f (invoke_bytes E (Libc (Recv fd n))) q Q"
  using assms
  by (simp add: sat_def invoke_bytes_def run_invoke_data State_Monad.bind_def
      State_Monad.return_def fed_def)

lemmas sat_fed_intro = sat_return sat_bind sat_invoke sat_if sat_case_prod sat_case_option
  sat_invoke_bytes [of _ _ "Libc (Read fd n)" for fd n]

lemma writes_connect_loop: "sat writes (connect_loop E ts s) q (\<lambda>_ q'. q' = q)"
  by (induction ts arbitrary: s) (auto intro!: sat_intro simp: writes_def)

lemma writes_bind_loop: "sat writes (bind_loop E ts s) q (\<lambda>_ q'. q' = q)"
  by (induction ts arbitrary: s) (auto intro!: sat_intro simp: writes_def)

lemma writes_open_client: "sat writes (open_client E ts nm port) q (\<lambda>_ q'. q' = q)"
  unfolding open_client_def
  by (auto intro!: sat_intro sat_conseq [OF writes_connect_loop] simp: writes_def)

lemma writes_open_server: "sat writes (open_server E ts port) q (\<lambda>_ q'. q' = q)"
  unfolding open_server_def
  by (auto intro!: sat_intro sat_conseq [OF writes_bind_loop] simp: writes_def)

definition client_result ::
    "stack \<Rightarrow> pp_dest \<Rightarrow> string \<Rightarrow> string list \<Rightarrow> (ptr \<times> pp_dest) option \<Rightarrow> string list \<Rightarrow> bool" where
  "client_result k my m q r q' \<longleftrightarrow> (\<forall>p d. r = Some (p, d) \<longrightarrow>
     q' = q @ [dest_msg (junk_msg k) my, done_msg]
     \<and> d = scan_dest (junk_v32 k) (gid_to_wire_gid (d_gid my)) (junk_dest k) (read_in m))"

lemma writes_client:
  assumes "fed E m"
  shows "sat writes (pp_client_exch_dest E k ts nm port my) q (client_result k my m q)"
proof -
  have "sat writes (client_talk E k my s) q (client_result k my m q)" for s
    unfolding client_talk_def out_label_def Let_def
    by (auto intro!: sat_recv_fed [OF assms] sat_fed_intro
        simp: writes_def client_result_def read_in_def MSG_SIZE_def)
  then show ?thesis
    unfolding pp_client_exch_dest_def
    by (auto intro!: sat_intro sat_conseq [OF writes_open_client] simp: client_result_def)
qed

definition server_result ::
    "stack \<Rightarrow> pp_dest \<Rightarrow> string \<Rightarrow> string list \<Rightarrow> (ptr \<times> pp_dest) option \<Rightarrow> string list \<Rightarrow> bool" where
  "server_result k my m q r q' \<longleftrightarrow> (\<forall>p d. r = Some (p, d) \<longrightarrow>
     q' = q @ [dest_msg (read_in m) my]
     \<and> d = scan_dest (junk_v32 k) (junk_gid k) (junk_dest k) (read_in m))"

lemma writes_pp_connect_ctx:
  "sat writes (pp_connect_ctx E g c port my_psn mtu sl lid qpn psn dgid gidx) q (\<lambda>r q'. q' = q)"
  unfolding pp_connect_ctx_def Let_def by (auto intro!: sat_intro simp: writes_def)

lemma writes_server:
  assumes "fed E m"
  shows "sat writes (pp_server_exch_dest E g k ts c ib mtu port sl my gidx) q
           (server_result k my m q)"
proof -
  have "sat writes (server_talk E g k c ib mtu sl my gidx s) q (server_result k my m q)" for s
    unfolding server_talk_def server_answer_def out_label_def
    by (auto intro!: sat_recv_fed [OF assms] sat_fed_intro sat_conseq [OF writes_pp_connect_ctx]
        simp: writes_def server_result_def read_in_def MSG_SIZE_def)
  then show ?thesis
    unfolding pp_server_exch_dest_def
    by (auto intro!: sat_intro sat_conseq [OF writes_open_server] simp: server_result_def)
qed

lemma read_in_msg: "dest_fits d \<Longrightarrow> read_in (dest_msg old d @ t) = dest_msg old d"
  by (simp add: read_in_def dest_msg_eq length_print_dest MSG_SIZE_def)

section \<open>Properties\<close>

text \<open>A network that accepts everything, delivers the stream \<open>m\<close> and runs no peer.\<close>

definition net_env :: "string \<Rightarrow> api_env" where
  "net_env m = const_env (\<lambda>c. case c of
       Libc (Recv fd n) \<Rightarrow> n
     | Libc (Write fd s) \<Rightarrow> int (length s)
     | Libc (Connect_sock s a) \<Rightarrow> 0 | Libc (Bind_sock s a) \<Rightarrow> 0
     | Ibv i \<Rightarrow> 0 | _ \<Rightarrow> 3) (\<lambda>c. m)"

definition no_stack :: stack where
  "no_stack = \<lparr>junk_msg = [], junk_gid = [], junk_v32 = 0, junk_dest = demo_dest\<rparr>"

definition demo_dest2 :: pp_dest where
  "demo_dest2 = demo_dest\<lparr>d_lid := 3, d_psn := 77\<rparr>"

lemma demo_dest2_fits: "dest_fits demo_dest2"
  using demo_dest_fits by (simp add: dest_fits_def demo_dest2_def)

lemma fed_net_env: "fed (net_env m) m"
  by (simp add: fed_def net_env_def const_env_def)

lemma net_client_run:
  "\<exists>d h. run_state (pp_client_exch_dest (net_env m) no_stack [1] ''srv'' 18515 demo_dest) []
     = (Some (3, d), h)"
  by (simp add: pp_client_exch_dest_def open_client_def client_talk_def out_label_def run_simps
      net_env_def const_env_def rc_msg.enc_size [OF demo_dest_fits] done_msg_def)

lemma net_server_run:
  "\<exists>d h. run_state (pp_server_exch_dest (net_env m) plain_flags no_stack [1] (new_ctx 1) 1 3 18515 0
      demo_dest2 0) [] = (Some (3, d), h)"
  by (simp add: pp_server_exch_dest_def open_server_def server_talk_def server_answer_def
      out_label_def pp_connect_ctx_def run_simps net_env_def const_env_def
      rc_msg.enc_size [OF demo_dest2_fits] Let_def)

text \<open>
  C4: When the client's and the server's exchange both succeed over a TCP connection that delivers
  to each side the bytes the other wrote, the client has the server's destination and the server
  the client's.
\<close>

theorem exchange_agreement:
  assumes "dest_fits a" and "dest_fits b"
    and c: "run_state (pp_client_exch_dest Ec kc tc nm portc a) [] = (Some (pc, dc), hc)"
    and s: "run_state (pp_server_exch_dest Es g ks ts ctx ib mtu ports sl b gidx) [] = (Some (ps, ds), hs)"
    and "fed Ec (concat (written hs))" and "fed Es (concat (written hc))"
  shows "dc = b \<and> ds = a"
proof -
  have c': "client_result kc a (concat (written hs)) [] (Some (pc, dc)) (written hc)"
    using satD [OF writes_client [OF assms(5)] _ c, of "[]"] by (simp add: obs_writes)
  have s': "server_result ks b (concat (written hc)) [] (Some (ps, ds)) (written hs)"
    using satD [OF writes_server [OF assms(6)] _ s, of "[]"] by (simp add: obs_writes)
  show ?thesis
    using c' s' read_in_msg [OF assms(1)] read_in_msg [OF assms(2), of _ "[]"] assms(1,2)
    by (auto simp: client_result_def server_result_def scan_dest_msg)
qed

theorem exchange_agreement_witness:
  "\<exists>hc hs. run_state (pp_client_exch_dest (net_env (dest_msg (dest_msg [] demo_dest) demo_dest2))
        no_stack [1] ''srv'' 18515 demo_dest) [] = (Some (3, demo_dest2), hc)
     \<and> run_state (pp_server_exch_dest (net_env (dest_msg [] demo_dest @ done_msg))
        plain_flags no_stack [1] (new_ctx 1) 1 3 18515 0 demo_dest2 0) [] = (Some (3, demo_dest), hs)"
proof -
  let ?a = "dest_msg [] demo_dest" and ?b = "dest_msg (dest_msg [] demo_dest) demo_dest2"
  from net_client_run [of ?b] obtain dc hc where
    c: "run_state (pp_client_exch_dest (net_env ?b) no_stack [1] ''srv'' 18515 demo_dest) []
      = (Some (3, dc), hc)" by blast
  from net_server_run [of "?a @ done_msg"] obtain ds hs where
    s: "run_state (pp_server_exch_dest (net_env (?a @ done_msg)) plain_flags no_stack [1] (new_ctx 1)
      1 3 18515 0 demo_dest2 0) [] = (Some (3, ds), hs)" by blast
  have "written hc = [?a, done_msg]"
    using satD [OF writes_client [OF fed_net_env] _ c, of "[]"]
    by (simp add: obs_writes client_result_def no_stack_def)
  moreover have "written hs = [?b]"
    using satD [OF writes_server [OF fed_net_env] _ s, of "[]"] demo_dest_fits
    by (simp add: obs_writes server_result_def no_stack_def read_in_msg)
  ultimately have "dc = demo_dest2 \<and> ds = demo_dest"
    using exchange_agreement [OF demo_dest_fits demo_dest2_fits c s] fed_net_env by simp
  with c s show ?thesis by auto
qed

text \<open>
  Whatever the network does, both exchange functions close every descriptor they opened once and
  free the address list and the service string; what is left to the caller is the memory of the
  remote destination, and only when it is returned.
\<close>

theorem exchange_closes_sockets:
  assumes "held h = Some M"
    and "run_state (pp_client_exch_dest E k ts nm port a) h = (r, h1)"
    and "run_state (pp_server_exch_dest E g k ts ctx ib mtu port sl a gidx) h = (r', h2)"
  shows "\<exists>M1 M2. held h1 = Some M1 \<and> exchanged M r M1 \<and> held h2 = Some M2 \<and> exchanged M r' M2"
  using satD [OF sat_pp_client_exch_dest assms(1,2)] satD [OF sat_pp_server_exch_dest assms(1,3)]
  by auto

theorem exchange_closes_sockets_witness:
  "\<exists>M1. held (snd (run_state (pp_client_exch_dest (net_env []) no_stack [1] ''srv'' 1 demo_dest) []))
     = Some M1 \<and> exchanged {#}
       (fst (run_state (pp_client_exch_dest (net_env []) no_stack [1] ''srv'' 1 demo_dest) [])) M1"
  using exchange_closes_sockets [of "[]" "{#}" "net_env []" no_stack "[1]" "''srv''" 1 demo_dest
      "fst (run_state (pp_client_exch_dest (net_env []) no_stack [1] ''srv'' 1 demo_dest) [])"
      "snd (run_state (pp_client_exch_dest (net_env []) no_stack [1] ''srv'' 1 demo_dest) [])"
      plain_flags "new_ctx 1" 1 3 0 0]
  by (metis obs.simps(1) prod.collapse)

end
