(* ===== verification/RcMain.thy ===== *)
theory RcMain
  imports RcExchange
begin

text \<open>
  \<open>main\<close> of rc_pingpong.c: the options, the choice of the device, the exchange of
  destinations and the ping-pong loop, whose step for one completion is \<open>handle_wc\<close>.
\<close>

section \<open>Options\<close>

record rc_opts =
  o_flags :: rc_flags
  o_devname :: "string option"
  o_servername :: "string option"
  o_port :: int
  o_ib_port :: int
  o_size :: int
  o_mtu :: u32
  o_rx_depth :: int
  o_iters :: int
  o_use_event :: int
  o_sl :: int
  o_gidx :: int
  o_inlr :: int
  o_check_nop :: bool

definition default_opts :: rc_opts where
  "default_opts = \<lparr>o_flags = \<lparr>page_size = 0, use_contiguous_mr = False, use_odp = False,
       use_dm = False, use_upstream = False, use_ooo = False, contig_addr = 0\<rparr>,
     o_devname = None, o_servername = None, o_port = 18515, o_ib_port = 1, o_size = 4096,
     o_mtu = 3, o_rx_depth = 500, o_iters = 1000, o_use_event = 0, o_sl = 0, o_gidx = - 1,
     o_inlr = 0, o_check_nop = False\<rparr>"

text \<open>
  The body of the \<open>switch\<close>: the character \<open>getopt_long\<close> returned and \<open>optarg\<close>.
  \<open>None\<close> is \<open>usage(argv[0]); return 1\<close>.  The comparison \<open>mtu < 0\<close> is
  made on an unsigned \<open>enum\<close>.
\<close>

definition parse_opt :: "char \<times> string \<Rightarrow> rc_opts \<Rightarrow> rc_opts option" where
  "parse_opt ca opt = (case ca of (c, optarg) \<Rightarrow>
     if c = CHR ''j'' then Some (opt\<lparr>o_flags := (o_flags opt)\<lparr>use_dm := True\<rparr>\<rparr>)
     else if c = CHR ''p'' then
       (let p = strtol_int optarg in if p < 0 \<or> p > 65535 then None else Some (opt\<lparr>o_port := p\<rparr>))
     else if c = CHR ''d'' then Some (opt\<lparr>o_devname := Some optarg\<rparr>)
     else if c = CHR ''i'' then
       (let p = strtol_int optarg in if p < 0 then None else Some (opt\<lparr>o_ib_port := p\<rparr>))
     else if c = CHR ''s'' then Some (opt\<lparr>o_size := strtol0 optarg mod 2 ^ 64\<rparr>)
     else if c = CHR ''m'' then
       (let m = pp_mtu_to_enum (strtol_int optarg) in
        if m < (0 :: u32) then None else Some (opt\<lparr>o_mtu := m\<rparr>))
     else if c = CHR ''r'' then Some (opt\<lparr>o_rx_depth := strtol_int optarg\<rparr>)
     else if c = CHR ''n'' then Some (opt\<lparr>o_iters := strtol_int optarg\<rparr>)
     else if c = CHR ''l'' then Some (opt\<lparr>o_sl := strtol_int optarg\<rparr>)
     else if c = CHR ''e'' then Some (opt\<lparr>o_use_event := o_use_event opt + 1\<rparr>)
     else if c = CHR ''g'' then Some (opt\<lparr>o_gidx := strtol_int optarg\<rparr>)
     else if c = CHR ''c'' then Some (opt\<lparr>o_flags := (o_flags opt)\<lparr>use_contiguous_mr := True\<rparr>\<rparr>)
     else if c = CHR ''t'' then Some (opt\<lparr>o_inlr := strtol_int optarg\<rparr>)
     else if c = CHR ''a'' then Some (opt\<lparr>o_check_nop := True\<rparr>)
     else if c = CHR ''o'' then Some (opt\<lparr>o_flags := (o_flags opt)\<lparr>use_odp := True\<rparr>\<rparr>)
     else if c = CHR ''u'' then Some (opt\<lparr>o_flags := (o_flags opt)\<lparr>use_upstream := True\<rparr>\<rparr>)
     else if c = CHR ''z'' then Some (opt\<lparr>o_flags := (o_flags opt)\<lparr>contig_addr := strtol0 optarg\<rparr>\<rparr>)
     else if c = CHR ''b'' then Some (opt\<lparr>o_flags := (o_flags opt)\<lparr>use_ooo := True\<rparr>\<rparr>)
     else None)"

fun parse_opts :: "(char \<times> string) list \<Rightarrow> rc_opts \<Rightarrow> rc_opts option" where
  "parse_opts [] opt = Some opt"
| "parse_opts (ca # cas) opt = (case parse_opt ca opt of None \<Rightarrow> None | Some opt' \<Rightarrow> parse_opts cas opt')"

text \<open>The arguments left over and the checks that follow the loop.\<close>

definition check_opts :: "string list \<Rightarrow> rc_opts \<Rightarrow> rc_opts option" where
  "check_opts args opt =
    (if length args > 1 then None
     else let opt' = (if args = [] then opt else opt\<lparr>o_servername := Some (hd args)\<rparr>);
              g = o_flags opt'
          in if contig_addr g \<noteq> 0 \<and> \<not> use_contiguous_mr g then None
             else if use_dm g \<and> (use_contiguous_mr g \<or> use_odp g) then None
             else Some opt')"

section \<open>The loop\<close>

record loop_st =
  rcnt :: int
  scnt :: int
  routs :: int
  pend :: int
  num_cq_events :: int

text \<open>
  One completion of the batch.  \<open>Inl\<close> is the process's return value, \<open>pend\<close> is
  \<open>ctx->pending\<close>.
\<close>

definition after_wc ::
    "api_env \<Rightarrow> rc_flags \<Rightarrow> pp_ctx \<Rightarrow> int \<Rightarrow> int \<Rightarrow> loop_st \<Rightarrow> (int + loop_st) prog" where
  "after_wc E g ctx iters wr_id st = do {
     let st = st\<lparr>pend := pend st AND NOT wr_id\<rparr>;
     if scnt st < iters \<and> pend st = 0 then do {
       r \<leftarrow> pp_post_send E g ctx;
       ret_io (if r \<noteq> 0 then Inl 1
               else Inr (st\<lparr>pend := PINGPONG_RECV_WRID OR PINGPONG_SEND_WRID\<rparr>))
     } else ret_io (Inr st)
   }"

definition handle_wc ::
    "api_env \<Rightarrow> rc_flags \<Rightarrow> pp_ctx \<Rightarrow> int \<Rightarrow> wc \<Rightarrow> loop_st \<Rightarrow> (int + loop_st) prog" where
  "handle_wc E g ctx iters w st =
    (if wc_status w \<noteq> 0 then ret_io (Inl 1)
     else let wr_id = to_int32 (wc_wr_id w) in
       if wr_id = PINGPONG_SEND_WRID then after_wc E g ctx iters wr_id (st\<lparr>scnt := scnt st + 1\<rparr>)
       else if wr_id = PINGPONG_RECV_WRID then
         (let st = st\<lparr>routs := routs st - 1\<rparr> in
          if routs st \<le> 1 then do {
            n \<leftarrow> pp_post_recv E g ctx (rx_depth ctx - routs st);
            let st = st\<lparr>routs := routs st + n\<rparr>;
            if routs st < rx_depth ctx then ret_io (Inl 1)
            else after_wc E g ctx iters wr_id (st\<lparr>rcnt := rcnt st + 1\<rparr>)
          } else after_wc E g ctx iters wr_id (st\<lparr>rcnt := rcnt st + 1\<rparr>))
       else ret_io (Inl 1))"

fun handle_wcs ::
    "api_env \<Rightarrow> rc_flags \<Rightarrow> pp_ctx \<Rightarrow> int \<Rightarrow> wc list \<Rightarrow> loop_st \<Rightarrow> (int + loop_st) prog" where
  "handle_wcs E g ctx iters [] st = ret_io (Inr st)"
| "handle_wcs E g ctx iters (w # ws) st = do {
     r \<leftarrow> handle_wc E g ctx iters w st;
     case r of Inl e \<Rightarrow> ret_io (Inl e) | Inr st' \<Rightarrow> handle_wcs E g ctx iters ws st' }"

text \<open>The inner \<open>do ... while (!use_event && ne < 1)\<close>; \<open>None\<close> when \<open>fuel\<close> polls were not enough.\<close>

fun poll_batch :: "api_env \<Rightarrow> nat \<Rightarrow> bool \<Rightarrow> ptr \<Rightarrow> (int \<times> wc list) option prog" where
  "poll_batch E 0 use_event q = ret_io None"
| "poll_batch E (Suc fuel) use_event q = do {
     (ne, wcs) \<leftarrow> invoke_wcs E (Data (Poll_cq q 2));
     if ne < 0 then ret_io (Some (ne, wcs))
     else if \<not> use_event \<and> ne < 1 then poll_batch E fuel use_event q
     else ret_io (Some (ne, wcs)) }"

text \<open>Waiting for an event of the completion channel; \<open>Inl\<close> is a failure.\<close>

definition wait_event :: "api_env \<Rightarrow> pp_ctx \<Rightarrow> loop_st \<Rightarrow> (int + loop_st) prog" where
  "wait_event E ctx st = do {
     (r, ev) \<leftarrow> invoke_attr E (Data (Get_cq_event (channel ctx)));
     if r \<noteq> 0 then ret_io (Inl 1)
     else do {
       let st = st\<lparr>num_cq_events := num_cq_events st + 1\<rparr>;
       if ev ''ev_cq'' \<noteq> cq ctx then ret_io (Inl 1)
       else do {
         r \<leftarrow> invoke E (Data (Req_notify_cq (cq ctx)));
         ret_io (if r \<noteq> 0 then Inl 1 else Inr st) } } }"

definition loop_body ::
    "api_env \<Rightarrow> rc_flags \<Rightarrow> pp_ctx \<Rightarrow> int \<Rightarrow> bool \<Rightarrow> nat \<Rightarrow> loop_st \<Rightarrow> (int + loop_st) option prog" where
  "loop_body E g ctx iters use_event fuel st = do {
     w \<leftarrow> (if use_event then wait_event E ctx st else ret_io (Inr st));
     case w of Inl e \<Rightarrow> ret_io (Some (Inl e))
     | Inr st \<Rightarrow> do {
         b \<leftarrow> poll_batch E fuel use_event (cq ctx);
         case b of None \<Rightarrow> ret_io None
         | Some (ne, wcs) \<Rightarrow>
             if ne < 0 then ret_io (Some (Inl 1))
             else do { r \<leftarrow> handle_wcs E g ctx iters wcs st; ret_io (Some r) } } }"

fun main_loop ::
    "api_env \<Rightarrow> rc_flags \<Rightarrow> pp_ctx \<Rightarrow> int \<Rightarrow> bool \<Rightarrow> nat \<Rightarrow> loop_st \<Rightarrow> (int + loop_st) option prog" where
  "main_loop E g ctx iters use_event 0 st = ret_io None"
| "main_loop E g ctx iters use_event (Suc fuel) st =
    (if rcnt st < iters \<or> scnt st < iters then do {
       r \<leftarrow> loop_body E g ctx iters use_event (Suc fuel) st;
       case r of None \<Rightarrow> ret_io None
       | Some (Inl e) \<Rightarrow> ret_io (Some (Inl e))
       | Some (Inr st') \<Rightarrow> main_loop E g ctx iters use_event fuel st'
     } else ret_io (Some (Inr st)))"

section \<open>main\<close>

text \<open>After the loop.\<close>

definition main_end ::
    "api_env \<Rightarrow> rc_flags \<Rightarrow> pp_ctx \<Rightarrow> ptr \<Rightarrow> ptr \<Rightarrow> loop_st \<Rightarrow> int prog" where
  "main_end E g ctx dev_list rem_dest st = do {
     t \<leftarrow> invoke E (Libc Gettimeofday);
     if t \<noteq> 0 then ret_io 1
     else do {
       invoke E (Data (Ack_cq_events (cq ctx) (num_cq_events st)));
       r \<leftarrow> pp_close_ctx E g ctx;
       if r \<noteq> 0 then ret_io 1
       else do {
         invoke E (Ibv (Free_device_list dev_list));
         invoke E (Libc (Free rem_dest));
         ret_io 0 } } }"

definition main_run ::
    "api_env \<Rightarrow> nat \<Rightarrow> rc_opts \<Rightarrow> pp_ctx \<Rightarrow> ptr \<Rightarrow> ptr \<Rightarrow> int \<Rightarrow> int \<Rightarrow> int option prog" where
  "main_run E fuel opt ctx dev_list rem_dest pending0 routs0 = do {
     t \<leftarrow> invoke E (Libc Gettimeofday);
     if t \<noteq> 0 then ret_io (Some 1)
     else do {
       r \<leftarrow> main_loop E (o_flags opt) ctx (o_iters opt) (o_use_event opt \<noteq> 0) fuel
              \<lparr>rcnt = 0, scnt = 0, routs = routs0, pend = pending0, num_cq_events = 0\<rparr>;
       case r of None \<Rightarrow> ret_io None
       | Some (Inl e) \<Rightarrow> ret_io (Some e)
       | Some (Inr st) \<Rightarrow> do {
           e \<leftarrow> main_end E (o_flags opt) ctx dev_list rem_dest st;
           ret_io (Some e) } } }"

text \<open>The first message of the client, after the optional NOP.\<close>

definition client_start :: "api_env \<Rightarrow> nat \<Rightarrow> rc_opts \<Rightarrow> pp_ctx \<Rightarrow> (int + int) option prog" where
  "client_start E fuel opt ctx = do {
     n \<leftarrow> (if o_check_nop opt then send_nop E fuel ctx else ret_io (Some 0));
     case n of None \<Rightarrow> ret_io None
     | Some err \<Rightarrow>
         if err \<noteq> 0 then ret_io (Some (Inl err))
         else do {
           r \<leftarrow> pp_post_send E (o_flags opt) ctx;
           ret_io (Some (if r \<noteq> 0 then Inl 1
                         else Inr (PINGPONG_RECV_WRID OR PINGPONG_SEND_WRID))) } }"

definition main_connect ::
    "api_env \<Rightarrow> nat \<Rightarrow> rc_opts \<Rightarrow> pp_ctx \<Rightarrow> ptr \<Rightarrow> pp_dest \<Rightarrow> int \<Rightarrow> ptr \<times> pp_dest \<Rightarrow> int option prog" where
  "main_connect E fuel opt ctx dev_list my_dest routs0 rem = (case rem of (rem_ptr, rem_dest) \<Rightarrow>
    (if o_servername opt \<noteq> None then do {
       r \<leftarrow> pp_connect_ctx E (o_flags opt) ctx (o_ib_port opt) (d_psn my_dest) (o_mtu opt) (o_sl opt)
              (d_lid rem_dest) (d_qpn rem_dest) (d_psn rem_dest) (d_gid rem_dest) (o_gidx opt);
       if r \<noteq> 0 then ret_io (Some 1)
       else do {
         s \<leftarrow> client_start E fuel opt ctx;
         case s of None \<Rightarrow> ret_io None
         | Some (Inl e) \<Rightarrow> ret_io (Some e)
         | Some (Inr p) \<Rightarrow> main_run E fuel opt ctx dev_list rem_ptr p routs0 }
     } else main_run E fuel opt ctx dev_list rem_ptr PINGPONG_RECV_WRID routs0))"

definition main_exchange ::
    "api_env \<Rightarrow> nat \<Rightarrow> stack \<Rightarrow> ptr list \<Rightarrow> rc_opts \<Rightarrow> pp_ctx \<Rightarrow> ptr \<Rightarrow> u32 \<Rightarrow> gid \<Rightarrow> int \<Rightarrow> int option prog" where
  "main_exchange E fuel k addrs opt ctx dev_list lid g routs0 = do {
     rnd \<leftarrow> invoke E (Libc Lrand48);
     let my_dest = \<lparr>d_lid = lid, d_qpn = qp_num ctx, d_psn = word_of_int rnd AND 0xffffff, d_gid = g\<rparr>;
     rem \<leftarrow> (case o_servername opt of
         Some nm \<Rightarrow> pp_client_exch_dest E k addrs nm (o_port opt) my_dest
       | None \<Rightarrow> pp_server_exch_dest E (o_flags opt) k addrs ctx (o_ib_port opt) (o_mtu opt)
                   (o_port opt) (o_sl opt) my_dest (o_gidx opt));
     case rem of None \<Rightarrow> ret_io (Some 1)
     | Some rd \<Rightarrow> main_connect E fuel opt ctx dev_list my_dest routs0 rd }"

definition ETHERNET :: int where
  "ETHERNET = 2"

definition main_address ::
    "api_env \<Rightarrow> nat \<Rightarrow> stack \<Rightarrow> ptr list \<Rightarrow> rc_opts \<Rightarrow> pp_ctx \<Rightarrow> ptr \<Rightarrow> int \<Rightarrow> int option prog" where
  "main_address E fuel k addrs opt ctx dev_list routs0 = do {
     (r, portinfo) \<leftarrow> pp_get_port_info E (context_of ctx) (o_ib_port opt);
     if r \<noteq> 0 then ret_io (Some 1)
     else do {
       let lid = (take_bit 16 (word_of_int (portinfo ''lid'')) :: u32);
       if portinfo ''link_layer'' \<noteq> ETHERNET \<and> lid = 0 then ret_io (Some 1)
       else if o_gidx opt \<ge> 0 then do {
         (r, a) \<leftarrow> invoke_attr E (Ibv (Query_gid (context_of ctx) (o_ib_port opt) (o_gidx opt)));
         if r \<noteq> 0 then ret_io (Some 1)
         else main_exchange E fuel k addrs opt ctx dev_list lid
                (map (\<lambda>i. word_of_int (a i)) [''gid0'', ''gid1'', ''gid2'', ''gid3'']) routs0
       } else main_exchange E fuel k addrs opt ctx dev_list lid zero_gid routs0 } }"

definition main_ctx ::
    "api_env \<Rightarrow> nat \<Rightarrow> stack \<Rightarrow> ptr list \<Rightarrow> rc_opts \<Rightarrow> ptr \<Rightarrow> ptr \<Rightarrow> int option prog" where
  "main_ctx E fuel k addrs opt dev_list ib_dev = do {
     c \<leftarrow> pp_init_ctx E (o_flags opt) ib_dev (o_size opt) (o_rx_depth opt) (o_ib_port opt)
            (o_use_event opt) (o_inlr opt);
     case c of None \<Rightarrow> ret_io (Some 1)
     | Some ctx \<Rightarrow> do {
         routs0 \<leftarrow> pp_post_recv E (o_flags opt) ctx (rx_depth ctx);
         if routs0 < rx_depth ctx then ret_io (Some 1)
         else do {
           r \<leftarrow> when_io (o_use_event opt \<noteq> 0) (invoke E (Data (Req_notify_cq (cq ctx))));
           if r \<noteq> 0 then ret_io (Some 1)
           else main_address E fuel k addrs opt ctx dev_list routs0 } } }"

text \<open>The device: the first one, or the first with the name given.\<close>

definition choose_dev :: "string option \<Rightarrow> (string \<times> ptr) list \<Rightarrow> ptr option" where
  "choose_dev name devs = (case name of
      None \<Rightarrow> (case devs of [] \<Rightarrow> None | d # _ \<Rightarrow> Some (snd d))
    | Some n \<Rightarrow> map_option snd (find (\<lambda>d. fst d = n) devs))"

text \<open>
  \<open>main\<close>: the options as \<open>getopt_long\<close> splits them, the list of devices and
  the addresses are what the libraries return; \<open>None\<close> is a run that \<open>fuel\<close> did not suffice for.
\<close>

definition rc_main ::
    "api_env \<Rightarrow> nat \<Rightarrow> stack \<Rightarrow> ptr list \<Rightarrow> (string \<times> ptr) list \<Rightarrow> int
      \<Rightarrow> (char \<times> string) list \<Rightarrow> string list \<Rightarrow> int option prog" where
  "rc_main E fuel k addrs devs psize cas args =
    (case parse_opts cas default_opts of None \<Rightarrow> ret_io (Some 1)
     | Some opt \<Rightarrow> (case check_opts args opt of None \<Rightarrow> ret_io (Some 1)
       | Some opt \<Rightarrow> do {
           let opt = opt\<lparr>o_flags := (o_flags opt)\<lparr>page_size := psize\<rparr>\<rparr>;
           dev_list \<leftarrow> invoke E (Ibv Get_device_list);
           if dev_list = 0 then ret_io (Some 1)
           else case choose_dev (o_devname opt) devs of None \<Rightarrow> ret_io (Some 1)
             | Some ib_dev \<Rightarrow> main_ctx E fuel k addrs opt dev_list ib_dev }))"

section \<open>What main gives back\<close>

lemma track_data [simp]: "track M (Data d) r = Some M"
  by (simp add: track_simps)

text \<open>The data path acquires nothing, and an error is a status other than 0.\<close>

definition unchanged :: "'q \<Rightarrow> 'a \<Rightarrow> 'q \<Rightarrow> bool" where
  "unchanged M r M' \<longleftrightarrow> M' = M"

definition quiet :: "'q \<Rightarrow> int + 'a \<Rightarrow> 'q \<Rightarrow> bool" where
  "quiet M r M' \<longleftrightarrow> M' = M \<and> r \<noteq> Inl 0"

definition quiet_opt :: "'q \<Rightarrow> (int + 'a) option \<Rightarrow> 'q \<Rightarrow> bool" where
  "quiet_opt M r M' \<longleftrightarrow> M' = M \<and> r \<noteq> Some (Inl 0)"

lemmas quiet_defs = unchanged_def quiet_def quiet_opt_def

lemma held_post_recv_loop: "sat track (post_recv_loop E q wr n i) M (unchanged M)"
  by (induction n arbitrary: i) (auto intro!: sat_intro simp: unchanged_def)

lemma held_after_wc: "sat track (after_wc E g ctx iters w st) M (quiet M)"
  unfolding after_wc_def pp_post_send_def Let_def by (auto intro!: sat_intro simp: quiet_def)

lemma held_handle_wc: "sat track (handle_wc E g ctx iters w st) M (quiet M)"
  unfolding handle_wc_def pp_post_recv_def Let_def
  by (auto intro!: sat_intro sat_conseq [OF held_post_recv_loop] held_after_wc simp: quiet_defs)

lemma held_handle_wcs: "sat track (handle_wcs E g ctx iters ws st) M (quiet M)"
  by (induction ws arbitrary: st)
    (auto intro!: sat_intro sat_conseq [OF held_handle_wc] simp: quiet_def)

lemma held_poll_batch: "sat track (poll_batch E fuel ev q) M (unchanged M)"
  by (induction fuel) (auto intro!: sat_intro simp: unchanged_def)

lemma held_poll_one: "sat track (poll_one E fuel q) M (unchanged M)"
  by (induction fuel) (auto intro!: sat_intro simp: unchanged_def)

lemma held_loop_body: "sat track (loop_body E g ctx iters ev fuel st) M (quiet_opt M)"
  unfolding loop_body_def wait_event_def Let_def
  by (auto intro!: sat_intro sat_conseq [OF held_poll_batch] sat_conseq [OF held_handle_wcs]
      simp: quiet_defs)

lemma held_main_loop: "sat track (main_loop E g ctx iters ev fuel st) M (quiet_opt M)"
  by (induction fuel arbitrary: st)
    (auto intro!: sat_intro sat_conseq [OF held_loop_body] simp: quiet_opt_def)

lemma held_client_start: "sat track (client_start E fuel opt ctx) M (quiet_opt M)"
  unfolding client_start_def send_nop_def pp_post_send_def
  by (auto intro!: sat_intro sat_conseq [OF held_poll_one] simp: quiet_defs split: option.splits if_splits)

text \<open>The exit status 0 means that everything has been given back.\<close>

definition clean_exit ::
    "(res \<times> int) multiset \<Rightarrow> int option \<Rightarrow> (res \<times> int) multiset \<Rightarrow> bool" where
  "clean_exit M r M' \<longleftrightarrow> (r = Some 0 \<longrightarrow> M' = M)"

definition owns_main :: "rc_opts \<Rightarrow> pp_ctx \<Rightarrow> ptr \<Rightarrow> (res \<times> int) multiset" where
  "owns_main opt ctx dev_list = add_mset (Device_list, dev_list) (ctx_owns (o_flags opt) ctx)"

lemma held_main_end:
  assumes "ctx_wf (o_flags opt) ctx" and "M = M0 + add_mset (Heap, p) (owns_main opt ctx dl)" and "p \<noteq> 0"
  shows "sat track (main_end E (o_flags opt) ctx dl p st) M (\<lambda>r. clean_exit M0 (Some r))"
proof -
  have "sat track (pp_close_ctx E (o_flags opt) ctx) M
      (\<lambda>r M'. if r = 0 then M' = M0 + {#(Heap, p), (Device_list, dl)#}
              else M0 + {#(Heap, p), (Device_list, dl)#} \<subseteq># M')"
    using sat_pp_close_ctx [OF assms(1), of E "M0 + {#(Heap, p), (Device_list, dl)#}"] assms(2)
    by (simp add: owns_main_def)
  note close = sat_conseq [OF this]
  show ?thesis unfolding main_end_def
    by (auto intro!: sat_intro close simp: track_simps clean_exit_def assms(3) split: if_splits)
qed

lemma held_main_run:
  assumes "ctx_wf (o_flags opt) ctx" and "M = M0 + add_mset (Heap, p) (owns_main opt ctx dl)"
    and "p \<noteq> 0"
  shows "sat track (main_run E fuel opt ctx dl p pend0 routs0) M (clean_exit M0)"
proof -
  have e: "sat track (main_end E (o_flags opt) ctx dl p st) M
      (\<lambda>a q'. sat track (ret_io (Some a)) q' (clean_exit M0))" for st
    by (rule sat_conseq [OF held_main_end [OF assms]]) (rule sat_return)
  show ?thesis unfolding main_run_def
    by (auto intro!: sat_intro sat_conseq [OF held_main_loop] e
        simp: track_simps quiet_opt_def clean_exit_def)
qed

lemma held_main_connect:
  assumes "ctx_wf (o_flags opt) ctx" and "M = M0 + add_mset (Heap, fst rd) (owns_main opt ctx dl)"
    and "fst rd \<noteq> 0"
  shows "sat track (main_connect E fuel opt ctx dl my routs0 rd) M (clean_exit M0)"
  using assms unfolding main_connect_def
  by (auto intro!: sat_intro sat_conseq [OF sat_pp_connect_ctx] sat_conseq [OF held_client_start]
      held_main_run simp: quiet_opt_def clean_exit_def)

lemma held_main_exchange:
  assumes "ctx_wf (o_flags opt) ctx" and "M = M0 + owns_main opt ctx dl"
  shows "sat track (main_exchange E fuel k addrs opt ctx dl lid g routs0) M (clean_exit M0)"
proof -
  have c: "sat track (case rem of None \<Rightarrow> ret_io (Some 1)
       | Some rd \<Rightarrow> main_connect E fuel opt ctx dl my routs0 rd) M' (clean_exit M0)"
    if "exchanged M rem M'" for rem my M'
    using that assms
    by (auto intro!: sat_intro held_main_connect simp: exchanged_def clean_exit_def split: prod.splits)
  show ?thesis unfolding main_exchange_def Let_def
    by (auto intro!: sat_bind sat_invoke sat_case_option sat_conseq [OF sat_pp_client_exch_dest]
        sat_conseq [OF sat_pp_server_exch_dest] c simp: track_simps)
qed

lemma held_main_ctx:
  assumes "flags_ok (o_flags opt)" and "M = add_mset (Device_list, dl) M0"
  shows "sat track (main_ctx E fuel k addrs opt dl ib_dev) M (clean_exit M0)"
proof -
  have a: "sat track (main_address E fuel k addrs opt ctx dl routs0) M' (clean_exit M0)"
    if "ctx_wf (o_flags opt) ctx" "M' = M0 + owns_main opt ctx dl" for ctx routs0 M'
    using that unfolding main_address_def pp_get_port_info_def Let_def
    by (auto intro!: sat_intro held_main_exchange simp: track_simps clean_exit_def)
  show ?thesis unfolding main_ctx_def
    by (auto intro!: sat_intro sat_conseq [OF sat_pp_init_ctx [OF assms(1)]] a
        sat_conseq [OF held_post_recv_loop]
        simp: pp_post_recv_def init_post_def assms(2) owns_main_def unchanged_def clean_exit_def)
qed

lemma parse_check_flags: "check_opts args opt = Some opt' \<Longrightarrow> flags_ok (o_flags opt')"
  by (auto simp: check_opts_def flags_ok_def Let_def split: if_splits)

lemma held_rc_main: "sat track (rc_main E fuel k addrs devs psize cas args) M (clean_exit M)"
  unfolding rc_main_def Let_def
  by (auto intro!: sat_intro held_main_ctx dest!: parse_check_flags
      simp: track_simps clean_exit_def flags_ok_def)

section \<open>Properties\<close>

text \<open>
  C5: Whatever its options are, device memory included, and whatever the libraries answer: whenever
  \<open>main\<close> returns the status 0, everything it acquired, the device list, the context, the
  sockets and the remote destination, has been given back; and at no point has anything been
  released twice or released without having been acquired, whichever status it returns.
\<close>

theorem main_gives_back:
  assumes "held h = Some M"
    and "run_state (rc_main E fuel k addrs devs psize cas args) h = (r, h')"
  shows "\<exists>M'. held h' = Some M' \<and> (r = Some 0 \<longrightarrow> M' = M)"
  using satD [OF held_rc_main assms] by (simp add: clean_exit_def)

text \<open>
  A client with device memory, a receive queue of one and one iteration; the adapter delivers both
  completions at its first poll.
\<close>

definition rc_demo_env :: api_env where
  "rc_demo_env = \<lparr>ret = (\<lambda>h c. case c of Libc (Recv fd n) \<Rightarrow> n
       | Libc (Write fd s) \<Rightarrow> int (length s) | Libc (Connect_sock s a) \<Rightarrow> 0 | Libc Gettimeofday \<Rightarrow> 0
       | Data (Poll_cq q n) \<Rightarrow> 2 | _ \<Rightarrow> if status_call c then 0 else 1),
     data_in = (\<lambda>h c. dest_msg [] demo_dest2), attr_in = (\<lambda>h c a. 4096),
     wcs_in = (\<lambda>h c. [\<lparr>wc_wr_id = PINGPONG_SEND_WRID, wc_status = 0, wc_opcode = WC_SEND, wc_imm = 0, wc_qp_num = 0\<rparr>,
       \<lparr>wc_wr_id = PINGPONG_RECV_WRID, wc_status = 0, wc_opcode = WC_RECV, wc_imm = 0, wc_qp_num = 0\<rparr>])\<rparr>"

abbreviation rc_demo_args :: "(char \<times> string) list" where
  "rc_demo_args \<equiv> [(CHR ''n'', ''1''), (CHR ''r'', ''1''), (CHR ''j'', [])]"

lemma rc_demo_parse: "parse_opts rc_demo_args default_opts =
  Some (default_opts\<lparr>o_iters := 1, o_rx_depth := 1, o_flags := (o_flags default_opts)\<lparr>use_dm := True\<rparr>\<rparr>)"
  by code_simp

lemma rc_demo_msg: "length (dest_msg old \<lparr>d_lid = 4096, d_qpn = 4096, d_psn = 1, d_gid = zero_gid\<rparr>) = MSG_SIZE"
  by (rule rc_msg.enc_size) (simp add: dest_fits_def zero_gid_def)

lemma rc_demo_main:
  "fst (run_state (rc_main rc_demo_env 3 no_stack [1] [(''mlx5_0'', 7)] 4096 rc_demo_args [''srv'']) []) = Some 0"
  unfolding rc_main_def rc_demo_parse
  by (simp add: check_opts_def default_opts_def choose_dev_def main_ctx_def init_defs new_ctx_def set_mr_def
      pp_post_recv_def main_address_def pp_get_port_info_def main_exchange_def pp_client_exch_dest_def
      open_client_def client_talk_def out_label_def done_msg_def rc_demo_msg
      main_connect_def pp_connect_ctx_def client_start_def pp_post_send_def main_run_def
      numeral_3_eq_3 loop_body_def handle_wc_def after_wc_def main_end_def pp_close_ctx_def close_buffers_def
      run_simps rc_demo_env_def status_call_def to_int32_def PINGPONG_RECV_WRID_def PINGPONG_SEND_WRID_def Let_def)

theorem main_gives_back_witness:
  "fst (run_state (rc_main rc_demo_env 3 no_stack [1] [(''mlx5_0'', 7)] 4096 rc_demo_args [''srv'']) []) = Some 0
   \<and> held (snd (run_state (rc_main rc_demo_env 3 no_stack [1] [(''mlx5_0'', 7)] 4096 rc_demo_args [''srv'']) []))
     = Some {#}"
  using main_gives_back [OF _ surjective_pairing, of "[]" "{#}"] rc_demo_main by fastforce

text \<open>
  The check \<open>if (mtu < 0)\<close> never fires: \<open>-m\<close> accepts every argument, and one
  that is no MTU is stored as the value -1 of the unsigned enum, which \<open>ibv_modify_qp\<close> gets.
\<close>

theorem mtu_never_refused:
  "\<exists>opt'. parse_opt (CHR ''m'', s) opt = Some opt' \<and> o_mtu opt' = pp_mtu_to_enum (strtol_int s)"
  by (simp add: parse_opt_def Let_def)

text \<open>
  The options that pass: a port is between 0 and 65535, the InfiniBand port is not negative, and
  device memory excludes on-demand paging and contiguous regions, so that at most one kind of
  registration that needs its own memory is chosen.
\<close>

theorem options_in_range:
  assumes "parse_opts cas default_opts = Some opt" and "check_opts args opt = Some opt'"
  shows "0 \<le> o_port opt' \<and> o_port opt' \<le> 65535 \<and> 0 \<le> o_ib_port opt' \<and> flags_ok (o_flags opt')
    \<and> (contig_addr (o_flags opt') = 0 \<or> use_contiguous_mr (o_flags opt'))"
proof -
  have step: "0 \<le> o_port o2 \<and> o_port o2 \<le> 65535 \<and> 0 \<le> o_ib_port o2"
    if "parse_opt ca o1 = Some o2" "0 \<le> o_port o1 \<and> o_port o1 \<le> 65535 \<and> 0 \<le> o_ib_port o1" for ca o1 o2
    using that by (cases ca) (auto simp: parse_opt_def Let_def split: if_splits)
  have "0 \<le> o_port o2 \<and> o_port o2 \<le> 65535 \<and> 0 \<le> o_ib_port o2"
    if "parse_opts cas o1 = Some o2" "0 \<le> o_port o1 \<and> o_port o1 \<le> 65535 \<and> 0 \<le> o_ib_port o1" for o1 o2
    using that
  proof (induction cas o1 rule: parse_opts.induct)
    case (2 ca cas o1)
    then show ?case by (auto split: option.splits dest: step)
  qed simp
  from this [OF assms(1)] assms(2) show ?thesis
    by (auto simp: default_opts_def check_opts_def flags_ok_def Let_def split: if_splits)
qed

theorem options_in_range_witness:
  "o_port (default_opts\<lparr>o_use_event := 1, o_servername := Some ''srv''\<rparr>) \<le> 65535"
proof -
  have p: "parse_opts [(CHR ''e'', [])] default_opts = Some (default_opts\<lparr>o_use_event := 1\<rparr>)"
    by (simp add: parse_opt_def default_opts_def)
  have c: "check_opts [''srv''] (default_opts\<lparr>o_use_event := 1\<rparr>)
      = Some (default_opts\<lparr>o_use_event := 1, o_servername := Some ''srv''\<rparr>)"
    by (simp add: check_opts_def default_opts_def)
  show ?thesis using options_in_range [OF p c] by blast
qed

end
