(* ===== verification/RcSystem.thy ===== *)
theory RcSystem
  imports RcMain
begin

text \<open>
  The ping-pong protocol of rc_pingpong.c.  First the credits of one process, whatever its
  environment delivers: the send queue has one entry and the receive queue \<open>rx_depth\<close>.  Then two
  processes, a client and a server, connected by a reliable network: a step delivers one
  completion and runs the code's \<open>handle_wc\<close>.
\<close>

section \<open>Posted work\<close>

text \<open>The automaton that counts both.\<close>

definition posts :: "int \<times> int \<Rightarrow> api \<Rightarrow> int \<Rightarrow> (int \<times> int) option" where
  "posts n c r = Some (fst n + sends [(c, r)], snd n + recvs [(c, r)])"

lemma obs_posts: "obs posts (a, b) h = Some (a + sends h, b + recvs h)"
  by (induction h) (auto simp: posts_def)

lemma posts_simps [simp]:
  "posts n (Libc l) r = Some n" "posts n (Ibv i) r = Some n" "posts n (Cm m) r = Some n"
  "posts n (Data (Poll_cq q k)) r = Some n" "posts n (Data (Req_notify_cq q)) r = Some n"
  "posts n (Data (Get_cq_event q)) r = Some n"
  "posts (s, v) (Data (Post_send q w)) r = Some (s + (if r = 0 then 1 else 0), v)"
  "posts (s, v) (Data (Post_recv q w')) r = Some (s, v + (if r = 0 then 1 else 0))"
  by (simp_all add: posts_def)

text \<open>
  The credits: at most one send is posted and not completed, no more than \<open>iters\<close> are posted
  (or one), the receives posted are those completed and \<open>routs\<close>, which stays between two and the
  depth of the queue.
\<close>

definition credits :: "int \<Rightarrow> int \<Rightarrow> loop_st \<Rightarrow> int \<times> int \<Rightarrow> bool" where
  "credits iters depth st n \<longleftrightarrow> pend st \<in> {0, 1, 2, 3}
     \<and> fst n \<le> scnt st + (if pend st AND PINGPONG_SEND_WRID \<noteq> 0 then 1 else 0)
     \<and> fst n \<le> max 1 iters
     \<and> snd n = routs st + rcnt st \<and> min 2 depth \<le> routs st \<and> routs st \<le> depth"

definition keeps_credits :: "int \<Rightarrow> int \<Rightarrow> (int + loop_st) \<Rightarrow> int \<times> int \<Rightarrow> bool" where
  "keeps_credits iters depth r n \<longleftrightarrow> fst n \<le> max 1 iters
     \<and> (case r of Inl e \<Rightarrow> True | Inr st \<Rightarrow> credits iters depth st n)"

lemma sat_post_recv_loop:
  "sat posts (post_recv_loop E q wr n i) (s, v)
     (\<lambda>k p. i \<le> k \<and> k \<le> i + int n \<and> p = (s, v + (k - i)))"
proof (induction n arbitrary: i v)
  case (Suc n)
  show ?case
    by (auto intro!: sat_intro sat_conseq [OF Suc])
qed (auto intro!: sat_intro)

lemma wrids: "PINGPONG_RECV_WRID = 1" "PINGPONG_SEND_WRID = 2"
  by (simp_all add: PINGPONG_RECV_WRID_def PINGPONG_SEND_WRID_def)

lemma sat_after_wc:
  assumes "pend st \<in> {0, 1, 2, 3}" and "wr_id = 1 \<or> wr_id = 2"
    and "s \<le> scnt st + (if (pend st AND NOT wr_id) AND 2 \<noteq> 0 then 1 else 0)" and "s \<le> max 1 iters"
    and "v = routs st + rcnt st" and "min 2 d \<le> routs st" and "routs st \<le> d"
  shows "sat posts (after_wc E g ctx iters wr_id st) (s, v) (keeps_credits iters d)"
  using assms unfolding after_wc_def pp_post_send_def Let_def
  by (auto intro!: sat_intro simp: keeps_credits_def credits_def wrids split: if_splits)

lemma sat_handle_wc:
  assumes "credits iters (rx_depth ctx) st n" and "1 \<le> rx_depth ctx"
  shows "sat posts (handle_wc E g ctx iters w st) n (keeps_credits iters (rx_depth ctx))"
proof -
  obtain s v where n: "n = (s, v)" by (cases n)
  note c = assms(1) [unfolded credits_def n wrids, simplified]
  have f: "s \<le> max 1 iters" using c by simp
  show ?thesis
    unfolding handle_wc_def n Let_def pp_post_recv_def
    using c assms(2)
    by (auto intro!: sat_intro sat_after_wc sat_conseq [OF sat_post_recv_loop]
        simp: wrids keeps_credits_def f split: if_splits)
qed

lemma keeps_creditsD:
  "keeps_credits iters d (Inr st) n \<Longrightarrow> credits iters d st n"
  by (simp add: keeps_credits_def)

lemma sat_handle_wcs:
  assumes "credits iters (rx_depth ctx) st n" and "1 \<le> rx_depth ctx"
  shows "sat posts (handle_wcs E g ctx iters ws st) n (keeps_credits iters (rx_depth ctx))"
  using assms(1)
proof (induction ws arbitrary: st n)
  case Nil
  then show ?case by (auto intro!: sat_intro simp: keeps_credits_def credits_def)
next
  case (Cons w ws)
  show ?case unfolding handle_wcs.simps
    by (rule sat_bind, rule sat_conseq [OF sat_handle_wc [OF Cons.prems assms(2)]])
      (auto intro!: sat_intro Cons.IH simp: keeps_creditsD)
qed

lemma sat_poll_batch: "sat posts (poll_batch E fuel ev q) n (\<lambda>_ n'. n' = n)"
  by (induction fuel) (auto intro!: sat_intro)

definition loop_post :: "int \<Rightarrow> int \<Rightarrow> (int + loop_st) option \<Rightarrow> int \<times> int \<Rightarrow> bool" where
  "loop_post iters depth r n \<longleftrightarrow> fst n \<le> max 1 iters
     \<and> (case r of Some (Inr st) \<Rightarrow> credits iters depth st n | _ \<Rightarrow> True)"

lemma credits_bound: "credits iters d st n \<Longrightarrow> fst n \<le> max 1 iters"
  by (simp add: credits_def)

lemma loop_post_simps:
  "loop_post iters d None n \<longleftrightarrow> fst n \<le> max 1 iters"
  "loop_post iters d (Some (Inl e)) n \<longleftrightarrow> fst n \<le> max 1 iters"
  "loop_post iters d (Some (Inr st)) n \<longleftrightarrow> credits iters d st n"
  using credits_bound [of iters d st n] by (auto simp: loop_post_def)

lemma sat_loop_body:
  assumes "credits iters (rx_depth ctx) st n" and "1 \<le> rx_depth ctx"
  shows "sat posts (loop_body E g ctx iters ev fuel st) n (loop_post iters (rx_depth ctx))"
proof -
  have w: "sat posts (wait_event E ctx st) n (keeps_credits iters (rx_depth ctx))"
    using assms(1) unfolding wait_event_def Let_def
    by (auto intro!: sat_intro simp: keeps_credits_def credits_def)
  have k: "keeps_credits iters (rx_depth ctx) (Inr st) n"
    using assms(1) by (simp add: keeps_credits_def credits_bound)
  have h: "sat posts (do { b \<leftarrow> poll_batch E fuel ev (cq ctx);
         case b of None \<Rightarrow> ret_io None
         | Some (ne, wcs) \<Rightarrow>
             if ne < 0 then ret_io (Some (Inl 1))
             else do { r \<leftarrow> handle_wcs E g ctx iters wcs st'; ret_io (Some r) } }) n'
         (loop_post iters (rx_depth ctx))" if "credits iters (rx_depth ctx) st' n'" for st' n'
    using that assms(2) credits_bound [OF that]
    by (auto intro!: sat_intro sat_conseq [OF sat_poll_batch] sat_conseq [OF sat_handle_wcs]
        simp: loop_post_def keeps_credits_def split: sum.splits)
  have b: "sat posts (if ev then wait_event E ctx st else ret_io (Inr st)) n
             (keeps_credits iters (rx_depth ctx))"
    using w k by (auto intro!: sat_intro)
  show ?thesis unfolding loop_body_def
    by (rule sat_bind, rule sat_conseq [OF b])
      (auto intro!: sat_case_sum sat_return h simp: keeps_credits_def loop_post_def)
qed

lemma sat_main_loop:
  assumes "credits iters (rx_depth ctx) st n" and "1 \<le> rx_depth ctx"
  shows "sat posts (main_loop E g ctx iters ev fuel st) n
    (\<lambda>r n. loop_post iters (rx_depth ctx) r n
       \<and> (\<forall>st'. r = Some (Inr st') \<longrightarrow> iters \<le> rcnt st' \<and> iters \<le> scnt st'))"
  using assms(1)
proof (induction fuel arbitrary: st n)
  case 0
  then show ?case by (auto intro!: sat_intro simp: loop_post_def credits_bound)
next
  case (Suc fuel)
  have "sat posts (loop_body E g ctx iters ev (Suc fuel) st) n (loop_post iters (rx_depth ctx))"
    by (rule sat_loop_body) (use Suc.prems assms(2) in auto)
  moreover have "sat posts (case r of None \<Rightarrow> ret_io None
      | Some (Inl e) \<Rightarrow> ret_io (Some (Inl e))
      | Some (Inr st') \<Rightarrow> main_loop E g ctx iters ev fuel st') n'
    (\<lambda>r n. loop_post iters (rx_depth ctx) r n
       \<and> (\<forall>st'. r = Some (Inr st') \<longrightarrow> iters \<le> rcnt st' \<and> iters \<le> scnt st'))"
    if "loop_post iters (rx_depth ctx) r n'" for r n'
    using that by (auto intro!: sat_intro Suc.IH simp: loop_post_simps)
  ultimately show ?case using Suc.prems unfolding main_loop.simps
    by (intro sat_if sat_bind) (auto intro: sat_conseq sat_return simp: loop_post_simps)
qed

section \<open>Two processes\<close>

text \<open>A completion of a send and of a receive, as a successful one is reported.\<close>

definition send_wc :: wc where
  "send_wc = \<lparr>wc_wr_id = PINGPONG_SEND_WRID, wc_status = 0, wc_opcode = WC_SEND, wc_imm = 0, wc_qp_num = 0\<rparr>"

definition recv_wc :: wc where
  "recv_wc = \<lparr>wc_wr_id = PINGPONG_RECV_WRID, wc_status = 0, wc_opcode = WC_RECV, wc_imm = 0, wc_qp_num = 0\<rparr>"

record proc =
  env_of :: api_env
  flags_of :: rc_flags
  ctx_of :: pp_ctx
  st_of :: loop_st
  hist_of :: trace

definition deliver :: "int \<Rightarrow> wc \<Rightarrow> proc \<Rightarrow> proc option" where
  "deliver iters w p =
    (case run_state (handle_wc (env_of p) (flags_of p) (ctx_of p) iters w (st_of p)) (hist_of p) of
       (Inl e, h) \<Rightarrow> None
     | (Inr st, h) \<Rightarrow> Some (p\<lparr>st_of := st, hist_of := h\<rparr>))"

text \<open>
  One event of the pair \<open>(client, server)\<close>: the completion of a posted send, or the arrival of
  a message the other side has posted and this side has not received.  A message arrives only
  where a receive is posted.
\<close>

inductive net_step :: "int \<Rightarrow> proc \<times> proc \<Rightarrow> proc \<times> proc \<Rightarrow> bool" for iters where
  client_sent: "scnt (st_of c) < sends (hist_of c) \<Longrightarrow> deliver iters send_wc c = Some c' \<Longrightarrow>
     net_step iters (c, s) (c', s)"
| server_sent: "scnt (st_of s) < sends (hist_of s) \<Longrightarrow> deliver iters send_wc s = Some s' \<Longrightarrow>
     net_step iters (c, s) (c, s')"
| client_got: "rcnt (st_of c) < sends (hist_of s) \<Longrightarrow> rcnt (st_of c) < recvs (hist_of c) \<Longrightarrow>
     deliver iters recv_wc c = Some c' \<Longrightarrow> net_step iters (c, s) (c', s)"
| server_got: "rcnt (st_of s) < sends (hist_of c) \<Longrightarrow> rcnt (st_of s) < recvs (hist_of s) \<Longrightarrow>
     deliver iters recv_wc s = Some s' \<Longrightarrow> net_step iters (c, s) (c, s')"

inductive_cases net_stepE: "net_step iters (c, s) S'"

text \<open>Where the loops start: receives posted, the client's first message posted.\<close>

definition starts :: "bool \<Rightarrow> proc \<Rightarrow> bool" where
  "starts client p \<longleftrightarrow> (\<forall>h c. ret (env_of p) h (Data c) = 0) \<and> 1 \<le> rx_depth (ctx_of p)
     \<and> rcnt (st_of p) = 0 \<and> scnt (st_of p) = 0 \<and> routs (st_of p) = rx_depth (ctx_of p)
     \<and> pend (st_of p) =
         (if client then PINGPONG_RECV_WRID OR PINGPONG_SEND_WRID else PINGPONG_RECV_WRID)
     \<and> sends (hist_of p) = (if client then 1 else 0) \<and> recvs (hist_of p) = rx_depth (ctx_of p)"

definition finished :: "int \<Rightarrow> proc \<Rightarrow> bool" where
  "finished iters p \<longleftrightarrow> iters \<le> rcnt (st_of p) \<and> iters \<le> scnt (st_of p)"

section \<open>What a delivery does\<close>

text \<open>The posts of a process whose posts succeed.\<close>

definition posts_ok :: "api_env \<Rightarrow> bool" where
  "posts_ok E \<longleftrightarrow> (\<forall>h c. ret E h (Data c) = 0)"

lemma run_post_recv_loop:
  "posts_ok E \<Longrightarrow> run_state (post_recv_loop E q wr n i) h =
     (i + int n, replicate n (Data (Post_recv q [wr]), 0) @ h)"
proof (induction n arbitrary: i h)
  case (Suc n)
  have "replicate n x @ x # h = x # replicate n x @ h" for x :: "api \<times> int" and h
    by (induction n) auto
  with Suc show ?case by (simp add: run_simps posts_ok_def)
qed (simp add: run_simps)

lemma counts_replicate [simp]:
  "sends (replicate n (Data (Post_recv q w), 0) @ h) = sends h"
  "recvs (replicate n (Data (Post_recv q w), 0) @ h) = recvs h + int n"
  by (induction n) auto

text \<open>The state after a send completion, and after a receive completion, and what was posted.\<close>

definition next_st :: "int \<Rightarrow> int \<Rightarrow> loop_st \<Rightarrow> loop_st" where
  "next_st iters wr_id st = (let p = pend st AND NOT wr_id in
     if scnt st < iters \<and> p = 0 then st\<lparr>pend := 3\<rparr> else st\<lparr>pend := p\<rparr>)"

definition posted :: "int \<Rightarrow> int \<Rightarrow> loop_st \<Rightarrow> int" where
  "posted iters wr_id st = (if scnt st < iters \<and> pend st AND NOT wr_id = 0 then 1 else 0)"

lemma run_after_wc:
  assumes "posts_ok E"
  shows "\<exists>h'. run_state (after_wc E g ctx iters wr_id st) h = (Inr (next_st iters wr_id st), h')
     \<and> sends h' = sends h + posted iters wr_id st \<and> recvs h' = recvs h"
  using assms unfolding after_wc_def pp_post_send_def
  by (auto simp: run_simps next_st_def posted_def wrids posts_ok_def Let_def)

lemma deliver_send:
  assumes "posts_ok (env_of p)"
  shows "\<exists>h'. deliver iters send_wc p = Some (p\<lparr>st_of := next_st iters 2 ((st_of p)\<lparr>scnt := scnt (st_of p) + 1\<rparr>),
            hist_of := h'\<rparr>)
     \<and> sends h' = sends (hist_of p) + posted iters 2 ((st_of p)\<lparr>scnt := scnt (st_of p) + 1\<rparr>)
     \<and> recvs h' = recvs (hist_of p)"
proof -
  have "handle_wc (env_of p) (flags_of p) (ctx_of p) iters send_wc (st_of p) =
    after_wc (env_of p) (flags_of p) (ctx_of p) iters 2 ((st_of p)\<lparr>scnt := scnt (st_of p) + 1\<rparr>)"
    by (simp add: handle_wc_def send_wc_def wrids)
  then show ?thesis
    using run_after_wc [OF assms, of "flags_of p" "ctx_of p" iters 2
        "(st_of p)\<lparr>scnt := scnt (st_of p) + 1\<rparr>" "hist_of p"]
    by (auto simp: deliver_def)
qed

text \<open>The receive credit is taken, and the queue refilled when it runs low.\<close>

definition refill :: "int \<Rightarrow> loop_st \<Rightarrow> loop_st" where
  "refill depth st = st\<lparr>routs := (if routs st - 1 \<le> 1 then depth else routs st - 1),
     rcnt := rcnt st + 1\<rparr>"

lemma deliver_recv:
  assumes "posts_ok (env_of p)" and "routs (st_of p) \<le> rx_depth (ctx_of p)"
  shows "\<exists>h'. deliver iters recv_wc p = Some (p\<lparr>st_of := next_st iters 1 (refill (rx_depth (ctx_of p)) (st_of p)),
            hist_of := h'\<rparr>)
     \<and> sends h' = sends (hist_of p) + posted iters 1 (refill (rx_depth (ctx_of p)) (st_of p))
     \<and> recvs h' - routs (refill (rx_depth (ctx_of p)) (st_of p)) = recvs (hist_of p) - routs (st_of p) + 1"
proof -
  let ?st = "st_of p" and ?d = "rx_depth (ctx_of p)"
  let ?h = "if routs ?st - 1 \<le> 1 then snd (run_state (pp_post_recv (env_of p) (flags_of p) (ctx_of p)
      (?d - (routs ?st - 1))) (hist_of p)) else hist_of p"
  have h: "sends ?h = sends (hist_of p)"
    "recvs ?h = recvs (hist_of p) + (if routs ?st - 1 \<le> 1 then ?d - (routs ?st - 1) else 0)"
    using assms by (auto simp: pp_post_recv_def run_post_recv_loop)
  have "run_state (handle_wc (env_of p) (flags_of p) (ctx_of p) iters recv_wc ?st) (hist_of p) =
     run_state (after_wc (env_of p) (flags_of p) (ctx_of p) iters 1 (refill ?d ?st)) ?h"
    using assms
    by (auto simp: handle_wc_def recv_wc_def wrids refill_def run_simps pp_post_recv_def
        run_post_recv_loop Let_def)
  moreover obtain h' where
    "run_state (after_wc (env_of p) (flags_of p) (ctx_of p) iters 1 (refill ?d ?st)) ?h =
       (Inr (next_st iters 1 (refill ?d ?st)), h')"
    "sends h' = sends ?h + posted iters 1 (refill ?d ?st)" "recvs h' = recvs ?h"
    using run_after_wc [OF assms(1)] by blast
  ultimately show ?thesis using h by (auto simp: deliver_def refill_def)
qed

section \<open>The invariant of the pair\<close>

text \<open>
  Of one process: its counters against its \<open>pend\<close> bits.  \<open>lead\<close> is 1 for the server,
  which waits for the first message, and 0 for the client.
\<close>

definition st_inv :: "int \<Rightarrow> int \<Rightarrow> loop_st \<Rightarrow> int \<Rightarrow> bool" where
  "st_inv iters lead st n \<longleftrightarrow> pend st \<in> {0, 1, 2, 3}
      \<and> n = scnt st + (if pend st = 2 \<or> pend st = 3 then 1 else 0)
      \<and> n = rcnt st + (if pend st = 1 \<or> pend st = 3 then 1 else 0) - lead
      \<and> n \<le> iters \<and> (pend st = 0 \<longrightarrow> iters \<le> scnt st)"

definition queue_inv :: "int \<Rightarrow> loop_st \<Rightarrow> int \<Rightarrow> bool" where
  "queue_inv depth st v \<longleftrightarrow> v = routs st + rcnt st \<and> 1 \<le> routs st \<and> routs st \<le> depth"

definition proc_inv :: "int \<Rightarrow> int \<Rightarrow> proc \<Rightarrow> bool" where
  "proc_inv iters lead p \<longleftrightarrow> posts_ok (env_of p) \<and> 1 \<le> rx_depth (ctx_of p)
     \<and> st_inv iters lead (st_of p) (sends (hist_of p))
     \<and> queue_inv (rx_depth (ctx_of p)) (st_of p) (recvs (hist_of p))"

lemma st_inv_send:
  assumes "st_inv iters lead st n" and "scnt st < n" and "st' = st\<lparr>scnt := scnt st + 1\<rparr>"
  shows "st_inv iters lead (next_st iters 2 st') (n + posted iters 2 st')"
proof -
  from assms have "pend st = 2 \<or> pend st = 3" by (auto simp: st_inv_def)
  then show ?thesis
    by (rule disjE) (use assms in \<open>auto simp: st_inv_def next_st_def posted_def\<close>)
qed

lemma st_inv_recv:
  assumes "st_inv iters lead st n" and "rcnt st < n + lead" and "rcnt st' = rcnt st + 1"
    and "scnt st' = scnt st" and "pend st' = pend st"
  shows "st_inv iters lead (next_st iters 1 st') (n + posted iters 1 st')"
proof -
  from assms have "pend st = 1 \<or> pend st = 3" by (auto simp: st_inv_def)
  then show ?thesis
    by (rule disjE) (use assms in \<open>auto simp: st_inv_def next_st_def posted_def\<close>)
qed

lemma next_st_simps [simp]:
  "rcnt (next_st iters w st) = rcnt st" "scnt (next_st iters w st) = scnt st"
  "routs (next_st iters w st) = routs st" "0 \<le> posted iters w st"
  "queue_inv d (next_st iters w st) v = queue_inv d st v"
  by (simp_all add: next_st_def posted_def queue_inv_def Let_def)

definition pair_inv :: "int \<Rightarrow> proc \<times> proc \<Rightarrow> bool" where
  "pair_inv iters S \<longleftrightarrow> proc_inv iters 0 (fst S) \<and> proc_inv iters 1 (snd S)
     \<and> rcnt (st_of (fst S)) \<le> sends (hist_of (snd S)) \<and> rcnt (st_of (snd S)) \<le> sends (hist_of (fst S))"

lemma starts_inv:
  assumes "starts True c" and "starts False s" and "1 \<le> iters"
  shows "pair_inv iters (c, s)"
  using assms by (simp add: starts_def pair_inv_def proc_inv_def posts_ok_def wrids st_inv_def queue_inv_def)

lemma proc_inv_send:
  assumes "proc_inv iters lead p" and "scnt (st_of p) < sends (hist_of p)"
    and "deliver iters send_wc p = Some p'"
  shows "proc_inv iters lead p' \<and> rcnt (st_of p') = rcnt (st_of p)
    \<and> scnt (st_of p') = scnt (st_of p) + 1 \<and> sends (hist_of p) \<le> sends (hist_of p')"
proof -
  have ok: "posts_ok (env_of p)" using assms(1) by (simp add: proc_inv_def)
  define st where "st = (st_of p)\<lparr>scnt := scnt (st_of p) + 1\<rparr>"
  obtain h where h: "p' = p\<lparr>st_of := next_st iters 2 st, hist_of := h\<rparr>"
    "sends h = sends (hist_of p) + posted iters 2 st" "recvs h = recvs (hist_of p)"
    using deliver_send [OF ok, of iters] assms(3) unfolding st_def by auto
  have "st_inv iters lead (next_st iters 2 st) (sends h)"
    unfolding h(2) by (rule st_inv_send [OF _ assms(2)]) (use assms(1) in \<open>simp_all add: proc_inv_def st_def\<close>)
  moreover have "queue_inv (rx_depth (ctx_of p)) st (recvs h)"
    using assms(1) h(3) by (simp add: proc_inv_def queue_inv_def st_def)
  ultimately show ?thesis using assms(1) h by (simp add: proc_inv_def st_def)
qed

lemma proc_inv_recv:
  assumes "proc_inv iters lead p" and "deliver iters recv_wc p = Some p'"
    and "rcnt (st_of p) < sends (hist_of p) + lead"
  shows "proc_inv iters lead p' \<and> rcnt (st_of p') = rcnt (st_of p) + 1
    \<and> scnt (st_of p') = scnt (st_of p) \<and> sends (hist_of p) \<le> sends (hist_of p')"
proof -
  let ?d = "rx_depth (ctx_of p)"
  have ok: "posts_ok (env_of p)" "routs (st_of p) \<le> ?d"
    using assms(1) by (simp_all add: proc_inv_def queue_inv_def)
  define st where "st = refill ?d (st_of p)"
  have st: "rcnt st = rcnt (st_of p) + 1" "scnt st = scnt (st_of p)" "pend st = pend (st_of p)"
    "1 \<le> routs st" "routs st \<le> ?d"
    using assms(1) by (auto simp: st_def refill_def proc_inv_def queue_inv_def)
  obtain h where h: "p' = p\<lparr>st_of := next_st iters 1 st, hist_of := h\<rparr>"
    "sends h = sends (hist_of p) + posted iters 1 st"
    "recvs h - routs st = recvs (hist_of p) - routs (st_of p) + 1"
    using deliver_recv [OF ok, of iters] assms(2) unfolding st_def by auto
  have "st_inv iters lead (next_st iters 1 st) (sends h)"
    unfolding h(2) by (rule st_inv_recv [OF _ assms(3) st(1-3)]) (use assms(1) in \<open>simp add: proc_inv_def\<close>)
  moreover have "queue_inv ?d st (recvs h)"
    using assms(1) h(3) st by (simp add: proc_inv_def queue_inv_def)
  ultimately show ?thesis using assms(1) h st by (simp add: proc_inv_def)
qed

lemma pair_inv_step: "net_step iters S S' \<Longrightarrow> pair_inv iters S \<Longrightarrow> pair_inv iters S'"
proof (induction rule: net_step.induct)
  case (client_sent c c' s)
  then show ?case using proc_inv_send [of iters 0 c c'] by (auto simp: pair_inv_def)
next
  case (server_sent s s' c)
  then show ?case using proc_inv_send [of iters 1 s s'] by (auto simp: pair_inv_def)
next
  case (client_got c s c')
  then have "rcnt (st_of c) < sends (hist_of c) + 0"
    by (auto simp: pair_inv_def proc_inv_def st_inv_def split: if_splits)
  with client_got show ?case using proc_inv_recv [of iters 0 c c'] by (auto simp: pair_inv_def)
next
  case (server_got s c s')
  then have "rcnt (st_of s) < sends (hist_of s) + 1"
    by (auto simp: pair_inv_def proc_inv_def st_inv_def split: if_splits)
  with server_got show ?case using proc_inv_recv [of iters 1 s s'] by (auto simp: pair_inv_def)
qed

text \<open>Every completion is counted once, and there are \<open>4 * iters\<close> of them.\<close>

definition progress :: "proc \<times> proc \<Rightarrow> int" where
  "progress S = rcnt (st_of (fst S)) + scnt (st_of (fst S)) + rcnt (st_of (snd S)) + scnt (st_of (snd S))"

lemma progress_step: "net_step iters S S' \<Longrightarrow> pair_inv iters S \<Longrightarrow> progress S' = progress S + 1"
proof (induction rule: net_step.induct)
  case (client_sent c c' s)
  then show ?case using proc_inv_send [of iters 0 c c'] by (auto simp: pair_inv_def progress_def)
next
  case (server_sent s s' c)
  then show ?case using proc_inv_send [of iters 1 s s'] by (auto simp: pair_inv_def progress_def)
next
  case (client_got c s c')
  then have "rcnt (st_of c) < sends (hist_of c) + 0"
    by (auto simp: pair_inv_def proc_inv_def st_inv_def split: if_splits)
  with client_got show ?case using proc_inv_recv [of iters 0 c c'] by (auto simp: pair_inv_def progress_def)
next
  case (server_got s c s')
  then have "rcnt (st_of s) < sends (hist_of s) + 1"
    by (auto simp: pair_inv_def proc_inv_def st_inv_def split: if_splits)
  with server_got show ?case using proc_inv_recv [of iters 1 s s'] by (auto simp: pair_inv_def progress_def)
qed

lemma pair_progress:
  assumes inv: "pair_inv iters (c, s)" and "\<not> (finished iters c \<and> finished iters s)"
  shows "\<exists>S'. net_step iters (c, s) S'"
proof -
  from inv have c: "st_inv iters 0 (st_of c) (sends (hist_of c))" "posts_ok (env_of c)"
      "routs (st_of c) \<le> rx_depth (ctx_of c)" "rcnt (st_of c) < recvs (hist_of c)"
    and s: "st_inv iters 1 (st_of s) (sends (hist_of s))" "posts_ok (env_of s)"
      "routs (st_of s) \<le> rx_depth (ctx_of s)" "rcnt (st_of s) < recvs (hist_of s)"
    by (simp_all add: pair_inv_def proc_inv_def queue_inv_def)
  have "scnt (st_of c) < sends (hist_of c) \<or> scnt (st_of s) < sends (hist_of s)
      \<or> rcnt (st_of c) < sends (hist_of s) \<or> rcnt (st_of s) < sends (hist_of c)"
    using c(1) s(1) assms(2) inv
    by (auto simp: st_inv_def finished_def pair_inv_def split: if_splits)
  moreover obtain c1 s1 c2 s2 where "deliver iters send_wc c = Some c1"
    "deliver iters send_wc s = Some s1" "deliver iters recv_wc c = Some c2"
    "deliver iters recv_wc s = Some s2"
    using deliver_send [OF c(2), of iters] deliver_send [OF s(2), of iters]
      deliver_recv [OF c(2,3), of iters] deliver_recv [OF s(2,3), of iters] by blast
  ultimately show ?thesis
    using c(4) s(4) by (elim disjE) (blast intro: net_step.intros)+
qed

lemma proc_bound:
  assumes "proc_inv iters lead p"
  shows "scnt (st_of p) \<le> sends (hist_of p)" "sends (hist_of p) \<le> scnt (st_of p) + 1"
    "sends (hist_of p) \<le> iters"
  using assms by (simp_all add: proc_inv_def st_inv_def)

lemma pair_bound:
  assumes "pair_inv iters S"
  shows "progress S \<le> 4 * iters"
proof -
  have c: "proc_inv iters 0 (fst S)" and s: "proc_inv iters 1 (snd S)"
    using assms by (simp_all add: pair_inv_def)
  then show ?thesis
    using proc_bound [OF c] proc_bound [OF s] assms by (simp add: pair_inv_def progress_def)
qed

lemma pair_finished:
  assumes "pair_inv iters (c, s)" and "finished iters c" and "finished iters s"
  shows "sends (hist_of c) = iters \<and> sends (hist_of s) = iters
    \<and> rcnt (st_of c) = iters \<and> rcnt (st_of s) = iters"
proof -
  have c: "proc_inv iters 0 c" and s: "proc_inv iters 1 s"
    using assms(1) by (simp_all add: pair_inv_def)
  then show ?thesis
    using proc_bound [OF c] proc_bound [OF s] assms by (simp add: pair_inv_def finished_def)
qed

lemma reach_inv: "(net_step iters)\<^sup>*\<^sup>* S S' \<Longrightarrow> pair_inv iters S \<Longrightarrow> pair_inv iters S'"
  by (induction rule: rtranclp_induct) (auto dest: pair_inv_step)

lemma steps_progress:
  "(net_step iters ^^ k) S S' \<Longrightarrow> pair_inv iters S \<Longrightarrow> pair_inv iters S' \<and> progress S' = progress S + int k"
proof (induction k arbitrary: S')
  case (Suc k)
  then obtain T where "(net_step iters ^^ k) S T" "net_step iters T S'" by auto
  moreover from this Suc have "pair_inv iters T" "progress T = progress S + int k" by simp_all
  ultimately show ?case
    using pair_inv_step [of iters T S'] progress_step [of iters T S'] by simp
qed simp

section \<open>Properties\<close>

definition demo_wcs_env :: api_env where
  "demo_wcs_env = \<lparr>ret = (\<lambda>h c. case c of Data (Poll_cq q n) \<Rightarrow> 2 | _ \<Rightarrow> 0), data_in = (\<lambda>h c. []),
     attr_in = (\<lambda>h c a. 1), wcs_in = (\<lambda>h c. [recv_wc, send_wc])\<rparr>"

text \<open>
  C2: The ping-pong loop keeps its credits for every environment: started with at most one
  uncompleted send and with as many receives posted as it counts, it posts no more than
  \<open>iters\<close> sends in all (or the one the client starts with), and a loop that ends normally has
  counted \<open>iters\<close> sends and receives, has at most one send uncompleted, which is what the send
  queue of one entry has room for, and between two and \<open>rx_depth\<close> receives posted.
\<close>

theorem main_loop_credits:
  assumes "credits iters (rx_depth ctx) st (sends h, recvs h)" and "1 \<le> rx_depth ctx"
    and "run_state (main_loop E g ctx iters ev fuel st) h = (r, h')"
  shows "sends h' \<le> max 1 iters
    \<and> (\<forall>st'. r = Some (Inr st') \<longrightarrow> iters \<le> rcnt st' \<and> iters \<le> scnt st' \<and> sends h' \<le> scnt st' + 1
        \<and> recvs h' - rcnt st' \<le> rx_depth ctx \<and> min 2 (rx_depth ctx) \<le> recvs h' - rcnt st')"
proof -
  have "obs posts (0, 0) h = Some (sends h, recvs h)" by (simp add: obs_posts)
  from satD [OF sat_main_loop [OF assms(1,2)] this assms(3)] show ?thesis
    by (auto simp: obs_posts loop_post_def credits_def split: if_splits)
qed

theorem main_loop_credits_witness:
  "sends (snd (run_state (main_loop demo_wcs_env plain_flags ((new_ctx 1)\<lparr>rx_depth := 4\<rparr>) 3 False 9
      \<lparr>rcnt = 0, scnt = 0, routs = 4, pend = 1, num_cq_events = 0\<rparr>)
      (replicate 4 (Data (Post_recv 0 []), 0)))) \<le> 3"
proof -
  have r: "recvs (replicate 4 (Data (Post_recv 0 []), 0)) = 4"
      "sends (replicate 4 (Data (Post_recv 0 []), 0)) = 0"
    using counts_replicate [of 4 0 "[]" "[]"] by simp_all
  have "credits 3 (rx_depth ((new_ctx 1)\<lparr>rx_depth := 4\<rparr>))
      \<lparr>rcnt = 0, scnt = 0, routs = 4, pend = 1, num_cq_events = 0\<rparr>
      (sends (replicate 4 (Data (Post_recv 0 []), 0)), recvs (replicate 4 (Data (Post_recv 0 []), 0)))"
    unfolding r by (simp add: credits_def wrids)
  from main_loop_credits [OF this _ surjective_pairing] show ?thesis by simp
qed

definition demo_proc :: "bool \<Rightarrow> proc" where
  "demo_proc client = \<lparr>env_of = const_env (\<lambda>c. 0) (\<lambda>c. []), flags_of = plain_flags,
     ctx_of = (new_ctx 1)\<lparr>rx_depth := 1\<rparr>,
     st_of = \<lparr>rcnt = 0, scnt = 0, routs = 1, pend = (if client then 3 else 1), num_cq_events = 0\<rparr>,
     hist_of = (if client then [(Data (Post_send 0 []), 0), (Data (Post_recv 0 []), 0)]
                else [(Data (Post_recv 0 []), 0)])\<rparr>"

lemma demo_starts: "starts True (demo_proc True)" "starts False (demo_proc False)"
  by (simp_all add: starts_def demo_proc_def const_env_def wrids)

text \<open>
  At every moment of a run of a client and a server over a reliable network, each has at most
  one send uncompleted, has posted at most \<open>iters\<close>, and has a receive posted for the next
  message and no more than its queue holds.
\<close>

theorem pair_safe:
  assumes "starts True c" and "starts False s" and "1 \<le> iters" and "(net_step iters)\<^sup>*\<^sup>* (c, s) (c', s')"
    and "p = c' \<or> p = s'"
  shows "sends (hist_of p) \<le> scnt (st_of p) + 1 \<and> sends (hist_of p) \<le> iters
    \<and> rcnt (st_of p) < recvs (hist_of p) \<and> recvs (hist_of p) - rcnt (st_of p) \<le> rx_depth (ctx_of p)"
proof -
  have "pair_inv iters (c', s')"
    by (rule reach_inv [OF assms(4) starts_inv [OF assms(1-3)]])
  then obtain lead where p: "proc_inv iters lead p" using assms(5) by (auto simp: pair_inv_def)
  show ?thesis using proc_bound [OF p] p by (simp add: proc_inv_def queue_inv_def)
qed

theorem pair_safe_witness: "sends (hist_of (demo_proc True)) \<le> 3"
  using pair_safe [OF demo_starts, of 3 "demo_proc True" "demo_proc False" "demo_proc True"] by simp

text \<open>
  C1: The protocol completes: a run of the pair never makes more than \<open>4 * iters\<close> steps, it
  never stops before both processes have left their loops, and then each has sent and received
  exactly \<open>iters\<close> messages.
\<close>

theorem pair_completes:
  assumes "starts True c" and "starts False s" and "1 \<le> iters" and "(net_step iters ^^ k) (c, s) (c', s')"
  shows "int k \<le> 4 * iters \<and> ((\<exists>S. net_step iters (c', s') S)
    \<or> finished iters c' \<and> finished iters s' \<and> sends (hist_of c') = iters \<and> sends (hist_of s') = iters
      \<and> rcnt (st_of c') = iters \<and> rcnt (st_of s') = iters)"
proof -
  have i: "pair_inv iters (c, s)" by (rule starts_inv [OF assms(1-3)])
  have "progress (c, s) = 0" using assms(1,2) by (simp add: starts_def progress_def)
  with steps_progress [OF assms(4) i] have "pair_inv iters (c', s')" "progress (c', s') = int k"
    by simp_all
  with pair_bound pair_progress pair_finished show ?thesis by metis
qed

theorem pair_completes_witness: "\<exists>S. net_step 2 (demo_proc True, demo_proc False) S"
  using pair_completes [OF demo_starts, of 2 0 "demo_proc True" "demo_proc False"]
  by (auto simp: finished_def demo_proc_def)

end
