(* ===== verification/FileCommon.thy ===== *)
theory FileCommon
  imports Verbs CLib
begin

text \<open>
  common.c of the file transfer (03_file-transfer): the shared context of a process, its connection
  manager loop and completion poller, and the callbacks a program registers.  A process is a record
  with its history; a function that may call \<open>rc_die\<close> is a command (theory Prelude).  The contract
  between the loop and the callbacks is the locale \<open>rc_callbacks\<close>.
\<close>

section \<open>Processes\<close>

text \<open>\<open>struct context\<close>; the poller thread is the process's reaction to completions.\<close>

record cq_context =
  ctx_verbs :: ptr
  ctx_pd :: ptr
  ctx_cq :: ptr
  ctx_channel :: ptr

record process =
  hist :: trace
  s_ctx :: "cq_context option"

text \<open>A call, recorded in the history; the command continues with its result.\<close>

definition call :: "api_env \<Rightarrow> api \<Rightarrow> (int \<Rightarrow> 'p process_scheme cmd) \<Rightarrow> 'p process_scheme cmd" where
  "call E c k s = (let r = ret E (hist s) c in k r (s\<lparr>hist := (c, r) # hist s\<rparr>))"

definition TEST_NZ :: "api_env \<Rightarrow> string \<Rightarrow> api \<Rightarrow> 'p process_scheme cmd" where
  "TEST_NZ E x c = call E c (\<lambda>r. if_cmd (r \<noteq> 0) (die x) skip)"

definition TEST_Z ::
    "api_env \<Rightarrow> string \<Rightarrow> api \<Rightarrow> (int \<Rightarrow> 'p process_scheme cmd) \<Rightarrow> 'p process_scheme cmd" where
  "TEST_Z E x c k = call E c (\<lambda>r. if_cmd (r = 0) (die x) (k r))"

definition run_call :: "api_env \<Rightarrow> api \<Rightarrow> 'p process_scheme cmd" where
  "run_call E c = call E c (\<lambda>_. skip)"

text \<open>\<open>struct ibv_mr\<close>: its address and the fields the code reads, filled in by the registration.\<close>

record mr =
  mr_self :: ptr
  lkey :: int
  rkey :: int
  mr_at :: ptr

definition no_mr :: mr where
  "no_mr = \<lparr>mr_self = 0, lkey = 0, rkey = 0, mr_at = 0\<rparr>"

definition reg_mr ::
    "api_env \<Rightarrow> ibv_call \<Rightarrow> (mr \<Rightarrow> 'p process_scheme cmd) \<Rightarrow> 'p process_scheme cmd" where
  "reg_mr E c k = look (\<lambda>s. let a = attr_in E (hist s) (Ibv c) in
     TEST_Z E ''ibv_reg_mr'' (Ibv c) (\<lambda>m.
       k \<lparr>mr_self = m, lkey = a ''lkey'', rkey = a ''rkey'', mr_at = a ''addr''\<rparr>))"

text \<open>\<open>TEST_NZ(rdma_create_id(ec, &id, ...))\<close>: a status, and the new identifier in \<open>id\<close>.\<close>

definition create_id :: "api_env \<Rightarrow> ptr \<Rightarrow> (ptr \<Rightarrow> 'p process_scheme cmd) \<Rightarrow> 'p process_scheme cmd" where
  "create_id E ec k = look (\<lambda>s. let cid = attr_in E (hist s) (Cm (Create_id ec)) ''id'' in
     seq [TEST_NZ E ''rdma_create_id'' (Cm (Create_id ec)), k cid])"

lemmas call_defs [cmd_simps] = call_def TEST_NZ_def TEST_Z_def run_call_def reg_mr_def create_id_def Let_def

definition rc_die :: "string \<Rightarrow> 'p process_scheme cmd" where
  "rc_die reason = die reason"

section \<open>Building a connection\<close>

text \<open>The fields of \<open>*s_ctx\<close> are assigned one after the other; a failure ends the process.\<close>

definition build_context :: "api_env \<Rightarrow> ptr \<Rightarrow> 'p process_scheme cmd" where
  "build_context E verbs = look (\<lambda>s. case s_ctx s of
      Some c \<Rightarrow> if_cmd (ctx_verbs c \<noteq> verbs)
                  (rc_die ''cannot handle events in more than one context.'') skip
    | None \<Rightarrow>
        call E (Libc (Malloc ''context'')) (\<lambda>_.
        TEST_Z E ''ibv_alloc_pd'' (Ibv (Alloc_pd verbs)) (\<lambda>p.
        TEST_Z E ''ibv_create_comp_channel'' (Ibv (Create_comp_channel verbs)) (\<lambda>ch.
        TEST_Z E ''ibv_create_cq'' (Ibv (Create_cq verbs 10 ch)) (\<lambda>q. seq [
          assign (\<lambda>s. s\<lparr>s_ctx := Some \<lparr>ctx_verbs = verbs, ctx_pd = p, ctx_cq = q, ctx_channel = ch\<rparr>\<rparr>),
          TEST_NZ E ''ibv_req_notify_cq'' (Data (Req_notify_cq q)),
          TEST_NZ E ''pthread_create'' (Libc (Pthread_create ''poll_cq''))])))))"

definition build_params :: conn_param where
  "build_params = zero_conn_param\<lparr>initiator_depth := 1, responder_resources := 1, rnr_retry_count := 7\<rparr>"

definition build_qp_attr :: "ptr \<Rightarrow> qp_init" where
  "build_qp_attr q = zero_qp_init\<lparr>send_cq := q, recv_cq := q, qi_type := QPT_RC, max_send_wr := 10,
     max_recv_wr := 10, max_send_sge := 1, max_recv_sge := 1\<rparr>"

text \<open>The fields of \<open>*s_ctx\<close>; the code only reads them after \<open>build_context\<close>.\<close>

definition the_ctx :: "'p process_scheme \<Rightarrow> cq_context" where
  "the_ctx s = (case s_ctx s of Some c \<Rightarrow> c
     | None \<Rightarrow> \<lparr>ctx_verbs = 0, ctx_pd = 0, ctx_cq = 0, ctx_channel = 0\<rparr>)"

definition rc_get_pd :: "'p process_scheme \<Rightarrow> ptr" where
  "rc_get_pd s = ctx_pd (the_ctx s)"

definition build_connection :: "api_env \<Rightarrow> ptr \<Rightarrow> ptr \<Rightarrow> 'p process_scheme cmd" where
  "build_connection E cid verbs = seq [
     build_context E verbs,
     look (\<lambda>s. TEST_NZ E ''rdma_create_qp''
       (Cm (Rdma_create_qp cid (ctx_pd (the_ctx s)) (build_qp_attr (ctx_cq (the_ctx s))))))]"

section \<open>The event loop\<close>

datatype cm_event = ADDR_RESOLVED | ROUTE_RESOLVED | CONNECT_REQUEST | ESTABLISHED | DISCONNECTED
  | OTHER_EVENT

record 's callbacks =
  s_on_pre_conn_cb :: "(ptr \<Rightarrow> 's cmd) option"
  s_on_connect_cb :: "(ptr \<Rightarrow> 's cmd) option"
  s_on_completion_cb :: "wc \<Rightarrow> 's cmd"
  s_on_disconnect_cb :: "(ptr \<Rightarrow> 's cmd) option"

definition rc_init ::
    "(ptr \<Rightarrow> 's cmd) option \<Rightarrow> (ptr \<Rightarrow> 's cmd) option \<Rightarrow> (wc \<Rightarrow> 's cmd) \<Rightarrow> (ptr \<Rightarrow> 's cmd) option
      \<Rightarrow> 's callbacks" where
  "rc_init pc conn cmpl disc = \<lparr>s_on_pre_conn_cb = pc, s_on_connect_cb = conn,
     s_on_completion_cb = cmpl, s_on_disconnect_cb = disc\<rparr>"

definition callback :: "(ptr \<Rightarrow> 's cmd) option \<Rightarrow> ptr \<Rightarrow> 's cmd" where
  "callback cb cid = (case cb of None \<Rightarrow> skip | Some f \<Rightarrow> f cid)"

definition TIMEOUT_IN_MS :: int where
  "TIMEOUT_IN_MS = 500"

text \<open>The body of the loop for one event, of the connection \<open>cid\<close> on the device \<open>verbs\<close>.\<close>

definition on_event ::
    "api_env \<Rightarrow> 'p process_scheme callbacks \<Rightarrow> cm_event \<Rightarrow> ptr \<Rightarrow> ptr \<Rightarrow> 'p process_scheme cmd" where
  "on_event E cb ev cid verbs = seq [
     run_call E (Cm Ack_cm_event),
     (case ev of
        ADDR_RESOLVED \<Rightarrow> seq [build_connection E cid verbs, callback (s_on_pre_conn_cb cb) cid,
          TEST_NZ E ''rdma_resolve_route'' (Cm (Resolve_route cid TIMEOUT_IN_MS))]
      | ROUTE_RESOLVED \<Rightarrow> TEST_NZ E ''rdma_connect'' (Cm (Connect cid build_params))
      | CONNECT_REQUEST \<Rightarrow> seq [build_connection E cid verbs, callback (s_on_pre_conn_cb cb) cid,
          TEST_NZ E ''rdma_accept'' (Cm (Accept cid build_params))]
      | ESTABLISHED \<Rightarrow> callback (s_on_connect_cb cb) cid
      | DISCONNECTED \<Rightarrow> seq [run_call E (Cm (Rdma_destroy_qp cid)),
          callback (s_on_disconnect_cb cb) cid, run_call E (Cm (Destroy_id cid))]
      | OTHER_EVENT \<Rightarrow> rc_die ''unknown event'')]"

text \<open>
  \<open>poll_cq\<close>, for the event of a completion: one pass of the outer loop and of the inner one.
\<close>

definition on_wc :: "'s callbacks \<Rightarrow> wc \<Rightarrow> 's cmd" where
  "on_wc cb w = (if wc_status w = 0 then s_on_completion_cb cb w
                 else die ''poll_cq: status is not IBV_WC_SUCCESS'')"

definition poll_cq ::
    "api_env \<Rightarrow> 'p process_scheme callbacks \<Rightarrow> wc \<Rightarrow> 'p process_scheme cmd" where
  "poll_cq E cb w = look (\<lambda>s. let c = the_ctx s in seq [
     TEST_NZ E ''ibv_get_cq_event'' (Data (Get_cq_event (ctx_channel c))),
     run_call E (Data (Ack_cq_events (ctx_cq c) 1)),
     TEST_NZ E ''ibv_req_notify_cq'' (Data (Req_notify_cq (ctx_cq c))),
     run_call E (Data (Poll_cq (ctx_cq c) 1)),
     on_wc cb w,
     run_call E (Data (Poll_cq (ctx_cq c) 1))])"

text \<open>
  What happens to a process, in order: an event of the connection manager, handled by the main
  thread, or a completion, handled by the poller after the adapter has stored what it received
  (\<open>mem\<close>).  The handlers of the two threads are taken one at a time.
\<close>

datatype 's input = Cm_event cm_event ptr ptr | Completion "'s \<Rightarrow> 's" wc

fun event_loop ::
    "api_env \<Rightarrow> 'p process_scheme callbacks \<Rightarrow> bool \<Rightarrow> 'p process_scheme input list
      \<Rightarrow> 'p process_scheme cmd" where
  "event_loop E cb exit_on_disconnect [] s = Run s"
| "event_loop E cb exit_on_disconnect (Cm_event ev cid verbs # ins) s =
    (case on_event E cb ev cid verbs s of
       Exit m s' \<Rightarrow> Exit m s'
     | Run s' \<Rightarrow> if ev = DISCONNECTED \<and> exit_on_disconnect then Run s'
                else event_loop E cb exit_on_disconnect ins s')"
| "event_loop E cb exit_on_disconnect (Completion mem w # ins) s =
    (case poll_cq E cb w (mem s) of
       Exit m s' \<Rightarrow> Exit m s'
     | Run s' \<Rightarrow> event_loop E cb exit_on_disconnect ins s')"

definition rc_client_loop ::
    "api_env \<Rightarrow> 'p process_scheme callbacks \<Rightarrow> string \<Rightarrow> 'p process_scheme input list
      \<Rightarrow> 'p process_scheme cmd" where
  "rc_client_loop E cb host ins = seq [
     TEST_NZ E ''getaddrinfo'' (Libc (Getaddrinfo (Some host) 12345)),
     TEST_Z E ''rdma_create_event_channel'' (Cm Create_event_channel) (\<lambda>ec.
     create_id E ec (\<lambda>conn. seq [
       TEST_NZ E ''rdma_resolve_addr'' (Cm (Resolve_addr conn TIMEOUT_IN_MS)),
       run_call E (Libc Freeaddrinfo),
       event_loop E cb True ins,
       run_call E (Cm (Destroy_event_channel ec))]))]"

definition rc_server_loop ::
    "api_env \<Rightarrow> 'p process_scheme callbacks \<Rightarrow> int \<Rightarrow> 'p process_scheme input list
      \<Rightarrow> 'p process_scheme cmd" where
  "rc_server_loop E cb port ins =
     TEST_Z E ''rdma_create_event_channel'' (Cm Create_event_channel) (\<lambda>ec.
     create_id E ec (\<lambda>listener. seq [
       TEST_NZ E ''rdma_bind_addr'' (Cm (Bind_addr listener port)),
       TEST_NZ E ''rdma_listen'' (Cm (Listen listener 10)),
       event_loop E cb False ins,
       run_call E (Cm (Destroy_id listener)),
       run_call E (Cm (Destroy_event_channel ec))]))"

definition rc_disconnect :: "api_env \<Rightarrow> ptr \<Rightarrow> 'p process_scheme cmd" where
  "rc_disconnect E cid = run_call E (Cm (Disconnect cid))"

section \<open>Commands that do not exit\<close>

definition runs :: "'s cmd \<Rightarrow> bool" where
  "runs c \<longleftrightarrow> (\<forall>s. running (c s))"

lemma runs_seq: "list_all runs cs \<Longrightarrow> runs (seq cs)"
proof (induction cs)
  case (Cons c cs)
  have "running (seq (c # cs) s)" for s
    using Cons by (cases "c s") (auto simp: runs_def dest: spec [of _ s])
  then show ?case by (simp add: runs_def)
qed (simp add: runs_def)

lemma runs_call: "(\<And>r. runs (k r)) \<Longrightarrow> runs (call E c k)"
  by (simp add: runs_def call_def Let_def)

lemma runs_look: "(\<And>s. runs (k s)) \<Longrightarrow> runs (look k)"
  by (simp add: runs_def look_def)

lemma runs_basic: "runs skip" "runs (assign f)" "runs (run_call E c)"
  by (simp_all add: runs_def cmd_simps)

lemmas runs_intro = runs_seq runs_call runs_look runs_basic

lemma running_final: "running r \<Longrightarrow> r = Run (final r)"
  by (cases r) simp_all

section \<open>Invariants of commands\<close>

text \<open>A command keeps a property if it holds of the state it leaves, exit or not.\<close>

definition kept :: "('s \<Rightarrow> bool) \<Rightarrow> 's cmd \<Rightarrow> bool" where
  "kept I c \<longleftrightarrow> (\<forall>s. I s \<longrightarrow> I (final (c s)))"

definition frame_ok :: "('p process_scheme \<Rightarrow> bool) \<Rightarrow> bool" where
  "frame_ok I \<longleftrightarrow> (\<forall>s h c. I s \<longrightarrow> I (s\<lparr>hist := h\<rparr>) \<and> I (s\<lparr>s_ctx := c\<rparr>))"

lemma kept_seq: "list_all (kept I) cs \<Longrightarrow> kept I (seq cs)"
  using seq_invariant [of cs I] by (simp add: kept_def list_all_iff)

lemma kept_look: "(\<And>s. I s \<Longrightarrow> kept I (k s)) \<Longrightarrow> kept I (look k)"
  by (simp add: kept_def look_def)

lemma kept_if: "(b \<Longrightarrow> kept I c) \<Longrightarrow> (\<not> b \<Longrightarrow> kept I d) \<Longrightarrow> kept I (if_cmd b c d)"
  by (simp add: kept_def if_cmd_def)

lemma kept_basic: "kept I skip" "kept I (die m)" "kept I (rc_die m)"
  by (simp_all add: kept_def cmd_simps rc_die_def)

lemma kept_assign: "(\<And>s. I s \<Longrightarrow> I (f s)) \<Longrightarrow> kept I (assign f)"
  by (simp add: kept_def assign_def)

lemma kept_call: "frame_ok I \<Longrightarrow> (\<And>r. kept I (k r)) \<Longrightarrow> kept I (call E c k)"
  by (simp add: kept_def call_def Let_def frame_ok_def)

lemma kept_calls:
  "frame_ok I \<Longrightarrow> kept I (run_call E c)" "frame_ok I \<Longrightarrow> kept I (TEST_NZ E x c)"
  by (simp_all add: run_call_def TEST_NZ_def kept_call kept_if kept_basic)

lemma kept_TEST_Z: "frame_ok I \<Longrightarrow> (\<And>r. kept I (k r)) \<Longrightarrow> kept I (TEST_Z E x c k)"
  by (simp add: TEST_Z_def kept_call kept_if kept_basic)

lemma kept_reg_mr: "frame_ok I \<Longrightarrow> (\<And>m. kept I (k m)) \<Longrightarrow> kept I (reg_mr E c k)"
  by (auto simp: reg_mr_def Let_def intro!: kept_look kept_TEST_Z)

lemma kept_create_id: "frame_ok I \<Longrightarrow> (\<And>cid. kept I (k cid)) \<Longrightarrow> kept I (create_id E ec k)"
  by (auto simp: create_id_def Let_def intro!: kept_look kept_seq kept_calls)

lemmas kept_intro = kept_seq kept_look kept_if kept_basic kept_call kept_calls kept_TEST_Z
  kept_reg_mr kept_create_id

section \<open>The contract of the callbacks\<close>

text \<open>
  What the loop guarantees to a program: a property of the process that its callbacks keep, that
  the adapter's stores keep and that does not depend on the history or the shared context, holds
  whenever the process is between two inputs, and when it exits.
\<close>

locale rc_callbacks =
  fixes cb :: "'p process_scheme callbacks"
    and I :: "'p process_scheme \<Rightarrow> bool"
  assumes frame: "frame_ok I"
    and pre_conn: "kept I (callback (s_on_pre_conn_cb cb) cid)"
    and connect: "kept I (callback (s_on_connect_cb cb) cid)"
    and completion: "kept I (s_on_completion_cb cb w)"
    and disconnect: "kept I (callback (s_on_disconnect_cb cb) cid)"
begin

lemma kept_assign_ctx: "kept I (assign (\<lambda>s. s\<lparr>s_ctx := c\<rparr>))"
  using frame by (simp add: kept_assign frame_ok_def)

lemma kept_build_connection: "kept I (build_connection E cid verbs)"
  unfolding build_connection_def build_context_def
  by (auto intro!: kept_intro kept_assign_ctx frame split: option.split)

lemma kept_on_event: "kept I (on_event E cb ev cid verbs)"
  unfolding on_event_def
  by (cases ev)
    (auto intro!: kept_intro kept_build_connection frame pre_conn connect disconnect)

lemma kept_poll_cq: "kept I (poll_cq E cb w)"
proof -
  have "kept I (on_wc cb w)" using completion by (simp add: kept_def on_wc_def die_def)
  then show ?thesis unfolding poll_cq_def Let_def by (auto intro!: kept_intro frame)
qed

text \<open>The adapter's stores are part of the hypothesis on the inputs.\<close>

definition harmless :: "'p process_scheme input \<Rightarrow> bool" where
  "harmless i \<longleftrightarrow> (case i of Cm_event _ _ _ \<Rightarrow> True | Completion mem _ \<Rightarrow> \<forall>s. I s \<longrightarrow> I (mem s))"

lemma kept_event_loop: "list_all harmless ins \<Longrightarrow> kept I (event_loop E cb ex ins)"
proof (induction ins)
  case Nil
  then show ?case by (simp add: kept_def)
next
  case (Cons i ins)
  then have IH: "kept I (event_loop E cb ex ins)" and i: "harmless i" by simp_all
  show ?case
  proof (cases i)
    case (Cm_event ev cid verbs)
    have "kept I (on_event E cb ev cid verbs)" by (rule kept_on_event)
    then show ?thesis using IH unfolding Cm_event kept_def
      by (fastforce split: outcome.split)
  next
    case (Completion mem w)
    have "kept I (poll_cq E cb w)" by (rule kept_poll_cq)
    then show ?thesis using IH i unfolding Completion kept_def harmless_def
      by (fastforce split: outcome.split)
  qed
qed

lemma kept_server_loop: "list_all harmless ins \<Longrightarrow> kept I (rc_server_loop E cb port ins)"
  unfolding rc_server_loop_def
  by (auto intro!: kept_intro kept_event_loop frame)

lemma kept_client_loop: "list_all harmless ins \<Longrightarrow> kept I (rc_client_loop E cb host ins)"
  unfolding rc_client_loop_def
  by (auto intro!: kept_intro kept_event_loop frame)

end

end
