(* ===== verification/FileClient.thy ===== *)
theory FileClient
  imports FileCommon
begin

text \<open>
  messages.h and client.c of the file transfer: the client writes the file name and then the chunks
  of the file into the server's buffer, one RDMA write with immediate data at a time, and waits for
  the server's message before the next.
\<close>

section \<open>messages.h\<close>

definition BUFFER_SIZE :: int where
  "BUFFER_SIZE = 10 * 1024 * 1024"

datatype message_id = MSG_INVALID | MSG_MR | MSG_READY | MSG_DONE

text \<open>\<open>struct message\<close>; \<open>id\<close> holds one of the enumeration's values.\<close>

record message =
  msg_id :: message_id
  mr_addr :: int
  mr_rkey :: int

section \<open>State\<close>

record client_context =
  c_buffer :: buffer
  c_buffer_ptr :: ptr
  c_buffer_mr :: mr
  c_msg :: message
  c_msg_ptr :: ptr
  c_msg_mr :: mr
  peer_addr :: int
  peer_rkey :: int
  c_fd :: int
  c_file_name :: string

record client = process +
  cctx :: client_context

section \<open>Handlers\<close>

definition upd_ctx :: "(client_context \<Rightarrow> client_context) \<Rightarrow> client cmd" where
  "upd_ctx f = assign (\<lambda>s. s\<lparr>cctx := f (cctx s)\<rparr>)"

definition write_wr :: "client_context \<Rightarrow> ptr \<Rightarrow> u32 \<Rightarrow> send_wr" where
  "write_wr ctx cid len = \<lparr>swr_id = cid, swr_opcode = WR_RDMA_WRITE_WITH_IMM,
     swr_sges = (if len \<noteq> 0 then [\<lparr>sg_addr = c_buffer_ptr ctx, sg_length = uint len,
                                   sg_lkey = lkey (c_buffer_mr ctx)\<rparr>] else []),
     swr_signaled = True, swr_imm = bswap32 len, swr_remote_addr = peer_addr ctx,
     swr_rkey = peer_rkey ctx, swr_ah = 0,
     swr_remote_qpn = 0, swr_remote_qkey = 0,
     swr_remote_srqn = 0, swr_dct_key = 0, swr_dct_number = 0\<rparr>"

definition write_remote :: "api_env \<Rightarrow> ptr \<Rightarrow> u32 \<Rightarrow> client cmd" where
  "write_remote E cid len = look (\<lambda>s.
     TEST_NZ E ''ibv_post_send'' (Data (Post_send cid [write_wr (cctx s) cid len])))"

definition sizeof_message :: int where
  "sizeof_message = 24"

definition c_post_receive :: "api_env \<Rightarrow> ptr \<Rightarrow> client cmd" where
  "c_post_receive E cid = look (\<lambda>s. TEST_NZ E ''ibv_post_recv'' (Data (Post_recv cid
     [\<lparr>rwr_id = cid, rwr_sges = [\<lparr>sg_addr = c_msg_ptr (cctx s), sg_length = sizeof_message,
         sg_lkey = lkey (c_msg_mr (cctx s))\<rparr>]\<rparr>])))"

text \<open>\<open>read\<close> stores what it read into the buffer; the length is converted to 32 bits.\<close>

definition send_next_chunk :: "api_env \<Rightarrow> ptr \<Rightarrow> client cmd" where
  "send_next_chunk E cid = look (\<lambda>s.
     let c = Libc (Read (c_fd (cctx s)) BUFFER_SIZE); d = bytes_of E (hist s) c in
     call E c (\<lambda>size. seq [
       upd_ctx (\<lambda>ctx. ctx\<lparr>c_buffer := store_at (c_buffer ctx) d\<rparr>),
       if_cmd (size = - 1) (rc_die ''read() failed'') skip,
       write_remote E cid (word_of_int size)]))"

definition send_file_name :: "api_env \<Rightarrow> ptr \<Rightarrow> client cmd" where
  "send_file_name E cid = seq [
     upd_ctx (\<lambda>ctx. ctx\<lparr>c_buffer := store_at (c_buffer ctx) (c_file_name ctx @ [NUL])\<rparr>),
     look (\<lambda>s. write_remote E cid (word_of_nat (length (c_file_name (cctx s)) + 1)))]"

text \<open>
  \<open>posix_memalign\<close> stores the address it allocated; its status is not checked.
\<close>

definition c_on_pre_conn :: "api_env \<Rightarrow> ptr \<Rightarrow> client cmd" where
  "c_on_pre_conn E cid = seq [
     call E (Libc (Memalign 4096 BUFFER_SIZE)) (\<lambda>b. seq [
       upd_ctx (\<lambda>ctx. ctx\<lparr>c_buffer_ptr := b\<rparr>),
       look (\<lambda>s. reg_mr E (Reg_mr (rc_get_pd s) b BUFFER_SIZE {}) (\<lambda>m.
         upd_ctx (\<lambda>ctx. ctx\<lparr>c_buffer_mr := m\<rparr>)))]),
     call E (Libc (Memalign 4096 sizeof_message)) (\<lambda>b. seq [
       upd_ctx (\<lambda>ctx. ctx\<lparr>c_msg_ptr := b\<rparr>),
       look (\<lambda>s. reg_mr E (Reg_mr (rc_get_pd s) b sizeof_message {LOCAL_WRITE}) (\<lambda>m.
         upd_ctx (\<lambda>ctx. ctx\<lparr>c_msg_mr := m\<rparr>)))]),
     c_post_receive E cid]"

text \<open>After \<open>MSG_DONE\<close> the handler returns before the last \<open>post_receive\<close>.\<close>

definition c_on_completion :: "api_env \<Rightarrow> wc \<Rightarrow> client cmd" where
  "c_on_completion E w = look (\<lambda>s.
     let cid = wc_wr_id w; m = c_msg (cctx s) in
     if_cmd (wc_is_recv (wc_opcode w))
       (if_cmd (msg_id m = MSG_DONE) (rc_disconnect E cid)
         (seq [
           (if msg_id m = MSG_MR then seq [
              upd_ctx (\<lambda>ctx. ctx\<lparr>peer_addr := mr_addr m, peer_rkey := mr_rkey m\<rparr>),
              send_file_name E cid]
            else if msg_id m = MSG_READY then send_next_chunk E cid
            else skip),
           c_post_receive E cid]))
       skip)"

section \<open>main\<close>

definition client_callbacks :: "api_env \<Rightarrow> client callbacks" where
  "client_callbacks E = rc_init (Some (c_on_pre_conn E)) None (c_on_completion E) None"

definition new_client :: "string \<Rightarrow> int \<Rightarrow> client_context" where
  "new_client nm fd = \<lparr>c_buffer = (\<lambda>_. NUL), c_buffer_ptr = 0, c_buffer_mr = no_mr,
     c_msg = \<lparr>msg_id = MSG_INVALID, mr_addr = 0, mr_rkey = 0\<rparr>, c_msg_ptr = 0, c_msg_mr = no_mr,
     peer_addr = 0, peer_rkey = 0, c_fd = fd, c_file_name = nm\<rparr>"

text \<open>The process's return value and the state it leaves.\<close>

definition client_main ::
    "api_env \<Rightarrow> string list \<Rightarrow> client input list \<Rightarrow> client \<Rightarrow> (int \<times> client) outcome" where
  "client_main E argv ins s =
    (if length argv \<noteq> 3 then Run (1, s)
     else let c = Libc (Open (argv ! 2)); fd = ret E (hist s) c;
              s1 = s\<lparr>hist := (c, fd) # hist s, cctx := new_client (basename (argv ! 2)) fd\<rparr>
       in if fd = - 1 then Run (1, s1)
          else (case seq [rc_client_loop E (client_callbacks E) (argv ! 1) ins,
                          run_call E (Libc (Close fd))] s1 of
                  Run s2 \<Rightarrow> Run (0, s2) | Exit m s2 \<Rightarrow> Exit m (0, s2)))"

end
