(* ===== verification/FileServer.thy ===== *)
theory FileServer
  imports FileClient
begin

text \<open>
  server.c of the file transfer.  Each connection has a context, found through
  \<open>id->context\<close>: the server is a process with a map from connections to contexts.
\<close>

section \<open>State\<close>

definition MAX_FILE_NAME :: nat where
  "MAX_FILE_NAME = 256"

record conn_context =
  self_ptr :: ptr
  buffer :: buffer
  buffer_ptr :: ptr
  buffer_mr :: mr
  msg :: message
  msg_ptr :: ptr
  msg_mr :: mr
  fd :: int
  file_name :: string

record server = process +
  conns :: "ptr \<rightharpoonup> conn_context"

text \<open>Memory fresh from \<open>malloc\<close>: what it holds is the environment's choice.\<close>

definition junk_ctx :: "api_env \<Rightarrow> trace \<Rightarrow> ptr \<Rightarrow> conn_context" where
  "junk_ctx E h p = (let c = Libc (Malloc ''conn_context'') in
     \<lparr>self_ptr = p, buffer = (\<lambda>i. NUL), buffer_ptr = 0, buffer_mr = no_mr,
      msg = \<lparr>msg_id = MSG_INVALID, mr_addr = 0, mr_rkey = 0\<rparr>, msg_ptr = 0, msg_mr = no_mr,
      fd = attr_in E h c ''fd'',
      file_name = take MAX_FILE_NAME (data_in E h c @ replicate MAX_FILE_NAME NUL)\<rparr>)"

section \<open>Handlers\<close>

text \<open>\<open>ctx\<close> of the connection; the adapter reports completions of live connections only.\<close>

definition ctx_at :: "server \<Rightarrow> ptr \<Rightarrow> conn_context" where
  "ctx_at s cid = (case conns s cid of Some ctx \<Rightarrow> ctx | None \<Rightarrow>
     \<lparr>self_ptr = 0, buffer = (\<lambda>i. NUL), buffer_ptr = 0, buffer_mr = no_mr,
      msg = \<lparr>msg_id = MSG_INVALID, mr_addr = 0, mr_rkey = 0\<rparr>, msg_ptr = 0, msg_mr = no_mr, fd = 0,
      file_name = replicate MAX_FILE_NAME NUL\<rparr>)"

definition upd_conn :: "ptr \<Rightarrow> (conn_context \<Rightarrow> conn_context) \<Rightarrow> server cmd" where
  "upd_conn cid f = assign (\<lambda>s. s\<lparr>conns := (conns s)(cid \<mapsto> f (ctx_at s cid))\<rparr>)"

definition message_wr :: "conn_context \<Rightarrow> ptr \<Rightarrow> send_wr" where
  "message_wr ctx cid = \<lparr>swr_id = cid, swr_opcode = WR_SEND,
     swr_sges = [\<lparr>sg_addr = msg_ptr ctx, sg_length = sizeof_message, sg_lkey = lkey (msg_mr ctx)\<rparr>],
     swr_signaled = True, swr_imm = 0, swr_remote_addr = 0, swr_rkey = 0, swr_ah = 0,
     swr_remote_qpn = 0, swr_remote_qkey = 0,
     swr_remote_srqn = 0, swr_dct_key = 0, swr_dct_number = 0\<rparr>"

definition send_message :: "api_env \<Rightarrow> ptr \<Rightarrow> server cmd" where
  "send_message E cid = look (\<lambda>s.
     TEST_NZ E ''ibv_post_send'' (Data (Post_send cid [message_wr (ctx_at s cid) cid])))"

definition s_post_receive :: "api_env \<Rightarrow> ptr \<Rightarrow> server cmd" where
  "s_post_receive E cid = TEST_NZ E ''ibv_post_recv''
     (Data (Post_recv cid [\<lparr>rwr_id = cid, rwr_sges = []\<rparr>]))"

definition set_msg :: "ptr \<Rightarrow> message_id \<Rightarrow> server cmd" where
  "set_msg cid i = upd_conn cid (\<lambda>ctx. ctx\<lparr>msg := (msg ctx)\<lparr>msg_id := i\<rparr>\<rparr>)"

definition on_pre_conn :: "api_env \<Rightarrow> ptr \<Rightarrow> server cmd" where
  "on_pre_conn E cid = look (\<lambda>s0.
     call E (Libc (Malloc ''conn_context'')) (\<lambda>p. seq [
       assign (\<lambda>s. s\<lparr>conns := (conns s)(cid \<mapsto> junk_ctx E (hist s0) p)\<rparr>),
       upd_conn cid (\<lambda>ctx. ctx\<lparr>file_name := (file_name ctx)[0 := NUL]\<rparr>),
       call E (Libc (Memalign 4096 BUFFER_SIZE)) (\<lambda>b. seq [
         upd_conn cid (\<lambda>ctx. ctx\<lparr>buffer_ptr := b\<rparr>),
         look (\<lambda>s. reg_mr E
           (Reg_mr (rc_get_pd s) b BUFFER_SIZE {LOCAL_WRITE, REMOTE_WRITE}) (\<lambda>m.
           upd_conn cid (\<lambda>ctx. ctx\<lparr>buffer_mr := m\<rparr>)))]),
       call E (Libc (Memalign 4096 sizeof_message)) (\<lambda>b. seq [
         upd_conn cid (\<lambda>ctx. ctx\<lparr>msg_ptr := b\<rparr>),
         look (\<lambda>s. reg_mr E (Reg_mr (rc_get_pd s) b sizeof_message {}) (\<lambda>m.
           upd_conn cid (\<lambda>ctx. ctx\<lparr>msg_mr := m\<rparr>)))]),
       s_post_receive E cid]))"

definition on_connection :: "api_env \<Rightarrow> ptr \<Rightarrow> server cmd" where
  "on_connection E cid = seq [
     upd_conn cid (\<lambda>ctx. ctx\<lparr>msg := \<lparr>msg_id = MSG_MR, mr_addr = mr_at (buffer_mr ctx),
       mr_rkey = rkey (buffer_mr ctx)\<rparr>\<rparr>),
     send_message E cid]"

text \<open>The three cases of a write with immediate data.\<close>

definition recv_end :: "api_env \<Rightarrow> ptr \<Rightarrow> server cmd" where
  "recv_end E cid = seq [set_msg cid MSG_DONE, send_message E cid]"

definition recv_chunk :: "api_env \<Rightarrow> ptr \<Rightarrow> u32 \<Rightarrow> server cmd" where
  "recv_chunk E cid sz = look (\<lambda>s.
     call E (Libc (Write (fd (ctx_at s cid)) (read_at (buffer (ctx_at s cid)) (unat sz)))) (\<lambda>r. seq [
       if_cmd (r \<noteq> uint sz) (rc_die ''write() failed'') skip,
       s_post_receive E cid,
       set_msg cid MSG_READY,
       send_message E cid]))"

text \<open>\<open>memcpy(file_name, buffer, sz); file_name[sz - 1] = 0\<close> with \<open>sz\<close> cut to 256.\<close>

definition take_name :: "buffer \<Rightarrow> nat \<Rightarrow> string \<Rightarrow> string" where
  "take_name b sz old =
    (let n = (if sz > MAX_FILE_NAME then MAX_FILE_NAME else sz)
     in (read_at b n @ drop n old)[n - 1 := NUL])"

definition recv_name :: "api_env \<Rightarrow> ptr \<Rightarrow> u32 \<Rightarrow> server cmd" where
  "recv_name E cid sz = seq [
     upd_conn cid (\<lambda>ctx. ctx\<lparr>file_name := take_name (buffer ctx) (unat sz) (file_name ctx)\<rparr>),
     look (\<lambda>s. call E (Libc (Open (cstr (file_name (ctx_at s cid))))) (\<lambda>r. seq [
       upd_conn cid (\<lambda>ctx. ctx\<lparr>fd := r\<rparr>),
       if_cmd (r = - 1) (rc_die ''open() failed'') skip])),
     s_post_receive E cid,
     set_msg cid MSG_READY,
     send_message E cid]"

definition on_completion :: "api_env \<Rightarrow> wc \<Rightarrow> server cmd" where
  "on_completion E w = look (\<lambda>s.
     let cid = wc_wr_id w; sz = bswap32 (wc_imm w) in
     if_cmd (wc_opcode w = WC_RECV_RDMA_WITH_IMM)
       (if_cmd (sz = 0) (recv_end E cid)
         (if_cmd (file_name (ctx_at s cid) ! 0 \<noteq> NUL) (recv_chunk E cid sz)
           (recv_name E cid sz)))
       skip)"

definition on_disconnect :: "api_env \<Rightarrow> ptr \<Rightarrow> server cmd" where
  "on_disconnect E cid = look (\<lambda>s. let ctx = ctx_at s cid in seq [
     run_call E (Libc (Close (fd ctx))),
     run_call E (Ibv (Dereg_mr (mr_self (buffer_mr ctx)))),
     run_call E (Ibv (Dereg_mr (mr_self (msg_mr ctx)))),
     run_call E (Libc (Free (buffer_ptr ctx))),
     run_call E (Libc (Free (msg_ptr ctx))),
     run_call E (Libc (Free (self_ptr ctx))),
     assign (\<lambda>s. s\<lparr>conns := (conns s)(cid := None)\<rparr>)])"

section \<open>main\<close>

definition server_callbacks :: "api_env \<Rightarrow> server callbacks" where
  "server_callbacks E = rc_init (Some (on_pre_conn E)) (Some (on_connection E)) (on_completion E)
     (Some (on_disconnect E))"

definition server_main :: "api_env \<Rightarrow> server input list \<Rightarrow> server cmd" where
  "server_main E ins = rc_server_loop E (server_callbacks E) 12345 ins"

section \<open>The array of the file name\<close>

text \<open>
  The invariant of the server's memory: each connection's \<open>file_name\<close> is its array of 256
  characters with a terminator somewhere in it.  The array is never longer, so a terminator written
  at its end or behind it is not in it.
\<close>

definition terminated :: "string \<Rightarrow> bool" where
  "terminated nm \<longleftrightarrow> length nm = MAX_FILE_NAME \<and> NUL \<in> set nm"

definition server_wf :: "server \<Rightarrow> bool" where
  "server_wf s \<longleftrightarrow> (\<forall>cid x. conns s cid = Some x \<longrightarrow> terminated (file_name x))"

lemma server_wf_frame: "frame_ok server_wf"
  by (simp add: frame_ok_def server_wf_def)

lemma server_wf_ctx_at: "server_wf s \<Longrightarrow> terminated (file_name (ctx_at s cid))"
  by (simp add: server_wf_def ctx_at_def terminated_def MAX_FILE_NAME_def split: option.split)

lemma kept_upd_conn:
  assumes "\<And>x. terminated (file_name x) \<Longrightarrow> terminated (file_name (f x))"
  shows "kept server_wf (upd_conn cid f)"
  unfolding upd_conn_def
  by (rule kept_assign) (simp add: server_wf_def server_wf_ctx_at assms)

lemma terminated_take_name:
  assumes "terminated old" and "0 < sz"
  shows "terminated (take_name b sz old)"
proof -
  define n where "n = min sz MAX_FILE_NAME"
  have n: "n \<le> length old" "n - 1 < length old"
    using assms by (auto simp: n_def terminated_def MAX_FILE_NAME_def)
  have "take_name b sz old = (read_at b n @ drop n old)[n - 1 := NUL]"
    by (simp add: take_name_def n_def min_def)
  moreover have "length (read_at b n @ drop n old) = length old" using n by (simp add: read_at_def)
  ultimately show ?thesis using n assms(1) by (simp add: terminated_def set_update_memI)
qed

lemma kept_send: "kept server_wf (send_message E cid)" "kept server_wf (s_post_receive E cid)"
  "kept server_wf (set_msg cid i)"
  unfolding send_message_def s_post_receive_def set_msg_def
  by (auto intro!: kept_intro kept_upd_conn server_wf_frame)

lemma kept_handlers:
  "kept server_wf (on_connection E cid)" "kept server_wf (recv_end E cid)"
  "kept server_wf (recv_chunk E cid sz)"
  unfolding on_connection_def recv_end_def recv_chunk_def
  by (auto intro!: kept_intro kept_upd_conn kept_send server_wf_frame)

lemma kept_recv_name: "sz \<noteq> 0 \<Longrightarrow> kept server_wf (recv_name E cid sz)"
  unfolding recv_name_def
  by (auto intro!: kept_intro kept_upd_conn kept_send server_wf_frame terminated_take_name
      simp: unat_gt_0)

text \<open>Fresh memory may hold no terminator; the assignment that follows puts one at its start.\<close>

lemma seq_assign: "seq (assign f # assign g # cs) = seq (assign (\<lambda>s. g (f s)) # cs)"
  by (rule ext) (simp add: assign_def)

lemma kept_new_ctx:
  "kept server_wf (assign (\<lambda>s. s\<lparr>conns := (conns s)(cid \<mapsto>
     (ctx_at (s\<lparr>conns := (conns s)(cid \<mapsto> junk_ctx E h p)\<rparr>) cid)
       \<lparr>file_name := (file_name (ctx_at (s\<lparr>conns := (conns s)(cid \<mapsto> junk_ctx E h p)\<rparr>) cid))[0 := NUL]\<rparr>)\<rparr>))"
proof (rule kept_assign)
  have "length (file_name (junk_ctx E h p)) = MAX_FILE_NAME" by (simp add: junk_ctx_def Let_def)
  then have t: "terminated ((file_name (junk_ctx E h p))[0 := NUL])"
    by (simp add: terminated_def set_update_memI MAX_FILE_NAME_def)
  show "server_wf (s\<lparr>conns := (conns s)(cid \<mapsto>
     (ctx_at (s\<lparr>conns := (conns s)(cid \<mapsto> junk_ctx E h p)\<rparr>) cid)
       \<lparr>file_name := (file_name (ctx_at (s\<lparr>conns := (conns s)(cid \<mapsto> junk_ctx E h p)\<rparr>) cid))[0 := NUL]\<rparr>)\<rparr>)"
    if "server_wf s" for s
    using that t by (simp add: server_wf_def ctx_at_def)
qed

lemma kept_drop_ctx: "kept server_wf (assign (\<lambda>s. s\<lparr>conns := (conns s)(cid := None)\<rparr>))"
  by (rule kept_assign) (simp add: server_wf_def)

lemma kept_on_pre_conn: "kept server_wf (on_pre_conn E cid)"
proof -
  note u = upd_conn_def [of cid "\<lambda>ctx. ctx\<lparr>file_name := (file_name ctx)[0 := NUL]\<rparr>"]
  show ?thesis unfolding on_pre_conn_def u seq_assign
    by (auto intro!: kept_intro kept_new_ctx kept_upd_conn kept_send server_wf_frame)
qed

interpretation server_cb: rc_callbacks "server_callbacks E" server_wf for E
proof unfold_locales
  show "frame_ok server_wf" by (rule server_wf_frame)
  fix cid w
  show "kept server_wf (callback (s_on_pre_conn_cb (server_callbacks E)) cid)"
    by (simp add: server_callbacks_def rc_init_def callback_def kept_on_pre_conn)
  show "kept server_wf (callback (s_on_connect_cb (server_callbacks E)) cid)"
    by (simp add: server_callbacks_def rc_init_def callback_def kept_handlers)
  show "kept server_wf (s_on_completion_cb (server_callbacks E) w)"
    unfolding server_callbacks_def rc_init_def callbacks.simps on_completion_def Let_def
    by (intro kept_look kept_if kept_handlers kept_recv_name kept_basic)
  show "kept server_wf (callback (s_on_disconnect_cb (server_callbacks E)) cid)"
    unfolding server_callbacks_def rc_init_def callbacks.simps callback_def option.case
      on_disconnect_def Let_def
    by (auto intro!: kept_intro kept_drop_ctx server_wf_frame)
qed

section \<open>Properties\<close>

text \<open>An RDMA write stores its bytes at the start of the connection's buffer.\<close>

definition rdma_store :: "ptr \<Rightarrow> string \<Rightarrow> server \<Rightarrow> server" where
  "rdma_store sid d s = s\<lparr>conns := (conns s)(sid \<mapsto>
     (ctx_at s sid)\<lparr>buffer := store_at (buffer (ctx_at s sid)) d\<rparr>)\<rparr>"

definition buffer_only :: "server input \<Rightarrow> bool" where
  "buffer_only i \<longleftrightarrow> (case i of Cm_event _ _ _ \<Rightarrow> True
     | Completion mem w \<Rightarrow> mem = id \<or> (\<exists>cid d. mem = rdma_store cid d))"

text \<open>
  C11: Whatever connections come and go and whatever clients write into the buffers, in any order and
  of any announced size, the array of 256 characters of every connection's file name contains a
  terminator after every run of the server, wherever the run stops, exits included: a name that fills the
  whole array is cut, and \<open>open\<close> and the test for an empty name never read past the array.
\<close>

theorem server_keeps_names_in_bounds:
  assumes "list_all buffer_only ins" and "server_wf s"
  shows "server_wf (final (server_main E ins s))"
proof -
  have st: "server_wf s \<Longrightarrow> server_wf (rdma_store cid d s)" for s cid d
    using server_wf_ctx_at [of s cid] by (auto simp: server_wf_def rdma_store_def)
  have "buffer_only i \<Longrightarrow> server_cb.harmless i" for i
    by (cases i) (auto simp: server_cb.harmless_def buffer_only_def st)
  then have "list_all server_cb.harmless ins"
    using assms(1) by (auto simp: list_all_iff)
  then show ?thesis
    using server_cb.kept_server_loop assms(2) by (simp add: server_main_def kept_def)
qed

text \<open>
  A client announces a name of 300 bytes in a buffer without a terminator: the server opens the
  first 255 of them.
\<close>

definition names_env :: api_env where
  "names_env = const_env (\<lambda>c. case c of Cm Create_event_channel \<Rightarrow> 1 | Libc (Open nm) \<Rightarrow> 3 | _ \<Rightarrow> 0) (\<lambda>c. [])"

definition full_buffer :: server where
  "full_buffer = \<lparr>hist = [], s_ctx = None, conns = [1 \<mapsto>
     (ctx_at \<lparr>hist = [], s_ctx = None, conns = Map.empty\<rparr> 1)\<lparr>buffer := (\<lambda>i. CHR ''x'')\<rparr>]\<rparr>"

definition long_name :: "server input" where
  "long_name = Completion id \<lparr>wc_wr_id = 1, wc_status = 0, wc_opcode = WC_RECV_RDMA_WITH_IMM,
     wc_imm = bswap32 300, wc_qp_num = 0\<rparr>"

lemma cut_name:
  "take_name (\<lambda>i. CHR ''x'') 300 (replicate MAX_FILE_NAME NUL) = replicate 255 (CHR ''x'') @ [NUL]"
proof -
  have r: "replicate (256 :: nat) (CHR ''x'') = replicate 255 (CHR ''x'') @ [CHR ''x'']"
    using replicate_add [of 255 1 "CHR ''x''"] by simp
  have "(replicate (255 :: nat) (CHR ''x'') @ [CHR ''x''])[255 := NUL] = replicate 255 (CHR ''x'') @ [NUL]"
    using list_update_length [of "replicate (255 :: nat) (CHR ''x'')" "CHR ''x''" "[]" NUL] by simp
  then show ?thesis
    by (simp add: take_name_def MAX_FILE_NAME_def read_at_def map_replicate_const r)
qed

lemma long_name_run:
  "let s = final (server_main names_env [long_name] full_buffer) in
     (Libc (Open (replicate 255 (CHR ''x''))), 3) \<in> set (hist s)
     \<and> map_option file_name (conns s 1) = Some (replicate 255 (CHR ''x'') @ [NUL])"
proof -
  have e: "replicate MAX_FILE_NAME NUL ! 0 = NUL" by (simp add: MAX_FILE_NAME_def)
  have c: "cstr (replicate 255 (CHR ''x'') @ [NUL]) = replicate 255 (CHR ''x'')"
    by (rule cstr_append_NUL) (simp add: NUL_def)
  show ?thesis
    by (simp add: server_main_def rc_server_loop_def long_name_def poll_cq_def on_wc_def server_callbacks_def
        rc_init_def on_completion_def recv_name_def upd_conn_def ctx_at_def full_buffer_def names_env_def
        const_env_def s_post_receive_def set_msg_def send_message_def
        cmd_simps e c cut_name)
qed

theorem server_keeps_names_in_bounds_witness:
  "let s = final (server_main names_env [long_name] full_buffer) in
     server_wf s \<and> (Libc (Open (replicate 255 (CHR ''x''))), 3) \<in> set (hist s)"
proof -
  have "server_wf (final (server_main names_env [long_name] full_buffer))"
  proof (rule server_keeps_names_in_bounds)
    have "server_wf \<lparr>hist = [], s_ctx = None, conns = Map.empty\<rparr>" by (simp add: server_wf_def)
    from server_wf_ctx_at [OF this, of 1] show "server_wf full_buffer"
      by (simp add: server_wf_def full_buffer_def)
  qed (simp add: buffer_only_def long_name_def)
  then show ?thesis using long_name_run by (simp add: Let_def)
qed

end
