(* ===== verification/FileSystem.thy ===== *)
theory FileSystem
  imports FileServer
begin

text \<open>
  The file transfer as a whole: a client and a server process, connected by a reliable connection
  that delivers the client's RDMA writes and the server's messages in the order they were posted.
  The adapter reads the sender's memory when it delivers, and a delivery needs a posted receive; the
  handlers that run are those of FileClient and FileServer.
\<close>

section \<open>What the histories say\<close>

text \<open>The bytes written to a descriptor since it was opened, and the bytes read from one.\<close>

fun file_content :: "int \<Rightarrow> trace \<Rightarrow> string" where
  "file_content f [] = []"
| "file_content f ((c, r) # h) = (case c of
      Libc (Open nm) \<Rightarrow> if r = f then [] else file_content f h
    | Libc (Write f' d) \<Rightarrow> if f' = f then file_content f h @ take (nat r) d else file_content f h
    | _ \<Rightarrow> file_content f h)"

fun reads_of :: "api_env \<Rightarrow> int \<Rightarrow> trace \<Rightarrow> string" where
  "reads_of E f [] = []"
| "reads_of E f ((c, r) # h) = reads_of E f h @ (case c of
      Libc (Read f' n) \<Rightarrow> if f' = f then bytes_of E h c else [] | _ \<Rightarrow> [])"

definition opened_as :: "string \<Rightarrow> int \<Rightarrow> trace \<Rightarrow> bool" where
  "opened_as nm f h \<longleftrightarrow> (Libc (Open nm), f) \<in> set h"

text \<open>A read of the descriptor has returned 0: the end of the file.\<close>

definition at_eof :: "int \<Rightarrow> trace \<Rightarrow> bool" where
  "at_eof f h \<longleftrightarrow> (Libc (Read f BUFFER_SIZE), 0) \<in> set h"

text \<open>Calls that none of these notices.\<close>

definition quiet_call :: "api \<Rightarrow> bool" where
  "quiet_call c = (case c of
      Libc l \<Rightarrow> (case l of Open nm \<Rightarrow> False | Write f d \<Rightarrow> False | Read f n \<Rightarrow> False | _ \<Rightarrow> True)
    | Data d \<Rightarrow> (case d of Post_send q w \<Rightarrow> False | Post_recv q w \<Rightarrow> False
        | Post_srq_recv q w \<Rightarrow> False | _ \<Rightarrow> True)
    | Cm m \<Rightarrow> (case m of Disconnect i \<Rightarrow> False | _ \<Rightarrow> True)
    | _ \<Rightarrow> True)"

text \<open>Two histories the observations do not tell apart.\<close>

definition same :: "trace \<Rightarrow> trace \<Rightarrow> bool" where
  "same h h' \<longleftrightarrow> sent_wrs h = sent_wrs h' \<and> recvs h = recvs h' \<and> disconnects h = disconnects h'
     \<and> (\<forall>f. file_content f h = file_content f h') \<and> (\<forall>E f. reads_of E f h = reads_of E f h')
     \<and> (\<forall>nm f. opened_as nm f h = opened_as nm f h') \<and> (\<forall>f. at_eof f h = at_eof f h')"

lemma same_refl [simp]: "same h h"
  by (simp add: same_def)

lemma same_trans: "same h h' \<Longrightarrow> same h' h'' \<Longrightarrow> same h h''"
  by (simp add: same_def)

lemma same_quiet: "quiet_call c \<Longrightarrow> same ((c, r) # h) h"
  by (auto simp: same_def quiet_call_def opened_as_def at_eof_def
      split: api.splits libc_call.splits data_call.splits cm_call.splits)

lemma same_Cons: "quiet_call c \<Longrightarrow> same h h' \<Longrightarrow> same ((c, r) # h) h'"
  by (rule same_trans [OF same_quiet])

text \<open>A poll that ends normally ran the callback, between calls nobody notices.\<close>

lemma run_poll_cq:
  assumes "poll_cq E cb w s = Run s'"
  shows "\<exists>h1 s2 h2. wc_status w = 0 \<and> same h1 (hist s)
    \<and> s_on_completion_cb cb w (s\<lparr>hist := h1\<rparr>) = Run s2 \<and> same h2 (hist s2) \<and> s' = s2\<lparr>hist := h2\<rparr>"
proof -
  define c where "c = the_ctx s"
  let ?h0 = "hist s"
  let ?e = "(Data (Get_cq_event (ctx_channel c)), ret E ?h0 (Data (Get_cq_event (ctx_channel c)))) # ?h0"
  let ?a = "(Data (Ack_cq_events (ctx_cq c) 1), ret E ?e (Data (Ack_cq_events (ctx_cq c) 1))) # ?e"
  let ?r = "(Data (Req_notify_cq (ctx_cq c)), ret E ?a (Data (Req_notify_cq (ctx_cq c)))) # ?a"
  let ?h1 = "(Data (Poll_cq (ctx_cq c) 1), ret E ?r (Data (Poll_cq (ctx_cq c) 1))) # ?r"
  from assms obtain s2 where w: "wc_status w = 0" and s2: "s_on_completion_cb cb w (s\<lparr>hist := ?h1\<rparr>) = Run s2"
    and s': "s' = s2\<lparr>hist := (Data (Poll_cq (ctx_cq c) 1), ret E (hist s2) (Data (Poll_cq (ctx_cq c) 1))) # hist s2\<rparr>"
    by (auto simp: poll_cq_def on_wc_def cmd_simps c_def split: if_splits outcome.splits)
  have "same ?h1 ?h0" by (intro same_Cons same_refl) (simp_all add: quiet_call_def)
  moreover have "same ((Data (Poll_cq (ctx_cq c) 1), ret E (hist s2) (Data (Poll_cq (ctx_cq c) 1))) # hist s2) (hist s2)"
    by (intro same_Cons same_refl) (simp add: quiet_call_def)
  ultimately show ?thesis using w s2 s' by blast
qed

section \<open>What the handlers do\<close>

text \<open>\<open>strlen(file_name) + 1\<close> as the length of a write.\<close>

definition name_len :: "string \<Rightarrow> u32" where
  "name_len nm = word_of_nat (length nm + 1)"

lemma client_on_MR:
  assumes "c_on_completion E w s = Run s'" and "wc_is_recv (wc_opcode w)"
    and "msg_id (c_msg (cctx s)) = MSG_MR"
  shows "cctx s' = (cctx s)\<lparr>peer_addr := mr_addr (c_msg (cctx s)), peer_rkey := mr_rkey (c_msg (cctx s)),
      c_buffer := store_at (c_buffer (cctx s)) (c_file_name (cctx s) @ [NUL])\<rparr>"
    "sent_wrs (hist s') = sent_wrs (hist s) @
       [write_wr (cctx s') (wc_wr_id w) (name_len (c_file_name (cctx s)))]"
    "recvs (hist s') = recvs (hist s) + 1" "disconnects (hist s') = disconnects (hist s)"
    "reads_of E f (hist s') = reads_of E f (hist s)"
  using assms
  by (auto simp: c_on_completion_def cmd_simps send_file_name_def write_remote_def upd_ctx_def
      c_post_receive_def name_len_def split: if_splits)

lemma client_on_READY:
  assumes "c_on_completion E w s = Run s'" and "wc_is_recv (wc_opcode w)"
    and "msg_id (c_msg (cctx s)) = MSG_READY"
  shows "\<exists>h d sz. cctx s' = (cctx s)\<lparr>c_buffer := store_at (c_buffer (cctx s)) d\<rparr>
    \<and> sz \<noteq> - 1 \<and> sz = ret E h (Libc (Read (c_fd (cctx s)) BUFFER_SIZE)) \<and> length d = nat sz
    \<and> sent_wrs (hist s') = sent_wrs (hist s) @ [write_wr (cctx s') (wc_wr_id w) (word_of_int sz)]
    \<and> recvs (hist s') = recvs (hist s) + 1 \<and> disconnects (hist s') = disconnects (hist s)
    \<and> reads_of E (c_fd (cctx s)) (hist s') = reads_of E (c_fd (cctx s)) (hist s) @ d
    \<and> (sz = 0 \<longrightarrow> at_eof (c_fd (cctx s)) (hist s'))"
proof -
  let ?c = "Libc (Read (c_fd (cctx s)) BUFFER_SIZE)"
  have "length (bytes_of E (hist s) ?c) = nat (ret E (hist s) ?c)" by (simp add: bytes_of_def)
  with assms show ?thesis
    by (intro exI [of _ "hist s"] exI [of _ "bytes_of E (hist s) ?c"] exI [of _ "ret E (hist s) ?c"])
      (auto simp: c_on_completion_def cmd_simps send_next_chunk_def write_remote_def upd_ctx_def
        c_post_receive_def rc_die_def at_eof_def split: if_splits)
qed

lemma client_on_DONE:
  assumes "c_on_completion E w s = Run s'" and "wc_is_recv (wc_opcode w)"
    and "msg_id (c_msg (cctx s)) = MSG_DONE"
  shows "cctx s' = cctx s \<and> sent_wrs (hist s') = sent_wrs (hist s)
    \<and> disconnects (hist s') = disconnects (hist s) + 1 \<and> reads_of E f (hist s') = reads_of E f (hist s)
    \<and> at_eof f (hist s') = at_eof f (hist s)"
  using assms by (auto simp: c_on_completion_def cmd_simps rc_disconnect_def at_eof_def)

lemma client_on_sent: "\<not> wc_is_recv (wc_opcode w) \<Longrightarrow> c_on_completion E w s = Run s"
  by (simp add: c_on_completion_def cmd_simps)

lemma ctx_at_upd [simp]: "ctx_at (s\<lparr>conns := (conns s)(cid \<mapsto> x)\<rparr>) cid = x"
  "ctx_at (s\<lparr>hist := h\<rparr>) cid = ctx_at s cid"
  by (simp_all add: ctx_at_def)

lemma ctx_at_Some: "conns s cid = Some x \<Longrightarrow> ctx_at s cid = x"
  by (simp add: ctx_at_def)

lemma server_on_end:
  assumes "recv_end E cid s = Run s'" and "conns s cid = Some x"
  shows "conns s' cid = Some (x\<lparr>msg := (msg x)\<lparr>msg_id := MSG_DONE\<rparr>\<rparr>)
    \<and> length (sent_wrs (hist s')) = Suc (length (sent_wrs (hist s))) \<and> recvs (hist s') = recvs (hist s)
    \<and> file_content f (hist s') = file_content f (hist s) \<and> opened_as nm f (hist s') = opened_as nm f (hist s)"
  using assms
  by (auto simp: recv_end_def cmd_simps set_msg_def upd_conn_def send_message_def ctx_at_def opened_as_def
      split: if_splits)

lemma server_on_chunk:
  assumes "recv_chunk E cid sz s = Run s'" and "conns s cid = Some x"
  shows "conns s' cid = Some (x\<lparr>msg := (msg x)\<lparr>msg_id := MSG_READY\<rparr>\<rparr>)
    \<and> length (sent_wrs (hist s')) = Suc (length (sent_wrs (hist s))) \<and> recvs (hist s') = recvs (hist s) + 1
    \<and> file_content (fd x) (hist s') = file_content (fd x) (hist s) @ read_at (buffer x) (unat sz)
    \<and> opened_as nm f (hist s') = opened_as nm f (hist s)"
  using assms
  by (auto simp: recv_chunk_def cmd_simps set_msg_def upd_conn_def send_message_def s_post_receive_def
      ctx_at_def opened_as_def rc_die_def split: if_splits)

lemma server_on_name:
  assumes "recv_name E cid sz s = Run s'" and "conns s cid = Some x"
  shows "\<exists>r. conns s' cid = Some (x\<lparr>file_name := take_name (buffer x) (unat sz) (file_name x), fd := r,
        msg := (msg x)\<lparr>msg_id := MSG_READY\<rparr>\<rparr>)
    \<and> length (sent_wrs (hist s')) = Suc (length (sent_wrs (hist s))) \<and> recvs (hist s') = recvs (hist s) + 1
    \<and> file_content r (hist s') = []
    \<and> opened_as (cstr (take_name (buffer x) (unat sz) (file_name x))) r (hist s')"
  using assms
  by (auto simp: recv_name_def cmd_simps set_msg_def upd_conn_def send_message_def s_post_receive_def
      ctx_at_def opened_as_def rc_die_def split: if_splits)

lemma server_on_connection:
  assumes "on_connection E cid s = Run s'" and "conns s cid = Some x"
  shows "conns s' cid = Some (x\<lparr>msg := \<lparr>msg_id = MSG_MR, mr_addr = mr_at (buffer_mr x),
        mr_rkey = rkey (buffer_mr x)\<rparr>\<rparr>)
    \<and> length (sent_wrs (hist s')) = Suc (length (sent_wrs (hist s))) \<and> recvs (hist s') = recvs (hist s)"
  using assms
  by (auto simp: on_connection_def cmd_simps upd_conn_def send_message_def ctx_at_def split: if_splits)

lemma server_on_disconnect:
  assumes "on_disconnect E cid s = Run s'"
  shows "conns s' cid = None \<and> same (hist s') (hist s)"
  using assms by (auto simp: on_disconnect_def cmd_simps intro!: same_Cons simp: quiet_call_def)

lemma server_on_sent: "wc_opcode w \<noteq> WC_RECV_RDMA_WITH_IMM \<Longrightarrow> on_completion E w s = Run s"
  by (simp add: on_completion_def cmd_simps)

section \<open>The pair\<close>

record ft =
  cl :: client
  sv :: server
  n_cs :: nat
  n_sc :: nat
  up :: bool
  down :: bool

abbreviation writes_of :: "ft \<Rightarrow> send_wr list" where
  "writes_of S \<equiv> sent_wrs (hist (cl S))"

abbreviation messages_of :: "ft \<Rightarrow> send_wr list" where
  "messages_of S \<equiv> sent_wrs (hist (sv S))"

text \<open>The completions the adapters report, and the stores they make first.\<close>

definition ok_wc :: "ptr \<Rightarrow> wc_opcode \<Rightarrow> u32 \<Rightarrow> wc" where
  "ok_wc wr op imm = \<lparr>wc_wr_id = wr, wc_status = 0, wc_opcode = op, wc_imm = imm, wc_qp_num = 0\<rparr>"

definition bytes_sent :: "send_wr \<Rightarrow> nat" where
  "bytes_sent w = (case swr_sges w of [] \<Rightarrow> 0 | g # _ \<Rightarrow> nat (sg_length g))"

definition message_store :: "message \<Rightarrow> client \<Rightarrow> client" where
  "message_store m s = s\<lparr>cctx := (cctx s)\<lparr>c_msg := m\<rparr>\<rparr>"

text \<open>
  A write arrives when it is the next one posted, the server has a receive for its immediate data
  and it names the server's buffer; a message when the client has a receive for it.  Completions of
  sends may be reported at any time.
\<close>

inductive ft_step :: "api_env \<Rightarrow> api_env \<Rightarrow> ptr \<Rightarrow> ptr \<Rightarrow> ft \<Rightarrow> ft \<Rightarrow> bool"
  for Ec Es cid sid where
  established: "\<not> up S \<Longrightarrow> on_event Es (server_callbacks Es) ESTABLISHED sid v (sv S) = Run s' \<Longrightarrow>
     ft_step Ec Es cid sid S (S\<lparr>sv := s', up := True\<rparr>)"
| write_arrives: "n_cs S < length (writes_of S) \<Longrightarrow> w = writes_of S ! n_cs S \<Longrightarrow>
     int (n_cs S) < recvs (hist (sv S)) \<Longrightarrow> conns (sv S) sid = Some x \<Longrightarrow>
     swr_remote_addr w = mr_at (buffer_mr x) \<Longrightarrow> swr_rkey w = rkey (buffer_mr x) \<Longrightarrow>
     poll_cq Es (server_callbacks Es) (ok_wc sid WC_RECV_RDMA_WITH_IMM (swr_imm w))
       (rdma_store sid (read_at (c_buffer (cctx (cl S))) (bytes_sent w)) (sv S)) = Run s' \<Longrightarrow>
     ft_step Ec Es cid sid S (S\<lparr>sv := s', n_cs := Suc (n_cs S)\<rparr>)"
| message_arrives: "n_sc S < length (messages_of S) \<Longrightarrow> int (n_sc S) < recvs (hist (cl S)) \<Longrightarrow>
     conns (sv S) sid = Some x \<Longrightarrow>
     poll_cq Ec (client_callbacks Ec) (ok_wc cid WC_RECV 0) (message_store (msg x) (cl S)) = Run c' \<Longrightarrow>
     ft_step Ec Es cid sid S (S\<lparr>cl := c', n_sc := Suc (n_sc S)\<rparr>)"
| write_done: "poll_cq Ec (client_callbacks Ec) (ok_wc cid WC_RDMA_WRITE 0) (cl S) = Run c' \<Longrightarrow>
     ft_step Ec Es cid sid S (S\<lparr>cl := c'\<rparr>)"
| message_done: "poll_cq Es (server_callbacks Es) (ok_wc sid WC_SEND 0) (sv S) = Run s' \<Longrightarrow>
     ft_step Ec Es cid sid S (S\<lparr>sv := s'\<rparr>)"
| disconnected: "0 < disconnects (hist (cl S)) \<Longrightarrow> \<not> down S \<Longrightarrow>
     on_event Es (server_callbacks Es) DISCONNECTED sid v (sv S) = Run s' \<Longrightarrow>
     ft_step Ec Es cid sid S (S\<lparr>sv := s', down := True\<rparr>)"

section \<open>The phases of a transfer\<close>

datatype phase = Idle | Mr_sent | Name_sent | Ready_sent | Chunk_sent | End_sent | Done_sent
  | Left | Closed

text \<open>The counters of each phase: what is under way, and the receives posted.\<close>

definition shape :: "phase \<Rightarrow> ft \<Rightarrow> bool" where
  "shape ph S \<longleftrightarrow> up S = (ph \<noteq> Idle) \<and> down S = (ph = Closed)
    \<and> length (writes_of S) = n_cs S + (if ph \<in> {Name_sent, Chunk_sent, End_sent} then 1 else 0)
    \<and> length (messages_of S) = n_sc S + (if ph \<in> {Mr_sent, Ready_sent, Done_sent} then 1 else 0)
    \<and> length (messages_of S) = n_cs S + (if ph = Idle then 0 else 1)
    \<and> (disconnects (hist (cl S)) = 0) = (ph \<notin> {Left, Closed})
    \<and> (ph \<notin> {Done_sent, Left, Closed} \<longrightarrow> recvs (hist (sv S)) = int (n_cs S) + 1)
    \<and> (ph \<notin> {Left, Closed} \<longrightarrow> recvs (hist (cl S)) = int (n_sc S) + 1)"

text \<open>The name the server stores: at most 255 characters.\<close>

definition kept_name :: "string \<Rightarrow> string" where
  "kept_name nm = take (MAX_FILE_NAME - 1) nm"

definition unnamed :: "conn_context \<Rightarrow> bool" where
  "unnamed x \<longleftrightarrow> file_name x ! 0 = NUL \<and> length (file_name x) = MAX_FILE_NAME"

definition named :: "string \<Rightarrow> conn_context \<Rightarrow> trace \<Rightarrow> bool" where
  "named nm x h \<longleftrightarrow> file_name x ! 0 \<noteq> NUL \<and> opened_as (kept_name nm) (fd x) h"

definition knows :: "client_context \<Rightarrow> conn_context \<Rightarrow> bool" where
  "knows c x \<longleftrightarrow> peer_addr c = mr_at (buffer_mr x) \<and> peer_rkey c = rkey (buffer_mr x)"

definition phase_data ::
    "phase \<Rightarrow> api_env \<Rightarrow> ptr \<Rightarrow> string \<Rightarrow> client \<Rightarrow> trace \<Rightarrow> conn_context \<Rightarrow> send_wr \<Rightarrow> bool" where
  "phase_data ph Ec cid nm c hs x w =
    (let ctx = cctx c; rd = reads_of Ec (c_fd ctx) (hist c); f = file_content (fd x) hs in
     case ph of
       Idle \<Rightarrow> unnamed x \<and> rd = []
     | Mr_sent \<Rightarrow> unnamed x \<and> rd = [] \<and> msg x = \<lparr>msg_id = MSG_MR, mr_addr = mr_at (buffer_mr x),
         mr_rkey = rkey (buffer_mr x)\<rparr>
     | Name_sent \<Rightarrow> unnamed x \<and> rd = [] \<and> knows ctx x
         \<and> read_at (c_buffer ctx) (length nm + 1) = nm @ [NUL]
         \<and> w = write_wr ctx cid (name_len nm)
     | Ready_sent \<Rightarrow> named nm x hs \<and> f = rd \<and> knows ctx x \<and> msg_id (msg x) = MSG_READY
     | Chunk_sent \<Rightarrow> named nm x hs \<and> knows ctx x
         \<and> (\<exists>sz. sz \<noteq> 0 \<and> w = write_wr ctx cid sz \<and> rd = f @ read_at (c_buffer ctx) (unat sz))
     | End_sent \<Rightarrow> named nm x hs \<and> f = rd \<and> knows ctx x \<and> w = write_wr ctx cid 0
     | Done_sent \<Rightarrow> named nm x hs \<and> f = rd \<and> msg_id (msg x) = MSG_DONE
     | Left \<Rightarrow> named nm x hs \<and> f = rd
     | Closed \<Rightarrow> True)"

definition phase_ok :: "phase \<Rightarrow> api_env \<Rightarrow> ptr \<Rightarrow> ptr \<Rightarrow> string \<Rightarrow> ft \<Rightarrow> bool" where
  "phase_ok ph Ec cid sid nm S \<longleftrightarrow> shape ph S \<and> c_file_name (cctx (cl S)) = nm
    \<and> (let f = c_fd (cctx (cl S)); h = hist (cl S) in
       (ph \<in> {End_sent, Done_sent, Left, Closed} \<longrightarrow> at_eof f h)
       \<and> length (writes_of S) \<le> length (reads_of Ec f h) +
           (if ph \<in> {Idle, Mr_sent} then 0 else if ph \<in> {Name_sent, Ready_sent, Chunk_sent} then 1 else 2))
    \<and> (if ph = Closed
       then conns (sv S) sid = None \<and> (\<exists>f. opened_as (kept_name nm) f (hist (sv S))
              \<and> file_content f (hist (sv S)) = reads_of Ec (c_fd (cctx (cl S))) (hist (cl S)))
       else \<exists>x. conns (sv S) sid = Some x
              \<and> phase_data ph Ec cid nm (cl S) (hist (sv S)) x (writes_of S ! n_cs S))"

definition ft_inv :: "api_env \<Rightarrow> ptr \<Rightarrow> ptr \<Rightarrow> string \<Rightarrow> ft \<Rightarrow> bool" where
  "ft_inv Ec cid sid nm S \<longleftrightarrow> (\<exists>ph. phase_ok ph Ec cid sid nm S)"

text \<open>A file name as \<open>basename\<close> gives it: not empty, and a C string.\<close>

definition name_ok :: "string \<Rightarrow> bool" where
  "name_ok nm \<longleftrightarrow> nm \<noteq> [] \<and> NUL \<notin> set nm \<and> length nm + 1 < 2 ^ 32"

text \<open>\<open>read\<close> returns a count up to what was asked for, or -1.\<close>

definition reads_ok :: "api_env \<Rightarrow> bool" where
  "reads_ok E \<longleftrightarrow> (\<forall>h f n. 0 \<le> n \<longrightarrow>
     - 1 \<le> ret E h (Libc (Read f n)) \<and> ret E h (Libc (Read f n)) \<le> n)"

section \<open>Every step keeps the phases\<close>

lemma take_read_at: "n \<le> m \<Longrightarrow> take n (read_at b m) = read_at b n"
  unfolding read_at_def take_map by (simp add: take_upt)

lemma kept_name_stored:
  assumes "name_ok nm" and "read_at b (length nm + 1) = nm @ [NUL]"
  shows "cstr (take_name b (length nm + 1) old) = kept_name nm" "take_name b (length nm + 1) old ! 0 \<noteq> NUL"
proof -
  define n where "n = (if length nm + 1 > MAX_FILE_NAME then MAX_FILE_NAME else length nm + 1)"
  have n: "n \<le> length nm + 1" "0 < n - 1"
    using assms(1) by (auto simp: n_def MAX_FILE_NAME_def name_ok_def)
  have r: "read_at b n = take n (nm @ [NUL])"
    using take_read_at [OF n(1), of b] assms(2) by simp
  have k: "kept_name nm = take (n - 1) nm"
    by (auto simp: kept_name_def n_def MAX_FILE_NAME_def)
  have "Suc (n - 1) = n" "n - 1 < length (nm @ [NUL])" using n by auto
  then have "read_at b n = take (n - 1) nm @ [(nm @ [NUL]) ! (n - 1)]"
    using r n take_Suc_conv_app_nth [of "n - 1" "nm @ [NUL]"] by simp
  moreover have "length (take (n - 1) nm) = n - 1" using n by simp
  moreover have "take_name b (length nm + 1) old = (read_at b n @ drop n old)[n - 1 := NUL]"
    unfolding take_name_def n_def Let_def ..
  ultimately have "take_name b (length nm + 1) old = take (n - 1) nm @ NUL # drop n old"
    by (simp add: list_update_append)
  moreover have "NUL \<notin> set (take (n - 1) nm)"
    using assms(1) by (auto simp: name_ok_def dest: in_set_takeD)
  moreover have "nm ! 0 \<noteq> NUL"
    using assms(1) by (cases nm) (auto simp: name_ok_def)
  ultimately show "cstr (take_name b (length nm + 1) old) = kept_name nm"
    and "take_name b (length nm + 1) old ! 0 \<noteq> NUL"
    using k n assms(1) by (simp_all add: cstr_append_NUL nth_append name_ok_def)
qed

lemma run_established:
  assumes "on_event E cb ESTABLISHED cid v s = Run s'"
  shows "\<exists>h1. same h1 (hist s) \<and> callback (s_on_connect_cb cb) cid (s\<lparr>hist := h1\<rparr>) = Run s'"
  using assms
  by (auto simp: on_event_def cmd_simps split: outcome.splits intro!: exI conjI same_Cons)
    (auto simp: quiet_call_def)

lemma run_disconnected:
  assumes "on_event E cb DISCONNECTED cid v s = Run s'"
  shows "\<exists>h1 s2 h2. same h1 (hist s) \<and> callback (s_on_disconnect_cb cb) cid (s\<lparr>hist := h1\<rparr>) = Run s2
    \<and> same h2 (hist s2) \<and> s' = s2\<lparr>hist := h2\<rparr>"
proof -
  let ?h1 = "(Cm (Rdma_destroy_qp cid), ret E ((Cm Ack_cm_event, ret E (hist s) (Cm Ack_cm_event)) # hist s)
      (Cm (Rdma_destroy_qp cid))) # (Cm Ack_cm_event, ret E (hist s) (Cm Ack_cm_event)) # hist s"
  obtain s2 where "callback (s_on_disconnect_cb cb) cid (s\<lparr>hist := ?h1\<rparr>) = Run s2"
    "s' = s2\<lparr>hist := (Cm (Destroy_id cid), ret E (hist s2) (Cm (Destroy_id cid))) # hist s2\<rparr>"
    using assms by (auto simp: on_event_def cmd_simps split: outcome.splits)
  moreover have "same ?h1 (hist s)" by (intro same_Cons same_refl) (simp_all add: quiet_call_def)
  moreover have "same ((Cm (Destroy_id cid), ret E (hist s2) (Cm (Destroy_id cid))) # hist s2) (hist s2)"
    by (intro same_Cons same_refl) (simp add: quiet_call_def)
  ultimately show ?thesis by blast
qed

lemma step_established:
  assumes "phase_ok ph Ec cid sid nm S" and "\<not> up S"
    and "on_event Es (server_callbacks Es) ESTABLISHED sid v (sv S) = Run s'"
  shows "phase_ok Mr_sent Ec cid sid nm (S\<lparr>sv := s', up := True\<rparr>)"
proof -
  have ph: "ph = Idle" using assms(1,2) by (simp add: phase_ok_def shape_def)
  obtain x where x: "conns (sv S) sid = Some x" "phase_data Idle Ec cid nm (cl S) (hist (sv S)) x (writes_of S ! n_cs S)"
    using assms(1) ph by (auto simp: phase_ok_def)
  obtain h1 where h1: "same h1 (hist (sv S))" "on_connection Es sid ((sv S)\<lparr>hist := h1\<rparr>) = Run s'"
    using run_established [OF assms(3)] by (auto simp: callback_def server_callbacks_def rc_init_def)
  have "conns ((sv S)\<lparr>hist := h1\<rparr>) sid = Some x" using x by simp
  from server_on_connection [OF h1(2) this] x assms(1) h1(1) ph show ?thesis
    by (auto simp: phase_ok_def shape_def phase_data_def Let_def same_def unnamed_def)
qed

lemma bytes_sent_write [simp]: "bytes_sent (write_wr ctx cid sz) = unat sz"
  by (simp add: bytes_sent_def write_wr_def)

lemma imm_write [simp]: "bswap32 (swr_imm (write_wr ctx cid sz)) = sz"
  by (simp add: write_wr_def)

lemma rdma_store_simps [simp]:
  "hist (rdma_store sid d s) = hist s"
  "conns s sid = Some x \<Longrightarrow> conns (rdma_store sid d s) sid = Some (x\<lparr>buffer := store_at (buffer x) d\<rparr>)"
  "ctx_at (rdma_store sid d s) sid = (ctx_at s sid)\<lparr>buffer := store_at (buffer (ctx_at s sid)) d\<rparr>"
  by (simp_all add: rdma_store_def ctx_at_def)

lemma name_len_facts:
  assumes "name_ok nm"
  shows "unat (name_len nm) = length nm + 1" "name_len nm \<noteq> 0"
proof -
  show "unat (name_len nm) = length nm + 1"
    using assms take_bit_nat_eq_self [of "length nm + 1" 32]
    unfolding name_len_def name_ok_def unsigned_of_nat by simp
  then show "name_len nm \<noteq> 0" by auto
qed

text \<open>A write arrives: the name, a chunk, or the end.\<close>

lemma step_write:
  assumes ok: "phase_ok ph Ec cid sid nm S" and nm: "name_ok nm" and n: "n_cs S < length (writes_of S)"
    and run: "poll_cq Es (server_callbacks Es) (ok_wc sid WC_RECV_RDMA_WITH_IMM (swr_imm (writes_of S ! n_cs S)))
       (rdma_store sid (read_at (c_buffer (cctx (cl S))) (bytes_sent (writes_of S ! n_cs S))) (sv S)) = Run s'"
  shows "ft_inv Ec cid sid nm (S\<lparr>sv := s', n_cs := Suc (n_cs S)\<rparr>)"
proof -
  let ?w = "writes_of S ! n_cs S" and ?b = "c_buffer (cctx (cl S))"
  have ph: "ph \<in> {Name_sent, Chunk_sent, End_sent}"
    using ok n by (auto simp: phase_ok_def shape_def split: if_splits)
  then obtain x where x: "conns (sv S) sid = Some x"
    "phase_data ph Ec cid nm (cl S) (hist (sv S)) x ?w"
    using ok by (auto simp: phase_ok_def)
  define x' where "x' = x\<lparr>buffer := store_at (buffer x) (read_at ?b (bytes_sent ?w))\<rparr>"
  obtain h1 s2 h2 where r: "same h1 (hist (sv S))"
    "on_completion Es (ok_wc sid WC_RECV_RDMA_WITH_IMM (swr_imm ?w))
       ((rdma_store sid (read_at ?b (bytes_sent ?w)) (sv S))\<lparr>hist := h1\<rparr>) = Run s2"
    "same h2 (hist s2)" "s' = s2\<lparr>hist := h2\<rparr>"
    using run_poll_cq [OF run] by (auto simp: server_callbacks_def rc_init_def)
  let ?s1 = "(rdma_store sid (read_at ?b (bytes_sent ?w)) (sv S))\<lparr>hist := h1\<rparr>"
  have s1: "conns ?s1 sid = Some x'" using x by (simp add: x'_def)
  consider (nm) "ph = Name_sent" | (chunk) "ph = Chunk_sent" | (fin) "ph = End_sent" using ph by auto
  then show ?thesis
  proof cases
    case nm
    then have w: "?w = write_wr (cctx (cl S)) cid (name_len nm)" and u: "unnamed x"
      and rd: "read_at ?b (length nm + 1) = nm @ [NUL]"
      using x(2) by (simp_all add: phase_data_def Let_def)
    note l = name_len_facts [OF \<open>name_ok nm\<close>]
    have "recv_name Es sid (name_len nm) ?s1 = Run s2"
      using r(2) u l unfolding w
      by (simp add: on_completion_def cmd_simps ok_wc_def ctx_at_Some [OF x(1)] unnamed_def)
    from server_on_name [OF this s1] obtain f where s2: "conns s2 sid = Some (x'\<lparr>file_name :=
        take_name (buffer x') (length nm + 1) (file_name x'), fd := f, msg := (msg x')\<lparr>msg_id := MSG_READY\<rparr>\<rparr>)"
      "length (sent_wrs (hist s2)) = Suc (length (sent_wrs h1))" "recvs (hist s2) = recvs h1 + 1"
      "file_content f (hist s2) = []"
      "opened_as (cstr (take_name (buffer x') (length nm + 1) (file_name x'))) f (hist s2)"
      unfolding l by auto
    have b: "read_at (buffer x') (length nm + 1) = nm @ [NUL]"
      using rd by (simp add: x'_def w l)
    have "phase_ok Ready_sent Ec cid sid nm (S\<lparr>sv := s', n_cs := Suc (n_cs S)\<rparr>)"
      using kept_name_stored [OF \<open>name_ok nm\<close> b, of "file_name x'"] s2 ok x nm r
      by (auto simp: phase_ok_def shape_def phase_data_def Let_def same_def named_def knows_def x'_def)
    then show ?thesis by (auto simp: ft_inv_def)
  next
    case chunk
    then obtain sz where w: "?w = write_wr (cctx (cl S)) cid sz" "sz \<noteq> 0"
      and rd: "reads_of Ec (c_fd (cctx (cl S))) (hist (cl S)) = file_content (fd x) (hist (sv S)) @ read_at ?b (unat sz)"
      and k: "named nm x (hist (sv S))" "knows (cctx (cl S)) x"
      using x(2) by (auto simp: phase_data_def Let_def)
    have "recv_chunk Es sid sz ?s1 = Run s2"
      using r(2) w k unfolding w
      by (simp add: on_completion_def cmd_simps ok_wc_def ctx_at_Some [OF x(1)] named_def)
    from server_on_chunk [OF this s1]
    have s2: "conns s2 sid = Some (x'\<lparr>msg := (msg x')\<lparr>msg_id := MSG_READY\<rparr>\<rparr>)"
      "length (sent_wrs (hist s2)) = Suc (length (sent_wrs h1))" "recvs (hist s2) = recvs h1 + 1"
      "file_content (fd x) (hist s2) = file_content (fd x) h1 @ read_at (buffer x') (unat sz)"
      "opened_as (kept_name nm) (fd x) (hist s2) = opened_as (kept_name nm) (fd x) h1"
      by (simp_all add: x'_def)
    have "read_at (buffer x') (unat sz) = read_at ?b (unat sz)" by (simp add: x'_def w)
    then have "phase_ok Ready_sent Ec cid sid nm (S\<lparr>sv := s', n_cs := Suc (n_cs S)\<rparr>)"
      using s2 ok x chunk r rd k
      by (auto simp: phase_ok_def shape_def phase_data_def Let_def same_def named_def knows_def x'_def)
    then show ?thesis by (auto simp: ft_inv_def)
  next
    case fin
    then have w: "?w = write_wr (cctx (cl S)) cid 0" using x(2) by (simp add: phase_data_def Let_def)
    have "recv_end Es sid ?s1 = Run s2"
      using r(2) unfolding w by (simp add: on_completion_def cmd_simps ok_wc_def)
    from server_on_end [OF this s1]
    have s2: "conns s2 sid = Some (x'\<lparr>msg := (msg x')\<lparr>msg_id := MSG_DONE\<rparr>\<rparr>)"
      "length (sent_wrs (hist s2)) = Suc (length (sent_wrs h1))"
      "file_content (fd x) (hist s2) = file_content (fd x) h1"
      "opened_as (kept_name nm) (fd x) (hist s2) = opened_as (kept_name nm) (fd x) h1"
      by simp_all
    have "phase_ok Done_sent Ec cid sid nm (S\<lparr>sv := s', n_cs := Suc (n_cs S)\<rparr>)"
      using s2 ok x fin r
      by (auto simp: phase_ok_def shape_def phase_data_def Let_def same_def named_def x'_def)
    then show ?thesis by (auto simp: ft_inv_def)
  qed
qed

text \<open>A message arrives at the client.\<close>

lemma message_store_simps [simp]:
  "hist (message_store m s) = hist s" "cctx (message_store m s) = (cctx s)\<lparr>c_msg := m\<rparr>"
  by (simp_all add: message_store_def)

lemma chunk_len:
  assumes "reads_ok E" and "sz = ret E h (Libc (Read f BUFFER_SIZE))" and "sz \<noteq> - 1"
  shows "unat (word_of_int sz :: u32) = nat sz" "(word_of_int sz :: u32) = 0 \<longleftrightarrow> sz = 0"
proof -
  have "- 1 \<le> sz" "sz \<le> 10485760"
    using assms(1,2) by (auto simp: reads_ok_def BUFFER_SIZE_def dest: spec [of _ h])
  with assms(3) have s: "0 \<le> sz" "sz < 2 ^ 32" by auto
  then have i: "uint (word_of_int sz :: u32) = sz"
    by (simp add: unsigned_of_int take_bit_int_eq_self)
  then show "unat (word_of_int sz :: u32) = nat sz" by (metis nat_uint_eq)
  from i show "(word_of_int sz :: u32) = 0 \<longleftrightarrow> sz = 0" by auto
qed

lemma step_message:
  assumes ok: "phase_ok ph Ec cid sid nm S" and nm: "name_ok nm" and rd: "reads_ok Ec"
    and n: "n_sc S < length (messages_of S)" and x: "conns (sv S) sid = Some x"
    and run: "poll_cq Ec (client_callbacks Ec) (ok_wc cid WC_RECV 0) (message_store (msg x) (cl S)) = Run c'"
  shows "ft_inv Ec cid sid nm (S\<lparr>cl := c', n_sc := Suc (n_sc S)\<rparr>)"
proof -
  have ph: "ph \<in> {Mr_sent, Ready_sent, Done_sent}"
    using ok n by (auto simp: phase_ok_def shape_def split: if_splits)
  then have d: "phase_data ph Ec cid nm (cl S) (hist (sv S)) x (writes_of S ! n_cs S)"
    using ok x by (auto simp: phase_ok_def)
  obtain h1 s2 h2 where r: "same h1 (hist (cl S))"
    "c_on_completion Ec (ok_wc cid WC_RECV 0) ((message_store (msg x) (cl S))\<lparr>hist := h1\<rparr>) = Run s2"
    "same h2 (hist s2)" "c' = s2\<lparr>hist := h2\<rparr>"
    using run_poll_cq [OF run] by (auto simp: client_callbacks_def rc_init_def)
  let ?s1 = "(message_store (msg x) (cl S))\<lparr>hist := h1\<rparr>"
  have rv: "wc_is_recv (wc_opcode (ok_wc cid WC_RECV 0))" "wc_wr_id (ok_wc cid WC_RECV 0) = cid"
    by (simp_all add: ok_wc_def wc_is_recv_def)
  consider (mr) "ph = Mr_sent" | (ready) "ph = Ready_sent" | (fin) "ph = Done_sent" using ph by auto
  then show ?thesis
  proof cases
    case mr
    then have m: "msg x = \<lparr>msg_id = MSG_MR, mr_addr = mr_at (buffer_mr x), mr_rkey = rkey (buffer_mr x)\<rparr>"
      using d by (simp add: phase_data_def Let_def)
    then have "msg_id (c_msg (cctx ?s1)) = MSG_MR" by simp
    note c = client_on_MR [OF r(2) rv(1) this, unfolded rv]
    have "read_at (store_at b (nm @ [NUL])) (length nm + 1) = nm @ [NUL]" for b by simp
    then have "phase_ok Name_sent Ec cid sid nm (S\<lparr>cl := c', n_sc := Suc (n_sc S)\<rparr>)"
      using c d ok x mr r m
      by (auto simp: phase_ok_def shape_def phase_data_def Let_def same_def knows_def nth_append)
    then show ?thesis by (auto simp: ft_inv_def)
  next
    case ready
    then have "msg_id (c_msg (cctx ?s1)) = MSG_READY" using d by (simp add: phase_data_def Let_def)
    from client_on_READY [OF r(2) rv(1) this, unfolded rv] obtain h dd sz where
      c: "cctx s2 = (cctx ?s1)\<lparr>c_buffer := store_at (c_buffer (cctx ?s1)) dd\<rparr>"
        "length dd = nat sz" "sent_wrs (hist s2) = sent_wrs h1 @ [write_wr (cctx s2) cid (word_of_int sz)]"
        "recvs (hist s2) = recvs h1 + 1" "disconnects (hist s2) = disconnects h1"
        "reads_of Ec (c_fd (cctx (cl S))) (hist s2) = reads_of Ec (c_fd (cctx (cl S))) h1 @ dd"
        "sz = 0 \<Longrightarrow> at_eof (c_fd (cctx (cl S))) (hist s2)"
      and sz: "sz \<noteq> - 1" "sz = ret Ec h (Libc (Read (c_fd (cctx ?s1)) BUFFER_SIZE))"
      by auto
    note l = chunk_len [OF rd sz(2,1)]
    show ?thesis
    proof (cases "sz = 0")
      case True
      then have "phase_ok End_sent Ec cid sid nm (S\<lparr>cl := c', n_sc := Suc (n_sc S)\<rparr>)"
        using c d ok x ready r
        by (auto simp: phase_ok_def shape_def phase_data_def Let_def same_def knows_def nth_append)
      then show ?thesis by (auto simp: ft_inv_def)
    next
      case False
      have "0 < unat (word_of_int sz :: u32)" using l(2) False by (simp add: unat_gt_0)
      then have pos: "0 < nat sz" using l(1) by simp
      have "read_at (store_at b dd) (unat (word_of_int sz :: u32)) = dd" for b
        using c(2) l by simp
      then have "phase_ok Chunk_sent Ec cid sid nm (S\<lparr>cl := c', n_sc := Suc (n_sc S)\<rparr>)"
        using c d ok x ready r l False pos
        by (auto simp: phase_ok_def shape_def phase_data_def Let_def same_def knows_def nth_append
            intro!: exI [of _ "word_of_int sz"])
      then show ?thesis by (auto simp: ft_inv_def)
    qed
  next
    case fin
    then have "msg_id (c_msg (cctx ?s1)) = MSG_DONE" using d by (simp add: phase_data_def Let_def)
    note c = client_on_DONE [OF r(2) rv(1) this]
    have "phase_ok Left Ec cid sid nm (S\<lparr>cl := c', n_sc := Suc (n_sc S)\<rparr>)"
      using c d ok x fin r
      by (auto simp: phase_ok_def shape_def phase_data_def Let_def same_def)
    then show ?thesis by (auto simp: ft_inv_def)
  qed
qed

text \<open>Completions of sends change nothing.\<close>

lemma same_client:
  assumes "phase_ok ph Ec cid sid nm S" and "same h (hist (cl S))" and "c' = (cl S)\<lparr>hist := h\<rparr>"
  shows "phase_ok ph Ec cid sid nm (S\<lparr>cl := c'\<rparr>)"
  using assms by (cases ph) (auto simp: phase_ok_def shape_def phase_data_def Let_def same_def)

lemma same_server:
  assumes "phase_ok ph Ec cid sid nm S" and "same h (hist (sv S))" and "s' = (sv S)\<lparr>hist := h\<rparr>"
  shows "phase_ok ph Ec cid sid nm (S\<lparr>sv := s'\<rparr>)"
  using assms by (cases ph) (auto simp: phase_ok_def shape_def phase_data_def Let_def same_def named_def)

lemma shape_ends:
  assumes "shape ph S"
  shows "down S = (ph = Closed)" "(disconnects (hist (cl S)) = 0) = (ph \<notin> {Left, Closed})"
  using assms unfolding shape_def by blast+

lemma step_disconnected:
  assumes ok: "phase_ok ph Ec cid sid nm S" and "0 < disconnects (hist (cl S))" and "\<not> down S"
    and run: "on_event Es (server_callbacks Es) DISCONNECTED sid v (sv S) = Run s'"
  shows "phase_ok Closed Ec cid sid nm (S\<lparr>sv := s', down := True\<rparr>)"
proof -
  have "shape ph S" using ok by (simp add: phase_ok_def)
  then have ph: "ph = Left" using shape_ends [of ph S] assms(2,3) by auto
  obtain h1 s2 h2 where r: "same h1 (hist (sv S))" "on_disconnect Es sid ((sv S)\<lparr>hist := h1\<rparr>) = Run s2"
    "same h2 (hist s2)" "s' = s2\<lparr>hist := h2\<rparr>"
    using run_disconnected [OF run] by (auto simp: callback_def server_callbacks_def rc_init_def)
  have q: "same (hist s2) h1" using server_on_disconnect [OF r(2)] by simp
  have s: "same (hist s') (hist (sv S))"
    using same_trans [OF same_trans [OF r(3) q] r(1)] r(4) by simp
  obtain x where x: "named nm x (hist (sv S))"
    "file_content (fd x) (hist (sv S)) = reads_of Ec (c_fd (cctx (cl S))) (hist (cl S))"
    using ok unfolding ph phase_ok_def by (auto simp: phase_data_def)
  then have "opened_as (kept_name nm) (fd x) (hist s')"
    "file_content (fd x) (hist s') = reads_of Ec (c_fd (cctx (cl S))) (hist (cl S))"
    using s by (simp_all add: same_def named_def)
  moreover have "shape Closed (S\<lparr>sv := s', down := True\<rparr>)" "c_file_name (cctx (cl S)) = nm"
    using ok s unfolding ph by (simp_all add: phase_ok_def shape_def same_def)
  moreover have "at_eof (c_fd (cctx (cl S))) (hist (cl S))"
    "length (writes_of S) \<le> length (reads_of Ec (c_fd (cctx (cl S))) (hist (cl S))) + 2"
    using ok unfolding ph by (simp_all add: phase_ok_def Let_def)
  moreover have "conns s' sid = None" using server_on_disconnect [OF r(2)] r(4) by simp
  ultimately show ?thesis by (auto simp: phase_ok_def Let_def)
qed

theorem ft_inv_step:
  assumes "ft_step Ec Es cid sid S S'" and "ft_inv Ec cid sid nm S" and "name_ok nm" and "reads_ok Ec"
  shows "ft_inv Ec cid sid nm S'"
proof -
  obtain ph where ok: "phase_ok ph Ec cid sid nm S" using assms(2) by (auto simp: ft_inv_def)
  from assms(1) show ?thesis
  proof cases
    case (established v s')
    then show ?thesis using step_established [OF ok] by (auto simp: ft_inv_def)
  next
    case (write_arrives w x s')
    then show ?thesis using step_write [OF ok assms(3)] by auto
  next
    case (message_arrives x c')
    then show ?thesis using step_message [OF ok assms(3,4)] by auto
  next
    case (write_done c')
    obtain h1 s2 h2 where "same h1 (hist (cl S))"
      "c_on_completion Ec (ok_wc cid WC_RDMA_WRITE 0) ((cl S)\<lparr>hist := h1\<rparr>) = Run s2" "same h2 (hist s2)"
      "c' = s2\<lparr>hist := h2\<rparr>"
      using run_poll_cq [OF write_done(2)] by (auto simp: client_callbacks_def rc_init_def)
    then have "same h2 (hist (cl S)) \<and> c' = (cl S)\<lparr>hist := h2\<rparr>"
      by (auto simp: client_on_sent ok_wc_def wc_is_recv_def intro: same_trans)
    then show ?thesis using write_done(1) same_client [OF ok] by (auto simp: ft_inv_def)
  next
    case (message_done s')
    obtain h1 s2 h2 where "same h1 (hist (sv S))"
      "on_completion Es (ok_wc sid WC_SEND 0) ((sv S)\<lparr>hist := h1\<rparr>) = Run s2" "same h2 (hist s2)"
      "s' = s2\<lparr>hist := h2\<rparr>"
      using run_poll_cq [OF message_done(2)] by (auto simp: server_callbacks_def rc_init_def)
    then have "same h2 (hist (sv S)) \<and> s' = (sv S)\<lparr>hist := h2\<rparr>"
      by (auto simp: server_on_sent ok_wc_def intro: same_trans)
    then show ?thesis using message_done(1) same_server [OF ok] by (auto simp: ft_inv_def)
  next
    case (disconnected v s')
    then show ?thesis using step_disconnected [OF ok] by (auto simp: ft_inv_def)
  qed
qed

section \<open>The start\<close>

lemma seq_Run: "seq (c # cs) s = Run s' \<longleftrightarrow> (\<exists>t. c s = Run t \<and> seq cs t = Run s')"
  by (simp split: outcome.split)

text \<open>The client keeps its file, and its history shows nothing, while its regions are registered.\<close>

definition same_file :: "client \<Rightarrow> client \<Rightarrow> bool" where
  "same_file s s' \<longleftrightarrow> c_file_name (cctx s') = c_file_name (cctx s) \<and> c_fd (cctx s') = c_fd (cctx s)
    \<and> same (hist s') (hist s)"

lemma same_file_trans: "same_file s t \<Longrightarrow> same_file t u \<Longrightarrow> same_file s u"
  by (auto simp: same_file_def intro: same_trans)

lemma client_region:
  assumes "call E (Libc (Memalign a n)) (\<lambda>b. seq [upd_ctx (f b),
      look (\<lambda>s. reg_mr E (Reg_mr (g s) b n acc) (\<lambda>m. upd_ctx (k m)))]) s = Run s'"
    and "\<And>b x. c_file_name (f b x) = c_file_name x \<and> c_fd (f b x) = c_fd x"
    and "\<And>m x. c_file_name (k m x) = c_file_name x \<and> c_fd (k m x) = c_fd x"
  shows "same_file s s'"
  using assms
  by (auto simp: cmd_simps upd_ctx_def same_file_def quiet_call_def intro!: same_Cons split: if_splits)

lemma pre_conn_client:
  assumes "c_on_pre_conn E cid s = Run s'"
  shows "c_file_name (cctx s') = c_file_name (cctx s) \<and> c_fd (cctx s') = c_fd (cctx s)
    \<and> sent_wrs (hist s') = sent_wrs (hist s) \<and> recvs (hist s') = recvs (hist s) + 1
    \<and> disconnects (hist s') = disconnects (hist s) \<and> reads_of E f (hist s') = reads_of E f (hist s)"
proof -
  obtain s2 s3 where s2: "call E (Libc (Memalign 4096 BUFFER_SIZE)) (\<lambda>b. seq [
       upd_ctx (\<lambda>ctx. ctx\<lparr>c_buffer_ptr := b\<rparr>),
       look (\<lambda>s. reg_mr E (Reg_mr (rc_get_pd s) b BUFFER_SIZE {}) (\<lambda>m.
         upd_ctx (\<lambda>ctx. ctx\<lparr>c_buffer_mr := m\<rparr>)))]) s = Run s2"
    and s3: "call E (Libc (Memalign 4096 sizeof_message)) (\<lambda>b. seq [
         upd_ctx (\<lambda>ctx. ctx\<lparr>c_msg_ptr := b\<rparr>),
         look (\<lambda>s. reg_mr E (Reg_mr (rc_get_pd s) b sizeof_message {LOCAL_WRITE})
           (\<lambda>m. upd_ctx (\<lambda>ctx. ctx\<lparr>c_msg_mr := m\<rparr>)))]) s2 = Run s3"
    and s4: "c_post_receive E cid s3 = Run s'"
    using assms unfolding c_on_pre_conn_def seq_Run by auto
  have "same_file s s2" by (rule client_region [OF s2]) simp_all
  moreover have "same_file s2 s3" by (rule client_region [OF s3]) simp_all
  ultimately have "same_file s s3" by (rule same_file_trans)
  then show ?thesis using s4
    by (auto simp: same_file_def same_def c_post_receive_def cmd_simps split: if_splits)
qed

text \<open>The server's context keeps its empty file name while its regions are registered.\<close>

definition fresh :: "ptr \<Rightarrow> send_wr list \<Rightarrow> int \<Rightarrow> int \<Rightarrow> server \<Rightarrow> bool" where
  "fresh cid ws r f s \<longleftrightarrow> (\<exists>x. conns s cid = Some x \<and> unnamed x \<and> fd x = f) \<and> sent_wrs (hist s) = ws
     \<and> recvs (hist s) = r"

lemma fresh_region:
  assumes "call E (Libc (Memalign a n)) (\<lambda>b. seq [upd_conn cid (f b),
      look (\<lambda>s. reg_mr E (Reg_mr (g s) b n acc) (\<lambda>m. upd_conn cid (k m)))]) s = Run s'"
    and "fresh cid ws r j s" and "\<And>b x. file_name (f b x) = file_name x \<and> fd (f b x) = fd x"
    and "\<And>m x. file_name (k m x) = file_name x \<and> fd (k m x) = fd x"
  shows "fresh cid ws r j s'"
  using assms
  by (auto simp: cmd_simps upd_conn_def fresh_def unnamed_def ctx_at_def split: if_splits)

lemma pre_conn_server:
  assumes "on_pre_conn E cid s = Run s'"
  shows "fresh cid (sent_wrs (hist s)) (recvs (hist s) + 1)
    (attr_in E (hist s) (Libc (Malloc ''conn_context'')) ''fd'') s'"
proof -
  let ?c = "Libc (Malloc ''conn_context'')"
  let ?j = "junk_ctx E (hist s) (ret E (hist s) ?c)"
  let ?s1 = "s\<lparr>hist := (?c, ret E (hist s) ?c) # hist s, conns := (conns s)(cid \<mapsto> ?j)\<rparr>"
  let ?R = "fresh cid (sent_wrs (hist s)) (recvs (hist s)) (attr_in E (hist s) ?c ''fd'')"
  obtain s2 s3 s4 where s2: "upd_conn cid (\<lambda>ctx. ctx\<lparr>file_name := (file_name ctx)[0 := NUL]\<rparr>) ?s1 = Run s2"
    and s3: "call E (Libc (Memalign 4096 BUFFER_SIZE)) (\<lambda>b. seq [
         upd_conn cid (\<lambda>ctx. ctx\<lparr>buffer_ptr := b\<rparr>),
         look (\<lambda>s. reg_mr E (Reg_mr (rc_get_pd s) b BUFFER_SIZE {LOCAL_WRITE, REMOTE_WRITE}) (\<lambda>m.
           upd_conn cid (\<lambda>ctx. ctx\<lparr>buffer_mr := m\<rparr>)))]) s2 = Run s3"
    and s4: "call E (Libc (Memalign 4096 sizeof_message)) (\<lambda>b. seq [
         upd_conn cid (\<lambda>ctx. ctx\<lparr>msg_ptr := b\<rparr>),
         look (\<lambda>s. reg_mr E (Reg_mr (rc_get_pd s) b sizeof_message {}) (\<lambda>m.
           upd_conn cid (\<lambda>ctx. ctx\<lparr>msg_mr := m\<rparr>)))]) s3 = Run s4"
    and s5: "s_post_receive E cid s4 = Run s'"
    using assms unfolding on_pre_conn_def look_def call_def [of E ?c] Let_def seq_Run
    by (auto simp: assign_def)
  have l: "length (file_name ?j) = MAX_FILE_NAME"
    by (simp add: junk_ctx_def Let_def MAX_FILE_NAME_def)
  then have "(file_name ?j)[0 := NUL] ! 0 = NUL" by (simp add: MAX_FILE_NAME_def)
  moreover have "fd ?j = attr_in E (hist s) ?c ''fd''" by (simp add: junk_ctx_def Let_def)
  ultimately have "?R s2" using s2 l by (auto simp: upd_conn_def assign_def fresh_def unnamed_def ctx_at_def)
  with s3 have "?R s3" by (rule fresh_region) simp_all
  with s4 have "?R s4" by (rule fresh_region) simp_all
  with s5 show ?thesis by (auto simp: s_post_receive_def cmd_simps fresh_def split: if_splits)
qed

text \<open>
  Where a transfer starts: both sides have run their \<open>on_pre_conn\<close>, the client for the
  file name \<open>nm\<close>, neither has sent or received anything.
\<close>

definition ft_start :: "api_env \<Rightarrow> api_env \<Rightarrow> ptr \<Rightarrow> ptr \<Rightarrow> string \<Rightarrow> ft \<Rightarrow> bool" where
  "ft_start Ec Es cid sid nm S \<longleftrightarrow> \<not> up S \<and> \<not> down S \<and> n_cs S = 0 \<and> n_sc S = 0
     \<and> (\<exists>c s. c_on_pre_conn Ec cid c = Run (cl S) \<and> on_pre_conn Es sid s = Run (sv S)
          \<and> c_file_name (cctx c) = nm \<and> reads_of Ec (c_fd (cctx c)) (hist c) = []
          \<and> sent_wrs (hist c) = [] \<and> recvs (hist c) = 0 \<and> disconnects (hist c) = 0
          \<and> sent_wrs (hist s) = [] \<and> recvs (hist s) = 0)"

lemma ft_start_inv: "ft_start Ec Es cid sid nm S \<Longrightarrow> ft_inv Ec cid sid nm S"
proof -
  assume a: "ft_start Ec Es cid sid nm S"
  then obtain c s where c: "c_on_pre_conn Ec cid c = Run (cl S)" "c_file_name (cctx c) = nm"
      "reads_of Ec (c_fd (cctx c)) (hist c) = []" "sent_wrs (hist c) = []" "recvs (hist c) = 0"
      "disconnects (hist c) = 0"
    and s: "on_pre_conn Es sid s = Run (sv S)" "sent_wrs (hist s) = []" "recvs (hist s) = 0"
    by (auto simp: ft_start_def)
  have "phase_ok Idle Ec cid sid nm S"
    using a pre_conn_client [OF c(1)] pre_conn_server [OF s(1)] c s
    by (auto simp: fresh_def phase_ok_def shape_def phase_data_def Let_def ft_start_def)
  then show ?thesis by (auto simp: ft_inv_def)
qed

lemma ft_reach_inv:
  assumes "(ft_step Ec Es cid sid)\<^sup>*\<^sup>* S S'" and "ft_start Ec Es cid sid nm S" and "name_ok nm"
    and "reads_ok Ec"
  shows "ft_inv Ec cid sid nm S'"
  using assms(1)
proof (induction rule: rtranclp_induct)
  case base
  then show ?case using ft_start_inv [OF assms(2)] .
next
  case (step T T')
  then show ?case using ft_inv_step [OF _ _ assms(3,4)] by blast
qed

section \<open>Progress\<close>

text \<open>An environment in which nothing fails: the transfer is then never stuck.\<close>

definition kind :: "api_env \<Rightarrow> bool" where
  "kind E \<longleftrightarrow> (\<forall>h d. ret E h (Data d) = 0) \<and> (\<forall>h nm. ret E h (Libc (Open nm)) \<noteq> - 1)
     \<and> (\<forall>h f d. ret E h (Libc (Write f d)) = int (length d))
     \<and> (\<forall>h f n. ret E h (Libc (Read f n)) \<noteq> - 1)"

lemma kind_simps:
  "kind E \<Longrightarrow> ret E h (Data d) = 0" "kind E \<Longrightarrow> ret E h (Libc (Open nm)) \<noteq> - 1"
  "kind E \<Longrightarrow> ret E h (Libc (Write f dd)) = int (length dd)"
  "kind E \<Longrightarrow> ret E h (Libc (Read f n)) \<noteq> - 1"
  by (simp_all add: kind_def)

lemma poll_cq_runs:
  assumes "kind E" and "wc_status w = 0" and "\<And>s. running (s_on_completion_cb cb w s)"
  shows "\<exists>s'. poll_cq E cb w s = Run s'"
proof -
  have "\<exists>s'. s_on_completion_cb cb w s = Run s'" for s
    using assms(3) [of s] by (cases "s_on_completion_cb cb w s") auto
  then show ?thesis using assms(1,2)
    by (simp add: poll_cq_def on_wc_def cmd_simps kind_simps split: outcome.split) (metis outcome.distinct(1))
qed

lemma client_runs: "kind E \<Longrightarrow> running (c_on_completion E w s)"
  by (simp add: c_on_completion_def cmd_simps send_file_name_def send_next_chunk_def write_remote_def
      upd_ctx_def c_post_receive_def rc_die_def rc_disconnect_def kind_simps)

lemma server_runs: "kind E \<Longrightarrow> running (on_completion E w s)"
  by (simp add: on_completion_def cmd_simps recv_end_def recv_chunk_def recv_name_def set_msg_def
      upd_conn_def send_message_def s_post_receive_def rc_die_def kind_simps)

lemma server_polls:
  assumes "kind E"
  shows "\<exists>s'. poll_cq E (server_callbacks E) (ok_wc i op imm) s = Run s'"
  by (rule poll_cq_runs [OF assms])
    (simp_all add: ok_wc_def server_callbacks_def rc_init_def server_runs [OF assms])

lemma client_polls:
  assumes "kind E"
  shows "\<exists>s'. poll_cq E (client_callbacks E) (ok_wc i op imm) s = Run s'"
  by (rule poll_cq_runs [OF assms])
    (simp_all add: ok_wc_def client_callbacks_def rc_init_def client_runs [OF assms])

lemma established_runs: "kind E \<Longrightarrow> \<exists>s'. on_event E (server_callbacks E) ESTABLISHED sid v s = Run s'"
  by (simp add: on_event_def cmd_simps callback_def server_callbacks_def rc_init_def on_connection_def
      upd_conn_def send_message_def kind_simps)

lemma disconnected_runs: "\<exists>s'. on_event E (server_callbacks E) DISCONNECTED sid v s = Run s'"
  by (simp add: on_event_def cmd_simps callback_def server_callbacks_def rc_init_def on_disconnect_def)

text \<open>How far a transfer is: deliveries made, and the two events of the connection.\<close>

definition advance :: "ft \<Rightarrow> nat" where
  "advance S = n_cs S + n_sc S + (if up S then 1 else 0) + (if down S then 1 else 0)"

lemma ft_progress:
  assumes inv: "ft_inv Ec cid sid nm S" and "\<not> down S" and k: "kind Ec" "kind Es"
  shows "\<exists>S'. ft_step Ec Es cid sid S S' \<and> advance S' = Suc (advance S)"
proof -
  obtain ph where ok: "phase_ok ph Ec cid sid nm S" using inv by (auto simp: ft_inv_def)
  have sh: "shape ph S" and pc: "ph \<noteq> Closed" using ok assms(2) by (simp_all add: phase_ok_def shape_def)
  then obtain x where x: "conns (sv S) sid = Some x" "phase_data ph Ec cid nm (cl S) (hist (sv S)) x (writes_of S ! n_cs S)"
    using ok by (auto simp: phase_ok_def)
  consider (idle) "ph = Idle" | (cs) "ph \<in> {Name_sent, Chunk_sent, End_sent}"
    | (sc) "ph \<in> {Mr_sent, Ready_sent, Done_sent}" | (left) "ph = Left"
    using pc by (cases ph) auto
  then show ?thesis
  proof cases
    case idle
    then have "\<not> up S" using sh by (simp add: shape_def)
    moreover obtain s' where "on_event Es (server_callbacks Es) ESTABLISHED sid 0 (sv S) = Run s'"
      using established_runs [OF k(2)] by blast
    ultimately show ?thesis using ft_step.established [of S Es sid 0 s' Ec cid]
      by (intro exI [of _ "S\<lparr>sv := s', up := True\<rparr>"]) (simp add: advance_def)
  next
    case cs
    let ?w = "writes_of S ! n_cs S"
    have "\<exists>sz. ?w = write_wr (cctx (cl S)) cid sz" and "knows (cctx (cl S)) x"
      using cs x(2) by (auto simp: phase_data_def Let_def)
    then have t: "swr_remote_addr ?w = mr_at (buffer_mr x)" "swr_rkey ?w = rkey (buffer_mr x)"
      by (auto simp: write_wr_def knows_def)
    have n: "n_cs S < length (writes_of S)" "int (n_cs S) < recvs (hist (sv S))"
      using sh cs by (auto simp: shape_def)
    obtain s' where "poll_cq Es (server_callbacks Es) (ok_wc sid WC_RECV_RDMA_WITH_IMM (swr_imm ?w))
       (rdma_store sid (read_at (c_buffer (cctx (cl S))) (bytes_sent ?w)) (sv S)) = Run s'"
      using server_polls [OF k(2)] by blast
    from write_arrives [OF n(1) refl n(2) x(1) t this, of Ec] show ?thesis
      by (intro exI [of _ "S\<lparr>sv := s', n_cs := Suc (n_cs S)\<rparr>"]) (simp add: advance_def)
  next
    case sc
    have n: "n_sc S < length (messages_of S)" "int (n_sc S) < recvs (hist (cl S))"
      using sh sc by (auto simp: shape_def)
    obtain c' where "poll_cq Ec (client_callbacks Ec) (ok_wc cid WC_RECV 0) (message_store (msg x) (cl S)) = Run c'"
      using client_polls [OF k(1)] by blast
    from message_arrives [OF n x(1) this, of Es] show ?thesis
      by (intro exI [of _ "S\<lparr>cl := c', n_sc := Suc (n_sc S)\<rparr>"]) (simp add: advance_def)
  next
    case left
    then have "0 < disconnects (hist (cl S))" using sh by (simp add: shape_def)
    moreover obtain s' where "on_event Es (server_callbacks Es) DISCONNECTED sid 0 (sv S) = Run s'"
      using disconnected_runs by blast
    ultimately show ?thesis using ft_step.disconnected [of S Es sid 0 s' Ec cid] assms(2)
      by (intro exI [of _ "S\<lparr>sv := s', down := True\<rparr>"]) (simp add: advance_def)
  qed
qed

lemma ft_bound:
  assumes "ft_inv Ec cid sid nm S"
  shows "n_cs S \<le> length (reads_of Ec (c_fd (cctx (cl S))) (hist (cl S))) + 2" "n_sc S \<le> n_cs S + 1"
proof -
  obtain ph where ok: "phase_ok ph Ec cid sid nm S" using assms by (auto simp: ft_inv_def)
  then have sh: "shape ph S" by (simp add: phase_ok_def)
  have "n_cs S \<le> length (writes_of S)" "n_sc S \<le> length (messages_of S)"
    "length (messages_of S) \<le> n_cs S + 1"
    using sh by (auto simp: shape_def)
  moreover have "length (writes_of S) \<le> length (reads_of Ec (c_fd (cctx (cl S))) (hist (cl S))) + 2"
    using ok by (auto simp: phase_ok_def Let_def split: if_splits)
  ultimately show "n_cs S \<le> length (reads_of Ec (c_fd (cctx (cl S))) (hist (cl S))) + 2"
    and "n_sc S \<le> n_cs S + 1" by linarith+
qed

text \<open>If the client's file is finite, every transfer can be completed.\<close>

lemma ft_can_finish:
  assumes inv: "ft_inv Ec cid sid nm S" and nm: "name_ok nm" and rd: "reads_ok Ec"
    and k: "kind Ec" "kind Es" and fin: "\<And>h f. length (reads_of Ec f h) \<le> N"
  shows "\<exists>S'. (ft_step Ec Es cid sid)\<^sup>*\<^sup>* S S' \<and> down S'"
  using inv
proof (induction "2 * N + 8 - advance S" arbitrary: S rule: less_induct)
  case less
  show ?case
  proof (cases "down S")
    case True
    then show ?thesis by blast
  next
    case False
    obtain T where T: "ft_step Ec Es cid sid S T" "advance T = Suc (advance S)"
      using ft_progress [OF less.prems False k] by blast
    have i: "ft_inv Ec cid sid nm T" by (rule ft_inv_step [OF T(1) less.prems nm rd])
    have "n_cs T \<le> N + 2" "n_sc T \<le> N + 3"
      using ft_bound [OF i] fin [of "c_fd (cctx (cl T))" "hist (cl T)"] by linarith+
    then have "advance T < 2 * N + 8" by (simp add: advance_def)
    then have "2 * N + 8 - advance T < 2 * N + 8 - advance S" using T(2) by linarith
    from less.hyps [OF this i] T(1) show ?thesis by (meson converse_rtranclp_into_rtranclp)
  qed
qed

lemma down_disconnected: "ft_inv Ec cid sid nm S \<Longrightarrow> down S \<Longrightarrow> 0 < disconnects (hist (cl S))"
  by (auto simp: ft_inv_def phase_ok_def shape_def)

section \<open>A concrete transfer\<close>

text \<open>Libraries that succeed, an empty file, and the two processes after \<open>on_pre_conn\<close>.\<close>

definition demo_net :: api_env where
  "demo_net = const_env (\<lambda>c. case c of
      Data d \<Rightarrow> 0
    | Libc l \<Rightarrow> (case l of Read f n \<Rightarrow> 0 | Write f d \<Rightarrow> int (length d) | _ \<Rightarrow> 1)
    | _ \<Rightarrow> 1) (\<lambda>c. [])"

definition demo_client :: client where
  "demo_client = \<lparr>hist = [], s_ctx = None, cctx = new_client ''a.txt'' 3\<rparr>"

definition demo_server :: server where
  "demo_server = \<lparr>hist = [], s_ctx = None, conns = Map.empty\<rparr>"

definition demo_ft :: ft where
  "demo_ft = \<lparr>cl = final (c_on_pre_conn demo_net 1 demo_client),
     sv = final (on_pre_conn demo_net 1 demo_server), n_cs = 0, n_sc = 0, up = False, down = False\<rparr>"

lemma demo_net_ok: "kind demo_net" "reads_ok demo_net" "reads_of demo_net f h = []"
proof -
  show "kind demo_net" "reads_ok demo_net"
    by (simp_all add: kind_def reads_ok_def demo_net_def const_env_def)
  show "reads_of demo_net f h = []"
    by (induction h) (auto simp: bytes_of_def demo_net_def const_env_def split: api.splits libc_call.splits)
qed

lemma demo_pre_conn: "running (c_on_pre_conn demo_net cid s)" "running (on_pre_conn demo_net cid s')"
proof -
  have r: "runs (reg_mr demo_net (Reg_mr p b n a) k)"
    if "\<And>m. runs (k m)" for p b n a and k :: "mr \<Rightarrow> 'x process_scheme cmd"
    using that by (simp add: runs_def cmd_simps demo_net_def const_env_def)
  have d: "runs (TEST_NZ demo_net x (Data c) :: 'x process_scheme cmd)" for x c
    by (simp add: runs_def cmd_simps demo_net_def const_env_def)
  have "runs (c_on_pre_conn demo_net cid)"
    unfolding c_on_pre_conn_def upd_ctx_def c_post_receive_def
    by (auto intro!: runs_intro r d)
  then show "running (c_on_pre_conn demo_net cid s)" by (simp add: runs_def)
  have "runs (on_pre_conn demo_net cid)"
    unfolding on_pre_conn_def upd_conn_def s_post_receive_def
    by (auto intro!: runs_intro r d)
  then show "running (on_pre_conn demo_net cid s')" by (simp add: runs_def)
qed

lemma demo_start: "ft_start demo_net demo_net 1 1 ''a.txt'' demo_ft"
  unfolding ft_start_def
  using demo_pre_conn [THEN running_final] demo_net_ok(3)
  by (auto simp: demo_ft_def demo_client_def demo_server_def new_client_def
      intro!: exI [of _ demo_client] exI [of _ demo_server])

lemma demo_name: "name_ok ''a.txt''"
  by (simp add: name_ok_def NUL_def)

section \<open>Properties\<close>

text \<open>
  C9: At every moment of a transfer, what the server has written to the file is a prefix of what the
  client has read from its own: nothing is lost, reordered, duplicated or taken from another
  place in the buffers, whatever the sizes of the chunks and whenever the adapters deliver.  The file
  is the one the server opened under the client's file name, cut to 255 characters; before the name
  has arrived the client has read nothing.
\<close>

theorem file_is_prefix:
  assumes "(ft_step Ec Es cid sid)\<^sup>*\<^sup>* S S'" and "ft_start Ec Es cid sid nm S" and "name_ok nm"
    and "reads_ok Ec" and "conns (sv S') sid = Some x"
  shows "(file_name x ! 0 = NUL \<and> reads_of Ec (c_fd (cctx (cl S'))) (hist (cl S')) = [])
    \<or> (opened_as (take 255 nm) (fd x) (hist (sv S')) \<and> (\<exists>rest. reads_of Ec (c_fd (cctx (cl S')))
         (hist (cl S')) = file_content (fd x) (hist (sv S')) @ rest))"
proof -
  obtain ph where ok: "phase_ok ph Ec cid sid nm S'"
    using ft_reach_inv [OF assms(1-4)] by (auto simp: ft_inv_def)
  have k: "kept_name nm = take 255 nm" by (simp add: kept_name_def MAX_FILE_NAME_def)
  from ok assms(5) show ?thesis unfolding k [symmetric]
    by (cases ph) (auto simp: phase_ok_def phase_data_def Let_def named_def unnamed_def)
qed

theorem file_is_prefix_witness:
  "\<exists>x. conns (sv demo_ft) 1 = Some x \<and> ((file_name x ! 0 = NUL
     \<and> reads_of demo_net (c_fd (cctx (cl demo_ft))) (hist (cl demo_ft)) = [])
    \<or> (opened_as ''a.txt'' (fd x) (hist (sv demo_ft)) \<and> (\<exists>rest. reads_of demo_net
        (c_fd (cctx (cl demo_ft))) (hist (cl demo_ft)) = file_content (fd x) (hist (sv demo_ft)) @ rest)))"
proof -
  obtain x where x: "conns (sv demo_ft) 1 = Some x"
    using pre_conn_server [OF running_final [OF demo_pre_conn(2), of 1 demo_server]]
    by (auto simp: demo_ft_def fresh_def)
  from file_is_prefix [OF rtranclp.rtrancl_refl demo_start demo_name demo_net_ok(2) x] x
  show ?thesis by (simp del: ex_simps)
qed

text \<open>
  C8: When the client has asked to disconnect, and so also when the server has closed the
  connection, the transfer is complete: the client's last \<open>read\<close> met the end of the file, and
  the server's file, opened under the client's file name cut to 255 characters, holds all the
  client has read.
\<close>

theorem file_is_complete:
  assumes "(ft_step Ec Es cid sid)\<^sup>*\<^sup>* S S'" and "ft_start Ec Es cid sid nm S" and "name_ok nm"
    and "reads_ok Ec" and "0 < disconnects (hist (cl S'))"
  shows "at_eof (c_fd (cctx (cl S'))) (hist (cl S'))
    \<and> (\<exists>f. opened_as (take 255 nm) f (hist (sv S'))
        \<and> file_content f (hist (sv S')) = reads_of Ec (c_fd (cctx (cl S'))) (hist (cl S')))"
proof -
  obtain ph where ok: "phase_ok ph Ec cid sid nm S'"
    using ft_reach_inv [OF assms(1-4)] by (auto simp: ft_inv_def)
  have k: "kept_name nm = take 255 nm" by (simp add: kept_name_def MAX_FILE_NAME_def)
  have "ph \<in> {Left, Closed}" using ok assms(5) by (auto simp: phase_ok_def shape_def)
  with ok show ?thesis unfolding k [symmetric]
    by (auto simp: phase_ok_def phase_data_def Let_def named_def)
qed

theorem file_is_complete_witness:
  "\<exists>S'. (ft_step demo_net demo_net 1 1)\<^sup>*\<^sup>* demo_ft S' \<and> down S'
     \<and> at_eof (c_fd (cctx (cl S'))) (hist (cl S')) \<and> (\<exists>f. opened_as ''a.txt'' f (hist (sv S')))"
proof -
  note i = ft_start_inv [OF demo_start]
  obtain S' where S': "(ft_step demo_net demo_net 1 1)\<^sup>*\<^sup>* demo_ft S'" "down S'"
    using ft_can_finish [OF i demo_name demo_net_ok(2,1,1), of 0] demo_net_ok(3) by auto
  have "0 < disconnects (hist (cl S'))"
    using ft_reach_inv [OF S'(1) demo_start demo_name demo_net_ok(2)] S'(2) by (rule down_disconnected)
  from file_is_complete [OF S'(1) demo_start demo_name demo_net_ok(2) this] S' show ?thesis by auto
qed

text \<open>
  C10: A transfer is never stuck: as long as the server has not closed the connection, and
  if the libraries' calls succeed, a delivery or an event of the connection is possible that takes it
  further; the deliveries are bounded by what is read: at most one write for every byte, the
  name and the end, and one message more.  So the transfer of a finite file can always be completed.
\<close>

theorem transfer_advances:
  assumes "(ft_step Ec Es cid sid)\<^sup>*\<^sup>* S S'" and "ft_start Ec Es cid sid nm S" and "name_ok nm"
    and "reads_ok Ec" and "kind Ec" and "kind Es" and "\<And>h f. length (reads_of Ec f h) \<le> N"
  shows "(down S' \<or> (\<exists>T. ft_step Ec Es cid sid S' T \<and> advance T = Suc (advance S')))
    \<and> n_cs S' \<le> N + 2 \<and> n_sc S' \<le> N + 3 \<and> (\<exists>T. (ft_step Ec Es cid sid)\<^sup>*\<^sup>* S' T \<and> down T)"
proof -
  note i = ft_reach_inv [OF assms(1-4)]
  have "n_cs S' \<le> N + 2" "n_sc S' \<le> N + 3"
    using ft_bound [OF i] assms(7) [of "c_fd (cctx (cl S'))" "hist (cl S')"] by linarith+
  then show ?thesis
    using ft_progress [OF i _ assms(5,6)] ft_can_finish [OF i assms(3-7)] by blast
qed

theorem transfer_advances_witness:
  "\<exists>T. ft_step demo_net demo_net 1 1 demo_ft T \<and> advance T = Suc (advance demo_ft)"
proof -
  have "length (reads_of demo_net f h) \<le> 0" for f h using demo_net_ok(3) by simp
  moreover have "\<not> down demo_ft" by (simp add: demo_ft_def)
  ultimately show ?thesis
    using transfer_advances [OF rtranclp.rtrancl_refl demo_start demo_name demo_net_ok(2,1,1), of 0]
    by blast
qed

text \<open>
  A client that disconnects before its file name has arrived makes the server close a descriptor
  it never opened: \<open>on_disconnect\<close> passes \<open>close\<close> the value the field \<open>fd\<close> had in
  the memory \<open>malloc\<close> returned.
\<close>

theorem early_disconnect_closes_junk:
  assumes "on_pre_conn E cid s = Run s1" and "on_disconnect E cid s1 = Run s2"
  shows "\<exists>r. (Libc (Close (attr_in E (hist s) (Libc (Malloc ''conn_context'')) ''fd'')), r) \<in> set (hist s2)"
proof -
  obtain x where "conns s1 cid = Some x" "fd x = attr_in E (hist s) (Libc (Malloc ''conn_context'')) ''fd''"
    using pre_conn_server [OF assms(1)] by (auto simp: fresh_def)
  then have "fd (ctx_at s1 cid) = attr_in E (hist s) (Libc (Malloc ''conn_context'')) ''fd''"
    by (simp add: ctx_at_def)
  with assms(2) show ?thesis by (auto simp: on_disconnect_def cmd_simps)
qed

theorem early_disconnect_closes_junk_witness:
  "\<exists>r. (Libc (Close 1), r) \<in>
     set (hist (final (on_disconnect demo_net 7 (final (on_pre_conn demo_net 7 demo_server)))))"
proof -
  have "runs (on_disconnect demo_net 7)"
    unfolding on_disconnect_def Let_def by (auto intro!: runs_intro)
  then have "on_disconnect demo_net 7 s = Run (final (on_disconnect demo_net 7 s))" for s
    by (intro running_final) (simp add: runs_def)
  from early_disconnect_closes_junk [OF running_final [OF demo_pre_conn(2)] this] show ?thesis
    by (simp add: demo_net_def const_env_def)
qed

end
