(* ===== verification/RwCommon.thy ===== *)
theory RwCommon
  imports FileCommon
begin

text \<open>
  rdma-common.c of the read-write example (02_read-write): the connection with its two message
  buffers and its two regions, and the handler of completions, a state machine over
  \<open>send_state\<close> and \<open>recv_state\<close>.  A process is the record of theory FileCommon extended with the
  statics of this file and the connections it has allocated.  \<open>send_message\<close> waits for
  \<open>connected\<close> in a busy loop: functions that may reach the loop are \<open>acts\<close>, commands that can
  stop at it and be resumed.
\<close>

section \<open>Busy waiting\<close>

text \<open>
  A thread that has stopped at \<open>while (!cond);\<close> in the state it has left: the condition it waits
  for, and what it does next in whatever state it then finds.
\<close>

datatype 's act = Fin "'s outcome" | Spin "'s \<Rightarrow> bool" "'s \<Rightarrow> 's act" 's

type_synonym 's acts = "'s \<Rightarrow> 's act"

definition once :: "'s cmd \<Rightarrow> 's acts" where
  "once c s = Fin (c s)"

primrec then_do :: "'s act \<Rightarrow> 's acts \<Rightarrow> 's act" where
  "then_do (Fin r) k = (case r of Run s \<Rightarrow> k s | Exit m s \<Rightarrow> Fin (Exit m s))"
| "then_do (Spin p c s) k = Spin p (\<lambda>t. then_do (c t) k) s"

definition and_then :: "'s acts \<Rightarrow> 's acts \<Rightarrow> 's acts" where
  "and_then a b s = then_do (a s) b"

definition spin_until :: "('s \<Rightarrow> bool) \<Rightarrow> 's acts" where
  "spin_until p s = (if p s then Fin (Run s) else Spin p (once skip) s)"

text \<open>A thread that nobody else can release never gets past the loop.\<close>

fun settle :: "'s act \<Rightarrow> 's outcome" where
  "settle (Fin r) = r"
| "settle (Spin p c s) = Exit ''while (!conn->connected)'' s"

lemmas acts_simps = once_def and_then_def spin_until_def

section \<open>State\<close>

datatype mode = M_WRITE | M_READ

datatype msg_type = MSG_MR | MSG_DONE

text \<open>\<open>struct message\<close>: the region's description is the contents of a \<open>struct ibv_mr\<close>.\<close>

record rw_message =
  msg_type :: msg_type
  data_mr :: mr

definition mr_contents :: "mr \<Rightarrow> mr" where
  "mr_contents m = m\<lparr>mr_self := 0\<rparr>"

definition RDMA_BUFFER_SIZE :: nat where
  "RDMA_BUFFER_SIZE = 1024"

definition sizeof_rw_message :: int where
  "sizeof_rw_message = 56"

definition SS_INIT :: u32 where "SS_INIT = 0"
definition SS_MR_SENT :: u32 where "SS_MR_SENT = 1"
definition SS_RDMA_SENT :: u32 where "SS_RDMA_SENT = 2"
definition SS_DONE_SENT :: u32 where "SS_DONE_SENT = 3"

definition RS_INIT :: u32 where "RS_INIT = 0"
definition RS_MR_RECV :: u32 where "RS_MR_RECV = 1"
definition RS_DONE_RECV :: u32 where "RS_DONE_RECV = 2"

lemmas state_defs = SS_INIT_def SS_MR_SENT_def SS_RDMA_SENT_def SS_DONE_SENT_def
  RS_INIT_def RS_MR_RECV_def RS_DONE_RECV_def

text \<open>
  \<open>struct connection\<close>, with what its message pointers and regions point to.  The queue pair of an
  identifier is named by the identifier.  The two states are enumerations the code increments.
\<close>

record connection =
  conn_id :: ptr
  conn_qp :: ptr
  connected :: int
  recv_mr :: mr
  send_mr :: mr
  rdma_local_mr :: mr
  rdma_remote_mr :: mr
  peer_mr :: mr
  recv_msg_ptr :: ptr
  recv_msg :: rw_message
  send_msg_ptr :: ptr
  send_msg :: rw_message
  rdma_local_ptr :: ptr
  rdma_local_region :: buffer
  rdma_remote_ptr :: ptr
  rdma_remote_region :: buffer
  send_state :: u32
  recv_state :: u32

text \<open>
  The connections live on the heap, \<open>id->context\<close> points to them.  \<open>remote_printed\<close> is what the
  last branch of \<open>on_completion\<close> has printed of the peer's message, newest first.
\<close>

record rw_process = process +
  s_mode :: mode
  id_context :: "ptr \<Rightarrow> ptr"
  conns :: "ptr \<rightharpoonup> connection"
  remote_printed :: "string list"

text \<open>Memory fresh from \<open>malloc\<close> holds what the environment likes.\<close>

definition fresh_region :: "api_env \<Rightarrow> trace \<Rightarrow> string \<Rightarrow> buffer" where
  "fresh_region E h what = store_at (\<lambda>i. NUL) (data_in E h (Libc (Malloc what)))"

definition junk_mr :: "(string \<Rightarrow> int) \<Rightarrow> mr" where
  "junk_mr a = \<lparr>mr_self = 0, lkey = a ''lkey'', rkey = a ''rkey'', mr_at = a ''addr''\<rparr>"

definition junk_connection :: "api_env \<Rightarrow> trace \<Rightarrow> connection" where
  "junk_connection E h = (let m = junk_mr (attr_in E h (Libc (Malloc ''connection'')));
      w = \<lparr>msg_type = MSG_DONE, data_mr = m\<rparr> in
     \<lparr>conn_id = 0, conn_qp = 0, connected = 0, recv_mr = m, send_mr = m, rdma_local_mr = m,
      rdma_remote_mr = m, peer_mr = m, recv_msg_ptr = 0, recv_msg = w, send_msg_ptr = 0,
      send_msg = w, rdma_local_ptr = 0, rdma_local_region = (\<lambda>i. NUL), rdma_remote_ptr = 0,
      rdma_remote_region = (\<lambda>i. NUL), send_state = 0, recv_state = 0\<rparr>)"

text \<open>\<open>*conn\<close> and an assignment to fields of it; freed connections are not in \<open>conns\<close>.\<close>

definition conn_at :: "rw_process \<Rightarrow> ptr \<Rightarrow> connection" where
  "conn_at s p = (case conns s p of Some c \<Rightarrow> c
     | None \<Rightarrow> junk_connection (const_env (\<lambda>c. 0) (\<lambda>c. [])) [])"

definition rw_upd_conn :: "ptr \<Rightarrow> (connection \<Rightarrow> connection) \<Rightarrow> rw_process cmd" where
  "rw_upd_conn p f = assign (\<lambda>s. s\<lparr>conns := (conns s)(p \<mapsto> f (conn_at s p))\<rparr>)"

lemma conn_at_simps [simp]:
  "conn_at (s\<lparr>conns := (conns s)(p \<mapsto> c)\<rparr>) p = c"
  "conn_at (s\<lparr>hist := h\<rparr>) p = conn_at s p"
  "conn_at (s\<lparr>remote_printed := l\<rparr>) p = conn_at s p"
  by (simp_all add: conn_at_def)

lemma conn_at_Some: "conns s p = Some c \<Longrightarrow> conn_at s p = c"
  by (simp add: conn_at_def)

section \<open>Building a connection\<close>

definition rw_build_context :: "api_env \<Rightarrow> ptr \<Rightarrow> rw_process cmd" where
  "rw_build_context E verbs = look (\<lambda>s. case s_ctx s of
      Some c \<Rightarrow> if_cmd (ctx_verbs c \<noteq> verbs)
                  (die ''cannot handle events in more than one context.'') skip
    | None \<Rightarrow>
        call E (Libc (Malloc ''context'')) (\<lambda>_.
        TEST_Z E ''ibv_alloc_pd'' (Ibv (Alloc_pd verbs)) (\<lambda>p.
        TEST_Z E ''ibv_create_comp_channel'' (Ibv (Create_comp_channel verbs)) (\<lambda>ch.
        TEST_Z E ''ibv_create_cq'' (Ibv (Create_cq verbs 10 ch)) (\<lambda>q. seq [
          assign (\<lambda>s. s\<lparr>s_ctx := Some \<lparr>ctx_verbs = verbs, ctx_pd = p, ctx_cq = q, ctx_channel = ch\<rparr>\<rparr>),
          TEST_NZ E ''ibv_req_notify_cq'' (Data (Req_notify_cq q)),
          TEST_NZ E ''pthread_create'' (Libc (Pthread_create ''poll_cq''))])))))"

definition rw_build_params :: conn_param where
  "rw_build_params = zero_conn_param\<lparr>initiator_depth := 1, responder_resources := 1,
     rnr_retry_count := 7\<rparr>"

definition rw_build_qp_attr :: "rw_process \<Rightarrow> qp_init" where
  "rw_build_qp_attr s = (let q = ctx_cq (the_ctx s) in
     zero_qp_init\<lparr>send_cq := q, recv_cq := q, qi_type := QPT_RC, max_send_wr := 10,
       max_recv_wr := 10, max_send_sge := 1, max_recv_sge := 1\<rparr>)"

text \<open>\<open>malloc\<close> of a block with what it holds, and the registration of a block.\<close>

definition malloc_to ::
    "api_env \<Rightarrow> string \<Rightarrow> ptr \<Rightarrow> (ptr \<Rightarrow> buffer \<Rightarrow> connection \<Rightarrow> connection) \<Rightarrow> rw_process cmd" where
  "malloc_to E what p f = look (\<lambda>s. call E (Libc (Malloc what)) (\<lambda>a.
     rw_upd_conn p (f a (fresh_region E (hist s) what))))"

definition register_to ::
    "api_env \<Rightarrow> ptr \<Rightarrow> (connection \<Rightarrow> ptr) \<Rightarrow> int \<Rightarrow> access set \<Rightarrow> (mr \<Rightarrow> connection \<Rightarrow> connection)
      \<Rightarrow> rw_process cmd" where
  "register_to E p block len acc f = look (\<lambda>s.
     reg_mr E (Reg_mr (ctx_pd (the_ctx s)) (block (conn_at s p)) len acc) (\<lambda>m. rw_upd_conn p (f m)))"

definition register_memory :: "api_env \<Rightarrow> ptr \<Rightarrow> rw_process cmd" where
  "register_memory E p = look (\<lambda>s. seq [
     malloc_to E ''send_msg'' p (\<lambda>a _ c. c\<lparr>send_msg_ptr := a\<rparr>),
     malloc_to E ''recv_msg'' p (\<lambda>a _ c. c\<lparr>recv_msg_ptr := a\<rparr>),
     malloc_to E ''rdma_local_region'' p
       (\<lambda>a b c. c\<lparr>rdma_local_ptr := a, rdma_local_region := b\<rparr>),
     malloc_to E ''rdma_remote_region'' p
       (\<lambda>a b c. c\<lparr>rdma_remote_ptr := a, rdma_remote_region := b\<rparr>),
     register_to E p send_msg_ptr sizeof_rw_message {} (\<lambda>m c. c\<lparr>send_mr := m\<rparr>),
     register_to E p recv_msg_ptr sizeof_rw_message {LOCAL_WRITE} (\<lambda>m c. c\<lparr>recv_mr := m\<rparr>),
     register_to E p rdma_local_ptr (int RDMA_BUFFER_SIZE)
       (if s_mode s = M_WRITE then {} else {LOCAL_WRITE}) (\<lambda>m c. c\<lparr>rdma_local_mr := m\<rparr>),
     register_to E p rdma_remote_ptr (int RDMA_BUFFER_SIZE)
       (if s_mode s = M_WRITE then {LOCAL_WRITE, REMOTE_WRITE} else {REMOTE_READ})
       (\<lambda>m c. c\<lparr>rdma_remote_mr := m\<rparr>)])"

definition rw_recv_wr :: "connection \<Rightarrow> ptr \<Rightarrow> recv_wr" where
  "rw_recv_wr c p = \<lparr>rwr_id = p, rwr_sges = [\<lparr>sg_addr = recv_msg_ptr c,
     sg_length = sizeof_rw_message, sg_lkey = lkey (recv_mr c)\<rparr>]\<rparr>"

definition post_receives :: "api_env \<Rightarrow> ptr \<Rightarrow> rw_process cmd" where
  "post_receives E p = look (\<lambda>s. let c = conn_at s p in
     TEST_NZ E ''ibv_post_recv'' (Data (Post_recv (conn_qp c) [rw_recv_wr c p])))"

definition rw_build_connection :: "api_env \<Rightarrow> ptr \<Rightarrow> ptr \<Rightarrow> rw_process cmd" where
  "rw_build_connection E cid verbs = seq [
     rw_build_context E verbs,
     look (\<lambda>s. TEST_NZ E ''rdma_create_qp''
       (Cm (Rdma_create_qp cid (ctx_pd (the_ctx s)) (rw_build_qp_attr s)))),
     look (\<lambda>s. call E (Libc (Malloc ''connection'')) (\<lambda>p. seq [
       assign (\<lambda>t. t\<lparr>id_context := (id_context t)(cid := p),
         conns := (conns t)(p \<mapsto> junk_connection E (hist s))\<rparr>),
       rw_upd_conn p (\<lambda>c. c\<lparr>conn_id := cid, conn_qp := cid, send_state := SS_INIT,
         recv_state := RS_INIT, connected := 0\<rparr>),
       register_memory E p,
       post_receives E p]))]"

definition destroy_connection :: "api_env \<Rightarrow> ptr \<Rightarrow> rw_process cmd" where
  "destroy_connection E p = look (\<lambda>s. let c = conn_at s p in seq [
     run_call E (Cm (Rdma_destroy_qp (conn_id c))),
     run_call E (Ibv (Dereg_mr (mr_self (send_mr c)))),
     run_call E (Ibv (Dereg_mr (mr_self (recv_mr c)))),
     run_call E (Ibv (Dereg_mr (mr_self (rdma_local_mr c)))),
     run_call E (Ibv (Dereg_mr (mr_self (rdma_remote_mr c)))),
     run_call E (Libc (Free (send_msg_ptr c))),
     run_call E (Libc (Free (recv_msg_ptr c))),
     run_call E (Libc (Free (rdma_local_ptr c))),
     run_call E (Libc (Free (rdma_remote_ptr c))),
     run_call E (Cm (Destroy_id (conn_id c))),
     run_call E (Libc (Free p)),
     assign (\<lambda>s. s\<lparr>conns := (conns s)(p := None)\<rparr>)])"

text \<open>
  The region a side's own message is in, and the one the peer's message ends up in: with
  \<open>M_WRITE\<close> each side writes its local region to the peer, with \<open>M_READ\<close> it reads the peer's
  remote region into its local one.
\<close>

definition set_local_message :: "mode \<Rightarrow> string \<Rightarrow> connection \<Rightarrow> connection" where
  "set_local_message m d c =
    (if m = M_WRITE then c\<lparr>rdma_local_region := store_at (rdma_local_region c) (d @ [NUL])\<rparr>
     else c\<lparr>rdma_remote_region := store_at (rdma_remote_region c) (d @ [NUL])\<rparr>)"

definition get_local_message_region :: "mode \<Rightarrow> connection \<Rightarrow> buffer" where
  "get_local_message_region m c = (if m = M_WRITE then rdma_local_region c else rdma_remote_region c)"

definition get_peer_message_region :: "mode \<Rightarrow> connection \<Rightarrow> buffer" where
  "get_peer_message_region m c = (if m = M_WRITE then rdma_remote_region c else rdma_local_region c)"

section \<open>Messages\<close>

definition rw_message_wr :: "connection \<Rightarrow> ptr \<Rightarrow> send_wr" where
  "rw_message_wr c p = \<lparr>swr_id = p, swr_opcode = WR_SEND,
     swr_sges = [\<lparr>sg_addr = send_msg_ptr c, sg_length = sizeof_rw_message,
                  sg_lkey = lkey (send_mr c)\<rparr>],
     swr_signaled = True, swr_imm = 0, swr_remote_addr = 0, swr_rkey = 0, swr_ah = 0,
     swr_remote_qpn = 0, swr_remote_qkey = 0,
     swr_remote_srqn = 0, swr_dct_key = 0, swr_dct_number = 0\<rparr>"

definition is_connected :: "ptr \<Rightarrow> rw_process \<Rightarrow> bool" where
  "is_connected p s \<longleftrightarrow> connected (conn_at s p) \<noteq> 0"

definition post_message :: "api_env \<Rightarrow> ptr \<Rightarrow> rw_process cmd" where
  "post_message E p = look (\<lambda>s. let c = conn_at s p in
     TEST_NZ E ''ibv_post_send'' (Data (Post_send (conn_qp c) [rw_message_wr c p])))"

definition rw_send_message :: "api_env \<Rightarrow> ptr \<Rightarrow> rw_process acts" where
  "rw_send_message E p = and_then (spin_until (is_connected p)) (once (post_message E p))"

definition send_mr_msg :: "api_env \<Rightarrow> ptr \<Rightarrow> rw_process acts" where
  "send_mr_msg E p = and_then
     (once (rw_upd_conn p (\<lambda>c. c\<lparr>send_msg := \<lparr>msg_type = MSG_MR,
        data_mr = mr_contents (rdma_remote_mr c)\<rparr>\<rparr>)))
     (rw_send_message E p)"

definition on_connect :: "ptr \<Rightarrow> rw_process cmd" where
  "on_connect p = rw_upd_conn p (\<lambda>c. c\<lparr>connected := 1\<rparr>)"

definition set_mode :: "mode \<Rightarrow> rw_process cmd" where
  "set_mode m = assign (\<lambda>s. s\<lparr>s_mode := m\<rparr>)"

section \<open>Completions\<close>

definition rdma_wr :: "mode \<Rightarrow> connection \<Rightarrow> ptr \<Rightarrow> send_wr" where
  "rdma_wr m c p = \<lparr>swr_id = p,
     swr_opcode = (if m = M_WRITE then WR_RDMA_WRITE else WR_RDMA_READ),
     swr_sges = [\<lparr>sg_addr = rdma_local_ptr c, sg_length = int RDMA_BUFFER_SIZE,
                  sg_lkey = lkey (rdma_local_mr c)\<rparr>],
     swr_signaled = True, swr_imm = 0, swr_remote_addr = mr_at (peer_mr c),
     swr_rkey = rkey (peer_mr c), swr_ah = 0,
     swr_remote_qpn = 0, swr_remote_qkey = 0,
     swr_remote_srqn = 0, swr_dct_key = 0, swr_dct_number = 0\<rparr>"

text \<open>A completed receive; only \<open>MSG_MR\<close> posts the receive for the next message.\<close>

definition on_recv :: "api_env \<Rightarrow> ptr \<Rightarrow> rw_process acts" where
  "on_recv E p = and_then
     (once (rw_upd_conn p (\<lambda>c. c\<lparr>recv_state := recv_state c + 1\<rparr>)))
     (\<lambda>s. if msg_type (recv_msg (conn_at s p)) = MSG_MR
          then and_then
            (once (seq [rw_upd_conn p (\<lambda>c. c\<lparr>peer_mr := data_mr (recv_msg c)\<rparr>), post_receives E p]))
            (\<lambda>s. if send_state (conn_at s p) = SS_INIT then send_mr_msg E p s else Fin (Run s)) s
          else Fin (Run s))"

definition on_sent :: "ptr \<Rightarrow> rw_process acts" where
  "on_sent p = once (rw_upd_conn p (\<lambda>c. c\<lparr>send_state := send_state c + 1\<rparr>))"

definition start_rdma :: "api_env \<Rightarrow> ptr \<Rightarrow> rw_process acts" where
  "start_rdma E p = and_then
     (once (look (\<lambda>s. let c = conn_at s p in seq [
        TEST_NZ E ''ibv_post_send'' (Data (Post_send (conn_qp c) [rdma_wr (s_mode s) c p])),
        rw_upd_conn p (\<lambda>c. c\<lparr>send_msg := (send_msg c)\<lparr>msg_type := MSG_DONE\<rparr>\<rparr>)])))
     (rw_send_message E p)"

definition finish :: "api_env \<Rightarrow> ptr \<Rightarrow> rw_process cmd" where
  "finish E p = look (\<lambda>s. let c = conn_at s p in seq [
     assign (\<lambda>s. s\<lparr>remote_printed :=
       cstr (read_at (get_peer_message_region (s_mode s) c) RDMA_BUFFER_SIZE) # remote_printed s\<rparr>),
     run_call E (Cm (Disconnect (conn_id c)))])"

definition rw_advance :: "api_env \<Rightarrow> ptr \<Rightarrow> rw_process acts" where
  "rw_advance E p s = (let c = conn_at s p in
     if send_state c = SS_MR_SENT \<and> recv_state c = RS_MR_RECV then start_rdma E p s
     else if send_state c = SS_DONE_SENT \<and> recv_state c = RS_DONE_RECV then once (finish E p) s
     else Fin (Run s))"

definition rw_on_completion :: "api_env \<Rightarrow> wc \<Rightarrow> rw_process acts" where
  "rw_on_completion E w = (let p = wc_wr_id w in
     and_then (once (if_cmd (wc_status w \<noteq> 0)
                 (die ''on_completion: status is not IBV_WC_SUCCESS.'') skip))
    (and_then (if wc_is_recv (wc_opcode w) then on_recv E p else on_sent p)
     (rw_advance E p)))"

text \<open>The poller, for the event of one completion.\<close>

definition rw_poll_cq :: "api_env \<Rightarrow> wc \<Rightarrow> rw_process acts" where
  "rw_poll_cq E w s = (let c = the_ctx s in
     and_then (once (seq [
       TEST_NZ E ''ibv_get_cq_event'' (Data (Get_cq_event (ctx_channel c))),
       run_call E (Data (Ack_cq_events (ctx_cq c) 1)),
       TEST_NZ E ''ibv_req_notify_cq'' (Data (Req_notify_cq (ctx_cq c))),
       run_call E (Data (Poll_cq (ctx_cq c) 1))]))
    (and_then (rw_on_completion E w)
     (once (run_call E (Data (Poll_cq (ctx_cq c) 1))))) s)"

end
