(* ===== verification/RwMain.thy ===== *)
theory RwMain
  imports RwCommon
begin

text \<open>
  rdma-client.c and rdma-server.c of the read-write example: the event handlers of the two
  programs, the two threads of a process and the two \<open>main\<close> functions.
\<close>

section \<open>The two threads\<close>

text \<open>
  A process with the completions its poller has not taken yet and, when the poller has stopped at
  a busy loop, the condition it waits for and the rest of its handler.
\<close>

record rw_side =
  prc :: rw_process
  cqes :: "wc list"
  waits :: "((rw_process \<Rightarrow> bool) \<times> rw_process acts) option"

definition after_turn :: "rw_process act \<Rightarrow> wc list \<Rightarrow> rw_side outcome" where
  "after_turn a q = (case a of
      Fin (Run s) \<Rightarrow> Run \<lparr>prc = s, cqes = q, waits = None\<rparr>
    | Fin (Exit m s) \<Rightarrow> Exit m \<lparr>prc = s, cqes = q, waits = None\<rparr>
    | Spin p k s \<Rightarrow> Run \<lparr>prc = s, cqes = q, waits = Some (p, k)\<rparr>)"

text \<open>One turn of the poller: the next completion, or another look at the loop's condition.\<close>

definition run_poller :: "api_env \<Rightarrow> rw_side \<Rightarrow> rw_side outcome" where
  "run_poller E sd = (case waits sd of
      None \<Rightarrow> (case cqes sd of [] \<Rightarrow> Run sd | w # q \<Rightarrow> after_turn (rw_poll_cq E w (prc sd)) q)
    | Some (p, k) \<Rightarrow> if p (prc sd) then after_turn (k (prc sd)) (cqes sd) else Run sd)"

definition run_main :: "rw_process cmd \<Rightarrow> rw_side \<Rightarrow> rw_side outcome" where
  "run_main c sd = (case c (prc sd) of
      Run s \<Rightarrow> Run (sd\<lparr>prc := s\<rparr>) | Exit m s \<Rightarrow> Exit m (sd\<lparr>prc := s\<rparr>))"

text \<open>
  What happens to a process, in order: an event of the connection manager, a completion (the
  adapter stores what it received and queues it), a turn of the poller.
\<close>

datatype rw_input = Event cm_event ptr ptr | Cqe "rw_process \<Rightarrow> rw_process" wc | Poller

type_synonym rw_handler = "cm_event \<Rightarrow> ptr \<Rightarrow> ptr \<Rightarrow> rw_process cmd"

text \<open>The loop over the events; the client's \<open>on_event\<close> returns 1 for a disconnect.\<close>

fun rw_loop :: "api_env \<Rightarrow> rw_handler \<Rightarrow> bool \<Rightarrow> rw_input list \<Rightarrow> rw_side \<Rightarrow> rw_side outcome" where
  "rw_loop E handler exits [] sd = Run sd"
| "rw_loop E handler exits (Event ev cid verbs # ins) sd =
    (case run_main (seq [run_call E (Cm Ack_cm_event), handler ev cid verbs]) sd of
       Exit m sd' \<Rightarrow> Exit m sd'
     | Run sd' \<Rightarrow> if exits \<and> ev = DISCONNECTED then Run sd' else rw_loop E handler exits ins sd')"
| "rw_loop E handler exits (Cqe mem w # ins) sd =
    rw_loop E handler exits ins (sd\<lparr>prc := mem (prc sd), cqes := cqes sd @ [w]\<rparr>)"
| "rw_loop E handler exits (Poller # ins) sd =
    (case run_poller E sd of
       Exit m sd' \<Rightarrow> Exit m sd' | Run sd' \<Rightarrow> rw_loop E handler exits ins sd')"

definition run_loop ::
    "api_env \<Rightarrow> rw_handler \<Rightarrow> bool \<Rightarrow> rw_input list \<Rightarrow> rw_process cmd" where
  "run_loop E handler exits ins s =
    (case rw_loop E handler exits ins \<lparr>prc = s, cqes = [], waits = None\<rparr> of
       Run sd \<Rightarrow> Run (prc sd) | Exit m sd \<Rightarrow> Exit m (prc sd))"

section \<open>rdma-client.c\<close>

text \<open>\<open>sprintf(get_local_message_region(id->context), ...)\<close> with the process identifier.\<close>

definition write_message :: "api_env \<Rightarrow> ptr \<Rightarrow> string \<Rightarrow> rw_process cmd" where
  "write_message E cid what = look (\<lambda>s. call E (Libc Getpid) (\<lambda>pid.
     rw_upd_conn (id_context s cid) (set_local_message (s_mode s) (what @ print_d pid))))"

definition on_addr_resolved :: "api_env \<Rightarrow> ptr \<Rightarrow> ptr \<Rightarrow> rw_process cmd" where
  "on_addr_resolved E cid verbs = seq [
     rw_build_connection E cid verbs,
     write_message E cid ''message from active/client side with pid '',
     TEST_NZ E ''rdma_resolve_route'' (Cm (Resolve_route cid TIMEOUT_IN_MS))]"

definition on_route_resolved :: "api_env \<Rightarrow> ptr \<Rightarrow> rw_process cmd" where
  "on_route_resolved E cid = TEST_NZ E ''rdma_connect'' (Cm (Connect cid rw_build_params))"

definition client_on_connection :: "api_env \<Rightarrow> ptr \<Rightarrow> rw_process cmd" where
  "client_on_connection E cid s = settle
     (and_then (once (on_connect (id_context s cid))) (send_mr_msg E (id_context s cid)) s)"

definition client_on_disconnect :: "api_env \<Rightarrow> ptr \<Rightarrow> rw_process cmd" where
  "client_on_disconnect E cid = look (\<lambda>s. destroy_connection E (id_context s cid))"

definition client_on_event :: "api_env \<Rightarrow> rw_handler" where
  "client_on_event E ev cid verbs = (case ev of
      ADDR_RESOLVED \<Rightarrow> on_addr_resolved E cid verbs
    | ROUTE_RESOLVED \<Rightarrow> on_route_resolved E cid
    | ESTABLISHED \<Rightarrow> client_on_connection E cid
    | DISCONNECTED \<Rightarrow> client_on_disconnect E cid
    | _ \<Rightarrow> die ''on_event: unknown event.'')"

text \<open>The first argument of both programs.\<close>

definition parse_mode :: "string \<Rightarrow> rw_process cmd" where
  "parse_mode arg = (if arg = ''write'' then set_mode M_WRITE
     else if arg = ''read'' then set_mode M_READ else die ''usage'')"

definition rw_client_main :: "api_env \<Rightarrow> string list \<Rightarrow> rw_input list \<Rightarrow> rw_process cmd" where
  "rw_client_main E argv ins =
    (if length argv \<noteq> 4 then die ''usage''
     else seq [
       parse_mode (argv ! 1),
       TEST_NZ E ''getaddrinfo'' (Libc (Getaddrinfo_service (argv ! 2) (argv ! 3))),
       TEST_Z E ''rdma_create_event_channel'' (Cm Create_event_channel) (\<lambda>ec.
       create_id E ec (\<lambda>conn. seq [
         TEST_NZ E ''rdma_resolve_addr'' (Cm (Resolve_addr conn TIMEOUT_IN_MS)),
         run_call E (Libc Freeaddrinfo),
         run_loop E (client_on_event E) True ins,
         run_call E (Cm (Destroy_event_channel ec))]))])"

section \<open>rdma-server.c\<close>

definition on_connect_request :: "api_env \<Rightarrow> ptr \<Rightarrow> ptr \<Rightarrow> rw_process cmd" where
  "on_connect_request E cid verbs = seq [
     rw_build_connection E cid verbs,
     write_message E cid ''message from passive/server side with pid '',
     TEST_NZ E ''rdma_accept'' (Cm (Accept cid rw_build_params))]"

definition server_on_connection :: "ptr \<Rightarrow> rw_process cmd" where
  "server_on_connection cid = look (\<lambda>s. on_connect (id_context s cid))"

definition server_on_disconnect :: "api_env \<Rightarrow> ptr \<Rightarrow> rw_process cmd" where
  "server_on_disconnect E cid = look (\<lambda>s. destroy_connection E (id_context s cid))"

definition server_on_event :: "api_env \<Rightarrow> rw_handler" where
  "server_on_event E ev cid verbs = (case ev of
      CONNECT_REQUEST \<Rightarrow> on_connect_request E cid verbs
    | ESTABLISHED \<Rightarrow> server_on_connection cid
    | DISCONNECTED \<Rightarrow> server_on_disconnect E cid
    | _ \<Rightarrow> die ''on_event: unknown event.'')"

text \<open>\<open>try_port\<close> is 16 bits wide; the port that was bound is only printed.\<close>

definition rw_server_main :: "api_env \<Rightarrow> string list \<Rightarrow> rw_input list \<Rightarrow> rw_process cmd" where
  "rw_server_main E argv ins =
    (if length argv \<noteq> 3 then die ''usage''
     else seq [
       parse_mode (argv ! 1),
       TEST_Z E ''rdma_create_event_channel'' (Cm Create_event_channel) (\<lambda>ec.
       create_id E ec (\<lambda>listener. seq [
         TEST_NZ E ''rdma_bind_addr'' (Cm (Bind_addr listener (atoi (argv ! 2) mod 2 ^ 16))),
         TEST_NZ E ''rdma_listen'' (Cm (Listen listener 10)),
         run_call E (Cm (Get_src_port listener)),
         run_loop E (server_on_event E) False ins,
         run_call E (Cm (Destroy_id listener)),
         run_call E (Cm (Destroy_event_channel ec))]))])"

end
