(* ===== verification/RwSystem.thy ===== *)
theory RwSystem
  imports RwMain
begin

text \<open>
  The read-write example as a whole: a client and a server, the reliable connection between their
  queue pairs and the completions their adapters report.  Each side sends the description of its
  region, writes to (or reads from) the peer's region and says that it is done.  The theory shows
  that the two state machines meet, what happens when an acknowledgement is overtaken by the peer's
  answer, and what a disconnect leaves behind.
\<close>

section \<open>The connection\<close>

datatype who = Client | Server

fun other :: "who \<Rightarrow> who" where
  "other Client = Server"
| "other Server = Client"

lemma other_simps [simp]: "other (other a) = a" "other a \<noteq> a" "a \<noteq> other a"
  by (cases a; simp)+

lemma neq_other: "b \<noteq> a \<longleftrightarrow> b = other a"
  by (cases a; cases b) simp_all

text \<open>
  The parameters: the environment of each process, its identifier and its \<open>struct connection\<close>, and
  whether acknowledgements are prompt: a request is executed at a side only when the completions of
  that side's own executed requests have been reported.
\<close>

record link =
  env :: "who \<Rightarrow> api_env"
  id_of :: "who \<Rightarrow> ptr"
  conn_of :: "who \<Rightarrow> ptr"
  prompt :: bool

text \<open>
  How many of the requests a side has posted are executed and how many of those are acknowledged
  (their completions reported); whether its \<open>ESTABLISHED\<close> and \<open>DISCONNECTED\<close> events were handled.
\<close>

record rw_sys =
  side :: "who \<Rightarrow> rw_side"
  executed :: "who \<Rightarrow> nat"
  acked :: "who \<Rightarrow> nat"
  up :: "who \<Rightarrow> bool"
  down :: "who \<Rightarrow> bool"

abbreviation proc_of :: "rw_sys \<Rightarrow> who \<Rightarrow> rw_process" where
  "proc_of S a \<equiv> prc (side S a)"

abbreviation posted :: "rw_sys \<Rightarrow> who \<Rightarrow> send_wr list" where
  "posted S a \<equiv> sent_wrs (hist (proc_of S a))"

definition messages :: "send_wr list \<Rightarrow> nat" where
  "messages ws = length (filter (\<lambda>w. swr_opcode w = WR_SEND) ws)"

definition rw_wc :: "ptr \<Rightarrow> wc_opcode \<Rightarrow> wc" where
  "rw_wc p op = \<lparr>wc_wr_id = p, wc_status = 0, wc_opcode = op, wc_imm = 0, wc_qp_num = 0\<rparr>"

definition op_of :: "send_wr \<Rightarrow> wc_opcode" where
  "op_of w = (if swr_opcode w = WR_RDMA_WRITE then WC_RDMA_WRITE
     else if swr_opcode w = WR_RDMA_READ then WC_RDMA_READ else WC_SEND)"

text \<open>The adapter's stores.\<close>

definition store_conn :: "ptr \<Rightarrow> (connection \<Rightarrow> connection) \<Rightarrow> rw_side \<Rightarrow> rw_side" where
  "store_conn p f sd = (let s = prc sd in
     sd\<lparr>prc := s\<lparr>conns := (conns s)(p \<mapsto> f (conn_at s p))\<rparr>\<rparr>)"

definition queue_wc :: "wc \<Rightarrow> rw_side \<Rightarrow> rw_side" where
  "queue_wc w sd = sd\<lparr>cqes := cqes sd @ [w]\<rparr>"

definition copy_region :: "buffer \<Rightarrow> buffer \<Rightarrow> buffer" where
  "copy_region src dst = (\<lambda>i. if i < RDMA_BUFFER_SIZE then src i else dst i)"

definition set_side :: "who \<Rightarrow> rw_side \<Rightarrow> rw_sys \<Rightarrow> rw_sys" where
  "set_side a sd S = S\<lparr>side := (side S)(a := sd)\<rparr>"

definition handler :: "who \<Rightarrow> api_env \<Rightarrow> rw_handler" where
  "handler a = (case a of Client \<Rightarrow> client_on_event | Server \<Rightarrow> server_on_event)"

definition on_main :: "link \<Rightarrow> who \<Rightarrow> cm_event \<Rightarrow> rw_sys \<Rightarrow> rw_sys option" where
  "on_main L a ev S =
    (case run_main (seq [run_call (env L a) (Cm Ack_cm_event), handler a (env L a) ev (id_of L a) 0])
            (side S a) of
       Run sd \<Rightarrow> Some (set_side a sd S) | Exit m sd \<Rightarrow> None)"

text \<open>
  The next request of a side is executed at the peer: a message needs a posted receive, an RDMA
  request has to name the peer's registered region.
\<close>

definition execute :: "link \<Rightarrow> who \<Rightarrow> rw_sys \<Rightarrow> rw_sys option" where
  "execute L a S = (let b = other a; n = executed S a; w = posted S a ! n; p = conn_of L b;
      S' = S\<lparr>executed := (executed S)(a := Suc n)\<rparr> in
    if n < length (posted S a) \<and> (prompt L \<longrightarrow> acked S b = executed S b) then
      (case (conns (proc_of S a) (conn_of L a), conns (proc_of S b) p) of
         (Some ca, Some cb) \<Rightarrow>
           if swr_opcode w = WR_SEND then
             if int (messages (take n (posted S a))) < recvs (hist (proc_of S b))
             then Some (set_side b (queue_wc (rw_wc p WC_RECV)
                    (store_conn p (\<lambda>c. c\<lparr>recv_msg := send_msg ca\<rparr>) (side S b))) S')
             else None
           else if swr_remote_addr w = mr_at (rdma_remote_mr cb) \<and> swr_rkey w = rkey (rdma_remote_mr cb)
           then Some (if swr_opcode w = WR_RDMA_WRITE
             then set_side b (store_conn p (\<lambda>c. c\<lparr>rdma_remote_region :=
                    copy_region (rdma_local_region ca) (rdma_remote_region c)\<rparr>) (side S b)) S'
             else set_side a (store_conn (conn_of L a) (\<lambda>c. c\<lparr>rdma_local_region :=
                    copy_region (rdma_remote_region cb) (rdma_local_region c)\<rparr>) (side S a)) S')
           else None
       | _ \<Rightarrow> None)
    else None)"

datatype move = Establish who | Execute who | Acknowledge who | Poll who | Drop who

text \<open>The state after a move, if it can be made and no process exits in it.\<close>

fun do_move :: "link \<Rightarrow> move \<Rightarrow> rw_sys \<Rightarrow> rw_sys option" where
  "do_move L (Establish a) S = (if up S a then None
     else map_option (\<lambda>S. S\<lparr>up := (up S)(a := True)\<rparr>) (on_main L a ESTABLISHED S))"
| "do_move L (Execute a) S = execute L a S"
| "do_move L (Acknowledge a) S = (let n = acked S a in
     if n < executed S a
     then Some (set_side a (queue_wc (rw_wc (conn_of L a) (op_of (posted S a ! n))) (side S a))
            (S\<lparr>acked := (acked S)(a := Suc n)\<rparr>))
     else None)"
| "do_move L (Poll a) S = (let sd = side S a in
     if (case waits sd of None \<Rightarrow> cqes sd \<noteq> [] | Some (p, k) \<Rightarrow> p (prc sd))
     then (case run_poller (env L a) sd of Run sd' \<Rightarrow> Some (set_side a sd' S) | Exit m sd' \<Rightarrow> None)
     else None)"
| "do_move L (Drop a) S =
    (if (\<exists>b \<in> {Client, Server}. 0 < disconnects (hist (proc_of S b))) \<and> \<not> down S a
     then map_option (\<lambda>S. S\<lparr>down := (down S)(a := True)\<rparr>) (on_main L a DISCONNECTED S)
     else None)"

inductive rw_step :: "link \<Rightarrow> rw_sys \<Rightarrow> rw_sys \<Rightarrow> bool" for L where
  move: "do_move L mv S = Some S' \<Longrightarrow> rw_step L S S'"

fun do_moves :: "link \<Rightarrow> move list \<Rightarrow> rw_sys \<Rightarrow> rw_sys option" where
  "do_moves L [] S = Some S"
| "do_moves L (mv # mvs) S = (case do_move L mv S of None \<Rightarrow> None | Some S' \<Rightarrow> do_moves L mvs S')"

lemma do_moves_steps: "do_moves L mvs S = Some S' \<Longrightarrow> (rw_step L)\<^sup>*\<^sup>* S S'"
proof (induction mvs arbitrary: S)
  case (Cons mv mvs)
  then obtain S1 where "do_move L mv S = Some S1" "do_moves L mvs S1 = Some S'"
    by (auto split: option.splits)
  then show ?case using Cons.IH by (meson converse_rtranclp_into_rtranclp rw_step.move)
qed simp

section \<open>What a side has done\<close>

text \<open>
  The requests of a side, in order, and how many of them it has posted when it has counted \<open>ss\<close>
  completed sends and \<open>rs\<close> completed receives (\<open>u\<close>: its connection is established, \<open>w\<close>: its
  poller waits for that).
\<close>

definition script :: "mode \<Rightarrow> connection \<Rightarrow> ptr \<Rightarrow> send_wr list" where
  "script m c p = [rw_message_wr c p, rdma_wr m c p, rw_message_wr c p]"

definition n_posted :: "who \<Rightarrow> bool \<Rightarrow> bool \<Rightarrow> nat \<Rightarrow> nat \<Rightarrow> nat" where
  "n_posted a u w ss rs = (if 1 \<le> ss \<and> 1 \<le> rs then 3
     else if (case a of Client \<Rightarrow> u | Server \<Rightarrow> 1 \<le> rs \<and> \<not> w) then 1 else 0)"

definition mr_message :: "mr \<Rightarrow> rw_message" where
  "mr_message r = \<lparr>msg_type = MSG_MR, data_mr = mr_contents r\<rparr>"

text \<open>What the server's poller does once it is past the loop.\<close>

definition resume :: "api_env \<Rightarrow> ptr \<Rightarrow> ptr \<Rightarrow> rw_process acts" where
  "resume E p q = and_then (once (post_message E p))
     (and_then (rw_advance E p) (once (run_call E (Data (Poll_cq q 1)))))"

definition conn_ok ::
    "mode \<Rightarrow> (who \<Rightarrow> mr) \<Rightarrow> (who \<Rightarrow> string) \<Rightarrow> who \<Rightarrow> bool \<Rightarrow> nat \<Rightarrow> nat \<Rightarrow> nat \<Rightarrow> connection \<Rightarrow> bool" where
  "conn_ok m R text a u k ss rs c \<longleftrightarrow>
     send_state c = of_nat ss \<and> recv_state c = of_nat rs \<and> (connected c \<noteq> 0) = u
     \<and> rdma_remote_mr c = R a
     \<and> (1 \<le> rs \<longrightarrow> peer_mr c = mr_contents (R (other a)))
     \<and> (k = 3 \<longrightarrow> msg_type (send_msg c) = MSG_DONE)
     \<and> (k = 1 \<longrightarrow> send_msg c = mr_message (R a))
     \<and> cstr (read_at (get_local_message_region m c) RDMA_BUFFER_SIZE) = text a"

definition waiting_ok :: "link \<Rightarrow> who \<Rightarrow> rw_side \<Rightarrow> nat \<Rightarrow> nat \<Rightarrow> connection \<Rightarrow> mr \<Rightarrow> bool" where
  "waiting_ok L a sd ss rs c r \<longleftrightarrow> (case waits sd of None \<Rightarrow> True
     | Some (q, k) \<Rightarrow> a = Server \<and> ss = 0 \<and> rs = 1 \<and> send_msg c = mr_message r
         \<and> q = is_connected (conn_of L a) \<and> (\<exists>h. k = resume (env L a) (conn_of L a) h))"

text \<open>Both states at their last value: the side has printed the peer's message and disconnected.\<close>

definition over :: "nat \<Rightarrow> nat \<Rightarrow> bool" where
  "over ss rs \<longleftrightarrow> ss = 3 \<and> rs = 2"

definition hist_ok ::
    "mode \<Rightarrow> (who \<Rightarrow> string) \<Rightarrow> link \<Rightarrow> who \<Rightarrow> nat \<Rightarrow> nat \<Rightarrow> nat \<Rightarrow> connection \<Rightarrow> rw_process \<Rightarrow> bool" where
  "hist_ok m text L a k ss rs c s \<longleftrightarrow>
     sent_wrs (hist s) = take k (script m c (conn_of L a))
     \<and> recvs (hist s) = (if rs = 0 then 1 else 2)
     \<and> disconnects (hist s) = (if over ss rs then 1 else 0)
     \<and> remote_printed s = (if over ss rs then [text (other a)] else [])"

definition side_ok ::
    "link \<Rightarrow> mode \<Rightarrow> (who \<Rightarrow> mr) \<Rightarrow> (who \<Rightarrow> string) \<Rightarrow> who \<Rightarrow> bool \<Rightarrow> rw_side \<Rightarrow> nat \<Rightarrow> nat
      \<Rightarrow> connection \<Rightarrow> bool" where
  "side_ok L m R text a u sd ss rs c \<longleftrightarrow>
    (let s = prc sd; k = n_posted a u (waits sd \<noteq> None) ss rs in
     conns s (conn_of L a) = Some c \<and> id_context s (id_of L a) = conn_of L a \<and> s_mode s = m
     \<and> ss \<le> 3 \<and> rs \<le> 2 \<and> (k \<noteq> 0 \<longrightarrow> u)
     \<and> conn_ok m R text a u k ss rs c \<and> waiting_ok L a sd ss rs c (R a)
     \<and> hist_ok m text L a k ss rs c s)"

lemma and_then_eta: "and_then f g = (\<lambda>s. then_do (f s) g)"
  by (rule ext) (simp add: and_then_def)

lemma then_do_assoc: "then_do (then_do a f) g = then_do a (\<lambda>s. then_do (f s) g)"
  by (induction a) (auto split: outcome.splits)

lemmas side_defs = side_ok_def conn_ok_def waiting_ok_def hist_ok_def Let_def

lemmas handler_defs = rw_send_message_def post_message_def acts_simps cmd_simps rw_upd_conn_def Let_def

lemma wc_simps [simp]:
  "wc_wr_id (rw_wc p op) = p" "wc_status (rw_wc p op) = 0" "wc_opcode (rw_wc p op) = op"
  by (simp_all add: rw_wc_def)

text \<open>
  The effect of a handler on one connection: what the connection becomes, the requests and receives
  it posts, its disconnects and what it prints.
\<close>

definition effect ::
    "ptr \<Rightarrow> rw_process \<Rightarrow> connection \<Rightarrow> send_wr list \<Rightarrow> int \<Rightarrow> nat \<Rightarrow> string list \<Rightarrow> rw_process \<Rightarrow> bool" where
  "effect p s c ws n d pr s' \<longleftrightarrow> conns s' p = Some c \<and> id_context s' = id_context s
     \<and> s_mode s' = s_mode s \<and> sent_wrs (hist s') = sent_wrs (hist s) @ ws
     \<and> recvs (hist s') = recvs (hist s) + n \<and> disconnects (hist s') = disconnects (hist s) + d
     \<and> remote_printed s' = pr @ remote_printed s"

lemma effect_trans:
  "effect p s c ws n d pr s1 \<Longrightarrow> effect p s1 c' ws' n' d' pr' s2 \<Longrightarrow>
   effect p s c' (ws @ ws') (n + n') (d + d') (pr' @ pr) s2"
  by (simp add: effect_def)

text \<open>What \<open>advance\<close> does in the connection \<open>c\<close>.\<close>

definition rdma_now :: "connection \<Rightarrow> bool" where
  "rdma_now c \<longleftrightarrow> send_state c = SS_MR_SENT \<and> recv_state c = RS_MR_RECV"

definition done_now :: "connection \<Rightarrow> bool" where
  "done_now c \<longleftrightarrow> send_state c = SS_DONE_SENT \<and> recv_state c = RS_DONE_RECV"

definition said_done :: "connection \<Rightarrow> connection" where
  "said_done c = c\<lparr>send_msg := (send_msg c)\<lparr>msg_type := MSG_DONE\<rparr>\<rparr>"

definition advanced :: "ptr \<Rightarrow> rw_process \<Rightarrow> connection \<Rightarrow> send_wr list \<Rightarrow> int \<Rightarrow> rw_process \<Rightarrow> bool" where
  "advanced p s c ws n s' \<longleftrightarrow>
     effect p s (if rdma_now c then said_done c else c)
       (ws @ (if rdma_now c then [rdma_wr (s_mode s) c p, rw_message_wr c p] else [])) n
       (if done_now c then 1 else 0)
       (if done_now c then [cstr (read_at (get_peer_message_region (s_mode s) c) RDMA_BUFFER_SIZE)] else [])
       s'"

lemma now_exclusive: "rdma_now c \<Longrightarrow> \<not> done_now c"
  by (simp add: rdma_now_def done_now_def state_defs)

lemma message_wr_said_done [simp]: "rw_message_wr (said_done c) p = rw_message_wr c p"
  by (simp add: rw_message_wr_def said_done_def)

lemma advance_effect:
  assumes "conns s p = Some c" and "rdma_now c \<Longrightarrow> connected c \<noteq> 0"
  shows "case rw_advance E p s of Fin (Run s') \<Rightarrow> advanced p s c [] 0 s'
    | Fin (Exit m s') \<Rightarrow> True | Spin q k s' \<Rightarrow> False"
proof -
  consider "rdma_now c" | "done_now c" "\<not> rdma_now c" | "\<not> rdma_now c" "\<not> done_now c" by blast
  then show ?thesis
  proof cases
    case 1
    then show ?thesis
      using assms now_exclusive [OF 1] unfolding rw_advance_def
      by (auto simp: conn_at_def rdma_now_def start_rdma_def handler_defs advanced_def effect_def
          is_connected_def said_done_def rw_message_wr_def)
  next
    case 2
    then show ?thesis
      using assms unfolding rw_advance_def
      by (auto simp: conn_at_def rdma_now_def done_now_def finish_def handler_defs advanced_def effect_def)
  next
    case 3
    then show ?thesis
      using assms unfolding rw_advance_def
      by (auto simp: conn_at_def rdma_now_def done_now_def handler_defs advanced_def effect_def)
  qed
qed

text \<open>A turn ends in a state with the given property, unless the process exits or stops at the loop.\<close>

definition ends :: "(rw_process \<Rightarrow> bool) \<Rightarrow> rw_process act \<Rightarrow> bool" where
  "ends Q a \<longleftrightarrow> (case a of Fin (Run s) \<Rightarrow> Q s | Fin (Exit m s) \<Rightarrow> True | Spin p k s \<Rightarrow> False)"

lemma ends_then_do: "ends P a \<Longrightarrow> (\<And>s. P s \<Longrightarrow> ends Q (k s)) \<Longrightarrow> ends Q (then_do a k)"
  by (cases a) (auto simp: ends_def split: outcome.splits)

lemma ends_conseq: "ends P a \<Longrightarrow> (\<And>s. P s \<Longrightarrow> Q s) \<Longrightarrow> ends Q a"
  by (auto simp: ends_def split: act.splits outcome.splits)

lemma advanced_after:
  assumes "effect p s c ws n 0 [] s1" and "advanced p s1 c [] 0 s'"
  shows "advanced p s c ws n s'"
proof -
  have "s_mode s1 = s_mode s" using assms(1) by (simp add: effect_def)
  then show ?thesis
    using effect_trans [OF assms(1) assms(2) [unfolded advanced_def]]
    by (auto simp: advanced_def split: if_splits)
qed

lemma advanced_before:
  assumes "advanced p s c ws n s1" and "effect p s1 c' [] 0 0 [] s'"
    and "c' = (if rdma_now c then said_done c else c)"
  shows "advanced p s c ws n s'"
  using effect_trans [OF assms(1) [unfolded advanced_def] assms(2)] assms(3)
  by (auto simp: advanced_def split: if_splits)

lemma effect_poll:
  assumes "conns s p = Some c"
  shows "ends (effect p s c [] 0 0 []) (once (run_call E (Data (Poll_cq q n))) s)"
  using assms by (simp add: ends_def effect_def handler_defs)

lemma effect_wait:
  assumes "conns s p = Some c"
  shows "ends (effect p s c [] 0 0 []) (once (seq [
       TEST_NZ E ''ibv_get_cq_event'' (Data (Get_cq_event ch)),
       run_call E (Data (Ack_cq_events q 1)),
       TEST_NZ E ''ibv_req_notify_cq'' (Data (Req_notify_cq q)),
       run_call E (Data (Poll_cq q 1))]) s)"
  using assms by (simp add: ends_def effect_def handler_defs)

text \<open>From \<open>advance\<close> to the end of the turn.\<close>

lemma ends_advance:
  assumes "effect p s0 c ws n 0 [] s" and "rdma_now c \<Longrightarrow> connected c \<noteq> 0"
  shows "ends (advanced p s0 c ws n) (then_do (rw_advance E p s) (once (run_call E (Data (Poll_cq q 1)))))"
proof (rule ends_then_do)
  have c: "conns s p = Some c" using assms(1) by (simp add: effect_def)
  show "ends (advanced p s0 c ws n) (rw_advance E p s)"
    using advance_effect [OF c assms(2), of E] advanced_after [OF assms(1)]
    by (auto simp: ends_def split: act.splits outcome.splits)
  show "ends (advanced p s0 c ws n) (once (run_call E (Data (Poll_cq q 1))) t)"
    if t: "advanced p s0 c ws n t" for t
  proof -
    have "conns t p = Some (if rdma_now c then said_done c else c)"
      using t by (simp add: advanced_def effect_def)
    then show ?thesis
      using advanced_before [OF t] by (intro ends_conseq [OF effect_poll]) auto
  qed
qed

lemma poll_sent:
  assumes c: "conns s p = Some c" and op: "\<not> wc_is_recv op" and c1: "c1 = c\<lparr>send_state := send_state c + 1\<rparr>"
    and u: "rdma_now c1 \<Longrightarrow> connected c \<noteq> 0"
  shows "ends (advanced p s c1 [] 0) (rw_poll_cq E (rw_wc p op) s)"
  unfolding rw_poll_cq_def Let_def and_then_def
proof (rule ends_then_do [OF effect_wait [OF c]])
  fix s1 assume s1: "effect p s c [] 0 0 [] s1"
  have e: "effect p s c1 [] 0 0 [] (s1\<lparr>conns := (conns s1)(p \<mapsto> c1)\<rparr>)"
    using s1 by (simp add: effect_def)
  have r: "conn_at s1 p = c" using s1 by (simp add: effect_def conn_at_Some)
  show "ends (advanced p s c1 [] 0)
     (then_do (rw_on_completion E (rw_wc p op) s1) (once (run_call E (Data (Poll_cq (ctx_cq (the_ctx s)) 1)))))"
    using ends_advance [OF e] u op c1 r
    by (simp add: rw_on_completion_def on_sent_def handler_defs)
qed

text \<open>What a completed receive makes of the connection, before \<open>advance\<close>.\<close>

definition received :: "connection \<Rightarrow> connection" where
  "received c = (let c1 = c\<lparr>recv_state := recv_state c + 1\<rparr> in
     if msg_type (recv_msg c) = MSG_MR then
       let c2 = c1\<lparr>peer_mr := data_mr (recv_msg c)\<rparr> in
       if send_state c = SS_INIT then c2\<lparr>send_msg := mr_message (rdma_remote_mr c)\<rparr> else c2
     else c1)"

definition answers :: "connection \<Rightarrow> bool" where
  "answers c \<longleftrightarrow> msg_type (recv_msg c) = MSG_MR \<and> send_state c = SS_INIT"

definition rearms :: "connection \<Rightarrow> int" where
  "rearms c = (if msg_type (recv_msg c) = MSG_MR then 1 else 0)"

lemma received_simps [simp]:
  "recv_msg (received c) = recv_msg c" "send_state (received c) = send_state c"
  "connected (received c) = connected c" "rdma_remote_mr (received c) = rdma_remote_mr c"
  "rdma_local_region (received c) = rdma_local_region c" "recv_state (received c) = recv_state c + 1"
  "rdma_remote_region (received c) = rdma_remote_region c"
  "rw_message_wr (received c) p = rw_message_wr c p"
  by (simp_all add: received_def Let_def rw_message_wr_def)

lemma poll_recv:
  assumes c: "conns s p = Some c" and u: "answers c \<or> rdma_now (received c) \<Longrightarrow> connected c \<noteq> 0"
  shows "ends (advanced p s (received c) (if answers c then [rw_message_wr c p] else []) (rearms c))
           (rw_poll_cq E (rw_wc p WC_RECV) s)"
  unfolding rw_poll_cq_def Let_def and_then_def
proof (rule ends_then_do [OF effect_wait [OF c]])
  let ?Q = "advanced p s (received c) (if answers c then [rw_message_wr c p] else []) (rearms c)"
  let ?rest = "once (run_call E (Data (Poll_cq (ctx_cq (the_ctx s)) 1)))"
  fix s1 assume s1: "effect p s c [] 0 0 [] s1"
  define P where "P = effect p s (received c) (if answers c then [rw_message_wr c p] else []) (rearms c) 0 []"
  have r: "conn_at s1 p = c" using s1 by (simp add: effect_def conn_at_Some)
  have "ends P (on_recv E p s1)"
    using s1 r u
    by (simp add: on_recv_def handler_defs send_mr_msg_def post_receives_def ends_def is_connected_def
        received_def answers_def rearms_def P_def effect_def mr_message_def rw_message_wr_def conn_at_Some)
  moreover have "ends ?Q (then_do (rw_advance E p s2) ?rest)" if "P s2" for s2
    using that u unfolding P_def by (intro ends_advance) auto
  ultimately have "ends ?Q (then_do (on_recv E p s1) (\<lambda>s. then_do (rw_advance E p s) ?rest))"
    by (rule ends_then_do)
  then show "ends ?Q (then_do (rw_on_completion E (rw_wc p WC_RECV) s1) ?rest)"
    by (simp add: rw_on_completion_def handler_defs wc_is_recv_def then_do_assoc)
qed

text \<open>The same when the answer has to wait for the connection.\<close>

lemma poll_recv_waits:
  assumes c: "conns s p = Some c" and u: "answers c" "connected c = 0"
    and run: "rw_poll_cq E (rw_wc p WC_RECV) s = a" and go: "\<And>m s'. a \<noteq> Fin (Exit m s')"
  shows "\<exists>s' q. a = Spin (is_connected p) (resume E p q) s' \<and> effect p s (received c) [] 1 0 [] s'"
proof -
  have resumes: "resume E p q = (\<lambda>t. then_do (once (post_message E p) t)
      (\<lambda>s. then_do (rw_advance E p s) (once (run_call E (Data (Poll_cq q 1))))))" for q
    by (simp add: resume_def and_then_eta)
  define W where "W = once (seq [
       TEST_NZ E ''ibv_get_cq_event'' (Data (Get_cq_event (ctx_channel (the_ctx s)))),
       run_call E (Data (Ack_cq_events (ctx_cq (the_ctx s)) 1)),
       TEST_NZ E ''ibv_req_notify_cq'' (Data (Req_notify_cq (ctx_cq (the_ctx s)))),
       run_call E (Data (Poll_cq (ctx_cq (the_ctx s)) 1))]) s"
  have a: "a = then_do W (\<lambda>s1. then_do (on_recv E p s1)
      (\<lambda>s'. then_do (rw_advance E p s') (once (run_call E (Data (Poll_cq (ctx_cq (the_ctx s)) 1))))))"
    using run by (simp add: rw_poll_cq_def rw_on_completion_def W_def and_then_eta Let_def wc_is_recv_def then_do_assoc
        once_def if_cmd_def skip_def)
  obtain s1 where s1: "W = Fin (Run s1)" "effect p s c [] 0 0 [] s1"
    using effect_wait [OF c, of E "ctx_channel (the_ctx s)" "ctx_cq (the_ctx s)"] go a
    unfolding W_def [symmetric] ends_def by (cases W) (auto split: outcome.splits)
  have r: "conn_at s1 p = c" using s1 by (simp add: effect_def conn_at_Some)
  have "\<exists>m s2. on_recv E p s1 = Fin (Exit m s2)"
    if "ret E (hist s1) (Data (Post_recv (conn_qp c) [rw_recv_wr c p])) \<noteq> 0"
    using that r u
    by (simp add: on_recv_def acts_simps cmd_simps rw_upd_conn_def post_receives_def answers_def rw_recv_wr_def
        conn_at_Some)
  moreover have "\<exists>s2. on_recv E p s1 = Spin (is_connected p) (\<lambda>t. once (post_message E p) t) s2
        \<and> effect p s (received c) [] 1 0 [] s2"
    if "ret E (hist s1) (Data (Post_recv (conn_qp c) [rw_recv_wr c p])) = 0"
    using that s1(2) r u
    by (simp add: on_recv_def rw_send_message_def acts_simps cmd_simps rw_upd_conn_def send_mr_msg_def
        post_receives_def is_connected_def received_def answers_def effect_def mr_message_def conn_at_Some
        rw_recv_wr_def)
  ultimately consider m s2 where "on_recv E p s1 = Fin (Exit m s2)"
    | s2 where "on_recv E p s1 = Spin (is_connected p) (\<lambda>t. once (post_message E p) t) s2"
        "effect p s (received c) [] 1 0 [] s2"
    by blast
  then show ?thesis
    using a go s1(1) by cases (auto simp: resumes)
qed

lemma poll_resume:
  assumes c: "conns s p = Some c" and u: "connected c \<noteq> 0"
  shows "ends (advanced p s c [rw_message_wr c p] 0) (resume E p q s)"
proof -
  have "ends (effect p s c [rw_message_wr c p] 0 0 []) (once (post_message E p) s)"
    using c by (simp add: handler_defs ends_def effect_def conn_at_Some)
  then show ?thesis
    unfolding resume_def and_then_def by (rule ends_then_do) (use u in \<open>auto intro: ends_advance\<close>)
qed

section \<open>Turns keep a side in order\<close>

text \<open>The values the code compares the two states with.\<close>

lemma state_values:
  assumes "ss \<le> 3"
  shows "(of_nat ss = (0 :: u32)) = (ss = 0)" "(of_nat ss = (1 :: u32)) = (ss = 1)"
    "(of_nat ss = (2 :: u32)) = (ss = 2)" "(of_nat ss = (3 :: u32)) = (ss = 3)"
    "(of_nat ss + 1 :: u32) = of_nat (Suc ss)"
proof -
  have "ss \<in> {0, 1, 2, 3}" using assms by auto
  then show "(of_nat ss = (0 :: u32)) = (ss = 0)" "(of_nat ss = (1 :: u32)) = (ss = 1)"
    "(of_nat ss = (2 :: u32)) = (ss = 2)" "(of_nat ss = (3 :: u32)) = (ss = 3)" by auto
qed simp

lemma rdma_now_iff:
  assumes "send_state c = of_nat ss" "recv_state c = of_nat rs" "ss \<le> 3" "rs \<le> 3"
  shows "rdma_now c \<longleftrightarrow> ss = 1 \<and> rs = 1" "done_now c \<longleftrightarrow> over ss rs"
  using assms by (simp_all add: rdma_now_def done_now_def state_defs state_values over_def)

text \<open>The fields of a connection that its requests are made from, and its regions.\<close>

definition same_requests :: "connection \<Rightarrow> connection \<Rightarrow> bool" where
  "same_requests c c' \<longleftrightarrow> (\<forall>p. rw_message_wr c' p = rw_message_wr c p) \<and> (\<forall>m p. rdma_wr m c' p = rdma_wr m c p)"

definition same_regions :: "connection \<Rightarrow> connection \<Rightarrow> bool" where
  "same_regions c c' \<longleftrightarrow> rdma_local_region c' = rdma_local_region c
    \<and> rdma_remote_region c' = rdma_remote_region c \<and> rdma_remote_mr c' = rdma_remote_mr c
    \<and> recv_msg c' = recv_msg c"

lemma regions_simps:
  assumes "same_regions c c'"
  shows "get_local_message_region m c' = get_local_message_region m c"
    "get_peer_message_region m c' = get_peer_message_region m c"
  using assms by (simp_all add: same_regions_def get_local_message_region_def get_peer_message_region_def)

lemma script_same: "same_requests c c' \<Longrightarrow> script m c' p = script m c p"
  by (simp add: script_def same_requests_def)

text \<open>
  A turn that ends leaves the side as \<open>advanced\<close> says; when its counts agree with what it has posted
  the side is in order.
\<close>

lemma advanced_side_ok:
  assumes adv: "advanced (conn_of L a) s c ws n s'"
    and s: "id_context s (id_of L a) = conn_of L a" "s_mode s = m"
    and st: "send_state c = of_nat ss" "recv_state c = of_nat rs" "ss \<le> 3" "rs \<le> 2"
    and c: "(connected c \<noteq> 0) = u" "rdma_remote_mr c = R a"
      "1 \<le> rs \<Longrightarrow> peer_mr c = mr_contents (R (other a))"
      "cstr (read_at (get_local_message_region m c) RDMA_BUFFER_SIZE) = text a"
    and k: "k = n_posted a u False ss rs" "k \<noteq> 0 \<Longrightarrow> u"
    and msg: "k = 3 \<Longrightarrow> \<not> rdma_now c \<Longrightarrow> msg_type (send_msg c) = MSG_DONE" "k = 1 \<Longrightarrow> send_msg c = mr_message (R a)"
    and sent: "sent_wrs (hist s) @ ws = take (if rdma_now c then 1 else k) (script m c (conn_of L a))"
    and recv: "recvs (hist s) + n = (if rs = 0 then 1 else 2)"
    and disc: "disconnects (hist s) = 0 \<and> remote_printed s = []"
    and peer: "over ss rs \<Longrightarrow>
      cstr (read_at (get_peer_message_region m c) RDMA_BUFFER_SIZE) = text (other a)"
  shows "\<exists>c'. side_ok L m R text a u \<lparr>prc = s', cqes = q, waits = None\<rparr> ss rs c' \<and> same_regions c c'"
proof -
  define c' where "c' = (if rdma_now c then said_done c else c)"
  have e: "effect (conn_of L a) s c' (ws @ (if rdma_now c then [rdma_wr m c (conn_of L a), rw_message_wr c (conn_of L a)] else [])) n
      (if over ss rs then 1 else 0) (if over ss rs then [text (other a)] else []) s'"
    using adv s peer rdma_now_iff [of c ss rs] st unfolding advanced_def c'_def
    by (auto split: if_splits)
  have same: "same_regions c c'" "same_requests c c'" "send_state c' = send_state c" "recv_state c' = recv_state c"
    "connected c' = connected c" "peer_mr c' = peer_mr c"
    by (simp_all add: c'_def same_regions_def same_requests_def said_done_def rdma_wr_def rw_message_wr_def)
  have r: "rdma_now c \<longleftrightarrow> ss = 1 \<and> rs = 1" using rdma_now_iff [of c ss rs] st by simp
  have sent': "sent_wrs (hist s') = take k (script m c' (conn_of L a))"
    using e sent r k(1) unfolding effect_def script_same [OF same(2)]
    by (auto simp: script_def n_posted_def append_assoc [symmetric] simp del: append_assoc)
  have "k = 3 \<longrightarrow> msg_type (send_msg c') = MSG_DONE" "k = 1 \<longrightarrow> send_msg c' = mr_message (R a)"
    using msg r k(1) by (auto simp: c'_def said_done_def n_posted_def)
  then have "side_ok L m R text a u \<lparr>prc = s', cqes = q, waits = None\<rparr> ss rs c'"
    using e s st c k recv disc sent' same regions_simps [OF same(1)]
    by (auto simp: side_ok_def Let_def effect_def conn_ok_def waiting_ok_def hist_ok_def same_regions_def)
  then show ?thesis using same(1) by blast
qed

lemma ends_after_turn:
  assumes "ends P a" and "after_turn a q = Run sd'"
  shows "\<exists>s. sd' = \<lparr>prc = s, cqes = q, waits = None\<rparr> \<and> P s"
  using assms by (auto simp: ends_def after_turn_def split: act.splits outcome.splits)

text \<open>The counts of a side, unfolded once.\<close>

lemma side_okD:
  assumes "side_ok L m R text a u sd ss rs c"
  shows "conns (prc sd) (conn_of L a) = Some c" "id_context (prc sd) (id_of L a) = conn_of L a"
    "s_mode (prc sd) = m" "ss \<le> 3" "rs \<le> 2" "send_state c = of_nat ss" "recv_state c = of_nat rs"
    "(connected c \<noteq> 0) = u" "rdma_remote_mr c = R a"
    "1 \<le> rs \<Longrightarrow> peer_mr c = mr_contents (R (other a))"
    "cstr (read_at (get_local_message_region m c) RDMA_BUFFER_SIZE) = text a"
    "waiting_ok L a sd ss rs c (R a)"
    "hist_ok m text L a (n_posted a u (waits sd \<noteq> None) ss rs) ss rs c (prc sd)"
    "n_posted a u (waits sd \<noteq> None) ss rs = 3 \<Longrightarrow> msg_type (send_msg c) = MSG_DONE"
    "n_posted a u (waits sd \<noteq> None) ss rs = 1 \<Longrightarrow> send_msg c = mr_message (R a)"
    "n_posted a u (waits sd \<noteq> None) ss rs \<noteq> 0 \<Longrightarrow> u"
  using assms by (auto simp: side_ok_def conn_ok_def Let_def)

lemma turn_sent:
  assumes ok: "side_ok L m R text a u sd ss rs c" and w: "waits sd = None"
    and q: "cqes sd = rw_wc (conn_of L a) op # q" and op: "\<not> wc_is_recv op"
    and n: "ss < n_posted a u False ss rs" and lim: "ss = 0 \<Longrightarrow> rs \<le> 1"
    and peer: "ss = 2 \<Longrightarrow> rs = 2 \<Longrightarrow>
      cstr (read_at (get_peer_message_region m c) RDMA_BUFFER_SIZE) = text (other a)"
    and run: "run_poller (env L a) sd = Run sd'"
  shows "\<exists>c'. side_ok L m R text a u sd' (Suc ss) rs c' \<and> same_regions c c' \<and> cqes sd' = q
    \<and> waits sd' = None"
proof -
  note d = side_okD [OF ok, unfolded w, simplified]
  let ?c = "c\<lparr>send_state := send_state c + 1\<rparr>"
  have u: u using d n by (auto simp: w)
  have ss: "ss \<le> 2" using n by (auto simp: n_posted_def split: if_splits)
  then have st: "send_state ?c = of_nat (Suc ss)" "recv_state ?c = of_nat rs" using d by simp_all
  have now: "rdma_now ?c \<longleftrightarrow> Suc ss = 1 \<and> rs = 1" using rdma_now_iff [OF st] ss d(5) by simp
  have "ends (advanced (conn_of L a) (prc sd) ?c [] 0) (rw_poll_cq (env L a) (rw_wc (conn_of L a) op) (prc sd))"
    using poll_sent [OF d(1) op refl] u d by blast
  moreover have "after_turn (rw_poll_cq (env L a) (rw_wc (conn_of L a) op) (prc sd)) q = Run sd'"
    using run w q by (simp add: run_poller_def)
  ultimately obtain s' where s': "sd' = \<lparr>prc = s', cqes = q, waits = None\<rparr>"
    "advanced (conn_of L a) (prc sd) ?c [] 0 s'"
    using ends_after_turn by blast
  have same: "same_requests c ?c" "same_regions c ?c"
    by (simp_all add: same_requests_def same_regions_def rw_message_wr_def rdma_wr_def)
  have k: "(if rdma_now ?c then 1 else n_posted a u False (Suc ss) rs) = n_posted a u False ss rs"
    using n lim ss d(5) now by (auto simp: n_posted_def split: who.splits if_splits)
  have h: "sent_wrs (hist (prc sd)) = take (n_posted a u False ss rs) (script m c (conn_of L a))"
    "recvs (hist (prc sd)) = (if rs = 0 then 1 else 2)" "disconnects (hist (prc sd)) = 0" "remote_printed (prc sd) = []"
    using d(13) ss by (simp_all add: hist_ok_def over_def)
  have "\<exists>c'. side_ok L m R text a u \<lparr>prc = s', cqes = q, waits = None\<rparr> (Suc ss) rs c' \<and> same_regions ?c c'"
  proof (rule advanced_side_ok [OF s'(2) d(2,3) st])
    show "(connected ?c \<noteq> 0) = u" "rdma_remote_mr ?c = R a"
      "1 \<le> rs \<Longrightarrow> peer_mr ?c = mr_contents (R (other a))"
      "cstr (read_at (get_local_message_region m ?c) RDMA_BUFFER_SIZE) = text a"
      using d regions_simps [OF same(2)] by simp_all
    show "n_posted a u False (Suc ss) rs = 3 \<Longrightarrow> \<not> rdma_now ?c \<Longrightarrow> msg_type (send_msg ?c) = MSG_DONE"
      "n_posted a u False (Suc ss) rs = 1 \<Longrightarrow> send_msg ?c = mr_message (R a)"
      using d(14,15) k now by (simp_all split: if_splits)
    show "sent_wrs (hist (prc sd)) @ [] = take (if rdma_now ?c then 1 else n_posted a u False (Suc ss) rs) (script m ?c (conn_of L a))"
      using h(1) k script_same [OF same(1)] by simp
    show "over (Suc ss) rs \<Longrightarrow> cstr (read_at (get_peer_message_region m ?c) RDMA_BUFFER_SIZE) = text (other a)"
      using peer regions_simps [OF same(2)] by (simp add: over_def)
  qed (use h ss d u in simp_all)
  then show ?thesis using s'(1) same(2) by (auto simp: same_regions_def)
qed

lemma turn_recv:
  assumes ok: "side_ok L m R text a u sd ss rs c" and w: "waits sd = None"
    and q: "cqes sd = rw_wc (conn_of L a) WC_RECV # q" and rs: "rs \<le> 1"
    and msg: "if rs = 0 then recv_msg c = mr_message (R (other a)) else msg_type (recv_msg c) = MSG_DONE"
    and lim: "ss = 0 \<Longrightarrow> a = Server \<and> rs = 0" and k0: "ss \<le> n_posted a u False ss rs"
    and peer: "ss = 3 \<Longrightarrow> rs = 1 \<Longrightarrow>
      cstr (read_at (get_peer_message_region m c) RDMA_BUFFER_SIZE) = text (other a)"
    and run: "run_poller (env L a) sd = Run sd'"
  shows "\<exists>c'. side_ok L m R text a u sd' ss (Suc rs) c' \<and> same_regions c c' \<and> cqes sd' = q
    \<and> (waits sd' \<noteq> None \<longrightarrow> a = Server \<and> \<not> u)"
proof -
  note d = side_okD [OF ok, unfolded w, simplified]
  let ?c = "received c" and ?p = "conn_of L a"
  have st: "send_state ?c = of_nat ss" "recv_state ?c = of_nat (Suc rs)" using d by simp_all
  have now: "rdma_now ?c \<longleftrightarrow> ss = 1 \<and> Suc rs = 1" using rdma_now_iff [OF st] rs d(4) by simp
  have ans: "answers c \<longleftrightarrow> ss = 0"
    using msg lim d(4,6) by (auto simp: answers_def mr_message_def state_defs state_values)
  have same: "same_requests (?c\<lparr>peer_mr := peer_mr c\<rparr>) c" "same_regions c ?c"
    by (simp_all add: same_requests_def same_regions_def rw_message_wr_def rdma_wr_def received_def Let_def)
  have peer_mr: "peer_mr ?c = mr_contents (R (other a))"
    using msg rs d(10) by (auto simp: received_def mr_message_def Let_def split: if_splits)
  have smsg: "send_msg ?c = (if ss = 0 then mr_message (R a) else send_msg c)"
    using ans d(9) msg lim by (auto simp: received_def answers_def Let_def)
  have h: "sent_wrs (hist (prc sd)) = take (n_posted a u False ss rs) (script m c ?p)"
    "recvs (hist (prc sd)) = (if rs = 0 then 1 else 2)" "disconnects (hist (prc sd)) = 0" "remote_printed (prc sd) = []"
    using d(13) rs by (simp_all add: hist_ok_def over_def)
  have arm: "rearms c = (if rs = 0 then 1 else 0)"
    using msg by (simp add: rearms_def mr_message_def)
  have turn: "after_turn (rw_poll_cq (env L a) (rw_wc ?p WC_RECV) (prc sd)) q = Run sd'"
    using run w q by (simp add: run_poller_def)
  have first: "take 1 (script m x ?p) = [rw_message_wr x ?p]" for x
    by (simp add: script_def)
  have one: "1 \<le> ss \<Longrightarrow> rs = 0 \<Longrightarrow> n_posted a u False ss rs = 1"
    using k0 by (auto simp: n_posted_def split: if_splits)
  have lo: "rs = 0 \<Longrightarrow> ss \<le> 1" using k0 by (auto simp: n_posted_def split: if_splits)
  show ?thesis
  proof (cases "ss = 0 \<and> \<not> u")
    case True
    then have a: "a = Server" "rs = 0" using lim by auto
    obtain s' h where s': "rw_poll_cq (env L a) (rw_wc ?p WC_RECV) (prc sd) = Spin (is_connected ?p) (resume (env L a) ?p h) s'"
      "effect ?p (prc sd) ?c [] 1 0 [] s'"
      using poll_recv_waits [OF d(1) _ _ refl, of "env L a"] ans True d(8) turn
      by (cases "rw_poll_cq (env L a) (rw_wc ?p WC_RECV) (prc sd)")
        (auto simp: after_turn_def split: outcome.splits)
    have sd': "sd' = \<lparr>prc = s', cqes = q, waits = Some (is_connected ?p, resume (env L a) ?p h)\<rparr>"
      using turn s'(1) by (simp add: after_turn_def)
    have "side_ok L m R text a u sd' ss (Suc rs) ?c"
      using s'(2) sd' d h True a peer_mr smsg st regions_simps [OF same(2)]
      by (auto simp: side_ok_def conn_ok_def waiting_ok_def hist_ok_def Let_def effect_def n_posted_def over_def)
    then show ?thesis using sd' True a same(2) by auto
  next
    case False
    have u: "rdma_now ?c \<Longrightarrow> u" "answers c \<Longrightarrow> u" using False now ans d(16) one by auto
    have "ends (advanced ?p (prc sd) ?c (if answers c then [rw_message_wr c ?p] else []) (rearms c))
        (rw_poll_cq (env L a) (rw_wc ?p WC_RECV) (prc sd))"
      using poll_recv [OF d(1)] u d(8) by blast
    then obtain s' where s': "sd' = \<lparr>prc = s', cqes = q, waits = None\<rparr>"
      "advanced ?p (prc sd) ?c (if answers c then [rw_message_wr c ?p] else []) (rearms c) s'"
      using ends_after_turn [OF _ turn] by blast
    have "\<exists>c'. side_ok L m R text a u \<lparr>prc = s', cqes = q, waits = None\<rparr> ss (Suc rs) c' \<and> same_regions ?c c'"
    proof (rule advanced_side_ok [OF s'(2) d(2,3) st])
      show "(connected ?c \<noteq> 0) = u" "rdma_remote_mr ?c = R a" "peer_mr ?c = mr_contents (R (other a))"
        "cstr (read_at (get_local_message_region m ?c) RDMA_BUFFER_SIZE) = text a"
        using d peer_mr regions_simps [OF same(2)] by simp_all
      show "n_posted a u False ss (Suc rs) = 3 \<Longrightarrow> \<not> rdma_now ?c \<Longrightarrow> msg_type (send_msg ?c) = MSG_DONE"
        using d(14) smsg now rs lo by (cases "rs = 0") (auto simp: n_posted_def split: if_splits)
      show "n_posted a u False ss (Suc rs) = 1 \<Longrightarrow> send_msg ?c = mr_message (R a)"
        using smsg by (auto simp: n_posted_def split: if_splits)
      show "sent_wrs (hist (prc sd)) @ (if answers c then [rw_message_wr c ?p] else []) =
          take (if rdma_now ?c then 1 else n_posted a u False ss (Suc rs)) (script m ?c ?p)"
      proof (cases "rs = 0")
        case True
        show ?thesis
        proof (cases "ss = 0")
          case True
          then have "n_posted a u False ss rs = 0" "n_posted a u False ss (Suc rs) = 1"
            using lim \<open>rs = 0\<close> by (simp_all add: n_posted_def)
          then show ?thesis using h(1) ans now True first [of ?c] by simp
        next
          case False
          then have "ss = 1" using lo \<open>rs = 0\<close> by simp
          then show ?thesis using h(1) ans now one first [of c] first [of ?c] \<open>rs = 0\<close> by simp
        qed
      next
        case False
        then have "peer_mr ?c = peer_mr c" using d(10) peer_mr by simp
        then have "same_requests ?c c" using same(1) by (simp add: same_requests_def rdma_wr_def rw_message_wr_def)
        then have "script m c ?p = script m ?c ?p" by (rule script_same)
        moreover have "ss \<noteq> 0" "rs = 1" using False lim rs by auto
        moreover from this have "n_posted a u False ss rs = 3" "n_posted a u False ss (Suc rs) = 3"
          by (simp_all add: n_posted_def)
        ultimately show ?thesis using h(1) ans now by simp
      qed
      show "over ss (Suc rs) \<Longrightarrow> cstr (read_at (get_peer_message_region m ?c) RDMA_BUFFER_SIZE) = text (other a)"
        using peer regions_simps [OF same(2)] by (simp add: over_def)
      show "n_posted a u False ss (Suc rs) \<noteq> 0 \<Longrightarrow> u"
        using False d(16) one k0 rs by (cases "ss = 0") (auto simp: n_posted_def split: if_splits)
    qed (use h d rs arm in simp_all)
    then show ?thesis using s'(1) same(2) by (auto simp: same_regions_def)
  qed
qed

lemma turn_resume:
  assumes ok: "side_ok L m R text a u sd ss rs c" and w: "waits sd = Some (q, k)" and go: "q (prc sd)"
    and run: "run_poller (env L a) sd = Run sd'"
  shows "u \<and> (\<exists>c'. side_ok L m R text a u sd' ss rs c' \<and> same_regions c c' \<and> cqes sd' = cqes sd
    \<and> waits sd' = None)"
proof -
  note d = side_okD [OF ok]
  let ?p = "conn_of L a"
  obtain h where a: "a = Server" "ss = 0" "rs = 1" "send_msg c = mr_message (R a)"
    and q: "q = is_connected ?p" "k = resume (env L a) ?p h"
    using d(12) w by (auto simp: waiting_ok_def)
  have u: u using go q d by (simp add: is_connected_def conn_at_Some)
  have turn: "after_turn (k (prc sd)) (cqes sd) = Run sd'"
    using run w go by (simp add: run_poller_def)
  have "ends (advanced ?p (prc sd) c [rw_message_wr c ?p] 0) (k (prc sd))"
    using poll_resume [OF d(1)] u d(8) q by simp
  then obtain s' where s': "sd' = \<lparr>prc = s', cqes = cqes sd, waits = None\<rparr>"
    "advanced ?p (prc sd) c [rw_message_wr c ?p] 0 s'"
    using ends_after_turn [OF _ turn] by blast
  have now: "\<not> rdma_now c" using rdma_now_iff [OF d(6,7)] a by simp
  have "\<exists>c'. side_ok L m R text a u \<lparr>prc = s', cqes = cqes sd, waits = None\<rparr> ss rs c' \<and> same_regions c c'"
    by (rule advanced_side_ok [OF s'(2) d(2,3,6,7)])
      (use d a u now w in \<open>auto simp: n_posted_def script_def hist_ok_def over_def\<close>)
  then show ?thesis using s'(1) u by auto
qed

end
