(* ===== verification/RwPair.thy ===== *)
theory RwPair
  imports RwSystem
begin

text \<open>
  The invariant of the read-write pair: how what the adapters have executed and acknowledged, the
  completions that wait in the queues and the two states of each side fit together, and that every
  step with prompt acknowledgements keeps it until a disconnect is handled.
\<close>

section \<open>The invariant of the pair\<close>

definition own :: "wc list \<Rightarrow> nat" where
  "own q = length (filter (\<lambda>w. \<not> wc_is_recv (wc_opcode w)) q)"

definition rcv :: "wc list \<Rightarrow> nat" where
  "rcv q = length (filter (\<lambda>w. wc_is_recv (wc_opcode w)) q)"

definition lead :: "wc list \<Rightarrow> nat" where
  "lead q = length (takeWhile (\<lambda>w. wc_is_recv (wc_opcode w)) q)"

lemma wc_is_recv_WC_RECV [simp]: "wc_is_recv WC_RECV"
  by (simp add: wc_is_recv_def)

lemma queue_simps [simp]:
  "own [] = 0" "rcv [] = 0" "lead [] = 0"
  "own (q @ q') = own q + own q'" "rcv (q @ q') = rcv q + rcv q'"
  "own (w # q) = (if wc_is_recv (wc_opcode w) then own q else Suc (own q))"
  "rcv (w # q) = (if wc_is_recv (wc_opcode w) then Suc (rcv q) else rcv q)"
  "lead (w # q) = (if wc_is_recv (wc_opcode w) then Suc (lead q) else 0)"
  by (simp_all add: own_def rcv_def lead_def)

lemma lead_own: "own q \<noteq> 0 \<Longrightarrow> lead (q @ q') = lead q"
  by (induction q) (auto simp: lead_def own_def split: if_splits)

lemma lead_rcv: "own q = 0 \<Longrightarrow> lead (q @ q') = rcv q + lead q'"
  by (induction q) (auto split: if_splits)

lemma lead_le: "lead q \<le> rcv q"
  by (induction q) auto

text \<open>The messages among the first \<open>n\<close> requests of the script: the description, the RDMA, the end.\<close>

definition msgs :: "nat \<Rightarrow> nat" where
  "msgs n = (if n = 0 then 0 else if n \<le> 2 then 1 else 2)"

definition good_wc :: "ptr \<Rightarrow> wc \<Rightarrow> bool" where
  "good_wc p w \<longleftrightarrow> w = rw_wc p WC_RECV \<or> (\<exists>op. \<not> wc_is_recv op \<and> w = rw_wc p op)"

text \<open>How many receives a side may take before the completion of its own first message.\<close>

fun ahead :: "who \<Rightarrow> nat" where
  "ahead Client = 0"
| "ahead Server = 1"

definition link_ok ::
    "link \<Rightarrow> mode \<Rightarrow> (who \<Rightarrow> mr) \<Rightarrow> (who \<Rightarrow> string) \<Rightarrow> who \<Rightarrow> wc list \<Rightarrow> nat \<Rightarrow> nat \<Rightarrow> nat \<Rightarrow> nat
      \<Rightarrow> nat \<Rightarrow> nat \<Rightarrow> connection \<Rightarrow> bool" where
  "link_ok L m R text a q x ack xb k ss rs c \<longleftrightarrow>
     ss + own q = ack \<and> ack \<le> x \<and> x \<le> k \<and> rs + rcv q = msgs xb \<and> list_all (good_wc (conn_of L a)) q
     \<and> (0 < rcv q \<longrightarrow> (if rs = 0 then recv_msg c = mr_message (R (other a))
                      else msg_type (recv_msg c) = MSG_DONE))
     \<and> (rs = 0 \<longrightarrow> msgs xb \<le> 1) \<and> (ss = 0 \<longrightarrow> rs + lead q \<le> ahead a)
     \<and> (2 \<le> (if m = M_WRITE then xb else x) \<longrightarrow>
          cstr (read_at (get_peer_message_region m c) RDMA_BUFFER_SIZE) = text (other a))"

definition half_ok ::
    "link \<Rightarrow> mode \<Rightarrow> (who \<Rightarrow> mr) \<Rightarrow> (who \<Rightarrow> string) \<Rightarrow> rw_sys \<Rightarrow> who \<Rightarrow> nat \<Rightarrow> nat \<Rightarrow> connection \<Rightarrow> bool" where
  "half_ok L m R text S a ss rs c \<longleftrightarrow> side_ok L m R text a (up S a) (side S a) ss rs c
     \<and> link_ok L m R text a (cqes (side S a)) (executed S a) (acked S a) (executed S (other a))
         (n_posted a (up S a) (waits (side S a) \<noteq> None) ss rs) ss rs c"

definition pair_ok :: "link \<Rightarrow> mode \<Rightarrow> (who \<Rightarrow> mr) \<Rightarrow> (who \<Rightarrow> string) \<Rightarrow> rw_sys \<Rightarrow> bool" where
  "pair_ok L m R text S \<longleftrightarrow> (\<exists>ss rs c. \<forall>a. half_ok L m R text S a (ss a) (rs a) (c a))"

lemma all_who: "(\<forall>x. P x) \<longleftrightarrow> P a \<and> P (other a)"
  by (metis neq_other)

lemma pair_okI:
  assumes "half_ok L m R text S a ss rs c" and "half_ok L m R text S (other a) ss' rs' c'"
  shows "pair_ok L m R text S"
  unfolding pair_ok_def all_who [of _ a]
  by (rule exI [of _ "\<lambda>x. if x = a then ss else ss'"], rule exI [of _ "\<lambda>x. if x = a then rs else rs'"],
      rule exI [of _ "\<lambda>x. if x = a then c else c'"]) (use assms in simp)

lemma half_okD:
  assumes "half_ok L m R text S a ss rs c"
  shows "side_ok L m R text a (up S a) (side S a) ss rs c"
    "link_ok L m R text a (cqes (side S a)) (executed S a) (acked S a) (executed S (other a))
       (n_posted a (up S a) (waits (side S a) \<noteq> None) ss rs) ss rs c"
  using assms by (simp_all add: half_ok_def)

lemma set_side_simps [simp]:
  "side (set_side a sd S) = (side S)(a := sd)" "executed (set_side a sd S) = executed S"
  "acked (set_side a sd S) = acked S" "up (set_side a sd S) = up S" "down (set_side a sd S) = down S"
  by (simp_all add: set_side_def)

lemma link_ok_mono:
  assumes "link_ok L m R text a q x ack xb k ss rs c" and "k \<le> k'" and "same_regions c c'"
  shows "link_ok L m R text a q x ack xb k' ss rs c'"
  using assms(1,2) regions_simps [OF assms(3)] assms(3) unfolding link_ok_def same_regions_def by auto

subsection \<open>An event of the connection manager\<close>

lemma side_ok_quiet:
  "hist_ok m text L a k ss rs c (s\<lparr>hist := (Cm Ack_cm_event, r) # hist s\<rparr>) = hist_ok m text L a k ss rs c s"
  by (simp add: hist_ok_def)

lemma client_connects:
  assumes ok: "side_ok L m R text Client False sd 0 0 c"
    and run: "run_main (seq [run_call (env L Client) (Cm Ack_cm_event),
      client_on_event (env L Client) ESTABLISHED (id_of L Client) v]) sd = Run sd'"
  shows "\<exists>c'. side_ok L m R text Client True sd' 0 0 c' \<and> same_regions c c' \<and> cqes sd' = cqes sd
    \<and> waits sd' = None"
proof -
  note d = side_okD [OF ok]
  have w: "waits sd = None" using d(12) by (auto simp: waiting_ok_def split: option.splits)
  let ?c = "c\<lparr>connected := 1, send_msg := mr_message (R Client)\<rparr>"
  have same: "same_regions c ?c" "same_requests c ?c"
    by (simp_all add: same_regions_def same_requests_def rw_message_wr_def rdma_wr_def)
  have "side_ok L m R text Client True sd' 0 0 ?c \<and> cqes sd' = cqes sd \<and> waits sd' = None"
    using run d w regions_simps [OF same(1)] script_same [OF same(2)]
    by (auto simp: run_main_def client_on_event_def client_on_connection_def on_connect_def send_mr_msg_def
        handler_defs is_connected_def conn_at_Some side_ok_def conn_ok_def waiting_ok_def hist_ok_def
        n_posted_def script_def rw_message_wr_def mr_message_def over_def split: if_splits)
  then show ?thesis using same by blast
qed

lemma server_connects:
  assumes ok: "side_ok L m R text Server False sd ss rs c"
    and run: "run_main (seq [run_call (env L Server) (Cm Ack_cm_event),
      server_on_event (env L Server) ESTABLISHED (id_of L Server) v]) sd = Run sd'"
  shows "\<exists>c'. side_ok L m R text Server True sd' ss rs c' \<and> same_regions c c' \<and> cqes sd' = cqes sd
    \<and> waits sd' = waits sd"
proof -
  note d = side_okD [OF ok]
  let ?c = "c\<lparr>connected := 1\<rparr>"
  have same: "same_regions c ?c" "same_requests c ?c"
    by (simp_all add: same_regions_def same_requests_def rw_message_wr_def rdma_wr_def)
  have k: "n_posted Server True w ss rs = n_posted Server False w ss rs" for w
    by (simp add: n_posted_def)
  have sd': "sd' = sd\<lparr>prc := (prc sd)\<lparr>
      hist := (Cm Ack_cm_event, ret (env L Server) (hist (prc sd)) (Cm Ack_cm_event)) # hist (prc sd),
      conns := (conns (prc sd))(conn_of L Server \<mapsto> ?c)\<rparr>\<rparr>"
    using run d(1,2) by (simp add: run_main_def server_on_event_def server_on_connection_def on_connect_def
        handler_defs conn_at_Some)
  have "waiting_ok L Server sd' ss rs ?c (R Server)" using d(12) sd'
    by (cases "waits sd") (auto simp: waiting_ok_def)
  moreover have "hist_ok m text L Server (n_posted Server True (waits sd' \<noteq> None) ss rs) ss rs ?c (prc sd')"
    using d(13) sd' script_same [OF same(2)] k by (simp add: hist_ok_def)
  moreover have "conn_ok m R text Server True (n_posted Server True (waits sd' \<noteq> None) ss rs) ss rs ?c"
    using d sd' regions_simps [OF same(1)] k by (simp add: conn_ok_def)
  ultimately have "side_ok L m R text Server True sd' ss rs ?c"
    using d sd' by (simp add: side_ok_def)
  then show ?thesis using same(1) sd' by fastforce
qed

lemma step_establish:
  assumes inv: "pair_ok L m R text S" and up: "\<not> up S a" and run: "on_main L a ESTABLISHED S = Some S1"
  shows "pair_ok L m R text (S1\<lparr>up := (up S1)(a := True)\<rparr>)"
proof -
  obtain ss rs c where half: "\<And>x. half_ok L m R text S x (ss x) (rs x) (c x)"
    using inv by (auto simp: pair_ok_def)
  note h = half_okD [OF half [of a]] and d = side_okD [OF half_okD(1) [OF half [of a]]]
  have k: "n_posted a (up S a) (waits (side S a) \<noteq> None) (ss a) (rs a) = 0" using d(16) up by blast
  have link: "link_ok L m R text a (cqes (side S a)) (executed S a) (acked S a) (executed S (other a)) 0
      (ss a) (rs a) (c a)" using h(2) k by simp
  then have ss: "ss a = 0" by (simp add: link_ok_def)
  obtain sd where sd: "run_main (seq [run_call (env L a) (Cm Ack_cm_event),
      handler a (env L a) ESTABLISHED (id_of L a) 0]) (side S a) = Run sd" and S1: "S1 = set_side a sd S"
    using run by (auto simp: on_main_def split: outcome.splits)
  have "\<exists>c'. side_ok L m R text a True sd (ss a) (rs a) c' \<and> same_regions (c a) c'
      \<and> cqes sd = cqes (side S a)"
  proof (cases a)
    case Client
    then have "rs a = 0" using link ss by (simp add: link_ok_def)
    then show ?thesis
      using client_connects [of L m R "text" "side S a" "c a" 0 sd] h(1) up sd ss Client by (auto simp: handler_def)
  next
    case Server
    then show ?thesis
      using server_connects [of L m R "text" "side S a" "ss a" "rs a" "c a" 0 sd] h(1) up sd
      by (auto simp: handler_def)
  qed
  then obtain c' where c': "side_ok L m R text a True sd (ss a) (rs a) c'" "same_regions (c a) c'"
    "cqes sd = cqes (side S a)" by blast
  have "link_ok L m R text a (cqes sd) (executed S a) (acked S a) (executed S (other a)) k' (ss a) (rs a) c'" for k'
    using link_ok_mono [OF link _ c'(2)] c'(3) by simp
  then have "half_ok L m R text (S1\<lparr>up := (up S1)(a := True)\<rparr>) a (ss a) (rs a) c'"
    using c'(1) by (simp add: half_ok_def S1)
  moreover have "half_ok L m R text (S1\<lparr>up := (up S1)(a := True)\<rparr>) (other a) (ss (other a)) (rs (other a)) (c (other a))"
    using half [of "other a"] by (simp add: half_ok_def S1)
  ultimately show ?thesis by (rule pair_okI)
qed

subsection \<open>The adapters\<close>

lemma side_ok_queue [simp]: "side_ok L m R text a u (queue_wc w sd) ss rs c = side_ok L m R text a u sd ss rs c"
  by (simp add: side_ok_def queue_wc_def waiting_ok_def)

lemma side_ok_store:
  assumes ok: "side_ok L m R text a u sd ss rs c" and p: "p = conn_of L a"
    and f: "f c = c\<lparr>recv_msg := x, rdma_local_region := y, rdma_remote_region := z\<rparr>"
    and loc: "cstr (read_at (get_local_message_region m (f c)) RDMA_BUFFER_SIZE) = text a"
  shows "side_ok L m R text a u (store_conn p f sd) ss rs (f c)"
proof -
  note d = side_okD [OF ok]
  have same: "same_requests c (f c)"
    by (simp add: f same_requests_def rw_message_wr_def rdma_wr_def)
  have st: "prc (store_conn p f sd) = (prc sd)\<lparr>conns := (conns (prc sd))(p \<mapsto> f c)\<rparr>"
    "waits (store_conn p f sd) = waits sd"
    using d(1) p by (simp_all add: store_conn_def Let_def conn_at_Some)
  have "waiting_ok L a (store_conn p f sd) ss rs (f c) (R a)"
    using d(12) st(2) f by (cases "waits sd") (auto simp: waiting_ok_def)
  moreover have "conn_ok m R text a u k ss rs (f c)" if "conn_ok m R text a u k ss rs c" for k
    using that loc by (simp add: conn_ok_def f)
  moreover have "hist_ok m text L a k ss rs (f c) (prc (store_conn p f sd))"
    if "hist_ok m text L a k ss rs c (prc sd)" for k
    using that script_same [OF same] st by (simp add: hist_ok_def)
  ultimately show ?thesis using ok p st unfolding side_ok_def Let_def by auto
qed

lemma cqes_store [simp]: "cqes (store_conn p f sd) = cqes sd" "waits (store_conn p f sd) = waits sd"
  "cqes (queue_wc w sd) = cqes sd @ [w]" "waits (queue_wc w sd) = waits sd"
  by (simp_all add: store_conn_def Let_def queue_wc_def)

lemma read_copy_region [simp]: "read_at (copy_region src dst) RDMA_BUFFER_SIZE = read_at src RDMA_BUFFER_SIZE"
  by (simp add: read_at_def copy_region_def)

lemma messages_script: "n \<le> 3 \<Longrightarrow> messages (take n (script m c p)) = msgs n"
proof -
  assume "n \<le> 3"
  then have "n = 0 \<or> n = 1 \<or> n = 2 \<or> n = 3" by auto
  then show ?thesis by (elim disjE) (auto simp: messages_def msgs_def script_def rw_message_wr_def rdma_wr_def)
qed

lemma n_posted_le: "n_posted a u w ss rs \<le> 3" "n_posted a u w ss rs \<in> {0, 1, 3}"
  by (simp_all add: n_posted_def)

lemma length_script [simp]: "length (script m c p) = 3"
  by (simp add: script_def)

lemma step_acknowledge:
  assumes inv: "pair_ok L m R text S" and step: "do_move L (Acknowledge a) S = Some S'"
  shows "pair_ok L m R text S'"
proof -
  obtain ss rs c where half: "\<And>x. half_ok L m R text S x (ss x) (rs x) (c x)"
    using inv by (auto simp: pair_ok_def)
  define w where "w = rw_wc (conn_of L a) (op_of (posted S a ! acked S a))"
  have n: "acked S a < executed S a" and S': "S' = set_side a (queue_wc w (side S a))
      (S\<lparr>acked := (acked S)(a := Suc (acked S a))\<rparr>)"
    using step by (auto simp: Let_def w_def split: if_splits)
  have w: "\<not> wc_is_recv (wc_opcode w)" "good_wc (conn_of L a) w"
    by (auto simp: w_def op_of_def wc_is_recv_def good_wc_def)
  have "lead (cqes (side S a) @ [w]) = lead (cqes (side S a))"
    using lead_own [of "cqes (side S a)" "[w]"] lead_rcv [of "cqes (side S a)" "[w]"]
      lead_rcv [of "cqes (side S a)" "[]"] w(1)
    by (cases "own (cqes (side S a)) = 0") simp_all
  then have "half_ok L m R text S' a (ss a) (rs a) (c a)"
    using half [of a] n w by (simp add: half_ok_def S' link_ok_def)
  moreover have "half_ok L m R text S' (other a) (ss (other a)) (rs (other a)) (c (other a))"
    using half [of "other a"] by (simp add: half_ok_def S')
  ultimately show ?thesis by (rule pair_okI)
qed

text \<open>What the next request of a side is, and that it is executed as the invariant says.\<close>

lemma next_request:
  assumes half: "half_ok L m R text S a ss rs c" and n: "n = executed S a" "n < length (posted S a)"
  shows "posted S a ! n = script m c (conn_of L a) ! n" "n \<le> 2" "messages (take n (posted S a)) = msgs n"
    "n = 0 \<Longrightarrow> send_msg c = mr_message (R a)" "1 \<le> n \<Longrightarrow> ss \<noteq> 0 \<and> rs \<noteq> 0 \<and> msg_type (send_msg c) = MSG_DONE"
    "n < n_posted a (up S a) (waits (side S a) \<noteq> None) ss rs"
proof -
  define k where "k = n_posted a (up S a) (waits (side S a) \<noteq> None) ss rs"
  note d = side_okD [OF half_okD(1) [OF half], folded k_def] and l = half_okD(2) [OF half, folded k_def]
  have sent: "posted S a = take k (script m c (conn_of L a))" using d(13) by (simp add: hist_ok_def)
  have nk: "n < k" using n(2) sent by simp
  have k3: "k \<le> 3" "k \<in> {0, 1, 3}" unfolding k_def by (rule n_posted_le)+
  show "posted S a ! n = script m c (conn_of L a) ! n" "n \<le> 2" "messages (take n (posted S a)) = msgs n"
    using nk k3 by (simp_all add: sent messages_script)
  have ss: "ss \<le> n" using l n(1) by (simp add: link_ok_def)
  show "send_msg c = mr_message (R a)" if "n = 0"
    using that ss d(15) nk k3(2) by (auto simp: k_def n_posted_def split: if_splits)
  show "ss \<noteq> 0 \<and> rs \<noteq> 0 \<and> msg_type (send_msg c) = MSG_DONE" if "1 \<le> n"
    using that nk k3(2) d(14) by (auto simp: k_def n_posted_def split: if_splits)
  show "n < n_posted a (up S a) (waits (side S a) \<noteq> None) ss rs" using nk by (simp add: k_def)
qed

text \<open>A message arrives: the receiver has taken its predecessor, or there was none.\<close>

lemma execute_message:
  assumes half: "half_ok L m R text S a ss rs c" and half': "half_ok L m R text S (other a) ss' rs' c'"
    and pr: "acked S (other a) = executed S (other a)"
    and n: "n = executed S a" "n < length (posted S a)" "n = 0 \<or> n = 2"
    and room: "int (msgs n) < recvs (hist (proc_of S (other a)))"
    and S': "S' = set_side (other a) (queue_wc (rw_wc (conn_of L (other a)) WC_RECV)
        (store_conn (conn_of L (other a)) (\<lambda>x. x\<lparr>recv_msg := send_msg c\<rparr>) (side S (other a))))
      (S\<lparr>executed := (executed S)(a := Suc n)\<rparr>)"
  shows "pair_ok L m R text S'"
proof -
  let ?b = "other a" and ?c = "c'\<lparr>recv_msg := send_msg c\<rparr>"
  note l = half_okD(2) [OF half] and l' = half_okD(2) [OF half'] and d' = side_okD [OF half_okD(1) [OF half']]
    and nr = next_request [OF half n(1,2)]
  let ?q = "cqes (side S ?b)"
  have rs': "n = 2 \<Longrightarrow> rs' \<noteq> 0" using room d'(13) by (auto simp: hist_ok_def msgs_def split: if_splits)
  have rcv: "rcv ?q = 0" "rs' = msgs n"
    using l' n(1,3) rs' by (auto simp: link_ok_def msgs_def)
  have msg: "if rs' = 0 then send_msg c = mr_message (R a) else msg_type (send_msg c) = MSG_DONE"
    using nr(4,5) n(3) rcv(2) by (auto simp: msgs_def)
  have lead: "ss' = 0 \<Longrightarrow> rs' + lead (?q @ [rw_wc p WC_RECV]) \<le> ahead ?b" for p
  proof (cases "own ?q = 0")
    case True
    assume "ss' = 0"
    then have b0: "executed S ?b = 0" using True l' pr by (simp add: link_ok_def)
    then have rs0: "rs = 0" using l by (simp add: link_ok_def msgs_def)
    then have "n = 0" using nr(5) n(3) by auto
    moreover have "a = Client" using nr(6) rs0 \<open>n = 0\<close> by (cases a) (auto simp: n_posted_def)
    ultimately show ?thesis using True rcv lead_rcv [of ?q "[rw_wc p WC_RECV]"] by (simp add: msgs_def)
  next
    case False
    assume "ss' = 0"
    then show ?thesis using l' lead_own [OF False] by (simp add: link_ok_def)
  qed
  have c: "?c = c'\<lparr>recv_msg := send_msg c, rdma_local_region := rdma_local_region c',
      rdma_remote_region := rdma_remote_region c'\<rparr>" by simp
  have reg: "get_local_message_region m ?c = get_local_message_region m c'"
    "get_peer_message_region m ?c = get_peer_message_region m c'"
    by (simp_all add: get_local_message_region_def get_peer_message_region_def)
  have "half_ok L m R text S' ?b ss' rs' ?c"
    unfolding half_ok_def
  proof
    show "side_ok L m R text ?b (up S' ?b) (side S' ?b) ss' rs' ?c"
      using side_ok_store [where f = "\<lambda>x. x\<lparr>recv_msg := send_msg c\<rparr>", OF half_okD(1) [OF half'] refl c] d'(11)
      by (simp add: S' reg)
    have "msgs (Suc n) = Suc (msgs n)" using n(3) by (auto simp: msgs_def)
    moreover have "2 \<le> Suc n \<longrightarrow> 2 \<le> n" using n(3) by auto
    ultimately show "link_ok L m R text ?b (cqes (side S' ?b)) (executed S' ?b) (acked S' ?b)
        (executed S' (other ?b)) (n_posted ?b (up S' ?b) (waits (side S' ?b) \<noteq> None) ss' rs') ss' rs' ?c"
      using l' n(1) rcv msg lead reg rs' n(3) unfolding link_ok_def by (auto simp: S' good_wc_def msgs_def)
  qed
  moreover have "half_ok L m R text S' a ss rs c"
  proof -
    have "executed S a = 0 \<or> executed S a = 2" using n(1,3) by simp
    then show ?thesis
      using half nr(6) n(1) unfolding half_ok_def link_ok_def S' by (elim disjE) auto
  qed
  ultimately show ?thesis using pair_okI [of L m R "text" S' a] by blast
qed

text \<open>The RDMA request: the region that is filled depends on the mode.\<close>

lemma execute_rdma:
  assumes half: "half_ok L m R text S a ss rs c" and half': "half_ok L m R text S (other a) ss' rs' c'"
    and n: "executed S a = 1" "1 < length (posted S a)"
    and S': "S' = (if m = M_WRITE
      then set_side (other a) (store_conn (conn_of L (other a)) (\<lambda>x. x\<lparr>rdma_remote_region :=
             copy_region (rdma_local_region c) (rdma_remote_region x)\<rparr>) (side S (other a)))
             (S\<lparr>executed := (executed S)(a := 2)\<rparr>)
      else set_side a (store_conn (conn_of L a) (\<lambda>x. x\<lparr>rdma_local_region :=
             copy_region (rdma_remote_region c') (rdma_local_region x)\<rparr>) (side S a))
             (S\<lparr>executed := (executed S)(a := 2)\<rparr>))"
  shows "pair_ok L m R text S'"
proof -
  let ?b = "other a"
  note d = side_okD [OF half_okD(1) [OF half]] and d' = side_okD [OF half_okD(1) [OF half']]
  have "1 < n_posted a (up S a) (waits (side S a) \<noteq> None) ss rs"
    using next_request(6) [OF half refl] n by simp
  then have k: "n_posted a (up S a) (waits (side S a) \<noteq> None) ss rs = 3"
    using n_posted_le(2) [of a "up S a" "waits (side S a) \<noteq> None" ss rs] by auto
  show ?thesis
  proof (cases m)
    case M_WRITE
    let ?f = "\<lambda>x. x\<lparr>rdma_remote_region := copy_region (rdma_local_region c) (rdma_remote_region x)\<rparr>"
    have c: "?f c' = c'\<lparr>recv_msg := recv_msg c', rdma_local_region := rdma_local_region c',
        rdma_remote_region := copy_region (rdma_local_region c) (rdma_remote_region c')\<rparr>" by simp
    have "side_ok L m R text ?b (up S ?b) (store_conn (conn_of L ?b) ?f (side S ?b)) ss' rs' (?f c')"
      by (rule side_ok_store [where f = ?f, OF half_okD(1) [OF half'] refl c])
        (use d'(11) M_WRITE in \<open>simp add: get_local_message_region_def\<close>)
    then have "half_ok L m R text S' ?b ss' rs' (?f c')"
      using half' n(1) d(11) M_WRITE unfolding half_ok_def link_ok_def S'
      by (auto simp: msgs_def get_local_message_region_def get_peer_message_region_def)
    moreover have "half_ok L m R text S' a ss rs c"
      using half n(1) k M_WRITE unfolding half_ok_def link_ok_def S' by auto
    ultimately show ?thesis using pair_okI [of L m R "text" S' a] by blast
  next
    case M_READ
    let ?f = "\<lambda>x. x\<lparr>rdma_local_region := copy_region (rdma_remote_region c') (rdma_local_region x)\<rparr>"
    have c: "?f c = c\<lparr>recv_msg := recv_msg c,
        rdma_local_region := copy_region (rdma_remote_region c') (rdma_local_region c),
        rdma_remote_region := rdma_remote_region c\<rparr>" by simp
    have "side_ok L m R text a (up S a) (store_conn (conn_of L a) ?f (side S a)) ss rs (?f c)"
      by (rule side_ok_store [where f = ?f, OF half_okD(1) [OF half] refl c])
        (use d(11) M_READ in \<open>simp add: get_local_message_region_def\<close>)
    then have "half_ok L m R text S' a ss rs (?f c)"
      using half n(1) d'(11) k M_READ unfolding half_ok_def link_ok_def S'
      by (auto simp: get_local_message_region_def get_peer_message_region_def)
    moreover have "half_ok L m R text S' ?b ss' rs' c'"
      using half' n(1) M_READ unfolding half_ok_def link_ok_def S' by (auto simp: msgs_def)
    ultimately show ?thesis using pair_okI [of L m R "text" S' a] by blast
  qed
qed

lemma step_execute:
  assumes inv: "pair_ok L m R text S" and pr: "prompt L" and step: "do_move L (Execute a) S = Some S'"
  shows "pair_ok L m R text S'"
proof -
  obtain ss rs c where half: "\<And>x. half_ok L m R text S x (ss x) (rs x) (c x)"
    using inv by (auto simp: pair_ok_def)
  note d = side_okD(1) [OF half_okD(1) [OF half]]
  let ?n = "executed S a" and ?b = "other a"
  have go: "?n < length (posted S a)" "acked S ?b = executed S ?b"
    using step pr by (auto simp: execute_def Let_def split: if_splits)
  note nr = next_request [OF half refl go(1)]
  consider "?n = 0 \<or> ?n = 2" | "?n = 1" using nr(2) by linarith
  then show ?thesis
  proof cases
    case 1
    then have op: "swr_opcode (posted S a ! ?n) = WR_SEND"
      using nr(1) by (auto simp: script_def rw_message_wr_def)
    show ?thesis
      by (rule execute_message [OF half half go(2) refl go(1) 1])
        (use step op go nr(3) d [of a] d [of ?b] in \<open>auto simp: execute_def Let_def split: if_splits\<close>)
  next
    case 2
    have m: "s_mode (proc_of S a) = m" using side_okD(3) [OF half_okD(1) [OF half]] .
    have op: "swr_opcode (posted S a ! ?n) = (if m = M_WRITE then WR_RDMA_WRITE else WR_RDMA_READ)"
      using nr(1) 2 by (simp add: script_def rdma_wr_def)
    show ?thesis
      by (rule execute_rdma [OF half [of a] half [of ?b] 2])
        (use step op go 2 d [of a] d [of ?b] in
          \<open>auto simp: execute_def Let_def numeral_2_eq_2 split: if_splits\<close>)
  qed
qed

subsection \<open>The pollers\<close>

lemma half_turn_sent:
  assumes half: "half_ok L m R text S a ss rs c" and w: "waits (side S a) = None"
    and q: "cqes (side S a) = rw_wc (conn_of L a) op # q" and op: "\<not> wc_is_recv op"
    and run: "run_poller (env L a) (side S a) = Run sd"
  shows "\<exists>c'. side_ok L m R text a (up S a) sd (Suc ss) rs c' \<and> same_regions c c' \<and> cqes sd = q
    \<and> waits sd = None"
proof -
  have l: "link_ok L m R text a (rw_wc (conn_of L a) op # q) (executed S a) (acked S a) (executed S (other a))
      (n_posted a (up S a) False ss rs) ss rs c"
    using half_okD(2) [OF half] w q by simp
  show ?thesis
  proof (rule turn_sent [OF half_okD(1) [OF half] w q op _ _ _ run])
    show "ss < n_posted a (up S a) False ss rs" using l op by (auto simp: link_ok_def)
    show "rs \<le> 1" if "ss = 0" using l that by (cases a) (auto simp: link_ok_def)
    show "cstr (read_at (get_peer_message_region m c) RDMA_BUFFER_SIZE) = text (other a)" if "ss = 2" "rs = 2"
      using l op that by (auto simp: link_ok_def msgs_def split: if_splits)
  qed
qed

lemma step_poll:
  assumes inv: "pair_ok L m R text S" and step: "do_move L (Poll a) S = Some S'"
  shows "pair_ok L m R text S'"
proof -
  obtain ss rs c where half: "\<And>x. half_ok L m R text S x (ss x) (rs x) (c x)"
    using inv by (auto simp: pair_ok_def)
  let ?sd = "side S a" and ?b = "other a"
  note ok = half_okD(1) [OF half [of a]] and l = half_okD(2) [OF half [of a]] and d = side_okD [OF half_okD(1) [OF half [of a]]]
  obtain sd where run: "run_poller (env L a) ?sd = Run sd" and S': "S' = set_side a sd S"
    using step by (auto simp: Let_def split: if_splits outcome.splits)
  have rest: "half_ok L m R text S' ?b (ss ?b) (rs ?b) (c ?b)"
    using half [of ?b] by (simp add: half_ok_def S')
  have wrap: "half_ok L m R text S' a ss' rs' c'"
    if "side_ok L m R text a (up S a) sd ss' rs' c'"
      "link_ok L m R text a (cqes sd) (executed S a) (acked S a) (executed S ?b)
         (n_posted a (up S a) (waits sd \<noteq> None) ss' rs') ss' rs' c'" for ss' rs' c'
    using that by (simp add: half_ok_def S')
  have mono: "n_posted a (up S a) False (ss a) (rs a) \<le> n_posted a (up S a) False ss' rs'"
    if "ss a \<le> ss'" "rs a \<le> rs'" for ss' rs'
    using that by (auto simp: n_posted_def split: who.splits)
  show ?thesis
  proof (cases "waits ?sd")
    case (Some qk)
    then obtain q k where w: "waits ?sd = Some (q, k)" "q (prc ?sd)"
      using step by (cases qk) (auto simp: Let_def split: if_splits)
    obtain c' where c': "side_ok L m R text a (up S a) sd (ss a) (rs a) c'" "same_regions (c a) c'"
      "cqes sd = cqes ?sd" "waits sd = None"
      using turn_resume [OF ok w run] by blast
    have "n_posted a (up S a) True (ss a) (rs a) \<le> n_posted a (up S a) False (ss a) (rs a)"
      by (auto simp: n_posted_def split: who.splits)
    then show ?thesis
      using pair_okI [OF wrap [OF c'(1)] rest] link_ok_mono [OF l _ c'(2)] c'(3,4) w(1) by simp
  next
    case None
    then obtain w q where q: "cqes ?sd = w # q"
      using step by (cases "cqes ?sd") (auto simp: Let_def split: if_splits)
    have l': "link_ok L m R text a (w # q) (executed S a) (acked S a) (executed S ?b)
        (n_posted a (up S a) False (ss a) (rs a)) (ss a) (rs a) (c a)"
      using l None q by simp
    have x3: "n_posted a (up S a) False (ss a) (rs a) \<le> 3" by (rule n_posted_le)
    have "good_wc (conn_of L a) w" using l' by (simp add: link_ok_def)
    then consider "w = rw_wc (conn_of L a) WC_RECV"
      | op where "w = rw_wc (conn_of L a) op" "\<not> wc_is_recv op" by (auto simp: good_wc_def)
    then show ?thesis
    proof cases
      case 1
      have rs: "rs a \<le> 1" "rs a = 1 \<Longrightarrow> rcv q = 0 \<and> 3 \<le> executed S ?b" "rs a = 0 \<Longrightarrow> rcv q = 0"
        using l' by (auto simp: link_ok_def 1 msgs_def split: if_splits)
      have k0: "ss a \<le> n_posted a (up S a) False (ss a) (rs a)" "ss a \<le> executed S a"
        using l' by (auto simp: link_ok_def)
      obtain c' where c': "side_ok L m R text a (up S a) sd (ss a) (Suc (rs a)) c'" "same_regions (c a) c'"
        "cqes sd = q" "waits sd \<noteq> None \<longrightarrow> a = Server \<and> \<not> up S a"
      proof (rule exE [OF turn_recv [OF ok None q [unfolded 1] rs(1) _ _ k0(1) _ run]])
        show "if rs a = 0 then recv_msg (c a) = mr_message (R ?b) else msg_type (recv_msg (c a)) = MSG_DONE"
          using l' by (simp add: link_ok_def 1)
        show "ss a = 0 \<Longrightarrow> a = Server \<and> rs a = 0" using l' by (cases a) (auto simp: link_ok_def 1)
        show "cstr (read_at (get_peer_message_region m (c a)) RDMA_BUFFER_SIZE) = text ?b"
          if "ss a = 3" "rs a = 1"
          using l' k0(2) rs(2) that by (auto simp: link_ok_def split: if_splits)
      qed auto
      have "executed S a \<le> n_posted a (up S a) (waits sd \<noteq> None) (ss a) (Suc (rs a))"
      proof (cases "waits sd = None")
        case True
        then show ?thesis using mono [of "ss a" "Suc (rs a)"] l' by (simp add: link_ok_def)
      next
        case False
        then have "\<not> up S a" using c'(4) by blast
        then have "n_posted a (up S a) False (ss a) (rs a) = 0" using d(16) None by fastforce
        then show ?thesis using l' by (simp add: link_ok_def)
      qed
      then have "link_ok L m R text a q (executed S a) (acked S a) (executed S ?b)
          (n_posted a (up S a) (waits sd \<noteq> None) (ss a) (Suc (rs a))) (ss a) (Suc (rs a)) (c a)"
        using l' rs by (auto simp: link_ok_def 1)
      then show ?thesis
        using pair_okI [OF wrap [OF c'(1)] rest] link_ok_mono [OF _ order_refl c'(2)] c'(3) by simp
    next
      case 2
      obtain c' where c': "side_ok L m R text a (up S a) sd (Suc (ss a)) (rs a) c'" "same_regions (c a) c'"
        "cqes sd = q" "waits sd = None"
        using half_turn_sent [OF half None q [unfolded 2(1)] 2(2) run] by blast
      have "link_ok L m R text a q (executed S a) (acked S a) (executed S ?b)
          (n_posted a (up S a) False (Suc (ss a)) (rs a)) (Suc (ss a)) (rs a) (c a)"
        using l' mono [of "Suc (ss a)" "rs a"] 2 by (auto simp: link_ok_def)
      then show ?thesis
        using pair_okI [OF wrap [OF c'(1)] rest] link_ok_mono [OF _ order_refl c'(2)] c'(3,4) by simp
    qed
  qed
qed

inductive_cases rw_stepE: "rw_step L S S'"

lemma on_main_down [simp]: "on_main L a ev S = Some S' \<Longrightarrow> down S' = down S"
  by (auto simp: on_main_def split: outcome.splits)

lemma down_kept: "do_move L mv S = Some S' \<Longrightarrow> down S a \<Longrightarrow> down S' a"
  by (cases mv) (auto simp: Let_def execute_def split: if_splits option.splits outcome.splits)

lemma step_pair_ok:
  assumes "rw_step L S S'" and "prompt L" and "pair_ok L m R text S \<or> (\<exists>a. down S a)"
  shows "pair_ok L m R text S' \<or> (\<exists>a. down S' a)"
proof -
  obtain mv where mv: "do_move L mv S = Some S'" using assms(1) by (rule rw_stepE)
  show ?thesis
  proof (cases "\<exists>a. down S a")
    case True
    then show ?thesis using down_kept [OF mv] by blast
  next
    case False
    then have inv: "pair_ok L m R text S" using assms(3) by blast
    show ?thesis
    proof (cases mv)
      case (Establish a)
      then show ?thesis using mv step_establish [OF inv] by (auto split: if_splits)
    next
      case (Drop a)
      then have "down S' a" using mv by (auto split: if_splits)
      then show ?thesis by blast
    next
      case (Poll a)
      then show ?thesis using step_poll [OF inv] mv by blast
    qed (use mv inv assms(2) step_execute step_acknowledge in blast)+
  qed
qed

lemma reach_pair_ok:
  assumes "(rw_step L)\<^sup>*\<^sup>* S S'" and "prompt L" and "pair_ok L m R text S"
  shows "pair_ok L m R text S' \<or> (\<exists>a. down S' a)"
  using assms(1,3) by (induction rule: rtranclp_induct) (use step_pair_ok assms(2) in blast)+

end
