(* ===== verification/RwExchange.thy ===== *)
theory RwExchange
  imports RwPair
begin

text \<open>
  The results on the read-write example: the sides start as their handlers leave them and each gets
  the other's message; the exchange ends after at most 28 steps; and two runs in which the code goes
  wrong, one with a late acknowledgement and one with an early disconnect.
\<close>

section \<open>Where the sides start\<close>

text \<open>
  A side before its \<open>ESTABLISHED\<close> event: its handler has built the connection, posted the first
  receive and written its message into its region, in a process that had done nothing before.
\<close>

definition idle :: "rw_process \<Rightarrow> mode \<Rightarrow> bool" where
  "idle s m \<longleftrightarrow> s_mode s = m \<and> sent_wrs (hist s) = [] \<and> recvs (hist s) = 0
     \<and> disconnects (hist s) = 0 \<and> remote_printed s = []"

definition build_of :: "who \<Rightarrow> cm_event" where
  "build_of a = (case a of Client \<Rightarrow> ADDR_RESOLVED | Server \<Rightarrow> CONNECT_REQUEST)"

definition starts :: "link \<Rightarrow> mode \<Rightarrow> rw_sys \<Rightarrow> bool" where
  "starts L m S \<longleftrightarrow> (\<forall>a. executed S a = 0 \<and> acked S a = 0 \<and> \<not> up S a \<and> \<not> down S a
     \<and> cqes (side S a) = [] \<and> waits (side S a) = None
     \<and> (\<exists>s v. idle s m \<and> handler a (env L a) (build_of a) (id_of L a) v s = Run (proc_of S a))
     \<and> id_context (proc_of S a) (id_of L a) = conn_of L a)"

text \<open>The text a side announces itself with.\<close>

definition greeting :: "who \<Rightarrow> int \<Rightarrow> string" where
  "greeting a pid = (case a of Client \<Rightarrow> ''message from active/client side with pid ''
     | Server \<Rightarrow> ''message from passive/server side with pid '') @ print_d pid"

definition own_message :: "link \<Rightarrow> rw_sys \<Rightarrow> who \<Rightarrow> string" where
  "own_message L S a = (let s = proc_of S a in
     cstr (read_at (get_local_message_region (s_mode s) (conn_at s (conn_of L a))) RDMA_BUFFER_SIZE))"

text \<open>What building a connection keeps once it has initialised the states.\<close>

definition building :: "(ptr \<Rightarrow> ptr) \<Rightarrow> mode \<Rightarrow> ptr \<Rightarrow> int \<Rightarrow> rw_process \<Rightarrow> bool" where
  "building ic m p n s \<longleftrightarrow> id_context s = ic \<and> s_mode s = m \<and> sent_wrs (hist s) = []
     \<and> recvs (hist s) = n \<and> disconnects (hist s) = 0 \<and> remote_printed s = []
     \<and> (\<exists>c. conns s p = Some c \<and> send_state c = 0 \<and> recv_state c = 0 \<and> connected c = 0)"

lemma kept_quiet:
  assumes "\<And>s r. I s \<Longrightarrow> I (s\<lparr>hist := (c, r) # hist s\<rparr>)" and "\<And>r. kept I (k r)"
  shows "kept I (call E c k)"
  using assms by (simp add: kept_def call_def Let_def)

lemma building_quiet:
  assumes "sent_wrs [(c, r)] = []" and "recvs [(c, r)] = 0" and "disconnects [(c, r)] = 0"
    and "building ic m p n s"
  shows "building ic m p n (s\<lparr>hist := (c, r) # hist s\<rparr>)"
  using assms by (simp add: building_def)

lemma kept_malloc_to:
  assumes "\<And>a b c. send_state (f a b c) = send_state c \<and> recv_state (f a b c) = recv_state c
    \<and> connected (f a b c) = connected c"
  shows "kept (building ic m p n) (malloc_to E what p f)"
  unfolding malloc_to_def rw_upd_conn_def
  by (intro kept_look kept_quiet kept_assign building_quiet) (auto simp: building_def assms conn_at_Some)

lemma kept_register_to:
  assumes "\<And>r c. send_state (f r c) = send_state c \<and> recv_state (f r c) = recv_state c
    \<and> connected (f r c) = connected c"
  shows "kept (building ic m p n) (register_to E p block len acc f)"
  unfolding register_to_def reg_mr_def TEST_Z_def Let_def rw_upd_conn_def
  by (intro kept_look kept_quiet kept_assign kept_if kept_basic building_quiet)
    (auto simp: building_def assms conn_at_Some)

lemma kept_register_memory: "kept (building ic m p n) (register_memory E p)"
  unfolding register_memory_def
  by (intro kept_look kept_seq) (simp add: kept_malloc_to kept_register_to)

lemma kept_Run: "kept I c \<Longrightarrow> I s \<Longrightarrow> c s = Run s' \<Longrightarrow> I s'"
  by (force simp: kept_def)

text \<open>Commands that have ended normally, one after the other.\<close>

lemma rw_seq_Run: "seq (x # xs) s = Run s' \<longleftrightarrow> (\<exists>s1. x s = Run s1 \<and> seq xs s1 = Run s')"
  by (auto split: outcome.splits)

lemma build_context_idle: "rw_build_context E v s = Run s' \<Longrightarrow> idle s m \<Longrightarrow> idle s' m"
  by (auto simp: rw_build_context_def cmd_simps idle_def split: option.splits if_splits)

lemma build_connection_effect:
  assumes "rw_build_connection E cid v s = Run s'" and "idle s m"
  shows "building (id_context s') m (id_context s' cid) 1 s'"
proof -
  obtain s1 where s1: "rw_build_context E v s = Run s1" and idle: "idle s1 m"
    and rest: "seq (tl [skip,
     look (\<lambda>s. TEST_NZ E ''rdma_create_qp''
       (Cm (Rdma_create_qp cid (ctx_pd (the_ctx s)) (rw_build_qp_attr s)))),
     look (\<lambda>s. call E (Libc (Malloc ''connection'')) (\<lambda>p. seq [
       assign (\<lambda>t. t\<lparr>id_context := (id_context t)(cid := p),
         conns := (conns t)(p \<mapsto> junk_connection E (hist s))\<rparr>),
       rw_upd_conn p (\<lambda>c. c\<lparr>conn_id := cid, conn_qp := cid, send_state := SS_INIT,
         recv_state := RS_INIT, connected := 0\<rparr>),
       register_memory E p,
       post_receives E p]))]) s1 = Run s'"
    using assms build_context_idle unfolding rw_build_connection_def rw_seq_Run list.sel by blast
  obtain p s2 s3 where s2: "register_memory E p s2 = Run s3" "post_receives E p s3 = Run s'"
    and b: "building ((id_context s1)(cid := p)) m p 0 s2"
    using rest idle
    by (auto simp: cmd_simps rw_upd_conn_def building_def idle_def state_defs
        split: if_splits outcome.splits)
  have "building ((id_context s1)(cid := p)) m p 0 s3" by (rule kept_Run [OF kept_register_memory b s2(1)])
  then show ?thesis
    using s2(2) by (auto simp: post_receives_def cmd_simps building_def split: if_splits)
qed

lemma write_message_effect:
  assumes "write_message E cid what s = Run s'" and "building (id_context s) m (id_context s cid) 1 s"
  shows "building (id_context s') m (id_context s' cid) 1 s'"
    "\<exists>b. get_local_message_region m (conn_at s' (id_context s' cid)) =
       store_at b ((what @ print_d (ret E (hist s) (Libc Getpid))) @ [NUL])"
    "(Libc Getpid, ret E (hist s) (Libc Getpid)) \<in> set (hist s')"
  using assms
  by (auto simp: write_message_def cmd_simps rw_upd_conn_def building_def conn_at_Some set_local_message_def
      get_local_message_region_def)

lemma TEST_NZ_quiet:
  assumes "TEST_NZ E x c s = Run s'" and "sent_wrs [(c, 0)] = []" "recvs [(c, 0)] = 0" "disconnects [(c, 0)] = 0"
    and "building (id_context s) m (id_context s cid) 1 s"
  shows "building (id_context s') m (id_context s' cid) 1 s'" "conns s' = conns s" "id_context s' = id_context s"
    "set (hist s) \<subseteq> set (hist s')"
  using assms by (auto simp: cmd_simps building_def split: if_splits)

lemma handler_builds:
  assumes "handler a E (build_of a) cid v s = Run s'" and "idle s m"
  shows "building (id_context s') m (id_context s' cid) 1 s'"
    "\<exists>h b. get_local_message_region m (conn_at s' (id_context s' cid)) =
       store_at b (greeting a (ret E h (Libc Getpid)) @ [NUL])
     \<and> (Libc Getpid, ret E h (Libc Getpid)) \<in> set (hist s')"
proof -
  obtain s1 s2 what x c where s1: "rw_build_connection E cid v s = Run s1"
    and what: "\<And>pid. greeting a pid = what @ print_d pid" and s2: "write_message E cid what s1 = Run s2"
    and s3: "TEST_NZ E x (Cm c) s2 = Run s'" "disconnects [(Cm c, 0)] = 0"
  proof (cases a)
    case Client
    then show ?thesis
      using assms(1) that [of _ "''message from active/client side with pid ''" _ _ "Resolve_route cid TIMEOUT_IN_MS"]
      by (auto simp: handler_def build_of_def client_on_event_def on_addr_resolved_def greeting_def rw_seq_Run
          simp del: seq.simps(2))
  next
    case Server
    then show ?thesis
      using assms(1) that [of _ "''message from passive/server side with pid ''" _ _ "Accept cid rw_build_params"]
      by (auto simp: handler_def build_of_def server_on_event_def on_connect_request_def greeting_def rw_seq_Run
          simp del: seq.simps(2))
  qed
  note w = write_message_effect [OF s2 build_connection_effect [OF s1 assms(2)]]
  note t = TEST_NZ_quiet [OF s3(1) _ _ s3(2) w(1), simplified]
  show "building (id_context s') m (id_context s' cid) 1 s'" by (rule t(1))
  show "\<exists>h b. get_local_message_region m (conn_at s' (id_context s' cid)) =
       store_at b (greeting a (ret E h (Libc Getpid)) @ [NUL])
     \<and> (Libc Getpid, ret E h (Libc Getpid)) \<in> set (hist s')"
    using w(2,3) t(2,3,4) by (auto simp: what conn_at_def)
qed

text \<open>The descriptions of the two regions, as registered.\<close>

definition region_of :: "link \<Rightarrow> rw_sys \<Rightarrow> who \<Rightarrow> mr" where
  "region_of L S a = rdma_remote_mr (conn_at (proc_of S a) (conn_of L a))"

lemma starts_pair_ok:
  assumes "starts L m S"
  shows "pair_ok L m (region_of L S) (own_message L S) S"
proof -
  have half: "half_ok L m (region_of L S) (own_message L S) S a 0 0 (conn_at (proc_of S a) (conn_of L a))" for a
  proof -
    obtain s v where s: "idle s m" "handler a (env L a) (build_of a) (id_of L a) v s = Run (proc_of S a)"
      and w: "id_context (proc_of S a) (id_of L a) = conn_of L a" "cqes (side S a) = []" "waits (side S a) = None"
      "executed S x = 0" "acked S a = 0" "\<not> up S a" for x
      using assms unfolding starts_def by blast
    have "building (id_context (proc_of S a)) m (conn_of L a) 1 (proc_of S a)"
      using handler_builds(1) [OF s(2,1)] w(1) by simp
    then obtain c where c: "conns (proc_of S a) (conn_of L a) = Some c" "send_state c = 0" "recv_state c = 0" "connected c = 0"
      and b: "s_mode (proc_of S a) = m" "sent_wrs (hist (proc_of S a)) = []" "recvs (hist (proc_of S a)) = 1"
        "disconnects (hist (proc_of S a)) = 0" "remote_printed (proc_of S a) = []"
      by (auto simp: building_def)
    have "n_posted a False False 0 0 = 0" by (simp add: n_posted_def split: who.split)
    then show ?thesis
      using c b w
      by (simp add: half_ok_def side_ok_def conn_ok_def waiting_ok_def hist_ok_def link_ok_def conn_at_Some
          over_def msgs_def region_of_def own_message_def)
  qed
  show ?thesis
    unfolding pair_ok_def
    by (rule exI [of _ "\<lambda>_. 0"], rule exI [of _ "\<lambda>_. 0"], 
        rule exI [of _ "\<lambda>a. conn_at (proc_of S a) (conn_of L a)"]) (simp add: half)
qed

text \<open>A process identifier is a positive 32-bit number.\<close>

definition pids_ok :: "api_env \<Rightarrow> bool" where
  "pids_ok E \<longleftrightarrow> (\<forall>h. 0 < ret E h (Libc Getpid) \<and> ret E h (Libc Getpid) < 2 ^ 31)"

lemma greeting_fits:
  assumes "0 < pid" and "pid < 2 ^ 31"
  shows "NUL \<notin> set (greeting a pid)" "length (greeting a pid) < RDMA_BUFFER_SIZE"
proof -
  have "length (print_base 10 (nat pid)) \<le> 10"
    using assms by (subst length_print_base) auto
  then show "length (greeting a pid) < RDMA_BUFFER_SIZE"
    using assms by (cases a) (simp_all add: greeting_def print_d_def RDMA_BUFFER_SIZE_def)
  have "NUL \<notin> set (print_base 10 (nat pid))"
    using digit_string_char(8) [OF print_base_digits [of 10 "nat pid"]] by auto
  then show "NUL \<notin> set (greeting a pid)"
    using assms by (cases a) (auto simp: greeting_def print_d_def NUL_def)
qed

lemma own_message_greeting:
  assumes "starts L m S" and "pids_ok (env L a)"
  shows "\<exists>pid. (Libc Getpid, pid) \<in> set (hist (proc_of S a)) \<and> own_message L S a = greeting a pid"
proof -
  obtain s v where s: "idle s m" "handler a (env L a) (build_of a) (id_of L a) v s = Run (proc_of S a)"
    and i: "id_context (proc_of S a) (id_of L a) = conn_of L a"
    using assms(1) unfolding starts_def by blast
  obtain h b where hb: "get_local_message_region m (conn_at (proc_of S a) (conn_of L a)) =
      store_at b (greeting a (ret (env L a) h (Libc Getpid)) @ [NUL])"
      "(Libc Getpid, ret (env L a) h (Libc Getpid)) \<in> set (hist (proc_of S a))"
    using handler_builds(2) [OF s(2,1)] i by auto
  have "s_mode (proc_of S a) = m" using handler_builds(1) [OF s(2,1)] by (simp add: building_def)
  then have "own_message L S a = greeting a (ret (env L a) h (Libc Getpid))"
    using cstr_read_store [OF greeting_fits] assms(2) hb(1) by (simp add: own_message_def pids_ok_def)
  then show ?thesis using hb(2) by blast
qed

section \<open>Each side gets the other's message\<close>

text \<open>
  How far a side has come: the requests it has posted on its connection, the contents of the message
  that is in its send buffer, whom it addresses and what it has printed.  \<open>R\<close> are the regions and
  \<open>text\<close> the texts of the two sides.
\<close>

definition side_done :: "link \<Rightarrow> mode \<Rightarrow> (who \<Rightarrow> mr) \<Rightarrow> string \<Rightarrow> who \<Rightarrow> connection \<Rightarrow> nat \<Rightarrow> rw_process \<Rightarrow> bool" where
  "side_done L m R t a c n s \<longleftrightarrow> n \<in> {0, 1, 3} \<and> sent_wrs (hist s) = take n (script m c (conn_of L a))
     \<and> (n = 1 \<longrightarrow> send_msg c = mr_message (R a))
     \<and> (n = 3 \<longrightarrow> msg_type (send_msg c) = MSG_DONE \<and> peer_mr c = mr_contents (R (other a)))
     \<and> (remote_printed s = [] \<and> disconnects (hist s) = 0
        \<or> n = 3 \<and> remote_printed s = [t] \<and> disconnects (hist s) = 1)"

lemma pair_ok_side:
  assumes "pair_ok L m R text S"
  shows "\<exists>c n. conns (proc_of S a) (conn_of L a) = Some c \<and> side_done L m R (text (other a)) a c n (proc_of S a)"
    "remote_printed (proc_of S a) = replicate (disconnects (hist (proc_of S a))) (text (other a))"
proof -
  obtain ss rs c where half: "half_ok L m R text S a ss rs c" using assms by (auto simp: pair_ok_def)
  note d = side_okD [OF half_okD(1) [OF half]]
  note h = d(13) [unfolded hist_ok_def]
  have "side_done L m R (text (other a)) a c (n_posted a (up S a) (waits (side S a) \<noteq> None) ss rs) (proc_of S a)"
    using h d(10,14,15) by (auto simp: side_done_def n_posted_def over_def split: if_splits who.splits)
  with d(1) show "\<exists>c n. conns (proc_of S a) (conn_of L a) = Some c
      \<and> side_done L m R (text (other a)) a c n (proc_of S a)" by blast
  show "remote_printed (proc_of S a) = replicate (disconnects (hist (proc_of S a))) (text (other a))"
    using h by (auto split: if_splits)
qed

section \<open>The exchange ends\<close>

text \<open>The calls the handlers test succeed.\<close>

definition calls_ok :: "api_env \<Rightarrow> bool" where
  "calls_ok E \<longleftrightarrow> (\<forall>h q ws rs. ret E h (Data (Post_send q ws)) = 0 \<and> ret E h (Data (Post_recv q rs)) = 0
     \<and> ret E h (Data (Get_cq_event q)) = 0 \<and> ret E h (Data (Req_notify_cq q)) = 0)"

primrec noexit :: "'s act \<Rightarrow> bool" where
  "noexit (Fin r) \<longleftrightarrow> running r"
| "noexit (Spin p k s) \<longleftrightarrow> (\<forall>t. noexit (k t))"

lemma noexit_then_do: "noexit a \<Longrightarrow> (\<And>s. noexit (k s)) \<Longrightarrow> noexit (then_do a k)"
  by (induction a) (auto split: outcome.splits)

lemma noexit_and_then: "(\<And>s. noexit (f s)) \<Longrightarrow> (\<And>s. noexit (g s)) \<Longrightarrow> noexit (and_then f g s)"
  by (simp add: and_then_def noexit_then_do)

lemma noexit_once: "runs c \<Longrightarrow> noexit (once c s)"
  by (simp add: once_def runs_def)

lemma noexit_spin: "noexit (spin_until p s)"
  by (simp add: spin_until_def once_def skip_def)

lemma runs_TEST_NZ: "(\<And>h. ret E h c = 0) \<Longrightarrow> runs (TEST_NZ E x c)"
  by (simp add: runs_def cmd_simps)

lemma calls_okD:
  assumes "calls_ok E"
  shows "runs (TEST_NZ E x (Data (Post_send q ws)))" "runs (TEST_NZ E x (Data (Post_recv q rs)))"
    "runs (TEST_NZ E x (Data (Get_cq_event q)))" "runs (TEST_NZ E x (Data (Req_notify_cq q)))"
  using assms by (simp_all add: calls_ok_def runs_TEST_NZ)

lemmas noexit_intro = noexit_and_then noexit_once noexit_spin runs_intro calls_okD

lemma runs_upd_conn: "runs (rw_upd_conn p f)"
  unfolding rw_upd_conn_def by (rule runs_basic)

lemma noexit_send_message: "calls_ok E \<Longrightarrow> noexit (rw_send_message E p s)"
  unfolding rw_send_message_def post_message_def Let_def by (intro noexit_intro)

lemma noexit_advance: "calls_ok E \<Longrightarrow> noexit (rw_advance E p s)"
  unfolding rw_advance_def start_rdma_def finish_def Let_def
  by (auto intro!: noexit_intro noexit_send_message runs_upd_conn simp: once_def runs_upd_conn calls_okD)
    (auto simp: cmd_simps)

lemma noexit_on_completion: "calls_ok E \<Longrightarrow> noexit (rw_on_completion E (rw_wc p op) s)"
proof -
  assume ok: "calls_ok E"
  have "noexit (on_recv E p s)" for s
    unfolding on_recv_def send_mr_msg_def post_receives_def Let_def
    by (intro noexit_intro runs_upd_conn)
      (auto intro!: noexit_intro noexit_send_message runs_upd_conn ok simp: calls_okD ok runs_upd_conn)
  moreover have "noexit (on_sent p s)" for s
    unfolding on_sent_def by (intro noexit_intro runs_upd_conn)
  moreover have "runs (if_cmd (wc_status (rw_wc p op) \<noteq> 0) (die x) skip)" for x
    by (simp add: runs_def cmd_simps)
  ultimately show ?thesis
    unfolding rw_on_completion_def Let_def
    by (auto intro!: noexit_and_then noexit_once noexit_advance ok)
qed

lemma noexit_poll_cq: "calls_ok E \<Longrightarrow> noexit (rw_poll_cq E (rw_wc p op) s)"
  unfolding rw_poll_cq_def Let_def
  by (auto intro!: noexit_and_then noexit_once noexit_on_completion runs_intro calls_okD)

lemma noexit_resume: "calls_ok E \<Longrightarrow> noexit (resume E p q s)"
  unfolding resume_def post_message_def Let_def
  by (intro noexit_intro noexit_advance)

lemma noexit_after_turn: "noexit a \<Longrightarrow> \<exists>sd. after_turn a q = Run sd"
  by (auto simp: after_turn_def split: act.splits outcome.splits)

text \<open>Every move but a disconnect brings the pair forward, and there are at most 28.\<close>

definition side_progress :: "rw_sys \<Rightarrow> who \<Rightarrow> int" where
  "side_progress S a = of_bool (up S a) + int (executed S a) + 2 * int (acked S a)
     - int (own (cqes (side S a)))
     + 2 * (int (msgs (executed S (other a))) - int (rcv (cqes (side S a))))
     - of_bool (waits (side S a) \<noteq> None)"

definition progress :: "rw_sys \<Rightarrow> int" where
  "progress S = side_progress S Client + side_progress S Server"

lemma progress_sides: "progress S = side_progress S a + side_progress S (other a)"
  by (cases a) (simp_all add: progress_def)

lemma half_progress:
  assumes "half_ok L m R text S a ss rs c"
  shows "0 \<le> side_progress S a" "side_progress S a \<le> 14"
proof -
  note d = side_okD [OF half_okD(1) [OF assms]] and l = half_okD(2) [OF assms]
  have "executed S a \<le> 3" "acked S a \<le> executed S a" "ss + own (cqes (side S a)) = acked S a"
    "rs + rcv (cqes (side S a)) = msgs (executed S (other a))"
    using l n_posted_le(1) [of a "up S a" "waits (side S a) \<noteq> None" ss rs] by (auto simp: link_ok_def)
  moreover have "waits (side S a) \<noteq> None \<Longrightarrow> 1 \<le> rs" using d(12) by (auto simp: waiting_ok_def)
  ultimately show "0 \<le> side_progress S a" "side_progress S a \<le> 14"
    using d(4,5) by (auto simp: side_progress_def of_bool_def)
qed

lemma progress_bound:
  assumes "pair_ok L m R text S"
  shows "0 \<le> progress S" "progress S \<le> 28"
proof -
  obtain ss rs c where half: "\<And>x. half_ok L m R text S x (ss x) (rs x) (c x)"
    using assms by (auto simp: pair_ok_def)
  from half_progress [OF half] show "0 \<le> progress S" "progress S \<le> 28"
    by (smt (verit) progress_def)+
qed

lemma on_main_kept:
  assumes "on_main L a ev S = Some S'"
  shows "executed S' = executed S \<and> acked S' = acked S \<and> up S' = up S \<and> side S' (other a) = side S (other a)
    \<and> cqes (side S' a) = cqes (side S a) \<and> waits (side S' a) = waits (side S a)"
  using assms by (auto simp: on_main_def run_main_def split: outcome.splits)

lemma side_progress_cong:
  assumes "side S' b = side S b" "executed S' = executed S" "acked S' b = acked S b" "up S' b = up S b"
  shows "side_progress S' b = side_progress S b"
  using assms by (simp add: side_progress_def)

lemma execute_cases:
  assumes "execute L a S = Some S'"
  shows "(if swr_opcode (posted S a ! executed S a) = WR_SEND
      then \<exists>p f. S' = set_side (other a) (queue_wc (rw_wc p WC_RECV) (store_conn p f (side S (other a))))
        (S\<lparr>executed := (executed S)(a := Suc (executed S a))\<rparr>)
      else \<exists>b p f. S' = set_side b (store_conn p f (side S b))
        (S\<lparr>executed := (executed S)(a := Suc (executed S a))\<rparr>))"
  using assms by (auto simp: execute_def Let_def split: if_splits option.splits)

lemma rw_progress_step:
  assumes inv: "pair_ok L m R text S" and mv: "do_move L mv S = Some S'" and dn: "\<And>a. \<not> down S' a"
  shows "progress S < progress S'"
proof -
  obtain ss rs c where half: "\<And>x. half_ok L m R text S x (ss x) (rs x) (c x)"
    using inv by (auto simp: pair_ok_def)
  show ?thesis
  proof (cases mv)
    case (Establish a)
    then obtain S1 where S1: "on_main L a ESTABLISHED S = Some S1" "S' = S1\<lparr>up := (up S1)(a := True)\<rparr>" "\<not> up S a"
      using mv by (auto split: if_splits)
    then show ?thesis
      using on_main_kept [OF S1(1)] by (simp add: progress_sides [of _ a] side_progress_def)
  next
    case (Drop a)
    then have "down S' a" using mv by (auto split: if_splits)
    then show ?thesis using dn by blast
  next
    case (Acknowledge a)
    have "\<not> wc_is_recv (op_of w)" for w by (simp add: op_of_def wc_is_recv_def)
    then obtain op where "\<not> wc_is_recv op" "S' = set_side a (queue_wc (rw_wc (conn_of L a) op) (side S a))
        (S\<lparr>acked := (acked S)(a := Suc (acked S a))\<rparr>)"
      using mv Acknowledge by (auto simp: Let_def split: if_splits)
    then show ?thesis by (simp add: progress_sides [of _ a] side_progress_def)
  next
    case (Execute a)
    have n: "executed S a < length (posted S a)" using mv Execute by (auto simp: execute_def Let_def split: if_splits)
    note nr = next_request [OF half refl n]
    have ex: "execute L a S = Some S'" using mv Execute by simp
    show ?thesis
    proof (cases "swr_opcode (posted S a ! executed S a) = WR_SEND")
      case True
      then have "executed S a \<noteq> 1" using nr(1) by (auto simp: script_def rdma_wr_def split: if_splits)
      then have "msgs (Suc (executed S a)) = Suc (msgs (executed S a))" using nr(2) by (auto simp: msgs_def)
      moreover obtain p f where "S' = set_side (other a) (queue_wc (rw_wc p WC_RECV) (store_conn p f (side S (other a))))
        (S\<lparr>executed := (executed S)(a := Suc (executed S a))\<rparr>)"
        using execute_cases [OF ex] True by auto
      ultimately show ?thesis by (simp add: progress_sides [of _ a] side_progress_def)
    next
      case False
      moreover have "executed S a = 0 \<or> executed S a = 1 \<or> executed S a = 2" using nr(2) by linarith
      ultimately have n1: "executed S a = 1"
        using nr(1) by (elim disjE) (simp_all add: script_def rw_message_wr_def)
      moreover obtain b p f where S': "S' = set_side b (store_conn p f (side S b))
        (S\<lparr>executed := (executed S)(a := Suc (executed S a))\<rparr>)"
        using execute_cases [OF ex] False by auto
      ultimately show ?thesis
        using n1 by (cases "b = a") (simp_all add: progress_sides [of _ a] side_progress_def msgs_def)
    qed
  next
    case (Poll a)
    obtain sd where run: "run_poller (env L a) (side S a) = Run sd" and S': "S' = set_side a sd S"
      and go: "case waits (side S a) of None \<Rightarrow> cqes (side S a) \<noteq> [] | Some (p, k) \<Rightarrow> p (prc (side S a))"
      using mv Poll by (auto simp: Let_def split: if_splits outcome.splits)
    have o: "side_progress S' (other a) = side_progress S (other a)"
      by (rule side_progress_cong) (simp_all add: S')
    note ok = half_okD(1) [OF half [of a]] and l = half_okD(2) [OF half [of a]]
    have "side_progress S a < side_progress S' a"
    proof (cases "waits (side S a)")
      case (Some qk)
      then obtain q k where "waits (side S a) = Some (q, k)" "q (prc (side S a))" using go by (cases qk) auto
      then show ?thesis
        using turn_resume [OF ok _ _ run] by (auto simp: side_progress_def S')
    next
      case None
      then obtain w q where q: "cqes (side S a) = w # q" using go by (cases "cqes (side S a)") auto
      then have t: "after_turn (rw_poll_cq (env L a) w (prc (side S a))) q = Run sd"
        using run None by (simp add: run_poller_def)
      then have sd: "cqes sd = q" by (auto simp: after_turn_def split: act.splits outcome.splits)
      show ?thesis
      proof (cases "wc_is_recv (wc_opcode w)")
        case True
        then show ?thesis using sd q None by (simp add: side_progress_def S')
      next
        case False
        have "good_wc (conn_of L a) w" using l q by (simp add: link_ok_def)
        then obtain op where op: "w = rw_wc (conn_of L a) op" "\<not> wc_is_recv op" using False by (auto simp: good_wc_def)
        have "waits sd = None" using half_turn_sent [OF half None q [unfolded op(1)] op(2) run] by blast
        then show ?thesis using sd q None False by (simp add: side_progress_def S')
      qed
    qed
    then show ?thesis using o by (simp add: progress_sides [of _ a])
  qed
qed

text \<open>What can be done when a side is not through.\<close>

lemma run_loop_head: "runs c \<Longrightarrow> \<exists>sd'. run_main c sd = Run sd'"
  by (auto simp: run_main_def runs_def split: outcome.splits dest: spec [of _ "prc sd"])

lemma connect_runs:
  assumes "calls_ok E"
  shows "\<exists>sd'. run_main (seq [run_call E (Cm Ack_cm_event), handler a E ESTABLISHED cid v]) sd = Run sd'"
proof (rule run_loop_head)
  have "ret E h (Data (Post_send q w)) = 0" for h q w using assms by (simp add: calls_ok_def)
  then have "runs (client_on_connection E cid)"
    by (auto simp: runs_def client_on_connection_def on_connect_def send_mr_msg_def handler_defs is_connected_def
        conn_at_Some)
  moreover have "runs (server_on_connection cid)"
    by (auto simp: runs_def server_on_connection_def on_connect_def handler_defs)
  ultimately have "runs (handler a E ESTABLISHED cid v)"
    by (cases a) (simp_all add: handler_def client_on_event_def server_on_event_def)
  then show "runs (seq [run_call E (Cm Ack_cm_event), handler a E ESTABLISHED cid v])"
    by (auto intro!: runs_intro simp: runs_basic)
qed

lemma poll_enabled:
  assumes half: "half_ok L m R text S a ss rs c" and ok: "calls_ok (env L a)"
    and go: "case waits (side S a) of None \<Rightarrow> cqes (side S a) \<noteq> [] | Some (p, k) \<Rightarrow> up S a"
  shows "\<exists>S'. do_move L (Poll a) S = Some S' \<and> down S' = down S"
proof -
  note d = side_okD [OF half_okD(1) [OF half]] and l = half_okD(2) [OF half]
  have "\<exists>sd. run_poller (env L a) (side S a) = Run sd
    \<and> (case waits (side S a) of None \<Rightarrow> cqes (side S a) \<noteq> [] | Some (p, k) \<Rightarrow> p (prc (side S a)))"
  proof (cases "waits (side S a)")
    case None
    then obtain w q where q: "cqes (side S a) = w # q" using go by (cases "cqes (side S a)") auto
    then have "good_wc (conn_of L a) w" using l by (simp add: link_ok_def)
    then obtain op where "w = rw_wc (conn_of L a) op" by (auto simp: good_wc_def)
    then show ?thesis
      using noexit_after_turn [OF noexit_poll_cq [OF ok]] q None by (simp add: run_poller_def)
  next
    case (Some x)
    then obtain h where x: "x = (is_connected (conn_of L a), resume (env L a) (conn_of L a) h)"
      using d(12) by (cases x) (auto simp: waiting_ok_def)
    have "is_connected (conn_of L a) (prc (side S a))"
      using go Some x d(1,8) by (simp add: is_connected_def conn_at_Some)
    then show ?thesis
      using noexit_after_turn [OF noexit_resume [OF ok]] Some x by (simp add: run_poller_def)
  qed
  then show ?thesis by (auto simp: Let_def)
qed

lemma execute_enabled:
  assumes half: "\<And>x. half_ok L m R text S x (ss x) (rs x) (c x)"
    and still: "\<And>x. acked S x = executed S x \<and> cqes (side S x) = []"
    and n: "executed S a < length (posted S a)"
  shows "\<exists>S'. do_move L (Execute a) S = Some S' \<and> down S' = down S"
proof -
  let ?b = "other a"
  note nr = next_request [OF half refl n]
  note d = side_okD [OF half_okD(1) [OF half [of a]]] and d' = side_okD [OF half_okD(1) [OF half [of ?b]]]
  have rs: "rs ?b = msgs (executed S a)" using half_okD(2) [OF half [of ?b]] still [of ?b] by (simp add: link_ok_def)
  have "executed S a = 0 \<or> executed S a = 1 \<or> executed S a = 2" using nr(2) by linarith
  then show ?thesis
  proof (elim disjE)
    assume 1: "executed S a = 1"
    have "rs a \<noteq> 0" using nr(5) 1 by simp
    then have "peer_mr (c a) = mr_contents (R ?b)" using d(10) by simp
    then show ?thesis
      using n nr(1) still 1 d(1) d'(1,9)
      by (auto simp: execute_def Let_def script_def rdma_wr_def mr_contents_def)
  next
    assume 0: "executed S a = 0"
    then have "0 < recvs (hist (proc_of S ?b))" using d'(13) by (auto simp: hist_ok_def)
    then show ?thesis
      using n nr(1,3) still 0 d(1) d'(1) by (auto simp: execute_def Let_def script_def rw_message_wr_def msgs_def)
  next
    assume 2: "executed S a = 2"
    then have "recvs (hist (proc_of S ?b)) = 2" using d'(13) rs by (simp add: hist_ok_def msgs_def)
    then show ?thesis
      using n nr(1,3) still 2 d(1) d'(1) by (auto simp: execute_def Let_def script_def rw_message_wr_def msgs_def)
  qed
qed

lemma all_done:
  assumes half: "\<And>x. half_ok L m R text S x (ss x) (rs x) (c x)"
    and still: "\<And>x. acked S x = executed S x \<and> cqes (side S x) = [] \<and> up S x \<and> waits (side S x) = None"
    and n: "\<And>x. \<not> executed S x < length (posted S x)"
  shows "over (ss x) (rs x)"
proof -
  have ss: "ss x = executed S x" and rs: "rs x = msgs (executed S (other x))" for x
    using half_okD(2) [OF half [of x]] still [of x] by (auto simp: link_ok_def)
  have k: "executed S x = n_posted x True False (ss x) (rs x)" for x
  proof -
    have "posted S x = take (n_posted x True False (ss x) (rs x)) (script m (c x) (conn_of L x))"
      using side_okD(13) [OF half_okD(1) [OF half [of x]]] still [of x] by (simp add: hist_ok_def)
    moreover have "executed S x \<le> n_posted x (up S x) (waits (side S x) \<noteq> None) (ss x) (rs x)"
      using half_okD(2) [OF half [of x]] unfolding link_ok_def by blast
    moreover from this have "executed S x \<le> n_posted x True False (ss x) (rs x)" using still [of x] by simp
    ultimately show ?thesis using n [of x] n_posted_le(1) [of x True False "ss x" "rs x"] by simp
  qed
  have c: "1 \<le> executed S Client" using k [of Client] by (auto simp: n_posted_def split: if_splits)
  then have s: "1 \<le> executed S Server" using k [of Server] rs [of Server] by (auto simp: n_posted_def msgs_def split: if_splits)
  have "executed S x = 3" for x
    using c s k [of x] ss [of x] rs [of x] by (cases x) (auto simp: n_posted_def msgs_def split: if_splits)
  then show ?thesis using ss rs by (simp add: over_def msgs_def)
qed

lemma pair_advances:
  assumes inv: "pair_ok L m R text S" and ok: "\<And>a. calls_ok (env L a)"
  shows "(\<forall>a. remote_printed (proc_of S a) = [text (other a)])
    \<or> (\<exists>mv S'. do_move L mv S = Some S' \<and> down S' = down S)"
proof -
  obtain ss rs c where half: "\<And>x. half_ok L m R text S x (ss x) (rs x) (c x)"
    using inv by (auto simp: pair_ok_def)
  consider a where "\<not> up S a" | a where "acked S a < executed S a"
    | a where "up S a" "waits (side S a) \<noteq> None \<or> cqes (side S a) \<noteq> []"
    | a where "\<And>x. acked S x = executed S x \<and> cqes (side S x) = []" "executed S a < length (posted S a)"
    | "\<And>x. acked S x = executed S x \<and> cqes (side S x) = [] \<and> up S x \<and> waits (side S x) = None"
      "\<And>x. \<not> executed S x < length (posted S x)"
  proof -
    have "acked S x \<le> executed S x" for x using half_okD(2) [OF half [of x]] by (simp add: link_ok_def)
    then show ?thesis using that by (metis order_le_less)
  qed
  then show ?thesis
  proof cases
    case (1 a)
    obtain sd where "on_main L a ESTABLISHED S = Some (set_side a sd S)"
      using connect_runs [OF ok, of a a "id_of L a" 0 "side S a"] by (auto simp: on_main_def)
    then have "do_move L (Establish a) S = Some ((set_side a sd S)\<lparr>up := (up S)(a := True)\<rparr>)" using 1 by simp
    then show ?thesis by fastforce
  next
    case (2 a)
    then have "\<exists>S'. do_move L (Acknowledge a) S = Some S' \<and> down S' = down S" by (simp add: Let_def)
    then show ?thesis by blast
  next
    case (3 a)
    then have "case waits (side S a) of None \<Rightarrow> cqes (side S a) \<noteq> [] | Some (p, k) \<Rightarrow> up S a"
      by (cases "waits (side S a)") auto
    then show ?thesis using poll_enabled [OF half ok, of a] by blast
  next
    case (4 a)
    then show ?thesis using execute_enabled [OF half] by blast
  next
    case 5
    have "remote_printed (proc_of S a) = [text (other a)]" for a
      using side_okD(13) [OF half_okD(1) [OF half [of a]]] all_done [OF half 5] by (simp add: hist_ok_def)
    then show ?thesis by blast
  qed
qed

section \<open>A run to the end\<close>

definition undropped :: "rw_sys \<Rightarrow> bool" where
  "undropped S \<longleftrightarrow> (\<forall>a. \<not> down S a)"

lemma starts_undropped: "starts L m S \<Longrightarrow> undropped S"
  by (simp add: starts_def undropped_def)

lemma starts_quiet:
  assumes "starts L m S"
  shows "disconnects (hist (proc_of S a)) = 0"
proof -
  obtain s v where "idle s m" "handler a (env L a) (build_of a) (id_of L a) v s = Run (proc_of S a)"
    using assms unfolding starts_def by blast
  then show ?thesis using handler_builds(1) by (simp add: building_def)
qed

lemma reach_undropped:
  assumes "starts L m S0" and "prompt L" and "(rw_step L)\<^sup>*\<^sup>* S0 S" and "undropped S"
  shows "pair_ok L m (region_of L S0) (own_message L S0) S"
  using reach_pair_ok [OF assms(3,2) starts_pair_ok [OF assms(1)]] assms(4) by (auto simp: undropped_def)

lemma runs_to_end:
  assumes st: "starts L m S0" and pr: "prompt L" and ok: "\<And>a. calls_ok (env L a)"
    and reach: "(rw_step L)\<^sup>*\<^sup>* S0 S" and un: "undropped S"
  shows "\<exists>S'. (rw_step L)\<^sup>*\<^sup>* S S' \<and> undropped S'
    \<and> (\<forall>a. remote_printed (proc_of S' a) = [own_message L S0 (other a)])"
  using reach un
proof (induction "nat (28 - progress S)" arbitrary: S rule: less_induct)
  case less
  note inv = reach_undropped [OF st pr less.prems]
  from pair_advances [OF inv ok] show ?case
  proof
    assume "\<forall>a. remote_printed (proc_of S a) = [own_message L S0 (other a)]"
    then show ?thesis using less.prems by blast
  next
    assume "\<exists>mv S'. do_move L mv S = Some S' \<and> down S' = down S"
    then obtain mv S1 where mv: "do_move L mv S = Some S1" "undropped S1"
      using less.prems(2) by (auto simp: undropped_def)
    have s1: "rw_step L S S1" by (rule rw_step.move [OF mv(1)])
    have r1: "(rw_step L)\<^sup>*\<^sup>* S0 S1" using less.prems(1) s1 by simp
    have "progress S < progress S1" "progress S1 \<le> 28"
      using rw_progress_step [OF inv mv(1)] progress_bound [OF reach_undropped [OF st pr r1 mv(2)]] mv(2)
      by (auto simp: undropped_def)
    then have "nat (28 - progress S1) < nat (28 - progress S)" by simp
    from less.hyps [OF this r1 mv(2)] show ?thesis using s1 by (meson converse_rtranclp_into_rtranclp)
  qed
qed

text \<open>A move changes the history of one side only.\<close>

lemma one_side:
  assumes "do_move L mv S = Some S'"
  shows "\<exists>a. hist (proc_of S' a) = hist (proc_of S a)"
proof (cases mv)
  case (Establish a)
  then show ?thesis using assms on_main_kept by (intro exI [of _ "other a"]) (auto split: if_splits)
next
  case (Drop a)
  then show ?thesis using assms on_main_kept by (intro exI [of _ "other a"]) (auto split: if_splits)
next
  case (Execute a)
  have "hist (prc (store_conn p f sd)) = hist (prc sd)" "hist (prc (queue_wc w sd)) = hist (prc sd)" for p f w sd
    by (simp_all add: store_conn_def queue_wc_def Let_def)
  then show ?thesis
    using execute_cases [of L a S S'] assms Execute by (intro exI [of _ "other a"]) (auto split: if_splits)
next
  case (Acknowledge a)
  then show ?thesis using assms by (intro exI [of _ "other a"]) (auto simp: Let_def split: if_splits)
next
  case (Poll a)
  then show ?thesis
    using assms by (intro exI [of _ "other a"]) (auto simp: Let_def split: if_splits outcome.splits)
qed

text \<open>On the way to the end there is a state in which just one side is through.\<close>

definition through :: "rw_sys \<Rightarrow> who \<Rightarrow> bool" where
  "through S a \<longleftrightarrow> disconnects (hist (proc_of S a)) \<noteq> 0"

lemma first_through:
  assumes "(rw_step L)\<^sup>*\<^sup>* S S'" and "\<And>a. \<not> through S a" and "\<And>a. through S' a"
    and "undropped S'"
  shows "\<exists>S1 a. (rw_step L)\<^sup>*\<^sup>* S S1 \<and> undropped S1 \<and> through S1 a \<and> \<not> through S1 (other a)"
proof -
  have "(\<exists>S1 a. (rw_step L)\<^sup>*\<^sup>* S S1 \<and> undropped S1 \<and> through S1 a \<and> \<not> through S1 (other a))
      \<or> (\<forall>a. \<not> through S' a)"
    using assms(1,4)
  proof (induction rule: rtranclp_induct)
    case base
    then show ?case using assms(2) by blast
  next
    case (step S1 S2)
    obtain mv where mv: "do_move L mv S1 = Some S2" using step.hyps(2) by (rule rw_stepE)
    have "undropped S1" using step.prems down_kept [OF mv] by (auto simp: undropped_def)
    moreover obtain a where "hist (proc_of S2 a) = hist (proc_of S1 a)" using one_side [OF mv] by blast
    then have "through S2 a \<longleftrightarrow> through S1 a" by (simp add: through_def)
    moreover have "(rw_step L)\<^sup>*\<^sup>* S S2" using step.hyps by simp
    ultimately show ?case using step.IH step.prems by (metis neq_other)
  qed
  then show ?thesis using assms(3) by blast
qed

text \<open>A side that is through has nothing left to hear of; the other one has.\<close>

lemma other_waits:
  assumes half: "\<And>x. half_ok L m R text S x (ss x) (rs x) (c x)" and a: "through S a" "\<not> through S (other a)"
  shows "cqes (side S (other a)) \<noteq> [] \<or> acked S (other a) < executed S (other a)"
proof (rule ccontr)
  let ?b = "other a"
  assume "\<not> ?thesis"
  then have q: "cqes (side S ?b) = []" "acked S ?b = executed S ?b"
    using half_okD(2) [OF half [of ?b]] by (auto simp: link_ok_def)
  note h = side_okD(13) [OF half_okD(1) [OF half], unfolded hist_ok_def]
  have "over (ss a) (rs a)" "\<not> over (ss ?b) (rs ?b)"
    using h [of a] h [of ?b] a by (auto simp: through_def split: if_splits)
  moreover from this have "3 \<le> executed S a" "3 \<le> executed S ?b"
    using half_okD(2) [OF half [of a]] by (auto simp: over_def link_ok_def msgs_def split: if_splits)
  moreover have "executed S ?b \<le> 3"
    using half_okD(2) [OF half [of ?b]] n_posted_le(1) [of ?b "up S ?b" "waits (side S ?b) \<noteq> None" "ss ?b" "rs ?b"]
    by (auto simp: link_ok_def)
  ultimately show False
    using half_okD(2) [OF half [of ?b]] q by (auto simp: over_def link_ok_def msgs_def)
qed

lemma queue_fills:
  assumes st: "starts L m S0" and pr: "prompt L"
    and reach: "(rw_step L)\<^sup>*\<^sup>* S0 S" and un: "undropped S" and a: "through S a" "\<not> through S (other a)"
  shows "\<exists>S'. (rw_step L)\<^sup>*\<^sup>* S0 S' \<and> undropped S' \<and> through S' a \<and> cqes (side S' (other a)) \<noteq> []"
proof -
  obtain ss rs c where half: "\<And>x. half_ok L m (region_of L S0) (own_message L S0) S x (ss x) (rs x) (c x)"
    using reach_undropped [OF st pr reach un] by (auto simp: pair_ok_def)
  show ?thesis
  proof (cases "cqes (side S (other a)) = []")
    case False
    then show ?thesis using reach un a by blast
  next
    case True
    then have "acked S (other a) < executed S (other a)" using other_waits [OF half a] by blast
    then obtain S' where S': "do_move L (Acknowledge (other a)) S = Some S'" by (auto simp: Let_def)
    then have "undropped S'" "through S' a" "cqes (side S' (other a)) \<noteq> []"
      using un a(1) by (auto simp: Let_def undropped_def through_def queue_wc_def split: if_splits)
    then show ?thesis using reach rw_step.move [OF S'] by (meson rtranclp.rtrancl_into_rtrancl)
  qed
qed

text \<open>\<open>destroy_connection\<close> gives everything back and forgets the connection.\<close>

lemma seq_run_calls: "\<exists>h. seq (map (run_call E) cs @ [assign f]) s = Run (f (s\<lparr>hist := h\<rparr>))"
proof (induction cs arbitrary: s)
  case Nil
  have "s\<lparr>hist := hist s\<rparr> = s" by simp
  then show ?case by (auto simp: cmd_simps intro: exI [of _ "hist s"])
next
  case (Cons c cs)
  then show ?case using Cons.IH [of "s\<lparr>hist := (c, ret E (hist s) c) # hist s\<rparr>"] by (simp add: cmd_simps)
qed

lemma destroy_frees: "\<exists>s'. destroy_connection E p s = Run s' \<and> conns s' p = None"
proof -
  let ?c = "conn_at s p"
  obtain h where "seq (map (run_call E) [Cm (Rdma_destroy_qp (conn_id ?c)), Ibv (Dereg_mr (mr_self (send_mr ?c))),
      Ibv (Dereg_mr (mr_self (recv_mr ?c))), Ibv (Dereg_mr (mr_self (rdma_local_mr ?c))),
      Ibv (Dereg_mr (mr_self (rdma_remote_mr ?c))), Libc (Free (send_msg_ptr ?c)), Libc (Free (recv_msg_ptr ?c)),
      Libc (Free (rdma_local_ptr ?c)), Libc (Free (rdma_remote_ptr ?c)), Cm (Destroy_id (conn_id ?c)), Libc (Free p)]
      @ [assign (\<lambda>s. s\<lparr>conns := (conns s)(p := None)\<rparr>)]) s = Run (s\<lparr>hist := h, conns := (conns (s\<lparr>hist := h\<rparr>))(p := None)\<rparr>)"
    using seq_run_calls [of E _ "\<lambda>s. s\<lparr>conns := (conns s)(p := None)\<rparr>" s] by blast
  then show ?thesis unfolding destroy_connection_def look_def Let_def list.map append.simps by auto
qed

text \<open>The event of the disconnect: the connection is freed, whatever is still queued.\<close>

lemma drop_frees:
  assumes half: "half_ok L m R text S b ss rs c" and un: "undropped S" and a: "through S a"
  shows "\<exists>S'. do_move L (Drop b) S = Some S' \<and> conns (proc_of S' b) (conn_of L b) = None
    \<and> cqes (side S' b) = cqes (side S b) \<and> side S' (other b) = side S (other b)"
proof -
  note d = side_okD [OF half_okD(1) [OF half]]
  have "\<exists>s'. handler b (env L b) DISCONNECTED (id_of L b) 0 ((proc_of S b)\<lparr>hist := h\<rparr>) = Run s'
      \<and> conns s' (conn_of L b) = None" for h
    using destroy_frees [of "env L b" "conn_of L b" "(proc_of S b)\<lparr>hist := h\<rparr>"] d(2)
    by (cases b) (auto simp: handler_def client_on_event_def server_on_event_def client_on_disconnect_def
        server_on_disconnect_def look_def)
  from this [of "(Cm Ack_cm_event, ret (env L b) (hist (proc_of S b)) (Cm Ack_cm_event)) # hist (proc_of S b)"]
  obtain sd where "run_main (seq [run_call (env L b) (Cm Ack_cm_event),
      handler b (env L b) DISCONNECTED (id_of L b) 0]) (side S b) = Run sd" "conns (prc sd) (conn_of L b) = None"
    by (auto simp: run_main_def cmd_simps)
  moreover from this have "cqes sd = cqes (side S b)" by (auto simp: run_main_def split: outcome.splits)
  moreover have "\<exists>x \<in> {Client, Server}. 0 < disconnects (hist (proc_of S x))"
    using a by (cases a) (auto simp: through_def)
  ultimately show ?thesis using un by (auto simp: on_main_def undropped_def)
qed

section \<open>An acknowledgement that comes late\<close>

text \<open>
  The state in which the server's answer is about to be executed: the client's own message has
  arrived, but its completion has not been reported.
\<close>

definition answered :: "link \<Rightarrow> mode \<Rightarrow> (who \<Rightarrow> mr) \<Rightarrow> (who \<Rightarrow> string) \<Rightarrow> rw_sys \<Rightarrow> bool" where
  "answered L m R text S \<longleftrightarrow> undropped S \<and> executed S = (\<lambda>x. 0)(Client := 1) \<and> acked S = (\<lambda>x. 0)
     \<and> cqes (side S Client) = [] \<and> waits (side S Client) = None
     \<and> (\<exists>c c'. side_ok L m R text Client True (side S Client) 0 0 c
        \<and> side_ok L m R text Server True (side S Server) 0 1 c' \<and> waits (side S Server) = None)"

lemma both_establish:
  assumes st: "starts L m S0" and ok: "\<And>a. calls_ok (env L a)"
  shows "\<exists>S. (rw_step L)\<^sup>*\<^sup>* S0 S \<and> undropped S \<and> pair_ok L m (region_of L S0) (own_message L S0) S
    \<and> (\<forall>a. executed S a = 0 \<and> acked S a = 0 \<and> up S a \<and> cqes (side S a) = [] \<and> waits (side S a) = None)"
proof -
  let ?P = "pair_ok L m (region_of L S0) (own_message L S0)"
  have go: "\<exists>S'. do_move L (Establish a) S = Some S' \<and> ?P S' \<and> executed S' = executed S \<and> acked S' = acked S
      \<and> up S' = (up S)(a := True) \<and> (\<forall>x. cqes (side S' x) = cqes (side S x) \<and> waits (side S' x) = waits (side S x))
      \<and> down S' = down S"
    if "?P S" "\<not> up S a" for a S
  proof -
    obtain sd where sd: "on_main L a ESTABLISHED S = Some (set_side a sd S)"
      using connect_runs [OF ok, of a a "id_of L a" 0 "side S a"] by (auto simp: on_main_def)
    then show ?thesis
      using step_establish [OF that(1,2) sd] on_main_kept [OF sd] that(2) by (auto simp: neq_other)
  qed
  obtain S1 where S1: "do_move L (Establish Client) S0 = Some S1" "?P S1" "executed S1 = executed S0" "acked S1 = acked S0"
    "up S1 = (up S0)(Client := True)" "\<And>x. cqes (side S1 x) = cqes (side S0 x) \<and> waits (side S1 x) = waits (side S0 x)"
    "down S1 = down S0"
    using go [OF starts_pair_ok [OF st], of Client] st by (auto simp: starts_def)
  obtain S2 where S2: "do_move L (Establish Server) S1 = Some S2" "?P S2" "executed S2 = executed S1" "acked S2 = acked S1"
    "up S2 = (up S1)(Server := True)" "\<And>x. cqes (side S2 x) = cqes (side S1 x) \<and> waits (side S2 x) = waits (side S1 x)"
    "down S2 = down S1"
    using go [OF S1(2), of Server] S1(5) st by (auto simp: starts_def)
  have "(rw_step L)\<^sup>*\<^sup>* S0 S2"
    by (rule do_moves_steps [of _ "[Establish Client, Establish Server]"]) (simp add: S1(1) S2(1) del: do_move.simps)
  moreover have "up S2 a" for a using S1(5) S2(5) by (cases a) simp_all
  moreover have "undropped S2" using S1(7) S2(7) starts_undropped [OF st] by (simp add: undropped_def)
  moreover have "executed S2 a = 0 \<and> acked S2 a = 0 \<and> cqes (side S2 a) = [] \<and> waits (side S2 a) = None" for a
    using S1(3,4,6) S2(3,4,6) st by (simp add: starts_def)
  ultimately show ?thesis using S2(2) by blast
qed

lemma server_first_message:
  assumes "side_ok L m R text Server True sd 0 0 c" and "waits sd = None"
    and "cqes sd = [rw_wc (conn_of L Server) WC_RECV]" and "recv_msg c = mr_message (R Client)"
    and "run_poller (env L Server) sd = Run sd'"
  shows "\<exists>c'. side_ok L m R text Server True sd' 0 1 c' \<and> waits sd' = None"
proof -
  have 0: "0 \<le> (1 :: nat)" "0 \<le> n_posted Server True False 0 0" by simp_all
  have msg: "if (0 :: nat) = 0 then recv_msg c = mr_message (R (other Server)) else msg_type (recv_msg c) = MSG_DONE"
    using assms(4) by simp
  have lim: "0 = (0 :: nat) \<Longrightarrow> Server = Server \<and> 0 = (0 :: nat)" by simp
  have peer: "0 = (3 :: nat) \<Longrightarrow> 0 = (1 :: nat) \<Longrightarrow>
      cstr (read_at (get_peer_message_region m c) RDMA_BUFFER_SIZE) = text (other Server)"
    using zero_neq_numeral by blast
  have "\<exists>c'. side_ok L m R text Server True sd' 0 (Suc 0) c' \<and> same_regions c c' \<and> cqes sd' = []
      \<and> (waits sd' \<noteq> None \<longrightarrow> Server = Server \<and> \<not> True)"
    by (rule turn_recv [OF assms(1,2,3) 0(1) msg lim 0(2) peer assms(5)])
  then show ?thesis by (cases "waits sd'") auto
qed

lemma server_answers:
  assumes st: "starts L m S0" and pr: "\<not> prompt L" and ok: "\<And>a. calls_ok (env L a)"
  shows "\<exists>S. (rw_step L)\<^sup>*\<^sup>* S0 S \<and> answered L m (region_of L S0) (own_message L S0) S"
proof -
  let ?half = "half_ok L m (region_of L S0) (own_message L S0)"
  obtain S ss rs c where S: "(rw_step L)\<^sup>*\<^sup>* S0 S" "undropped S"
      "\<And>x. ?half S x (ss x) (rs x) (c x)"
    and z: "\<And>a. executed S a = 0 \<and> acked S a = 0 \<and> up S a \<and> cqes (side S a) = [] \<and> waits (side S a) = None"
    using both_establish [OF st ok] unfolding pair_ok_def by blast
  have "ss x = 0 \<and> rs x = 0" for x using half_okD(2) [OF S(3) [of x]] z by (simp add: link_ok_def msgs_def)
  then have half: "?half S x 0 0 (c x)" for x using S(3) [of x] by simp
  note d = side_okD [OF half_okD(1) [OF half]]
  have n: "0 < length (posted S Client)"
    using d(13) [of Client] z [of Client] by (auto simp: hist_ok_def n_posted_def script_def)
  obtain S1 where S1: "do_move L (Execute Client) S = Some S1" "down S1 = down S"
    using execute_enabled [OF half, of Client] z n by auto
  note nr = next_request [OF half refl, of Client, unfolded z [THEN conjunct1, of Client], OF n]
  have S1': "S1 = set_side Server (queue_wc (rw_wc (conn_of L Server) WC_RECV)
      (store_conn (conn_of L Server) (\<lambda>x. x\<lparr>recv_msg := send_msg (c Client)\<rparr>) (side S Server)))
      (S\<lparr>executed := (executed S)(Client := 1)\<rparr>)"
    using S1(1) z n nr(1) d(1) [of Client] d(1) [of Server]
    by (auto simp: execute_def Let_def script_def rw_message_wr_def split: if_splits)
  have one: "\<not> executed S Client = 1" "executed S Client = 0" using z by simp_all
  have "pair_ok L m (region_of L S0) (own_message L S0) S1"
  proof (rule execute_message [OF half half _ refl n [folded one(2)]])
    show "S1 = set_side (other Client) (queue_wc (rw_wc (conn_of L (other Client)) WC_RECV)
        (store_conn (conn_of L (other Client)) (\<lambda>x. x\<lparr>recv_msg := send_msg (c Client)\<rparr>) (side S (other Client))))
        (S\<lparr>executed := (executed S)(Client := Suc (executed S Client))\<rparr>)" using S1' z by simp
    show "int (msgs (executed S Client)) < recvs (hist (proc_of S (other Client)))"
      using d(13) [of Server] z by (simp add: hist_ok_def msgs_def)
  qed (use z in auto)
  then obtain ss' rs' c' where half': "\<And>x. ?half S1 x (ss' x) (rs' x) (c' x)" by (auto simp: pair_ok_def)
  have q: "cqes (side S1 Server) = [rw_wc (conn_of L Server) WC_RECV]" "waits (side S1 Server) = None"
      "executed S1 Client = 1" "executed S1 Server = 0" "acked S1 x = 0" "up S1 x" "side S1 Client = side S Client" for x
    using S1' z by simp_all
  have "ss' x = 0 \<and> rs' x = 0" for x
    using half_okD(2) [OF half' [of x]] q z by (cases x) (auto simp: link_ok_def msgs_def)
  then have half': "?half S1 x 0 0 (c' x)" for x using half' [of x] by simp
  obtain S2 where S2: "do_move L (Poll Server) S1 = Some S2"
    using poll_enabled [OF half' [of Server] ok] q by auto
  then obtain sd where run: "run_poller (env L Server) (side S1 Server) = Run sd" and S2': "S2 = set_side Server sd S1"
    using q by (auto simp: Let_def split: outcome.splits)
  have k: "n_posted Server u w 0 0 = 0" for u w by (simp add: n_posted_def)
  have "recv_msg (c' Server) = mr_message (region_of L S0 (other Server))"
    using half_okD(2) [OF half' [of Server]] q(1) by (simp add: link_ok_def)
  then obtain c'' where c'': "side_ok L m (region_of L S0) (own_message L S0) Server True sd 0 1 c''" "waits sd = None"
    using server_first_message [OF _ q(2,1) _ run, of m "region_of L S0" "own_message L S0" "c' Server"]
      half_okD(1) [OF half' [of Server]] q(6) [of Server] by auto
  have "(rw_step L)\<^sup>*\<^sup>* S S2"
    by (rule do_moves_steps [of _ "[Execute Client, Poll Server]"]) (simp add: S1(1) S2 del: do_move.simps)
  then have "(rw_step L)\<^sup>*\<^sup>* S0 S2" using S(1) by simp
  moreover have "executed S2 = (\<lambda>x. 0)(Client := 1)" "acked S2 = (\<lambda>x. 0)"
    using S2' S1' z by (auto simp: fun_eq_iff)
  moreover have "undropped S2" using S(2) S1(2) S2' by (simp add: undropped_def)
  moreover have "side_ok L m (region_of L S0) (own_message L S0) Client True (side S2 Client) 0 0 (c Client)"
    using half_okD(1) [OF half [of Client]] z q(7) S2' by simp
  ultimately show ?thesis using c'' z q(7) S2' unfolding answered_def by (intro exI [of _ S2]) auto
qed

text \<open>The completion that is overtaken: the client answers the answer.\<close>

lemma client_answers_again:
  assumes ans: "answered L m R text S" and pr: "\<not> prompt L" and ok: "\<And>a. calls_ok (env L a)"
  shows "\<exists>S' w. (rw_step L)\<^sup>*\<^sup>* S S' \<and> undropped S' \<and> swr_opcode w = WR_SEND \<and> posted S' Client = [w, w]
    \<and> msg_type (send_msg (conn_at (proc_of S' Client) (conn_of L Client))) = MSG_MR"
proof -
  obtain c c' where C: "side_ok L m R text Client True (side S Client) 0 0 c"
    and D: "side_ok L m R text Server True (side S Server) 0 1 c'"
    and z: "undropped S" "executed S Server = 0" "cqes (side S Client) = []" "waits (side S Client) = None"
      "waits (side S Server) = None"
    using ans unfolding answered_def by auto
  note c = side_okD [OF C] and d = side_okD [OF D]
  let ?p = "conn_of L Client" and ?c = "c\<lparr>recv_msg := mr_message (R Server)\<rparr>"
  have sent: "posted S Server = [rw_message_wr c' (conn_of L Server)]" "send_msg c' = mr_message (R Server)"
    "posted S Client = [rw_message_wr c ?p]" "recvs (hist (proc_of S Client)) = 1"
    using d(13,15) c(13) z(4,5) by (simp_all add: hist_ok_def n_posted_def script_def)
  define sd where "sd = queue_wc (rw_wc ?p WC_RECV) (store_conn ?p (\<lambda>x. x\<lparr>recv_msg := mr_message (R Server)\<rparr>) (side S Client))"
  define S1 where "S1 = set_side Client sd (S\<lparr>executed := (executed S)(Server := 1)\<rparr>)"
  have S1: "do_move L (Execute Server) S = Some S1"
    using sent d(1) c(1) z(2) pr
    by (simp add: execute_def Let_def rw_message_wr_def messages_def S1_def sd_def)
  have p: "conns (prc sd) ?p = Some ?c" "hist (prc sd) = hist (proc_of S Client)" "waits sd = None"
    "cqes sd = [rw_wc ?p WC_RECV]"
    using c(1) z(3,4) by (simp_all add: sd_def store_conn_def queue_wc_def Let_def conn_at_Some)
  have u: "connected ?c \<noteq> 0" "send_state ?c = 0" using c(6,8) by simp_all
  have a: "answers ?c" "\<not> rdma_now (received ?c)" "\<not> done_now (received ?c)"
    using u by (simp_all add: answers_def mr_message_def rdma_now_def done_now_def state_defs)
  have e: "ends (advanced ?p (prc sd) (received ?c) [rw_message_wr ?c ?p] (rearms ?c)) (rw_poll_cq (env L Client) (rw_wc ?p WC_RECV) (prc sd))"
    using poll_recv [OF p(1), of "env L Client"] u a by simp
  have "\<exists>sd'. run_poller (env L Client) sd = Run sd'"
    unfolding run_poller_def p(3,4) option.case list.case by (rule noexit_after_turn [OF noexit_poll_cq [OF ok]])
  then obtain sd' where run: "run_poller (env L Client) sd = Run sd'" by blast
  obtain s' where s': "sd' = \<lparr>prc = s', cqes = [], waits = None\<rparr>"
    "advanced ?p (prc sd) (received ?c) [rw_message_wr ?c ?p] (rearms ?c) s'"
    using ends_after_turn [OF e] run unfolding run_poller_def p(3,4) option.case list.case by blast
  have S2: "do_move L (Poll Client) S1 = Some (set_side Client sd' S1)"
    using run p by (simp add: S1_def Let_def)
  have "(rw_step L)\<^sup>*\<^sup>* S (set_side Client sd' S1)"
    by (rule do_moves_steps [of _ "[Execute Server, Poll Client]"]) (simp add: S1 S2 del: do_move.simps)
  moreover have "undropped (set_side Client sd' S1)" using z(1) by (simp add: undropped_def S1_def)
  moreover have "rw_message_wr ?c ?p = rw_message_wr c ?p" by (simp add: rw_message_wr_def)
  moreover have "send_msg (received ?c) = mr_message (R Client)"
    using a(1) c(9) by (simp add: received_def answers_def Let_def)
  ultimately show ?thesis
    using s' a sent(3) p(2)
    by (intro exI [of _ "set_side Client sd' S1"] exI [of _ "rw_message_wr c ?p"])
      (simp add: advanced_def effect_def conn_at_Some mr_message_def, simp add: rw_message_wr_def)
qed

section \<open>A concrete pair\<close>

definition demo_ret :: "api \<Rightarrow> int" where
  "demo_ret c = (case c of
      Libc l \<Rightarrow> (case l of Malloc what \<Rightarrow> if what = ''connection'' then 7 else 8 | Getpid \<Rightarrow> 42 | _ \<Rightarrow> 0)
    | Ibv i \<Rightarrow> (case i of Alloc_pd v \<Rightarrow> 1 | Create_comp_channel v \<Rightarrow> 2 | Create_cq v n ch \<Rightarrow> 3
        | Reg_mr p a n acc \<Rightarrow> 4 | _ \<Rightarrow> 0)
    | _ \<Rightarrow> 0)"

definition demo_env :: api_env where
  "demo_env = const_env demo_ret (\<lambda>c. [])"

definition demo_process :: rw_process where
  "demo_process = \<lparr>hist = [], s_ctx = None, s_mode = M_WRITE, id_context = (\<lambda>i. 0),
     conns = Map.empty, remote_printed = []\<rparr>"

definition demo_side :: "who \<Rightarrow> rw_side" where
  "demo_side a = \<lparr>prc = final (handler a demo_env (build_of a) 5 0 demo_process), cqes = [], waits = None\<rparr>"

definition demo_link :: "bool \<Rightarrow> link" where
  "demo_link b = \<lparr>env = (\<lambda>a. demo_env), id_of = (\<lambda>a. 5), conn_of = (\<lambda>a. id_context (prc (demo_side a)) 5),
     prompt = b\<rparr>"

definition demo_sys :: rw_sys where
  "demo_sys = \<lparr>side = demo_side, executed = (\<lambda>a. 0), acked = (\<lambda>a. 0), up = (\<lambda>a. False), down = (\<lambda>a. False)\<rparr>"

lemma demo_calls: "calls_ok demo_env" "pids_ok demo_env"
  by (simp_all add: calls_ok_def pids_ok_def demo_env_def const_env_def demo_ret_def)

lemma demo_env_ret [simp]: "ret demo_env h c = demo_ret c"
  by (simp add: demo_env_def const_env_def)

lemma runs_TEST_Z: "(\<And>h. ret E h c \<noteq> 0) \<Longrightarrow> (\<And>r. runs (k r)) \<Longrightarrow> runs (TEST_Z E x c k)"
  by (simp add: runs_def cmd_simps)

lemma runs_if: "runs c \<Longrightarrow> runs d \<Longrightarrow> runs (if_cmd b c d)"
  by (simp add: runs_def if_cmd_def)

lemma demo_context: "s_ctx s = None \<Longrightarrow> running (rw_build_context demo_env v s)"
proof -
  assume "s_ctx s = None"
  have "runs (call demo_env (Libc (Malloc ''context'')) (\<lambda>_.
        TEST_Z demo_env ''ibv_alloc_pd'' (Ibv (Alloc_pd v)) (\<lambda>p.
        TEST_Z demo_env ''ibv_create_comp_channel'' (Ibv (Create_comp_channel v)) (\<lambda>ch.
        TEST_Z demo_env ''ibv_create_cq'' (Ibv (Create_cq v 10 ch)) (\<lambda>q. seq [
          assign (\<lambda>s. s\<lparr>s_ctx := Some \<lparr>ctx_verbs = v, ctx_pd = p, ctx_cq = q, ctx_channel = ch\<rparr>\<rparr>),
          TEST_NZ demo_env ''ibv_req_notify_cq'' (Data (Req_notify_cq q)),
          TEST_NZ demo_env ''pthread_create'' (Libc (Pthread_create ''poll_cq''))])))) :: rw_process cmd)"
    by (intro runs_call runs_TEST_Z runs_seq) (simp_all add: demo_ret_def runs_basic runs_TEST_NZ)
  then show ?thesis using \<open>s_ctx s = None\<close> by (simp add: rw_build_context_def look_def runs_def)
qed

lemma demo_rest:
  "runs (register_memory demo_env p)" "runs (post_receives demo_env p)" "runs (write_message demo_env cid what)"
  unfolding register_memory_def malloc_to_def register_to_def reg_mr_def post_receives_def write_message_def Let_def
  by (auto intro!: runs_look runs_call runs_TEST_Z runs_seq runs_TEST_NZ runs_upd_conn simp: demo_ret_def)

lemma running_seq: "running (c s) \<Longrightarrow> list_all runs cs \<Longrightarrow> running (seq (c # cs) s)"
  using runs_seq [of cs] by (cases "c s") (auto simp: runs_def)

lemma demo_builds: "running (handler a demo_env (build_of a) cid v demo_process)"
proof -
  have "running (rw_build_connection demo_env cid v demo_process)"
    unfolding rw_build_connection_def
    by (rule running_seq [OF demo_context])
      (auto intro!: runs_look runs_call runs_seq runs_TEST_NZ runs_upd_conn runs_basic demo_rest
        simp: demo_process_def demo_ret_def)
  then show ?thesis
    by (cases a)
      (auto intro!: running_seq runs_TEST_NZ demo_rest simp: handler_def build_of_def client_on_event_def
        server_on_event_def on_addr_resolved_def on_connect_request_def demo_ret_def simp del: seq.simps(2))
qed

lemma rw_demo_starts: "starts (demo_link b) M_WRITE demo_sys"
proof -
  have "idle demo_process M_WRITE" by (simp add: idle_def demo_process_def)
  then show ?thesis
    using running_final [OF demo_builds] unfolding starts_def
    by (auto simp: demo_sys_def demo_link_def demo_side_def)
qed

section \<open>Properties\<close>

text \<open>
  C20: in every state a client and a server of the read-write example can reach before a disconnect
  is handled, when acknowledgements are prompt, each side has posted nothing, its region's description,
  or the description, one RDMA write (or read) of the whole buffer to the region the peer has described,
  and the message \<open>MSG_DONE\<close>; and it has either printed and disconnected nothing yet, or, with all three
  posted, printed once and disconnected once: exactly the greeting the other side had written into its
  own region, with the identifier \<open>getpid\<close> gave that process.
\<close>

theorem exchange_delivers:
  assumes "starts L m S0" and "prompt L" and "\<And>a. pids_ok (env L a)"
    and "(rw_step L)\<^sup>*\<^sup>* S0 S" and "undropped S"
  shows "\<exists>c n pid. conns (proc_of S a) (conn_of L a) = Some c
    \<and> (Libc Getpid, pid) \<in> set (hist (proc_of S0 (other a)))
    \<and> side_done L m (region_of L S0) (greeting (other a) pid) a c n (proc_of S a)"
  using own_message_greeting [OF assms(1,3), of "other a"]
    pair_ok_side(1) [OF reach_undropped [OF assms(1,2,4,5)], of a] by metis

text \<open>At the end of the run of a concrete pair both sides have printed.\<close>

lemma demo_end:
  obtains S where "(rw_step (demo_link True))\<^sup>*\<^sup>* demo_sys S" "undropped S"
    "\<And>a. remote_printed (proc_of S a) = [own_message (demo_link True) demo_sys (other a)]"
proof -
  have "calls_ok (env (demo_link True) a)" for a using demo_calls by (simp add: demo_link_def)
  then show ?thesis
    using runs_to_end [OF rw_demo_starts [of True], of demo_sys] starts_undropped [OF rw_demo_starts] that
    by (auto simp: demo_link_def)
qed

theorem exchange_delivers_witness:
  "\<exists>S pid. (rw_step (demo_link True))\<^sup>*\<^sup>* demo_sys S \<and> length (posted S Client) = 3
    \<and> remote_printed (proc_of S Client) = [greeting Server pid]"
proof -
  obtain S where S: "(rw_step (demo_link True))\<^sup>*\<^sup>* demo_sys S" "undropped S"
    "remote_printed (proc_of S Client) \<noteq> []"
    by (rule demo_end) force
  have "pids_ok (env (demo_link True) a)" for a using demo_calls by (simp add: demo_link_def)
  with exchange_delivers [OF rw_demo_starts [of True] _ _ S(1,2), of Client] S(1,3)
  show ?thesis by (force simp: demo_link_def side_done_def script_def)
qed

lemma rw_steps_progress:
  assumes "starts L m S0" and "prompt L" and "(rw_step L ^^ n) S0 S" and "undropped S"
  shows "progress S0 + int n \<le> progress S"
  using assms(3,4)
proof (induction n arbitrary: S)
  case (Suc n)
  then obtain S1 where S1: "(rw_step L ^^ n) S0 S1" "rw_step L S1 S" by auto
  obtain mv where mv: "do_move L mv S1 = Some S" using S1(2) by (rule rw_stepE)
  have un: "undropped S1" using Suc.prems(2) down_kept [OF mv] by (auto simp: undropped_def)
  have "progress S1 < progress S"
    using rw_progress_step [OF reach_undropped [OF assms(1,2) relpowp_imp_rtranclp [OF S1(1)] un] mv] Suc.prems(2)
    by (simp add: undropped_def)
  then show ?case using Suc.IH [OF S1(1) un] by simp
qed simp

text \<open>
  C21: with prompt acknowledgements, calls that succeed and no disconnect handled so far the exchange is
  never stuck: a state reached after \<open>n\<close> such steps has \<open>n \<le> 28\<close>, and either both sides have printed
  the other's message or a further step that handles no disconnect is possible.  (Without the prompt
  acknowledgements, and after a disconnect, the two properties that follow show what goes wrong.)
\<close>

theorem exchange_ends:
  assumes "starts L m S0" and "prompt L" and "\<And>a. calls_ok (env L a)"
    and "(rw_step L ^^ n) S0 S" and "undropped S"
  shows "n \<le> 28 \<and> ((\<forall>a. remote_printed (proc_of S a) = [own_message L S0 (other a)])
    \<or> (\<exists>S'. rw_step L S S' \<and> undropped S'))"
proof
  note reach = relpowp_imp_rtranclp [OF assms(4)]
  have "0 \<le> progress S0" using progress_bound(1) [OF starts_pair_ok [OF assms(1)]] .
  then show "n \<le> 28"
    using rw_steps_progress [OF assms(1,2,4,5)] progress_bound(2) [OF reach_undropped [OF assms(1,2) reach assms(5)]]
    by linarith
  show "(\<forall>a. remote_printed (proc_of S a) = [own_message L S0 (other a)])
    \<or> (\<exists>S'. rw_step L S S' \<and> undropped S')"
    using pair_advances [OF reach_undropped [OF assms(1,2) reach assms(5)] assms(3)] assms(5) rw_step.move
    by (fastforce simp: undropped_def)
qed

theorem exchange_ends_witness:
  "\<exists>n S. (rw_step (demo_link True) ^^ n) demo_sys S \<and> n \<le> 28 \<and> remote_printed (proc_of S Client) \<noteq> []"
proof -
  obtain S where S: "(rw_step (demo_link True))\<^sup>*\<^sup>* demo_sys S" "undropped S"
    "remote_printed (proc_of S Client) \<noteq> []"
    by (rule demo_end) force
  obtain n where n: "(rw_step (demo_link True) ^^ n) demo_sys S" using S(1) rtranclp_power by metis
  have "calls_ok (env (demo_link True) a)" for a using demo_calls by (simp add: demo_link_def)
  with exchange_ends [OF rw_demo_starts [of True] _ _ n S(2)] n S(3) show ?thesis
    by (auto simp: demo_link_def)
qed

text \<open>
  C22: when the client's own completion is overtaken by the server's answer (acknowledgements are not
  prompt), every start of the example leads to a state in which the client has sent its region's
  description twice and has not begun its RDMA.
\<close>

theorem late_acknowledgement_resends:
  assumes "starts L m S0" and "\<not> prompt L" and "\<And>a. calls_ok (env L a)"
  shows "\<exists>S w. (rw_step L)\<^sup>*\<^sup>* S0 S \<and> undropped S \<and> swr_opcode w = WR_SEND \<and> posted S Client = [w, w]
    \<and> msg_type (send_msg (conn_at (proc_of S Client) (conn_of L Client))) = MSG_MR"
proof -
  obtain S1 where S1: "(rw_step L)\<^sup>*\<^sup>* S0 S1" "answered L m (region_of L S0) (own_message L S0) S1"
    using server_answers [OF assms] by blast
  show ?thesis
    using client_answers_again [OF S1(2) assms(2,3)] S1(1) by (meson rtranclp_trans)
qed

theorem late_acknowledgement_resends_witness: "\<exists>S w. posted S Client = [w, w] \<and> swr_opcode w = WR_SEND"
proof -
  have "calls_ok (env (demo_link False) a)" for a using demo_calls by (simp add: demo_link_def)
  then show ?thesis
    using late_acknowledgement_resends [OF rw_demo_starts [of False]] by (auto simp: demo_link_def)
qed

text \<open>
  C23: even with prompt acknowledgements, every start of the example leads to a state in which one
  side is through and the other side has handled the disconnect: it has printed nothing and its
  connection is freed, but completions that name that connection still wait for its poller.
\<close>

theorem early_disconnect_frees:
  assumes "starts L m S0" and "prompt L" and "\<And>a. calls_ok (env L a)"
  shows "\<exists>S a. (rw_step L)\<^sup>*\<^sup>* S0 S \<and> through S (other a) \<and> conns (proc_of S a) (conn_of L a) = None
    \<and> cqes (side S a) \<noteq> [] \<and> (\<forall>w \<in> set (cqes (side S a)). wc_wr_id w = conn_of L a)"
proof -
  obtain S1 where S1: "(rw_step L)\<^sup>*\<^sup>* S0 S1" "undropped S1"
    "\<And>a. remote_printed (proc_of S1 a) = [own_message L S0 (other a)]"
    using runs_to_end [OF assms rtranclp.rtrancl_refl starts_undropped [OF assms(1)]] by blast
  have "through S1 a" for a
    using pair_ok_side(2) [OF reach_undropped [OF assms(1,2) S1(1,2)], of a] S1(3) [of a]
    by (cases "disconnects (hist (proc_of S1 a))") (simp_all add: through_def)
  then obtain S2 a where S2: "(rw_step L)\<^sup>*\<^sup>* S0 S2" "undropped S2" "through S2 a" "\<not> through S2 (other a)"
    using first_through [OF S1(1) _ _ S1(2)] starts_quiet [OF assms(1)] by (auto simp: through_def)
  obtain S3 where S3: "(rw_step L)\<^sup>*\<^sup>* S0 S3" "undropped S3" "through S3 a" "cqes (side S3 (other a)) \<noteq> []"
    using queue_fills [OF assms(1,2) S2] by blast
  obtain ss rs c where half: "half_ok L m (region_of L S0) (own_message L S0) S3 (other a) ss rs c"
    using reach_undropped [OF assms(1,2) S3(1,2)] by (auto simp: pair_ok_def)
  obtain S where S: "do_move L (Drop (other a)) S3 = Some S" "conns (proc_of S (other a)) (conn_of L (other a)) = None"
    "cqes (side S (other a)) = cqes (side S3 (other a))" "side S a = side S3 a"
    using drop_frees [OF half S3(2,3)] by auto
  have "\<forall>w \<in> set (cqes (side S (other a))). wc_wr_id w = conn_of L (other a)"
    using half_okD(2) [OF half] S(3) by (auto simp: link_ok_def list_all_iff good_wc_def)
  moreover have "(rw_step L)\<^sup>*\<^sup>* S0 S" using S3(1) rw_step.move [OF S(1)] by simp
  ultimately show ?thesis
    using S S3 by (intro exI [of _ S] exI [of _ "other a"]) (simp add: through_def)
qed

theorem early_disconnect_frees_witness:
  "\<exists>S a. through S (other a) \<and> conns (proc_of S a) (conn_of (demo_link True) a) = None
    \<and> cqes (side S a) \<noteq> []"
proof -
  have "calls_ok (env (demo_link True) a)" for a using demo_calls by (simp add: demo_link_def)
  moreover have "prompt (demo_link True)" by (simp add: demo_link_def)
  ultimately show ?thesis using early_disconnect_frees [OF rw_demo_starts [of True]] by blast
qed

end
