(* ===== verification/IntfData.thy ===== *)
theory IntfData
  imports Wire
begin

text \<open>
  The data of intf.c: the interfaces a program can choose (\<open>input_*\<close>) and those a queue works
  with, the parameters and their defaults, and the context of a run: its queue pairs with their
  completion queues, and its threads.  Record fields carry a letter for their structure.
\<close>

section \<open>Interfaces\<close>

datatype input_send_intf = IN_NORMAL_SEND_INTF | IN_ACC_SEND_PENDING_INTF
  | IN_ACC_SEND_PENDING_INL_INTF | IN_ACC_SEND_PENDING_SG_LIST_INTF | IN_ACC_SEND_BURST_INTF

datatype input_recv_intf = IN_NORMAL_RECV_INTF | IN_ACC_RECV_BURST_INTF

datatype input_poll_intf = IN_NORMAL_POLL_INTF | IN_ACC_POLL_CNT_INTF | IN_ACC_POLL_LENGTH_INTF

datatype qp_intf = NORMAL_SEND_INTF | NORMAL_RECV_INTF | ACC_SEND_PENDING_INTF
  | ACC_SEND_PENDING_INL_INTF | ACC_SEND_PENDING_SG_LIST_INTF | ACC_SEND_BURST_INTF
  | ACC_RECV_BURST_INTF

datatype cq_intf = NORMAL_POLL_INTF | ACC_POLL_CNT_INTF | ACC_POLL_LENGTH_INTF
  | ACC_POLL_LENGTH_INL_INTF

text \<open>The tables that translate the choice.\<close>

fun send_2_qp :: "input_send_intf \<Rightarrow> qp_intf" where
  "send_2_qp IN_NORMAL_SEND_INTF = NORMAL_SEND_INTF"
| "send_2_qp IN_ACC_SEND_PENDING_INTF = ACC_SEND_PENDING_INTF"
| "send_2_qp IN_ACC_SEND_PENDING_INL_INTF = ACC_SEND_PENDING_INL_INTF"
| "send_2_qp IN_ACC_SEND_PENDING_SG_LIST_INTF = ACC_SEND_PENDING_SG_LIST_INTF"
| "send_2_qp IN_ACC_SEND_BURST_INTF = ACC_SEND_BURST_INTF"

fun recv_2_qp :: "input_recv_intf \<Rightarrow> qp_intf" where
  "recv_2_qp IN_NORMAL_RECV_INTF = NORMAL_RECV_INTF"
| "recv_2_qp IN_ACC_RECV_BURST_INTF = ACC_RECV_BURST_INTF"

fun poll_2_cq :: "input_poll_intf \<Rightarrow> cq_intf" where
  "poll_2_cq IN_NORMAL_POLL_INTF = NORMAL_POLL_INTF"
| "poll_2_cq IN_ACC_POLL_CNT_INTF = ACC_POLL_CNT_INTF"
| "poll_2_cq IN_ACC_POLL_LENGTH_INTF = ACC_POLL_LENGTH_INTF"

text \<open>The names the options and the reports use.\<close>

fun enum_to_cq_intf_str :: "cq_intf \<Rightarrow> string" where
  "enum_to_cq_intf_str NORMAL_POLL_INTF = ''NORMAL_POLL_INTF''"
| "enum_to_cq_intf_str ACC_POLL_CNT_INTF = ''ACC_POLL_CNT_INTF''"
| "enum_to_cq_intf_str ACC_POLL_LENGTH_INTF = ''ACC_POLL_LENGTH_INTF''"
| "enum_to_cq_intf_str ACC_POLL_LENGTH_INL_INTF = ''ACC_POLL_LENGTH_INL_INTF''"

fun send_enum_to_verbs_intf_str :: "input_send_intf \<Rightarrow> string" where
  "send_enum_to_verbs_intf_str IN_NORMAL_SEND_INTF = ''S_NORM''"
| "send_enum_to_verbs_intf_str IN_ACC_SEND_PENDING_INTF = ''S_PEND''"
| "send_enum_to_verbs_intf_str IN_ACC_SEND_PENDING_INL_INTF = ''S_PEND_INL''"
| "send_enum_to_verbs_intf_str IN_ACC_SEND_PENDING_SG_LIST_INTF = ''S_PEND_SG_LIST''"
| "send_enum_to_verbs_intf_str IN_ACC_SEND_BURST_INTF = ''S_BURST''"

fun recv_enum_to_verbs_intf_str :: "input_recv_intf \<Rightarrow> string" where
  "recv_enum_to_verbs_intf_str IN_NORMAL_RECV_INTF = ''R_NORM''"
| "recv_enum_to_verbs_intf_str IN_ACC_RECV_BURST_INTF = ''R_BURST''"

fun poll_enum_to_verbs_intf_str :: "input_poll_intf \<Rightarrow> string" where
  "poll_enum_to_verbs_intf_str IN_NORMAL_POLL_INTF = ''P_NORM''"
| "poll_enum_to_verbs_intf_str IN_ACC_POLL_CNT_INTF = ''P_CNT''"
| "poll_enum_to_verbs_intf_str IN_ACC_POLL_LENGTH_INTF = ''P_LEN''"

fun qp_intf_to_param_str :: "qp_intf \<Rightarrow> string" where
  "qp_intf_to_param_str NORMAL_SEND_INTF = ''S_NORM''"
| "qp_intf_to_param_str NORMAL_RECV_INTF = ''R_NORM''"
| "qp_intf_to_param_str ACC_SEND_PENDING_INTF = ''S_PEND''"
| "qp_intf_to_param_str ACC_SEND_PENDING_INL_INTF = ''S_PEND_INL''"
| "qp_intf_to_param_str ACC_SEND_PENDING_SG_LIST_INTF = ''S_PEND_SG_LIST''"
| "qp_intf_to_param_str ACC_SEND_BURST_INTF = ''S_BURST''"
| "qp_intf_to_param_str ACC_RECV_BURST_INTF = ''R_BURST''"

fun cq_intf_to_param_str :: "cq_intf \<Rightarrow> string" where
  "cq_intf_to_param_str NORMAL_POLL_INTF = ''P_NORM''"
| "cq_intf_to_param_str ACC_POLL_CNT_INTF = ''P_CNT''"
| "cq_intf_to_param_str ACC_POLL_LENGTH_INTF = ''P_LEN''"
| "cq_intf_to_param_str ACC_POLL_LENGTH_INL_INTF = ''P_LEN''"

section \<open>Parameters\<close>

record qp_params =
  pr_wr_burst :: int
  pr_max_send_wr :: int
  pr_max_recv_wr :: int
  pr_max_inl_recv_data :: int
  verbs_send_intf :: input_send_intf
  verbs_recv_intf :: input_recv_intf
  verbs_send_poll_intf :: input_poll_intf
  verbs_recv_poll_intf :: input_poll_intf

record send_params =
  pr_msg_size :: int
  num_qp_msgs :: int

record cpu_set =
  cpu_min :: int
  cpu_max :: int

definition MAX_CPU_SETS :: nat where
  "MAX_CPU_SETS = 4"

text \<open>The sets in use: the array \<open>cpu_sets\<close> up to \<open>num_cpu_sets\<close>.\<close>

record thread_params =
  pr_num_threads :: int
  cpu_sets :: "cpu_set list"

definition MAX_DEV_NAME_SIZE :: nat where
  "MAX_DEV_NAME_SIZE = 20"

record ib_data =
  pr_dev_name :: string
  pr_ib_port_num :: int
  pr_sl :: int
  pr_mtu :: u32
  pr_check_data :: bool
  pr_use_res_domain :: bool

definition MAX_SERVER_NAME_SIZE :: nat where
  "MAX_SERVER_NAME_SIZE = 128"

record server_data =
  server_name :: string
  server_port :: int

record intf_input =
  server_data :: server_data
  ib_data :: ib_data
  qp_prms :: qp_params
  send_prms :: send_params
  thread_prms :: thread_params

definition intf_default_input :: intf_input where
  "intf_default_input = \<lparr>
     server_data = \<lparr>server_name = [], server_port = 18515\<rparr>,
     ib_data = \<lparr>pr_dev_name = ''mlx4_0'', pr_ib_port_num = 1, pr_sl = 0, pr_mtu = 5,
       pr_check_data = False, pr_use_res_domain = True\<rparr>,
     qp_prms = \<lparr>pr_wr_burst = 10, pr_max_send_wr = 3*5*4*5*7, pr_max_recv_wr = 3*5*4*5*7,
       pr_max_inl_recv_data = 0, verbs_send_intf = IN_ACC_SEND_PENDING_INTF,
       verbs_recv_intf = IN_ACC_RECV_BURST_INTF, verbs_send_poll_intf = IN_ACC_POLL_CNT_INTF,
       verbs_recv_poll_intf = IN_ACC_POLL_LENGTH_INTF\<rparr>,
     send_prms = \<lparr>pr_msg_size = 64, num_qp_msgs = 1000000\<rparr>,
     thread_prms = \<lparr>pr_num_threads = 1,
       cpu_sets = [\<lparr>cpu_min = 0, cpu_max = 5\<rparr>, \<lparr>cpu_min = 12, cpu_max = 17\<rparr>]\<rparr>\<rparr>"

section \<open>The context\<close>

text \<open>
  The arrays of a queue pair are lists.  A work request's \<open>next\<close> is null or the address of the
  following element of its array: the flag beside it says which.
\<close>

record qp_data =
  q_remote_qpn :: u32
  q_psn :: u32
  q_msg_size :: int
  q_msg_stride :: int
  q_num_msgs :: int
  q_wr_burst :: int
  q_max_wrs :: int
  q_max_inl_recv_data :: int
  q_max_inline_data :: int
  q_intf :: qp_intf
  q_total_ms :: u64
  q_qp :: ptr
  q_qp_num :: u32
  q_sg_ptr :: ptr
  q_sg_list :: "sge list"
  q_send_ptr :: ptr
  q_send_wr :: "(send_wr \<times> bool) list"
  q_recv_ptr :: ptr
  q_recv_wr :: "(recv_wr \<times> bool) list"
  q_burst_family :: ptr
  q_buf :: ptr
  q_slots :: "string list"
  q_mr :: ptr
  q_mr_lkey :: int

record cq_data =
  c_wc_burst :: int
  c_size :: int
  c_intf :: cq_intf
  c_cq :: ptr
  c_wc :: ptr
  c_family :: ptr

record qp_cq_data =
  qc_idx :: int
  qc_qp :: qp_data
  qc_cq :: cq_data

definition MAX_INLINE_RECV :: int where
  "MAX_INLINE_RECV = 512"

definition MAX_MSG_SIZE :: int where
  "MAX_MSG_SIZE = 0x10000"

record intf_thread =
  t_res_domain :: ptr
  t_inlr_buf :: string
  t_use_inlr :: u32
  t_qp_idx :: nat
  t_idx :: int
  t_cpu :: int
  t_cpu_freq :: u64

record ib_dest =
  ib_lid :: u32
  ib_gid :: gid
  ib_qpn :: "u32 list"
  ib_psn :: "u32 list"

record intf_context =
  x_servername :: "string option"
  x_is_send :: bool
  x_port :: int
  x_dev_name :: string
  x_ib_dev :: ptr
  x_context :: ptr
  x_pd :: ptr
  x_ib_port_num :: int
  x_sl :: int
  x_mtu :: u32
  x_qps_ptr :: ptr
  x_qps_cqs :: "qp_cq_data list"
  x_threads_ptr :: ptr
  x_threads :: "intf_thread list"
  x_thread_stop :: bool
  x_check_data :: bool
  x_use_res_domain :: bool

text \<open>Memory from \<open>calloc\<close>.\<close>

definition zero_qp_data :: qp_data where
  "zero_qp_data = \<lparr>q_remote_qpn = 0, q_psn = 0, q_msg_size = 0, q_msg_stride = 0, q_num_msgs = 0,
     q_wr_burst = 0, q_max_wrs = 0, q_max_inl_recv_data = 0, q_max_inline_data = 0,
     q_intf = NORMAL_SEND_INTF, q_total_ms = 0, q_qp = 0, q_qp_num = 0, q_sg_ptr = 0,
     q_sg_list = [], q_send_ptr = 0, q_send_wr = [], q_recv_ptr = 0, q_recv_wr = [],
     q_burst_family = 0, q_buf = 0, q_slots = [], q_mr = 0, q_mr_lkey = 0\<rparr>"

definition zero_qp_cq :: qp_cq_data where
  "zero_qp_cq = \<lparr>qc_idx = 0, qc_qp = zero_qp_data,
     qc_cq = \<lparr>c_wc_burst = 0, c_size = 0, c_intf = NORMAL_POLL_INTF, c_cq = 0, c_wc = 0, c_family = 0\<rparr>\<rparr>"

definition zero_thread :: intf_thread where
  "zero_thread = \<lparr>t_res_domain = 0, t_inlr_buf = replicate (nat MAX_INLINE_RECV) NUL, t_use_inlr = 0,
     t_qp_idx = 0, t_idx = 0, t_cpu = 0, t_cpu_freq = 0\<rparr>"

definition zero_context :: intf_context where
  "zero_context = \<lparr>x_servername = None, x_is_send = False, x_port = 0, x_dev_name = [], x_ib_dev = 0,
     x_context = 0, x_pd = 0, x_ib_port_num = 0, x_sl = 0, x_mtu = 0, x_qps_ptr = 0, x_qps_cqs = [],
     x_threads_ptr = 0, x_threads = [], x_thread_stop = False, x_check_data = False,
     x_use_res_domain = False\<rparr>"

section \<open>Small functions\<close>

definition mmax :: "int \<Rightarrow> int \<Rightarrow> int" where
  "mmax a b = (if a > b then a else b)"

definition mmin :: "int \<Rightarrow> int \<Rightarrow> int" where
  "mmin a b = (if a < b then a else b)"

lemma mmax_mmin [simp]: "mmax a b = max a b" "mmin a b = min a b"
  by (simp_all add: mmax_def mmin_def max_def min_def)

text \<open>\<open>enum ibv_mtu\<close> is an unsigned integer: the error value is \<open>0xffffffff\<close>.\<close>

definition mtu_to_enum :: "int \<Rightarrow> u32" where
  "mtu_to_enum mtu =
    (if mtu = 256 then 1 else if mtu = 512 then 2 else if mtu = 1024 then 3
     else if mtu = 2048 then 4 else if mtu = 4096 then 5 else - 1)"

definition enum_to_mtu :: "u32 \<Rightarrow> int" where
  "enum_to_mtu mtu =
    (if mtu = 1 then 256 else if mtu = 2 then 512 else if mtu = 3 then 1024
     else if mtu = 4 then 2048 else if mtu = 5 then 4096 else - 1)"

definition is_send :: "intf_input \<Rightarrow> bool" where
  "is_send input = (\<not> length (server_name (server_data input)) > 0)"

text \<open>
  A step that cannot go on: a division by zero (the process is stopped by a signal), or a loop
  still running when \<open>fuel\<close> is used up.
\<close>

datatype fault = Division_by_zero | Still_running

text \<open>\<open>(lrand48() & 0xffffffff) % (b - a)\<close>, converted to \<open>int\<close>.\<close>

definition get_rand :: "api_env \<Rightarrow> int \<Rightarrow> int \<Rightarrow> (fault + int) prog" where
  "get_rand E a b = do {
     r \<leftarrow> invoke E (Libc Lrand48);
     ret_io (if b - a = 0 then Inl Division_by_zero
             else Inr (to_int32 (c_rem (r AND 0xffffffff) (b - a)))) }"

text \<open>
  On each byte of a message a nibble of the index of its work request and one of the index of its
  queue pair: \<open>(char) ((wr_idx & 0xF) | (qp_idx << 4))\<close>.
\<close>

definition calc_msg_data :: "int \<Rightarrow> int \<Rightarrow> char" where
  "calc_msg_data wr_idx qp_idx = char_of (((wr_idx AND 0xF) OR push_bit 4 qp_idx) mod 256)"

lemma calc_msg_data_eq: "calc_msg_data w q = char_of (w mod 16 + 16 * (q mod 16))"
proof -
  have "w AND 0xF = take_bit 4 w"
    unfolding take_bit_eq_mask by (simp add: mask_eq_exp_minus_1)
  moreover have "take_bit 4 w OR push_bit 4 q = take_bit 4 w + push_bit 4 q"
    by (rule disjunctive_add [symmetric]) (auto simp: bit_take_bit_iff bit_push_bit_iff_int)
  ultimately have "(w AND 0xF) OR push_bit 4 q = w mod 16 + 16 * q"
    by (simp add: take_bit_eq_mod push_bit_eq_mult)
  moreover have "(w mod 16 + 16 * q) mod (16 * 16) = w mod 16 + 16 * (q mod 16)"
    by (subst zmod_zmult2_eq) simp_all
  ultimately show ?thesis by (simp add: calc_msg_data_def)
qed

lemma nibbles_eq:
  "w mod 16 + 16 * b = w' mod 16 + 16 * d \<longleftrightarrow> w mod 16 = w' mod 16 \<and> b = d" for w w' b d :: int
proof
  assume a: "w mod 16 + 16 * b = w' mod 16 + 16 * d"
  have "(w mod 16 + 16 * b) mod 16 = w mod 16" "(w' mod 16 + 16 * d) mod 16 = w' mod 16" by simp_all
  then have "w mod 16 = w' mod 16" unfolding a by simp
  then show "w mod 16 = w' mod 16 \<and> b = d" using a by simp
qed simp

text \<open>Two messages carry the same bytes exactly when their indices agree in the low nibbles.\<close>

lemma calc_msg_data_inj:
  "calc_msg_data w q = calc_msg_data w' q' \<longleftrightarrow> w mod 16 = w' mod 16 \<and> q mod 16 = q' mod 16"
proof -
  have i: "of_char (calc_msg_data w q) = w mod 16 + 16 * (q mod 16)" for w q
  proof -
    have "0 \<le> w mod 16" "w mod 16 < 16" "0 \<le> q mod 16" "q mod 16 < 16" by simp_all
    then show ?thesis by (simp add: calc_msg_data_eq)
  qed
  have "calc_msg_data w q = calc_msg_data w' q'
      \<longleftrightarrow> w mod 16 + 16 * (q mod 16) = w' mod 16 + 16 * (q' mod 16)"
    using i [of w q] i [of w' q'] by (metis calc_msg_data_eq)
  then show ?thesis by (simp add: nibbles_eq)
qed

end
