(* ===== verification/IntfLoop.thy ===== *)
theory IntfLoop
  imports IntfData
begin

text \<open>
  The data path of intf.c: \<open>qp_poll\<close>, \<open>qp_post\<close>, \<open>is_data_valid\<close> and
  \<open>send_recv\<close>.  The lemmas show that all send interfaces hand the adapter the same messages, that
  \<open>send_recv\<close> never has more requests outstanding than its queue holds, that it posts the
  messages asked for, rounded up to whole bursts, and returns.
\<close>

section \<open>qp_poll\<close>

text \<open>
  \<open>poll_length\<close> stores the message into the thread's buffer and sets \<open>use_inlr\<close>
  when the data came inline; both are the library's choice.
\<close>

definition qp_poll :: "api_env \<Rightarrow> cq_data \<Rightarrow> cq_intf \<Rightarrow> intf_thread \<Rightarrow> (int \<times> intf_thread) prog" where
  "qp_poll E q intf thread = (case intf of
      NORMAL_POLL_INTF \<Rightarrow> do {
        (consumed, wcs) \<leftarrow> invoke_wcs E (Data (Poll_cq (c_cq q) (c_wc_burst q)));
        ret_io (if consumed > 0 \<and> list_ex (\<lambda>w. wc_status w \<noteq> 0) wcs then - 1 else consumed, thread) }
    | ACC_POLL_CNT_INTF \<Rightarrow> do {
        consumed \<leftarrow> invoke E (Data (Poll_cnt (c_cq q) (c_wc_burst q)));
        ret_io (consumed, thread) }
    | ACC_POLL_LENGTH_INTF \<Rightarrow> do {
        consumed \<leftarrow> invoke E (Data (Poll_length (c_cq q) False));
        ret_io (if consumed > 0 then 1 else consumed, thread) }
    | ACC_POLL_LENGTH_INL_INTF \<Rightarrow> do {
        d \<leftarrow> peek (\<lambda>h. data_in E h (Data (Poll_length (c_cq q) True)));
        (consumed, out) \<leftarrow> invoke_attr E (Data (Poll_length (c_cq q) True));
        ret_io (if consumed > 0 then 1 else consumed,
                thread\<lparr>t_inlr_buf := d @ drop (length d) (t_inlr_buf thread),
                       t_use_inlr := word_of_int (out ''inl'')\<rparr>) })"

section \<open>qp_post\<close>

text \<open>The requests from one on, as far as the \<open>next\<close> pointers lead.\<close>

fun chain :: "('w \<times> bool) list \<Rightarrow> 'w list" where
  "chain [] = []"
| "chain ((w, linked) # ws) = w # (if linked then chain ws else [])"

text \<open>The \<open>n\<close> elements from \<open>sg_list + k\<close> on.\<close>

definition sg_window :: "qp_data \<Rightarrow> nat \<Rightarrow> sge list" where
  "sg_window qp k = map (\<lambda>i. q_sg_list qp ! i) [k ..< k + nat (q_wr_burst qp)]"

text \<open>\<open>for (i = 0; i < wr_burst && !ret; i++)\<close>\<close>

fun post_each :: "(sge \<Rightarrow> int prog) \<Rightarrow> sge list \<Rightarrow> int prog" where
  "post_each f [] = ret_io 0"
| "post_each f (s # ss) = do { r \<leftarrow> f s; if r \<noteq> 0 then ret_io r else post_each f ss }"

definition post_pending :: "api_env \<Rightarrow> qp_data \<Rightarrow> (sge \<Rightarrow> data_call) \<Rightarrow> nat \<Rightarrow> int prog" where
  "post_pending E qp f k = do {
     r \<leftarrow> post_each (\<lambda>s. invoke E (Data (f s))) (sg_window qp k);
     if r = 0 then invoke E (Data (Send_flush (q_qp qp))) else ret_io r }"

definition qp_post :: "api_env \<Rightarrow> qp_data \<Rightarrow> nat \<Rightarrow> int \<Rightarrow> qp_intf \<Rightarrow> int prog" where
  "qp_post E qp k wr_idx intf = do {
     r \<leftarrow> (case intf of
         NORMAL_SEND_INTF \<Rightarrow> invoke E (Data (Post_send (q_qp qp)
           (chain (drop (nat (c_rem wr_idx (q_max_wrs qp))) (q_send_wr qp)))))
       | NORMAL_RECV_INTF \<Rightarrow> invoke E (Data (Post_recv (q_qp qp)
           (chain (drop (nat (c_rem wr_idx (q_max_wrs qp))) (q_recv_wr qp)))))
       | ACC_SEND_PENDING_INTF \<Rightarrow> post_pending E qp (Send_pending (q_qp qp)) k
       | ACC_SEND_PENDING_INL_INTF \<Rightarrow> post_pending E qp (Send_pending_inline (q_qp qp)) k
       | ACC_SEND_PENDING_SG_LIST_INTF \<Rightarrow> post_pending E qp (Send_pending_sg_list (q_qp qp)) k
       | ACC_SEND_BURST_INTF \<Rightarrow> invoke E (Data (Send_burst (q_qp qp) (sg_window qp k)))
       | ACC_RECV_BURST_INTF \<Rightarrow> invoke E (Data (Recv_burst (q_qp qp) (sg_window qp k))));
     ret_io (if r \<noteq> 0 then - 1 else q_wr_burst qp) }"

section \<open>is_data_valid\<close>

text \<open>
  The receive buffer is written by the adapter: \<open>dma h a\<close> is the byte at the address \<open>a\<close>
  after the history \<open>h\<close>.  The result is \<open>None\<close> for wrong data, otherwise the new
  \<open>curr_poll_wr\<close> and thread.
\<close>

type_synonym memory = "trace \<Rightarrow> int \<Rightarrow> char"

text \<open>\<open>buf + j * msg_stride\<close>: the address of a message's slot; the product is an \<open>int\<close> of 32 bits.\<close>

definition slot_addr :: "qp_data \<Rightarrow> int \<Rightarrow> int" where
  "slot_addr qp j = q_buf qp + to_int32 (j * q_msg_stride qp)"

definition compare_data ::
    "memory \<Rightarrow> int \<Rightarrow> int \<Rightarrow> qp_cq_data \<Rightarrow> intf_thread \<Rightarrow> int \<Rightarrow> int
      \<Rightarrow> (int \<times> intf_thread) option prog" where
  "compare_data dma curr_wr consumed qc thread rand_wr rand_idx = do {
     let send_data = calc_msg_data rand_wr (qc_idx qc);
     rand_data \<leftarrow> (if t_use_inlr thread \<noteq> 0 then ret_io (t_inlr_buf thread ! nat rand_idx)
                  else peek (\<lambda>h. dma h (slot_addr (qc_qp qc) rand_wr + rand_idx)));
     ret_io (if rand_data \<noteq> send_data then None
             else Some (curr_wr + consumed, thread\<lparr>t_use_inlr := 0\<rparr>)) }"

definition is_data_valid ::
    "api_env \<Rightarrow> memory \<Rightarrow> int \<Rightarrow> int \<Rightarrow> qp_cq_data \<Rightarrow> intf_thread
      \<Rightarrow> (fault + (int \<times> intf_thread) option) prog" where
  "is_data_valid E dma curr_wr consumed qc thread = do {
     r \<leftarrow> get_rand E 0 consumed;
     case r of Inl f \<Rightarrow> ret_io (Inl f)
     | Inr a \<Rightarrow> do {
         let rand_wr = to_int32 (c_rem (curr_wr + a) (q_max_wrs (qc_qp qc)));
         i \<leftarrow> get_rand E 0 (q_msg_size (qc_qp qc));
         case i of Inl f \<Rightarrow> ret_io (Inl f)
         | Inr rand_idx \<Rightarrow> do {
             v \<leftarrow> compare_data dma curr_wr consumed qc thread rand_wr rand_idx;
             ret_io (Inr v) } } }"

section \<open>send_recv\<close>

text \<open>The inner loop that fills the queue: \<open>None\<close> when posting failed.\<close>

fun fill_queue ::
    "api_env \<Rightarrow> nat \<Rightarrow> qp_data \<Rightarrow> qp_intf \<Rightarrow> int \<Rightarrow> int \<Rightarrow> (fault + (int \<times> int) option) prog" where
  "fill_queue E 0 qp intf msg free_wrs = ret_io (Inl Still_running)"
| "fill_queue E (Suc fuel) qp intf msg free_wrs =
    (if free_wrs \<ge> q_wr_burst qp then do {
       r \<leftarrow> qp_post E qp (nat (c_rem msg (q_max_wrs qp))) msg intf;
       if r < 0 then ret_io (Inr None)
       else fill_queue E fuel qp intf (to_int32 (msg + q_wr_burst qp)) (to_int32 (free_wrs - q_wr_burst qp))
     } else ret_io (Inr (Some (msg, free_wrs))))"

text \<open>What a poll's result does to \<open>free_wrs\<close>, \<open>curr_poll_wr\<close> and the thread.\<close>

definition take_polled ::
    "api_env \<Rightarrow> memory \<Rightarrow> qp_cq_data \<Rightarrow> bool \<Rightarrow> int \<Rightarrow> int \<Rightarrow> int \<times> intf_thread
      \<Rightarrow> (fault + (int \<times> int \<times> intf_thread) option) prog" where
  "take_polled E dma qc check_data free_wrs curr_wr ct = (case ct of (consumed, thread) \<Rightarrow>
     if consumed > 0 then
       (let free_wrs = to_int32 (free_wrs + consumed) in
        if check_data then do {
          v \<leftarrow> is_data_valid E dma curr_wr consumed qc thread;
          ret_io (case v of Inl f \<Rightarrow> Inl f | Inr None \<Rightarrow> Inr None
                  | Inr (Some (curr_wr, thread)) \<Rightarrow> Inr (Some (free_wrs, curr_wr, thread))) }
        else ret_io (Inr (Some (free_wrs, curr_wr, thread))))
     else if consumed < 0 then ret_io (Inr None)
     else ret_io (Inr (Some (free_wrs, curr_wr, thread))))"

fun drain_queue ::
    "api_env \<Rightarrow> nat \<Rightarrow> memory \<Rightarrow> qp_cq_data \<Rightarrow> cq_intf \<Rightarrow> bool \<Rightarrow> int \<Rightarrow> int \<Rightarrow> int \<Rightarrow> intf_thread
      \<Rightarrow> (fault + (int \<times> int \<times> intf_thread) option) prog" where
  "drain_queue E 0 dma qc intf check_data msg free_wrs curr_wr thread = ret_io (Inl Still_running)"
| "drain_queue E (Suc fuel) dma qc intf check_data msg free_wrs curr_wr thread = do {
     ct \<leftarrow> qp_poll E (qc_cq qc) intf thread;
     v \<leftarrow> take_polled E dma qc check_data free_wrs curr_wr ct;
     case v of Inl f \<Rightarrow> ret_io (Inl f)
     | Inr None \<Rightarrow> ret_io (Inr None)
     | Inr (Some (free_wrs, curr_wr, thread)) \<Rightarrow>
         if free_wrs < q_wr_burst (qc_qp qc) \<and> msg < q_num_msgs (qc_qp qc)
         then drain_queue E fuel dma qc intf check_data msg free_wrs curr_wr thread
         else ret_io (Inr (Some (free_wrs, curr_wr, thread))) }"

text \<open>The outer loop, and the function: its status and the thread.\<close>

fun send_recv_loop ::
    "api_env \<Rightarrow> nat \<Rightarrow> memory \<Rightarrow> qp_cq_data \<Rightarrow> qp_intf \<Rightarrow> cq_intf \<Rightarrow> bool \<Rightarrow> int \<Rightarrow> int \<Rightarrow> int \<Rightarrow> intf_thread
      \<Rightarrow> (fault + int \<times> intf_thread) prog" where
  "send_recv_loop E 0 dma qc qi ci check_data msg free_wrs curr_wr thread = ret_io (Inl Still_running)"
| "send_recv_loop E (Suc fuel) dma qc qi ci check_data msg free_wrs curr_wr thread =
    (if msg < q_num_msgs (qc_qp qc) then do {
       p \<leftarrow> fill_queue E (Suc fuel) (qc_qp qc) qi msg free_wrs;
       case p of Inl f \<Rightarrow> ret_io (Inl f)
       | Inr None \<Rightarrow> ret_io (Inr (1, thread))
       | Inr (Some (msg, free_wrs)) \<Rightarrow> do {
           d \<leftarrow> drain_queue E (Suc fuel) dma qc ci check_data msg free_wrs curr_wr thread;
           case d of Inl f \<Rightarrow> ret_io (Inl f)
           | Inr None \<Rightarrow> ret_io (Inr (1, thread))
           | Inr (Some (free_wrs, curr_wr, thread)) \<Rightarrow>
               send_recv_loop E fuel dma qc qi ci check_data msg free_wrs curr_wr thread }
     } else ret_io (Inr (0, thread)))"

definition send_recv ::
    "api_env \<Rightarrow> nat \<Rightarrow> memory \<Rightarrow> qp_cq_data \<Rightarrow> intf_thread \<Rightarrow> bool \<Rightarrow> qp_intf \<Rightarrow> cq_intf
      \<Rightarrow> (fault + int \<times> intf_thread) prog" where
  "send_recv E fuel dma qc thread check_data qi ci =
     send_recv_loop E fuel dma qc qi ci check_data 0
       (to_int32 (mmin (q_max_wrs (qc_qp qc)) (q_num_msgs (qc_qp qc)))) 0 thread"

section \<open>The arrays of a queue pair\<close>

text \<open>What \<open>create_qp\<close> prepares: entry \<open>j\<close> of the scatter list and of the requests.\<close>

definition prep_sge :: "qp_data \<Rightarrow> nat \<Rightarrow> sge" where
  "prep_sge qp j = \<lparr>sg_addr = slot_addr qp (int j), sg_length = q_msg_size qp,
     sg_lkey = q_mr_lkey qp\<rparr>"

definition prep_linked :: "qp_data \<Rightarrow> nat \<Rightarrow> bool" where
  "prep_linked qp j \<longleftrightarrow> c_rem (int j) (q_wr_burst qp) \<noteq> q_wr_burst qp - 1"

definition prep_send_wr :: "qp_data \<Rightarrow> nat \<Rightarrow> send_wr \<times> bool" where
  "prep_send_wr qp j = (\<lparr>swr_id = 0, swr_opcode = WR_SEND, swr_sges = [prep_sge qp j],
     swr_signaled = True, swr_imm = 0, swr_remote_addr = 0, swr_rkey = 0, swr_ah = 0,
     swr_remote_qpn = 0, swr_remote_qkey = 0,
     swr_remote_srqn = 0, swr_dct_key = 0, swr_dct_number = 0\<rparr>, prep_linked qp j)"

definition prep_recv_wr :: "qp_data \<Rightarrow> nat \<Rightarrow> recv_wr \<times> bool" where
  "prep_recv_wr qp j = (\<lparr>rwr_id = 0, rwr_sges = [prep_sge qp j]\<rparr>, prep_linked qp j)"

definition prep_arrays :: "bool \<Rightarrow> int \<Rightarrow> qp_data \<Rightarrow> qp_data" where
  "prep_arrays send idx qp = (let js = [0 ..< nat (q_max_wrs qp)] in
     qp\<lparr>q_sg_list := map (prep_sge qp) js,
        q_slots := (if send then map (\<lambda>j. replicate (nat (q_msg_size qp)) (calc_msg_data (int j) idx)) js
                    else q_slots qp),
        q_send_wr := (if send then map (prep_send_wr qp) js else q_send_wr qp),
        q_recv_wr := (if send then q_recv_wr qp else map (prep_recv_wr qp) js)\<rparr>)"

text \<open>A queue ready for a direction: the arrays are prepared and bursts divide them.\<close>

definition sends_by :: "qp_intf \<Rightarrow> bool" where
  "sends_by intf \<longleftrightarrow> intf \<noteq> NORMAL_RECV_INTF \<and> intf \<noteq> ACC_RECV_BURST_INTF"

definition prepared :: "bool \<Rightarrow> qp_data \<Rightarrow> bool" where
  "prepared send qp \<longleftrightarrow> 0 < q_wr_burst qp \<and> q_wr_burst qp dvd q_max_wrs qp \<and> 0 < q_max_wrs qp
     \<and> q_sg_list qp = map (prep_sge qp) [0 ..< nat (q_max_wrs qp)]
     \<and> (if send then q_send_wr qp = map (prep_send_wr qp) [0 ..< nat (q_max_wrs qp)]
        else q_recv_wr qp = map (prep_recv_wr qp) [0 ..< nat (q_max_wrs qp)])"

lemma prep_updates [simp]:
  "prep_sge (qp\<lparr>q_sg_list := a\<rparr>) = prep_sge qp" "prep_sge (qp\<lparr>q_slots := b\<rparr>) = prep_sge qp"
  "prep_sge (qp\<lparr>q_send_wr := c\<rparr>) = prep_sge qp" "prep_sge (qp\<lparr>q_recv_wr := d\<rparr>) = prep_sge qp"
  "prep_linked (qp\<lparr>q_sg_list := a\<rparr>) = prep_linked qp" "prep_linked (qp\<lparr>q_slots := b\<rparr>) = prep_linked qp"
  "prep_linked (qp\<lparr>q_send_wr := c\<rparr>) = prep_linked qp" "prep_linked (qp\<lparr>q_recv_wr := d\<rparr>) = prep_linked qp"
  by (simp_all add: prep_sge_def slot_addr_def prep_linked_def fun_eq_iff)

lemma prep_arrays_sel [simp]:
  "q_msg_size (prep_arrays s i qp) = q_msg_size qp" "q_msg_stride (prep_arrays s i qp) = q_msg_stride qp"
  "q_num_msgs (prep_arrays s i qp) = q_num_msgs qp" "q_wr_burst (prep_arrays s i qp) = q_wr_burst qp"
  "q_max_wrs (prep_arrays s i qp) = q_max_wrs qp" "q_buf (prep_arrays s i qp) = q_buf qp"
  "q_qp (prep_arrays s i qp) = q_qp qp" "q_mr (prep_arrays s i qp) = q_mr qp"
  "q_sg_ptr (prep_arrays s i qp) = q_sg_ptr qp" "q_send_ptr (prep_arrays s i qp) = q_send_ptr qp"
  "q_recv_ptr (prep_arrays s i qp) = q_recv_ptr qp" "q_intf (prep_arrays s i qp) = q_intf qp"
  "q_burst_family (prep_arrays s i qp) = q_burst_family qp"
  by (simp_all add: prep_arrays_def Let_def)

lemma prepared_prep_arrays:
  assumes "0 < q_wr_burst qp" and "q_wr_burst qp dvd q_max_wrs qp" and "0 < q_max_wrs qp"
  shows "prepared send (prep_arrays send idx qp)"
  using assms by (simp add: prepared_def prep_arrays_def Let_def prep_send_wr_def prep_recv_wr_def)

lemma chain_run:
  assumes "k \<le> e" and "e < n" and "\<And>j. k \<le> j \<Longrightarrow> j < e \<Longrightarrow> snd (f j)" and "\<not> snd (f e)"
  shows "chain (map f [k ..< n]) = map (\<lambda>j. fst (f j)) [k ..< Suc e]"
  using assms
proof (induction "e - k" arbitrary: k)
  case 0
  then have "k = e" by simp
  with 0 show ?case by (cases "f e") (simp add: upt_conv_Cons)
next
  case (Suc d)
  then have "chain (map f [Suc k ..< n]) = map (\<lambda>j. fst (f j)) [Suc k ..< Suc e]"
    by (simp del: upt_Suc)
  moreover have "snd (f k)" "k < n" "k < Suc e" using Suc by auto
  ultimately show ?case by (cases "f k") (simp add: upt_conv_Cons del: upt_Suc)
qed

text \<open>Where a burst starts, it ends within the array, and only its last request is not linked.\<close>

lemma burst_links:
  assumes "0 < b" and "b dvd k" and "q_wr_burst qp = int b"
  shows "k \<le> j \<Longrightarrow> j < k + b - 1 \<Longrightarrow> prep_linked qp j" "\<not> prep_linked qp (k + b - 1)"
proof -
  obtain c where c: "k = b * c" using assms(2) by blast
  have m: "(k + i) mod b = i" if "i < b" for i using that by (simp add: c)
  have l: "prep_linked qp j \<longleftrightarrow> j mod b \<noteq> b - 1" for j
    using assms(1,3) by (simp add: prep_linked_def flip: of_nat_mod) linarith
  show "\<not> prep_linked qp (k + b - 1)"
    using m [of "b - 1"] assms(1) by (simp add: l)
  show "prep_linked qp j" if "k \<le> j" "j < k + b - 1"
    using m [of "j - k"] that by (simp add: l)
qed

lemma chain_burst:
  assumes "0 < b" and "b dvd k" and "q_wr_burst qp = int b" and "k + b \<le> n"
    and "\<And>j. snd (f j) = prep_linked qp j"
  shows "chain (drop k (map f [0 ..< n])) = map (\<lambda>j. fst (f j)) [k ..< k + b]"
proof -
  have "chain (map f [k ..< n]) = map (\<lambda>j. fst (f j)) [k ..< Suc (k + b - 1)]"
    using burst_links [OF assms(1-3)] assms(1,4,5) by (intro chain_run) auto
  then show ?thesis using assms(1,4) by (simp add: drop_map)
qed

section \<open>What is handed to the adapter\<close>

text \<open>
  The messages of a request are their places in memory.  \<open>handed\<close> collects those of the requests that
  succeeded, in order.
\<close>

definition sge_mem :: "sge \<Rightarrow> int \<times> int" where
  "sge_mem s = (sg_addr s, sg_length s)"

fun msgs_of :: "data_call \<Rightarrow> (int \<times> int) list" where
  "msgs_of (Post_send q ws) = map sge_mem (concat (map swr_sges ws))"
| "msgs_of (Post_recv q ws) = map sge_mem (concat (map rwr_sges ws))"
| "msgs_of (Send_pending q s) = [sge_mem s]"
| "msgs_of (Send_pending_inline q s) = [sge_mem s]"
| "msgs_of (Send_pending_sg_list q s) = [sge_mem s]"
| "msgs_of (Send_burst q ss) = map sge_mem ss"
| "msgs_of (Recv_burst q ss) = map sge_mem ss"
| "msgs_of _ = []"

definition hands :: "(int \<times> int) list \<Rightarrow> api \<Rightarrow> int \<Rightarrow> (int \<times> int) list option" where
  "hands q c r = Some (case c of Data d \<Rightarrow> if r = 0 then q @ msgs_of d else q | _ \<Rightarrow> q)"

lemma hands_simps [simp]:
  "hands q (Data d) r = Some (if r = 0 then q @ msgs_of d else q)" "hands q (Libc l) r = Some q"
  "hands q (Ibv i) r = Some q" "hands q (Cm m) r = Some q"
  by (simp_all add: hands_def)

fun handed :: "trace \<Rightarrow> (int \<times> int) list" where
  "handed [] = []"
| "handed ((c, r) # h) =
    (case c of Data d \<Rightarrow> if r = 0 then handed h @ msgs_of d else handed h | _ \<Rightarrow> handed h)"

lemma obs_hands: "obs hands [] h = Some (handed h)"
  by (induction h) (auto simp: hands_def split: api.split)

text \<open>The reference: the burst of the ring of messages that starts at \<open>idx\<close>.\<close>

definition burst_at :: "qp_data \<Rightarrow> int \<Rightarrow> (int \<times> int) list" where
  "burst_at qp idx = map (\<lambda>j. (slot_addr qp (idx mod q_max_wrs qp + j), q_msg_size qp))
     [0 .. q_wr_burst qp - 1]"

lemma length_burst_at: "length (burst_at qp idx) = nat (q_wr_burst qp)"
  by (simp add: burst_at_def)

text \<open>A burst's place: where a multiple of the burst size starts in the ring.\<close>

lemma burst_place:
  assumes "prepared s qp" and "0 \<le> idx" and "q_wr_burst qp dvd idx"
  obtains b k where "q_wr_burst qp = int b" "0 < b" "c_rem idx (q_max_wrs qp) = int k"
    "idx mod q_max_wrs qp = int k" "b dvd k" "k + b \<le> nat (q_max_wrs qp)"
proof -
  define b k n where "b = nat (q_wr_burst qp)" and "k = nat (idx mod q_max_wrs qp)"
    and "n = nat (q_max_wrs qp)"
  have m: "q_wr_burst qp = int b" "0 < b" "q_max_wrs qp = int n" "0 < n"
    "idx mod q_max_wrs qp = int k" "c_rem idx (q_max_wrs qp) = int k"
    using assms by (simp_all add: prepared_def b_def k_def n_def)
  have "int b dvd int n" using assms(1) m by (simp add: prepared_def)
  moreover have "int b dvd int k" using assms(3) \<open>int b dvd int n\<close> m
    by (metis dvd_mod_iff)
  ultimately have d: "b dvd n" "b dvd k" by simp_all
  have "int k < int n" using m(3-5) by (metis of_nat_0_less_iff pos_mod_bound)
  then have "k < n" by simp
  have "k + b \<le> n"
  proof -
    obtain c e where "k = b * c" "n = b * e" using d by (auto elim!: dvdE)
    moreover from this \<open>k < n\<close> have "Suc c \<le> e" by simp
    ultimately show ?thesis by (metis add.commute mult_Suc_right mult_le_mono2)
  qed
  with m d that show ?thesis by (simp add: n_def)
qed

lemma sg_window_burst:
  assumes "prepared s qp" and "0 \<le> idx" and "q_wr_burst qp dvd idx"
  shows "map sge_mem (sg_window qp (nat (c_rem idx (q_max_wrs qp)))) = burst_at qp idx"
proof -
  obtain b k where k: "q_wr_burst qp = int b" "0 < b" "c_rem idx (q_max_wrs qp) = int k"
    "idx mod q_max_wrs qp = int k" "b dvd k" "k + b \<le> nat (q_max_wrs qp)"
    using burst_place [OF assms] .
  have sg: "q_sg_list qp = map (prep_sge qp) [0 ..< nat (q_max_wrs qp)]"
    using assms(1) by (simp add: prepared_def)
  show ?thesis
    using k by (intro nth_equalityI)
      (auto simp: sg_window_def burst_at_def sg sge_mem_def prep_sge_def)
qed

lemma chain_window:
  assumes "prepared s qp" and "0 \<le> idx" and "q_wr_burst qp dvd idx"
  shows "s \<Longrightarrow> map sge_mem (concat (map swr_sges
      (chain (drop (nat (c_rem idx (q_max_wrs qp))) (q_send_wr qp))))) = burst_at qp idx"
    and "\<not> s \<Longrightarrow> map sge_mem (concat (map rwr_sges
      (chain (drop (nat (c_rem idx (q_max_wrs qp))) (q_recv_wr qp))))) = burst_at qp idx"
proof -
  obtain b k where k: "q_wr_burst qp = int b" "0 < b" "c_rem idx (q_max_wrs qp) = int k"
    "idx mod q_max_wrs qp = int k" "b dvd k" "k + b \<le> nat (q_max_wrs qp)"
    using burst_place [OF assms] .
  have e: "concat (map (\<lambda>j. [g j]) js) = map g js" for g :: "nat \<Rightarrow> sge" and js by (induction js) simp_all
  have b: "map sge_mem (map (prep_sge qp) [k ..< k + b]) = burst_at qp idx"
    using k by (intro nth_equalityI) (auto simp: burst_at_def sge_mem_def prep_sge_def)
  show "map sge_mem (concat (map swr_sges
      (chain (drop (nat (c_rem idx (q_max_wrs qp))) (q_send_wr qp))))) = burst_at qp idx" if s
    using that assms(1) k b chain_burst [OF k(2,5,1,6), of "prep_send_wr qp"]
    by (simp add: prepared_def prep_send_wr_def comp_def e)
  show "map sge_mem (concat (map rwr_sges
      (chain (drop (nat (c_rem idx (q_max_wrs qp))) (q_recv_wr qp))))) = burst_at qp idx" if "\<not> s"
    using that assms(1) k b chain_burst [OF k(2,5,1,6), of "prep_recv_wr qp"]
    by (simp add: prepared_def prep_recv_wr_def comp_def e)
qed

text \<open>Queue, place and direction of a call of \<open>qp_post\<close> as \<open>send_recv\<close> makes it.\<close>

definition post_ok :: "qp_data \<Rightarrow> int \<Rightarrow> qp_intf \<Rightarrow> bool" where
  "post_ok qp idx intf \<longleftrightarrow> prepared (sends_by intf) qp \<and> 0 \<le> idx \<and> q_wr_burst qp dvd idx"

abbreviation place :: "qp_data \<Rightarrow> int \<Rightarrow> nat" where
  "place qp idx \<equiv> nat (c_rem idx (q_max_wrs qp))"

lemmas post_ok_window = sg_window_burst [where s = "sends_by intf" for intf]
lemmas post_ok_chain = chain_window [where s = "sends_by intf" for intf]

lemma hands_each:
  assumes "\<And>s. msgs_of (f s) = [sge_mem s]"
  shows "sat hands (post_each (\<lambda>s. invoke E (Data (f s))) ss) q
           (\<lambda>r q'. r = 0 \<longrightarrow> q' = q @ map sge_mem ss)"
proof (induction ss arbitrary: q)
  case (Cons s ss)
  show ?case by (auto intro!: sat_intro sat_conseq [OF Cons] simp: assms)
qed (auto intro!: sat_intro)

lemma hands_pending:
  assumes "\<And>s. msgs_of (f s) = [sge_mem s]"
  shows "sat hands (post_pending E qp f k) q (\<lambda>r q'. r = 0 \<longrightarrow> q' = q @ map sge_mem (sg_window qp k))"
  unfolding post_pending_def
  by (intro sat_intro, rule sat_conseq [OF hands_each [OF assms]])
    (auto intro!: sat_intro)

lemma hands_qp_post:
  assumes "post_ok qp idx intf"
  shows "sat hands (qp_post E qp (place qp idx) idx intf) q (\<lambda>r q'. 0 \<le> r \<longrightarrow> q' = q @ burst_at qp idx)"
proof -
  have ok: "prepared (sends_by intf) qp" "0 \<le> idx" "q_wr_burst qp dvd idx"
    using assms by (auto simp: post_ok_def)
  note w = post_ok_window [OF ok] and c = post_ok_chain [OF ok]
  show ?thesis
    unfolding qp_post_def
    by (cases intf)
      (auto intro!: sat_intro sat_conseq [OF hands_pending]
        simp: w c [unfolded sends_by_def, simplified] sends_by_def)
qed

section \<open>Credits of the queue\<close>

text \<open>
  The contract between the program and the adapter.  The state counts the messages posted, those
  outstanding, and the empty polls still to come.  A program that posts more than \<open>cap\<close>
  outstanding messages breaks the contract: the call is not allowed.  An adapter that reports
  more completions than were asked for or are outstanding, or that stays idle longer than it
  promised, has broken it: then nothing more is claimed.
\<close>

datatype credit = Broken | Credit (posted: int) (outstanding: int) (idle: nat)

fun poll_max :: "data_call \<Rightarrow> int option" where
  "poll_max (Poll_cq q n) = Some n"
| "poll_max (Poll_cnt q n) = Some n"
| "poll_max (Poll_length q inl) = Some 1"
| "poll_max _ = None"

text \<open>\<open>poll_length\<close> returns the length of the one message it reports.\<close>

fun completions :: "data_call \<Rightarrow> int \<Rightarrow> int" where
  "completions (Poll_length q inl) r = min r 1"
| "completions _ r = r"

definition credit_data :: "int \<Rightarrow> int \<Rightarrow> int \<Rightarrow> nat \<Rightarrow> data_call \<Rightarrow> int \<Rightarrow> credit option" where
  "credit_data cap p u i d r = (case poll_max d of
      None \<Rightarrow> (let n = (if r = 0 then int (length (msgs_of d)) else 0) in
        if u + n \<le> cap then Some (Credit (p + n) (u + n) i) else None)
    | Some n \<Rightarrow> (let c = completions d r in
        if c < 0 then Some (Credit p u i)
        else if c = 0 then Some (if i = 0 then Broken else Credit p u (i - 1))
        else Some (if c \<le> n \<and> c \<le> u then Credit p (u - c) i else Broken)))"

fun credit_step :: "int \<Rightarrow> credit \<Rightarrow> api \<Rightarrow> int \<Rightarrow> credit option" where
  "credit_step cap Broken c r = Some Broken"
| "credit_step cap (Credit p u i) c r = (case c of Data d \<Rightarrow> credit_data cap p u i d r
     | _ \<Rightarrow> Some (Credit p u i))"

text \<open>Once the contract is broken every program satisfies it.\<close>

definition live :: "('a \<Rightarrow> int \<Rightarrow> int \<Rightarrow> nat \<Rightarrow> bool) \<Rightarrow> 'a \<Rightarrow> credit \<Rightarrow> bool" where
  "live Q r q \<longleftrightarrow> (case q of Broken \<Rightarrow> True | Credit p u i \<Rightarrow> Q r p u i)"

lemma live_simps [simp]: "live Q r Broken" "live Q r (Credit p u i) \<longleftrightarrow> Q r p u i"
  by (simp_all add: live_def)

text \<open>A broken contract stays broken.\<close>

abbreviation stays_broken :: "int \<Rightarrow> 'a prog \<Rightarrow> bool" where
  "stays_broken cap m \<equiv> sat (credit_step cap) m Broken (\<lambda>_ q. q = Broken)"

lemma broken_each: "stays_broken cap (post_each (\<lambda>s. invoke E (f s)) ss)"
  by (induction ss) (auto intro!: sat_intro)

lemma broken_qp_post: "stays_broken cap (qp_post E qp k idx intf)"
  unfolding qp_post_def post_pending_def
  by (cases intf) (auto intro!: sat_intro sat_conseq [OF broken_each])

lemma broken_qp_poll: "stays_broken cap (qp_poll E q intf th)"
  unfolding qp_poll_def by (cases intf) (auto intro!: sat_intro)

lemma quiet_is_data_valid:
  assumes "\<And>r. credit_step cap q (Libc Lrand48) r = Some q"
  shows "sat (credit_step cap) (is_data_valid E dma cw n qc th) q (\<lambda>r q'. q' = q \<and> r \<noteq> Inl Still_running)"
  unfolding is_data_valid_def get_rand_def compare_data_def Let_def
  by (auto intro!: sat_intro simp: assms split: if_splits)

lemma credit_libc [simp]: "credit_step cap q (Libc l) r = Some q"
  by (cases q) simp_all

definition polled_free :: "int \<Rightarrow> int \<Rightarrow> (fault + (int \<times> int \<times> intf_thread) option) \<Rightarrow> bool" where
  "polled_free free n v \<longleftrightarrow> v \<noteq> Inl Still_running
     \<and> (\<forall>f cw th. v = Inr (Some (f, cw, th)) \<longrightarrow> 0 \<le> n \<and> f = (if 0 < n then to_int32 (free + n) else free))"

lemma sat_take_polled:
  "sat (credit_step cap) (take_polled E dma qc chk free cw (n, th)) q
     (\<lambda>v q'. q' = q \<and> polled_free free n v)"
  unfolding take_polled_def Let_def
  by (auto intro!: sat_intro sat_conseq [OF quiet_is_data_valid] simp: polled_free_def
      split: sum.splits option.splits)

lemma broken_drain: "stays_broken cap (drain_queue E fuel dma qc ci chk msg free cw th)"
  by (induction fuel arbitrary: free cw th)
    (auto intro!: sat_intro sat_conseq [OF broken_qp_poll] sat_conseq [OF sat_take_polled])

lemma broken_fill: "stays_broken cap (fill_queue E fuel qp qi msg free)"
  by (induction fuel arbitrary: msg free) (auto intro!: sat_intro sat_conseq [OF broken_qp_post])

lemma broken_loop: "stays_broken cap (send_recv_loop E fuel dma qc qi ci chk msg free cw th)"
  by (induction fuel arbitrary: msg free cw th)
    (auto intro!: sat_intro sat_conseq [OF broken_fill] sat_conseq [OF broken_drain]
      simp del: fill_queue.simps drain_queue.simps)

text \<open>A burst of posts, a poll.\<close>

lemma credit_each:
  assumes "\<And>s. msgs_of (f s) = [sge_mem s]" and "\<And>s. poll_max (f s) = None"
    and "u + int (length ss) \<le> cap"
  shows "sat (credit_step cap) (post_each (\<lambda>s. invoke E (Data (f s))) ss) (Credit p u i)
    (\<lambda>r q. \<exists>m. 0 \<le> m \<and> m \<le> int (length ss) \<and> q = Credit (p + m) (u + m) i \<and> (r = 0 \<longrightarrow> m = int (length ss)))"
  using assms(3)
proof (induction ss arbitrary: p u)
  case (Cons s ss)
  have s: "credit_data cap p u i (f s) r
      = Some (if r = 0 then Credit (p + 1) (u + 1) i else Credit p u i)" for r
    using Cons.prems by (simp add: credit_data_def assms(1,2))
  have "sat (credit_step cap) (post_each (\<lambda>s. invoke E (Data (f s))) ss) (Credit (p + 1) (u + 1) i)
    (\<lambda>r q. \<exists>m. 0 \<le> m \<and> m \<le> int (length (s # ss)) \<and> q = Credit (p + m) (u + m) i
       \<and> (r = 0 \<longrightarrow> m = int (length (s # ss))))"
    by (rule sat_conseq [OF Cons.IH])
      (use Cons.prems in \<open>auto intro: exI [of _ "1 + m" for m]\<close>)
  then show ?case unfolding post_each.simps
    by (intro sat_bind sat_invoke) (auto simp: s intro!: sat_return)
qed (auto intro!: sat_intro)

definition posted_burst :: "int \<Rightarrow> int \<Rightarrow> int \<Rightarrow> nat \<Rightarrow> int \<Rightarrow> int \<Rightarrow> int \<Rightarrow> nat \<Rightarrow> bool" where
  "posted_burst b p u i r p' u' i' \<longleftrightarrow> (0 \<le> r \<longrightarrow> r = b \<and> p' = p + b \<and> u' = u + b \<and> i' = i)"

lemma credit_pending:
  assumes "\<And>s. msgs_of (f s) = [sge_mem s]" and "\<And>s. poll_max (f s) = None"
    and "u + int (length (sg_window qp k)) \<le> cap"
  shows "sat (credit_step cap) (post_pending E qp f k) (Credit p u i)
    (\<lambda>r. live (\<lambda>r p' u' i'. r = 0 \<longrightarrow> p' = p + int (length (sg_window qp k))
       \<and> u' = u + int (length (sg_window qp k)) \<and> i' = i) r)"
  unfolding post_pending_def
  by (intro sat_bind, rule sat_conseq [OF credit_each [OF assms]])
    (use assms(3) in \<open>auto intro!: sat_intro simp: credit_data_def Let_def\<close>)

lemma credit_qp_post:
  assumes "post_ok qp idx intf" and "u + q_wr_burst qp \<le> cap"
  shows "sat (credit_step cap) (qp_post E qp (place qp idx) idx intf) (Credit p u i)
     (live (posted_burst (q_wr_burst qp) p u i))"
proof -
  have ok: "prepared (sends_by intf) qp" "0 \<le> idx" "q_wr_burst qp dvd idx"
    using assms by (auto simp: post_ok_def)
  then have b: "int (length (burst_at qp idx)) = q_wr_burst qp" "0 < q_wr_burst qp"
    by (simp_all add: length_burst_at prepared_def)
  have w: "int (length (sg_window qp (place qp idx))) = q_wr_burst qp"
    using arg_cong [OF post_ok_window [OF ok], of length] b by simp
  then have w': "int (length (map sge_mem (sg_window qp (place qp idx)))) = q_wr_burst qp" by simp
  note c = post_ok_chain [OF ok]
  show ?thesis
    unfolding qp_post_def
    using assms(2) b w
    by (cases intf)
      (auto intro!: sat_intro sat_conseq [OF credit_pending]
        simp: credit_data_def Let_def w' c [unfolded sends_by_def, simplified] posted_burst_def sends_by_def live_def
        simp del: length_map split: credit.splits)
qed

definition polled :: "int \<Rightarrow> int \<Rightarrow> int \<Rightarrow> nat \<Rightarrow> int \<times> intf_thread \<Rightarrow> int \<Rightarrow> int \<Rightarrow> nat \<Rightarrow> bool" where
  "polled b p u i nt p' u' i' \<longleftrightarrow> (case nt of (n, th) \<Rightarrow> 0 \<le> n \<longrightarrow>
     n \<le> b \<and> n \<le> u \<and> p' = p \<and> u' = u - n \<and> (if n = 0 then i = Suc i' else i' = i))"

lemma credit_qp_poll:
  assumes "c_wc_burst cq = b" and "1 \<le> b" and "0 \<le> u"
  shows "sat (credit_step cap) (qp_poll E cq ci th) (Credit p u i) (live (polled b p u i))"
  using assms unfolding qp_poll_def
  by (cases ci) (auto intro!: sat_intro simp: credit_data_def Let_def polled_def live_def
      split: credit.splits)

section \<open>The loops of send_recv\<close>

text \<open>
  What the loops keep: \<open>free_wrs\<close> and the outstanding messages make up the window \<open>w\<close>.  Each post
  and each poll lowers \<open>2 * (num_msgs + burst - posted) + outstanding + idle\<close>, which is what bounds
  the fuel.
\<close>

definition drained ::
    "int \<Rightarrow> int \<Rightarrow> int \<Rightarrow> int \<Rightarrow> int \<Rightarrow> int \<Rightarrow> nat \<Rightarrow> (fault + (int \<times> int \<times> intf_thread) option)
      \<Rightarrow> int \<Rightarrow> int \<Rightarrow> nat \<Rightarrow> bool" where
  "drained b w nm msg p u i v p' u' i' \<longleftrightarrow> v \<noteq> Inl Still_running
     \<and> (\<forall>f cw th. v = Inr (Some (f, cw, th)) \<longrightarrow> p' = p \<and> f + u' = w \<and> 0 \<le> u' \<and> 0 \<le> f \<and> f < 2 * b
          \<and> (b \<le> f \<or> nm \<le> msg) \<and> u' + int i' < u + int i)"

lemma credit_drain:
  assumes "c_wc_burst (qc_cq qc) = b" and "q_wr_burst (qc_qp qc) = b" and "1 \<le> b" and "w < 2 ^ 31"
    and "q_num_msgs (qc_qp qc) = nm"
  shows "0 \<le> f \<Longrightarrow> f < b \<Longrightarrow> f + u = w \<Longrightarrow> 0 \<le> u \<Longrightarrow> u + int i < int fuel \<Longrightarrow>
    sat (credit_step cap) (drain_queue E fuel dma qc ci chk msg f cw th) (Credit p u i)
      (live (drained b w nm msg p u i))"
proof (induction fuel arbitrary: f u i cw th)
  case (Suc fuel)
  have rest: "sat (credit_step cap) (case v of Inl f \<Rightarrow> ret_io (Inl f) | Inr None \<Rightarrow> ret_io (Inr None)
      | Inr (Some (f, cw, th)) \<Rightarrow> if f < q_wr_burst (qc_qp qc) \<and> msg < q_num_msgs (qc_qp qc)
          then drain_queue E fuel dma qc ci chk msg f cw th else ret_io (Inr (Some (f, cw, th)))) q
      (live (drained b w nm msg p u i))"
    if v: "polled_free f n v" and q: "live (polled b p u i) (n, th') q" for v n th' q
  proof (cases q)
    case Broken
    then show ?thesis
      by (auto intro!: sat_intro sat_conseq [OF broken_drain] split: sum.splits option.splits)
  next
    case (Credit p' u' i')
    have go: "sat (credit_step cap) (drain_queue E fuel dma qc ci chk msg f' cw th) q
        (live (drained b w nm msg p u i))"
      if "v = Inr (Some (f', cw'', th''))" "f' < b" for f' cw'' th'' cw th
    proof -
      have n: "0 \<le> n" "f' = (if 0 < n then to_int32 (f + n) else f)"
        using v that(1) by (auto simp: polled_free_def)
      with q Credit have u: "n \<le> b" "n \<le> u" "p' = p" "u' = u - n" "if n = 0 then i = Suc i' else i' = i"
        by (auto simp: polled_def)
      have "f' = f + n" using n u Suc.prems assms(3,4) by auto
      then have "sat (credit_step cap) (drain_queue E fuel dma qc ci chk msg f' cw th) (Credit p u' i')
          (live (drained b w nm msg p u' i'))"
        using Suc.prems u n that(2) by (intro Suc.IH) (auto split: if_splits)
      then show ?thesis unfolding Credit u(3)
        by (rule sat_conseq) (use u n in \<open>auto simp: live_def drained_def split: credit.splits if_splits\<close>)
    qed
    have stop: "live (drained b w nm msg p u i) (Inr (Some (f', cw'', th''))) q"
      if "v = Inr (Some (f', cw'', th''))" "\<not> (f' < b \<and> msg < nm)" for f' cw'' th''
    proof -
      have n: "0 \<le> n" "f' = (if 0 < n then to_int32 (f + n) else f)"
        using v that(1) by (auto simp: polled_free_def)
      with q Credit have u: "n \<le> b" "n \<le> u" "p' = p" "u' = u - n" "if n = 0 then i = Suc i' else i' = i"
        by (auto simp: polled_def)
      have "f' = f + n" using n u Suc.prems assms(3,4) by auto
      then show ?thesis using Credit u n Suc.prems that(2)
        by (auto simp: drained_def split: if_splits)
    qed
    show ?thesis
    proof (cases v)
      case (Inl x)
      then show ?thesis using v Credit by (auto intro!: sat_return simp: polled_free_def drained_def)
    next
      case (Inr x)
      then show ?thesis using go stop Credit assms(2,5)
        by (cases x) (auto intro!: sat_return simp: drained_def)
    qed
  qed
  have u: "0 \<le> u" using Suc.prems by simp
  show ?case unfolding drain_queue.simps
    by (intro sat_bind, rule sat_conseq [OF credit_qp_poll [OF assms(1,3) u]], clarify,
        intro sat_bind, rule sat_conseq [OF sat_take_polled], clarify, rule rest)
qed simp

text \<open>The queue of a run: its bounds, and the bound on the overshoot.\<close>

definition window_ok :: "qp_data \<Rightarrow> qp_intf \<Rightarrow> int \<Rightarrow> int \<Rightarrow> bool" where
  "window_ok qp intf w cap \<longleftrightarrow> prepared (sends_by intf) qp \<and> q_wr_burst qp \<le> w \<and> w \<le> cap
     \<and> w < 2 ^ 31 \<and> q_num_msgs qp + q_wr_burst qp \<le> 2 ^ 31"

definition in_bound :: "qp_data \<Rightarrow> int \<Rightarrow> int \<Rightarrow> bool" where
  "in_bound qp p f \<longleftrightarrow> p + (f - f mod q_wr_burst qp) < q_num_msgs qp + q_wr_burst qp"

definition filled ::
    "qp_data \<Rightarrow> int \<Rightarrow> int \<Rightarrow> int \<Rightarrow> int \<Rightarrow> nat \<Rightarrow> (fault + (int \<times> int) option) \<Rightarrow> int \<Rightarrow> int \<Rightarrow> nat \<Rightarrow> bool" where
  "filled qp w p u f i v p' u' i' \<longleftrightarrow> v \<noteq> Inl Still_running
     \<and> (\<forall>m f'. v = Inr (Some (m, f')) \<longrightarrow> m = p' \<and> i' = i \<and> f' + u' = w \<and> 0 \<le> u' \<and> 0 \<le> f'
          \<and> f' < q_wr_burst qp \<and> q_wr_burst qp dvd p' \<and> 0 \<le> p' \<and> p' < q_num_msgs qp + q_wr_burst qp
          \<and> u' - u = p' - p \<and> (q_wr_burst qp \<le> f \<longrightarrow> p + q_wr_burst qp \<le> p') \<and> p \<le> p')"

lemma credit_fill:
  assumes "window_ok qp intf w cap"
  shows "0 \<le> f \<Longrightarrow> f + u = w \<Longrightarrow> 0 \<le> u \<Longrightarrow> 0 \<le> p \<Longrightarrow> q_wr_burst qp dvd p \<Longrightarrow> in_bound qp p f \<Longrightarrow>
    f < int fuel \<Longrightarrow>
    sat (credit_step cap) (fill_queue E fuel qp intf p f) (Credit p u i) (live (filled qp w p u f i))"
proof (induction fuel arbitrary: f u p)
  case (Suc fuel)
  define b where "b = q_wr_burst qp"
  have ok: "0 < b" "b \<le> w" "w \<le> cap" "w < 2 ^ 31" "q_num_msgs qp + b \<le> 2 ^ 31"
    "prepared (sends_by intf) qp"
    using assms by (auto simp: window_ok_def prepared_def b_def)
  show ?case (is "sat _ _ _ ?Q")
  proof (cases "b \<le> f")
    case False
    then have "f mod b = f" using Suc.prems by simp
    then show ?thesis using False Suc.prems
      by (auto intro!: sat_return simp: b_def filled_def in_bound_def)
  next
    case True
    have step: "in_bound qp (p + b) (f - b)" "p + b < q_num_msgs qp + b"
    proof -
      have m: "(f - b) mod b = f mod b" by (simp add: mod_diff_right_eq)
      have "f - f mod b = b * (f div b)" by (simp add: minus_mod_eq_mult_div)
      moreover have "1 \<le> f div b" using True ok(1) by (simp add: pos_imp_zdiv_pos_iff int_one_le_iff_zero_less)
      then have "b * 1 \<le> b * (f div b)" using ok(1) by (intro mult_left_mono) auto
      ultimately have "b \<le> f - f mod b" by simp
      then show "in_bound qp (p + b) (f - b)" "p + b < q_num_msgs qp + b"
        using Suc.prems m by (auto simp: in_bound_def b_def)
    qed
    have cut: "to_int32 (p + b) = p + b" "to_int32 (f - b) = f - b"
      using step Suc.prems ok True by (auto intro!: to_int32_id)
    have rest: "sat (credit_step cap) (if r < 0 then ret_io (Inr None)
        else fill_queue E fuel qp intf (to_int32 (p + b)) (to_int32 (f - b))) q (live (filled qp w p u f i))"
      if "live (posted_burst b p u i) r q" for r q
    proof (cases q)
      case Broken
      then show ?thesis by (auto intro!: sat_intro sat_conseq [OF broken_fill])
    next
      case (Credit p' u' i')
      show ?thesis
      proof (cases "r < 0")
        case False
        then have c: "p' = p + b" "u' = u + b" "i' = i"
          using that Credit by (auto simp: posted_burst_def)
        have "sat (credit_step cap) (fill_queue E fuel qp intf (p + b) (f - b)) (Credit (p + b) (u + b) i)
            (live (filled qp w (p + b) (u + b) (f - b) i))"
          using Suc.prems step True ok(1) by (intro Suc.IH) (auto simp: b_def)
        then show ?thesis using False unfolding Credit c cut
          by (auto elim!: sat_conseq simp: filled_def live_def b_def split: credit.splits)
      qed (auto intro!: sat_return simp: Credit filled_def)
    qed
    have "post_ok qp p intf" "u + b \<le> cap"
      using Suc.prems ok True by (auto simp: post_ok_def b_def)
    note post = credit_qp_post [OF this [unfolded b_def]]
    have "sat (credit_step cap) (fill_queue E (Suc fuel) qp intf p f) (Credit p u i) ?Q \<longleftrightarrow>
      sat (credit_step cap) (do { r \<leftarrow> qp_post E qp (place qp p) p intf;
         if r < 0 then ret_io (Inr None)
         else fill_queue E fuel qp intf (to_int32 (p + b)) (to_int32 (f - b)) }) (Credit p u i) ?Q" for E
      using True unfolding b_def by simp
    then show ?thesis
      unfolding b_def by (simp only:) (rule sat_bind, rule sat_conseq [OF post], rule rest [unfolded b_def])
  qed
qed simp

definition finished :: "qp_data \<Rightarrow> fault + int \<times> intf_thread \<Rightarrow> int \<Rightarrow> int \<Rightarrow> nat \<Rightarrow> bool" where
  "finished qp r p u i \<longleftrightarrow> r \<noteq> Inl Still_running
     \<and> (\<forall>th. r = Inr (0, th) \<longrightarrow> q_wr_burst qp dvd p \<and> q_num_msgs qp \<le> p
          \<and> p < q_num_msgs qp + q_wr_burst qp)"

lemma in_bound_one_burst:
  assumes "0 < q_wr_burst qp" and "q_wr_burst qp \<le> f" and "f < 2 * q_wr_burst qp" and "p < q_num_msgs qp"
  shows "in_bound qp p f"
proof -
  have "f mod q_wr_burst qp = (f - q_wr_burst qp) mod q_wr_burst qp" by simp
  also have "\<dots> = f - q_wr_burst qp" using assms by (intro mod_pos_pos_trivial) auto
  finally show ?thesis using assms by (simp add: in_bound_def)
qed

text \<open>What the outer loop starts an iteration with.\<close>

definition loop_pre :: "qp_data \<Rightarrow> int \<Rightarrow> int \<Rightarrow> int \<Rightarrow> int \<Rightarrow> nat \<Rightarrow> nat \<Rightarrow> bool" where
  "loop_pre qp w p f u i fuel \<longleftrightarrow> 0 \<le> f \<and> f + u = w \<and> 0 \<le> u \<and> 0 \<le> p \<and> q_wr_burst qp dvd p
     \<and> p < q_num_msgs qp + q_wr_burst qp
     \<and> (p < q_num_msgs qp \<longrightarrow> q_wr_burst qp \<le> f \<and> in_bound qp p f)
     \<and> 2 * (q_num_msgs qp + q_wr_burst qp - p) + u + int i + w < int fuel"

lemma loop_pre_step:
  assumes "loop_pre qp w p f u i (Suc fuel)" and "0 < q_wr_burst qp" and "q_wr_burst qp \<le> f"
    and "live (filled qp w p u f i) (Inr (Some (m, f1))) (Credit p1 u1 i1)"
    and "live (drained (q_wr_burst qp) w (q_num_msgs qp) m p1 u1 i1) (Inr (Some (f2, cw, th))) (Credit p2 u2 i2)"
  shows "m = p2 \<and> loop_pre qp w p2 f2 u2 i2 fuel"
proof -
  from assms(4) have a: "m = p1" "i1 = i" "f1 + u1 = w" "q_wr_burst qp dvd p1" "0 \<le> p1"
    "p1 < q_num_msgs qp + q_wr_burst qp" "u1 - u = p1 - p" "p + q_wr_burst qp \<le> p1"
    using assms(3) by (auto simp: filled_def)
  from assms(5) a have d: "p2 = p1" "f2 + u2 = w" "0 \<le> u2" "0 \<le> f2" "f2 < 2 * q_wr_burst qp"
    "q_wr_burst qp \<le> f2 \<or> q_num_msgs qp \<le> p1" "u2 + int i2 < u1 + int i"
    by (auto simp: drained_def)
  have "2 * (q_num_msgs qp + q_wr_burst qp - p) + u + int i + w < int (Suc fuel)"
    using assms(1) by (simp add: loop_pre_def)
  then have "2 * (q_num_msgs qp + q_wr_burst qp - p2) + u2 + int i2 + w < int fuel"
    using a d assms(2) by simp
  then show ?thesis using a d assms(2) in_bound_one_burst [of qp f2 p1]
    unfolding loop_pre_def by auto
qed

lemma credit_loop:
  assumes "window_ok (qc_qp qc) qi w cap" and "c_wc_burst (qc_cq qc) = q_wr_burst (qc_qp qc)"
  shows "loop_pre (qc_qp qc) w p f u i fuel \<Longrightarrow>
    sat (credit_step cap) (send_recv_loop E fuel dma qc qi ci chk p f cw th) (Credit p u i)
      (live (finished (qc_qp qc)))"
proof (induction fuel arbitrary: p f u i cw th)
  case 0
  have "0 \<le> w" using assms(1) by (auto simp: window_ok_def prepared_def)
  moreover have "0 < 2 * (q_num_msgs (qc_qp qc) + q_wr_burst (qc_qp qc) - p)" "0 \<le> u" "0 \<le> int i"
    "2 * (q_num_msgs (qc_qp qc) + q_wr_burst (qc_qp qc) - p) + u + int i + w < 0"
    using 0 by (simp_all add: loop_pre_def)
  ultimately have False by linarith
  then show ?case ..
next
  case (Suc fuel)
  let ?qp = "qc_qp qc"
  have b: "0 < q_wr_burst ?qp" "w < 2 ^ 31" using assms(1) by (auto simp: window_ok_def prepared_def)
  show ?case
  proof (cases "p < q_num_msgs ?qp")
    case False
    then show ?thesis using Suc.prems by (auto intro!: sat_return simp: finished_def loop_pre_def)
  next
    case True
    then have f: "q_wr_burst ?qp \<le> f" using Suc.prems by (simp add: loop_pre_def)
    have next_iter: "sat (credit_step cap) (case d of Inl f \<Rightarrow> ret_io (Inl f)
        | Inr None \<Rightarrow> ret_io (Inr (1, th))
        | Inr (Some (f2, cw, th)) \<Rightarrow> send_recv_loop E fuel dma qc qi ci chk m f2 cw th) q2
        (live (finished ?qp))"
      if fl: "live (filled ?qp w p u f i) (Inr (Some (m, f1))) (Credit p1 u1 i1)"
        and dr: "live (drained (q_wr_burst ?qp) w (q_num_msgs ?qp) m p1 u1 i1) d q2" for m f1 p1 u1 i1 d q2
    proof (cases q2)
      case Broken
      then show ?thesis by (auto intro!: sat_intro sat_conseq [OF broken_loop] split: sum.splits option.splits)
    next
      case (Credit p2 u2 i2)
      have go: "sat (credit_step cap) (send_recv_loop E fuel dma qc qi ci chk m f2 cw th) q2
          (live (finished ?qp))" if d: "d = Inr (Some (f2, cw, th))" for f2 cw th
      proof -
        have "m = p2 \<and> loop_pre ?qp w p2 f2 u2 i2 fuel"
          by (rule loop_pre_step [OF Suc.prems b(1) f fl]) (use dr d Credit in auto)
        then show ?thesis using Suc.IH Credit by simp
      qed
      show ?thesis
      proof (cases d)
        case (Inl x)
        then show ?thesis using that Credit by (auto intro!: sat_return simp: finished_def drained_def)
      next
        case (Inr o2)
        then show ?thesis using go Credit
          by (cases o2) (auto intro!: sat_return simp: finished_def)
      qed
    qed
    have drain: "sat (credit_step cap) (case v of Inl f \<Rightarrow> ret_io (Inl f)
        | Inr None \<Rightarrow> ret_io (Inr (1, th))
        | Inr (Some (m, f1)) \<Rightarrow> do {
            d \<leftarrow> drain_queue E (Suc fuel) dma qc ci chk m f1 cw th;
            case d of Inl f \<Rightarrow> ret_io (Inl f) | Inr None \<Rightarrow> ret_io (Inr (1, th))
            | Inr (Some (f2, cw, th)) \<Rightarrow> send_recv_loop E fuel dma qc qi ci chk m f2 cw th }) q1
        (live (finished ?qp))"
      if "live (filled ?qp w p u f i) v q1" for v q1
    proof (cases q1)
      case Broken
      then show ?thesis
        by (auto intro!: sat_intro sat_conseq [OF broken_drain] sat_conseq [OF broken_loop]
            simp del: drain_queue.simps split: sum.splits option.splits)
    next
      case (Credit p1 u1 i1)
      have d: "sat (credit_step cap) (drain_queue E (Suc fuel) dma qc ci chk m f1 cw th) q1
          (live (drained (q_wr_burst ?qp) w (q_num_msgs ?qp) m p1 u1 i1))" if "v = Inr (Some (m, f1))" for m f1
      proof -
        have "0 \<le> f1" "f1 < q_wr_burst ?qp" "f1 + u1 = w" "0 \<le> u1" "u1 - u = p1 - p" "i1 = i"
          "p1 < q_num_msgs ?qp + q_wr_burst ?qp"
          using \<open>live _ v q1\<close> that Credit by (auto simp: filled_def)
        then show ?thesis unfolding Credit using Suc.prems b
          by (intro credit_drain [OF assms(2) refl _ b(2) refl]) (auto simp: loop_pre_def)
      qed
      show ?thesis
      proof (cases v)
        case (Inl x)
        then show ?thesis using that Credit by (auto intro!: sat_return simp: filled_def finished_def)
      next
        case (Inr o1)
        then show ?thesis
        proof (cases o1)
          case None
          then show ?thesis using Inr Credit by (auto intro!: sat_return simp: finished_def)
        next
          case (Some mf)
          obtain m f1 where mf: "mf = (m, f1)" by force
          from d [of m f1] that Inr Some mf Credit show ?thesis
            by (auto simp del: drain_queue.simps intro!: sat_bind elim!: sat_conseq intro: next_iter)
        qed
      qed
    qed
    have "sat (credit_step cap) (fill_queue E (Suc fuel) ?qp qi p f) (Credit p u i) (live (filled ?qp w p u f i))"
      using Suc.prems True by (intro credit_fill [OF assms(1)]) (auto simp: loop_pre_def)
    then show ?thesis using True unfolding send_recv_loop.simps
      by (auto simp del: fill_queue.simps drain_queue.simps intro!: sat_bind elim!: sat_conseq intro: drain)
  qed
qed

section \<open>Properties\<close>

text \<open>A queue of a run: what \<open>create_context\<close> and \<open>create_qp\<close> make of accepted parameters.\<close>

definition run_ok :: "qp_cq_data \<Rightarrow> qp_intf \<Rightarrow> bool" where
  "run_ok qc intf \<longleftrightarrow> (let qp = qc_qp qc in prepared (sends_by intf) qp
     \<and> c_wc_burst (qc_cq qc) = q_wr_burst qp \<and> q_max_wrs qp < 2 ^ 31
     \<and> q_num_msgs qp + q_wr_burst qp \<le> 2 ^ 31)"

lemma sat_send_recv:
  assumes "run_ok qc qi" and "q_wr_burst (qc_qp qc) \<le> q_num_msgs (qc_qp qc)"
    and "2 * (q_num_msgs (qc_qp qc) + q_wr_burst (qc_qp qc)) + int i + q_max_wrs (qc_qp qc) < int fuel"
  shows "sat (credit_step (q_max_wrs (qc_qp qc))) (send_recv E fuel dma qc th chk qi ci) (Credit 0 0 i)
           (live (finished (qc_qp qc)))"
proof -
  let ?qp = "qc_qp qc"
  define w where "w = min (q_max_wrs ?qp) (q_num_msgs ?qp)"
  have p: "prepared (sends_by qi) ?qp" "q_max_wrs ?qp < 2 ^ 31"
    and b: "0 < q_wr_burst ?qp" "q_wr_burst ?qp dvd q_max_wrs ?qp" "0 < q_max_wrs ?qp"
    using assms(1) by (auto simp: run_ok_def Let_def prepared_def)
  have "q_wr_burst ?qp \<le> q_max_wrs ?qp" using b by (intro zdvd_imp_le)
  then have w: "q_wr_burst ?qp \<le> w" "w \<le> q_max_wrs ?qp" "w \<le> q_num_msgs ?qp" "0 \<le> w" "to_int32 w = w"
    using assms(2) b p(2) by (auto simp: w_def min_def)
  have "0 \<le> w mod q_wr_burst ?qp" using b by simp
  then have "in_bound ?qp 0 w" unfolding in_bound_def using w b by linarith
  then have "window_ok ?qp qi w (q_max_wrs ?qp)" "loop_pre ?qp w 0 w 0 i fuel"
    using assms w p b by (auto simp: window_ok_def loop_pre_def run_ok_def Let_def)
  moreover have "c_wc_burst (qc_cq qc) = q_wr_burst ?qp" using assms(1) by (simp add: run_ok_def Let_def)
  ultimately show ?thesis
    using w(5) by (simp add: send_recv_def w_def [symmetric] credit_loop)
qed

text \<open>A small run: 4 messages in bursts of 2 through a queue of 4.\<close>

definition demo_qc :: qp_cq_data where
  "demo_qc = zero_qp_cq\<lparr>
     qc_qp := prep_arrays True 0 (zero_qp_data\<lparr>q_msg_size := 8, q_msg_stride := 64, q_num_msgs := 4,
       q_wr_burst := 2, q_max_wrs := 4, q_buf := 4096\<rparr>),
     qc_cq := (qc_cq zero_qp_cq)\<lparr>c_wc_burst := 2, c_size := 4\<rparr>\<rparr>"

definition poll_env :: "int \<Rightarrow> api_env" where
  "poll_env n = const_env (\<lambda>c. case c of
       Data (Poll_cq q k) \<Rightarrow> n | Data (Poll_cnt q k) \<Rightarrow> n | Data (Poll_length q b) \<Rightarrow> n | _ \<Rightarrow> 0) (\<lambda>c. [])"

definition no_memory :: memory where
  "no_memory h a = NUL"

lemma demo_run_ok: "sends_by intf \<Longrightarrow> run_ok demo_qc intf"
  by (simp add: run_ok_def demo_qc_def Let_def prepared_prep_arrays zero_qp_data_def)

text \<open>
  C12: \<open>send_recv\<close> respects its queue: whatever the adapter does, no call posts a message for which
  the queue has no room, through every interface; and if it returns 0 to an adapter that kept its
  side, it has posted all the messages asked for, rounded up to whole bursts and no burst more.
\<close>

theorem send_recv_whole_bursts:
  assumes "run_ok qc qi" and "q_wr_burst (qc_qp qc) \<le> q_num_msgs (qc_qp qc)"
    and "2 * (q_num_msgs (qc_qp qc) + q_wr_burst (qc_qp qc)) + int i + q_max_wrs (qc_qp qc) < int fuel"
    and "obs (credit_step (q_max_wrs (qc_qp qc))) q0 h = Some (Credit 0 0 i)"
    and "run_state (send_recv E fuel dma qc th chk qi ci) h = (r, h')"
  shows "\<exists>q. obs (credit_step (q_max_wrs (qc_qp qc))) q0 h' = Some q
    \<and> (\<forall>p u j th'. q = Credit p u j \<and> r = Inr (0, th') \<longrightarrow>
         q_wr_burst (qc_qp qc) dvd p \<and> q_num_msgs (qc_qp qc) \<le> p
         \<and> p < q_num_msgs (qc_qp qc) + q_wr_burst (qc_qp qc))"
  using satD [OF sat_send_recv [OF assms(1-3)] assms(4,5)] by (auto simp: finished_def)

theorem send_recv_whole_bursts_witness:
  "\<exists>th' h'. run_state (send_recv (poll_env 2) 30 no_memory demo_qc zero_thread False
       ACC_SEND_BURST_INTF ACC_POLL_CNT_INTF) [] = (Inr (0, th'), h')
     \<and> obs (credit_step 4) (Credit 0 0 0) h' = Some (Credit 4 2 0)"
proof -
  let ?m = "send_recv (poll_env 2) 30 no_memory demo_qc zero_thread False ACC_SEND_BURST_INTF ACC_POLL_CNT_INTF"
  have r: "fst (run_state ?m []) = Inr (0, zero_thread)
      \<and> obs (credit_step 4) (Credit 0 0 0) (snd (run_state ?m [])) = Some (Credit 4 2 0)"
    by code_simp
  have m: "q_max_wrs (qc_qp demo_qc) = 4" "q_wr_burst (qc_qp demo_qc) = 2" "q_num_msgs (qc_qp demo_qc) = 4"
    by (simp_all add: demo_qc_def prep_arrays_def Let_def)
  from send_recv_whole_bursts [OF demo_run_ok, of ACC_SEND_BURST_INTF 0 30 "Credit 0 0 0" "[]" "poll_env 2" no_memory
      zero_thread False ACC_POLL_CNT_INTF "fst (run_state ?m [])" "snd (run_state ?m [])"]
  have "\<exists>q. obs (credit_step 4) (Credit 0 0 0) (snd (run_state ?m [])) = Some q"
    by (auto simp: m sends_by_def)
  with r show ?thesis by (metis prod.collapse)
qed

text \<open>With a message of at least one byte to look at, no run divides by zero, and the status is 0 or 1.\<close>

definition sound :: "fault + 'a \<Rightarrow> bool" where
  "sound r \<longleftrightarrow> r \<noteq> Inl Division_by_zero"

lemma gives_get_rand: "n \<noteq> 0 \<Longrightarrow> gives (get_rand E 0 n) (\<lambda>r. \<exists>x. r = Inr x)"
  by (simp add: gives_def get_rand_def run_simps)

lemma gives_is_data_valid:
  assumes "n \<noteq> 0" and "q_msg_size (qc_qp qc) \<noteq> 0"
  shows "gives (is_data_valid E dma cw n qc th) sound"
  unfolding is_data_valid_def Let_def
  by (rule gives_bind, rule gives_conseq [OF gives_get_rand [OF assms(1)]])
    (auto intro!: gives_bind gives_conseq [OF gives_get_rand [OF assms(2)]] gives_then [of _ _ "compare_data d cw n qc th a b" for d cw n th a b] gives_return simp: sound_def)

lemma gives_take_polled:
  assumes "chk \<longrightarrow> q_msg_size (qc_qp qc) \<noteq> 0"
  shows "gives (take_polled E dma qc chk free cw ct) sound"
  using assms unfolding take_polled_def Let_def
  by (cases ct)
    (auto intro!: gives_if gives_bind gives_conseq [OF gives_is_data_valid] gives_return
      simp: sound_def split: sum.splits option.splits)

lemma gives_drain:
  assumes "chk \<longrightarrow> q_msg_size (qc_qp qc) \<noteq> 0"
  shows "gives (drain_queue E fuel dma qc ci chk msg free cw th) sound"
proof (induction fuel arbitrary: free cw th)
  case (Suc fuel)
  have "gives (case v of Inl f \<Rightarrow> ret_io (Inl f) | Inr None \<Rightarrow> ret_io (Inr None)
     | Inr (Some (f', cw, th)) \<Rightarrow> if f' < q_wr_burst (qc_qp qc) \<and> msg < q_num_msgs (qc_qp qc)
         then drain_queue E fuel dma qc ci chk msg f' cw th else ret_io (Inr (Some (f', cw, th)))) sound"
    if "sound v" for v
    using that by (auto intro!: gives_return Suc.IH simp: sound_def split: sum.splits option.splits)
  then show ?case unfolding drain_queue.simps
    by (intro gives_then gives_bind [of "take_polled E dma qc chk free cw ct" for ct] gives_conseq [OF gives_take_polled [OF assms]])
qed (simp add: gives_return sound_def)

lemma gives_fill: "gives (fill_queue E fuel qp qi msg free) sound"
  by (induction fuel arbitrary: msg free) (auto intro!: gives_if gives_then gives_return simp: sound_def)

definition plain_status :: "fault + int \<times> 'a \<Rightarrow> bool" where
  "plain_status r \<longleftrightarrow> r = Inl Still_running \<or> (\<exists>s th. r = Inr (s, th) \<and> (s = 0 \<or> s = 1))"

lemma sound_Inl: "sound (Inl f) \<longleftrightarrow> f = Still_running"
  by (cases f) (simp_all add: sound_def)

lemma gives_send_recv_loop:
  assumes "chk \<longrightarrow> q_msg_size (qc_qp qc) \<noteq> 0"
  shows "gives (send_recv_loop E fuel dma qc qi ci chk msg free cw th) plain_status"
proof (induction fuel arbitrary: msg free cw th)
  case (Suc fuel)
  have drained: "gives (case d of Inl f \<Rightarrow> ret_io (Inl f) | Inr None \<Rightarrow> ret_io (Inr (1, th))
      | Inr (Some (free, cw, th)) \<Rightarrow> send_recv_loop E fuel dma qc qi ci chk msg free cw th) plain_status"
    if "sound d" for d msg th
    using that by (auto intro!: gives_return Suc.IH simp: sound_Inl plain_status_def split: sum.splits option.splits)
  have filled: "gives (case p of Inl f \<Rightarrow> ret_io (Inl f) | Inr None \<Rightarrow> ret_io (Inr (1, th))
      | Inr (Some (msg, free)) \<Rightarrow> do {
          d \<leftarrow> drain_queue E (Suc fuel) dma qc ci chk msg free cw th;
          case d of Inl f \<Rightarrow> ret_io (Inl f) | Inr None \<Rightarrow> ret_io (Inr (1, th))
          | Inr (Some (free, cw, th)) \<Rightarrow> send_recv_loop E fuel dma qc qi ci chk msg free cw th }) plain_status"
    if "sound p" for p
    using that
    by (auto intro!: gives_return gives_bind gives_conseq [OF gives_drain [OF assms]] drained
        simp: sound_Inl plain_status_def simp del: drain_queue.simps split: sum.splits option.splits)
  show ?case unfolding send_recv_loop.simps
    by (intro gives_if gives_bind gives_conseq [OF gives_fill] filled) (simp_all add: gives_return plain_status_def)
qed (simp add: gives_return plain_status_def)

text \<open>
  C16: \<open>send_recv\<close> returns: with an adapter that keeps its side and leaves at most \<open>i\<close> polls
  empty while messages are outstanding, and messages of at least one byte if their contents are
  checked, it comes to an end with the status 0 or 1.  It does so before any of its loops reaches the
  iteration limit \<open>fuel\<close>, for every limit above a bound that is linear in the number of messages.
\<close>

theorem send_recv_returns:
  assumes "run_ok qc qi" and "q_wr_burst (qc_qp qc) \<le> q_num_msgs (qc_qp qc)"
    and "2 * (q_num_msgs (qc_qp qc) + q_wr_burst (qc_qp qc)) + int i + q_max_wrs (qc_qp qc) < int fuel"
    and "obs (credit_step (q_max_wrs (qc_qp qc))) q0 h = Some (Credit 0 0 i)"
    and "run_state (send_recv E fuel dma qc th chk qi ci) h = (r, h')"
    and "obs (credit_step (q_max_wrs (qc_qp qc))) q0 h' \<noteq> Some Broken"
    and "chk \<longrightarrow> q_msg_size (qc_qp qc) \<noteq> 0"
  shows "\<exists>s th'. r = Inr (s, th') \<and> (s = 0 \<or> s = 1)"
proof -
  have "plain_status r" using gives_send_recv_loop [OF assms(7)] assms(5) unfolding gives_def send_recv_def
    by (metis fst_conv)
  moreover have "r \<noteq> Inl Still_running"
  proof -
    obtain q where "obs (credit_step (q_max_wrs (qc_qp qc))) q0 h' = Some q" "live (finished (qc_qp qc)) r q"
      using satD [OF sat_send_recv [OF assms(1-3)] assms(4,5)] by blast
    with assms(6) show ?thesis by (cases q) (auto simp: finished_def)
  qed
  ultimately show ?thesis by (simp add: plain_status_def)
qed

text \<open>A receiver that checks the data it gets.\<close>

definition demo_recv :: qp_cq_data where
  "demo_recv = zero_qp_cq\<lparr>
     qc_qp := prep_arrays False 0 (zero_qp_data\<lparr>q_msg_size := 8, q_msg_stride := 64, q_num_msgs := 4,
       q_wr_burst := 2, q_max_wrs := 4, q_buf := 4096\<rparr>),
     qc_cq := (qc_cq zero_qp_cq)\<lparr>c_wc_burst := 2, c_size := 4\<rparr>\<rparr>"

lemma demo_recv_ok: "run_ok demo_recv ACC_RECV_BURST_INTF"
  by (simp add: run_ok_def demo_recv_def Let_def prepared_prep_arrays zero_qp_data_def sends_by_def)

theorem send_recv_returns_witness:
  "\<exists>s th'. fst (run_state (send_recv (poll_env 1) 30 (\<lambda>h a. calc_msg_data 0 0) demo_recv zero_thread True
     ACC_RECV_BURST_INTF ACC_POLL_CNT_INTF) []) = Inr (s, th') \<and> (s = 0 \<or> s = 1)"
proof -
  let ?m = "send_recv (poll_env 1) 30 (\<lambda>h a. calc_msg_data 0 0) demo_recv zero_thread True ACC_RECV_BURST_INTF ACC_POLL_CNT_INTF"
  have r: "obs (credit_step 4) (Credit 0 0 0) (snd (run_state ?m [])) \<noteq> Some Broken"
    by code_simp
  have m: "q_max_wrs (qc_qp demo_recv) = 4" "q_wr_burst (qc_qp demo_recv) = 2" "q_num_msgs (qc_qp demo_recv) = 4"
    "q_msg_size (qc_qp demo_recv) = 8"
    by (simp_all add: demo_recv_def prep_arrays_def Let_def)
  from send_recv_returns [OF demo_recv_ok, of 0 30 "Credit 0 0 0" "[]" "poll_env 1"
      "\<lambda>h a. calc_msg_data 0 0" zero_thread True ACC_POLL_CNT_INTF "fst (run_state ?m [])" "snd (run_state ?m [])"] r
  show ?thesis by (auto simp: m)
qed

text \<open>An adapter with nothing to report.\<close>

definition idle_adapter :: "api_env \<Rightarrow> bool" where
  "idle_adapter E \<longleftrightarrow> (\<forall>h d. poll_max d \<noteq> None \<longrightarrow> ret E h (Data d) = 0)"

lemma idle_poll:
  assumes "idle_adapter E"
  shows "\<exists>th' h'. run_state (qp_poll E q ci th) h = ((0, th'), h') \<and> handed h' = handed h"
  using assms by (cases ci) (simp_all add: qp_poll_def run_simps idle_adapter_def)

lemma idle_drain:
  assumes "idle_adapter E" and "f < q_wr_burst (qc_qp qc)" and "msg < q_num_msgs (qc_qp qc)"
  shows "\<exists>h'. run_state (drain_queue E fuel dma qc ci chk msg f cw th) h = (Inl Still_running, h')
     \<and> handed h' = handed h"
proof (induction fuel arbitrary: th h)
  case (Suc fuel)
  obtain th' h' where "run_state (qp_poll E (qc_cq qc) ci th) h = ((0, th'), h')" "handed h' = handed h"
    using idle_poll [OF assms(1)] by blast
  then show ?case using Suc.IH [of th' h'] assms(2,3)
    by (simp add: run_bind run_return take_polled_def)
qed (simp add: run_return)

text \<open>
  Fewer messages than a burst are never sent: \<open>send_recv\<close> asks for a free burst, has a window of
  \<open>num_msgs\<close> only, posts nothing and polls for completions that cannot come, for ever.
\<close>

theorem small_run_hangs:
  assumes "0 < q_num_msgs (qc_qp qc)" and "q_num_msgs (qc_qp qc) < q_wr_burst (qc_qp qc)"
    and "q_wr_burst (qc_qp qc) \<le> q_max_wrs (qc_qp qc)" and "q_num_msgs (qc_qp qc) < 2 ^ 31"
    and "idle_adapter E"
  shows "\<exists>h'. run_state (send_recv E fuel dma qc th chk qi ci) h = (Inl Still_running, h')
     \<and> handed h' = handed h"
proof -
  have w: "to_int32 (min (q_max_wrs (qc_qp qc)) (q_num_msgs (qc_qp qc))) = q_num_msgs (qc_qp qc)"
    using assms by (simp add: min_def)
  obtain h' where "run_state (drain_queue E fuel dma qc ci chk 0 (q_num_msgs (qc_qp qc)) 0 th) h
      = (Inl Still_running, h')" "handed h' = handed h"
    using idle_drain [OF assms(5,2), of 0] assms(1) by blast
  then show ?thesis using assms(1,2) w
    by (cases fuel) (auto simp: send_recv_def run_bind run_return simp del: drain_queue.simps(2))
qed

theorem small_run_hangs_witness:
  "\<exists>h'. run_state (send_recv (poll_env 0) 1000 no_memory
      (demo_qc\<lparr>qc_qp := (qc_qp demo_qc)\<lparr>q_num_msgs := 1\<rparr>\<rparr>) zero_thread False ACC_SEND_BURST_INTF
      ACC_POLL_CNT_INTF) [] = (Inl Still_running, h') \<and> handed h' = []"
proof -
  have "idle_adapter (poll_env 0)"
    unfolding idle_adapter_def
  proof (intro allI impI)
    fix h d
    assume "poll_max d \<noteq> None"
    then show "ret (poll_env 0) h (Data d) = 0"
      by (cases d) (simp_all add: poll_env_def const_env_def)
  qed
  from small_run_hangs [OF _ _ _ _ this, of "demo_qc\<lparr>qc_qp := (qc_qp demo_qc)\<lparr>q_num_msgs := 1\<rparr>\<rparr>" 1000
      no_memory zero_thread False ACC_SEND_BURST_INTF ACC_POLL_CNT_INTF "[]"]
  show ?thesis by (simp add: demo_qc_def zero_qp_data_def)
qed

text \<open>
  C15: The interfaces of \<open>qp_post\<close> are equivalent: on prepared arrays, wherever a burst starts, every
  one of the five ways of sending (and both ways of receiving) that reports success has handed the
  adapter the same messages, those of the reference \<open>burst_at\<close>, in the same order, and
  reports one burst; only the calls that carry them differ.
\<close>

theorem post_interfaces_agree:
  assumes "post_ok qp idx intf" and "post_ok qp idx intf'"
    and "run_state (qp_post E qp (place qp idx) idx intf) h = (r, h1)" and "0 \<le> r"
    and "run_state (qp_post E' qp (place qp idx) idx intf') g = (r', g1)" and "0 \<le> r'"
  shows "handed h1 = handed h @ burst_at qp idx \<and> handed g1 = handed g @ burst_at qp idx
    \<and> length (burst_at qp idx) = nat (q_wr_burst qp)"
  using satD [OF hands_qp_post [OF assms(1)] obs_hands assms(3)] assms(4)
    satD [OF hands_qp_post [OF assms(2)] obs_hands assms(5)] assms(6)
  by (simp add: obs_hands length_burst_at)

theorem post_interfaces_agree_witness:
  "handed (snd (run_state (qp_post (poll_env 0) (qc_qp demo_qc) 2 6 NORMAL_SEND_INTF) []))
   = handed (snd (run_state (qp_post (poll_env 0) (qc_qp demo_qc) 2 6 ACC_SEND_PENDING_INL_INTF) []))"
proof -
  let ?a = "qp_post (poll_env 0) (qc_qp demo_qc) 2 6 NORMAL_SEND_INTF"
    and ?b = "qp_post (poll_env 0) (qc_qp demo_qc) 2 6 ACC_SEND_PENDING_INL_INTF"
  have r: "0 \<le> fst (run_state ?a [])" "0 \<le> fst (run_state ?b [])" by code_simp+
  have m: "q_max_wrs (qc_qp demo_qc) = 4" "q_wr_burst (qc_qp demo_qc) = 2"
    by (simp_all add: demo_qc_def)
  have p: "prepared True (qc_qp demo_qc)"
    using demo_run_ok [of ACC_SEND_BURST_INTF] by (simp add: run_ok_def sends_by_def Let_def)
  then have "post_ok (qc_qp demo_qc) 6 NORMAL_SEND_INTF" "post_ok (qc_qp demo_qc) 6 ACC_SEND_PENDING_INL_INTF"
    by (simp_all add: post_ok_def sends_by_def m)
  from post_interfaces_agree [OF this, of "poll_env 0" "[]" "fst (run_state ?a [])" "snd (run_state ?a [])"
      "poll_env 0" "[]" "fst (run_state ?b [])" "snd (run_state ?b [])"] r
  show ?thesis by (simp add: m)
qed

text \<open>When the nibble of a message's slot at the receiver is that of its slot at the sender.\<close>

lemma rings_agree:
  assumes "0 < S" and "0 < (R :: int)"
  shows "(\<forall>m \<ge> 0. m mod R mod 16 = m mod S mod 16) \<longleftrightarrow> R = S \<or> (16 dvd R \<and> 16 dvd S)"
proof
  have one: "16 dvd a \<and> 16 dvd b" if "\<forall>m \<ge> 0. m mod a mod 16 = m mod b mod 16" "0 < a" "a < b" for a b :: int
  proof -
    have "0 \<le> a" "0 \<le> b" "a mod b = a" using that(2,3) by simp_all
    then have "0 = a mod 16" using that(1) [rule_format, of a] by simp
    then have a: "16 dvd a" by (simp add: dvd_eq_mod_eq_0)
    have "b mod a mod 16 = 0" using that(1) [rule_format, OF \<open>0 \<le> b\<close>] by simp
    then have "b mod 16 = 0" using a by (simp add: mod_mod_cancel)
    with a show ?thesis by (simp add: dvd_eq_mod_eq_0)
  qed
  assume a: "\<forall>m \<ge> 0. m mod R mod 16 = m mod S mod 16"
  consider "R = S" | "R < S" | "S < R" by linarith
  then show "R = S \<or> (16 dvd R \<and> 16 dvd S)"
  proof cases
    case 2
    then show ?thesis using one [of R S] a assms by blast
  next
    case 3
    have "\<forall>m \<ge> 0. m mod S mod 16 = m mod R mod 16" using a by simp
    then show ?thesis using one [of S R] 3 assms by blast
  qed simp
next
  assume "R = S \<or> (16 dvd R \<and> 16 dvd S)"
  then show "\<forall>m \<ge> 0. m mod R mod 16 = m mod S mod 16" by (auto simp: mod_mod_cancel)
qed

text \<open>
  The memory of a receiver of ring size \<open>R\<close> after messages \<open>m, \<dots>, m + n - 1\<close> of a sender of ring
  size \<open>S\<close> have arrived: message \<open>k\<close> was sent from the sender's slot \<open>k mod S\<close>.
\<close>

definition arrived :: "memory \<Rightarrow> int \<Rightarrow> qp_cq_data \<Rightarrow> int \<Rightarrow> int \<Rightarrow> bool" where
  "arrived dma S qc m n \<longleftrightarrow> (\<forall>h k j. m \<le> k \<longrightarrow> k < m + n \<longrightarrow> 0 \<le> j \<longrightarrow> j < q_msg_size (qc_qp qc) \<longrightarrow>
     dma h (slot_addr (qc_qp qc) (k mod q_max_wrs (qc_qp qc)) + j)
       = calc_msg_data (k mod S) (qc_idx qc))"

lemma to_int32_mod: "0 < n \<Longrightarrow> n < 2 ^ 31 \<Longrightarrow> to_int32 (x mod n) = x mod n"
proof -
  assume n: "0 < n" "n < 2 ^ 31"
  then have "0 \<le> x mod n" "x mod n < n" by simp_all
  with n have "- (2 ^ 31) \<le> x mod n" "x mod n < 2 ^ 31" by linarith+
  then show ?thesis by (rule to_int32_id)
qed

lemma get_rand_run:
  assumes "0 < n" and "n < 2 ^ 31"
  shows "\<exists>a h'. run_state (get_rand E 0 n) h = (Inr a, h') \<and> 0 \<le> a \<and> a < n"
proof -
  let ?r = "ret E h (Libc Lrand48) AND 0xffffffff"
  have "0 \<le> ?r" by simp
  then have c: "c_rem ?r n = ?r mod n" using assms by simp
  have "0 \<le> ?r mod n" "?r mod n < n" using assms by simp_all
  then show ?thesis using assms by (auto simp: get_rand_def run_simps c to_int32_mod)
qed

text \<open>
  One check of the window of \<open>n\<close> messages from \<open>m\<close> on: it looks at one byte \<open>j\<close> of one message \<open>k\<close> of
  them, as the memory is at the end of the check, and accepts exactly when that byte is the one expected
  in the message's slot.
\<close>

definition checks_byte :: "api_env \<Rightarrow> memory \<Rightarrow> qp_cq_data \<Rightarrow> intf_thread \<Rightarrow> int \<Rightarrow> int \<Rightarrow> trace \<Rightarrow> int \<Rightarrow> int \<Rightarrow> bool" where
  "checks_byte E dma qc th m n h k j \<longleftrightarrow>
    (let (v, h') = run_state (is_data_valid E dma m n qc th) h;
         slot = k mod q_max_wrs (qc_qp qc) in
     v = Inr (if dma h' (slot_addr (qc_qp qc) slot + j) = calc_msg_data slot (qc_idx qc)
            then Some (m + n, th\<lparr>t_use_inlr := 0\<rparr>) else None))"

lemma one_byte_checked:
  assumes "0 < n" and "n < 2 ^ 31" and "0 < q_msg_size (qc_qp qc)" and "q_msg_size (qc_qp qc) < 2 ^ 31"
    and "0 < q_max_wrs (qc_qp qc)" and "q_max_wrs (qc_qp qc) < 2 ^ 31" and "0 \<le> m" and "t_use_inlr th = 0"
  shows "\<exists>k j. m \<le> k \<and> k < m + n \<and> 0 \<le> j \<and> j < q_msg_size (qc_qp qc) \<and> checks_byte E dma qc th m n h k j"
proof -
  obtain a h1 where a: "run_state (get_rand E 0 n) h = (Inr a, h1)" "0 \<le> a" "a < n"
    using get_rand_run [OF assms(1,2)] by blast
  obtain j h2 where j: "run_state (get_rand E 0 (q_msg_size (qc_qp qc))) h1 = (Inr j, h2)"
      "0 \<le> j" "j < q_msg_size (qc_qp qc)"
    using get_rand_run [OF assms(3,4)] by blast
  let ?R = "q_max_wrs (qc_qp qc)"
  have w: "to_int32 (c_rem (m + a) ?R) = (m + a) mod ?R"
    using assms(5-7) a(2) by (simp add: to_int32_mod)
  have "checks_byte E dma qc th m n h (m + a) j"
    using a j assms(8) by (auto simp: checks_byte_def is_data_valid_def compare_data_def run_simps w Let_def)
  then show ?thesis using a j by (intro exI [of _ "m + a"] exI [of _ j]) simp
qed

lemma sampled:
  assumes "0 < n" and "n < 2 ^ 31" and "0 < q_msg_size (qc_qp qc)" and "q_msg_size (qc_qp qc) < 2 ^ 31"
    and "0 < q_max_wrs (qc_qp qc)" and "q_max_wrs (qc_qp qc) < 2 ^ 31" and "0 \<le> m"
    and "t_use_inlr th = 0" and "arrived dma S qc m n"
  shows "\<exists>a \<ge> 0. a < n \<and> fst (run_state (is_data_valid E dma m n qc th) h) =
    Inr (if calc_msg_data ((m + a) mod S) (qc_idx qc)
            = calc_msg_data ((m + a) mod q_max_wrs (qc_qp qc)) (qc_idx qc)
         then Some (m + n, th\<lparr>t_use_inlr := 0\<rparr>) else None)"
proof -
  obtain k j where k: "m \<le> k" "k < m + n" "0 \<le> j" "j < q_msg_size (qc_qp qc)" "checks_byte E dma qc th m n h k j"
    using one_byte_checked [OF assms(1-8)] by blast
  have "dma h (slot_addr (qc_qp qc) (k mod q_max_wrs (qc_qp qc)) + j) = calc_msg_data (k mod S) (qc_idx qc)" for h
    using assms(9) k by (simp add: arrived_def)
  then show ?thesis using k by (intro exI [of _ "k - m"]) (auto simp: checks_byte_def Let_def split: prod.splits)
qed

lemma accepts_iff:
  assumes "0 < q_msg_size (qc_qp qc)" and "q_msg_size (qc_qp qc) < 2 ^ 31"
    and "0 < q_max_wrs (qc_qp qc)" and "q_max_wrs (qc_qp qc) < 2 ^ 31" and "0 < S"
    and "t_use_inlr th = 0"
  shows "(\<forall>E dma m n h. 0 \<le> m \<and> 0 < n \<and> n \<le> q_max_wrs (qc_qp qc) \<and> arrived dma S qc m n \<longrightarrow>
      fst (run_state (is_data_valid E dma m n qc th) h) \<noteq> Inr None)
    \<longleftrightarrow> q_max_wrs (qc_qp qc) = S \<or> (16 dvd q_max_wrs (qc_qp qc) \<and> 16 dvd S)"
    (is "?accepts \<longleftrightarrow> ?sizes")
proof
  let ?R = "q_max_wrs (qc_qp qc)"
  assume a: ?accepts
  have "m mod ?R mod 16 = m mod S mod 16" if "0 \<le> m" for m
  proof -
    define dma :: memory where "dma h x = calc_msg_data (m mod S) (qc_idx qc)" for h x
    have "arrived dma S qc m 1" by (auto simp: arrived_def dma_def)
    then have "fst (run_state (is_data_valid (poll_env 0) dma m 1 qc th) []) \<noteq> Inr None"
      using a that assms(3) by auto
    moreover from sampled [OF _ _ assms(1-4) that assms(6) \<open>arrived dma S qc m 1\<close>, of "poll_env 0" "[]"]
    obtain k where "k \<ge> 0" "k < 1" "fst (run_state (is_data_valid (poll_env 0) dma m 1 qc th) []) =
        Inr (if calc_msg_data ((m + k) mod S) (qc_idx qc) = calc_msg_data ((m + k) mod ?R) (qc_idx qc)
             then Some (m + 1, th\<lparr>t_use_inlr := 0\<rparr>) else None)" by auto
    moreover from this have "k = 0" by simp
    ultimately have "calc_msg_data (m mod S) (qc_idx qc) = calc_msg_data (m mod ?R) (qc_idx qc)"
      by (auto split: if_splits)
    then show ?thesis by (simp add: calc_msg_data_inj)
  qed
  then show ?sizes using rings_agree [of S ?R] assms by blast
next
  assume ?sizes
  then have eq: "m mod q_max_wrs (qc_qp qc) mod 16 = m mod S mod 16" if "0 \<le> m" for m
    using rings_agree [of S "q_max_wrs (qc_qp qc)"] assms that by blast
  show ?accepts
  proof (intro allI impI)
    fix E dma m n h
    assume b: "0 \<le> m \<and> 0 < n \<and> n \<le> q_max_wrs (qc_qp qc) \<and> arrived dma S qc m n"
    then have "0 < n" "n < 2 ^ 31" "0 \<le> m" "arrived dma S qc m n" using assms(4) by auto
    from sampled [OF this(1,2) assms(1-4) this(3) assms(6) this(4), of E h]
    obtain k where k: "k \<ge> 0" "fst (run_state (is_data_valid E dma m n qc th) h) =
        Inr (if calc_msg_data ((m + k) mod S) (qc_idx qc)
                = calc_msg_data ((m + k) mod q_max_wrs (qc_qp qc)) (qc_idx qc)
             then Some (m + n, th\<lparr>t_use_inlr := 0\<rparr>) else None)" by blast
    have "calc_msg_data ((m + k) mod S) (qc_idx qc) = calc_msg_data ((m + k) mod q_max_wrs (qc_qp qc)) (qc_idx qc)"
      using eq [of "m + k"] b k(1) by (simp add: calc_msg_data_inj)
    with k show "fst (run_state (is_data_valid E dma m n qc th) h) \<noteq> Inr None" by simp
  qed
qed

text \<open>
  C19: What the data check is worth.  Each check looks at one byte of one of the messages that have
  arrived, and refuses the transfer exactly when this byte is not, in all its bits, the one the receiver
  expects in the slot; a wrong byte it does not look at is not noticed.  It accepts every correct transfer
  exactly when the sender's and the receiver's rings have the same number of slots or both numbers are
  multiples of 16: with any other choice of \<open>--rx-depth\<close> some correctly delivered message is reported
  as wrong data.
\<close>

theorem data_check_exact:
  assumes "0 < q_msg_size (qc_qp qc)" and "q_msg_size (qc_qp qc) < 2 ^ 31"
    and "0 < q_max_wrs (qc_qp qc)" and "q_max_wrs (qc_qp qc) < 2 ^ 31" and "0 < S"
    and "t_use_inlr th = 0"
  shows "(\<forall>E dma m n h. 0 \<le> m \<and> 0 < n \<and> n \<le> q_max_wrs (qc_qp qc) \<longrightarrow>
      (\<exists>k j. m \<le> k \<and> k < m + n \<and> 0 \<le> j \<and> j < q_msg_size (qc_qp qc) \<and> checks_byte E dma qc th m n h k j))
    \<and> ((\<forall>E dma m n h. 0 \<le> m \<and> 0 < n \<and> n \<le> q_max_wrs (qc_qp qc) \<and> arrived dma S qc m n \<longrightarrow>
      fst (run_state (is_data_valid E dma m n qc th) h) \<noteq> Inr None)
    \<longleftrightarrow> q_max_wrs (qc_qp qc) = S \<or> (16 dvd q_max_wrs (qc_qp qc) \<and> 16 dvd S))"
proof
  show "\<forall>E dma m n h. 0 \<le> m \<and> 0 < n \<and> n \<le> q_max_wrs (qc_qp qc) \<longrightarrow>
      (\<exists>k j. m \<le> k \<and> k < m + n \<and> 0 \<le> j \<and> j < q_msg_size (qc_qp qc) \<and> checks_byte E dma qc th m n h k j)"
    using one_byte_checked [OF _ _ assms(1-4) _ assms(6)] assms(4) by force
qed (rule accepts_iff [OF assms])

theorem data_check_exact_witness:
  "\<exists>E dma m n h. arrived dma 2100 (demo_qc\<lparr>qc_qp := (qc_qp demo_qc)\<lparr>q_max_wrs := 40\<rparr>\<rparr>) m n
     \<and> fst (run_state (is_data_valid E dma m n (demo_qc\<lparr>qc_qp := (qc_qp demo_qc)\<lparr>q_max_wrs := 40\<rparr>\<rparr>)
          zero_thread) h) = Inr None"
  using data_check_exact [of "demo_qc\<lparr>qc_qp := (qc_qp demo_qc)\<lparr>q_max_wrs := 40\<rparr>\<rparr>" 2100 zero_thread]
  by (simp add: demo_qc_def zero_qp_data_def zero_thread_def) blast

end
