(* ===== verification/IntfContext.thy ===== *)
theory IntfContext
  imports IntfLoop RcContext
begin

text \<open>
  The resources of intf.c: \<open>connect_qp\<close>, the creation and destruction of completion queues,
  queue pairs and resource domains, \<open>create_resources\<close>, \<open>create_context\<close> and their
  inverses.  A \<open>goto\<close> label is a definition.  The lemmas account for every resource: what is
  given back, what never is, and what is given back twice.
\<close>

section \<open>connect_qp\<close>

definition connect_qp ::
    "api_env \<Rightarrow> ptr \<Rightarrow> int \<Rightarrow> u32 \<Rightarrow> u32 \<Rightarrow> int \<Rightarrow> gid \<Rightarrow> u32 \<Rightarrow> u32 \<Rightarrow> u32 \<Rightarrow> int \<Rightarrow> int prog" where
  "connect_qp E q port my_psn mtu sl r_gid r_lid r_psn r_qpn sgid_idx = do {
     let attr = rtr_attr mtu r_lid r_qpn r_psn sl port r_gid sgid_idx;
     r \<leftarrow> invoke E (Ibv (Modify_qp q attr {M_STATE, M_AV, M_PATH_MTU, M_DEST_QPN, M_RQ_PSN,
            M_MAX_DEST_RD_ATOMIC, M_MIN_RNR_TIMER}));
     if r \<noteq> 0 then ret_io 1
     else do {
       r \<leftarrow> invoke E (Ibv (Modify_qp q (rts_attr my_psn attr) {M_STATE, M_TIMEOUT, M_RETRY_CNT,
              M_RNR_RETRY, M_SQ_PSN, M_MAX_QP_RD_ATOMIC}));
       ret_io (if r \<noteq> 0 then 1 else 0) } }"

section \<open>Completion queues\<close>

definition res_domain_of :: "intf_context \<Rightarrow> qp_cq_data \<Rightarrow> ptr" where
  "res_domain_of x qc = t_res_domain (x_threads x ! nat (qc_idx qc))"

definition upd_cq :: "(cq_data \<Rightarrow> cq_data) \<Rightarrow> qp_cq_data \<Rightarrow> qp_cq_data" where
  "upd_cq f qc = qc\<lparr>qc_cq := f (qc_cq qc)\<rparr>"

definition upd_qp :: "(qp_data \<Rightarrow> qp_data) \<Rightarrow> qp_cq_data \<Rightarrow> qp_cq_data" where
  "upd_qp f qc = qc\<lparr>qc_qp := f (qc_qp qc)\<rparr>"

definition free_wc :: "api_env \<Rightarrow> qp_cq_data \<Rightarrow> (int \<times> qp_cq_data) prog" where
  "free_wc E qc = do { invoke E (Libc (Free (c_wc (qc_cq qc)))); ret_io (1, qc) }"

definition create_cq :: "api_env \<Rightarrow> intf_context \<Rightarrow> qp_cq_data \<Rightarrow> (int \<times> qp_cq_data) prog" where
  "create_cq E x qc = do {
     w \<leftarrow> invoke E (Libc (Calloc ''wc''));
     let qc = upd_cq (\<lambda>c. c\<lparr>c_wc := w\<rparr>) qc;
     if w = 0 then ret_io (1, qc)
     else do {
       q \<leftarrow> invoke E (Ibv (Exp_create_cq (x_context x) (c_size (qc_cq qc))
              (if x_use_res_domain x then Some (res_domain_of x qc) else None)));
       let qc = upd_cq (\<lambda>c. c\<lparr>c_cq := q\<rparr>) qc;
       if q = 0 then free_wc E qc
       else if c_intf (qc_cq qc) \<noteq> NORMAL_POLL_INTF then do {
         f \<leftarrow> invoke E (Ibv (Query_intf (x_context x) ''CQ'' q));
         let qc = upd_cq (\<lambda>c. c\<lparr>c_family := f\<rparr>) qc;
         if f = 0 then do { invoke E (Ibv (Destroy_cq q)); free_wc E qc }
         else ret_io (0, qc)
       } else ret_io (0, qc) } }"

definition destroy_cq :: "api_env \<Rightarrow> intf_context \<Rightarrow> qp_cq_data \<Rightarrow> int prog" where
  "destroy_cq E x qc = do {
     invoke E (Ibv (Release_intf (x_context x) (c_family (qc_cq qc))));
     invoke E (Ibv (Destroy_cq (c_cq (qc_cq qc))));
     invoke E (Libc (Free (c_wc (qc_cq qc)))) }"

section \<open>Queue pairs\<close>

text \<open>The labels.  An array is freed only if its pointer is null.\<close>

definition lbl_clean_qp :: "api_env \<Rightarrow> qp_cq_data \<Rightarrow> (int \<times> qp_cq_data) prog" where
  "lbl_clean_qp E qc = (let q = qc_qp qc in do {
     when_io (q_send_ptr q = 0) (invoke E (Libc (Free (q_send_ptr q))));
     when_io (q_recv_ptr q = 0) (invoke E (Libc (Free (q_recv_ptr q))));
     invoke E (Libc (Free (q_sg_ptr q)));
     ret_io (1, qc) })"

definition lbl_destroy_qp :: "api_env \<Rightarrow> qp_cq_data \<Rightarrow> (int \<times> qp_cq_data) prog" where
  "lbl_destroy_qp E qc = do { invoke E (Ibv (Destroy_qp (q_qp (qc_qp qc)))); lbl_clean_qp E qc }"

definition lbl_free_buf :: "api_env \<Rightarrow> qp_cq_data \<Rightarrow> (int \<times> qp_cq_data) prog" where
  "lbl_free_buf E qc = do { invoke E (Libc (Free (q_buf (qc_qp qc)))); lbl_destroy_qp E qc }"

definition lbl_dereg_mr :: "api_env \<Rightarrow> qp_cq_data \<Rightarrow> (int \<times> qp_cq_data) prog" where
  "lbl_dereg_mr E qc = do { invoke E (Ibv (Dereg_mr (q_mr (qc_qp qc)))); lbl_free_buf E qc }"

lemmas lbl_defs = lbl_clean_qp_def lbl_destroy_qp_def lbl_free_buf_def lbl_dereg_mr_def Let_def

text \<open>After the registration: \<open>INIT\<close>, the arrays, the interface.\<close>

definition create_qp_ready :: "api_env \<Rightarrow> intf_context \<Rightarrow> qp_cq_data \<Rightarrow> (int \<times> qp_cq_data) prog" where
  "create_qp_ready E x qc = do {
     r \<leftarrow> invoke E (Ibv (Modify_qp (q_qp (qc_qp qc))
            (zero_qp_attr\<lparr>qp_state := QPS_INIT, pkey_index := 0, port_num := x_ib_port_num x,
                          qp_access_flags := 0\<rparr>)
            {M_STATE, M_PKEY_INDEX, M_PORT, M_ACCESS_FLAGS}));
     if r \<noteq> 0 then lbl_dereg_mr E qc
     else do {
       let qc = upd_qp (prep_arrays (x_is_send x) (qc_idx qc)) qc;
       if q_intf (qc_qp qc) \<noteq> NORMAL_RECV_INTF \<and> q_intf (qc_qp qc) \<noteq> NORMAL_SEND_INTF then do {
         f \<leftarrow> invoke E (Ibv (Query_intf (x_context x) ''QP_BURST'' (q_qp (qc_qp qc))));
         let qc = upd_qp (\<lambda>q. q\<lparr>q_burst_family := f\<rparr>) qc;
         if f = 0 then lbl_dereg_mr E qc else ret_io (0, qc)
       } else ret_io (0, qc) } }"

text \<open>
  The queue pair, its buffer and its memory region; the length of the two is an \<open>int\<close> product
  converted to \<open>size_t\<close>.
\<close>

definition intf_qp_init :: "intf_context \<Rightarrow> qp_cq_data \<Rightarrow> qp_init" where
  "intf_qp_init x qc = (let q = qc_qp qc in zero_qp_init\<lparr>
     send_cq := c_cq (qc_cq qc), recv_cq := c_cq (qc_cq qc), qi_type := QPT_RC,
     max_send_wr := q_max_wrs q, max_recv_wr := q_max_wrs q, max_send_sge := 1,
     max_recv_sge := 1, max_inline_data := q_max_inline_data q, qi_pd := x_pd x,
     qi_max_inl_recv := q_max_inl_recv_data q, qi_res_domain := res_domain_of x qc,
     qi_comp_mask := {''PD'', ''CREATE_FLAGS''}
       \<union> (if x_use_res_domain x then {''RES_DOMAIN''} else {})
       \<union> (if q_max_inl_recv_data q \<noteq> 0 then {''INL_RECV''} else {})\<rparr>)"

definition create_qp_buf ::
    "api_env \<Rightarrow> intf_context \<Rightarrow> int \<Rightarrow> qp_cq_data \<Rightarrow> (int \<times> qp_cq_data) prog" where
  "create_qp_buf E x page qc = do {
     let qc = upd_qp (\<lambda>q. q\<lparr>q_msg_stride := mmax (q_msg_size q) 64\<rparr>) qc;
     let len = to_int32 (q_max_wrs (qc_qp qc) * q_msg_stride (qc_qp qc)) mod 2 ^ 64;
     b \<leftarrow> invoke E (Libc (Memalign page len));
     let qc = upd_qp (\<lambda>q. q\<lparr>q_buf := b\<rparr>) qc;
     if b = 0 then lbl_destroy_qp E qc
     else do {
       (m, a) \<leftarrow> invoke_attr E (Ibv (Reg_mr (x_pd x) b len {LOCAL_WRITE}));
       let qc = upd_qp (\<lambda>q. q\<lparr>q_mr := m, q_mr_lkey := a ''lkey''\<rparr>) qc;
       if m = 0 then lbl_free_buf E qc else create_qp_ready E x qc } }"

definition create_qp ::
    "api_env \<Rightarrow> intf_context \<Rightarrow> int \<Rightarrow> qp_cq_data \<Rightarrow> (int \<times> qp_cq_data) prog" where
  "create_qp E x page qc = do {
     rnd \<leftarrow> invoke E (Libc Lrand48);
     s \<leftarrow> invoke E (Libc (Calloc ''sg_list''));
     t \<leftarrow> invoke E (Libc (Calloc (if x_is_send x then ''send_wr'' else ''recv_wr'')));
     let qc = upd_qp (\<lambda>q. (q\<lparr>q_psn := word_of_int rnd AND 0xffffff, q_sg_ptr := s\<rparr>)
                 \<lparr>q_send_ptr := (if x_is_send x then t else q_send_ptr q),
                  q_recv_ptr := (if x_is_send x then q_recv_ptr q else t)\<rparr>) qc;
     if t = 0 \<or> s = 0 then lbl_clean_qp E qc
     else do {
       (p, a) \<leftarrow> invoke_attr E (Ibv (Create_qp (x_context x) (intf_qp_init x qc)));
       let qc = upd_qp (\<lambda>q. q\<lparr>q_qp := p, q_qp_num := word_of_int (a ''qp_num'')\<rparr>) qc;
       if p = 0 then lbl_clean_qp E qc else create_qp_buf E x page qc } }"

definition destroy_qp :: "api_env \<Rightarrow> intf_context \<Rightarrow> qp_cq_data \<Rightarrow> int prog" where
  "destroy_qp E x qc = (let q = qc_qp qc in do {
     when_io (q_burst_family q \<noteq> 0) (invoke E (Ibv (Release_intf (x_context x) (q_burst_family q))));
     invoke E (Ibv (Dereg_mr (q_mr q)));
     invoke E (Libc (Free (q_buf q)));
     invoke E (Ibv (Destroy_qp (q_qp q)));
     when_io (q_send_ptr q = 0) (invoke E (Libc (Free (q_send_ptr q))));
     when_io (q_recv_ptr q = 0) (invoke E (Libc (Free (q_recv_ptr q))));
     when_io (q_sg_ptr q = 0) (invoke E (Libc (Free (q_sg_ptr q)))) })"

section \<open>All of them\<close>

text \<open>\<open>for (; i > 0; i--)\<close>: the element with the index \<open>i\<close> itself.\<close>

fun clean_qps_cqs :: "api_env \<Rightarrow> intf_context \<Rightarrow> nat \<Rightarrow> qp_cq_data list \<Rightarrow> (int \<times> qp_cq_data list) prog" where
  "clean_qps_cqs E x 0 qcs = ret_io (1, qcs)"
| "clean_qps_cqs E x (Suc j) qcs = do {
     destroy_cq E x (qcs ! Suc j);
     destroy_qp E x (qcs ! Suc j);
     clean_qps_cqs E x j qcs }"

text \<open>The loop from \<open>i\<close> on, with the number of elements left.\<close>

fun init_qps_loop ::
    "api_env \<Rightarrow> intf_context \<Rightarrow> int \<Rightarrow> nat \<Rightarrow> nat \<Rightarrow> qp_cq_data list \<Rightarrow> (int \<times> qp_cq_data list) prog" where
  "init_qps_loop E x page 0 i qcs = ret_io (0, qcs)"
| "init_qps_loop E x page (Suc n) i qcs = do {
     (r, qc) \<leftarrow> create_cq E x (qcs ! i);
     if r \<noteq> 0 then clean_qps_cqs E x i (qcs[i := qc])
     else do {
       (r, qc) \<leftarrow> create_qp E x page qc;
       if r \<noteq> 0 then do { destroy_cq E x qc; clean_qps_cqs E x i (qcs[i := qc]) }
       else init_qps_loop E x page n (Suc i) (qcs[i := qc]) } }"

definition init_qps_cqs :: "api_env \<Rightarrow> int \<Rightarrow> intf_context \<Rightarrow> (int \<times> intf_context) prog" where
  "init_qps_cqs E page x = do {
     (r, qcs) \<leftarrow> init_qps_loop E x page (length (x_qps_cqs x)) 0 (x_qps_cqs x);
     ret_io (r, x\<lparr>x_qps_cqs := qcs\<rparr>) }"

fun destroy_each :: "api_env \<Rightarrow> intf_context \<Rightarrow> qp_cq_data list \<Rightarrow> int prog" where
  "destroy_each E x [] = ret_io 0"
| "destroy_each E x (qc # qcs) = do { destroy_cq E x qc; destroy_qp E x qc; destroy_each E x qcs }"

definition destroy_qps_cqs :: "api_env \<Rightarrow> intf_context \<Rightarrow> int prog" where
  "destroy_qps_cqs E x = destroy_each E x (x_qps_cqs x)"

section \<open>Resource domains\<close>

text \<open>The cleanup, from \<open>i\<close> down to 1, destroys the domain of the thread \<open>i - 1\<close>.\<close>

fun cleanup_res_domains :: "api_env \<Rightarrow> intf_context \<Rightarrow> nat \<Rightarrow> intf_thread list \<Rightarrow> (int \<times> intf_thread list) prog" where
  "cleanup_res_domains E x 0 ths = ret_io (1, ths)"
| "cleanup_res_domains E x (Suc i) ths = do {
     invoke E (Ibv (Destroy_res_domain (x_context x) (t_res_domain (ths ! i))));
     cleanup_res_domains E x i ths }"

fun init_res_loop ::
    "api_env \<Rightarrow> intf_context \<Rightarrow> nat \<Rightarrow> nat \<Rightarrow> intf_thread list \<Rightarrow> (int \<times> intf_thread list) prog" where
  "init_res_loop E x 0 i ths = ret_io (0, ths)"
| "init_res_loop E x (Suc n) i ths = do {
     d \<leftarrow> invoke E (Ibv (Create_res_domain (x_context x)));
     let ths = ths[i := (ths ! i)\<lparr>t_res_domain := d\<rparr>];
     if d = 0 then cleanup_res_domains E x i ths else init_res_loop E x n (Suc i) ths }"

definition init_res_domains :: "api_env \<Rightarrow> intf_context \<Rightarrow> (int \<times> intf_context) prog" where
  "init_res_domains E x = do {
     (r, ths) \<leftarrow> init_res_loop E x (length (x_threads x)) 0 (x_threads x);
     ret_io (r, x\<lparr>x_threads := ths\<rparr>) }"

fun destroy_domains :: "api_env \<Rightarrow> intf_context \<Rightarrow> intf_thread list \<Rightarrow> int prog" where
  "destroy_domains E x [] = ret_io 0"
| "destroy_domains E x (t # ts) = do {
     invoke E (Ibv (Destroy_res_domain (x_context x) (t_res_domain t)));
     destroy_domains E x ts }"

definition clean_res_domains :: "api_env \<Rightarrow> intf_context \<Rightarrow> int prog" where
  "clean_res_domains E x = destroy_domains E x (x_threads x)"

section \<open>create_resources\<close>

definition res_clean_device :: "api_env \<Rightarrow> intf_context \<Rightarrow> (int \<times> intf_context) prog" where
  "res_clean_device E x = do { invoke E (Ibv (Close_device (x_context x))); ret_io (1, x) }"

definition res_clean_pd :: "api_env \<Rightarrow> intf_context \<Rightarrow> (int \<times> intf_context) prog" where
  "res_clean_pd E x = do { invoke E (Ibv (Dealloc_pd (x_pd x))); res_clean_device E x }"

definition clean_res_doms :: "api_env \<Rightarrow> intf_context \<Rightarrow> (int \<times> intf_context) prog" where
  "clean_res_doms E x = do {
     when_io (x_use_res_domain x) (clean_res_domains E x);
     res_clean_pd E x }"

definition create_queues :: "api_env \<Rightarrow> int \<Rightarrow> intf_context \<Rightarrow> (int \<times> intf_context) prog" where
  "create_queues E page x = do {
     (r, x) \<leftarrow> init_qps_cqs E page x;
     if r \<noteq> 0 then clean_res_doms E x else ret_io (0, x) }"

text \<open>\<open>max_ctx_res_domain\<close> is an unsigned 32-bit number.\<close>

definition create_domains :: "api_env \<Rightarrow> int \<Rightarrow> intf_context \<Rightarrow> (int \<times> intf_context) prog" where
  "create_domains E page x =
    (if x_use_res_domain x then do {
       (r, dattr) \<leftarrow> invoke_attr E (Ibv (Query_device (x_context x)
         {''CALC_CAP'', ''EXP_CAP_FLAGS'', ''INLINE_RECV_SZ'', ''EXT_ATOMIC_ARGS'', ''MAX_CTX_RES_DOMAIN''}));
       if r \<noteq> 0 then res_clean_pd E x
       else if dattr ''MAX_CTX_RES_DOMAIN'' = 0 then res_clean_pd E x
       else if int (length (x_threads x)) > uint (word_of_int (dattr ''max_ctx_res_domain'') :: u32)
       then res_clean_pd E x
       else do {
         (r, x) \<leftarrow> init_res_domains E x;
         if r \<noteq> 0 then res_clean_pd E x else create_queues E page x }
     } else create_queues E page x)"

text \<open>
  \<open>dev_name\<close> is an array, so the test for a null pointer never succeeds and the device is always
  looked up by name.  \<open>devs\<close> are the names and addresses of the devices in the list.
\<close>

definition create_resources ::
    "api_env \<Rightarrow> (string \<times> ptr) list \<Rightarrow> int \<Rightarrow> intf_context \<Rightarrow> (int \<times> intf_context) prog" where
  "create_resources E devs page x = do {
     dev_list \<leftarrow> invoke E (Ibv Get_device_list);
     if dev_list = 0 then ret_io (1, x)
     else case find (\<lambda>d. fst d = x_dev_name x) devs of None \<Rightarrow> ret_io (1, x)
     | Some (_, dev) \<Rightarrow> do {
         c \<leftarrow> invoke E (Ibv (Open_device dev));
         let x = x\<lparr>x_ib_dev := dev, x_context := c\<rparr>;
         if c = 0 then ret_io (1, x)
         else do {
           p \<leftarrow> invoke E (Ibv (Alloc_pd c));
           let x = x\<lparr>x_pd := p\<rparr>;
           if p = 0 then res_clean_device E x else create_domains E page x } } }"

definition destroy_resources :: "api_env \<Rightarrow> intf_context \<Rightarrow> intf_context prog" where
  "destroy_resources E x = do {
     destroy_qps_cqs E x;
     when_io (x_use_res_domain x) (clean_res_domains E x);
     invoke E (Ibv (Dealloc_pd (x_pd x)));
     let x = x\<lparr>x_pd := 0\<rparr>;
     invoke E (Ibv (Close_device (x_context x)));
     ret_io (x\<lparr>x_context := 0\<rparr>) }"

section \<open>create_context\<close>

definition PS_MAX_CPUS :: nat where
  "PS_MAX_CPUS = 128"

text \<open>The CPUs of the sets, in order; those beyond the array are ignored.\<close>

definition cpu_array :: "cpu_set list \<Rightarrow> int list" where
  "cpu_array sets = take PS_MAX_CPUS (concat (map (\<lambda>s. [cpu_min s .. cpu_max s]) sets))"

definition init_queue :: "intf_input \<Rightarrow> bool \<Rightarrow> nat \<Rightarrow> qp_cq_data" where
  "init_queue input send i = (let
     q = zero_qp_data\<lparr>q_max_inl_recv_data := pr_max_inl_recv_data (qp_prms input),
       q_msg_size := pr_msg_size (send_prms input), q_num_msgs := num_qp_msgs (send_prms input),
       q_wr_burst := pr_wr_burst (qp_prms input), q_max_inline_data := 0\<rparr>;
     c = qc_cq zero_qp_cq;
     (q, c) = (if send then
         (let qi = send_2_qp (verbs_send_intf (qp_prms input)) in
          (q\<lparr>q_intf := qi, q_max_wrs := pr_max_send_wr (qp_prms input),
             q_max_inline_data := (if qi = ACC_SEND_PENDING_INL_INTF
               then pr_msg_size (send_prms input) else 0)\<rparr>,
           c\<lparr>c_intf := poll_2_cq (verbs_send_poll_intf (qp_prms input))\<rparr>))
       else
         (let ci = poll_2_cq (verbs_recv_poll_intf (qp_prms input)) in
          (q\<lparr>q_intf := recv_2_qp (verbs_recv_intf (qp_prms input)),
             q_max_wrs := pr_max_recv_wr (qp_prms input)\<rparr>,
           c\<lparr>c_intf := (if q_max_inl_recv_data q \<noteq> 0 \<and> ci = ACC_POLL_LENGTH_INTF
               then ACC_POLL_LENGTH_INL_INTF else ci)\<rparr>)))
     in \<lparr>qc_idx = int i, qc_qp = q,
         qc_cq = c\<lparr>c_size := q_max_wrs q, c_wc_burst := pr_wr_burst (qp_prms input)\<rparr>\<rparr>)"

definition init_thread :: "int list \<Rightarrow> nat \<Rightarrow> intf_thread" where
  "init_thread cpus i = zero_thread\<lparr>t_qp_idx := i, t_cpu := cpus ! (i mod length cpus)\<rparr>"

text \<open>
  A run without CPUs would divide by zero; a server name and a device name are copied when they are
  not empty, the device name also only if it fits.
\<close>

definition named_context :: "intf_input \<Rightarrow> intf_context \<Rightarrow> intf_context" where
  "named_context input x = (let nm = server_name (server_data input); dn = pr_dev_name (ib_data input) in
     x\<lparr>x_servername := (if length nm > 0 then Some nm else x_servername x),
       x_is_send := is_send input, x_port := server_port (server_data input),
       x_check_data := (pr_check_data (ib_data input) \<and> \<not> is_send input),
       x_use_res_domain := pr_use_res_domain (ib_data input),
       x_ib_port_num := pr_ib_port_num (ib_data input), x_sl := pr_sl (ib_data input),
       x_mtu := pr_mtu (ib_data input),
       x_dev_name := (if length dn > 0 \<and> length dn < MAX_DEV_NAME_SIZE - 1 then dn else x_dev_name x)\<rparr>)"

definition create_context :: "api_env \<Rightarrow> intf_input \<Rightarrow> intf_context \<Rightarrow> (fault + int \<times> intf_context) prog" where
  "create_context E input x = do {
     let x = named_context input x;
     let n = nat (pr_num_threads (thread_prms input));
     let cpus = cpu_array (cpu_sets (thread_prms input));
     p \<leftarrow> invoke E (Libc (Calloc ''qps_cqs''));
     if p = 0 then ret_io (Inr (1, x\<lparr>x_qps_ptr := p\<rparr>))
     else do {
       t \<leftarrow> invoke E (Libc (Calloc ''threads''));
       let x = x\<lparr>x_qps_ptr := p, x_threads_ptr := t\<rparr>;
       if t = 0 then do { invoke E (Libc (Free p)); ret_io (Inr (1, x)) }
       else if n \<noteq> 0 \<and> cpus = [] then ret_io (Inl Division_by_zero)
       else ret_io (Inr (0, x\<lparr>x_qps_cqs := map (init_queue input (x_is_send x)) [0 ..< n],
                              x_threads := map (init_thread cpus) [0 ..< n]\<rparr>)) } }"

definition destroy_context :: "api_env \<Rightarrow> intf_context \<Rightarrow> int prog" where
  "destroy_context E x = do {
     invoke E (Libc (Free (x_qps_ptr x)));
     invoke E (Libc (Free (x_threads_ptr x))) }"

section \<open>Accounting\<close>

text \<open>
  The resource automaton with a release of something not held as a state, \<open>None\<close>, instead of a
  call that is not allowed: some paths of this code do release twice.
\<close>

definition ledger :: "(res \<times> int) multiset option \<Rightarrow> api \<Rightarrow> int \<Rightarrow> (res \<times> int) multiset option option" where
  "ledger q c r = Some (case q of None \<Rightarrow> None | Some M \<Rightarrow> track M c r)"

lemma obs_ledger: "obs ledger (Some M) h = Some (obs track M h)"
  by (induction h) (auto simp: ledger_def split: option.splits)

lemma ledger_simps [simp]:
  "ledger (Some M) c r = Some (track M c r)" "ledger None c r = Some None"
  by (simp_all add: ledger_def)

definition own_cq :: "qp_cq_data \<Rightarrow> (res \<times> int) multiset" where
  "own_cq qc = {#(Heap, c_wc (qc_cq qc)), (Cq, c_cq (qc_cq qc))#}
     + (if c_family (qc_cq qc) \<noteq> 0 then {#(Intf, c_family (qc_cq qc))#} else {#})"

definition own_qp :: "qp_cq_data \<Rightarrow> (res \<times> int) multiset" where
  "own_qp qc = {#(Qp, q_qp (qc_qp qc)), (Mr, q_mr (qc_qp qc)), (Heap, q_buf (qc_qp qc))#}
     + (if q_burst_family (qc_qp qc) \<noteq> 0 then {#(Intf, q_burst_family (qc_qp qc))#} else {#})"

text \<open>The arrays of scatter elements and of work requests.\<close>

definition wr_ptr :: "bool \<Rightarrow> qp_cq_data \<Rightarrow> ptr" where
  "wr_ptr send qc = (if send then q_send_ptr (qc_qp qc) else q_recv_ptr (qc_qp qc))"

definition arrays :: "bool \<Rightarrow> qp_cq_data \<Rightarrow> (res \<times> int) multiset" where
  "arrays send qc = {#(Heap, q_sg_ptr (qc_qp qc)), (Heap, wr_ptr send qc)#}"

definition fresh_cq :: "qp_cq_data \<Rightarrow> bool" where
  "fresh_cq qc \<longleftrightarrow> c_family (qc_cq qc) = 0"

definition fresh_qp :: "qp_cq_data \<Rightarrow> bool" where
  "fresh_qp qc \<longleftrightarrow> q_burst_family (qc_qp qc) = 0 \<and> q_send_ptr (qc_qp qc) = 0 \<and> q_recv_ptr (qc_qp qc) = 0"

definition cq_made :: "qp_cq_data \<Rightarrow> bool" where
  "cq_made qc \<longleftrightarrow> c_wc (qc_cq qc) \<noteq> 0"

text \<open>All blocks of a finished queue pair exist; the pointer of the other direction is null.\<close>

definition qp_made :: "bool \<Rightarrow> qp_cq_data \<Rightarrow> bool" where
  "qp_made send qc \<longleftrightarrow> q_sg_ptr (qc_qp qc) \<noteq> 0 \<and> wr_ptr send qc \<noteq> 0 \<and> wr_ptr (\<not> send) qc = 0
     \<and> q_buf (qc_qp qc) \<noteq> 0"

lemmas made_defs = own_cq_def own_qp_def arrays_def wr_ptr_def fresh_cq_def fresh_qp_def cq_made_def
  qp_made_def upd_cq_def upd_qp_def

lemma ledger_create_cq:
  assumes "fresh_cq qc"
  shows "sat ledger (create_cq E x qc) (Some M) (\<lambda>(r, qc') q. qc_qp qc' = qc_qp qc \<and>
     (if r = 0 then q = Some (M + own_cq qc') \<and> cq_made qc' else q = Some M))"
  using assms unfolding create_cq_def free_wc_def Let_def
  by (auto intro!: sat_intro simp: made_defs track_simps)

lemma ledger_destroy_cq:
  assumes "cq_made qc"
  shows "sat ledger (destroy_cq E x qc) (Some (M + own_cq qc)) (\<lambda>_ q. q = Some M)"
  using assms unfolding destroy_cq_def
  by (auto intro!: sat_intro simp: made_defs track_simps)

text \<open>What \<open>create_qp\<close> leaves behind when it fails: the array of work requests, if there is one.\<close>

definition left_over :: "(res \<times> int) multiset \<Rightarrow> bool \<Rightarrow> qp_cq_data \<Rightarrow> (res \<times> int) multiset" where
  "left_over M send qc = M + (if wr_ptr send qc \<noteq> 0 then {#(Heap, wr_ptr send qc)#} else {#})"

definition qp_result ::
    "(res \<times> int) multiset \<Rightarrow> bool \<Rightarrow> qp_cq_data \<Rightarrow> int \<times> qp_cq_data \<Rightarrow> (res \<times> int) multiset option \<Rightarrow> bool" where
  "qp_result M send qc rq q \<longleftrightarrow> (case rq of (r, qc') \<Rightarrow> qc_cq qc' = qc_cq qc \<and>
     (if r = 0 then q = Some (M + own_qp qc' + arrays send qc') \<and> qp_made send qc'
      else q = Some (left_over M send qc')))"

lemma ledger_clean_qp:
  assumes "wr_ptr (\<not> send) qc = 0" and "q = Some (left_over M send qc
      + (if q_sg_ptr (qc_qp qc) \<noteq> 0 then {#(Heap, q_sg_ptr (qc_qp qc))#} else {#}))"
    and "qc_cq qc = qc_cq qc0"
  shows "sat ledger (lbl_clean_qp E qc) q (qp_result M send qc0)"
  using assms unfolding lbl_clean_qp_def Let_def
  by (auto intro!: sat_intro simp: track_simps qp_result_def left_over_def wr_ptr_def)

definition making :: "(res \<times> int) multiset \<Rightarrow> bool \<Rightarrow> qp_cq_data \<Rightarrow> (res \<times> int) multiset" where
  "making M send qc = M + arrays send qc + {#(Qp, q_qp (qc_qp qc))#}"

definition arrays_ok :: "bool \<Rightarrow> qp_cq_data \<Rightarrow> qp_cq_data \<Rightarrow> bool" where
  "arrays_ok send qc0 qc \<longleftrightarrow> wr_ptr send qc \<noteq> 0 \<and> wr_ptr (\<not> send) qc = 0 \<and> q_sg_ptr (qc_qp qc) \<noteq> 0
     \<and> qc_cq qc = qc_cq qc0"

lemma ledger_destroy_lbl:
  assumes "arrays_ok send qc0 qc" and "q = Some (making M send qc)"
  shows "sat ledger (lbl_destroy_qp E qc) q (qp_result M send qc0)"
  using assms unfolding lbl_destroy_qp_def
  by (auto intro!: sat_intro ledger_clean_qp
      simp: track_simps making_def arrays_def left_over_def arrays_ok_def)

lemma ledger_free_buf:
  assumes "arrays_ok send qc0 qc" and "q_buf (qc_qp qc) \<noteq> 0"
    and "q = Some (making M send qc + {#(Heap, q_buf (qc_qp qc))#})"
  shows "sat ledger (lbl_free_buf E qc) q (qp_result M send qc0)"
  using assms unfolding lbl_free_buf_def
  by (auto intro!: sat_intro ledger_destroy_lbl simp: track_simps)

lemma ledger_dereg_mr:
  assumes "arrays_ok send qc0 qc" and "q_buf (qc_qp qc) \<noteq> 0"
    and "q = Some (making M send qc + {#(Heap, q_buf (qc_qp qc)), (Mr, q_mr (qc_qp qc))#})"
  shows "sat ledger (lbl_dereg_mr E qc) q (qp_result M send qc0)"
  using assms unfolding lbl_dereg_mr_def
  by (auto intro!: sat_intro ledger_free_buf simp: track_simps)

lemma arrays_ok_updates [simp]:
  "arrays_ok send qc0 (upd_qp (prep_arrays s i) qc) = arrays_ok send qc0 qc"
  "arrays_ok send qc0 (upd_qp (\<lambda>q. q\<lparr>q_burst_family := f\<rparr>) qc) = arrays_ok send qc0 qc"
  "arrays_ok send qc0 (upd_qp (\<lambda>q. q\<lparr>q_mr := m, q_mr_lkey := k\<rparr>) qc) = arrays_ok send qc0 qc"
  "arrays_ok send qc0 (upd_qp (\<lambda>q. q\<lparr>q_buf := b\<rparr>) qc) = arrays_ok send qc0 qc"
  "arrays_ok send qc0 (upd_qp (\<lambda>q. q\<lparr>q_msg_stride := n q\<rparr>) qc) = arrays_ok send qc0 qc"
  "making M send (upd_qp (prep_arrays s i) qc) = making M send qc"
  "making M send (upd_qp (\<lambda>q. q\<lparr>q_burst_family := f\<rparr>) qc) = making M send qc"
  "making M send (upd_qp (\<lambda>q. q\<lparr>q_mr := m, q_mr_lkey := k\<rparr>) qc) = making M send qc"
  "making M send (upd_qp (\<lambda>q. q\<lparr>q_buf := b\<rparr>) qc) = making M send qc"
  "making M send (upd_qp (\<lambda>q. q\<lparr>q_msg_stride := n q\<rparr>) qc) = making M send qc"
  "qc_qp (upd_qp g qc) = g (qc_qp qc)"
  by (simp_all add: arrays_ok_def making_def arrays_def wr_ptr_def upd_qp_def)

lemma ledger_ready:
  assumes "arrays_ok send qc0 qc" and "q_buf (qc_qp qc) \<noteq> 0" and "q_burst_family (qc_qp qc) = 0"
    and "x_is_send x = send"
    and "q = Some (making M send qc + {#(Heap, q_buf (qc_qp qc)), (Mr, q_mr (qc_qp qc))#})"
  shows "sat ledger (create_qp_ready E x qc) q (qp_result M send qc0)"
proof -
  have fin: "qp_result M send qc0 (0, qc') (Some (making M send qc' + {#(Heap, q_buf (qc_qp qc')),
      (Mr, q_mr (qc_qp qc'))#} + (if q_burst_family (qc_qp qc') \<noteq> 0
        then {#(Intf, q_burst_family (qc_qp qc'))#} else {#})))"
    if "arrays_ok send qc0 qc'" "q_buf (qc_qp qc') \<noteq> 0" for qc'
    using that by (auto simp: qp_result_def own_qp_def making_def arrays_ok_def qp_made_def)
  have plain: "qp_result M send qc0 (0, upd_qp (prep_arrays send (qc_idx qc)) qc)
      (Some (making M send qc + {#(Heap, q_buf (qc_qp qc)), (Mr, q_mr (qc_qp qc))#}))"
    using fin [of "upd_qp (prep_arrays send (qc_idx qc)) qc"] assms by simp
  have fam: "qp_result M send qc0
      (0, upd_qp (\<lambda>q. q\<lparr>q_burst_family := f\<rparr>) (upd_qp (prep_arrays send (qc_idx qc)) qc))
      (Some (add_mset (Intf, f) (making M send qc + {#(Heap, q_buf (qc_qp qc)), (Mr, q_mr (qc_qp qc))#})))"
    if "f \<noteq> 0" for f
    using fin [of "upd_qp (\<lambda>q. q\<lparr>q_burst_family := f\<rparr>) (upd_qp (prep_arrays send (qc_idx qc)) qc)"]
      assms that by simp
  show ?thesis
    unfolding create_qp_ready_def Let_def
    using assms plain fam
    by (auto intro!: sat_intro ledger_dereg_mr simp: track_simps)
qed

lemma ledger_buf:
  assumes "arrays_ok send qc0 qc" and "q_burst_family (qc_qp qc) = 0" and "x_is_send x = send"
    and "q = Some (making M send qc)"
  shows "sat ledger (create_qp_buf E x page qc) q (qp_result M send qc0)"
  using assms unfolding create_qp_buf_def Let_def
  by (auto intro!: sat_intro ledger_ready ledger_free_buf ledger_destroy_lbl simp: track_simps)

lemma ledger_create_qp:
  assumes "fresh_qp qc" and "x_is_send x = send"
  shows "sat ledger (create_qp E x page qc) (Some M) (qp_result M send qc)"
  using assms unfolding create_qp_def Let_def
  by (auto intro!: sat_intro ledger_clean_qp ledger_buf
      simp: track_simps fresh_qp_def upd_qp_def left_over_def wr_ptr_def arrays_ok_def making_def arrays_def)

lemma ledger_destroy_qp:
  assumes "qp_made send qc"
  shows "sat ledger (destroy_qp E x qc) (Some (M + own_qp qc + arrays send qc))
     (\<lambda>_ q. q = Some (M + arrays send qc))"
  using assms unfolding destroy_qp_def Let_def
  by (cases send) (auto intro!: sat_intro simp: made_defs track_simps)

section \<open>Accounting for all queues\<close>

definition own_all :: "bool \<Rightarrow> qp_cq_data list \<Rightarrow> (res \<times> int) multiset" where
  "own_all send qcs = sum_list (map (\<lambda>qc. own_cq qc + own_qp qc + arrays send qc) qcs)"

definition all_arrays :: "bool \<Rightarrow> qp_cq_data list \<Rightarrow> (res \<times> int) multiset" where
  "all_arrays send qcs = sum_list (map (arrays send) qcs)"

lemma own_all_simps [simp]:
  "own_all send [] = {#}" "own_all send (qc # qcs) = own_cq qc + own_qp qc + arrays send qc + own_all send qcs"
  "all_arrays send [] = {#}" "all_arrays send (qc # qcs) = arrays send qc + all_arrays send qcs"
  by (simp_all add: own_all_def all_arrays_def)

lemma size_all_arrays: "size (all_arrays send qcs) = 2 * length qcs"
  by (induction qcs) (simp_all add: arrays_def)

definition fresh :: "qp_cq_data \<Rightarrow> bool" where
  "fresh qc \<longleftrightarrow> fresh_cq qc \<and> fresh_qp qc"

definition made :: "bool \<Rightarrow> qp_cq_data \<Rightarrow> bool" where
  "made send qc \<longleftrightarrow> cq_made qc \<and> qp_made send qc"

lemma ledger_any [intro]: "\<exists>q'. ledger q c r = Some q'"
  by (simp add: ledger_def)

lemma ledger_clean_qps: "sat ledger (clean_qps_cqs E x i qcs) q (\<lambda>(r, _) _. r = 1)"
  by (induction i arbitrary: q)
    (auto intro!: sat_intro simp: ledger_def destroy_cq_def destroy_qp_def Let_def)

definition loop_result ::
    "bool \<Rightarrow> (res \<times> int) multiset \<Rightarrow> nat \<Rightarrow> qp_cq_data list \<Rightarrow> int \<times> qp_cq_data list
      \<Rightarrow> (res \<times> int) multiset option \<Rightarrow> bool" where
  "loop_result send M i qcs rq q \<longleftrightarrow> (case rq of (r, qcs') \<Rightarrow> r = 0 \<longrightarrow> length qcs' = length qcs
     \<and> q = Some (M + own_all send (drop i qcs')) \<and> list_all (made send) (drop i qcs')
     \<and> take i qcs' = take i qcs)"

lemma loop_result_step:
  assumes "loop_result send (M + own_cq qc + own_qp qc + arrays send qc) (Suc i) (qcs[i := qc]) rq q"
    and "i < length qcs" and "made send qc"
  shows "loop_result send M i qcs rq q"
  unfolding loop_result_def
proof (clarify)
  fix qcs'
  assume rq: "rq = (0, qcs')"
  then have a: "length qcs' = length qcs" "take (Suc i) qcs' = take (Suc i) (qcs[i := qc])"
    "q = Some (M + own_cq qc + own_qp qc + arrays send qc + own_all send (drop (Suc i) qcs'))"
    "list_all (made send) (drop (Suc i) qcs')"
    using assms(1) by (simp_all add: loop_result_def)
  have "qcs' ! i = qc" using arg_cong [OF a(2), of "\<lambda>l. l ! i"] assms(2) a(1) by simp
  then have d: "drop i qcs' = qc # drop (Suc i) qcs'"
    using assms(2) a(1) by (metis Cons_nth_drop_Suc)
  have "take i qcs' = take i (take (Suc i) qcs')" by (simp add: min_def)
  also have "\<dots> = take i qcs" unfolding a(2) by (simp add: min_def)
  finally show "length qcs' = length qcs \<and> q = Some (M + own_all send (drop i qcs'))
      \<and> list_all (made send) (drop i qcs') \<and> take i qcs' = take i qcs"
    using a d assms(3) by (simp add: ac_simps)
qed

lemma ledger_init_loop:
  assumes "x_is_send x = send"
  shows "i + n = length qcs \<Longrightarrow> list_all fresh (drop i qcs) \<Longrightarrow>
    sat ledger (init_qps_loop E x page n i qcs) (Some M) (loop_result send M i qcs)"
proof (induction n arbitrary: i qcs M)
  case 0
  then show ?case by (auto intro!: sat_return simp: loop_result_def)
next
  case (Suc n)
  then have i: "i < length qcs" by simp
  then have d: "drop i qcs = qcs ! i # drop (Suc i) qcs" by (metis Cons_nth_drop_Suc)
  with Suc.prems have f: "fresh (qcs ! i)" "list_all fresh (drop (Suc i) qcs)" by simp_all
  have failed: "sat ledger (clean_qps_cqs E x i qcs') q (loop_result send M i qcs)" for qcs' q
    by (rule sat_conseq [OF ledger_clean_qps]) (auto simp: loop_result_def)
  have qp: "sat ledger (if r \<noteq> 0 then do { destroy_cq E x qc'; clean_qps_cqs E x i (qcs[i := qc']) }
      else init_qps_loop E x page n (Suc i) (qcs[i := qc'])) q (loop_result send M i qcs)"
    if "qp_result (M + own_cq qc) send qc (r, qc') q" "cq_made qc" for qc r qc' q
  proof (cases "r = 0")
    case True
    have e: "own_cq qc' = own_cq qc" "cq_made qc' = cq_made qc"
      using that by (simp_all add: qp_result_def own_cq_def cq_made_def)
    have "sat ledger (init_qps_loop E x page n (Suc i) (qcs[i := qc']))
        (Some (M + own_cq qc' + own_qp qc' + arrays send qc'))
        (loop_result send (M + own_cq qc' + own_qp qc' + arrays send qc') (Suc i) (qcs[i := qc']))"
      using Suc.prems f by (intro Suc.IH) simp_all
    moreover have "q = Some (M + own_cq qc' + own_qp qc' + arrays send qc')" "made send qc'"
      using that True e by (simp_all add: qp_result_def made_def)
    ultimately show ?thesis
      using True i by (simp add: sat_conseq [OF _ loop_result_step])
  next
    case False
    then show ?thesis unfolding destroy_cq_def
      by (auto intro!: sat_intro failed simp: ledger_def)
  qed
  show ?case unfolding init_qps_loop.simps
  proof (rule sat_bind, rule sat_conseq [OF ledger_create_cq], use f in \<open>simp add: fresh_def\<close>, clarify)
    fix r qc q
    assume a: "qc_qp qc = qc_qp (qcs ! i)"
      "if r = 0 then q = Some (M + own_cq qc) \<and> cq_made qc else q = Some M"
    then have "fresh_qp qc" using f by (simp add: fresh_def fresh_qp_def)
    then show "sat ledger (if r \<noteq> 0 then clean_qps_cqs E x i (qcs[i := qc])
        else do { (r, qc) \<leftarrow> create_qp E x page qc;
          if r \<noteq> 0 then do { destroy_cq E x qc; clean_qps_cqs E x i (qcs[i := qc]) }
          else init_qps_loop E x page n (Suc i) (qcs[i := qc]) }) q (loop_result send M i qcs)"
    proof (cases "r = 0")
      case True
      then have "q = Some (M + own_cq qc)" "cq_made qc" using a(2) by simp_all
      with True show ?thesis
        by (simp, intro sat_bind, intro sat_conseq [OF ledger_create_qp [OF \<open>fresh_qp qc\<close> assms]])
          (auto dest: qp)
    qed (simp add: failed)
  qed
qed

text \<open>With a single queue the failing paths are sound, but for the array of work requests.\<close>

lemma ledger_init_one:
  assumes "x_is_send x = send" and "fresh qc"
  shows "sat ledger (init_qps_loop E x page (Suc 0) 0 [qc]) (Some M)
    (\<lambda>(r, qcs') q. r \<noteq> 0 \<longrightarrow> (\<exists>L p. q = Some (M + L) \<and> L \<subseteq># {#(Heap, p)#}))"
proof -
  have qp: "sat ledger (if r \<noteq> 0 then do { destroy_cq E x qc'; clean_qps_cqs E x 0 [qc'] }
      else init_qps_loop E x page 0 (Suc 0) [qc']) q
      (\<lambda>(r, qcs') q. r \<noteq> 0 \<longrightarrow> (\<exists>L p. q = Some (M + L) \<and> L \<subseteq># {#(Heap, p)#}))"
    if "qp_result (M + own_cq qc) send qc (r, qc') q" "cq_made qc" for qc r qc' q
  proof (cases "r = 0")
    case False
    have "own_cq qc' = own_cq qc" "cq_made qc'"
      using that by (simp_all add: qp_result_def own_cq_def cq_made_def)
    moreover define W where "W = (if wr_ptr send qc' \<noteq> 0 then {#(Heap, wr_ptr send qc')#} else {#})"
    ultimately have q: "q = Some (M + W + own_cq qc')"
      using that False by (simp add: qp_result_def left_over_def)
    have W: "W \<subseteq># {#(Heap, wr_ptr send qc')#}" by (simp add: W_def)
    have "sat ledger (do { destroy_cq E x qc'; ret_io (1, [qc']) }) q
        (\<lambda>(r, qcs') q. r \<noteq> 0 \<longrightarrow> (\<exists>L p. q = Some (M + L) \<and> L \<subseteq># {#(Heap, p)#}))"
      unfolding q
      by (rule sat_bind, rule sat_conseq [OF ledger_destroy_cq [OF \<open>cq_made qc'\<close>]])
        (use W in \<open>auto intro!: sat_return\<close>)
    then show ?thesis using False by simp
  qed (auto intro!: sat_return)
  show ?thesis unfolding init_qps_loop.simps(2)
  proof (rule sat_bind, rule sat_conseq [OF ledger_create_cq], use assms in \<open>simp add: fresh_def\<close>, clarify)
    fix r qc' q
    assume a: "qc_qp qc' = qc_qp ([qc] ! 0)"
      "if r = 0 then q = Some (M + own_cq qc') \<and> cq_made qc' else q = Some M"
    then have "fresh_qp qc'" using assms by (simp add: fresh_def fresh_qp_def)
    then show "sat ledger (if r \<noteq> 0 then clean_qps_cqs E x 0 ([qc][0 := qc'])
        else do { (r, qc') \<leftarrow> create_qp E x page qc';
          if r \<noteq> 0 then do { destroy_cq E x qc'; clean_qps_cqs E x 0 ([qc][0 := qc']) }
          else init_qps_loop E x page 0 (Suc 0) ([qc][0 := qc']) }) q
        (\<lambda>(r, qcs') q. r \<noteq> 0 \<longrightarrow> (\<exists>L p. q = Some (M + L) \<and> L \<subseteq># {#(Heap, p)#}))"
    proof (cases "r = 0")
      case True
      then have q: "q = Some (M + own_cq qc')" "cq_made qc'" using a(2) by simp_all
      have "sat ledger (do { (r, qc') \<leftarrow> create_qp E x page qc';
            if r \<noteq> 0 then do { destroy_cq E x qc'; clean_qps_cqs E x 0 [qc'] }
            else init_qps_loop E x page 0 (Suc 0) [qc'] }) q
          (\<lambda>(r, qcs') q. r \<noteq> 0 \<longrightarrow> (\<exists>L p. q = Some (M + L) \<and> L \<subseteq># {#(Heap, p)#}))"
        unfolding q(1)
        by (rule sat_bind, rule sat_conseq [OF ledger_create_qp [OF \<open>fresh_qp qc'\<close> assms(1)]], clarify,
            rule qp [OF _ q(2)])
      moreover have "[qc][0 := y] = [y]" for y by simp
      ultimately show ?thesis using True by (simp only: if_False simp_thms)
    next
      case False
      then have "q = Some (M + {#})" using a(2) by simp
      then show ?thesis using False by (auto intro!: sat_return)
    qed
  qed
qed

definition domains :: "intf_thread list \<Rightarrow> (res \<times> int) multiset" where
  "domains ths = mset (map (\<lambda>t. (Res_domain, t_res_domain t)) ths)"

lemma domains_simps [simp]:
  "domains [] = {#}" "domains (t # ts) = add_mset (Res_domain, t_res_domain t) (domains ts)"
  "domains (ts @ us) = domains ts + domains us"
  by (simp_all add: domains_def)

lemma ledger_cleanup_domains:
  "i \<le> length ths \<Longrightarrow> sat ledger (cleanup_res_domains E x i ths) (Some (M + domains (take i ths)))
     (\<lambda>(r, _) q. r = 1 \<and> q = Some M)"
  by (induction i) (auto intro!: sat_intro simp: take_Suc_conv_app_nth track_simps)

definition domains_result :: "(res \<times> int) multiset \<Rightarrow> nat \<Rightarrow> int \<times> intf_thread list
    \<Rightarrow> (res \<times> int) multiset option \<Rightarrow> bool" where
  "domains_result M n rt q \<longleftrightarrow> (case rt of (r, ths') \<Rightarrow>
     if r = 0 then length ths' = n \<and> q = Some (M + domains ths') else q = Some M)"

lemma ledger_init_domains:
  "i + n = length ths \<Longrightarrow> sat ledger (init_res_loop E x n i ths) (Some (M + domains (take i ths)))
     (domains_result M (length ths))"
proof (induction n arbitrary: i ths)
  case 0
  then show ?case by (auto intro!: sat_return simp: domains_result_def)
next
  case (Suc n)
  then have i: "i < length ths" by simp
  let ?u = "\<lambda>d. ths[i := (ths ! i)\<lparr>t_res_domain := d\<rparr>]"
  have t: "take (Suc i) (?u d) = take i ths @ [(ths ! i)\<lparr>t_res_domain := d\<rparr>]" for d
    using i by (simp add: take_Suc_conv_app_nth)
  have step: "sat ledger (init_res_loop E x n (Suc i) (?u d)) (Some (add_mset (Res_domain, d) (M + domains (take i ths))))
      (domains_result M (length ths))" for d
    using Suc.IH [of "Suc i" "?u d"] Suc.prems unfolding t by simp
  have fail: "sat ledger (cleanup_res_domains E x i (?u 0)) (Some (M + domains (take i ths)))
      (domains_result M (length ths))"
    using ledger_cleanup_domains [of i "?u 0" E x M] i
    by (auto elim!: sat_conseq simp: domains_result_def)
  show ?case unfolding init_res_loop.simps Let_def
    by (auto intro!: sat_intro step fail simp: track_simps)
qed

lemma ledger_destroy_domains:
  "sat ledger (destroy_domains E x ths) (Some (M + domains ths)) (\<lambda>_ q. q = Some M)"
  by (induction ths) (auto intro!: sat_intro simp: track_simps)

lemma ledger_destroy_each:
  "list_all (made send) qcs \<Longrightarrow>
   sat ledger (destroy_each E x qcs) (Some (M + own_all send qcs)) (\<lambda>_ q. q = Some (M + all_arrays send qcs))"
proof (induction qcs arbitrary: M)
  case (Cons qc qcs)
  then have m: "cq_made qc" "qp_made send qc" by (simp_all add: made_def)
  have c: "sat ledger (destroy_cq E x qc) (Some (M + own_all send (qc # qcs)))
      (\<lambda>_ q. q = Some (M + own_all send qcs + own_qp qc + arrays send qc))"
    using ledger_destroy_cq [OF m(1), of E x "M + own_all send qcs + own_qp qc + arrays send qc"]
    by (simp add: ac_simps)
  have p: "sat ledger (destroy_qp E x qc) (Some (M + own_all send qcs + own_qp qc + arrays send qc))
      (\<lambda>_ q. q = Some (M + arrays send qc + own_all send qcs))"
    using ledger_destroy_qp [OF m(2), of E x "M + own_all send qcs"] by (simp add: ac_simps)
  have r: "sat ledger (destroy_each E x qcs) (Some (M + arrays send qc + own_all send qcs))
      (\<lambda>_ q. q = Some (M + arrays send qc + all_arrays send qcs))"
    using Cons.IH [of "M + arrays send qc"] Cons.prems by simp
  show ?case unfolding destroy_each.simps
    by (rule sat_bind, rule sat_conseq [OF c], clarify, rule sat_bind, rule sat_conseq [OF p], clarify,
        rule sat_conseq [OF r]) (simp add: add.assoc)
qed (auto intro!: sat_return)

section \<open>Accounting for a run\<close>

definition res_state :: "intf_context \<Rightarrow> (res \<times> int) multiset \<Rightarrow> (res \<times> int) multiset" where
  "res_state x M = M + {#(Device, x_context x), (Pd, x_pd x)#}
     + (if x_use_res_domain x then domains (x_threads x) else {#})"

definition owns_resources :: "intf_context \<Rightarrow> (res \<times> int) multiset" where
  "owns_resources x = res_state x {#} + own_all (x_is_send x) (x_qps_cqs x)"

lemma res_state_qps [simp]: "res_state (x\<lparr>x_qps_cqs := qcs\<rparr>) M = res_state x M"
  by (simp add: res_state_def)

lemma res_state_split: "res_state x (M + L) = res_state x M + L"
  by (simp add: res_state_def ac_simps)

definition queues_result ::
    "(res \<times> int) multiset \<Rightarrow> nat \<Rightarrow> int \<times> intf_context \<Rightarrow> (res \<times> int) multiset option \<Rightarrow> bool" where
  "queues_result M n rx q \<longleftrightarrow> (case rx of (r, x') \<Rightarrow>
     if r = 0 then q = Some (M + owns_resources x') \<and> list_all (made (x_is_send x')) (x_qps_cqs x')
       \<and> length (x_qps_cqs x') = n
     else n = 1 \<longrightarrow> (\<exists>L p. q = Some (M + L) \<and> L \<subseteq># {#(Heap, p)#}))"

lemma ledger_clean_pd:
  "sat ledger (res_clean_pd E x) (Some (M + {#(Device, x_context x), (Pd, x_pd x)#}))
     (\<lambda>(r, _) q. r = 1 \<and> q = Some M)"
  unfolding res_clean_pd_def res_clean_device_def by (auto intro!: sat_intro simp: track_simps)

lemma ledger_clean_res_doms:
  "sat ledger (clean_res_doms E x) (Some (res_state x M)) (\<lambda>(r, _) q. r = 1 \<and> q = Some M)"
proof -
  have "sat ledger (clean_res_domains E x) (Some (M + {#(Device, x_context x), (Pd, x_pd x)#}
      + domains (x_threads x))) (\<lambda>_ q. q = Some (M + {#(Device, x_context x), (Pd, x_pd x)#}))"
    unfolding clean_res_domains_def by (rule ledger_destroy_domains)
  then show ?thesis unfolding clean_res_doms_def res_state_def
    by (auto intro!: sat_bind sat_when elim!: sat_conseq intro: ledger_clean_pd [of E x M, simplified])
qed

lemma result_one: "sat ledger (clean_qps_cqs E x i qcs) q (\<lambda>(r, _) _. r \<noteq> 0)"
  by (rule sat_conseq [OF ledger_clean_qps]) auto

lemma clean_res_doms_fails: "sat ledger (clean_res_doms E x) q (\<lambda>(r, _) _. r = 1)"
proof -
  have "sat ledger (destroy_domains E x ths) q (\<lambda>_ _. True)" for ths q
    by (induction ths arbitrary: q) (auto intro!: sat_intro)
  note ths = this
  have pd: "sat ledger (res_clean_pd E x) q (\<lambda>(r, _) _. r = 1)" for q
    unfolding res_clean_pd_def res_clean_device_def by (auto intro!: sat_intro simp: ledger_def)
  show ?thesis
    unfolding clean_res_doms_def clean_res_domains_def
    by (rule sat_bind, rule sat_when, rule sat_conseq [OF ths]) (rule pd)+
qed

lemma ledger_create_queues:
  assumes "list_all fresh (x_qps_cqs x)"
  shows "sat ledger (create_queues E page x) (Some (res_state x M))
    (queues_result M (length (x_qps_cqs x)))"
proof -
  let ?n = "length (x_qps_cqs x)" and ?m = "init_qps_loop E x page (length (x_qps_cqs x)) 0 (x_qps_cqs x)"
  let ?fail = "\<lambda>(r, qcs') q. r \<noteq> 0 \<longrightarrow> ?n = 1
     \<longrightarrow> (\<exists>L p. q = Some (res_state x M + L) \<and> L \<subseteq># {#(Heap, p)#})"
  have "sat ledger ?m (Some (res_state x M)) ?fail"
  proof (cases "?n = 1")
    case True
    then obtain qc where "x_qps_cqs x = [qc]" by (auto simp: length_Suc_conv)
    then show ?thesis using ledger_init_one [where x = x and qc = qc and M = "res_state x M", OF refl] assms by simp
  next
    case False
    have "sat ledger ?m (Some (res_state x M)) (\<lambda>_ _. True)"
      by (rule sat_conseq [OF ledger_init_loop [OF refl]]) (use assms in auto)
    then show ?thesis using False by (auto elim!: sat_conseq)
  qed
  from sat_conj [OF ledger_init_loop [OF refl, of 0 ?n "x_qps_cqs x"] this] assms
  have m: "sat ledger ?m (Some (res_state x M))
      (\<lambda>a q. loop_result (x_is_send x) (res_state x M) 0 (x_qps_cqs x) a q \<and> ?fail a q)" by simp
  have k: "sat ledger (if r \<noteq> 0 then clean_res_doms E (x\<lparr>x_qps_cqs := qcs\<rparr>)
      else ret_io (0, x\<lparr>x_qps_cqs := qcs\<rparr>)) q (queues_result M ?n)"
    if "loop_result (x_is_send x) (res_state x M) 0 (x_qps_cqs x) (r, qcs) q" "?fail (r, qcs) q" for r qcs q
  proof (cases "r = 0")
    case True
    then show ?thesis using that(1)
      by (auto intro!: sat_return simp: loop_result_def queues_result_def owns_resources_def res_state_def)
  next
    case False
    show ?thesis
    proof (cases "?n = 1")
      case True
      with that(2) False obtain L p where L: "q = Some (res_state x (M + L))" "L \<subseteq># {#(Heap, p)#}"
        by (auto simp: res_state_split)
      have "sat ledger (clean_res_doms E (x\<lparr>x_qps_cqs := qcs\<rparr>)) q (\<lambda>(r, _) q. r = 1 \<and> q = Some (M + L))"
        using ledger_clean_res_doms [of E "x\<lparr>x_qps_cqs := qcs\<rparr>" "M + L"] L(1) by simp
      then show ?thesis using False L(2) by (auto elim!: sat_conseq simp: queues_result_def)
    next
      case n: False
      show ?thesis using False n
        by (auto intro!: sat_conseq [OF clean_res_doms_fails] simp: queues_result_def)
    qed
  qed
  show ?thesis unfolding create_queues_def init_qps_cqs_def
    by (intro sat_bind, rule sat_conseq [OF m], clarify, intro sat_return, simp only: prod.case) (rule k, auto)
qed

lemma queues_result_failed: "r \<noteq> 0 \<Longrightarrow> q = Some M \<Longrightarrow> queues_result M n (r, x) q"
  by (auto simp: queues_result_def intro: exI [of _ "{#}"])

lemma clean_pd_result:
  "sat ledger (res_clean_pd E x) (Some (M + {#(Device, x_context x), (Pd, x_pd x)#})) (queues_result M n)"
  by (rule sat_conseq [OF ledger_clean_pd]) (auto intro: queues_result_failed)

lemma ledger_create_domains:
  assumes "list_all fresh (x_qps_cqs x)"
  shows "sat ledger (create_domains E page x) (Some (M + {#(Device, x_context x), (Pd, x_pd x)#}))
    (queues_result M (length (x_qps_cqs x)))"
proof -
  let ?M = "M + {#(Device, x_context x), (Pd, x_pd x)#}"
  have doms: "sat ledger (init_res_domains E x) (Some ?M)
      (\<lambda>(r, x') q. if r = 0 then q = Some (res_state x' M) \<and> list_all fresh (x_qps_cqs x')
          \<and> length (x_qps_cqs x') = length (x_qps_cqs x)
        else q = Some (M + {#(Device, x_context x'), (Pd, x_pd x')#}))" if "x_use_res_domain x"
  proof -
    have "sat ledger (init_res_loop E x (length (x_threads x)) 0 (x_threads x)) (Some ?M)
        (domains_result ?M (length (x_threads x)))"
      using ledger_init_domains [of 0 "length (x_threads x)" "x_threads x" E x ?M] by simp
    then show ?thesis unfolding init_res_domains_def
      using that assms by (auto intro!: sat_bind sat_return elim!: sat_conseq simp: domains_result_def res_state_def)
  qed
  have rest: "sat ledger (if r \<noteq> 0 then res_clean_pd E x' else create_queues E page x') q
      (queues_result M (length (x_qps_cqs x)))"
    if "if r = 0 then q = Some (res_state x' M) \<and> list_all fresh (x_qps_cqs x')
          \<and> length (x_qps_cqs x') = length (x_qps_cqs x)
        else q = Some (M + {#(Device, x_context x'), (Pd, x_pd x')#})" for r x' q
    using that ledger_create_queues [of x' E page M] clean_pd_result [of E x' M]
    by (auto split: if_splits)
  show ?thesis
  proof (cases "x_use_res_domain x")
    case False
    then show ?thesis using ledger_create_queues [OF assms, of E page M]
      by (simp add: create_domains_def res_state_def)
  next
    case True
    have go: "sat ledger (do { (r, x) \<leftarrow> init_res_domains E x;
        if r \<noteq> 0 then res_clean_pd E x else create_queues E page x }) (Some ?M)
        (queues_result M (length (x_qps_cqs x)))"
      by (rule sat_bind, rule sat_conseq [OF doms [OF True]], clarify, rule rest)
    have q: "sat ledger (invoke_attr E (Ibv (Query_device c s))) (Some ?M) (\<lambda>_ q. q = Some ?M)" for c s
      by (auto intro!: sat_intro simp: track_simps)
    show ?thesis unfolding create_domains_def
      using True by (simp only: if_True, intro sat_bind, intro sat_conseq [OF q], clarify,
          intro sat_if clean_pd_result go)
  qed
qed

definition resources_result ::
    "(res \<times> int) multiset \<Rightarrow> nat \<Rightarrow> int \<times> intf_context \<Rightarrow> (res \<times> int) multiset option \<Rightarrow> bool" where
  "resources_result M n rx q \<longleftrightarrow> (case rx of (r, x') \<Rightarrow>
     if r = 0 then (\<exists>dl. q = Some (add_mset (Device_list, dl) (M + owns_resources x')))
       \<and> list_all (made (x_is_send x')) (x_qps_cqs x') \<and> length (x_qps_cqs x') = n
     else n = 1 \<longrightarrow> (\<exists>L dl p. q = Some (M + L) \<and> L \<subseteq># {#(Device_list, dl), (Heap, p)#}))"

lemma resources_failed:
  "r \<noteq> 0 \<Longrightarrow> L \<subseteq># {#(Device_list, dl)#} \<Longrightarrow> resources_result M n (r, x) (Some (M + L))"
  unfolding resources_result_def
  by (auto intro!: exI [of _ L] exI [of _ dl] elim: subset_mset.order_trans)

lemma resources_from_queues:
  "queues_result (add_mset (Device_list, dl) M) n rx q \<Longrightarrow> resources_result M n rx q"
proof -
  assume a: "queues_result (add_mset (Device_list, dl) M) n rx q"
  obtain r x' where rx: "rx = (r, x')" by force
  show ?thesis
  proof (cases "r = 0")
    case True
    with a show ?thesis unfolding rx by (auto simp: queues_result_def resources_result_def)
  next
    case False
    have "\<exists>L dl p. q = Some (M + L) \<and> L \<subseteq># {#(Device_list, dl), (Heap, p)#}" if n: "n = 1"
    proof -
      obtain L p where "q = Some (add_mset (Device_list, dl) M + L)" "L \<subseteq># {#(Heap, p)#}"
        using a False n unfolding rx by (auto simp: queues_result_def)
      then have "q = Some (M + add_mset (Device_list, dl) L)"
        "add_mset (Device_list, dl) L \<subseteq># {#(Device_list, dl), (Heap, p)#}" by simp_all
      then show ?thesis by blast
    qed
    then show ?thesis using False unfolding rx by (simp add: resources_result_def)
  qed
qed

lemma ledger_create_resources:
  assumes "list_all fresh (x_qps_cqs x)"
  shows "sat ledger (create_resources E devs page x) (Some M)
    (resources_result M (length (x_qps_cqs x)))"
proof -
  have none: "resources_result M n (1, x') (Some M)" "resources_result M n (1, x') (Some (add_mset (Device_list, dl) M))"
    for n x' dl
    using resources_failed [of 1 "{#}"] resources_failed [of 1 "{#(Device_list, dl)#}" dl] by simp_all
  have rest: "sat ledger (create_domains E page (x\<lparr>x_ib_dev := d, x_context := c, x_pd := p\<rparr>))
      (Some (add_mset (Pd, p) (add_mset (Device, c) (add_mset (Device_list, dl) M))))
      (resources_result M (length (x_qps_cqs x)))" for d c p dl
    using ledger_create_domains [of "x\<lparr>x_ib_dev := d, x_context := c, x_pd := p\<rparr>" E page
        "add_mset (Device_list, dl) M"] assms
    by (auto elim!: sat_conseq intro: resources_from_queues simp: add_mset_commute)
  show ?thesis unfolding create_resources_def res_clean_device_def Let_def
    by (auto intro!: sat_intro none rest simp: track_simps)
qed

lemma ledger_destroy_resources:
  assumes "list_all (made (x_is_send x)) (x_qps_cqs x)"
  shows "sat ledger (destroy_resources E x) (Some (M + owns_resources x))
     (\<lambda>_ q. q = Some (M + all_arrays (x_is_send x) (x_qps_cqs x)))"
proof -
  let ?A = "all_arrays (x_is_send x) (x_qps_cqs x)"
  have q: "sat ledger (destroy_qps_cqs E x) (Some (M + owns_resources x)) (\<lambda>_ q. q = Some (res_state x (M + ?A)))"
    using ledger_destroy_each [OF assms, of E x "M + res_state x {#}"]
    by (simp add: destroy_qps_cqs_def owns_resources_def res_state_def ac_simps)
  have d: "sat ledger (when_io (x_use_res_domain x) (clean_res_domains E x)) (Some (res_state x (M + ?A)))
      (\<lambda>_ q. q = Some (M + ?A + {#(Device, x_context x), (Pd, x_pd x)#}))"
    using ledger_destroy_domains [of E x "x_threads x" "M + ?A + {#(Device, x_context x), (Pd, x_pd x)#}"]
    by (auto intro!: sat_when simp: clean_res_domains_def res_state_def)
  show ?thesis unfolding destroy_resources_def Let_def
    by (rule sat_bind, rule sat_conseq [OF q], clarify, rule sat_bind, rule sat_conseq [OF d], clarify)
      (auto intro!: sat_intro simp: track_simps)
qed

section \<open>Properties\<close>

lemma obs_held: "obs ledger (Some {#}) h = Some (held h)"
  by (rule obs_ledger)

lemma fresh_init_queue: "list_all fresh (map (init_queue input send) is)"
  by (simp add: list_all_iff fresh_def fresh_cq_def fresh_qp_def init_queue_def Let_def zero_qp_data_def
      zero_qp_cq_def)

text \<open>
  A program that created its resources and destroys them gives back all of them, except the list of
  devices and two blocks for every queue pair: its scatter array and its array of work requests,
  which \<open>destroy_qp\<close> frees only when their pointers are null.  Nothing is released twice.
\<close>

lemma destroy_leaves_arrays:
  assumes "list_all fresh (x_qps_cqs x)" and "held h = Some M"
    and "run_state (create_resources E devs page x) h = ((0, x'), h1)"
    and "held h2 = held h1" and "run_state (destroy_resources E' x') h2 = (x'', h3)"
  shows "\<exists>dl. held h3 = Some (M + {#(Device_list, dl)#} + all_arrays (x_is_send x') (x_qps_cqs x'))
    \<and> size (all_arrays (x_is_send x') (x_qps_cqs x')) = 2 * length (x_qps_cqs x)"
proof -
  have "obs ledger (Some {#}) h = Some (Some M)" using assms(2) by (simp add: obs_held)
  from satD [OF ledger_create_resources [OF assms(1)] this assms(3)]
  obtain dl where "held h1 = Some (add_mset (Device_list, dl) (M + owns_resources x'))"
    and m: "list_all (made (x_is_send x')) (x_qps_cqs x')" "length (x_qps_cqs x') = length (x_qps_cqs x)"
    by (auto simp: resources_result_def obs_held)
  then have "obs ledger (Some {#}) h2 = Some (Some (M + {#(Device_list, dl)#} + owns_resources x'))"
    using assms(4) by (simp add: obs_held)
  from satD [OF ledger_destroy_resources [OF m(1)] this assms(5)] m(2) show ?thesis
    by (auto simp: obs_held size_all_arrays)
qed

text \<open>A context for \<open>n\<close> threads, and libraries whose \<open>k\<close>-th completion queue cannot be made.\<close>

definition demo_input :: intf_input where
  "demo_input = intf_default_input
     \<lparr>server_data := \<lparr>server_name = ''srv'', server_port = 18515\<rparr>,
      qp_prms := (qp_prms intf_default_input)\<lparr>pr_max_recv_wr := 6, pr_wr_burst := 2\<rparr>\<rparr>"

definition demo_context :: "nat \<Rightarrow> intf_context" where
  "demo_context n = (named_context demo_input zero_context)
     \<lparr>x_context := 5, x_qps_cqs := map (init_queue demo_input False) [0 ..< n],
      x_threads := map (init_thread [0]) [0 ..< n]\<rparr>"

definition creates_cq :: "api \<Rightarrow> bool" where
  "creates_cq c = (case c of Ibv (Exp_create_cq d n r) \<Rightarrow> True | _ \<Rightarrow> False)"

definition cq_env :: "nat \<Rightarrow> api_env" where
  "cq_env k = \<lparr>ret = (\<lambda>h c. if creates_cq c \<and> length (filter (creates_cq \<circ> fst) h) = k then 0
       else if status_call c then 0 else int (length h) + 1),
     data_in = (\<lambda>h c. []), attr_in = (\<lambda>h c a. 9), wcs_in = (\<lambda>h c. [])\<rparr>"

lemma fresh_demo: "list_all fresh (x_qps_cqs (demo_context n))"
  by (simp add: demo_context_def fresh_init_queue)

lemma destroy_leaves_arrays_run:
  "\<exists>x' h1 x'' h3 dl. run_state (create_resources (cq_env 9) [(''mlx4_0'', 3)] 4096 (demo_context 2)) [] = ((0, x'), h1)
     \<and> run_state (destroy_resources (cq_env 9) x') h1 = (x'', h3)
     \<and> held h3 = Some ({#(Device_list, dl)#} + all_arrays (x_is_send x') (x_qps_cqs x'))"
proof -
  let ?c = "run_state (create_resources (cq_env 9) [(''mlx4_0'', 3)] 4096 (demo_context 2)) []"
  have "fst (fst ?c) = 0" by code_simp
  then obtain x' h1 where c: "?c = ((0, x'), h1)" by (cases ?c) auto
  obtain x'' h3 where d: "run_state (destroy_resources (cq_env 9) x') h1 = (x'', h3)" by force
  from destroy_leaves_arrays [OF fresh_demo _ c refl d, of "{#}"] c d show ?thesis by auto
qed

text \<open>
  With one thread, whichever call fails, \<open>create_resources\<close> has released every resource but at
  most the list of devices and the array of work requests, and none twice.
\<close>

theorem one_queue_failure_bounded:
  assumes "list_all fresh (x_qps_cqs x)" and "length (x_qps_cqs x) = 1" and "held h = Some M"
    and "run_state (create_resources E devs page x) h = ((r, x'), h1)" and "r \<noteq> 0"
  shows "\<exists>L dl p. held h1 = Some (M + L) \<and> L \<subseteq># {#(Device_list, dl), (Heap, p)#}"
proof -
  have "obs ledger (Some {#}) h = Some (Some M)" using assms(3) by (simp add: obs_held)
  from satD [OF ledger_create_resources [OF assms(1)] this assms(4)] assms(2,5) show ?thesis
    by (auto simp: resources_result_def obs_held)
qed

theorem one_queue_failure_bounded_witness:
  "\<exists>r x' h1 L dl p. run_state (create_resources (cq_env 0) [(''mlx4_0'', 3)] 4096 (demo_context 1)) [] = ((r, x'), h1)
     \<and> r \<noteq> 0 \<and> held h1 = Some L \<and> L \<subseteq># {#(Device_list, dl), (Heap, p)#}"
proof -
  let ?c = "run_state (create_resources (cq_env 0) [(''mlx4_0'', 3)] 4096 (demo_context 1)) []"
  have r: "fst (fst ?c) \<noteq> 0" by code_simp
  obtain r x' h1 where c: "?c = ((r, x'), h1)" by (cases ?c) auto
  with r have "r \<noteq> 0" by simp
  moreover have "length (x_qps_cqs (demo_context 1)) = 1" by (simp add: demo_context_def)
  ultimately show ?thesis
    using one_queue_failure_bounded [OF fresh_demo _ _ c, of "{#}"] c by auto
qed

text \<open>
  With more threads the cleanup is wrong: when the completion queue of the second thread cannot be
  made, \<open>init_qps_cqs\<close> destroys the queues of the failed index instead of those before it, frees
  a block that \<open>create_cq\<close> has freed, and never touches the queues of the first thread.
\<close>

theorem second_queue_failure_frees_twice:
  "fst (fst (run_state (init_qps_cqs (cq_env 1) 4096 (demo_context 2)) [])) = 1
   \<and> held (snd (run_state (init_qps_cqs (cq_env 1) 4096 (demo_context 2)) [])) = None"
  by code_simp

end
