(* ===== verification/IntfThreads.thy ===== *)
theory IntfThreads
  imports IntfContext
begin

text \<open>
  The threads of intf.c: \<open>run_thread_on_cpu\<close>, \<open>__thread_wrap\<close>, the report of a queue
  pair and \<open>run_threads\<close>.  Each process is modelled as a program; what main and the threads do to
  the two semaphores, read off those programs, is then run as a system of interleaved steps.
\<close>

section \<open>The clock\<close>

text \<open>\<open>get_cpu_mhz\<close> and \<open>get_cycles\<close> are calls here; \<open>clk_sem\<close> serialises them.\<close>

definition clk_get_cpu_hz :: "api_env \<Rightarrow> int prog" where
  "clk_get_cpu_hz E = do {
     invoke E (Libc (Sem_wait ''clk_sem''));
     cycles_in_sec \<leftarrow> invoke E (Libc Get_cpu_hz);
     invoke E (Libc (Sem_post ''clk_sem''));
     ret_io cycles_in_sec }"

definition clk_get_cycles :: "api_env \<Rightarrow> u64 prog" where
  "clk_get_cycles E = do {
     invoke E (Libc (Sem_wait ''clk_sem''));
     cycles \<leftarrow> invoke E (Libc Get_cycles);
     invoke E (Libc (Sem_post ''clk_sem''));
     ret_io (word_of_int cycles) }"

definition clk_init :: "api_env \<Rightarrow> int prog" where
  "clk_init E = invoke E (Libc (Sem_init ''clk_sem'' 1))"

section \<open>A thread\<close>

definition CPU_SETSIZE :: nat where
  "CPU_SETSIZE = 1024"

text \<open>The set \<open>pthread_getaffinity_np\<close> stores is read as one character per CPU.\<close>

definition run_thread_on_cpu :: "api_env \<Rightarrow> int \<Rightarrow> int prog" where
  "run_thread_on_cpu E cpu = do {
     r \<leftarrow> invoke E (Libc (Set_affinity cpu));
     if r \<noteq> 0 then ret_io 1
     else do {
       (r, cpuset) \<leftarrow> invoke_data E (Libc (Get_affinity cpu));
       if r \<noteq> 0 then ret_io 0
       else if list_ex (\<lambda>j. cpuset ! j \<noteq> NUL \<and> int j \<noteq> cpu) [0 ..< min CPU_SETSIZE (length cpuset)]
       then ret_io 1 else ret_io 0 } }"

definition INVALID_DURATION :: u64 where
  "INVALID_DURATION = - 1"

definition thread_out :: "api_env \<Rightarrow> qp_cq_data \<Rightarrow> intf_thread \<Rightarrow> (fault + qp_cq_data \<times> intf_thread) prog" where
  "thread_out E qc thread = do {
     invoke E (Libc (Sem_post ''threads_done_sem''));
     ret_io (Inr (qc, thread)) }"

definition set_total_ms :: "u64 \<Rightarrow> qp_cq_data \<Rightarrow> qp_cq_data" where
  "set_total_ms ms = upd_qp (\<lambda>q. q\<lparr>q_total_ms := ms\<rparr>)"

text \<open>After the signal to start: the transfer and its time in milliseconds.\<close>

definition thread_transfer ::
    "api_env \<Rightarrow> nat \<Rightarrow> memory \<Rightarrow> bool \<Rightarrow> qp_cq_data \<Rightarrow> intf_thread \<Rightarrow> (fault + qp_cq_data \<times> intf_thread) prog" where
  "thread_transfer E fuel dma check_data qc thread = do {
     let qc = set_total_ms INVALID_DURATION qc;
     start \<leftarrow> clk_get_cycles E;
     r \<leftarrow> send_recv E fuel dma qc thread check_data (q_intf (qc_qp qc)) (c_intf (qc_cq qc));
     case r of Inl f \<Rightarrow> ret_io (Inl f)
     | Inr (status, thread) \<Rightarrow>
         if status \<noteq> 0 \<or> t_cpu_freq thread = 0 then thread_out E qc thread
         else do {
           now \<leftarrow> clk_get_cycles E;
           thread_out E (set_total_ms (((now - start) * 1000) div t_cpu_freq thread) qc) thread } }"

definition thread_wrap ::
    "api_env \<Rightarrow> nat \<Rightarrow> memory \<Rightarrow> bool \<Rightarrow> qp_cq_data \<Rightarrow> intf_thread \<Rightarrow> (fault + qp_cq_data \<times> intf_thread) prog" where
  "thread_wrap E fuel dma check_data qc thread = do {
     r \<leftarrow> run_thread_on_cpu E (t_cpu thread);
     if r \<noteq> 0 then thread_out E qc thread
     else do {
       hz \<leftarrow> clk_get_cpu_hz E;
       let thread = thread\<lparr>t_cpu_freq := word_of_int hz\<rparr>;
       invoke E (Libc (Sem_wait ''threads_sem''));
       thread_transfer E fuel dma check_data qc thread } }"

section \<open>The report\<close>

text \<open>
  The rate a report prints, in messages per second (0 is not printed), and the line before it; the
  quotient is computed in unsigned 64-bit arithmetic.
\<close>

definition report_mps :: "qp_data \<Rightarrow> u64" where
  "report_mps q = (if q_total_ms q = 0 \<or> q_total_ms q = INVALID_DURATION then 0
     else word_of_int (q_num_msgs q * 1000) div q_total_ms q)"

definition report_note :: "qp_data \<Rightarrow> string option" where
  "report_note q = (if q_total_ms q = INVALID_DURATION then Some ''Test execution aborted!''
     else if q_total_ms q = 0 then Some ''Test execution time is too short to measure!'' else None)"

text \<open>The names a report prints, and the reports of all threads.\<close>

definition print_qp_report :: "qp_cq_data \<Rightarrow> string option \<times> int \<times> int \<times> string \<times> string \<times> int \<times> u64 \<times> u64" where
  "print_qp_report qc = (let q = qc_qp qc in
     (report_note q, q_msg_size q, q_wr_burst q, qp_intf_to_param_str (q_intf q),
      cq_intf_to_param_str (c_intf (qc_cq qc)), q_num_msgs q, q_total_ms q, report_mps q))"

section \<open>run_threads\<close>

text \<open>The loop over \<open>pthread_create\<close>: the number of threads made, and whether all were.\<close>

fun spawn_loop :: "api_env \<Rightarrow> nat \<Rightarrow> nat \<Rightarrow> (nat \<times> bool) prog" where
  "spawn_loop E 0 i = ret_io (i, True)"
| "spawn_loop E (Suc n) i = do {
     err \<leftarrow> invoke E (Libc (Pthread_create ''thread_wrap''));
     if err \<noteq> 0 then ret_io (i, False) else spawn_loop E n (Suc i) }"

fun repeat_call :: "api_env \<Rightarrow> nat \<Rightarrow> api \<Rightarrow> int prog" where
  "repeat_call E 0 c = ret_io 0"
| "repeat_call E (Suc n) c = do { invoke E c; repeat_call E n c }"

definition run_threads :: "api_env \<Rightarrow> intf_context \<Rightarrow> (int \<times> intf_context) prog" where
  "run_threads E x = do {
     invoke E (Libc (Sem_init ''threads_sem'' 0));
     invoke E (Libc (Sem_init ''threads_done_sem'' 0));
     clk_init E;
     (i, all) \<leftarrow> spawn_loop E (length (x_threads x)) 0;
     let x = x\<lparr>x_threads := map (\<lambda>(k, t). if k < i then t\<lparr>t_idx := int k\<rparr> else t)
                             (zip [0 ..< length (x_threads x)] (x_threads x))\<rparr>;
     if all then do {
       repeat_call E (length (x_threads x)) (Libc (Sem_post ''threads_sem''));
       repeat_call E (length (x_threads x)) (Libc (Sem_wait ''threads_done_sem''));
       ret_io (0, x) }
     else do {
       repeat_call E i (Libc (Sem_post ''threads_sem''));
       repeat_call E i (Libc (Sem_wait ''threads_done_sem''));
       ret_io (1, x\<lparr>x_thread_stop := True\<rparr>) } }"

section \<open>What the programs do to the semaphores\<close>

datatype sem_op = Spawn | Start_post | Start_wait | Done_post | Done_wait

text \<open>Only a \<open>pthread_create\<close> that succeeds makes a thread.\<close>

definition sem_op :: "api \<Rightarrow> int \<Rightarrow> sem_op list" where
  "sem_op c r = (case c of
      Libc (Pthread_create s) \<Rightarrow> if r = 0 then [Spawn] else []
    | Libc (Sem_post s) \<Rightarrow> if s = ''threads_sem'' then [Start_post]
        else if s = ''threads_done_sem'' then [Done_post] else []
    | Libc (Sem_wait s) \<Rightarrow> if s = ''threads_sem'' then [Start_wait]
        else if s = ''threads_done_sem'' then [Done_wait] else []
    | _ \<Rightarrow> [])"

definition sems :: "sem_op list \<Rightarrow> api \<Rightarrow> int \<Rightarrow> sem_op list option" where
  "sems q c r = Some (q @ sem_op c r)"

lemma sems_simps [simp]:
  "sems q (Libc (Pthread_create s)) r = Some (if r = 0 then q @ [Spawn] else q)"
  "sems q (Libc (Sem_post s)) r = Some (if s = ''threads_sem'' then q @ [Start_post]
     else if s = ''threads_done_sem'' then q @ [Done_post] else q)"
  "sems q (Libc (Sem_wait s)) r = Some (if s = ''threads_sem'' then q @ [Start_wait]
     else if s = ''threads_done_sem'' then q @ [Done_wait] else q)"
  "sems q (Libc (Sem_init s n)) r = Some q" "sems q (Libc Get_cpu_hz) r = Some q"
  "sems q (Libc Get_cycles) r = Some q" "sems q (Libc (Set_affinity n)) r = Some q"
  "sems q (Libc (Get_affinity n)) r = Some q" "sems q (Libc Lrand48) r = Some q"
  "sems q (Data d) r = Some q"
  by (simp_all add: sems_def sem_op_def)

lemma sems_spawn:
  "sat sems (spawn_loop E n i) q (\<lambda>(k, all) q'. i \<le> k \<and> k \<le> i + n \<and> (all \<longleftrightarrow> k = i + n)
     \<and> q' = q @ replicate (k - i) Spawn)"
proof (induction n arbitrary: i q)
  case (Suc n)
  have r: "Spawn # replicate (k - Suc i) Spawn = replicate (k - i) Spawn" if "Suc i \<le> k" for k
    using that by (simp add: Suc_diff_le flip: replicate_Suc)
  have "sat sems (spawn_loop E n (Suc i)) (q @ [Spawn])
      (\<lambda>(k, all) q'. i \<le> k \<and> k \<le> i + Suc n \<and> (all \<longleftrightarrow> k = i + Suc n) \<and> q' = q @ replicate (k - i) Spawn)"
    by (rule sat_conseq [OF Suc.IH]) (auto simp: r)
  then show ?case by (auto intro!: sat_intro)
qed (auto intro!: sat_intro)

lemma sems_repeat:
  assumes "\<And>q r. sems q c r = Some (q @ [a])"
  shows "sat sems (repeat_call E n c) q (\<lambda>_ q'. q' = q @ replicate n a)"
proof (induction n arbitrary: q)
  case (Suc n)
  show ?case by (auto intro!: sat_intro sat_conseq [OF Suc] simp: assms)
qed (auto intro!: sat_intro)

text \<open>The operations of main when \<open>k\<close> threads could be made.\<close>

definition main_ops :: "nat \<Rightarrow> sem_op list" where
  "main_ops k = replicate k Spawn @ replicate k Start_post @ replicate k Done_wait"

lemma sems_posts:
  "sat sems (repeat_call E n (Libc (Sem_post ''threads_sem''))) q (\<lambda>_ q'. q' = q @ replicate n Start_post)"
  "sat sems (repeat_call E n (Libc (Sem_wait ''threads_done_sem''))) q (\<lambda>_ q'. q' = q @ replicate n Done_wait)"
  by (rule sems_repeat, simp)+

definition ops_result :: "nat \<Rightarrow> int \<times> intf_context \<Rightarrow> sem_op list \<Rightarrow> bool" where
  "ops_result n rx q \<longleftrightarrow> (\<exists>k \<le> n. q = main_ops k \<and> fst rx = (if k = n then 0 else 1))"

lemma sems_run_threads: "sat sems (run_threads E x) [] (ops_result (length (x_threads x)))"
proof -
  let ?n = "length (x_threads x)"
  have rep: "sat sems (do { repeat_call E k (Libc (Sem_post ''threads_sem''));
      repeat_call E k (Libc (Sem_wait ''threads_done_sem'')); ret_io (r, x') }) (replicate k Spawn)
      (ops_result ?n)"
    if "k \<le> ?n" "r = (if k = ?n then 0 else 1)" for k r x'
    by (rule sat_bind, rule sat_conseq [OF sems_posts(1)], clarify, rule sat_bind,
        rule sat_conseq [OF sems_posts(2)], clarify, rule sat_return)
      (use that in \<open>auto simp: main_ops_def ops_result_def\<close>)
  have "sat sems (do { (i, all) \<leftarrow> spawn_loop E ?n 0;
      let x = x\<lparr>x_threads := map (\<lambda>(k, t). if k < i then t\<lparr>t_idx := int k\<rparr> else t) (zip [0 ..< ?n] (x_threads x))\<rparr>;
      if all then do {
         repeat_call E (length (x_threads x)) (Libc (Sem_post ''threads_sem''));
         repeat_call E (length (x_threads x)) (Libc (Sem_wait ''threads_done_sem''));
         ret_io (0, x) }
      else do {
         repeat_call E i (Libc (Sem_post ''threads_sem''));
         repeat_call E i (Libc (Sem_wait ''threads_done_sem''));
         ret_io (1, x\<lparr>x_thread_stop := True\<rparr>) } }) [] (ops_result ?n)"
    by (rule sat_bind, rule sat_conseq [OF sems_spawn])
      (auto simp: Let_def intro!: rep [of ?n 0, simplified] rep [where r = 1])
  moreover have init: "sat sems (invoke E (Libc (Sem_init s n))) q (\<lambda>_ q'. q' = q)" for s n q
    by (auto intro!: sat_intro)
  ultimately show ?thesis
    unfolding run_threads_def clk_init_def
    by - (rule sat_bind, rule sat_conseq [OF init], clarify)+
qed

text \<open>A thread's: it signals its end once, after waiting for the start unless its CPU was refused.\<close>

abbreviation no_sems :: "'a prog \<Rightarrow> bool" where
  "no_sems m \<equiv> \<forall>q. sat sems m q (\<lambda>_ q'. q' = q)"

lemma no_sems_each: "no_sems (post_each (\<lambda>s. invoke E (Data (f s))) ss)"
proof (induction ss)
  case (Cons s ss)
  show ?case by (auto intro!: sat_intro sat_conseq [OF Cons [rule_format]])
qed (auto intro!: sat_intro)

lemma no_sems_qp_post: "no_sems (qp_post E qd k wr intf)"
  unfolding qp_post_def post_pending_def
  by (cases intf) (auto intro!: sat_intro sat_conseq [OF no_sems_each [rule_format]])

lemma no_sems_fill: "no_sems (fill_queue E fuel qd intf msg f)"
proof (induction fuel arbitrary: msg f)
  case (Suc fuel)
  show ?case
    by (auto intro!: sat_intro sat_conseq [OF no_sems_qp_post [rule_format]] Suc [rule_format])
qed (auto intro!: sat_intro)

lemma no_sems_poll: "no_sems (qp_poll E q ci th)"
  unfolding qp_poll_def by (cases ci) (auto intro!: sat_intro)

lemma no_sems_take: "no_sems (take_polled E dma qc chk f cw ct)"
  unfolding take_polled_def is_data_valid_def get_rand_def compare_data_def Let_def
  by (auto intro!: sat_intro)

lemma no_sems_drain: "no_sems (drain_queue E fuel dma qc ci chk msg f cw th)"
proof (induction fuel arbitrary: f cw th)
  case (Suc fuel)
  show ?case
    by (auto intro!: sat_intro sat_conseq [OF no_sems_poll [rule_format]]
        sat_conseq [OF no_sems_take [rule_format]] Suc [rule_format])
qed (auto intro!: sat_intro)

lemma no_sems_loop: "no_sems (send_recv_loop E fuel dma qc qi ci chk msg f cw th)"
proof (induction fuel arbitrary: msg f cw th)
  case (Suc fuel)
  show ?case
    by (auto intro!: sat_intro sat_conseq [OF no_sems_fill [rule_format]]
        sat_conseq [OF no_sems_drain [rule_format]] Suc [rule_format]
        simp del: fill_queue.simps drain_queue.simps)
qed (auto intro!: sat_intro)

definition thread_ops :: "sem_op list set" where
  "thread_ops = {[Done_post], [Start_wait, Done_post]}"

lemma sems_transfer:
  "sat sems (thread_transfer E fuel dma chk qc th) q (\<lambda>r q'. (\<forall>f. r \<noteq> Inl f) \<longrightarrow> q' = q @ [Done_post])"
  unfolding thread_transfer_def thread_out_def clk_get_cycles_def send_recv_def Let_def
  by (auto intro!: sat_intro sat_conseq [OF no_sems_loop [rule_format]])

lemma sems_thread_wrap:
  "sat sems (thread_wrap E fuel dma chk qc th) [] (\<lambda>r q. (\<forall>f. r \<noteq> Inl f) \<longrightarrow> q \<in> thread_ops)"
  unfolding thread_wrap_def thread_out_def run_thread_on_cpu_def clk_get_cpu_hz_def Let_def
  by (auto intro!: sat_intro sat_conseq [OF sems_transfer] simp: thread_ops_def)

text \<open>
  What a thread does to the semaphores: the operations of the runs of \<open>thread_wrap\<close> that return,
  whatever its environment, its queue pair and its fields.  There are two such sequences.
\<close>

definition thread_runs :: "sem_op list set" where
  "thread_runs = {ops. \<exists>E fuel dma chk qc th r h. run_state (thread_wrap E fuel dma chk qc th) [] = (Inr r, h)
     \<and> obs sems [] h = Some ops}"

text \<open>An adapter and a CPU that refuses a thread or takes it, and a transfer of no message.\<close>

definition refusing_env :: "int \<Rightarrow> api_env" where
  "refusing_env r = const_env (\<lambda>c. case c of Libc (Set_affinity k) \<Rightarrow> r | _ \<Rightarrow> 0) (\<lambda>c. [])"

lemma thread_runs_eq: "thread_runs = thread_ops"
proof
  show "thread_runs \<subseteq> thread_ops"
  proof
    fix ops assume "ops \<in> thread_runs"
    then obtain E fuel dma chk qc th r h where "run_state (thread_wrap E fuel dma chk qc th) [] = (Inr r, h)"
      and "obs sems [] h = Some ops"
      by (auto simp: thread_runs_def)
    then show "ops \<in> thread_ops" using satD [OF sems_thread_wrap, of "[]" "[]"] by fastforce
  qed
  let ?run = "\<lambda>r. run_state (thread_wrap (refusing_env r) 1 no_memory False zero_qp_cq zero_thread) []"
  note run = thread_wrap_def run_thread_on_cpu_def thread_out_def clk_get_cpu_hz_def thread_transfer_def
    clk_get_cycles_def send_recv_def set_total_ms_def upd_qp_def zero_qp_cq_def zero_qp_data_def run_simps
    refusing_env_def const_env_def Let_def
  have "\<exists>x h. ?run 1 = (Inr x, h) \<and> obs sems [] h = Some [Done_post]"
    "\<exists>x h. ?run 0 = (Inr x, h) \<and> obs sems [] h = Some [Start_wait, Done_post]"
    by (simp_all add: run)
  then show "thread_ops \<subseteq> thread_runs" unfolding thread_ops_def thread_runs_def by blast
qed

section \<open>The interleaved run\<close>

text \<open>
  The operations main and each thread made so far have still to do, and the values of the two semaphores.
  A wait is possible when its semaphore is positive; a thread that is made does what a run of
  \<open>thread_wrap\<close> that returns does.
\<close>

record sched =
  main_left :: "sem_op list"
  start_sem :: nat
  done_sem :: nat
  threads_left :: "sem_op list list"

inductive sched_step :: "sched \<Rightarrow> sched \<Rightarrow> bool" where
  spawn: "main_left S = Spawn # os \<Longrightarrow> t \<in> thread_runs \<Longrightarrow>
    sched_step S (S\<lparr>main_left := os, threads_left := threads_left S @ [t]\<rparr>)"
| start: "main_left S = Start_post # os \<Longrightarrow>
    sched_step S (S\<lparr>main_left := os, start_sem := start_sem S + 1\<rparr>)"
| join: "main_left S = Done_wait # os \<Longrightarrow> done_sem S = Suc d \<Longrightarrow>
    sched_step S (S\<lparr>main_left := os, done_sem := d\<rparr>)"
| started: "i < length (threads_left S) \<Longrightarrow> threads_left S ! i = Start_wait # os \<Longrightarrow> start_sem S = Suc s \<Longrightarrow>
    sched_step S (S\<lparr>threads_left := (threads_left S)[i := os], start_sem := s\<rparr>)"
| ended: "i < length (threads_left S) \<Longrightarrow> threads_left S ! i = Done_post # os \<Longrightarrow>
    sched_step S (S\<lparr>threads_left := (threads_left S)[i := os], done_sem := done_sem S + 1\<rparr>)"

inductive_cases sched_stepE: "sched_step S S'"

definition sched_start :: "sem_op list \<Rightarrow> sched" where
  "sched_start ops = \<lparr>main_left = ops, start_sem = 0, done_sem = 0, threads_left = []\<rparr>"

text \<open>The steps that are still possible at most.\<close>

definition steps_left :: "sched \<Rightarrow> nat" where
  "steps_left S = sum_list (map (\<lambda>p. if p = Spawn then 3 else 1) (main_left S))
     + sum_list (map length (threads_left S))"

definition waiting :: "sem_op list list \<Rightarrow> nat" where
  "waiting ts = length (filter (\<lambda>t. t = [Start_wait, Done_post]) ts)"

definition active :: "sem_op list list \<Rightarrow> nat" where
  "active ts = length (filter (\<lambda>t. t \<noteq> []) ts)"

definition sched_inv :: "nat \<Rightarrow> sched \<Rightarrow> bool" where
  "sched_inv k S \<longleftrightarrow> (\<exists>a b c. main_left S = replicate a Spawn @ replicate b Start_post @ replicate c Done_wait
     \<and> a \<le> k \<and> b \<le> k \<and> c \<le> k \<and> (0 < a \<longrightarrow> b = k) \<and> (0 < b \<longrightarrow> c = k)
     \<and> length (threads_left S) + a = k
     \<and> done_sem S + (k - c) + active (threads_left S) = length (threads_left S)
     \<and> k - b + waiting (threads_left S) \<le> start_sem S + length (threads_left S)
     \<and> set (threads_left S) \<subseteq> insert [] thread_ops)"

lemma filter_update:
  "i < length ts \<Longrightarrow> length (filter P (ts[i := t])) + (if P (ts ! i) then 1 else 0)
     = length (filter P ts) + (if P t then 1 else 0)"
proof (induction ts arbitrary: i)
  case (Cons u ts)
  show ?case
  proof (cases i)
    case (Suc j)
    then show ?thesis using Cons.IH [of j] Cons.prems by auto
  qed simp
qed simp

lemma active_update:
  "i < length ts \<Longrightarrow> active (ts[i := t]) + (if ts ! i = [] then 0 else 1) = active ts + (if t = [] then 0 else 1)"
  using filter_update [of i ts "\<lambda>t. t \<noteq> []" t] by (simp add: active_def split: if_splits)

lemma waiting_update:
  "i < length ts \<Longrightarrow> waiting (ts[i := t]) + (if ts ! i = [Start_wait, Done_post] then 1 else 0)
     = waiting ts + (if t = [Start_wait, Done_post] then 1 else 0)"
  unfolding waiting_def by (rule filter_update)

lemma active_append [simp]: "active (ts @ [t]) = active ts + (if t = [] then 0 else 1)"
  by (simp add: active_def)

lemma waiting_append [simp]:
  "waiting (ts @ [t]) = waiting ts + (if t = [Start_wait, Done_post] then 1 else 0)"
  by (simp add: waiting_def)

lemma sched_inv_step:
  assumes "sched_step S S'" and "sched_inv k S"
  shows "sched_inv k S'"
proof -
  obtain a b c where m: "main_left S = replicate a Spawn @ replicate b Start_post @ replicate c Done_wait"
    and ab: "a \<le> k" "b \<le> k" "c \<le> k" "0 < a \<longrightarrow> b = k" "0 < b \<longrightarrow> c = k"
    and n: "length (threads_left S) + a = k"
    and d: "done_sem S + (k - c) + active (threads_left S) = length (threads_left S)"
    and w: "k - b + waiting (threads_left S) \<le> start_sem S + length (threads_left S)"
    and t: "set (threads_left S) \<subseteq> insert [] thread_ops"
    using assms(2) unfolding sched_inv_def by blast
  have ops: "[] \<notin> thread_ops" by (simp add: thread_ops_def)
  from assms(1) show ?thesis
  proof cases
    case (spawn os u)
    then obtain a' where a: "a = Suc a'" using m by (cases a; cases b; cases c) auto
    then have "os = replicate a' Spawn @ replicate b Start_post @ replicate c Done_wait"
      using spawn m by simp
    then show ?thesis unfolding sched_inv_def using spawn(1,2) spawn(3) [unfolded thread_runs_eq] a ab n d w t ops
      by (intro exI [of _ a'] exI [of _ b] exI [of _ c]) auto
  next
    case (start os)
    then have a: "a = 0" using m by (cases a) auto
    then obtain b' where b: "b = Suc b'" using start m by (cases b; cases c) auto
    then have "os = replicate a Spawn @ replicate b' Start_post @ replicate c Done_wait"
      using start m a by simp
    then show ?thesis unfolding sched_inv_def using start a b ab n d w t
      by (intro exI [of _ a] exI [of _ b'] exI [of _ c]) auto
  next
    case (join os e)
    then have a: "a = 0" "b = 0" using m by (cases a; cases b; auto)+
    then obtain c' where c: "c = Suc c'" using join m by (cases c) auto
    then have "os = replicate a Spawn @ replicate b Start_post @ replicate c' Done_wait"
      using join m a by simp
    then show ?thesis unfolding sched_inv_def using join a c ab n d w t
      by (intro exI [of _ a] exI [of _ b] exI [of _ c']) auto
  next
    case (started i os s)
    then have "threads_left S ! i \<in> thread_ops" using t nth_mem by fastforce
    then have os: "os = [Done_post]" "threads_left S ! i = [Start_wait, Done_post]"
      using started by (auto simp: thread_ops_def)
    have "set ((threads_left S)[i := os]) \<subseteq> insert [] thread_ops"
      using t os(1) set_update_subset_insert [of "threads_left S" i os] by (auto simp: thread_ops_def)
    moreover have "active ((threads_left S)[i := os]) = active (threads_left S)"
      using active_update [of i "threads_left S" os] started os by simp
    moreover have "Suc (waiting ((threads_left S)[i := os])) = waiting (threads_left S)"
      using waiting_update [of i "threads_left S" os] started os by simp
    ultimately show ?thesis unfolding sched_inv_def using started(1,4) ab n d w m
      by (intro exI [of _ a] exI [of _ b] exI [of _ c] conjI) simp_all
  next
    case (ended i os)
    then have "threads_left S ! i \<in> thread_ops" using t nth_mem by fastforce
    then have os: "os = []" "threads_left S ! i = [Done_post]"
      using ended by (auto simp: thread_ops_def)
    have "set ((threads_left S)[i := os]) \<subseteq> insert [] thread_ops"
      using t os(1) set_update_subset_insert [of "threads_left S" i os] by auto
    moreover have "Suc (active ((threads_left S)[i := os])) = active (threads_left S)"
      using active_update [of i "threads_left S" os] ended os by simp
    moreover have "waiting ((threads_left S)[i := os]) = waiting (threads_left S)"
      using waiting_update [of i "threads_left S" os] ended os by simp
    ultimately show ?thesis unfolding sched_inv_def using ended(1) ab n d w m
      by (intro exI [of _ a] exI [of _ b] exI [of _ c] conjI) simp_all
  qed
qed

lemma sched_inv_reach:
  "sched_step\<^sup>*\<^sup>* (sched_start (main_ops k)) S \<Longrightarrow> sched_inv k S"
proof (induction rule: rtranclp_induct)
  case base
  show ?case
    unfolding sched_inv_def sched_start_def main_ops_def
    by (intro exI [of _ k]) (simp add: active_def waiting_def)
next
  case (step S S')
  then show ?case using sched_inv_step by blast
qed

section \<open>Properties\<close>

lemma steps_left_step: "sched_step S S' \<Longrightarrow> steps_left S' < steps_left S"
proof (cases rule: sched_step.cases, assumption)
  fix os t
  assume "main_left S = Spawn # os" "t \<in> thread_runs"
    "S' = S\<lparr>main_left := os, threads_left := threads_left S @ [t]\<rparr>"
  then show ?thesis by (auto simp: steps_left_def thread_runs_eq thread_ops_def)
next
  have upd: "sum_list (map length (ts[i := os])) < sum_list (map length ts)"
    if "i < length ts" "ts ! i = p # os" for ts :: "sem_op list list" and i p os
    using that
  proof (induction ts arbitrary: i)
    case (Cons u ts)
    then show ?case by (cases i) auto
  qed simp
  fix i os s
  assume "S' = S\<lparr>threads_left := (threads_left S)[i := os], start_sem := s\<rparr>"
    "i < length (threads_left S)" "threads_left S ! i = Start_wait # os"
  then show ?thesis using upd [of i "threads_left S"] by (simp add: steps_left_def)
next
  have upd: "sum_list (map length (ts[i := os])) < sum_list (map length ts)"
    if "i < length ts" "ts ! i = p # os" for ts :: "sem_op list list" and i p os
    using that
  proof (induction ts arbitrary: i)
    case (Cons u ts)
    then show ?case by (cases i) auto
  qed simp
  fix i os
  assume "S' = S\<lparr>threads_left := (threads_left S)[i := os], done_sem := done_sem S + 1\<rparr>"
    "i < length (threads_left S)" "threads_left S ! i = Done_post # os"
  then show ?thesis using upd [of i "threads_left S"] by (simp add: steps_left_def)
qed (auto simp: steps_left_def)

lemma sched_progress:
  assumes "sched_inv k S"
  shows "(main_left S = [] \<and> (\<forall>t \<in> set (threads_left S). t = []) \<and> length (threads_left S) = k)
    \<or> (\<exists>S'. sched_step S S')"
proof -
  obtain a b c where m: "main_left S = replicate a Spawn @ replicate b Start_post @ replicate c Done_wait"
    and ab: "a \<le> k" "b \<le> k" "c \<le> k" "0 < a \<longrightarrow> b = k" "0 < b \<longrightarrow> c = k"
    and n: "length (threads_left S) + a = k"
    and d: "done_sem S + (k - c) + active (threads_left S) = length (threads_left S)"
    and w: "k - b + waiting (threads_left S) \<le> start_sem S + length (threads_left S)"
    and t: "set (threads_left S) \<subseteq> insert [] thread_ops"
    using assms unfolding sched_inv_def by blast
  consider (a) a' where "a = Suc a'" | (b) b' where "a = 0" "b = Suc b'" | (c) "a = 0" "b = 0"
    by (cases a; cases b) auto
  then show ?thesis
  proof cases
    case a
    then show ?thesis using m sched_step.spawn [of S _ "[Done_post]"] by (auto simp: thread_runs_eq thread_ops_def)
  next
    case b
    then show ?thesis using m sched_step.start [of S] by auto
  next
    case c
    show ?thesis
    proof (cases "active (threads_left S) = 0")
      case True
      then have idle: "\<forall>t \<in> set (threads_left S). t = []"
        by (auto simp: active_def filter_empty_conv)
      show ?thesis
      proof (cases c)
        case 0
        then show ?thesis using idle m c n by simp
      next
        case (Suc c')
        then have "done_sem S = Suc c'" using d True n c ab by simp
        then show ?thesis using Suc m c sched_step.join [of S] by auto
      qed
    next
      case False
      then obtain i where i: "i < length (threads_left S)" "threads_left S ! i \<noteq> []"
        by (auto simp: active_def filter_empty_conv in_set_conv_nth)
      then have "threads_left S ! i \<in> thread_ops" using t nth_mem by fastforce
      then consider "threads_left S ! i = [Done_post]" | "threads_left S ! i = [Start_wait, Done_post]"
        by (auto simp: thread_ops_def)
      then show ?thesis
      proof cases
        case 1
        then show ?thesis using i sched_step.ended [of i S] by blast
      next
        case 2
        then have "0 < waiting (threads_left S)"
          using i by (auto simp: waiting_def filter_empty_conv in_set_conv_nth)
        then have "0 < start_sem S" using w c n by simp
        then obtain s where "start_sem S = Suc s" by (cases "start_sem S") auto
        then show ?thesis using 2 i sched_step.started [of i S] by blast
      qed
    qed
  qed
qed



end
