(* ===== verification/IntfExchange.thy ===== *)
theory IntfExchange
  imports IntfContext RcExchange
begin

text \<open>
  The exchange of destinations in intf.c: one message with the address of the port, then one
  message per queue pair in each direction, over one TCP connection (\<open>client_exch_dest\<close>,
  \<open>server_exch_dest\<close>), and \<open>exchange_remote_data\<close>, which connects every queue pair to the one
  with its index on the other side.  Opening the connection has the text of rc_pingpong.c and is
  taken from RcExchange.
\<close>

section \<open>The messages\<close>

text \<open>A word of the GID whose scan fails is zero.\<close>

fun scan_gid_or_zero :: "nat \<Rightarrow> string \<Rightarrow> gid" where
  "scan_gid_or_zero 0 wgid = []"
| "scan_gid_or_zero (Suc n) wgid =
    bswap32 (case scan_x (cstr (take 8 wgid)) of Some (x, _) \<Rightarrow> x | None \<Rightarrow> 0)
      # scan_gid_or_zero n (drop 8 wgid)"

definition intf_wire_gid_to_gid :: "string \<Rightarrow> gid" where
  "intf_wire_gid_to_gid wgid = scan_gid_or_zero 4 wgid"

text \<open>\<open>sizeof("0000:00000000000000000000000000000000")\<close> and \<open>sizeof("000000:000000")\<close>\<close>

definition ADDR_MSG_SIZE :: nat where
  "ADDR_MSG_SIZE = 38"

definition QP_MSG_SIZE :: nat where
  "QP_MSG_SIZE = 14"

definition print_addr :: "u32 \<times> gid \<Rightarrow> string" where
  "print_addr a = print_0x 4 (fst a) @ '':'' @ cstr (gid_to_wire_gid (snd a))"

definition addr_msg :: "string \<Rightarrow> u32 \<times> gid \<Rightarrow> string" where
  "addr_msg old a = take ADDR_MSG_SIZE (store_str (print_addr a) old)"

definition print_qp :: "u32 \<times> u32 \<Rightarrow> string" where
  "print_qp q = print_0x 6 (fst q) @ '':'' @ print_0x 6 (snd q)"

definition qp_msg :: "string \<Rightarrow> u32 \<times> u32 \<Rightarrow> string" where
  "qp_msg old q = take QP_MSG_SIZE (store_str (print_qp q) old)"

text \<open>
  \<open>sscanf(msg, "%x:%s", \<dots>) != 2\<close> and \<open>sscanf(qp_msg, "%x:%x", \<dots>) != 2\<close>: \<open>None\<close> when a field is
  missing.  \<open>gid\<close> is what the character array held.
\<close>

definition scan_addr :: "string \<Rightarrow> string \<Rightarrow> (u32 \<times> gid) option" where
  "scan_addr gid msg = (case scan_xs 1 (cstr msg) of (xs, None) \<Rightarrow> None
     | (xs, Some s) \<Rightarrow> (case scan_s s of None \<Rightarrow> None
         | Some (w, _) \<Rightarrow> Some (xs ! 0, intf_wire_gid_to_gid (store_str w gid))))"

definition scan_qp :: "string \<Rightarrow> (u32 \<times> u32) option" where
  "scan_qp msg = (case scan_xs 1 (cstr msg) of (xs, None) \<Rightarrow> None
     | (xs, Some s) \<Rightarrow> map_option (\<lambda>(y, _). (xs ! 0, y)) (scan_x s))"

section \<open>client_exch_dest and server_exch_dest\<close>

text \<open>What the arrays on the stack hold when the functions are entered.\<close>

record intf_stack =
  jk_msg :: string
  jk_qp_msg :: string
  jk_gid :: string

text \<open>
  The loops over the queue pairs: the QP numbers and PSNs still to be sent and what \<open>qp_msg\<close>
  holds.  The result is the list read, \<open>None\<close> for a \<open>goto out\<close>.
\<close>

fun client_qps ::
    "api_env \<Rightarrow> int \<Rightarrow> string \<Rightarrow> (u32 \<times> u32) list \<Rightarrow> (u32 \<times> u32) list option prog" where
  "client_qps E fd old [] = ret_io (Some [])"
| "client_qps E fd old (q # qs) = do {
     w \<leftarrow> invoke E (Libc (Write fd (qp_msg old q)));
     if w \<noteq> int QP_MSG_SIZE then ret_io None
     else do {
       (r, m) \<leftarrow> invoke_bytes E (Libc (Recv fd (int QP_MSG_SIZE)));
       if r \<noteq> int QP_MSG_SIZE then ret_io None
       else case scan_qp m of None \<Rightarrow> ret_io None
         | Some p \<Rightarrow> do { rest \<leftarrow> client_qps E fd m qs; ret_io (map_option ((#) p) rest) } } }"

fun server_qps ::
    "api_env \<Rightarrow> int \<Rightarrow> (u32 \<times> u32) list \<Rightarrow> (u32 \<times> u32) list option prog" where
  "server_qps E fd [] = ret_io (Some [])"
| "server_qps E fd (q # qs) = do {
     (r, m) \<leftarrow> invoke_bytes E (Libc (Recv fd (int QP_MSG_SIZE)));
     if r \<noteq> int QP_MSG_SIZE then ret_io None
     else case scan_qp m of None \<Rightarrow> ret_io None
       | Some p \<Rightarrow> do {
           w \<leftarrow> invoke E (Libc (Write fd (qp_msg m q)));
           if w \<noteq> int QP_MSG_SIZE then ret_io None
           else do { rest \<leftarrow> server_qps E fd qs; ret_io (map_option ((#) p) rest) } } }"

definition qps_of :: "ib_dest \<Rightarrow> (u32 \<times> u32) list" where
  "qps_of d = zip (ib_qpn d) (ib_psn d)"

definition addr_of :: "ib_dest \<Rightarrow> u32 \<times> gid" where
  "addr_of d = (ib_lid d, ib_gid d)"

definition dest_of :: "u32 \<times> gid \<Rightarrow> (u32 \<times> u32) list \<Rightarrow> ib_dest" where
  "dest_of a qs = \<lparr>ib_lid = fst a, ib_gid = snd a, ib_qpn = map fst qs, ib_psn = map snd qs\<rparr>"

definition client_talk_qps :: "api_env \<Rightarrow> intf_stack \<Rightarrow> ib_dest \<Rightarrow> int \<Rightarrow> ib_dest option prog" where
  "client_talk_qps E k my_dest sockfd = do {
     w \<leftarrow> invoke E (Libc (Write sockfd (addr_msg (jk_msg k) (addr_of my_dest))));
     if w \<noteq> int ADDR_MSG_SIZE then out_label E sockfd None
     else do {
       (r, msg) \<leftarrow> invoke_bytes E (Libc (Recv sockfd (int ADDR_MSG_SIZE)));
       if r \<noteq> int ADDR_MSG_SIZE then out_label E sockfd None
       else case scan_addr (gid_to_wire_gid (ib_gid my_dest)) msg of None \<Rightarrow> out_label E sockfd None
         | Some a \<Rightarrow> do {
             qs \<leftarrow> client_qps E sockfd (jk_qp_msg k) (qps_of my_dest);
             case qs of None \<Rightarrow> out_label E sockfd None
             | Some qs \<Rightarrow> do {
                 w \<leftarrow> invoke E (Libc (Write sockfd done_msg));
                 if w \<noteq> int (length done_msg) then out_label E sockfd None
                 else out_label E sockfd (Some (dest_of a qs)) } } } }"

definition client_exch_dest ::
    "api_env \<Rightarrow> intf_stack \<Rightarrow> ptr list \<Rightarrow> string \<Rightarrow> int \<Rightarrow> ib_dest \<Rightarrow> ib_dest option prog" where
  "client_exch_dest E k addrs servername port my_dest = do {
     s \<leftarrow> open_client E addrs servername port;
     case s of None \<Rightarrow> ret_io None | Some sockfd \<Rightarrow> client_talk_qps E k my_dest sockfd }"

definition server_talk_qps :: "api_env \<Rightarrow> intf_stack \<Rightarrow> ib_dest \<Rightarrow> int \<Rightarrow> ib_dest option prog" where
  "server_talk_qps E k my_dest connfd = do {
     (r, msg) \<leftarrow> invoke_bytes E (Libc (Recv connfd (int ADDR_MSG_SIZE)));
     if r \<noteq> int ADDR_MSG_SIZE then out_label E connfd None
     else case scan_addr (jk_gid k) msg of None \<Rightarrow> out_label E connfd None
       | Some a \<Rightarrow> do {
           w \<leftarrow> invoke E (Libc (Write connfd (addr_msg msg (addr_of my_dest))));
           if w \<noteq> int ADDR_MSG_SIZE then out_label E connfd None
           else do {
             qs \<leftarrow> server_qps E connfd (qps_of my_dest);
             case qs of None \<Rightarrow> out_label E connfd None
             | Some qs \<Rightarrow> do {
                 (r, m) \<leftarrow> invoke_bytes E (Libc (Read connfd (int ADDR_MSG_SIZE)));
                 if r \<le> 0 then out_label E connfd None
                 else out_label E connfd (Some (dest_of a qs)) } } } }"

definition server_exch_dest ::
    "api_env \<Rightarrow> intf_stack \<Rightarrow> ptr list \<Rightarrow> int \<Rightarrow> ib_dest \<Rightarrow> ib_dest option prog" where
  "server_exch_dest E k addrs port my_dest = do {
     s \<leftarrow> open_server E addrs port;
     case s of None \<Rightarrow> ret_io None | Some connfd \<Rightarrow> server_talk_qps E k my_dest connfd }"

section \<open>exchange_remote_data\<close>

text \<open>The loop that connects the queue pairs, with the number of them left and the index.\<close>

fun connect_each ::
    "api_env \<Rightarrow> intf_context \<Rightarrow> ib_dest \<Rightarrow> ib_dest \<Rightarrow> nat \<Rightarrow> nat \<Rightarrow> qp_cq_data list
      \<Rightarrow> (int \<times> qp_cq_data list) prog" where
  "connect_each E x my_dest rem_dest 0 i qcs = ret_io (0, qcs)"
| "connect_each E x my_dest rem_dest (Suc n) i qcs = do {
     let qcs = qcs[i := upd_qp (\<lambda>q. q\<lparr>q_remote_qpn := ib_qpn rem_dest ! i\<rparr>) (qcs ! i)];
     r \<leftarrow> connect_qp E (q_qp (qc_qp (qcs ! i))) (x_ib_port_num x) (ib_psn my_dest ! i) (x_mtu x)
            (x_sl x) (ib_gid rem_dest) (ib_lid rem_dest) (ib_psn rem_dest ! i)
            (ib_qpn rem_dest ! i) 0;
     if r \<noteq> 0 then ret_io (1, qcs) else connect_each E x my_dest rem_dest n (Suc i) qcs }"

text \<open>The label \<open>free_buffs\<close>, the only place where the four arrays are freed.\<close>

definition free_buffs ::
    "api_env \<Rightarrow> ptr \<Rightarrow> ptr \<Rightarrow> ptr \<Rightarrow> ptr \<Rightarrow> intf_context \<Rightarrow> (int \<times> intf_context) prog" where
  "free_buffs E p1 p2 p3 p4 x = do {
     when_io (p1 \<noteq> 0) (invoke E (Libc (Free p1)));
     when_io (p2 \<noteq> 0) (invoke E (Libc (Free p2)));
     when_io (p3 \<noteq> 0) (invoke E (Libc (Free p3)));
     when_io (p4 \<noteq> 0) (invoke E (Libc (Free p4)));
     ret_io (1, x) }"

definition local_dest :: "u32 \<Rightarrow> qp_cq_data list \<Rightarrow> ib_dest" where
  "local_dest lid qcs = \<lparr>ib_lid = lid, ib_gid = zero_gid,
     ib_qpn = map (\<lambda>qc. q_qp_num (qc_qp qc)) qcs, ib_psn = map (\<lambda>qc. q_psn (qc_qp qc)) qcs\<rparr>"

definition exchange_dests ::
    "api_env \<Rightarrow> intf_stack \<Rightarrow> ptr list \<Rightarrow> intf_context \<Rightarrow> ib_dest \<Rightarrow> ib_dest option prog" where
  "exchange_dests E k addrs x my_dest = (case x_servername x of
      Some name \<Rightarrow> client_exch_dest E k addrs name (x_port x) my_dest
    | None \<Rightarrow> server_exch_dest E k addrs (x_port x) my_dest)"

text \<open>\<open>IBV_LINK_LAYER_INFINIBAND\<close> is 1, and the LID of a port is a 16-bit number.\<close>

definition exchange_remote_data ::
    "api_env \<Rightarrow> intf_stack \<Rightarrow> ptr list \<Rightarrow> intf_context \<Rightarrow> (int \<times> intf_context) prog" where
  "exchange_remote_data E k addrs x = do {
     (r, portinfo) \<leftarrow> invoke_attr E (Ibv (Query_port (x_context x) (x_ib_port_num x)));
     if r \<noteq> 0 then ret_io (1, x)
     else if portinfo ''link_layer'' \<noteq> 1 then ret_io (1, x)
     else do {
       let lid = take_bit 16 (word_of_int (portinfo ''lid''));
       if lid = 0 then ret_io (1, x)
       else do {
         p1 \<leftarrow> invoke E (Libc (Calloc ''psn''));
         p2 \<leftarrow> invoke E (Libc (Calloc ''qpn''));
         p3 \<leftarrow> invoke E (Libc (Calloc ''psn''));
         p4 \<leftarrow> invoke E (Libc (Calloc ''qpn''));
         if p1 = 0 \<or> p2 = 0 \<or> p3 = 0 \<or> p4 = 0 then free_buffs E p1 p2 p3 p4 x
         else do {
           let my_dest = local_dest lid (x_qps_cqs x);
           d \<leftarrow> exchange_dests E k addrs x my_dest;
           case d of None \<Rightarrow> free_buffs E p1 p2 p3 p4 x
           | Some rem_dest \<Rightarrow> do {
               (r, qcs) \<leftarrow> connect_each E x my_dest rem_dest (length (x_qps_cqs x)) 0 (x_qps_cqs x);
               if r \<noteq> 0 then free_buffs E p1 p2 p3 p4 (x\<lparr>x_qps_cqs := qcs\<rparr>)
               else ret_io (0, x\<lparr>x_qps_cqs := qcs\<rparr>) } } } } }"


section \<open>The messages are read back\<close>

text \<open>A codec whose reader can fail: it does not on what the writer produced.\<close>

locale checked_codec =
  fixes valid :: "'a \<Rightarrow> bool" and enc :: "'a \<Rightarrow> string" and scan :: "string \<Rightarrow> 'a option"
    and msg_size :: nat
  assumes enc_length: "valid x \<Longrightarrow> length (enc x) = msg_size"
    and scan_enc: "valid x \<Longrightarrow> scan (enc x) = Some x"

sublocale checked_codec \<subseteq> wire_codec valid enc "\<lambda>m. the (scan m)" msg_size
  by unfold_locales (simp_all add: enc_length scan_enc)

lemma scan_gid_or_zero_print:
  "scan_gid_or_zero (length g) (concat (map (\<lambda>raw. print_0x 8 (bswap32 raw)) g) @ t) = g"
proof (induction g)
  case (Cons a g)
  have "unat (bswap32 a) < 16 ^ 8" using unsigned_less [of "bswap32 a"] by simp
  then have "length (print_0x 8 (bswap32 a)) = 8" by (simp add: length_print_0x)
  moreover have "scan_x (cstr (print_0x 8 (bswap32 a))) = Some (bswap32 a, [])"
    using scan_x_print [of "[]"] by (simp add: cstr_digits print_0x_digits)
  ultimately show ?case using Cons by simp
qed simp

definition addr_fits :: "u32 \<times> gid \<Rightarrow> bool" where
  "addr_fits a \<longleftrightarrow> unat (fst a) < 2 ^ 16 \<and> length (snd a) = 4"

definition qp_fits :: "u32 \<times> u32 \<Rightarrow> bool" where
  "qp_fits q \<longleftrightarrow> unat (fst q) < 2 ^ 24 \<and> unat (snd q) < 2 ^ 24"

lemma addr_msg_eq: "addr_fits a \<Longrightarrow> addr_msg old a = print_addr a @ [NUL]"
  by (simp add: addr_msg_def store_str_def ADDR_MSG_SIZE_def print_addr_def addr_fits_def
      wire_gid_word(3) length_print_0x [THEN iffD2])

lemma qp_msg_eq: "qp_fits q \<Longrightarrow> qp_msg old q = print_qp q @ [NUL]"
  by (simp add: qp_msg_def store_str_def QP_MSG_SIZE_def print_qp_def qp_fits_def
      length_print_0x [THEN iffD2])

lemma cstr_addr_msg: "addr_fits a \<Longrightarrow> cstr (addr_msg old a) = print_addr a"
proof -
  assume a: "addr_fits a"
  then have "NUL \<notin> set (print_addr a)"
    by (simp add: print_addr_def wire_gid_word(2) addr_fits_def)
  then show ?thesis unfolding addr_msg_eq [OF a] by (rule cstr_append_NUL)
qed

lemma cstr_qp_msg: "qp_fits q \<Longrightarrow> cstr (qp_msg old q) = print_qp q"
proof -
  assume q: "qp_fits q"
  have "NUL \<notin> set (print_qp q)" by (simp add: print_qp_def)
  then show ?thesis unfolding qp_msg_eq [OF q] by (rule cstr_append_NUL)
qed

lemma length_msgs:
  "addr_fits a \<Longrightarrow> length (addr_msg old a) = ADDR_MSG_SIZE"
  "qp_fits q \<Longrightarrow> length (qp_msg old q) = QP_MSG_SIZE"
  by (simp_all add: addr_msg_eq print_addr_def ADDR_MSG_SIZE_def addr_fits_def wire_gid_word(3)
      qp_msg_eq print_qp_def QP_MSG_SIZE_def qp_fits_def length_print_0x [THEN iffD2])

lemma scan_addr_msg:
  assumes "addr_fits a"
  shows "scan_addr gid (addr_msg old a) = Some a"
proof -
  have g: "length (snd a) = 4" using assms by (simp add: addr_fits_def)
  have "intf_wire_gid_to_gid (store_str (cstr (gid_to_wire_gid (snd a))) gid) = snd a"
    using scan_gid_or_zero_print [of "snd a" "NUL # drop 33 gid"] g length_wire_gid [of "snd a"]
    by (simp add: intf_wire_gid_to_gid_def store_str_def cstr_gid_to_wire_gid)
  then show ?thesis
    using wire_gid_word(1) [OF g]
    by (simp add: scan_addr_def cstr_addr_msg [OF assms] print_addr_def scan_x_colon)
qed

lemma scan_qp_msg: "qp_fits q \<Longrightarrow> scan_qp (qp_msg old q) = Some q"
  using scan_x_print [of "[]" 6 "snd q"]
  by (simp add: scan_qp_def cstr_qp_msg print_qp_def scan_x_colon)

interpretation intf_addr: checked_codec addr_fits "addr_msg old" "scan_addr gid" ADDR_MSG_SIZE
  for old gid
  by unfold_locales (fact length_msgs(1), fact scan_addr_msg)

interpretation intf_qp: checked_codec qp_fits "qp_msg old" scan_qp QP_MSG_SIZE
  for old
  by unfold_locales (fact length_msgs(2), fact scan_qp_msg)

definition intf_fits :: "ib_dest \<Rightarrow> bool" where
  "intf_fits d \<longleftrightarrow> addr_fits (addr_of d) \<and> length (ib_psn d) = length (ib_qpn d)
     \<and> list_all qp_fits (qps_of d)"

lemma dest_of_parts: "intf_fits d \<Longrightarrow> dest_of (addr_of d) (qps_of d) = d"
  by (simp add: dest_of_def addr_of_def qps_of_def intf_fits_def)

section \<open>What is written\<close>

definition qp_lines :: "(u32 \<times> u32) list \<Rightarrow> string list" where
  "qp_lines qs = map (qp_msg []) qs"

definition server_lines :: "ib_dest \<Rightarrow> string list" where
  "server_lines d = addr_msg [] (addr_of d) # qp_lines (qps_of d)"

definition client_lines :: "ib_dest \<Rightarrow> string list" where
  "client_lines d = server_lines d @ [done_msg]"

lemma qp_lines_simps [simp]:
  "qp_lines [] = []" "qp_lines (q # qs) = qp_msg [] q # qp_lines qs"
  by (simp_all add: qp_lines_def)

lemma writes_step [simp]:
  "writes q (Libc (Write fd s)) r = Some (q @ [s])" "writes q (Libc (Recv fd n)) r = Some q"
  "writes q (Libc (Read fd n)) r = Some q" "writes q (Libc (Close fd)) r = Some q"
  "writes q (Libc (Calloc t)) r = Some q" "writes q (Libc (Free p)) r = Some q"
  "writes q (Ibv i) r = Some q"
  by (simp_all add: writes_def)

lemma writes_client_qps:
  "list_all qp_fits qs \<Longrightarrow>
   sat writes (client_qps E fd old qs) q (\<lambda>r q'. r \<noteq> None \<longrightarrow> q' = q @ qp_lines qs)"
proof (induction qs arbitrary: old q)
  case Nil
  then show ?case by (auto intro!: sat_return)
next
  case (Cons a qs)
  then show ?case
    by (auto intro!: sat_intro Cons.IH [THEN sat_conseq] simp: qp_lines_def qp_msg_eq)
qed

lemma writes_server_qps:
  "list_all qp_fits qs \<Longrightarrow>
   sat writes (server_qps E fd qs) q (\<lambda>r q'. r \<noteq> None \<longrightarrow> q' = q @ qp_lines qs)"
proof (induction qs arbitrary: q)
  case Nil
  then show ?case by (auto intro!: sat_return)
next
  case (Cons a qs)
  then show ?case
    by (auto intro!: sat_intro Cons.IH [THEN sat_conseq] simp: qp_lines_def qp_msg_eq)
qed

definition lines_of :: "string option \<Rightarrow> ib_dest \<Rightarrow> string list" where
  "lines_of servername d = (case servername of None \<Rightarrow> server_lines d | Some _ \<Rightarrow> client_lines d)"

lemma writes_client_talk:
  assumes "intf_fits d"
  shows "sat writes (client_talk_qps E k d fd) q (\<lambda>r q'. r \<noteq> None \<longrightarrow> q' = q @ client_lines d)"
proof -
  have f: "list_all qp_fits (qps_of d)" "addr_fits (addr_of d)"
    using assms by (simp_all add: intf_fits_def)
  show ?thesis
    unfolding client_talk_qps_def out_label_def
    by (auto intro!: sat_intro writes_client_qps [OF f(1), THEN sat_conseq]
        simp: client_lines_def server_lines_def addr_msg_eq [OF f(2)])
qed

lemma writes_server_talk:
  assumes "intf_fits d"
  shows "sat writes (server_talk_qps E k d fd) q (\<lambda>r q'. r \<noteq> None \<longrightarrow> q' = q @ server_lines d)"
proof -
  have f: "list_all qp_fits (qps_of d)" "addr_fits (addr_of d)"
    using assms by (simp_all add: intf_fits_def)
  show ?thesis
    unfolding server_talk_qps_def out_label_def
    by (auto intro!: sat_intro writes_server_qps [OF f(1), THEN sat_conseq]
        simp: server_lines_def addr_msg_eq [OF f(2)])
qed

lemma writes_exchange_dests:
  assumes "intf_fits d"
  shows "sat writes (exchange_dests E k addrs x d) q
    (\<lambda>r q'. r \<noteq> None \<longrightarrow> q' = q @ lines_of (x_servername x) d)"
  unfolding exchange_dests_def client_exch_dest_def server_exch_dest_def
  by (cases "x_servername x")
    (auto intro!: sat_intro writes_open_client [THEN sat_conseq] writes_open_server [THEN sat_conseq]
      writes_client_talk [OF assms, THEN sat_conseq] writes_server_talk [OF assms, THEN sat_conseq]
      simp: lines_of_def)

section \<open>What is read\<close>

text \<open>The bytes received so far; a receive continues where the last one stopped.\<close>

fun received :: "trace \<Rightarrow> nat" where
  "received [] = 0"
| "received ((c, r) # h) = received h + (case c of Libc (Recv fd n) \<Rightarrow> nat r | _ \<Rightarrow> 0)"

definition stream_fed :: "api_env \<Rightarrow> string \<Rightarrow> bool" where
  "stream_fed E m \<longleftrightarrow> (\<forall>h fd n. data_in E h (Libc (Recv fd n)) = drop (received h) m)"

definition counts :: "nat \<Rightarrow> api \<Rightarrow> int \<Rightarrow> nat option" where
  "counts q c r = Some (q + (case c of Libc (Recv fd n) \<Rightarrow> nat r | _ \<Rightarrow> 0))"

lemma obs_counts: "obs counts q h = Some (q + received h)"
  by (induction h) (auto simp: counts_def)

lemma received_step [simp]:
  "received ((Libc (Write fd s), r) # h) = received h"
  "received ((Libc (Recv fd n), r) # h) = received h + nat r"
  by simp_all

lemma counts_connect_loop: "sat counts (connect_loop E ts s) q (\<lambda>_ q'. q' = q)"
  by (induction ts arbitrary: s) (auto intro!: sat_intro simp: counts_def)

lemma counts_bind_loop: "sat counts (bind_loop E ts s) q (\<lambda>_ q'. q' = q)"
  by (induction ts arbitrary: s) (auto intro!: sat_intro simp: counts_def)

lemma counts_open_client: "sat counts (open_client E ts nm port) q (\<lambda>_ q'. q' = q)"
  unfolding open_client_def
  by (auto intro!: sat_intro counts_connect_loop [THEN sat_conseq] simp: counts_def)

lemma counts_open_server: "sat counts (open_server E ts port) q (\<lambda>_ q'. q' = q)"
  unfolding open_server_def
  by (auto intro!: sat_intro counts_bind_loop [THEN sat_conseq] simp: counts_def)

lemma wp_counts:
  "sat counts m (received h) (\<lambda>_ q'. q' = received h) \<Longrightarrow> wp m (\<lambda>_ h'. received h' = received h) h"
  using wp_of_sat [of counts m "received h" _ 0 h] by (auto simp: obs_counts elim: wp_conseq)

text \<open>One message is read whole from the stream.\<close>

lemma bytes_of_stream:
  assumes "stream_fed E m" and "drop (received h) m = s @ t" and "length s = n"
    and "ret E h (Libc (Recv fd (int n))) = int n"
  shows "bytes_of E h (Libc (Recv fd (int n))) = s"
  using assms by (simp add: bytes_of_def stream_fed_def)

lemma drop_stream: "drop k m = s @ t \<Longrightarrow> length s = n \<Longrightarrow> drop (k + n) m = t"
  by (metis add.commute append_eq_conv_conj drop_drop)

text \<open>A network that accepts everything, and a port with the LID 1.\<close>

definition exchange_call :: "api \<Rightarrow> bool" where
  "exchange_call c = (case c of
      Libc l \<Rightarrow> (case l of Pthread_create s \<Rightarrow> False | _ \<Rightarrow> True)
    | Ibv i \<Rightarrow> (case i of Query_port _ _ \<Rightarrow> True | Modify_qp _ _ _ \<Rightarrow> True | _ \<Rightarrow> False)
    | _ \<Rightarrow> False)"

definition kind :: "api_env \<Rightarrow> bool" where
  "kind E \<longleftrightarrow> (\<forall>h c. exchange_call c \<longrightarrow> ret E h c = ret (net_env []) [] c) \<and> (\<forall>h c a. attr_in E h c a = 1)"

lemma kind_ret:
  "kind E \<Longrightarrow> ret E h (Libc (Write fd s)) = int (length s)"
  "kind E \<Longrightarrow> ret E h (Libc (Recv fd n)) = n"
  "kind E \<Longrightarrow> ret E h (Libc (Read fd n)) = 3"
  "kind E \<Longrightarrow> ret E h (Libc (Asprintf p)) = 3"
  "kind E \<Longrightarrow> ret E h (Libc (Getaddrinfo nm p)) = 3"
  "kind E \<Longrightarrow> ret E h (Libc (Socket a)) = 3"
  "kind E \<Longrightarrow> ret E h (Libc (Connect_sock s' a)) = 0"
  "kind E \<Longrightarrow> ret E h (Libc (Bind_sock s' a)) = 0"
  "kind E \<Longrightarrow> ret E h (Libc (Accept_sock s')) = 3"
  "kind E \<Longrightarrow> ret E h (Libc (Calloc t)) = 3"
  "kind E \<Longrightarrow> ret E h (Ibv (Query_port d n)) = 0"
  "kind E \<Longrightarrow> ret E h (Ibv (Modify_qp p qa qm)) = 0"
  "kind E \<Longrightarrow> attr_in E h c f = 1"
  by (simp_all add: kind_def net_env_def const_env_def exchange_call_def)

text \<open>A list read is the list sent; a kind network lets it be read.\<close>

definition reads_list ::
    "api_env \<Rightarrow> (u32 \<times> u32) list \<Rightarrow> (u32 \<times> u32) list option \<Rightarrow> trace \<Rightarrow> bool" where
  "reads_list E ps r h \<longleftrightarrow> (r = Some ps \<or> r = None \<and> \<not> kind E)"

lemma reads_none [simp]: "reads_list E ps None h \<longleftrightarrow> \<not> kind E"
  by (simp add: reads_list_def)

lemma wp_client_qps:
  assumes "stream_fed E m"
  shows "drop (received h) m = concat (qp_lines ps) @ rest \<Longrightarrow> list_all qp_fits ps \<Longrightarrow>
    list_all qp_fits qs \<Longrightarrow> length ps = length qs \<Longrightarrow> wp (client_qps E fd old qs) (reads_list E ps) h"
proof (induction qs arbitrary: ps old h)
  case Nil
  then show ?case by (simp add: reads_list_def)
next
  case (Cons a qs)
  then obtain p ps' where ps: "ps = p # ps'" "qp_fits p" "list_all qp_fits ps'" "length ps' = length qs"
    by (cases ps) auto
  have fit: "qp_fits a" "list_all qp_fits qs" using Cons.prems by simp_all
  let ?c = "Libc (Recv fd (int QP_MSG_SIZE))" and ?w = "Libc (Write fd (qp_msg old a))"
  have d: "drop (received ((?w, r) # h)) m = qp_msg [] p @ concat (qp_lines ps') @ rest" for r
    using Cons.prems ps by simp
  note l = length_msgs(2) [OF ps(2)]
  have "wp (client_qps E fd (qp_msg [] p) qs) (reads_list E ps') ((?c, int QP_MSG_SIZE) # (?w, r) # h)"
    for r using drop_stream [OF d l] ps fit by (intro Cons.IH) simp_all
  then have "wp (client_qps E fd (qp_msg [] p) qs) (\<lambda>r. reads_list E ps (map_option ((#) p) r))
      ((?c, int QP_MSG_SIZE) # (?w, r) # h)" for r
    by (rule wp_conseq) (auto simp: reads_list_def ps)
  then show ?case
    using bytes_of_stream [OF assms d l] scan_qp_msg [OF ps(2)]
    by (auto simp: kind_ret length_msgs(2) [OF fit(1)])
qed

lemma wp_server_qps:
  assumes "stream_fed E m"
  shows "drop (received h) m = concat (qp_lines ps) @ rest \<Longrightarrow> list_all qp_fits ps \<Longrightarrow>
    list_all qp_fits qs \<Longrightarrow> length ps = length qs \<Longrightarrow> wp (server_qps E fd qs) (reads_list E ps) h"
proof (induction qs arbitrary: ps h)
  case Nil
  then show ?case by (simp add: reads_list_def)
next
  case (Cons a qs)
  then obtain p ps' where ps: "ps = p # ps'" "qp_fits p" "list_all qp_fits ps'" "length ps' = length qs"
    by (cases ps) auto
  have fit: "qp_fits a" "list_all qp_fits qs" using Cons.prems by simp_all
  let ?c = "Libc (Recv fd (int QP_MSG_SIZE))" and ?w = "Libc (Write fd (qp_msg (qp_msg [] p) a))"
  have d: "drop (received h) m = qp_msg [] p @ concat (qp_lines ps') @ rest"
    using Cons.prems ps by simp
  note l = length_msgs(2) [OF ps(2)]
  have "wp (server_qps E fd qs) (reads_list E ps') ((?w, r) # (?c, int QP_MSG_SIZE) # h)" for r
    using drop_stream [OF d l] ps fit by (intro Cons.IH) simp_all
  then have "wp (server_qps E fd qs) (\<lambda>r. reads_list E ps (map_option ((#) p) r))
      ((?w, r) # (?c, int QP_MSG_SIZE) # h)" for r
    by (rule wp_conseq) (auto simp: reads_list_def ps)
  then show ?case
    using bytes_of_stream [OF assms d l] scan_qp_msg [OF ps(2)]
    by (auto simp: kind_ret length_msgs(2) [OF fit(1)])
qed

text \<open>An exchange whose peer sends the destination \<open>d\<close> gives \<open>d\<close> or fails.\<close>

definition yields :: "bool \<Rightarrow> 'd \<Rightarrow> 'd option \<Rightarrow> trace \<Rightarrow> bool" where
  "yields ok d r h \<longleftrightarrow> (r = Some d \<or> r = None \<and> \<not> ok)"

lemma wp_out_label: "wp (out_label E fd r) Q h = Q r ((Libc (Close fd), ret E h (Libc (Close fd))) # h)"
  by (simp add: out_label_def)

lemma wp_client_talk:
  assumes "stream_fed E m" and "drop (received h) m = concat (server_lines d) @ rest"
    and "intf_fits d" and "length (ib_qpn d) = length (qps_of my)" and "intf_fits my"
  shows "wp (client_talk_qps E k my fd) (yields (kind E) d) h"
proof -
  have f: "addr_fits (addr_of d)" "list_all qp_fits (qps_of d)" "length (qps_of d) = length (qps_of my)"
    "addr_fits (addr_of my)" "list_all qp_fits (qps_of my)"
    using assms(3-5) by (simp_all add: intf_fits_def qps_of_def)
  let ?c = "Libc (Recv fd (int ADDR_MSG_SIZE))"
  let ?w = "Libc (Write fd (addr_msg (jk_msg k) (addr_of my)))"
  have a: "drop (received ((?w, r) # h)) m
      = addr_msg [] (addr_of d) @ concat (qp_lines (qps_of d)) @ rest" for r
    using assms(2) by (simp add: server_lines_def)
  note l = length_msgs(1) [OF f(1)]
  have "wp (client_qps E fd (jk_qp_msg k) (qps_of my)) (reads_list E (qps_of d))
      ((?c, int ADDR_MSG_SIZE) # (?w, r) # h)" for r
    using drop_stream [OF a l] f by (intro wp_client_qps [OF assms(1)]) simp_all
  note qs = wp_conseq [OF this]
  show ?thesis
    unfolding client_talk_qps_def
    using bytes_of_stream [OF assms(1) a l] scan_addr_msg [OF f(1)] dest_of_parts [OF assms(3)]
    by (auto simp: yields_def wp_out_label reads_list_def kind_ret length_msgs(1) [OF f(4)] intro!: qs)
qed

lemma wp_server_talk:
  assumes "stream_fed E m" and "drop (received h) m = concat (server_lines d) @ rest"
    and "intf_fits d" and "length (ib_qpn d) = length (qps_of my)" and "intf_fits my"
  shows "wp (server_talk_qps E k my fd) (yields (kind E) d) h"
proof -
  have f: "addr_fits (addr_of d)" "list_all qp_fits (qps_of d)" "length (qps_of d) = length (qps_of my)"
    "addr_fits (addr_of my)" "list_all qp_fits (qps_of my)"
    using assms(3-5) by (simp_all add: intf_fits_def qps_of_def)
  let ?c = "Libc (Recv fd (int ADDR_MSG_SIZE))"
  let ?w = "Libc (Write fd (addr_msg (addr_msg [] (addr_of d)) (addr_of my)))"
  have a: "drop (received h) m = addr_msg [] (addr_of d) @ concat (qp_lines (qps_of d)) @ rest"
    using assms(2) by (simp add: server_lines_def)
  note l = length_msgs(1) [OF f(1)]
  have "wp (server_qps E fd (qps_of my)) (reads_list E (qps_of d)) ((?w, r) # (?c, int ADDR_MSG_SIZE) # h)"
    for r
    using drop_stream [OF a l] f by (intro wp_server_qps [OF assms(1)]) simp_all
  note qs = wp_conseq [OF this]
  show ?thesis
    unfolding server_talk_qps_def
    using bytes_of_stream [OF assms(1) a l] scan_addr_msg [OF f(1)] dest_of_parts [OF assms(3)]
    by (auto simp: yields_def wp_out_label reads_list_def kind_ret length_msgs(1) [OF f(4)] intro!: qs)
qed

lemma concat_lines:
  obtains rest where "concat (lines_of nm d) = concat (server_lines d) @ rest"
  by (cases nm) (simp_all add: lines_of_def client_lines_def)

definition kind_start :: "api_env \<Rightarrow> ptr list \<Rightarrow> bool" where
  "kind_start E addrs \<longleftrightarrow> kind E \<and> addrs \<noteq> []"

definition opens :: "api_env \<Rightarrow> ptr list \<Rightarrow> int option \<Rightarrow> bool" where
  "opens E addrs r \<longleftrightarrow> (kind_start E addrs \<longrightarrow> r \<noteq> None)"

lemma opens_None: "opens E addrs None \<Longrightarrow> yields (kind_start E addrs) d None h"
  by (simp add: opens_def yields_def)

lemma wp_kind_client: "wp (open_client E addrs nm port) (\<lambda>r _. opens E addrs r) h"
proof (cases "kind_start E addrs")
  case True
  then show ?thesis
    by (cases addrs) (simp_all add: open_client_def kind_start_def kind_ret opens_def)
qed (simp add: wp_def opens_def split: prod.splits)

lemma wp_kind_server: "wp (open_server E addrs port) (\<lambda>r _. opens E addrs r) h"
proof (cases "kind_start E addrs")
  case True
  then show ?thesis
    by (cases addrs) (simp_all add: open_server_def kind_start_def kind_ret opens_def)
qed (simp add: wp_def opens_def split: prod.splits)

lemma wp_exchange_dests:
  assumes "stream_fed E (concat (lines_of nm d))" and "received h = 0"
    and "intf_fits d" and "length (ib_qpn d) = length (qps_of my)" and "intf_fits my"
  shows "wp (exchange_dests E k addrs x my) (yields (kind_start E addrs) d) h"
proof -
  obtain rest where m: "concat (lines_of nm d) = concat (server_lines d) @ rest"
    by (rule concat_lines)
  have c: "wp (client_talk_qps E k my fd) (yields (kind_start E addrs) d) h'"
    if "received h' = received h" for fd h'
    by (rule wp_conseq [OF wp_client_talk [OF assms(1) _ assms(3-5)]])
      (use that m assms(2) in \<open>auto simp: yields_def kind_start_def\<close>)
  have s: "wp (server_talk_qps E k my fd) (yields (kind_start E addrs) d) h'"
    if "received h' = received h" for fd h'
    by (rule wp_conseq [OF wp_server_talk [OF assms(1) _ assms(3-5)]])
      (use that m assms(2) in \<open>auto simp: yields_def kind_start_def\<close>)
  show ?thesis
    unfolding exchange_dests_def client_exch_dest_def server_exch_dest_def
    by (auto intro!: wp_conseq [OF wp_conj [OF wp_counts [OF counts_open_client] wp_kind_client]]
        wp_conseq [OF wp_conj [OF wp_counts [OF counts_open_server] wp_kind_server]] c s
        opens_None split: option.split)
qed

section \<open>How the queue pairs are connected\<close>

text \<open>
  The transitions to \<open>RTR\<close> asked for, in order: the queue pair and the number, the first PSN and
  the LID of its peer.
\<close>

type_synonym peering = "ptr \<times> u32 \<times> u32 \<times> u32"

definition rtr_log :: "peering list \<Rightarrow> api \<Rightarrow> int \<Rightarrow> peering list option" where
  "rtr_log q c r = Some (case c of
      Ibv (Modify_qp p a m) \<Rightarrow>
        if qp_state a = QPS_RTR then q @ [(p, dest_qp_num a, rq_psn a, dlid (av a))] else q
    | _ \<Rightarrow> q)"

fun peerings :: "trace \<Rightarrow> peering list" where
  "peerings [] = []"
| "peerings ((c, r) # h) = the (rtr_log (peerings h) c r)"

lemma obs_rtr_log: "obs rtr_log (peerings h0) h = Some (peerings (h @ h0))"
  by (induction h) (auto simp: rtr_log_def)

lemma rtr_log_step [simp]:
  "rtr_log q (Libc c) r = Some q" "rtr_log q (Ibv (Query_port d n)) r = Some q"
  by (simp_all add: rtr_log_def)

lemma log_connect_qp:
  "sat rtr_log (connect_qp E q port my_psn mtu sl g lid psn qpn idx) l
     (\<lambda>r l'. l' = l @ [(q, qpn, psn, lid)])"
  unfolding connect_qp_def Let_def
  by (auto intro!: sat_intro simp: rtr_log_def rtr_attr_def rts_attr_def Let_def)

definition peered :: "nat \<Rightarrow> qp_cq_data list \<Rightarrow> ib_dest \<Rightarrow> peering list" where
  "peered i qcs d = map (\<lambda>j. (q_qp (qc_qp (qcs ! j)), ib_qpn d ! j, ib_psn d ! j, ib_lid d))
     [i ..< length qcs]"

lemma log_connect_each:
  "i + n = length qcs \<Longrightarrow> sat rtr_log (connect_each E x my_dest d n i qcs) l
     (\<lambda>(r, _) l'. r = 0 \<longrightarrow> l' = l @ peered i qcs d)"
proof (induction n arbitrary: i qcs l)
  case 0
  then show ?case by (auto intro!: sat_return simp: peered_def)
next
  case (Suc n)
  let ?u = "qcs[i := upd_qp (\<lambda>q. q\<lparr>q_remote_qpn := ib_qpn d ! i\<rparr>) (qcs ! i)]"
  have i: "i < length qcs" using Suc.prems by simp
  have q: "q_qp (qc_qp (?u ! i)) = q_qp (qc_qp (qcs ! i))"
    using i by (simp add: upd_qp_def)
  have r: "peered i qcs d
      = (q_qp (qc_qp (qcs ! i)), ib_qpn d ! i, ib_psn d ! i, ib_lid d) # peered (Suc i) ?u d"
    using i by (simp add: peered_def upt_conv_Cons)
  show ?case
    unfolding connect_each.simps Let_def q r
    by (auto intro!: sat_intro log_connect_qp [THEN sat_conseq] Suc.IH [THEN sat_conseq]
        simp: Suc.prems [symmetric])
qed

lemma log_connect_loop: "sat rtr_log (connect_loop E ts s) l (\<lambda>_ l'. l' = l)"
  by (induction ts arbitrary: s) (auto intro!: sat_intro)

lemma log_bind_loop: "sat rtr_log (bind_loop E ts s) l (\<lambda>_ l'. l' = l)"
  by (induction ts arbitrary: s) (auto intro!: sat_intro)

lemma log_client_qps: "sat rtr_log (client_qps E fd old qs) l (\<lambda>_ l'. l' = l)"
proof (induction qs arbitrary: old)
  case (Cons a qs)
  then show ?case by (auto intro!: sat_intro Cons.IH [THEN sat_conseq])
qed (auto intro!: sat_intro)

lemma log_server_qps: "sat rtr_log (server_qps E fd qs) l (\<lambda>_ l'. l' = l)"
  by (induction qs) (auto intro!: sat_intro elim!: sat_conseq)

lemma log_exchange_dests: "sat rtr_log (exchange_dests E k addrs x my) l (\<lambda>_ l'. l' = l)"
  unfolding exchange_dests_def client_exch_dest_def server_exch_dest_def open_client_def
    open_server_def client_talk_qps_def server_talk_qps_def out_label_def
  by (auto intro!: sat_intro log_connect_loop [THEN sat_conseq] log_bind_loop [THEN sat_conseq]
      log_client_qps [THEN sat_conseq] log_server_qps [THEN sat_conseq])

section \<open>exchange_remote_data, composed\<close>

text \<open>The LID the function reads from the port.\<close>

definition port_lid :: "api_env \<Rightarrow> intf_context \<Rightarrow> trace \<Rightarrow> u32" where
  "port_lid E x h =
     take_bit 16 (word_of_int (attr_in E h (Ibv (Query_port (x_context x) (x_ib_port_num x))) ''lid''))"

definition my_dest :: "api_env \<Rightarrow> intf_context \<Rightarrow> trace \<Rightarrow> ib_dest" where
  "my_dest E x h = local_dest (port_lid E x h) (x_qps_cqs x)"

text \<open>Queue pair numbers and first PSNs of 24 bits, as adapters give and \<open>create_qp\<close> draws them.\<close>

definition numbers_fit :: "intf_context \<Rightarrow> bool" where
  "numbers_fit x \<longleftrightarrow> (\<forall>qc \<in> set (x_qps_cqs x).
     unat (q_qp_num (qc_qp qc)) < 2 ^ 24 \<and> unat (q_psn (qc_qp qc)) < 2 ^ 24)"

lemma my_dest_fits: "numbers_fit x \<Longrightarrow> intf_fits (my_dest E x h)"
proof -
  assume n: "numbers_fit x"
  have "unat (take_bit 16 w :: u32) < 2 ^ 16" for w
    unfolding unsigned_take_bit_eq by (rule take_bit_nat_less_exp)
  then show ?thesis using n
    by (auto simp: my_dest_def local_dest_def intf_fits_def addr_fits_def addr_of_def port_lid_def
        zero_gid_def qps_of_def list_all_iff qp_fits_def numbers_fit_def zip_map_map zip_same)
qed

lemma wp_free_buffs: "(\<And>h'. Q (1, x) h') \<Longrightarrow> wp (free_buffs E p1 p2 p3 p4 x) Q h"
  by (simp add: free_buffs_def when_io_def)

lemma wp_exchange:
  assumes "\<And>h'. received h' = received h \<Longrightarrow> written h' = written h \<Longrightarrow> peerings h' = peerings h \<Longrightarrow>
      wp (exchange_dests E k addrs x (my_dest E x h))
        (\<lambda>d h'. \<forall>rem. d = Some rem \<longrightarrow> wp (connect_each E x (my_dest E x h) rem
            (length (x_qps_cqs x)) 0 (x_qps_cqs x)) (\<lambda>(r, _) h'. r = 0 \<longrightarrow> P h') h') h'"
  shows "wp (exchange_remote_data E k addrs x) (\<lambda>(r, _) h'. r = 0 \<longrightarrow> P h') h"
proof -
  have c: "wp (case d of None \<Rightarrow> free_buffs E p1 p2 p3 p4 x
      | Some rem \<Rightarrow> do { (r, qcs) \<leftarrow> connect_each E x (my_dest E x h) rem (length (x_qps_cqs x)) 0 (x_qps_cqs x);
          if r \<noteq> 0 then free_buffs E p1 p2 p3 p4 (x\<lparr>x_qps_cqs := qcs\<rparr>)
          else ret_io (0, x\<lparr>x_qps_cqs := qcs\<rparr>) }) (\<lambda>(r, _) h'. r = 0 \<longrightarrow> P h') h'"
    if "\<forall>rem. d = Some rem \<longrightarrow> wp (connect_each E x (my_dest E x h) rem
            (length (x_qps_cqs x)) 0 (x_qps_cqs x)) (\<lambda>(r, _) h'. r = 0 \<longrightarrow> P h') h'"
    for d p1 p2 p3 p4 h'
    using that by (cases d) (auto intro!: wp_free_buffs elim!: wp_conseq)
  show ?thesis
    unfolding exchange_remote_data_def Let_def
    by (auto intro!: wp_free_buffs wp_conseq [OF assms] c
        simp: my_dest_def [symmetric] port_lid_def [symmetric] simp del: wp_case_option)
qed

lemma writes_connect_each: "sat writes (connect_each E x my d n i qcs) q (\<lambda>_ q'. q' = q)"
  by (induction n arbitrary: i qcs)
    (auto intro!: sat_intro elim!: sat_conseq simp: connect_qp_def Let_def)

lemma wp_written:
  "sat writes m (written h) (\<lambda>r q'. R r q') \<Longrightarrow> wp m (\<lambda>r h'. R r (written h')) h"
  using wp_of_sat [of writes m "written h" R "[]" h] by (simp add: obs_writes)

lemma wp_peerings:
  "sat rtr_log m (peerings h) (\<lambda>r l. R r l) \<Longrightarrow> wp m (\<lambda>r h'. R r (peerings h')) h"
  using wp_of_sat [of rtr_log m "peerings h" R "[]" h] obs_rtr_log [of "[]"] by simp

text \<open>A success sends one's own destination, and connects to the destination received.\<close>

lemma exchange_writes:
  assumes "numbers_fit x" and "run_state (exchange_remote_data E k addrs x) h = ((0, x'), h')"
  shows "written h' = written h @ lines_of (x_servername x) (my_dest E x h)"
proof -
  have "wp (exchange_remote_data E k addrs x)
      (\<lambda>(r, _) h'. r = 0 \<longrightarrow> written h' = written h @ lines_of (x_servername x) (my_dest E x h)) h"
  proof (rule wp_exchange)
    fix h1 assume h1: "written h1 = written h"
    let ?P = "\<lambda>h'. written h' = written h @ lines_of (x_servername x) (my_dest E x h)"
    have c: "wp (connect_each E x (my_dest E x h) rem (length (x_qps_cqs x)) 0 (x_qps_cqs x))
        (\<lambda>(r, _) h'. r = 0 \<longrightarrow> ?P h') h2" if "?P h2" for rem h2
      using that by - (rule wp_conseq [OF wp_written [OF writes_connect_each]], auto)
    have "wp (exchange_dests E k addrs x (my_dest E x h)) (\<lambda>d h'. d \<noteq> None \<longrightarrow> ?P h') h1"
      using wp_written [OF writes_exchange_dests [OF my_dest_fits [OF assms(1)]]]
      unfolding h1 [symmetric] .
    then show "wp (exchange_dests E k addrs x (my_dest E x h)) (\<lambda>d h'. \<forall>rem. d = Some rem \<longrightarrow>
        wp (connect_each E x (my_dest E x h) rem (length (x_qps_cqs x)) 0 (x_qps_cqs x))
        (\<lambda>(r, _) h'. r = 0 \<longrightarrow> ?P h') h') h1"
      by (rule wp_conseq) (simp add: c)
  qed
  then show ?thesis using assms(2) by (auto dest: wpD)
qed

lemma exchange_connects:
  assumes "stream_fed E (concat (lines_of nm d))" and "received h = 0" and "intf_fits d"
    and "length (ib_qpn d) = length (x_qps_cqs x)" and "numbers_fit x"
    and "run_state (exchange_remote_data E k addrs x) h = ((0, x'), h')"
  shows "peerings h' = peerings h @ peered 0 (x_qps_cqs x) d"
proof -
  have l: "length (ib_qpn d) = length (qps_of (my_dest E x h))"
    using assms(4) by (simp add: qps_of_def my_dest_def local_dest_def)
  have "wp (exchange_remote_data E k addrs x)
      (\<lambda>(r, _) h'. r = 0 \<longrightarrow> peerings h' = peerings h @ peered 0 (x_qps_cqs x) d) h"
  proof (rule wp_exchange)
    fix h1 assume h1: "received h1 = received h" "peerings h1 = peerings h"
    have c: "wp (connect_each E x (my_dest E x h) d (length (x_qps_cqs x)) 0 (x_qps_cqs x))
        (\<lambda>(r, _) h'. r = 0 \<longrightarrow> peerings h' = peerings h @ peered 0 (x_qps_cqs x) d) h2"
      if "peerings h2 = peerings h" for h2
      unfolding that [symmetric] by (rule wp_conseq [OF wp_peerings [OF log_connect_each]]) auto
    have "wp (exchange_dests E k addrs x (my_dest E x h))
        (\<lambda>r h'. yields (kind_start E addrs) d r h' \<and> peerings h' = peerings h) h1"
      using wp_exchange_dests [OF assms(1) _ assms(3) l my_dest_fits [OF assms(5)], of h1 k addrs x]
        wp_peerings [OF log_exchange_dests, of E k addrs x "my_dest E x h" h1] h1 assms(2)
      by (simp add: wp_def split: prod.splits)
    then show "wp (exchange_dests E k addrs x (my_dest E x h)) (\<lambda>r h'. \<forall>rem. r = Some rem \<longrightarrow>
        wp (connect_each E x (my_dest E x h) rem (length (x_qps_cqs x)) 0 (x_qps_cqs x))
        (\<lambda>(r, _) h'. r = 0 \<longrightarrow> peerings h' = peerings h @ peered 0 (x_qps_cqs x) d) h') h1"
      by (rule wp_conseq) (auto simp: yields_def c)
  qed
  then show ?thesis using assms(6) by (auto dest: wpD)
qed

section \<open>Descriptors and memory\<close>

text \<open>A success keeps four blocks, a failure nothing.\<close>

definition exchange_bag ::
    "(res \<times> int) multiset \<Rightarrow> int \<times> intf_context \<Rightarrow> (res \<times> int) multiset \<Rightarrow> bool" where
  "exchange_bag M r M' \<longleftrightarrow> (if fst r = 0
     then \<exists>B. M' = M + B \<and> size B = 4 \<and> (\<forall>b \<in># B. fst b = Heap) else M' = M)"

lemma no_blocks: "exchange_bag M (1, x) M"
  by (simp add: exchange_bag_def)

lemma four_blocks:
  "exchange_bag M (0, x) (add_mset (Heap, p) (add_mset (Heap, q) (add_mset (Heap, r) (add_mset (Heap, s) M))))"
  by (simp add: exchange_bag_def exI [of _ "{#(Heap, p), (Heap, q), (Heap, r), (Heap, s)#}"])

lemma track_io:
  "track M (Libc (Write fd s)) r = Some M" "track M (Libc (Recv fd n)) r = Some M"
  "track M (Ibv (Modify_qp p a m)) r = Some M"
  by (simp_all add: track_simps)

lemma track_client_qps: "sat track (client_qps E fd old qs) M (\<lambda>_ M'. M' = M)"
proof (induction qs arbitrary: old)
  case (Cons a qs)
  then show ?case by (auto intro!: sat_intro Cons.IH [THEN sat_conseq] simp: track_io)
qed (auto intro!: sat_intro)

lemma track_server_qps: "sat track (server_qps E fd qs) M (\<lambda>_ M'. M' = M)"
  by (induction qs) (auto intro!: sat_intro elim!: sat_conseq simp: track_io)

lemma track_connect_each: "sat track (connect_each E x my d n i qcs) M (\<lambda>_ M'. M' = M)"
  by (induction n arbitrary: i qcs)
    (auto intro!: sat_intro elim!: sat_conseq simp: connect_qp_def Let_def track_io)

lemma track_exchange_dests: "sat track (exchange_dests E k addrs x my) M (\<lambda>_ M'. M' = M)"
proof -
  have "sat track (client_talk_qps E k my s) (add_mset (Fd, s) M) (\<lambda>_ M'. M' = M)" for s
    unfolding client_talk_qps_def out_label_def
    by (auto intro!: sat_intro track_client_qps [THEN sat_conseq] simp: track_simps)
  moreover have "sat track (server_talk_qps E k my s) (add_mset (Fd, s) M) (\<lambda>_ M'. M' = M)" for s
    unfolding server_talk_qps_def out_label_def
    by (auto intro!: sat_intro track_server_qps [THEN sat_conseq] simp: track_simps)
  ultimately show ?thesis
    unfolding exchange_dests_def client_exch_dest_def server_exch_dest_def
    by (auto intro!: sat_intro sat_open_client [THEN sat_conseq] sat_open_server [THEN sat_conseq]
        simp: opened_def split: option.split)
qed

lemma track_free_buffs:
  assumes "M' = M + filter_mset (\<lambda>b. snd b \<noteq> 0) {#(Heap, p1), (Heap, p2), (Heap, p3), (Heap, p4)#}"
  shows "sat track (free_buffs E p1 p2 p3 p4 x) M' (exchange_bag M)"
  using assms unfolding free_buffs_def
  by (auto intro!: sat_intro simp: track_simps exchange_bag_def)

lemma track_exchange: "sat track (exchange_remote_data E k addrs x) M (exchange_bag M)"
  unfolding exchange_remote_data_def Let_def
  by (auto intro!: sat_intro track_exchange_dests [THEN sat_conseq]
      track_connect_each [THEN sat_conseq] track_free_buffs four_blocks simp: track_simps no_blocks)

section \<open>Properties\<close>

text \<open>
  A kind network that delivers a stream in pieces as they are asked for, and a context with two
  queue pairs.
\<close>

definition stream_env :: "string \<Rightarrow> api_env" where
  "stream_env m = (net_env m)\<lparr>data_in := \<lambda>h c. drop (received h) m\<rparr>"

definition two_queues :: "string option \<Rightarrow> u32 \<Rightarrow> intf_context" where
  "two_queues nm n = zero_context\<lparr>x_servername := nm, x_qps_cqs :=
     [upd_qp (\<lambda>q. q\<lparr>q_qp := 100, q_qp_num := n, q_psn := n + 5\<rparr>) zero_qp_cq,
      upd_qp (\<lambda>q. q\<lparr>q_qp := 101, q_qp_num := n + 1, q_psn := n + 9\<rparr>) zero_qp_cq]\<rparr>"

definition no_junk :: intf_stack where
  "no_junk = \<lparr>jk_msg = [], jk_qp_msg = [], jk_gid = []\<rparr>"

lemma stream_env_kind: "kind (stream_env m)" "stream_fed (stream_env m) m"
  by (simp_all add: kind_def stream_fed_def stream_env_def net_env_def const_env_def)

lemma wp_kind_connect: "kind E \<Longrightarrow> wp (connect_each E x my d n i qcs) (\<lambda>(r, _) _. r = 0) h"
  by (induction n arbitrary: i qcs h) (simp_all add: connect_qp_def Let_def kind_ret)

lemma kind_exchange:
  assumes "kind_start E addrs" and "stream_fed E (concat (lines_of nm d))" and "received h = 0"
    and "intf_fits d" and "length (ib_qpn d) = length (x_qps_cqs x)" and "numbers_fit x"
  shows "wp (exchange_remote_data E k addrs x) (\<lambda>(r, _) _. r = 0) h"
proof -
  have k: "kind E" using assms(1) by (simp add: kind_start_def)
  have l: "length (ib_qpn d) = length (qps_of (my_dest E x h))"
    using assms(5) by (simp add: qps_of_def my_dest_def local_dest_def)
  have my: "my_dest E x h = local_dest 1 (x_qps_cqs x)"
    by (simp add: my_dest_def port_lid_def kind_ret [OF k])
  have e: "wp (exchange_dests E k addrs x (local_dest 1 (x_qps_cqs x))) (\<lambda>r _. r = Some d) h'"
    if "received h' = 0" for h'
    using wp_exchange_dests [OF assms(2) that assms(4) l my_dest_fits [OF assms(6)], of k addrs x]
    unfolding my by (rule wp_conseq) (simp add: yields_def assms(1))
  show ?thesis
    unfolding exchange_remote_data_def Let_def
    by (simp add: kind_ret [OF k], rule wp_conseq [OF e])
      (auto simp: assms(3) intro: wp_conseq [OF wp_kind_connect [OF k]])
qed

lemma kind_exchange_run:
  assumes "kind_start E addrs" and "stream_fed E (concat (lines_of nm d))" and "received h = 0"
    and "intf_fits d" and "length (ib_qpn d) = length (x_qps_cqs x)" and "numbers_fit x"
  obtains x' h' where "run_state (exchange_remote_data E k addrs x) h = ((0, x'), h')"
  using kind_exchange [OF assms, of k] that
  by (cases "run_state (exchange_remote_data E k addrs x) h") (auto simp: wp_def)

text \<open>
  C13: When \<open>exchange_remote_data\<close> succeeds on two hosts with the same number of queue pairs, over
  a TCP connection that delivers to each the bytes the other wrote, each host has moved its queue
  pairs to \<open>RTR\<close> in order, every one of them addressed to the queue pair with the same index on the
  other host, with that queue pair's number and first PSN and the other host's LID.
\<close>

theorem queue_pairs_paired:
  assumes "length (x_qps_cqs xa) = length (x_qps_cqs xb)" and "numbers_fit xa" and "numbers_fit xb"
    and a: "run_state (exchange_remote_data Ea ka ta xa) ha = ((0, xa'), ha')"
    and b: "run_state (exchange_remote_data Eb kb tb xb) hb = ((0, xb'), hb')"
    and "received ha = 0" and "received hb = 0" and "written ha = []" and "written hb = []"
    and "stream_fed Ea (concat (written hb'))" and "stream_fed Eb (concat (written ha'))"
  shows "peerings ha' = peerings ha @ peered 0 (x_qps_cqs xa) (my_dest Eb xb hb)
    \<and> peerings hb' = peerings hb @ peered 0 (x_qps_cqs xb) (my_dest Ea xa ha)"
proof -
  have l: "length (ib_qpn (my_dest E x h)) = length (x_qps_cqs x)" for E x h
    by (simp add: my_dest_def local_dest_def)
  note w = exchange_writes [OF assms(2) a] exchange_writes [OF assms(3) b]
  show ?thesis
    using assms w my_dest_fits [OF assms(2)] my_dest_fits [OF assms(3)]
      exchange_connects [OF _ assms(6) _ _ assms(2) a, of "x_servername xb" "my_dest Eb xb hb"]
      exchange_connects [OF _ assms(7) _ _ assms(3) b, of "x_servername xa" "my_dest Ea xa ha"]
    by (simp add: l)
qed

theorem queue_pairs_paired_witness:
  "\<exists>xa' ha' xb' hb'.
     run_state (exchange_remote_data (stream_env (concat (lines_of None (local_dest 1
        (x_qps_cqs (two_queues None 20)))))) no_junk [1] (two_queues (Some ''srv'') 10)) []
       = ((0, xa'), ha')
   \<and> run_state (exchange_remote_data (stream_env (concat (lines_of (Some ''srv'') (local_dest 1
        (x_qps_cqs (two_queues None 10)))))) no_junk [1] (two_queues None 20)) [] = ((0, xb'), hb')
   \<and> peerings ha' = [(100, 20, 25, 1), (101, 21, 29, 1)]
   \<and> peerings hb' = [(100, 10, 15, 1), (101, 11, 19, 1)]"
proof -
  let ?xa = "two_queues (Some ''srv'') 10" and ?xb = "two_queues None 20"
  let ?da = "local_dest 1 (x_qps_cqs (two_queues None 10))" and ?db = "local_dest 1 (x_qps_cqs ?xb)"
  let ?Ea = "stream_env (concat (lines_of None ?db))"
  let ?Eb = "stream_env (concat (lines_of (Some ''srv'') ?da))"
  have n: "numbers_fit ?xa" "numbers_fit ?xb"
    by (simp_all add: numbers_fit_def two_queues_def upd_qp_def)
  have m: "my_dest ?Ea ?xa [] = ?da" "my_dest ?Eb ?xb [] = ?db"
    by (simp_all add: my_dest_def port_lid_def kind_ret [OF stream_env_kind(1)] two_queues_def)
  have f: "intf_fits ?da" "intf_fits ?db"
    using my_dest_fits [OF n(1), of ?Ea "[]"] my_dest_fits [OF n(2), of ?Eb "[]"] m by simp_all
  have k: "kind_start (stream_env s) [1]" for s by (simp add: kind_start_def stream_env_kind)
  obtain xa' ha' where a: "run_state (exchange_remote_data ?Ea no_junk [1] ?xa) [] = ((0, xa'), ha')"
    by (rule kind_exchange_run [OF k stream_env_kind(2) _ f(2) _ n(1)])
      (auto simp: local_dest_def two_queues_def)
  obtain xb' hb' where b: "run_state (exchange_remote_data ?Eb no_junk [1] ?xb) [] = ((0, xb'), hb')"
    by (rule kind_exchange_run [OF k stream_env_kind(2) _ f(1) _ n(2)])
      (auto simp: local_dest_def two_queues_def)
  have w: "written ha' = lines_of (Some ''srv'') ?da" "written hb' = lines_of None ?db"
    using exchange_writes [OF n(1) a] exchange_writes [OF n(2) b] unfolding m
    by (simp_all add: two_queues_def)
  have "peerings ha' = peerings [] @ peered 0 (x_qps_cqs ?xa) ?db
      \<and> peerings hb' = peerings [] @ peered 0 (x_qps_cqs ?xb) ?da"
    using queue_pairs_paired [OF _ n a b] stream_env_kind(2) unfolding m w
    by (simp add: two_queues_def)
  then show ?thesis using a b
    by (simp add: peered_def two_queues_def local_dest_def upd_qp_def)
qed

text \<open>
  Whatever the network and the peer do, \<open>exchange_remote_data\<close> closes every descriptor it
  opened; it gives back the memory it allocated when it fails, and never when it succeeds: four
  blocks are then held that no variable points to.
\<close>

theorem exchange_leaks_on_success:
  assumes "held h = Some M" and "run_state (exchange_remote_data E k addrs x) h = (r, h')"
  shows "\<exists>M'. held h' = Some M' \<and> exchange_bag M r M'"
  by (rule satD [OF track_exchange assms])

theorem exchange_leaks_on_success_witness:
  "\<exists>M'. held (snd (run_state (exchange_remote_data (net_env []) no_junk [] zero_context) [])) = Some M'
     \<and> exchange_bag {#} (fst (run_state (exchange_remote_data (net_env []) no_junk [] zero_context) [])) M'"
  by (rule exchange_leaks_on_success [of "[]" "{#}"]) simp_all

end
