(* ===== verification/IntfMain.thy ===== *)
theory IntfMain
  imports IntfThreads IntfExchange
begin

text \<open>
  The command line and \<open>main\<close> of intf.c: \<open>str_to_cpu_set\<close>, \<open>parse_input\<close> and the order in which
  \<open>main\<close> makes and destroys the context, the resources and the connections.  The lemmas show what
  an accepted command line guarantees to the queues, and what a run leaves allocated.
\<close>

section \<open>str_to_cpu_set\<close>

text \<open>
  \<open>strchr(p, ']')\<close>: the text up to and with the bracket, and what follows it after the separator
  that is overwritten with a NUL; \<open>None\<close> is a null pointer.
\<close>

definition cut_set :: "string \<Rightarrow> string \<times> string option" where
  "cut_set p = (case dropWhile (\<lambda>c. c \<noteq> CHR '']'') p of
      [] \<Rightarrow> (p, None)
    | b # t \<Rightarrow> (takeWhile (\<lambda>c. c \<noteq> CHR '']'') p @ [b], Some (if t = [] then t else tl t)))"

text \<open>
  \<open>sscanf(p, "[%d..%d]", &min, &max) != 2\<close>: the closing bracket comes after the last conversion
  and is not asked for.
\<close>

definition scan_cpu_set :: "string \<Rightarrow> (int \<times> int) option" where
  "scan_cpu_set p = (case scan_lit ''['' p of None \<Rightarrow> None
     | Some s \<Rightarrow> (case scan_d s of None \<Rightarrow> None
         | Some (mn, s) \<Rightarrow> (case scan_lit ''..'' s of None \<Rightarrow> None
             | Some s \<Rightarrow> map_option (\<lambda>(mx, _). (mn, mx)) (scan_d s))))"

fun read_sets :: "nat \<Rightarrow> string option \<Rightarrow> cpu_set list option" where
  "read_sets 0 p = Some []"
| "read_sets (Suc n) None = Some []"
| "read_sets (Suc n) (Some p) =
    (if p = [] then Some []
     else case cut_set p of (q, t) \<Rightarrow>
       (case scan_cpu_set q of None \<Rightarrow> None
        | Some (mn, mx) \<Rightarrow> if mn > mx then None
            else map_option ((#) \<lparr>cpu_min = mn, cpu_max = mx\<rparr>) (read_sets n t)))"

text \<open>\<open>None\<close> is the return value 1.\<close>

definition str_to_cpu_set :: "string \<Rightarrow> cpu_set list option" where
  "str_to_cpu_set str =
    (if length str \<ge> 64 then None
     else case read_sets MAX_CPU_SETS (Some str) of None \<Rightarrow> None
       | Some sets \<Rightarrow> if sets = [] then None else Some sets)"

text \<open>The list as \<open>usage\<close> prints it.\<close>

definition print_cpu_set :: "cpu_set \<Rightarrow> string" where
  "print_cpu_set s = ''['' @ print_d (cpu_min s) @ ''..'' @ print_d (cpu_max s) @ '']''"

fun print_cpu_sets :: "cpu_set list \<Rightarrow> string" where
  "print_cpu_sets [] = []"
| "print_cpu_sets [s] = print_cpu_set s"
| "print_cpu_sets (s # ss) = print_cpu_set s @ '','' @ print_cpu_sets ss"

section \<open>parse_input\<close>

definition upd_server :: "(server_data \<Rightarrow> server_data) \<Rightarrow> intf_input \<Rightarrow> intf_input" where
  "upd_server f i = i\<lparr>server_data := f (server_data i)\<rparr>"

definition upd_ib :: "(ib_data \<Rightarrow> ib_data) \<Rightarrow> intf_input \<Rightarrow> intf_input" where
  "upd_ib f i = i\<lparr>ib_data := f (ib_data i)\<rparr>"

definition upd_qpp :: "(qp_params \<Rightarrow> qp_params) \<Rightarrow> intf_input \<Rightarrow> intf_input" where
  "upd_qpp f i = i\<lparr>qp_prms := f (qp_prms i)\<rparr>"

definition upd_sendp :: "(send_params \<Rightarrow> send_params) \<Rightarrow> intf_input \<Rightarrow> intf_input" where
  "upd_sendp f i = i\<lparr>send_prms := f (send_prms i)\<rparr>"

definition upd_thr :: "(thread_params \<Rightarrow> thread_params) \<Rightarrow> intf_input \<Rightarrow> intf_input" where
  "upd_thr f i = i\<lparr>thread_prms := f (thread_prms i)\<rparr>"

lemmas upd_defs = upd_server_def upd_ib_def upd_qpp_def upd_sendp_def upd_thr_def

definition send_verb :: "string \<Rightarrow> input_send_intf option" where
  "send_verb s =
    (if s = ''S_NORM'' then Some IN_NORMAL_SEND_INTF
     else if s = ''S_PEND'' then Some IN_ACC_SEND_PENDING_INTF
     else if s = ''S_PEND_INL'' then Some IN_ACC_SEND_PENDING_INL_INTF
     else if s = ''S_PEND_SG_LIST'' then Some IN_ACC_SEND_PENDING_SG_LIST_INTF
     else if s = ''S_BURST'' then Some IN_ACC_SEND_BURST_INTF else None)"

definition recv_verb :: "string \<Rightarrow> input_recv_intf option" where
  "recv_verb s =
    (if s = ''R_NORM'' then Some IN_NORMAL_RECV_INTF
     else if s = ''R_BURST'' then Some IN_ACC_RECV_BURST_INTF else None)"

definition poll_verb :: "string \<Rightarrow> input_poll_intf option" where
  "poll_verb s =
    (if s = ''P_NORM'' then Some IN_NORMAL_POLL_INTF
     else if s = ''P_CNT'' then Some IN_ACC_POLL_CNT_INTF
     else if s = ''P_LEN'' then Some IN_ACC_POLL_LENGTH_INTF else None)"

text \<open>
  One option: the character \<open>getopt_long\<close> returned and \<open>optarg\<close>.  \<open>None\<close> is \<open>goto print_usage\<close>.
  \<open>size\<close> is an \<open>unsigned long long\<close> and \<open>mtu\<close> an unsigned enumeration: their tests for
  negative values are made as the code has them.
\<close>

definition parse_arg :: "char \<times> string \<Rightarrow> intf_input \<Rightarrow> intf_input option" where
  "parse_arg ca i = (case ca of (c, optarg) \<Rightarrow> let tmp = strtol_int optarg in
     if c = CHR ''p'' then
       (if tmp < 0 \<or> tmp > 65535 then None else Some (upd_server (\<lambda>d. d\<lparr>server_port := tmp\<rparr>) i))
     else if c = CHR ''d'' then
       (if length optarg \<ge> MAX_DEV_NAME_SIZE - 1 then None
        else Some (upd_ib (\<lambda>d. d\<lparr>pr_dev_name := optarg\<rparr>) i))
     else if c = CHR ''i'' then
       (if tmp < 0 then None else Some (upd_ib (\<lambda>d. d\<lparr>pr_ib_port_num := tmp\<rparr>) i))
     else if c = CHR ''s'' then
       (let sz = word_of_int (strtol0 optarg) :: u64 in
        if sz < 0 \<or> sz > 0x10000 then None
        else Some (upd_sendp (\<lambda>d. d\<lparr>pr_msg_size := uint sz\<rparr>) i))
     else if c = CHR ''m'' then
       (let mtu = mtu_to_enum tmp in
        if mtu < (0 :: u32) then None else Some (upd_ib (\<lambda>d. d\<lparr>pr_mtu := mtu\<rparr>) i))
     else if c = CHR ''r'' then Some (upd_qpp (\<lambda>d. d\<lparr>pr_max_recv_wr := tmp\<rparr>) i)
     else if c = CHR ''n'' then Some (upd_sendp (\<lambda>d. d\<lparr>num_qp_msgs := tmp\<rparr>) i)
     else if c = CHR ''l'' then Some (upd_ib (\<lambda>d. d\<lparr>pr_sl := tmp\<rparr>) i)
     else if c = CHR ''t'' then
       (if tmp > MAX_INLINE_RECV then None else Some (upd_qpp (\<lambda>d. d\<lparr>pr_max_inl_recv_data := tmp\<rparr>) i))
     else if c = CHR ''S'' then
       map_option (\<lambda>v. upd_qpp (\<lambda>d. d\<lparr>verbs_send_intf := v\<rparr>) i) (send_verb optarg)
     else if c = CHR ''R'' then
       map_option (\<lambda>v. upd_qpp (\<lambda>d. d\<lparr>verbs_recv_intf := v\<rparr>) i) (recv_verb optarg)
     else if c = CHR ''P'' then
       map_option (\<lambda>v. upd_qpp (\<lambda>d. d\<lparr>verbs_recv_poll_intf := v, verbs_send_poll_intf := v\<rparr>) i)
         (poll_verb optarg)
     else if c = CHR ''c'' then
       map_option (\<lambda>s. upd_thr (\<lambda>d. d\<lparr>cpu_sets := s\<rparr>) i) (str_to_cpu_set optarg)
     else if c = CHR ''b'' then
       (if tmp < 0 \<or> tmp > 65535 then None else Some (upd_qpp (\<lambda>d. d\<lparr>pr_wr_burst := tmp\<rparr>) i))
     else if c = CHR ''T'' then
       (if tmp < 0 \<or> tmp > 65535 then None else Some (upd_thr (\<lambda>d. d\<lparr>pr_num_threads := tmp\<rparr>) i))
     else if c = CHR ''C'' then Some (upd_ib (\<lambda>d. d\<lparr>pr_check_data := True\<rparr>) i)
     else if c = CHR ''A'' then Some (upd_ib (\<lambda>d. d\<lparr>pr_use_res_domain := False\<rparr>) i)
     else None)"

fun parse_args :: "(char \<times> string) list \<Rightarrow> intf_input \<Rightarrow> intf_input option" where
  "parse_args [] i = Some i"
| "parse_args (ca # cas) i = (case parse_arg ca i of None \<Rightarrow> None | Some i' \<Rightarrow> parse_args cas i')"

text \<open>A host name that is empty or too long is dropped without a message.\<close>

definition take_server :: "string list \<Rightarrow> intf_input \<Rightarrow> intf_input option" where
  "take_server args i =
    (if length args = 1 then
       Some (if length (hd args) > 0 \<and> length (hd args) < MAX_SERVER_NAME_SIZE - 1
             then upd_server (\<lambda>d. d\<lparr>server_name := hd args\<rparr>) i else i)
     else if 0 < length args then None else Some i)"

text \<open>The checks after the options; the remainder by a burst of 0 stops the process.\<close>

definition check_input :: "intf_input \<Rightarrow> fault + bool" where
  "check_input i = (let q = qp_prms i; b = pr_wr_burst q in
     if is_send i \<and> b * 2 \<ge> pr_max_send_wr q then Inr False
     else if \<not> is_send i \<and> b * 2 \<ge> pr_max_recv_wr q then Inr False
     else if b = 0 then Inl Division_by_zero
     else if is_send i \<and> c_rem (pr_max_send_wr q) b \<noteq> 0 then Inr False
     else if \<not> is_send i \<and> c_rem (pr_max_recv_wr q) b \<noteq> 0 then Inr False
     else if is_send i \<and> verbs_send_poll_intf q = IN_ACC_POLL_LENGTH_INTF then Inr False
     else Inr True)"

text \<open>\<open>Inr None\<close> is the return value 1, \<open>Inr (Some i)\<close> the value 0 with \<open>*input = i\<close>.\<close>

definition parse_input ::
    "intf_input \<Rightarrow> (char \<times> string) list \<Rightarrow> string list \<Rightarrow> fault + intf_input option" where
  "parse_input default_input opts args =
    (case parse_args opts default_input of None \<Rightarrow> Inr None
     | Some i \<Rightarrow> (case take_server args i of None \<Rightarrow> Inr None
         | Some i \<Rightarrow> (case check_input i of Inl e \<Rightarrow> Inl e
             | Inr ok \<Rightarrow> Inr (if ok then Some i else None))))"

section \<open>main\<close>

text \<open>The labels, each followed by the next, with the value to return.\<close>

definition lbl_free_ctx :: "api_env \<Rightarrow> ptr \<Rightarrow> int \<Rightarrow> (fault + int) prog" where
  "lbl_free_ctx E ctx r = do { invoke E (Libc (Free ctx)); ret_io (Inr r) }"

definition lbl_destroy_context ::
    "api_env \<Rightarrow> ptr \<Rightarrow> intf_context \<Rightarrow> int \<Rightarrow> (fault + int) prog" where
  "lbl_destroy_context E ctx x r = do { destroy_context E x; lbl_free_ctx E ctx r }"

definition lbl_destroy_resources ::
    "api_env \<Rightarrow> ptr \<Rightarrow> intf_context \<Rightarrow> int \<Rightarrow> (fault + int) prog" where
  "lbl_destroy_resources E ctx x r = do {
     x \<leftarrow> destroy_resources E x;
     lbl_destroy_context E ctx x r }"

text \<open>
  \<open>devs\<close>, \<open>page\<close>, \<open>addrs\<close> and \<open>k\<close> stand for the device list, the page size, the addresses
  \<open>getaddrinfo\<close> finds and the stack of the exchange.
\<close>

definition intf_main_run ::
    "api_env \<Rightarrow> (string \<times> ptr) list \<Rightarrow> int \<Rightarrow> intf_stack \<Rightarrow> ptr list \<Rightarrow> ptr \<Rightarrow> intf_context
      \<Rightarrow> (fault + int) prog" where
  "intf_main_run E devs page k addrs ctx x = do {
     (r, x) \<leftarrow> create_resources E devs page x;
     if r \<noteq> 0 then lbl_destroy_context E ctx x 1
     else do {
       (r, x) \<leftarrow> exchange_remote_data E k addrs x;
       if r \<noteq> 0 then lbl_destroy_resources E ctx x 1
       else do {
         (r, x) \<leftarrow> run_threads E x;
         if r \<noteq> 0 then lbl_destroy_resources E ctx x 1
         else lbl_destroy_resources E ctx x 0 } } }"

definition intf_main ::
    "api_env \<Rightarrow> (string \<times> ptr) list \<Rightarrow> int \<Rightarrow> intf_stack \<Rightarrow> ptr list \<Rightarrow> (char \<times> string) list
      \<Rightarrow> string list \<Rightarrow> (fault + int) prog" where
  "intf_main E devs page k addrs opts args = (case parse_input intf_default_input opts args of
      Inl e \<Rightarrow> ret_io (Inl e)
    | Inr None \<Rightarrow> ret_io (Inr 1)
    | Inr (Some input) \<Rightarrow> do {
        ctx \<leftarrow> invoke E (Libc (Calloc ''intf_context''));
        if ctx = 0 then ret_io (Inr 1)
        else do {
          c \<leftarrow> create_context E input zero_context;
          case c of Inl e \<Rightarrow> ret_io (Inl e)
          | Inr (r, x) \<Rightarrow>
              if r \<noteq> 0 then lbl_free_ctx E ctx 1
              else intf_main_run E devs page k addrs ctx x } })"

section \<open>The list of CPUs\<close>

lemma scan_d_print:
  assumes "- (2 ^ 31) \<le> x" and "x < 2 ^ 31" and "t = [] \<or> \<not> digit_val (hd t) < 10"
  shows "scan_d (print_d x @ t) = Some (x, t)"
proof -
  have c: "to_int32 (clamp_long x) = x"
    using assms(1,2) by (simp add: clamp_long_def to_int32_id)
  have d: "digits 10 (print_base 10 n @ t) = print_base 10 n"
    "after_digits 10 (print_base 10 n @ t) = t"
    "dropWhile is_space (print_base 10 n @ t) = print_base 10 n @ t"
    "sign (print_base 10 n @ t) = (False, print_base 10 n @ t)"
    "num 10 (print_base 10 n) = n" "print_base 10 n \<noteq> []" for n
    using digits_append [OF print_base_digits, of 10 t n] assms(3) num_print_base [of 10 n]
      digit_string_start [OF print_base_digits _ print_base_nonempty, of 10 n t] print_base_nonempty
    by simp_all
  have "\<not> is_space (CHR ''-'')" by (simp add: is_space_def)
  then show ?thesis using c
    by (cases "x < 0") (simp_all add: scan_d_def print_d_def d signed_def)
qed

lemma no_bracket: "CHR '']'' \<notin> set (print_d x)"
proof -
  have "CHR '']'' \<notin> set (print_base 10 n)" for n
    using digit_string_char(1) [OF print_base_digits [of 10 n], of "CHR '']''"] by (auto simp: digit_val_def)
  then show ?thesis by (simp add: print_d_def)
qed

lemma cut_print: "cut_set (print_cpu_set s @ t) = (print_cpu_set s, Some (if t = [] then t else tl t))"
proof -
  let ?p = "''['' @ print_d (cpu_min s) @ ''..'' @ print_d (cpu_max s)"
  have p: "\<And>c. c \<in> set ?p \<Longrightarrow> c \<noteq> CHR '']''" using no_bracket by auto
  have "takeWhile (\<lambda>c. c \<noteq> CHR '']'') (?p @ CHR '']'' # t) = ?p"
    by (subst takeWhile_append2) (rule p, simp_all)
  moreover have "dropWhile (\<lambda>c. c \<noteq> CHR '']'') (?p @ CHR '']'' # t) = CHR '']'' # t"
    by (subst dropWhile_append2) (rule p, simp_all)
  ultimately show ?thesis by (simp add: cut_set_def print_cpu_set_def)
qed

definition set_fits :: "cpu_set \<Rightarrow> bool" where
  "set_fits s \<longleftrightarrow> - (2 ^ 31) \<le> cpu_min s \<and> cpu_min s \<le> cpu_max s \<and> cpu_max s < 2 ^ 31"

lemma scan_print_cpu_set:
  assumes "set_fits s"
  shows "scan_cpu_set (print_cpu_set s) = Some (cpu_min s, cpu_max s)"
  using assms scan_d_print [of "cpu_min s" "''..'' @ print_d (cpu_max s) @ '']''"]
    scan_d_print [of "cpu_max s" "'']''"]
  by (simp add: scan_cpu_set_def print_cpu_set_def set_fits_def digit_val_def)

lemma print_cpu_set_nonempty [simp]: "print_cpu_set s \<noteq> []" "print_cpu_set s @ t \<noteq> []"
  by (simp_all add: print_cpu_set_def)

lemma read_print_sets:
  "list_all set_fits ss \<Longrightarrow> length ss \<le> n \<Longrightarrow> read_sets n (Some (print_cpu_sets ss)) = Some ss"
proof (induction ss arbitrary: n rule: print_cpu_sets.induct)
  case 1
  then show ?case by (cases n) simp_all
next
  case (2 s)
  then obtain m where "n = Suc m" by (cases n) auto
  moreover have "read_sets m (Some []) = Some []" by (cases m) simp_all
  ultimately show ?case
    using 2 cut_print [of s "[]"] scan_print_cpu_set [of s] by (simp add: set_fits_def)
next
  case (3 s s' ss)
  then obtain m where "n = Suc m" by (cases n) auto
  then show ?case
    using 3 cut_print [of s "'','' @ print_cpu_sets (s' # ss)"] scan_print_cpu_set [of s]
    by (simp add: set_fits_def)
qed

lemma read_sets_sound:
  "read_sets n p = Some ss \<Longrightarrow> length ss \<le> n \<and> (\<forall>s \<in> set ss. cpu_min s \<le> cpu_max s)"
proof (induction n p arbitrary: ss rule: read_sets.induct)
  case (3 n p)
  then show ?case by (auto split: if_splits option.splits prod.splits)
qed simp_all

section \<open>What an accepted command line guarantees\<close>

definition sound_input :: "intf_input \<Rightarrow> bool" where
  "sound_input i \<longleftrightarrow> 0 \<le> server_port (server_data i) \<and> server_port (server_data i) \<le> 65535
     \<and> length (server_name (server_data i)) < MAX_SERVER_NAME_SIZE
     \<and> length (pr_dev_name (ib_data i)) < MAX_DEV_NAME_SIZE \<and> 0 \<le> pr_ib_port_num (ib_data i)
     \<and> 0 \<le> pr_msg_size (send_prms i) \<and> pr_msg_size (send_prms i) \<le> MAX_MSG_SIZE
     \<and> num_qp_msgs (send_prms i) < 2 ^ 31
     \<and> 0 \<le> pr_wr_burst (qp_prms i) \<and> pr_wr_burst (qp_prms i) \<le> 65535
     \<and> pr_max_send_wr (qp_prms i) < 2 ^ 31 \<and> pr_max_recv_wr (qp_prms i) < 2 ^ 31
     \<and> pr_max_inl_recv_data (qp_prms i) \<le> MAX_INLINE_RECV
     \<and> 0 \<le> pr_num_threads (thread_prms i) \<and> pr_num_threads (thread_prms i) \<le> 65535
     \<and> cpu_sets (thread_prms i) \<noteq> [] \<and> length (cpu_sets (thread_prms i)) \<le> MAX_CPU_SETS
     \<and> (\<forall>s \<in> set (cpu_sets (thread_prms i)). cpu_min s \<le> cpu_max s)"

lemma sound_default: "sound_input intf_default_input"
  by (simp add: sound_input_def intf_default_input_def MAX_SERVER_NAME_SIZE_def MAX_DEV_NAME_SIZE_def
      MAX_MSG_SIZE_def MAX_INLINE_RECV_def MAX_CPU_SETS_def)

lemma str_to_cpu_set_sound:
  "str_to_cpu_set a = Some ss \<Longrightarrow> ss \<noteq> [] \<and> length ss \<le> MAX_CPU_SETS \<and> (\<forall>s \<in> set ss. cpu_min s \<le> cpu_max s)"
  using read_sets_sound by (auto simp: str_to_cpu_set_def split: if_splits option.splits)

lemma strtol_int_less: "strtol_int a < 2 ^ 31"
  by (simp only: strtol_int_def to_int32_range)

text \<open>What an option leaves is sound, whichever branch is taken.\<close>

definition sound_if :: "intf_input option \<Rightarrow> bool" where
  "sound_if r \<longleftrightarrow> (case r of None \<Rightarrow> True | Some i \<Rightarrow> sound_input i)"

lemma sound_if_intros:
  "sound_if None"
  "sound_input i \<Longrightarrow> sound_if (Some i)"
  "(b \<Longrightarrow> sound_if r) \<Longrightarrow> (\<not> b \<Longrightarrow> sound_if r') \<Longrightarrow> sound_if (if b then r else r')"
  "(\<And>v. x = Some v \<Longrightarrow> sound_input (f v)) \<Longrightarrow> sound_if (map_option f x)"
  by (auto simp: sound_if_def split: option.split)

lemma parse_arg_sound: "sound_input i \<Longrightarrow> sound_if (parse_arg (c, a) i)"
proof -
  assume i: "sound_input i"
  have s: "uint w \<le> MAX_MSG_SIZE" if "\<not> 0x10000 < w" for w :: u64
    using that by (simp add: word_less_alt MAX_MSG_SIZE_def)
  note l = strtol_int_less [of a]
  show ?thesis
    unfolding parse_arg_def Let_def prod.case
    by (intro sound_if_intros)
      (use i l in \<open>auto simp: sound_input_def upd_defs intro: s dest!: str_to_cpu_set_sound\<close>)
qed

lemma parse_args_sound: "sound_input i \<Longrightarrow> parse_args opts i = Some i' \<Longrightarrow> sound_input i'"
proof (induction opts arbitrary: i)
  case (Cons ca cas)
  then obtain j where j: "parse_arg ca i = Some j" "parse_args cas j = Some i'"
    by (auto split: option.splits)
  obtain c a where "ca = (c, a)" by force
  then have "sound_input j" using parse_arg_sound [OF Cons.prems(1), of c a] j(1)
    by (simp add: sound_if_def)
  then show ?case using Cons.IH j(2) by blast
qed simp

lemma take_server_sound: "sound_input i \<Longrightarrow> take_server args i = Some i' \<Longrightarrow> sound_input i'"
  by (auto simp: take_server_def sound_input_def upd_defs MAX_SERVER_NAME_SIZE_def split: if_splits)

text \<open>The size of the ring the program posts to.\<close>

definition ring :: "intf_input \<Rightarrow> int" where
  "ring i = (if is_send i then pr_max_send_wr (qp_prms i) else pr_max_recv_wr (qp_prms i))"

definition ring_ok :: "intf_input \<Rightarrow> bool" where
  "ring_ok i \<longleftrightarrow> 0 < pr_wr_burst (qp_prms i) \<and> 2 * pr_wr_burst (qp_prms i) < ring i
     \<and> pr_wr_burst (qp_prms i) dvd ring i
     \<and> \<not> (is_send i \<and> verbs_send_poll_intf (qp_prms i) = IN_ACC_POLL_LENGTH_INTF)"

lemma check_input_iff:
  assumes "0 \<le> pr_wr_burst (qp_prms i)"
  shows "check_input i = Inr True \<longleftrightarrow> ring_ok i"
proof (cases "pr_wr_burst (qp_prms i) = 0 \<or> 2 * pr_wr_burst (qp_prms i) \<ge> ring i")
  case True
  then show ?thesis using assms by (auto simp: check_input_def ring_ok_def ring_def Let_def)
next
  case False
  then have "0 < pr_wr_burst (qp_prms i)" "0 \<le> ring i" using assms by auto
  then have "c_rem (ring i) (pr_wr_burst (qp_prms i)) = 0 \<longleftrightarrow> pr_wr_burst (qp_prms i) dvd ring i"
    by (simp add: dvd_eq_mod_eq_0)
  then show ?thesis using False assms
    by (cases "is_send i") (auto simp: check_input_def ring_ok_def ring_def Let_def)
qed

lemma parse_input_sound:
  assumes "sound_input d" and "parse_input d opts args = Inr (Some i)"
  shows "sound_input i \<and> ring_ok i"
proof -
  obtain j where "parse_args opts d = Some j" "take_server args j = Some i"
      "check_input i = Inr True"
    using assms(2) by (auto simp: parse_input_def split: option.splits sum.splits if_splits)
  moreover from this have "sound_input i"
    using parse_args_sound [OF assms(1)] take_server_sound by blast
  ultimately show ?thesis using check_input_iff [of i] by (simp add: sound_input_def)
qed

text \<open>
  The buffer of a queue pair: a registered region with a slot for every message of the ring, one behind
  the other, the entries of the scatter list that name the slots, and the requests, each with its
  entry and chained to the next one up to the end of its burst.
\<close>

definition stride :: "intf_input \<Rightarrow> int" where
  "stride i = max (pr_msg_size (send_prms i)) 64"

definition request_of :: "bool \<Rightarrow> qp_data \<Rightarrow> nat \<Rightarrow> sge list \<times> bool" where
  "request_of send q j = (if send then (swr_sges (fst (q_send_wr q ! j)), snd (q_send_wr q ! j))
     else (rwr_sges (fst (q_recv_wr q ! j)), snd (q_recv_wr q ! j)))"

definition buffer_ready :: "intf_context \<Rightarrow> intf_input \<Rightarrow> qp_data \<Rightarrow> trace \<Rightarrow> bool" where
  "buffer_ready x i q h \<longleftrightarrow> q_buf q \<noteq> 0
     \<and> (\<exists>m. m \<noteq> 0 \<and> (Ibv (Reg_mr (x_pd x) (q_buf q) (ring i * stride i) {LOCAL_WRITE}), m) \<in> set h)
     \<and> (\<forall>j. int j < ring i \<longrightarrow>
          q_sg_list q ! j = \<lparr>sg_addr = q_buf q + int j * stride i, sg_length = pr_msg_size (send_prms i), sg_lkey = q_mr_lkey q\<rparr>
          \<and> request_of (is_send i) q j = ([q_sg_list q ! j], (int j + 1) mod pr_wr_burst (qp_prms i) \<noteq> 0))"

text \<open>Rules that name what a call answered, for a step whose later calls mention the answer.\<close>

lemma wp_step:
  "(\<And>r. wp (k r) Q ((c, r) # h)) \<Longrightarrow> wp (State_Monad.bind (invoke E c) k) Q h"
  "(\<And>r a. wp (k' (r, a)) Q ((c, r) # h)) \<Longrightarrow> wp (State_Monad.bind (invoke_attr E c) k') Q h"
  "(b \<Longrightarrow> wp m Q h) \<Longrightarrow> (\<not> b \<Longrightarrow> wp m' Q h) \<Longrightarrow> wp (if b then m else m') Q h"
  by simp_all

text \<open>What a step that returns 0 leaves; the labels return 1.\<close>

definition if_zero :: "('a \<Rightarrow> trace \<Rightarrow> bool) \<Rightarrow> int \<times> 'a \<Rightarrow> trace \<Rightarrow> bool" where
  "if_zero Q r h \<longleftrightarrow> (fst r = 0 \<longrightarrow> Q (snd r) h)"

lemma if_zero_pair [simp]: "if_zero Q (0, a) h = Q a h" "if_zero Q (1, a) h"
  by (simp_all add: if_zero_def)

lemma wp_labels [simp]:
  "wp (lbl_clean_qp E qc) (if_zero Q) h" "wp (lbl_destroy_qp E qc) (if_zero Q) h"
  "wp (lbl_free_buf E qc) (if_zero Q) h" "wp (lbl_dereg_mr E qc) (if_zero Q) h"
  by (simp_all add: lbl_defs when_io_def)

lemma wp_create_cq:
  "wp (create_cq E x qc) (if_zero (\<lambda>qc' _. qc_qp qc' = qc_qp qc \<and> qc_idx qc' = qc_idx qc
     \<and> c_wc_burst (qc_cq qc') = c_wc_burst (qc_cq qc))) h"
  by (simp add: create_cq_def free_wc_def upd_cq_def Let_def)

text \<open>A queue pair as \<open>create_qp\<close> leaves it: its parameters, its registered buffer, its arrays.\<close>

definition registered :: "intf_context \<Rightarrow> qp_data \<Rightarrow> trace \<Rightarrow> bool" where
  "registered x q h \<longleftrightarrow> q_buf q \<noteq> 0 \<and> (\<exists>m. m \<noteq> 0
     \<and> (Ibv (Reg_mr (x_pd x) (q_buf q) (to_int32 (q_max_wrs q * q_msg_stride q) mod 2 ^ 64) {LOCAL_WRITE}), m) \<in> set h)"

definition same_params :: "qp_data \<Rightarrow> qp_data \<Rightarrow> bool" where
  "same_params q q' \<longleftrightarrow> q_msg_size q' = q_msg_size q \<and> q_max_wrs q' = q_max_wrs q
     \<and> q_wr_burst q' = q_wr_burst q \<and> q_num_msgs q' = q_num_msgs q \<and> q_intf q' = q_intf q
     \<and> q_msg_stride q' = mmax (q_msg_size q) 64"

definition queue_made :: "intf_context \<Rightarrow> qp_cq_data \<Rightarrow> qp_cq_data \<Rightarrow> trace \<Rightarrow> bool" where
  "queue_made x qc qc' h \<longleftrightarrow> qc_cq qc' = qc_cq qc \<and> same_params (qc_qp qc) (qc_qp qc') \<and> registered x (qc_qp qc') h
     \<and> (\<exists>q0 f. qc_qp qc' = (prep_arrays (x_is_send x) (qc_idx qc) q0)\<lparr>q_burst_family := f\<rparr>)"

lemma registered_mono: "registered x q h \<Longrightarrow> set h \<subseteq> set h' \<Longrightarrow> registered x q h'"
  by (auto simp: registered_def)

lemma registered_arrays [simp]:
  "registered x (prep_arrays s k q) h = registered x q h" "registered x (q\<lparr>q_burst_family := f\<rparr>) h = registered x q h"
  by (simp_all add: registered_def)

lemma same_params_arrays [simp]:
  "same_params q0 (prep_arrays s k q) = same_params q0 q" "same_params q0 (q\<lparr>q_burst_family := f\<rparr>) = same_params q0 q"
  by (simp_all add: same_params_def)

lemma own_family: "\<exists>q0 f. prep_arrays s k q = (prep_arrays s k q0)\<lparr>q_burst_family := f\<rparr>"
  by (rule exI [of _ q], rule exI [of _ "q_burst_family (prep_arrays s k q)"]) simp

lemma registered_now:
  "q_buf q \<noteq> 0 \<Longrightarrow> m \<noteq> 0 \<Longrightarrow> registered x q
     ((Ibv (Reg_mr (x_pd x) (q_buf q) (to_int32 (q_max_wrs q * q_msg_stride q) mod 2 ^ 64) {LOCAL_WRITE}), m) # h)"
  by (auto simp: registered_def)

lemma wp_create_qp_ready:
  assumes "qc_cq qc' = qc_cq qc" "qc_idx qc' = qc_idx qc" "same_params (qc_qp qc) (qc_qp qc')" "registered x (qc_qp qc') h"
  shows "wp (create_qp_ready E x qc') (if_zero (queue_made x qc)) h"
proof -
  let ?a = "prep_arrays (x_is_send x) (qc_idx qc) (qc_qp qc')"
  have r: "registered x (qc_qp qc') (c # h)" "registered x (qc_qp qc') (c # d # h)" for c d
    using assms(4) by (auto intro: registered_mono)
  have "queue_made x qc (qc'\<lparr>qc_qp := ?a\<lparr>q_burst_family := f\<rparr>\<rparr>) (c # d # h)"
    "queue_made x qc (qc'\<lparr>qc_qp := ?a\<rparr>) (c # h)" for f c d
    using assms r own_family [of "x_is_send x" "qc_idx qc" "qc_qp qc'"] by (auto simp: queue_made_def)
  then show ?thesis by (simp add: create_qp_ready_def upd_qp_def Let_def assms(2))
qed

lemma wp_create_qp_buf:
  assumes "qc_cq qc' = qc_cq qc" "qc_idx qc' = qc_idx qc"
    and "same_params (qc_qp qc) ((qc_qp qc')\<lparr>q_msg_stride := mmax (q_msg_size (qc_qp qc')) 64\<rparr>)"
  shows "wp (create_qp_buf E x page qc') (if_zero (queue_made x qc)) h"
proof -
  have n: "wp (create_qp_ready E x (qc'\<lparr>qc_qp := q\<rparr>)) (if_zero (queue_made x qc)) g"
    if "same_params (qc_qp qc) q" "registered x q g" for q g
    using assms that by (intro wp_create_qp_ready) simp_all
  let ?q = "\<lambda>b m k. (qc_qp qc')\<lparr>q_msg_stride := mmax (q_msg_size (qc_qp qc')) 64, q_buf := b, q_mr := m, q_mr_lkey := k\<rparr>"
  have s: "same_params (qc_qp qc) (?q b m k)" for b m k
    using assms(3) by (simp add: same_params_def)
  have r: "b \<noteq> 0 \<Longrightarrow> m \<noteq> 0 \<Longrightarrow> wp (create_qp_ready E x (qc'\<lparr>qc_qp := ?q b m k\<rparr>)) (if_zero (queue_made x qc))
      ((Ibv (Reg_mr (x_pd x) b (to_int32 (q_max_wrs (qc_qp qc') * mmax (q_msg_size (qc_qp qc')) 64) mod 2 ^ 64)
         {LOCAL_WRITE}), m) # g)" for b m k g
    using registered_now [of "?q b m k" m x g] by (intro n s) simp
  show ?thesis unfolding create_qp_buf_def Let_def upd_qp_def
    by (rule wp_step wp_labels | simp only: prod.case)+ (use r in simp)
qed

lemma wp_create_qp: "wp (create_qp E x page qc) (if_zero (queue_made x qc)) h"
  by (simp add: create_qp_def upd_qp_def Let_def wp_create_qp_buf same_params_def)

lemma linked_iff:
  assumes "0 < b"
  shows "(c_rem (int j) b \<noteq> b - 1) = ((int j + 1) mod b \<noteq> 0)"
proof -
  have "0 \<le> int j mod b" "int j mod b < b" using assms by simp_all
  moreover have "(int j + 1) mod b = (int j mod b + 1) mod b" by (simp add: mod_add_left_eq)
  ultimately have "(int j + 1) mod b = 0 \<longleftrightarrow> int j mod b = b - 1"
    by (cases "int j mod b = b - 1") (simp_all add: mod_pos_pos_trivial)
  then show ?thesis using assms by simp
qed

lemma buffer_made:
  assumes "sound_input i" "ring_ok i" "x_is_send x = is_send i" "ring i * stride i < 2 ^ 31"
    and "qc_qp qc = qc_qp (init_queue i (is_send i) n)" and "queue_made x qc qc' h"
  shows "buffer_ready x i (qc_qp qc') h"
proof -
  let ?q = "qc_qp qc'"
  have p: "q_msg_size ?q = pr_msg_size (send_prms i)" "q_max_wrs ?q = ring i"
      "q_wr_burst ?q = pr_wr_burst (qp_prms i)" "q_msg_stride ?q = stride i"
    using assms by (simp_all add: queue_made_def same_params_def init_queue_def ring_def stride_def
        mmax_def max_def Let_def)
  have pos: "0 < pr_wr_burst (qp_prms i)" "0 < ring i" "64 \<le> stride i"
    using assms(2) by (auto simp: ring_ok_def stride_def)
  then have "0 \<le> ring i * stride i" by (intro mult_nonneg_nonneg) simp_all
  moreover have "to_int32 v mod 2 ^ 64 = v" if "0 \<le> v" "v < 2 ^ 31" for v using that by simp
  ultimately have len: "to_int32 (ring i * stride i) mod 2 ^ 64 = ring i * stride i"
    using assms(4) by blast
  have slot: "to_int32 (int j * stride i) = int j * stride i" if "int j < ring i" for j
  proof -
    have "int j * stride i \<le> ring i * stride i" "0 \<le> int j * stride i"
      using that pos by (intro mult_right_mono mult_nonneg_nonneg; simp)+
    then show ?thesis using assms(4) by (intro to_int32_id) linarith+
  qed
  obtain q0 f where a: "?q = (prep_arrays (is_send i) (qc_idx qc) q0)\<lparr>q_burst_family := f\<rparr>"
    using assms(3,6) by (auto simp: queue_made_def)
  then have "q_sg_list ?q ! j = prep_sge ?q j"
      "request_of (is_send i) ?q j = ([prep_sge ?q j], prep_linked ?q j)" if "int j < ring i" for j
    using that p by (auto simp: prep_arrays_def Let_def request_of_def prep_send_wr_def prep_recv_wr_def
        prep_sge_def slot_addr_def prep_linked_def)
  moreover have "prep_sge ?q j = \<lparr>sg_addr = q_buf ?q + int j * stride i, sg_length = pr_msg_size (send_prms i),
      sg_lkey = q_mr_lkey ?q\<rparr>" if "int j < ring i" for j
    using p slot [OF that] by (simp add: prep_sge_def slot_addr_def)
  moreover have "prep_linked ?q j = ((int j + 1) mod pr_wr_burst (qp_prms i) \<noteq> 0)" for j
    unfolding prep_linked_def p by (rule linked_iff [OF pos(1)])
  moreover have "registered x ?q h" using assms(6) by (simp add: queue_made_def)
  ultimately show ?thesis using p len by (auto simp: buffer_ready_def registered_def)
qed

lemma run_ok_made:
  assumes "sound_input i" "ring_ok i" "x_is_send x = is_send i"
    and "num_qp_msgs (send_prms i) + pr_wr_burst (qp_prms i) \<le> 2 ^ 31"
    and "qc_qp qc = qc_qp (init_queue i (is_send i) n)"
    and "c_wc_burst (qc_cq qc) = c_wc_burst (qc_cq (init_queue i (is_send i) n))" and "queue_made x qc qc' h"
  shows "run_ok qc' (q_intf (qc_qp qc'))"
proof -
  let ?q = "qc_qp qc'"
  have s: "sends_by (q_intf ?q) = is_send i"
    using assms(5,7) by (cases "verbs_send_intf (qp_prms i)"; cases "verbs_recv_intf (qp_prms i)")
      (auto simp: sends_by_def queue_made_def same_params_def init_queue_def Let_def)
  have p: "q_msg_size ?q = pr_msg_size (send_prms i)" "q_max_wrs ?q = ring i"
      "q_wr_burst ?q = pr_wr_burst (qp_prms i)" "q_num_msgs ?q = num_qp_msgs (send_prms i)"
      "c_wc_burst (qc_cq qc') = pr_wr_burst (qp_prms i)"
    using assms by (simp_all add: queue_made_def same_params_def init_queue_def ring_def Let_def)
  obtain q0 f where a: "?q = (prep_arrays (is_send i) (qc_idx qc) q0)\<lparr>q_burst_family := f\<rparr>"
    using assms(3,7) by (auto simp: queue_made_def)
  have "prepared (is_send i) ?q"
    using assms(2) p unfolding prepared_def by (auto simp: ring_ok_def a prep_arrays_def Let_def prep_send_wr_def
        prep_recv_wr_def prep_sge_def slot_addr_def prep_linked_def)
  moreover have "ring i < 2 ^ 31" using assms(1) by (simp add: sound_input_def ring_def)
  ultimately show ?thesis using assms(4) p by (simp add: run_ok_def s Let_def)
qed

section \<open>Accounting for main\<close>

text \<open>The ledger observes every call, and what the resource automaton allows it records.\<close>

lemma obs_ledger_None: "obs ledger None h = Some None"
  by (induction h) (auto simp: ledger_def)

lemma ledger_of_track: "sat track m M Q \<Longrightarrow> sat ledger m (Some M) (\<lambda>a q. \<exists>M'. q = Some M' \<and> Q a M')"
  unfolding sat_def
proof (intro allI impI)
  fix q0 h
  assume s: "\<forall>q0 h. obs track q0 h = Some M \<longrightarrow>
      (case run_state m h of (a, h') \<Rightarrow> \<exists>q'. obs track q0 h' = Some q' \<and> Q a q')"
    and o: "obs ledger q0 h = Some (Some M)"
  then obtain M0 where "q0 = Some M0" "obs track M0 h = Some M"
    by (cases q0) (auto simp: obs_ledger obs_ledger_None)
  with s show "case run_state m h of (a, h') \<Rightarrow>
      \<exists>q'. obs ledger q0 h' = Some q' \<and> (\<exists>M'. q' = Some M' \<and> Q a M')"
    by (fastforce simp: obs_ledger split: prod.splits)
qed

text \<open>What later calls do not change: the two arrays of the context, and who owns what.\<close>

definition ptrs :: "intf_context \<Rightarrow> ptr \<times> ptr" where
  "ptrs x = (x_qps_ptr x, x_threads_ptr x)"

definition same_owner :: "intf_context \<Rightarrow> intf_context \<Rightarrow> bool" where
  "same_owner x x' \<longleftrightarrow> ptrs x' = ptrs x \<and> owns_resources x' = owns_resources x
     \<and> x_is_send x' = x_is_send x \<and> length (x_qps_cqs x') = length (x_qps_cqs x)
     \<and> list_all (made (x_is_send x)) (x_qps_cqs x') = list_all (made (x_is_send x)) (x_qps_cqs x)"

lemma ptrs_updates [simp]:
  "ptrs (x\<lparr>x_qps_cqs := a\<rparr>) = ptrs x" "ptrs (x\<lparr>x_threads := b\<rparr>) = ptrs x" "ptrs (x\<lparr>x_pd := p\<rparr>) = ptrs x"
  "ptrs (x\<lparr>x_context := c\<rparr>) = ptrs x" "ptrs (x\<lparr>x_ib_dev := d\<rparr>) = ptrs x"
  by (simp_all add: ptrs_def)

abbreviation keeps_ptrs :: "ptr \<times> ptr \<Rightarrow> (int \<times> intf_context) prog \<Rightarrow> bool" where
  "keeps_ptrs p m \<equiv> gives m (\<lambda>(_, x). ptrs x = p)"

lemma keeps_bind:
  "keeps_ptrs p m \<Longrightarrow> (\<And>r x. ptrs x = p \<Longrightarrow> keeps_ptrs p (k (r, x))) \<Longrightarrow>
   keeps_ptrs p (State_Monad.bind m k)"
  by (rule gives_bind, erule gives_conseq) auto

lemmas keeps_intros = gives_if gives_case_prod gives_case_option gives_return gives_then

lemma keeps_clean: "ptrs x = p \<Longrightarrow> keeps_ptrs p (res_clean_device E x)"
    "ptrs x = p \<Longrightarrow> keeps_ptrs p (res_clean_pd E x)" "ptrs x = p \<Longrightarrow> keeps_ptrs p (clean_res_doms E x)"
  unfolding clean_res_doms_def res_clean_pd_def res_clean_device_def
  by (auto intro!: keeps_intros)

lemma keeps_init: "ptrs x = p \<Longrightarrow> keeps_ptrs p (init_qps_cqs E page x)"
    "ptrs x = p \<Longrightarrow> keeps_ptrs p (init_res_domains E x)"
  unfolding init_qps_cqs_def init_res_domains_def
  by (rule gives_then, auto intro!: gives_return)+

lemma keeps_create_queues: "ptrs x = p \<Longrightarrow> keeps_ptrs p (create_queues E page x)"
  unfolding create_queues_def
  by (rule keeps_bind [OF keeps_init(1)]) (auto intro!: keeps_intros keeps_clean)

lemma keeps_create_domains: "ptrs x = p \<Longrightarrow> keeps_ptrs p (create_domains E page x)"
proof -
  assume p: "ptrs x = p"
  have "keeps_ptrs p (do { (r, x) \<leftarrow> init_res_domains E x;
      if r \<noteq> 0 then res_clean_pd E x else create_queues E page x })"
    by (rule keeps_bind [OF keeps_init(2) [OF p]])
      (auto intro!: keeps_intros keeps_clean keeps_create_queues)
  with p show ?thesis unfolding create_domains_def
    by (auto intro!: gives_if gives_case_prod gives_then keeps_clean keeps_create_queues)
qed

lemma keeps_create_resources: "ptrs x = p \<Longrightarrow> keeps_ptrs p (create_resources E devs page x)"
  unfolding create_resources_def Let_def
  by (auto intro!: keeps_intros keeps_clean keeps_create_domains)

lemma own_remote [simp]:
  "own_cq (upd_qp (\<lambda>q. q\<lparr>q_remote_qpn := n\<rparr>) qc) = own_cq qc"
  "own_qp (upd_qp (\<lambda>q. q\<lparr>q_remote_qpn := n\<rparr>) qc) = own_qp qc"
  "arrays send (upd_qp (\<lambda>q. q\<lparr>q_remote_qpn := n\<rparr>) qc) = arrays send qc"
  "made send (upd_qp (\<lambda>q. q\<lparr>q_remote_qpn := n\<rparr>) qc) = made send qc"
  by (simp_all add: made_defs made_def qp_made_def upd_qp_def)

definition same_queues :: "qp_cq_data list \<Rightarrow> qp_cq_data list \<Rightarrow> bool" where
  "same_queues qcs qcs' \<longleftrightarrow> length qcs' = length qcs \<and> (\<forall>send. own_all send qcs' = own_all send qcs
     \<and> list_all (made send) qcs' = list_all (made send) qcs)"

lemma same_queues_update:
  assumes "i < length qcs"
  shows "same_queues qcs (qcs[i := upd_qp (\<lambda>q. q\<lparr>q_remote_qpn := n\<rparr>) (qcs ! i)])"
proof -
  have qcs: "qcs = take i qcs @ qcs ! i # drop (Suc i) qcs" by (rule id_take_nth_drop [OF assms])
  have app: "own_all send (as @ bs) = own_all send as + own_all send bs" for send as bs
    by (induction as) (simp_all add: ac_simps)
  have "own_all send (qcs[i := upd_qp (\<lambda>q. q\<lparr>q_remote_qpn := n\<rparr>) (qcs ! i)]) = own_all send qcs
      \<and> list_all (made send) (qcs[i := upd_qp (\<lambda>q. q\<lparr>q_remote_qpn := n\<rparr>) (qcs ! i)])
        = list_all (made send) qcs" for send
    using assms by (subst (1 2 4 6) qcs) (simp add: upd_conv_take_nth_drop app)
  then show ?thesis by (simp add: same_queues_def)
qed

lemma same_queues_trans: "same_queues a b \<Longrightarrow> same_queues b c \<Longrightarrow> same_queues a c"
  by (simp add: same_queues_def)

lemma connect_each_same:
  "i + n = length qcs \<Longrightarrow> gives (connect_each E x my d n i qcs) (\<lambda>(_, qcs'). same_queues qcs qcs')"
proof (induction n arbitrary: i qcs)
  case 0
  then show ?case by (simp add: gives_return same_queues_def)
next
  case (Suc n)
  let ?u = "qcs[i := upd_qp (\<lambda>q. q\<lparr>q_remote_qpn := ib_qpn d ! i\<rparr>) (qcs ! i)]"
  have s: "same_queues qcs ?u" using Suc.prems by (intro same_queues_update) simp
  have "gives (connect_each E x my d n (Suc i) ?u) (\<lambda>(_, qcs'). same_queues qcs qcs')"
    using Suc.prems s by (intro gives_conseq [OF Suc.IH]) (auto intro: same_queues_trans)
  then show ?case unfolding connect_each.simps Let_def
    by (auto intro!: keeps_intros s)
qed

lemma same_owner_queues: "same_queues (x_qps_cqs x) qcs \<Longrightarrow> same_owner x (x\<lparr>x_qps_cqs := qcs\<rparr>)"
  by (simp add: same_owner_def same_queues_def owns_resources_def)

lemma same_owner_refl: "same_owner x x"
  by (simp add: same_owner_def)

lemma exchange_same: "gives (exchange_remote_data E k addrs x) (\<lambda>(_, x'). same_owner x x')"
proof -
  have f: "gives (free_buffs E p1 p2 p3 p4 x') (\<lambda>(_, y). same_owner x y)" if "same_owner x x'" for p1 p2 p3 p4 x'
    using that unfolding free_buffs_def by (auto intro!: gives_then gives_return)
  have c: "gives (do { (r, qcs) \<leftarrow> connect_each E x my d (length (x_qps_cqs x)) 0 (x_qps_cqs x);
        if r \<noteq> 0 then free_buffs E p1 p2 p3 p4 (x\<lparr>x_qps_cqs := qcs\<rparr>)
        else ret_io (0, x\<lparr>x_qps_cqs := qcs\<rparr>) }) (\<lambda>(_, y). same_owner x y)" for my d p1 p2 p3 p4
    by (rule gives_bind, rule gives_conseq [OF connect_each_same], simp)
      (auto intro!: gives_intro f same_owner_queues)
  show ?thesis unfolding exchange_remote_data_def Let_def
    by (auto intro!: keeps_intros f c same_owner_refl)
qed

lemma threads_same:
  "domains (map (\<lambda>(k, t). if k < i then t\<lparr>t_idx := int k\<rparr> else t) (zip ks ths)) = domains ths"
  if "length ks = length ths"
  using that by (induction ks ths rule: list_induct2) (auto simp: domains_def)

lemma run_threads_same: "gives (run_threads E x) (\<lambda>(_, x'). same_owner x x')"
proof -
  have "same_owner x (x\<lparr>x_threads := map (\<lambda>(k, t). if k < i then t\<lparr>t_idx := int k\<rparr> else t)
        (zip [0 ..< length (x_threads x)] (x_threads x)), x_thread_stop := b\<rparr>)"
    "same_owner x (x\<lparr>x_threads := map (\<lambda>(k, t). if k < i then t\<lparr>t_idx := int k\<rparr> else t)
        (zip [0 ..< length (x_threads x)] (x_threads x))\<rparr>)" for i b
    by (simp_all add: same_owner_def owns_resources_def res_state_def ptrs_def threads_same)
  then show ?thesis unfolding run_threads_def Let_def
    by (auto intro!: keeps_intros)
qed

lemma track_spawn: "sat track (spawn_loop E n i) M (\<lambda>_ M'. M' = M)"
  by (induction n arbitrary: i) (auto intro!: sat_intro simp: track_simps)

lemma track_repeat: "(\<And>r. track M c r = Some M) \<Longrightarrow> sat track (repeat_call E n c) M (\<lambda>_ M'. M' = M)"
  by (induction n) (auto intro!: sat_intro)

lemma track_run_threads: "sat track (run_threads E x) M (\<lambda>_ M'. M' = M)"
proof -
  have t: "track M (Libc (Sem_post s)) r = Some M" "track M (Libc (Sem_wait s)) r = Some M" for s r
    by (simp_all add: track_simps)
  show ?thesis unfolding run_threads_def clk_init_def Let_def
    by (auto intro!: sat_intro track_spawn [THEN sat_conseq] track_repeat [OF t(1), THEN sat_conseq]
        track_repeat [OF t(2), THEN sat_conseq] simp: track_simps)
qed

lemma sat_ledger_gives: "gives m Q \<Longrightarrow> sat ledger m q (\<lambda>a _. Q a)"
proof -
  have "\<exists>q'. obs ledger q h = Some q'" for q h
    by (induction h) (auto simp: ledger_def)
  then show "gives m Q \<Longrightarrow> sat ledger m q (\<lambda>a _. Q a)"
    by (auto simp: sat_def gives_def case_prod_unfold)
qed

text \<open>The three blocks main and \<open>create_context\<close> allocate.\<close>

definition own_ctx :: "ptr \<Rightarrow> intf_context \<Rightarrow> (res \<times> int) multiset" where
  "own_ctx ctx x = {#(Heap, ctx), (Heap, fst (ptrs x)), (Heap, snd (ptrs x))#}"

definition ctx_ok :: "ptr \<Rightarrow> intf_context \<Rightarrow> bool" where
  "ctx_ok ctx x \<longleftrightarrow> ctx \<noteq> 0 \<and> fst (ptrs x) \<noteq> 0 \<and> snd (ptrs x) \<noteq> 0"

lemma ledger_destroy_context:
  "ctx_ok ctx x \<Longrightarrow> sat ledger (lbl_destroy_context E ctx x r) (Some (M + own_ctx ctx x))
     (\<lambda>v q. v = Inr r \<and> q = Some M)"
  unfolding lbl_destroy_context_def destroy_context_def lbl_free_ctx_def
  by (auto intro!: sat_intro simp: track_simps own_ctx_def ctx_ok_def ptrs_def)

lemma keeps_destroy: "gives (destroy_resources E x) (\<lambda>y. ptrs y = ptrs x)"
  unfolding destroy_resources_def Let_def by (auto intro!: gives_then gives_return)

lemma ledger_destroy_all:
  assumes "list_all (made (x_is_send x)) (x_qps_cqs x)" and "ctx_ok ctx x"
  shows "sat ledger (lbl_destroy_resources E ctx x r) (Some (M + own_ctx ctx x + owns_resources x))
     (\<lambda>v q. v = Inr r \<and> q = Some (M + all_arrays (x_is_send x) (x_qps_cqs x)))"
proof -
  let ?A = "all_arrays (x_is_send x) (x_qps_cqs x)"
  have d: "sat ledger (lbl_destroy_context E ctx y r) (Some (M + own_ctx ctx x + ?A))
      (\<lambda>v q. v = Inr r \<and> q = Some (M + ?A))" if "ptrs y = ptrs x" for y
    using ledger_destroy_context [of ctx y E r "M + ?A"] that assms(2)
    by (simp add: own_ctx_def ctx_ok_def)
  show ?thesis unfolding lbl_destroy_resources_def
    by (rule sat_bind, rule sat_conseq [OF sat_gives [OF ledger_destroy_resources [OF assms(1)] keeps_destroy]],
        clarify, rule d)
qed

lemma fails_destroy_all: "sat ledger (lbl_destroy_resources E ctx x 1) q (\<lambda>v _. v = Inr 1)"
    "sat ledger (lbl_destroy_context E ctx x 1) q (\<lambda>v _. v = Inr 1)"
  unfolding lbl_destroy_resources_def lbl_destroy_context_def lbl_free_ctx_def
  by (rule sat_ledger_gives, auto intro!: gives_then gives_return)+

definition intf_left :: "(res \<times> int) multiset \<Rightarrow> nat \<Rightarrow> fault + int \<Rightarrow> (res \<times> int) multiset option \<Rightarrow> bool" where
  "intf_left M n v q \<longleftrightarrow> (v = Inr 0 \<longrightarrow> (\<exists>dl B. q = Some (M + {#(Device_list, dl)#} + B)
     \<and> (\<forall>b \<in># B. fst b = Heap) \<and> size B = 2 * n + 4))"

lemma heap_arrays: "\<forall>b \<in># all_arrays send qcs. fst b = Heap"
  by (induction qcs) (auto simp: arrays_def)

lemma ledger_connected:
  assumes "list_all (made (x_is_send x)) (x_qps_cqs x)" and "ctx_ok ctx x"
    and "size B = 4" and "\<forall>b \<in># B. fst b = Heap"
    and "q = Some (M + own_ctx ctx x + {#(Device_list, dl)#} + B + owns_resources x)"
  shows "sat ledger (do { (r, x) \<leftarrow> run_threads E x;
      if r \<noteq> 0 then lbl_destroy_resources E ctx x 1 else lbl_destroy_resources E ctx x 0 }) q
    (intf_left M (length (x_qps_cqs x)))"
proof -
  have f: "sat ledger (lbl_destroy_resources E ctx y 0) q (intf_left M (length (x_qps_cqs x)))"
    if "same_owner x y" for y
  proof -
    have y: "list_all (made (x_is_send y)) (x_qps_cqs y)" "ctx_ok ctx y"
        "length (x_qps_cqs y) = length (x_qps_cqs x)"
        "q = Some (M + {#(Device_list, dl)#} + B + own_ctx ctx y + owns_resources y)"
      using that assms by (simp_all add: same_owner_def ctx_ok_def own_ctx_def)
    have m: "intf_left M (length (x_qps_cqs x)) (Inr 0)
        (Some (M + {#(Device_list, dl)#} + B + all_arrays (x_is_send y) (x_qps_cqs y)))"
      unfolding intf_left_def
      using assms(3,4) y(3) size_all_arrays [of "x_is_send y" "x_qps_cqs y"]
        heap_arrays [of "x_is_send y" "x_qps_cqs y"]
      by (intro impI exI [of _ dl] exI [of _ "B + all_arrays (x_is_send y) (x_qps_cqs y)"])
        (auto simp: add.assoc)
    show ?thesis unfolding y(4)
      by (rule sat_conseq [OF ledger_destroy_all [OF y(1,2)]]) (use m in simp)
  qed
  have t: "sat ledger (run_threads E x) q (\<lambda>(_, y) q'. q' = q \<and> same_owner x y)"
    unfolding assms(5)
    by (rule sat_conseq [OF sat_gives [OF ledger_of_track [OF track_run_threads] run_threads_same]]) auto
  show ?thesis
    by (rule sat_bind, rule sat_conseq [OF t])
      (auto intro!: sat_if f fails_destroy_all [THEN sat_conseq] simp: intf_left_def)
qed

lemma ledger_main_run:
  assumes "list_all fresh (x_qps_cqs x)" and "ctx_ok ctx x"
  shows "sat ledger (intf_main_run E devs page k addrs ctx x) (Some (M + own_ctx ctx x))
    (intf_left M (length (x_qps_cqs x)))"
proof -
  let ?go = "\<lambda>x. do { (r, x) \<leftarrow> run_threads E x;
      if r \<noteq> 0 then lbl_destroy_resources E ctx x 1 else lbl_destroy_resources E ctx x 0 }"
  have e: "sat ledger (do { (r, y) \<leftarrow> exchange_remote_data E k addrs y;
        if r \<noteq> 0 then lbl_destroy_resources E ctx y 1 else ?go y }) q (intf_left M (length (x_qps_cqs x)))"
    if y: "resources_result (M + own_ctx ctx x) (length (x_qps_cqs x)) (0, y) q" "ptrs y = ptrs x" for y q
  proof -
    obtain dl where q: "q = Some (add_mset (Device_list, dl) (M + own_ctx ctx x + owns_resources y))"
      using y by (auto simp: resources_result_def)
    have go: "sat ledger (?go z) q' (intf_left M (length (x_qps_cqs x)))"
      if z: "\<exists>M'. q' = Some M' \<and> exchange_bag (add_mset (Device_list, dl)
        (M + own_ctx ctx x + owns_resources y)) (0, z) M'" "same_owner y z" for z q'
    proof -
      obtain B where B: "size B = 4" "\<forall>b \<in># B. fst b = Heap"
          "q' = Some (M + own_ctx ctx x + {#(Device_list, dl)#} + B + owns_resources y)"
        using z(1) by (auto simp: exchange_bag_def ac_simps)
      have "list_all (made (x_is_send z)) (x_qps_cqs z)" "ctx_ok ctx z"
          "length (x_qps_cqs z) = length (x_qps_cqs x)" "own_ctx ctx z = own_ctx ctx x"
          "owns_resources z = owns_resources y"
        using z(2) y assms(2) by (simp_all add: same_owner_def resources_result_def ctx_ok_def own_ctx_def)
      then show ?thesis using ledger_connected [of z ctx B q' M dl E] B by simp
    qed
    show ?thesis unfolding q
      by (rule sat_bind, rule sat_conseq [OF sat_gives [OF ledger_of_track [OF track_exchange] exchange_same]])
        (auto intro!: sat_if go fails_destroy_all [THEN sat_conseq] simp: intf_left_def)
  qed
  show ?thesis unfolding intf_main_run_def
    by (rule sat_bind, rule sat_conseq [OF sat_gives [OF ledger_create_resources [OF assms(1)]
          keeps_create_resources [OF refl]]])
      (auto intro!: sat_if e fails_destroy_all [THEN sat_conseq] simp: intf_left_def)
qed

lemma create_context_result:
  "sat ledger (create_context E input zero_context) (Some M) (\<lambda>v q. \<forall>x. v = Inr (0, x) \<longrightarrow>
     q = Some (M + {#(Heap, fst (ptrs x)), (Heap, snd (ptrs x))#}) \<and> fst (ptrs x) \<noteq> 0 \<and> snd (ptrs x) \<noteq> 0
     \<and> list_all fresh (x_qps_cqs x) \<and> length (x_qps_cqs x) = nat (pr_num_threads (thread_prms input)))"
  unfolding create_context_def Let_def
  by (auto intro!: sat_intro simp: track_simps ptrs_def fresh_init_queue)

lemma ledger_main:
  "sat ledger (intf_main E devs page k addrs opts args) (Some M) (\<lambda>v q. v = Inr 0 \<longrightarrow>
     (\<exists>i. parse_input intf_default_input opts args = Inr (Some i)
        \<and> intf_left M (nat (pr_num_threads (thread_prms i))) v q))"
proof (cases "parse_input intf_default_input opts args")
  case (Inr r)
  show ?thesis
  proof (cases r)
    case (Some i)
    let ?P = "intf_left M (nat (pr_num_threads (thread_prms i)))"
    have free: "sat ledger (lbl_free_ctx E ctx 1) q ?P" for ctx q
      by (rule sat_conseq [OF sat_ledger_gives [of _ "\<lambda>v. v = Inr 1"]])
        (auto simp: lbl_free_ctx_def intf_left_def intro!: gives_then gives_return)
    have c: "sat ledger (do { c \<leftarrow> create_context E i zero_context;
        case c of Inl e \<Rightarrow> ret_io (Inl e)
        | Inr (r, x) \<Rightarrow> if r \<noteq> 0 then lbl_free_ctx E ctx 1 else intf_main_run E devs page k addrs ctx x })
        (Some (add_mset (Heap, ctx) M)) ?P" if "ctx \<noteq> 0" for ctx
    proof -
      have run: "sat ledger (intf_main_run E devs page k addrs ctx x) q ?P"
        if "q = Some (add_mset (Heap, ctx) M + {#(Heap, fst (ptrs x)), (Heap, snd (ptrs x))#})"
          "fst (ptrs x) \<noteq> 0" "snd (ptrs x) \<noteq> 0" "list_all fresh (x_qps_cqs x)"
          "length (x_qps_cqs x) = nat (pr_num_threads (thread_prms i))" for x q
        using ledger_main_run [OF that(4), of ctx E devs page k addrs M] that \<open>ctx \<noteq> 0\<close>
        by (simp add: ctx_ok_def own_ctx_def add_mset_commute)
      show ?thesis
        by (rule sat_bind, rule sat_conseq [OF create_context_result])
          (auto intro!: sat_case_sum sat_case_prod sat_if sat_return free run simp: intf_left_def)
    qed
    have "sat ledger (intf_main E devs page k addrs opts args) (Some M) ?P"
      unfolding intf_main_def Inr Some
      by (simp, intro sat_bind sat_invoke) (auto intro!: sat_return c simp: track_simps intf_left_def)
    then show ?thesis by (rule sat_conseq) (auto simp: Inr Some)
  qed (simp add: intf_main_def Inr sat_return)
qed (simp add: intf_main_def sat_return)

section \<open>Properties\<close>

text \<open>
  A list of at most four CPU ranges is read back from what \<open>usage\<close> prints for it, as long
  as the text has fewer than 64 characters.
\<close>

theorem cpu_list_roundtrip:
  assumes "list_all set_fits sets" and "sets \<noteq> []" and "length sets \<le> MAX_CPU_SETS"
    and "length (print_cpu_sets sets) < 64"
  shows "str_to_cpu_set (print_cpu_sets sets) = Some sets"
  using assms read_print_sets [OF assms(1,3)] by (simp add: str_to_cpu_set_def)

theorem cpu_list_roundtrip_witness:
  "str_to_cpu_set (print_cpu_sets (cpu_sets (thread_prms intf_default_input)))
     = Some [\<lparr>cpu_min = 0, cpu_max = 5\<rparr>, \<lparr>cpu_min = 12, cpu_max = 17\<rparr>]"
proof -
  let ?s = "cpu_sets (thread_prms intf_default_input)"
  have s: "?s = [\<lparr>cpu_min = 0, cpu_max = 5\<rparr>, \<lparr>cpu_min = 12, cpu_max = 17\<rparr>]"
    by (simp add: intf_default_input_def)
  have "length (print_cpu_sets ?s) < 64" by code_simp
  then show ?thesis
    using cpu_list_roundtrip [of ?s] unfolding s by (simp add: set_fits_def MAX_CPU_SETS_def)
qed


text \<open>A burst of 7 and two threads, in an environment in which every call succeeds.\<close>

definition yes_env :: api_env where
  "yes_env = const_env (\<lambda>c. case c of Ibv (Modify_qp q a m) \<Rightarrow> 0 | _ \<Rightarrow> 1) (\<lambda>c. [])"

lemma yes_creates:
  "wp (create_cq yes_env x qc) (\<lambda>r _. fst r = 0) h" "wp (create_qp yes_env x page qc) (\<lambda>r _. fst r = 0) h"
  by (simp_all add: create_cq_def create_qp_def create_qp_buf_def create_qp_ready_def yes_env_def const_env_def Let_def)


text \<open>
  An accepted burst may still be larger than the number of messages, and then the run never ends
  (theory IntfLoop); a burst of 0 is not refused but divides by zero.
\<close>

lemma zero_burst_faults:
  "parse_input intf_default_input [(CHR ''b'', ''0'')] [] = Inl Division_by_zero"
  by code_simp

text \<open>A server name that is too long is dropped: the client becomes a server that sends.\<close>

lemma long_name_dropped:
  "take_server [replicate 127 CHR ''a''] i = Some i"
  by (simp add: take_server_def MAX_SERVER_NAME_SIZE_def)

text \<open>
  C14: When \<open>main\<close> returns 0, every descriptor, device, protection domain, queue and memory region
  has been given back, once; what is left is the list of devices and blocks of memory: two for every
  thread and four of the exchange.
\<close>

theorem main_leaves_memory:
  assumes "held h = Some M" and "run_state (intf_main E devs page k addrs opts args) h = (Inr 0, h')"
  shows "\<exists>i dl B. parse_input intf_default_input opts args = Inr (Some i)
    \<and> held h' = Some (M + {#(Device_list, dl)#} + B) \<and> (\<forall>b \<in># B. fst b = Heap)
    \<and> size B = 2 * nat (pr_num_threads (thread_prms i)) + 4"
proof -
  have "obs ledger (Some {#}) h = Some (Some M)" using assms(1) by (simp add: obs_held)
  from satD [OF ledger_main this assms(2)] show ?thesis
    by (auto simp: intf_left_def obs_held)
qed

text \<open>A host whose calls succeed, with a peer of one queue pair.\<close>

definition main_env :: "string \<Rightarrow> api_env" where
  "main_env m = \<lparr>ret = (\<lambda>h c. case c of
       Libc l \<Rightarrow> if l = Pthread_create ''thread_wrap'' then 0 else ret (net_env []) [] c
     | _ \<Rightarrow> if status_call c then 0 else 3),
     data_in = (\<lambda>h c. drop (received h) m), attr_in = (\<lambda>h c a. 1), wcs_in = (\<lambda>h c. [])\<rparr>"

lemma main_env_kind: "kind (main_env m)" "stream_fed (main_env m) m"
  by (auto simp: kind_def stream_fed_def main_env_def exchange_call_def status_call_def net_env_def
      const_env_def split: api.splits libc_call.splits ibv_call.splits)

definition one_peer :: ib_dest where
  "one_peer = \<lparr>ib_lid = 2, ib_gid = zero_gid, ib_qpn = [5], ib_psn = [6]\<rparr>"

lemma wp_spawn:
  "(\<And>h. ret E h (Libc (Pthread_create ''thread_wrap'')) = 0) \<Longrightarrow>
   wp (spawn_loop E n i) (\<lambda>(_, all) _. all) h"
  by (induction n arbitrary: i h) simp_all

lemma wp_any: "(\<And>a h'. Q a h') \<Longrightarrow> wp m Q h"
  by (simp add: wp_def split: prod.split)

lemma wp_run_threads:
  assumes "\<And>h. ret E h (Libc (Pthread_create ''thread_wrap'')) = 0"
  shows "wp (run_threads E x) (\<lambda>(r, _) _. r = 0) h"
  unfolding run_threads_def clk_init_def Let_def
  by (simp, rule wp_conseq [OF wp_spawn [OF assms]]) (auto intro!: wp_any)

definition small_args :: "(char \<times> string) list" where
  "small_args = [(CHR ''r'', ''6''), (CHR ''b'', ''2'')]"

definition small_input :: intf_input where
  "small_input = upd_server (\<lambda>d. d\<lparr>server_name := ''srv''\<rparr>)
     (upd_qpp (\<lambda>d. d\<lparr>pr_max_recv_wr := 6, pr_wr_burst := 2\<rparr>) intf_default_input)"

lemmas small_run = create_context_def create_resources_def create_domains_def init_res_domains_def
  create_queues_def init_qps_cqs_def create_cq_def create_qp_def create_qp_buf_def create_qp_ready_def
  run_simps main_env_def net_env_def const_env_def Let_def status_call_def named_context_def
  small_input_def intf_default_input_def init_queue_def init_thread_def upd_qp_def upd_cq_def
  prep_arrays_def zero_qp_data_def zero_context_def zero_qp_cq_def upd_defs MAX_DEV_NAME_SIZE_def
  is_send_def cpu_array_def PS_MAX_CPUS_def

lemma resources_ready:
  obtains x h x' h' where
    "run_state (create_context (main_env m) small_input zero_context) [(Libc (Calloc ''intf_context''), 3)]
       = (Inr (0, x), h)"
    "run_state (create_resources (main_env m) [(''mlx4_0'', 7)] 4096 x) h = ((0, x'), h')"
    "received h' = 0" "length (x_qps_cqs x') = 1" "numbers_fit x'"
proof -
  have "\<exists>x h x' h'. run_state (create_context (main_env m) small_input zero_context)
         [(Libc (Calloc ''intf_context''), 3)] = (Inr (0, x), h)
     \<and> run_state (create_resources (main_env m) [(''mlx4_0'', 7)] 4096 x) h = ((0, x'), h')
     \<and> received h' = 0 \<and> length (x_qps_cqs x') = 1 \<and> numbers_fit x'"
    by (simp add: small_run numbers_fit_def)
  then show ?thesis using that by blast
qed

lemma one_peer_fits: "intf_fits one_peer"
  by (simp add: intf_fits_def one_peer_def addr_fits_def addr_of_def qps_of_def qp_fits_def zero_gid_def)

lemma parse_small: "parse_input intf_default_input small_args [''srv''] = Inr (Some small_input)"
  unfolding small_args_def small_input_def by code_simp

lemma main_run_exists:
  obtains h where "run_state (intf_main (main_env (concat (lines_of None one_peer))) [(''mlx4_0'', 7)] 4096
     no_junk [1] small_args [''srv'']) [] = (Inr 0, h)"
proof -
  let ?E = "main_env (concat (lines_of None one_peer))"
  obtain x h x' h' where
    c: "run_state (create_context ?E small_input zero_context) [(Libc (Calloc ''intf_context''), 3)]
       = (Inr (0, x), h)"
    and r: "run_state (create_resources ?E [(''mlx4_0'', 7)] 4096 x) h = ((0, x'), h')"
    and x': "received h' = 0" "length (x_qps_cqs x') = 1" "numbers_fit x'"
    by (rule resources_ready)
  have k: "kind_start ?E [1]" by (simp add: kind_start_def main_env_kind)
  have e: "wp (exchange_remote_data ?E no_junk [1] x') (\<lambda>(r, _) _. r = 0) h'"
    using x' by (intro kind_exchange [OF k main_env_kind(2)] one_peer_fits) (simp_all add: one_peer_def)
  have t: "wp (run_threads ?E y) (\<lambda>(r, _) _. r = 0) h" for y h
    by (rule wp_run_threads) (simp add: main_env_def)
  have d: "wp (lbl_destroy_resources ?E p y 0) (\<lambda>v _. v = Inr 0) h" for p y h
    unfolding lbl_destroy_resources_def lbl_destroy_context_def lbl_free_ctx_def
    by (simp, intro wp_any) (simp add: wp_def split: prod.split)
  have w: "wp m Q h = Q a h'" if "run_state m h = (a, h')" for m :: "'a prog" and Q h a h'
    using that by (simp add: wp_def)
  have "wp (intf_main_run ?E [(''mlx4_0'', 7)] 4096 no_junk [1] p x) (\<lambda>v _. v = Inr 0) h" for p
    unfolding intf_main_run_def
    by (simp add: w [OF r], rule wp_conseq [OF e]) (auto intro!: wp_conseq [OF t] d)
  moreover have "ret ?E [] (Libc (Calloc ''intf_context'')) = 3"
    by (simp add: main_env_def net_env_def const_env_def)
  ultimately have "wp (intf_main ?E [(''mlx4_0'', 7)] 4096 no_junk [1] small_args [''srv''])
      (\<lambda>v _. v = Inr 0) []"
    by (simp add: intf_main_def parse_small w [OF c])
  then show ?thesis using that by (auto simp: wp_def split: prod.splits)
qed

theorem main_leaves_memory_witness:
  "\<exists>h dl B. run_state (intf_main (main_env (concat (lines_of None one_peer))) [(''mlx4_0'', 7)] 4096
       no_junk [1] small_args [''srv'']) [] = (Inr 0, h)
     \<and> held h = Some ({#(Device_list, dl)#} + B) \<and> size B = 6"
proof -
  obtain h where h: "run_state (intf_main (main_env (concat (lines_of None one_peer))) [(''mlx4_0'', 7)]
      4096 no_junk [1] small_args [''srv'']) [] = (Inr 0, h)"
    by (rule main_run_exists)
  have "held [] = Some {#}" by simp
  from main_leaves_memory [OF this h] obtain dl B where "held h = Some ({#(Device_list, dl)#} + B)"
      "size B = 2 * nat (pr_num_threads (thread_prms small_input)) + 4"
    by (auto simp: parse_small)
  moreover have "nat (pr_num_threads (thread_prms small_input)) = 1"
    by (simp add: small_input_def upd_defs intf_default_input_def)
  ultimately show ?thesis using h by auto
qed

end
