(* ===== verification/PlainContext.thy ===== *)
theory PlainContext
  imports RcMain
begin

text \<open>
  What uc_pingpong.c, ud_pingpong.c and srq_pingpong.c have in common, word for word: the
  fields their contexts share, the acquisitions of \<open>pp_init_ctx\<close> from the buffer to the
  completion queue with the cleanup labels that undo them, the tail of \<open>pp_close_ctx\<close>,
  the options, the waiting for completions and the loop.  The programs' own contexts extend
  \<open>plain_ctx\<close>; what follows the completion queue is a continuation \<open>k\<close>.
\<close>

text \<open>The calls of the programs, one by one, for the automaton of the resources.\<close>

lemma track_calls:
  "track M (Ibv (Create_qp d i)) r = Some (if r \<noteq> 0 then add_mset (Qp, r) M else M)"
  "track M (Ibv (Destroy_qp q)) r = (if (Qp, q) \<in># M then Some (M - {#(Qp, q)#}) else None)"
  "track M (Ibv (Modify_qp q a m)) r = Some M"
  "track M (Libc (Malloc s)) r = Some (if r \<noteq> 0 then add_mset (Heap, r) M else M)"
  "track M (Libc (Calloc s)) r = Some (if r \<noteq> 0 then add_mset (Heap, r) M else M)"
  "track M (Libc (Free p)) r =
     (if p = 0 then Some M else if (Heap, p) \<in># M then Some (M - {#(Heap, p)#}) else None)"
  "track M (Libc (Close fd)) r = (if (Fd, fd) \<in># M then Some (M - {#(Fd, fd)#}) else None)"
  "track M (Libc (Read fd n)) r = Some M" "track M (Libc (Recv fd n)) r = Some M"
  "track M (Libc (Write fd s)) r = Some M"
  "track M (Libc Gettimeofday) r = Some M" "track M (Libc Lrand48) r = Some M"
  "track M (Ibv (Query_port d p)) r = Some M" "track M (Ibv (Query_gid d p x)) r = Some M"
  by (simp_all add: track_simps)

section \<open>The shared part of a context\<close>

record plain_ctx =
  b_self :: ptr
  b_context :: ptr
  b_channel :: ptr
  b_pd :: ptr
  b_mr :: ptr
  b_lkey :: int
  b_cq :: ptr
  b_buf :: ptr
  b_size :: int
  b_rx_depth :: int

text \<open>The labels, each running to the end of the function.\<close>

definition pl_clean_ctx :: "api_env \<Rightarrow> 'a plain_ctx_scheme \<Rightarrow> 'c option prog" where
  "pl_clean_ctx E ctx = do { invoke E (Libc (Free (b_self ctx))); ret_io None }"

definition pl_clean_buffer :: "api_env \<Rightarrow> 'a plain_ctx_scheme \<Rightarrow> 'c option prog" where
  "pl_clean_buffer E ctx = do { invoke E (Libc (Free (b_buf ctx))); pl_clean_ctx E ctx }"

definition pl_clean_device :: "api_env \<Rightarrow> 'a plain_ctx_scheme \<Rightarrow> 'c option prog" where
  "pl_clean_device E ctx = do { invoke E (Ibv (Close_device (b_context ctx))); pl_clean_buffer E ctx }"

definition pl_clean_comp_channel :: "api_env \<Rightarrow> 'a plain_ctx_scheme \<Rightarrow> 'c option prog" where
  "pl_clean_comp_channel E ctx = do {
     when_io (b_channel ctx \<noteq> 0) (invoke E (Ibv (Destroy_comp_channel (b_channel ctx))));
     pl_clean_device E ctx }"

definition pl_clean_pd :: "api_env \<Rightarrow> 'a plain_ctx_scheme \<Rightarrow> 'c option prog" where
  "pl_clean_pd E ctx = do { invoke E (Ibv (Dealloc_pd (b_pd ctx))); pl_clean_comp_channel E ctx }"

definition pl_clean_mr :: "api_env \<Rightarrow> 'a plain_ctx_scheme \<Rightarrow> 'c option prog" where
  "pl_clean_mr E ctx = do { invoke E (Ibv (Dereg_mr (b_mr ctx))); pl_clean_pd E ctx }"

definition pl_clean_cq :: "api_env \<Rightarrow> 'a plain_ctx_scheme \<Rightarrow> 'c option prog" where
  "pl_clean_cq E ctx = do { invoke E (Ibv (Destroy_cq (b_cq ctx))); pl_clean_mr E ctx }"

lemmas pl_clean_defs = pl_clean_ctx_def pl_clean_buffer_def pl_clean_device_def
  pl_clean_comp_channel_def pl_clean_pd_def pl_clean_mr_def pl_clean_cq_def

section \<open>From the buffer to the completion queue\<close>

definition pl_cq ::
    "api_env \<Rightarrow> int \<Rightarrow> ('a plain_ctx_scheme \<Rightarrow> 'c option prog) \<Rightarrow> 'a plain_ctx_scheme \<Rightarrow> 'c option prog" where
  "pl_cq E cqe k ctx = do {
     q \<leftarrow> invoke E (Ibv (Create_cq (b_context ctx) cqe (b_channel ctx)));
     if q = 0 then pl_clean_mr E ctx else k (ctx\<lparr>b_cq := q\<rparr>) }"

definition pl_mr ::
    "api_env \<Rightarrow> int \<Rightarrow> int \<Rightarrow> ('a plain_ctx_scheme \<Rightarrow> 'c option prog) \<Rightarrow> 'a plain_ctx_scheme \<Rightarrow> 'c option prog" where
  "pl_mr E len cqe k ctx = do {
     (m, a) \<leftarrow> invoke_attr E (Ibv (Reg_mr (b_pd ctx) (b_buf ctx) len {LOCAL_WRITE}));
     if m = 0 then pl_clean_pd E ctx
     else pl_cq E cqe k (ctx\<lparr>b_mr := m, b_lkey := a ''lkey''\<rparr>) }"

definition pl_pd ::
    "api_env \<Rightarrow> int \<Rightarrow> int \<Rightarrow> ('a plain_ctx_scheme \<Rightarrow> 'c option prog) \<Rightarrow> 'a plain_ctx_scheme \<Rightarrow> 'c option prog" where
  "pl_pd E len cqe k ctx = do {
     p \<leftarrow> invoke E (Ibv (Alloc_pd (b_context ctx)));
     if p = 0 then pl_clean_comp_channel E ctx else pl_mr E len cqe k (ctx\<lparr>b_pd := p\<rparr>) }"

definition pl_channel ::
    "api_env \<Rightarrow> int \<Rightarrow> int \<Rightarrow> int \<Rightarrow> ('a plain_ctx_scheme \<Rightarrow> 'c option prog) \<Rightarrow> 'a plain_ctx_scheme
      \<Rightarrow> 'c option prog" where
  "pl_channel E len cqe use_event k ctx =
    (if use_event \<noteq> 0 then do {
       ch \<leftarrow> invoke E (Ibv (Create_comp_channel (b_context ctx)));
       if ch = 0 then pl_clean_device E ctx else pl_pd E len cqe k (ctx\<lparr>b_channel := ch\<rparr>)
     } else pl_pd E len cqe k (ctx\<lparr>b_channel := 0\<rparr>))"

definition pl_device ::
    "api_env \<Rightarrow> ptr \<Rightarrow> int \<Rightarrow> int \<Rightarrow> int \<Rightarrow> ('a plain_ctx_scheme \<Rightarrow> 'c option prog) \<Rightarrow> 'a plain_ctx_scheme
      \<Rightarrow> 'c option prog" where
  "pl_device E ib_dev len cqe use_event k ctx = do {
     d \<leftarrow> invoke E (Ibv (Open_device ib_dev));
     if d = 0 then pl_clean_buffer E ctx
     else pl_channel E len cqe use_event k (ctx\<lparr>b_context := d\<rparr>) }"

text \<open>The buffer is filled after its allocation; its contents are never read back.\<close>

definition pl_buffer ::
    "api_env \<Rightarrow> int \<Rightarrow> ptr \<Rightarrow> int \<Rightarrow> int \<Rightarrow> int \<Rightarrow> ('a plain_ctx_scheme \<Rightarrow> 'c option prog)
      \<Rightarrow> 'a plain_ctx_scheme \<Rightarrow> 'c option prog" where
  "pl_buffer E psize ib_dev len cqe use_event k ctx = do {
     b \<leftarrow> invoke E (Libc (Memalign psize len));
     if b = 0 then pl_clean_ctx E ctx
     else pl_device E ib_dev len cqe use_event k (ctx\<lparr>b_buf := b\<rparr>) }"

lemmas pl_setup_defs = pl_cq_def pl_mr_def pl_pd_def pl_channel_def pl_device_def pl_buffer_def

text \<open>The end of \<open>pp_close_ctx\<close>, from the completion queue on.\<close>

definition pl_close :: "api_env \<Rightarrow> 'a plain_ctx_scheme \<Rightarrow> int prog" where
  "pl_close E ctx = do {
     r \<leftarrow> invoke E (Ibv (Destroy_cq (b_cq ctx)));
     if r \<noteq> 0 then ret_io 1 else do {
     r \<leftarrow> invoke E (Ibv (Dereg_mr (b_mr ctx)));
     if r \<noteq> 0 then ret_io 1 else do {
     r \<leftarrow> invoke E (Ibv (Dealloc_pd (b_pd ctx)));
     if r \<noteq> 0 then ret_io 1 else do {
     r \<leftarrow> when_io (b_channel ctx \<noteq> 0) (invoke E (Ibv (Destroy_comp_channel (b_channel ctx))));
     if r \<noteq> 0 then ret_io 1 else do {
     r \<leftarrow> invoke E (Ibv (Close_device (b_context ctx)));
     if r \<noteq> 0 then ret_io 1 else do {
     invoke E (Libc (Free (b_buf ctx)));
     invoke E (Libc (Free (b_self ctx)));
     ret_io 0 }}}}}
   }"

section \<open>Options\<close>

record plain_opts =
  po_devname :: "string option"
  po_servername :: "string option"
  po_port :: int
  po_ib_port :: int
  po_size :: int
  po_mtu :: u32
  po_rx_depth :: int
  po_iters :: int
  po_use_event :: int
  po_sl :: int
  po_gidx :: int

definition plain_default :: plain_opts where
  "plain_default = \<lparr>po_devname = None, po_servername = None, po_port = 18515, po_ib_port = 1,
     po_size = 4096, po_mtu = 3, po_rx_depth = 500, po_iters = 1000, po_use_event = 0, po_sl = 0,
     po_gidx = - 1\<rparr>"

text \<open>As in rc_pingpong.c, \<open>None\<close> is the usage message and the status 1.\<close>

definition plain_opt ::
    "char \<times> string \<Rightarrow> 'a plain_opts_scheme \<Rightarrow> 'a plain_opts_scheme option" where
  "plain_opt ca opt = (case ca of (c, optarg) \<Rightarrow>
     if c = CHR ''p'' then
       (let p = strtol_int optarg in if p < 0 \<or> p > 65535 then None else Some (opt\<lparr>po_port := p\<rparr>))
     else if c = CHR ''d'' then Some (opt\<lparr>po_devname := Some optarg\<rparr>)
     else if c = CHR ''i'' then
       (let p = strtol_int optarg in if p < 0 then None else Some (opt\<lparr>po_ib_port := p\<rparr>))
     else if c = CHR ''s'' then Some (opt\<lparr>po_size := strtol_int optarg\<rparr>)
     else if c = CHR ''m'' then
       (let m = pp_mtu_to_enum (strtol_int optarg) in
        if m < (0 :: u32) then None else Some (opt\<lparr>po_mtu := m\<rparr>))
     else if c = CHR ''r'' then Some (opt\<lparr>po_rx_depth := strtol_int optarg\<rparr>)
     else if c = CHR ''n'' then Some (opt\<lparr>po_iters := strtol_int optarg\<rparr>)
     else if c = CHR ''l'' then Some (opt\<lparr>po_sl := strtol_int optarg\<rparr>)
     else if c = CHR ''e'' then Some (opt\<lparr>po_use_event := po_use_event opt + 1\<rparr>)
     else if c = CHR ''g'' then Some (opt\<lparr>po_gidx := strtol_int optarg\<rparr>)
     else None)"

text \<open>The argument left over, if any, names the server.\<close>

definition plain_args :: "string list \<Rightarrow> 'a plain_opts_scheme \<Rightarrow> 'a plain_opts_scheme option" where
  "plain_args args opt =
    (if length args > 1 then None
     else Some (if args = [] then opt else opt\<lparr>po_servername := Some (hd args)\<rparr>))"

section \<open>Waiting for completions\<close>

text \<open>Waiting for an event; \<open>None\<close> is a failure, otherwise the new count of events.\<close>

definition pl_wait_event :: "api_env \<Rightarrow> 'a plain_ctx_scheme \<Rightarrow> int \<Rightarrow> int option prog" where
  "pl_wait_event E ctx nev = do {
     (r, ev) \<leftarrow> invoke_attr E (Data (Get_cq_event (b_channel ctx)));
     if r \<noteq> 0 then ret_io None
     else if ev ''ev_cq'' \<noteq> b_cq ctx then ret_io None
     else do {
       r \<leftarrow> invoke E (Data (Req_notify_cq (b_cq ctx)));
       ret_io (if r \<noteq> 0 then None else Some (nev + 1)) } }"

text \<open>
  \<open>do ... while (!use_event && ne < 1)\<close>, polling for up to \<open>n\<close> completions;
  \<open>None\<close> when \<open>fuel\<close> polls were not enough.
\<close>

fun pl_poll :: "api_env \<Rightarrow> nat \<Rightarrow> bool \<Rightarrow> ptr \<Rightarrow> int \<Rightarrow> (int \<times> wc list) option prog" where
  "pl_poll E 0 use_event q n = ret_io None"
| "pl_poll E (Suc fuel) use_event q n = do {
     (ne, wcs) \<leftarrow> invoke_wcs E (Data (Poll_cq q n));
     if ne < 0 then ret_io (Some (ne, wcs))
     else if \<not> use_event \<and> ne < 1 then pl_poll E fuel use_event q n
     else ret_io (Some (ne, wcs)) }"

section \<open>The loop of one queue pair\<close>

text \<open>
  The ping-pong loop, the same in uc_pingpong.c and ud_pingpong.c but for the functions that
  post: \<open>recv n\<close> is \<open>pp_post_recv(ctx, n)\<close> and \<open>post\<close> is \<open>pp_post_send\<close>.
\<close>

definition pl_after_wc :: "int prog \<Rightarrow> int \<Rightarrow> int \<Rightarrow> loop_st \<Rightarrow> (int + loop_st) prog" where
  "pl_after_wc post iters wr_id st = do {
     let st = st\<lparr>pend := pend st AND NOT wr_id\<rparr>;
     if scnt st < iters \<and> pend st = 0 then do {
       r \<leftarrow> post;
       ret_io (if r \<noteq> 0 then Inl 1
               else Inr (st\<lparr>pend := PINGPONG_RECV_WRID OR PINGPONG_SEND_WRID\<rparr>))
     } else ret_io (Inr st) }"

definition pl_handle_wc ::
    "(int \<Rightarrow> int prog) \<Rightarrow> int prog \<Rightarrow> int \<Rightarrow> int \<Rightarrow> wc \<Rightarrow> loop_st \<Rightarrow> (int + loop_st) prog" where
  "pl_handle_wc recv post depth iters w st =
    (if wc_status w \<noteq> 0 then ret_io (Inl 1)
     else let wr_id = to_int32 (wc_wr_id w) in
       if wr_id = PINGPONG_SEND_WRID then pl_after_wc post iters wr_id (st\<lparr>scnt := scnt st + 1\<rparr>)
       else if wr_id = PINGPONG_RECV_WRID then
         (let st = st\<lparr>routs := routs st - 1\<rparr> in
          if routs st \<le> 1 then do {
            n \<leftarrow> recv (depth - routs st);
            let st = st\<lparr>routs := routs st + n\<rparr>;
            if routs st < depth then ret_io (Inl 1)
            else pl_after_wc post iters wr_id (st\<lparr>rcnt := rcnt st + 1\<rparr>)
          } else pl_after_wc post iters wr_id (st\<lparr>rcnt := rcnt st + 1\<rparr>))
       else ret_io (Inl 1))"

fun pl_handle_wcs ::
    "(wc \<Rightarrow> loop_st \<Rightarrow> (int + loop_st) prog) \<Rightarrow> wc list \<Rightarrow> loop_st \<Rightarrow> (int + loop_st) prog" where
  "pl_handle_wcs handle [] st = ret_io (Inr st)"
| "pl_handle_wcs handle (w # ws) st = do {
     r \<leftarrow> handle w st;
     case r of Inl e \<Rightarrow> ret_io (Inl e) | Inr st' \<Rightarrow> pl_handle_wcs handle ws st' }"

definition pl_loop_body ::
    "api_env \<Rightarrow> 'a plain_ctx_scheme \<Rightarrow> (wc \<Rightarrow> loop_st \<Rightarrow> (int + loop_st) prog) \<Rightarrow> bool \<Rightarrow> nat \<Rightarrow> loop_st
      \<Rightarrow> (int + loop_st) option prog" where
  "pl_loop_body E ctx handle use_event fuel st = do {
     w \<leftarrow> (if use_event then pl_wait_event E ctx (num_cq_events st) else ret_io (Some (num_cq_events st)));
     case w of None \<Rightarrow> ret_io (Some (Inl 1))
     | Some ev \<Rightarrow> do {
         b \<leftarrow> pl_poll E fuel use_event (b_cq ctx) 2;
         case b of None \<Rightarrow> ret_io None
         | Some (ne, wcs) \<Rightarrow>
             if ne < 0 then ret_io (Some (Inl 1))
             else do {
               r \<leftarrow> pl_handle_wcs handle wcs (st\<lparr>num_cq_events := ev\<rparr>);
               ret_io (Some r) } } }"

fun pl_loop ::
    "api_env \<Rightarrow> 'a plain_ctx_scheme \<Rightarrow> (wc \<Rightarrow> loop_st \<Rightarrow> (int + loop_st) prog) \<Rightarrow> int \<Rightarrow> bool \<Rightarrow> nat
      \<Rightarrow> loop_st \<Rightarrow> (int + loop_st) option prog" where
  "pl_loop E ctx handle iters use_event 0 st = ret_io None"
| "pl_loop E ctx handle iters use_event (Suc fuel) st =
    (if rcnt st < iters \<or> scnt st < iters then do {
       r \<leftarrow> pl_loop_body E ctx handle use_event (Suc fuel) st;
       case r of None \<Rightarrow> ret_io None
       | Some (Inl e) \<Rightarrow> ret_io (Some (Inl e))
       | Some (Inr st') \<Rightarrow> pl_loop E ctx handle iters use_event fuel st'
     } else ret_io (Some (Inr st)))"

text \<open>The step of rc_pingpong.c is the same function of its own operations.\<close>

lemma rc_handle_wc:
  "handle_wc E g ctx = pl_handle_wc (pp_post_recv E g ctx) (pp_post_send E g ctx) (rx_depth ctx)"
  unfolding handle_wc_def pl_handle_wc_def after_wc_def pl_after_wc_def fun_eq_iff by simp

section \<open>What is held\<close>

definition own_pl_device :: "'a plain_ctx_scheme \<Rightarrow> (res \<times> int) multiset" where
  "own_pl_device c = {#(Device, b_context c), (Heap, b_buf c), (Heap, b_self c)#}"

definition own_pl_pd :: "'a plain_ctx_scheme \<Rightarrow> (res \<times> int) multiset" where
  "own_pl_pd c = add_mset (Pd, b_pd c)
     ((if b_channel c \<noteq> 0 then {#(Channel, b_channel c)#} else {#}) + own_pl_device c)"

definition plain_owns :: "'a plain_ctx_scheme \<Rightarrow> (res \<times> int) multiset" where
  "plain_owns c = {#(Cq, b_cq c), (Mr, b_mr c)#} + own_pl_pd c"

definition plain_ok :: "'a plain_ctx_scheme \<Rightarrow> bool" where
  "plain_ok c \<longleftrightarrow> b_self c \<noteq> 0 \<and> b_buf c \<noteq> 0"

lemmas own_pl_defs = own_pl_device_def own_pl_pd_def plain_owns_def plain_ok_def

text \<open>The outcome of making a context: it owns what was acquired, or nothing was.\<close>

definition made ::
    "('c \<Rightarrow> (res \<times> int) multiset) \<Rightarrow> ('c \<Rightarrow> bool) \<Rightarrow> (res \<times> int) multiset \<Rightarrow> 'c option
      \<Rightarrow> (res \<times> int) multiset \<Rightarrow> bool" where
  "made own good M r M' \<longleftrightarrow> (case r of None \<Rightarrow> M' = M | Some c \<Rightarrow> M' = M + own c \<and> good c)"

lemma made_simps [simp]:
  "made own good M None M' \<longleftrightarrow> M' = M" "made own good M (Some c) M' \<longleftrightarrow> M' = M + own c \<and> good c"
  by (simp_all add: made_def)

lemma sat_pl_clean_buffer:
  "plain_ok c \<Longrightarrow> M = M0 + {#(Heap, b_buf c), (Heap, b_self c)#} \<Longrightarrow>
   sat track (pl_clean_buffer E c) M (made own good M0)"
  unfolding pl_clean_defs by (auto intro!: sat_intro simp: plain_ok_def track_simps)

lemma sat_pl_clean_device:
  "plain_ok c \<Longrightarrow> M = M0 + own_pl_device c \<Longrightarrow> sat track (pl_clean_device E c) M (made own good M0)"
  unfolding pl_clean_device_def
  by (auto intro!: sat_intro sat_pl_clean_buffer simp: own_pl_defs track_simps)

lemma sat_pl_clean_comp_channel:
  "plain_ok c \<Longrightarrow> add_mset (Pd, b_pd c) M = M0 + own_pl_pd c \<Longrightarrow>
   sat track (pl_clean_comp_channel E c) M (made own good M0)"
  unfolding pl_clean_comp_channel_def
  by (auto intro!: sat_intro sat_pl_clean_device simp: own_pl_pd_def track_simps)

lemma sat_pl_clean_pd:
  "plain_ok c \<Longrightarrow> M = M0 + own_pl_pd c \<Longrightarrow> sat track (pl_clean_pd E c) M (made own good M0)"
  unfolding pl_clean_pd_def
  by (auto intro!: sat_intro sat_pl_clean_comp_channel simp: own_pl_pd_def track_simps)

lemma sat_pl_clean_mr:
  "plain_ok c \<Longrightarrow> M = M0 + add_mset (Mr, b_mr c) (own_pl_pd c) \<Longrightarrow>
   sat track (pl_clean_mr E c) M (made own good M0)"
  unfolding pl_clean_mr_def by (auto intro!: sat_intro sat_pl_clean_pd simp: track_simps)

lemma sat_pl_clean_cq:
  "plain_ok c \<Longrightarrow> M = M0 + plain_owns c \<Longrightarrow> sat track (pl_clean_cq E c) M (made own good M0)"
  unfolding pl_clean_cq_def
  by (auto intro!: sat_intro sat_pl_clean_mr simp: plain_owns_def track_simps)

text \<open>
  The setup: if what follows keeps the contract from every context that owns the shared
  resources, so does the whole.
\<close>

lemma own_pl_updates [simp]:
  "own_pl_pd (c\<lparr>b_cq := x\<rparr>) = own_pl_pd c" "own_pl_pd (c\<lparr>b_mr := x\<rparr>) = own_pl_pd c"
  "own_pl_pd (c\<lparr>b_lkey := l\<rparr>) = own_pl_pd c"
  "plain_ok (c\<lparr>b_cq := x\<rparr>) = plain_ok c" "plain_ok (c\<lparr>b_mr := x\<rparr>) = plain_ok c"
  "plain_ok (c\<lparr>b_lkey := l\<rparr>) = plain_ok c" "plain_ok (c\<lparr>b_pd := x\<rparr>) = plain_ok c"
  "plain_ok (c\<lparr>b_channel := x\<rparr>) = plain_ok c" "plain_ok (c\<lparr>b_context := x\<rparr>) = plain_ok c"
  by (simp_all add: own_pl_defs)

definition continues ::
    "('a plain_ctx_scheme \<Rightarrow> 'c option prog) \<Rightarrow> ('c \<Rightarrow> (res \<times> int) multiset) \<Rightarrow> ('c \<Rightarrow> bool)
      \<Rightarrow> (res \<times> int) multiset \<Rightarrow> 'a \<Rightarrow> bool" where
  "continues k own good M0 m \<longleftrightarrow> (\<forall>c. plain_ok c \<and> plain_ctx.more c = m \<longrightarrow>
     sat track (k c) (M0 + plain_owns c) (made own good M0))"

lemma continuesD:
  "continues k own good M0 m \<Longrightarrow> plain_ok c \<Longrightarrow> plain_ctx.more c = m \<Longrightarrow> M = M0 + plain_owns c \<Longrightarrow>
   sat track (k c) M (made own good M0)"
  by (simp add: continues_def)

lemma sat_pl_mr:
  assumes "continues k own good M0 m" and "plain_ok c" and "plain_ctx.more c = m"
    and "M = M0 + own_pl_pd c"
  shows "sat track (pl_mr E len cqe k c) M (made own good M0)"
  using assms(2-) unfolding pl_mr_def pl_cq_def
  by (auto intro!: sat_intro sat_pl_clean_pd sat_pl_clean_mr continuesD [OF assms(1)]
      simp: track_simps plain_owns_def)

lemma sat_pl_pd:
  assumes "continues k own good M0 m" and "plain_ok c" and "plain_ctx.more c = m"
    and "add_mset (Pd, b_pd c) M = M0 + own_pl_pd c"
  shows "sat track (pl_pd E len cqe k c) M (made own good M0)"
  using assms(2-) unfolding pl_pd_def
  by (auto intro!: sat_intro sat_pl_clean_comp_channel sat_pl_mr [OF assms(1)]
      simp: track_simps own_pl_pd_def own_pl_device_def)

lemma sat_pl_channel:
  assumes "continues k own good M0 m" and "plain_ok c" and "plain_ctx.more c = m"
    and "M = M0 + own_pl_device c"
  shows "sat track (pl_channel E len cqe ev k c) M (made own good M0)"
  using assms(2-) unfolding pl_channel_def
  by (auto intro!: sat_intro sat_pl_clean_device sat_pl_pd [OF assms(1)]
      simp: track_simps own_pl_pd_def own_pl_device_def)

lemma sat_pl_buffer:
  assumes "continues k own good M0 m" and "b_self c \<noteq> 0" and "plain_ctx.more c = m"
    and "M = M0 + {#(Heap, b_self c)#}"
  shows "sat track (pl_buffer E ps dev len cqe ev k c) M (made own good M0)"
  using assms(2-) unfolding pl_buffer_def pl_device_def pl_clean_ctx_def
  by (auto intro!: sat_intro sat_pl_clean_buffer sat_pl_channel [OF assms(1)]
      simp: track_simps own_pl_device_def plain_ok_def)

text \<open>Closing gives back everything when it succeeds, and nothing it does not own otherwise.\<close>

definition given_back :: "(res \<times> int) multiset \<Rightarrow> bool \<Rightarrow> (res \<times> int) multiset \<Rightarrow> bool" where
  "given_back M r M' \<longleftrightarrow> (if r then M' = M else M \<subseteq># M')"

lemma given_back_simps:
  "given_back M True M' \<longleftrightarrow> M' = M" "given_back M False M' \<longleftrightarrow> M \<subseteq># M'"
  "given_back M b (M + N) \<longleftrightarrow> \<not> b \<or> N = {#}"
  by (auto simp: given_back_def)

lemma given_back_sub: "given_back (M + N) b M' \<Longrightarrow> \<not> b \<Longrightarrow> M \<subseteq># M'"
  by (auto simp: given_back_def dest: subset_mset.order_trans [OF mset_subset_eq_add_left])

lemma sat_pl_close:
  assumes "plain_ok c"
  shows "sat track (pl_close E c) (M + plain_owns c) (\<lambda>r. given_back M (r = 0))"
  using assms unfolding pl_close_def
  by (auto intro!: sat_intro simp: track_simps own_pl_defs given_back_def)

text \<open>
  The loop under any automaton that polling and waiting do not move: what its operations keep,
  the loop keeps.
\<close>

definition polls_free :: "('q \<Rightarrow> api \<Rightarrow> int \<Rightarrow> 'q option) \<Rightarrow> bool" where
  "polls_free f \<longleftrightarrow> (\<forall>M r q n. f M (Data (Poll_cq q n)) r = Some M
     \<and> f M (Data (Get_cq_event q)) r = Some M \<and> f M (Data (Req_notify_cq q)) r = Some M)"

lemma polls_freeD:
  assumes "polls_free f"
  shows "f M (Data (Poll_cq q n)) r = Some M" "f M (Data (Get_cq_event q)) r = Some M"
    "f M (Data (Req_notify_cq q)) r = Some M"
  using assms by (simp_all add: polls_free_def)

lemma polls_free_track: "polls_free track"
  by (simp add: polls_free_def track_simps)

lemma keeps_pl_poll: "polls_free f \<Longrightarrow> sat f (pl_poll E fuel ev q n) M (unchanged M)"
  by (induction fuel) (auto intro!: sat_intro simp: unchanged_def polls_freeD)

lemma keeps_pl_wait_event: "polls_free f \<Longrightarrow> sat f (pl_wait_event E c n) M (unchanged M)"
  unfolding pl_wait_event_def by (auto intro!: sat_intro simp: unchanged_def polls_freeD)

lemmas held_pl_poll = keeps_pl_poll [OF polls_free_track]
lemmas held_pl_wait_event = keeps_pl_wait_event [OF polls_free_track]

text \<open>It ends normally or with a status other than 0.\<close>

lemma keeps_pl_handle_wc:
  assumes "\<And>n. sat f (recv n) M (unchanged M)" and "sat f post M (unchanged M)"
  shows "sat f (pl_handle_wc recv post depth iters w st) M (quiet M)"
  unfolding pl_handle_wc_def pl_after_wc_def Let_def
  by (auto intro!: sat_intro sat_conseq [OF assms(1)] sat_conseq [OF assms(2)] simp: quiet_defs)

lemma keeps_pl_handle_wcs:
  assumes "\<And>w st. sat f (handle w st) M (quiet M)"
  shows "sat f (pl_handle_wcs handle ws st) M (quiet M)"
  by (induction ws arbitrary: st) (auto intro!: sat_intro sat_conseq [OF assms] simp: quiet_def)

lemma keeps_pl_loop:
  assumes "polls_free f" and "\<And>w st. sat f (handle w st) M (quiet M)"
  shows "sat f (pl_loop E ctx handle iters ev fuel st) M (quiet_opt M)"
proof (induction fuel arbitrary: st)
  case (Suc fuel)
  have "sat f (pl_loop_body E ctx handle ev fuel' st) M (quiet_opt M)" for fuel'
    unfolding pl_loop_body_def
    by (auto intro!: sat_intro sat_conseq [OF keeps_pl_poll [OF assms(1)]]
        sat_conseq [OF keeps_pl_wait_event [OF assms(1)]]
        sat_conseq [OF keeps_pl_handle_wcs [OF assms(2)]] simp: quiet_defs)
  note body = sat_conseq [OF this]
  show ?case unfolding pl_loop.simps
    by (auto intro!: sat_intro body sat_conseq [OF Suc] simp: quiet_opt_def)
qed (auto intro!: sat_intro simp: quiet_opt_def)

lemmas held_pl_handle_wc = keeps_pl_handle_wc [where f = track]
lemmas held_pl_loop = keeps_pl_loop [OF polls_free_track]

section \<open>The queue pair\<close>

text \<open>Nothing in the shared part touches the state of a queue pair.\<close>

lemma qp_pl_clean:
  "(\<And>c. Q None c) \<Longrightarrow> sat (qp_step p) (pl_clean_ctx E c) s Q"
  "(\<And>c. Q None c) \<Longrightarrow> sat (qp_step p) (pl_clean_buffer E c) s Q"
  "(\<And>c. Q None c) \<Longrightarrow> sat (qp_step p) (pl_clean_device E c) s Q"
  "(\<And>c. Q None c) \<Longrightarrow> sat (qp_step p) (pl_clean_comp_channel E c) s Q"
  "(\<And>c. Q None c) \<Longrightarrow> sat (qp_step p) (pl_clean_pd E c) s Q"
  "(\<And>c. Q None c) \<Longrightarrow> sat (qp_step p) (pl_clean_mr E c) s Q"
  "(\<And>c. Q None c) \<Longrightarrow> sat (qp_step p) (pl_clean_cq E c) s Q"
  unfolding pl_clean_defs by (auto intro!: sat_intro)

lemma qp_pl_buffer:
  assumes "\<And>c. sat (qp_step p) (k c) s Q" and "\<And>c. Q None c"
  shows "sat (qp_step p) (pl_buffer E ps dev len cqe ev k c) s Q"
  unfolding pl_setup_defs by (auto intro!: sat_intro qp_pl_clean assms)

end
