(* ===== verification/SrqContext.thy ===== *)
theory SrqContext
  imports PlainContext
begin

text \<open>
  The context of srq_pingpong.c: \<open>num_qp\<close> queue pairs that take their receives from one
  shared receive queue.  \<open>pp_connect_ctx\<close>, \<open>pp_init_ctx\<close> with its labels,
  \<open>pp_close_ctx\<close>, \<open>pp_post_recv\<close>, \<open>pp_post_send\<close> and \<open>find_qp\<close>.
\<close>

section \<open>State\<close>

text \<open>\<open>ctx->qp\<close> is an array of handles; with each handle its \<open>qp_num\<close>.\<close>

record srq_ctx = plain_ctx +
  q_srq :: ptr
  q_array :: ptr
  q_qps :: "(ptr \<times> u32) list"
  q_num_qp :: int
  q_pending :: ptr

definition new_srq_ctx :: "ptr \<Rightarrow> int \<Rightarrow> int \<Rightarrow> int \<Rightarrow> srq_ctx" where
  "new_srq_ctx p sz n rx = \<lparr>b_self = p, b_context = 0, b_channel = 0, b_pd = 0, b_mr = 0, b_lkey = 0,
     b_cq = 0, b_buf = 0, b_size = sz, b_rx_depth = rx, q_srq = 0, q_array = 0, q_qps = [],
     q_num_qp = n, q_pending = 0\<rparr>"

section \<open>pp_connect_ctx\<close>

text \<open>
  The loop over the queue pairs.  Each takes its own LID, QP number and PSN, and all of them the
  GID \<open>g\<close> of the first destination (\<open>dest->gid\<close>).
\<close>

fun srq_connect_qps ::
    "api_env \<Rightarrow> int \<Rightarrow> u32 \<Rightarrow> int \<Rightarrow> gid \<Rightarrow> int \<Rightarrow> (ptr \<times> pp_dest \<times> pp_dest) list \<Rightarrow> int prog" where
  "srq_connect_qps E port mtu sl g sgid_idx [] = ret_io 0"
| "srq_connect_qps E port mtu sl g sgid_idx ((q, my, d) # qs) = do {
     let attr = rtr_attr mtu (d_lid d) (d_qpn d) (d_psn d) sl port g sgid_idx;
     r \<leftarrow> invoke E (Ibv (Modify_qp q attr
            {M_STATE, M_AV, M_PATH_MTU, M_DEST_QPN, M_RQ_PSN, M_MAX_DEST_RD_ATOMIC, M_MIN_RNR_TIMER}));
     if r \<noteq> 0 then ret_io 1
     else do {
       r' \<leftarrow> invoke E (Ibv (Modify_qp q (rts_attr (d_psn my) attr)
               {M_STATE, M_TIMEOUT, M_RETRY_CNT, M_RNR_RETRY, M_SQ_PSN, M_MAX_QP_RD_ATOMIC}));
       if r' \<noteq> 0 then ret_io 1
       else srq_connect_qps E port mtu sl g sgid_idx qs } }"

definition srq_connect_ctx ::
    "api_env \<Rightarrow> srq_ctx \<Rightarrow> int \<Rightarrow> u32 \<Rightarrow> int \<Rightarrow> pp_dest list \<Rightarrow> pp_dest list \<Rightarrow> int \<Rightarrow> int prog" where
  "srq_connect_ctx E ctx port mtu sl my_dest dest sgid_idx =
     srq_connect_qps E port mtu sl (d_gid (hd dest)) sgid_idx
       (zip (map fst (q_qps ctx)) (zip my_dest dest))"

section \<open>pp_init_ctx\<close>

text \<open>\<open>for (--i; i >= 0; --i) ibv_destroy_qp(ctx->qp[i])\<close>, on the queue pairs made, last first.\<close>

fun srq_destroy_qps :: "api_env \<Rightarrow> ptr list \<Rightarrow> unit prog" where
  "srq_destroy_qps E [] = ret_io ()"
| "srq_destroy_qps E (q # qs) = do { invoke E (Ibv (Destroy_qp q)); srq_destroy_qps E qs }"

definition srq_clean_srq :: "api_env \<Rightarrow> srq_ctx \<Rightarrow> srq_ctx option prog" where
  "srq_clean_srq E ctx = do { invoke E (Ibv (Destroy_srq (q_srq ctx))); pl_clean_cq E ctx }"

definition srq_clean_qps :: "api_env \<Rightarrow> srq_ctx \<Rightarrow> srq_ctx option prog" where
  "srq_clean_qps E ctx = do {
     srq_destroy_qps E (rev (map fst (q_qps ctx)));
     invoke E (Libc (Free (q_array ctx)));
     srq_clean_srq E ctx }"

definition srq_qp_init :: "srq_ctx \<Rightarrow> qp_init" where
  "srq_qp_init ctx = zero_qp_init\<lparr>send_cq := b_cq ctx, recv_cq := b_cq ctx, qi_srq := q_srq ctx,
     max_send_wr := 1, max_send_sge := 1, qi_type := QPT_RC\<rparr>"

text \<open>
  The loop that creates the queue pairs, with the iterations left; the boolean says whether it
  came to its end.
\<close>

fun srq_create_qps :: "api_env \<Rightarrow> nat \<Rightarrow> srq_ctx \<Rightarrow> (bool \<times> srq_ctx) prog" where
  "srq_create_qps E 0 ctx = ret_io (True, ctx)"
| "srq_create_qps E (Suc n) ctx = do {
     (p, a) \<leftarrow> invoke_attr E (Ibv (Create_qp (b_pd ctx) (srq_qp_init ctx)));
     if p = 0 then ret_io (False, ctx)
     else srq_create_qps E n (ctx\<lparr>q_qps := q_qps ctx @ [(p, word_of_int (a ''qp_num''))]\<rparr>) }"

text \<open>The loop that moves them to \<open>INIT\<close>.\<close>

fun srq_init_qps :: "api_env \<Rightarrow> int \<Rightarrow> ptr list \<Rightarrow> bool prog" where
  "srq_init_qps E port [] = ret_io True"
| "srq_init_qps E port (q # qs) = do {
     r \<leftarrow> invoke E (Ibv (Modify_qp q
            (zero_qp_attr\<lparr>qp_state := QPS_INIT, pkey_index := 0, port_num := port,
                          qp_access_flags := 0\<rparr>)
            {M_STATE, M_PKEY_INDEX, M_PORT, M_ACCESS_FLAGS}));
     if r \<noteq> 0 then ret_io False else srq_init_qps E port qs }"

definition srq_queues :: "api_env \<Rightarrow> int \<Rightarrow> int \<Rightarrow> srq_ctx \<Rightarrow> srq_ctx option prog" where
  "srq_queues E n port ctx = do {
     (complete, ctx) \<leftarrow> srq_create_qps E (nat n) ctx;
     if \<not> complete then srq_clean_qps E ctx
     else do {
       ok \<leftarrow> srq_init_qps E port (map fst (q_qps ctx));
       if \<not> ok then srq_clean_qps E ctx else ret_io (Some ctx) } }"

text \<open>From \<open>ibv_create_srq\<close> on.\<close>

definition srq_after_cq :: "api_env \<Rightarrow> int \<Rightarrow> int \<Rightarrow> int \<Rightarrow> srq_ctx \<Rightarrow> srq_ctx option prog" where
  "srq_after_cq E n rx port ctx = do {
     s \<leftarrow> invoke E (Ibv (Create_srq (b_pd ctx) rx 1));
     if s = 0 then pl_clean_cq E ctx
     else do {
       let ctx = ctx\<lparr>q_srq := s\<rparr>;
       p \<leftarrow> invoke E (Libc (Calloc ''qp''));
       if p = 0 then srq_clean_srq E ctx else srq_queues E n port (ctx\<lparr>q_array := p\<rparr>) } }"

definition srq_init_ctx ::
    "api_env \<Rightarrow> int \<Rightarrow> ptr \<Rightarrow> int \<Rightarrow> int \<Rightarrow> int \<Rightarrow> int \<Rightarrow> int \<Rightarrow> srq_ctx option prog" where
  "srq_init_ctx E psize ib_dev sz n rx port use_event = do {
     p \<leftarrow> invoke E (Libc (Calloc ''pingpong_context''));
     if p = 0 then ret_io None
     else pl_buffer E psize ib_dev sz (rx + n) use_event (srq_after_cq E n rx port)
            (new_srq_ctx p sz n rx) }"

section \<open>pp_close_ctx\<close>

fun srq_destroy_checked :: "api_env \<Rightarrow> ptr list \<Rightarrow> bool prog" where
  "srq_destroy_checked E [] = ret_io True"
| "srq_destroy_checked E (q # qs) = do {
     r \<leftarrow> invoke E (Ibv (Destroy_qp q));
     if r \<noteq> 0 then ret_io False else srq_destroy_checked E qs }"

definition srq_close_ctx :: "api_env \<Rightarrow> srq_ctx \<Rightarrow> int \<Rightarrow> int prog" where
  "srq_close_ctx E ctx n = do {
     ok \<leftarrow> srq_destroy_checked E (take (nat n) (map fst (q_qps ctx)));
     if \<not> ok then ret_io 1
     else do {
       invoke E (Libc (Free (q_array ctx)));
       r \<leftarrow> invoke E (Ibv (Destroy_srq (q_srq ctx)));
       if r \<noteq> 0 then ret_io 1 else pl_close E ctx } }"

section \<open>Work requests\<close>

text \<open>\<open>sge.length\<close> has 32 bits and no sign.\<close>

definition plain_sge :: "'a plain_ctx_scheme \<Rightarrow> sge" where
  "plain_sge ctx = \<lparr>sg_addr = b_buf ctx, sg_length = b_size ctx mod 2 ^ 32, sg_lkey = b_lkey ctx\<rparr>"

fun srq_post_loop :: "api_env \<Rightarrow> ptr \<Rightarrow> recv_wr \<Rightarrow> nat \<Rightarrow> int \<Rightarrow> int prog" where
  "srq_post_loop E s wr 0 i = ret_io i"
| "srq_post_loop E s wr (Suc n) i = do {
     r \<leftarrow> invoke E (Data (Post_srq_recv s [wr]));
     if r \<noteq> 0 then ret_io i else srq_post_loop E s wr n (i + 1) }"

definition srq_post_recv :: "api_env \<Rightarrow> srq_ctx \<Rightarrow> int \<Rightarrow> int prog" where
  "srq_post_recv E ctx n =
     srq_post_loop E (q_srq ctx) \<lparr>rwr_id = PINGPONG_RECV_WRID, rwr_sges = [plain_sge ctx]\<rparr> (nat n) 0"

definition srq_post_send :: "api_env \<Rightarrow> srq_ctx \<Rightarrow> nat \<Rightarrow> int prog" where
  "srq_post_send E ctx qp_index =
     invoke E (Data (Post_send (fst (q_qps ctx ! qp_index)) [\<lparr>swr_id = PINGPONG_SEND_WRID,
       swr_opcode = WR_SEND, swr_sges = [plain_sge ctx], swr_signaled = True, swr_imm = 0,
       swr_remote_addr = 0, swr_rkey = 0, swr_ah = 0, swr_remote_qpn = 0, swr_remote_qkey = 0,
     swr_remote_srqn = 0, swr_dct_key = 0, swr_dct_number = 0\<rparr>]))"

text \<open>The loop of \<open>find_qp\<close> at index \<open>i\<close>; \<open>None\<close> is -1.\<close>

fun find_qp_from :: "nat \<Rightarrow> (ptr \<times> u32) list \<Rightarrow> u32 \<Rightarrow> nat option" where
  "find_qp_from i [] n = None"
| "find_qp_from i (q # qs) n = (if snd q = n then Some i else find_qp_from (Suc i) qs n)"

definition find_qp :: "u32 \<Rightarrow> srq_ctx \<Rightarrow> nat option" where
  "find_qp n ctx = find_qp_from 0 (q_qps ctx) n"

section \<open>What a context owns\<close>

definition qps_bag :: "ptr list \<Rightarrow> (res \<times> int) multiset" where
  "qps_bag qs = mset (map (Pair Qp) qs)"

lemma qps_bag_simps [simp]:
  "qps_bag [] = {#}" "qps_bag (q # qs) = add_mset (Qp, q) (qps_bag qs)"
  "qps_bag (qs @ rs) = qps_bag qs + qps_bag rs" "qps_bag (rev qs) = qps_bag qs"
  by (simp_all add: qps_bag_def)

definition srq_part :: "srq_ctx \<Rightarrow> (res \<times> int) multiset" where
  "srq_part c = {#(Srq, q_srq c), (Heap, q_array c)#}"

definition srq_owns :: "srq_ctx \<Rightarrow> (res \<times> int) multiset" where
  "srq_owns c = qps_bag (map fst (q_qps c)) + srq_part c + plain_owns c"

definition srq_wf :: "srq_ctx \<Rightarrow> bool" where
  "srq_wf c \<longleftrightarrow> plain_ok c \<and> q_array c \<noteq> 0"

text \<open>A context of \<open>n\<close> queue pairs.\<close>

definition srq_complete :: "int \<Rightarrow> srq_ctx \<Rightarrow> bool" where
  "srq_complete n c \<longleftrightarrow> srq_wf c \<and> length (q_qps c) = nat n \<and> q_num_qp c = n"

lemma srq_updates [simp]:
  "srq_part (c\<lparr>q_qps := x\<rparr>) = srq_part c" "srq_wf (c\<lparr>q_qps := x\<rparr>) = srq_wf c"
  "plain_owns (c\<lparr>q_qps := x\<rparr>) = plain_owns c" "plain_owns (c\<lparr>q_srq := y\<rparr>) = plain_owns c"
  "plain_owns (c\<lparr>q_array := y\<rparr>) = plain_owns c" "plain_ok (c\<lparr>q_srq := y\<rparr>) = plain_ok c"
  "plain_ok (c\<lparr>q_array := y\<rparr>) = plain_ok c" "plain_ok (c\<lparr>q_qps := x\<rparr>) = plain_ok c"
  for c :: srq_ctx
  by (simp_all add: srq_part_def srq_wf_def own_pl_defs)

lemma sat_srq_destroy_qps:
  "M = M0 + qps_bag qs \<Longrightarrow> sat track (srq_destroy_qps E qs) M (\<lambda>_ M'. M' = M0)"
proof (induction qs arbitrary: M)
  case (Cons q qs)
  then show ?case by (auto intro!: sat_intro simp: track_simps)
qed (auto intro!: sat_intro)

lemma sat_srq_clean_srq:
  assumes "plain_ok c" and "M = M0 + add_mset (Srq, q_srq c) (plain_owns c)"
  shows "sat track (srq_clean_srq E c) M (made own good M0)"
  using assms unfolding srq_clean_srq_def
  by (auto intro!: sat_intro sat_pl_clean_cq simp: track_simps)

lemma sat_srq_clean_qps:
  assumes "srq_wf c" and "M = M0 + srq_owns c"
  shows "sat track (srq_clean_qps E c) M (made own good M0)"
proof -
  have "sat track (srq_destroy_qps E (rev (map fst (q_qps c)))) M
      (\<lambda>_ M'. M' = M0 + srq_part c + plain_owns c)"
    by (rule sat_srq_destroy_qps) (simp add: assms(2) srq_owns_def)
  with assms(1) show ?thesis unfolding srq_clean_qps_def
    by (auto intro!: sat_bind sat_invoke sat_srq_clean_srq elim!: sat_conseq
        simp: track_simps srq_wf_def srq_part_def)
qed

lemma sat_srq_create_qps:
  assumes "srq_wf c" and "M = M0 + srq_owns c"
  shows "sat track (srq_create_qps E n c) M (\<lambda>r M'. M' = M0 + srq_owns (snd r) \<and> srq_wf (snd r)
     \<and> q_num_qp (snd r) = q_num_qp c \<and> (fst r \<longrightarrow> length (q_qps (snd r)) = length (q_qps c) + n))"
  using assms
proof (induction n arbitrary: c M)
  case (Suc n)
  have step: "sat track (srq_create_qps E n (c\<lparr>q_qps := q_qps c @ [(p, w)]\<rparr>))
      (add_mset (Qp, p) (M0 + srq_owns c))
    (\<lambda>r M'. M' = M0 + srq_owns (snd r) \<and> srq_wf (snd r) \<and> q_num_qp (snd r) = q_num_qp c
       \<and> (fst r \<longrightarrow> length (q_qps (snd r)) = Suc (length (q_qps c) + n)))" for p w
    by (rule sat_conseq, rule Suc.IH) (use Suc.prems in \<open>auto simp: srq_owns_def\<close>)
  show ?case unfolding srq_create_qps.simps Suc.prems(2)
    by (auto intro!: sat_intro step simp: Suc.prems(1) track_calls)
qed (auto intro!: sat_intro)

lemma sat_srq_init_qps: "sat track (srq_init_qps E port qs) M (\<lambda>_ M'. M' = M)"
  by (induction qs) (auto intro!: sat_intro simp: track_simps)

lemma sat_srq_queues:
  assumes "srq_wf c" and "q_qps c = []" and "q_num_qp c = n" and "M = M0 + srq_owns c"
  shows "sat track (srq_queues E n port c) M (made srq_owns (srq_complete n) M0)"
  unfolding srq_queues_def
  by (rule sat_bind, rule sat_conseq [OF sat_srq_create_qps [OF assms(1,4)]])
    (use assms(2,3) in \<open>auto intro!: sat_intro sat_srq_clean_qps sat_conseq [OF sat_srq_init_qps]
      simp: srq_complete_def\<close>)

lemma sat_srq_after_cq:
  assumes "plain_ok c" and "q_qps c = []" and "q_num_qp c = n" and "M = M0 + plain_owns c"
  shows "sat track (srq_after_cq E n rx port c) M (made srq_owns (srq_complete n) M0)"
  using assms unfolding srq_after_cq_def Let_def
  by (auto intro!: sat_intro sat_pl_clean_cq sat_srq_clean_srq sat_srq_queues
      simp: track_simps srq_wf_def srq_owns_def srq_part_def)

lemma sat_srq_init_ctx:
  "sat track (srq_init_ctx E ps dev sz n rx port ev) M (made srq_owns (srq_complete n) M)"
proof -
  have "continues (srq_after_cq E n rx port) srq_owns (srq_complete n) M
      (plain_ctx.more (new_srq_ctx p sz n rx))" for p
    unfolding continues_def
  proof (intro allI impI)
    fix c :: srq_ctx
    assume "plain_ok c \<and> plain_ctx.more c = plain_ctx.more (new_srq_ctx p sz n rx)"
    then show "sat track (srq_after_cq E n rx port c) (M + plain_owns c) (made srq_owns (srq_complete n) M)"
      by (intro sat_srq_after_cq) (cases c; simp add: new_srq_ctx_def)+
  qed
  then show ?thesis unfolding srq_init_ctx_def
    by (auto intro!: sat_intro sat_pl_buffer simp: track_simps new_srq_ctx_def)
qed

lemma sat_srq_destroy_checked:
  "sat track (srq_destroy_checked E qs) (M + qps_bag qs) (given_back M)"
proof (induction qs)
  case (Cons q qs)
  then show ?case by (auto intro!: sat_intro simp: track_calls given_back_def [of _ False])
qed (auto intro!: sat_intro simp: given_back_def)

lemma sat_srq_close_ctx:
  assumes "srq_complete n c"
  shows "sat track (srq_close_ctx E c n) (M + srq_owns c) (\<lambda>r. given_back M (r = 0))"
proof -
  let ?P = "plain_owns c + srq_part c"
  have qs: "take (nat n) (map fst (q_qps c)) = map fst (q_qps c)"
    using assms by (simp add: srq_complete_def)
  have "M + srq_owns c = M + ?P + qps_bag (map fst (q_qps c))"
    by (simp add: srq_owns_def ac_simps)
  then have d: "sat track (srq_destroy_checked E (map fst (q_qps c))) (M + srq_owns c) (given_back (M + ?P))"
    by (simp only: sat_srq_destroy_checked)
  have d: "sat track (srq_destroy_checked E (map fst (q_qps c))) (M + srq_owns c)
      (\<lambda>r M'. (r \<longrightarrow> M' = M + ?P) \<and> (\<not> r \<longrightarrow> M \<subseteq># M'))"
    by (rule sat_conseq [OF d]) (metis given_back_simps(1) given_back_sub)
  have "sat track (pl_close E c) (M + plain_owns c) (\<lambda>r. given_back M (r = 0))"
    using assms by (intro sat_pl_close) (simp add: srq_complete_def srq_wf_def)
  moreover have "q_array c \<noteq> 0" using assms by (simp add: srq_complete_def srq_wf_def)
  ultimately show ?thesis unfolding srq_close_ctx_def qs
    by (intro sat_bind sat_conseq [OF d] sat_if sat_return sat_invoke)
      (auto simp: track_simps srq_part_def given_back_simps
        intro!: sat_bind sat_invoke sat_if sat_return)
qed

text \<open>The contract of a context (\<open>ctx_lifecycle\<close>) for this program.\<close>

record srq_config =
  sc_page :: int
  sc_dev :: ptr
  sc_size :: int
  sc_num_qp :: int
  sc_rx :: int
  sc_port :: int
  sc_event :: int

interpretation srq: ctx_lifecycle "\<lambda>k :: srq_config. True"
  "\<lambda>k. srq_init_ctx E (sc_page k) (sc_dev k) (sc_size k) (sc_num_qp k) (sc_rx k) (sc_port k) (sc_event k)"
  "\<lambda>k c. srq_close_ctx E c (sc_num_qp k)" "\<lambda>k. srq_owns" "\<lambda>k. srq_complete (sc_num_qp k)" for E
proof unfold_locales
  fix k :: srq_config and M
  show "sat track (srq_init_ctx E (sc_page k) (sc_dev k) (sc_size k) (sc_num_qp k) (sc_rx k) (sc_port k)
      (sc_event k)) M (\<lambda>r M'. case r of None \<Rightarrow> M' = M
        | Some c \<Rightarrow> M' = M + srq_owns c \<and> srq_complete (sc_num_qp k) c)"
    by (rule sat_conseq [OF sat_srq_init_ctx]) (simp add: made_def)
next
  fix k :: srq_config and M c
  assume "srq_complete (sc_num_qp k) c"
  then show "sat track (srq_close_ctx E c (sc_num_qp k)) (M + srq_owns c)
      (\<lambda>r M'. if r = 0 then M' = M else M \<subseteq># M')"
    by (rule sat_conseq [OF sat_srq_close_ctx]) (simp add: given_back_def)
qed

end
