(* ===== verification/SrqExchange.thy ===== *)
theory SrqExchange
  imports SrqContext
begin

text \<open>
  The exchange of destinations in srq_pingpong.c: one message per queue pair in each direction,
  over a TCP connection that may cut the stream anywhere.  The connection set-up has the text
  of rc_pingpong.c (\<open>open_client\<close>, \<open>open_server\<close>).
\<close>

section \<open>Messages\<close>

text \<open>What \<open>sscanf\<close> leaves in \<open>gid\<close>.\<close>

definition gid_after_scan :: "string \<Rightarrow> string \<Rightarrow> string" where
  "gid_after_scan gid msg = (case snd (scan_xs 3 (cstr msg)) of None \<Rightarrow> gid
     | Some s \<Rightarrow> (case scan_s s of None \<Rightarrow> gid | Some (w, _) \<Rightarrow> store_str w gid))"

text \<open>The loop that writes the destinations; the boolean is false where it leaves the function.\<close>

fun write_dests :: "api_env \<Rightarrow> int \<Rightarrow> string \<Rightarrow> pp_dest list \<Rightarrow> bool prog" where
  "write_dests E fd msg [] = ret_io True"
| "write_dests E fd msg (d # ds) = do {
     w \<leftarrow> invoke E (Libc (Write fd (dest_msg msg d)));
     if w \<noteq> int MSG_SIZE then ret_io False else write_dests E fd (dest_msg msg d) ds }"

text \<open>
  \<open>while (n < sizeof msg)\<close>: the bytes read so far.  \<open>None\<close> is a loop still running when
  \<open>fuel\<close> reads were not enough, \<open>Some None\<close> a failing read.
\<close>

fun read_msg :: "api_env \<Rightarrow> nat \<Rightarrow> int \<Rightarrow> string \<Rightarrow> string option option prog" where
  "read_msg E 0 fd acc = ret_io (if length acc < MSG_SIZE then None else Some (Some acc))"
| "read_msg E (Suc fuel) fd acc =
    (if length acc < MSG_SIZE then do {
       (r, s) \<leftarrow> invoke_bytes E (Libc (Read fd (int (MSG_SIZE - length acc))));
       if r < 0 then ret_io (Some None) else read_msg E fuel fd (acc @ s)
     } else ret_io (Some (Some acc)))"

text \<open>
  The loop over the destinations.  The third list holds the elements of the array
  \<open>rem_dest\<close> not yet read, with what \<open>malloc\<close> left in them; the result is the array, and whether
  the loop came to its end.
\<close>

fun read_dests ::
    "api_env \<Rightarrow> nat \<Rightarrow> u32 \<Rightarrow> int \<Rightarrow> string \<Rightarrow> string \<Rightarrow> pp_dest list \<Rightarrow> pp_dest list
      \<Rightarrow> (bool \<times> pp_dest list \<times> string) option prog" where
  "read_dests E fuel v32 fd gid msg acc [] = ret_io (Some (True, acc, msg))"
| "read_dests E fuel v32 fd gid msg acc (j # js) = do {
     m \<leftarrow> read_msg E fuel fd [];
     case m of None \<Rightarrow> ret_io None
     | Some None \<Rightarrow> ret_io (Some (False, acc @ j # js, msg))
     | Some (Some msg) \<Rightarrow>
         read_dests E fuel v32 fd (gid_after_scan gid msg) msg
           (acc @ [scan_dest v32 gid j msg]) js }"

section \<open>pp_client_exch_dest\<close>

text \<open>\<open>junks\<close> is the array as \<open>malloc\<close> returns it.\<close>

definition srq_client_talk ::
    "api_env \<Rightarrow> nat \<Rightarrow> stack \<Rightarrow> pp_dest list \<Rightarrow> pp_dest list \<Rightarrow> int
      \<Rightarrow> (ptr \<times> pp_dest list) option option prog" where
  "srq_client_talk E fuel k junks my_dest sockfd = do {
     ok \<leftarrow> write_dests E sockfd (junk_msg k) my_dest;
     if \<not> ok then out_label E sockfd (Some None)
     else do {
       p \<leftarrow> invoke E (Libc (Malloc ''pingpong_dest''));
       if p = 0 then out_label E sockfd (Some None)
       else do {
         let gid = (if my_dest = [] then junk_gid k else gid_to_wire_gid (d_gid (last my_dest)));
         r \<leftarrow> read_dests E fuel (junk_v32 k) sockfd gid [] [] junks;
         case r of None \<Rightarrow> ret_io None
         | Some (complete, ds, msg) \<Rightarrow>
             if \<not> complete then out_label E sockfd (Some (Some (p, ds)))
             else do {
               w \<leftarrow> invoke E (Libc (Write sockfd done_msg));
               if w \<noteq> int (length done_msg)
               then do { invoke E (Libc (Free p)); out_label E sockfd (Some None) }
               else out_label E sockfd (Some (Some (p, ds))) } } } }"

definition srq_client_exch_dest ::
    "api_env \<Rightarrow> nat \<Rightarrow> stack \<Rightarrow> ptr list \<Rightarrow> pp_dest list \<Rightarrow> string \<Rightarrow> int \<Rightarrow> pp_dest list
      \<Rightarrow> (ptr \<times> pp_dest list) option option prog" where
  "srq_client_exch_dest E fuel k addrs junks servername port my_dest = do {
     s \<leftarrow> open_client E addrs servername port;
     case s of None \<Rightarrow> ret_io (Some None)
     | Some sockfd \<Rightarrow> srq_client_talk E fuel k junks my_dest sockfd }"

section \<open>pp_server_exch_dest\<close>

definition srq_server_answer ::
    "api_env \<Rightarrow> srq_ctx \<Rightarrow> int \<Rightarrow> u32 \<Rightarrow> int \<Rightarrow> pp_dest list \<Rightarrow> int \<Rightarrow> int \<Rightarrow> string \<Rightarrow> ptr
      \<Rightarrow> pp_dest list \<Rightarrow> (ptr \<times> pp_dest list) option option prog" where
  "srq_server_answer E ctx ib_port mtu sl my_dest sgid_idx connfd msg p rem_dest = do {
     c \<leftarrow> srq_connect_ctx E ctx ib_port mtu sl my_dest rem_dest sgid_idx;
     if c \<noteq> 0 then do { invoke E (Libc (Free p)); out_label E connfd (Some None) }
     else do {
       ok \<leftarrow> write_dests E connfd msg my_dest;
       if \<not> ok then do { invoke E (Libc (Free p)); out_label E connfd (Some None) }
       else do {
         (r, s) \<leftarrow> invoke_bytes E (Libc (Read connfd (int MSG_SIZE)));
         if r \<le> 0 then do { invoke E (Libc (Free p)); out_label E connfd (Some None) }
         else out_label E connfd (Some (Some (p, rem_dest))) } } }"

definition srq_server_talk ::
    "api_env \<Rightarrow> nat \<Rightarrow> stack \<Rightarrow> pp_dest list \<Rightarrow> srq_ctx \<Rightarrow> int \<Rightarrow> u32 \<Rightarrow> int \<Rightarrow> pp_dest list \<Rightarrow> int \<Rightarrow> int
      \<Rightarrow> (ptr \<times> pp_dest list) option option prog" where
  "srq_server_talk E fuel k junks ctx ib_port mtu sl my_dest sgid_idx connfd = do {
     p \<leftarrow> invoke E (Libc (Malloc ''pingpong_dest''));
     if p = 0 then out_label E connfd (Some None)
     else do {
       r \<leftarrow> read_dests E fuel (junk_v32 k) connfd (junk_gid k) (junk_msg k) [] junks;
       case r of None \<Rightarrow> ret_io None
       | Some (complete, ds, msg) \<Rightarrow>
           if \<not> complete then out_label E connfd (Some (Some (p, ds)))
           else srq_server_answer E ctx ib_port mtu sl my_dest sgid_idx connfd msg p ds } }"

definition srq_server_exch_dest ::
    "api_env \<Rightarrow> nat \<Rightarrow> stack \<Rightarrow> ptr list \<Rightarrow> pp_dest list \<Rightarrow> srq_ctx \<Rightarrow> int \<Rightarrow> u32 \<Rightarrow> int \<Rightarrow> int
      \<Rightarrow> pp_dest list \<Rightarrow> int \<Rightarrow> (ptr \<times> pp_dest list) option option prog" where
  "srq_server_exch_dest E fuel k addrs junks ctx ib_port mtu port sl my_dest sgid_idx = do {
     s \<leftarrow> open_server E addrs port;
     case s of None \<Rightarrow> ret_io (Some None)
     | Some connfd \<Rightarrow> srq_server_talk E fuel k junks ctx ib_port mtu sl my_dest sgid_idx connfd }"

section \<open>Descriptors and memory\<close>

text \<open>A run that ends leaves the memory of the destinations and nothing else.\<close>

definition srq_exchanged ::
    "(res \<times> int) multiset \<Rightarrow> (ptr \<times> 'd) option option \<Rightarrow> (res \<times> int) multiset \<Rightarrow> bool" where
  "srq_exchanged M r M' \<longleftrightarrow> (case r of None \<Rightarrow> True | Some x \<Rightarrow> exchanged M x M')"

lemma srq_exchanged_simps [simp]:
  "srq_exchanged M None M'" "srq_exchanged M (Some None) M' \<longleftrightarrow> M' = M"
  "srq_exchanged M (Some (Some (p, d))) M' \<longleftrightarrow> p \<noteq> 0 \<and> M' = M + {#(Heap, p)#}"
  by (simp_all add: srq_exchanged_def exchanged_def)

lemma held_write_dests: "sat track (write_dests E fd msg ds) M (\<lambda>_ M'. M' = M)"
  by (induction ds arbitrary: msg) (auto intro!: sat_intro simp: track_simps)

lemma held_read_msg: "sat track (read_msg E fuel fd acc) M (\<lambda>_ M'. M' = M)"
  by (induction fuel arbitrary: acc) (auto intro!: sat_intro simp: track_simps)

lemma held_read_dests: "sat track (read_dests E fuel v fd gid msg acc js) M (\<lambda>_ M'. M' = M)"
  by (induction js arbitrary: gid msg acc)
    (auto intro!: sat_intro sat_conseq [OF held_read_msg] simp: track_simps)

lemma held_srq_connect_qps: "sat track (srq_connect_qps E port mtu sl g gidx qs) M (\<lambda>_ M'. M' = M)"
  by (induction qs) (auto intro!: sat_intro simp: track_simps Let_def)

lemmas held_srq_parts = sat_conseq [OF held_write_dests] sat_conseq [OF held_read_dests]
  sat_conseq [OF held_srq_connect_qps]

lemma held_srq_client_talk:
  "sat track (srq_client_talk E fuel k js my s) (add_mset (Fd, s) M) (srq_exchanged M)"
  unfolding srq_client_talk_def out_label_def Let_def
  by (auto intro!: sat_intro held_srq_parts simp: track_calls)

lemma held_srq_server_talk:
  "sat track (srq_server_talk E fuel k js c ib mtu sl my gidx s) (add_mset (Fd, s) M) (srq_exchanged M)"
  unfolding srq_server_talk_def srq_server_answer_def srq_connect_ctx_def out_label_def
  by (auto intro!: sat_intro held_srq_parts simp: track_calls)

lemma held_srq_client_exch_dest:
  "sat track (srq_client_exch_dest E fuel k ts js nm port my) M (srq_exchanged M)"
  unfolding srq_client_exch_dest_def
  by (auto intro!: sat_intro sat_conseq [OF sat_open_client] held_srq_client_talk simp: opened_def)

lemma held_srq_server_exch_dest:
  "sat track (srq_server_exch_dest E fuel k ts js c ib mtu port sl my gidx) M (srq_exchanged M)"
  unfolding srq_server_exch_dest_def
  by (auto intro!: sat_intro sat_conseq [OF sat_open_server] held_srq_server_talk simp: opened_def)

section \<open>When the reads end\<close>

text \<open>The peer never closes its end: no read returns 0.\<close>

definition open_peer :: "api_env \<Rightarrow> bool" where
  "open_peer E \<longleftrightarrow> (\<forall>h fd n. ret E h (Libc (Read fd n)) \<noteq> 0)"

definition returned :: "'a option \<Rightarrow> bool" where
  "returned r \<longleftrightarrow> r \<noteq> None"

lemma returned_simps [simp]: "returned (Some a)" "\<not> returned None"
  by (simp_all add: returned_def)

lemma gives_read_msg:
  assumes "open_peer E"
  shows "MSG_SIZE \<le> fuel + length acc \<Longrightarrow> gives (read_msg E fuel fd acc) returned"
proof (induction fuel arbitrary: acc)
  case (Suc fuel)
  have "gives (read_msg E fuel fd (acc @ s)) returned" if "1 \<le> length s" for s
    using Suc that by simp
  then have step: "gives (if r < 0 then ret_io (Some None) else read_msg E fuel fd (acc @ s)) returned"
    if "r < 0 \<or> 1 \<le> length s" for r :: int and s
    using that by (auto intro!: gives_intro)
  have "r < 0 \<or> 1 \<le> length (take (nat r) (d @ replicate (nat r) CHR 0x00))" if "r \<noteq> 0" for r :: int and d
    using that by auto
  then have read: "ret E h (Libc (Read fd n)) < 0 \<or> 1 \<le> length (bytes_of E h (Libc (Read fd n)))" for h n
    using assms unfolding bytes_of_def open_peer_def by blast
  show ?case unfolding read_msg.simps
    by (rule gives_if, rule gives_bind, rule gives_invoke_bytes, unfold prod.case, rule step, rule read)
      (auto intro!: gives_intro)
qed (auto intro!: gives_intro)

lemma gives_read_dests:
  assumes "open_peer E"
  shows "gives (read_dests E MSG_SIZE v fd gid msg acc js) returned"
proof (induction js arbitrary: gid msg acc)
  case (Cons j js)
  show ?case unfolding read_dests.simps
    by (rule gives_bind, rule gives_conseq [OF gives_read_msg [OF assms]])
      (auto intro!: gives_intro Cons split: option.splits)
qed (auto intro!: gives_intro)

lemma gives_out_label: "gives (out_label E fd (Some r)) returned"
  unfolding out_label_def by (auto intro!: gives_then gives_return)

lemma gives_srq_talk:
  assumes "open_peer E"
  shows "gives (srq_client_talk E MSG_SIZE k js my s) returned"
    and "gives (srq_server_talk E MSG_SIZE k js c ib mtu sl my gidx s) returned"
  unfolding srq_client_talk_def srq_server_talk_def srq_server_answer_def Let_def
  by (rule gives_intro gives_then gives_conseq [OF gives_read_dests [OF assms]] gives_out_label
      | (simp; fail))+

text \<open>A peer that has closed its end, and one whose connection is broken.\<close>

lemma read_msg_eof:
  assumes "\<And>h n. ret E h (Libc (Read fd n)) = 0"
  shows "length acc < MSG_SIZE \<Longrightarrow> fst (run_state (read_msg E fuel fd acc) h) = None"
  by (induction fuel arbitrary: acc h) (auto simp: run_simps assms)

lemma read_dests_eof:
  assumes "\<And>h n. ret E h (Libc (Read fd n)) = 0"
  shows "\<exists>h'. run_state (read_dests E fuel v fd gid msg acc (j # js)) h = (None, h')"
proof -
  have "fst (run_state (read_msg E fuel fd []) h) = None"
    by (rule read_msg_eof [OF assms]) (simp add: MSG_SIZE_def)
  then show ?thesis by (cases "run_state (read_msg E fuel fd []) h") (simp add: run_simps)
qed

lemma read_msg_error:
  assumes "\<And>h n. ret E h (Libc (Read fd n)) < 0"
  shows "\<exists>r. run_state (read_msg E (Suc fuel) fd []) h
     = (Some None, (Libc (Read fd (int MSG_SIZE)), r) # h)"
  using assms by (simp add: run_simps MSG_SIZE_def)

section \<open>Properties\<close>

definition srq_net_env :: "int \<Rightarrow> api_env" where
  "srq_net_env n = const_env (\<lambda>c. case c of
       Libc (Read fd m) \<Rightarrow> n | Libc (Write fd s) \<Rightarrow> int (length s)
     | Libc (Connect_sock s a) \<Rightarrow> 0 | Libc (Bind_sock s a) \<Rightarrow> 0 | Libc l \<Rightarrow> 3
     | _ \<Rightarrow> 0) (\<lambda>c. [])"

lemma srq_net_open: "\<exists>h. run_state (open_server (srq_net_env n) [1] 18515) [] = (Some 3, h)"
  by (simp add: open_server_def run_simps srq_net_env_def const_env_def)

text \<open>
  As long as the peer keeps its end of the connection open, both exchange functions return:
  however the network cuts the stream, each destination takes at most as many reads as its
  message has bytes.  A peer that closes its end makes them loop for ever, because a read of
  no bytes is counted as progress: the server whose peer is gone after \<open>accept\<close> never returns.
\<close>

theorem srq_exchange_returns:
  "(open_peer E \<longrightarrow>
      fst (run_state (srq_client_exch_dest E MSG_SIZE k ts js nm port my) h) \<noteq> None
    \<and> fst (run_state (srq_server_exch_dest E MSG_SIZE k ts js c ib mtu port sl my gidx) h) \<noteq> None)
  \<and> (run_state (open_server E ts port) h = (Some fd, h1) \<and> ret E h1 (Libc (Malloc ''pingpong_dest'')) \<noteq> 0
      \<and> js \<noteq> [] \<and> (\<forall>h n. ret E h (Libc (Read fd n)) = 0) \<longrightarrow>
    (\<forall>fuel. fst (run_state (srq_server_exch_dest E fuel k ts js c ib mtu port sl my gidx) h) = None))"
proof (intro conjI impI)
  assume E: "open_peer E"
  have "gives (srq_client_exch_dest E MSG_SIZE k ts js nm port my) returned"
    unfolding srq_client_exch_dest_def
    by (auto intro!: gives_then gives_case_option gives_return gives_srq_talk [OF E])
  then show "fst (run_state (srq_client_exch_dest E MSG_SIZE k ts js nm port my) h) \<noteq> None"
    by (simp add: gives_def returned_def)
  have "gives (srq_server_exch_dest E MSG_SIZE k ts js c ib mtu port sl my gidx) returned"
    unfolding srq_server_exch_dest_def
    by (auto intro!: gives_then gives_case_option gives_return gives_srq_talk [OF E])
  then show "fst (run_state (srq_server_exch_dest E MSG_SIZE k ts js c ib mtu port sl my gidx) h) \<noteq> None"
    by (simp add: gives_def returned_def)
next
  assume gone: "run_state (open_server E ts port) h = (Some fd, h1)
    \<and> ret E h1 (Libc (Malloc ''pingpong_dest'')) \<noteq> 0 \<and> js \<noteq> [] \<and> (\<forall>h n. ret E h (Libc (Read fd n)) = 0)"
  then obtain j js' where js: "js = j # js'" by (cases js) auto
  have hang: "\<exists>h'. run_state (read_dests E fuel v fd gid msg acc js) h = (None, h')" for fuel v gid msg acc h
    unfolding js by (rule read_dests_eof) (use gone in simp)
  show "\<forall>fuel. fst (run_state (srq_server_exch_dest E fuel k ts js c ib mtu port sl my gidx) h) = None"
  proof
    fix fuel
    obtain h2 where "run_state (read_dests E fuel (junk_v32 k) fd (junk_gid k) (junk_msg k) [] js)
        ((Libc (Malloc ''pingpong_dest''), ret E h1 (Libc (Malloc ''pingpong_dest''))) # h1) = (None, h2)"
      using hang by blast
    with gone show "fst (run_state (srq_server_exch_dest E fuel k ts js c ib mtu port sl my gidx) h) = None"
      by (simp add: srq_server_exch_dest_def srq_server_talk_def run_bind run_return run_invokes)
  qed
qed

theorem srq_exchange_returns_witness:
  "fst (run_state (srq_server_exch_dest (srq_net_env 5) MSG_SIZE no_stack [1] [demo_dest]
      (new_srq_ctx 1 64 1 2) 1 3 18515 0 [demo_dest] 0) []) \<noteq> None
   \<and> (\<forall>fuel. fst (run_state (srq_server_exch_dest (srq_net_env 0) fuel no_stack [1] [demo_dest]
      (new_srq_ctx 1 64 1 2) 1 3 18515 0 [demo_dest] 0) []) = None)"
proof -
  have o: "open_peer (srq_net_env 5)" by (simp add: open_peer_def srq_net_env_def const_env_def)
  obtain h1 where c: "run_state (open_server (srq_net_env 0) [1] 18515) [] = (Some 3, h1)"
    using srq_net_open by blast
  have "ret (srq_net_env 0) h1 (Libc (Malloc ''pingpong_dest'')) \<noteq> 0"
    "\<forall>h n. ret (srq_net_env 0) h (Libc (Read 3 n)) = 0"
    by (simp_all add: srq_net_env_def const_env_def)
  with o c show ?thesis
    using srq_exchange_returns [of "srq_net_env 5" no_stack "[1]" "[demo_dest]" "''srv''" 18515 "[demo_dest]" "[]"
        "new_srq_ctx 1 64 1 2" 1 3 0 0 3 h1]
      srq_exchange_returns [of "srq_net_env 0" no_stack "[1]" "[demo_dest]" "''srv''" 18515 "[demo_dest]" "[]"
        "new_srq_ctx 1 64 1 2" 1 3 0 0 3 h1] by simp
qed

text \<open>
  A failing read is taken for success: the server leaves the loop with \<open>rem_dest\<close> set and
  returns the array as \<open>malloc\<close> left it, without having connected any queue pair, and
  \<open>main\<close> goes on.
\<close>

theorem srq_failed_read_accepted:
  assumes "run_state (open_server E ts port) h = (Some fd, h1)"
    and "ret E h1 (Libc (Malloc ''pingpong_dest'')) = p" and "p \<noteq> 0" and "js \<noteq> []"
    and "\<And>h n. ret E h (Libc (Read fd n)) < 0"
  shows "\<exists>r c0. run_state (srq_server_exch_dest E (Suc fuel) k ts js c ib mtu port sl my gidx) h =
     (Some (Some (p, js)), (Libc (Close fd), c0) # (Libc (Read fd (int MSG_SIZE)), r)
        # (Libc (Malloc ''pingpong_dest''), p) # h1)"
proof -
  obtain j js' where js: "js = j # js'" using assms(4) by (cases js) auto
  obtain r where r: "run_state (read_msg E (Suc fuel) fd []) ((Libc (Malloc ''pingpong_dest''), p) # h1)
     = (Some None, (Libc (Read fd (int MSG_SIZE)), r) # (Libc (Malloc ''pingpong_dest''), p) # h1)"
    using read_msg_error [OF assms(5)] by blast
  then show ?thesis using assms(1-3)
    by (simp add: srq_server_exch_dest_def srq_server_talk_def out_label_def run_bind run_return run_invokes js
        del: read_msg.simps)
qed

theorem srq_failed_read_accepted_witness:
  "fst (run_state (srq_server_exch_dest (srq_net_env (- 1)) 1 no_stack [1] [demo_dest]
     (new_srq_ctx 1 64 1 2) 1 3 18515 0 [demo_dest] 0) []) = Some (Some (3, [demo_dest]))"
proof -
  obtain h1 where o: "run_state (open_server (srq_net_env (- 1)) [1] 18515) [] = (Some 3, h1)"
    using srq_net_open by blast
  have "ret (srq_net_env (- 1)) h1 (Libc (Malloc ''pingpong_dest'')) = 3"
    "\<And>h n. ret (srq_net_env (- 1)) h (Libc (Read 3 n)) < 0"
    by (simp_all add: srq_net_env_def const_env_def)
  from srq_failed_read_accepted [OF o this(1) _ _ this(2), of "[demo_dest]" 0 no_stack
      "new_srq_ctx 1 64 1 2" 1 3 0 "[demo_dest]" 0] show ?thesis by auto
qed

end
