(* ===== verification/SrqMain.thy ===== *)
theory SrqMain
  imports SrqExchange
begin

text \<open>
  \<open>main\<close> of srq_pingpong.c.  Its \<open>goto out_...\<close> labels are definitions that run to the
  end of the function; the ping-pong loop keeps one word of pending bits per queue pair and
  counts the receives posted to the shared queue.
\<close>

section \<open>Options\<close>

record srq_opts = plain_opts +
  po_num_qp :: int

definition srq_default :: srq_opts where
  "srq_default = plain_opts.extend plain_default \<lparr>po_num_qp = 16\<rparr>"

definition srq_opt :: "char \<times> string \<Rightarrow> srq_opts \<Rightarrow> srq_opts option" where
  "srq_opt ca opt = (if fst ca = CHR ''q'' then Some (opt\<lparr>po_num_qp := strtol_int (snd ca)\<rparr>)
     else plain_opt ca opt)"

fun srq_parse :: "(char \<times> string) list \<Rightarrow> srq_opts \<Rightarrow> srq_opts option" where
  "srq_parse [] opt = Some opt"
| "srq_parse (ca # cas) opt = (case srq_opt ca opt of None \<Rightarrow> None | Some opt' \<Rightarrow> srq_parse cas opt')"

text \<open>The server's name and the check that there is a receive for every queue pair.\<close>

definition srq_check :: "string list \<Rightarrow> srq_opts \<Rightarrow> srq_opts option" where
  "srq_check args opt = (case plain_args args opt of None \<Rightarrow> None
     | Some opt \<Rightarrow> if po_num_qp opt > po_rx_depth opt then None else Some opt)"

section \<open>The loop\<close>

record srq_st =
  k_rcnt :: int
  k_scnt :: int
  k_routs :: int
  k_pend :: "int list"
  k_events :: int

text \<open>\<open>Inl\<close> is \<open>ret = 1; goto out_pending\<close>; \<open>i\<close> is \<open>qp_ind\<close>.\<close>

definition srq_after_wc ::
    "api_env \<Rightarrow> srq_ctx \<Rightarrow> int \<Rightarrow> nat \<Rightarrow> int \<Rightarrow> srq_st \<Rightarrow> (int + srq_st) prog" where
  "srq_after_wc E ctx iters i wr_id st = do {
     let st = st\<lparr>k_pend := (k_pend st)[i := k_pend st ! i AND NOT wr_id]\<rparr>;
     if k_scnt st < iters \<and> k_pend st ! i = 0 then do {
       r \<leftarrow> srq_post_send E ctx i;
       ret_io (if r \<noteq> 0 then Inl 1
               else Inr (st\<lparr>k_pend := (k_pend st)[i := PINGPONG_RECV_WRID OR PINGPONG_SEND_WRID]\<rparr>))
     } else ret_io (Inr st) }"

definition srq_handle_wc ::
    "api_env \<Rightarrow> srq_ctx \<Rightarrow> int \<Rightarrow> int \<Rightarrow> wc \<Rightarrow> srq_st \<Rightarrow> (int + srq_st) prog" where
  "srq_handle_wc E ctx n iters w st =
    (if wc_status w \<noteq> 0 then ret_io (Inl 1)
     else case find_qp (wc_qp_num w) ctx of None \<Rightarrow> ret_io (Inl 1)
     | Some i \<Rightarrow>
       (let wr_id = to_int32 (wc_wr_id w) in
        if wr_id = PINGPONG_SEND_WRID then
          srq_after_wc E ctx iters i wr_id (st\<lparr>k_scnt := k_scnt st + 1\<rparr>)
        else if wr_id = PINGPONG_RECV_WRID then
          (let st = st\<lparr>k_routs := k_routs st - 1\<rparr> in
           if k_routs st \<le> n then do {
             m \<leftarrow> srq_post_recv E ctx (b_rx_depth ctx - k_routs st);
             let st = st\<lparr>k_routs := k_routs st + m\<rparr>;
             if k_routs st < b_rx_depth ctx then ret_io (Inl 1)
             else srq_after_wc E ctx iters i wr_id (st\<lparr>k_rcnt := k_rcnt st + 1\<rparr>)
           } else srq_after_wc E ctx iters i wr_id (st\<lparr>k_rcnt := k_rcnt st + 1\<rparr>))
        else ret_io (Inl 1)))"

fun srq_handle_wcs ::
    "api_env \<Rightarrow> srq_ctx \<Rightarrow> int \<Rightarrow> int \<Rightarrow> wc list \<Rightarrow> srq_st \<Rightarrow> (int + srq_st) prog" where
  "srq_handle_wcs E ctx n iters [] st = ret_io (Inr st)"
| "srq_handle_wcs E ctx n iters (w # ws) st = do {
     r \<leftarrow> srq_handle_wc E ctx n iters w st;
     case r of Inl e \<Rightarrow> ret_io (Inl e) | Inr st' \<Rightarrow> srq_handle_wcs E ctx n iters ws st' }"

definition srq_loop_body ::
    "api_env \<Rightarrow> srq_ctx \<Rightarrow> int \<Rightarrow> int \<Rightarrow> bool \<Rightarrow> nat \<Rightarrow> srq_st \<Rightarrow> (int + srq_st) option prog" where
  "srq_loop_body E ctx n iters use_event fuel st = do {
     w \<leftarrow> (if use_event then pl_wait_event E ctx (k_events st) else ret_io (Some (k_events st)));
     case w of None \<Rightarrow> ret_io (Some (Inl 1))
     | Some ev \<Rightarrow> do {
         b \<leftarrow> pl_poll E fuel use_event (b_cq ctx) (n + b_rx_depth ctx);
         case b of None \<Rightarrow> ret_io None
         | Some (ne, wcs) \<Rightarrow>
             if ne < 0 then ret_io (Some (Inl 1))
             else do {
               r \<leftarrow> srq_handle_wcs E ctx n iters wcs (st\<lparr>k_events := ev\<rparr>);
               ret_io (Some r) } } }"

fun srq_loop ::
    "api_env \<Rightarrow> srq_ctx \<Rightarrow> int \<Rightarrow> int \<Rightarrow> bool \<Rightarrow> nat \<Rightarrow> srq_st \<Rightarrow> (int + srq_st) option prog" where
  "srq_loop E ctx n iters use_event 0 st = ret_io None"
| "srq_loop E ctx n iters use_event (Suc fuel) st =
    (if k_rcnt st < iters \<or> k_scnt st < iters then do {
       r \<leftarrow> srq_loop_body E ctx n iters use_event (Suc fuel) st;
       case r of None \<Rightarrow> ret_io None
       | Some (Inl e) \<Rightarrow> ret_io (Some (Inl e))
       | Some (Inr st') \<Rightarrow> srq_loop E ctx n iters use_event fuel st'
     } else ret_io (Some (Inr st)))"

section \<open>The labels of main\<close>

definition out_dev_list :: "api_env \<Rightarrow> ptr \<Rightarrow> int \<Rightarrow> int option prog" where
  "out_dev_list E dev_list r = do { invoke E (Ibv (Free_device_list dev_list)); ret_io (Some r) }"

definition out_ctx :: "api_env \<Rightarrow> srq_opts \<Rightarrow> ptr \<Rightarrow> srq_ctx \<Rightarrow> int \<Rightarrow> int option prog" where
  "out_ctx E opt dev_list ctx r = do {
     c \<leftarrow> srq_close_ctx E ctx (po_num_qp opt);
     out_dev_list E dev_list (if c \<noteq> 0 then 1 else r) }"

definition out_my_dest :: "api_env \<Rightarrow> srq_opts \<Rightarrow> ptr \<Rightarrow> srq_ctx \<Rightarrow> ptr \<Rightarrow> int \<Rightarrow> int option prog" where
  "out_my_dest E opt dev_list ctx my r = do {
     invoke E (Libc (Free my));
     out_ctx E opt dev_list ctx r }"

definition out_rem_dest ::
    "api_env \<Rightarrow> srq_opts \<Rightarrow> ptr \<Rightarrow> srq_ctx \<Rightarrow> ptr \<Rightarrow> ptr \<Rightarrow> int \<Rightarrow> int option prog" where
  "out_rem_dest E opt dev_list ctx my rem r = do {
     invoke E (Libc (Free rem));
     out_my_dest E opt dev_list ctx my r }"

definition out_pending ::
    "api_env \<Rightarrow> srq_opts \<Rightarrow> ptr \<Rightarrow> srq_ctx \<Rightarrow> ptr \<Rightarrow> ptr \<Rightarrow> int \<Rightarrow> int option prog" where
  "out_pending E opt dev_list ctx my rem r = do {
     invoke E (Libc (Free (q_pending ctx)));
     out_rem_dest E opt dev_list ctx my rem r }"

section \<open>main\<close>

text \<open>The client's first messages, one on each queue pair; \<open>None\<close> when one cannot be posted.\<close>

fun srq_start_sends :: "api_env \<Rightarrow> srq_ctx \<Rightarrow> nat list \<Rightarrow> int list \<Rightarrow> int list option prog" where
  "srq_start_sends E ctx [] pends = ret_io (Some pends)"
| "srq_start_sends E ctx (i # is) pends = do {
     r \<leftarrow> srq_post_send E ctx i;
     if r \<noteq> 0 then ret_io None
     else srq_start_sends E ctx is (pends[i := PINGPONG_SEND_WRID OR PINGPONG_RECV_WRID]) }"

text \<open>From the first reading of the clock on.\<close>

definition srq_run ::
    "api_env \<Rightarrow> nat \<Rightarrow> srq_opts \<Rightarrow> ptr \<Rightarrow> srq_ctx \<Rightarrow> ptr \<Rightarrow> ptr \<Rightarrow> int \<Rightarrow> int list \<Rightarrow> int option prog" where
  "srq_run E fuel opt dev_list ctx my rem routs0 pends = do {
     t \<leftarrow> invoke E (Libc Gettimeofday);
     if t \<noteq> 0 then out_pending E opt dev_list ctx my rem 1
     else do {
       l \<leftarrow> srq_loop E ctx (po_num_qp opt) (po_iters opt) (po_use_event opt \<noteq> 0) fuel
              \<lparr>k_rcnt = 0, k_scnt = 0, k_routs = routs0, k_pend = pends, k_events = 0\<rparr>;
       case l of None \<Rightarrow> ret_io None
       | Some (Inl e) \<Rightarrow> out_pending E opt dev_list ctx my rem e
       | Some (Inr st) \<Rightarrow> do {
           t \<leftarrow> invoke E (Libc Gettimeofday);
           if t \<noteq> 0 then out_pending E opt dev_list ctx my rem 1
           else do {
             invoke E (Data (Ack_cq_events (b_cq ctx) (k_events st)));
             out_pending E opt dev_list ctx my rem 0 } } } }"

definition srq_start ::
    "api_env \<Rightarrow> nat \<Rightarrow> srq_opts \<Rightarrow> ptr \<Rightarrow> srq_ctx \<Rightarrow> ptr \<Rightarrow> ptr \<Rightarrow> int \<Rightarrow> int option prog" where
  "srq_start E fuel opt dev_list ctx my rem routs0 = do {
     p \<leftarrow> invoke E (Libc (Calloc ''pending''));
     if p = 0 then out_rem_dest E opt dev_list ctx my rem 1
     else do {
       let ctx = ctx\<lparr>q_pending := p\<rparr>;
       let n = nat (po_num_qp opt);
       if po_servername opt \<noteq> None then do {
         s \<leftarrow> srq_start_sends E ctx [0..<n] (replicate n 0);
         case s of None \<Rightarrow> out_pending E opt dev_list ctx my rem 1
         | Some pends \<Rightarrow> srq_run E fuel opt dev_list ctx my rem routs0 pends
       } else srq_run E fuel opt dev_list ctx my rem routs0 (replicate n PINGPONG_RECV_WRID) } }"

definition srq_connect ::
    "api_env \<Rightarrow> nat \<Rightarrow> srq_opts \<Rightarrow> ptr \<Rightarrow> srq_ctx \<Rightarrow> ptr \<Rightarrow> pp_dest list \<Rightarrow> int \<Rightarrow> ptr \<times> pp_dest list
      \<Rightarrow> int option prog" where
  "srq_connect E fuel opt dev_list ctx my mys routs0 rem = (case rem of (rp, ds) \<Rightarrow>
    (if po_servername opt \<noteq> None then do {
       c \<leftarrow> srq_connect_ctx E ctx (po_ib_port opt) (po_mtu opt) (po_sl opt) mys ds (po_gidx opt);
       if c \<noteq> 0 then out_rem_dest E opt dev_list ctx my rp 1
       else srq_start E fuel opt dev_list ctx my rp routs0
     } else srq_start E fuel opt dev_list ctx my rp routs0))"

definition srq_exchange ::
    "api_env \<Rightarrow> nat \<Rightarrow> stack \<Rightarrow> ptr list \<Rightarrow> pp_dest list \<Rightarrow> srq_opts \<Rightarrow> ptr \<Rightarrow> srq_ctx \<Rightarrow> ptr
      \<Rightarrow> pp_dest list \<Rightarrow> int \<Rightarrow> int option prog" where
  "srq_exchange E fuel k addrs junks opt dev_list ctx my mys routs0 = do {
     rem \<leftarrow> (case po_servername opt of
         Some nm \<Rightarrow> srq_client_exch_dest E fuel k addrs junks nm (po_port opt) mys
       | None \<Rightarrow> srq_server_exch_dest E fuel k addrs junks ctx (po_ib_port opt) (po_mtu opt)
                   (po_port opt) (po_sl opt) mys (po_gidx opt));
     case rem of None \<Rightarrow> ret_io None
     | Some None \<Rightarrow> out_my_dest E opt dev_list ctx my 1
     | Some (Some rd) \<Rightarrow> srq_connect E fuel opt dev_list ctx my mys routs0 rd }"

text \<open>The loop that fills \<open>my_dest\<close>, over the numbers of the queue pairs.\<close>

fun srq_local_dests ::
    "api_env \<Rightarrow> srq_opts \<Rightarrow> ptr \<Rightarrow> (string \<Rightarrow> int) \<Rightarrow> u32 list \<Rightarrow> pp_dest list \<Rightarrow> pp_dest list option prog" where
  "srq_local_dests E opt dev portinfo [] mys = ret_io (Some mys)"
| "srq_local_dests E opt dev portinfo (n # ns) mys = do {
     rnd \<leftarrow> invoke E (Libc Lrand48);
     let d = \<lparr>d_lid = take_bit 16 (word_of_int (portinfo ''lid'')), d_qpn = n,
              d_psn = word_of_int rnd AND 0xffffff, d_gid = zero_gid\<rparr>;
     if portinfo ''link_layer'' \<noteq> ETHERNET \<and> d_lid d = 0 then ret_io None
     else if po_gidx opt \<ge> 0 then do {
       (r, a) \<leftarrow> invoke_attr E (Ibv (Query_gid dev (po_ib_port opt) (po_gidx opt)));
       if r \<noteq> 0 then ret_io None
       else srq_local_dests E opt dev portinfo ns (mys @ [d\<lparr>d_gid :=
              map (\<lambda>i. word_of_int (a i)) [''gid0'', ''gid1'', ''gid2'', ''gid3'']\<rparr>])
     } else srq_local_dests E opt dev portinfo ns (mys @ [d]) }"

definition srq_addresses ::
    "api_env \<Rightarrow> nat \<Rightarrow> stack \<Rightarrow> ptr list \<Rightarrow> pp_dest list \<Rightarrow> srq_opts \<Rightarrow> ptr \<Rightarrow> srq_ctx \<Rightarrow> int \<Rightarrow> int option prog" where
  "srq_addresses E fuel k addrs junks opt dev_list ctx routs0 = do {
     my \<leftarrow> invoke E (Libc (Calloc ''pingpong_dest''));
     if my = 0 then out_ctx E opt dev_list ctx 1
     else do {
       (r, portinfo) \<leftarrow> pp_get_port_info E (b_context ctx) (po_ib_port opt);
       if r \<noteq> 0 then out_my_dest E opt dev_list ctx my 1
       else do {
         d \<leftarrow> srq_local_dests E opt (b_context ctx) portinfo (map snd (q_qps ctx)) [];
         case d of None \<Rightarrow> out_my_dest E opt dev_list ctx my 1
         | Some mys \<Rightarrow> srq_exchange E fuel k addrs junks opt dev_list ctx my mys routs0 } } }"

definition srq_main_ctx ::
    "api_env \<Rightarrow> nat \<Rightarrow> stack \<Rightarrow> ptr list \<Rightarrow> pp_dest list \<Rightarrow> int \<Rightarrow> srq_opts \<Rightarrow> ptr \<Rightarrow> ptr \<Rightarrow> int option prog" where
  "srq_main_ctx E fuel k addrs junks psize opt dev_list ib_dev = do {
     c \<leftarrow> srq_init_ctx E psize ib_dev (po_size opt) (po_num_qp opt) (po_rx_depth opt) (po_ib_port opt)
            (po_use_event opt);
     case c of None \<Rightarrow> out_dev_list E dev_list 1
     | Some ctx \<Rightarrow> do {
         routs0 \<leftarrow> srq_post_recv E ctx (b_rx_depth ctx);
         if routs0 < b_rx_depth ctx then out_ctx E opt dev_list ctx 1
         else do {
           r \<leftarrow> when_io (po_use_event opt \<noteq> 0) (invoke E (Data (Req_notify_cq (b_cq ctx))));
           if r \<noteq> 0 then out_ctx E opt dev_list ctx 1
           else srq_addresses E fuel k addrs junks opt dev_list ctx routs0 } } }"

text \<open>
  \<open>main\<close>.  As for rc_pingpong.c the options as \<open>getopt_long\<close> splits them, the devices and the
  addresses are what the libraries return; \<open>None\<close> is a run \<open>fuel\<close> did not suffice for.
\<close>

definition srq_main ::
    "api_env \<Rightarrow> nat \<Rightarrow> stack \<Rightarrow> ptr list \<Rightarrow> pp_dest list \<Rightarrow> (string \<times> ptr) list \<Rightarrow> int
      \<Rightarrow> (char \<times> string) list \<Rightarrow> string list \<Rightarrow> int option prog" where
  "srq_main E fuel k addrs junks devs psize cas args =
    (case srq_parse cas srq_default of None \<Rightarrow> ret_io (Some 1)
     | Some opt \<Rightarrow> (case srq_check args opt of None \<Rightarrow> ret_io (Some 1)
       | Some opt \<Rightarrow> do {
           dev_list \<leftarrow> invoke E (Ibv Get_device_list);
           if dev_list = 0 then ret_io (Some 1)
           else case choose_dev (po_devname opt) devs of None \<Rightarrow> out_dev_list E dev_list 1
             | Some ib_dev \<Rightarrow> srq_main_ctx E fuel k addrs junks psize opt dev_list ib_dev }))"

section \<open>What main gives back\<close>

text \<open>The calls that give a resource of libibverbs back succeed.\<close>

definition releases_ok :: "api_env \<Rightarrow> bool" where
  "releases_ok E \<longleftrightarrow> (\<forall>h p. ret E h (Ibv (Destroy_qp p)) = 0 \<and> ret E h (Ibv (Destroy_srq p)) = 0
     \<and> ret E h (Ibv (Destroy_cq p)) = 0 \<and> ret E h (Ibv (Dereg_mr p)) = 0
     \<and> ret E h (Ibv (Dealloc_pd p)) = 0 \<and> ret E h (Ibv (Destroy_comp_channel p)) = 0
     \<and> ret E h (Ibv (Close_device p)) = 0)"

lemma gives_destroy_checked: "releases_ok E \<Longrightarrow> gives (srq_destroy_checked E qs) (\<lambda>r. r)"
  by (induction qs) (auto intro!: gives_intro gives_invoke simp: releases_ok_def)

lemma gives_close_ctx: "gives (srq_close_ctx E ctx n) (\<lambda>r. releases_ok E \<longrightarrow> r = 0)"
proof (cases "releases_ok E")
  case True
  have "gives (srq_close_ctx E ctx n) (\<lambda>r. r = 0)"
    unfolding srq_close_ctx_def pl_close_def
    by (rule gives_bind, rule gives_conseq [OF gives_destroy_checked [OF True]])
      (use True in \<open>auto intro!: gives_intro gives_invoke gives_when simp: releases_ok_def\<close>)
  then show ?thesis by (rule gives_conseq) simp
qed (simp add: gives_def)

definition all_back :: "api_env \<Rightarrow> (res \<times> int) multiset \<Rightarrow> int option \<Rightarrow> (res \<times> int) multiset \<Rightarrow> bool" where
  "all_back E M r M' \<longleftrightarrow> (r \<noteq> None \<longrightarrow> M \<subseteq># M' \<and> (releases_ok E \<longrightarrow> M' = M))"

definition owns_srq_main :: "ptr \<Rightarrow> srq_ctx \<Rightarrow> (res \<times> int) multiset" where
  "owns_srq_main dev_list ctx = add_mset (Device_list, dev_list) (srq_owns ctx)"

lemma held_out_dev_list:
  "M = add_mset (Device_list, dl) N \<Longrightarrow> M0 \<subseteq># N \<Longrightarrow> (releases_ok E \<Longrightarrow> N = M0) \<Longrightarrow>
   sat track (out_dev_list E dl r) M (all_back E M0)"
  unfolding out_dev_list_def by (auto intro!: sat_intro simp: track_simps all_back_def)

lemma given_back_add:
  assumes "given_back (add_mset x M0) b M'"
  obtains N where "M' = add_mset x N" "M0 \<subseteq># N" "b \<Longrightarrow> N = M0"
proof -
  have "add_mset x M0 \<subseteq># M'" using assms by (auto simp: given_back_def split: if_splits)
  then obtain K where "M' = add_mset x M0 + K" by (auto simp: subset_mset.le_iff_add)
  then show ?thesis using assms by (intro that [of "M0 + K"]) (auto simp: given_back_def)
qed

lemma held_out_ctx:
  assumes "srq_complete (po_num_qp opt) ctx" and "M = M0 + owns_srq_main dl ctx"
  shows "sat track (out_ctx E opt dl ctx r) M (all_back E M0)"
proof -
  have "M = add_mset (Device_list, dl) M0 + srq_owns ctx"
    using assms(2) by (simp add: owns_srq_main_def)
  then have "sat track (srq_close_ctx E ctx (po_num_qp opt)) M
      (\<lambda>r M'. given_back (add_mset (Device_list, dl) M0) (r = 0) M' \<and> (releases_ok E \<longrightarrow> r = 0))"
    by (simp only: sat_gives [OF sat_srq_close_ctx [OF assms(1)] gives_close_ctx])
  note c = sat_conseq [OF this]
  show ?thesis unfolding out_ctx_def
    by (auto intro!: sat_bind c elim!: given_back_add intro: held_out_dev_list)
qed

lemma held_out_my_dest:
  assumes "srq_complete (po_num_qp opt) ctx" and "my \<noteq> 0"
    and "M = M0 + add_mset (Heap, my) (owns_srq_main dl ctx)"
  shows "sat track (out_my_dest E opt dl ctx my r) M (all_back E M0)"
  using assms unfolding out_my_dest_def
  by (auto intro!: sat_bind sat_invoke held_out_ctx simp: track_calls)

lemma held_out_rem_dest:
  assumes "srq_complete (po_num_qp opt) ctx" and "my \<noteq> 0" and "rem \<noteq> 0"
    and "M = M0 + add_mset (Heap, rem) (add_mset (Heap, my) (owns_srq_main dl ctx))"
  shows "sat track (out_rem_dest E opt dl ctx my rem r) M (all_back E M0)"
  using assms unfolding out_rem_dest_def
  by (auto intro!: sat_bind sat_invoke held_out_my_dest simp: track_calls)

lemma held_out_pending:
  assumes "srq_complete (po_num_qp opt) ctx" and "my \<noteq> 0" and "rem \<noteq> 0"
    and "q_pending ctx \<noteq> 0"
    and "M = M0 + add_mset (Heap, q_pending ctx)
               (add_mset (Heap, rem) (add_mset (Heap, my) (owns_srq_main dl ctx)))"
  shows "sat track (out_pending E opt dl ctx my rem r) M (all_back E M0)"
  using assms unfolding out_pending_def
  by (auto intro!: sat_bind sat_invoke held_out_rem_dest simp: track_calls)

text \<open>The data path holds nothing.\<close>

lemma held_srq_post_loop: "sat track (srq_post_loop E s wr n i) M (unchanged M)"
  by (induction n arbitrary: i) (auto intro!: sat_intro simp: unchanged_def)

lemma held_srq_after_wc: "sat track (srq_after_wc E ctx iters i w st) M (unchanged M)"
  unfolding srq_after_wc_def srq_post_send_def Let_def by (auto intro!: sat_intro simp: unchanged_def)

lemma held_srq_handle_wc: "sat track (srq_handle_wc E ctx n iters w st) M (unchanged M)"
  unfolding srq_handle_wc_def srq_post_recv_def Let_def
  by (auto intro!: sat_intro sat_conseq [OF held_srq_post_loop] held_srq_after_wc simp: unchanged_def)

lemma held_srq_handle_wcs: "sat track (srq_handle_wcs E ctx n iters ws st) M (unchanged M)"
  by (induction ws arbitrary: st)
    (auto intro!: sat_intro sat_conseq [OF held_srq_handle_wc] simp: unchanged_def)

lemma held_srq_loop_body: "sat track (srq_loop_body E ctx n iters ev fuel st) M (unchanged M)"
  unfolding srq_loop_body_def
  by (auto intro!: sat_intro sat_conseq [OF held_pl_poll] sat_conseq [OF held_pl_wait_event]
      sat_conseq [OF held_srq_handle_wcs] simp: unchanged_def)

lemma held_srq_loop: "sat track (srq_loop E ctx n iters ev fuel st) M (unchanged M)"
  by (induction fuel arbitrary: st)
    (auto intro!: sat_intro sat_conseq [OF held_srq_loop_body] simp: unchanged_def)

lemma held_srq_start_sends: "sat track (srq_start_sends E ctx is pends) M (unchanged M)"
  by (induction "is" arbitrary: pends) (auto intro!: sat_intro simp: srq_post_send_def unchanged_def)

lemma held_srq_local_dests: "sat track (srq_local_dests E opt dev pi ns mys) M (unchanged M)"
  by (induction ns arbitrary: mys) (auto intro!: sat_intro simp: track_calls unchanged_def Let_def)

lemma srq_pending_updates [simp]:
  "srq_complete n (c\<lparr>q_pending := p\<rparr>) = srq_complete n c"
  "owns_srq_main dl (c\<lparr>q_pending := p\<rparr>) = owns_srq_main dl c"
  by (simp_all add: srq_complete_def srq_wf_def owns_srq_main_def srq_owns_def srq_part_def own_pl_defs)

lemma all_back_None [simp]: "all_back E M None M'"
  by (simp add: all_back_def)

lemma held_srq_run:
  assumes "srq_complete (po_num_qp opt) ctx" and "my \<noteq> 0" and "rem \<noteq> 0"
    and "q_pending ctx \<noteq> 0"
    and "M = M0 + add_mset (Heap, q_pending ctx)
               (add_mset (Heap, rem) (add_mset (Heap, my) (owns_srq_main dl ctx)))"
  shows "sat track (srq_run E fuel opt dl ctx my rem routs0 pends) M (all_back E M0)"
  using assms unfolding srq_run_def
  by (auto intro!: sat_intro sat_conseq [OF held_srq_loop] held_out_pending simp: track_calls unchanged_def)

lemma held_srq_start:
  assumes "srq_complete (po_num_qp opt) ctx" and "my \<noteq> 0" and "rem \<noteq> 0"
    and "M = M0 + add_mset (Heap, rem) (add_mset (Heap, my) (owns_srq_main dl ctx))"
  shows "sat track (srq_start E fuel opt dl ctx my rem routs0) M (all_back E M0)"
  using assms unfolding srq_start_def Let_def
  by (auto intro!: sat_intro sat_conseq [OF held_srq_start_sends] held_out_rem_dest held_out_pending
      held_srq_run simp: track_calls unchanged_def)

lemma held_srq_exchange:
  assumes "srq_complete (po_num_qp opt) ctx" and "my \<noteq> 0"
    and "M = M0 + add_mset (Heap, my) (owns_srq_main dl ctx)"
  shows "sat track (srq_exchange E fuel k addrs junks opt dl ctx my mys routs0) M (all_back E M0)"
proof -
  have c: "sat track (case rem of None \<Rightarrow> ret_io None
       | Some None \<Rightarrow> out_my_dest E opt dl ctx my 1
       | Some (Some rd) \<Rightarrow> srq_connect E fuel opt dl ctx my mys routs0 rd) M' (all_back E M0)"
    if "srq_exchanged M rem M'" for rem M'
    using that assms unfolding srq_connect_def srq_connect_ctx_def
    by (auto intro!: sat_intro sat_conseq [OF held_srq_connect_qps] held_out_my_dest held_out_rem_dest
        held_srq_start split: option.splits)
  show ?thesis unfolding srq_exchange_def
    by (auto intro!: sat_bind sat_case_option sat_conseq [OF held_srq_client_exch_dest]
        sat_conseq [OF held_srq_server_exch_dest] c)
qed

lemma held_srq_addresses:
  assumes "srq_complete (po_num_qp opt) ctx" and "M = M0 + owns_srq_main dl ctx"
  shows "sat track (srq_addresses E fuel k addrs junks opt dl ctx routs0) M (all_back E M0)"
  using assms unfolding srq_addresses_def pp_get_port_info_def
  by (auto intro!: sat_intro sat_conseq [OF held_srq_local_dests] held_out_ctx held_out_my_dest
      held_srq_exchange simp: track_calls unchanged_def)

lemma held_srq_main_ctx:
  assumes "M = add_mset (Device_list, dl) M0"
  shows "sat track (srq_main_ctx E fuel k addrs junks psize opt dl ib_dev) M (all_back E M0)"
  using assms unfolding srq_main_ctx_def srq_post_recv_def
  by (auto intro!: sat_intro sat_conseq [OF sat_srq_init_ctx] sat_conseq [OF held_srq_post_loop]
      held_out_dev_list held_out_ctx held_srq_addresses simp: made_def unchanged_def owns_srq_main_def
      split: option.splits)

lemma held_srq_main: "sat track (srq_main E fuel k addrs junks devs psize cas args) M (all_back E M)"
  unfolding srq_main_def
  by (auto intro!: sat_intro held_out_dev_list held_srq_main_ctx simp: track_simps all_back_def)

section \<open>Properties\<close>

text \<open>
  C26: Every way out of \<open>main\<close>, with whatever status, keeps what the process held before and
  releases nothing twice; and when the calls that give resources of libibverbs back succeed, it gives
  back everything it acquired: the labels at the end of \<open>main\<close> undo exactly what has been
  done when they are reached.  (A failing call ends \<open>pp_close_ctx\<close> early and leaves the rest,
  and \<open>ibv_destroy_cq\<close> is such a call as long as events it delivered have not been acknowledged.)
\<close>

theorem srq_main_always_gives_back:
  assumes "held h = Some M"
    and "run_state (srq_main E fuel k addrs junks devs psize cas args) h = (r, h')"
  shows "\<exists>M'. held h' = Some M' \<and>
    (r \<noteq> None \<longrightarrow> M \<subseteq># M' \<and> (releases_ok E \<longrightarrow> M' = M))"
  using satD [OF held_srq_main assms] by (simp add: all_back_def)

definition srq_no_qp_env :: api_env where
  "srq_no_qp_env = const_env (\<lambda>c. case c of Ibv (Create_qp d i) \<Rightarrow> 0 | Ibv (Destroy_srq p) \<Rightarrow> 0
     | _ \<Rightarrow> if status_call c then 0 else 1) (\<lambda>c. [])"

lemmas srq_run_defs = srq_main_def srq_main_ctx_def srq_init_ctx_def pl_setup_defs srq_after_cq_def
  srq_queues_def srq_clean_qps_def srq_clean_srq_def pl_clean_defs out_dev_list_def

theorem srq_main_always_gives_back_witness:
  "\<exists>h'. run_state (srq_main srq_no_qp_env 5 no_stack [1] [] [(''mlx5_0'', 7)] 4096 [] [''srv'']) []
     = (Some 1, h') \<and> held h' = Some {#}"
proof -
  have ok: "releases_ok srq_no_qp_env"
    by (simp add: releases_ok_def srq_no_qp_env_def const_env_def status_call_def)
  have "\<exists>h'. run_state (srq_main srq_no_qp_env 5 no_stack [1] [] [(''mlx5_0'', 7)] 4096 [] [''srv'']) []
     = (Some 1, h')"
    by (simp add: srq_run_defs srq_check_def plain_args_def srq_default_def plain_default_def
        plain_opts.defs choose_dev_def new_srq_ctx_def run_simps srq_no_qp_env_def const_env_def
        status_call_def eval_nat_numeral Let_def)
  then show ?thesis using srq_main_always_gives_back [of "[]" "{#}"] ok by force
qed

end
