(* ===== verification/SrqSystem.thy ===== *)
theory SrqSystem
  imports SrqMain RcSystem
begin

text \<open>
  The ping-pong of srq_pingpong.c over \<open>N\<close> connected queue pairs: a client and a server, each
  running the code's \<open>srq_handle_wc\<close>, and a network that completes a posted send or delivers a
  message on one of the queue pairs.  All receives come from one queue, so the question is
  whether it can run dry.
\<close>

section \<open>Two processes\<close>

text \<open>
  \<open>s_done i\<close> and \<open>s_got i\<close> count the completions the network has reported on queue pair
  \<open>i\<close>; the code itself only keeps their sums.
\<close>

record srq_proc =
  s_env :: api_env
  s_ctx :: srq_ctx
  s_st :: srq_st
  s_hist :: trace
  s_done :: "nat \<Rightarrow> int"
  s_got :: "nat \<Rightarrow> int"

text \<open>The sends posted with success on a queue pair.\<close>

fun qp_sends :: "ptr \<Rightarrow> trace \<Rightarrow> int" where
  "qp_sends q [] = 0"
| "qp_sends q ((c, r) # h) = qp_sends q h
     + (case c of Data (Post_send q' w) \<Rightarrow> if q' = q \<and> r = 0 then 1 else 0 | _ \<Rightarrow> 0)"

abbreviation posted_on :: "srq_proc \<Rightarrow> nat \<Rightarrow> int" where
  "posted_on p i \<equiv> qp_sends (fst (q_qps (s_ctx p) ! i)) (s_hist p)"

definition srq_wc :: "srq_proc \<Rightarrow> nat \<Rightarrow> bool \<Rightarrow> wc" where
  "srq_wc p i sent = \<lparr>wc_wr_id = (if sent then PINGPONG_SEND_WRID else PINGPONG_RECV_WRID), wc_status = 0,
     wc_opcode = (if sent then WC_SEND else WC_RECV), wc_imm = 0, wc_qp_num = snd (q_qps (s_ctx p) ! i)\<rparr>"

definition srq_deliver :: "int \<Rightarrow> int \<Rightarrow> nat \<Rightarrow> bool \<Rightarrow> srq_proc \<Rightarrow> srq_proc option" where
  "srq_deliver iters n i sent p =
    (case run_state (srq_handle_wc (s_env p) (s_ctx p) n iters (srq_wc p i sent) (s_st p)) (s_hist p) of
       (Inl e, h) \<Rightarrow> None
     | (Inr st, h) \<Rightarrow> Some (if sent
         then p\<lparr>s_st := st, s_hist := h, s_done := (s_done p)(i := s_done p i + 1)\<rparr>
         else p\<lparr>s_st := st, s_hist := h, s_got := (s_got p)(i := s_got p i + 1)\<rparr>))"

text \<open>
  One event at the side \<open>b\<close> (the client is \<open>True\<close>): a posted send of queue pair \<open>i\<close> completes,
  or a message the other side posted on queue pair \<open>i\<close> arrives; it arrives only where the shared
  queue has a receive.
\<close>

inductive srq_step :: "int \<Rightarrow> nat \<Rightarrow> (bool \<Rightarrow> srq_proc) \<Rightarrow> (bool \<Rightarrow> srq_proc) \<Rightarrow> bool" for iters N where
  srq_sent: "i < N \<Longrightarrow> s_done (S b) i < posted_on (S b) i \<Longrightarrow>
     srq_deliver iters (int N) i True (S b) = Some p \<Longrightarrow> srq_step iters N S (S(b := p))"
| srq_got: "i < N \<Longrightarrow> s_got (S b) i < posted_on (S (\<not> b)) i \<Longrightarrow>
     k_rcnt (s_st (S b)) < recvs (s_hist (S b)) \<Longrightarrow>
     srq_deliver iters (int N) i False (S b) = Some p \<Longrightarrow> srq_step iters N S (S(b := p))"

inductive_cases srq_stepE: "srq_step iters N S S'"

text \<open>Where the loops start.\<close>

definition srq_starts :: "nat \<Rightarrow> bool \<Rightarrow> srq_proc \<Rightarrow> bool" where
  "srq_starts N client p \<longleftrightarrow> posts_ok (s_env p) \<and> 1 \<le> N \<and> int N \<le> b_rx_depth (s_ctx p)
     \<and> length (q_qps (s_ctx p)) = N \<and> distinct (map fst (q_qps (s_ctx p)))
     \<and> distinct (map snd (q_qps (s_ctx p)))
     \<and> k_rcnt (s_st p) = 0 \<and> k_scnt (s_st p) = 0 \<and> k_routs (s_st p) = b_rx_depth (s_ctx p)
     \<and> k_pend (s_st p) = replicate N (if client then PINGPONG_SEND_WRID OR PINGPONG_RECV_WRID
                                      else PINGPONG_RECV_WRID)
     \<and> (\<forall>i < N. posted_on p i = (if client then 1 else 0) \<and> s_done p i = 0 \<and> s_got p i = 0)
     \<and> recvs (s_hist p) = b_rx_depth (s_ctx p)"

definition srq_finished :: "int \<Rightarrow> srq_proc \<Rightarrow> bool" where
  "srq_finished iters p \<longleftrightarrow> iters \<le> k_rcnt (s_st p) \<and> iters \<le> k_scnt (s_st p)"

section \<open>What a delivery does\<close>

lemma find_qp_from_nth:
  "distinct (map snd qs) \<Longrightarrow> i < length qs \<Longrightarrow> find_qp_from k qs (snd (qs ! i)) = Some (k + i)"
proof (induction qs arbitrary: i k)
  case (Cons q qs)
  then show ?case by (cases i) (auto simp: image_iff dest: nth_mem)
qed simp

lemma find_qp_nth:
  "distinct (map snd (q_qps c)) \<Longrightarrow> i < length (q_qps c) \<Longrightarrow> find_qp (snd (q_qps c ! i)) c = Some i"
  by (simp add: find_qp_def find_qp_from_nth)

lemma run_srq_post_loop:
  "posts_ok E \<Longrightarrow> run_state (srq_post_loop E q wr n i) h =
     (i + int n, replicate n (Data (Post_srq_recv q [wr]), 0) @ h)"
proof (induction n arbitrary: i h)
  case (Suc n)
  have "replicate n x @ x # h = x # replicate n x @ h" for x :: "api \<times> int" and h
    by (induction n) auto
  with Suc show ?case by (simp add: run_simps posts_ok_def)
qed (simp add: run_simps)

lemma srq_counts_replicate [simp]:
  "qp_sends q (replicate n (Data (Post_srq_recv s w), 0) @ h) = qp_sends q h"
  "recvs (replicate n (Data (Post_srq_recv s w), 0) @ h) = recvs h + int n"
  by (induction n) auto

text \<open>The pending bits of a queue pair after a completion, and whether a send was posted.\<close>

definition posts_now :: "int \<Rightarrow> int \<Rightarrow> nat \<Rightarrow> srq_st \<Rightarrow> bool" where
  "posts_now iters w i st \<longleftrightarrow> k_scnt st < iters \<and> k_pend st ! i AND NOT w = 0"

definition srq_next :: "int \<Rightarrow> int \<Rightarrow> nat \<Rightarrow> srq_st \<Rightarrow> srq_st" where
  "srq_next iters w i st = st\<lparr>k_pend := (k_pend st)
     [i := (if posts_now iters w i st then 3 else k_pend st ! i AND NOT w)]\<rparr>"

lemma run_srq_after_wc:
  assumes "posts_ok E" and "i < length (k_pend st)"
  shows "\<exists>h'. run_state (srq_after_wc E ctx iters i w st) h = (Inr (srq_next iters w i st), h')
     \<and> recvs h' = recvs h
     \<and> (\<forall>q. qp_sends q h' = qp_sends q h
           + (if q = fst (q_qps ctx ! i) \<and> posts_now iters w i st then 1 else 0))"
  using assms unfolding srq_after_wc_def srq_post_send_def
  by (auto simp: run_simps srq_next_def posts_now_def wrids posts_ok_def Let_def)

text \<open>The counters after a completion, before the pending bits are looked at.\<close>

definition srq_count :: "bool \<Rightarrow> int \<Rightarrow> int \<Rightarrow> srq_st \<Rightarrow> srq_st" where
  "srq_count sent n depth st = (if sent then st\<lparr>k_scnt := k_scnt st + 1\<rparr>
     else st\<lparr>k_routs := (if k_routs st - 1 \<le> n then depth else k_routs st - 1), k_rcnt := k_rcnt st + 1\<rparr>)"

lemma srq_deliver_run:
  assumes "posts_ok (s_env p)" and "i < length (q_qps (s_ctx p))" and "distinct (map snd (q_qps (s_ctx p)))"
    and "length (k_pend (s_st p)) = length (q_qps (s_ctx p))" and "k_routs (s_st p) \<le> b_rx_depth (s_ctx p)"
    and "st = srq_count sent n (b_rx_depth (s_ctx p)) (s_st p)" and "w = (if sent then 2 else 1)"
  shows "\<exists>h'. srq_deliver iters n i sent p = Some (if sent
         then p\<lparr>s_st := srq_next iters w i st, s_hist := h', s_done := (s_done p)(i := s_done p i + 1)\<rparr>
         else p\<lparr>s_st := srq_next iters w i st, s_hist := h', s_got := (s_got p)(i := s_got p i + 1)\<rparr>)
     \<and> recvs h' - k_routs st - k_rcnt st = recvs (s_hist p) - k_routs (s_st p) - k_rcnt (s_st p)
     \<and> (\<forall>q. qp_sends q h' = qp_sends q (s_hist p)
           + (if q = fst (q_qps (s_ctx p) ! i) \<and> posts_now iters w i st then 1 else 0))"
proof -
  let ?d = "b_rx_depth (s_ctx p)" and ?s = "s_st p"
  let ?h = "if \<not> sent \<and> k_routs ?s - 1 \<le> n then snd (run_state (srq_post_recv (s_env p) (s_ctx p)
      (?d - (k_routs ?s - 1))) (s_hist p)) else s_hist p"
  have h: "qp_sends q ?h = qp_sends q (s_hist p)" 
    "recvs ?h = recvs (s_hist p) + (if \<not> sent \<and> k_routs ?s - 1 \<le> n then ?d - (k_routs ?s - 1) else 0)" for q
    using assms(1,5) by (auto simp: srq_post_recv_def run_srq_post_loop)
  have f: "find_qp (snd (q_qps (s_ctx p) ! i)) (s_ctx p) = Some i"
    using assms(2,3) by (rule find_qp_nth [rotated])
  have st: "i < length (k_pend st)"
    using assms(2,4,6) by (simp add: srq_count_def)
  have "run_state (srq_handle_wc (s_env p) (s_ctx p) n iters (srq_wc p i sent) ?s) (s_hist p) =
     run_state (srq_after_wc (s_env p) (s_ctx p) iters i w st) ?h"
    using assms(1,5) unfolding assms(6,7)
    by (auto simp: srq_handle_wc_def srq_wc_def wrids f srq_count_def run_simps srq_post_recv_def
        run_srq_post_loop Let_def)
  moreover obtain h' where
    "run_state (srq_after_wc (s_env p) (s_ctx p) iters i w st) ?h = (Inr (srq_next iters w i st), h')"
    "recvs h' = recvs ?h"
    "\<forall>q. qp_sends q h' = qp_sends q ?h
           + (if q = fst (q_qps (s_ctx p) ! i) \<and> posts_now iters w i st then 1 else 0)"
    using run_srq_after_wc [OF assms(1) st] by blast
  ultimately show ?thesis using h assms(6)
    by (auto simp: srq_deliver_def srq_count_def)
qed

section \<open>The invariant\<close>

text \<open>Of one queue pair: \<open>lead\<close> is 1 for the server, which waits for the first message.\<close>

definition qp_inv :: "int \<Rightarrow> int \<Rightarrow> int \<Rightarrow> int \<Rightarrow> int \<Rightarrow> int \<Rightarrow> int \<Rightarrow> bool" where
  "qp_inv iters lead scnt0 pn n d g \<longleftrightarrow> pn \<in> {0, 1, 2, 3}
      \<and> n = d + (if pn = 2 \<or> pn = 3 then 1 else 0)
      \<and> n = g + (if pn = 1 \<or> pn = 3 then 1 else 0) - lead
      \<and> (pn = 0 \<longrightarrow> iters \<le> scnt0)"

definition srq_inv :: "nat \<Rightarrow> int \<Rightarrow> int \<Rightarrow> srq_proc \<Rightarrow> bool" where
  "srq_inv N iters lead p \<longleftrightarrow> posts_ok (s_env p) \<and> 1 \<le> N \<and> int N \<le> b_rx_depth (s_ctx p)
     \<and> length (q_qps (s_ctx p)) = N \<and> distinct (map fst (q_qps (s_ctx p)))
     \<and> distinct (map snd (q_qps (s_ctx p))) \<and> length (k_pend (s_st p)) = N
     \<and> (\<forall>i < N. qp_inv iters lead (k_scnt (s_st p)) (k_pend (s_st p) ! i) (posted_on p i) (s_done p i) (s_got p i))
     \<and> k_scnt (s_st p) = (\<Sum>i < N. s_done p i) \<and> k_rcnt (s_st p) = (\<Sum>i < N. s_got p i)
     \<and> recvs (s_hist p) = k_routs (s_st p) + k_rcnt (s_st p)
     \<and> int N \<le> k_routs (s_st p) \<and> k_routs (s_st p) \<le> b_rx_depth (s_ctx p)
     \<and> (\<Sum>i < N. posted_on p i) \<le> iters + int N - 1"

lemma qp_inv_mono: "qp_inv iters lead s pn n d g \<Longrightarrow> s \<le> s' \<Longrightarrow> qp_inv iters lead s' pn n d g"
  by (auto simp: qp_inv_def)

lemma qp_inv_sent:
  assumes "qp_inv iters lead s pn n d g" and "d < n"
  shows "qp_inv iters lead (s + 1) (if s + 1 < iters \<and> pn AND NOT 2 = 0 then 3 else pn AND NOT 2)
    (n + (if s + 1 < iters \<and> pn AND NOT 2 = 0 then 1 else 0)) (d + 1) g"
proof -
  from assms have "pn = 2 \<or> pn = 3" by (auto simp: qp_inv_def)
  then show ?thesis by (rule disjE) (use assms in \<open>auto simp: qp_inv_def\<close>)
qed

lemma qp_inv_got:
  assumes "qp_inv iters lead s pn n d g" and "g < n + lead"
  shows "qp_inv iters lead s (if s < iters \<and> pn AND NOT 1 = 0 then 3 else pn AND NOT 1)
    (n + (if s < iters \<and> pn AND NOT 1 = 0 then 1 else 0)) d (g + 1)"
proof -
  from assms have "pn = 1 \<or> pn = 3" by (auto simp: qp_inv_def)
  then show ?thesis by (rule disjE) (use assms in \<open>auto simp: qp_inv_def\<close>)
qed

lemma sum_update: "i < N \<Longrightarrow> (\<Sum>j < N. (f(i := f i + x)) j) = (\<Sum>j < N. f j) + (x :: int)" for N :: nat
proof -
  assume i: "i < N"
  have "(\<Sum>j < N. (f(i := f i + x)) j) = (\<Sum>j < N. f j + (if j = i then x else 0))"
    by (rule sum.cong) auto
  also have "\<dots> = (\<Sum>j < N. f j) + x" using i by (simp add: sum.distrib)
  finally show ?thesis .
qed

lemma posted_le:
  assumes "\<forall>i < N. qp_inv iters lead s (pn i) (n i) (d i) (g i)"
  shows "(\<Sum>i < N. n i) \<le> (\<Sum>i < N. d i) + int N"
proof -
  have "(\<Sum>i < N. n i) \<le> (\<Sum>i < N. d i + 1)"
    by (rule sum_mono) (use assms in \<open>auto simp: qp_inv_def\<close>)
  then show ?thesis by (simp add: sum.distrib)
qed

lemma srq_next_simps [simp]:
  "k_rcnt (srq_next iters w i st) = k_rcnt st" "k_scnt (srq_next iters w i st) = k_scnt st"
  "k_routs (srq_next iters w i st) = k_routs st"
  "length (k_pend (srq_next iters w i st)) = length (k_pend st)"
  "j < length (k_pend st) \<Longrightarrow> k_pend (srq_next iters w i st) ! j =
     (if j = i then if posts_now iters w i st then 3 else k_pend st ! i AND NOT w else k_pend st ! j)"
  by (auto simp: srq_next_def nth_list_update)

lemma srq_count_simps [simp]:
  "k_scnt (srq_count sent n depth st) = k_scnt st + (if sent then 1 else 0)"
  "k_rcnt (srq_count sent n depth st) = k_rcnt st + (if sent then 0 else 1)"
  "k_pend (srq_count sent n depth st) = k_pend st"
  by (simp_all add: srq_count_def)

lemma srq_count_routs:
  "n \<le> k_routs st \<Longrightarrow> k_routs st \<le> depth \<Longrightarrow> n \<le> depth \<Longrightarrow>
   n \<le> k_routs (srq_count sent n depth st) \<and> k_routs (srq_count sent n depth st) \<le> depth"
  by (auto simp: srq_count_def)

lemma srq_inv_deliver:
  assumes inv: "srq_inv N iters lead p" and i: "i < N"
    and can: "if sent then s_done p i < posted_on p i else s_got p i < posted_on p i + lead"
    and del: "srq_deliver iters (int N) i sent p = Some p'"
  shows "srq_inv N iters lead p' \<and> s_got p' = (if sent then s_got p else (s_got p)(i := s_got p i + 1))
    \<and> k_scnt (s_st p') + k_rcnt (s_st p') = k_scnt (s_st p) + k_rcnt (s_st p) + 1
    \<and> (\<forall>j < N. posted_on p j \<le> posted_on p' j)"
proof -
  note P = inv [unfolded srq_inv_def]
  have Q: "qp_inv iters lead (k_scnt (s_st p)) (k_pend (s_st p) ! j) (posted_on p j) (s_done p j) (s_got p j)"
    if "j < N" for j
    using P that by blast
  define st where "st = srq_count sent (int N) (b_rx_depth (s_ctx p)) (s_st p)"
  define w :: int where "w = (if sent then 2 else 1)"
  let ?now = "posts_now iters w i st"
  obtain h' where del': "p' = (if sent
         then p\<lparr>s_st := srq_next iters w i st, s_hist := h', s_done := (s_done p)(i := s_done p i + 1)\<rparr>
         else p\<lparr>s_st := srq_next iters w i st, s_hist := h', s_got := (s_got p)(i := s_got p i + 1)\<rparr>)"
    and rec: "recvs h' - k_routs st - k_rcnt st = recvs (s_hist p) - k_routs (s_st p) - k_rcnt (s_st p)"
    and snd: "\<And>q. qp_sends q h' = qp_sends q (s_hist p)
           + (if q = fst (q_qps (s_ctx p) ! i) \<and> ?now then 1 else 0)"
    using srq_deliver_run [of p i st sent "int N" w iters] P i del st_def w_def by auto
  have same: "s_env p' = s_env p" "s_ctx p' = s_ctx p" "s_st p' = srq_next iters w i st" "s_hist p' = h'"
    "s_done p' = (if sent then (s_done p)(i := s_done p i + 1) else s_done p)"
    "s_got p' = (if sent then s_got p else (s_got p)(i := s_got p i + 1))"
    by (simp_all add: del')
  have len: "length (k_pend st) = N" using P by (simp add: st_def)
  have post: "posted_on p' j = posted_on p j + (if j = i \<and> ?now then 1 else 0)" if "j < N" for j
  proof -
    have "fst (q_qps (s_ctx p) ! j) = fst (q_qps (s_ctx p) ! i) \<longleftrightarrow> j = i"
      using P i that nth_eq_iff_index_eq [of "map fst (q_qps (s_ctx p))" j i] by simp
    then show ?thesis by (simp add: same snd)
  qed
  have sc: "k_scnt st = k_scnt (s_st p) + (if sent then 1 else 0)" by (simp add: st_def)
  have qi: "qp_inv iters lead (k_scnt (s_st p)) (k_pend st ! i) (posted_on p i) (s_done p i) (s_got p i)"
    using Q [OF i] by (simp add: st_def)
  have here: "qp_inv iters lead (k_scnt st) (k_pend (s_st p') ! i) (posted_on p' i) (s_done p' i) (s_got p' i)"
  proof (cases sent)
    case True
    then show ?thesis unfolding post [OF i] using qp_inv_sent [OF qi] can i len
      by (simp add: same w_def posts_now_def sc split: if_splits)
  next
    case False
    then show ?thesis unfolding post [OF i] using qp_inv_got [OF qi] can i len
      by (simp add: same w_def posts_now_def sc split: if_splits)
  qed
  have each: "qp_inv iters lead (k_scnt st) (k_pend (s_st p') ! j) (posted_on p' j) (s_done p' j) (s_got p' j)"
    if "j < N" for j
  proof (cases "j = i")
    case False
    have "qp_inv iters lead (k_scnt (s_st p)) (k_pend st ! j) (posted_on p j) (s_done p j) (s_got p j)"
      using Q [OF that] by (simp add: st_def)
    then have "qp_inv iters lead (k_scnt st) (k_pend st ! j) (posted_on p j) (s_done p j) (s_got p j)"
      by (rule qp_inv_mono) (simp add: sc)
    with False that len show ?thesis unfolding post [OF that] by (simp add: same)
  qed (use here in simp)
  have sums: "k_scnt st = (\<Sum>j < N. s_done p' j)" "k_rcnt st = (\<Sum>j < N. s_got p' j)"
    using P i sum_update [OF i, of "s_done p" 1] sum_update [OF i, of "s_got p" 1]
    by (auto simp: same st_def)
  have bound: "(\<Sum>j < N. posted_on p' j) \<le> iters + int N - 1"
  proof (cases ?now)
    case True
    then have "k_scnt st < iters" by (simp add: posts_now_def)
    with posted_le [of N iters lead "k_scnt st"] each sums(1) show ?thesis by fastforce
  next
    case False
    then have "(\<Sum>j < N. posted_on p' j) = (\<Sum>j < N. posted_on p j)"
      by (intro sum.cong) (simp_all add: post)
    with P show ?thesis by simp
  qed
  have "srq_inv N iters lead p'"
    using P each sums bound len rec srq_count_routs [of "int N" "s_st p" "b_rx_depth (s_ctx p)" sent]
    unfolding srq_inv_def by (simp add: same(1-4)) (simp add: st_def)
  moreover have "\<forall>j < N. posted_on p j \<le> posted_on p' j" using post by fastforce
  moreover have "k_scnt (s_st p') + k_rcnt (s_st p') = k_scnt (s_st p) + k_rcnt (s_st p) + 1"
    by (simp add: same(3) st_def)
  ultimately show ?thesis using same(6) by blast
qed

section \<open>The pair\<close>

definition lead_of :: "bool \<Rightarrow> int" where
  "lead_of client = (if client then 0 else 1)"

definition srq_pair_inv :: "int \<Rightarrow> nat \<Rightarrow> (bool \<Rightarrow> srq_proc) \<Rightarrow> bool" where
  "srq_pair_inv iters N S \<longleftrightarrow> (\<forall>b. srq_inv N iters (lead_of b) (S b)
     \<and> (\<forall>i < N. s_got (S b) i \<le> posted_on (S (\<not> b)) i))"

lemma srq_starts_inv:
  assumes "srq_starts N True (S True)" and "srq_starts N False (S False)" and "1 \<le> iters"
  shows "srq_pair_inv iters N S"
proof -
  have "srq_inv N iters (lead_of b) (S b)" for b
    using assms by (cases b) (auto simp: srq_starts_def srq_inv_def lead_of_def qp_inv_def wrids)
  moreover have "\<forall>i < N. s_got (S b) i \<le> posted_on (S (\<not> b)) i" for b
    using assms by (cases b) (auto simp: srq_starts_def)
  ultimately show ?thesis by (simp add: srq_pair_inv_def)
qed

lemma srq_inv_qp:
  "srq_inv N iters lead p \<Longrightarrow> i < N \<Longrightarrow>
   qp_inv iters lead (k_scnt (s_st p)) (k_pend (s_st p) ! i) (posted_on p i) (s_done p i) (s_got p i)"
  unfolding srq_inv_def by blast

text \<open>A message of the other side that has not arrived is one the side is still waiting for.\<close>

lemma awaited:
  assumes "srq_pair_inv iters N S" and "i < N"
  shows "posted_on (S (\<not> b)) i \<le> s_got (S b) i + 1"
    and "s_got (S b) i < posted_on (S (\<not> b)) i \<Longrightarrow> s_got (S b) i < posted_on (S b) i + lead_of b"
proof -
  have "qp_inv iters (lead_of x) (k_scnt (s_st (S x))) (k_pend (s_st (S x)) ! i) (posted_on (S x) i)
      (s_done (S x) i) (s_got (S x) i)" "s_got (S x) i \<le> posted_on (S (\<not> x)) i" for x
    using assms srq_inv_qp [of N iters "lead_of x" "S x" i] by (simp_all add: srq_pair_inv_def)
  from this [of b] this [of "\<not> b"] show "posted_on (S (\<not> b)) i \<le> s_got (S b) i + 1"
    "s_got (S b) i < posted_on (S (\<not> b)) i \<Longrightarrow> s_got (S b) i < posted_on (S b) i + lead_of b"
    by (auto simp: qp_inv_def lead_of_def split: if_splits)
qed

lemma srq_pair_update:
  assumes "srq_pair_inv iters N S" and "srq_inv N iters (lead_of b) p"
    and "\<forall>i < N. s_got p i \<le> posted_on (S (\<not> b)) i" and "\<forall>i < N. posted_on (S b) i \<le> posted_on p i"
  shows "srq_pair_inv iters N (S(b := p))"
proof -
  have "s_got (S (\<not> b)) i \<le> posted_on p i" if "i < N" for i
  proof -
    have "s_got (S (\<not> b)) i \<le> posted_on (S (\<not> \<not> b)) i"
      using assms(1) that unfolding srq_pair_inv_def by blast
    with assms(4) that show ?thesis by fastforce
  qed
  with assms(1-3) show ?thesis unfolding srq_pair_inv_def by (cases b) (simp_all add: all_bool_eq)
qed

definition srq_total :: "(bool \<Rightarrow> srq_proc) \<Rightarrow> int" where
  "srq_total S = k_scnt (s_st (S True)) + k_rcnt (s_st (S True))
     + (k_scnt (s_st (S False)) + k_rcnt (s_st (S False)))"

lemma srq_total_update:
  "k_scnt (s_st p) + k_rcnt (s_st p) = k_scnt (s_st (S b)) + k_rcnt (s_st (S b)) + 1 \<Longrightarrow>
   srq_total (S(b := p)) = srq_total S + 1"
  by (cases b) (simp_all add: srq_total_def)

lemma srq_pair_step:
  assumes "srq_step iters N S S'" and "srq_pair_inv iters N S"
  shows "srq_pair_inv iters N S' \<and> srq_total S' = srq_total S + 1"
  using assms
proof (induction rule: srq_step.induct)
  case (srq_sent i S b p)
  then have "srq_inv N iters (lead_of b) (S b)" by (simp add: srq_pair_inv_def)
  from srq_inv_deliver [OF this srq_sent(1) _ srq_sent(3)] srq_sent(2)
  have "srq_inv N iters (lead_of b) p" "s_got p = s_got (S b)"
    "k_scnt (s_st p) + k_rcnt (s_st p) = k_scnt (s_st (S b)) + k_rcnt (s_st (S b)) + 1"
    "\<forall>j < N. posted_on (S b) j \<le> posted_on p j" by simp_all
  then show ?case
    using srq_pair_update [OF srq_sent(4)] srq_sent(4) srq_total_update
    by (simp add: srq_pair_inv_def del: fun_upd_apply)
next
  case (srq_got i S b p)
  then have "srq_inv N iters (lead_of b) (S b)" by (simp add: srq_pair_inv_def)
  from srq_inv_deliver [OF this srq_got(1) _ srq_got(4)] awaited(2) [OF srq_got(5,1,2)]
  have p: "srq_inv N iters (lead_of b) p" "s_got p = (s_got (S b))(i := s_got (S b) i + 1)"
    "k_scnt (s_st p) + k_rcnt (s_st p) = k_scnt (s_st (S b)) + k_rcnt (s_st (S b)) + 1"
    "\<forall>j < N. posted_on (S b) j \<le> posted_on p j" by simp_all
  have "\<forall>j < N. s_got p j \<le> posted_on (S (\<not> b)) j"
    using srq_got(2,5) p(2) by (auto simp: srq_pair_inv_def)
  then show ?case
    using srq_pair_update [OF srq_got(5) p(1)] p(4) srq_total_update [of p S b] p(3) by blast
qed

text \<open>When nothing is under way each queue pair waits at exactly one end, which has enough.\<close>

lemma quiet_pair:
  assumes inv: "srq_pair_inv iters N S"
    and all: "\<And>b i. i < N \<Longrightarrow> s_done (S b) i = posted_on (S b) i"
    and got: "\<And>b i. i < N \<Longrightarrow> s_got (S b) i = posted_on (S (\<not> b)) i"
  shows "iters \<le> k_scnt (s_st (S b)) \<and> k_rcnt (s_st (S b)) = k_scnt (s_st (S (\<not> b)))"
proof -
  have inv1: "srq_inv N iters (lead_of x) (S x)" for x using inv by (simp add: srq_pair_inv_def)
  have N: "1 \<le> N" using inv1 by (simp add: srq_inv_def)
  let ?sc = "\<lambda>b. k_scnt (s_st (S b))"
  have sc: "?sc x = (\<Sum>i < N. posted_on (S x) i)" "k_rcnt (s_st (S x)) = ?sc (\<not> x)" for x
  proof -
    have 1: "?sc x = (\<Sum>i < N. s_done (S x) i)" "k_rcnt (s_st (S x)) = (\<Sum>i < N. s_got (S x) i)" for x
      using inv1 [of x] unfolding srq_inv_def by blast+
    then show "?sc x = (\<Sum>i < N. posted_on (S x) i)" for x by (simp add: all)
    then show "k_rcnt (s_st (S x)) = ?sc (\<not> x)" by (simp add: 1(2) got)
  qed
  let ?idle = "\<lambda>x i. k_pend (s_st (S x)) ! i = 0"
  have idle: "?idle x i \<Longrightarrow> iters \<le> ?sc x" if "i < N" for x i
    using srq_inv_qp [OF inv1 that, of x] by (simp add: qp_inv_def)
  have ends: "?idle True i \<and> \<not> ?idle False i \<and> posted_on (S True) i = posted_on (S False) i
      \<or> \<not> ?idle True i \<and> ?idle False i \<and> posted_on (S True) i = posted_on (S False) i + 1"
    if "i < N" for i
    using srq_inv_qp [OF inv1 that, of True] srq_inv_qp [OF inv1 that, of False]
      all [OF that] got [OF that]
    by (auto simp: qp_inv_def lead_of_def split: if_splits)
  have le: "?sc False \<le> ?sc True"
    unfolding sc(1) by (rule sum_mono) (use ends in fastforce)
  have "iters \<le> ?sc False"
  proof (cases "\<exists>i < N. ?idle False i")
    case True
    then show ?thesis using idle by blast
  next
    case False
    then have "?sc True = ?sc False"
      unfolding sc(1) by (intro sum.cong) (use ends in auto)
    moreover have "?idle True 0" using ends [of 0] False N by auto
    ultimately show ?thesis using idle [of 0 True] N by simp
  qed
  with le have "iters \<le> ?sc b" by (cases b) auto
  then show ?thesis by (simp add: sc(2))
qed

lemma deliver_some:
  assumes "srq_inv N iters lead p" and "i < N"
  shows "\<exists>p'. srq_deliver iters (int N) i sent p = Some p'"
  using srq_deliver_run [of p i "srq_count sent (int N) (b_rx_depth (s_ctx p)) (s_st p)" sent "int N"
      "if sent then 2 else 1" iters] assms
  unfolding srq_inv_def by blast

lemma srq_progress:
  assumes inv: "srq_pair_inv iters N S" and "\<not> (srq_finished iters (S True) \<and> srq_finished iters (S False))"
  shows "\<exists>S'. srq_step iters N S S'"
proof (rule ccontr)
  assume stuck: "\<nexists>S'. srq_step iters N S S'"
  have inv1: "srq_inv N iters (lead_of x) (S x)" for x using inv by (simp add: srq_pair_inv_def)
  have "s_done (S b) i = posted_on (S b) i" if "i < N" for b i
  proof -
    have "s_done (S b) i \<le> posted_on (S b) i"
      using srq_inv_qp [OF inv1 that, of b] by (auto simp: qp_inv_def)
    moreover have "\<not> s_done (S b) i < posted_on (S b) i"
      using stuck deliver_some [OF inv1 that, of True b] srq_sent [OF that] by blast
    ultimately show ?thesis by simp
  qed
  moreover have "s_got (S b) i = posted_on (S (\<not> b)) i" if "i < N" for b i
  proof -
    have "s_got (S b) i \<le> posted_on (S (\<not> b)) i" using inv that by (simp add: srq_pair_inv_def)
    moreover have "k_rcnt (s_st (S b)) < recvs (s_hist (S b))"
      using inv1 [of b] by (simp add: srq_inv_def)
    then have "\<not> s_got (S b) i < posted_on (S (\<not> b)) i"
      using stuck deliver_some [OF inv1 that, of False b] srq_got [OF that] by blast
    ultimately show ?thesis by simp
  qed
  ultimately have "iters \<le> k_scnt (s_st (S b)) \<and> k_rcnt (s_st (S b)) = k_scnt (s_st (S (\<not> b)))" for b
    by (rule quiet_pair [OF inv])
  then have "srq_finished iters (S b)" for b
    by (metis srq_finished_def)
  with assms(2) show False by blast
qed

lemma srq_reach: "(srq_step iters N)\<^sup>*\<^sup>* S S' \<Longrightarrow> srq_pair_inv iters N S \<Longrightarrow> srq_pair_inv iters N S'"
  by (induction rule: rtranclp_induct) (auto dest: srq_pair_step)

lemma srq_steps:
  "(srq_step iters N ^^ k) S S' \<Longrightarrow> srq_pair_inv iters N S \<Longrightarrow>
   srq_pair_inv iters N S' \<and> srq_total S' = srq_total S + int k"
proof (induction k arbitrary: S')
  case (Suc k)
  then obtain T where "(srq_step iters N ^^ k) S T" "srq_step iters N T S'" by auto
  moreover from this Suc have "srq_pair_inv iters N T" "srq_total T = srq_total S + int k" by simp_all
  ultimately show ?case using srq_pair_step [of iters N T S'] by simp
qed simp

lemma srq_bounds:
  assumes "srq_pair_inv iters N S"
  shows "k_scnt (s_st (S b)) \<le> (\<Sum>i < N. posted_on (S b) i)"
    and "k_rcnt (s_st (S b)) \<le> (\<Sum>i < N. posted_on (S (\<not> b)) i)"
    and "(\<Sum>i < N. posted_on (S b) i) \<le> iters + int N - 1"
    and "(\<Sum>i < N. posted_on (S (\<not> b)) i) \<le> k_rcnt (s_st (S b)) + int N"
proof -
  have inv1: "srq_inv N iters (lead_of x) (S x)" for x using assms by (simp add: srq_pair_inv_def)
  have c: "k_scnt (s_st (S b)) = (\<Sum>i < N. s_done (S b) i)" "k_rcnt (s_st (S b)) = (\<Sum>i < N. s_got (S b) i)"
    using inv1 [of b] unfolding srq_inv_def by blast+
  have "s_done (S b) i \<le> posted_on (S b) i" if "i < N" for i
    using srq_inv_qp [OF inv1 that, of b] by (auto simp: qp_inv_def)
  then show "k_scnt (s_st (S b)) \<le> (\<Sum>i < N. posted_on (S b) i)"
    unfolding c by (intro sum_mono) simp
  have "s_got (S b) i \<le> posted_on (S (\<not> b)) i" if "i < N" for i
    using assms that by (simp add: srq_pair_inv_def)
  then show "k_rcnt (s_st (S b)) \<le> (\<Sum>i < N. posted_on (S (\<not> b)) i)"
    unfolding c by (intro sum_mono) simp
  have "(\<Sum>i < N. posted_on (S (\<not> b)) i) \<le> (\<Sum>i < N. s_got (S b) i + 1)"
    by (rule sum_mono) (use awaited(1) [OF assms] in simp)
  then show "(\<Sum>i < N. posted_on (S (\<not> b)) i) \<le> k_rcnt (s_st (S b)) + int N"
    unfolding c by (simp add: sum.distrib)
  show "(\<Sum>i < N. posted_on (S b) i) \<le> iters + int N - 1"
    using inv1 [of b] by (simp add: srq_inv_def)
qed

section \<open>Properties\<close>

definition srq_demo :: "bool \<Rightarrow> srq_proc" where
  "srq_demo client = \<lparr>s_env = const_env (\<lambda>c. 0) (\<lambda>c. []),
     s_ctx = (new_srq_ctx 1 64 2 2)\<lparr>q_qps := [(1, 7), (2, 9)]\<rparr>,
     s_st = \<lparr>k_rcnt = 0, k_scnt = 0, k_routs = 2, k_pend = replicate 2 (if client then 3 else 1), k_events = 0\<rparr>,
     s_hist = (if client then [(Data (Post_send 1 []), 0), (Data (Post_send 2 []), 0)] else [])
        @ [(Data (Post_srq_recv 0 []), 0), (Data (Post_srq_recv 0 []), 0)],
     s_done = (\<lambda>i. 0), s_got = (\<lambda>i. 0)\<rparr>"

lemma srq_demo_starts: "srq_starts 2 True (srq_demo True)" "srq_starts 2 False (srq_demo False)"
  by (auto simp: srq_starts_def srq_demo_def const_env_def posts_ok_def wrids new_srq_ctx_def
      less_2_cases_iff)

text \<open>
  C25: The shared receive queue never runs dry: at every moment of a run of a client and a server
  over \<open>N\<close> connected queue pairs, where \<open>N\<close> is at most \<open>rx_depth\<close>, each side has receives posted
  for all the messages the other has sent and that have not arrived, whichever queue pairs they
  are on, and no more than the queue holds; on no queue pair is more than one send uncompleted,
  and in all a side posts at most \<open>iters + N - 1\<close> sends.
\<close>

theorem srq_receives_suffice:
  assumes "srq_starts N True (S True)" and "srq_starts N False (S False)" and "1 \<le> iters"
    and "(srq_step iters N)\<^sup>*\<^sup>* S S'"
  shows "(\<Sum>i < N. posted_on (S' (\<not> b)) i) \<le> recvs (s_hist (S' b))
    \<and> recvs (s_hist (S' b)) - k_rcnt (s_st (S' b)) \<le> b_rx_depth (s_ctx (S' b))
    \<and> (\<forall>i < N. posted_on (S' b) i \<le> s_done (S' b) i + 1)
    \<and> (\<Sum>i < N. posted_on (S' b) i) \<le> iters + int N - 1"
proof -
  have inv: "srq_pair_inv iters N S'"
    by (rule srq_reach [OF assms(4) srq_starts_inv [OF assms(1-3)]])
  then have p: "srq_inv N iters (lead_of b) (S' b)" by (simp add: srq_pair_inv_def)
  have "posted_on (S' b) i \<le> s_done (S' b) i + 1" if "i < N" for i
    using srq_inv_qp [OF p that] by (auto simp: qp_inv_def)
  with p srq_bounds [OF inv, of b] show ?thesis by (simp add: srq_inv_def)
qed

theorem srq_receives_suffice_witness:
  "(\<Sum>i < 2. posted_on (srq_demo True) i) \<le> recvs (s_hist (srq_demo False))"
  using srq_receives_suffice [of 2 srq_demo 5 srq_demo False] srq_demo_starts by simp

text \<open>
  C24: The protocol over \<open>N\<close> queue pairs completes: a run makes at most
  \<open>4 * (iters + N - 1)\<close> steps, it cannot stop before both sides have left their loops, although
  the queue pairs share the counters that decide whether a side sends once more, and a side that
  has left its loop has received at least \<open>iters\<close> messages.
\<close>

theorem srq_pair_completes:
  assumes "srq_starts N True (S True)" and "srq_starts N False (S False)" and "1 \<le> iters"
    and "(srq_step iters N ^^ k) S S'"
  shows "int k \<le> 4 * (iters + int N - 1)
    \<and> ((\<exists>S2. srq_step iters N S' S2) \<or> srq_finished iters (S' True) \<and> srq_finished iters (S' False))"
proof -
  have "srq_total S = 0" using assms(1,2) by (simp add: srq_starts_def srq_total_def)
  with srq_steps [OF assms(4) srq_starts_inv [OF assms(1-3)]]
  have inv: "srq_pair_inv iters N S'" and "srq_total S' = int k" by simp_all
  moreover have "srq_total S' \<le> 4 * (iters + int N - 1)"
    using srq_bounds [OF inv, of True] srq_bounds [OF inv, of False] by (simp add: srq_total_def)
  ultimately show ?thesis using srq_progress [OF inv] by auto
qed

theorem srq_pair_completes_witness: "\<exists>S. srq_step 3 2 srq_demo S"
  using srq_pair_completes [of 2 srq_demo 3 0 srq_demo] srq_demo_starts
  by (auto simp: srq_finished_def srq_demo_def)

end
