(* ===== verification/XrcContext.thy ===== *)
theory XrcContext
  imports SrqExchange
begin

text \<open>
  xsrq_pingpong.c: a server and several clients whose messages go to shared receive queues in
  an XRC domain.  The program keeps one static \<open>ctx\<close>; here it is passed from function to
  function.  A failure ends the program without any cleanup, so \<open>None\<close> is all that is
  known of the context then.  This theory: the state, setting up, the work requests and closing.
\<close>

section \<open>State\<close>

record xrc_dest =
  x_gid :: gid
  x_lid :: u32
  x_recv_qpn :: u32
  x_send_qpn :: u32
  x_recv_psn :: u32
  x_send_psn :: u32
  x_srqn :: u32
  x_pp_cnt :: int
  x_sockfd :: int

definition zero_xdest :: xrc_dest where
  "zero_xdest = \<lparr>x_gid = zero_gid, x_lid = 0, x_recv_qpn = 0, x_send_qpn = 0, x_recv_psn = 0,
     x_send_psn = 0, x_srqn = 0, x_pp_cnt = 0, x_sockfd = 0\<rparr>"

text \<open>Queue pairs with their numbers; \<open>y_dests\<close> is the array \<open>rem_dest\<close> points to.\<close>

record xrc_ctx =
  y_context :: ptr
  y_channel :: ptr
  y_pd :: ptr
  y_mr :: ptr
  y_lkey :: int
  y_send_cq :: ptr
  y_recv_cq :: ptr
  y_srq :: ptr
  y_xrcd :: ptr
  y_recv_array :: ptr
  y_recv_qp :: "(ptr \<times> u32) list"
  y_send_array :: ptr
  y_send_qp :: "(ptr \<times> u32) list"
  y_dest_array :: ptr
  y_dests :: "xrc_dest list"
  y_buf :: ptr
  y_lid :: u32
  y_sl :: int
  y_mtu :: u32
  y_ib_port :: int
  y_fd :: int
  y_size :: int
  y_num_clients :: int
  y_num_tests :: int
  y_use_event :: bool
  y_gidx :: int

text \<open>\<open>init\<close>, on a static object whose other fields are 0.\<close>

definition xrc_init :: xrc_ctx where
  "xrc_init = \<lparr>y_context = 0, y_channel = 0, y_pd = 0, y_mr = 0, y_lkey = 0, y_send_cq = 0,
     y_recv_cq = 0, y_srq = 0, y_xrcd = 0, y_recv_array = 0, y_recv_qp = [], y_send_array = 0,
     y_send_qp = [], y_dest_array = 0, y_dests = [], y_buf = 0, y_lid = 0, y_sl = 0, y_mtu = 3,
     y_ib_port = 1, y_fd = 0, y_size = 4096, y_num_clients = 1, y_num_tests = 5,
     y_use_event = False, y_gidx = - 1\<rparr>"

section \<open>Setting up\<close>

definition xrc_open_device ::
    "api_env \<Rightarrow> (string \<times> ptr) list \<Rightarrow> string option \<Rightarrow> xrc_ctx \<Rightarrow> xrc_ctx option prog" where
  "xrc_open_device E devs ib_devname c = do {
     dev_list \<leftarrow> invoke E (Ibv Get_device_list);
     if dev_list = 0 then ret_io None
     else case choose_dev ib_devname devs of None \<Rightarrow> ret_io None
     | Some dev \<Rightarrow> do {
         d \<leftarrow> invoke E (Ibv (Open_device dev));
         if d = 0 then ret_io None
         else do {
           invoke E (Ibv (Free_device_list dev_list));
           ret_io (Some (c\<lparr>y_context := d\<rparr>)) } } }"

definition xrc_recv_init :: "xrc_ctx \<Rightarrow> qp_init" where
  "xrc_recv_init c = zero_qp_init\<lparr>qi_type := QPT_XRC_RECV, qi_comp_mask := {''XRCD''}, qi_xrcd := y_xrcd c\<rparr>"

definition xrc_send_init :: "xrc_ctx \<Rightarrow> qp_init" where
  "xrc_send_init c = zero_qp_init\<lparr>qi_type := QPT_XRC_SEND, send_cq := y_send_cq c,
     max_send_wr := to_int32 (y_num_clients c * y_num_tests c), max_send_sge := 1,
     qi_comp_mask := {''PD''}, qi_pd := y_pd c\<rparr>"

text \<open>The attributes for \<open>INIT\<close>; the mask says which fields count.\<close>

definition xrc_init_attr :: "xrc_ctx \<Rightarrow> int \<Rightarrow> qp_attr" where
  "xrc_init_attr c access = zero_qp_attr\<lparr>qp_state := QPS_INIT, pkey_index := 0, port_num := y_ib_port c,
     qp_access_flags := access\<rparr>"

definition INIT_MASK :: "qp_mask set" where
  "INIT_MASK = {M_STATE, M_PKEY_INDEX, M_PORT, M_ACCESS_FLAGS}"

text \<open>\<open>IBV_ACCESS_REMOTE_WRITE | IBV_ACCESS_REMOTE_READ\<close> is 6.\<close>

fun xrc_create_qps :: "api_env \<Rightarrow> nat \<Rightarrow> xrc_ctx \<Rightarrow> xrc_ctx option prog" where
  "xrc_create_qps E 0 c = ret_io (Some c)"
| "xrc_create_qps E (Suc n) c = do {
     (p, a) \<leftarrow> invoke_attr E (Ibv (Create_qp (y_context c) (xrc_recv_init c)));
     if p = 0 then ret_io None
     else do {
       r \<leftarrow> invoke E (Ibv (Modify_qp p (xrc_init_attr c 6) INIT_MASK));
       if r \<noteq> 0 then ret_io None
       else do {
         (q, b) \<leftarrow> invoke_attr E (Ibv (Create_qp (y_context c) (xrc_send_init c)));
         if q = 0 then ret_io None
         else do {
           r \<leftarrow> invoke E (Ibv (Modify_qp q (xrc_init_attr c 0) INIT_MASK));
           if r \<noteq> 0 then ret_io None
           else xrc_create_qps E n
                  (c\<lparr>y_recv_qp := y_recv_qp c @ [(p, word_of_int (a ''qp_num''))],
                     y_send_qp := y_send_qp c @ [(q, word_of_int (b ''qp_num''))]\<rparr>) } } } }"

text \<open>From the shared receive queue on; each part continues with the next.\<close>

definition xrc_make_srq :: "api_env \<Rightarrow> xrc_ctx \<Rightarrow> xrc_ctx option prog" where
  "xrc_make_srq E c = do {
     s \<leftarrow> invoke E (Ibv (Create_srq_ex (y_context c) (y_num_clients c) 1 (y_xrcd c) (y_recv_cq c) (y_pd c)));
     if s = 0 then ret_io None
     else xrc_create_qps E (nat (y_num_clients c)) (c\<lparr>y_srq := s\<rparr>) }"

definition xrc_make_cqs :: "api_env \<Rightarrow> xrc_ctx \<Rightarrow> xrc_ctx option prog" where
  "xrc_make_cqs E c = do {
     q \<leftarrow> invoke E (Ibv (Create_cq (y_context c) (y_num_clients c) (y_channel c)));
     if q = 0 then ret_io None
     else do {
       r \<leftarrow> when_io (y_use_event c) (invoke E (Data (Req_notify_cq q)));
       if r \<noteq> 0 then ret_io None
       else do {
         s \<leftarrow> invoke E (Ibv (Create_cq (y_context c) (y_num_clients c) 0));
         if s = 0 then ret_io None
         else xrc_make_srq E (c\<lparr>y_recv_cq := q, y_send_cq := s\<rparr>) } } }"

definition xrc_make_domain :: "api_env \<Rightarrow> xrc_ctx \<Rightarrow> xrc_ctx option prog" where
  "xrc_make_domain E c = do {
     f \<leftarrow> invoke E (Libc (Open ''/tmp/xrc_domain''));
     let fd = (if f < 0 then - 1 else f);
     x \<leftarrow> invoke E (Ibv (Open_xrcd (y_context c) fd));
     if x = 0 then ret_io None else xrc_make_cqs E (c\<lparr>y_fd := fd, y_xrcd := x\<rparr>) }"

definition xrc_make_pd :: "api_env \<Rightarrow> xrc_ctx \<Rightarrow> xrc_ctx option prog" where
  "xrc_make_pd E c = do {
     p \<leftarrow> invoke E (Ibv (Alloc_pd (y_context c)));
     if p = 0 then ret_io None
     else do {
       (m, a) \<leftarrow> invoke_attr E (Ibv (Reg_mr p (y_buf c) (y_size c) {LOCAL_WRITE}));
       if m = 0 then ret_io None
       else xrc_make_domain E (c\<lparr>y_pd := p, y_mr := m, y_lkey := a ''lkey''\<rparr>) } }"

definition xrc_make_channel :: "api_env \<Rightarrow> xrc_ctx \<Rightarrow> xrc_ctx option prog" where
  "xrc_make_channel E c =
    (if y_use_event c then do {
       ch \<leftarrow> invoke E (Ibv (Create_comp_channel (y_context c)));
       if ch = 0 then ret_io None else xrc_make_pd E (c\<lparr>y_channel := ch\<rparr>)
     } else xrc_make_pd E c)"

definition xrc_make_buffer :: "api_env \<Rightarrow> int \<Rightarrow> xrc_ctx \<Rightarrow> xrc_ctx option prog" where
  "xrc_make_buffer E psize c = do {
     (r, portinfo) \<leftarrow> pp_get_port_info E (y_context c) (y_ib_port c);
     if r \<noteq> 0 then ret_io None
     else do {
       let lid = (take_bit 16 (word_of_int (portinfo ''lid'')) :: u32);
       if portinfo ''link_layer'' \<noteq> ETHERNET \<and> lid = 0 then ret_io None
       else do {
         b \<leftarrow> invoke E (Libc (Memalign psize (y_size c)));
         if b = 0 then ret_io None
         else xrc_make_channel E (c\<lparr>y_lid := lid, y_buf := b\<rparr>) } } }"

definition xrc_init_ctx ::
    "api_env \<Rightarrow> int \<Rightarrow> (string \<times> ptr) list \<Rightarrow> string option \<Rightarrow> xrc_ctx \<Rightarrow> xrc_ctx option prog" where
  "xrc_init_ctx E psize devs ib_devname c = do {
     p \<leftarrow> invoke E (Libc (Calloc ''recv_qp''));
     q \<leftarrow> invoke E (Libc (Calloc ''send_qp''));
     d \<leftarrow> invoke E (Libc (Calloc ''rem_dest''));
     if p = 0 \<or> q = 0 \<or> d = 0 then ret_io None
     else do {
       o' \<leftarrow> xrc_open_device E devs ib_devname
               (c\<lparr>y_recv_array := p, y_send_array := q, y_dest_array := d,
                  y_dests := replicate (nat (y_num_clients c)) zero_xdest\<rparr>);
       case o' of None \<Rightarrow> ret_io None | Some c \<Rightarrow> xrc_make_buffer E psize c } }"

section \<open>Closing\<close>

text \<open>The loop over the clients: the queue pairs and the socket, unless it is 0.\<close>

fun xrc_close_clients :: "api_env \<Rightarrow> (ptr \<times> ptr \<times> int) list \<Rightarrow> bool prog" where
  "xrc_close_clients E [] = ret_io True"
| "xrc_close_clients E ((sq, rq, fd) # cs) = do {
     r \<leftarrow> invoke E (Ibv (Destroy_qp sq));
     if r \<noteq> 0 then ret_io False
     else do {
       r \<leftarrow> invoke E (Ibv (Destroy_qp rq));
       if r \<noteq> 0 then ret_io False
       else do {
         when_io (fd \<noteq> 0) (invoke E (Libc (Close fd)));
         xrc_close_clients E cs } } }"

definition xrc_client_triples :: "xrc_ctx \<Rightarrow> (ptr \<times> ptr \<times> int) list" where
  "xrc_client_triples c = zip (map fst (y_send_qp c)) (zip (map fst (y_recv_qp c)) (map x_sockfd (y_dests c)))"

definition xrc_close_rest :: "api_env \<Rightarrow> xrc_ctx \<Rightarrow> int prog" where
  "xrc_close_rest E c = do {
     r \<leftarrow> invoke E (Ibv (Destroy_cq (y_send_cq c)));
     if r \<noteq> 0 then ret_io 1 else do {
     r \<leftarrow> invoke E (Ibv (Destroy_cq (y_recv_cq c)));
     if r \<noteq> 0 then ret_io 1 else do {
     r \<leftarrow> invoke E (Ibv (Dereg_mr (y_mr c)));
     if r \<noteq> 0 then ret_io 1 else do {
     r \<leftarrow> invoke E (Ibv (Dealloc_pd (y_pd c)));
     if r \<noteq> 0 then ret_io 1 else do {
     r \<leftarrow> when_io (y_channel c \<noteq> 0) (invoke E (Ibv (Destroy_comp_channel (y_channel c))));
     if r \<noteq> 0 then ret_io 1 else do {
     r \<leftarrow> invoke E (Ibv (Close_device (y_context c)));
     if r \<noteq> 0 then ret_io 1 else do {
     invoke E (Libc (Free (y_buf c)));
     invoke E (Libc (Free (y_dest_array c)));
     invoke E (Libc (Free (y_send_array c)));
     invoke E (Libc (Free (y_recv_array c)));
     ret_io 0 }}}}}}
   }"

definition xrc_close_ctx :: "api_env \<Rightarrow> xrc_ctx \<Rightarrow> int prog" where
  "xrc_close_ctx E c = do {
     ok \<leftarrow> xrc_close_clients E (xrc_client_triples c);
     if \<not> ok then ret_io 1 else do {
     r \<leftarrow> invoke E (Ibv (Destroy_srq (y_srq c)));
     if r \<noteq> 0 then ret_io 1 else do {
     r \<leftarrow> when_io (y_xrcd c \<noteq> 0) (invoke E (Ibv (Close_xrcd (y_xrcd c))));
     if r \<noteq> 0 then ret_io 1 else do {
     r \<leftarrow> when_io (0 \<le> y_fd c) (invoke E (Libc (Close (y_fd c))));
     if r \<noteq> 0 then ret_io 1 else xrc_close_rest E c }}} }"

section \<open>Work requests\<close>

definition xrc_sge :: "xrc_ctx \<Rightarrow> sge" where
  "xrc_sge c = \<lparr>sg_addr = y_buf c, sg_length = y_size c mod 2 ^ 32, sg_lkey = y_lkey c\<rparr>"

text \<open>\<open>wr_id\<close> is the address of \<open>ctx\<close>; nothing reads it back.\<close>

definition xrc_recv_wr :: "xrc_ctx \<Rightarrow> recv_wr" where
  "xrc_recv_wr c = \<lparr>rwr_id = 0, rwr_sges = [xrc_sge c]\<rparr>"

fun xrc_post_recvs :: "api_env \<Rightarrow> xrc_ctx \<Rightarrow> nat \<Rightarrow> int prog" where
  "xrc_post_recvs E c 0 = ret_io 0"
| "xrc_post_recvs E c (Suc n) = do {
     r \<leftarrow> invoke E (Data (Post_srq_recv (y_srq c) [xrc_recv_wr c]));
     if r \<noteq> 0 then ret_io 1 else xrc_post_recvs E c n }"

text \<open>\<open>while (cnt--)\<close> counts a negative number down past the smallest one.\<close>

definition xrc_post_recv :: "api_env \<Rightarrow> xrc_ctx \<Rightarrow> int \<Rightarrow> int prog" where
  "xrc_post_recv E c cnt = xrc_post_recvs E c (nat (cnt mod 2 ^ 32))"

text \<open>
  A message for the destination \<open>i\<close>: round robin over the queue pairs, with a completion for the
  last message only.
\<close>

definition xrc_send_wr :: "xrc_ctx \<Rightarrow> nat \<Rightarrow> send_wr" where
  "xrc_send_wr c i = \<lparr>swr_id = int i, swr_opcode = WR_SEND, swr_sges = [xrc_sge c],
     swr_signaled = (y_num_tests c \<le> x_pp_cnt (y_dests c ! i) + 1), swr_imm = 0, swr_remote_addr = 0,
     swr_rkey = 0, swr_ah = 0, swr_remote_qpn = 0, swr_remote_qkey = 0,
     swr_remote_srqn = x_srqn (y_dests c ! i), swr_dct_key = 0, swr_dct_number = 0\<rparr>"

definition xrc_qpi :: "xrc_ctx \<Rightarrow> nat \<Rightarrow> nat" where
  "xrc_qpi c i = nat (c_rem (int i + x_pp_cnt (y_dests c ! i)) (y_num_clients c))"

definition xrc_post_send :: "api_env \<Rightarrow> xrc_ctx \<Rightarrow> nat \<Rightarrow> (int \<times> xrc_ctx) prog" where
  "xrc_post_send E c i = do {
     r \<leftarrow> invoke E (Data (Post_send (fst (y_send_qp c ! xrc_qpi c i)) [xrc_send_wr c i]));
     ret_io (r, c\<lparr>y_dests := (y_dests c)[i := (y_dests c ! i)\<lparr>x_pp_cnt := x_pp_cnt (y_dests c ! i) + 1\<rparr>]\<rparr>) }"

text \<open>The queue pair a completion names, 0 when there is none of that number.\<close>

fun xrc_find_from :: "nat \<Rightarrow> (ptr \<times> u32) list \<Rightarrow> u32 \<Rightarrow> nat" where
  "xrc_find_from i [] n = 0"
| "xrc_find_from i (q # qs) n = (if snd q = n then i else xrc_find_from (Suc i) qs n)"

definition xrc_find_qp :: "xrc_ctx \<Rightarrow> u32 \<Rightarrow> nat" where
  "xrc_find_qp c n = (if y_num_clients c = 1 then 0 else xrc_find_from 0 (y_recv_qp c) n)"

definition xrc_get_cq_event :: "api_env \<Rightarrow> xrc_ctx \<Rightarrow> int prog" where
  "xrc_get_cq_event E c = do {
     (r, ev) \<leftarrow> invoke_attr E (Data (Get_cq_event (y_channel c)));
     if r \<noteq> 0 then ret_io 1
     else if ev ''ev_cq'' \<noteq> y_recv_cq c then ret_io 1
     else do {
       r \<leftarrow> invoke E (Data (Req_notify_cq (y_recv_cq c)));
       ret_io (if r \<noteq> 0 then 1 else 0) } }"

end
