(* ===== verification/XrcExchange.thy ===== *)
theory XrcExchange
  imports XrcContext
begin

text \<open>
  xsrq_pingpong.c: the destination message, the exchange over TCP and the connection of the
  queue pairs, the acknowledgements at the end.  A function that may exit returns \<open>None\<close> in its
  result; the outer \<open>None\<close> is a read loop that \<open>fuel\<close> reads did not end.
\<close>

section \<open>The message\<close>

definition XMSG_SIZE :: nat where
  "XMSG_SIZE = 66"

text \<open>\<open>MSG_FORMAT\<close>; the field of \<open>%32s\<close> is as wide as a GID is.\<close>

definition pad32 :: "string \<Rightarrow> string" where
  "pad32 s = replicate (32 - length s) CHR '' '' @ s"

definition print_xdest :: "u32 \<Rightarrow> u32 \<Rightarrow> u32 \<Rightarrow> u32 \<Rightarrow> u32 \<Rightarrow> gid \<Rightarrow> string" where
  "print_xdest lid rqpn sqpn psn srqn g = print_0x 4 lid @ '':'' @ print_0x 6 rqpn @ '':''
     @ print_0x 6 sqpn @ '':'' @ print_0x 6 psn @ '':'' @ print_0x 4 srqn @ '':''
     @ pad32 (cstr (gid_to_wire_gid g))"

definition xdest_msg :: "string \<Rightarrow> u32 \<Rightarrow> u32 \<Rightarrow> u32 \<Rightarrow> u32 \<Rightarrow> u32 \<Rightarrow> gid \<Rightarrow> string" where
  "xdest_msg old lid rqpn sqpn psn srqn g =
     take XMSG_SIZE (store_str (print_xdest lid rqpn sqpn psn srqn g) old)"

text \<open>\<open>sscanf\<close> with \<open>MSG_SSCAN\<close> into the element of \<open>rem_dest\<close>, and \<open>wire_gid_to_gid\<close>.\<close>

definition scan_xdest :: "u32 \<Rightarrow> string \<Rightarrow> string \<Rightarrow> xrc_dest \<Rightarrow> xrc_dest" where
  "scan_xdest v32 gid msg d = (case scan_xs 5 (cstr msg) of (xs, t) \<Rightarrow>
     let gid' = (case t of None \<Rightarrow> gid | Some s \<Rightarrow>
                   (case scan_s s of None \<Rightarrow> gid | Some (w, _) \<Rightarrow> store_str w gid));
         at = (\<lambda>i f. if i < length xs then xs ! i else f d)
     in d\<lparr>x_lid := at 0 x_lid, x_recv_qpn := at 1 x_recv_qpn, x_send_qpn := at 2 x_send_qpn,
          x_send_psn := at 3 x_send_psn, x_srqn := at 4 x_srqn, x_gid := wire_gid_to_gid v32 gid'\<rparr>)"

section \<open>Sending and receiving it\<close>

text \<open>\<open>while (n < size)\<close>: the bytes read so far, as in \<open>read_msg\<close> for any size.\<close>

fun read_full :: "api_env \<Rightarrow> nat \<Rightarrow> int \<Rightarrow> nat \<Rightarrow> string \<Rightarrow> string option option prog" where
  "read_full E 0 fd n acc = ret_io (if length acc < n then None else Some (Some acc))"
| "read_full E (Suc fuel) fd n acc =
    (if length acc < n then do {
       (r, s) \<leftarrow> invoke_bytes E (Libc (Read fd (int (n - length acc))));
       if r < 0 then ret_io (Some None) else read_full E fuel fd n (acc @ s)
     } else ret_io (Some (Some acc)))"

definition upd_dest :: "nat \<Rightarrow> (xrc_dest \<Rightarrow> xrc_dest) \<Rightarrow> xrc_ctx \<Rightarrow> xrc_ctx" where
  "upd_dest i f c = c\<lparr>y_dests := (y_dests c)[i := f (y_dests c ! i)]\<rparr>"

text \<open>The second half of \<open>send_local_dest\<close>, with the local GID.\<close>

definition send_xdest ::
    "api_env \<Rightarrow> stack \<Rightarrow> xrc_ctx \<Rightarrow> int \<Rightarrow> nat \<Rightarrow> gid \<Rightarrow> xrc_ctx option prog" where
  "send_xdest E k c fd i g = do {
     (r, a) \<leftarrow> invoke_attr E (Ibv (Get_srq_num (y_srq c)));
     if r \<noteq> 0 then ret_io None
     else do {
       w \<leftarrow> invoke E (Libc (Write fd (xdest_msg (junk_msg k) (y_lid c) (snd (y_recv_qp c ! i))
              (snd (y_send_qp c ! i)) (x_recv_psn (y_dests c ! i)) (word_of_int (a ''srq_num'')) g)));
       ret_io (if w \<noteq> int XMSG_SIZE then None else Some c) } }"

definition send_local_dest :: "api_env \<Rightarrow> stack \<Rightarrow> xrc_ctx \<Rightarrow> int \<Rightarrow> nat \<Rightarrow> xrc_ctx option prog" where
  "send_local_dest E k c fd i = do {
     rnd \<leftarrow> invoke E (Libc Lrand48);
     let c = upd_dest i (\<lambda>d. d\<lparr>x_recv_psn := word_of_int rnd AND 0xffffff\<rparr>) c;
     if y_gidx c \<ge> 0 then do {
       (r, a) \<leftarrow> invoke_attr E (Ibv (Query_gid (y_context c) (y_ib_port c) (y_gidx c)));
       if r \<noteq> 0 then ret_io None
       else send_xdest E k c fd i (map (\<lambda>n. word_of_int (a n)) [''gid0'', ''gid1'', ''gid2'', ''gid3''])
     } else send_xdest E k c fd i zero_gid }"

definition recv_remote_dest ::
    "api_env \<Rightarrow> nat \<Rightarrow> stack \<Rightarrow> xrc_ctx \<Rightarrow> int \<Rightarrow> nat \<Rightarrow> xrc_ctx option option prog" where
  "recv_remote_dest E fuel k c fd i = do {
     m \<leftarrow> read_full E fuel fd XMSG_SIZE [];
     case m of None \<Rightarrow> ret_io None
     | Some None \<Rightarrow> ret_io (Some None)
     | Some (Some msg) \<Rightarrow>
         ret_io (Some (Some (upd_dest i (\<lambda>d. (scan_xdest (junk_v32 k) (junk_gid k) msg d)\<lparr>x_sockfd := fd\<rparr>) c))) }"

section \<open>Connecting the queue pairs\<close>

text \<open>The address a queue pair is given; \<open>sgid_index\<close> is the index of the local GID.\<close>

definition xrc_av :: "xrc_ctx \<Rightarrow> xrc_dest \<Rightarrow> ah_attr" where
  "xrc_av c d = (let a = zero_ah\<lparr>dlid := x_lid d, ah_sl := y_sl c, ah_port_num := y_ib_port c\<rparr> in
     if interface_id_set (x_gid d)
     then a\<lparr>is_global := 1, grh_hop_limit := 5, grh_dgid := x_gid d, grh_sgid_index := y_gidx c\<rparr> else a)"

definition xrc_recv_rtr :: "xrc_ctx \<Rightarrow> xrc_dest \<Rightarrow> qp_attr" where
  "xrc_recv_rtr c d = zero_qp_attr\<lparr>qp_state := QPS_RTR, dest_qp_num := x_send_qpn d, path_mtu := y_mtu c,
     rq_psn := x_send_psn d, min_rnr_timer := 12, av := xrc_av c d\<rparr>"

definition xrc_recv_rts :: "xrc_dest \<Rightarrow> qp_attr" where
  "xrc_recv_rts d = zero_qp_attr\<lparr>qp_state := QPS_RTS, timeout := 14, sq_psn := x_recv_psn d\<rparr>"

definition xrc_send_rtr :: "xrc_ctx \<Rightarrow> xrc_dest \<Rightarrow> qp_attr" where
  "xrc_send_rtr c d = zero_qp_attr\<lparr>qp_state := QPS_RTR, dest_qp_num := x_recv_qpn d, path_mtu := y_mtu c,
     rq_psn := x_send_psn d, av := xrc_av c d\<rparr>"

definition xrc_send_rts :: "xrc_ctx \<Rightarrow> xrc_dest \<Rightarrow> qp_attr" where
  "xrc_send_rts c d = zero_qp_attr\<lparr>qp_state := QPS_RTS, timeout := 14, retry_cnt := 7, rnr_retry := 7,
     sq_psn := x_recv_psn d,
     av := (if interface_id_set (x_gid d)
            then zero_ah\<lparr>is_global := 1, grh_hop_limit := 5, grh_dgid := x_gid d, grh_sgid_index := y_gidx c\<rparr>
            else zero_ah)\<rparr>"

definition xrc_connect_qps :: "api_env \<Rightarrow> xrc_ctx \<Rightarrow> nat \<Rightarrow> int prog" where
  "xrc_connect_qps E c i = do {
     let d = y_dests c ! i;
     let rq = fst (y_recv_qp c ! i);
     let sq = fst (y_send_qp c ! i);
     r \<leftarrow> invoke E (Ibv (Modify_qp rq (xrc_recv_rtr c d)
            {M_STATE, M_AV, M_PATH_MTU, M_DEST_QPN, M_RQ_PSN, M_MAX_DEST_RD_ATOMIC, M_MIN_RNR_TIMER}));
     if r \<noteq> 0 then ret_io 1 else do {
     r \<leftarrow> invoke E (Ibv (Modify_qp rq (xrc_recv_rts d) {M_STATE, M_TIMEOUT, M_SQ_PSN}));
     if r \<noteq> 0 then ret_io 1 else do {
     r \<leftarrow> invoke E (Ibv (Modify_qp sq (xrc_send_rtr c d)
            {M_STATE, M_AV, M_PATH_MTU, M_DEST_QPN, M_RQ_PSN}));
     if r \<noteq> 0 then ret_io 1 else do {
     r \<leftarrow> invoke E (Ibv (Modify_qp sq (xrc_send_rts c d)
            {M_STATE, M_TIMEOUT, M_SQ_PSN, M_RETRY_CNT, M_RNR_RETRY, M_MAX_QP_RD_ATOMIC}));
     ret_io (if r \<noteq> 0 then 1 else 0) }}} }"

section \<open>pp_client_connect and pp_server_connect\<close>

definition xrc_client_talk ::
    "api_env \<Rightarrow> nat \<Rightarrow> stack \<Rightarrow> xrc_ctx \<Rightarrow> int \<Rightarrow> xrc_ctx option option prog" where
  "xrc_client_talk E fuel k c fd = do {
     s \<leftarrow> send_local_dest E k c fd 0;
     case s of None \<Rightarrow> ret_io (Some None)
     | Some c \<Rightarrow> do {
         m \<leftarrow> recv_remote_dest E fuel k c fd 0;
         case m of None \<Rightarrow> ret_io None
         | Some None \<Rightarrow> ret_io (Some None)
         | Some (Some c) \<Rightarrow> do {
             r \<leftarrow> xrc_connect_qps E c 0;
             ret_io (Some (if r \<noteq> 0 then None else Some c)) } } }"

definition xrc_client_connect ::
    "api_env \<Rightarrow> nat \<Rightarrow> stack \<Rightarrow> ptr list \<Rightarrow> xrc_ctx \<Rightarrow> string \<Rightarrow> int \<Rightarrow> xrc_ctx option option prog" where
  "xrc_client_connect E fuel k addrs c servername port = do {
     s \<leftarrow> open_client E addrs servername port;
     case s of None \<Rightarrow> ret_io (Some None) | Some fd \<Rightarrow> xrc_client_talk E fuel k c fd }"

definition xrc_server_talk ::
    "api_env \<Rightarrow> nat \<Rightarrow> stack \<Rightarrow> xrc_ctx \<Rightarrow> int \<Rightarrow> nat \<Rightarrow> xrc_ctx option option prog" where
  "xrc_server_talk E fuel k c fd i = do {
     m \<leftarrow> recv_remote_dest E fuel k c fd i;
     case m of None \<Rightarrow> ret_io None
     | Some None \<Rightarrow> ret_io (Some None)
     | Some (Some c) \<Rightarrow> do {
         s \<leftarrow> send_local_dest E k c fd i;
         case s of None \<Rightarrow> ret_io (Some None)
         | Some c \<Rightarrow> do {
             r \<leftarrow> xrc_connect_qps E c i;
             ret_io (Some (if r \<noteq> 0 then None else Some c)) } } }"

text \<open>The loop that accepts the clients, over their indices, and the end of the function.\<close>

fun xrc_accept :: "api_env \<Rightarrow> nat \<Rightarrow> stack \<Rightarrow> xrc_ctx \<Rightarrow> int \<Rightarrow> nat list \<Rightarrow> xrc_ctx option option prog" where
  "xrc_accept E fuel k c sockfd [] = do { invoke E (Libc (Close sockfd)); ret_io (Some (Some c)) }"
| "xrc_accept E fuel k c sockfd (i # js) = do {
     fd \<leftarrow> invoke E (Libc (Accept_sock sockfd));
     if fd < 0 then ret_io (Some None)
     else do {
       t \<leftarrow> xrc_server_talk E fuel k c fd i;
       case t of None \<Rightarrow> ret_io None
       | Some None \<Rightarrow> ret_io (Some None)
       | Some (Some c) \<Rightarrow> xrc_accept E fuel k c sockfd js } }"

definition xrc_server_connect ::
    "api_env \<Rightarrow> nat \<Rightarrow> stack \<Rightarrow> ptr list \<Rightarrow> xrc_ctx \<Rightarrow> int \<Rightarrow> xrc_ctx option option prog" where
  "xrc_server_connect E fuel k addrs c port = do {
     r \<leftarrow> invoke E (Libc (Asprintf port));
     if r < 0 then ret_io (Some None)
     else do {
       n \<leftarrow> invoke E (Libc (Getaddrinfo None port));
       if n < 0 then do { invoke E (Libc Free_service); ret_io (Some None) }
       else do {
         sockfd \<leftarrow> bind_loop E addrs (- 1);
         invoke E (Libc Freeaddrinfo);
         invoke E (Libc Free_service);
         if sockfd < 0 then ret_io (Some None)
         else do {
           invoke E (Libc (Listen_sock sockfd (y_num_clients c)));
           xrc_accept E fuel k c sockfd [0..<nat (y_num_clients c)] } } } }"

section \<open>The acknowledgements at the end\<close>

definition TERMINATION_MSG :: string where
  "TERMINATION_MSG = ''END''"

text \<open>4 bytes are read; a difference to \<open>"END"\<close> shows within them.\<close>

definition recv_termination_ack :: "api_env \<Rightarrow> nat \<Rightarrow> int \<Rightarrow> int option prog" where
  "recv_termination_ack E fuel fd = do {
     m \<leftarrow> read_full E fuel fd 4 [];
     ret_io (case m of None \<Rightarrow> None | Some None \<Rightarrow> Some 1
       | Some (Some msg) \<Rightarrow> Some (if cstr msg \<noteq> TERMINATION_MSG then 1 else 0)) }"

definition send_termination_ack :: "api_env \<Rightarrow> int \<Rightarrow> int prog" where
  "send_termination_ack E fd = do {
     w \<leftarrow> invoke E (Libc (Write fd (TERMINATION_MSG @ [NUL])));
     ret_io (if w \<noteq> 4 then 1 else 0) }"

definition xrc_client_termination :: "api_env \<Rightarrow> nat \<Rightarrow> xrc_ctx \<Rightarrow> int option prog" where
  "xrc_client_termination E fuel c = do {
     r \<leftarrow> send_termination_ack E (x_sockfd (y_dests c ! 0));
     if r \<noteq> 0 then ret_io (Some 1) else recv_termination_ack E fuel (x_sockfd (y_dests c ! 0)) }"

fun recv_acks :: "api_env \<Rightarrow> nat \<Rightarrow> int list \<Rightarrow> int option prog" where
  "recv_acks E fuel [] = ret_io (Some 0)"
| "recv_acks E fuel (fd # fds) = do {
     r \<leftarrow> recv_termination_ack E fuel fd;
     if r = Some 0 then recv_acks E fuel fds else ret_io r }"

fun send_acks :: "api_env \<Rightarrow> int list \<Rightarrow> int prog" where
  "send_acks E [] = ret_io 0"
| "send_acks E (fd # fds) = do {
     r \<leftarrow> send_termination_ack E fd;
     if r \<noteq> 0 then ret_io 1 else send_acks E fds }"

definition xrc_server_termination :: "api_env \<Rightarrow> nat \<Rightarrow> xrc_ctx \<Rightarrow> int option prog" where
  "xrc_server_termination E fuel c = do {
     let fds = map x_sockfd (y_dests c);
     r \<leftarrow> recv_acks E fuel fds;
     if r \<noteq> Some 0 then ret_io r
     else do { s \<leftarrow> send_acks E fds; ret_io (Some s) } }"

section \<open>What the peer reads\<close>

text \<open>
  What a message carries, in its order, and what it has room for: a LID, three QP or packet
  numbers and the number of a shared receive queue, which the format prints with 4 digits or more.
\<close>

type_synonym xdest_fields = "u32 \<times> u32 \<times> u32 \<times> u32 \<times> u32 \<times> gid"

fun xdest_fits :: "xdest_fields \<Rightarrow> bool" where
  "xdest_fits (lid, rqpn, sqpn, psn, srqn, g) \<longleftrightarrow> unat lid < 2 ^ 16 \<and> unat rqpn < 2 ^ 24
     \<and> unat sqpn < 2 ^ 24 \<and> unat psn < 2 ^ 24 \<and> unat srqn < 2 ^ 24 \<and> length g = 4"

fun print_fields :: "xdest_fields \<Rightarrow> string" where
  "print_fields (lid, rqpn, sqpn, psn, srqn, g) = print_xdest lid rqpn sqpn psn srqn g"

fun fields_msg :: "string \<Rightarrow> xdest_fields \<Rightarrow> string" where
  "fields_msg old (lid, rqpn, sqpn, psn, srqn, g) = xdest_msg old lid rqpn sqpn psn srqn g"

definition read_fields :: "xrc_dest \<Rightarrow> xdest_fields" where
  "read_fields d = (x_lid d, x_recv_qpn d, x_send_qpn d, x_send_psn d, x_srqn d, x_gid d)"

lemma pad32_gid [simp]: "length g = 4 \<Longrightarrow> pad32 (cstr (gid_to_wire_gid g)) = cstr (gid_to_wire_gid g)"
  by (simp add: pad32_def wire_gid_word(3))

lemma no_NUL_print_xdest: "length g = 4 \<Longrightarrow> NUL \<notin> set (print_xdest lid rqpn sqpn psn srqn g)"
  by (simp add: print_xdest_def wire_gid_word(2))

text \<open>A printed number is as wide as its field or as it needs to be.\<close>

lemma length_print_0x_le: "0 < w \<Longrightarrow> w \<le> v \<Longrightarrow> length (print_0x w x) \<le> v \<longleftrightarrow> unat x < 16 ^ v"
  using length_print_base [of 16 v "unat x"] by (auto simp: print_0x_def Let_def)

lemma length_print_0x_ge: "w \<le> length (print_0x w x)"
  by (simp add: print_0x_def Let_def)

lemma length_print_xdest:
  assumes "length g = 4" and "unat lid < 2 ^ 16" and "unat rqpn < 2 ^ 24" and "unat sqpn < 2 ^ 24"
    and "unat psn < 2 ^ 24"
  shows "length (print_xdest lid rqpn sqpn psn srqn g) = 59 + length (print_0x 4 srqn)"
  using assms by (simp add: print_xdest_def wire_gid_word(3) length_print_0x [THEN iffD2])

lemma fits_length: "xdest_fits f \<Longrightarrow> length (print_fields f) < XMSG_SIZE"
  by (cases f) (simp add: length_print_xdest length_print_0x_le XMSG_SIZE_def less_Suc_eq_le flip: Suc_le_eq)

lemma length_xdest_msg: "XMSG_SIZE \<le> length old \<Longrightarrow> length (xdest_msg old lid rqpn sqpn psn srqn g) = XMSG_SIZE"
  by (simp add: xdest_msg_def store_str_def)

lemma cstr_xdest_msg:
  assumes "xdest_fits f"
  shows "cstr (fields_msg old f) = print_fields f"
proof -
  obtain lid rqpn sqpn psn srqn g where f: "f = (lid, rqpn, sqpn, psn, srqn, g)" by (cases f) auto
  let ?p = "print_xdest lid rqpn sqpn psn srqn g"
  have "length ?p < XMSG_SIZE" using fits_length [OF assms] by (simp add: f)
  then have "fields_msg old f = ?p @ NUL # take (XMSG_SIZE - Suc (length ?p)) (drop (length ?p + 1) old)"
    by (simp add: f xdest_msg_def store_str_def take_Cons')
  then show ?thesis using no_NUL_print_xdest assms by (simp add: f cstr_append_NUL)
qed

lemma scan_xs_xdest:
  assumes "length g = 4"
  shows "scan_xs 5 (print_xdest lid rqpn sqpn psn srqn g)
    = ([lid, rqpn, sqpn, psn, srqn], Some (cstr (gid_to_wire_gid g)))"
proof -
  have five: "5 = Suc (Suc (Suc (Suc (Suc 0))))" by simp
  show ?thesis using assms unfolding five by (simp add: print_xdest_def scan_x_colon)
qed

lemma scan_fields_msg:
  assumes "xdest_fits f"
  shows "read_fields (scan_xdest v gid (fields_msg old f) d) = f"
proof -
  obtain lid rqpn sqpn psn srqn g where f: "f = (lid, rqpn, sqpn, psn, srqn, g)" by (cases f) auto
  have g: "length g = 4" using assms by (simp add: f)
  have "cstr (xdest_msg old lid rqpn sqpn psn srqn g) = print_xdest lid rqpn sqpn psn srqn g"
    using cstr_xdest_msg [OF assms] by (simp add: f)
  then show ?thesis
    by (simp add: f scan_xdest_def scan_xs_xdest [OF g] read_fields_def wire_gid_word [OF g])
qed

interpretation xrc_msg: wire_codec xdest_fits "fields_msg (replicate 66 c)"
    "\<lambda>m. read_fields (scan_xdest v gid m d)" XMSG_SIZE
  for c v gid d
proof unfold_locales
  show "length (fields_msg (replicate 66 c) f) = XMSG_SIZE" for f
    by (cases f) (simp add: length_xdest_msg XMSG_SIZE_def)
qed (rule scan_fields_msg)

section \<open>Properties\<close>

text \<open>
  C33: The message of 66 characters is large enough exactly when, the LID having 16 bits and the QP
  numbers and the PSN 24, the number of the shared receive queue has 24 bits too, though the format
  asks for 4 digits of it; the receiver then reads back all six fields, the blanks a short field is
  filled with included, and its array for the GID is not overrun.
\<close>

theorem xdest_message_roundtrip:
  assumes "unat lid < 2 ^ 16" and "unat rqpn < 2 ^ 24" and "unat sqpn < 2 ^ 24" and "unat psn < 2 ^ 24"
    and "length g = 4"
  shows "(length (print_xdest lid rqpn sqpn psn srqn g) < XMSG_SIZE \<longleftrightarrow> unat srqn < 2 ^ 24)
    \<and> (unat srqn < 2 ^ 24 \<longrightarrow>
        read_fields (scan_xdest v gid (xdest_msg old lid rqpn sqpn psn srqn g) d) = (lid, rqpn, sqpn, psn, srqn, g)
        \<and> \<not> overruns_gid 5 (xdest_msg old lid rqpn sqpn psn srqn g))"
proof -
  let ?f = "(lid, rqpn, sqpn, psn, srqn, g)"
  have fits: "xdest_fits ?f \<longleftrightarrow> unat srqn < 2 ^ 24" using assms by simp
  have "length (print_xdest lid rqpn sqpn psn srqn g) < XMSG_SIZE \<longleftrightarrow> length (print_0x 4 srqn) \<le> 6"
    unfolding length_print_xdest [OF assms(5,1-4)] XMSG_SIZE_def by linarith
  then have "length (print_xdest lid rqpn sqpn psn srqn g) < XMSG_SIZE \<longleftrightarrow> unat srqn < 2 ^ 24"
    by (simp add: length_print_0x_le)
  moreover have "\<not> overruns_gid 5 (fields_msg old ?f)" if "xdest_fits ?f"
    by (simp only: overruns_gid_def cstr_xdest_msg [OF that] print_fields.simps scan_xs_xdest [OF assms(5)])
      (simp add: wire_gid_word [OF assms(5)])
  ultimately show ?thesis using scan_fields_msg [of ?f] fits by simp
qed

theorem xdest_message_roundtrip_witness:
  "read_fields (scan_xdest 0 ''x'' (xdest_msg ''junk'' 7 0x48 0x49 0xfffff 0x12345 [0xfe800000, 0, 7, 1]) zero_xdest)
     = (7, 0x48, 0x49, 0xfffff, 0x12345, [0xfe800000, 0, 7, 1])"
  using xdest_message_roundtrip [of 7 "0x48" "0x49" "0xfffff" "[0xfe800000, 0, 7, 1]" "0x12345"] by simp

definition local_fields :: "xrc_ctx \<Rightarrow> nat \<Rightarrow> u32 \<Rightarrow> gid \<Rightarrow> xdest_fields" where
  "local_fields c i srqn g =
    (y_lid c, snd (y_recv_qp c ! i), snd (y_send_qp c ! i), x_recv_psn (y_dests c ! i), srqn, g)"

lemma psn_24: "unat ((w :: u32) AND 0xffffff) < 2 ^ 24"
proof -
  have "w AND 0xffffff = take_bit 24 w" by (simp add: take_bit_eq_mask mask_eq_exp_minus_1)
  then show ?thesis using take_bit_nat_less_exp [of 24 "unat w"] by (simp add: unsigned_take_bit_eq)
qed

text \<open>
  C31: What \<open>send_local_dest\<close> sends is what the peer connects to: it writes one message, with a PSN of
  24 bits that it keeps for the end of its own queue pairs, and a peer that stores the message and
  connects gives its receive side the number of our send side and its send side that of our receive
  side, both with the packet number our sends start from.
\<close>

theorem xrc_peers_agree:
  assumes "run_state (send_local_dest E k c fd i) h = (Some c1, h1)" and "i < length (y_dests c)"
  shows "\<exists>srqn g. written h1 = written h @ [fields_msg (junk_msg k) (local_fields c1 i srqn g)]
    \<and> length g = 4 \<and> unat (x_recv_psn (y_dests c1 ! i)) < 2 ^ 24
    \<and> (xdest_fits (local_fields c1 i srqn g) \<longrightarrow>
       (\<forall>v gid d c'. let d' = scan_xdest v gid (fields_msg (junk_msg k) (local_fields c1 i srqn g)) d in
          dest_qp_num (xrc_recv_rtr c' d') = snd (y_send_qp c ! i)
          \<and> dest_qp_num (xrc_send_rtr c' d') = snd (y_recv_qp c ! i)
          \<and> rq_psn (xrc_recv_rtr c' d') = sq_psn (xrc_send_rts c1 (y_dests c1 ! i))
          \<and> rq_psn (xrc_send_rtr c' d') = sq_psn (xrc_recv_rts (y_dests c1 ! i))
          \<and> dlid (av (xrc_recv_rtr c' d')) = y_lid c \<and> x_srqn d' = srqn))"
proof -
  obtain srqn g where sent: "written h1 = written h @ [fields_msg (junk_msg k) (local_fields c1 i srqn g)]"
    and g: "length g = 4" and psn: "unat (x_recv_psn (y_dests c1 ! i)) < 2 ^ 24"
    and c1: "y_recv_qp c1 = y_recv_qp c" "y_send_qp c1 = y_send_qp c" "y_lid c1 = y_lid c"
    using assms psn_24
    by (auto simp: send_local_dest_def send_xdest_def upd_dest_def run_simps local_fields_def zero_gid_def Let_def
        split: if_splits prod.splits)
  let ?m = "fields_msg (junk_msg k) (local_fields c1 i srqn g)"
  have "dest_qp_num (xrc_recv_rtr c' d') = snd (y_send_qp c ! i)
          \<and> dest_qp_num (xrc_send_rtr c' d') = snd (y_recv_qp c ! i)
          \<and> rq_psn (xrc_recv_rtr c' d') = sq_psn (xrc_send_rts c1 (y_dests c1 ! i))
          \<and> rq_psn (xrc_send_rtr c' d') = sq_psn (xrc_recv_rts (y_dests c1 ! i))
          \<and> dlid (av (xrc_recv_rtr c' d')) = y_lid c \<and> x_srqn d' = srqn"
    if "xdest_fits (local_fields c1 i srqn g)" "d' = scan_xdest v gid ?m d" for v gid d d' c'
    using scan_fields_msg [OF that(1), of v gid "junk_msg k" d] that(2) c1
    by (simp add: read_fields_def local_fields_def xrc_recv_rtr_def xrc_send_rtr_def xrc_send_rts_def
        xrc_recv_rts_def xrc_av_def Let_def)
  then show ?thesis using sent g psn unfolding Let_def by blast
qed

definition demo_xctx :: xrc_ctx where
  "demo_xctx = xrc_init\<lparr>y_lid := 2, y_recv_qp := [(11, 0x48)], y_send_qp := [(12, 0x49)], y_dests := [zero_xdest]\<rparr>"

definition wide_stack :: stack where
  "wide_stack = no_stack\<lparr>junk_msg := replicate XMSG_SIZE NUL\<rparr>"

theorem xrc_peers_agree_witness:
  "\<exists>c1 h1 srqn g. run_state (send_local_dest (net_env []) wide_stack demo_xctx 5 0) [] = (Some c1, h1)
     \<and> written h1 = [fields_msg (junk_msg wide_stack) (local_fields c1 0 srqn g)]
     \<and> unat (x_recv_psn (y_dests c1 ! 0)) < 2 ^ 24"
proof -
  have "\<exists>c1 h1. run_state (send_local_dest (net_env []) wide_stack demo_xctx 5 0) [] = (Some c1, h1)"
    by (simp add: send_local_dest_def send_xdest_def demo_xctx_def xrc_init_def run_simps Let_def net_env_def
        const_env_def wide_stack_def length_xdest_msg upd_dest_def)
  then obtain c1 h1 where run: "run_state (send_local_dest (net_env []) wide_stack demo_xctx 5 0) [] = (Some c1, h1)"
    by blast
  have "0 < length (y_dests demo_xctx)" by (simp add: demo_xctx_def)
  from xrc_peers_agree [OF run this] run show ?thesis by auto
qed

end
