(* ===== verification/XrcMain.thy ===== *)
theory XrcMain
  imports XrcExchange
begin

text \<open>
  \<open>main\<close> of xsrq_pingpong.c: the options, the loop over the completions of the shared queue, the
  wait for the last sends, the acknowledgements and the end.
\<close>

section \<open>Options\<close>

text \<open>The options that are not fields of \<open>ctx\<close>.\<close>

record xrc_opts =
  xo_devname :: "string option"
  xo_servername :: "string option"
  xo_port :: int
  xo_ctx :: xrc_ctx

definition xrc_default :: xrc_opts where
  "xrc_default = \<lparr>xo_devname = None, xo_servername = None, xo_port = 18515, xo_ctx = xrc_init\<rparr>"

definition set_ctx :: "(xrc_ctx \<Rightarrow> xrc_ctx) \<Rightarrow> xrc_opts \<Rightarrow> xrc_opts" where
  "set_ctx f opt = opt\<lparr>xo_ctx := f (xo_ctx opt)\<rparr>"

definition xrc_opt :: "char \<times> string \<Rightarrow> xrc_opts \<Rightarrow> xrc_opts option" where
  "xrc_opt ca opt = (case ca of (o', optarg) \<Rightarrow> let v = strtol_int optarg in
     if o' = CHR ''p'' then (if v < 0 \<or> v > 65535 then None else Some (opt\<lparr>xo_port := v\<rparr>))
     else if o' = CHR ''d'' then Some (opt\<lparr>xo_devname := Some optarg\<rparr>)
     else if o' = CHR ''i'' then (if v < 0 then None else Some (set_ctx (\<lambda>c. c\<lparr>y_ib_port := v\<rparr>) opt))
     else if o' = CHR ''s'' then Some (set_ctx (\<lambda>c. c\<lparr>y_size := v\<rparr>) opt)
     else if o' = CHR ''m'' then
       (let m = pp_mtu_to_enum v in
        if m < (0 :: u32) then None else Some (set_ctx (\<lambda>c. c\<lparr>y_mtu := m\<rparr>) opt))
     else if o' = CHR ''c'' then Some (set_ctx (\<lambda>c. c\<lparr>y_num_clients := v\<rparr>) opt)
     else if o' = CHR ''n'' then Some (set_ctx (\<lambda>c. c\<lparr>y_num_tests := v\<rparr>) opt)
     else if o' = CHR ''l'' then Some (set_ctx (\<lambda>c. c\<lparr>y_sl := v\<rparr>) opt)
     else if o' = CHR ''g'' then Some (set_ctx (\<lambda>c. c\<lparr>y_gidx := v\<rparr>) opt)
     else if o' = CHR ''e'' then Some (set_ctx (\<lambda>c. c\<lparr>y_use_event := True\<rparr>) opt)
     else None)"

fun xrc_parse :: "(char \<times> string) list \<Rightarrow> xrc_opts \<Rightarrow> xrc_opts option" where
  "xrc_parse [] opt = Some opt"
| "xrc_parse (ca # cas) opt = (case xrc_opt ca opt of None \<Rightarrow> None | Some opt' \<Rightarrow> xrc_parse cas opt')"

text \<open>A server's name makes the process a client with one peer.\<close>

definition xrc_args :: "string list \<Rightarrow> xrc_opts \<Rightarrow> xrc_opts option" where
  "xrc_args args opt =
    (if length args > 1 then None
     else Some (if args = [] then opt
                else set_ctx (\<lambda>c. c\<lparr>y_num_clients := 1\<rparr>) (opt\<lparr>xo_servername := Some (hd args)\<rparr>)))"

section \<open>The loop\<close>

text \<open>The results of posting are not looked at.\<close>

definition xrc_handle :: "api_env \<Rightarrow> int \<Rightarrow> wc \<Rightarrow> xrc_ctx \<Rightarrow> xrc_ctx prog" where
  "xrc_handle E ne w c = do {
     xrc_post_recv E c ne;
     let qpi = xrc_find_qp c (wc_qp_num w);
     if x_pp_cnt (y_dests c ! qpi) < y_num_tests c then do {
       (r, c) \<leftarrow> xrc_post_send E c qpi;
       ret_io c
     } else ret_io c }"

text \<open>
  The inner loop: polls for one completion at a time until there is none.  The result is the
  context and the count, or the status 1; \<open>None\<close> when \<open>fuel\<close> polls were not enough.
\<close>

fun xrc_drain :: "api_env \<Rightarrow> nat \<Rightarrow> xrc_ctx \<Rightarrow> int \<Rightarrow> (int + xrc_ctx \<times> int) option prog" where
  "xrc_drain E 0 c cnt = ret_io None"
| "xrc_drain E (Suc fuel) c cnt = do {
     (ne, wcs) \<leftarrow> invoke_wcs E (Data (Poll_cq (y_recv_cq c) 1));
     if ne < 0 then ret_io (Some (Inl 1))
     else if ne = 0 then ret_io (Some (Inr (c, cnt)))
     else (case wcs of [] \<Rightarrow> xrc_drain E fuel c cnt
       | w # ws \<Rightarrow> if wc_status w \<noteq> 0 then ret_io (Some (Inl 1))
           else do { c \<leftarrow> xrc_handle E ne w c; xrc_drain E fuel c (cnt + ne) }) }"

fun xrc_loop ::
    "api_env \<Rightarrow> nat \<Rightarrow> int \<Rightarrow> xrc_ctx \<Rightarrow> int \<Rightarrow> int \<Rightarrow> (int + xrc_ctx \<times> int) option prog" where
  "xrc_loop E 0 tot c cnt nev = ret_io None"
| "xrc_loop E (Suc fuel) tot c cnt nev =
    (if cnt < tot then do {
       e \<leftarrow> when_io (y_use_event c) (xrc_get_cq_event E c);
       if e \<noteq> 0 then ret_io (Some (Inl 1))
       else do {
         r \<leftarrow> xrc_drain E (Suc fuel) c cnt;
         case r of None \<Rightarrow> ret_io None
         | Some (Inl s) \<Rightarrow> ret_io (Some (Inl s))
         | Some (Inr (c, cnt)) \<Rightarrow> xrc_loop E fuel tot c cnt (if y_use_event c then nev + 1 else nev) }
     } else ret_io (Some (Inr (c, nev))))"

text \<open>The wait for the completions of the sends, one per client.\<close>

fun xrc_wait_sends :: "api_env \<Rightarrow> nat \<Rightarrow> xrc_ctx \<Rightarrow> int \<Rightarrow> int option prog" where
  "xrc_wait_sends E 0 c cnt = ret_io (if cnt < y_num_clients c then None else Some 0)"
| "xrc_wait_sends E (Suc fuel) c cnt =
    (if cnt < y_num_clients c then do {
       (ne, wcs) \<leftarrow> invoke_wcs E (Data (Poll_cq (y_send_cq c) 1));
       if ne < 0 then ret_io (Some 1) else xrc_wait_sends E fuel c (cnt + ne)
     } else ret_io (Some 0))"

section \<open>main\<close>

definition xrc_finish :: "api_env \<Rightarrow> nat \<Rightarrow> bool \<Rightarrow> xrc_ctx \<Rightarrow> int \<Rightarrow> int option prog" where
  "xrc_finish E fuel client c nev = do {
     s \<leftarrow> xrc_wait_sends E fuel c 0;
     if s \<noteq> Some 0 then ret_io s
     else do {
       when_io (y_use_event c) (invoke E (Data (Ack_cq_events (y_recv_cq c) nev)));
       t \<leftarrow> (if client then xrc_client_termination E fuel c else xrc_server_termination E fuel c);
       case t of None \<Rightarrow> ret_io None
       | Some r \<Rightarrow> if r \<noteq> 0 then ret_io (Some 1)
           else do {
             e \<leftarrow> xrc_close_ctx E c;
             ret_io (Some (if e \<noteq> 0 then 1 else 0)) } } }"

definition xrc_run :: "api_env \<Rightarrow> nat \<Rightarrow> bool \<Rightarrow> xrc_ctx \<Rightarrow> int option prog" where
  "xrc_run E fuel client c = do {
     r \<leftarrow> xrc_loop E fuel (to_int32 (y_num_clients c * y_num_tests c)) c 0 0;
     case r of None \<Rightarrow> ret_io None
     | Some (Inl s) \<Rightarrow> ret_io (Some s)
     | Some (Inr (c, nev)) \<Rightarrow> xrc_finish E fuel client c nev }"

text \<open>The server's first messages.\<close>

fun xrc_first_sends :: "api_env \<Rightarrow> xrc_ctx \<Rightarrow> nat list \<Rightarrow> xrc_ctx prog" where
  "xrc_first_sends E c [] = ret_io c"
| "xrc_first_sends E c (i # js) = do { (r, c) \<leftarrow> xrc_post_send E c i; xrc_first_sends E c js }"

definition xrc_connect ::
    "api_env \<Rightarrow> nat \<Rightarrow> stack \<Rightarrow> ptr list \<Rightarrow> xrc_opts \<Rightarrow> xrc_ctx \<Rightarrow> int option prog" where
  "xrc_connect E fuel k addrs opt c = do {
     r \<leftarrow> xrc_post_recv E c (y_num_clients c);
     if r \<noteq> 0 then ret_io (Some 1)
     else (case xo_servername opt of
       Some nm \<Rightarrow> do {
         s \<leftarrow> xrc_client_connect E fuel k addrs c nm (xo_port opt);
         case s of None \<Rightarrow> ret_io None
         | Some None \<Rightarrow> ret_io (Some 1)
         | Some (Some c) \<Rightarrow> xrc_run E fuel True c }
     | None \<Rightarrow> do {
         s \<leftarrow> xrc_server_connect E fuel k addrs c (xo_port opt);
         case s of None \<Rightarrow> ret_io None
         | Some None \<Rightarrow> ret_io (Some 1)
         | Some (Some c) \<Rightarrow> do {
             c \<leftarrow> xrc_first_sends E c [0..<nat (y_num_clients c)];
             xrc_run E fuel False c } }) }"

definition xrc_main ::
    "api_env \<Rightarrow> nat \<Rightarrow> stack \<Rightarrow> ptr list \<Rightarrow> (string \<times> ptr) list \<Rightarrow> int \<Rightarrow> (char \<times> string) list
      \<Rightarrow> string list \<Rightarrow> int option prog" where
  "xrc_main E fuel k addrs devs psize cas args =
    (case xrc_parse cas xrc_default of None \<Rightarrow> ret_io (Some 1)
     | Some opt \<Rightarrow> (case xrc_args args opt of None \<Rightarrow> ret_io (Some 1)
       | Some opt \<Rightarrow> do {
           r \<leftarrow> xrc_init_ctx E psize devs (xo_devname opt) (xo_ctx opt);
           case r of None \<Rightarrow> ret_io (Some 1)
           | Some c \<Rightarrow> xrc_connect E fuel k addrs opt c }))"

end
