(* ===== verification/XrcResources.thy ===== *)
theory XrcResources
  imports XrcMain
begin

text \<open>
  What a process of xsrq_pingpong.c holds: the resources of its context and of its clients, what
  setting up, connecting, running and closing do to them.
\<close>

section \<open>What is held\<close>

text \<open>
  The blocks, the device and the queues of a context, and its clients: their queue pairs and
  sockets.  The sockets are descriptors of this process that are not 0.
\<close>

definition own_xrc_blocks :: "xrc_ctx \<Rightarrow> (res \<times> int) multiset" where
  "own_xrc_blocks c = {#(Heap, y_recv_array c), (Heap, y_send_array c), (Heap, y_dest_array c)#}"

definition own_xrc_device :: "xrc_ctx \<Rightarrow> (res \<times> int) multiset" where
  "own_xrc_device c = {#(Device, y_context c), (Heap, y_buf c)#} + own_xrc_blocks c
     + (if y_channel c \<noteq> 0 then {#(Channel, y_channel c)#} else {#})"

definition own_xrc_pd :: "xrc_ctx \<Rightarrow> (res \<times> int) multiset" where
  "own_xrc_pd c = {#(Pd, y_pd c), (Mr, y_mr c)#} + own_xrc_device c"

definition own_xrc_cqs :: "xrc_ctx \<Rightarrow> (res \<times> int) multiset" where
  "own_xrc_cqs c = {#(Cq, y_recv_cq c), (Cq, y_send_cq c), (Xrcd, y_xrcd c)#}
     + (if 0 \<le> y_fd c then {#(Fd, y_fd c)#} else {#}) + own_xrc_pd c"

definition own_xrc_qps :: "xrc_ctx \<Rightarrow> (res \<times> int) multiset" where
  "own_xrc_qps c = mset (map (\<lambda>q. (Qp, fst q)) (y_recv_qp c)) + mset (map (\<lambda>q. (Qp, fst q)) (y_send_qp c))"

definition own_socks :: "int list \<Rightarrow> (res \<times> int) multiset" where
  "own_socks fds = mset (map (Pair Fd) (filter (\<lambda>fd. fd \<noteq> 0) fds))"

definition xrc_owns :: "xrc_ctx \<Rightarrow> (res \<times> int) multiset" where
  "xrc_owns c = own_socks (map x_sockfd (y_dests c)) + own_xrc_qps c + {#(Srq, y_srq c)#} + own_xrc_cqs c"

lemmas own_xrc_defs = own_xrc_blocks_def own_xrc_device_def own_xrc_pd_def own_xrc_cqs_def

text \<open>The shape of a context: an element of each array for every client.\<close>

definition xrc_heap :: "xrc_ctx \<Rightarrow> bool" where
  "xrc_heap c \<longleftrightarrow> y_recv_array c \<noteq> 0 \<and> y_send_array c \<noteq> 0 \<and> y_dest_array c \<noteq> 0"

definition xrc_shape :: "xrc_ctx \<Rightarrow> bool" where
  "xrc_shape c \<longleftrightarrow> length (y_recv_qp c) = nat (y_num_clients c) \<and> length (y_send_qp c) = nat (y_num_clients c)
     \<and> length (y_dests c) = nat (y_num_clients c) \<and> y_xrcd c \<noteq> 0 \<and> xrc_heap c \<and> y_buf c \<noteq> 0"

definition xrc_ready :: "(res \<times> int) multiset \<Rightarrow> xrc_ctx option \<Rightarrow> (res \<times> int) multiset \<Rightarrow> bool" where
  "xrc_ready M0 r M \<longleftrightarrow> (case r of None \<Rightarrow> True | Some c \<Rightarrow>
     M = M0 + xrc_owns c \<and> xrc_shape c \<and> (\<forall>d \<in> set (y_dests c). x_sockfd d = 0))"

text \<open>More calls one by one, as in \<open>track_calls\<close>.\<close>

lemma track_acquires:
  "track M (Ibv Get_device_list) r = Some (if r \<noteq> 0 then add_mset (Device_list, r) M else M)"
  "track M (Ibv (Open_device d)) r = Some (if r \<noteq> 0 then add_mset (Device, r) M else M)"
  "track M (Ibv (Create_comp_channel d)) r = Some (if r \<noteq> 0 then add_mset (Channel, r) M else M)"
  "track M (Ibv (Alloc_pd d)) r = Some (if r \<noteq> 0 then add_mset (Pd, r) M else M)"
  "track M (Ibv (Reg_mr d b n a)) r = Some (if r \<noteq> 0 then add_mset (Mr, r) M else M)"
  "track M (Ibv (Create_cq d n ch)) r = Some (if r \<noteq> 0 then add_mset (Cq, r) M else M)"
  "track M (Ibv (Open_xrcd d fd)) r = Some (if r \<noteq> 0 then add_mset (Xrcd, r) M else M)"
  "track M (Ibv (Create_srq d n n')) r = Some (if r \<noteq> 0 then add_mset (Srq, r) M else M)"
  "track M (Ibv (Create_srq_ex d n n' x q p)) r = Some (if r \<noteq> 0 then add_mset (Srq, r) M else M)"
  "track M (Ibv (Create_dct d x')) r = Some (if r \<noteq> 0 then add_mset (Dct, r) M else M)"
  "track M (Ibv (Create_ah d y)) r = Some (if r \<noteq> 0 then add_mset (Ah, r) M else M)"
  "track M (Libc (Memalign n n')) r = Some (if r \<noteq> 0 then add_mset (Heap, r) M else M)"
  "track M (Libc (Open nm)) r = Some (if 0 \<le> r then add_mset (Fd, r) M else M)"
  "track M (Libc (Accept_sock fd)) r = Some (if 0 \<le> r then add_mset (Fd, r) M else M)"
  "track M (Libc (Getaddrinfo nm' n)) r = Some (if 0 \<le> r then add_mset (Addrinfo, 0) M else M)"
  "track M (Libc (Asprintf n)) r = Some (if 0 \<le> r then add_mset (Service, 0) M else M)"
  "track M (Libc (Listen_sock fd n)) r = Some M"
  "track M (Data z) r = Some M" "track M (Ibv (Get_srq_num d)) r = Some M"
  "track M (Ibv (Query_dct d)) r = Some M" "track M (Ibv (Query_device d ms)) r = Some M"
  by (simp_all add: track_simps)

lemma track_releases:
  "track M (Ibv (Free_device_list d)) r = (if (Device_list, d) \<in># M then Some (M - {#(Device_list, d)#}) else None)"
  "track M (Ibv (Close_device d)) r = (if (Device, d) \<in># M then Some (M - {#(Device, d)#}) else None)"
  "track M (Ibv (Destroy_comp_channel d)) r = (if (Channel, d) \<in># M then Some (M - {#(Channel, d)#}) else None)"
  "track M (Ibv (Dealloc_pd d)) r = (if (Pd, d) \<in># M then Some (M - {#(Pd, d)#}) else None)"
  "track M (Ibv (Dereg_mr d)) r = (if (Mr, d) \<in># M then Some (M - {#(Mr, d)#}) else None)"
  "track M (Ibv (Destroy_cq d)) r = (if (Cq, d) \<in># M then Some (M - {#(Cq, d)#}) else None)"
  "track M (Ibv (Destroy_srq d)) r = (if (Srq, d) \<in># M then Some (M - {#(Srq, d)#}) else None)"
  "track M (Ibv (Close_xrcd d)) r = (if (Xrcd, d) \<in># M then Some (M - {#(Xrcd, d)#}) else None)"
  "track M (Ibv (Destroy_dct d)) r = (if (Dct, d) \<in># M then Some (M - {#(Dct, d)#}) else None)"
  "track M (Libc Free_service) r = (if (Service, 0) \<in># M then Some (M - {#(Service, 0)#}) else None)"
  "track M (Libc Freeaddrinfo) r = (if (Addrinfo, 0) \<in># M then Some (M - {#(Addrinfo, 0)#}) else None)"
  by (simp_all add: track_simps)

lemmas xrc_track = track_calls track_acquires track_releases

definition qps_made :: "(res \<times> int) multiset \<Rightarrow> xrc_ctx \<Rightarrow> nat \<Rightarrow> xrc_ctx option \<Rightarrow> (res \<times> int) multiset \<Rightarrow> bool" where
  "qps_made M c n r M' \<longleftrightarrow> (case r of None \<Rightarrow> True | Some c' \<Rightarrow>
     \<exists>rq sq. c' = c\<lparr>y_recv_qp := y_recv_qp c @ rq, y_send_qp := y_send_qp c @ sq\<rparr>
       \<and> length rq = n \<and> length sq = n
       \<and> M' = M + mset (map (\<lambda>q. (Qp, fst q)) rq) + mset (map (\<lambda>q. (Qp, fst q)) sq))"

lemma qps_made_step:
  assumes "qps_made (add_mset (Qp, q) (add_mset (Qp, p) M))
      (c\<lparr>y_recv_qp := y_recv_qp c @ [(p, m)], y_send_qp := y_send_qp c @ [(q, l)]\<rparr>) n r M'"
  shows "qps_made M c (Suc n) r M'"
proof (cases r)
  case (Some c')
  with assms obtain rq sq where c: "c' = c\<lparr>y_recv_qp := y_recv_qp c @ (p, m) # rq, y_send_qp := y_send_qp c @ (q, l) # sq\<rparr>"
    and l: "length rq = n" "length sq = n"
    and M': "M' = add_mset (Qp, q) (add_mset (Qp, p) M) + mset (map (\<lambda>q. (Qp, fst q)) rq) + mset (map (\<lambda>q. (Qp, fst q)) sq)"
    by (auto simp: qps_made_def)
  have "length ((p, m) # rq) = Suc n \<and> length ((q, l) # sq) = Suc n
    \<and> M' = M + mset (map (\<lambda>q. (Qp, fst q)) ((p, m) # rq)) + mset (map (\<lambda>q. (Qp, fst q)) ((q, l) # sq))"
    using l M' by simp
  then show ?thesis unfolding qps_made_def Some option.case using c by blast
qed (simp add: qps_made_def)

lemma sat_xrc_create_qps: "sat track (xrc_create_qps E n c) M (qps_made M c n)"
proof (induction n arbitrary: c M)
  case 0
  then show ?case by (auto intro!: sat_intro simp: qps_made_def)
next
  case (Suc n)
  note step = sat_conseq [OF Suc qps_made_step]
  have fail: "qps_made M c (Suc n) None M'" for M' by (simp add: qps_made_def)
  show ?case unfolding xrc_create_qps.simps
    by (auto intro!: sat_intro step simp: track_calls fail)
qed

lemma own_socks_blank [simp]: "own_socks (replicate n 0) = {#}"
  by (simp add: own_socks_def filter_replicate)

lemma own_xrc_updates [simp]:
  "own_xrc_cqs (c\<lparr>y_srq := p\<rparr>) = own_xrc_cqs c" "own_xrc_cqs (c\<lparr>y_recv_qp := qs\<rparr>) = own_xrc_cqs c"
  "own_xrc_cqs (c\<lparr>y_send_qp := qs\<rparr>) = own_xrc_cqs c" "own_xrc_cqs (c\<lparr>y_dests := ds\<rparr>) = own_xrc_cqs c"
  "own_xrc_pd (c\<lparr>y_fd := p\<rparr>) = own_xrc_pd c" "own_xrc_pd (c\<lparr>y_xrcd := p\<rparr>) = own_xrc_pd c"
  "own_xrc_pd (c\<lparr>y_recv_cq := p\<rparr>) = own_xrc_pd c" "own_xrc_pd (c\<lparr>y_send_cq := p\<rparr>) = own_xrc_pd c"
  "own_xrc_device (c\<lparr>y_pd := p\<rparr>) = own_xrc_device c" "own_xrc_device (c\<lparr>y_mr := p\<rparr>) = own_xrc_device c"
  "own_xrc_device (c\<lparr>y_lkey := p\<rparr>) = own_xrc_device c"
  by (simp_all add: own_xrc_defs)

lemma xrc_ready_srq:
  assumes "y_recv_qp c = []" "y_send_qp c = []" "y_dests c = replicate (nat (y_num_clients c)) zero_xdest"
    and "y_xrcd c \<noteq> 0" "xrc_heap c" "y_buf c \<noteq> 0" and "M = M0 + own_xrc_cqs c"
    and "qps_made (add_mset (Srq, s) M) (c\<lparr>y_srq := s\<rparr>) (nat (y_num_clients c)) r M'"
  shows "xrc_ready M0 r M'"
proof (cases r)
  case (Some c')
  with assms(8) obtain rq sq where c': "c' = c\<lparr>y_srq := s, y_recv_qp := y_recv_qp c @ rq, y_send_qp := y_send_qp c @ sq\<rparr>"
    and l: "length rq = nat (y_num_clients c)" "length sq = nat (y_num_clients c)"
    and M': "M' = add_mset (Srq, s) M + mset (map (\<lambda>q. (Qp, fst q)) rq) + mset (map (\<lambda>q. (Qp, fst q)) sq)"
    by (auto simp: qps_made_def)
  have "y_dests c' = replicate (nat (y_num_clients c)) zero_xdest" using assms(3) c' by simp
  moreover from this have "\<forall>d \<in> set (y_dests c'). x_sockfd d = 0" by (simp add: zero_xdest_def)
  moreover have "M' = M0 + xrc_owns c'" unfolding M' assms(7)
    using assms(1-3) c' by (simp add: xrc_owns_def own_xrc_qps_def zero_xdest_def)
  moreover have "xrc_shape c'" using assms(1-6) l c' by (simp add: xrc_shape_def xrc_heap_def)
  ultimately show ?thesis unfolding xrc_ready_def Some by simp
qed (simp add: xrc_ready_def)

lemma xrc_ready_None [simp]: "xrc_ready M0 None M'"
  by (simp add: xrc_ready_def)

text \<open>A context under construction: no queue pairs yet, and no sockets.\<close>

definition xrc_blank :: "xrc_ctx \<Rightarrow> bool" where
  "xrc_blank c \<longleftrightarrow> y_recv_qp c = [] \<and> y_send_qp c = []
     \<and> y_dests c = replicate (nat (y_num_clients c)) zero_xdest \<and> xrc_heap c"

lemma xrc_blank_updates [simp]:
  "xrc_blank (c\<lparr>y_fd := p\<rparr>) = xrc_blank c" "xrc_blank (c\<lparr>y_xrcd := p\<rparr>) = xrc_blank c"
  "xrc_blank (c\<lparr>y_recv_cq := p\<rparr>) = xrc_blank c" "xrc_blank (c\<lparr>y_send_cq := p\<rparr>) = xrc_blank c"
  "xrc_blank (c\<lparr>y_pd := p\<rparr>) = xrc_blank c" "xrc_blank (c\<lparr>y_mr := p\<rparr>) = xrc_blank c"
  "xrc_blank (c\<lparr>y_lkey := p\<rparr>) = xrc_blank c" "xrc_blank (c\<lparr>y_channel := p\<rparr>) = xrc_blank c"
  "xrc_blank (c\<lparr>y_buf := p\<rparr>) = xrc_blank c" "xrc_blank (c\<lparr>y_context := p\<rparr>) = xrc_blank c"
  "xrc_blank (c\<lparr>y_lid := l\<rparr>) = xrc_blank c" "xrc_blank (c\<lparr>y_srq := p\<rparr>) = xrc_blank c"
  by (simp_all add: xrc_blank_def xrc_heap_def)

lemma sat_xrc_make_srq:
  assumes "xrc_blank c" and "y_buf c \<noteq> 0" and "y_xrcd c \<noteq> 0" and "M = M0 + own_xrc_cqs c"
  shows "sat track (xrc_make_srq E c) M (xrc_ready M0)"
proof -
  have b: "y_recv_qp c = []" "y_send_qp c = []" "y_dests c = replicate (nat (y_num_clients c)) zero_xdest" "xrc_heap c"
    using assms(1) by (simp_all add: xrc_blank_def)
  note step = sat_conseq [OF sat_xrc_create_qps xrc_ready_srq [OF b(1-3) assms(3) b(4) assms(2,4)]]
  show ?thesis unfolding xrc_make_srq_def
    by (auto intro!: sat_bind sat_invoke sat_return step simp: xrc_track)
qed

lemma sat_xrc_make_cqs:
  assumes "xrc_blank c" and "y_buf c \<noteq> 0" and "y_xrcd c \<noteq> 0"
    and "M = M0 + {#(Xrcd, y_xrcd c)#} + (if 0 \<le> y_fd c then {#(Fd, y_fd c)#} else {#}) + own_xrc_pd c"
  shows "sat track (xrc_make_cqs E c) M (xrc_ready M0)"
  using assms unfolding xrc_make_cqs_def
  by (auto intro!: sat_intro sat_xrc_make_srq simp: xrc_track own_xrc_cqs_def)

lemma sat_xrc_make_domain:
  assumes "xrc_blank c" and "y_buf c \<noteq> 0" and "M = M0 + own_xrc_pd c"
  shows "sat track (xrc_make_domain E c) M (xrc_ready M0)"
  using assms unfolding xrc_make_domain_def Let_def
  by (auto intro!: sat_intro sat_xrc_make_cqs simp: xrc_track)

lemma sat_xrc_make_pd:
  assumes "xrc_blank c" and "y_buf c \<noteq> 0" and "M = M0 + own_xrc_device c"
  shows "sat track (xrc_make_pd E c) M (xrc_ready M0)"
  using assms unfolding xrc_make_pd_def
  by (auto intro!: sat_intro sat_xrc_make_domain simp: xrc_track own_xrc_pd_def)

lemma sat_xrc_make_buffer:
  assumes "xrc_blank c" and "y_channel c = 0" and "M = M0 + {#(Device, y_context c)#} + own_xrc_blocks c"
  shows "sat track (xrc_make_buffer E psize c) M (xrc_ready M0)"
  using assms unfolding xrc_make_buffer_def xrc_make_channel_def pp_get_port_info_def Let_def
  by (auto intro!: sat_intro sat_xrc_make_pd simp: xrc_track own_xrc_device_def own_xrc_blocks_def)

lemma sat_xrc_init_ctx:
  assumes "y_recv_qp c = []" "y_send_qp c = []" "y_channel c = 0"
  shows "sat track (xrc_init_ctx E psize devs nm c) M (xrc_ready M)"
  using assms unfolding xrc_init_ctx_def xrc_open_device_def
  by (auto intro!: sat_intro sat_xrc_make_buffer simp: xrc_track own_xrc_blocks_def xrc_blank_def xrc_heap_def)

section \<open>Closing\<close>

definition own_clients :: "(ptr \<times> ptr \<times> int) list \<Rightarrow> (res \<times> int) multiset" where
  "own_clients ts = mset (map (\<lambda>t. (Qp, fst t)) ts) + mset (map (\<lambda>t. (Qp, fst (snd t))) ts)
     + own_socks (map (\<lambda>t. snd (snd t)) ts)"

lemma own_clients_simps [simp]:
  "own_clients [] = {#}"
  "own_clients ((q, p, fd) # ts) =
     {#(Qp, q), (Qp, p)#} + (if fd \<noteq> 0 then {#(Fd, fd)#} else {#}) + own_clients ts"
  by (simp_all add: own_clients_def own_socks_def)

lemma own_clients_zip:
  "length xs = length ys \<Longrightarrow> length ys = length zs \<Longrightarrow> own_clients (zip xs (zip ys zs)) =
     mset (map (Pair Qp) xs) + mset (map (Pair Qp) ys) + own_socks zs"
  by (induction xs ys zs rule: list_induct3) (simp_all add: own_socks_def)

lemma own_client_triples:
  assumes "xrc_shape c"
  shows "own_clients (xrc_client_triples c) = own_socks (map x_sockfd (y_dests c)) + own_xrc_qps c"
proof -
  have "length (map fst (y_send_qp c)) = length (map fst (y_recv_qp c))"
    "length (map fst (y_recv_qp c)) = length (map x_sockfd (y_dests c))"
    using assms by (simp_all add: xrc_shape_def)
  from own_clients_zip [OF this] show ?thesis
    by (simp add: xrc_client_triples_def own_xrc_qps_def comp_def)
qed

definition back_if :: "(res \<times> int) multiset \<Rightarrow> bool \<Rightarrow> (res \<times> int) multiset \<Rightarrow> bool" where
  "back_if M0 b M \<longleftrightarrow> (b \<longrightarrow> M = M0)"

lemma back_if_simps: "back_if M0 False M" "back_if M0 True M \<longleftrightarrow> M = M0"
  by (simp_all add: back_if_def)

lemma sat_xrc_close_clients:
  "M = M0 + own_clients ts \<Longrightarrow> sat track (xrc_close_clients E ts) M (\<lambda>ok. back_if M0 ok)"
proof (induction ts arbitrary: M)
  case Nil
  then show ?case by (auto intro!: sat_intro simp: back_if_simps)
next
  case (Cons t ts)
  obtain sq rq fd where t: "t = (sq, rq, fd)" by (cases t)
  from Cons show ?case unfolding t xrc_close_clients.simps
    by (auto intro!: sat_intro simp: xrc_track back_if_simps)
qed

lemma sat_xrc_close_rest:
  assumes "xrc_heap c" and "y_buf c \<noteq> 0"
    and "M = M0 + {#(Cq, y_recv_cq c), (Cq, y_send_cq c)#} + own_xrc_pd c"
  shows "sat track (xrc_close_rest E c) M (\<lambda>r. back_if M0 (r = 0))"
  using assms unfolding xrc_close_rest_def
  by (auto intro!: sat_intro simp: xrc_track back_if_simps own_xrc_pd_def own_xrc_device_def
      own_xrc_blocks_def xrc_heap_def)

lemma sat_xrc_close_ctx:
  assumes "xrc_shape c"
  shows "sat track (xrc_close_ctx E c) (M0 + xrc_owns c) (\<lambda>r. back_if M0 (r = 0))"
proof -
  let ?R = "M0 + {#(Srq, y_srq c)#} + own_xrc_cqs c"
  have M: "M0 + xrc_owns c = ?R + own_clients (xrc_client_triples c)"
    using own_client_triples [OF assms] by (simp add: xrc_owns_def)
  have rest: "sat track (xrc_close_rest E c) M (\<lambda>r. back_if M0 (r = 0))"
    if "M = M0 + {#(Cq, y_recv_cq c), (Cq, y_send_cq c)#} + own_xrc_pd c" for M
    using assms that by (intro sat_xrc_close_rest) (auto simp: xrc_shape_def)
  have x: "y_xrcd c \<noteq> 0" using assms by (simp add: xrc_shape_def)
  have tail: "sat track (do {
     r \<leftarrow> invoke E (Ibv (Destroy_srq (y_srq c)));
     if r \<noteq> 0 then ret_io 1 else do {
     r \<leftarrow> when_io (y_xrcd c \<noteq> 0) (invoke E (Ibv (Close_xrcd (y_xrcd c))));
     if r \<noteq> 0 then ret_io 1 else do {
     r \<leftarrow> when_io (0 \<le> y_fd c) (invoke E (Libc (Close (y_fd c))));
     if r \<noteq> 0 then ret_io 1 else xrc_close_rest E c }} }) ?R (\<lambda>r. back_if M0 (r = 0))"
    using x by (auto intro!: sat_intro rest simp: xrc_track own_xrc_cqs_def back_if_simps)
  show ?thesis unfolding xrc_close_ctx_def M
    by (rule sat_bind, rule sat_conseq [OF sat_xrc_close_clients [OF refl]], rule sat_if)
       (use tail in \<open>auto intro!: sat_return simp: back_if_def\<close>)
qed

section \<open>Sockets\<close>

text \<open>
  While it connects, a process owns its context and, should a socket have the number 0, which the
  code takes for none, some descriptors 0 that it never closes.
\<close>

definition socks_ok :: "(res \<times> int) multiset \<Rightarrow> xrc_ctx \<Rightarrow> (res \<times> int) multiset \<Rightarrow> bool" where
  "socks_ok M0 c M \<longleftrightarrow> xrc_shape c \<and> (\<exists>n. M = M0 + xrc_owns c + replicate_mset n (Fd, 0))"

definition same_socks :: "xrc_ctx \<Rightarrow> xrc_ctx \<Rightarrow> bool" where
  "same_socks c c' \<longleftrightarrow> (\<exists>ds. c' = c\<lparr>y_dests := ds\<rparr> \<and> map x_sockfd ds = map x_sockfd (y_dests c))"

lemma same_socks_refl [simp]: "same_socks c c"
  unfolding same_socks_def by (rule exI [of _ "y_dests c"]) simp

lemma same_socks_trans: "same_socks c c' \<Longrightarrow> same_socks c' c'' \<Longrightarrow> same_socks c c''"
  by (auto simp: same_socks_def)

lemma same_socks_sockfd:
  assumes "same_socks c c'"
  shows "map x_sockfd (y_dests c') = map x_sockfd (y_dests c)" "y_num_clients c' = y_num_clients c"
    "y_use_event c' = y_use_event c"
  using assms by (auto simp: same_socks_def)

lemma same_socks_ok:
  assumes "same_socks c c'"
  shows "socks_ok M0 c' M = socks_ok M0 c M"
proof -
  obtain ds where c': "c' = c\<lparr>y_dests := ds\<rparr>" and ds: "map x_sockfd ds = map x_sockfd (y_dests c)"
    using assms by (auto simp: same_socks_def)
  have "xrc_owns c' = xrc_owns c" using ds by (simp add: c' xrc_owns_def own_xrc_qps_def)
  moreover have "xrc_shape c' = xrc_shape c"
    using arg_cong [OF ds, of length] by (simp add: c' xrc_shape_def xrc_heap_def)
  ultimately show ?thesis by (simp add: socks_ok_def)
qed

lemma same_socks_upd:
  "(\<And>d. x_sockfd (f d) = x_sockfd d) \<Longrightarrow> same_socks c (upd_dest i f c)"
proof -
  assume f: "\<And>d. x_sockfd (f d) = x_sockfd d"
  let ?ds = "y_dests c"
  have "(map x_sockfd ?ds)[i := x_sockfd (?ds ! i)] = map x_sockfd ?ds"
    by (cases "i < length ?ds") (simp_all add: list_update_same_conv list_update_beyond)
  then have "map x_sockfd (?ds[i := f (?ds ! i)]) = map x_sockfd ?ds" by (simp add: map_update f)
  then show ?thesis unfolding same_socks_def upd_dest_def by blast
qed

definition sock_of :: "xrc_ctx \<Rightarrow> nat \<Rightarrow> int" where
  "sock_of c i = map x_sockfd (y_dests c) ! i"

lemma own_socks_split:
  "own_socks (xs @ fd # ys) = own_socks xs + (if fd \<noteq> 0 then {#(Fd, fd)#} else {#}) + own_socks ys"
  by (simp add: own_socks_def)

lemma own_socks_update:
  assumes "i < length fds" and "fds ! i = 0"
  shows "own_socks (fds[i := fd]) = own_socks fds + (if fd \<noteq> 0 then {#(Fd, fd)#} else {#})"
proof -
  have "own_socks fds = own_socks (take i fds @ fds ! i # drop (Suc i) fds)"
    by (simp only: id_take_nth_drop [OF assms(1), symmetric])
  then have "own_socks fds = own_socks (take i fds) + own_socks (drop (Suc i) fds)"
    unfolding own_socks_split assms(2) by simp
  then show ?thesis unfolding upd_conv_take_nth_drop [OF assms(1)] own_socks_split by simp
qed

lemma socks_ok_new:
  assumes "socks_ok M0 c M" and "i < nat (y_num_clients c)" and "sock_of c i = 0"
    and f: "\<And>d. x_sockfd (f d) = fd"
  shows "socks_ok M0 (upd_dest i f c) (add_mset (Fd, fd) M)"
    and "sock_of (upd_dest i f c) j = (if j = i then fd else sock_of c j)"
proof -
  have l: "i < length (y_dests c)" and sh: "xrc_shape c"
    using assms(1,2) by (simp_all add: socks_ok_def xrc_shape_def)
  have fds: "map x_sockfd (y_dests (upd_dest i f c)) = (map x_sockfd (y_dests c))[i := fd]"
    using f by (simp add: upd_dest_def map_update)
  then show "sock_of (upd_dest i f c) j = (if j = i then fd else sock_of c j)"
    using l by (simp add: sock_of_def)
  have own: "xrc_owns (upd_dest i f c) = xrc_owns c + (if fd \<noteq> 0 then {#(Fd, fd)#} else {#})"
    using own_socks_update [of i "map x_sockfd (y_dests c)" fd] l assms(3) fds
    by (simp add: xrc_owns_def upd_dest_def own_xrc_qps_def sock_of_def)
  obtain n where M: "M = M0 + xrc_owns c + replicate_mset n (Fd, 0)" using assms(1) by (auto simp: socks_ok_def)
  have "add_mset (Fd, fd) M = M0 + xrc_owns (upd_dest i f c) + replicate_mset (if fd = 0 then Suc n else n) (Fd, 0)"
    unfolding own M by simp
  moreover have "xrc_shape (upd_dest i f c)" using sh by (simp add: xrc_shape_def upd_dest_def xrc_heap_def)
  ultimately show "socks_ok M0 (upd_dest i f c) (add_mset (Fd, fd) M)" unfolding socks_ok_def by blast
qed

section \<open>Connecting and running\<close>

text \<open>Functions that hand the context back hold nothing new, and keep its sockets.\<close>

definition kept :: "xrc_ctx \<Rightarrow> (res \<times> int) multiset \<Rightarrow> xrc_ctx option \<Rightarrow> (res \<times> int) multiset \<Rightarrow> bool" where
  "kept c M r M' \<longleftrightarrow> M' = M \<and> (\<forall>c'. r = Some c' \<longrightarrow> same_socks c c')"

lemma kept_simps: "kept c M None M' \<longleftrightarrow> M' = M" "kept c M (Some c') M' \<longleftrightarrow> M' = M \<and> same_socks c c'"
  by (simp_all add: kept_def)

lemma sat_send_local_dest: "sat track (send_local_dest E k c fd i) M (kept c M)"
  unfolding send_local_dest_def send_xdest_def Let_def
  by (auto intro!: sat_intro same_socks_upd simp: xrc_track kept_simps)

lemma sat_read_full: "sat track (read_full E fuel fd n acc) M (unchanged M)"
  by (induction fuel arbitrary: acc) (auto intro!: sat_intro simp: xrc_track unchanged_def)

definition met :: "xrc_ctx \<Rightarrow> int \<Rightarrow> nat \<Rightarrow> (res \<times> int) multiset \<Rightarrow> xrc_ctx option option \<Rightarrow> (res \<times> int) multiset \<Rightarrow> bool" where
  "met c fd i M r M' \<longleftrightarrow> M' = M \<and> (\<forall>c'. r = Some (Some c') \<longrightarrow>
     (\<exists>f. (\<forall>d. x_sockfd (f d) = fd) \<and> c' = upd_dest i f c))"

lemma met_intros:
  "met c fd i M None M" "met c fd i M (Some None) M"
  "(\<And>d. x_sockfd (f d) = fd) \<Longrightarrow> met c fd i M (Some (Some (upd_dest i f c))) M"
  by (auto simp: met_def)

lemma sat_recv_remote_dest: "sat track (recv_remote_dest E fuel k c fd i) M (met c fd i M)"
  unfolding recv_remote_dest_def
  by (auto intro!: sat_intro met_intros sat_conseq [OF sat_read_full] simp: unchanged_def)

lemma sat_xrc_connect_qps: "sat track (xrc_connect_qps E c i) M (unchanged M)"
  unfolding xrc_connect_qps_def Let_def by (auto intro!: sat_intro simp: xrc_track unchanged_def)

text \<open>A client of the server, or the server of a client: its socket is the context's now.\<close>

definition talked ::
    "(res \<times> int) multiset \<Rightarrow> xrc_ctx \<Rightarrow> nat \<Rightarrow> xrc_ctx option option \<Rightarrow> (res \<times> int) multiset \<Rightarrow> bool" where
  "talked M0 c i r M' \<longleftrightarrow> (\<forall>c'. r = Some (Some c') \<longrightarrow> socks_ok M0 c' M'
     \<and> y_num_clients c' = y_num_clients c \<and> (\<forall>j. j \<noteq> i \<longrightarrow> sock_of c' j = sock_of c j))"

lemma talked_fails [simp]: "talked M0 c i None M" "talked M0 c i (Some None) M"
  by (simp_all add: talked_def)

lemma same_socks_sock_of: "same_socks c c' \<Longrightarrow> sock_of c' j = sock_of c j"
  by (simp add: sock_of_def same_socks_sockfd)

text \<open>Both orders of sending and receiving, and the connection, end the same way.\<close>

lemma talked_end:
  assumes "socks_ok M0 c M1" "i < nat (y_num_clients c)" "sock_of c i = 0"
    and "same_socks c c1" "\<And>d. x_sockfd (f d) = fd" "same_socks (upd_dest i f c1) c2"
  shows "talked M0 c i (Some (Some c2)) (add_mset (Fd, fd) M1)"
proof -
  have "socks_ok M0 c1 M1" "i < nat (y_num_clients c1)" "sock_of c1 i = 0"
    using assms(1-4) by (simp_all add: same_socks_ok same_socks_sockfd same_socks_sock_of)
  note new = socks_ok_new [OF this assms(5)]
  have "sock_of c2 j = sock_of c j" if "j \<noteq> i" for j
    using new(2) [where j = j] that assms(4,6) by (simp add: same_socks_sock_of)
  moreover have "y_num_clients c2 = y_num_clients c"
    using assms(4,6) same_socks_sockfd(2) by (simp add: same_socks_sockfd upd_dest_def)
  ultimately show ?thesis using new(1) assms(6) by (simp add: talked_def same_socks_ok)
qed

lemma sat_xrc_server_talk:
  assumes "socks_ok M0 c M1" "i < nat (y_num_clients c)" "sock_of c i = 0"
  shows "sat track (xrc_server_talk E fuel k c fd i) (add_mset (Fd, fd) M1) (talked M0 c i)"
  unfolding xrc_server_talk_def
  by (auto intro!: sat_intro sat_conseq [OF sat_recv_remote_dest] sat_conseq [OF sat_send_local_dest]
      sat_conseq [OF sat_xrc_connect_qps] talked_end [OF assms same_socks_refl] split: option.split
      simp: met_def kept_def unchanged_def)

lemma sat_xrc_client_talk:
  assumes "socks_ok M0 c M1" "0 < y_num_clients c" "sock_of c 0 = 0"
  shows "sat track (xrc_client_talk E fuel k c fd) (add_mset (Fd, fd) M1) (talked M0 c 0)"
proof -
  have "0 < nat (y_num_clients c)" using assms(2) by simp
  note fin = talked_end [OF assms(1) this assms(3) _ _ same_socks_refl]
  show ?thesis unfolding xrc_client_talk_def
    by (auto intro!: sat_intro sat_conseq [OF sat_recv_remote_dest] sat_conseq [OF sat_send_local_dest]
        sat_conseq [OF sat_xrc_connect_qps] fin split: option.split simp: met_def kept_def unchanged_def)
qed

definition connected :: "(res \<times> int) multiset \<Rightarrow> xrc_ctx option option \<Rightarrow> (res \<times> int) multiset \<Rightarrow> bool" where
  "connected M0 r M \<longleftrightarrow> (\<forall>c. r = Some (Some c) \<longrightarrow> socks_ok M0 c M)"

lemma connected_simps [simp]:
  "connected M0 None M" "connected M0 (Some None) M" "connected M0 (Some (Some c)) M = socks_ok M0 c M"
  by (simp_all add: connected_def)

lemma talked_connected: "talked M0 c i r M \<Longrightarrow> connected M0 r M"
  by (simp add: talked_def connected_def)

lemma sat_xrc_client_connect:
  assumes "socks_ok M0 c M" "0 < y_num_clients c" "sock_of c 0 = 0"
  shows "sat track (xrc_client_connect E fuel k addrs c nm port) M (connected M0)"
  unfolding xrc_client_connect_def
  by (auto intro!: sat_intro sat_conseq [OF sat_open_client] talked_connected
      sat_conseq [OF sat_xrc_client_talk [OF assms]] simp: opened_def)

text \<open>The listening socket is among what the process holds until the last client is connected.\<close>

lemma socks_ok_listen: "socks_ok (add_mset x M0) c M \<Longrightarrow> x \<in># M \<and> socks_ok M0 c (M - {#x#})"
  by (auto simp: socks_ok_def)

lemma sat_xrc_accept:
  "socks_ok (add_mset (Fd, s) M0) c M \<Longrightarrow> distinct js \<Longrightarrow>
   (\<And>j. j \<in> set js \<Longrightarrow> j < nat (y_num_clients c) \<and> sock_of c j = 0) \<Longrightarrow>
   sat track (xrc_accept E fuel k c s js) M (connected M0)"
proof (induction js arbitrary: c M)
  case Nil
  with socks_ok_listen show ?case by (auto intro!: sat_intro simp: xrc_track)
next
  case (Cons i js)
  have "i < nat (y_num_clients c)" "sock_of c i = 0" using Cons.prems(3) [of i] by simp_all
  note talk = sat_xrc_server_talk [OF Cons.prems(1) this]
  have rest: "sat track (xrc_accept E fuel k c' s js) M' (connected M0)"
    if "talked (add_mset (Fd, s) M0) c i (Some (Some c')) M'" for c' M'
  proof (rule Cons.IH)
    fix j assume "j \<in> set js"
    then have "j \<noteq> i" "j < nat (y_num_clients c) \<and> sock_of c j = 0" using Cons.prems(2,3) by auto
    then show "j < nat (y_num_clients c') \<and> sock_of c' j = 0" using that by (simp add: talked_def)
  qed (use that Cons.prems(2) in \<open>simp_all add: talked_def\<close>)
  show ?case unfolding xrc_accept.simps
    by (auto intro!: sat_bind sat_invoke sat_if sat_return sat_conseq [OF talk] rest
        simp: xrc_track split: option.split)
qed

lemma socks_ok_add: "socks_ok M0 c M \<Longrightarrow> socks_ok (add_mset x M0) c (add_mset x M)"
  by (auto simp: socks_ok_def)

lemma sat_xrc_server_connect:
  assumes "socks_ok M0 c M" and "\<And>j. j < nat (y_num_clients c) \<Longrightarrow> sock_of c j = 0"
  shows "sat track (xrc_server_connect E fuel k addrs c port) M (connected M0)"
  unfolding xrc_server_connect_def
  by (auto intro!: sat_intro sat_conseq [OF sat_loops(2)] sat_xrc_accept socks_ok_add assms
      simp: xrc_track)

text \<open>The loop and the waits.\<close>

definition ran ::
    "xrc_ctx \<Rightarrow> (res \<times> int) multiset \<Rightarrow> (int + xrc_ctx \<times> int) option \<Rightarrow> (res \<times> int) multiset \<Rightarrow> bool" where
  "ran c M r M' \<longleftrightarrow> M' = M \<and> (\<forall>c' n. r = Some (Inr (c', n)) \<longrightarrow> same_socks c c') \<and> r \<noteq> Some (Inl 0)"

lemma ran_simps:
  "ran c M None M' \<longleftrightarrow> M' = M" "ran c M (Some (Inl s)) M' \<longleftrightarrow> M' = M \<and> s \<noteq> 0"
  "ran c M (Some (Inr (c', n))) M' \<longleftrightarrow> M' = M \<and> same_socks c c'"
  by (auto simp: ran_def)

lemma ran_trans: "same_socks c c' \<Longrightarrow> ran c' M r M' \<Longrightarrow> ran c M r M'"
  using same_socks_trans by (auto simp: ran_def)

lemma sat_xrc_post_recv: "sat track (xrc_post_recv E c n) M (unchanged M)"
proof -
  have "sat track (xrc_post_recvs E c n) M (unchanged M)" for n
    by (induction n) (auto intro!: sat_intro simp: xrc_track unchanged_def)
  then show ?thesis by (simp add: xrc_post_recv_def)
qed

definition sent :: "xrc_ctx \<Rightarrow> (res \<times> int) multiset \<Rightarrow> int \<times> xrc_ctx \<Rightarrow> (res \<times> int) multiset \<Rightarrow> bool" where
  "sent c M r M' \<longleftrightarrow> M' = M \<and> same_socks c (snd r)"

lemma sat_xrc_post_send: "sat track (xrc_post_send E c i) M (sent c M)"
  using same_socks_upd [of "\<lambda>d. d\<lparr>x_pp_cnt := x_pp_cnt d + 1\<rparr>" c i]
  unfolding xrc_post_send_def upd_dest_def by (auto intro!: sat_intro simp: xrc_track sent_def)

lemma sat_xrc_handle: "sat track (xrc_handle E ne w c) M (\<lambda>c' M'. sent c M (0, c') M')"
  unfolding xrc_handle_def Let_def
  by (auto intro!: sat_intro sat_conseq [OF sat_xrc_post_recv] sat_conseq [OF sat_xrc_post_send]
      simp: unchanged_def sent_def)

lemma sat_xrc_drain: "sat track (xrc_drain E fuel c n) M (ran c M)"
proof (induction fuel arbitrary: c n M)
  case 0
  then show ?case by (auto intro!: sat_intro simp: ran_simps)
next
  case (Suc fuel)
  have next': "sat track (xrc_drain E fuel c' n') M (ran c M)" if "same_socks c c'" for c' n'
    by (rule sat_conseq [OF Suc]) (rule ran_trans [OF that])
  show ?case unfolding xrc_drain.simps
    by (auto intro!: sat_intro next' sat_conseq [OF sat_xrc_handle] split: list.split
        simp: xrc_track ran_simps sent_def)
qed

lemma ran_cases:
  assumes "ran c M r M'"
  shows "r = None \<and> M' = M \<or> (\<exists>s. r = Some (Inl s) \<and> s \<noteq> 0 \<and> M' = M)
    \<or> (\<exists>c' n. r = Some (Inr (c', n)) \<and> same_socks c c' \<and> M' = M)"
proof (cases r)
  case (Some x)
  with assms show ?thesis by (cases x) (auto simp: ran_def)
qed (use assms in \<open>simp add: ran_def\<close>)

lemma sat_get_cq_event: "sat track (xrc_get_cq_event E c) M (unchanged M)"
  unfolding xrc_get_cq_event_def by (auto intro!: sat_intro simp: xrc_track unchanged_def)

lemma sat_xrc_loop: "sat track (xrc_loop E fuel tot c n nev) M (ran c M)"
proof (induction fuel arbitrary: c n nev M)
  case 0
  then show ?case by (auto intro!: sat_intro simp: ran_simps)
next
  case (Suc fuel)
  have next': "sat track (xrc_loop E fuel tot c' n' nev') M (ran c M)" if "same_socks c c'" for c' n' nev'
    by (rule sat_conseq [OF Suc]) (rule ran_trans [OF that])
  have after: "sat track (case r of None \<Rightarrow> ret_io None | Some (Inl s) \<Rightarrow> ret_io (Some (Inl s))
      | Some (Inr (c, cnt)) \<Rightarrow> xrc_loop E fuel tot c cnt (if y_use_event c then nev + 1 else nev))
      M' (ran c M)"
    if "ran c M r M'" for r M'
    using ran_cases [OF that] by (auto intro!: sat_return next' simp: ran_simps)
  have body: "sat track (do { r \<leftarrow> xrc_drain E (Suc fuel) c n;
      case r of None \<Rightarrow> ret_io None | Some (Inl s) \<Rightarrow> ret_io (Some (Inl s))
      | Some (Inr (c, cnt)) \<Rightarrow> xrc_loop E fuel tot c cnt (if y_use_event c then nev + 1 else nev) }) M (ran c M)"
    by (rule sat_bind, rule sat_conseq [OF sat_xrc_drain]) (rule after)
  show ?case unfolding xrc_loop.simps
    by (auto intro!: sat_bind [OF sat_when] sat_if sat_return sat_conseq [OF sat_get_cq_event] body
        simp: ran_simps unchanged_def simp del: xrc_drain.simps)
qed

lemma sat_xrc_wait_sends: "sat track (xrc_wait_sends E fuel c n) M (unchanged M)"
  by (induction fuel arbitrary: n) (auto intro!: sat_intro simp: xrc_track unchanged_def)

lemma sat_acks:
  "sat track (recv_termination_ack E fuel fd) M (unchanged M)"
  "sat track (send_termination_ack E fd) M (unchanged M)"
  unfolding recv_termination_ack_def send_termination_ack_def
  by (auto intro!: sat_intro sat_conseq [OF sat_read_full] simp: xrc_track unchanged_def)

lemma sat_all_acks:
  "sat track (recv_acks E fuel fds) M (unchanged M)" "sat track (send_acks E fds) M (unchanged M)"
  by (induction fds) (auto intro!: sat_intro sat_conseq [OF sat_acks(1)] sat_conseq [OF sat_acks(2)]
      simp: unchanged_def)

lemma sat_terminations:
  "sat track (xrc_client_termination E fuel c) M (unchanged M)"
  "sat track (xrc_server_termination E fuel c) M (unchanged M)"
  unfolding xrc_client_termination_def xrc_server_termination_def Let_def
  by (auto intro!: sat_intro sat_conseq [OF sat_acks(1)] sat_conseq [OF sat_acks(2)]
      sat_conseq [OF sat_all_acks(1)] sat_conseq [OF sat_all_acks(2)] simp: unchanged_def)

section \<open>The whole run\<close>

definition sockets_left :: "(res \<times> int) multiset \<Rightarrow> int option \<Rightarrow> (res \<times> int) multiset \<Rightarrow> bool" where
  "sockets_left M0 r M \<longleftrightarrow> (r = Some 0 \<longrightarrow> (\<exists>n. M = M0 + replicate_mset n (Fd, 0)))"

lemma sockets_left_fail [simp]: "r \<noteq> Some 0 \<Longrightarrow> sockets_left M0 r M"
  by (simp add: sockets_left_def)

lemma sat_xrc_close_socks:
  assumes "socks_ok M0 c M"
  shows "sat track (xrc_close_ctx E c) M (\<lambda>r. sockets_left M0 (Some (if r \<noteq> 0 then 1 else 0)))"
proof -
  obtain n where sh: "xrc_shape c" and M: "M = (M0 + replicate_mset n (Fd, 0)) + xrc_owns c"
    using assms by (auto simp: socks_ok_def add_ac)
  show ?thesis unfolding M
    by (rule sat_conseq [OF sat_xrc_close_ctx [OF sh]]) (auto simp: back_if_def sockets_left_def)
qed

lemma sat_xrc_finish:
  assumes "socks_ok M0 c M"
  shows "sat track (xrc_finish E fuel client c nev) M (sockets_left M0)"
  unfolding xrc_finish_def
  by (auto intro!: sat_intro sat_conseq [OF sat_xrc_wait_sends] sat_conseq [OF sat_terminations(1)]
      sat_conseq [OF sat_terminations(2)] sat_conseq [OF sat_xrc_close_socks [OF assms]]
      simp: xrc_track unchanged_def)

lemma sat_xrc_run:
  assumes "socks_ok M0 c M"
  shows "sat track (xrc_run E fuel client c) M (sockets_left M0)"
proof -
  have "sat track (case r of None \<Rightarrow> ret_io None | Some (Inl s) \<Rightarrow> ret_io (Some s)
      | Some (Inr (c, nev)) \<Rightarrow> xrc_finish E fuel client c nev) M' (sockets_left M0)"
    if "ran c M r M'" for r M'
    using ran_cases [OF that] assms by (auto intro!: sat_return sat_xrc_finish simp: same_socks_ok)
  then show ?thesis unfolding xrc_run_def by (intro sat_bind sat_conseq [OF sat_xrc_loop])
qed

lemma sat_xrc_first_sends: "sat track (xrc_first_sends E c js) M (\<lambda>c' M'. sent c M (0, c') M')"
proof (induction js arbitrary: c)
  case (Cons i js)
  have "sat track (xrc_first_sends E c1 js) M (\<lambda>c' M'. sent c M (0, c') M')" if "same_socks c c1" for c1
    by (rule sat_conseq [OF Cons]) (use same_socks_trans [OF that] in \<open>auto simp: sent_def\<close>)
  then show ?case unfolding xrc_first_sends.simps
    by (auto intro!: sat_bind sat_case_prod sat_conseq [OF sat_xrc_post_send] simp: sent_def)
qed (auto intro!: sat_return simp: sent_def)

text \<open>Setting up does not change the number of clients.\<close>

definition same_clients :: "xrc_ctx \<Rightarrow> xrc_ctx option \<Rightarrow> bool" where
  "same_clients c r \<longleftrightarrow> (\<forall>c'. r = Some c' \<longrightarrow> y_num_clients c' = y_num_clients c)"

lemma same_clients_simps [simp]:
  "same_clients c None" "same_clients c (Some c') \<longleftrightarrow> y_num_clients c' = y_num_clients c"
  by (simp_all add: same_clients_def)

lemma same_clients_cong: "same_clients c' r \<Longrightarrow> y_num_clients c' = y_num_clients c \<Longrightarrow> same_clients c r"
  by (simp add: same_clients_def)

lemma gives_xrc_create_qps: "gives (xrc_create_qps E n c) (same_clients c)"
proof (induction n arbitrary: c)
  case (Suc n)
  note step = gives_conseq [OF Suc same_clients_cong]
  show ?case unfolding xrc_create_qps.simps
    by (rule gives_then)
      (auto simp only: prod.case split: prod.split intro!: gives_then gives_if gives_return step same_clients_simps,
       simp_all)
qed (simp add: gives_return)

lemmas same_clients_intro = gives_then gives_if gives_return gives_case_prod gives_case_option same_clients_simps

lemma gives_xrc_make:
  "gives (xrc_make_srq E c) (same_clients c)" "gives (xrc_make_cqs E c) (same_clients c)"
  "gives (xrc_make_domain E c) (same_clients c)" "gives (xrc_make_pd E c) (same_clients c)"
  "gives (xrc_make_channel E c) (same_clients c)" "gives (xrc_make_buffer E psize c) (same_clients c)"
proof -
  show srq: "gives (xrc_make_srq E c) (same_clients c)" for c unfolding xrc_make_srq_def
    by (intro same_clients_intro gives_conseq [OF gives_xrc_create_qps] | erule same_clients_cong | simp)+
  show cqs: "gives (xrc_make_cqs E c) (same_clients c)" for c unfolding xrc_make_cqs_def
    by (intro same_clients_intro gives_conseq [OF srq] | erule same_clients_cong | simp)+
  show dom: "gives (xrc_make_domain E c) (same_clients c)" for c unfolding xrc_make_domain_def Let_def
    by (intro same_clients_intro gives_conseq [OF cqs] | erule same_clients_cong | simp)+
  show pd: "gives (xrc_make_pd E c) (same_clients c)" for c unfolding xrc_make_pd_def
    by (intro same_clients_intro gives_conseq [OF dom] | erule same_clients_cong | simp)+
  show chan: "gives (xrc_make_channel E c) (same_clients c)" for c unfolding xrc_make_channel_def
    by (intro same_clients_intro gives_conseq [OF pd] | erule same_clients_cong | simp)+
  show "gives (xrc_make_buffer E psize c) (same_clients c)" unfolding xrc_make_buffer_def Let_def
    by (intro same_clients_intro gives_conseq [OF chan] | erule same_clients_cong | simp)+
qed

lemma gives_xrc_init_ctx: "gives (xrc_init_ctx E psize devs nm c) (same_clients c)"
proof -
  have "gives (xrc_open_device E devs nm c) (same_clients c)" for c
    unfolding xrc_open_device_def by (intro same_clients_intro | simp)+
  note dev = gives_bind [OF gives_conseq [OF this]]
  show ?thesis unfolding xrc_init_ctx_def
    by (rule gives_then, rule gives_then, rule gives_then, rule gives_if, simp add: gives_return, rule dev,
        rule gives_case_option, simp add: gives_return, rule gives_conseq [OF gives_xrc_make(6)])
      (auto simp: same_clients_def)
qed

text \<open>The options: a client has one peer.\<close>

lemma xrc_parse_keeps:
  "xrc_parse cas opt = Some opt' \<Longrightarrow> xo_servername opt = None \<Longrightarrow>
   y_recv_qp (xo_ctx opt) = [] \<and> y_send_qp (xo_ctx opt) = [] \<and> y_channel (xo_ctx opt) = 0 \<Longrightarrow>
   xo_servername opt' = None
   \<and> y_recv_qp (xo_ctx opt') = [] \<and> y_send_qp (xo_ctx opt') = [] \<and> y_channel (xo_ctx opt') = 0"
proof (induction cas arbitrary: opt)
  case (Cons ca cas)
  then obtain o1 where o1: "xrc_opt ca opt = Some o1" "xrc_parse cas o1 = Some opt'" by (auto split: option.splits)
  have "xo_servername o1 = xo_servername opt \<and> y_recv_qp (xo_ctx o1) = y_recv_qp (xo_ctx opt)
     \<and> y_send_qp (xo_ctx o1) = y_send_qp (xo_ctx opt) \<and> y_channel (xo_ctx o1) = y_channel (xo_ctx opt)"
    using o1(1) by (cases ca) (auto simp: xrc_opt_def set_ctx_def Let_def split: if_splits)
  then show ?case using Cons.IH [OF o1(2)] Cons.prems by simp
qed simp

definition opts_ok :: "xrc_opts \<Rightarrow> bool" where
  "opts_ok opt \<longleftrightarrow> y_recv_qp (xo_ctx opt) = [] \<and> y_send_qp (xo_ctx opt) = [] \<and> y_channel (xo_ctx opt) = 0
     \<and> (xo_servername opt \<noteq> None \<longrightarrow> y_num_clients (xo_ctx opt) = 1)"

lemma opts_ok_args:
  assumes "xrc_parse cas xrc_default = Some opt" and "xrc_args args opt = Some opt'"
  shows "opts_ok opt'"
  using xrc_parse_keeps [OF assms(1)] assms(2)
  by (auto simp: xrc_default_def xrc_init_def xrc_args_def set_ctx_def opts_ok_def split: if_splits)

lemma sat_xrc_connect:
  assumes "xrc_ready M0 (Some c) M" and "xo_servername opt \<noteq> None \<longrightarrow> y_num_clients c = 1"
  shows "sat track (xrc_connect E fuel k addrs opt c) M (sockets_left M0)"
proof -
  have ok: "socks_ok M0 c M" using assms(1)
    by (auto simp: xrc_ready_def socks_ok_def intro!: exI [of _ 0])
  have z: "sock_of c j = 0" if "j < nat (y_num_clients c)" for j
    using assms(1) that by (simp add: xrc_ready_def xrc_shape_def sock_of_def)
  have cl: "sat track (xrc_client_connect E fuel k addrs c nm port) M (connected M0)"
    if "xo_servername opt = Some nm" for nm port
    using assms(2) that z [of 0] by (intro sat_xrc_client_connect ok) simp_all
  have first: "sat track (do { c \<leftarrow> xrc_first_sends E c' js; xrc_run E fuel False c }) M' (sockets_left M0)"
    if "socks_ok M0 c' M'" for c' M' js
    using that by (auto intro!: sat_bind sat_conseq [OF sat_xrc_first_sends] sat_xrc_run
        simp: sent_def same_socks_ok)
  show ?thesis unfolding xrc_connect_def
    by (auto intro!: sat_bind [OF sat_conseq [OF sat_xrc_post_recv]] sat_bind [OF sat_conseq [OF cl]]
        sat_bind [OF sat_conseq [OF sat_xrc_server_connect [OF ok z]]] sat_if sat_return sat_case_option
        sat_xrc_run first simp: unchanged_def)
qed

lemma sat_xrc_main: "sat track (xrc_main E fuel k addrs devs psize cas args) M (sockets_left M)"
proof -
  have body: "sat track (do { r \<leftarrow> xrc_init_ctx E psize devs nm (xo_ctx opt);
      case r of None \<Rightarrow> ret_io (Some 1) | Some c \<Rightarrow> xrc_connect E fuel k addrs opt c }) M (sockets_left M)"
    if "opts_ok opt" for opt nm
    using that
    by (auto intro!: sat_bind sat_conseq [OF sat_gives [OF sat_xrc_init_ctx gives_xrc_init_ctx]]
        sat_case_option sat_return sat_xrc_connect simp: opts_ok_def same_clients_def)
  show ?thesis unfolding xrc_main_def
    by (auto intro!: sat_case_option sat_return body intro: opts_ok_args)
qed

text \<open>A network and an adapter that deliver: one completion of the receive, then one of the send.\<close>

definition xrc_env :: api_env where
  "xrc_env = \<lparr>ret = (\<lambda>h c. case c of Data (Poll_cq q n) \<Rightarrow> if h \<noteq> [] \<and> sends [hd h] = 1 then 0 else 1
       | Data d \<Rightarrow> 0
       | Libc (Read fd n) \<Rightarrow> n | Libc (Write fd s) \<Rightarrow> int (length s) | Libc (Connect_sock s a) \<Rightarrow> 0
       | Libc (Close fd) \<Rightarrow> 0 | Ibv (Destroy_srq s) \<Rightarrow> 0 | Ibv (Close_xrcd x) \<Rightarrow> 0 | Ibv (Get_srq_num s) \<Rightarrow> 0
       | _ \<Rightarrow> if status_call c then 0 else 1),
     data_in = (\<lambda>h c. ''END'' @ [NUL]), attr_in = (\<lambda>h c a. 1),
     wcs_in = (\<lambda>h c. [\<lparr>wc_wr_id = 0, wc_status = 0, wc_opcode = WC_RECV, wc_imm = 0, wc_qp_num = 1\<rparr>])\<rparr>"

definition xrc_demo_opts :: xrc_opts where
  "xrc_demo_opts = \<lparr>xo_devname = None, xo_servername = None, xo_port = 18515, xo_ctx = xrc_init\<lparr>y_num_tests := 1\<rparr>\<rparr>"

lemma xrc_demo_parse: "xrc_parse [(CHR ''n'', ''1'')] xrc_default = Some xrc_demo_opts"
  by code_simp

lemma xrc_env_simps:
  "ret xrc_env h c = (case c of Data (Poll_cq q n) \<Rightarrow> if h \<noteq> [] \<and> sends [hd h] = 1 then 0 else 1
       | Data d \<Rightarrow> 0
       | Libc (Read fd n) \<Rightarrow> n | Libc (Write fd s) \<Rightarrow> int (length s) | Libc (Connect_sock s a) \<Rightarrow> 0
       | Libc (Close fd) \<Rightarrow> 0 | Ibv (Destroy_srq s) \<Rightarrow> 0 | Ibv (Close_xrcd x) \<Rightarrow> 0 | Ibv (Get_srq_num s) \<Rightarrow> 0
       | _ \<Rightarrow> if status_call c then 0 else 1)"
  "attr_in xrc_env h c a = 1" "data_in xrc_env h c = ''END'' @ [NUL]"
  "wcs_in xrc_env h c = [\<lparr>wc_wr_id = 0, wc_status = 0, wc_opcode = WC_RECV, wc_imm = 0, wc_qp_num = 1\<rparr>]"
  by (simp_all add: xrc_env_def)

lemmas xrc_run_simps = run_simps xrc_env_simps status_call_def Let_def

lemma scan_xdest_cnt: "x_pp_cnt (scan_xdest v gid m d) = x_pp_cnt d"
  by (simp add: scan_xdest_def Let_def split: prod.split)

lemma xrc_demo_main:
  "fst (run_state (xrc_main xrc_env (Suc (Suc 0)) wide_stack [1] [(''mlx5_0'', 7)] 4096
     [(CHR ''n'', ''1'')] [''srv'']) []) = Some 0"
  unfolding xrc_main_def xrc_demo_parse
  by (simp add: xrc_args_def xrc_demo_opts_def set_ctx_def xrc_init_ctx_def xrc_open_device_def xrc_make_buffer_def
      pp_get_port_info_def xrc_make_channel_def
      xrc_make_pd_def xrc_make_domain_def xrc_make_cqs_def xrc_make_srq_def xrc_init_def xrc_run_simps
      choose_dev_def xrc_connect_def xrc_post_recv_def xrc_client_connect_def xrc_client_talk_def
      open_client_def send_local_dest_def send_xdest_def recv_remote_dest_def xrc_connect_qps_def upd_dest_def
      xrc_run_def xrc_handle_def xrc_post_send_def xrc_finish_def xrc_client_termination_def
      send_termination_ack_def recv_termination_ack_def TERMINATION_MSG_def XMSG_SIZE_def xrc_close_ctx_def
      xrc_client_triples_def xrc_close_rest_def xrc_qpi_def xrc_find_qp_def cstr_def to_int32_def NUL_def wide_stack_def length_xdest_msg scan_xdest_cnt zero_xdest_def)

section \<open>Properties\<close>

text \<open>
  C32: A process of xsrq_pingpong releases nothing it does not hold, whatever the adapter and the network
  answer and whichever status it returns; when it returns 0, after it has closed everything one by
  one, nothing is left but sockets with the descriptor 0, which \<open>pp_close_ctx\<close> takes for no socket.
\<close>

theorem xrc_main_gives_back:
  assumes "held h = Some M"
    and "run_state (xrc_main E fuel k addrs devs psize cas args) h = (r, h')"
  shows "\<exists>M'. held h' = Some M' \<and> (r = Some 0 \<longrightarrow> (\<exists>n. M' = M + replicate_mset n (Fd, 0)))"
  using satD [OF sat_xrc_main assms] by (simp add: sockets_left_def)

theorem xrc_main_gives_back_witness:
  "\<exists>n. held (snd (run_state (xrc_main xrc_env (Suc (Suc 0)) wide_stack [1] [(''mlx5_0'', 7)] 4096
     [(CHR ''n'', ''1'')] [''srv'']) [])) = Some (replicate_mset n (Fd, 0))"
  using xrc_main_gives_back [OF _ surjective_pairing, of "[]" "{#}"] xrc_demo_main by fastforce

end
