(* ===== verification/XrcSystem.thy ===== *)
theory XrcSystem
  imports XrcResources
begin

text \<open>
  A server of xsrq_pingpong.c and its clients, connected and in their loops: each step hands one
  message that has been sent, and not yet received, to its receiver, which runs the body of its loop
  for it.  What has been sent is read off the histories of the processes.  The clients share one XRC
  domain, so a message reaches the shared receive queue its work request names whichever queue pair
  it goes through.
\<close>

section \<open>Processes and steps\<close>

record xrc_proc =
  xp_ctx :: xrc_ctx
  xp_cnt :: int
  xp_hist :: trace

text \<open>\<open>xs_got\<close> counts the messages of each client that the server has received.\<close>

record xrc_sys =
  xs_server :: xrc_proc
  xs_clients :: "xrc_proc list"
  xs_got :: "nat list"

definition sent_to :: "u32 \<Rightarrow> trace \<Rightarrow> nat" where
  "sent_to n h = length (filter (\<lambda>w. swr_remote_srqn w = n) (sent_wrs h))"

definition signaled :: "trace \<Rightarrow> nat" where
  "signaled h = length (filter swr_signaled (sent_wrs h))"

definition xrc_total :: "xrc_proc \<Rightarrow> int" where
  "xrc_total p = to_int32 (y_num_clients (xp_ctx p) * y_num_tests (xp_ctx p))"

text \<open>A completion of the shared receive queue, from the poll that found it on.\<close>

definition xrc_arrive :: "api_env \<Rightarrow> wc \<Rightarrow> xrc_proc \<Rightarrow> xrc_proc" where
  "xrc_arrive E w p = (case run_state (xrc_handle E 1 w (xp_ctx p)) (xp_hist p) of
     (c, h) \<Rightarrow> p\<lparr>xp_ctx := c, xp_cnt := xp_cnt p + 1, xp_hist := h\<rparr>)"

text \<open>A process takes a message while it is in its loop and a receive is posted for it.\<close>

definition can_take :: "xrc_proc \<Rightarrow> bool" where
  "can_take p \<longleftrightarrow> xp_cnt p < xrc_total p \<and> xp_cnt p < recvs (xp_hist p)"

definition to_client_flying :: "xrc_sys \<Rightarrow> nat \<Rightarrow> int" where
  "to_client_flying s j = int (sent_to (x_srqn (y_dests (xp_ctx (xs_server s)) ! j)) (xp_hist (xs_server s)))
     - xp_cnt (xs_clients s ! j)"

definition to_server_flying :: "xrc_sys \<Rightarrow> nat \<Rightarrow> int" where
  "to_server_flying s j =
     int (sent_to (x_srqn (y_dests (xp_ctx (xs_clients s ! j)) ! 0)) (xp_hist (xs_clients s ! j)))
     - int (xs_got s ! j)"

inductive xrc_step :: "api_env \<Rightarrow> xrc_sys \<Rightarrow> xrc_sys \<Rightarrow> bool" for E where
  to_client: "j < length (xs_clients s) \<Longrightarrow> 0 < to_client_flying s j \<Longrightarrow> can_take (xs_clients s ! j) \<Longrightarrow>
    xrc_step E s (s\<lparr>xs_clients := (xs_clients s)[j := xrc_arrive E w (xs_clients s ! j)]\<rparr>)"
| to_server: "j < length (xs_clients s) \<Longrightarrow> 0 < to_server_flying s j \<Longrightarrow> can_take (xs_server s) \<Longrightarrow>
    wc_qp_num w = snd (y_recv_qp (xp_ctx (xs_server s)) ! j) \<Longrightarrow>
    xrc_step E s (s\<lparr>xs_server := xrc_arrive E w (xs_server s), xs_got := (xs_got s)[j := xs_got s ! j + 1]\<rparr>)"

section \<open>The sends of a process\<close>

text \<open>An adapter that accepts what is posted.\<close>

definition accepts :: "api_env \<Rightarrow> bool" where
  "accepts E \<longleftrightarrow> (\<forall>h q w. ret E h (Data (Post_send q w)) = 0) \<and> (\<forall>h q w. ret E h (Data (Post_srq_recv q w)) = 0)"

text \<open>The counters of a context say what has been sent to whom, and which sends were the last ones.\<close>

definition counters_ok :: "xrc_ctx \<Rightarrow> trace \<Rightarrow> bool" where
  "counters_ok c h \<longleftrightarrow> distinct (map x_srqn (y_dests c))
     \<and> (\<forall>d \<in> set (y_dests c). x_pp_cnt d \<le> y_num_tests c \<and> int (sent_to (x_srqn d) h) = x_pp_cnt d)
     \<and> signaled h = length (filter (\<lambda>d. x_pp_cnt d = y_num_tests c) (y_dests c))"

definition count_up :: "nat \<Rightarrow> xrc_ctx \<Rightarrow> xrc_ctx" where
  "count_up i c = upd_dest i (\<lambda>d. d\<lparr>x_pp_cnt := x_pp_cnt d + 1\<rparr>) c"

lemma length_filter_update:
  "i < length xs \<Longrightarrow> \<not> P (xs ! i) \<Longrightarrow>
   length (filter P (xs[i := y])) = length (filter P xs) + (if P y then 1 else 0)"
proof -
  assume i: "i < length xs" and "\<not> P (xs ! i)"
  then have "length (filter P xs) = length (filter P (take i xs)) + length (filter P (drop (Suc i) xs))"
    by (subst id_take_nth_drop [OF i]) simp
  then show ?thesis using i by (simp add: upd_conv_take_nth_drop)
qed

lemma count_up_simps [simp]:
  "y_num_tests (count_up i c) = y_num_tests c" "y_num_clients (count_up i c) = y_num_clients c"
  "y_recv_qp (count_up i c) = y_recv_qp c" "length (y_dests (count_up i c)) = length (y_dests c)"
  by (simp_all add: count_up_def upd_dest_def)

lemma nth_count_up:
  "j < length (y_dests c) \<Longrightarrow> x_pp_cnt (y_dests (count_up i c) ! j) = x_pp_cnt (y_dests c ! j) + (if j = i then 1 else 0)"
  "x_srqn (y_dests (count_up i c) ! j) = x_srqn (y_dests c ! j)"
  by (auto simp: count_up_def upd_dest_def nth_list_update)
    (cases "i < length (y_dests c)"; cases "j = i"; simp add: list_update_beyond)

lemma history_simps:
  "sent_to n ((Data (Post_send q [w]), 0) # h) = sent_to n h + (if swr_remote_srqn w = n then 1 else 0)"
  "signaled ((Data (Post_send q [w]), 0) # h) = signaled h + (if swr_signaled w then 1 else 0)"
  "sent_to n ((Data (Post_srq_recv q ws), r) # h) = sent_to n h"
  "signaled ((Data (Post_srq_recv q ws), r) # h) = signaled h"
  by (simp_all add: sent_to_def signaled_def)

lemma run_post_send:
  assumes "accepts E"
  shows "run_state (xrc_post_send E c i) h =
    ((0, count_up i c), (Data (Post_send (fst (y_send_qp c ! xrc_qpi c i)) [xrc_send_wr c i]), 0) # h)"
  using assms by (simp add: xrc_post_send_def accepts_def run_simps count_up_def upd_dest_def)

lemma counters_ok_send:
  assumes "counters_ok c h" and i: "i < length (y_dests c)" and lt: "x_pp_cnt (y_dests c ! i) < y_num_tests c"
  shows "counters_ok (count_up i c) ((Data (Post_send q [xrc_send_wr c i]), 0) # h)"
proof -
  let ?ds = "y_dests c" and ?h = "(Data (Post_send q [xrc_send_wr c i]), 0) # h"
  have dist: "distinct (map x_srqn ?ds)" and each: "\<And>j. j < length ?ds \<Longrightarrow>
      x_pp_cnt (?ds ! j) \<le> y_num_tests c \<and> int (sent_to (x_srqn (?ds ! j)) h) = x_pp_cnt (?ds ! j)"
    and sig: "signaled h = length (filter (\<lambda>d. x_pp_cnt d = y_num_tests c) ?ds)"
    using assms(1) by (simp_all add: counters_ok_def)
  have same: "x_srqn (?ds ! i) = x_srqn (?ds ! j) \<longleftrightarrow> j = i" if "j < length ?ds" for j
    using nth_eq_iff_index_eq [OF dist, of i j] i that by auto
  have "x_pp_cnt (y_dests (count_up i c) ! j) \<le> y_num_tests c
      \<and> int (sent_to (x_srqn (y_dests (count_up i c) ! j)) ?h) = x_pp_cnt (y_dests (count_up i c) ! j)"
    if j: "j < length ?ds" for j
    using each [OF j] lt same [OF j] by (auto simp: nth_count_up j history_simps xrc_send_wr_def)
  moreover have "map x_srqn (y_dests (count_up i c)) = map x_srqn ?ds"
    by (rule nth_equalityI) (simp_all add: nth_count_up)
  moreover have "signaled ?h = length (filter (\<lambda>d. x_pp_cnt d = y_num_tests c) (y_dests (count_up i c)))"
    using lt i by (auto simp: history_simps sig xrc_send_wr_def count_up_def upd_dest_def length_filter_update)
  ultimately show ?thesis using dist by (auto simp: counters_ok_def all_set_conv_all_nth)
qed

text \<open>The body of the loop for one completion of the queue pair \<open>i\<close>.\<close>

lemma run_xrc_handle:
  assumes "accepts E" and "xrc_find_qp c (wc_qp_num w) = i"
  shows "run_state (xrc_handle E 1 w c) h =
    (let h = (Data (Post_srq_recv (y_srq c) [xrc_recv_wr c]), 0) # h in
     if x_pp_cnt (y_dests c ! i) < y_num_tests c
     then (count_up i c, (Data (Post_send (fst (y_send_qp c ! xrc_qpi c i)) [xrc_send_wr c i]), 0) # h)
     else (c, h))"
proof -
  have "run_state (xrc_post_recv E c 1) h = (0, (Data (Post_srq_recv (y_srq c) [xrc_recv_wr c]), 0) # h)" for h
    using assms(1) by (simp add: xrc_post_recv_def accepts_def run_simps)
  then show ?thesis using assms(2) by (simp add: xrc_handle_def run_bind run_return run_post_send [OF assms(1)] Let_def)
qed

text \<open>What a completion does to a process.\<close>

lemma xrc_arrive_facts:
  assumes "accepts E" and "xrc_find_qp (xp_ctx p) (wc_qp_num w) = i" and "i < length (y_dests (xp_ctx p))"
    and "counters_ok (xp_ctx p) (xp_hist p)"
  defines "p' \<equiv> xrc_arrive E w p"
  shows "counters_ok (xp_ctx p') (xp_hist p')" and "xp_cnt p' = xp_cnt p + 1"
    and "recvs (xp_hist p') = recvs (xp_hist p) + 1"
    and "y_num_tests (xp_ctx p') = y_num_tests (xp_ctx p)" "y_num_clients (xp_ctx p') = y_num_clients (xp_ctx p)"
      "y_recv_qp (xp_ctx p') = y_recv_qp (xp_ctx p)" "length (y_dests (xp_ctx p')) = length (y_dests (xp_ctx p))"
    and "\<And>j. j < length (y_dests (xp_ctx p)) \<Longrightarrow> x_srqn (y_dests (xp_ctx p') ! j) = x_srqn (y_dests (xp_ctx p) ! j)"
    and "\<And>j. j < length (y_dests (xp_ctx p)) \<Longrightarrow> x_pp_cnt (y_dests (xp_ctx p') ! j) =
      (if j = i then min (y_num_tests (xp_ctx p)) (x_pp_cnt (y_dests (xp_ctx p) ! j) + 1) else x_pp_cnt (y_dests (xp_ctx p) ! j))"
proof -
  let ?c = "xp_ctx p" and ?h = "(Data (Post_srq_recv (y_srq (xp_ctx p)) [xrc_recv_wr (xp_ctx p)]), 0) # xp_hist p"
  have post: "counters_ok ?c ?h" using assms(4) by (simp add: counters_ok_def history_simps)
  have le: "x_pp_cnt (y_dests ?c ! i) \<le> y_num_tests ?c" using assms(3,4) by (simp add: counters_ok_def)
  have p': "p' = (if x_pp_cnt (y_dests ?c ! i) < y_num_tests ?c
      then p\<lparr>xp_ctx := count_up i ?c, xp_cnt := xp_cnt p + 1,
        xp_hist := (Data (Post_send (fst (y_send_qp ?c ! xrc_qpi ?c i)) [xrc_send_wr ?c i]), 0) # ?h\<rparr>
      else p\<lparr>xp_cnt := xp_cnt p + 1, xp_hist := ?h\<rparr>)"
    by (simp add: p'_def xrc_arrive_def run_xrc_handle [OF assms(1,2)] Let_def)
  show "counters_ok (xp_ctx p') (xp_hist p')"
    using post counters_ok_send [OF post assms(3)] by (simp add: p')
  show "xp_cnt p' = xp_cnt p + 1" "recvs (xp_hist p') = recvs (xp_hist p) + 1"
    "y_num_tests (xp_ctx p') = y_num_tests ?c" "y_num_clients (xp_ctx p') = y_num_clients ?c"
    "y_recv_qp (xp_ctx p') = y_recv_qp ?c" "length (y_dests (xp_ctx p')) = length (y_dests ?c)"
    by (simp_all add: p')
  show "x_srqn (y_dests (xp_ctx p') ! j) = x_srqn (y_dests ?c ! j)" if "j < length (y_dests ?c)" for j
    by (simp add: p' nth_count_up)
  show "x_pp_cnt (y_dests (xp_ctx p') ! j) =
      (if j = i then min (y_num_tests ?c) (x_pp_cnt (y_dests ?c ! j) + 1) else x_pp_cnt (y_dests ?c ! j))"
    if "j < length (y_dests ?c)" for j
    using that le by (auto simp: p' nth_count_up)
qed

lemma xrc_find_from:
  "distinct (map snd qs) \<Longrightarrow> j < length qs \<Longrightarrow> xrc_find_from i qs (snd (qs ! j)) = i + j"
proof (induction qs arbitrary: i j)
  case (Cons q qs)
  then show ?case by (cases j) (auto simp: image_iff)
qed simp

lemma xrc_find_qp:
  assumes "distinct (map snd (y_recv_qp c))" and "int (length (y_recv_qp c)) = y_num_clients c"
    and "j < length (y_recv_qp c)"
  shows "xrc_find_qp c (snd (y_recv_qp c ! j)) = j"
  using assms xrc_find_from [OF assms(1,3)] by (auto simp: xrc_find_qp_def)

section \<open>The invariant\<close>

definition xrc_server_ok :: "int \<Rightarrow> int \<Rightarrow> xrc_proc \<Rightarrow> bool" where
  "xrc_server_ok N T p \<longleftrightarrow> y_num_clients (xp_ctx p) = N \<and> y_num_tests (xp_ctx p) = T
     \<and> int (length (y_recv_qp (xp_ctx p))) = N \<and> distinct (map snd (y_recv_qp (xp_ctx p)))
     \<and> int (length (y_dests (xp_ctx p))) = N \<and> counters_ok (xp_ctx p) (xp_hist p)
     \<and> recvs (xp_hist p) = N + xp_cnt p"

definition xrc_client_ok :: "int \<Rightarrow> xrc_proc \<Rightarrow> bool" where
  "xrc_client_ok T p \<longleftrightarrow> y_num_clients (xp_ctx p) = 1 \<and> y_num_tests (xp_ctx p) = T
     \<and> length (y_dests (xp_ctx p)) = 1 \<and> counters_ok (xp_ctx p) (xp_hist p)
     \<and> recvs (xp_hist p) = 1 + xp_cnt p \<and> x_pp_cnt (y_dests (xp_ctx p) ! 0) = xp_cnt p"

text \<open>The exchange with one client: \<open>g\<close> messages of it received, \<open>r\<close> by it, \<open>n\<close> sent to it.\<close>

definition ping_pong_ok :: "int \<Rightarrow> int \<Rightarrow> int \<Rightarrow> int \<Rightarrow> bool" where
  "ping_pong_ok T g r n \<longleftrightarrow> 0 \<le> g \<and> g \<le> r \<and> r \<le> n \<and> n = min (g + 1) T"

definition xrc_sys_ok :: "int \<Rightarrow> int \<Rightarrow> xrc_sys \<Rightarrow> bool" where
  "xrc_sys_ok N T s \<longleftrightarrow> int (length (xs_clients s)) = N \<and> int (length (xs_got s)) = N
     \<and> xrc_server_ok N T (xs_server s) \<and> xp_cnt (xs_server s) = int (sum_list (xs_got s))
     \<and> (\<forall>j < length (xs_clients s). xrc_client_ok T (xs_clients s ! j)
          \<and> ping_pong_ok T (int (xs_got s ! j)) (xp_cnt (xs_clients s ! j))
               (x_pp_cnt (y_dests (xp_ctx (xs_server s)) ! j)))"

text \<open>How far the exchange is: the messages received, by the server and by the clients.\<close>

definition progress :: "xrc_sys \<Rightarrow> int" where
  "progress s = xp_cnt (xs_server s) + sum_list (map xp_cnt (xs_clients s))"

lemma xrc_server_arrives:
  assumes "accepts E" and "xrc_server_ok N T p" and "int j < N"
    and "wc_qp_num w = snd (y_recv_qp (xp_ctx p) ! j)"
  shows "xrc_server_ok N T (xrc_arrive E w p)" and "xp_cnt (xrc_arrive E w p) = xp_cnt p + 1"
    and "\<And>i. int i < N \<Longrightarrow> x_pp_cnt (y_dests (xp_ctx (xrc_arrive E w p)) ! i) =
      (if i = j then min T (x_pp_cnt (y_dests (xp_ctx p) ! i) + 1) else x_pp_cnt (y_dests (xp_ctx p) ! i))"
proof -
  have find: "xrc_find_qp (xp_ctx p) (wc_qp_num w) = j" and j: "j < length (y_dests (xp_ctx p))"
    and ok: "counters_ok (xp_ctx p) (xp_hist p)"
    using assms(2-4) by (auto simp: xrc_server_ok_def intro!: xrc_find_qp)
  note arrive = xrc_arrive_facts [OF assms(1) find j ok]
  show "xrc_server_ok N T (xrc_arrive E w p)" "xp_cnt (xrc_arrive E w p) = xp_cnt p + 1"
    using assms(2) arrive by (simp_all add: xrc_server_ok_def)
  show "x_pp_cnt (y_dests (xp_ctx (xrc_arrive E w p)) ! i) =
      (if i = j then min T (x_pp_cnt (y_dests (xp_ctx p) ! i) + 1) else x_pp_cnt (y_dests (xp_ctx p) ! i))"
    if "int i < N" for i
    using arrive(9) [of i] that assms(2) by (simp add: xrc_server_ok_def)
qed

lemma xrc_client_arrives:
  assumes "accepts E" and "xrc_client_ok T p" and "xp_cnt p < T"
  shows "xrc_client_ok T (xrc_arrive E w p)" and "xp_cnt (xrc_arrive E w p) = xp_cnt p + 1"
proof -
  have find: "xrc_find_qp (xp_ctx p) (wc_qp_num w) = 0" and j: "0 < length (y_dests (xp_ctx p))"
    and ok: "counters_ok (xp_ctx p) (xp_hist p)"
    using assms(2) by (auto simp: xrc_client_ok_def xrc_find_qp_def)
  note arrive = xrc_arrive_facts [OF assms(1) find j ok]
  show "xrc_client_ok T (xrc_arrive E w p)" "xp_cnt (xrc_arrive E w p) = xp_cnt p + 1"
    using assms(2,3) arrive by (simp_all add: xrc_client_ok_def)
qed

lemma to_client_flying_eq:
  assumes "xrc_sys_ok N T s" and "j < length (xs_clients s)"
  shows "to_client_flying s j = x_pp_cnt (y_dests (xp_ctx (xs_server s)) ! j) - xp_cnt (xs_clients s ! j)"
  using assms by (simp add: to_client_flying_def xrc_sys_ok_def xrc_server_ok_def counters_ok_def)

lemma to_server_flying_eq:
  assumes "xrc_sys_ok N T s" and "j < length (xs_clients s)"
  shows "to_server_flying s j = xp_cnt (xs_clients s ! j) - int (xs_got s ! j)"
proof -
  have ok: "xrc_client_ok T (xs_clients s ! j)" using assms by (simp add: xrc_sys_ok_def)
  then have "y_dests (xp_ctx (xs_clients s ! j)) ! 0 \<in> set (y_dests (xp_ctx (xs_clients s ! j)))"
    by (simp add: xrc_client_ok_def)
  then show ?thesis using ok by (simp add: to_server_flying_def xrc_client_ok_def counters_ok_def)
qed

lemma sum_list_up:
  "j < length xs \<Longrightarrow> sum_list (xs[j := xs ! j + 1]) = sum_list xs + (1 :: 'a :: semiring_1)"
proof (induction xs arbitrary: j)
  case (Cons x xs)
  then show ?case by (cases j) (simp_all add: add_ac)
qed simp

lemma xrc_step_ok:
  assumes "xrc_step E s s'" and "accepts E" and ok: "xrc_sys_ok N T s" and "0 < N" "1 \<le> T" "N * T < 2 ^ 31"
  shows "xrc_sys_ok N T s' \<and> progress s' = progress s + 1"
  using assms(1)
proof cases
  case (to_client j w)
  let ?p = "xs_clients s ! j"
  have cl: "xrc_client_ok T ?p" and pp: "ping_pong_ok T (int (xs_got s ! j)) (xp_cnt ?p)
      (x_pp_cnt (y_dests (xp_ctx (xs_server s)) ! j))"
    using ok to_client(2) by (simp_all add: xrc_sys_ok_def)
  have lt: "xp_cnt ?p < x_pp_cnt (y_dests (xp_ctx (xs_server s)) ! j)"
    using to_client(3) to_client_flying_eq [OF ok to_client(2)] by simp
  then have "xp_cnt ?p < T" using pp by (simp add: ping_pong_ok_def)
  note arrive = xrc_client_arrives [OF assms(2) cl this, of w]
  have "xrc_sys_ok N T s'" using ok to_client(2) arrive pp lt
    by (auto simp: to_client(1) xrc_sys_ok_def nth_list_update ping_pong_ok_def)
  moreover have "progress s' = progress s + 1"
    using to_client(2) arrive(2) sum_list_up [of j "map xp_cnt (xs_clients s)"]
    by (simp add: to_client(1) progress_def map_update)
  ultimately show ?thesis by simp
next
  case (to_server j w)
  let ?p = "xs_server s"
  have sv: "xrc_server_ok N T ?p" and jN: "int j < N" and jl: "j < length (xs_got s)"
    using ok to_server(2) by (simp_all add: xrc_sys_ok_def)
  note arrive = xrc_server_arrives [OF assms(2) sv jN to_server(5)]
  have lt: "int (xs_got s ! j) < xp_cnt (xs_clients s ! j)"
    using to_server(3) to_server_flying_eq [OF ok to_server(2)] by simp
  have "ping_pong_ok T (int ((xs_got s)[j := xs_got s ! j + 1] ! i)) (xp_cnt (xs_clients s ! i))
      (x_pp_cnt (y_dests (xp_ctx (xrc_arrive E w ?p)) ! i))" if "i < length (xs_clients s)" for i
  proof -
    have "ping_pong_ok T (int (xs_got s ! i)) (xp_cnt (xs_clients s ! i)) (x_pp_cnt (y_dests (xp_ctx ?p) ! i))"
      and "int i < N" using ok that by (simp_all add: xrc_sys_ok_def)
    then show ?thesis using arrive(3) [of i] lt jl
      by (auto simp: ping_pong_ok_def nth_list_update)
  qed
  moreover have "int (sum_list ((xs_got s)[j := xs_got s ! j + 1])) = int (sum_list (xs_got s)) + 1"
    using sum_list_up [OF jl] by simp
  ultimately have "xrc_sys_ok N T s'" using ok arrive(1,2) by (simp add: to_server(1) xrc_sys_ok_def)
  then show ?thesis using arrive(2) by (simp add: to_server(1) progress_def)
qed

section \<open>Progress\<close>

lemma sum_bounds:
  "list_all (\<lambda>x. x \<le> T) xs \<Longrightarrow> sum_list xs \<le> int (length xs) * T"
  "list_all (\<lambda>x. x \<le> T) xs \<Longrightarrow> sum_list xs = int (length xs) * T \<Longrightarrow> list_all (\<lambda>x. x = T) xs"
proof -
  show le: "list_all (\<lambda>x. x \<le> T) xs \<Longrightarrow> sum_list xs \<le> int (length xs) * T" for xs
    by (induction xs) (auto simp: algebra_simps)
  show "list_all (\<lambda>x. x \<le> T) xs \<Longrightarrow> sum_list xs = int (length xs) * T \<Longrightarrow> list_all (\<lambda>x. x = T) xs"
  proof (induction xs)
    case (Cons x xs)
    then have "x \<le> T" "sum_list xs \<le> int (length xs) * T" "x + sum_list xs = T + int (length xs) * T"
      using le [of xs] by (simp_all add: algebra_simps)
    then show ?case using Cons by (auto simp: algebra_simps)
  qed simp
qed

lemma xrc_totals:
  assumes "xrc_sys_ok N T s" and "0 < N" "1 \<le> T" "N * T < 2 ^ 31"
  shows "xrc_total (xs_server s) = N * T" and "j < length (xs_clients s) \<Longrightarrow> xrc_total (xs_clients s ! j) = T"
proof -
  have "1 * T \<le> N * T" using assms(2,3) by (intro mult_right_mono) simp_all
  then have "- (2 ^ 31) \<le> N * T" "- (2 ^ 31) \<le> T" "T < 2 ^ 31" using assms(3,4) by linarith+
  then have "to_int32 (N * T) = N * T" "to_int32 T = T" using assms(4) by (blast intro: to_int32_id)+
  then show "xrc_total (xs_server s) = N * T"
    and "j < length (xs_clients s) \<Longrightarrow> xrc_total (xs_clients s ! j) = T"
    using assms(1) by (simp_all add: xrc_total_def xrc_sys_ok_def xrc_server_ok_def xrc_client_ok_def)
qed

lemma xrc_bounds:
  assumes "xrc_sys_ok N T s"
  shows "list_all (\<lambda>g. g \<le> T) (map int (xs_got s))" and "list_all (\<lambda>r. r \<le> T) (map xp_cnt (xs_clients s))"
    and "xp_cnt (xs_server s) = sum_list (map int (xs_got s))"
proof -
  have "sum_list (map int gs) = int (sum_list gs)" for gs by (induction gs) simp_all
  then show "xp_cnt (xs_server s) = sum_list (map int (xs_got s))"
    using assms by (simp add: xrc_sys_ok_def)
  show "list_all (\<lambda>g. g \<le> T) (map int (xs_got s))" "list_all (\<lambda>r. r \<le> T) (map xp_cnt (xs_clients s))"
    using assms by (fastforce simp: list_all_length xrc_sys_ok_def ping_pong_ok_def)+
qed

lemma xrc_progress:
  assumes ok: "xrc_sys_ok N T s" and "0 < N" "1 \<le> T" "N * T < 2 ^ 31"
  shows "progress s \<le> 2 * (N * T)"
    and "progress s < 2 * (N * T) \<Longrightarrow> \<exists>s'. xrc_step E s s'"
    and "progress s = 2 * (N * T) \<Longrightarrow>
      xp_cnt (xs_server s) = N * T \<and> (\<forall>j < length (xs_clients s). xp_cnt (xs_clients s ! j) = T)"
proof -
  have N: "int (length (xs_got s)) = N" "int (length (xs_clients s)) = N" using ok by (simp_all add: xrc_sys_ok_def)
  note b = xrc_bounds [OF ok] and total = xrc_totals [OF assms]
  have g: "xp_cnt (xs_server s) \<le> N * T" and r: "sum_list (map xp_cnt (xs_clients s)) \<le> N * T"
    using sum_bounds(1) [OF b(1)] sum_bounds(1) [OF b(2)] N b(3) by simp_all
  then show "progress s \<le> 2 * (N * T)" by (simp add: progress_def)
  show "xp_cnt (xs_server s) = N * T \<and> (\<forall>j < length (xs_clients s). xp_cnt (xs_clients s ! j) = T)"
    if "progress s = 2 * (N * T)"
    using that g r sum_bounds(2) [OF b(2)] N by (auto simp: progress_def list_all_length)
  show "\<exists>s'. xrc_step E s s'" if lt: "progress s < 2 * (N * T)"
  proof -
    have "\<exists>j < length (xs_clients s). int (xs_got s ! j) < T"
    proof (rule ccontr)
      assume "\<not> ?thesis"
      then have all: "\<And>j. j < length (xs_clients s) \<Longrightarrow> int (xs_got s ! j) = T \<and> xp_cnt (xs_clients s ! j) = T"
        using ok by (fastforce simp: xrc_sys_ok_def ping_pong_ok_def)
      have "map int (xs_got s) = replicate (length (xs_clients s)) T"
        "map xp_cnt (xs_clients s) = replicate (length (xs_clients s)) T"
        using all N by (auto intro!: nth_equalityI)
      then show False using lt N b(3) by (simp add: progress_def sum_list_replicate)
    qed
    then obtain j where j: "j < length (xs_clients s)" and gT: "int (xs_got s ! j) < T" by blast
    let ?p = "xs_clients s ! j"
    have cl: "xrc_client_ok T ?p" and pp: "ping_pong_ok T (int (xs_got s ! j)) (xp_cnt ?p)
        (x_pp_cnt (y_dests (xp_ctx (xs_server s)) ! j))" and sv: "xrc_server_ok N T (xs_server s)"
      using ok j by (simp_all add: xrc_sys_ok_def)
    show ?thesis
    proof (cases "int (xs_got s ! j) < xp_cnt ?p")
      case True
      have "xp_cnt (xs_server s) < N * T"
      proof (rule ccontr)
        assume "\<not> ?thesis"
        then have "list_all (\<lambda>x. x = T) (map int (xs_got s))" using g b(3) N sum_bounds(2) [OF b(1)] by simp
        then show False using gT j N by (simp add: list_all_length)
      qed
      then have "can_take (xs_server s)"
        using sv total(1) assms(2) by (simp add: can_take_def xrc_server_ok_def)
      from to_server [OF j _ this, of "\<lparr>wc_wr_id = 0, wc_status = 0, wc_opcode = WC_RECV, wc_imm = 0,
          wc_qp_num = snd (y_recv_qp (xp_ctx (xs_server s)) ! j)\<rparr>"] True
      show ?thesis by (auto simp: to_server_flying_eq [OF ok j])
    next
      case False
      then have "xp_cnt ?p < x_pp_cnt (y_dests (xp_ctx (xs_server s)) ! j)" "xp_cnt ?p < T"
        using pp gT by (simp_all add: ping_pong_ok_def)
      then show ?thesis using cl to_client [OF j] total(2) [OF j]
        by (auto simp: to_client_flying_eq [OF ok j] can_take_def xrc_client_ok_def)
    qed
  qed
qed

section \<open>The start\<close>

text \<open>
  A process that has posted its receives and connected: a destination for each peer, nothing sent.
  The numbers of the peers' shared receive queues and of its own receiving queue pairs are different.
\<close>

fun xrc_connected :: "int \<Rightarrow> int \<Rightarrow> xrc_ctx \<times> trace \<Rightarrow> bool" where
  "xrc_connected N T (c, h) \<longleftrightarrow> y_num_clients c = N \<and> y_num_tests c = T
     \<and> int (length (y_recv_qp c)) = N \<and> distinct (map snd (y_recv_qp c))
     \<and> int (length (y_dests c)) = N \<and> distinct (map x_srqn (y_dests c))
     \<and> list_all (\<lambda>d. x_pp_cnt d = 0) (y_dests c) \<and> sent_wrs h = [] \<and> recvs h = N"

fun xrc_boot :: "api_env \<Rightarrow> xrc_ctx \<times> trace \<Rightarrow> (xrc_ctx \<times> trace) list \<Rightarrow> xrc_sys" where
  "xrc_boot E (c, h) cls =
    \<lparr>xs_server = (case run_state (xrc_first_sends E c [0..<nat (y_num_clients c)]) h of
        (c, h) \<Rightarrow> \<lparr>xp_ctx = c, xp_cnt = 0, xp_hist = h\<rparr>),
     xs_clients = map (\<lambda>(c, h). \<lparr>xp_ctx = c, xp_cnt = 0, xp_hist = h\<rparr>) cls,
     xs_got = replicate (length cls) 0\<rparr>"

lemma counters_ok_start: "xrc_connected N T (c, h) \<Longrightarrow> 1 \<le> T \<Longrightarrow> counters_ok c h"
  by (auto simp: counters_ok_def sent_to_def signaled_def list_all_iff)

lemma run_first_sends:
  assumes "accepts E"
  shows "counters_ok c h \<Longrightarrow> distinct js \<Longrightarrow>
    (\<And>j. j \<in> set js \<Longrightarrow> j < length (y_dests c) \<and> x_pp_cnt (y_dests c ! j) < y_num_tests c) \<Longrightarrow>
    \<exists>c' h'. run_state (xrc_first_sends E c js) h = (c', h') \<and> counters_ok c' h' \<and> recvs h' = recvs h
      \<and> y_num_tests c' = y_num_tests c \<and> y_num_clients c' = y_num_clients c \<and> y_recv_qp c' = y_recv_qp c
      \<and> length (y_dests c') = length (y_dests c)
      \<and> (\<forall>j < length (y_dests c). x_pp_cnt (y_dests c' ! j) = x_pp_cnt (y_dests c ! j) + (if j \<in> set js then 1 else 0))"
proof (induction js arbitrary: c h)
  case Nil
  then show ?case by (simp add: run_return)
next
  case (Cons i js)
  let ?h = "(Data (Post_send (fst (y_send_qp c ! xrc_qpi c i)) [xrc_send_wr c i]), 0) # h"
  have i: "i < length (y_dests c)" "x_pp_cnt (y_dests c ! i) < y_num_tests c" using Cons.prems(3) [of i] by simp_all
  have "j < length (y_dests (count_up i c)) \<and> x_pp_cnt (y_dests (count_up i c) ! j) < y_num_tests (count_up i c)"
    if "j \<in> set js" for j
    using Cons.prems(2) Cons.prems(3) [of j] that by (auto simp: nth_count_up)
  from Cons.IH [OF counters_ok_send [OF Cons.prems(1) i, of "fst (y_send_qp c ! xrc_qpi c i)"] _ this] Cons.prems(2)
  obtain c' h' where "run_state (xrc_first_sends E (count_up i c) js) ?h = (c', h')" and "counters_ok c' h'"
    "recvs h' = recvs ?h" "y_num_tests c' = y_num_tests c" "y_num_clients c' = y_num_clients c"
    "y_recv_qp c' = y_recv_qp c" "length (y_dests c') = length (y_dests c)"
    "\<forall>j < length (y_dests c). x_pp_cnt (y_dests c' ! j)
       = x_pp_cnt (y_dests (count_up i c) ! j) + (if j \<in> set js then 1 else 0)"
    by auto
  moreover have "i \<notin> set js" using Cons.prems(2) by simp
  ultimately show ?case by (auto simp: run_bind run_post_send [OF assms] nth_count_up)
qed

lemma xrc_boot_ok:
  assumes "accepts E" and sv: "xrc_connected N T (c, h)" and cls: "\<And>p. p \<in> set cls \<Longrightarrow> xrc_connected 1 T p"
    and N: "int (length cls) = N" and T: "1 \<le> T"
  shows "xrc_sys_ok N T (xrc_boot E (c, h) cls)" and "progress (xrc_boot E (c, h) cls) = 0"
proof -
  have start: "counters_ok c h" by (rule counters_ok_start [OF sv T])
  have z: "j < length (y_dests c) \<and> x_pp_cnt (y_dests c ! j) = 0" if "j < nat N" for j
    using sv that by (auto simp: list_all_length)
  have js: "j < length (y_dests c) \<and> x_pp_cnt (y_dests c ! j) < y_num_tests c"
    if "j \<in> set [0..<nat (y_num_clients c)]" for j
    using z [of j] that sv T by simp
  have "distinct [0..<nat (y_num_clients c)]" by simp
  from run_first_sends [OF assms(1) start this js]
  obtain c' h' where run: "run_state (xrc_first_sends E c [0..<nat (y_num_clients c)]) h = (c', h')"
    and ok: "counters_ok c' h'" "recvs h' = recvs h" "y_num_tests c' = y_num_tests c" "y_num_clients c' = y_num_clients c"
      "y_recv_qp c' = y_recv_qp c" "length (y_dests c') = length (y_dests c)"
    and cnt: "\<forall>j < length (y_dests c). x_pp_cnt (y_dests c' ! j)
       = x_pp_cnt (y_dests c ! j) + (if j \<in> set [0..<nat (y_num_clients c)] then 1 else 0)"
    by auto
  have "xrc_server_ok N T \<lparr>xp_ctx = c', xp_cnt = 0, xp_hist = h'\<rparr>"
    using sv ok by (simp add: xrc_server_ok_def)
  moreover have "xrc_client_ok T (case p of (c, h) \<Rightarrow> \<lparr>xp_ctx = c, xp_cnt = 0, xp_hist = h\<rparr>)" if "p \<in> set cls" for p
    using cls [OF that] counters_ok_start T by (cases p) (auto simp: xrc_client_ok_def list_all_length)
  moreover have "x_pp_cnt (y_dests c' ! j) = 1" if "j < length cls" for j
    using cnt z [of j] that N sv by simp
  ultimately show "xrc_sys_ok N T (xrc_boot E (c, h) cls)"
    using N T by (auto simp: run xrc_sys_ok_def ping_pong_ok_def sum_list_replicate case_prod_unfold)
  show "progress (xrc_boot E (c, h) cls) = 0"
    by (simp add: run progress_def case_prod_unfold comp_def)
qed

lemma xrc_run_ok:
  assumes "(xrc_step E ^^ n) s s'" and "accepts E" "0 < N" "1 \<le> T" "N * T < 2 ^ 31" and "xrc_sys_ok N T s"
  shows "xrc_sys_ok N T s' \<and> progress s' = progress s + int n"
  using assms(1)
proof (induction n arbitrary: s')
  case 0
  then show ?case using assms(6) by simp
next
  case (Suc n)
  then obtain t where t: "(xrc_step E ^^ n) s t" "xrc_step E t s'" by auto
  then show ?case using Suc.IH [OF t(1)] xrc_step_ok [OF t(2) assms(2) _ assms(3-5)] by simp
qed

text \<open>A run of any length up to the end exists.\<close>

lemma xrc_runs:
  assumes "xrc_sys_ok N T s" and "progress s = 0" and "accepts E" "0 < N" "1 \<le> T" "N * T < 2 ^ 31"
  shows "int n \<le> 2 * (N * T) \<Longrightarrow> \<exists>s'. (xrc_step E ^^ n) s s'"
proof (induction n)
  case (Suc n)
  then obtain t where t: "(xrc_step E ^^ n) s t" by auto
  then have "xrc_sys_ok N T t \<and> progress t = int n" using xrc_run_ok [OF t assms(3-6,1)] assms(2) by simp
  then obtain s' where "xrc_step E t s'" using xrc_progress(2) [of N T t, OF _ assms(4-6)] Suc.prems by auto
  with t show ?case by (auto intro: relcompI)
qed auto

text \<open>A server with two clients and three tests.\<close>

definition demo_xserver :: "xrc_ctx \<times> trace" where
  "demo_xserver = (xrc_init\<lparr>y_num_clients := 2, y_num_tests := 3, y_recv_qp := [(11, 0x51), (12, 0x52)],
     y_send_qp := [(13, 0x53), (14, 0x54)], y_dests := [zero_xdest\<lparr>x_srqn := 7\<rparr>, zero_xdest\<lparr>x_srqn := 8\<rparr>]\<rparr>,
     replicate 2 (Data (Post_srq_recv 5 []), 0))"

definition demo_xclient :: "xrc_ctx \<times> trace" where
  "demo_xclient = (xrc_init\<lparr>y_num_clients := 1, y_num_tests := 3, y_recv_qp := [(11, 0x61)],
     y_send_qp := [(13, 0x63)], y_dests := [zero_xdest\<lparr>x_srqn := 9\<rparr>]\<rparr>, [(Data (Post_srq_recv 5 []), 0)])"

lemma demo_xrc:
  "accepts xrc_env" "xrc_connected 2 3 demo_xserver"
  "p \<in> set [demo_xclient, demo_xclient] \<Longrightarrow> xrc_connected 1 3 p"
  by (auto simp: accepts_def xrc_env_def demo_xserver_def demo_xclient_def xrc_init_def zero_xdest_def numeral_2_eq_2)

definition demo_xboot :: xrc_sys where
  "demo_xboot = xrc_boot xrc_env demo_xserver [demo_xclient, demo_xclient]"

lemma demo_xruns: "n \<le> 12 \<Longrightarrow> \<exists>s. (xrc_step xrc_env ^^ n) demo_xboot s"
proof -
  obtain c h where sv: "demo_xserver = (c, h)" by (cases demo_xserver)
  note boot = xrc_boot_ok [OF demo_xrc(1), of 2 3 c h "[demo_xclient, demo_xclient]", OF _ demo_xrc(3)]
  assume "n \<le> 12"
  then show ?thesis using xrc_runs [of 2 3 demo_xboot xrc_env n] boot demo_xrc(1,2) by (simp add: demo_xboot_def sv)
qed

section \<open>Properties\<close>

text \<open>
  C29: A server and its clients finish, in whatever order the messages arrive: with \<open>N\<close> clients and
  \<open>T\<close> tests each, as long as fewer than \<open>2 N T\<close> messages have been taken there is one in flight that
  its receiver, still in its loop and with a receive posted, takes; and after exactly that many
  every process has counted its total, at which its loop ends.
\<close>

theorem xrc_completes:
  assumes "accepts E" and "xrc_connected N T (c, h)" and "\<And>p. p \<in> set cls \<Longrightarrow> xrc_connected 1 T p"
    and "int (length cls) = N" "0 < N" "1 \<le> T" "N * T < 2 ^ 31"
    and "(xrc_step E ^^ n) (xrc_boot E (c, h) cls) s"
  shows "int n \<le> 2 * (N * T) \<and> (int n < 2 * (N * T) \<longrightarrow> (\<exists>s'. xrc_step E s s'))
    \<and> (int n = 2 * (N * T) \<longrightarrow> xp_cnt (xs_server s) = xrc_total (xs_server s)
        \<and> (\<forall>j < length (xs_clients s). xp_cnt (xs_clients s ! j) = xrc_total (xs_clients s ! j)))"
proof -
  note boot = xrc_boot_ok [OF assms(1-4,6)]
  have ok: "xrc_sys_ok N T s" and n: "progress s = int n"
    using xrc_run_ok [OF assms(8,1,5-7) boot(1)] boot(2) by simp_all
  show ?thesis using xrc_progress [OF ok assms(5-7)] xrc_totals [OF ok assms(5-7)] n by auto
qed

theorem xrc_completes_witness:
  "\<exists>s s'. (xrc_step xrc_env ^^ 5) demo_xboot s \<and> xrc_step xrc_env s s'"
proof -
  obtain s where s: "(xrc_step xrc_env ^^ 5) demo_xboot s" using demo_xruns [of 5] by auto
  then show ?thesis
    using xrc_completes [of xrc_env 2 3 "fst demo_xserver" "snd demo_xserver" "[demo_xclient, demo_xclient]" 5 s]
      demo_xrc by (auto simp: demo_xboot_def)
qed

text \<open>
  C30: The receives posted suffice: at any time the server has a receive for each message in flight to
  it, from all its clients together, and each client one for the message in flight to it, so that no
  message has to wait for a receive.
\<close>

theorem xrc_receives_suffice:
  assumes "accepts E" and "xrc_connected N T (c, h)" and "\<And>p. p \<in> set cls \<Longrightarrow> xrc_connected 1 T p"
    and "int (length cls) = N" "0 < N" "1 \<le> T" "N * T < 2 ^ 31"
    and "(xrc_step E ^^ n) (xrc_boot E (c, h) cls) s"
  shows "sum_list (map (to_server_flying s) [0..<length (xs_clients s)])
      \<le> recvs (xp_hist (xs_server s)) - xp_cnt (xs_server s)
    \<and> (\<forall>j < length (xs_clients s). to_client_flying s j
        \<le> recvs (xp_hist (xs_clients s ! j)) - xp_cnt (xs_clients s ! j))"
proof -
  have ok: "xrc_sys_ok N T s"
    using xrc_run_ok [OF assms(8,1,5-7) xrc_boot_ok(1) [OF assms(1-4,6)]] by simp
  then have pp: "ping_pong_ok T (int (xs_got s ! j)) (xp_cnt (xs_clients s ! j))
      (x_pp_cnt (y_dests (xp_ctx (xs_server s)) ! j))" if "j < length (xs_clients s)" for j
    using that by (simp add: xrc_sys_ok_def)
  have "sum_list (map (to_server_flying s) [0..<length (xs_clients s)])
      \<le> sum_list (map (\<lambda>j. 1) [0..<length (xs_clients s)])"
    using pp by (intro sum_list_mono) (fastforce simp: to_server_flying_eq [OF ok] ping_pong_ok_def)
  then have "sum_list (map (to_server_flying s) [0..<length (xs_clients s)]) \<le> N"
    using ok by (simp add: xrc_sys_ok_def sum_list_triv)
  moreover have "to_client_flying s j \<le> 1" if "j < length (xs_clients s)" for j
    using pp [OF that] by (auto simp: to_client_flying_eq [OF ok that] ping_pong_ok_def min_def split: if_splits)
  ultimately show ?thesis using ok
    by (simp add: xrc_sys_ok_def xrc_server_ok_def xrc_client_ok_def)
qed

theorem xrc_receives_suffice_witness:
  "\<exists>s. (xrc_step xrc_env ^^ 5) demo_xboot s \<and> sum_list (map (to_server_flying s) [0..<length (xs_clients s)])
      \<le> recvs (xp_hist (xs_server s)) - xp_cnt (xs_server s)"
proof -
  obtain s where s: "(xrc_step xrc_env ^^ 5) demo_xboot s" using demo_xruns [of 5] by auto
  then show ?thesis
    using xrc_receives_suffice [of xrc_env 2 3 "fst demo_xserver" "snd demo_xserver" "[demo_xclient, demo_xclient]" 5 s]
      demo_xrc by (auto simp: demo_xboot_def)
qed

text \<open>
  The sends that ask for a completion are the last one to each peer: when the exchange is over
  the server has asked for as many as it has clients and a client for one, which is what the
  loop after it waits for, and so the wait ends.
\<close>

theorem xrc_last_sends_signaled:
  assumes "accepts E" and "xrc_connected N T (c, h)" and "\<And>p. p \<in> set cls \<Longrightarrow> xrc_connected 1 T p"
    and "int (length cls) = N" "0 < N" "1 \<le> T" "N * T < 2 ^ 31"
    and "(xrc_step E ^^ n) (xrc_boot E (c, h) cls) s" and "int n = 2 * (N * T)"
  shows "int (signaled (xp_hist (xs_server s))) = y_num_clients (xp_ctx (xs_server s))
    \<and> (\<forall>j < length (xs_clients s). int (signaled (xp_hist (xs_clients s ! j)))
        = y_num_clients (xp_ctx (xs_clients s ! j)))"
proof -
  note boot = xrc_boot_ok [OF assms(1-4,6)]
  have ok: "xrc_sys_ok N T s" and "progress s = 2 * (N * T)"
    using xrc_run_ok [OF assms(8,1,5-7) boot(1)] boot(2) assms(9) by simp_all
  then have cl: "xp_cnt (xs_clients s ! j) = T" if "j < length (xs_clients s)" for j
    using xrc_progress(3) [OF ok assms(5-7)] that by simp
  have all: "signaled (xp_hist p) = length (y_dests (xp_ctx p))"
    if "counters_ok (xp_ctx p) (xp_hist p)"
      "\<And>j. j < length (y_dests (xp_ctx p)) \<Longrightarrow> x_pp_cnt (y_dests (xp_ctx p) ! j) = y_num_tests (xp_ctx p)" for p
  proof -
    have "filter (\<lambda>d. x_pp_cnt d = y_num_tests (xp_ctx p)) (y_dests (xp_ctx p)) = y_dests (xp_ctx p)"
      using that(2) by (auto simp: filter_id_conv in_set_conv_nth)
    then show ?thesis using that(1) by (simp add: counters_ok_def)
  qed
  have "x_pp_cnt (y_dests (xp_ctx (xs_server s)) ! j) = T" if "j < length (xs_clients s)" for j
    using cl [OF that] ok that by (fastforce simp: xrc_sys_ok_def ping_pong_ok_def)
  then have "signaled (xp_hist (xs_server s)) = length (y_dests (xp_ctx (xs_server s)))"
    using ok by (intro all) (auto simp: xrc_sys_ok_def xrc_server_ok_def)
  moreover have "signaled (xp_hist (xs_clients s ! j)) = length (y_dests (xp_ctx (xs_clients s ! j)))"
    if "j < length (xs_clients s)" for j
    using ok cl [OF that] that by (intro all) (auto simp: xrc_sys_ok_def xrc_client_ok_def)
  ultimately show ?thesis using ok by (auto simp: xrc_sys_ok_def xrc_server_ok_def xrc_client_ok_def)
qed

theorem xrc_last_sends_signaled_witness:
  "\<exists>s. (xrc_step xrc_env ^^ 12) demo_xboot s
     \<and> int (signaled (xp_hist (xs_server s))) = y_num_clients (xp_ctx (xs_server s))"
proof -
  obtain s where s: "(xrc_step xrc_env ^^ 12) demo_xboot s" using demo_xruns [of 12] by auto
  then show ?thesis
    using xrc_last_sends_signaled [of xrc_env 2 3 "fst demo_xserver" "snd demo_xserver" "[demo_xclient, demo_xclient]" 12 s]
      demo_xrc by (auto simp: demo_xboot_def)
qed

end
