(* ===== verification/UcPingpong.thy ===== *)
theory UcPingpong
  imports PlainContext RcSystem
begin

text \<open>
  uc_pingpong.c, the ping-pong over an unreliable connection: its context, the exchange of
  destinations (one \<open>read\<close> for a message, where rc_pingpong.c waits for all of it), and
  \<open>main\<close>.
\<close>

section \<open>The context\<close>

record uc_ctx = plain_ctx +
  u_qp :: ptr
  u_qp_num :: u32

definition new_uc_ctx :: "ptr \<Rightarrow> int \<Rightarrow> int \<Rightarrow> uc_ctx" where
  "new_uc_ctx p sz rx = \<lparr>b_self = p, b_context = 0, b_channel = 0, b_pd = 0, b_mr = 0, b_lkey = 0,
     b_cq = 0, b_buf = 0, b_size = sz, b_rx_depth = rx, u_qp = 0, u_qp_num = 0\<rparr>"

definition uc_rtr_attr :: "u32 \<Rightarrow> pp_dest \<Rightarrow> int \<Rightarrow> int \<Rightarrow> int \<Rightarrow> qp_attr" where
  "uc_rtr_attr mtu dest sl port sgid_idx =
    (let ah = zero_ah\<lparr>is_global := 0, dlid := d_lid dest, ah_sl := sl, src_path_bits := 0,
                      ah_port_num := port\<rparr>
     in zero_qp_attr\<lparr>qp_state := QPS_RTR, path_mtu := mtu, dest_qp_num := d_qpn dest,
          rq_psn := d_psn dest,
          av := (if interface_id_set (d_gid dest)
                 then ah\<lparr>is_global := 1, grh_hop_limit := 1, grh_dgid := d_gid dest,
                         grh_sgid_index := sgid_idx\<rparr>
                 else ah)\<rparr>)"

definition uc_connect_ctx ::
    "api_env \<Rightarrow> uc_ctx \<Rightarrow> int \<Rightarrow> u32 \<Rightarrow> u32 \<Rightarrow> int \<Rightarrow> pp_dest \<Rightarrow> int \<Rightarrow> int prog" where
  "uc_connect_ctx E ctx port my_psn mtu sl dest sgid_idx = do {
     let attr = uc_rtr_attr mtu dest sl port sgid_idx;
     r \<leftarrow> invoke E (Ibv (Modify_qp (u_qp ctx) attr {M_STATE, M_AV, M_PATH_MTU, M_DEST_QPN, M_RQ_PSN}));
     if r \<noteq> 0 then ret_io 1
     else do {
       r' \<leftarrow> invoke E (Ibv (Modify_qp (u_qp ctx) (attr\<lparr>qp_state := QPS_RTS, sq_psn := my_psn\<rparr>)
               {M_STATE, M_SQ_PSN}));
       if r' \<noteq> 0 then ret_io 1 else ret_io 0 } }"

definition uc_clean_qp :: "api_env \<Rightarrow> uc_ctx \<Rightarrow> uc_ctx option prog" where
  "uc_clean_qp E ctx = do { invoke E (Ibv (Destroy_qp (u_qp ctx))); pl_clean_cq E ctx }"

definition uc_qp_init :: "int \<Rightarrow> uc_ctx \<Rightarrow> qp_init" where
  "uc_qp_init rx ctx = zero_qp_init\<lparr>send_cq := b_cq ctx, recv_cq := b_cq ctx, max_send_wr := 1,
     max_recv_wr := rx, max_send_sge := 1, max_recv_sge := 1, qi_type := QPT_UC\<rparr>"

text \<open>From \<open>ibv_create_qp\<close> on.\<close>

definition uc_after_cq :: "api_env \<Rightarrow> int \<Rightarrow> int \<Rightarrow> uc_ctx \<Rightarrow> uc_ctx option prog" where
  "uc_after_cq E rx port ctx = do {
     (p, a) \<leftarrow> invoke_attr E (Ibv (Create_qp (b_pd ctx) (uc_qp_init rx ctx)));
     if p = 0 then pl_clean_cq E ctx
     else do {
       let ctx = ctx\<lparr>u_qp := p, u_qp_num := word_of_int (a ''qp_num'')\<rparr>;
       r \<leftarrow> invoke E (Ibv (Modify_qp p
              (zero_qp_attr\<lparr>qp_state := QPS_INIT, pkey_index := 0, port_num := port,
                            qp_access_flags := 0\<rparr>)
              {M_STATE, M_PKEY_INDEX, M_PORT, M_ACCESS_FLAGS}));
       if r \<noteq> 0 then uc_clean_qp E ctx else ret_io (Some ctx) } }"

definition uc_init_ctx :: "api_env \<Rightarrow> int \<Rightarrow> ptr \<Rightarrow> int \<Rightarrow> int \<Rightarrow> int \<Rightarrow> int \<Rightarrow> uc_ctx option prog" where
  "uc_init_ctx E psize ib_dev sz rx port use_event = do {
     p \<leftarrow> invoke E (Libc (Calloc ''pingpong_context''));
     if p = 0 then ret_io None
     else pl_buffer E psize ib_dev sz (rx + 1) use_event (uc_after_cq E rx port) (new_uc_ctx p sz rx) }"

definition uc_close_ctx :: "api_env \<Rightarrow> uc_ctx \<Rightarrow> int prog" where
  "uc_close_ctx E ctx = do {
     r \<leftarrow> invoke E (Ibv (Destroy_qp (u_qp ctx)));
     if r \<noteq> 0 then ret_io 1 else pl_close E ctx }"

text \<open>\<open>sge.length\<close> has 32 bits and no sign.\<close>

definition uc_sge :: "uc_ctx \<Rightarrow> sge" where
  "uc_sge ctx = \<lparr>sg_addr = b_buf ctx, sg_length = b_size ctx mod 2 ^ 32, sg_lkey = b_lkey ctx\<rparr>"

definition uc_post_recv :: "api_env \<Rightarrow> uc_ctx \<Rightarrow> int \<Rightarrow> int prog" where
  "uc_post_recv E ctx n =
     post_recv_loop E (u_qp ctx) \<lparr>rwr_id = PINGPONG_RECV_WRID, rwr_sges = [uc_sge ctx]\<rparr> (nat n) 0"

definition uc_post_send :: "api_env \<Rightarrow> uc_ctx \<Rightarrow> int prog" where
  "uc_post_send E ctx =
     invoke E (Data (Post_send (u_qp ctx) [\<lparr>swr_id = PINGPONG_SEND_WRID, swr_opcode = WR_SEND,
       swr_sges = [uc_sge ctx], swr_signaled = True, swr_imm = 0, swr_remote_addr = 0, swr_rkey = 0,
       swr_ah = 0, swr_remote_qpn = 0, swr_remote_qkey = 0,
     swr_remote_srqn = 0, swr_dct_key = 0, swr_dct_number = 0\<rparr>]))"

section \<open>The exchange of destinations\<close>

definition uc_client_talk ::
    "api_env \<Rightarrow> stack \<Rightarrow> pp_dest \<Rightarrow> int \<Rightarrow> (ptr \<times> pp_dest) option prog" where
  "uc_client_talk E k my_dest sockfd = do {
     let gid = gid_to_wire_gid (d_gid my_dest);
     w \<leftarrow> invoke E (Libc (Write sockfd (dest_msg (junk_msg k) my_dest)));
     if w \<noteq> int MSG_SIZE then out_label E sockfd None
     else do {
       (r, msg) \<leftarrow> invoke_bytes E (Libc (Read sockfd (int MSG_SIZE)));
       if r \<noteq> int MSG_SIZE then out_label E sockfd None
       else do {
         w \<leftarrow> invoke E (Libc (Write sockfd done_msg));
         if w \<noteq> int (length done_msg) then out_label E sockfd None
         else do {
           p \<leftarrow> invoke E (Libc (Malloc ''pingpong_dest''));
           if p = 0 then out_label E sockfd None
           else out_label E sockfd (Some (p, scan_dest (junk_v32 k) gid (junk_dest k) msg)) } } } }"

definition uc_client_exch_dest ::
    "api_env \<Rightarrow> stack \<Rightarrow> ptr list \<Rightarrow> string \<Rightarrow> int \<Rightarrow> pp_dest \<Rightarrow> (ptr \<times> pp_dest) option prog" where
  "uc_client_exch_dest E k addrs servername port my_dest = do {
     s \<leftarrow> open_client E addrs servername port;
     case s of None \<Rightarrow> ret_io None | Some sockfd \<Rightarrow> uc_client_talk E k my_dest sockfd }"

definition uc_server_answer ::
    "api_env \<Rightarrow> uc_ctx \<Rightarrow> int \<Rightarrow> u32 \<Rightarrow> int \<Rightarrow> pp_dest \<Rightarrow> int \<Rightarrow> int \<Rightarrow> string \<Rightarrow> ptr \<Rightarrow> pp_dest
      \<Rightarrow> (ptr \<times> pp_dest) option prog" where
  "uc_server_answer E ctx ib_port mtu sl my_dest sgid_idx connfd msg p rem_dest = do {
     c \<leftarrow> uc_connect_ctx E ctx ib_port (d_psn my_dest) mtu sl rem_dest sgid_idx;
     if c \<noteq> 0 then do { invoke E (Libc (Free p)); out_label E connfd None }
     else do {
       w \<leftarrow> invoke E (Libc (Write connfd (dest_msg msg my_dest)));
       if w \<noteq> int MSG_SIZE then do { invoke E (Libc (Free p)); out_label E connfd None }
       else do {
         (r, m) \<leftarrow> invoke_bytes E (Libc (Read connfd (int MSG_SIZE)));
         if r \<le> 0 then do { invoke E (Libc (Free p)); out_label E connfd None }
         else out_label E connfd (Some (p, rem_dest)) } } }"

definition uc_server_talk ::
    "api_env \<Rightarrow> stack \<Rightarrow> uc_ctx \<Rightarrow> int \<Rightarrow> u32 \<Rightarrow> int \<Rightarrow> pp_dest \<Rightarrow> int \<Rightarrow> int
      \<Rightarrow> (ptr \<times> pp_dest) option prog" where
  "uc_server_talk E k ctx ib_port mtu sl my_dest sgid_idx connfd = do {
     (n, msg) \<leftarrow> invoke_bytes E (Libc (Read connfd (int MSG_SIZE)));
     if n \<noteq> int MSG_SIZE then out_label E connfd None
     else do {
       p \<leftarrow> invoke E (Libc (Malloc ''pingpong_dest''));
       if p = 0 then out_label E connfd None
       else uc_server_answer E ctx ib_port mtu sl my_dest sgid_idx connfd msg p
              (scan_dest (junk_v32 k) (junk_gid k) (junk_dest k) msg) } }"

definition uc_server_exch_dest ::
    "api_env \<Rightarrow> stack \<Rightarrow> ptr list \<Rightarrow> uc_ctx \<Rightarrow> int \<Rightarrow> u32 \<Rightarrow> int \<Rightarrow> int \<Rightarrow> pp_dest \<Rightarrow> int
      \<Rightarrow> (ptr \<times> pp_dest) option prog" where
  "uc_server_exch_dest E k addrs ctx ib_port mtu port sl my_dest sgid_idx = do {
     s \<leftarrow> open_server E addrs port;
     case s of None \<Rightarrow> ret_io None
       | Some connfd \<Rightarrow> uc_server_talk E k ctx ib_port mtu sl my_dest sgid_idx connfd }"

section \<open>The loop\<close>

definition uc_handle_wc :: "api_env \<Rightarrow> uc_ctx \<Rightarrow> int \<Rightarrow> wc \<Rightarrow> loop_st \<Rightarrow> (int + loop_st) prog" where
  "uc_handle_wc E ctx = pl_handle_wc (uc_post_recv E ctx) (uc_post_send E ctx) (b_rx_depth ctx)"

definition uc_loop ::
    "api_env \<Rightarrow> uc_ctx \<Rightarrow> int \<Rightarrow> bool \<Rightarrow> nat \<Rightarrow> loop_st \<Rightarrow> (int + loop_st) option prog" where
  "uc_loop E ctx iters = pl_loop E ctx (uc_handle_wc E ctx iters) iters"

section \<open>main\<close>

fun uc_parse :: "(char \<times> string) list \<Rightarrow> plain_opts \<Rightarrow> plain_opts option" where
  "uc_parse [] opt = Some opt"
| "uc_parse (ca # cas) opt = (case plain_opt ca opt of None \<Rightarrow> None | Some opt' \<Rightarrow> uc_parse cas opt')"

definition uc_end :: "api_env \<Rightarrow> uc_ctx \<Rightarrow> ptr \<Rightarrow> ptr \<Rightarrow> loop_st \<Rightarrow> int prog" where
  "uc_end E ctx dev_list rem_dest st = do {
     t \<leftarrow> invoke E (Libc Gettimeofday);
     if t \<noteq> 0 then ret_io 1
     else do {
       invoke E (Data (Ack_cq_events (b_cq ctx) (num_cq_events st)));
       r \<leftarrow> uc_close_ctx E ctx;
       if r \<noteq> 0 then ret_io 1
       else do {
         invoke E (Ibv (Free_device_list dev_list));
         invoke E (Libc (Free rem_dest));
         ret_io 0 } } }"

definition uc_run ::
    "api_env \<Rightarrow> nat \<Rightarrow> plain_opts \<Rightarrow> uc_ctx \<Rightarrow> ptr \<Rightarrow> ptr \<Rightarrow> int \<Rightarrow> int \<Rightarrow> int option prog" where
  "uc_run E fuel opt ctx dev_list rem_dest pending0 routs0 = do {
     t \<leftarrow> invoke E (Libc Gettimeofday);
     if t \<noteq> 0 then ret_io (Some 1)
     else do {
       r \<leftarrow> uc_loop E ctx (po_iters opt) (po_use_event opt \<noteq> 0) fuel
              \<lparr>rcnt = 0, scnt = 0, routs = routs0, pend = pending0, num_cq_events = 0\<rparr>;
       case r of None \<Rightarrow> ret_io None
       | Some (Inl e) \<Rightarrow> ret_io (Some e)
       | Some (Inr st) \<Rightarrow> do { e \<leftarrow> uc_end E ctx dev_list rem_dest st; ret_io (Some e) } } }"

definition uc_start ::
    "api_env \<Rightarrow> nat \<Rightarrow> plain_opts \<Rightarrow> uc_ctx \<Rightarrow> ptr \<Rightarrow> pp_dest \<Rightarrow> int \<Rightarrow> ptr \<times> pp_dest \<Rightarrow> int option prog" where
  "uc_start E fuel opt ctx dev_list my_dest routs0 rem = (case rem of (rp, rem_dest) \<Rightarrow>
    (if po_servername opt \<noteq> None then do {
       c \<leftarrow> uc_connect_ctx E ctx (po_ib_port opt) (d_psn my_dest) (po_mtu opt) (po_sl opt) rem_dest
              (po_gidx opt);
       if c \<noteq> 0 then ret_io (Some 1)
       else do {
         r \<leftarrow> uc_post_send E ctx;
         if r \<noteq> 0 then ret_io (Some 1)
         else uc_run E fuel opt ctx dev_list rp (PINGPONG_RECV_WRID OR PINGPONG_SEND_WRID) routs0 }
     } else uc_run E fuel opt ctx dev_list rp PINGPONG_RECV_WRID routs0))"

definition uc_exchange ::
    "api_env \<Rightarrow> nat \<Rightarrow> stack \<Rightarrow> ptr list \<Rightarrow> plain_opts \<Rightarrow> uc_ctx \<Rightarrow> ptr \<Rightarrow> u32 \<Rightarrow> gid \<Rightarrow> int \<Rightarrow> int option prog" where
  "uc_exchange E fuel k addrs opt ctx dev_list lid g routs0 = do {
     rnd \<leftarrow> invoke E (Libc Lrand48);
     let my_dest = \<lparr>d_lid = lid, d_qpn = u_qp_num ctx, d_psn = word_of_int rnd AND 0xffffff, d_gid = g\<rparr>;
     rem \<leftarrow> (case po_servername opt of
         Some nm \<Rightarrow> uc_client_exch_dest E k addrs nm (po_port opt) my_dest
       | None \<Rightarrow> uc_server_exch_dest E k addrs ctx (po_ib_port opt) (po_mtu opt) (po_port opt)
                   (po_sl opt) my_dest (po_gidx opt));
     case rem of None \<Rightarrow> ret_io (Some 1)
     | Some rd \<Rightarrow> uc_start E fuel opt ctx dev_list my_dest routs0 rd }"

definition uc_address ::
    "api_env \<Rightarrow> nat \<Rightarrow> stack \<Rightarrow> ptr list \<Rightarrow> plain_opts \<Rightarrow> uc_ctx \<Rightarrow> ptr \<Rightarrow> int \<Rightarrow> int option prog" where
  "uc_address E fuel k addrs opt ctx dev_list routs0 = do {
     (r, portinfo) \<leftarrow> pp_get_port_info E (b_context ctx) (po_ib_port opt);
     if r \<noteq> 0 then ret_io (Some 1)
     else do {
       let lid = (take_bit 16 (word_of_int (portinfo ''lid'')) :: u32);
       if portinfo ''link_layer'' \<noteq> ETHERNET \<and> lid = 0 then ret_io (Some 1)
       else if po_gidx opt \<ge> 0 then do {
         (r, a) \<leftarrow> invoke_attr E (Ibv (Query_gid (b_context ctx) (po_ib_port opt) (po_gidx opt)));
         if r \<noteq> 0 then ret_io (Some 1)
         else uc_exchange E fuel k addrs opt ctx dev_list lid
                (map (\<lambda>i. word_of_int (a i)) [''gid0'', ''gid1'', ''gid2'', ''gid3'']) routs0
       } else uc_exchange E fuel k addrs opt ctx dev_list lid zero_gid routs0 } }"

definition uc_main_ctx ::
    "api_env \<Rightarrow> nat \<Rightarrow> stack \<Rightarrow> ptr list \<Rightarrow> int \<Rightarrow> plain_opts \<Rightarrow> ptr \<Rightarrow> ptr \<Rightarrow> int option prog" where
  "uc_main_ctx E fuel k addrs psize opt dev_list ib_dev = do {
     c \<leftarrow> uc_init_ctx E psize ib_dev (po_size opt) (po_rx_depth opt) (po_ib_port opt) (po_use_event opt);
     case c of None \<Rightarrow> ret_io (Some 1)
     | Some ctx \<Rightarrow> do {
         routs0 \<leftarrow> uc_post_recv E ctx (b_rx_depth ctx);
         if routs0 < b_rx_depth ctx then ret_io (Some 1)
         else do {
           r \<leftarrow> when_io (po_use_event opt \<noteq> 0) (invoke E (Data (Req_notify_cq (b_cq ctx))));
           if r \<noteq> 0 then ret_io (Some 1)
           else uc_address E fuel k addrs opt ctx dev_list routs0 } } }"

definition uc_main ::
    "api_env \<Rightarrow> nat \<Rightarrow> stack \<Rightarrow> ptr list \<Rightarrow> (string \<times> ptr) list \<Rightarrow> int \<Rightarrow> (char \<times> string) list
      \<Rightarrow> string list \<Rightarrow> int option prog" where
  "uc_main E fuel k addrs devs psize cas args =
    (case uc_parse cas plain_default of None \<Rightarrow> ret_io (Some 1)
     | Some opt \<Rightarrow> (case plain_args args opt of None \<Rightarrow> ret_io (Some 1)
       | Some opt \<Rightarrow> do {
           dev_list \<leftarrow> invoke E (Ibv Get_device_list);
           if dev_list = 0 then ret_io (Some 1)
           else case choose_dev (po_devname opt) devs of None \<Rightarrow> ret_io (Some 1)
             | Some ib_dev \<Rightarrow> uc_main_ctx E fuel k addrs psize opt dev_list ib_dev }))"

section \<open>What is held\<close>

definition uc_owns :: "uc_ctx \<Rightarrow> (res \<times> int) multiset" where
  "uc_owns c = add_mset (Qp, u_qp c) (plain_owns c)"

lemma uc_updates [simp]:
  "plain_owns (c\<lparr>u_qp := x\<rparr>) = plain_owns c" "plain_owns (c\<lparr>u_qp_num := y\<rparr>) = plain_owns c"
  "plain_ok (c\<lparr>u_qp := x\<rparr>) = plain_ok c" "plain_ok (c\<lparr>u_qp_num := y\<rparr>) = plain_ok c"
  for c :: uc_ctx
  by (simp_all add: own_pl_defs)

lemma sat_uc_after_cq:
  assumes "plain_ok c" and "M = M0 + plain_owns c"
  shows "sat track (uc_after_cq E rx port c) M (made uc_owns plain_ok M0)"
  using assms unfolding uc_after_cq_def uc_clean_qp_def Let_def
  by (auto intro!: sat_intro sat_pl_clean_cq simp: track_calls uc_owns_def)

lemma sat_uc_init_ctx:
  "sat track (uc_init_ctx E ps dev sz rx port ev) M (made uc_owns plain_ok M)"
proof -
  have "continues (uc_after_cq E rx port) uc_owns plain_ok M m" for m
    unfolding continues_def by (simp add: sat_uc_after_cq)
  then show ?thesis unfolding uc_init_ctx_def
    by (auto intro!: sat_intro sat_pl_buffer simp: track_calls new_uc_ctx_def)
qed

lemma sat_uc_close_ctx:
  assumes "plain_ok c"
  shows "sat track (uc_close_ctx E c) (M + uc_owns c) (\<lambda>r. given_back M (r = 0))"
  unfolding uc_close_ctx_def
  by (auto intro!: sat_intro sat_pl_close [OF assms] simp: track_calls uc_owns_def given_back_simps)

record uc_config =
  uk_page :: int
  uk_dev :: ptr
  uk_size :: int
  uk_rx :: int
  uk_port :: int
  uk_event :: int

interpretation uc: ctx_lifecycle "\<lambda>k :: uc_config. True"
  "\<lambda>k. uc_init_ctx E (uk_page k) (uk_dev k) (uk_size k) (uk_rx k) (uk_port k) (uk_event k)"
  "\<lambda>k. uc_close_ctx E" "\<lambda>k. uc_owns" "\<lambda>k. plain_ok" for E
proof unfold_locales
  fix k :: uc_config and M
  show "sat track (uc_init_ctx E (uk_page k) (uk_dev k) (uk_size k) (uk_rx k) (uk_port k) (uk_event k)) M
      (\<lambda>r M'. case r of None \<Rightarrow> M' = M | Some c \<Rightarrow> M' = M + uc_owns c \<and> plain_ok c)"
    by (rule sat_conseq [OF sat_uc_init_ctx]) (simp add: made_def)
next
  fix k :: uc_config and M and c :: uc_ctx
  assume "plain_ok c"
  then show "sat track (uc_close_ctx E c) (M + uc_owns c) (\<lambda>r M'. if r = 0 then M' = M else M \<subseteq># M')"
    by (rule sat_conseq [OF sat_uc_close_ctx]) (simp add: given_back_def)
qed

lemma sat_uc_connect_ctx: "sat track (uc_connect_ctx E c port psn mtu sl d gidx) M (\<lambda>r M'. M' = M)"
  unfolding uc_connect_ctx_def Let_def by (auto intro!: sat_intro simp: track_calls)

lemma sat_uc_client_exch_dest:
  "sat track (uc_client_exch_dest E k addrs nm port d) M (exchanged M)"
proof -
  have "sat track (uc_client_talk E k d s) (add_mset (Fd, s) M) (exchanged M)" for s
    unfolding uc_client_talk_def out_label_def Let_def
    by (auto intro!: sat_intro simp: track_calls exchanged_def)
  then show ?thesis unfolding uc_client_exch_dest_def
    by (auto intro!: sat_intro sat_conseq [OF sat_open_client] simp: opened_def exchanged_def)
qed

lemma sat_uc_server_exch_dest:
  "sat track (uc_server_exch_dest E k addrs c ib mtu port sl d gidx) M (exchanged M)"
proof -
  have "sat track (uc_server_talk E k c ib mtu sl d gidx s) (add_mset (Fd, s) M) (exchanged M)" for s
    unfolding uc_server_talk_def uc_server_answer_def out_label_def
    by (auto intro!: sat_intro sat_conseq [OF sat_uc_connect_ctx] simp: track_calls exchanged_def)
  then show ?thesis unfolding uc_server_exch_dest_def
    by (auto intro!: sat_intro sat_conseq [OF sat_open_server] simp: opened_def exchanged_def)
qed

text \<open>The status 0 of \<open>main\<close> means that everything has been given back.\<close>

lemma held_uc_posts:
  "sat track (uc_post_recv E ctx n) M (unchanged M)" "sat track (uc_post_send E ctx) M (unchanged M)"
  unfolding uc_post_recv_def uc_post_send_def
  by (auto intro!: sat_intro held_post_recv_loop simp: unchanged_def)

lemma held_uc_loop: "sat track (uc_loop E ctx iters ev fuel st) M (quiet_opt M)"
  unfolding uc_loop_def uc_handle_wc_def by (intro held_pl_loop held_pl_handle_wc held_uc_posts)

lemma held_uc_run:
  assumes "plain_ok ctx" and "rp \<noteq> 0" and "M = M0 + {#(Heap, rp), (Device_list, dl)#} + uc_owns ctx"
  shows "sat track (uc_run E fuel opt ctx dl rp pend0 routs0) M (clean_exit M0)"
proof -
  have close: "sat track (uc_close_ctx E ctx) M
      (\<lambda>r. given_back (M0 + {#(Heap, rp), (Device_list, dl)#}) (r = 0))"
    unfolding assms(3) by (rule sat_uc_close_ctx [OF assms(1)])
  have "sat track (uc_end E ctx dl rp st) M (\<lambda>r. clean_exit M0 (Some r))" for st
    using assms(2) unfolding uc_end_def
    by (auto intro!: sat_intro sat_conseq [OF close] simp: track_simps clean_exit_def given_back_def
        split: if_splits)
  note end_ok = sat_conseq [OF this]
  show ?thesis unfolding uc_run_def
    by (auto intro!: sat_intro sat_conseq [OF held_uc_loop] end_ok simp: track_calls quiet_opt_def clean_exit_def)
qed

lemma held_uc_exchange:
  assumes "plain_ok ctx" and "M = add_mset (Device_list, dl) M0 + uc_owns ctx"
  shows "sat track (uc_exchange E fuel k addrs opt ctx dl lid g routs0) M (clean_exit M0)"
proof -
  have start: "sat track (uc_start E fuel opt ctx dl my routs0 rd) M' (clean_exit M0)"
    if "fst rd \<noteq> 0" "M' = M + {#(Heap, fst rd)#}" for rd my M'
    using that assms unfolding uc_start_def
    by (auto intro!: sat_intro sat_conseq [OF sat_uc_connect_ctx] sat_conseq [OF held_uc_posts(2)]
        held_uc_run simp: unchanged_def clean_exit_def)
  have "sat track (case rem of None \<Rightarrow> ret_io (Some 1)
       | Some rd \<Rightarrow> uc_start E fuel opt ctx dl my routs0 rd) M' (clean_exit M0)"
    if "exchanged M rem M'" for rem my M'
    using that by (auto intro!: sat_intro start simp: exchanged_def clean_exit_def split: prod.splits)
  note c = this
  show ?thesis unfolding uc_exchange_def Let_def
    by (auto intro!: sat_bind sat_invoke sat_case_option sat_conseq [OF sat_uc_client_exch_dest]
        sat_conseq [OF sat_uc_server_exch_dest] c simp: track_calls)
qed

lemma held_uc_main_ctx:
  assumes "M = add_mset (Device_list, dl) M0"
  shows "sat track (uc_main_ctx E fuel k addrs psize opt dl ib_dev) M (clean_exit M0)"
proof -
  have a: "sat track (uc_address E fuel k addrs opt ctx dl routs0) M' (clean_exit M0)"
    if "plain_ok ctx" "M' = M + uc_owns ctx" for ctx routs0 M'
    using that assms unfolding uc_address_def pp_get_port_info_def Let_def
    by (auto intro!: sat_intro held_uc_exchange simp: track_calls clean_exit_def)
  show ?thesis unfolding uc_main_ctx_def
    by (auto intro!: sat_intro sat_conseq [OF sat_uc_init_ctx] sat_conseq [OF held_uc_posts(1)] a
        simp: made_def unchanged_def clean_exit_def split: option.splits)
qed

lemma held_uc_main: "sat track (uc_main E fuel k addrs devs psize cas args) M (clean_exit M)"
  unfolding uc_main_def
  by (auto intro!: sat_intro held_uc_main_ctx simp: track_simps clean_exit_def)

section \<open>The loop is the one of rc_pingpong.c\<close>

text \<open>
  The context of rc_pingpong.c with the same queues and buffer.  Both programs make the same
  calls as long as the message is not longer than what rc_pingpong.c puts into one scatter
  element.
\<close>

definition rc_view :: "uc_ctx \<Rightarrow> pp_ctx" where
  "rc_view c = (new_ctx (b_self c))\<lparr>context_of := b_context c, channel := b_channel c, pd := b_pd c,
     mr := b_mr c, mr_lkey := b_lkey c, cq := b_cq c, qp := u_qp c, qp_num := u_qp_num c, buf := b_buf c,
     ctx_size := b_size c, rx_depth := b_rx_depth c\<rparr>"

definition small_msg :: "uc_ctx \<Rightarrow> bool" where
  "small_msg c \<longleftrightarrow> 0 \<le> b_size c \<and> b_size c \<le> MAX_SGE_LEN"

lemma uc_posts:
  assumes "small_msg c"
  shows "uc_post_send E c = pp_post_send E plain_flags (rc_view c)"
    and "uc_post_recv E c = pp_post_recv E plain_flags (rc_view c)"
proof -
  have "uc_sge c = pp_sge plain_flags (rc_view c)"
    using assms by (auto simp: small_msg_def uc_sge_def pp_sge_def rc_view_def plain_flags_def new_ctx_def
        MAX_SGE_LEN_def)
  then show "uc_post_send E c = pp_post_send E plain_flags (rc_view c)"
    and "uc_post_recv E c = pp_post_recv E plain_flags (rc_view c)"
    by (auto simp: uc_post_send_def pp_post_send_def pp_send_wr_def uc_post_recv_def pp_post_recv_def
        rc_view_def new_ctx_def fun_eq_iff)
qed

lemma uc_handle_wc_eq:
  assumes "small_msg c"
  shows "uc_handle_wc E c iters = handle_wc E plain_flags (rc_view c) iters"
proof -
  have "rx_depth (rc_view c) = b_rx_depth c" by (simp add: rc_view_def)
  then show ?thesis by (simp add: uc_handle_wc_def rc_handle_wc uc_posts [OF assms])
qed

section \<open>Over a network that loses messages\<close>

record uc_proc =
  c_env :: api_env
  c_ctx :: uc_ctx
  c_st :: loop_st
  c_hist :: trace

definition uc_deliver :: "int \<Rightarrow> wc \<Rightarrow> uc_proc \<Rightarrow> uc_proc option" where
  "uc_deliver iters w p =
    (case run_state (uc_handle_wc (c_env p) (c_ctx p) iters w (c_st p)) (c_hist p) of
       (Inl e, h) \<Rightarrow> None
     | (Inr st, h) \<Rightarrow> Some (p\<lparr>c_st := st, c_hist := h\<rparr>))"

text \<open>
  The state of the pair: the two processes (the client is \<open>True\<close>) and how many of the messages
  on their way to each of them have been lost.  A send completes as soon as the message has left,
  lost or not.
\<close>

type_synonym uc_sys = "(bool \<Rightarrow> uc_proc) \<times> (bool \<Rightarrow> int)"

text \<open>The messages for the side \<open>b\<close> that are still on their way.\<close>

definition on_way :: "uc_sys \<Rightarrow> bool \<Rightarrow> int" where
  "on_way X b = sends (c_hist (fst X (\<not> b))) - rcnt (c_st (fst X b)) - snd X b"

inductive uc_step :: "int \<Rightarrow> uc_sys \<Rightarrow> uc_sys \<Rightarrow> bool" for iters where
  uc_sent: "scnt (c_st (S b)) < sends (c_hist (S b)) \<Longrightarrow> uc_deliver iters send_wc (S b) = Some p \<Longrightarrow>
     uc_step iters (S, l) (S(b := p), l)"
| uc_got: "0 < on_way (S, l) b \<Longrightarrow> rcnt (c_st (S b)) < recvs (c_hist (S b)) \<Longrightarrow>
     uc_deliver iters recv_wc (S b) = Some p \<Longrightarrow> uc_step iters (S, l) (S(b := p), l)"
| uc_lost: "0 < on_way (S, l) b \<Longrightarrow> uc_step iters (S, l) (S, l(b := l b + 1))"

definition uc_starts :: "bool \<Rightarrow> uc_proc \<Rightarrow> bool" where
  "uc_starts client p \<longleftrightarrow> posts_ok (c_env p) \<and> small_msg (c_ctx p) \<and> 1 \<le> b_rx_depth (c_ctx p)
     \<and> rcnt (c_st p) = 0 \<and> scnt (c_st p) = 0 \<and> routs (c_st p) = b_rx_depth (c_ctx p)
     \<and> pend (c_st p) = (if client then PINGPONG_RECV_WRID OR PINGPONG_SEND_WRID else PINGPONG_RECV_WRID)
     \<and> sends (c_hist p) = (if client then 1 else 0) \<and> recvs (c_hist p) = b_rx_depth (c_ctx p)"

definition uc_finished :: "int \<Rightarrow> uc_proc \<Rightarrow> bool" where
  "uc_finished iters p \<longleftrightarrow> iters \<le> rcnt (c_st p) \<and> iters \<le> scnt (c_st p)"

text \<open>A process of this program as one of rc_pingpong.c, whose lemmas apply.\<close>

definition as_rc :: "uc_proc \<Rightarrow> proc" where
  "as_rc p = \<lparr>env_of = c_env p, flags_of = plain_flags, ctx_of = rc_view (c_ctx p), st_of = c_st p,
     hist_of = c_hist p\<rparr>"

lemma as_rc_sel [simp]: "st_of (as_rc p) = c_st p" "hist_of (as_rc p) = c_hist p"
  by (simp_all add: as_rc_def)

lemma uc_deliver_rc:
  assumes "small_msg (c_ctx p)"
  shows "deliver iters w (as_rc p) = map_option as_rc (uc_deliver iters w p)"
    and "uc_deliver iters w p = Some p' \<Longrightarrow> c_ctx p' = c_ctx p"
  by (auto simp: deliver_def uc_deliver_def as_rc_def uc_handle_wc_eq [OF assms] split: prod.splits sum.splits)

definition uc_inv :: "int \<Rightarrow> int \<Rightarrow> uc_proc \<Rightarrow> bool" where
  "uc_inv iters lead p \<longleftrightarrow> small_msg (c_ctx p) \<and> proc_inv iters lead (as_rc p)"

definition uc_pair_inv :: "int \<Rightarrow> uc_sys \<Rightarrow> bool" where
  "uc_pair_inv iters X \<longleftrightarrow> (\<forall>b. uc_inv iters (if b then 0 else 1) (fst X b) \<and> 0 \<le> on_way X b \<and> 0 \<le> snd X b)"

lemma uc_start_inv:
  assumes "uc_starts True (S True)" and "uc_starts False (S False)" and "1 \<le> iters"
  shows "uc_pair_inv iters (S, \<lambda>b. 0)"
proof -
  have "uc_inv iters (if b then 0 else 1) (S b) \<and> 0 \<le> on_way (S, \<lambda>b. 0) b" for b
    using assms
    by (cases b) (auto simp: uc_starts_def uc_inv_def proc_inv_def as_rc_def rc_view_def st_inv_def
        queue_inv_def wrids on_way_def)
  then show ?thesis by (simp add: uc_pair_inv_def)
qed

text \<open>The counters of a process, for the measure and the messages on their way.\<close>

lemma uc_deliver_sent:
  assumes "uc_inv iters lead p" and "scnt (c_st p) < sends (c_hist p)" and "uc_deliver iters send_wc p = Some p'"
  shows "uc_inv iters lead p' \<and> rcnt (c_st p') = rcnt (c_st p) \<and> scnt (c_st p') = scnt (c_st p) + 1
    \<and> sends (c_hist p) \<le> sends (c_hist p')"
proof -
  have m: "small_msg (c_ctx p)" using assms(1) by (simp add: uc_inv_def)
  have "deliver iters send_wc (as_rc p) = Some (as_rc p')"
    using uc_deliver_rc(1) [OF m, of iters send_wc] assms(3) by simp
  from proc_inv_send [OF _ _ this] assms(1,2) show ?thesis
    using uc_deliver_rc(2) [OF m assms(3)] m by (simp add: uc_inv_def)
qed

lemma uc_deliver_got:
  assumes "uc_inv iters lead p" and "rcnt (c_st p) < sends (c_hist p) + lead"
    and "uc_deliver iters recv_wc p = Some p'"
  shows "uc_inv iters lead p' \<and> rcnt (c_st p') = rcnt (c_st p) + 1 \<and> scnt (c_st p') = scnt (c_st p)
    \<and> sends (c_hist p) \<le> sends (c_hist p')"
proof -
  have m: "small_msg (c_ctx p)" using assms(1) by (simp add: uc_inv_def)
  have "deliver iters recv_wc (as_rc p) = Some (as_rc p')"
    using uc_deliver_rc(1) [OF m, of iters recv_wc] assms(3) by simp
  from proc_inv_recv [OF _ this] assms(1,2) show ?thesis
    using uc_deliver_rc(2) [OF m assms(3)] m by (simp add: uc_inv_def)
qed

text \<open>A process between its send and the reply, and the messages there can be.\<close>

lemma uc_inv_counts:
  assumes "uc_inv iters lead p"
  shows "scnt (c_st p) \<le> sends (c_hist p)" "sends (c_hist p) \<le> iters"
    "sends (c_hist p) \<le> rcnt (c_st p) + 1 - lead" "rcnt (c_st p) \<le> sends (c_hist p) + lead"
  using assms by (auto simp: uc_inv_def proc_inv_def st_inv_def split: if_splits)

lemma uc_awaits:
  assumes "uc_pair_inv iters X" and "0 < on_way X b"
  shows "rcnt (c_st (fst X b)) < sends (c_hist (fst X b)) + (if b then 0 else 1)"
proof -
  have i: "uc_inv iters (if x then 0 else 1) (fst X x)" "0 \<le> on_way X x" "0 \<le> snd X x" for x
    using assms(1) by (simp_all add: uc_pair_inv_def)
  show ?thesis using uc_inv_counts [OF i(1) [of b]] uc_inv_counts [OF i(1) [of "\<not> b"]] i(2,3) [of b] i(2,3) [of "\<not> b"] assms(2)
    by (cases b) (auto simp: on_way_def)
qed

definition uc_total :: "uc_sys \<Rightarrow> int" where
  "uc_total X = (scnt (c_st (fst X True)) + rcnt (c_st (fst X True)) + snd X True)
     + (scnt (c_st (fst X False)) + rcnt (c_st (fst X False)) + snd X False)"

lemma uc_pair_step:
  assumes "uc_step iters X Y" and "uc_pair_inv iters X"
  shows "uc_pair_inv iters Y \<and> uc_total Y = uc_total X + 1"
  using assms
proof (induction rule: uc_step.induct)
  case (uc_sent S b p l)
  then have "uc_inv iters (if b then 0 else 1) (S b)" by (simp add: uc_pair_inv_def)
  from uc_deliver_sent [OF this uc_sent(1,2)] uc_sent(3) show ?case
    by (cases b) (auto simp: uc_pair_inv_def on_way_def uc_total_def all_bool_eq)
next
  case (uc_got S l b p)
  then have "uc_inv iters (if b then 0 else 1) (S b)" by (simp add: uc_pair_inv_def)
  from uc_deliver_got [OF this _ uc_got(3)] uc_awaits [OF uc_got(4), of b] uc_got(1,4) show ?case
    by (cases b) (auto simp: uc_pair_inv_def on_way_def uc_total_def all_bool_eq)
next
  case (uc_lost S l b)
  then show ?case by (cases b) (auto simp: uc_pair_inv_def on_way_def uc_total_def all_bool_eq)
qed

lemma uc_steps:
  "(uc_step iters ^^ k) X Y \<Longrightarrow> uc_pair_inv iters X \<Longrightarrow> uc_pair_inv iters Y \<and> uc_total Y = uc_total X + int k"
proof (induction k arbitrary: Y)
  case (Suc k)
  then obtain T where "(uc_step iters ^^ k) X T" "uc_step iters T Y" by auto
  moreover from this Suc have "uc_pair_inv iters T" "uc_total T = uc_total X + int k" by simp_all
  ultimately show ?case using uc_pair_step [of iters T Y] by simp
qed simp

lemma uc_deliver_some:
  assumes "uc_inv iters lead p" and "w = send_wc \<or> w = recv_wc"
  shows "\<exists>p'. uc_deliver iters w p = Some p'"
proof -
  have m: "small_msg (c_ctx p)" and i: "proc_inv iters lead (as_rc p)" using assms(1) by (simp_all add: uc_inv_def)
  then have "posts_ok (env_of (as_rc p))" "routs (st_of (as_rc p)) \<le> rx_depth (ctx_of (as_rc p))"
    by (simp_all add: proc_inv_def queue_inv_def)
  then have "\<exists>q. deliver iters w (as_rc p) = Some q"
    using deliver_send deliver_recv assms(2) by blast
  then show ?thesis using uc_deliver_rc(1) [OF m, of iters w] by auto
qed

text \<open>With nothing left to do and nothing lost both loops have ended.\<close>

lemma uc_quiet:
  assumes inv: "uc_pair_inv iters X" and stuck: "\<nexists>Y. uc_step iters X Y" and l: "\<And>b. snd X b = 0"
  shows "uc_finished iters (fst X b)"
proof -
  obtain S where X: "X = (S, snd X)" by (metis prod.collapse)
  have i: "uc_inv iters (if x then 0 else 1) (S x)" "0 \<le> on_way X x" for x
    using inv X by (metis fst_conv uc_pair_inv_def)+
  have "\<not> scnt (c_st (S x)) < sends (c_hist (S x))" for x
    using stuck uc_sent [of S x] uc_deliver_some [OF i(1)] X by metis
  moreover have "rcnt (c_st (S x)) < recvs (c_hist (S x))" for x
    using i(1) [of x] by (auto simp: uc_inv_def proc_inv_def queue_inv_def split: if_splits)
  then have "\<not> 0 < on_way X x" for x
    using stuck uc_got [of S "snd X" x] uc_deliver_some [OF i(1)] X by metis
  then have "rcnt (c_st (S x)) = sends (c_hist (S (\<not> x)))" for x
    using i(2) [of x] l [of x] X by (metis fst_conv on_way_def diff_zero eq_iff_diff_eq_0 linorder_not_less nle_le)
  moreover have "uc_inv iters 0 (S True)" "uc_inv iters 1 (S False)" using i(1) [of True] i(1) [of False] by auto
  ultimately have "uc_finished iters (S True) \<and> uc_finished iters (S False)"
    unfolding uc_inv_def proc_inv_def st_inv_def uc_finished_def
    by (smt (verit) as_rc_sel insert_iff singletonD)
  then show ?thesis by (cases b) (metis X fst_conv)+
qed

section \<open>Properties\<close>

definition uc_demo :: "bool \<Rightarrow> uc_proc" where
  "uc_demo client = \<lparr>c_env = const_env (\<lambda>c. 0) (\<lambda>c. []), c_ctx = new_uc_ctx 1 64 1,
     c_st = \<lparr>rcnt = 0, scnt = 0, routs = 1, pend = (if client then 3 else 1), num_cq_events = 0\<rparr>,
     c_hist = (if client then [(Data (Post_send 0 []), 0), (Data (Post_recv 0 []), 0)]
               else [(Data (Post_recv 0 []), 0)])\<rparr>"

lemma uc_demo_starts: "uc_starts True (uc_demo True)" "uc_starts False (uc_demo False)"
  by (simp_all add: uc_starts_def uc_demo_def const_env_def posts_ok_def wrids new_uc_ctx_def
      small_msg_def MAX_SGE_LEN_def)

text \<open>
  C27: Over the unreliable connection a run of the pair ends after at most \<open>4 * iters\<close> events,
  losses included.  If it ends without a loss, both loops have ended.  A side that a message was lost
  for never leaves its loop, and if it was the server's message then the client does not
  either: nothing is sent again and nothing times out.
\<close>

theorem uc_lost_message_hangs:
  assumes "uc_starts True (S True)" and "uc_starts False (S False)" and "1 \<le> iters"
    and "(uc_step iters ^^ k) (S, \<lambda>b. 0) X"
  shows "int k \<le> 4 * iters
    \<and> ((\<exists>Y. uc_step iters X Y) \<or> (\<exists>b. snd X b \<noteq> 0) \<or> uc_finished iters (fst X True) \<and> uc_finished iters (fst X False))
    \<and> (0 < snd X b \<longrightarrow> \<not> uc_finished iters (fst X b) \<and> (\<not> b \<longrightarrow> \<not> uc_finished iters (fst X True)))"
proof -
  have "uc_total (S, \<lambda>b. 0) = 0" using assms(1,2) by (simp add: uc_starts_def uc_total_def)
  with uc_steps [OF assms(4) uc_start_inv [OF assms(1-3)]]
  have inv: "uc_pair_inv iters X" and k: "uc_total X = int k" by simp_all
  then have i: "uc_inv iters (if x then 0 else 1) (fst X x)" "0 \<le> on_way X x" for x
    by (simp_all add: uc_pair_inv_def)
  note c = uc_inv_counts [OF i(1) [of True], simplified] and s = uc_inv_counts [OF i(1) [of False], simplified]
  have way: "rcnt (c_st (fst X True)) + snd X True \<le> sends (c_hist (fst X False))"
    "rcnt (c_st (fst X False)) + snd X False \<le> sends (c_hist (fst X True))"
    using i(2) [of True] i(2) [of False] by (simp_all add: on_way_def)
  have lost: "0 \<le> snd X True" "0 \<le> snd X False" using inv by (simp_all add: uc_pair_inv_def)
  have "int k \<le> 4 * iters"
    using c s way k by (simp add: uc_total_def)
  moreover have "0 < snd X b \<longrightarrow> \<not> uc_finished iters (fst X b) \<and> (\<not> b \<longrightarrow> \<not> uc_finished iters (fst X True))"
    using c s way lost by (cases b) (auto simp: uc_finished_def)
  ultimately show ?thesis using uc_quiet [OF inv] by blast
qed

theorem uc_lost_message_hangs_witness:
  "\<exists>X. uc_step 3 (uc_demo, \<lambda>b. 0) X \<and> 0 < snd X False \<and> \<not> uc_finished 3 (fst X True)"
proof -
  have "0 < on_way (uc_demo, \<lambda>b. 0) False" by (simp add: on_way_def uc_demo_def)
  from uc_lost [OF this]
  have st: "uc_step 3 (uc_demo, \<lambda>b. 0) (uc_demo, (\<lambda>b. 0)(False := 0 + 1))" .
  have "(uc_step 3 ^^ Suc 0) (uc_demo, \<lambda>b. 0) (uc_demo, (\<lambda>b. 0)(False := 0 + 1))"
    by (rule relpowp_Suc_I, rule relpowp_0_I, rule st)
  from uc_lost_message_hangs [OF uc_demo_starts _ this, of False] st show ?thesis by fastforce
qed

end
