(* ===== verification/UdPingpong.thy ===== *)
theory UdPingpong
  imports PlainContext
begin

text \<open>
  ud_pingpong.c, the ping-pong over unreliable datagrams: the context with its address handle,
  a buffer with 40 bytes of room for the routing header in front of each message, the exchange
  of destinations and \<open>main\<close>.
\<close>

section \<open>The context\<close>

record ud_ctx = plain_ctx +
  d_qp :: ptr
  d_qp_num :: u32
  d_ah :: ptr

text \<open>\<open>malloc\<close> leaves the fields undefined; the code sets each before it reads it, and 0 stands for
  what it holds before.\<close>

definition new_ud_ctx :: "ptr \<Rightarrow> int \<Rightarrow> int \<Rightarrow> ud_ctx" where
  "new_ud_ctx p sz rx = \<lparr>b_self = p, b_context = 0, b_channel = 0, b_pd = 0, b_mr = 0, b_lkey = 0,
     b_cq = 0, b_buf = 0, b_size = sz, b_rx_depth = rx, d_qp = 0, d_qp_num = 0, d_ah = 0\<rparr>"

definition ud_ah_attr :: "pp_dest \<Rightarrow> int \<Rightarrow> int \<Rightarrow> int \<Rightarrow> ah_attr" where
  "ud_ah_attr dest sl port sgid_idx =
    (let ah = zero_ah\<lparr>is_global := 0, dlid := d_lid dest, ah_sl := sl, src_path_bits := 0,
                      ah_port_num := port\<rparr>
     in if interface_id_set (d_gid dest)
        then ah\<lparr>is_global := 1, grh_hop_limit := 1, grh_dgid := d_gid dest, grh_sgid_index := sgid_idx\<rparr>
        else ah)"

definition ud_connect_ctx ::
    "api_env \<Rightarrow> ud_ctx \<Rightarrow> int \<Rightarrow> u32 \<Rightarrow> int \<Rightarrow> pp_dest \<Rightarrow> int \<Rightarrow> (int \<times> ud_ctx) prog" where
  "ud_connect_ctx E ctx port my_psn sl dest sgid_idx = do {
     let attr = zero_qp_attr\<lparr>qp_state := QPS_RTR\<rparr>;
     r \<leftarrow> invoke E (Ibv (Modify_qp (d_qp ctx) attr {M_STATE}));
     if r \<noteq> 0 then ret_io (1, ctx)
     else do {
       r' \<leftarrow> invoke E (Ibv (Modify_qp (d_qp ctx) (attr\<lparr>qp_state := QPS_RTS, sq_psn := my_psn\<rparr>)
               {M_STATE, M_SQ_PSN}));
       if r' \<noteq> 0 then ret_io (1, ctx)
       else do {
         a \<leftarrow> invoke E (Ibv (Create_ah (b_pd ctx) (ud_ah_attr dest sl port sgid_idx)));
         ret_io (if a = 0 then 1 else 0, ctx\<lparr>d_ah := a\<rparr>) } } }"

definition ud_clean_qp :: "api_env \<Rightarrow> ud_ctx \<Rightarrow> ud_ctx option prog" where
  "ud_clean_qp E ctx = do { invoke E (Ibv (Destroy_qp (d_qp ctx))); pl_clean_cq E ctx }"

definition ud_qp_init :: "int \<Rightarrow> ud_ctx \<Rightarrow> qp_init" where
  "ud_qp_init rx ctx = zero_qp_init\<lparr>send_cq := b_cq ctx, recv_cq := b_cq ctx, max_send_wr := 1,
     max_recv_wr := rx, max_send_sge := 1, max_recv_sge := 1, qi_type := QPT_UD\<rparr>"

definition ud_after_cq :: "api_env \<Rightarrow> int \<Rightarrow> int \<Rightarrow> ud_ctx \<Rightarrow> ud_ctx option prog" where
  "ud_after_cq E rx port ctx = do {
     (p, a) \<leftarrow> invoke_attr E (Ibv (Create_qp (b_pd ctx) (ud_qp_init rx ctx)));
     if p = 0 then pl_clean_cq E ctx
     else do {
       let ctx = ctx\<lparr>d_qp := p, d_qp_num := word_of_int (a ''qp_num'')\<rparr>;
       r \<leftarrow> invoke E (Ibv (Modify_qp p
              (zero_qp_attr\<lparr>qp_state := QPS_INIT, pkey_index := 0, port_num := port, qkey := 0x11111111\<rparr>)
              {M_STATE, M_PKEY_INDEX, M_PORT, M_QKEY}));
       if r \<noteq> 0 then ud_clean_qp E ctx else ret_io (Some ctx) } }"

definition ud_init_ctx :: "api_env \<Rightarrow> int \<Rightarrow> ptr \<Rightarrow> int \<Rightarrow> int \<Rightarrow> int \<Rightarrow> int \<Rightarrow> ud_ctx option prog" where
  "ud_init_ctx E psize ib_dev sz rx port use_event = do {
     p \<leftarrow> invoke E (Libc (Malloc ''pingpong_context''));
     if p = 0 then ret_io None
     else pl_buffer E psize ib_dev (sz + 40) (rx + 1) use_event (ud_after_cq E rx port)
            (new_ud_ctx p sz rx) }"

text \<open>The address handle is destroyed between the memory region and the protection domain.\<close>

definition ud_close_ctx :: "api_env \<Rightarrow> ud_ctx \<Rightarrow> int prog" where
  "ud_close_ctx E ctx = do {
     r \<leftarrow> invoke E (Ibv (Destroy_qp (d_qp ctx)));
     if r \<noteq> 0 then ret_io 1 else do {
     r \<leftarrow> invoke E (Ibv (Destroy_cq (b_cq ctx)));
     if r \<noteq> 0 then ret_io 1 else do {
     r \<leftarrow> invoke E (Ibv (Dereg_mr (b_mr ctx)));
     if r \<noteq> 0 then ret_io 1 else do {
     r \<leftarrow> invoke E (Ibv (Destroy_ah (d_ah ctx)));
     if r \<noteq> 0 then ret_io 1 else do {
     r \<leftarrow> invoke E (Ibv (Dealloc_pd (b_pd ctx)));
     if r \<noteq> 0 then ret_io 1 else do {
     r \<leftarrow> when_io (b_channel ctx \<noteq> 0) (invoke E (Ibv (Destroy_comp_channel (b_channel ctx))));
     if r \<noteq> 0 then ret_io 1 else do {
     r \<leftarrow> invoke E (Ibv (Close_device (b_context ctx)));
     if r \<noteq> 0 then ret_io 1 else do {
     invoke E (Libc (Free (b_buf ctx)));
     invoke E (Libc (Free (b_self ctx)));
     ret_io 0 }}}}}}}
   }"

definition ud_recv_sge :: "ud_ctx \<Rightarrow> sge" where
  "ud_recv_sge ctx = \<lparr>sg_addr = b_buf ctx, sg_length = (b_size ctx + 40) mod 2 ^ 32, sg_lkey = b_lkey ctx\<rparr>"

definition ud_send_sge :: "ud_ctx \<Rightarrow> sge" where
  "ud_send_sge ctx = \<lparr>sg_addr = b_buf ctx + 40, sg_length = b_size ctx mod 2 ^ 32, sg_lkey = b_lkey ctx\<rparr>"

definition ud_post_recv :: "api_env \<Rightarrow> ud_ctx \<Rightarrow> int \<Rightarrow> int prog" where
  "ud_post_recv E ctx n =
     post_recv_loop E (d_qp ctx) \<lparr>rwr_id = PINGPONG_RECV_WRID, rwr_sges = [ud_recv_sge ctx]\<rparr> (nat n) 0"

definition ud_post_send :: "api_env \<Rightarrow> ud_ctx \<Rightarrow> u32 \<Rightarrow> int prog" where
  "ud_post_send E ctx qpn =
     invoke E (Data (Post_send (d_qp ctx) [\<lparr>swr_id = PINGPONG_SEND_WRID, swr_opcode = WR_SEND,
       swr_sges = [ud_send_sge ctx], swr_signaled = True, swr_imm = 0, swr_remote_addr = 0, swr_rkey = 0,
       swr_ah = d_ah ctx, swr_remote_qpn = qpn, swr_remote_qkey = 0x11111111,
     swr_remote_srqn = 0, swr_dct_key = 0, swr_dct_number = 0\<rparr>]))"

section \<open>The exchange of destinations\<close>

text \<open>The client's function has the text of rc_pingpong.c; the server's connects this context.\<close>

definition ud_client_exch_dest ::
    "api_env \<Rightarrow> stack \<Rightarrow> ptr list \<Rightarrow> string \<Rightarrow> int \<Rightarrow> pp_dest \<Rightarrow> (ptr \<times> pp_dest) option prog" where
  "ud_client_exch_dest E k addrs servername port my_dest = do {
     s \<leftarrow> open_client E addrs servername port;
     case s of None \<Rightarrow> ret_io None | Some sockfd \<Rightarrow> client_talk E k my_dest sockfd }"

definition ud_server_answer ::
    "api_env \<Rightarrow> ud_ctx \<Rightarrow> int \<Rightarrow> int \<Rightarrow> pp_dest \<Rightarrow> int \<Rightarrow> int \<Rightarrow> string \<Rightarrow> ptr \<Rightarrow> pp_dest
      \<Rightarrow> ((ptr \<times> pp_dest) option \<times> ud_ctx) prog" where
  "ud_server_answer E ctx ib_port sl my_dest sgid_idx connfd msg p rem_dest = do {
     (c, ctx) \<leftarrow> ud_connect_ctx E ctx ib_port (d_psn my_dest) sl rem_dest sgid_idx;
     if c \<noteq> 0 then do { invoke E (Libc (Free p)); out_label E connfd (None, ctx) }
     else do {
       w \<leftarrow> invoke E (Libc (Write connfd (dest_msg msg my_dest)));
       if w \<noteq> int MSG_SIZE then do { invoke E (Libc (Free p)); out_label E connfd (None, ctx) }
       else do {
         (r, m) \<leftarrow> invoke_bytes E (Libc (Read connfd (int MSG_SIZE)));
         if r \<le> 0 then do { invoke E (Libc (Free p)); out_label E connfd (None, ctx) }
         else out_label E connfd (Some (p, rem_dest), ctx) } } }"

definition ud_server_talk ::
    "api_env \<Rightarrow> stack \<Rightarrow> ud_ctx \<Rightarrow> int \<Rightarrow> int \<Rightarrow> pp_dest \<Rightarrow> int \<Rightarrow> int
      \<Rightarrow> ((ptr \<times> pp_dest) option \<times> ud_ctx) prog" where
  "ud_server_talk E k ctx ib_port sl my_dest sgid_idx connfd = do {
     (n, msg) \<leftarrow> invoke_bytes E (Libc (Recv connfd (int MSG_SIZE)));
     if n \<noteq> int MSG_SIZE then out_label E connfd (None, ctx)
     else do {
       p \<leftarrow> invoke E (Libc (Malloc ''pingpong_dest''));
       if p = 0 then out_label E connfd (None, ctx)
       else ud_server_answer E ctx ib_port sl my_dest sgid_idx connfd msg p
              (scan_dest (junk_v32 k) (junk_gid k) (junk_dest k) msg) } }"

definition ud_server_exch_dest ::
    "api_env \<Rightarrow> stack \<Rightarrow> ptr list \<Rightarrow> ud_ctx \<Rightarrow> int \<Rightarrow> int \<Rightarrow> int \<Rightarrow> pp_dest \<Rightarrow> int
      \<Rightarrow> ((ptr \<times> pp_dest) option \<times> ud_ctx) prog" where
  "ud_server_exch_dest E k addrs ctx ib_port port sl my_dest sgid_idx = do {
     s \<leftarrow> open_server E addrs port;
     case s of None \<Rightarrow> ret_io (None, ctx)
       | Some connfd \<Rightarrow> ud_server_talk E k ctx ib_port sl my_dest sgid_idx connfd }"

section \<open>main\<close>

definition ud_handle_wc ::
    "api_env \<Rightarrow> ud_ctx \<Rightarrow> u32 \<Rightarrow> int \<Rightarrow> wc \<Rightarrow> loop_st \<Rightarrow> (int + loop_st) prog" where
  "ud_handle_wc E ctx qpn = pl_handle_wc (ud_post_recv E ctx) (ud_post_send E ctx qpn) (b_rx_depth ctx)"

definition ud_loop ::
    "api_env \<Rightarrow> ud_ctx \<Rightarrow> u32 \<Rightarrow> int \<Rightarrow> bool \<Rightarrow> nat \<Rightarrow> loop_st \<Rightarrow> (int + loop_st) option prog" where
  "ud_loop E ctx qpn iters = pl_loop E ctx (ud_handle_wc E ctx qpn iters) iters"

text \<open>There is no option for the MTU, and the message is smaller.\<close>

definition ud_default :: plain_opts where
  "ud_default = plain_default\<lparr>po_size := 1024\<rparr>"

fun ud_parse :: "(char \<times> string) list \<Rightarrow> plain_opts \<Rightarrow> plain_opts option" where
  "ud_parse [] opt = Some opt"
| "ud_parse (ca # cas) opt = (if fst ca = CHR ''m'' then None
     else case plain_opt ca opt of None \<Rightarrow> None | Some opt' \<Rightarrow> ud_parse cas opt')"

definition ud_end :: "api_env \<Rightarrow> ud_ctx \<Rightarrow> ptr \<Rightarrow> ptr \<Rightarrow> loop_st \<Rightarrow> int prog" where
  "ud_end E ctx dev_list rem_dest st = do {
     t \<leftarrow> invoke E (Libc Gettimeofday);
     if t \<noteq> 0 then ret_io 1
     else do {
       invoke E (Data (Ack_cq_events (b_cq ctx) (num_cq_events st)));
       r \<leftarrow> ud_close_ctx E ctx;
       if r \<noteq> 0 then ret_io 1
       else do {
         invoke E (Ibv (Free_device_list dev_list));
         invoke E (Libc (Free rem_dest));
         ret_io 0 } } }"

definition ud_run ::
    "api_env \<Rightarrow> nat \<Rightarrow> plain_opts \<Rightarrow> ud_ctx \<Rightarrow> ptr \<Rightarrow> ptr \<times> pp_dest \<Rightarrow> int \<Rightarrow> int \<Rightarrow> int option prog" where
  "ud_run E fuel opt ctx dev_list rem pending0 routs0 = do {
     t \<leftarrow> invoke E (Libc Gettimeofday);
     if t \<noteq> 0 then ret_io (Some 1)
     else do {
       r \<leftarrow> ud_loop E ctx (d_qpn (snd rem)) (po_iters opt) (po_use_event opt \<noteq> 0) fuel
              \<lparr>rcnt = 0, scnt = 0, routs = routs0, pend = pending0, num_cq_events = 0\<rparr>;
       case r of None \<Rightarrow> ret_io None
       | Some (Inl e) \<Rightarrow> ret_io (Some e)
       | Some (Inr st) \<Rightarrow> do { e \<leftarrow> ud_end E ctx dev_list (fst rem) st; ret_io (Some e) } } }"

definition ud_start ::
    "api_env \<Rightarrow> nat \<Rightarrow> plain_opts \<Rightarrow> ud_ctx \<Rightarrow> ptr \<Rightarrow> pp_dest \<Rightarrow> int \<Rightarrow> ptr \<times> pp_dest \<Rightarrow> int option prog" where
  "ud_start E fuel opt ctx dev_list my_dest routs0 rem =
    (if po_servername opt \<noteq> None then do {
       (c, ctx) \<leftarrow> ud_connect_ctx E ctx (po_ib_port opt) (d_psn my_dest) (po_sl opt) (snd rem) (po_gidx opt);
       if c \<noteq> 0 then ret_io (Some 1)
       else do {
         r \<leftarrow> ud_post_send E ctx (d_qpn (snd rem));
         if r \<noteq> 0 then ret_io (Some 1)
         else ud_run E fuel opt ctx dev_list rem (PINGPONG_RECV_WRID OR PINGPONG_SEND_WRID) routs0 }
     } else ud_run E fuel opt ctx dev_list rem PINGPONG_RECV_WRID routs0)"

definition ud_exchange ::
    "api_env \<Rightarrow> nat \<Rightarrow> stack \<Rightarrow> ptr list \<Rightarrow> plain_opts \<Rightarrow> ud_ctx \<Rightarrow> ptr \<Rightarrow> pp_dest \<Rightarrow> int \<Rightarrow> int option prog" where
  "ud_exchange E fuel k addrs opt ctx dev_list my_dest routs0 = do {
     (rem, ctx) \<leftarrow> (case po_servername opt of
         Some nm \<Rightarrow> do {
           r \<leftarrow> ud_client_exch_dest E k addrs nm (po_port opt) my_dest;
           ret_io (r, ctx) }
       | None \<Rightarrow> ud_server_exch_dest E k addrs ctx (po_ib_port opt) (po_port opt) (po_sl opt) my_dest
                   (po_gidx opt));
     case rem of None \<Rightarrow> ret_io (Some 1)
     | Some rd \<Rightarrow> ud_start E fuel opt ctx dev_list my_dest routs0 rd }"

definition ud_address ::
    "api_env \<Rightarrow> nat \<Rightarrow> stack \<Rightarrow> ptr list \<Rightarrow> plain_opts \<Rightarrow> ud_ctx \<Rightarrow> ptr \<Rightarrow> int \<Rightarrow> int option prog" where
  "ud_address E fuel k addrs opt ctx dev_list routs0 = do {
     (r, portinfo) \<leftarrow> pp_get_port_info E (b_context ctx) (po_ib_port opt);
     if r \<noteq> 0 then ret_io (Some 1)
     else do {
       rnd \<leftarrow> invoke E (Libc Lrand48);
       let my_dest = \<lparr>d_lid = take_bit 16 (word_of_int (portinfo ''lid'')), d_qpn = d_qp_num ctx,
                      d_psn = word_of_int rnd AND 0xffffff, d_gid = zero_gid\<rparr>;
       if po_gidx opt \<ge> 0 then do {
         (r, a) \<leftarrow> invoke_attr E (Ibv (Query_gid (b_context ctx) (po_ib_port opt) (po_gidx opt)));
         if r \<noteq> 0 then ret_io (Some 1)
         else ud_exchange E fuel k addrs opt ctx dev_list (my_dest\<lparr>d_gid :=
                map (\<lambda>i. word_of_int (a i)) [''gid0'', ''gid1'', ''gid2'', ''gid3'']\<rparr>) routs0
       } else ud_exchange E fuel k addrs opt ctx dev_list my_dest routs0 } }"

definition ud_main_ctx ::
    "api_env \<Rightarrow> nat \<Rightarrow> stack \<Rightarrow> ptr list \<Rightarrow> int \<Rightarrow> plain_opts \<Rightarrow> ptr \<Rightarrow> ptr \<Rightarrow> int option prog" where
  "ud_main_ctx E fuel k addrs psize opt dev_list ib_dev = do {
     c \<leftarrow> ud_init_ctx E psize ib_dev (po_size opt) (po_rx_depth opt) (po_ib_port opt) (po_use_event opt);
     case c of None \<Rightarrow> ret_io (Some 1)
     | Some ctx \<Rightarrow> do {
         routs0 \<leftarrow> ud_post_recv E ctx (b_rx_depth ctx);
         if routs0 < b_rx_depth ctx then ret_io (Some 1)
         else do {
           r \<leftarrow> when_io (po_use_event opt \<noteq> 0) (invoke E (Data (Req_notify_cq (b_cq ctx))));
           if r \<noteq> 0 then ret_io (Some 1)
           else ud_address E fuel k addrs opt ctx dev_list routs0 } } }"

definition ud_main ::
    "api_env \<Rightarrow> nat \<Rightarrow> stack \<Rightarrow> ptr list \<Rightarrow> (string \<times> ptr) list \<Rightarrow> int \<Rightarrow> (char \<times> string) list
      \<Rightarrow> string list \<Rightarrow> int option prog" where
  "ud_main E fuel k addrs devs psize cas args =
    (case ud_parse cas ud_default of None \<Rightarrow> ret_io (Some 1)
     | Some opt \<Rightarrow> (case plain_args args opt of None \<Rightarrow> ret_io (Some 1)
       | Some opt \<Rightarrow> do {
           dev_list \<leftarrow> invoke E (Ibv Get_device_list);
           if dev_list = 0 then ret_io (Some 1)
           else case choose_dev (po_devname opt) devs of None \<Rightarrow> ret_io (Some 1)
             | Some ib_dev \<Rightarrow> ud_main_ctx E fuel k addrs psize opt dev_list ib_dev }))"

section \<open>What is held\<close>

text \<open>Before \<open>pp_connect_ctx\<close> a context owns no address handle, afterwards it owns one.\<close>

definition ud_owns :: "ud_ctx \<Rightarrow> (res \<times> int) multiset" where
  "ud_owns c = add_mset (Qp, d_qp c) (plain_owns c)"

definition ud_owns_ah :: "ud_ctx \<Rightarrow> (res \<times> int) multiset" where
  "ud_owns_ah c = add_mset (Ah, d_ah c) (ud_owns c)"

lemma ud_updates [simp]:
  "plain_owns (c\<lparr>d_qp := x\<rparr>) = plain_owns c" "plain_owns (c\<lparr>d_qp_num := y\<rparr>) = plain_owns c"
  "plain_owns (c\<lparr>d_ah := x\<rparr>) = plain_owns c" "plain_ok (c\<lparr>d_ah := x\<rparr>) = plain_ok c"
  "plain_ok (c\<lparr>d_qp := x\<rparr>) = plain_ok c" "plain_ok (c\<lparr>d_qp_num := y\<rparr>) = plain_ok c"
  for c :: ud_ctx
  by (simp_all add: own_pl_defs)

lemma sat_ud_after_cq:
  assumes "plain_ok c" and "M = M0 + plain_owns c"
  shows "sat track (ud_after_cq E rx port c) M (made ud_owns plain_ok M0)"
  using assms unfolding ud_after_cq_def ud_clean_qp_def Let_def
  by (auto intro!: sat_intro sat_pl_clean_cq simp: track_calls ud_owns_def)

lemma sat_ud_init_ctx: "sat track (ud_init_ctx E ps dev sz rx port ev) M (made ud_owns plain_ok M)"
proof -
  have "continues (ud_after_cq E rx port) ud_owns plain_ok M m" for m
    unfolding continues_def by (simp add: sat_ud_after_cq)
  then show ?thesis unfolding ud_init_ctx_def
    by (auto intro!: sat_intro sat_pl_buffer simp: track_calls new_ud_ctx_def)
qed

text \<open>The outcome of connecting: an address handle exactly when the result is 0.\<close>

definition ud_connected ::
    "(res \<times> int) multiset \<Rightarrow> ud_ctx \<Rightarrow> int \<times> ud_ctx \<Rightarrow> (res \<times> int) multiset \<Rightarrow> bool" where
  "ud_connected M c r M' \<longleftrightarrow> ud_owns (snd r) = ud_owns c \<and> plain_ok (snd r) = plain_ok c
     \<and> M' = (if fst r = 0 then add_mset (Ah, d_ah (snd r)) M else M)"

lemma sat_ud_connect_ctx: "sat track (ud_connect_ctx E c port psn sl d gidx) M (ud_connected M c)"
  unfolding ud_connect_ctx_def Let_def
  by (auto intro!: sat_intro simp: track_simps ud_connected_def ud_owns_def)

lemma sat_ud_close_ctx:
  assumes "plain_ok c"
  shows "sat track (ud_close_ctx E c) (M + ud_owns_ah c) (\<lambda>r. given_back M (r = 0))"
  using assms unfolding ud_close_ctx_def
  by (auto intro!: sat_intro simp: track_simps ud_owns_ah_def ud_owns_def own_pl_defs given_back_def)

lemma sat_ud_client_exch_dest: "sat track (ud_client_exch_dest E k addrs nm port d) M (exchanged M)"
  using sat_pp_client_exch_dest unfolding ud_client_exch_dest_def pp_client_exch_dest_def .

text \<open>The server's exchange connects the context; when it fails later the handle stays with it.\<close>

definition ud_exchanged ::
    "(res \<times> int) multiset \<Rightarrow> ud_ctx \<Rightarrow> (ptr \<times> pp_dest) option \<times> ud_ctx \<Rightarrow> (res \<times> int) multiset \<Rightarrow> bool" where
  "ud_exchanged M c r M' \<longleftrightarrow> (case fst r of None \<Rightarrow> True | Some (p, d) \<Rightarrow>
     p \<noteq> 0 \<and> ud_owns (snd r) = ud_owns c \<and> plain_ok (snd r) = plain_ok c
     \<and> M' = add_mset (Heap, p) (add_mset (Ah, d_ah (snd r)) M))"

lemma sat_ud_server_talk:
  "sat track (ud_server_talk E k c ib sl d gidx s) (add_mset (Fd, s) M) (ud_exchanged M c)"
  unfolding ud_server_talk_def ud_server_answer_def out_label_def
  by (auto intro!: sat_intro sat_conseq [OF sat_ud_connect_ctx]
      simp: track_calls ud_connected_def ud_exchanged_def)

lemma sat_ud_server_exch_dest:
  "sat track (ud_server_exch_dest E k addrs c ib port sl d gidx) M (ud_exchanged M c)"
  unfolding ud_server_exch_dest_def
  by (auto intro!: sat_intro sat_conseq [OF sat_open_server] sat_ud_server_talk
      simp: opened_def ud_exchanged_def)

lemma held_ud_posts:
  "sat track (ud_post_recv E ctx n) M (unchanged M)" "sat track (ud_post_send E ctx qpn) M (unchanged M)"
  unfolding ud_post_recv_def ud_post_send_def
  by (auto intro!: sat_intro held_post_recv_loop simp: unchanged_def)

lemma held_ud_loop: "sat track (ud_loop E ctx qpn iters ev fuel st) M (quiet_opt M)"
  unfolding ud_loop_def ud_handle_wc_def by (intro held_pl_loop held_pl_handle_wc held_ud_posts)

lemma held_ud_run:
  assumes "plain_ok ctx" and "fst rd \<noteq> 0"
    and "M = M0 + {#(Heap, fst rd), (Device_list, dl)#} + ud_owns_ah ctx"
  shows "sat track (ud_run E fuel opt ctx dl rd pend0 routs0) M (clean_exit M0)"
proof -
  have close: "sat track (ud_close_ctx E ctx) M
      (\<lambda>r. given_back (M0 + {#(Heap, fst rd), (Device_list, dl)#}) (r = 0))"
    unfolding assms(3) by (rule sat_ud_close_ctx [OF assms(1)])
  have "sat track (ud_end E ctx dl (fst rd) st) M (\<lambda>r. clean_exit M0 (Some r))" for st
    using assms(2) unfolding ud_end_def
    by (auto intro!: sat_intro sat_conseq [OF close] simp: track_simps clean_exit_def given_back_def
        split: if_splits)
  note end_ok = sat_conseq [OF this]
  show ?thesis unfolding ud_run_def
    by (auto intro!: sat_intro sat_conseq [OF held_ud_loop] end_ok simp: track_calls quiet_opt_def clean_exit_def)
qed

text \<open>The client has no address handle until it connects, the server has got one in the exchange.\<close>

definition ud_ready :: "plain_opts \<Rightarrow> ud_ctx \<Rightarrow> (res \<times> int) multiset" where
  "ud_ready opt ctx = (if po_servername opt \<noteq> None then ud_owns ctx else ud_owns_ah ctx)"

lemma held_ud_start:
  assumes "plain_ok ctx" and "fst rd \<noteq> 0"
    and "M = M0 + {#(Heap, fst rd), (Device_list, dl)#} + ud_ready opt ctx"
  shows "sat track (ud_start E fuel opt ctx dl my routs0 rd) M (clean_exit M0)"
proof (cases "po_servername opt = None")
  case True
  with assms show ?thesis by (auto simp: ud_start_def ud_ready_def intro: held_ud_run)
next
  case False
  have run: "sat track (ud_run E fuel opt c dl rd pend0 routs0) M' (clean_exit M0)"
    if "ud_connected M ctx (r, c) M'" "r = 0" for r c M' pend0
    using that assms False
    by (auto simp: ud_connected_def ud_ready_def ud_owns_ah_def intro!: held_ud_run)
  from False show ?thesis unfolding ud_start_def
    by (auto intro!: sat_intro sat_conseq [OF sat_ud_connect_ctx] sat_conseq [OF held_ud_posts(2)]
        simp: unchanged_def clean_exit_def intro: run)
qed

lemma held_ud_exchange:
  assumes "plain_ok ctx" and "M = add_mset (Device_list, dl) M0 + ud_owns ctx"
  shows "sat track (ud_exchange E fuel k addrs opt ctx dl my routs0) M (clean_exit M0)"
proof -
  have c: "sat track (case rem of None \<Rightarrow> ret_io (Some 1)
       | Some rd \<Rightarrow> ud_start E fuel opt ctx dl my routs0 rd) M' (clean_exit M0)"
    if "po_servername opt \<noteq> None" "exchanged M rem M'" for rem M'
    using that assms by (auto intro!: sat_intro held_ud_start
        simp: ud_ready_def exchanged_def clean_exit_def split: prod.splits)
  have s: "sat track (case rem of None \<Rightarrow> ret_io (Some 1)
       | Some rd \<Rightarrow> ud_start E fuel opt c dl my routs0 rd) M' (clean_exit M0)"
    if "po_servername opt = None" "ud_exchanged M ctx (rem, c) M'" for rem c M'
    using that assms by (auto intro!: sat_intro held_ud_start
        simp: ud_ready_def ud_owns_ah_def ud_exchanged_def clean_exit_def split: prod.splits)
  show ?thesis
  proof (cases "po_servername opt")
    case None
    then show ?thesis unfolding ud_exchange_def
      by (auto intro!: sat_bind sat_case_prod sat_conseq [OF sat_ud_server_exch_dest] s)
  next
    case (Some nm)
    then show ?thesis unfolding ud_exchange_def
      by (auto intro!: sat_bind sat_case_prod sat_return sat_conseq [OF sat_ud_client_exch_dest] c)
  qed
qed

lemma held_ud_main_ctx:
  assumes "M = add_mset (Device_list, dl) M0"
  shows "sat track (ud_main_ctx E fuel k addrs psize opt dl ib_dev) M (clean_exit M0)"
proof -
  have a: "sat track (ud_address E fuel k addrs opt ctx dl routs0) M' (clean_exit M0)"
    if "plain_ok ctx" "M' = M + ud_owns ctx" for ctx routs0 M'
    using that assms unfolding ud_address_def pp_get_port_info_def Let_def
    by (auto intro!: sat_intro held_ud_exchange simp: track_calls clean_exit_def)
  show ?thesis unfolding ud_main_ctx_def
    by (auto intro!: sat_intro sat_conseq [OF sat_ud_init_ctx] sat_conseq [OF held_ud_posts(1)] a
        simp: made_def unchanged_def clean_exit_def split: option.splits)
qed

text \<open>The status 0 of \<open>main\<close> means that everything has been given back, the address handle included.\<close>

lemma held_ud_main: "sat track (ud_main E fuel k addrs devs psize cas args) M (clean_exit M)"
  unfolding ud_main_def
  by (auto intro!: sat_intro held_ud_main_ctx simp: track_simps clean_exit_def)

section \<open>The room for the routing header\<close>

text \<open>
  A datagram arrives with 40 bytes of routing header ahead of it.  The automaton knows the
  region that was registered last: a receive must take all of it, and a send must read what is
  left of it after the first 40 bytes, which is where the payload of a received message lies.
\<close>

definition payload :: "(int \<times> int) option \<Rightarrow> api \<Rightarrow> int \<Rightarrow> (int \<times> int) option option" where
  "payload s c r = (case c of
      Ibv (Reg_mr d a n x) \<Rightarrow> Some (if r \<noteq> 0 then Some (a, n) else s)
    | Data (Post_recv q ws) \<Rightarrow>
        if \<forall>w \<in> set ws. \<forall>g \<in> set (rwr_sges w). s = Some (sg_addr g, sg_length g) then Some s else None
    | Data (Post_send q ws) \<Rightarrow>
        if \<forall>w \<in> set ws. \<forall>g \<in> set (swr_sges w). s = Some (sg_addr g - 40, sg_length g + 40)
        then Some s else None
    | _ \<Rightarrow> Some s)"

lemma payload_simps [simp]:
  "payload s (Libc l) r = Some s"
  "payload s (Ibv (Reg_mr d a n x)) r = Some (if r \<noteq> 0 then Some (a, n) else s)"
  "payload s (Ibv (Open_device p)) r = Some s" "payload s (Ibv (Close_device p)) r = Some s"
  "payload s (Ibv (Create_comp_channel p)) r = Some s"
  "payload s (Ibv (Destroy_comp_channel p)) r = Some s"
  "payload s (Ibv (Alloc_pd p)) r = Some s" "payload s (Ibv (Dealloc_pd p)) r = Some s"
  "payload s (Ibv (Dereg_mr p)) r = Some s" "payload s (Ibv (Create_cq p n c)) r = Some s"
  "payload s (Ibv (Destroy_cq p)) r = Some s" "payload s (Ibv (Create_qp p t)) r = Some s"
  "payload s (Ibv (Destroy_qp p)) r = Some s" "payload s (Ibv (Modify_qp p qa m)) r = Some s"
  "payload s (Ibv (Create_ah p h)) r = Some s" "payload s (Ibv (Destroy_ah p)) r = Some s"
  "payload s (Ibv (Query_port p n)) r = Some s" "payload s (Ibv (Query_gid p n x')) r = Some s"
  "payload s (Ibv Get_device_list) r = Some s" "payload s (Ibv (Free_device_list p)) r = Some s"
  "payload s (Data (Req_notify_cq p)) r = Some s" "payload s (Data (Ack_cq_events p n)) r = Some s"
  by (simp_all add: payload_def)

lemma polls_free_payload: "polls_free payload"
  by (simp add: polls_free_def payload_def)

text \<open>The contexts whose region is the registered one; nothing else is ever connected or used.\<close>

definition roomy :: "int \<Rightarrow> ud_ctx \<Rightarrow> (int \<times> int) option \<Rightarrow> bool" where
  "roomy n c s \<longleftrightarrow> b_size c = n \<and> s = Some (b_buf c, n + 40)"

definition roomy_opt :: "int \<Rightarrow> ud_ctx option \<Rightarrow> (int \<times> int) option \<Rightarrow> bool" where
  "roomy_opt n r s \<longleftrightarrow> (case r of None \<Rightarrow> True | Some c \<Rightarrow> roomy n c s)"

lemma payload_clean:
  "sat payload (pl_clean_ctx E c) s (roomy_opt n)" "sat payload (pl_clean_buffer E c) s (roomy_opt n)"
  "sat payload (pl_clean_device E c) s (roomy_opt n)"
  "sat payload (pl_clean_comp_channel E c) s (roomy_opt n)"
  "sat payload (pl_clean_pd E c) s (roomy_opt n)" "sat payload (pl_clean_mr E c) s (roomy_opt n)"
  "sat payload (pl_clean_cq E c) s (roomy_opt n)" "sat payload (ud_clean_qp E c) s (roomy_opt n)"
  unfolding pl_clean_defs ud_clean_qp_def by (auto intro!: sat_intro simp: roomy_opt_def)

lemma payload_init: "sat payload (ud_init_ctx E ps dev n rx port ev) s (roomy_opt n)"
  unfolding ud_init_ctx_def pl_setup_defs ud_after_cq_def Let_def new_ud_ctx_def
  by (auto intro!: sat_intro payload_clean simp: roomy_opt_def roomy_def)

lemma payload_loops:
  "sat payload (connect_loop E ts fd) s (unchanged s)" "sat payload (bind_loop E ts fd) s (unchanged s)"
  by (induction ts arbitrary: fd) (auto intro!: sat_intro simp: unchanged_def)

lemma payload_open:
  "sat payload (open_client E addrs nm port) s (unchanged s)"
  "sat payload (open_server E addrs port) s (unchanged s)"
  unfolding open_client_def open_server_def
  by (auto intro!: sat_intro sat_conseq [OF payload_loops(1)] sat_conseq [OF payload_loops(2)]
      simp: unchanged_def)

lemma payload_connect: "roomy n c s \<Longrightarrow>
  sat payload (ud_connect_ctx E c port psn sl d gidx) s (\<lambda>r. roomy n (snd r))"
  unfolding ud_connect_ctx_def Let_def by (auto intro!: sat_intro simp: roomy_def)

lemma payload_client: "sat payload (ud_client_exch_dest E k addrs nm port d) s (unchanged s)"
  unfolding ud_client_exch_dest_def client_talk_def out_label_def Let_def
  by (auto intro!: sat_intro sat_conseq [OF payload_open(1)] simp: unchanged_def)

lemma payload_server: "roomy n c s \<Longrightarrow>
  sat payload (ud_server_exch_dest E k addrs c ib port sl d gidx) s (\<lambda>r. roomy n (snd r))"
  unfolding ud_server_exch_dest_def ud_server_talk_def ud_server_answer_def out_label_def
  by (auto intro!: sat_intro sat_conseq [OF payload_open(2)] sat_conseq [OF payload_connect]
      simp: unchanged_def)

definition fits :: "int \<Rightarrow> bool" where
  "fits n \<longleftrightarrow> 0 \<le> n \<and> n + 40 < 2 ^ 31"

lemma payload_posts:
  assumes "roomy n c s" and "fits n"
  shows "sat payload (ud_post_recv E c m) s (unchanged s)" "sat payload (ud_post_send E c qpn) s (unchanged s)"
proof -
  have "sat payload (post_recv_loop E q \<lparr>rwr_id = x, rwr_sges = [ud_recv_sge c]\<rparr> N i) s (unchanged s)"
    for q x N i
    using assms by (induction N arbitrary: i)
      (auto intro!: sat_intro simp: unchanged_def payload_def ud_recv_sge_def roomy_def fits_def)
  then show "sat payload (ud_post_recv E c m) s (unchanged s)" by (simp add: ud_post_recv_def)
  show "sat payload (ud_post_send E c qpn) s (unchanged s)" using assms unfolding ud_post_send_def
    by (auto intro!: sat_intro simp: unchanged_def payload_def ud_send_sge_def roomy_def fits_def)
qed

lemma payload_run:
  assumes "roomy n c s" and "fits n"
  shows "sat payload (ud_run E fuel opt c dl rd pend0 routs0) s (\<lambda>r s'. True)"
proof -
  note p = payload_posts [OF assms]
  have "sat payload (ud_loop E c q iters ev fuel st) s (quiet_opt s)" for q iters ev fuel st
    unfolding ud_loop_def ud_handle_wc_def
    by (intro keeps_pl_loop keeps_pl_handle_wc polls_free_payload p)
  note l = sat_conseq [OF this]
  show ?thesis unfolding ud_run_def ud_end_def ud_close_ctx_def by (auto intro!: sat_intro l)
qed

lemma payload_exchange:
  assumes "roomy n c s" and "fits n"
  shows "sat payload (ud_exchange E fuel k addrs opt c dl my routs0) s (\<lambda>r s'. True)"
proof -
  have start: "sat payload (ud_start E fuel opt c' dl my routs0 rd) s' (\<lambda>r s'. True)"
    if "roomy n c' s'" for c' s' rd
    using that assms(2) unfolding ud_start_def
    by (auto intro!: sat_intro payload_run sat_conseq [OF payload_connect]
        sat_conseq [OF payload_posts(2)] simp: unchanged_def)
  show ?thesis using assms(1) unfolding ud_exchange_def
    by (auto intro!: sat_intro sat_conseq [OF payload_client] sat_conseq [OF payload_server] start
        simp: unchanged_def split: option.splits)
qed

lemma payload_main_ctx:
  assumes "fits (po_size opt)"
  shows "sat payload (ud_main_ctx E fuel k addrs psize opt dl ib_dev) s (\<lambda>r s'. True)"
proof -
  have a: "sat payload (ud_address E fuel k addrs opt c dl routs0) s' (\<lambda>r s'. True)"
    if "roomy (po_size opt) c s'" for c routs0 s'
    using that assms unfolding ud_address_def pp_get_port_info_def Let_def
    by (auto intro!: sat_intro payload_exchange)
  show ?thesis using assms unfolding ud_main_ctx_def
    by (auto intro!: sat_intro sat_conseq [OF payload_init] sat_conseq [OF payload_posts(1)] a
        simp: roomy_opt_def unchanged_def)
qed

lemma plain_args_size: "plain_args args opt = Some opt' \<Longrightarrow> po_size opt' = po_size opt"
  by (auto simp: plain_args_def split: if_splits)

section \<open>Properties\<close>

text \<open>A server with one receive and no iterations, whose peer is polite.\<close>

definition ud_env :: api_env where
  "ud_env = const_env (\<lambda>c. case c of
       Libc (Recv fd n) \<Rightarrow> n | Libc (Write fd s) \<Rightarrow> int MSG_SIZE | Libc (Bind_sock s a) \<Rightarrow> 0
     | Libc Gettimeofday \<Rightarrow> 0 | Ibv (Destroy_ah p) \<Rightarrow> 0
     | _ \<Rightarrow> if status_call c then 0 else 3) (\<lambda>c. [])"

definition ud_cas :: "(char \<times> string) list" where
  "ud_cas = [(CHR ''n'', ''0''), (CHR ''r'', ''1'')]"

lemma ud_cas_opts: "ud_parse ud_cas ud_default = Some \<lparr>po_devname = None, po_servername = None,
    po_port = 18515, po_ib_port = 1, po_size = 1024, po_mtu = 3, po_rx_depth = 1, po_iters = 0,
    po_use_event = 0, po_sl = 0, po_gidx = - 1\<rparr>"
  by code_simp

lemma ud_run_ok: "\<exists>h. run_state (ud_main ud_env (Suc 0) no_stack [1] [(''mlx5_0'', 7)] 4096 ud_cas []) []
    = (Some 0, h) \<and> recvs h = 1"
  by (simp add: ud_main_def ud_cas_opts plain_args_def choose_dev_def
      ud_main_ctx_def ud_init_ctx_def pl_setup_defs ud_after_cq_def new_ud_ctx_def ud_post_recv_def
      ud_address_def pp_get_port_info_def ud_exchange_def ud_server_exch_dest_def open_server_def
      ud_server_talk_def ud_server_answer_def out_label_def ud_connect_ctx_def ud_start_def ud_run_def
      ud_loop_def ud_end_def ud_close_ctx_def run_simps ud_env_def const_env_def status_call_def Let_def
      MSG_SIZE_def)



text \<open>
  If the program over unreliable datagrams ends with the status 0, everything it acquired
  has been given back: the address handle, which only connecting makes, as well as the context.
\<close>

theorem ud_main_gives_back:
  assumes "run_state (ud_main E fuel k addrs devs psize cas args) [] = (Some 0, h)"
  shows "held h = Some {#}"
  using satD [OF held_ud_main _ assms] by (simp add: clean_exit_def)

theorem ud_main_gives_back_witness:
  "\<exists>h. run_state (ud_main ud_env (Suc 0) no_stack [1] [(''mlx5_0'', 7)] 4096 ud_cas []) [] = (Some 0, h)
     \<and> held h = Some {#}"
  using ud_run_ok ud_main_gives_back by blast

end
