(* ===== verification/DcWire.thy ===== *)
theory DcWire
  imports XrcExchange
begin

text \<open>
  dc.h and the messages of dcini.c and dctgt.c, the examples of the dynamically connected transport: a
  number of 6 digits, a LID of 4 and a key of 16, read back by conversions with a width.
\<close>

section \<open>dc.h\<close>

record dc_dest =
  dc_lid :: u32
  dc_rsn :: u32
  dc_key :: u64

definition to_ib_mtu :: "int \<Rightarrow> u32 option" where
  "to_ib_mtu m = (if m = 256 then Some 1 else if m = 512 then Some 2 else if m = 1024 then Some 3
     else if m = 2048 then Some 4 else if m = 4096 then Some 5 else None)"

text \<open>\<open>sizeof(MSG_FORMAT)\<close>, the NUL included.\<close>

definition DC_MSG_SIZE :: nat where
  "DC_MSG_SIZE = 29"

section \<open>Conversions\<close>

text \<open>\<open>strtoull(s, NULL, 0)\<close>: a value with a minus sign is negated as an unsigned one.\<close>

definition strtoull0 :: "string \<Rightarrow> u64" where
  "strtoull0 str = (case sign (dropWhile is_space str) of (neg, s) \<Rightarrow>
     word_of_int (signed neg (min (2 ^ 64 - 1)
       (if hex_prefix s \<and> digits 16 (drop 2 s) \<noteq> [] then num 16 (digits 16 (drop 2 s))
        else if take 1 s = ''0'' then num 8 (digits 8 s)
        else num 10 (digits 10 s)))))"

definition print_0x64 :: "nat \<Rightarrow> u64 \<Rightarrow> string" where
  "print_0x64 w x = (let ds = print_base 16 (unat x) in replicate (w - length ds) CHR ''0'' @ ds)"

text \<open>\<open>%6x\<close>, \<open>%4x\<close> and \<open>%16lx\<close> of \<open>sscanf\<close> take at most that many characters.\<close>

definition scan_xw :: "nat \<Rightarrow> string \<Rightarrow> (int \<times> string) option" where
  "scan_xw w str = (let s = dropWhile is_space str in case sign (take w s) of (neg, s0) \<Rightarrow>
     let t = (if hex_prefix s0 then drop 2 s0 else s0) in
     if digits 16 t = [] then None
     else Some (signed neg (min (2 ^ 64 - 1) (num 16 (digits 16 t))), after_digits 16 t @ drop w s))"

definition print_dc :: "u32 \<Rightarrow> u32 \<Rightarrow> string \<Rightarrow> string" where
  "print_dc rsn lid key = print_0x 6 rsn @ '':'' @ print_0x 4 lid @ '':'' @ key"

definition dc_msg :: "string \<Rightarrow> u32 \<Rightarrow> u32 \<Rightarrow> string \<Rightarrow> string" where
  "dc_msg old rsn lid key = take DC_MSG_SIZE (store_str (print_dc rsn lid key) old)"

text \<open>A colon and the next field; \<open>sscanf\<close> stops at the first one that does not match.\<close>

definition scan_dc_key :: "string \<Rightarrow> dc_dest \<Rightarrow> dc_dest" where
  "scan_dc_key s d = (case scan_lit '':'' s of None \<Rightarrow> d | Some s \<Rightarrow>
     (case scan_xw 16 s of None \<Rightarrow> d | Some (v, s) \<Rightarrow> d\<lparr>dc_key := word_of_int v\<rparr>))"

definition scan_dc_lid :: "string \<Rightarrow> dc_dest \<Rightarrow> dc_dest" where
  "scan_dc_lid s d = (case scan_lit '':'' s of None \<Rightarrow> d | Some s \<Rightarrow>
     (case scan_xw 4 s of None \<Rightarrow> d | Some (v, s) \<Rightarrow> scan_dc_key s (d\<lparr>dc_lid := word_of_int v\<rparr>)))"

definition scan_dc :: "string \<Rightarrow> dc_dest \<Rightarrow> dc_dest" where
  "scan_dc msg d = (case scan_xw 6 (cstr msg) of None \<Rightarrow> d
     | Some (v, s) \<Rightarrow> scan_dc_lid s (d\<lparr>dc_rsn := word_of_int v\<rparr>))"

section \<open>Round trip\<close>

lemma print_0x64_digits: "digit_string 16 (print_0x64 w x)"
  by (simp add: print_0x64_def Let_def print_base_digits)

lemma num_print_0x64: "num 16 (print_0x64 w x) = unat x"
  by (simp add: print_0x64_def Let_def num_append num_print_base)

lemma length_print_0x64: "length (print_0x64 16 x) = 16"
proof -
  have "unat x < 16 ^ 16" using unsigned_less [of x] by simp
  then have "length (print_base 16 (unat x)) \<le> 16" by (simp add: length_print_base)
  then show ?thesis by (simp add: print_0x64_def Let_def)
qed

lemma scan_xw_digits:
  assumes d: "digit_string 16 s" and l: "length s = w" "0 < w" and n: "num 16 s < 2 ^ 64"
  shows "scan_xw w (s @ t) = Some (int (num 16 s), t)"
proof -
  have ne: "s \<noteq> []" using l by auto
  have tk: "take w (s @ t) = s @ []" "drop w (s @ t) = t" using l by simp_all
  have "min (2 ^ 64 - 1) (num 16 s) = num 16 s" using n by simp
  then show ?thesis
    using digits_append [OF d order_refl, of "[]"] no_hex_prefix [OF d order_refl ne, of "[]"] ne
      digit_string_start(2) [OF d order_refl ne, of "[]"]
    by (simp only: scan_xw_def Let_def digit_string_start(1) [OF d order_refl ne] tk)
      (simp add: signed_def)
qed

lemma scan_xw_print:
  "unat x < 16 ^ w \<Longrightarrow> 0 < w \<Longrightarrow> scan_xw w (print_0x w x @ t) = Some (uint x, t)"
  using scan_xw_digits [OF print_0x_digits [of w x], of w t] unsigned_less [of x, where 'a = nat]
  by (simp add: length_print_0x num_print_0x)

lemma scan_xw_print64: "scan_xw 16 (print_0x64 16 x) = Some (uint x, [])"
  using scan_xw_digits [OF print_0x64_digits length_print_0x64, of x "[]"] unsigned_less [of x, where 'a = nat]
  by (simp add: num_print_0x64)

definition dc_fits :: "u32 \<Rightarrow> u32 \<Rightarrow> bool" where
  "dc_fits rsn lid \<longleftrightarrow> unat rsn < 2 ^ 24 \<and> unat lid < 2 ^ 16"

lemma dc_msg_eq:
  assumes "dc_fits rsn lid" and "digit_string 16 key" "length key = 16"
  shows "dc_msg old rsn lid key = print_dc rsn lid key @ [NUL]" "length (dc_msg old rsn lid key) = DC_MSG_SIZE"
    "cstr (dc_msg old rsn lid key) = print_dc rsn lid key"
proof -
  have l: "length (print_dc rsn lid key) = 28"
    using assms by (simp add: print_dc_def dc_fits_def length_print_0x [THEN iffD2])
  then show m: "dc_msg old rsn lid key = print_dc rsn lid key @ [NUL]"
    by (simp add: dc_msg_def store_str_def DC_MSG_SIZE_def)
  then show "length (dc_msg old rsn lid key) = DC_MSG_SIZE" by (simp add: l DC_MSG_SIZE_def)
  show "cstr (dc_msg old rsn lid key) = print_dc rsn lid key"
    unfolding m by (rule cstr_append_NUL) (use assms(2) in \<open>simp add: print_dc_def no_NUL_digits\<close>)
qed

lemma scan_dc_msg:
  assumes "dc_fits rsn lid"
  shows "scan_dc (dc_msg old rsn lid (print_0x64 16 key)) d = \<lparr>dc_lid = lid, dc_rsn = rsn, dc_key = key\<rparr>"
  using assms dc_msg_eq(3) [OF assms print_0x64_digits length_print_0x64]
  by (simp add: scan_dc_def print_dc_def scan_dc_lid_def scan_dc_key_def scan_xw_print scan_xw_print64 dc_fits_def)

interpretation dc_wire: wire_codec "\<lambda>d. dc_fits (dc_rsn d) (dc_lid d)"
    "\<lambda>d. dc_msg old (dc_rsn d) (dc_lid d) (print_0x64 16 (dc_key d))" "\<lambda>m. scan_dc m d" DC_MSG_SIZE
  for old d
  by unfold_locales (simp_all add: dc_msg_eq(2) print_0x64_digits length_print_0x64 scan_dc_msg)

end
