(* ===== verification/DcTarget.thy ===== *)
theory DcTarget
  imports DcWire
begin

text \<open>
  dctgt.c, the target of the dynamically connected transport: its context, the receives, the thread
  that answers initiators over TCP, the thread that watches the events of the target, and \<open>main\<close>.
\<close>

section \<open>State and receives\<close>

record dct_ctx =
  t_cq :: ptr
  t_pd :: ptr
  t_mr :: ptr
  t_lkey :: int
  t_srq :: ptr
  t_ctx :: ptr
  t_addr :: ptr
  t_length :: int
  t_port :: int
  t_dct_key :: u64
  t_size :: u32
  t_ib_port :: int
  t_mtu :: u32
  t_rcv_idx :: int
  t_lid :: u32
  t_dct :: ptr
  t_dct_num :: u32
  t_inl :: int
  t_use_ooo :: bool
  t_gidx :: int

definition dct_init_ctx :: dct_ctx where
  "dct_init_ctx = \<lparr>t_cq = 0, t_pd = 0, t_mr = 0, t_lkey = 0, t_srq = 0, t_ctx = 0, t_addr = 0,
     t_length = 0, t_port = 18515, t_dct_key = 0x1234, t_size = 4096, t_ib_port = 1, t_mtu = 3,
     t_rcv_idx = 0, t_lid = 0, t_dct = 0, t_dct_num = 0, t_inl = 0, t_use_ooo = False, t_gidx = - 1\<rparr>"

text \<open>
  The place of the next receive: the product is one of unsigned integers, the index one of a signed
  integer that counts up for ever.
\<close>

definition dct_slot :: "dct_ctx \<Rightarrow> int" where
  "dct_slot c = t_addr c + uint (t_size c * word_of_int (c_rem (t_rcv_idx c) 32))"

definition dct_recv_wr :: "dct_ctx \<Rightarrow> recv_wr" where
  "dct_recv_wr c = \<lparr>rwr_id = 0,
     rwr_sges = [\<lparr>sg_addr = dct_slot c, sg_length = uint (t_size c), sg_lkey = t_lkey c\<rparr>]\<rparr>"

fun dct_post_recv :: "api_env \<Rightarrow> nat \<Rightarrow> int \<Rightarrow> dct_ctx \<Rightarrow> (int \<times> dct_ctx) prog" where
  "dct_post_recv E 0 i c = ret_io (i, c)"
| "dct_post_recv E (Suc n) i c = do {
     r \<leftarrow> invoke E (Data (Post_srq_recv (t_srq c) [dct_recv_wr c]));
     if r \<noteq> 0 then ret_io (i, c\<lparr>t_rcv_idx := to_int32 (t_rcv_idx c + 1)\<rparr>)
     else dct_post_recv E n (i + 1) (c\<lparr>t_rcv_idx := to_int32 (t_rcv_idx c + 1)\<rparr>) }"

section \<open>The exchange and its thread\<close>

text \<open>With a connection: one read of the whole message, the answer, the label \<open>out\<close>.\<close>

definition dct_answer :: "api_env \<Rightarrow> dc_dest \<Rightarrow> dct_ctx \<Rightarrow> int \<Rightarrow> (ptr \<times> dc_dest) option prog" where
  "dct_answer E junk c connfd = do {
     (n, msg) \<leftarrow> invoke_bytes E (Libc (Read connfd (int DC_MSG_SIZE)));
     if n \<noteq> int DC_MSG_SIZE then do { invoke E (Libc (Close connfd)); ret_io None }
     else do {
       p \<leftarrow> invoke E (Libc (Malloc ''rem_dest''));
       if p = 0 then do { invoke E (Libc (Close connfd)); ret_io None }
       else do {
         w \<leftarrow> invoke E (Libc (Write connfd (dc_msg msg (t_dct_num c) (t_lid c) (print_0x64 16 (t_dct_key c)))));
         if w \<noteq> int DC_MSG_SIZE then do {
           invoke E (Libc (Free p));
           invoke E (Libc (Close connfd));
           ret_io None
         } else do {
           invoke E (Libc (Close connfd));
           ret_io (Some (p, scan_dc msg junk)) } } } }"

definition dct_exch_dest ::
    "api_env \<Rightarrow> dc_dest \<Rightarrow> ptr list \<Rightarrow> dct_ctx \<Rightarrow> (ptr \<times> dc_dest) option prog" where
  "dct_exch_dest E junk addrs c = do {
     r \<leftarrow> invoke E (Libc (Asprintf (t_port c)));
     if r < 0 then ret_io None
     else do {
       n \<leftarrow> invoke E (Libc (Getaddrinfo None (t_port c)));
       if n < 0 then do { invoke E (Libc Free_service); ret_io None }
       else do {
         sockfd \<leftarrow> bind_loop E addrs (- 1);
         invoke E (Libc Freeaddrinfo);
         invoke E (Libc Free_service);
         if sockfd < 0 then ret_io None
         else do {
           err \<leftarrow> invoke E (Libc (Listen_sock sockfd 1));
           if err \<noteq> 0 then ret_io None
           else do {
             connfd \<leftarrow> invoke E (Libc (Accept_sock sockfd));
             invoke E (Libc (Close sockfd));
             if connfd < 0 then ret_io None else dct_answer E junk c connfd } } } } }"

text \<open>
  \<open>handle_clients\<close>: \<open>active\<close> is what \<open>thread_active\<close>, which \<open>main\<close> clears, holds at each check.  The
  result is \<open>Some True\<close> when the thread returns and \<open>Some False\<close> when it ends the process.
\<close>

fun handle_clients ::
    "api_env \<Rightarrow> nat \<Rightarrow> (trace \<Rightarrow> bool) \<Rightarrow> dc_dest \<Rightarrow> ptr list \<Rightarrow> dct_ctx \<Rightarrow> bool option prog" where
  "handle_clients E 0 active junk addrs c = ret_io None"
| "handle_clients E (Suc fuel) active junk addrs c = do {
     a \<leftarrow> peek active;
     if \<not> a then ret_io (Some True)
     else do {
       r \<leftarrow> dct_exch_dest E junk addrs c;
       case r of None \<Rightarrow> ret_io (Some False) | Some d \<Rightarrow> handle_clients E fuel active junk addrs c } }"

fun poll_async :: "api_env \<Rightarrow> nat \<Rightarrow> dct_ctx \<Rightarrow> unit option prog" where
  "poll_async E 0 c = ret_io None"
| "poll_async E (Suc fuel) c = do {
     err \<leftarrow> invoke E (Ibv (Arm_dct (t_dct c)));
     if err \<noteq> 0 then ret_io (Some ())
     else do {
       r \<leftarrow> invoke E (Ibv (Get_async_event (t_ctx c)));
       if r \<noteq> 0 then ret_io (Some ())
       else do { invoke E (Ibv Ack_async_event); poll_async E fuel c } } }"

section \<open>Options\<close>

record dct_opts =
  to_devname :: "string option"
  to_iters :: int
  to_ctx :: dct_ctx

definition dct_default :: dct_opts where
  "dct_default = \<lparr>to_devname = None, to_iters = 0, to_ctx = dct_init_ctx\<rparr>"

definition set_dct :: "(dct_ctx \<Rightarrow> dct_ctx) \<Rightarrow> dct_opts \<Rightarrow> dct_opts" where
  "set_dct f opt = opt\<lparr>to_ctx := f (to_ctx opt)\<rparr>"

text \<open>\<open>-e\<close> only counts, and nothing looks at the count.\<close>

definition dct_opt :: "char \<times> string \<Rightarrow> dct_opts \<Rightarrow> dct_opts option" where
  "dct_opt ca opt = (case ca of (o', optarg) \<Rightarrow> let v = strtol_int optarg in
     if o' = CHR ''p'' then (if v < 0 \<or> v > 65535 then None else Some (set_dct (\<lambda>c. c\<lparr>t_port := v\<rparr>) opt))
     else if o' = CHR ''d'' then Some (opt\<lparr>to_devname := Some optarg\<rparr>)
     else if o' = CHR ''l'' then (if v < 0 then None else Some (set_dct (\<lambda>c. c\<lparr>t_inl := v\<rparr>) opt))
     else if o' = CHR ''i'' then (if v < 0 then None else Some (set_dct (\<lambda>c. c\<lparr>t_ib_port := v\<rparr>) opt))
     else if o' = CHR ''m'' then
       (case to_ib_mtu v of None \<Rightarrow> None | Some m \<Rightarrow> Some (set_dct (\<lambda>c. c\<lparr>t_mtu := m\<rparr>) opt))
     else if o' = CHR ''s'' then Some (set_dct (\<lambda>c. c\<lparr>t_size := word_of_int (strtol0 optarg)\<rparr>) opt)
     else if o' = CHR ''n'' then Some (opt\<lparr>to_iters := v\<rparr>)
     else if o' = CHR ''e'' then Some opt
     else if o' = CHR ''k'' then Some (set_dct (\<lambda>c. c\<lparr>t_dct_key := strtoull0 optarg\<rparr>) opt)
     else if o' = CHR ''b'' then Some (set_dct (\<lambda>c. c\<lparr>t_use_ooo := True\<rparr>) opt)
     else if o' = CHR ''g'' then Some (set_dct (\<lambda>c. c\<lparr>t_gidx := v\<rparr>) opt)
     else None)"

fun dct_parse :: "(char \<times> string) list \<Rightarrow> dct_opts \<Rightarrow> dct_opts option" where
  "dct_parse [] opt = Some opt"
| "dct_parse (ca # cas) opt = (case dct_opt ca opt of None \<Rightarrow> None | Some opt' \<Rightarrow> dct_parse cas opt')"

section \<open>main\<close>

text \<open>The loop over the completions; without a number of iterations it runs for ever.\<close>

fun dct_loop :: "api_env \<Rightarrow> nat \<Rightarrow> int \<Rightarrow> int \<Rightarrow> dct_ctx \<Rightarrow> int option prog" where
  "dct_loop E 0 iters i c = ret_io (if i < iters \<or> iters = 0 then None else Some 0)"
| "dct_loop E (Suc fuel) iters i c =
    (if i < iters \<or> iters = 0 then do {
       p \<leftarrow> poll_one E (Suc fuel) (t_cq c);
       case p of None \<Rightarrow> ret_io None
       | Some (n, wcs) \<Rightarrow>
           if n < 0 then ret_io (Some (- 1))
           else if wc_status (hd wcs) \<noteq> 0 then dct_loop E fuel iters (to_int32 (i + 1)) c
           else do {
             (r, c) \<leftarrow> dct_post_recv E 1 0 c;
             if r \<noteq> 1 then ret_io (Some (- 1)) else dct_loop E fuel iters (to_int32 (i + 1)) c }
     } else ret_io (Some 0))"

text \<open>The end: the threads are cancelled, the first is waited for, and only the target is destroyed.\<close>

definition dct_finish :: "api_env \<Rightarrow> dct_ctx \<Rightarrow> int prog" where
  "dct_finish E c = do {
     invoke E (Libc (Pthread_cancel ''handle_clients''));
     invoke E (Libc (Pthread_cancel ''poll_async''));
     err \<leftarrow> invoke E (Libc (Pthread_join ''handle_clients''));
     if err \<noteq> 0 then ret_io (- 1)
     else do { invoke E (Ibv (Destroy_dct (t_dct c))); ret_io 0 } }"

definition dct_run :: "api_env \<Rightarrow> nat \<Rightarrow> int \<Rightarrow> dct_ctx \<Rightarrow> int option prog" where
  "dct_run E fuel iters c = do {
     (r, a) \<leftarrow> invoke_attr E (Ibv (Query_port (t_ctx c) (t_ib_port c)));
     if r \<noteq> 0 then ret_io (Some 1)
     else do {
       let c = c\<lparr>t_lid := take_bit 16 (word_of_int (a ''lid''))\<rparr>;
       err \<leftarrow> invoke E (Libc (Pthread_create ''handle_clients''));
       if err \<noteq> 0 then ret_io (Some (- 1))
       else do {
         err \<leftarrow> invoke E (Libc (Pthread_create ''poll_async''));
         if err \<noteq> 0 then ret_io (Some (- 1))
         else do {
           s \<leftarrow> dct_loop E fuel iters 0 c;
           if s \<noteq> Some 0 then ret_io s
           else do { e \<leftarrow> dct_finish E c; ret_io (Some e) } } } } }"

definition dct_attr :: "dct_ctx \<Rightarrow> dct_init" where
  "dct_attr c = \<lparr>di_pd = t_pd c, di_cq = t_cq c, di_srq = t_srq c, di_key = t_dct_key c, di_port = t_ib_port c,
     di_access = {REMOTE_WRITE}, di_min_rnr_timer = 2, di_mtu = t_mtu c,
     di_gid_index = (if t_gidx c \<ge> 0 then t_gidx c else 0), di_hop_limit = 64, di_ooo = t_use_ooo c,
     di_inline_size = t_inl c\<rparr>"

text \<open>\<open>IBV_EXP_DCT_STATE_ACTIVE\<close> is 0.\<close>

definition dct_make_target :: "api_env \<Rightarrow> nat \<Rightarrow> int \<Rightarrow> dct_ctx \<Rightarrow> int option prog" where
  "dct_make_target E fuel iters c = do {
     (d, a) \<leftarrow> invoke_attr E (Ibv (Create_dct (t_ctx c) (dct_attr c)));
     if d = 0 then ret_io (Some (- 1))
     else do {
       (err, b) \<leftarrow> invoke_attr E (Ibv (Query_dct d));
       if err \<noteq> 0 then ret_io (Some (- 1))
       else if word_of_int (b ''dc_key'') \<noteq> t_dct_key c then ret_io (Some (- 1))
       else if b ''state'' \<noteq> 0 then ret_io (Some (- 1))
       else dct_run E fuel iters (c\<lparr>t_dct := d, t_dct_num := word_of_int (a ''dct_num'')\<rparr>) } }"

definition dct_make_srq :: "api_env \<Rightarrow> nat \<Rightarrow> int \<Rightarrow> dct_ctx \<Rightarrow> int option prog" where
  "dct_make_srq E fuel iters c = do {
     s \<leftarrow> invoke E (Ibv (Create_srq (t_pd c) 100 1));
     if s = 0 then ret_io (Some (- 1))
     else do {
       invoke E (Ibv (Get_srq_num s));
       (n, c) \<leftarrow> dct_post_recv E 100 0 (c\<lparr>t_srq := s\<rparr>);
       if n \<noteq> 100 then ret_io (Some (- 1)) else dct_make_target E fuel iters c } }"

text \<open>\<open>32 * ctx.size\<close> is a product of unsigned integers.\<close>

definition dct_make_pd :: "api_env \<Rightarrow> nat \<Rightarrow> int \<Rightarrow> dct_ctx \<Rightarrow> int option prog" where
  "dct_make_pd E fuel iters c = do {
     p \<leftarrow> invoke E (Ibv (Alloc_pd (t_ctx c)));
     if p = 0 then ret_io (Some 1)
     else do {
       let len = uint (32 * t_size c);
       b \<leftarrow> invoke E (Libc (Malloc ''addr''));
       if b = 0 then ret_io (Some (- 1))
       else do {
         (m, a) \<leftarrow> invoke_attr E (Ibv (Reg_mr p b len {REMOTE_WRITE, LOCAL_WRITE, REMOTE_READ}));
         if m = 0 then ret_io (Some (- 1))
         else do {
           q \<leftarrow> invoke E (Ibv (Create_cq (t_ctx c) 128 0));
           if q = 0 then ret_io (Some (- 1))
           else do {
             let c = c\<lparr>t_pd := p, t_length := len, t_addr := b, t_mr := m, t_lkey := a ''lkey'', t_cq := q\<rparr>;
             g \<leftarrow> when_io (t_gidx c \<ge> 0) (invoke E (Ibv (Query_gid (t_ctx c) (t_ib_port c) (t_gidx c))));
             if g \<noteq> 0 then ret_io (Some 1) else dct_make_srq E fuel iters c } } } } }"

text \<open>What the device must be able to do; a bit of the mask or of the capabilities is a field here.\<close>

definition dct_capable :: "bool \<Rightarrow> (string \<Rightarrow> int) \<Rightarrow> bool" where
  "dct_capable ooo a \<longleftrightarrow> a ''EXP_CAP_FLAGS'' \<noteq> 0 \<and> a ''DC_TRANSPORT'' \<noteq> 0 \<and> a ''DC_RD_REQ'' \<noteq> 0
     \<and> a ''DC_RD_RES'' \<noteq> 0 \<and> (ooo \<longrightarrow> a ''OOO_CAPS'' \<noteq> 0 \<and> a ''dc_ooo_placement'' \<noteq> 0)"

definition dct_main ::
    "api_env \<Rightarrow> nat \<Rightarrow> (string \<times> ptr) list \<Rightarrow> (char \<times> string) list \<Rightarrow> string list \<Rightarrow> int option prog" where
  "dct_main E fuel devs cas args =
    (case dct_parse cas dct_default of None \<Rightarrow> ret_io (Some 1)
     | Some opt \<Rightarrow> if args \<noteq> [] then ret_io (Some 1)
       else do {
         dev_list \<leftarrow> invoke E (Ibv Get_device_list);
         if dev_list = 0 then ret_io (Some 1)
         else (case choose_dev (to_devname opt) devs of None \<Rightarrow> ret_io (Some 1)
         | Some dev \<Rightarrow> do {
             d \<leftarrow> invoke E (Ibv (Open_device dev));
             if d = 0 then ret_io (Some 1)
             else do {
               (err, a) \<leftarrow> invoke_attr E (Ibv (Query_device d
                  {''EXP_CAP_FLAGS'', ''DC_RD_REQ'', ''DC_RD_RES'', ''OOO_CAPS''}));
               if err \<noteq> 0 \<or> \<not> dct_capable (t_use_ooo (to_ctx opt)) a then ret_io (Some (- 1))
               else dct_make_pd E fuel (to_iters opt) ((to_ctx opt)\<lparr>t_ctx := d\<rparr>) } }) })"

section \<open>Where the receives go\<close>

text \<open>
  The automaton: the region registered last, with its length, and the number of receives posted.  Each of the
  first \<open>2 ^ 31\<close> receives must take its place in the region, the one of its number modulo 32.
\<close>

type_synonym slots_st = "(int \<times> int) option \<times> nat"

definition slot_ok :: "u32 \<Rightarrow> slots_st \<Rightarrow> recv_wr list \<Rightarrow> bool" where
  "slot_ok sz st wrs \<longleftrightarrow> (case st of (None, k) \<Rightarrow> False
     | (Some (a, len), k) \<Rightarrow> (case wrs of
         [w] \<Rightarrow> (case rwr_sges w of
             [g] \<Rightarrow> sg_addr g = a + uint sz * (int k mod 32) \<and> a \<le> sg_addr g
               \<and> sg_addr g + sg_length g \<le> a + len
           | _ \<Rightarrow> False)
       | _ \<Rightarrow> False))"

definition slots :: "u32 \<Rightarrow> slots_st \<Rightarrow> api \<Rightarrow> int \<Rightarrow> slots_st option" where
  "slots sz st c r = (case c of
      Ibv (Reg_mr p b len acc) \<Rightarrow> Some (if r \<noteq> 0 then (Some (b, len), snd st) else st)
    | Data (Post_srq_recv s wrs) \<Rightarrow>
        if snd st < 2 ^ 31 \<longrightarrow> slot_ok sz st wrs then Some (fst st, Suc (snd st)) else None
    | _ \<Rightarrow> Some st)"

lemma slots_simps:
  "slots sz st (Libc l) r = Some st" "slots sz st (Data (Poll_cq q n)) r = Some st"
  "slots sz st (Ibv (Reg_mr p b len acc)) r = Some (if r \<noteq> 0 then (Some (b, len), snd st) else st)"
  "slots sz st (Data (Post_srq_recv s wrs)) r =
    (if snd st < 2 ^ 31 \<longrightarrow> slot_ok sz st wrs then Some (fst st, Suc (snd st)) else None)"
  "slots sz st (Ibv Get_device_list) r = Some st" "slots sz st (Ibv (Open_device d)) r = Some st"
  "slots sz st (Ibv (Query_device d m)) r = Some st" "slots sz st (Ibv (Alloc_pd d)) r = Some st"
  "slots sz st (Ibv (Create_cq d n ch)) r = Some st" "slots sz st (Ibv (Query_gid d n m')) r = Some st"
  "slots sz st (Ibv (Create_srq d n n')) r = Some st" "slots sz st (Ibv (Get_srq_num d)) r = Some st"
  "slots sz st (Ibv (Create_dct d t)) r = Some st" "slots sz st (Ibv (Query_dct d)) r = Some st"
  "slots sz st (Ibv (Destroy_dct d)) r = Some st" "slots sz st (Ibv (Query_port d n)) r = Some st"
  by (simp_all add: slots_def)

text \<open>A context whose region is registered and whose index is the number of receives posted.\<close>

definition slots_inv :: "u32 \<Rightarrow> dct_ctx \<Rightarrow> slots_st \<Rightarrow> bool" where
  "slots_inv sz c st \<longleftrightarrow> t_size c = sz \<and> unat sz < 2 ^ 27
     \<and> fst st = Some (t_addr c, uint (32 * sz)) \<and> (snd st \<le> 2 ^ 31 - 1 \<longrightarrow> t_rcv_idx c = int (snd st))"

lemma slots_inv_updates [simp]:
  "slots_inv sz (c\<lparr>t_lid := l\<rparr>) st = slots_inv sz c st" "slots_inv sz (c\<lparr>t_srq := p\<rparr>) st = slots_inv sz c st"
  "slots_inv sz (c\<lparr>t_dct := p\<rparr>) st = slots_inv sz c st" "slots_inv sz (c\<lparr>t_dct_num := l\<rparr>) st = slots_inv sz c st"
  by (simp_all add: slots_inv_def)

lemma uint_slot:
  assumes "unat (sz :: u32) < 2 ^ 27" and "0 \<le> i" "i < 32"
  shows "uint (sz * word_of_int i) = uint sz * i" and "uint (32 * sz) = 32 * uint sz"
proof -
  have "int (unat sz) < int (2 ^ 27)" using assms(1) by (simp only: of_nat_less_iff)
  then have sz: "uint sz < 134217728" "0 \<le> uint sz" by simp_all
  have "uint sz * i \<le> uint sz * 31" using assms(2,3) sz(2) by (intro mult_left_mono) auto
  then have "uint sz * i < 4294967296" using sz(1) by linarith
  then show "uint (sz * word_of_int i) = uint sz * i"
    using assms(2,3) sz(2) by (simp add: uint_word_ariths uint_word_of_int)
  show "uint (32 * sz) = 32 * uint sz" using sz by (simp add: uint_word_ariths)
qed

lemma slot_ok_next:
  assumes "slots_inv sz c st" and "snd st < 2 ^ 31"
  shows "slot_ok sz st [dct_recv_wr c]"
proof -
  obtain k where st: "st = (Some (t_addr c, uint (32 * sz)), k)" and k: "t_rcv_idx c = int k"
    and sz: "unat sz < 2 ^ 27" and c: "t_size c = sz"
    using assms by (cases st) (auto simp: slots_inv_def)
  have i: "0 \<le> int k mod 32" "int k mod 32 < 32" by simp_all
  note u = uint_slot [OF sz i]
  have "uint sz * (int k mod 32) \<le> uint sz * 31" using i by (intro mult_left_mono) auto
  moreover have "c_rem (int k) 32 = int k mod 32" by simp
  ultimately show ?thesis
    by (simp add: st slot_ok_def dct_recv_wr_def dct_slot_def k c u del: c_rem_nonneg)
qed

lemma slots_inv_next:
  assumes "slots_inv sz c st"
  shows "slots_inv sz (c\<lparr>t_rcv_idx := to_int32 (t_rcv_idx c + 1)\<rparr>) (fst st, Suc (snd st))"
  using assms to_int32_id [of "1 + int (snd st)"] by (auto simp: slots_inv_def)

definition kept_slots :: "u32 \<Rightarrow> int \<times> dct_ctx \<Rightarrow> slots_st \<Rightarrow> bool" where
  "kept_slots sz r st \<longleftrightarrow> slots_inv sz (snd r) st"

lemma sat_dct_post_recv: "slots_inv sz c st \<Longrightarrow> sat (slots sz) (dct_post_recv E n i c) st (kept_slots sz)"
proof (induction n arbitrary: i c st)
  case (Suc n)
  have step: "sat (slots sz) (dct_post_recv E n (i + 1) (c\<lparr>t_rcv_idx := to_int32 (t_rcv_idx c + 1)\<rparr>))
      (fst st, Suc (snd st)) (kept_slots sz)"
    by (rule Suc.IH [OF slots_inv_next [OF Suc.prems]])
  have stop: "kept_slots sz (i, c\<lparr>t_rcv_idx := to_int32 (t_rcv_idx c + 1)\<rparr>) (fst st, Suc (snd st))"
    using slots_inv_next [OF Suc.prems] by (simp add: kept_slots_def)
  show ?case unfolding dct_post_recv.simps
    by (rule sat_bind, rule sat_invoke)
      (simp add: slots_simps slot_ok_next [OF Suc.prems] sat_return stop step)
qed (auto intro!: sat_intro simp: kept_slots_def)

lemma sat_slots_poll: "sat (slots sz) (poll_one E fuel q) st (unchanged st)"
  by (induction fuel) (auto intro!: sat_intro simp: slots_simps unchanged_def)

lemma sat_dct_loop: "slots_inv sz c st \<Longrightarrow> sat (slots sz) (dct_loop E fuel iters i c) st (\<lambda>r st. True)"
proof (induction fuel arbitrary: i c st)
  case (Suc fuel)
  have post: "sat (slots sz) (do { (r, c) \<leftarrow> dct_post_recv E 1 0 c;
      if r \<noteq> 1 then ret_io (Some (- 1)) else dct_loop E fuel iters (to_int32 (i + 1)) c }) st (\<lambda>r st. True)"
    by (rule sat_bind, rule sat_conseq [OF sat_dct_post_recv [OF Suc.prems]])
      (auto intro!: sat_case_prod sat_if sat_return Suc.IH simp: kept_slots_def)
  have body: "sat (slots sz) (case p of None \<Rightarrow> ret_io None
       | Some (n, wcs) \<Rightarrow>
           if n < 0 then ret_io (Some (- 1))
           else if wc_status (hd wcs) \<noteq> 0 then dct_loop E fuel iters (to_int32 (i + 1)) c
           else do {
             (r, c) \<leftarrow> dct_post_recv E 1 0 c;
             if r \<noteq> 1 then ret_io (Some (- 1)) else dct_loop E fuel iters (to_int32 (i + 1)) c })
      st (\<lambda>r st. True)" for p
    using post Suc.IH [OF Suc.prems]
    by (cases p) (simp_all add: sat_return split: prod.split del: dct_post_recv.simps One_nat_def)
  have "sat (slots sz) (do { p \<leftarrow> poll_one E (Suc fuel) (t_cq c); k p }) st (\<lambda>r st. True)"
    if "\<And>p. sat (slots sz) (k p) st (\<lambda>r st. True)" for k
    by (rule sat_bind, rule sat_conseq [OF sat_slots_poll]) (use that in \<open>simp add: unchanged_def\<close>)
  from this [OF body] show ?case unfolding dct_loop.simps by (rule sat_if) (simp_all add: sat_return)
qed (auto intro!: sat_intro)

lemma sat_dct_run: "slots_inv sz c st \<Longrightarrow> sat (slots sz) (dct_run E fuel iters c) st (\<lambda>r st. True)"
  unfolding dct_run_def dct_finish_def Let_def
  by (auto intro!: sat_intro sat_conseq [OF sat_dct_loop [of sz]] simp: slots_simps)

lemma sat_dct_make_srq:
  "slots_inv sz c st \<Longrightarrow> sat (slots sz) (dct_make_srq E fuel iters c) st (\<lambda>r st. True)"
proof -
  assume c: "slots_inv sz c st"
  have t: "sat (slots sz) (dct_make_target E fuel iters c) st (\<lambda>r st. True)" if "slots_inv sz c st" for c st
    using that unfolding dct_make_target_def
    by (auto intro!: sat_intro sat_dct_run simp: slots_simps)
  have "slots_inv sz (c\<lparr>t_srq := s\<rparr>) st" for s using c by (simp add: slots_inv_def)
  then show ?thesis unfolding dct_make_srq_def
    by (auto intro!: sat_intro sat_conseq [OF sat_dct_post_recv] t simp: slots_simps kept_slots_def
        simp del: dct_post_recv.simps)
qed

lemma sat_dct_make_pd:
  assumes "unat (t_size c) < 2 ^ 27" and "t_rcv_idx c = 0" "snd st = 0"
  shows "sat (slots (t_size c)) (dct_make_pd E fuel iters c) st (\<lambda>r st. True)"
  using assms unfolding dct_make_pd_def Let_def
  by (auto intro!: sat_intro sat_dct_make_srq simp: slots_simps slots_inv_def)

lemma dct_parse_idx: "dct_parse cas opt = Some opt' \<Longrightarrow> t_rcv_idx (to_ctx opt') = t_rcv_idx (to_ctx opt)"
proof (induction cas arbitrary: opt)
  case (Cons ca cas)
  then obtain o1 where o1: "dct_opt ca opt = Some o1" "dct_parse cas o1 = Some opt'" by (auto split: option.splits)
  have "t_rcv_idx (to_ctx o1) = t_rcv_idx (to_ctx opt)"
    using o1(1) by (cases ca) (auto simp: dct_opt_def set_dct_def Let_def split: if_splits option.splits)
  then show ?case using Cons.IH [OF o1(2)] by simp
qed simp

lemma sat_dct_main:
  assumes "dct_parse cas dct_default = Some opt" and "unat (t_size (to_ctx opt)) < 2 ^ 27" and "snd st = 0"
  shows "sat (slots (t_size (to_ctx opt))) (dct_main E fuel devs cas args) st (\<lambda>r st. True)"
proof -
  have idx: "t_rcv_idx (to_ctx opt) = 0"
    using dct_parse_idx [OF assms(1)] by (simp add: dct_default_def dct_init_ctx_def)
  have "sat (slots (t_size (to_ctx opt))) (dct_make_pd E fuel iters ((to_ctx opt)\<lparr>t_ctx := d\<rparr>)) st (\<lambda>r st. True)" for d iters
    using sat_dct_make_pd [of "(to_ctx opt)\<lparr>t_ctx := d\<rparr>" st E fuel iters] idx assms(2,3) by simp
  then show ?thesis unfolding dct_main_def assms(1) option.case
    by (auto intro!: sat_intro simp: slots_simps)
qed

text \<open>An adapter and a network for concrete runs: every pointer is 1, the key is the one asked for.\<close>

definition dct_env :: api_env where
  "dct_env = \<lparr>ret = (\<lambda>h c. case c of Libc (Read fd n) \<Rightarrow> n | Libc (Write fd s) \<Rightarrow> int (length s)
       | Libc (Pthread_create f) \<Rightarrow> 0 | Libc (Listen_sock fd n) \<Rightarrow> 0 | Libc (Bind_sock s a) \<Rightarrow> 0
       | Libc (Connect_sock s a) \<Rightarrow> 0
       | Data (Poll_cq q n) \<Rightarrow> 1 | Ibv (Query_dct d) \<Rightarrow> 0 | _ \<Rightarrow> if status_call c then 0 else 1),
     data_in = (\<lambda>h c. []), attr_in = (\<lambda>h c a. if a = ''dc_key'' then 0x1234 else if a = ''state'' then 0 else 1),
     wcs_in = (\<lambda>h c. [\<lparr>wc_wr_id = 0, wc_status = 0, wc_opcode = WC_RECV, wc_imm = 0, wc_qp_num = 1\<rparr>])\<rparr>"

section \<open>Properties\<close>



end
