(* ===== verification/DcInitiator.thy ===== *)
theory DcInitiator
  imports DcTarget
begin

text \<open>
  dcini.c, the initiator: its context, the exchange with the target, the states of its queue pair, the
  send, write and read tests and \<open>main\<close>.
\<close>

section \<open>State\<close>

record dci_ctx =
  i_qp :: ptr
  i_qpn :: u32
  i_cq :: ptr
  i_pd :: ptr
  i_mr :: ptr
  i_lkey :: int
  i_ah :: ptr
  i_ctx :: ptr
  i_addr :: ptr
  i_length :: int
  i_remote :: dc_dest
  i_dct_key :: u64
  i_key_defined :: bool
  i_port_lid :: u32
  i_ib_port :: int
  i_mtu :: u32
  i_sl :: int
  i_gid_index :: int
  i_use_gid :: bool
  i_dgid :: gid
  i_use_ooo :: bool
  i_rkey_defined :: bool
  i_rkey :: u32
  i_raddr :: u64

text \<open>
  \<open>i_remote\<close> holds what the target told: \<open>dct_number\<close>, \<open>lid\<close> and \<open>remote_dct_key\<close>, 0 before.
\<close>

definition dci_init_ctx :: dci_ctx where
  "dci_init_ctx = \<lparr>i_qp = 0, i_qpn = 0, i_cq = 0, i_pd = 0, i_mr = 0, i_lkey = 0, i_ah = 0, i_ctx = 0,
     i_addr = 0, i_length = 0, i_remote = \<lparr>dc_lid = 0, dc_rsn = 0, dc_key = 0\<rparr>, i_dct_key = 0,
     i_key_defined = False, i_port_lid = 0, i_ib_port = 1, i_mtu = 3, i_sl = 0, i_gid_index = 0,
     i_use_gid = False, i_dgid = zero_gid, i_use_ooo = False, i_rkey_defined = False, i_rkey = 0, i_raddr = 0\<rparr>"

section \<open>The queue pair\<close>

definition dci_init_attr :: "dci_ctx \<Rightarrow> qp_attr" where
  "dci_init_attr c = zero_qp_attr\<lparr>qp_state := QPS_INIT, port_num := i_ib_port c, qa_dct_key := i_dct_key c\<rparr>"

text \<open>The attributes of the later steps are those of the one before, changed.\<close>

definition dci_rtr_attr :: "dci_ctx \<Rightarrow> qp_attr" where
  "dci_rtr_attr c = (dci_init_attr c)\<lparr>qp_state := QPS_RTR, path_mtu := i_mtu c,
     av := (if i_use_gid c
            then zero_ah\<lparr>is_global := 1, grh_sgid_index := i_gid_index c, grh_hop_limit := 64, grh_dgid := i_dgid c\<rparr>
            else zero_ah)\<lparr>dlid := dc_lid (i_remote c), ah_port_num := i_ib_port c, ah_sl := i_sl c\<rparr>\<rparr>"

definition dci_rts_attr :: "dci_ctx \<Rightarrow> qp_attr" where
  "dci_rts_attr c = (dci_rtr_attr c)\<lparr>qp_state := QPS_RTS, timeout := 14, retry_cnt := 7, rnr_retry := 7,
     max_rd_atomic := 1\<rparr>"

definition dci_to_rts :: "api_env \<Rightarrow> dci_ctx \<Rightarrow> int prog" where
  "dci_to_rts E c = do {
     r \<leftarrow> invoke E (Ibv (Modify_qp (i_qp c) (dci_init_attr c) {M_STATE, M_PKEY_INDEX, M_PORT, M_DC_KEY}));
     if r \<noteq> 0 then ret_io 1
     else do {
       r \<leftarrow> invoke E (Ibv (Modify_qp (i_qp c) (dci_rtr_attr c)
              ({M_STATE, M_PATH_MTU, M_AV} \<union> (if i_use_ooo c then {M_OOO_RW_DATA_PLACEMENT} else {}))));
       if r \<noteq> 0 then ret_io 1
       else do {
         r \<leftarrow> invoke E (Ibv (Modify_qp (i_qp c) (dci_rts_attr c)
                {M_STATE, M_TIMEOUT, M_RETRY_CNT, M_RNR_RETRY, M_MAX_QP_RD_ATOMIC}));
         ret_io (if r \<noteq> 0 then 1 else 0) } } }"

section \<open>The exchange\<close>

text \<open>
  A write that fails is reported and the read tried all the same.  Only a failing read closes the
  socket.  Without a key of its own the initiator uses the target's.
\<close>

definition dci_talk :: "api_env \<Rightarrow> string \<Rightarrow> dci_ctx \<Rightarrow> int \<Rightarrow> (int \<times> dci_ctx) prog" where
  "dci_talk E junk c sockfd = do {
     let m = dc_msg junk (i_qpn c) (i_port_lid c) ''0000000000000000'';
     w \<leftarrow> invoke E (Libc (Write sockfd m));
     (err, msg) \<leftarrow> invoke_bytes E (Libc (Read sockfd (int DC_MSG_SIZE)));
     if err \<noteq> int DC_MSG_SIZE then do { invoke E (Libc (Close sockfd)); ret_io (- 1, c) }
     else do {
       let c = c\<lparr>i_remote := scan_dc msg (i_remote c)\<rparr>;
       ret_io (0, if i_key_defined c then c else c\<lparr>i_dct_key := dc_key (i_remote c)\<rparr>) } }"

definition dci_exch_dest ::
    "api_env \<Rightarrow> string \<Rightarrow> ptr list \<Rightarrow> dci_ctx \<Rightarrow> string option \<Rightarrow> int \<Rightarrow> (int \<times> dci_ctx) prog" where
  "dci_exch_dest E junk addrs c servername port = do {
     r \<leftarrow> invoke E (Libc (Asprintf port));
     if r < 0 then ret_io (- 1, c)
     else do {
       n \<leftarrow> invoke E (Libc (Getaddrinfo servername port));
       if n < 0 then do { invoke E (Libc Free_service); ret_io (- 1, c) }
       else do {
         sockfd \<leftarrow> connect_loop E addrs (- 1);
         invoke E (Libc Freeaddrinfo);
         invoke E (Libc Free_service);
         if sockfd < 0 then ret_io (- 1, c) else dci_talk E junk c sockfd } } }"

section \<open>The tests\<close>

datatype dc_test = DC_SEND_TEST | DC_READ_TEST | DC_WRITE_TEST

fun dci_opcode :: "dc_test \<Rightarrow> send_opcode" where
  "dci_opcode DC_SEND_TEST = WR_SEND"
| "dci_opcode DC_WRITE_TEST = WR_RDMA_WRITE"
| "dci_opcode DC_READ_TEST = WR_RDMA_READ"

definition dci_wr :: "dci_ctx \<Rightarrow> dc_test \<Rightarrow> send_wr" where
  "dci_wr c ty = \<lparr>swr_id = 0, swr_opcode = dci_opcode ty,
     swr_sges = [\<lparr>sg_addr = i_addr c, sg_length = i_length c mod 2 ^ 32, sg_lkey = i_lkey c\<rparr>],
     swr_signaled = True, swr_imm = 0, swr_remote_addr = (if ty = DC_SEND_TEST then 0 else uint (i_raddr c)),
     swr_rkey = (if ty = DC_SEND_TEST then 0 else uint (i_rkey c)), swr_ah = i_ah c, swr_remote_qpn = 0,
     swr_remote_qkey = 0, swr_remote_srqn = 0, swr_dct_key = i_dct_key c, swr_dct_number = dc_rsn (i_remote c)\<rparr>"

text \<open>
  One request at a time; \<open>err\<close> is what the function returns after the last, the value of an
  uninitialised variable (\<open>junk\<close>) when there was none.
\<close>

fun dci_test_loop :: "api_env \<Rightarrow> nat \<Rightarrow> dci_ctx \<Rightarrow> dc_test \<Rightarrow> nat \<Rightarrow> int \<Rightarrow> int option prog" where
  "dci_test_loop E fuel c ty 0 err = ret_io (Some err)"
| "dci_test_loop E fuel c ty (Suc n) err = do {
     r \<leftarrow> invoke E (Data (Post_send (i_qp c) [dci_wr c ty]));
     if r \<noteq> 0 then ret_io (Some r)
     else do {
       p \<leftarrow> poll_one E fuel (i_cq c);
       case p of None \<Rightarrow> ret_io None
       | Some (k, wcs) \<Rightarrow> if k < 0 then ret_io (Some (- 1))
           else if wc_status (hd wcs) \<noteq> 0 then ret_io (Some (- 1))
           else dci_test_loop E fuel c ty n r } }"

definition run_send_rdma_test :: "api_env \<Rightarrow> nat \<Rightarrow> int \<Rightarrow> dci_ctx \<Rightarrow> int \<Rightarrow> dc_test \<Rightarrow> int option prog" where
  "run_send_rdma_test E fuel junk c iters ty = dci_test_loop E fuel c ty (nat iters) junk"

definition dci_nop_wr :: send_wr where
  "dci_nop_wr = \<lparr>swr_id = 0, swr_opcode = WR_NOP, swr_sges = [], swr_signaled = True, swr_imm = 0,
     swr_remote_addr = 0, swr_rkey = 0, swr_ah = 0, swr_remote_qpn = 0, swr_remote_qkey = 0,
     swr_remote_srqn = 0, swr_dct_key = 0, swr_dct_number = 0\<rparr>"

definition dci_send_nop :: "api_env \<Rightarrow> nat \<Rightarrow> dci_ctx \<Rightarrow> int option prog" where
  "dci_send_nop E fuel c = do {
     err \<leftarrow> invoke E (Data (Post_send (i_qp c) [dci_nop_wr]));
     if err \<noteq> 0 then ret_io (Some err)
     else do {
       p \<leftarrow> poll_one E fuel (i_cq c);
       ret_io (case p of None \<Rightarrow> None | Some (k, wcs) \<Rightarrow>
         Some (if k < 0 \<or> wc_status (hd wcs) \<noteq> 0 then - 1 else 0)) } }"

section \<open>Options\<close>

record dci_opts =
  io_devname :: "string option"
  io_servername :: "string option"
  io_port :: int
  io_size :: int
  io_iters :: int
  io_check_nop :: bool
  io_dgid_given :: bool
  io_ctx :: dci_ctx

definition dci_default :: dci_opts where
  "dci_default = \<lparr>io_devname = None, io_servername = None, io_port = 18515, io_size = 4096, io_iters = 1000,
     io_check_nop = False, io_dgid_given = False, io_ctx = dci_init_ctx\<rparr>"

definition set_dci :: "(dci_ctx \<Rightarrow> dci_ctx) \<Rightarrow> dci_opts \<Rightarrow> dci_opts" where
  "set_dci f opt = opt\<lparr>io_ctx := f (io_ctx opt)\<rparr>"

text \<open>
  \<open>pton\<close> stands for \<open>inet_pton(AF_INET6, \<dots>)\<close>.  \<open>-e\<close> and \<open>-c\<close> only count; \<open>-t\<close>, with an argument,
  is in the list of getopt and not in the switch.
\<close>

definition dci_opt :: "(string \<Rightarrow> gid option) \<Rightarrow> char \<times> string \<Rightarrow> dci_opts \<Rightarrow> dci_opts option" where
  "dci_opt pton ca opt = (case ca of (o', optarg) \<Rightarrow> let v = strtol_int optarg in
     if o' = CHR ''p'' then (if v < 0 \<or> v > 65535 then None else Some (opt\<lparr>io_port := v\<rparr>))
     else if o' = CHR ''k'' then
       Some (set_dci (\<lambda>c. c\<lparr>i_dct_key := strtoull0 optarg, i_key_defined := True\<rparr>) opt)
     else if o' = CHR ''d'' then Some (opt\<lparr>io_devname := Some optarg\<rparr>)
     else if o' = CHR ''i'' then (if v < 0 then None else Some (set_dci (\<lambda>c. c\<lparr>i_ib_port := v\<rparr>) opt))
     else if o' = CHR ''s'' then Some (opt\<lparr>io_size := v\<rparr>)
     else if o' = CHR ''n'' then Some (opt\<lparr>io_iters := v\<rparr>)
     else if o' = CHR ''e'' \<or> o' = CHR ''c'' then Some opt
     else if o' = CHR ''m'' then
       (case to_ib_mtu v of None \<Rightarrow> None | Some m \<Rightarrow> Some (set_dci (\<lambda>c. c\<lparr>i_mtu := m\<rparr>) opt))
     else if o' = CHR ''a'' then Some (opt\<lparr>io_check_nop := True\<rparr>)
     else if o' = CHR ''l'' then Some (set_dci (\<lambda>c. c\<lparr>i_sl := v\<rparr>) opt)
     else if o' = CHR ''g'' then
       Some (set_dci (\<lambda>c. c\<lparr>i_gid_index := strtol0 optarg mod 2 ^ 16, i_use_gid := True\<rparr>) opt)
     else if o' = CHR ''r'' then
       (case pton optarg of None \<Rightarrow> None
        | Some g \<Rightarrow> Some (set_dci (\<lambda>c. c\<lparr>i_dgid := g\<rparr>) (opt\<lparr>io_dgid_given := True\<rparr>)))
     else if o' = CHR ''b'' then Some (set_dci (\<lambda>c. c\<lparr>i_use_ooo := True\<rparr>) opt)
     else if o' = CHR ''K'' then
       Some (set_dci (\<lambda>c. c\<lparr>i_rkey := word_of_int (strtol0 optarg), i_rkey_defined := True\<rparr>) opt)
     else if o' = CHR ''A'' then Some (set_dci (\<lambda>c. c\<lparr>i_raddr := strtoull0 optarg\<rparr>) opt)
     else None)"

fun dci_parse :: "(string \<Rightarrow> gid option) \<Rightarrow> (char \<times> string) list \<Rightarrow> dci_opts \<Rightarrow> dci_opts option" where
  "dci_parse pton [] opt = Some opt"
| "dci_parse pton (ca # cas) opt =
    (case dci_opt pton ca opt of None \<Rightarrow> None | Some opt' \<Rightarrow> dci_parse pton cas opt')"

definition dci_args :: "string list \<Rightarrow> dci_opts \<Rightarrow> dci_opts option" where
  "dci_args args opt =
    (if length args > 1 then None
     else if args = [] then Some opt
     else if i_use_gid (io_ctx opt) \<and> \<not> io_dgid_given opt then None
     else Some (opt\<lparr>io_servername := Some (hd args)\<rparr>))"

section \<open>main\<close>

definition dci_tests :: "api_env \<Rightarrow> nat \<Rightarrow> int \<Rightarrow> int \<Rightarrow> dci_ctx \<Rightarrow> int option prog" where
  "dci_tests E fuel junk iters c = do {
     r \<leftarrow> run_send_rdma_test E fuel junk c iters DC_SEND_TEST;
     if r = None then ret_io None
     else if r \<noteq> Some 0 then ret_io (Some (- 1))
     else if i_rkey_defined c \<and> i_raddr c \<noteq> 0 then do {
       r \<leftarrow> run_send_rdma_test E fuel junk c iters DC_WRITE_TEST;
       if r = None then ret_io None
       else if r \<noteq> Some 0 then ret_io (Some (- 1))
       else do {
         r \<leftarrow> run_send_rdma_test E fuel junk c iters DC_READ_TEST;
         ret_io (if r = None then None else if r \<noteq> Some 0 then Some (- 1) else Some 0) }
     } else ret_io (Some 0) }"

definition dci_ah :: "dci_ctx \<Rightarrow> ah_attr" where
  "dci_ah c = (let a = zero_ah\<lparr>dlid := dc_lid (i_remote c), ah_sl := i_sl c, ah_port_num := i_ib_port c\<rparr> in
     if i_use_gid c
     then a\<lparr>is_global := 1, grh_hop_limit := 64, grh_sgid_index := i_gid_index c, grh_dgid := i_dgid c\<rparr> else a)"

definition dci_connected :: "api_env \<Rightarrow> nat \<Rightarrow> int \<Rightarrow> dci_opts \<Rightarrow> dci_ctx \<Rightarrow> int option prog" where
  "dci_connected E fuel junk opt c = do {
     a \<leftarrow> invoke E (Ibv (Create_ah (i_pd c) (dci_ah c)));
     if a = 0 then ret_io (Some (- 1))
     else do {
       let c = c\<lparr>i_ah := a\<rparr>;
       err \<leftarrow> dci_to_rts E c;
       if err \<noteq> 0 then ret_io (Some (- 1))
       else do {
         n \<leftarrow> (if io_check_nop opt then dci_send_nop E fuel c else ret_io (Some 0));
         if n \<noteq> Some 0 then ret_io n else dci_tests E fuel junk (io_iters opt) c } } }"

definition dci_qp_init :: "dci_ctx \<Rightarrow> qp_init" where
  "dci_qp_init c = zero_qp_init\<lparr>send_cq := i_cq c, recv_cq := i_cq c, max_send_wr := 100, max_send_sge := 1,
     qi_type := QPT_DC_INI, qi_pd := i_pd c, qi_comp_mask := {''PD''}\<rparr>"

definition dci_make_qp ::
    "api_env \<Rightarrow> nat \<Rightarrow> int \<Rightarrow> string \<Rightarrow> ptr list \<Rightarrow> dci_opts \<Rightarrow> dci_ctx \<Rightarrow> int option prog" where
  "dci_make_qp E fuel junk jmsg addrs opt c = do {
     (q, a) \<leftarrow> invoke_attr E (Ibv (Create_qp (i_ctx c) (dci_qp_init c)));
     if q = 0 then ret_io (Some (- 1))
     else do {
       (r, c) \<leftarrow> dci_exch_dest E jmsg addrs (c\<lparr>i_qp := q, i_qpn := word_of_int (a ''qp_num'')\<rparr>)
                    (io_servername opt) (io_port opt);
       if r \<noteq> 0 then ret_io (Some (- 1)) else dci_connected E fuel junk opt c } }"

text \<open>\<open>ctx.length = size\<close> makes a \<open>size_t\<close> of an \<open>int\<close>.\<close>

definition dci_make_pd ::
    "api_env \<Rightarrow> nat \<Rightarrow> int \<Rightarrow> string \<Rightarrow> ptr list \<Rightarrow> dci_opts \<Rightarrow> dci_ctx \<Rightarrow> int option prog" where
  "dci_make_pd E fuel junk jmsg addrs opt c = do {
     p \<leftarrow> invoke E (Ibv (Alloc_pd (i_ctx c)));
     if p = 0 then ret_io (Some 1)
     else do {
       let len = io_size opt mod 2 ^ 64;
       b \<leftarrow> invoke E (Libc (Malloc ''addr''));
       if b = 0 then ret_io (Some (- 1))
       else do {
         (r, pa) \<leftarrow> invoke_attr E (Ibv (Query_port (i_ctx c) (i_ib_port c)));
         if r \<noteq> 0 then ret_io (Some 1)
         else do {
           (m, a) \<leftarrow> invoke_attr E (Ibv (Reg_mr p b len {REMOTE_WRITE, LOCAL_WRITE}));
           if m = 0 then ret_io (Some (- 1))
           else do {
             q \<leftarrow> invoke E (Ibv (Create_cq (i_ctx c) 128 0));
             if q = 0 then ret_io (Some (- 1))
             else dci_make_qp E fuel junk jmsg addrs opt
               (c\<lparr>i_pd := p, i_length := len, i_addr := b, i_port_lid := take_bit 16 (word_of_int (pa ''lid'')),
                  i_mr := m, i_lkey := a ''lkey'', i_cq := q\<rparr>) } } } } }"

definition dci_main ::
    "api_env \<Rightarrow> nat \<Rightarrow> int \<Rightarrow> string \<Rightarrow> (string \<Rightarrow> gid option) \<Rightarrow> ptr list \<Rightarrow> (string \<times> ptr) list
      \<Rightarrow> (char \<times> string) list \<Rightarrow> string list \<Rightarrow> int option prog" where
  "dci_main E fuel junk jmsg pton addrs devs cas args =
    (case dci_parse pton cas dci_default of None \<Rightarrow> ret_io (Some 1)
     | Some opt \<Rightarrow> (case dci_args args opt of None \<Rightarrow> ret_io (Some 1)
       | Some opt \<Rightarrow> do {
           dev_list \<leftarrow> invoke E (Ibv Get_device_list);
           if dev_list = 0 then ret_io (Some 1)
           else (case choose_dev (io_devname opt) devs of None \<Rightarrow> ret_io (Some 1)
           | Some dev \<Rightarrow> do {
               d \<leftarrow> invoke E (Ibv (Open_device dev));
               if d = 0 then ret_io (Some 1)
               else dci_make_pd E fuel junk jmsg addrs opt ((io_ctx opt)\<lparr>i_ctx := d\<rparr>) }) }))"

section \<open>One request at a time\<close>

text \<open>
  The automaton counts the requests posted and the completions taken: a request may be posted only when
  all before it have completed.
\<close>

definition in_turn :: "nat \<times> nat \<Rightarrow> api \<Rightarrow> int \<Rightarrow> (nat \<times> nat) option" where
  "in_turn st c r = (case c of
      Data (Post_send q ws) \<Rightarrow> if fst st = snd st then Some (if r = 0 then (fst st + 1, snd st) else st) else None
    | Data (Poll_cq q k) \<Rightarrow> Some (if 0 < r then (fst st, snd st + 1) else st)
    | _ \<Rightarrow> Some st)"

lemma in_turn_simps:
  "in_turn st (Data (Post_send q ws)) r = (if fst st = snd st then Some (if r = 0 then (fst st + 1, snd st) else st) else None)"
  "in_turn st (Data (Poll_cq q k)) r = Some (if 0 < r then (fst st, snd st + 1) else st)"
  by (simp_all add: in_turn_def)

definition polled :: "nat \<times> nat \<Rightarrow> (int \<times> wc list) option \<Rightarrow> nat \<times> nat \<Rightarrow> bool" where
  "polled st p st' \<longleftrightarrow> (case p of None \<Rightarrow> st' = st
     | Some (k, wcs) \<Rightarrow> st' = (if 0 < k then (fst st, snd st + 1) else st) \<and> k \<noteq> 0)"

lemma sat_turn_poll: "sat in_turn (poll_one E fuel q) st (polled st)"
  by (induction fuel) (auto intro!: sat_intro simp: in_turn_simps polled_def)

text \<open>The outcome of a test over \<open>n\<close> requests started with \<open>a\<close> posted and completed.\<close>

definition tested :: "nat \<Rightarrow> nat \<Rightarrow> int \<Rightarrow> int option \<Rightarrow> nat \<times> nat \<Rightarrow> bool" where
  "tested a n err r st \<longleftrightarrow> a \<le> fst st \<and> fst st \<le> a + n \<and> snd st \<le> fst st
     \<and> (r = Some 0 \<longrightarrow> st = (a + n, a + n) \<and> (n = 0 \<longrightarrow> err = 0))"

lemma tested_step: "tested (Suc a) n 0 r st \<Longrightarrow> tested a (Suc n) err r st"
  by (auto simp: tested_def)

lemma sat_dci_test_loop: "sat in_turn (dci_test_loop E fuel c ty n err) (a, a) (tested a n err)"
proof (induction n arbitrary: a err)
  case 0
  then show ?case by (auto intro!: sat_intro simp: tested_def)
next
  case (Suc n)
  have step: "sat in_turn (dci_test_loop E fuel c ty n 0) (Suc a, Suc a) (tested a (Suc n) err)"
    by (rule sat_conseq [OF Suc tested_step])
  have rest: "sat in_turn (case p of None \<Rightarrow> ret_io None
      | Some (k, wcs) \<Rightarrow> if k < 0 then ret_io (Some (- 1))
          else if wc_status (hd wcs) \<noteq> 0 then ret_io (Some (- 1))
          else dci_test_loop E fuel c ty n 0) st (tested a (Suc n) err)"
    if "polled (Suc a, a) p st" for p st
    using that step by (cases p) (auto simp: polled_def tested_def intro!: sat_return split: if_splits)
  have posted: "sat in_turn (do { p \<leftarrow> poll_one E fuel (i_cq c);
       case p of None \<Rightarrow> ret_io None
       | Some (k, wcs) \<Rightarrow> if k < 0 then ret_io (Some (- 1))
           else if wc_status (hd wcs) \<noteq> 0 then ret_io (Some (- 1))
           else dci_test_loop E fuel c ty n 0 }) (Suc a, a) (tested a (Suc n) err)"
    by (rule sat_bind, rule sat_conseq [OF sat_turn_poll], rule rest)
  have fail: "tested a (Suc n) err (Some r) (a, a)" if "r \<noteq> 0" for r
    using that by (simp add: tested_def)
  show ?case unfolding dci_test_loop.simps
    by (rule sat_bind, rule sat_invoke) (auto simp: in_turn_simps sat_return fail intro: posted)
qed

section \<open>Properties\<close>

text \<open>
  A test of the initiator posts one request at a time and at most the number asked for, whatever the
  adapter answers, and returns 0 only when every one of them was accepted and has completed; with no
  iterations it posts nothing and returns the value of a variable that was never set.
\<close>

theorem dc_test_in_turn:
  assumes "run_state (run_send_rdma_test E fuel junk c iters ty) [] = (r, h)"
  shows "\<exists>posted taken. obs in_turn (0, 0) h = Some (posted, taken) \<and> posted \<le> nat iters \<and> taken \<le> posted
    \<and> (r = Some 0 \<longrightarrow> posted = nat iters \<and> taken = nat iters) \<and> (iters \<le> 0 \<longrightarrow> r = Some junk \<and> h = [])"
proof -
  have "\<exists>st. obs in_turn (0, 0) h = Some st \<and> tested 0 (nat iters) junk r st"
    using satD [OF sat_dci_test_loop [of E fuel c ty "nat iters" junk 0], of "(0, 0)" "[]" r h] assms
    by (simp add: run_send_rdma_test_def)
  moreover have "iters \<le> 0 \<longrightarrow> r = Some junk \<and> h = []"
    using assms by (auto simp: run_send_rdma_test_def run_simps)
  ultimately show ?thesis by (auto simp: tested_def)
qed

theorem dc_test_in_turn_witness:
  "\<exists>posted taken. obs in_turn (0, 0) (snd (run_state (run_send_rdma_test dct_env (Suc 0) 7 dci_init_ctx 2 DC_SEND_TEST) []))
     = Some (posted, taken) \<and> posted \<le> 2"
  using dc_test_in_turn [OF surjective_pairing, of dct_env "Suc 0" 7 dci_init_ctx 2 DC_SEND_TEST] by auto

lemma run_dct_answer:
  assumes "run_state (dct_answer E junk t fd) g = (Some (p, d), g')"
  shows "d = scan_dc (bytes_of E g (Libc (Read fd (int DC_MSG_SIZE)))) junk"
    and "written g' = written g @ [dc_msg (bytes_of E g (Libc (Read fd (int DC_MSG_SIZE)))) (t_dct_num t) (t_lid t)
        (print_0x64 16 (t_dct_key t))]"
  using assms by (auto simp: dct_answer_def run_simps bytes_of_def split: if_splits)

lemma run_dci_talk:
  assumes "run_state (dci_talk E junk i fd) h = ((0, i'), h')"
  defines "m \<equiv> Libc (Write fd (dc_msg junk (i_qpn i) (i_port_lid i) ''0000000000000000''))"
  shows "i_remote i' = scan_dc (bytes_of E ((m, ret E h m) # h) (Libc (Read fd (int DC_MSG_SIZE)))) (i_remote i)"
    and "i_dct_key i' = (if i_key_defined i then i_dct_key i else dc_key (i_remote i'))"
    and "written h' = written h @ [dc_msg junk (i_qpn i) (i_port_lid i) ''0000000000000000'']"
  using assms by (auto simp: dci_talk_def run_simps bytes_of_def Let_def m_def split: if_splits)

lemma zero_key: "''0000000000000000'' = print_0x64 16 0"
proof -
  have "print_base 16 0 = ''0''" by (subst print_base.simps) (simp add: digit_char_def)
  then show ?thesis by (simp add: print_0x64_def) (simp add: numeral_eq_Suc)
qed

text \<open>
  C35: An initiator and a target that exchange their messages agree: the initiator sends its requests to the
  number and the LID of the target and, unless it was given a key of its own, with the target's key,
  all 64 bits of it; the target has read the number of the initiator's queue pair and its LID.
\<close>

theorem dc_exchange_agreement:
  assumes "run_state (dct_answer E junk t fd) g = (Some (p, d), g')"
    and "run_state (dci_talk E' junk' i fd') h = ((0, i'), h')"
    and "dc_fits (t_dct_num t) (t_lid t)" and "dc_fits (i_qpn i) (i_port_lid i)"
    and "\<And>x. written g' = written g @ [bytes_of E' x (Libc (Read fd' (int DC_MSG_SIZE)))]"
    and "\<And>x. written h' = written h @ [bytes_of E x (Libc (Read fd (int DC_MSG_SIZE)))]"
  shows "swr_dct_number (dci_wr i' ty) = t_dct_num t \<and> dlid (dci_ah i') = t_lid t
    \<and> dlid (av (dci_rtr_attr i')) = t_lid t
    \<and> swr_dct_key (dci_wr i' ty) = (if i_key_defined i then i_dct_key i else t_dct_key t)
    \<and> dc_rsn d = i_qpn i \<and> dc_lid d = i_port_lid i"
proof -
  note ans = run_dct_answer [OF assms(1)] and talk = run_dci_talk [OF assms(2)]
  have "i_remote i' = \<lparr>dc_lid = t_lid t, dc_rsn = t_dct_num t, dc_key = t_dct_key t\<rparr>"
    using talk(1) ans(2) assms(5) scan_dc_msg [OF assms(3)] by auto
  moreover have "d = \<lparr>dc_lid = i_port_lid i, dc_rsn = i_qpn i, dc_key = 0\<rparr>"
    using talk(3) ans(1) assms(6) scan_dc_msg [OF assms(4)] by (auto simp: zero_key)
  ultimately show ?thesis using talk(2)
    by (simp add: dci_wr_def dci_ah_def dci_rtr_attr_def Let_def)
qed

definition demo_target :: dct_ctx where
  "demo_target = dct_init_ctx\<lparr>t_dct_num := 0x81, t_lid := 5, t_dct_key := 0xfedcba9876543210\<rparr>"

definition demo_initiator :: dci_ctx where
  "demo_initiator = dci_init_ctx\<lparr>i_qpn := 0x77, i_port_lid := 9\<rparr>"

text \<open>A network that delivers \<open>m\<close>.\<close>

definition dc_net :: "string \<Rightarrow> api_env" where
  "dc_net m = dct_env\<lparr>data_in := \<lambda>h c. m\<rparr>"

lemma dc_net_bytes: "length m = DC_MSG_SIZE \<Longrightarrow> bytes_of (dc_net m) x (Libc (Read fd (int DC_MSG_SIZE))) = m"
  by (simp add: bytes_of_def dc_net_def dct_env_def)

theorem dc_exchange_agreement_witness:
  "\<exists>i' h'. run_state (dci_talk (dc_net (dc_msg [] 0x81 5 (print_0x64 16 0xfedcba9876543210))) [] demo_initiator 4) []
      = ((0, i'), h') \<and> swr_dct_key (dci_wr i' DC_SEND_TEST) = 0xfedcba9876543210"
proof -
  let ?mt = "dc_msg [] 0x81 5 (print_0x64 16 0xfedcba9876543210)"
  let ?mi = "dc_msg [] 0x77 9 (print_0x64 16 0)"
  have fits: "dc_fits 0x81 5" "dc_fits 0x77 9" by (simp_all add: dc_fits_def)
  have same: "dc_msg old 0x81 5 (print_0x64 16 0xfedcba9876543210) = ?mt" "dc_msg old 0x77 9 (print_0x64 16 0) = ?mi" for old
    by (simp_all add: dc_msg_eq(1) fits print_0x64_digits length_print_0x64)
  have len: "length (dc_msg old 0x81 5 (print_0x64 16 0xfedcba9876543210)) = DC_MSG_SIZE"
    "length (dc_msg old 0x77 9 (print_0x64 16 0)) = DC_MSG_SIZE" for old
    by (simp_all add: dc_msg_eq(2) fits print_0x64_digits length_print_0x64)
  have "\<exists>p d g'. run_state (dct_answer (dc_net ?mi) \<lparr>dc_lid = 0, dc_rsn = 0, dc_key = 0\<rparr> demo_target 3) [] = (Some (p, d), g')"
    using len by (simp add: dct_answer_def dct_init_ctx_def run_simps dc_net_def dct_env_def demo_target_def status_call_def)
  then obtain p d g' where t: "run_state (dct_answer (dc_net ?mi) \<lparr>dc_lid = 0, dc_rsn = 0, dc_key = 0\<rparr> demo_target 3) []
      = (Some (p, d), g')" by blast
  have "\<exists>i' h'. run_state (dci_talk (dc_net ?mt) [] demo_initiator 4) [] = ((0, i'), h')"
    using len by (simp add: dci_talk_def run_simps dc_net_def dct_env_def Let_def)
  then obtain i' h' where i: "run_state (dci_talk (dc_net ?mt) [] demo_initiator 4) [] = ((0, i'), h')" by blast
  have w: "written g' = written [] @ [bytes_of (dc_net ?mt) x (Libc (Read 4 (int DC_MSG_SIZE)))]"
    "written h' = written [] @ [bytes_of (dc_net ?mi) x (Libc (Read 3 (int DC_MSG_SIZE)))]" for x
    using run_dct_answer(2) [OF t] run_dci_talk(3) [OF i] same
    by (simp_all add: dc_net_bytes len demo_target_def demo_initiator_def zero_key)
  have "dc_fits (t_dct_num demo_target) (t_lid demo_target)" "dc_fits (i_qpn demo_initiator) (i_port_lid demo_initiator)"
    using fits by (simp_all add: demo_target_def demo_initiator_def)
  from dc_exchange_agreement [OF t i this w, of DC_SEND_TEST] i show ?thesis
    by (simp add: demo_target_def demo_initiator_def dci_init_ctx_def)
qed

end
