(* ===== verification/UmrContext.thy ===== *)
theory UmrContext
  imports UcPingpong
begin

text \<open>
  umr_rc.c up to \<open>main\<close>: a context with several memory regions, the user-mode registration that makes one
  region of them, posting, the exchange of destinations and the end.  The exchange of the client is
  that of uc_pingpong.c, word for word.
\<close>

section \<open>The context\<close>

text \<open>
  \<open>b_mr\<close> and \<open>b_lkey\<close> are the region \<open>umr\<close> and its key, \<open>b_buf\<close> the array of buffers; a region is its
  handle with its address and its length.
\<close>

record umr_mr =
  um_self :: ptr
  um_addr :: int
  um_length :: int

record umr_ctx = plain_ctx +
  v_num_mrs :: int
  v_mr_arr :: ptr
  v_mrs :: "umr_mr list"
  v_bufs :: "ptr list"
  v_umr_addr :: int
  v_umr_length :: int
  v_mkeys :: ptr
  v_qp :: ptr
  v_qp_num :: u32
  v_inlr :: int

definition new_umr_ctx :: "ptr \<Rightarrow> int \<Rightarrow> int \<Rightarrow> int \<Rightarrow> int \<Rightarrow> umr_ctx" where
  "new_umr_ctx p sz rx inlr n = \<lparr>b_self = p, b_context = 0, b_channel = 0, b_pd = 0, b_mr = 0, b_lkey = 0,
     b_cq = 0, b_buf = 0, b_size = to_int32 (sz * n), b_rx_depth = rx, v_num_mrs = n, v_mr_arr = 0, v_mrs = [],
     v_bufs = [], v_umr_addr = 0, v_umr_length = 0, v_mkeys = 0, v_qp = 0, v_qp_num = 0, v_inlr = inlr\<rparr>"

definition umr_connect_ctx ::
    "api_env \<Rightarrow> umr_ctx \<Rightarrow> int \<Rightarrow> u32 \<Rightarrow> u32 \<Rightarrow> int \<Rightarrow> pp_dest \<Rightarrow> int \<Rightarrow> int prog" where
  "umr_connect_ctx E c port my_psn mtu sl dest sgid_idx = do {
     let attr = rtr_attr mtu (d_lid dest) (d_qpn dest) (d_psn dest) sl port (d_gid dest) sgid_idx;
     r \<leftarrow> invoke E (Ibv (Modify_qp (v_qp c) attr {M_STATE, M_AV, M_PATH_MTU, M_DEST_QPN, M_RQ_PSN,
            M_MAX_DEST_RD_ATOMIC, M_MIN_RNR_TIMER}));
     if r \<noteq> 0 then ret_io 1
     else do {
       r' \<leftarrow> invoke E (Ibv (Modify_qp (v_qp c) (rts_attr my_psn attr)
               {M_STATE, M_TIMEOUT, M_RETRY_CNT, M_RNR_RETRY, M_SQ_PSN, M_MAX_QP_RD_ATOMIC}));
       ret_io (if r' \<noteq> 0 then 1 else 0) } }"

section \<open>pp_init_ctx\<close>

text \<open>Calls made for each element of a list, in order.\<close>

fun for_each :: "('a \<Rightarrow> int prog) \<Rightarrow> 'a list \<Rightarrow> int prog" where
  "for_each f [] = ret_io 0"
| "for_each f (x # xs) = do { f x; for_each f xs }"

definition umr_clean_ctx :: "api_env \<Rightarrow> umr_ctx \<Rightarrow> umr_ctx option prog" where
  "umr_clean_ctx E c = do { invoke E (Libc (Free (b_self c))); ret_io None }"

definition umr_clean_buffer :: "api_env \<Rightarrow> bool \<Rightarrow> umr_ctx \<Rightarrow> umr_ctx option prog" where
  "umr_clean_buffer E contig c = do {
     when_io (\<not> contig) (for_each (\<lambda>b. invoke E (Libc (Free b))) (v_bufs c));
     invoke E (Libc (Free (b_buf c)));
     umr_clean_ctx E c }"

definition umr_clean_device :: "api_env \<Rightarrow> bool \<Rightarrow> umr_ctx \<Rightarrow> umr_ctx option prog" where
  "umr_clean_device E contig c = do { invoke E (Ibv (Close_device (b_context c))); umr_clean_buffer E contig c }"

definition umr_clean_comp_channel :: "api_env \<Rightarrow> bool \<Rightarrow> umr_ctx \<Rightarrow> umr_ctx option prog" where
  "umr_clean_comp_channel E contig c = do {
     when_io (b_channel c \<noteq> 0) (invoke E (Ibv (Destroy_comp_channel (b_channel c))));
     umr_clean_device E contig c }"

definition umr_clean_pd :: "api_env \<Rightarrow> bool \<Rightarrow> umr_ctx \<Rightarrow> umr_ctx option prog" where
  "umr_clean_pd E contig c = do { invoke E (Ibv (Dealloc_pd (b_pd c))); umr_clean_comp_channel E contig c }"

definition umr_clean_mr :: "api_env \<Rightarrow> bool \<Rightarrow> umr_ctx \<Rightarrow> umr_ctx option prog" where
  "umr_clean_mr E contig c = do {
     for_each (\<lambda>m. invoke E (Ibv (Dereg_mr (um_self m)))) (v_mrs c);
     umr_clean_pd E contig c }"

definition umr_clean_cq :: "api_env \<Rightarrow> bool \<Rightarrow> umr_ctx \<Rightarrow> umr_ctx option prog" where
  "umr_clean_cq E contig c = do { invoke E (Ibv (Destroy_cq (b_cq c))); umr_clean_mr E contig c }"

definition umr_clean_qp :: "api_env \<Rightarrow> bool \<Rightarrow> umr_ctx \<Rightarrow> umr_ctx option prog" where
  "umr_clean_qp E contig c = do { invoke E (Ibv (Destroy_qp (v_qp c))); umr_clean_cq E contig c }"

definition umr_qp_init :: "int \<Rightarrow> int \<Rightarrow> umr_ctx \<Rightarrow> qp_init" where
  "umr_qp_init rx klms c = zero_qp_init\<lparr>send_cq := b_cq c, recv_cq := b_cq c, max_send_wr := 200,
     max_recv_wr := rx, max_send_sge := 2, max_recv_sge := 2, qi_type := QPT_RC, qi_pd := b_pd c,
     qi_comp_mask := {''PD'', ''CREATE_FLAGS'', ''MAX_INL_KLMS''} \<union> (if v_inlr c \<noteq> 0 then {''INL_RECV''} else {}),
     qi_max_inl_recv := v_inlr c, qi_max_inl_klms := klms\<rparr>"

definition umr_make_qp :: "api_env \<Rightarrow> bool \<Rightarrow> int \<Rightarrow> int \<Rightarrow> int \<Rightarrow> umr_ctx \<Rightarrow> umr_ctx option prog" where
  "umr_make_qp E contig rx port klms c = do {
     (q, a) \<leftarrow> invoke_attr E (Ibv (Create_qp (b_context c) (umr_qp_init rx klms c)));
     if q = 0 then umr_clean_cq E contig c
     else do {
       let c = c\<lparr>v_qp := q, v_qp_num := word_of_int (a ''qp_num'')\<rparr>;
       r \<leftarrow> invoke E (Ibv (Modify_qp q
              (zero_qp_attr\<lparr>qp_state := QPS_INIT, pkey_index := 0, port_num := port, qp_access_flags := 0\<rparr>)
              {M_STATE, M_PKEY_INDEX, M_PORT, M_ACCESS_FLAGS}));
       if r \<noteq> 0 then umr_clean_qp E contig c else ret_io (Some c) } }"

definition umr_make_cq :: "api_env \<Rightarrow> bool \<Rightarrow> int \<Rightarrow> int \<Rightarrow> int \<Rightarrow> umr_ctx \<Rightarrow> umr_ctx option prog" where
  "umr_make_cq E contig rx port klms c = do {
     q \<leftarrow> invoke E (Ibv (Create_cq (b_context c) (rx + 1) (b_channel c)));
     if q = 0 then umr_clean_mr E contig c else umr_make_qp E contig rx port klms (c\<lparr>b_cq := q\<rparr>) }"

text \<open>
  The registrations: with contiguous regions the library allocates the buffers.  A region that
  cannot be registered leads to \<open>clean_pd\<close>, whatever was registered before.
\<close>

fun umr_register ::
    "api_env \<Rightarrow> bool \<Rightarrow> int \<Rightarrow> nat \<Rightarrow> (umr_ctx \<Rightarrow> umr_ctx option prog) \<Rightarrow> umr_ctx \<Rightarrow> umr_ctx option prog" where
  "umr_register E contig sz 0 k c = k c"
| "umr_register E contig sz (Suc n) k c = do {
     (m, a) \<leftarrow> invoke_attr E (Ibv (if contig
        then Exp_reg_mr \<lparr>rin_pd = b_pd c, rin_addr = 0, rin_length = sz, rin_access = {LOCAL_WRITE, ALLOCATE_MR},
               rin_comp_mask = {}, rin_contig = False, rin_dm = 0\<rparr>
        else Reg_mr (b_pd c) (v_bufs c ! length (v_mrs c)) sz {LOCAL_WRITE}));
     if m = 0 then umr_clean_pd E contig c
     else umr_register E contig sz n k (c\<lparr>
        v_mrs := v_mrs c @ [\<lparr>um_self = m, um_addr = a ''addr'', um_length = a ''length''\<rparr>],
        v_bufs := (if contig then v_bufs c @ [a ''addr''] else v_bufs c)\<rparr>) }"

text \<open>The array of regions is not checked.\<close>

definition umr_make_pd :: "api_env \<Rightarrow> bool \<Rightarrow> int \<Rightarrow> int \<Rightarrow> int \<Rightarrow> int \<Rightarrow> umr_ctx \<Rightarrow> umr_ctx option prog" where
  "umr_make_pd E contig sz rx port klms c = do {
     p \<leftarrow> invoke E (Ibv (Alloc_pd (b_context c)));
     if p = 0 then umr_clean_comp_channel E contig c
     else do {
       arr \<leftarrow> invoke E (Libc (Calloc ''mr_arr''));
       umr_register E contig sz (nat (v_num_mrs c)) (umr_make_cq E contig rx port klms)
         (c\<lparr>b_pd := p, v_mr_arr := arr\<rparr>) } }"

definition umr_make_channel ::
    "api_env \<Rightarrow> bool \<Rightarrow> int \<Rightarrow> int \<Rightarrow> int \<Rightarrow> int \<Rightarrow> int \<Rightarrow> umr_ctx \<Rightarrow> umr_ctx option prog" where
  "umr_make_channel E contig sz rx port use_event klms c =
    (if use_event \<noteq> 0 then do {
       ch \<leftarrow> invoke E (Ibv (Create_comp_channel (b_context c)));
       if ch = 0 then umr_clean_device E contig c
       else umr_make_pd E contig sz rx port klms (c\<lparr>b_channel := ch\<rparr>)
     } else umr_make_pd E contig sz rx port klms (c\<lparr>b_channel := 0\<rparr>))"

text \<open>
  The device.  A failing query is reported and leaves the attributes zero; what the first one says of
  inline receives is only printed.
\<close>

definition umr_make_device ::
    "api_env \<Rightarrow> bool \<Rightarrow> ptr \<Rightarrow> int \<Rightarrow> int \<Rightarrow> int \<Rightarrow> int \<Rightarrow> umr_ctx \<Rightarrow> umr_ctx option prog" where
  "umr_make_device E contig ib_dev sz rx port use_event c = do {
     d \<leftarrow> invoke E (Ibv (Open_device ib_dev));
     if d = 0 then umr_clean_buffer E contig c
     else do {
       invoke E (Ibv (Query_device d (if v_inlr c \<noteq> 0 then {''INLINE_RECV_SZ''} else {})));
       (r, a) \<leftarrow> invoke_attr E (Ibv (Query_device d {''UMR''}));
       umr_make_channel E contig sz rx port use_event
         (if r = 0 then a ''max_send_wqe_inline_klms'' else 0) (c\<lparr>b_context := d\<rparr>) } }"

text \<open>The buffers; the code tests the array where it means the buffer it has allocated.\<close>

fun umr_alloc ::
    "api_env \<Rightarrow> int \<Rightarrow> int \<Rightarrow> nat \<Rightarrow> (umr_ctx \<Rightarrow> umr_ctx option prog) \<Rightarrow> umr_ctx \<Rightarrow> umr_ctx option prog" where
  "umr_alloc E psize sz 0 k c = k c"
| "umr_alloc E psize sz (Suc n) k c = do {
     b \<leftarrow> invoke E (Libc (Memalign psize sz));
     umr_alloc E psize sz n k (c\<lparr>v_bufs := v_bufs c @ [b]\<rparr>) }"

definition umr_init_ctx ::
    "api_env \<Rightarrow> int \<Rightarrow> bool \<Rightarrow> ptr \<Rightarrow> int \<Rightarrow> int \<Rightarrow> int \<Rightarrow> int \<Rightarrow> int \<Rightarrow> int \<Rightarrow> umr_ctx option prog" where
  "umr_init_ctx E psize contig ib_dev sz rx port use_event inlr n = do {
     p \<leftarrow> invoke E (Libc (Calloc ''umr_context''));
     if p = 0 then ret_io None
     else do {
       let c = new_umr_ctx p sz rx inlr n;
       b \<leftarrow> invoke E (Libc (Calloc ''buf''));
       if b = 0 then umr_clean_ctx E c
       else umr_alloc E psize sz (if contig then 0 else nat n)
              (umr_make_device E contig ib_dev sz rx port use_event) (c\<lparr>b_buf := b\<rparr>) } }"

section \<open>create_umr\<close>

text \<open>
  What \<open>create_umr\<close> allocates for its own use: the list of regions or of blocks, for each block its arrays
  \<open>byte_count\<close> and \<open>stride\<close>, and \<open>rpt_cnt\<close>.
\<close>

record umr_tmp =
  ut_rb :: bool
  ut_ninl :: bool
  ut_list :: ptr
  ut_blocks :: "(ptr \<times> ptr) list"
  ut_rpt :: ptr

text \<open>The labels; \<open>err\<close> is the result, and the context keeps what its fields were set to.\<close>

definition umr_clean_list :: "api_env \<Rightarrow> umr_tmp \<Rightarrow> int \<Rightarrow> umr_ctx \<Rightarrow> (int \<times> umr_ctx) option prog" where
  "umr_clean_list E u err c = do {
     for_each (\<lambda>(b, s). do {
       when_io (s \<noteq> 0) (invoke E (Libc (Free s)));
       when_io (b \<noteq> 0) (invoke E (Libc (Free b))) }) (ut_blocks u);
     invoke E (Libc (Free (ut_list u)));
     ret_io (Some (err, c)) }"

definition umr_clean_rpt :: "api_env \<Rightarrow> umr_tmp \<Rightarrow> int \<Rightarrow> umr_ctx \<Rightarrow> (int \<times> umr_ctx) option prog" where
  "umr_clean_rpt E u err c = do {
     when_io (ut_rb u) (invoke E (Libc (Free (ut_rpt u))));
     umr_clean_list E u err c }"

definition umr_clean_umr :: "api_env \<Rightarrow> umr_tmp \<Rightarrow> int \<Rightarrow> umr_ctx \<Rightarrow> (int \<times> umr_ctx) option prog" where
  "umr_clean_umr E u err c = do { invoke E (Ibv (Dereg_mr (b_mr c))); umr_clean_rpt E u err c }"

definition umr_clean_mkey_list :: "api_env \<Rightarrow> umr_tmp \<Rightarrow> int \<Rightarrow> umr_ctx \<Rightarrow> (int \<times> umr_ctx) option prog" where
  "umr_clean_mkey_list E u err c = do {
     when_io (ut_ninl u) (invoke E (Ibv (Dealloc_mkey_list (v_mkeys c))));
     umr_clean_umr E u err c }"

definition umr_invalidate_label :: "api_env \<Rightarrow> umr_tmp \<Rightarrow> int \<Rightarrow> umr_ctx \<Rightarrow> (int \<times> umr_ctx) option prog" where
  "umr_invalidate_label E u err c = do {
     invoke E (Data (Post_umr_invalidate (v_qp c) (b_mr c)));
     umr_clean_mkey_list E u err c }"

text \<open>
  The request, its completion and what follows; \<open>err\<close> is still 0 when the completion is awaited.  The base
  is the address of the first region (there is none when \<open>num_mrs\<close> is not positive: the code then
  reads outside its array).
\<close>

definition umr_fill_wr :: "umr_tmp \<Rightarrow> umr_memory \<Rightarrow> umr_ctx \<Rightarrow> umr_fill" where
  "umr_fill_wr u mem c = \<lparr>uf_umr = b_mr c, uf_base = um_addr (hd (v_mrs c)), uf_inline = (\<not> ut_ninl u),
     uf_container = (if ut_ninl u then v_mkeys c else 0), uf_memory = mem\<rparr>"

definition umr_post_fill :: "api_env \<Rightarrow> nat \<Rightarrow> umr_tmp \<Rightarrow> umr_memory \<Rightarrow> int \<Rightarrow> umr_ctx \<Rightarrow> (int \<times> umr_ctx) option prog" where
  "umr_post_fill E fuel u mem len c = do {
     rc \<leftarrow> invoke E (Data (Post_umr_fill (v_qp c) (umr_fill_wr u mem c)));
     if rc \<noteq> 0 then umr_clean_mkey_list E u (- 1) c
     else do {
       p \<leftarrow> poll_one E fuel (b_cq c);
       case p of None \<Rightarrow> ret_io None
       | Some (ne, wcs) \<Rightarrow>
           if ne < 0 then umr_invalidate_label E u 0 c
           else if wc_status (hd wcs) \<noteq> 0 then umr_invalidate_label E u 0 c
           else umr_clean_rpt E u 0 (c\<lparr>v_umr_length := len mod 2 ^ 64, v_umr_addr := um_addr (hd (v_mrs c))\<rparr>) } }"

definition umr_create ::
    "api_env \<Rightarrow> nat \<Rightarrow> int \<Rightarrow> umr_tmp \<Rightarrow> umr_memory \<Rightarrow> int \<Rightarrow> umr_ctx \<Rightarrow> (int \<times> umr_ctx) option prog" where
  "umr_create E fuel klms u mem len c = do {
     (m, a) \<leftarrow> invoke_attr E (Ibv (Create_indirect_mr (b_pd c) (v_num_mrs c)));
     let c = c\<lparr>b_mr := m, b_lkey := a ''lkey'', v_umr_addr := a ''addr'', v_umr_length := a ''length''\<rparr>;
     if m = 0 then umr_clean_rpt E u (- 1) c
     else if ut_ninl u then do {
       l \<leftarrow> invoke E (Ibv (Alloc_mkey_list (b_pd c) klms));
       let c = c\<lparr>v_mkeys := l\<rparr>;
       if l = 0 then umr_clean_umr E u (- 1) c else umr_post_fill E fuel u mem len c
     } else umr_post_fill E fuel u mem len c }"

text \<open>The two kinds of memory; the length is summed up in an \<open>int\<close>, counts of blocks are \<open>size_t\<close>.\<close>

definition umr_regions :: "umr_ctx \<Rightarrow> umr_memory \<times> int" where
  "umr_regions c = (Umr_list (map (\<lambda>m. (um_addr m, um_length m, um_self m)) (v_mrs c)),
     foldl (\<lambda>len m. to_int32 (len + um_length m)) 0 (v_mrs c))"

definition umr_repeats :: "int \<Rightarrow> int \<Rightarrow> int \<Rightarrow> umr_ctx \<Rightarrow> umr_memory \<times> int" where
  "umr_repeats len stride cnt c =
    (Umr_repeat (cnt mod 2 ^ 64) (map (\<lambda>m. (um_addr m, len mod 2 ^ 64, stride mod 2 ^ 64, um_self m)) (v_mrs c)),
     foldl (\<lambda>l m. to_int32 (l + cnt * len)) 0 (v_mrs c))"

text \<open>The arrays of the blocks: whether all of them could be allocated, and what was.\<close>

fun umr_blocks :: "api_env \<Rightarrow> nat \<Rightarrow> (ptr \<times> ptr) list \<Rightarrow> (bool \<times> (ptr \<times> ptr) list) prog" where
  "umr_blocks E 0 bs = ret_io (True, bs)"
| "umr_blocks E (Suc n) bs = do {
     b \<leftarrow> invoke E (Libc (Calloc ''byte_count''));
     if b = 0 then ret_io (False, bs)
     else do {
       s \<leftarrow> invoke E (Libc (Calloc ''stride''));
       if s = 0 then ret_io (False, bs @ [(b, 0)]) else umr_blocks E n (bs @ [(b, s)]) } }"

record umr_opts = plain_opts +
  vo_contig :: int
  vo_inlr :: int
  vo_ninl :: int
  vo_num_mrs :: int
  vo_rb :: int
  vo_rb_len :: int
  vo_rb_stride :: int
  vo_rb_count :: int

text \<open>
  \<open>create_umr\<close>: an array of a block that cannot be allocated leads to \<open>clean_mem_reg_list\<close> with \<open>err\<close> still 0.
\<close>

definition create_umr_blocks :: "api_env \<Rightarrow> nat \<Rightarrow> umr_opts \<Rightarrow> int \<Rightarrow> umr_ctx \<Rightarrow> (int \<times> umr_ctx) option prog" where
  "create_umr_blocks E fuel opt klms c = do {
     l \<leftarrow> invoke E (Libc (Calloc ''mem_rep_list''));
     if l = 0 then ret_io (Some (- 1, c))
     else do {
       (ok, bs) \<leftarrow> umr_blocks E (nat (v_num_mrs c)) [];
       let u = \<lparr>ut_rb = True, ut_ninl = (vo_ninl opt \<noteq> 0), ut_list = l, ut_blocks = bs, ut_rpt = 0\<rparr>;
       if \<not> ok then umr_clean_list E u 0 c
       else do {
         r \<leftarrow> invoke E (Libc (Calloc ''rpt_cnt''));
         if r = 0 then umr_clean_list E u (- 1) c
         else (case umr_repeats (vo_rb_len opt) (vo_rb_stride opt) (vo_rb_count opt) c of (mem, len) \<Rightarrow>
           umr_create E fuel klms (u\<lparr>ut_rpt := r\<rparr>) mem len c) } } }"

definition create_umr :: "api_env \<Rightarrow> nat \<Rightarrow> umr_opts \<Rightarrow> int \<Rightarrow> umr_ctx \<Rightarrow> (int \<times> umr_ctx) option prog" where
  "create_umr E fuel opt klms c =
    (if vo_rb opt \<noteq> 0 then create_umr_blocks E fuel opt klms c
     else do {
       l \<leftarrow> invoke E (Libc (Calloc ''mem_reg_list''));
       if l = 0 then ret_io (Some (- 1, c))
       else (case umr_regions c of (mem, len) \<Rightarrow>
         umr_create E fuel klms \<lparr>ut_rb = False, ut_ninl = (vo_ninl opt \<noteq> 0), ut_list = l, ut_blocks = [],
           ut_rpt = 0\<rparr> mem len c) })"

section \<open>invalidate_umr, pp_close_ctx and posting\<close>

text \<open>
  \<open>invalidate_umr\<close> takes one completion whether or not it has posted a request; \<open>None\<close> when \<open>fuel\<close> polls
  were not enough.
\<close>

definition invalidate_umr :: "api_env \<Rightarrow> nat \<Rightarrow> umr_ctx \<Rightarrow> int option prog" where
  "invalidate_umr E fuel c =
    (if b_mr c = 0 then ret_io (Some 0)
     else do {
       when_io (v_umr_addr c \<noteq> 0) (invoke E (Data (Post_umr_invalidate (v_qp c) (b_mr c))));
       p \<leftarrow> poll_one E fuel (b_cq c);
       case p of None \<Rightarrow> ret_io None
       | Some (ne, wcs) \<Rightarrow>
           if ne < 0 then ret_io (Some 1)
           else if wc_status (hd wcs) \<noteq> 0 then ret_io (Some 1) else ret_io (Some 0) })"

text \<open>Deregister the regions one by one; a failure ends the function.\<close>

fun dereg_each :: "api_env \<Rightarrow> umr_mr list \<Rightarrow> int prog" where
  "dereg_each E [] = ret_io 0"
| "dereg_each E (m # ms) = do {
     r \<leftarrow> invoke E (Ibv (Dereg_mr (um_self m)));
     if r \<noteq> 0 then ret_io 1 else dereg_each E ms }"

definition umr_close_rest :: "api_env \<Rightarrow> bool \<Rightarrow> umr_ctx \<Rightarrow> int prog" where
  "umr_close_rest E contig c = do {
     r \<leftarrow> dereg_each E (v_mrs c);
     if r \<noteq> 0 then ret_io 1 else do {
     invoke E (Libc (Free (v_mr_arr c)));
     r \<leftarrow> invoke E (Ibv (Dealloc_pd (b_pd c)));
     if r \<noteq> 0 then ret_io 1 else do {
     r \<leftarrow> when_io (b_channel c \<noteq> 0) (invoke E (Ibv (Destroy_comp_channel (b_channel c))));
     if r \<noteq> 0 then ret_io 1 else do {
     r \<leftarrow> invoke E (Ibv (Close_device (b_context c)));
     if r \<noteq> 0 then ret_io 1 else do {
     when_io (\<not> contig) (for_each (\<lambda>b. invoke E (Libc (Free b))) (v_bufs c));
     invoke E (Libc (Free (b_buf c)));
     invoke E (Libc (Free (b_self c)));
     ret_io 0 }}}} }"

definition umr_close_ctx :: "api_env \<Rightarrow> bool \<Rightarrow> umr_ctx \<Rightarrow> int prog" where
  "umr_close_ctx E contig c = do {
     r \<leftarrow> when_io (v_mkeys c \<noteq> 0) (invoke E (Ibv (Dealloc_mkey_list (v_mkeys c))));
     if r \<noteq> 0 then ret_io 1 else do {
     r \<leftarrow> invoke E (Ibv (Destroy_qp (v_qp c)));
     if r \<noteq> 0 then ret_io 1 else do {
     r \<leftarrow> invoke E (Ibv (Destroy_cq (b_cq c)));
     if r \<noteq> 0 then ret_io 1 else umr_close_rest E contig c }} }"

text \<open>\<open>sge.length\<close> has 32 bits, the length of the region is a \<open>size_t\<close>.\<close>

definition umr_sge :: "umr_ctx \<Rightarrow> sge" where
  "umr_sge c = \<lparr>sg_addr = v_umr_addr c, sg_length = v_umr_length c mod 2 ^ 32, sg_lkey = b_lkey c\<rparr>"

definition umr_post_recv :: "api_env \<Rightarrow> umr_ctx \<Rightarrow> int \<Rightarrow> int prog" where
  "umr_post_recv E c n =
     post_recv_loop E (v_qp c) \<lparr>rwr_id = PINGPONG_RECV_WRID, rwr_sges = [umr_sge c]\<rparr> (nat n) 0"

definition umr_post_send :: "api_env \<Rightarrow> umr_ctx \<Rightarrow> int prog" where
  "umr_post_send E c =
     invoke E (Data (Post_send (v_qp c) [\<lparr>swr_id = PINGPONG_SEND_WRID, swr_opcode = WR_SEND,
       swr_sges = [umr_sge c], swr_signaled = True, swr_imm = 0, swr_remote_addr = 0, swr_rkey = 0,
       swr_ah = 0, swr_remote_qpn = 0, swr_remote_qkey = 0,
       swr_remote_srqn = 0, swr_dct_key = 0, swr_dct_number = 0\<rparr>]))"

section \<open>The exchange of the server\<close>

definition umr_server_answer ::
    "api_env \<Rightarrow> umr_ctx \<Rightarrow> int \<Rightarrow> u32 \<Rightarrow> int \<Rightarrow> pp_dest \<Rightarrow> int \<Rightarrow> int \<Rightarrow> string \<Rightarrow> ptr \<Rightarrow> pp_dest
      \<Rightarrow> (ptr \<times> pp_dest) option prog" where
  "umr_server_answer E c ib_port mtu sl my_dest sgid_idx connfd msg p rem_dest = do {
     r \<leftarrow> umr_connect_ctx E c ib_port (d_psn my_dest) mtu sl rem_dest sgid_idx;
     if r \<noteq> 0 then do { invoke E (Libc (Free p)); out_label E connfd None }
     else do {
       w \<leftarrow> invoke E (Libc (Write connfd (dest_msg msg my_dest)));
       if w \<noteq> int MSG_SIZE then do { invoke E (Libc (Free p)); out_label E connfd None }
       else do {
         (r, m) \<leftarrow> invoke_bytes E (Libc (Read connfd (int MSG_SIZE)));
         if r \<le> 0 then do { invoke E (Libc (Free p)); out_label E connfd None }
         else out_label E connfd (Some (p, rem_dest)) } } }"

definition umr_server_exch_dest ::
    "api_env \<Rightarrow> stack \<Rightarrow> ptr list \<Rightarrow> umr_ctx \<Rightarrow> int \<Rightarrow> u32 \<Rightarrow> int \<Rightarrow> int \<Rightarrow> pp_dest \<Rightarrow> int
      \<Rightarrow> (ptr \<times> pp_dest) option prog" where
  "umr_server_exch_dest E k addrs c ib_port mtu port sl my_dest sgid_idx = do {
     s \<leftarrow> open_server E addrs port;
     case s of None \<Rightarrow> ret_io None
     | Some connfd \<Rightarrow> do {
         (n, msg) \<leftarrow> invoke_bytes E (Libc (Read connfd (int MSG_SIZE)));
         if n \<noteq> int MSG_SIZE then out_label E connfd None
         else do {
           p \<leftarrow> invoke E (Libc (Malloc ''umr_dest''));
           if p = 0 then out_label E connfd None
           else umr_server_answer E c ib_port mtu sl my_dest sgid_idx connfd msg p
                  (scan_dest (junk_v32 k) (junk_gid k) (junk_dest k) msg) } } }"

end
