(* ===== verification/UmrMain.thy ===== *)
theory UmrMain
  imports UmrContext
begin

text \<open>
  umr_rc.c: options, device choice, exchange, the registration, the ping-pong loop and the labels at the
  end of \<open>main\<close>; then what the process holds, and what its exit status says.
\<close>

section \<open>Options\<close>

definition umr_default :: umr_opts where
  "umr_default = \<lparr>po_devname = None, po_servername = None, po_port = 18515, po_ib_port = 1,
     po_size = 4096, po_mtu = 3, po_rx_depth = 500, po_iters = 1000, po_use_event = 0, po_sl = 0,
     po_gidx = - 1, vo_contig = 0, vo_inlr = 0, vo_ninl = 0, vo_num_mrs = 3, vo_rb = 0, vo_rb_len = 50,
     vo_rb_stride = 100, vo_rb_count = 30\<rparr>"

definition umr_opt :: "char \<times> string \<Rightarrow> umr_opts \<Rightarrow> umr_opts option" where
  "umr_opt ca opt = (case ca of (c, optarg) \<Rightarrow>
     if c = CHR ''c'' then Some (opt\<lparr>vo_contig := vo_contig opt + 1\<rparr>)
     else if c = CHR ''t'' then Some (opt\<lparr>vo_inlr := strtol_int optarg\<rparr>)
     else if c = CHR ''x'' then Some (opt\<lparr>vo_num_mrs := strtol_int optarg\<rparr>)
     else if c = CHR ''u'' then Some (opt\<lparr>vo_ninl := vo_ninl opt + 1\<rparr>)
     else if c = CHR ''b'' then Some (opt\<lparr>vo_rb := vo_rb opt + 1\<rparr>)
     else if c = CHR ''h'' then Some (opt\<lparr>vo_rb_len := strtol_int optarg\<rparr>)
     else if c = CHR ''k'' then Some (opt\<lparr>vo_rb_stride := strtol_int optarg\<rparr>)
     else if c = CHR ''o'' then Some (opt\<lparr>vo_rb_count := strtol_int optarg\<rparr>)
     else plain_opt ca opt)"

fun umr_parse :: "(char \<times> string) list \<Rightarrow> umr_opts \<Rightarrow> umr_opts option" where
  "umr_parse [] opt = Some opt"
| "umr_parse (ca # cas) opt = (case umr_opt ca opt of None \<Rightarrow> None | Some opt' \<Rightarrow> umr_parse cas opt')"

section \<open>The labels of main\<close>

text \<open>
  \<open>s\<close> is the value of \<open>ret\<close>; the label \<open>err\<close> sets it to 1.  \<open>rp\<close> is \<open>rem_dest\<close>, 0 before the exchange.
\<close>

definition umr_out :: "api_env \<Rightarrow> ptr \<Rightarrow> ptr \<Rightarrow> int \<Rightarrow> int option prog" where
  "umr_out E dl rp s = do {
     invoke E (Ibv (Free_device_list dl));
     when_io (rp \<noteq> 0) (invoke E (Libc (Free rp)));
     ret_io (Some s) }"

definition umr_err :: "api_env \<Rightarrow> ptr \<Rightarrow> ptr \<Rightarrow> int option prog" where
  "umr_err E dl rp = umr_out E dl rp 1"

definition umr_close_label :: "api_env \<Rightarrow> umr_opts \<Rightarrow> umr_ctx \<Rightarrow> ptr \<Rightarrow> ptr \<Rightarrow> int \<Rightarrow> int option prog" where
  "umr_close_label E opt c dl rp s = do {
     r \<leftarrow> umr_close_ctx E (vo_contig opt \<noteq> 0) c;
     if r = 0 then umr_out E dl rp s else umr_err E dl rp }"

definition umr_umr_label :: "api_env \<Rightarrow> nat \<Rightarrow> umr_opts \<Rightarrow> umr_ctx \<Rightarrow> ptr \<Rightarrow> ptr \<Rightarrow> int \<Rightarrow> int option prog" where
  "umr_umr_label E fuel opt c dl rp s = do {
     i \<leftarrow> invalidate_umr E fuel c;
     case i of None \<Rightarrow> ret_io None
     | Some _ \<Rightarrow> do {
         r \<leftarrow> invoke E (Ibv (Dereg_mr (b_mr c)));
         if r \<noteq> 0 then umr_err E dl rp else umr_close_label E opt c dl rp s } }"

section \<open>The loop and the rest of main\<close>

text \<open>Every failure of the loop jumps to \<open>close_umr\<close>, as its end does.\<close>

definition umr_handle_wc :: "api_env \<Rightarrow> umr_ctx \<Rightarrow> int \<Rightarrow> wc \<Rightarrow> loop_st \<Rightarrow> (int + loop_st) prog" where
  "umr_handle_wc E c = pl_handle_wc (umr_post_recv E c) (umr_post_send E c) (b_rx_depth c)"

definition umr_loop :: "api_env \<Rightarrow> umr_ctx \<Rightarrow> int \<Rightarrow> bool \<Rightarrow> nat \<Rightarrow> loop_st \<Rightarrow> (int + loop_st) option prog" where
  "umr_loop E c iters = pl_loop E c (umr_handle_wc E c iters) iters"

definition umr_transfer :: "api_env \<Rightarrow> nat \<Rightarrow> umr_opts \<Rightarrow> umr_ctx \<Rightarrow> int \<Rightarrow> int \<Rightarrow> unit option prog" where
  "umr_transfer E fuel opt c routs0 pending0 = do {
     t \<leftarrow> invoke E (Libc Gettimeofday);
     if t \<noteq> 0 then ret_io (Some ())
     else do {
       r \<leftarrow> umr_loop E c (po_iters opt) (po_use_event opt \<noteq> 0) fuel
              \<lparr>rcnt = 0, scnt = 0, routs = routs0, pend = pending0, num_cq_events = 0\<rparr>;
       case r of None \<Rightarrow> ret_io None
       | Some (Inl e) \<Rightarrow> ret_io (Some ())
       | Some (Inr st) \<Rightarrow> do {
           t \<leftarrow> invoke E (Libc Gettimeofday);
           when_io (t = 0) (invoke E (Data (Ack_cq_events (b_cq c) (num_cq_events st))));
           ret_io (Some ()) } } }"

text \<open>From the first receives to the label \<open>close_umr\<close>.\<close>

definition umr_run :: "api_env \<Rightarrow> nat \<Rightarrow> umr_opts \<Rightarrow> umr_ctx \<Rightarrow> unit option prog" where
  "umr_run E fuel opt c = do {
     n \<leftarrow> umr_post_recv E c (b_rx_depth c);
     if n < b_rx_depth c then ret_io (Some ())
     else if po_servername opt \<noteq> None then do {
       r \<leftarrow> umr_post_send E c;
       if r \<noteq> 0 then ret_io (Some ())
       else umr_transfer E fuel opt c n (PINGPONG_RECV_WRID OR PINGPONG_SEND_WRID)
     } else umr_transfer E fuel opt c n PINGPONG_RECV_WRID }"

text \<open>With the peer's destination.\<close>

definition umr_registered ::
    "api_env \<Rightarrow> nat \<Rightarrow> umr_opts \<Rightarrow> umr_ctx \<Rightarrow> ptr \<Rightarrow> ptr \<Rightarrow> int option prog" where
  "umr_registered E fuel opt c dl rp = do {
     (s, a) \<leftarrow> invoke_attr E (Ibv (Query_device (b_context c) {''UMR''}));
     if s \<noteq> 0 then umr_close_label E opt c dl rp s
     else do {
       u \<leftarrow> create_umr E fuel opt (a ''max_klm_list_size'') c;
       case u of None \<Rightarrow> ret_io None
       | Some (e, c) \<Rightarrow>
           if e \<noteq> 0 then umr_close_label E opt c dl rp 0
           else do {
             t \<leftarrow> umr_run E fuel opt c;
             case t of None \<Rightarrow> ret_io None | Some _ \<Rightarrow> umr_umr_label E fuel opt c dl rp 0 } } }"

definition umr_connected ::
    "api_env \<Rightarrow> nat \<Rightarrow> umr_opts \<Rightarrow> umr_ctx \<Rightarrow> ptr \<Rightarrow> pp_dest \<Rightarrow> ptr \<times> pp_dest \<Rightarrow> int option prog" where
  "umr_connected E fuel opt c dl my_dest rem = (case rem of (rp, rem_dest) \<Rightarrow>
    (if po_servername opt \<noteq> None then do {
       r \<leftarrow> umr_connect_ctx E c (po_ib_port opt) (d_psn my_dest) (po_mtu opt) (po_sl opt) rem_dest (po_gidx opt);
       if r \<noteq> 0 then umr_close_label E opt c dl rp 0 else umr_registered E fuel opt c dl rp
     } else umr_registered E fuel opt c dl rp))"

definition umr_exchange ::
    "api_env \<Rightarrow> nat \<Rightarrow> stack \<Rightarrow> ptr list \<Rightarrow> umr_opts \<Rightarrow> umr_ctx \<Rightarrow> ptr \<Rightarrow> u32 \<Rightarrow> gid \<Rightarrow> int option prog" where
  "umr_exchange E fuel k addrs opt c dl lid g = do {
     rnd \<leftarrow> invoke E (Libc Lrand48);
     let my_dest = \<lparr>d_lid = lid, d_qpn = v_qp_num c, d_psn = word_of_int rnd AND 0xffffff, d_gid = g\<rparr>;
     rem \<leftarrow> (case po_servername opt of
         Some nm \<Rightarrow> uc_client_exch_dest E k addrs nm (po_port opt) my_dest
       | None \<Rightarrow> umr_server_exch_dest E k addrs c (po_ib_port opt) (po_mtu opt) (po_port opt)
                   (po_sl opt) my_dest (po_gidx opt));
     case rem of None \<Rightarrow> umr_close_label E opt c dl 0 0
     | Some rd \<Rightarrow> umr_connected E fuel opt c dl my_dest rd }"

text \<open>With a context: the notification, the address of this side.\<close>

definition umr_session ::
    "api_env \<Rightarrow> nat \<Rightarrow> stack \<Rightarrow> ptr list \<Rightarrow> umr_opts \<Rightarrow> umr_ctx \<Rightarrow> ptr \<Rightarrow> int option prog" where
  "umr_session E fuel k addrs opt c dl = do {
     r \<leftarrow> when_io (po_use_event opt \<noteq> 0) (invoke E (Data (Req_notify_cq (b_cq c))));
     if r \<noteq> 0 then umr_close_label E opt c dl 0 0
     else do {
       (r, portinfo) \<leftarrow> pp_get_port_info E (b_context c) (po_ib_port opt);
       let lid = (take_bit 16 (word_of_int (portinfo ''lid'')) :: u32);
       if r \<noteq> 0 then umr_close_label E opt c dl 0 0
       else if portinfo ''link_layer'' \<noteq> ETHERNET \<and> lid = 0 then umr_close_label E opt c dl 0 0
       else if po_gidx opt \<ge> 0 then do {
         (r, a) \<leftarrow> invoke_attr E (Ibv (Query_gid (b_context c) (po_ib_port opt) (po_gidx opt)));
         if r \<noteq> 0 then umr_close_label E opt c dl 0 0
         else umr_exchange E fuel k addrs opt c dl lid
                (map (\<lambda>i. word_of_int (a i)) [''gid0'', ''gid1'', ''gid2'', ''gid3''])
       } else umr_exchange E fuel k addrs opt c dl lid zero_gid } }"

definition umr_main ::
    "api_env \<Rightarrow> nat \<Rightarrow> stack \<Rightarrow> ptr list \<Rightarrow> (string \<times> ptr) list \<Rightarrow> int \<Rightarrow> (char \<times> string) list
      \<Rightarrow> string list \<Rightarrow> int option prog" where
  "umr_main E fuel k addrs devs psize cas args =
    (case umr_parse cas umr_default of None \<Rightarrow> ret_io (Some 1)
     | Some opt \<Rightarrow> (case plain_args args opt of None \<Rightarrow> ret_io (Some 1)
       | Some opt \<Rightarrow> do {
           dl \<leftarrow> invoke E (Ibv Get_device_list);
           if dl = 0 then ret_io (Some 1)
           else case choose_dev (po_devname opt) devs of None \<Rightarrow> umr_err E dl 0
             | Some ib_dev \<Rightarrow> do {
                 i \<leftarrow> umr_init_ctx E psize (vo_contig opt \<noteq> 0) ib_dev (po_size opt) (po_rx_depth opt)
                        (po_ib_port opt) (po_use_event opt) (vo_inlr opt) (vo_num_mrs opt);
                 case i of None \<Rightarrow> umr_err E dl 0
                 | Some c \<Rightarrow> umr_session E fuel k addrs opt c dl } }))"

end
