(* ===== verification/UmrResources.thy ===== *)
theory UmrResources
  imports UmrMain
begin

text \<open>
  What umr_rc.c holds from its start to its end, when the adapter takes the registration; what is wrong when
  it does not; and what the exit status says.
\<close>

section \<open>Environments\<close>

text \<open>A call whose answer the environment is known to restrict.\<close>

lemma sat_invoke_env:
  "(\<And>h. \<exists>q'. f q c (ret E h c) = Some q' \<and> Q (ret E h c) q') \<Longrightarrow> sat f (invoke E c) q Q"
  by (simp add: sat_def run_invoke)

lemma sat_invoke_attr_env:
  "(\<And>h d. \<exists>q'. f q c (ret E h c) = Some q' \<and> Q (ret E h c, d) q') \<Longrightarrow> sat f (invoke_attr E c) q Q"
  by (simp add: sat_def run_invoke_attr)

lemma sat_invoke_wcs_env:
  "(\<And>h. \<exists>q'. f q c (ret E h c) = Some q' \<and> Q (ret E h c, take (nat (ret E h c)) (wcs_in E h c)) q') \<Longrightarrow>
   sat f (invoke_wcs E c) q Q"
  by (simp add: sat_def run_invoke_wcs)

lemma sat_data: "(\<And>h. Q (ret E h (Data d)) M) \<Longrightarrow> sat track (invoke E (Data d)) M Q"
  by (rule sat_invoke_env) simp

lemma sat_data_wcs:
  "(\<And>h. Q (ret E h (Data d), take (nat (ret E h (Data d))) (wcs_in E h (Data d))) M) \<Longrightarrow>
   sat track (invoke_wcs E (Data d)) M Q"
  by (rule sat_invoke_wcs_env) simp

text \<open>
  \<open>fill_env b E\<close>: memory never runs out, a request is accepted, and a poll for one completion does not fail and
  delivers completions that are successful exactly if \<open>b\<close> holds.
\<close>

definition fill_env :: "bool \<Rightarrow> api_env \<Rightarrow> bool" where
  "fill_env b E \<longleftrightarrow> (\<forall>h s. ret E h (Libc (Calloc s)) \<noteq> 0)
     \<and> (\<forall>h q u. ret E h (Data (Post_umr_fill q u)) = 0)
     \<and> (\<forall>h q. 0 \<le> ret E h (Data (Poll_cq q 1)) \<and> (0 < ret E h (Data (Poll_cq q 1)) \<longrightarrow>
          wcs_in E h (Data (Poll_cq q 1)) \<noteq> [] \<and> (wc_status (hd (wcs_in E h (Data (Poll_cq q 1)))) = 0 \<longleftrightarrow> b)))"

definition polled_one :: "bool \<Rightarrow> 'q \<Rightarrow> (int \<times> wc list) option \<Rightarrow> 'q \<Rightarrow> bool" where
  "polled_one b M r M' \<longleftrightarrow> M' = M
     \<and> (\<forall>n ws. r = Some (n, ws) \<longrightarrow> 0 < n \<and> (wc_status (hd ws) = 0 \<longleftrightarrow> b))"

lemma fill_env_poll:
  assumes "fill_env b E" and "n = ret E h (Data (Poll_cq q 1))" "n \<noteq> 0"
  shows "0 < n \<and> (wc_status (hd (take (nat n) (wcs_in E h (Data (Poll_cq q 1))))) = 0 \<longleftrightarrow> b)"
proof -
  have "0 \<le> n" "0 < n \<longrightarrow> (wc_status (hd (wcs_in E h (Data (Poll_cq q 1)))) = 0 \<longleftrightarrow> b)"
    using assms(1) unfolding assms(2) fill_env_def by blast+
  then show ?thesis using assms(3) by simp
qed

lemma sat_poll_one:
  assumes "fill_env b E"
  shows "sat track (poll_one E fuel q) M (polled_one b M)"
proof (induction fuel)
  case (Suc fuel)
  have "sat track (if n = 0 then poll_one E fuel q else ret_io (Some (n, ws))) M (polled_one b M)"
    if "n = ret E h (Data (Poll_cq q 1))" "ws = take (nat n) (wcs_in E h (Data (Poll_cq q 1)))" for n ws h
  proof (cases "n = 0")
    case False
    then show ?thesis using fill_env_poll [OF assms that(1) False] that(2) by (auto intro!: sat_return simp: polled_one_def)
  qed (use Suc in simp)
  then show ?case unfolding poll_one.simps
    by (intro sat_bind sat_data_wcs sat_case_prod) blast
qed (auto intro!: sat_return simp: polled_one_def)

section \<open>create_umr\<close>

lemma sat_for_each:
  assumes "\<And>x M. x \<in> set xs \<Longrightarrow> sat track (f x) (own x + M) (\<lambda>r M'. M' = M)"
  shows "N = sum_list (map own xs) + M \<Longrightarrow> sat track (for_each f xs) N (unchanged M)"
  using assms
proof (induction xs arbitrary: N)
  case (Cons x xs)
  have "sat track (f x) N (\<lambda>r M'. M' = sum_list (map own xs) + M)"
    using Cons.prems by (simp add: add.assoc)
  then show ?case using Cons by (auto intro!: sat_bind intro: sat_conseq)
qed (auto intro!: sat_return simp: unchanged_def)

definition heap :: "ptr \<Rightarrow> (res \<times> int) multiset" where
  "heap p = (if p = 0 then {#} else {#(Heap, p)#})"

definition tmp_owns :: "umr_tmp \<Rightarrow> (res \<times> int) multiset" where
  "tmp_owns u = sum_list (map (\<lambda>(b, s). heap s + heap b) (ut_blocks u)) + heap (ut_list u)"

definition umr_result :: "int \<Rightarrow> umr_ctx \<Rightarrow> (res \<times> int) multiset \<Rightarrow> (int \<times> umr_ctx) option \<Rightarrow> (res \<times> int) multiset \<Rightarrow> bool" where
  "umr_result e c M r M' \<longleftrightarrow> r = Some (e, c) \<and> M' = M"

lemma sat_free: "sat track (invoke E (Libc (Free p))) (heap p + M) (unchanged M)"
  by (auto intro!: sat_intro simp: track_simps heap_def unchanged_def)

lemma sat_umr_clean_list:
  assumes "N = tmp_owns u + M"
  shows "sat track (umr_clean_list E u e c) N (umr_result e c M)"
proof -
  have block: "sat track (case x of (b, s) \<Rightarrow> do {
       when_io (s \<noteq> 0) (invoke E (Libc (Free s)));
       when_io (b \<noteq> 0) (invoke E (Libc (Free b))) }) ((case x of (b, s) \<Rightarrow> heap s + heap b) + K) (\<lambda>r M'. M' = K)" for x K
    by (cases x) (auto intro!: sat_intro simp: track_simps heap_def)
  have free: "sat track (invoke E (Libc (Free (ut_list u)))) (heap (ut_list u) + M) (unchanged M)" by (rule sat_free)
  show ?thesis unfolding umr_clean_list_def assms tmp_owns_def add.assoc
    by (rule sat_bind, rule sat_conseq [OF sat_for_each [OF block refl]], rule sat_bind)
      (auto simp: unchanged_def umr_result_def intro!: sat_conseq [OF free] sat_return)
qed

lemma sat_umr_clean_rpt:
  assumes "N = (if ut_rb u then heap (ut_rpt u) else {#}) + tmp_owns u + M"
  shows "sat track (umr_clean_rpt E u e c) N (umr_result e c M)"
proof -
  have "sat track (umr_clean_list E u e c) (tmp_owns u + M) (umr_result e c M)" by (rule sat_umr_clean_list) simp
  then show ?thesis unfolding umr_clean_rpt_def assms
    by (cases "ut_rb u") (auto intro!: sat_bind sat_when simp: add.assoc unchanged_def intro: sat_conseq [OF sat_free])
qed

text \<open>The region and the list of keys, when it has one.\<close>

definition keys_own :: "umr_tmp \<Rightarrow> umr_ctx \<Rightarrow> (res \<times> int) multiset" where
  "keys_own u c = (if ut_ninl u then {#(Mkey_list, v_mkeys c)#} else {#})"

definition all_tmp :: "umr_tmp \<Rightarrow> (res \<times> int) multiset" where
  "all_tmp u = (if ut_rb u then heap (ut_rpt u) else {#}) + tmp_owns u"

lemma sat_umr_clean_mkey_list:
  assumes "N = add_mset (Mr, b_mr c) (keys_own u c) + all_tmp u + M"
  shows "sat track (umr_clean_mkey_list E u e c) N (umr_result e c M)"
  unfolding umr_clean_mkey_list_def umr_clean_umr_def assms
  by (auto intro!: sat_intro sat_umr_clean_rpt simp: track_simps keys_own_def all_tmp_def)

lemma sat_umr_invalidate_label:
  assumes "N = add_mset (Mr, b_mr c) (keys_own u c) + all_tmp u + M"
  shows "sat track (umr_invalidate_label E u e c) N (umr_result e c M)"
  unfolding umr_invalidate_label_def
  by (rule sat_bind, rule sat_invoke) (simp add: track_simps sat_umr_clean_mkey_list [OF assms])

text \<open>
  After \<open>create_umr\<close>: with successful completions the status 0 leaves the region and the keys, and another one
  nothing; with failing ones the status is 0 too, and the context names a region that has been given back.
\<close>

definition umr_created :: "bool \<Rightarrow> umr_ctx \<Rightarrow> (res \<times> int) multiset \<Rightarrow> (int \<times> umr_ctx) option \<Rightarrow> (res \<times> int) multiset \<Rightarrow> bool" where
  "umr_created b c M r M' \<longleftrightarrow> (\<forall>e c'. r = Some (e, c') \<longrightarrow>
     (\<exists>m lk ad len ks. c' = c\<lparr>b_mr := m, b_lkey := lk, v_umr_addr := ad, v_umr_length := len, v_mkeys := ks\<rparr>
        \<and> (if e \<noteq> 0 then M' = M \<and> ks = 0
           else if b then m \<noteq> 0 \<and> M' = add_mset (Mr, m) M + (if ks \<noteq> 0 then {#(Mkey_list, ks)#} else {#})
           else m \<noteq> 0 \<and> M' = M)))"

definition umr_filled :: "bool \<Rightarrow> umr_tmp \<Rightarrow> umr_ctx \<Rightarrow> (res \<times> int) multiset \<Rightarrow> (int \<times> umr_ctx) option \<Rightarrow> (res \<times> int) multiset \<Rightarrow> bool" where
  "umr_filled b u c M r M' \<longleftrightarrow> (\<forall>e c'. r = Some (e, c') \<longrightarrow> e = 0
     \<and> (\<exists>ad l. c' = c\<lparr>v_umr_addr := ad, v_umr_length := l\<rparr>)
     \<and> M' = (if b then add_mset (Mr, b_mr c) (keys_own u c) + M else M))"

lemma sat_umr_post_fill:
  assumes "fill_env b E" and "N = add_mset (Mr, b_mr c) (keys_own u c) + all_tmp u + M"
  shows "sat track (umr_post_fill E fuel u mem len c) N (umr_filled b u c M)"
proof -
  have post: "ret E h (Data (Post_umr_fill q w)) = 0" for h q w using assms(1) unfolding fill_env_def by blast
  have same: "\<exists>ad l. c = c\<lparr>v_umr_addr := ad, v_umr_length := l\<rparr>"
    by (intro exI [of _ "v_umr_addr c"] exI [of _ "v_umr_length c"]) simp
  have tidy: "\<exists>ad' l'. c\<lparr>v_umr_length := l, v_umr_addr := ad\<rparr> = c\<lparr>v_umr_addr := ad', v_umr_length := l'\<rparr>" for l ad
    by (intro exI [of _ ad] exI [of _ l]) simp
  have lab: "sat track (umr_invalidate_label E u 0 c) N (umr_filled b u c M)" if "\<not> b"
    by (rule sat_conseq [OF sat_umr_invalidate_label [OF assms(2)]])
      (use that same in \<open>auto simp: umr_result_def umr_filled_def\<close>)
  have good: "sat track (umr_clean_rpt E u 0 (c\<lparr>v_umr_length := l, v_umr_addr := ad\<rparr>)) N (umr_filled b u c M)" if b for l ad
    by (rule sat_conseq [OF sat_umr_clean_rpt [where M = "add_mset (Mr, b_mr c) (keys_own u c) + M"]])
      (simp_all add: assms(2) all_tmp_def umr_result_def umr_filled_def that tidy)
  have rest: "sat track (case p of None \<Rightarrow> ret_io None
       | Some (ne, wcs) \<Rightarrow>
           if ne < 0 then umr_invalidate_label E u 0 c
           else if wc_status (hd wcs) \<noteq> 0 then umr_invalidate_label E u 0 c
           else umr_clean_rpt E u 0 (c\<lparr>v_umr_length := len mod 2 ^ 64, v_umr_addr := um_addr (hd (v_mrs c))\<rparr>))
      N' (umr_filled b u c M)" if "polled_one b N p N'" for p N'
  proof (cases p)
    case None
    then show ?thesis by (simp add: umr_filled_def sat_return)
  next
    case (Some x)
    then show ?thesis using that lab good by (cases x) (auto simp: polled_one_def)
  qed
  show ?thesis unfolding umr_post_fill_def
    by (rule sat_bind, rule sat_data)
      (simp add: post, intro sat_bind sat_conseq [OF sat_poll_one [OF assms(1)]] rest)
qed

text \<open>The context with the fields \<open>create_umr\<close> sets.\<close>

abbreviation with_umr :: "umr_ctx \<Rightarrow> ptr \<Rightarrow> int \<Rightarrow> int \<Rightarrow> int \<Rightarrow> ptr \<Rightarrow> umr_ctx" where
  "with_umr c m lk ad len ks \<equiv> c\<lparr>b_mr := m, b_lkey := lk, v_umr_addr := ad, v_umr_length := len, v_mkeys := ks\<rparr>"

lemma umr_createdI:
  "(if e \<noteq> 0 then M' = M \<and> ks = 0
    else if b then m \<noteq> 0 \<and> M' = add_mset (Mr, m) M + (if ks \<noteq> 0 then {#(Mkey_list, ks)#} else {#})
    else m \<noteq> 0 \<and> M' = M) \<Longrightarrow> c' = with_umr c m lk ad len ks \<Longrightarrow> umr_created b c M (Some (e, c')) M'"
  unfolding umr_created_def by blast

lemma umr_filled_created:
  assumes "umr_filled b u (with_umr c m lk ad len ks) M r M'" and "m \<noteq> 0" and "ut_ninl u = (ks \<noteq> 0)"
  shows "umr_created b c M r M'"
proof -
  have "umr_created b c M (Some (e, c')) M'" if r: "r = Some (e, c')" for e c'
  proof -
    obtain ad' l' where c': "e = 0" "c' = (with_umr c m lk ad len ks)\<lparr>v_umr_addr := ad', v_umr_length := l'\<rparr>"
      "M' = (if b then add_mset (Mr, b_mr (with_umr c m lk ad len ks)) (keys_own u (with_umr c m lk ad len ks)) + M else M)"
      using assms(1) r unfolding umr_filled_def by blast
    show ?thesis by (rule umr_createdI [where m = m and lk = lk and ad = ad' and len = l' and ks = ks])
      (use assms(2,3) c' in \<open>simp_all add: keys_own_def\<close>)
  qed
  then show ?thesis by (auto simp: umr_created_def)
qed

lemma sat_umr_create:
  assumes "fill_env b E" and "N = all_tmp u + M" and "v_mkeys c = 0"
  shows "sat track (umr_create E fuel klms u mem len c) N (umr_created b c M)"
proof -
  have same: "c\<lparr>b_mr := m, b_lkey := lk, v_umr_addr := ad, v_umr_length := l\<rparr> = with_umr c m lk ad l 0" for m lk ad l
    using assms(3) by simp
  have fill: "sat track (umr_post_fill E fuel u mem len (with_umr c m lk ad l ks)) N' (umr_created b c M)"
    if "m \<noteq> 0" "ut_ninl u = (ks \<noteq> 0)" "N' = add_mset (Mr, m) (keys_own u (with_umr c m lk ad l ks)) + N" for m lk ad l ks N'
    by (rule sat_conseq [OF sat_umr_post_fill [OF assms(1), where M = M]])
      (simp_all add: that(3) assms(2) umr_filled_created [OF _ that(1,2)])
  have no_mr: "sat track (umr_clean_rpt E u (- 1) (with_umr c m lk ad l 0)) N (umr_created b c M)" for m lk ad l
    by (rule sat_conseq [OF sat_umr_clean_rpt [where M = M]])
      (auto simp: assms(2) all_tmp_def umr_result_def intro!: umr_createdI)
  have no_keys: "sat track (umr_clean_umr E u (- 1) (with_umr c m lk ad l 0)) (add_mset (Mr, m) N) (umr_created b c M)" for m lk ad l
    unfolding umr_clean_umr_def by (rule sat_bind, rule sat_invoke) (simp add: track_simps no_mr)
  have rest: "sat track (if ut_ninl u then do {
       k \<leftarrow> invoke E (Ibv (Alloc_mkey_list (b_pd (with_umr c m lk ad l 0)) klms));
       if k = 0 then umr_clean_umr E u (- 1) (with_umr c m lk ad l k)
       else umr_post_fill E fuel u mem len (with_umr c m lk ad l k)
     } else umr_post_fill E fuel u mem len (with_umr c m lk ad l 0)) (add_mset (Mr, m) N) (umr_created b c M)" if "m \<noteq> 0" for m lk ad l
    using that by (auto intro!: sat_bind sat_invoke fill no_keys simp: track_simps keys_own_def)
  have "\<exists>N'. track N (Ibv (Create_indirect_mr (b_pd c) (v_num_mrs c))) m = Some N'
    \<and> sat track (if m = 0 then umr_clean_rpt E u (- 1) (with_umr c m lk ad l 0)
        else if ut_ninl u then do {
          k \<leftarrow> invoke E (Ibv (Alloc_mkey_list (b_pd (with_umr c m lk ad l 0)) klms));
          if k = 0 then umr_clean_umr E u (- 1) (with_umr c m lk ad l k)
          else umr_post_fill E fuel u mem len (with_umr c m lk ad l k)
        } else umr_post_fill E fuel u mem len (with_umr c m lk ad l 0)) N' (umr_created b c M)" for m lk ad l
  proof (cases "m = 0")
    case False
    show ?thesis
      by (intro exI [of _ "add_mset (Mr, m) N"] conjI, simp add: track_simps False)
        (use rest [OF False] in \<open>simp only: False if_False\<close>)
  qed (simp add: track_simps no_mr)
  then show ?thesis unfolding umr_create_def same [symmetric]
    by (intro sat_bind sat_invoke_attr) (unfold prod.case Let_def, blast)
qed

definition blocks_own :: "(ptr \<times> ptr) list \<Rightarrow> (res \<times> int) multiset" where
  "blocks_own bs = sum_list (map (\<lambda>(b, s). heap s + heap b) bs)"

definition got_blocks :: "(res \<times> int) multiset \<Rightarrow> bool \<times> (ptr \<times> ptr) list \<Rightarrow> (res \<times> int) multiset \<Rightarrow> bool" where
  "got_blocks M r M' \<longleftrightarrow> fst r \<and> M' = blocks_own (snd r) + M"

lemma sat_calloc:
  assumes "fill_env b E" and "\<And>p. p \<noteq> 0 \<Longrightarrow> Q p (heap p + M)"
  shows "sat track (invoke E (Libc (Calloc s))) M Q"
proof (rule sat_invoke_env)
  fix h
  have "ret E h (Libc (Calloc s)) \<noteq> 0" using assms(1) unfolding fill_env_def by blast
  then show "\<exists>q'. track M (Libc (Calloc s)) (ret E h (Libc (Calloc s))) = Some q' \<and> Q (ret E h (Libc (Calloc s))) q'"
    using assms(2) by (simp add: track_simps heap_def)
qed

lemma sat_umr_blocks:
  assumes "fill_env b E"
  shows "N = blocks_own bs + M \<Longrightarrow> sat track (umr_blocks E n bs) N (got_blocks M)"
proof (induction n arbitrary: bs N)
  case (Suc n)
  show ?case unfolding umr_blocks.simps
    by (intro sat_bind sat_calloc [OF assms] sat_if) (simp_all add: Suc.prems Suc.IH blocks_own_def ac_simps)
qed (auto intro!: sat_return simp: got_blocks_def)

lemma sat_create_umr:
  assumes "fill_env b E" and "v_mkeys c = 0"
  shows "sat track (create_umr E fuel opt klms c) M (umr_created b c M)"
proof -
  have made: "sat track (umr_create E fuel klms \<lparr>ut_rb = rb, ut_ninl = i, ut_list = l, ut_blocks = bs, ut_rpt = r\<rparr> mem len c)
      ((if rb then heap r else {#}) + (blocks_own bs + (heap l + M))) (umr_created b c M)" for rb i l bs r mem len
    by (rule sat_umr_create [OF assms(1) _ assms(2)]) (simp add: all_tmp_def tmp_owns_def blocks_own_def ac_simps)
  have lists: "sat track (umr_create E fuel klms \<lparr>ut_rb = False, ut_ninl = i, ut_list = l, ut_blocks = [], ut_rpt = 0\<rparr> mem len c)
      (heap l + M) (umr_created b c M)" for i l mem len
    using made [of False i l "[]" 0 mem len] by (simp add: blocks_own_def)
  have repeats: "sat track (umr_create E fuel klms \<lparr>ut_rb = True, ut_ninl = i, ut_list = l, ut_blocks = bs, ut_rpt = r\<rparr> mem len c)
      (heap r + (blocks_own bs + (heap l + M))) (umr_created b c M)" for i l bs r mem len
    using made [of True i l bs r mem len] by simp
  have blocks: "sat track (umr_blocks E n []) (heap l + M) (got_blocks (heap l + M))" for n l
    by (rule sat_umr_blocks [OF assms(1)]) (simp add: blocks_own_def)
  have rest: "sat track (case p of (ok, bs) \<Rightarrow> let u = \<lparr>ut_rb = True, ut_ninl = i, ut_list = l, ut_blocks = bs, ut_rpt = 0\<rparr> in
       if \<not> ok then umr_clean_list E u 0 c
       else do {
         r \<leftarrow> invoke E (Libc (Calloc ''rpt_cnt''));
         if r = 0 then umr_clean_list E u (- 1) c
         else (case umr_repeats len st cnt c of (mem, len) \<Rightarrow> umr_create E fuel klms (u\<lparr>ut_rpt := r\<rparr>) mem len c) })
      N (umr_created b c M)" if "got_blocks (heap l + M) p N" for p N i l len st cnt
  proof (cases p)
    case (Pair ok bs)
    then have "ok" "N = blocks_own bs + (heap l + M)" using that by (simp_all add: got_blocks_def)
    then show ?thesis unfolding Pair Let_def
      by (auto intro!: sat_bind sat_calloc [OF assms(1)] sat_case_prod repeats)
  qed
  show ?thesis unfolding create_umr_def create_umr_blocks_def
    by (intro sat_if sat_bind sat_calloc [OF assms(1)] sat_case_prod lists)
      (simp_all add: sat_conseq [OF blocks rest])
qed

section \<open>The context\<close>

definition umr_bufs :: "bool \<Rightarrow> umr_ctx \<Rightarrow> (res \<times> int) multiset" where
  "umr_bufs contig c = (if contig then {#} else sum_list (map heap (v_bufs c))) + (heap (b_buf c) + heap (b_self c))"

definition umr_dev :: "bool \<Rightarrow> umr_ctx \<Rightarrow> (res \<times> int) multiset" where
  "umr_dev contig c = add_mset (Device, b_context c) (umr_bufs contig c)"

definition umr_chan :: "bool \<Rightarrow> umr_ctx \<Rightarrow> (res \<times> int) multiset" where
  "umr_chan contig c = (if b_channel c \<noteq> 0 then {#(Channel, b_channel c)#} else {#}) + umr_dev contig c"

definition umr_pd :: "bool \<Rightarrow> umr_ctx \<Rightarrow> (res \<times> int) multiset" where
  "umr_pd contig c = add_mset (Pd, b_pd c) (umr_chan contig c)"

definition mrs_own :: "umr_ctx \<Rightarrow> (res \<times> int) multiset" where
  "mrs_own c = sum_list (map (\<lambda>m. {#(Mr, um_self m)#}) (v_mrs c))"

definition umr_owns :: "bool \<Rightarrow> umr_ctx \<Rightarrow> (res \<times> int) multiset" where
  "umr_owns contig c = {#(Qp, v_qp c), (Cq, b_cq c)#} + (mrs_own c + (heap (v_mr_arr c) + umr_pd contig c))"

definition umr_made :: "bool \<Rightarrow> (res \<times> int) multiset \<Rightarrow> umr_ctx option \<Rightarrow> (res \<times> int) multiset \<Rightarrow> bool" where
  "umr_made contig M r M' \<longleftrightarrow> (case r of None \<Rightarrow> M \<subseteq># M' | Some c \<Rightarrow> M' = umr_owns contig c + M \<and> v_mkeys c = 0)"

text \<open>The labels; \<open>clean_pd\<close> and those before it leave the array of regions, here part of \<open>L\<close>.\<close>

lemma sat_free_list:
  "N = sum_list (map heap bs) + M \<Longrightarrow> sat track (for_each (\<lambda>b. invoke E (Libc (Free b))) bs) N (unchanged M)"
  by (rule sat_for_each [where own = heap]) (auto intro: sat_conseq [OF sat_free] simp: unchanged_def)

lemma sat_dereg_list:
  "N = mrs_own c + M \<Longrightarrow> sat track (for_each (\<lambda>m. invoke E (Ibv (Dereg_mr (um_self m)))) (v_mrs c)) N (unchanged M)"
  unfolding mrs_own_def
  by (rule sat_for_each [where own = "\<lambda>m. {#(Mr, um_self m)#}"]) (auto intro!: sat_invoke simp: track_simps)

lemma sat_umr_clean_buffer:
  assumes "N = umr_bufs contig c + (L + M)"
  shows "sat track (umr_clean_buffer E contig c) N (umr_made contig M)"
proof -
  have ctx: "sat track (umr_clean_ctx E c) (heap (b_self c) + (L + M)) (umr_made contig M)"
    unfolding umr_clean_ctx_def
    by (rule sat_bind, rule sat_conseq [OF sat_free]) (simp add: unchanged_def umr_made_def sat_return)
  have buf: "sat track (do { invoke E (Libc (Free (b_buf c))); umr_clean_ctx E c })
      (heap (b_buf c) + (heap (b_self c) + (L + M))) (umr_made contig M)"
    by (rule sat_bind, rule sat_conseq [OF sat_free]) (simp add: unchanged_def ctx)
  have bufs: "sat track (when_io (\<not> contig) (for_each (\<lambda>b. invoke E (Libc (Free b))) (v_bufs c))) N
      (unchanged (heap (b_buf c) + (heap (b_self c) + (L + M))))"
    by (rule sat_when, rule sat_free_list) (simp_all add: assms umr_bufs_def unchanged_def ac_simps)
  show ?thesis unfolding umr_clean_buffer_def
    by (rule sat_bind, rule sat_conseq [OF bufs]) (simp add: unchanged_def buf)
qed

lemma sat_umr_clean_device:
  "N = umr_dev contig c + (L + M) \<Longrightarrow> sat track (umr_clean_device E contig c) N (umr_made contig M)"
  unfolding umr_clean_device_def umr_dev_def
  by (auto intro!: sat_bind sat_invoke sat_umr_clean_buffer simp: track_simps)

lemma sat_umr_clean_comp_channel:
  "N = umr_chan contig c + (L + M) \<Longrightarrow> sat track (umr_clean_comp_channel E contig c) N (umr_made contig M)"
  unfolding umr_clean_comp_channel_def umr_chan_def
  by (auto intro!: sat_bind sat_when sat_invoke sat_umr_clean_device simp: track_simps)

lemma sat_umr_clean_pd:
  "N = umr_pd contig c + (L + M) \<Longrightarrow> sat track (umr_clean_pd E contig c) N (umr_made contig M)"
  unfolding umr_clean_pd_def umr_pd_def
  by (auto intro!: sat_bind sat_invoke sat_umr_clean_comp_channel simp: track_simps)

lemma sat_umr_clean_mr:
  assumes "N = mrs_own c + (umr_pd contig c + (L + M))"
  shows "sat track (umr_clean_mr E contig c) N (umr_made contig M)"
  unfolding umr_clean_mr_def
  by (rule sat_bind, rule sat_conseq [OF sat_dereg_list [OF assms]]) (simp add: unchanged_def sat_umr_clean_pd)

lemma sat_umr_clean_cq:
  "N = add_mset (Cq, b_cq c) (mrs_own c + (umr_pd contig c + (L + M))) \<Longrightarrow>
   sat track (umr_clean_cq E contig c) N (umr_made contig M)"
  unfolding umr_clean_cq_def by (auto intro!: sat_bind sat_invoke sat_umr_clean_mr simp: track_simps)

lemma umr_updates [simp]:
  "umr_bufs k (c\<lparr>v_qp := x\<rparr>) = umr_bufs k c" "umr_bufs k (c\<lparr>v_qp_num := y\<rparr>) = umr_bufs k c"
  "umr_bufs k (c\<lparr>b_cq := x\<rparr>) = umr_bufs k c" "umr_bufs k (c\<lparr>b_pd := x\<rparr>) = umr_bufs k c"
  "umr_bufs k (c\<lparr>v_mr_arr := x\<rparr>) = umr_bufs k c" "umr_bufs k (c\<lparr>b_channel := x\<rparr>) = umr_bufs k c"
  "umr_bufs k (c\<lparr>b_context := x\<rparr>) = umr_bufs k c" "umr_bufs k (c\<lparr>v_mrs := ms\<rparr>) = umr_bufs k c"
  "umr_bufs True (c\<lparr>v_bufs := bs\<rparr>) = umr_bufs True c"
  "mrs_own (c\<lparr>v_qp := x\<rparr>) = mrs_own c" "mrs_own (c\<lparr>v_qp_num := y\<rparr>) = mrs_own c"
  "mrs_own (c\<lparr>b_cq := x\<rparr>) = mrs_own c" "mrs_own (c\<lparr>b_pd := x\<rparr>) = mrs_own c"
  "mrs_own (c\<lparr>v_mr_arr := x\<rparr>) = mrs_own c" "mrs_own (c\<lparr>v_bufs := bs\<rparr>) = mrs_own c"
  by (simp_all add: umr_bufs_def mrs_own_def)

lemmas umr_own_defs = umr_dev_def umr_chan_def umr_pd_def

lemma sat_umr_make_qp:
  assumes "N = add_mset (Cq, b_cq c) (mrs_own c + (umr_pd k c + (heap (v_mr_arr c) + M)))" and "v_mkeys c = 0"
  shows "sat track (umr_make_qp E k rx port klms c) N (umr_made k M)"
proof -
  have fail: "sat track (umr_clean_cq E k c) N (umr_made k M)" by (rule sat_umr_clean_cq) (rule assms(1))
  have after: "sat track (umr_clean_cq E k (c\<lparr>v_qp := q, v_qp_num := y\<rparr>)) N (umr_made k M)" for q y
    by (rule sat_umr_clean_cq [where L = "heap (v_mr_arr c)"]) (simp add: assms(1) umr_own_defs)
  have qp: "sat track (umr_clean_qp E k (c\<lparr>v_qp := q, v_qp_num := y\<rparr>)) (add_mset (Qp, q) N) (umr_made k M)" for q y
    unfolding umr_clean_qp_def by (rule sat_bind, rule sat_invoke) (simp add: track_calls after)
  have "umr_made k M (Some (c\<lparr>v_qp := q, v_qp_num := y\<rparr>)) (add_mset (Qp, q) N)" for q y
    using assms by (simp add: umr_made_def umr_owns_def umr_own_defs ac_simps)
  then show ?thesis unfolding umr_make_qp_def Let_def
    by (auto intro!: sat_bind sat_invoke_attr sat_invoke sat_return fail qp simp: track_calls)
qed

lemma sat_umr_make_cq:
  assumes "N = mrs_own c + (umr_pd k c + (heap (v_mr_arr c) + M))" and "v_mkeys c = 0"
  shows "sat track (umr_make_cq E k rx port klms c) N (umr_made k M)"
proof -
  have "sat track (umr_clean_mr E k c) N (umr_made k M)" by (rule sat_umr_clean_mr) (rule assms(1))
  moreover have "sat track (umr_make_qp E k rx port klms (c\<lparr>b_cq := q\<rparr>)) (add_mset (Cq, q) N) (umr_made k M)" for q
    by (rule sat_umr_make_qp) (simp_all add: assms umr_own_defs)
  ultimately show ?thesis unfolding umr_make_cq_def
    by (auto intro!: sat_bind sat_invoke simp: track_simps)
qed

lemma sat_umr_register:
  "N = mrs_own c + (umr_pd k c + (heap (v_mr_arr c) + M)) \<Longrightarrow> v_mkeys c = 0 \<Longrightarrow>
   sat track (umr_register E k sz n (umr_make_cq E k rx port klms) c) N (umr_made k M)"
proof (induction n arbitrary: c N)
  case (Suc n)
  let ?c = "\<lambda>m a. c\<lparr>v_mrs := v_mrs c @ [\<lparr>um_self = m, um_addr = a ''addr'', um_length = a ''length''\<rparr>],
        v_bufs := (if k then v_bufs c @ [a ''addr''] else v_bufs c)\<rparr>"
  have fail: "sat track (umr_clean_pd E k c) N (umr_made k M)"
    by (rule sat_umr_clean_pd [where L = "mrs_own c + heap (v_mr_arr c)"]) (simp add: Suc.prems ac_simps)
  have own: "mrs_own (?c m a) = add_mset (Mr, m) (mrs_own c)" "umr_pd k (?c m a) = umr_pd k c" for m a
    by (cases k, simp_all add: mrs_own_def umr_own_defs umr_bufs_def)+
  have next_mr: "sat track (umr_register E k sz n (umr_make_cq E k rx port klms) (?c m a)) (add_mset (Mr, m) N) (umr_made k M)" for m a
    by (rule Suc.IH) (simp_all only: own, simp_all add: Suc.prems)
  have reg: "track N (Ibv (if k then Exp_reg_mr x else Reg_mr p q l ac)) m = Some (if m = 0 then N else add_mset (Mr, m) N)" for x p q l ac m
    by (simp add: track_simps)
  show ?case unfolding umr_register.simps
    by (rule sat_bind, rule sat_invoke_attr, unfold reg) (auto simp: fail next_mr simp del: umr_register.simps)
qed (simp add: sat_umr_make_cq)

lemma sat_umr_make_pd:
  assumes "fill_env b E" and "N = umr_chan k c + M" and "v_mkeys c = 0" "v_mrs c = []"
  shows "sat track (umr_make_pd E k sz rx port klms c) N (umr_made k M)"
proof -
  have "sat track (umr_clean_comp_channel E k c) N (umr_made k M)"
    by (rule sat_umr_clean_comp_channel [where L = "{#}"]) (simp add: assms(2))
  moreover have "sat track (umr_register E k sz n (umr_make_cq E k rx port klms) (c\<lparr>b_pd := p, v_mr_arr := a\<rparr>))
      (heap a + add_mset (Pd, p) N) (umr_made k M)" for n p a
    by (rule sat_umr_register) (simp_all add: assms mrs_own_def umr_own_defs ac_simps)
  ultimately show ?thesis unfolding umr_make_pd_def
    by (auto intro!: sat_bind sat_invoke sat_calloc [OF assms(1)] simp: track_simps)
qed

lemma sat_umr_make_channel:
  assumes "fill_env b E" and "N = umr_dev k c + M" and "v_mkeys c = 0" "v_mrs c = []"
  shows "sat track (umr_make_channel E k sz rx port ev klms c) N (umr_made k M)"
proof -
  have fail: "sat track (umr_clean_device E k c) N (umr_made k M)"
    by (rule sat_umr_clean_device [where L = "{#}"]) (simp add: assms(2))
  have pd: "sat track (umr_make_pd E k sz rx port klms (c\<lparr>b_channel := ch\<rparr>))
      ((if ch \<noteq> 0 then {#(Channel, ch)#} else {#}) + N) (umr_made k M)" for ch
    by (rule sat_umr_make_pd [OF assms(1)]) (simp_all add: assms umr_chan_def umr_dev_def)
  have pd': "sat track (umr_make_pd E k sz rx port klms (c\<lparr>b_channel := ch\<rparr>)) (add_mset (Channel, ch) N) (umr_made k M)"
    if "ch \<noteq> 0" for ch using pd [of ch] that by simp
  show ?thesis unfolding umr_make_channel_def
    using pd [of 0] pd' by (auto intro!: sat_bind sat_invoke fail simp: track_simps)
qed

lemma sat_umr_make_device:
  assumes "fill_env b E" and "N = umr_bufs k c + M" and "v_mkeys c = 0" "v_mrs c = []"
  shows "sat track (umr_make_device E k dev sz rx port ev c) N (umr_made k M)"
proof -
  have fail: "sat track (umr_clean_buffer E k c) N (umr_made k M)"
    by (rule sat_umr_clean_buffer [where L = "{#}"]) (simp add: assms(2))
  have chan: "sat track (umr_make_channel E k sz rx port ev klms (c\<lparr>b_context := d\<rparr>)) (add_mset (Device, d) N) (umr_made k M)"
    for klms d
    by (rule sat_umr_make_channel [OF assms(1)]) (simp_all add: assms umr_dev_def)
  show ?thesis unfolding umr_make_device_def
    by (auto intro!: sat_bind sat_invoke sat_invoke_attr fail chan simp: track_simps)
qed

lemma sat_umr_alloc:
  assumes "fill_env b E"
  shows "N = umr_bufs False c + M \<Longrightarrow> v_mkeys c = 0 \<Longrightarrow> v_mrs c = [] \<Longrightarrow>
    sat track (umr_alloc E ps sz n (umr_make_device E False dev sz rx port ev) c) N (umr_made False M)"
proof (induction n arbitrary: c N)
  case (Suc n)
  have "sat track (umr_alloc E ps sz n (umr_make_device E False dev sz rx port ev) (c\<lparr>v_bufs := v_bufs c @ [p]\<rparr>))
      (heap p + N) (umr_made False M)" for p
    by (rule Suc.IH) (simp_all add: Suc.prems umr_bufs_def ac_simps)
  moreover have "track N (Libc (Memalign ps sz)) p = Some (heap p + N)" for p by (simp add: track_simps heap_def)
  ultimately show ?case unfolding umr_alloc.simps by (intro sat_bind sat_invoke) simp
qed (simp add: sat_umr_make_device [OF assms])

lemma sat_umr_init_ctx:
  assumes "fill_env b E"
  shows "sat track (umr_init_ctx E ps k dev sz rx port ev inlr n) M (umr_made k M)"
proof -
  have start: "umr_bufs k' ((new_umr_ctx p sz rx inlr n)\<lparr>b_buf := q\<rparr>) = heap q + heap p"
    "v_mkeys ((new_umr_ctx p sz rx inlr n)\<lparr>b_buf := q\<rparr>) = 0" "v_mrs ((new_umr_ctx p sz rx inlr n)\<lparr>b_buf := q\<rparr>) = []" for k' p q
    by (simp_all add: umr_bufs_def new_umr_ctx_def)
  have go: "sat track (umr_alloc E ps sz (if k then 0 else nat n) (umr_make_device E k dev sz rx port ev)
      ((new_umr_ctx p sz rx inlr n)\<lparr>b_buf := q\<rparr>)) (heap q + (heap p + M)) (umr_made k M)" for p q
    using sat_umr_make_device [OF assms, of _ k "(new_umr_ctx p sz rx inlr n)\<lparr>b_buf := q\<rparr>" M]
      sat_umr_alloc [OF assms, of _ "(new_umr_ctx p sz rx inlr n)\<lparr>b_buf := q\<rparr>" M]
    by (cases k) (simp_all add: start ac_simps)
  show ?thesis unfolding umr_init_ctx_def Let_def
    by (intro sat_bind sat_calloc [OF assms] sat_if) (simp_all add: go)
qed

section \<open>The end\<close>

definition umr_end :: "(res \<times> int) multiset \<Rightarrow> int \<Rightarrow> (res \<times> int) multiset \<Rightarrow> bool" where
  "umr_end M r M' \<longleftrightarrow> (if r = 0 then M' = M else M \<subseteq># M')"

lemma umr_end_more: "umr_end (K + M) r M' \<Longrightarrow> r \<noteq> 0 \<Longrightarrow> M \<subseteq># M'"
  by (auto simp: umr_end_def dest: subset_mset.order_trans [OF mset_subset_eq_add_right])

lemma sat_dereg_each:
  "N = sum_list (map (\<lambda>m. {#(Mr, um_self m)#}) ms) + M \<Longrightarrow> sat track (dereg_each E ms) N (umr_end M)"
proof (induction ms arbitrary: N)
  case (Cons m ms)
  have N: "N = add_mset (Mr, um_self m) (sum_list (map (\<lambda>m. {#(Mr, um_self m)#}) ms) + M)" using Cons.prems by simp
  have dereg: "track (add_mset (Mr, p) K) (Ibv (Dereg_mr p)) r = Some K" for p K r by (simp add: track_simps)
  show ?case unfolding dereg_each.simps N
    by (intro sat_bind sat_invoke, unfold dereg) (auto intro!: sat_return simp: umr_end_def [of _ 1] Cons.IH)
qed (auto intro!: sat_return simp: umr_end_def)

lemma sat_umr_close_rest:
  assumes "N = mrs_own c + (heap (v_mr_arr c) + (umr_pd k c + M))"
  shows "sat track (umr_close_rest E k c) N (umr_end M)"
proof -
  have mrs: "sat track (dereg_each E (v_mrs c)) N (umr_end (heap (v_mr_arr c) + (umr_pd k c + M)))"
    by (rule sat_dereg_each) (simp add: assms mrs_own_def)
  have bufs: "sat track (when_io (\<not> k) (for_each (\<lambda>b. invoke E (Libc (Free b))) (v_bufs c))) (umr_bufs k c + M)
      (unchanged (heap (b_buf c) + (heap (b_self c) + M)))"
    by (rule sat_when, rule sat_free_list) (simp_all add: umr_bufs_def unchanged_def ac_simps)
  have last: "sat track (do {
       when_io (\<not> k) (for_each (\<lambda>b. invoke E (Libc (Free b))) (v_bufs c));
       invoke E (Libc (Free (b_buf c)));
       invoke E (Libc (Free (b_self c)));
       ret_io 0 }) (umr_bufs k c + M) (umr_end M)"
    by (rule sat_bind, rule sat_conseq [OF bufs], unfold unchanged_def, simp,
        rule sat_bind, rule sat_conseq [OF sat_free], unfold unchanged_def, simp,
        rule sat_bind, rule sat_conseq [OF sat_free], simp add: unchanged_def umr_end_def sat_return)
  have rest: "sat track (do {
       invoke E (Libc (Free (v_mr_arr c)));
       r \<leftarrow> invoke E (Ibv (Dealloc_pd (b_pd c)));
       if r \<noteq> 0 then ret_io 1 else do {
       r \<leftarrow> when_io (b_channel c \<noteq> 0) (invoke E (Ibv (Destroy_comp_channel (b_channel c))));
       if r \<noteq> 0 then ret_io 1 else do {
       r \<leftarrow> invoke E (Ibv (Close_device (b_context c)));
       if r \<noteq> 0 then ret_io 1 else do {
       when_io (\<not> k) (for_each (\<lambda>b. invoke E (Libc (Free b))) (v_bufs c));
       invoke E (Libc (Free (b_buf c)));
       invoke E (Libc (Free (b_self c)));
       ret_io 0 }}} }) (heap (v_mr_arr c) + (umr_pd k c + M)) (umr_end M)"
    by (rule sat_bind, rule sat_conseq [OF sat_free])
      (auto intro!: sat_bind sat_invoke sat_when sat_if sat_return last
        simp: track_simps unchanged_def umr_own_defs, auto simp: umr_end_def)
  show ?thesis unfolding umr_close_rest_def
  proof (rule sat_bind, rule sat_conseq [OF mrs])
    fix r N' assume e: "umr_end (heap (v_mr_arr c) + (umr_pd k c + M)) r N'"
    show "sat track (if r \<noteq> 0 then ret_io 1 else do {
       invoke E (Libc (Free (v_mr_arr c)));
       r \<leftarrow> invoke E (Ibv (Dealloc_pd (b_pd c)));
       if r \<noteq> 0 then ret_io 1 else do {
       r \<leftarrow> when_io (b_channel c \<noteq> 0) (invoke E (Ibv (Destroy_comp_channel (b_channel c))));
       if r \<noteq> 0 then ret_io 1 else do {
       r \<leftarrow> invoke E (Ibv (Close_device (b_context c)));
       if r \<noteq> 0 then ret_io 1 else do {
       when_io (\<not> k) (for_each (\<lambda>b. invoke E (Libc (Free b))) (v_bufs c));
       invoke E (Libc (Free (b_buf c)));
       invoke E (Libc (Free (b_self c)));
       ret_io 0 }}}}) N' (umr_end M)"
    proof (cases "r = 0")
      case False
      have "M \<subseteq># N'" using umr_end_more [of "heap (v_mr_arr c) + umr_pd k c" M] e False by (simp add: add.assoc)
      then show ?thesis using False by (simp add: umr_end_def sat_return)
    qed (use e rest in \<open>simp add: umr_end_def [of _ 0]\<close>)
  qed
qed

definition keys :: "umr_ctx \<Rightarrow> (res \<times> int) multiset" where
  "keys c = (if v_mkeys c \<noteq> 0 then {#(Mkey_list, v_mkeys c)#} else {#})"

lemma sat_umr_close_ctx:
  assumes "N = keys c + (umr_owns k c + M)"
  shows "sat track (umr_close_ctx E k c) N (umr_end M)"
proof -
  have rest: "sat track (umr_close_rest E k c) (mrs_own c + (heap (v_mr_arr c) + (umr_pd k c + M))) (umr_end M)"
    by (rule sat_umr_close_rest) simp
  show ?thesis unfolding umr_close_ctx_def assms keys_def umr_owns_def
    by (auto intro!: sat_bind sat_invoke sat_when sat_if sat_return rest simp: track_simps add.assoc)
      (auto simp: umr_end_def)
qed

text \<open>The labels of \<open>main\<close>.\<close>

lemma sat_umr_out:
  assumes "add_mset (Device_list, dl) (heap rp + M) \<subseteq># N"
  shows "sat track (umr_out E dl rp s) N (\<lambda>r M'. r = Some s \<and> M' = N - add_mset (Device_list, dl) (heap rp))"
proof -
  obtain K where N: "N = add_mset (Device_list, dl) (heap rp + (M + K))"
    using assms by (auto simp: mset_subset_eq_exists_conv ac_simps)
  show ?thesis unfolding umr_out_def N
    by (rule sat_bind, rule sat_invoke, simp add: track_simps, rule sat_bind, rule sat_when, rule sat_conseq [OF sat_free])
      (simp_all add: unchanged_def heap_def sat_return)
qed

lemma sat_umr_close_label:
  assumes "N = keys c + (umr_owns (vo_contig opt \<noteq> 0) c + add_mset (Device_list, dl) (heap rp + M))"
  shows "sat track (umr_close_label E opt c dl rp s) N (clean_exit M)"
proof -
  let ?B = "add_mset (Device_list, dl) (heap rp + M)"
  have close: "sat track (umr_close_ctx E (vo_contig opt \<noteq> 0) c) N (umr_end ?B)"
    by (rule sat_umr_close_ctx) (rule assms)
  have good: "sat track (umr_out E dl rp s) ?B (clean_exit M)"
    by (rule sat_conseq [OF sat_umr_out [where M = M]]) (simp_all add: clean_exit_def)
  have bad: "sat track (umr_out E dl rp 1) N' (clean_exit M)" if "?B \<subseteq># N'" for N'
    by (rule sat_conseq [OF sat_umr_out [OF that]]) (simp add: clean_exit_def)
  show ?thesis unfolding umr_close_label_def umr_err_def
    by (rule sat_bind, rule sat_conseq [OF close]) (auto simp: umr_end_def good bad split: if_splits)
qed

lemma sat_invalidate_umr:
  assumes "fill_env b E"
  shows "sat track (invalidate_umr E fuel c) M (unchanged M)"
  unfolding invalidate_umr_def
  by (intro sat_if sat_bind sat_when sat_data sat_return sat_conseq [OF sat_poll_one [OF assms]])
    (auto simp: unchanged_def polled_one_def intro!: sat_intro)

lemma sat_umr_umr_label:
  assumes "fill_env b E"
    and "N = add_mset (Mr, b_mr c) (keys c + (umr_owns (vo_contig opt \<noteq> 0) c + add_mset (Device_list, dl) (heap rp + M)))"
  shows "sat track (umr_umr_label E fuel opt c dl rp s) N (clean_exit M)"
proof -
  let ?N = "keys c + (umr_owns (vo_contig opt \<noteq> 0) c + add_mset (Device_list, dl) (heap rp + M))"
  have err: "sat track (umr_out E dl rp 1) ?N (clean_exit M)"
    by (rule sat_conseq [OF sat_umr_out [where M = "keys c + umr_owns (vo_contig opt \<noteq> 0) c + M"]])
      (simp_all add: clean_exit_def ac_simps)
  have close: "sat track (umr_close_label E opt c dl rp s) ?N (clean_exit M)" by (rule sat_umr_close_label) simp
  have dereg: "track N (Ibv (Dereg_mr (b_mr c))) r = Some ?N" for r by (simp add: track_simps assms(2))
  have rest: "sat track (do {
         r \<leftarrow> invoke E (Ibv (Dereg_mr (b_mr c)));
         if r \<noteq> 0 then umr_err E dl rp else umr_close_label E opt c dl rp s }) N (clean_exit M)"
    by (rule sat_bind, rule sat_invoke, unfold dereg umr_err_def, rule exI, rule conjI, rule refl, intro sat_if err close)
  show ?thesis unfolding umr_umr_label_def
    by (rule sat_bind, rule sat_conseq [OF sat_invalidate_umr [OF assms(1)]])
      (auto simp: unchanged_def clean_exit_def [of _ None] intro!: sat_intro rest)
qed

lemma sat_umr_run: "sat track (umr_run E fuel opt c) M (unchanged M)"
proof -
  have post: "sat track (umr_post_recv E c n) M (unchanged M)" "sat track (umr_post_send E c) M (unchanged M)" for n
    unfolding umr_post_recv_def umr_post_send_def by (auto intro!: held_post_recv_loop sat_data simp: unchanged_def)
  have loop: "sat track (umr_loop E c iters ev fuel st) M (quiet_opt M)" for iters ev st
    unfolding umr_loop_def umr_handle_wc_def by (intro held_pl_loop held_pl_handle_wc post)
  have "sat track (umr_transfer E fuel opt c n p) M (unchanged M)" for n p
    unfolding umr_transfer_def
    by (auto intro!: sat_intro sat_conseq [OF loop] simp: track_calls quiet_opt_def unchanged_def)
  note transfer = this
  show ?thesis unfolding umr_run_def
    by (intro sat_bind sat_conseq [OF post(1)] sat_conseq [OF post(2)] sat_if)
      (auto intro!: sat_intro sat_conseq [OF post(2)] transfer simp: unchanged_def)
qed

lemma umr_owns_with_umr [simp]: "umr_owns k (with_umr c m lk ad len ks) = umr_owns k c"
  by (simp add: umr_owns_def umr_own_defs umr_bufs_def mrs_own_def)

lemma sat_umr_registered:
  assumes "fill_env True E" and "v_mkeys c = 0"
    and "N = umr_owns (vo_contig opt \<noteq> 0) c + add_mset (Device_list, dl) (heap rp + M)"
  shows "sat track (umr_registered E fuel opt c dl rp) N (clean_exit M)"
proof -
  have close: "sat track (umr_close_label E opt c dl rp s) N (clean_exit M)" for s
    by (rule sat_umr_close_label) (simp add: assms(2,3) keys_def)
  have filled: "sat track (case u of None \<Rightarrow> ret_io None
       | Some (e, c) \<Rightarrow>
           if e \<noteq> 0 then umr_close_label E opt c dl rp 0
           else do {
             t \<leftarrow> umr_run E fuel opt c;
             case t of None \<Rightarrow> ret_io None | Some _ \<Rightarrow> umr_umr_label E fuel opt c dl rp 0 }) N' (clean_exit M)"
    if u: "umr_created True c N u N'" for u N'
  proof (cases u)
    case None
    then show ?thesis by (simp add: clean_exit_def sat_return)
  next
    case (Some p)
    obtain e c' where p: "p = (e, c')" by (cases p)
    obtain m lk ad len ks where c': "c' = with_umr c m lk ad len ks"
      "if e \<noteq> 0 then N' = N \<and> ks = 0 else N' = add_mset (Mr, m) N + (if ks \<noteq> 0 then {#(Mkey_list, ks)#} else {#})"
      using u unfolding umr_created_def Some p by auto
    show ?thesis
    proof (cases "e = 0")
      case True
      have "N' = add_mset (Mr, b_mr c') (keys c' + (umr_owns (vo_contig opt \<noteq> 0) c' + add_mset (Device_list, dl) (heap rp + M)))"
        using c' True by (simp add: assms(3) keys_def ac_simps)
      from sat_umr_umr_label [OF assms(1) this] show ?thesis unfolding Some p using True
        by (auto intro!: sat_intro sat_conseq [OF sat_umr_run] simp: unchanged_def clean_exit_def [of _ None])
    next
      case False
      then have "N' = keys c' + (umr_owns (vo_contig opt \<noteq> 0) c' + add_mset (Device_list, dl) (heap rp + M))"
        using c' by (simp add: assms(3) keys_def)
      from sat_umr_close_label [OF this] show ?thesis unfolding Some p using False by simp
    qed
  qed
  have query: "track N (Ibv (Query_device d a)) r = Some N" for d a r by (simp add: track_simps)
  show ?thesis unfolding umr_registered_def
    by (rule sat_bind, rule sat_invoke_attr, unfold query)
      (auto intro!: close sat_bind sat_conseq [OF sat_create_umr [OF assms(1,2)] filled])
qed

lemma sat_umr_connect_ctx: "sat track (umr_connect_ctx E c port psn mtu sl d gidx) M (unchanged M)"
  unfolding umr_connect_ctx_def Let_def by (auto intro!: sat_intro simp: track_calls unchanged_def)

lemma sat_umr_server_exch_dest:
  "sat track (umr_server_exch_dest E k addrs c ib mtu port sl d gidx) M (exchanged M)"
  unfolding umr_server_exch_dest_def umr_server_answer_def out_label_def
  by (auto intro!: sat_intro sat_conseq [OF sat_open_server] sat_conseq [OF sat_umr_connect_ctx]
      simp: track_calls opened_def exchanged_def unchanged_def)

lemma sat_umr_session:
  assumes "fill_env True E" and "v_mkeys c = 0"
    and "N = umr_owns (vo_contig opt \<noteq> 0) c + add_mset (Device_list, dl) M"
  shows "sat track (umr_session E fuel k addrs opt c dl) N (clean_exit M)"
proof -
  have close: "sat track (umr_close_label E opt c dl 0 s) N (clean_exit M)" for s
    by (rule sat_umr_close_label) (simp add: assms(2,3) keys_def heap_def)
  have connected: "sat track (umr_connected E fuel opt c dl my rd) N' (clean_exit M)"
    if "fst rd \<noteq> 0" "N' = N + {#(Heap, fst rd)#}" for my rd N'
  proof -
    have N': "N' = umr_owns (vo_contig opt \<noteq> 0) c + add_mset (Device_list, dl) (heap (fst rd) + M)"
      using that by (simp add: assms(3) heap_def)
    have fail: "sat track (umr_close_label E opt c dl (fst rd) s) N' (clean_exit M)" for s
      by (rule sat_umr_close_label) (simp add: assms(2) N' keys_def)
    show ?thesis unfolding umr_connected_def case_prod_beta
      by (intro sat_if sat_bind sat_conseq [OF sat_umr_connect_ctx])
        (auto simp: unchanged_def intro: fail sat_umr_registered [OF assms(1,2) N'])
  qed
  have rest: "sat track (case rem of None \<Rightarrow> umr_close_label E opt c dl 0 0
       | Some rd \<Rightarrow> umr_connected E fuel opt c dl my rd) N' (clean_exit M)" if "exchanged N rem N'" for my rem N'
    using that by (auto simp: exchanged_def intro!: sat_case_option close connected split: option.splits)
  have exchange: "sat track (umr_exchange E fuel k addrs opt c dl lid g) N (clean_exit M)" for lid g
    unfolding umr_exchange_def Let_def
    by (rule sat_bind, rule sat_invoke, simp add: track_calls, rule sat_bind)
      (auto intro!: sat_case_option sat_conseq [OF sat_uc_client_exch_dest] sat_conseq [OF sat_umr_server_exch_dest] rest)
  show ?thesis unfolding umr_session_def pp_get_port_info_def Let_def
    by (rule sat_bind, rule sat_when)
      (auto intro!: sat_data sat_bind sat_invoke_attr close exchange simp: track_calls)
qed

section \<open>The status\<close>

text \<open>Giving back never fails, nor does the query of the limits of a registration.\<close>

definition ends_ok :: "api_env \<Rightarrow> bool" where
  "ends_ok E \<longleftrightarrow> (\<forall>h p. ret E h (Ibv (Destroy_qp p)) = 0 \<and> ret E h (Ibv (Destroy_cq p)) = 0
     \<and> ret E h (Ibv (Dereg_mr p)) = 0 \<and> ret E h (Ibv (Dealloc_pd p)) = 0
     \<and> ret E h (Ibv (Destroy_comp_channel p)) = 0 \<and> ret E h (Ibv (Close_device p)) = 0
     \<and> ret E h (Ibv (Dealloc_mkey_list p)) = 0) \<and> (\<forall>h p a. ret E h (Ibv (Query_device p a)) = 0)"

definition no_failure :: "int option \<Rightarrow> bool" where
  "no_failure r \<longleftrightarrow> r = None \<or> r = Some 0"

lemma gives_dereg_each: "ends_ok E \<Longrightarrow> gives (dereg_each E ms) (\<lambda>r. r = 0)"
  by (induction ms) (auto intro!: gives_intro gives_invoke simp: ends_ok_def)

lemma gives_umr_close_ctx:
  assumes "ends_ok E"
  shows "gives (umr_close_ctx E k c) (\<lambda>r. r = 0)"
proof -
  have "gives (umr_close_rest E k c) (\<lambda>r. r = 0)" unfolding umr_close_rest_def
    by (rule gives_bind, rule gives_conseq [OF gives_dereg_each [OF assms]])
      (use assms in \<open>auto intro!: gives_return gives_if gives_then [of _ _ "invoke E (Libc c)" for c] gives_then [of _ _ "when_io (\<not> k) m" for m]
        gives_bind [of "invoke E (Ibv c)" for c] gives_bind [of "when_io (b_channel c \<noteq> 0) m" for m] gives_invoke gives_when simp: ends_ok_def\<close>)
  then show ?thesis unfolding umr_close_ctx_def
    using assms by (auto intro!: gives_intro gives_invoke gives_when simp: ends_ok_def)
qed

lemma gives_umr_close_label:
  assumes "ends_ok E"
  shows "gives (umr_close_label E opt c dl rp 0) no_failure"
proof -
  have "gives (umr_out E dl rp 0) no_failure" unfolding umr_out_def
    by (rule gives_then, rule gives_then, rule gives_return) (simp add: no_failure_def)
  then show ?thesis unfolding umr_close_label_def
    by (intro gives_bind gives_conseq [OF gives_umr_close_ctx [OF assms]]) simp
qed

lemma gives_umr_session:
  assumes "ends_ok E"
  shows "gives (umr_session E fuel k addrs opt c dl) no_failure"
proof -
  note close = gives_umr_close_label [OF assms]
  have none: "gives (ret_io None) no_failure" by (rule gives_return) (simp add: no_failure_def)
  have dereg: "gives (invoke E (Ibv (Dereg_mr p))) (\<lambda>r. r = 0)" for p
    using assms by (intro gives_invoke) (simp add: ends_ok_def)
  have umr: "gives (umr_umr_label E fuel opt c dl rp 0) no_failure" for c rp
    unfolding umr_umr_label_def
    by (rule gives_then, rule gives_case_option, rule none, rule gives_bind, rule gives_conseq [OF dereg]) (simp add: close)
  have query: "gives (invoke_attr E (Ibv (Query_device p a))) (\<lambda>r. fst r = 0)" for p a
    using assms by (simp add: gives_def run_invoke_attr ends_ok_def)
  have reg: "gives (umr_registered E fuel opt c dl rp) no_failure" for c rp
    unfolding umr_registered_def
    by (rule gives_bind, rule gives_conseq [OF query])
      (auto intro!: gives_then gives_case_option gives_case_prod gives_if none close umr)
  have conn: "gives (umr_connected E fuel opt c dl my rd) no_failure" for my rd
    unfolding umr_connected_def by (intro gives_case_prod gives_if gives_then close reg)
  have exch: "gives (umr_exchange E fuel k addrs opt c dl lid g) no_failure" for lid g
    unfolding umr_exchange_def Let_def by (intro gives_then gives_case_option close conn)
  show ?thesis unfolding umr_session_def Let_def
    by (intro gives_then gives_case_prod gives_if close exch)
qed

section \<open>A resource given back twice\<close>

text \<open>
  The automaton that goes on after a release of something not held: \<open>None\<close> from there on.  A run the
  resources follow is one of it, and what has gone wrong stays so.
\<close>

definition lost :: "(res \<times> int) multiset option \<Rightarrow> api \<Rightarrow> int \<Rightarrow> (res \<times> int) multiset option option" where
  "lost q c r = Some (case q of None \<Rightarrow> None | Some M \<Rightarrow> track M c r)"

lemma obs_lost: "obs lost (Some M) h = Some (obs track M h)"
  by (induction h) (auto simp: lost_def split: option.split)

lemma obs_lost_None: "obs lost None h = Some None"
  by (induction h) (auto simp: lost_def)

lemma sat_lost:
  assumes "sat track m M Q"
  shows "sat lost m (Some M) (\<lambda>r q. \<exists>M'. q = Some M' \<and> Q r M')"
  unfolding sat_def
proof (intro allI impI)
  fix q0 h assume h: "obs lost q0 h = Some (Some M)"
  then obtain M0 where "q0 = Some M0" by (cases q0) (auto simp: obs_lost_None)
  then have "obs track M0 h = Some M" using h by (simp add: obs_lost)
  then show "case run_state m h of (a, h') \<Rightarrow> \<exists>q'. obs lost q0 h' = Some q' \<and> (\<exists>M'. q' = Some M' \<and> Q a M')"
    using assms \<open>q0 = Some M0\<close> unfolding sat_def by (fastforce simp: obs_lost split: prod.splits)
qed

definition gone :: "'a \<Rightarrow> 'q option \<Rightarrow> bool" where
  "gone r q \<longleftrightarrow> q = None"

lemma lost_None [simp]: "lost None c r = Some None"
  by (simp add: lost_def)

lemma gone_for_each:
  assumes "\<And>x. sat lost (f x) None gone"
  shows "sat lost (for_each f xs) None gone"
  by (induction xs) (auto intro!: sat_return sat_bind sat_conseq [OF assms] simp: gone_def)

lemma gone_dereg_each: "sat lost (dereg_each E ms) None gone"
  by (induction ms) (auto intro!: sat_intro simp: gone_def)

lemma gone_labels:
  "sat lost (umr_out E dl rp s) None gone" "sat lost (umr_err E dl rp) None gone"
  "sat lost (umr_close_label E opt c dl rp s) None gone"
proof -
  show out: "sat lost (umr_out E dl rp s) None gone" for s
    unfolding umr_out_def by (auto intro!: sat_intro simp: gone_def)
  then show err: "sat lost (umr_err E dl rp) None gone" by (simp add: umr_err_def)
  have bufs: "sat lost (for_each (\<lambda>b. invoke E (Libc (Free b))) bs) None gone" for bs
    by (rule gone_for_each) (auto intro!: sat_intro simp: gone_def)
  have rest: "sat lost (umr_close_rest E k c) None gone" for k
    unfolding umr_close_rest_def
    by (rule sat_bind, rule sat_conseq [OF gone_dereg_each])
      (auto intro!: sat_intro sat_conseq [OF bufs] simp: gone_def)
  show "sat lost (umr_close_label E opt c dl rp s) None gone"
    unfolding umr_close_label_def umr_close_ctx_def
    by (auto intro!: sat_intro sat_conseq [OF rest] out err simp: gone_def)
qed

text \<open>An adapter whose creating calls and queries succeed: \<open>create_umr\<close> reports success, whatever the completion said.\<close>

definition makes_umr :: "api_env \<Rightarrow> bool" where
  "makes_umr E \<longleftrightarrow> (\<forall>h p n. ret E h (Ibv (Create_indirect_mr p n)) \<noteq> 0 \<and> ret E h (Ibv (Alloc_mkey_list p n)) \<noteq> 0)
     \<and> (\<forall>h p a. ret E h (Ibv (Query_device p a)) = 0)"

definition umr_handle :: "api_env \<Rightarrow> ptr \<Rightarrow> bool" where
  "umr_handle E m \<longleftrightarrow> (\<exists>h p n. m = ret E h (Ibv (Create_indirect_mr p n)))"

definition umr_reported :: "api_env \<Rightarrow> (int \<times> umr_ctx) option \<Rightarrow> bool" where
  "umr_reported E r \<longleftrightarrow> (\<forall>e c. r = Some (e, c) \<longrightarrow> e = 0 \<and> umr_handle E (b_mr c))"

lemma gives_umr_cleans:
  "Q (Some (e, c)) \<Longrightarrow> gives (umr_clean_list E u e c) Q" "Q (Some (e, c)) \<Longrightarrow> gives (umr_clean_rpt E u e c) Q"
  "Q (Some (e, c)) \<Longrightarrow> gives (umr_invalidate_label E u e c) Q"
  unfolding umr_invalidate_label_def umr_clean_mkey_list_def umr_clean_umr_def umr_clean_rpt_def umr_clean_list_def
  by (intro gives_then gives_return, assumption)+

lemma gives_umr_create:
  assumes "fill_env b E" and "makes_umr E"
  shows "gives (umr_create E fuel klms u mem len c) (umr_reported E)"
proof -
  have fill: "gives (umr_post_fill E fuel u mem len c') (umr_reported E)"
    if "umr_handle E (b_mr c')" for c'
  proof -
    have ok: "umr_reported E (Some (0, c'))" "umr_reported E None"
      "umr_reported E (Some (0, c'\<lparr>v_umr_length := l, v_umr_addr := a\<rparr>))" for l a
      using that by (auto simp: umr_reported_def)
    have post: "gives (invoke E (Data (Post_umr_fill q w))) (\<lambda>r. r = 0)" for q w
      using assms(1) by (intro gives_invoke) (simp add: fill_env_def)
    show ?thesis unfolding umr_post_fill_def
      by (rule gives_bind, rule gives_conseq [OF post])
        (auto intro!: gives_then gives_case_option gives_case_prod gives_if gives_umr_cleans gives_return ok)
  qed
  have make: "gives (invoke_attr E (Ibv (Create_indirect_mr p n)))
      (\<lambda>ma. fst ma \<noteq> 0 \<and> umr_handle E (fst ma))" for p n
    using assms(2) unfolding gives_def run_invoke_attr makes_umr_def umr_handle_def fst_conv by blast
  have keys: "gives (invoke E (Ibv (Alloc_mkey_list p n))) (\<lambda>l. l \<noteq> 0)" for p n
    using assms(2) by (intro gives_invoke) (simp add: makes_umr_def)
  show ?thesis unfolding umr_create_def Let_def
    by (rule gives_bind, rule gives_conseq [OF make])
      (auto intro!: gives_bind [of "invoke E (Ibv (Alloc_mkey_list p n))" for p n] gives_conseq [OF keys] fill)
qed

lemma gives_umr_blocks: "fill_env b E \<Longrightarrow> gives (umr_blocks E n bs) fst"
proof (induction n arbitrary: bs)
  case (Suc n)
  have calloc: "gives (invoke E (Libc (Calloc s))) (\<lambda>r. r \<noteq> 0)" for s
    using Suc.prems by (intro gives_invoke) (simp add: fill_env_def)
  show ?case unfolding umr_blocks.simps
    by (intro gives_bind gives_conseq [OF calloc]) (simp add: gives_bind gives_conseq [OF calloc] Suc)
qed (simp add: gives_return)

lemma gives_create_umr:
  assumes "fill_env b E" and "makes_umr E"
  shows "gives (create_umr E fuel opt klms c) (umr_reported E)"
proof -
  have calloc: "gives (invoke E (Libc (Calloc s))) (\<lambda>r. r \<noteq> 0)" for s
    using assms(1) by (intro gives_invoke) (simp add: fill_env_def)
  have blocks: "gives (create_umr_blocks E fuel opt klms c) (umr_reported E)"
    unfolding create_umr_blocks_def Let_def
    by (rule gives_bind, rule gives_conseq [OF calloc], simp, rule gives_bind,
        rule gives_conseq [OF gives_umr_blocks [OF assms(1)]])
      (auto intro!: gives_bind [of "invoke E (Libc (Calloc s))" for s] gives_conseq [OF calloc] gives_umr_create [OF assms]
        split: prod.split)
  show ?thesis unfolding create_umr_def
    by (intro gives_if blocks gives_bind gives_conseq [OF calloc])
      (auto intro!: gives_umr_create [OF assms] split: prod.split)
qed

text \<open>From the registration to the end of \<open>main\<close>.\<close>

definition twice :: "'a option \<Rightarrow> 'q option \<Rightarrow> bool" where
  "twice r q \<longleftrightarrow> (r \<noteq> None \<longrightarrow> q = None)"

lemma twice_gone: "sat lost m None gone \<Longrightarrow> sat lost m None twice"
  by (erule sat_conseq) (simp add: gone_def twice_def)

lemma twice_umr_label:
  assumes "fill_env b E" and "(Mr, b_mr c) \<notin># M"
  shows "sat lost (umr_umr_label E fuel opt c dl rp s) (Some M) twice"
proof -
  have dereg: "lost (Some M) (Ibv (Dereg_mr (b_mr c))) r = Some None" for r
    using assms(2) by (simp add: lost_def track_simps)
  have rest: "sat lost (do {
         r \<leftarrow> invoke E (Ibv (Dereg_mr (b_mr c)));
         if r \<noteq> 0 then umr_err E dl rp else umr_close_label E opt c dl rp s }) (Some M) twice"
    by (rule sat_bind, rule sat_invoke, unfold dereg)
      (auto intro!: sat_if twice_gone [OF gone_labels(2)] twice_gone [OF gone_labels(3)])
  show ?thesis unfolding umr_umr_label_def
    by (rule sat_bind, rule sat_conseq [OF sat_lost [OF sat_invalidate_umr [OF assms(1)]]])
      (auto intro!: sat_case_option rest sat_return simp: unchanged_def twice_def)
qed

lemma twice_umr_registered:
  assumes "fill_env False E" and "makes_umr E" and "v_mkeys c = 0"
    and "\<And>h p n. (Mr, ret E h (Ibv (Create_indirect_mr p n))) \<notin># M"
  shows "sat lost (umr_registered E fuel opt c dl rp) (Some M) twice"
proof -
  have query: "sat lost (invoke_attr E (Ibv (Query_device d a))) (Some M) (\<lambda>r q. fst r = 0 \<and> q = Some M)" for d a
    using assms(2) by (intro sat_invoke_attr_env) (simp add: makes_umr_def lost_def track_simps)
  have run: "sat lost (umr_run E fuel opt c) (Some M) (\<lambda>r q. q = Some M)" for c
    by (rule sat_conseq [OF sat_lost [OF sat_umr_run]]) (auto simp: unchanged_def)
  have made: "sat lost (create_umr E fuel opt klms c) (Some M) (\<lambda>r q. (\<exists>M'. q = Some M' \<and> umr_created False c M r M') \<and> umr_reported E r)" for klms
    by (rule sat_gives [OF sat_lost [OF sat_create_umr [OF assms(1,3)]] gives_create_umr [OF assms(1,2)]])
  have filled: "sat lost (case u of None \<Rightarrow> ret_io None
       | Some (e, c) \<Rightarrow>
           if e \<noteq> 0 then umr_close_label E opt c dl rp 0
           else do {
             t \<leftarrow> umr_run E fuel opt c;
             case t of None \<Rightarrow> ret_io None | Some _ \<Rightarrow> umr_umr_label E fuel opt c dl rp 0 }) q twice"
    if "(\<exists>M'. q = Some M' \<and> umr_created False c M u M') \<and> umr_reported E u" for u q
  proof (cases u)
    case None
    then show ?thesis by (simp add: twice_def sat_return)
  next
    case (Some p)
    obtain e c' where p: "p = (e, c')" by (cases p)
    have e: "e = 0" "(Mr, b_mr c') \<notin># M" "q = Some M"
      using that assms(4) unfolding Some p by (auto simp: umr_reported_def umr_created_def umr_handle_def)
    show ?thesis unfolding Some p e(3) using e(1)
      by (auto intro!: sat_bind sat_conseq [OF run] sat_case_option twice_umr_label [OF assms(1) e(2)] sat_return simp: twice_def)
  qed
  show ?thesis unfolding umr_registered_def
    by (rule sat_bind, rule sat_conseq [OF query]) (auto intro!: sat_bind sat_conseq [OF made filled])
qed

section \<open>Properties\<close>

lemma sat_umr_main:
  assumes "fill_env True E"
  shows "sat track (umr_main E fuel k addrs devs psize cas args) M (clean_exit M)"
proof -
  have err: "sat track (umr_err E dl 0) N (clean_exit M)" if "add_mset (Device_list, dl) M \<subseteq># N" for dl N
    unfolding umr_err_def
    by (rule sat_conseq [OF sat_umr_out [where M = M]]) (use that in \<open>auto simp: heap_def clean_exit_def\<close>)
  have made: "sat track (case i of None \<Rightarrow> umr_err E dl 0 | Some c \<Rightarrow> umr_session E fuel k addrs opt c dl) N (clean_exit M)"
    if "umr_made (vo_contig opt \<noteq> 0) (add_mset (Device_list, dl) M) i N" for i dl N opt
    using that by (auto simp: umr_made_def intro!: sat_case_option err sat_umr_session [OF assms] split: option.splits)
  have one: "sat track (ret_io (Some 1)) N (clean_exit M)" for N by (simp add: sat_return clean_exit_def)
  show ?thesis unfolding umr_main_def
    by (auto intro!: sat_case_option one sat_bind sat_invoke err sat_conseq [OF sat_umr_init_ctx [OF assms] made] simp: track_simps)
qed

text \<open>
  C38: On an adapter that accepts the registration and completes it, with memory that does not run out,
  umr_rc.c releases only what it holds, on every path, and status 0 means that it has released everything: the
  indirect region, the list of keys and every region and buffer of the context.
\<close>

theorem umr_main_gives_back:
  assumes "fill_env True E" and "run_state (umr_main E fuel k addrs devs psize cas args) [] = (r, h)"
  shows "held h \<noteq> None \<and> (r = Some 0 \<longrightarrow> held h = Some {#})"
  using satD [OF sat_umr_main [OF assms(1)] _ assms(2), of "{#}" "{#}"] by (auto simp: clean_exit_def)

text \<open>
  C39: When the request that fills the region completes with an error, on an adapter that otherwise makes
  what it is asked for, every run from the registration that comes to the end of \<open>main\<close> gives a
  resource back that it does not hold: \<open>create_umr\<close> returns 0 although its error path has deregistered the
  region, and \<open>main\<close> deregisters it again at \<open>close_umr\<close>.  (\<open>held\<close> is \<open>None\<close> after such a release; the
  handle of the new region is not one of the handles held before.)
\<close>

theorem umr_failed_fill_accepted:
  assumes "fill_env False E" and "makes_umr E" and "v_mkeys c = 0" and "held h = Some M"
    and "\<And>h p n. (Mr, ret E h (Ibv (Create_indirect_mr p n))) \<notin># M"
    and "run_state (umr_registered E fuel opt c dl rp) h = (Some s, h')"
  shows "held h' = None"
proof -
  have "obs lost (Some {#}) h = Some (Some M)" using assms(4) by (simp add: obs_lost)
  from satD [OF twice_umr_registered [OF assms(1-3,5)] this assms(6)] show ?thesis
    by (auto simp: twice_def obs_lost)
qed

text \<open>
  C40: Once umr_rc.c has its context, its exit status says nothing about the transfer: when giving back and the query
  of the limits succeed, every run that ends has the status 0, whatever the exchange, the registration,
  the requests and their completions came to.
\<close>

theorem umr_status_always_zero:
  assumes "ends_ok E" and "run_state (umr_session E fuel k addrs opt c dl) h = (Some s, h')"
  shows "s = 0"
proof -
  have "no_failure (Some s)" using gives_umr_session [OF assms(1)] assms(2) unfolding gives_def
    by (metis fst_conv)
  then show ?thesis by (simp add: no_failure_def)
qed

text \<open>The adapter of the witnesses; \<open>st\<close> is the status of its completions.\<close>

definition umr_net :: "int \<Rightarrow> api_env" where
  "umr_net st = \<lparr>ret = (\<lambda>h c. case c of Libc (Calloc s) \<Rightarrow> 1 | Libc (Memalign a n) \<Rightarrow> 1 | Ibv Get_device_list \<Rightarrow> 1
       | Ibv (Open_device d) \<Rightarrow> 1 | Ibv (Alloc_pd d) \<Rightarrow> 1 | Ibv (Reg_mr p b n a) \<Rightarrow> 1 | Ibv (Create_cq d n ch) \<Rightarrow> 1
       | Ibv (Create_qp d i) \<Rightarrow> 1 | Ibv (Create_indirect_mr p n) \<Rightarrow> 2 | Ibv (Alloc_mkey_list p n) \<Rightarrow> 1
       | Data (Poll_cq q n) \<Rightarrow> 1 | _ \<Rightarrow> 0),
     data_in = (\<lambda>h c. []), attr_in = (\<lambda>h c a. 1),
     wcs_in = (\<lambda>h c. [\<lparr>wc_wr_id = 0, wc_status = st, wc_opcode = WC_SEND, wc_imm = 0, wc_qp_num = 0\<rparr>])\<rparr>"

lemma umr_net_env: "fill_env (st = 0) (umr_net st)" "ends_ok (umr_net st)"
  by (simp_all add: fill_env_def ends_ok_def umr_net_def)

lemma umr_net_answers:
  "ret (umr_net st) h (Libc (Calloc s)) = 1" "ret (umr_net st) h (Libc (Free p)) = 0"
  "ret (umr_net st) h (Ibv (Create_indirect_mr p n)) = 2" "ret (umr_net st) h (Ibv (Dereg_mr p)) = 0"
  "ret (umr_net st) h (Data (Post_umr_fill p u)) = 0" "ret (umr_net st) h (Data (Poll_cq p n)) = 1"
  "attr_in (umr_net st) h c x = 1"
  "wcs_in (umr_net st) h c = [\<lparr>wc_wr_id = 0, wc_status = st, wc_opcode = WC_SEND, wc_imm = 0, wc_qp_num = 0\<rparr>]"
  by (simp_all add: umr_net_def)

theorem umr_main_gives_back_witness:
  "held (snd (run_state (umr_main (umr_net 0) (Suc 0) no_stack [] [(''mlx5_0'', 7)] 4096 [] []) [])) = Some {#}"
proof -
  have zero: "fst (run_state (umr_main (umr_net 0) (Suc 0) no_stack [] [(''mlx5_0'', 7)] 4096 [] []) []) = Some 0"
    by (simp add: umr_main_def plain_args_def choose_dev_def umr_default_def umr_init_ctx_def new_umr_ctx_def umr_make_device_def
      umr_make_channel_def umr_make_pd_def umr_make_cq_def umr_make_qp_def numeral_3_eq_3
      umr_session_def pp_get_port_info_def umr_exchange_def umr_server_exch_dest_def open_server_def
      umr_close_label_def umr_close_ctx_def umr_close_rest_def umr_out_def run_simps umr_net_def Let_def ETHERNET_def)
  then show ?thesis
    using umr_main_gives_back [OF _ surjective_pairing, of "umr_net 0" "Suc 0" no_stack "[]" "[(''mlx5_0'', 7)]" 4096 "[]" "[]"]
      umr_net_env(1) [of 0] by simp
qed

text \<open>A context with one region, which the process holds.\<close>

definition umr_demo_ctx :: umr_ctx where
  "umr_demo_ctx = (new_umr_ctx 1 4096 0 0 1)\<lparr>v_mrs := [\<lparr>um_self = 9, um_addr = 4096, um_length = 4096\<rparr>]\<rparr>"

theorem umr_failed_fill_accepted_witness:
  "\<exists>s h'. run_state (umr_registered (umr_net 5) (Suc 0) umr_default umr_demo_ctx 1 0) [(Ibv (Reg_mr 1 4096 4096 {}), 9)] = (Some s, h')
     \<and> held h' = None"
proof -
  let ?h = "[(Ibv (Reg_mr 1 4096 4096 {}), 9)]"
  obtain s h' where run: "run_state (umr_registered (umr_net 5) (Suc 0) umr_default umr_demo_ctx 1 0) ?h = (Some s, h')"
    by (simp add: umr_registered_def umr_demo_ctx_def create_umr_def umr_default_def umr_regions_def new_umr_ctx_def umr_create_def
      umr_post_fill_def umr_invalidate_label_def umr_clean_mkey_list_def umr_clean_umr_def umr_clean_rpt_def umr_clean_list_def
      umr_run_def umr_post_recv_def umr_transfer_def umr_loop_def pl_loop_body_def umr_handle_wc_def pl_handle_wc_def
      umr_umr_label_def invalidate_umr_def umr_close_label_def umr_close_ctx_def umr_close_rest_def umr_out_def
      run_simps umr_net_def Let_def)
  have "makes_umr (umr_net 5)" by (simp add: makes_umr_def umr_net_def)
  moreover have "held ?h = Some {#(Mr, 9)#}" by (simp add: track_simps)
  moreover have "(Mr, ret (umr_net 5) h (Ibv (Create_indirect_mr p n))) \<notin># {#(Mr, 9)#}" for h p n
    by (simp add: umr_net_answers)
  ultimately have "held h' = None"
    using umr_failed_fill_accepted [OF _ _ _ _ _ run] umr_net_env(1) [of 5] by (simp add: umr_demo_ctx_def new_umr_ctx_def)
  then show ?thesis using run by blast
qed

theorem umr_status_always_zero_witness:
  "\<exists>s h'. run_state (umr_session (umr_net 0) (Suc 0) no_stack [] umr_default (new_umr_ctx 1 4096 500 0 3) 1) [] = (Some s, h')
     \<and> s = 0 \<and> sends h' = 0 \<and> recvs h' = 0"
proof -
  obtain s h' where run: "run_state (umr_session (umr_net 0) (Suc 0) no_stack [] umr_default (new_umr_ctx 1 4096 500 0 3) 1) [] = (Some s, h')"
    and none: "sends h' = 0" "recvs h' = 0"
    by (simp add: umr_session_def pp_get_port_info_def umr_default_def umr_exchange_def umr_server_exch_dest_def open_server_def
      umr_close_label_def umr_close_ctx_def umr_close_rest_def umr_out_def new_umr_ctx_def run_simps umr_net_def Let_def ETHERNET_def)
  show ?thesis using umr_status_always_zero [OF umr_net_env(2) run] run none by auto
qed

end
