(* ===== verification/BasicPair.thy ===== *)
theory BasicPair
  imports RwPair
begin

text \<open>
  client.c and server.c of 01_basic-client-server: each side sends one message when the connection is
  established; the client disconnects after its two completions.  The context of the process, its
  protection domain and completion queue, is built by the same code as in the other examples of the
  series (\<open>build_context\<close> and \<open>build_qp_attr\<close> of theory FileCommon).
\<close>

section \<open>State\<close>

definition B_BUFFER_SIZE :: nat where
  "B_BUFFER_SIZE = 1024"

text \<open>\<open>struct connection\<close> of the client; the server's has no identifier and no count.\<close>

record basic_conn =
  bc_id :: ptr
  bc_qp :: ptr
  bc_recv_mr :: mr
  bc_send_mr :: mr
  bc_recv_ptr :: ptr
  bc_recv_region :: buffer
  bc_send_ptr :: ptr
  bc_send_region :: buffer
  num_completions :: int

text \<open>\<open>b_printed\<close> is what the process has printed of received messages, newest first.\<close>

record basic_process = process +
  b_context :: "ptr \<Rightarrow> ptr"
  b_conns :: "ptr \<rightharpoonup> basic_conn"
  b_printed :: "string list"

definition junk_basic :: basic_conn where
  "junk_basic = \<lparr>bc_id = 0, bc_qp = 0, bc_recv_mr = no_mr, bc_send_mr = no_mr, bc_recv_ptr = 0,
     bc_recv_region = (\<lambda>i. NUL), bc_send_ptr = 0, bc_send_region = (\<lambda>i. NUL), num_completions = 0\<rparr>"

definition b_at :: "basic_process \<Rightarrow> ptr \<Rightarrow> basic_conn" where
  "b_at s p = (case b_conns s p of Some c \<Rightarrow> c | None \<Rightarrow> junk_basic)"

definition b_upd :: "ptr \<Rightarrow> (basic_conn \<Rightarrow> basic_conn) \<Rightarrow> basic_process cmd" where
  "b_upd p f = assign (\<lambda>s. s\<lparr>b_conns := (b_conns s)(p \<mapsto> f (b_at s p))\<rparr>)"

section \<open>What both sides do\<close>

definition b_malloc ::
    "api_env \<Rightarrow> string \<Rightarrow> ptr \<Rightarrow> (ptr \<Rightarrow> buffer \<Rightarrow> basic_conn \<Rightarrow> basic_conn) \<Rightarrow> basic_process cmd" where
  "b_malloc E what p f = look (\<lambda>s. call E (Libc (Malloc what)) (\<lambda>a. b_upd p (f a (fresh_region E (hist s) what))))"

definition b_register ::
    "api_env \<Rightarrow> ptr \<Rightarrow> (basic_conn \<Rightarrow> ptr) \<Rightarrow> access set \<Rightarrow> (mr \<Rightarrow> basic_conn \<Rightarrow> basic_conn) \<Rightarrow> basic_process cmd" where
  "b_register E p block acc f = look (\<lambda>s.
     reg_mr E (Reg_mr (ctx_pd (the_ctx s)) (block (b_at s p)) (int B_BUFFER_SIZE) acc) (\<lambda>m. b_upd p (f m)))"

definition b_register_memory :: "api_env \<Rightarrow> ptr \<Rightarrow> basic_process cmd" where
  "b_register_memory E p = seq [
     b_malloc E ''send_region'' p (\<lambda>a b c. c\<lparr>bc_send_ptr := a, bc_send_region := b\<rparr>),
     b_malloc E ''recv_region'' p (\<lambda>a b c. c\<lparr>bc_recv_ptr := a, bc_recv_region := b\<rparr>),
     b_register E p bc_send_ptr {} (\<lambda>m c. c\<lparr>bc_send_mr := m\<rparr>),
     b_register E p bc_recv_ptr {LOCAL_WRITE} (\<lambda>m c. c\<lparr>bc_recv_mr := m\<rparr>)]"

definition b_recv_wr :: "basic_conn \<Rightarrow> ptr \<Rightarrow> recv_wr" where
  "b_recv_wr c p = \<lparr>rwr_id = p,
     rwr_sges = [\<lparr>sg_addr = bc_recv_ptr c, sg_length = int B_BUFFER_SIZE, sg_lkey = lkey (bc_recv_mr c)\<rparr>]\<rparr>"

definition b_post_receives :: "api_env \<Rightarrow> ptr \<Rightarrow> basic_process cmd" where
  "b_post_receives E p = look (\<lambda>s.
     TEST_NZ E ''ibv_post_recv'' (Data (Post_recv (bc_qp (b_at s p)) [b_recv_wr (b_at s p) p])))"

text \<open>Up to the receive: what the client does when the address is resolved, the server on a request.\<close>

definition b_build :: "api_env \<Rightarrow> ptr \<Rightarrow> ptr \<Rightarrow> basic_process cmd" where
  "b_build E cid verbs = seq [
     build_context E verbs,
     look (\<lambda>s. TEST_NZ E ''rdma_create_qp''
       (Cm (Rdma_create_qp cid (ctx_pd (the_ctx s)) (build_qp_attr (ctx_cq (the_ctx s)))))),
     call E (Libc (Malloc ''connection'')) (\<lambda>p. seq [
       assign (\<lambda>t. t\<lparr>b_context := (b_context t)(cid := p), b_conns := (b_conns t)(p \<mapsto> junk_basic)\<rparr>),
       b_upd p (\<lambda>c. c\<lparr>bc_id := cid, bc_qp := cid, num_completions := 0\<rparr>),
       b_register_memory E p,
       b_post_receives E p])]"

text \<open>\<open>snprintf\<close> into the region, and the send; \<open>wid\<close> is the identifier of the request.\<close>

definition b_send_wr :: "basic_conn \<Rightarrow> int \<Rightarrow> send_wr" where
  "b_send_wr c wid = \<lparr>swr_id = wid, swr_opcode = WR_SEND,
     swr_sges = [\<lparr>sg_addr = bc_send_ptr c, sg_length = int B_BUFFER_SIZE, sg_lkey = lkey (bc_send_mr c)\<rparr>],
     swr_signaled = True, swr_imm = 0, swr_remote_addr = 0, swr_rkey = 0, swr_ah = 0, swr_remote_qpn = 0,
     swr_remote_qkey = 0, swr_remote_srqn = 0, swr_dct_key = 0, swr_dct_number = 0\<rparr>"

definition b_greet :: "api_env \<Rightarrow> ptr \<Rightarrow> int \<Rightarrow> string \<Rightarrow> basic_process cmd" where
  "b_greet E p wid what = seq [
     call E (Libc Getpid) (\<lambda>pid. b_upd p (\<lambda>c. c\<lparr>bc_send_region :=
       store_at (bc_send_region c) (take (B_BUFFER_SIZE - 1) (what @ print_d pid) @ [NUL])\<rparr>)),
     look (\<lambda>s. TEST_NZ E ''ibv_post_send'' (Data (Post_send (bc_qp (b_at s p)) [b_send_wr (b_at s p) wid])))]"

definition b_print :: "ptr \<Rightarrow> basic_process cmd" where
  "b_print p = assign (\<lambda>s. s\<lparr>b_printed :=
     cstr (read_at (bc_recv_region (b_at s p)) B_BUFFER_SIZE) # b_printed s\<rparr>)"

text \<open>\<open>rdma_destroy_qp\<close> and what the connection holds, then the connection and the identifier.\<close>

definition b_tear_down :: "api_env \<Rightarrow> ptr \<Rightarrow> basic_process cmd" where
  "b_tear_down E cid = look (\<lambda>s. let p = b_context s cid; c = b_at s p in seq [
     run_call E (Cm (Rdma_destroy_qp cid)),
     run_call E (Ibv (Dereg_mr (mr_self (bc_send_mr c)))),
     run_call E (Ibv (Dereg_mr (mr_self (bc_recv_mr c)))),
     run_call E (Libc (Free (bc_send_ptr c))),
     run_call E (Libc (Free (bc_recv_ptr c))),
     run_call E (Libc (Free p)),
     assign (\<lambda>s. s\<lparr>b_conns := (b_conns s)(p := None)\<rparr>),
     run_call E (Cm (Destroy_id cid))])"

section \<open>client.c\<close>

definition bc_on_addr_resolved :: "api_env \<Rightarrow> ptr \<Rightarrow> ptr \<Rightarrow> basic_process cmd" where
  "bc_on_addr_resolved E cid verbs = seq [b_build E cid verbs,
     TEST_NZ E ''rdma_resolve_route'' (Cm (Resolve_route cid TIMEOUT_IN_MS))]"

definition bc_on_route_resolved :: "api_env \<Rightarrow> ptr \<Rightarrow> basic_process cmd" where
  "bc_on_route_resolved E cid = TEST_NZ E ''rdma_connect'' (Cm (Connect cid zero_conn_param))"

definition bc_on_connection :: "api_env \<Rightarrow> ptr \<Rightarrow> basic_process cmd" where
  "bc_on_connection E cid = look (\<lambda>s.
     b_greet E (b_context s cid) (b_context s cid) ''message from active/client side with pid '')"

definition bc_on_completion :: "api_env \<Rightarrow> wc \<Rightarrow> basic_process cmd" where
  "bc_on_completion E w = (let p = wc_wr_id w in seq [
     if_cmd (wc_status w \<noteq> 0) (die ''on_completion: status is not IBV_WC_SUCCESS.'') skip,
     if_cmd (wc_is_recv (wc_opcode w)) (b_print p)
       (if_cmd (wc_opcode w = WC_SEND) skip (die ''on_completion: completion isn't a send or a receive.'')),
     b_upd p (\<lambda>c. c\<lparr>num_completions := num_completions c + 1\<rparr>),
     look (\<lambda>s. if_cmd (num_completions (b_at s p) = 2) (run_call E (Cm (Disconnect (bc_id (b_at s p))))) skip)])"

definition bc_on_event :: "api_env \<Rightarrow> cm_event \<Rightarrow> ptr \<Rightarrow> ptr \<Rightarrow> basic_process cmd" where
  "bc_on_event E ev cid verbs = (case ev of
      ADDR_RESOLVED \<Rightarrow> bc_on_addr_resolved E cid verbs
    | ROUTE_RESOLVED \<Rightarrow> bc_on_route_resolved E cid
    | ESTABLISHED \<Rightarrow> bc_on_connection E cid
    | DISCONNECTED \<Rightarrow> b_tear_down E cid
    | _ \<Rightarrow> die ''on_event: unknown event.'')"

section \<open>server.c\<close>

definition bs_on_connect_request :: "api_env \<Rightarrow> ptr \<Rightarrow> ptr \<Rightarrow> basic_process cmd" where
  "bs_on_connect_request E cid verbs = seq [b_build E cid verbs,
     TEST_NZ E ''rdma_accept'' (Cm (Accept cid zero_conn_param))]"

definition bs_on_connection :: "api_env \<Rightarrow> ptr \<Rightarrow> basic_process cmd" where
  "bs_on_connection E cid = look (\<lambda>s.
     b_greet E (b_context s cid) 0 ''message from passive/server side with pid '')"

definition bs_on_completion :: "wc \<Rightarrow> basic_process cmd" where
  "bs_on_completion w = seq [
     if_cmd (wc_status w \<noteq> 0) (die ''on_completion: status is not IBV_WC_SUCCESS.'') skip,
     if_cmd (wc_is_recv (wc_opcode w)) (b_print (wc_wr_id w)) skip]"

definition bs_on_event :: "api_env \<Rightarrow> cm_event \<Rightarrow> ptr \<Rightarrow> ptr \<Rightarrow> basic_process cmd" where
  "bs_on_event E ev cid verbs = (case ev of
      CONNECT_REQUEST \<Rightarrow> bs_on_connect_request E cid verbs
    | ESTABLISHED \<Rightarrow> bs_on_connection E cid
    | DISCONNECTED \<Rightarrow> b_tear_down E cid
    | _ \<Rightarrow> die ''on_event: unknown event.'')"

section \<open>The poller and the loops\<close>

text \<open>\<open>poll_cq\<close> for the event of one completion.\<close>

definition b_poll_cq :: "api_env \<Rightarrow> (wc \<Rightarrow> basic_process cmd) \<Rightarrow> wc \<Rightarrow> basic_process cmd" where
  "b_poll_cq E on_compl w = look (\<lambda>s. let c = the_ctx s in seq [
     TEST_NZ E ''ibv_get_cq_event'' (Data (Get_cq_event (ctx_channel c))),
     run_call E (Data (Ack_cq_events (ctx_cq c) 1)),
     TEST_NZ E ''ibv_req_notify_cq'' (Data (Req_notify_cq (ctx_cq c))),
     run_call E (Data (Poll_cq (ctx_cq c) 1)),
     on_compl w,
     run_call E (Data (Poll_cq (ctx_cq c) 1))])"

text \<open>What happens to a process, in order, as for the file transfer; the client stops at a disconnect.\<close>

fun b_loop ::
    "api_env \<Rightarrow> (cm_event \<Rightarrow> ptr \<Rightarrow> ptr \<Rightarrow> basic_process cmd) \<Rightarrow> (wc \<Rightarrow> basic_process cmd) \<Rightarrow> bool
      \<Rightarrow> basic_process input list \<Rightarrow> basic_process cmd" where
  "b_loop E on_ev on_compl exits [] s = Run s"
| "b_loop E on_ev on_compl exits (Cm_event ev cid verbs # ins) s =
    (case seq [run_call E (Cm Ack_cm_event), on_ev ev cid verbs] s of
       Exit m s' \<Rightarrow> Exit m s'
     | Run s' \<Rightarrow> if ev = DISCONNECTED \<and> exits then Run s' else b_loop E on_ev on_compl exits ins s')"
| "b_loop E on_ev on_compl exits (Completion mem w # ins) s =
    (case b_poll_cq E on_compl w (mem s) of
       Exit m s' \<Rightarrow> Exit m s' | Run s' \<Rightarrow> b_loop E on_ev on_compl exits ins s')"

definition bc_main :: "api_env \<Rightarrow> string list \<Rightarrow> basic_process input list \<Rightarrow> basic_process cmd" where
  "bc_main E argv ins =
    (if length argv \<noteq> 3 then die ''usage''
     else seq [
       TEST_NZ E ''getaddrinfo'' (Libc (Getaddrinfo_service (argv ! 1) (argv ! 2))),
       TEST_Z E ''rdma_create_event_channel'' (Cm Create_event_channel) (\<lambda>ec.
       create_id E ec (\<lambda>conn. seq [
         TEST_NZ E ''rdma_resolve_addr'' (Cm (Resolve_addr conn TIMEOUT_IN_MS)),
         run_call E (Libc Freeaddrinfo),
         b_loop E (bc_on_event E) (bc_on_completion E) True ins,
         run_call E (Cm (Destroy_event_channel ec))]))])"

definition bs_main :: "api_env \<Rightarrow> basic_process input list \<Rightarrow> basic_process cmd" where
  "bs_main E ins =
     TEST_Z E ''rdma_create_event_channel'' (Cm Create_event_channel) (\<lambda>ec.
     create_id E ec (\<lambda>listener. seq [
       TEST_NZ E ''rdma_bind_addr'' (Cm (Bind_addr listener 0)),
       TEST_NZ E ''rdma_listen'' (Cm (Listen listener 10)),
       run_call E (Cm (Get_src_port listener)),
       b_loop E (bs_on_event E) bs_on_completion False ins,
       run_call E (Cm (Destroy_id listener)),
       run_call E (Cm (Destroy_event_channel ec))]))"

section \<open>The two processes\<close>

text \<open>
  A side: its process, the completions its poller has not taken, whether it has handled \<open>ESTABLISHED\<close> and
  the disconnect, and how many of its messages have arrived.
\<close>

record basic_side =
  b_prc :: basic_process
  b_cqes :: "wc list"
  b_up :: bool
  b_down :: bool
  b_out :: int

definition b_conn :: "(who \<Rightarrow> ptr) \<Rightarrow> who \<Rightarrow> basic_side \<Rightarrow> ptr" where
  "b_conn ids a sd = b_context (b_prc sd) (ids a)"

fun b_on_connection :: "who \<Rightarrow> api_env \<Rightarrow> ptr \<Rightarrow> basic_process cmd" where
  "b_on_connection Client E cid = bc_on_connection E cid"
| "b_on_connection Server E cid = bs_on_connection E cid"

fun b_on_completion :: "who \<Rightarrow> api_env \<Rightarrow> wc \<Rightarrow> basic_process cmd" where
  "b_on_completion Client E w = bc_on_completion E w"
| "b_on_completion Server E w = bs_on_completion w"

definition b_wc :: "int \<Rightarrow> wc_opcode \<Rightarrow> wc" where
  "b_wc i op = \<lparr>wc_wr_id = i, wc_status = 0, wc_opcode = op, wc_imm = 0, wc_qp_num = 0\<rparr>"

text \<open>The bytes of the message stored where the receive points.\<close>

definition b_store :: "ptr \<Rightarrow> string \<Rightarrow> basic_process \<Rightarrow> basic_process" where
  "b_store p d s = s\<lparr>b_conns := (b_conns s)(p \<mapsto> (b_at s p)\<lparr>bc_recv_region := store_at (bc_recv_region (b_at s p)) d\<rparr>)\<rparr>"

text \<open>Whether the client has called \<open>rdma_disconnect\<close>.\<close>

definition disconnecting :: "trace \<Rightarrow> bool" where
  "disconnecting h \<longleftrightarrow> (\<exists>i r. (Cm (Disconnect i), r) \<in> set h)"

text \<open>
  \<open>Es\<close> are the environments of the two sides and \<open>ids\<close> the identifiers of the connection.  A message that
  arrives completes at both sides.  The poller takes its completions whether or not the main thread has
  freed the connection in the meantime: the handler then finds any contents \<open>x\<close> in the freed memory.
\<close>

inductive basic_step ::
    "(who \<Rightarrow> api_env) \<Rightarrow> (who \<Rightarrow> ptr) \<Rightarrow> (who \<Rightarrow> basic_side) \<Rightarrow> (who \<Rightarrow> basic_side) \<Rightarrow> bool" for Es ids where
  establish: "\<not> b_up (S a) \<Longrightarrow> b_on_connection a (Es a) (ids a) (b_prc (S a)) = Run s' \<Longrightarrow>
    basic_step Es ids S (S(a := (S a)\<lparr>b_prc := s', b_up := True\<rparr>))"
| arrive: "b_out (S a) < sends (hist (b_prc (S a))) \<Longrightarrow> b_out (S a) < recvs (hist (b_prc (S (other a)))) \<Longrightarrow>
    \<not> b_down (S a) \<Longrightarrow> \<not> b_down (S (other a)) \<Longrightarrow>
    p = b_conn ids a (S a) \<Longrightarrow> q = b_conn ids (other a) (S (other a)) \<Longrightarrow>
    basic_step Es ids S (S(a := (S a)\<lparr>b_cqes := b_cqes (S a) @ [b_wc (if a = Client then p else 0) WC_SEND], b_out := b_out (S a) + 1\<rparr>,
      other a := (S (other a))\<lparr>b_prc := b_store q (read_at (bc_send_region (b_at (b_prc (S a)) p)) B_BUFFER_SIZE)
        (b_prc (S (other a))), b_cqes := b_cqes (S (other a)) @ [b_wc q WC_RECV]\<rparr>))"
| poll: "b_cqes (S a) = w # ws \<Longrightarrow> \<not> b_down (S a) \<Longrightarrow>
    b_poll_cq (Es a) (b_on_completion a (Es a)) w (b_prc (S a)) = Run s' \<Longrightarrow>
    basic_step Es ids S (S(a := (S a)\<lparr>b_prc := s', b_cqes := ws\<rparr>))"
| poll_freed: "b_cqes (S a) = w # ws \<Longrightarrow> b_down (S a) \<Longrightarrow>
    b_poll_cq (Es a) (b_on_completion a (Es a)) w
      ((b_prc (S a))\<lparr>b_conns := (b_conns (b_prc (S a)))(wc_wr_id w \<mapsto> x)\<rparr>) = Run s' \<Longrightarrow>
    basic_step Es ids S (S(a := (S a)\<lparr>b_prc := s'\<lparr>b_conns := (b_conns s')(wc_wr_id w := None)\<rparr>, b_cqes := ws\<rparr>))"
| disconnect: "disconnecting (hist (b_prc (S Client))) \<Longrightarrow> \<not> b_down (S a) \<Longrightarrow>
    b_tear_down (Es a) (ids a) (b_prc (S a)) = Run s' \<Longrightarrow>
    basic_step Es ids S (S(a := (S a)\<lparr>b_prc := s', b_down := True\<rparr>))"

text \<open>A side with its connection built.\<close>

definition basic_ready :: "(who \<Rightarrow> ptr) \<Rightarrow> who \<Rightarrow> basic_side \<Rightarrow> bool" where
  "basic_ready ids a sd \<longleftrightarrow> (\<exists>c. b_conns (b_prc sd) (b_conn ids a sd) = Some c \<and> num_completions c = 0)
     \<and> sends (hist (b_prc sd)) = 0 \<and> recvs (hist (b_prc sd)) = 1 \<and> \<not> disconnecting (hist (b_prc sd))
     \<and> b_printed (b_prc sd) = [] \<and> b_cqes sd = [] \<and> \<not> b_up sd \<and> \<not> b_down sd \<and> b_out sd = 0"

definition b_calls_ok :: "(who \<Rightarrow> api_env) \<Rightarrow> bool" where
  "b_calls_ok Es \<longleftrightarrow> (\<forall>a h q w. ret (Es a) h (Data (Post_send q w)) = 0 \<and> ret (Es a) h (Data (Get_cq_event q)) = 0
     \<and> ret (Es a) h (Data (Req_notify_cq q)) = 0)"

lemma b_on_completion_side [simp]:
  "b_on_completion Client E = bc_on_completion E" "b_on_completion Server E = bs_on_completion"
  by (simp_all add: fun_eq_iff)

text \<open>How a side comes to that: the handlers that ran before, in a fresh process.\<close>

fun b_setup :: "who \<Rightarrow> api_env \<Rightarrow> ptr \<Rightarrow> ptr \<Rightarrow> basic_process cmd" where
  "b_setup Client E cid verbs = seq [bc_on_addr_resolved E cid verbs, bc_on_route_resolved E cid]"
| "b_setup Server E cid verbs = bs_on_connect_request E cid verbs"

definition b_fresh :: basic_process where
  "b_fresh = \<lparr>hist = [], s_ctx = None, b_context = (\<lambda>_. 0), b_conns = Map.empty, b_printed = []\<rparr>"

definition b_waiting :: "basic_process \<Rightarrow> basic_side" where
  "b_waiting s = \<lparr>b_prc = s, b_cqes = [], b_up = False, b_down = False, b_out = 0\<rparr>"

section \<open>What the handlers do\<close>

lemma history_counts:
  "sends ((Data (Get_cq_event x), r) # h) = sends h" "sends ((Data (Ack_cq_events x n), r) # h) = sends h"
  "sends ((Data (Req_notify_cq x), r) # h) = sends h" "sends ((Data (Poll_cq x n), r) # h) = sends h"
  "disconnecting ((Data d, r) # h) = disconnecting h" "disconnecting ((Libc l, r) # h) = disconnecting h"
  "disconnecting ((Ibv l', r) # h) = disconnecting h" "disconnecting ((Cm (Disconnect i'), r) # h)"
  by (auto simp: disconnecting_def)

text \<open>The states a command may end in, whatever its calls return.\<close>

definition run_in :: "('s \<Rightarrow> bool) \<Rightarrow> 's outcome \<Rightarrow> bool" where
  "run_in Q r \<longleftrightarrow> (case r of Run s \<Rightarrow> Q s | Exit m s \<Rightarrow> True)"

lemma run_in_intros:
  "Q s \<Longrightarrow> run_in Q (seq [] s)"
  "run_in (\<lambda>t. run_in Q (seq cs t)) (c s) \<Longrightarrow> run_in Q (seq (c # cs) s)"
  "(\<And>r. run_in Q (k r (s\<lparr>hist := (x, r) # hist s\<rparr>))) \<Longrightarrow> run_in Q (call E x k s)"
  "(\<And>r. Q (s\<lparr>hist := (x, r) # hist s\<rparr>)) \<Longrightarrow> run_in Q (TEST_NZ E m x s)"
  "(\<And>r. run_in Q (k r (s\<lparr>hist := (x, r) # hist s\<rparr>))) \<Longrightarrow> run_in Q (TEST_Z E m x k s)"
  "(\<And>r mm. run_in Q (kk mm (s\<lparr>hist := (Ibv y, r) # hist s\<rparr>))) \<Longrightarrow> run_in Q (reg_mr E y kk s)"
  "(\<And>r b. run_in Q (b_upd p (ff r b) (u\<lparr>hist := (Libc (Malloc what), r) # hist u\<rparr>))) \<Longrightarrow> run_in Q (b_malloc E what p ff u)"
  "Q (u\<lparr>b_conns := (b_conns u)(p \<mapsto> h (b_at u p))\<rparr>) \<Longrightarrow> run_in Q (b_upd p h u)"
  "Q (f s) \<Longrightarrow> run_in Q (assign f s)"
  "run_in Q (g s s) \<Longrightarrow> run_in Q (look g s)"
  by (auto simp: run_in_def cmd_simps b_malloc_def b_upd_def split: outcome.splits)

lemma run_in_seq:
  "run_in P (c s) \<Longrightarrow> (\<And>t. P t \<Longrightarrow> run_in Q (seq cs t)) \<Longrightarrow> run_in Q (seq (c # cs) s)"
  by (cases "c s") (simp_all add: run_in_def)

lemma run_in_last: "run_in Q (c s) \<Longrightarrow> run_in Q (seq [c] s)"
  by (simp add: run_in_def split: outcome.splits)

lemma run_in_conseq: "run_in P r \<Longrightarrow> (\<And>s. P s \<Longrightarrow> Q s) \<Longrightarrow> run_in Q r"
  by (cases r) (simp_all add: run_in_def)

text \<open>The connection is allocated and \<open>k\<close> receives are posted.\<close>

definition b_stage :: "ptr \<Rightarrow> ptr \<Rightarrow> int \<Rightarrow> basic_process \<Rightarrow> bool" where
  "b_stage cid p k s \<longleftrightarrow> sends (hist s) = 0 \<and> recvs (hist s) = k \<and> \<not> disconnecting (hist s) \<and> b_printed s = []
     \<and> b_context s cid = p \<and> (\<exists>c. b_conns s p = Some c \<and> num_completions c = 0)"

lemma b_stage_steps:
  assumes "b_stage cid p k s"
  shows "(\<And>c. num_completions (h c) = num_completions c) \<Longrightarrow> run_in (b_stage cid p k) (b_upd p h s)"
    and "(\<And>a b c. num_completions (ff a b c) = num_completions c) \<Longrightarrow> run_in (b_stage cid p k) (b_malloc E what p ff s)"
    and "(\<And>m c. num_completions (fm m c) = num_completions c) \<Longrightarrow> run_in (b_stage cid p k) (b_register E p block acc fm s)"
    and "run_in (b_stage cid p (k + 1)) (b_post_receives E p s)"
    and "run_in (b_stage cid p k) (TEST_NZ E m (Cm (Resolve_route cid n)) s)"
      "run_in (b_stage cid p k) (TEST_NZ E m (Cm (Connect cid cp)) s)" "run_in (b_stage cid p k) (TEST_NZ E m (Cm (Accept cid cp)) s)"
  using assms by (auto simp: run_in_def b_stage_def b_malloc_def b_register_def b_post_receives_def reg_mr_def b_upd_def
    cmd_simps b_at_def history_counts disconnecting_def split: outcome.splits)

lemma b_built:
  "run_in (\<lambda>s. b_stage cid (b_context s cid) 1 s) (b_build E cid verbs b_fresh)"
proof -
  have ctx: "run_in (\<lambda>s. sends (hist s) = 0 \<and> recvs (hist s) = 0 \<and> \<not> disconnecting (hist s) \<and> b_printed s = [])
      (build_context E verbs b_fresh)"
  proof -
    have "run_in (\<lambda>s. sends (hist s) = 0 \<and> recvs (hist s) = 0 \<and> \<not> disconnecting (hist s) \<and> b_printed s = [])
       (call E (Libc (Malloc ''context'')) (\<lambda>_.
        TEST_Z E ''ibv_alloc_pd'' (Ibv (Alloc_pd verbs)) (\<lambda>p.
        TEST_Z E ''ibv_create_comp_channel'' (Ibv (Create_comp_channel verbs)) (\<lambda>ch.
        TEST_Z E ''ibv_create_cq'' (Ibv (Create_cq verbs 10 ch)) (\<lambda>q. seq [
          assign (\<lambda>s. s\<lparr>s_ctx := Some \<lparr>ctx_verbs = verbs, ctx_pd = p, ctx_cq = q, ctx_channel = ch\<rparr>\<rparr>),
          TEST_NZ E ''ibv_req_notify_cq'' (Data (Req_notify_cq q)),
          TEST_NZ E ''pthread_create'' (Libc (Pthread_create ''poll_cq''))])))) b_fresh)"
      by (intro run_in_intros) (simp add: b_fresh_def history_counts disconnecting_def)
    then show ?thesis by (simp add: build_context_def look_def b_fresh_def)
  qed
  have reg: "run_in (b_stage cid p 0) (b_register_memory E p s)" if "b_stage cid p 0 s" for p s
    unfolding b_register_memory_def
    using that by (intro run_in_seq [where P = "b_stage cid p 0"] b_stage_steps(2,3) run_in_intros(1)) simp_all
  have rest: "run_in (\<lambda>s. b_stage cid (b_context s cid) 1 s) (seq [
       b_upd p (\<lambda>c. c\<lparr>bc_id := cid, bc_qp := cid, num_completions := 0\<rparr>), b_register_memory E p, b_post_receives E p] s)"
    if "b_stage cid p 0 s" for p s
  proof -
    have first: "run_in (b_stage cid p 0) (b_upd p (\<lambda>c. c\<lparr>bc_id := cid, bc_qp := cid, num_completions := 0\<rparr>) s)"
      using that by (simp add: run_in_def b_upd_def cmd_simps b_stage_def)
    have last: "run_in (\<lambda>s. b_stage cid (b_context s cid) 1 s) (seq [b_post_receives E p] t)" if "b_stage cid p 0 t" for t
      using b_stage_steps(4) [OF that, of E] by (auto simp: run_in_def b_stage_def split: outcome.splits)
    have "run_in (\<lambda>s. b_stage cid (b_context s cid) 1 s) (seq [b_register_memory E p, b_post_receives E p] t)"
      if "b_stage cid p 0 t" for t
      by (rule run_in_seq [where P = "b_stage cid p 0"]) (use reg that last in auto)
    then show ?thesis by (rule run_in_seq [where P = "b_stage cid p 0", rotated]) (simp_all add: first)
  qed
  show ?thesis unfolding b_build_def
    by (rule run_in_seq, rule ctx, rule run_in_intros, rule run_in_intros, rule run_in_intros, rule run_in_last,
        rule run_in_intros, rule run_in_intros, rule run_in_intros, rule rest)
      (simp add: b_stage_def junk_basic_def history_counts disconnecting_def)
qed

lemma b_setup_ready:
  assumes "b_setup a E (ids a) verbs b_fresh = Run s"
  shows "basic_ready ids a (b_waiting s)"
proof -
  let ?P = "\<lambda>s. b_stage (ids a) (b_context s (ids a)) 1 s"
  have same: "b_stage cid p k s \<Longrightarrow> b_stage cid (b_context s cid) k s" for cid p k s by (auto simp: b_stage_def)
  have "run_in ?P (b_setup a E (ids a) verbs b_fresh)"
  proof (cases a)
    case Client
    have res: "run_in ?P (seq [TEST_NZ E m (Cm (Resolve_route (ids a) n))] t)" "run_in ?P (seq [TEST_NZ E m (Cm (Connect (ids a) cp))] t)"
      if "?P t" for m n cp t
      by (rule run_in_last, rule run_in_conseq, rule b_stage_steps(5,6) [OF that], rule same, assumption)+
    have "run_in ?P (bc_on_addr_resolved E (ids a) verbs b_fresh)"
      unfolding bc_on_addr_resolved_def by (rule run_in_seq, rule b_built, rule res)
    then show ?thesis unfolding Client b_setup.simps bc_on_route_resolved_def
      by (rule run_in_seq) (rule res(2) [unfolded Client])
  next
    case Server
    have acc: "run_in ?P (seq [TEST_NZ E m (Cm (Accept (ids a) cp))] t)" if "?P t" for m cp t
      by (rule run_in_last, rule run_in_conseq, rule b_stage_steps(7) [OF that], rule same)
    show ?thesis unfolding Server b_setup.simps bs_on_connect_request_def
      by (rule run_in_seq, rule b_built, rule acc [unfolded Server])
  qed
  then show ?thesis using assms by (simp add: run_in_def b_stage_def basic_ready_def b_waiting_def b_conn_def)
qed

text \<open>The messages of the two sides, as far as they fit.\<close>

fun b_what :: "who \<Rightarrow> string" where
  "b_what Client = ''message from active/client side with pid ''"
| "b_what Server = ''message from passive/server side with pid ''"

definition hello :: "who \<Rightarrow> string \<Rightarrow> bool" where
  "hello a t \<longleftrightarrow> (\<exists>pid. t = take (B_BUFFER_SIZE - 1) (b_what a @ print_d pid))"

definition b_reads :: "buffer \<Rightarrow> string" where
  "b_reads b = cstr (read_at b B_BUFFER_SIZE)"

lemma no_NUL_hello: "NUL \<notin> set (take n (b_what a @ print_d pid))"
proof -
  have d: "NUL \<notin> set (print_base 10 n)" for n
    using print_base_digits [of 10 n] digit_string_char(8) [of 10] by auto
  have "NUL \<notin> set (b_what a)" by (cases a) (simp_all add: NUL_def)
  moreover have "NUL \<notin> set (print_d pid)" using d by (simp add: print_d_def NUL_def [THEN arg_cong [of _ _ "\<lambda>c. c = CHR ''-''"]])
  ultimately show ?thesis using set_take_subset by fastforce
qed

lemma b_greets:
  assumes "b_calls_ok Es"
  shows "\<exists>s'. b_greet (Es a) p i (b_what a) s = Run s' \<and> hello a (b_reads (bc_send_region (b_at s' p))) \<and> sends (hist s') = sends (hist s) + 1
    \<and> recvs (hist s') = recvs (hist s) \<and> disconnecting (hist s') = disconnecting (hist s)
    \<and> b_context s' = b_context s \<and> b_printed s' = b_printed s
    \<and> b_conns s' = (b_conns s)(p \<mapsto> (b_at s p)\<lparr>bc_send_region := bc_send_region (b_at s' p)\<rparr>)"
proof -
  let ?pid = "ret (Es a) (hist s) (Libc Getpid)"
  have "b_reads (store_at b (take (B_BUFFER_SIZE - 1) (b_what a @ print_d ?pid) @ [NUL]))
      = take (B_BUFFER_SIZE - 1) (b_what a @ print_d ?pid)" for b
    unfolding b_reads_def by (rule cstr_read_store [OF no_NUL_hello]) (simp add: B_BUFFER_SIZE_def)
  then have "hello a (b_reads (store_at b (take (B_BUFFER_SIZE - 1) (b_what a @ print_d ?pid) @ [NUL])))" for b
    by (auto simp: hello_def)
  then show ?thesis
    using assms by (simp add: b_greet_def b_calls_ok_def b_upd_def cmd_simps b_at_def history_counts)
qed

lemma b_client_polls:
  assumes "b_calls_ok Es" and "op = WC_RECV \<or> op = WC_SEND"
  shows "\<exists>s'. b_poll_cq (Es a) (bc_on_completion (Es a)) (b_wc p op) s = Run s'
    \<and> sends (hist s') = sends (hist s) \<and> recvs (hist s') = recvs (hist s)
    \<and> (disconnecting (hist s') \<longleftrightarrow> disconnecting (hist s) \<or> num_completions (b_at s p) = 1)
    \<and> b_context s' = b_context s
    \<and> b_printed s' = (if op = WC_RECV then cstr (read_at (bc_recv_region (b_at s p)) B_BUFFER_SIZE) # b_printed s
        else b_printed s)
    \<and> b_conns s' = (b_conns s)(p \<mapsto> (b_at s p)\<lparr>num_completions := num_completions (b_at s p) + 1\<rparr>)"
proof -
  have io: "ret (Es a) h (Data (Get_cq_event q)) = 0" "ret (Es a) h (Data (Req_notify_cq q)) = 0" for h q
    using assms(1) by (simp_all add: b_calls_ok_def)
  show ?thesis using assms(2)
    by (cases "num_completions (b_at s p) = 1")
      (auto simp: b_poll_cq_def bc_on_completion_def b_print_def b_upd_def cmd_simps io Let_def b_wc_def
        history_counts wc_is_recv_def b_at_def)
qed

lemma b_server_polls:
  assumes "b_calls_ok Es" and "op = WC_RECV \<or> op = WC_SEND"
  shows "\<exists>s'. b_poll_cq (Es a) bs_on_completion (b_wc p op) s = Run s'
    \<and> sends (hist s') = sends (hist s) \<and> recvs (hist s') = recvs (hist s)
    \<and> disconnecting (hist s') = disconnecting (hist s) \<and> b_context s' = b_context s \<and> b_conns s' = b_conns s
    \<and> b_printed s' = (if op = WC_RECV then cstr (read_at (bc_recv_region (b_at s p)) B_BUFFER_SIZE) # b_printed s
        else b_printed s)"
proof -
  have io: "ret (Es a) h (Data (Get_cq_event q)) = 0" "ret (Es a) h (Data (Req_notify_cq q)) = 0" for h q
    using assms(1) by (simp_all add: b_calls_ok_def)
  show ?thesis using assms(2)
    by (auto simp: b_poll_cq_def bs_on_completion_def b_print_def cmd_simps io Let_def b_wc_def
        history_counts wc_is_recv_def b_at_def)
qed

lemma b_tears_down:
  "\<exists>s'. b_tear_down E cid s = Run s' \<and> b_conns s' = (b_conns s)(b_context s cid := None)
    \<and> b_context s' = b_context s \<and> b_printed s' = b_printed s \<and> sends (hist s') = sends (hist s)
    \<and> recvs (hist s') = recvs (hist s) \<and> (disconnecting (hist s) \<longrightarrow> disconnecting (hist s'))"
  by (auto simp: b_tear_down_def cmd_simps Let_def disconnecting_def)

section \<open>The invariant\<close>

definition b_wc_ok :: "who \<Rightarrow> ptr \<Rightarrow> wc \<Rightarrow> bool" where
  "b_wc_ok a p w \<longleftrightarrow> w = b_wc p WC_RECV \<or> w = b_wc (if a = Client then p else 0) WC_SEND"

text \<open>
  A side with the connection \<open>p\<close>: \<open>dc\<close> says that the client has asked for the disconnect, \<open>inn\<close> how many
  messages of the peer have arrived.
\<close>

definition b_live :: "who \<Rightarrow> ptr \<Rightarrow> bool \<Rightarrow> int \<Rightarrow> basic_side \<Rightarrow> basic_conn \<Rightarrow> bool" where
  "b_live a p dc inn sd c \<longleftrightarrow> b_conns (b_prc sd) p = Some c
     \<and> (b_up sd \<longrightarrow> hello a (b_reads (bc_send_region c)))
     \<and> (0 < rcv (b_cqes sd) \<longrightarrow> hello (other a) (b_reads (bc_recv_region c)))
     \<and> (a = Client \<longrightarrow> num_completions c + int (length (b_cqes sd)) = b_out sd + inn \<and> (dc \<longleftrightarrow> num_completions c = 2))"

definition b_side_ok :: "who \<Rightarrow> ptr \<Rightarrow> bool \<Rightarrow> int \<Rightarrow> basic_side \<Rightarrow> bool" where
  "b_side_ok a p dc inn sd \<longleftrightarrow> sends (hist (b_prc sd)) = (if b_up sd then 1 else 0) \<and> recvs (hist (b_prc sd)) = 1
     \<and> 0 \<le> b_out sd \<and> b_out sd \<le> sends (hist (b_prc sd))
     \<and> list_all (b_wc_ok a p) (b_cqes sd) \<and> int (rcv (b_cqes sd)) + int (length (b_printed (b_prc sd))) = inn
     \<and> int (own (b_cqes sd)) \<le> b_out sd
     \<and> (\<not> b_down sd \<or> a = Client \<longrightarrow> list_all (hello (other a)) (b_printed (b_prc sd)))
     \<and> (b_down sd \<longrightarrow> dc \<and> b_conns (b_prc sd) p = None) \<and> (\<not> b_down sd \<longrightarrow> (\<exists>c. b_live a p dc inn sd c))
     \<and> (a = Client \<longrightarrow> disconnecting (hist (b_prc sd)) = dc
          \<and> (dc \<longrightarrow> b_out sd = 1 \<and> inn = 1 \<and> b_cqes sd = []))"

lemma side_establish:
  assumes "b_calls_ok Es" and "b_side_ok a p dc inn sd" "\<not> b_up sd" "\<not> b_down sd"
    and "b_context (b_prc sd) (ids a) = p"
  shows "\<exists>s'. b_on_connection a (Es a) (ids a) (b_prc sd) = Run s' \<and> b_context s' = b_context (b_prc sd)
    \<and> disconnecting (hist s') = disconnecting (hist (b_prc sd)) \<and> b_printed s' = b_printed (b_prc sd)
    \<and> b_side_ok a p dc inn (sd\<lparr>b_prc := s', b_up := True\<rparr>)"
proof -
  obtain c where c: "b_live a p dc inn sd c" using assms(2,4) by (auto simp: b_side_ok_def)
  obtain i where run: "b_on_connection a (Es a) (ids a) (b_prc sd) = b_greet (Es a) p i (b_what a) (b_prc sd)"
    using assms(5) by (cases a) (auto simp: bc_on_connection_def bs_on_connection_def look_def)
  from b_greets [OF assms(1), of a p i "b_prc sd"] obtain s' where s': "b_greet (Es a) p i (b_what a) (b_prc sd) = Run s'"
    "hello a (b_reads (bc_send_region (b_at s' p)))" "sends (hist s') = sends (hist (b_prc sd)) + 1"
    "recvs (hist s') = recvs (hist (b_prc sd))" "disconnecting (hist s') = disconnecting (hist (b_prc sd))"
    "b_context s' = b_context (b_prc sd)" "b_printed s' = b_printed (b_prc sd)"
    "b_conns s' = (b_conns (b_prc sd))(p \<mapsto> (b_at (b_prc sd) p)\<lparr>bc_send_region := bc_send_region (b_at s' p)\<rparr>)"
    by blast
  have "b_at (b_prc sd) p = c" using c by (simp add: b_live_def b_at_def)
  then have "b_live a p dc inn (sd\<lparr>b_prc := s', b_up := True\<rparr>) (c\<lparr>bc_send_region := bc_send_region (b_at s' p)\<rparr>)"
    using c s' by (simp add: b_live_def)
  then have "b_side_ok a p dc inn (sd\<lparr>b_prc := s', b_up := True\<rparr>)"
    using assms(2-4) s' by (auto simp: b_side_ok_def)
  then show ?thesis using run s' by auto
qed

text \<open>A message arrives: at the side that sent it, and at the other.\<close>

lemma side_sent:
  assumes "b_side_ok a p dc inn sd" "b_out sd < sends (hist (b_prc sd))" "\<not> b_down sd" "\<not> dc"
  shows "b_side_ok a p dc inn (sd\<lparr>b_cqes := b_cqes sd @ [b_wc (if a = Client then p else 0) WC_SEND], b_out := b_out sd + 1\<rparr>)"
  using assms by (auto simp: b_side_ok_def b_live_def b_wc_ok_def b_wc_def wc_is_recv_def)

lemma side_received:
  assumes "b_side_ok a p dc inn sd" "inn < 1" "\<not> b_down sd" "\<not> dc" and "hello (other a) (cstr d)" "length d = B_BUFFER_SIZE"
  shows "b_side_ok a p dc (inn + 1) (sd\<lparr>b_prc := b_store p d (b_prc sd), b_cqes := b_cqes sd @ [b_wc p WC_RECV]\<rparr>)"
proof -
  obtain c where c: "b_live a p dc inn sd c" using assms(1,3) by (auto simp: b_side_ok_def)
  have "b_reads (store_at b d) = cstr d" for b using assms(6) by (simp add: b_reads_def)
  then have "b_live a p dc (inn + 1) (sd\<lparr>b_prc := b_store p d (b_prc sd), b_cqes := b_cqes sd @ [b_wc p WC_RECV]\<rparr>)
      (c\<lparr>bc_recv_region := store_at (bc_recv_region c) d\<rparr>)"
    using c assms(5) by (auto simp: b_live_def b_store_def b_at_def)
  then show ?thesis using assms by (auto simp: b_side_ok_def b_store_def b_wc_ok_def b_wc_def wc_is_recv_def)
qed

text \<open>A side takes a completion.\<close>

lemma side_polls_client:
  assumes "b_calls_ok Es" "b_side_ok Client p dc inn sd" "inn \<le> 1" "b_cqes sd = w # ws" "\<not> b_down sd"
  shows "\<exists>s'. b_poll_cq (Es Client) (bc_on_completion (Es Client)) w (b_prc sd) = Run s' \<and> b_context s' = b_context (b_prc sd)
    \<and> (dc \<longrightarrow> disconnecting (hist s')) \<and> b_side_ok Client p (disconnecting (hist s')) inn (sd\<lparr>b_prc := s', b_cqes := ws\<rparr>)"
proof -
  obtain c where c: "b_live Client p dc inn sd c" using assms(2,5) by (auto simp: b_side_ok_def)
  obtain op where op: "w = b_wc p op" "op = WC_RECV \<or> op = WC_SEND"
    using assms(2,4) by (auto simp: b_side_ok_def b_wc_ok_def)
  have at: "b_at (b_prc sd) p = c" using c by (simp add: b_live_def b_at_def)
  from b_client_polls [OF assms(1) op(2), of Client p "b_prc sd"] obtain s' where
    s': "b_poll_cq (Es Client) (bc_on_completion (Es Client)) w (b_prc sd) = Run s'"
    "sends (hist s') = sends (hist (b_prc sd))" "recvs (hist s') = recvs (hist (b_prc sd))"
    "disconnecting (hist s') \<longleftrightarrow> disconnecting (hist (b_prc sd)) \<or> num_completions c = 1"
    "b_context s' = b_context (b_prc sd)"
    "b_printed s' = (if op = WC_RECV then b_reads (bc_recv_region c) # b_printed (b_prc sd) else b_printed (b_prc sd))"
    "b_conns s' = (b_conns (b_prc sd))(p \<mapsto> c\<lparr>num_completions := num_completions c + 1\<rparr>)"
    unfolding op(1) at b_reads_def by blast
  have n: "\<not> dc" "num_completions c + 1 + int (length ws) = b_out sd + inn" "b_out sd \<le> 1" "0 \<le> b_out sd"
    using assms(2,4) c by (auto simp: b_side_ok_def b_live_def split: if_splits)
  have d: "disconnecting (hist s') \<longleftrightarrow> num_completions c + 1 = 2"
    using s'(4) n(1) assms(2) by (auto simp: b_side_ok_def)
  have e: "b_out sd = 1 \<and> inn = 1 \<and> ws = []" if "disconnecting (hist s')"
  proof -
    have "int (length ws) = 0" "b_out sd = 1" "inn = 1" using n assms(3) d that by linarith+
    then show ?thesis by simp
  qed
  have "b_live Client p (disconnecting (hist s')) inn (sd\<lparr>b_prc := s', b_cqes := ws\<rparr>)
      (c\<lparr>num_completions := num_completions c + 1\<rparr>)"
    using c n s'(7) d assms(4) by (auto simp: b_live_def split: if_splits)
  then have "b_side_ok Client p (disconnecting (hist s')) inn (sd\<lparr>b_prc := s', b_cqes := ws\<rparr>)"
    using assms(2-5) n(1) s' e c op by (auto simp: b_side_ok_def b_live_def b_wc_def wc_is_recv_def)
  then show ?thesis using s' n(1) by auto
qed

lemma side_polls_server:
  assumes "b_calls_ok Es" "b_side_ok Server p dc inn sd" "b_cqes sd = w # ws" "\<not> b_down sd"
  shows "\<exists>s'. b_poll_cq (Es Server) bs_on_completion w (b_prc sd) = Run s' \<and> b_context s' = b_context (b_prc sd)
    \<and> b_side_ok Server p dc inn (sd\<lparr>b_prc := s', b_cqes := ws\<rparr>)"
proof -
  obtain c where c: "b_live Server p dc inn sd c" using assms(2,4) by (auto simp: b_side_ok_def)
  obtain q op where op: "w = b_wc q op" "op = WC_RECV \<and> q = p \<or> op = WC_SEND"
    using assms(2,3) by (auto simp: b_side_ok_def b_wc_ok_def)
  then have ops: "op = WC_RECV \<or> op = WC_SEND" by blast
  have at: "b_at (b_prc sd) p = c" using c by (simp add: b_live_def b_at_def)
  from b_server_polls [OF assms(1) ops, of Server q "b_prc sd"] obtain s' where
    s': "b_poll_cq (Es Server) bs_on_completion w (b_prc sd) = Run s'"
    "sends (hist s') = sends (hist (b_prc sd))" "recvs (hist s') = recvs (hist (b_prc sd))"
    "b_context s' = b_context (b_prc sd)" "b_conns s' = b_conns (b_prc sd)"
    "b_printed s' = (if op = WC_RECV then b_reads (bc_recv_region c) # b_printed (b_prc sd) else b_printed (b_prc sd))"
    unfolding op(1) b_reads_def using op(2) at by fastforce
  have "b_live Server p dc inn (sd\<lparr>b_prc := s', b_cqes := ws\<rparr>) c"
    using c s'(5) assms(3) by (auto simp: b_live_def split: if_splits)
  then have "b_side_ok Server p dc inn (sd\<lparr>b_prc := s', b_cqes := ws\<rparr>)"
    using assms(2-4) s' c op by (auto simp: b_side_ok_def b_live_def b_wc_def wc_is_recv_def)
  then show ?thesis using s' by auto
qed

text \<open>The server takes a completion of the connection that has been freed, and prints what it finds there.\<close>

lemma side_polls_freed:
  assumes "b_calls_ok Es" "b_side_ok Server p dc inn sd" "b_cqes sd = w # ws" "b_down sd"
    and "b_poll_cq (Es Server) bs_on_completion w ((b_prc sd)\<lparr>b_conns := (b_conns (b_prc sd))(wc_wr_id w \<mapsto> x)\<rparr>) = Run s'"
  shows "b_context s' = b_context (b_prc sd)
    \<and> b_side_ok Server p dc inn (sd\<lparr>b_prc := s'\<lparr>b_conns := (b_conns s')(wc_wr_id w := None)\<rparr>, b_cqes := ws\<rparr>)"
proof -
  let ?s = "(b_prc sd)\<lparr>b_conns := (b_conns (b_prc sd))(wc_wr_id w \<mapsto> x)\<rparr>"
  obtain q op where op: "w = b_wc q op" "op = WC_RECV \<and> q = p \<or> op = WC_SEND"
    using assms(2,3) by (auto simp: b_side_ok_def b_wc_ok_def)
  then have ops: "op = WC_RECV \<or> op = WC_SEND" by blast
  have s': "sends (hist s') = sends (hist (b_prc sd))" "recvs (hist s') = recvs (hist (b_prc sd))"
    "b_context s' = b_context (b_prc sd)" "b_conns s' = (b_conns (b_prc sd))(wc_wr_id w \<mapsto> x)"
    "length (b_printed s') = length (b_printed (b_prc sd)) + (if op = WC_RECV then 1 else 0)"
    using b_server_polls [OF assms(1) ops, of Server q ?s] assms(5) by (auto simp: op(1))
  show ?thesis
    using assms(2-4) s' op by (auto simp: b_side_ok_def b_wc_def wc_is_recv_def)
qed

text \<open>A side is torn down; the server learns of the disconnect.\<close>

lemma side_down:
  assumes "b_side_ok a p dc inn sd" "dc" "b_context (b_prc sd) (ids a) = p"
  shows "\<exists>s'. b_tear_down E (ids a) (b_prc sd) = Run s' \<and> b_context s' = b_context (b_prc sd)
    \<and> b_printed s' = b_printed (b_prc sd) \<and> (disconnecting (hist (b_prc sd)) \<longrightarrow> disconnecting (hist s'))
    \<and> b_side_ok a p dc inn (sd\<lparr>b_prc := s', b_down := True\<rparr>)"
proof -
  from b_tears_down [of E "ids a" "b_prc sd"] obtain s' where s': "b_tear_down E (ids a) (b_prc sd) = Run s'"
    "b_context s' = b_context (b_prc sd)" "b_printed s' = b_printed (b_prc sd)"
    "sends (hist s') = sends (hist (b_prc sd))" "recvs (hist s') = recvs (hist (b_prc sd))"
    "disconnecting (hist (b_prc sd)) \<longrightarrow> disconnecting (hist s')"
    "b_conns s' = (b_conns (b_prc sd))(p := None)" using assms(3) by blast
  moreover have "b_side_ok a p dc inn (sd\<lparr>b_prc := s', b_down := True\<rparr>)"
    using assms(1,2) s' by (auto simp: b_side_ok_def)
  ultimately show ?thesis by auto
qed

lemma server_told:
  "b_side_ok Server p dc inn sd \<Longrightarrow> (dc \<longrightarrow> dc') \<Longrightarrow> b_side_ok Server p dc' inn sd"
  by (auto simp: b_side_ok_def b_live_def)

section \<open>The system\<close>

definition b_inv :: "(who \<Rightarrow> ptr) \<Rightarrow> (who \<Rightarrow> ptr) \<Rightarrow> (who \<Rightarrow> basic_side) \<Rightarrow> bool" where
  "b_inv ids ps S \<longleftrightarrow> (\<forall>a. b_conn ids a (S a) = ps a
     \<and> b_side_ok a (ps a) (disconnecting (hist (b_prc (S Client)))) (b_out (S (other a))) (S a))"

lemma b_inv_who:
  "b_inv ids ps S \<longleftrightarrow> b_conn ids Client (S Client) = ps Client \<and> b_conn ids Server (S Server) = ps Server
     \<and> b_side_ok Client (ps Client) (disconnecting (hist (b_prc (S Client)))) (b_out (S Server)) (S Client)
     \<and> b_side_ok Server (ps Server) (disconnecting (hist (b_prc (S Client)))) (b_out (S Client)) (S Server)"
  unfolding b_inv_def all_who [of _ Client] by auto

lemma b_inv_start:
  assumes "\<And>a. basic_ready ids a (S a)"
  shows "b_inv ids (\<lambda>a. b_conn ids a (S a)) S"
proof -
  have "b_side_ok a (b_conn ids a (S a)) False 0 (S a)" for a
    using assms [of a] by (force simp: basic_ready_def b_side_ok_def b_live_def)
  then show ?thesis using assms by (simp add: b_inv_def basic_ready_def)
qed

text \<open>At most one message of a side arrives, and both have arrived at a disconnect.\<close>

lemma b_inv_outs:
  assumes "b_inv ids ps S"
  shows "b_out (S a) \<le> 1" "0 \<le> b_out (S a)"
    and "disconnecting (hist (b_prc (S Client))) \<Longrightarrow> b_out (S a) = 1 \<and> b_up (S a)"
    and "b_down (S a) \<Longrightarrow> disconnecting (hist (b_prc (S Client)))"
    and "b_out (S a) < sends (hist (b_prc (S a))) \<Longrightarrow> b_out (S a) = 0"
proof -
  have ok: "b_side_ok a (ps a) (disconnecting (hist (b_prc (S Client)))) (b_out (S (other a))) (S a)" for a
    using assms by (simp add: b_inv_def)
  show "b_out (S a) \<le> 1" "0 \<le> b_out (S a)" "b_down (S a) \<Longrightarrow> disconnecting (hist (b_prc (S Client)))"
    "b_out (S a) < sends (hist (b_prc (S a))) \<Longrightarrow> b_out (S a) = 0"
    using ok [of a] by (auto simp: b_side_ok_def split: if_splits)
  show "b_out (S a) = 1 \<and> b_up (S a)" if "disconnecting (hist (b_prc (S Client)))"
  proof -
    have one: "b_out (S Client) = 1" "b_out (S Server) = 1" using ok [of Client] that by (auto simp: b_side_ok_def)
    then show ?thesis using ok [of a] by (cases a) (auto simp: b_side_ok_def split: if_splits)
  qed
qed

lemma b_inv_set:
  assumes "b_inv ids ps S" and "b_out sd = b_out (S a)" "b_conn ids a sd = ps a"
    and "b_side_ok a (ps a) (disconnecting (hist (b_prc (if a = Client then sd else S Client)))) (b_out (S (other a))) sd"
    and "disconnecting (hist (b_prc (S Client))) \<Longrightarrow> a = Client \<Longrightarrow> disconnecting (hist (b_prc sd))"
  shows "b_inv ids ps (S(a := sd))"
  using assms by (cases a) (auto simp: b_inv_who intro: server_told)

lemma b_step_inv:
  assumes "basic_step Es ids S S'" and "b_calls_ok Es" "b_inv ids ps S"
  shows "b_inv ids ps S'"
  using assms(1)
proof cases
  case (establish a s')
  have "\<not> b_down (S a)" using b_inv_outs(3,4) [OF assms(3), of a] establish(2) by blast
  with side_establish [OF assms(2), of a "ps a" _ _ "S a" ids] assms(3) establish(2,3)
  show ?thesis unfolding establish(1)
    by (intro b_inv_set [OF assms(3)]) (force simp: b_inv_def b_conn_def)+
next
  case (arrive a p q)
  let ?dc = "disconnecting (hist (b_prc (S Client)))"
  have ok: "b_side_ok x (ps x) ?dc (b_out (S (other x))) (S x)" "b_conn ids x (S x) = ps x" for x
    using assms(3) by (simp_all add: b_inv_def)
  have s: "b_up (S a)" "b_out (S a) < 1" using ok(1) [of a] arrive(2) by (auto simp: b_side_ok_def split: if_splits)
  then have dc: "\<not> ?dc" using b_inv_outs(3) [OF assms(3), of a] by auto
  obtain c where "b_live a (ps a) ?dc (b_out (S (other a))) (S a) c" using ok(1) [of a] arrive(4) by (auto simp: b_side_ok_def)
  then have h: "hello a (cstr (read_at (bc_send_region (b_at (b_prc (S a)) p)) B_BUFFER_SIZE))"
    using s(1) ok(2) arrive(6) by (simp add: b_live_def b_reads_def b_at_def)
  show ?thesis unfolding b_inv_def all_who [of _ a] arrive(1)
    using side_sent [OF ok(1) arrive(2,4) dc] ok(2) arrive(6,7) dc
      side_received [OF ok(1) _ arrive(5) dc, of "read_at (bc_send_region (b_at (b_prc (S a)) p)) B_BUFFER_SIZE"] s(2) h
    by (cases a) (auto simp: b_conn_def b_store_def)
next
  case (poll a w ws s')
  let ?dc = "disconnecting (hist (b_prc (S Client)))"
  have one: "b_out (S Server) \<le> 1" by (rule b_inv_outs(1) [OF assms(3)])
  have inv: "b_side_ok a (ps a) ?dc (b_out (S (other a))) (S a)" "b_conn ids a (S a) = ps a"
    using assms(3) by (simp_all add: b_inv_def)
  have "b_context s' = b_context (b_prc (S a))
    \<and> b_side_ok a (ps a) (disconnecting (hist (if a = Client then s' else b_prc (S Client)))) (b_out (S (other a)))
        (S a\<lparr>b_prc := s', b_cqes := ws\<rparr>)
    \<and> (?dc \<longrightarrow> a = Client \<longrightarrow> disconnecting (hist s'))"
  proof (cases a)
    case Client
    have "b_side_ok Client (ps Client) ?dc (b_out (S (other Client))) (S Client)" using inv(1) Client by simp
    from side_polls_client [OF assms(2) this [simplified] one poll(2) [unfolded Client] poll(3) [unfolded Client]] poll(4)
    show ?thesis unfolding Client by auto
  next
    case Server
    have "b_side_ok Server (ps Server) ?dc (b_out (S (other Server))) (S Server)" using inv(1) Server by simp
    from side_polls_server [OF assms(2) this [simplified] poll(2) [unfolded Server] poll(3) [unfolded Server]] poll(4)
    show ?thesis unfolding Server by auto
  qed
  then show ?thesis unfolding poll(1)
    using inv(2) by (intro b_inv_set [OF assms(3)]) (auto simp: b_conn_def)
next
  case (poll_freed a w ws x s')
  have inv: "b_side_ok a (ps a) (disconnecting (hist (b_prc (S Client)))) (b_out (S (other a))) (S a)"
    "b_conn ids a (S a) = ps a"
    using assms(3) by (simp_all add: b_inv_def)
  have server: "a = Server"
  proof (cases a)
    case Client
    then show ?thesis using inv(1) poll_freed(2,3) by (auto simp: b_side_ok_def)
  qed
  have "b_side_ok Server (ps Server) (disconnecting (hist (b_prc (S Client)))) (b_out (S (other Server))) (S Server)"
    using inv(1) server by simp
  from side_polls_freed [OF assms(2) this poll_freed(2-4) [unfolded server b_on_completion_side]]
  show ?thesis unfolding poll_freed(1) server
    using inv(2) by (intro b_inv_set [OF assms(3)]) (auto simp: b_conn_def server)
next
  case (disconnect a s')
  with side_down [of a "ps a" _ _ "S a" ids "Es a"] assms(3) show ?thesis unfolding disconnect(1)
    by (intro b_inv_set [OF assms(3)]) (force simp: b_inv_def b_conn_def)+
qed

section \<open>Runs\<close>

text \<open>What a side still has to do; a message counts at the two sides it arrives at.\<close>

definition b_left :: "basic_side \<Rightarrow> nat" where
  "b_left sd = (if b_up sd then 0 else 1) + 3 * nat (1 - b_out sd) + length (b_cqes sd) + (if b_down sd then 0 else 1)"

lemma b_step_left:
  assumes "basic_step Es ids S S'" "b_inv ids ps S"
  shows "b_left (S' Client) + b_left (S' Server) + 1 = b_left (S Client) + b_left (S Server)"
  using assms(1)
proof cases
  case (arrive a p q)
  have "b_out (S a) = 0" by (rule b_inv_outs(5) [OF assms(2) arrive(2)])
  then show ?thesis by (cases a) (auto simp: arrive(1) b_left_def)
qed (case_tac [!] a, auto simp: b_left_def)

text \<open>As long as a side is there something happens that is not the server taking a completion.\<close>

definition b_quiet :: "(who \<Rightarrow> basic_side) \<Rightarrow> bool" where
  "b_quiet S \<longleftrightarrow> b_printed (b_prc (S Server)) = []
     \<and> int (length (b_cqes (S Server))) = b_out (S Client) + b_out (S Server)"

lemma b_progress:
  assumes "b_calls_ok Es" "b_inv ids ps S" "\<not> b_down (S a)"
  shows "\<exists>S'. basic_step Es ids S S' \<and> (b_quiet S \<longrightarrow> b_quiet S')"
proof -
  let ?dc = "disconnecting (hist (b_prc (S Client)))"
  have ok: "b_side_ok x (ps x) ?dc (b_out (S (other x))) (S x)" "b_context (b_prc (S x)) (ids x) = ps x" for x
    using assms(2) by (simp_all add: b_inv_def b_conn_def)
  note outs = b_inv_outs [OF assms(2)]
  consider (down) x where "\<not> b_up (S x)" | (out) x where "b_up (S Client)" "b_up (S Server)" "b_out (S x) < 1"
    | (poll) w ws where "\<not> ?dc" "b_cqes (S Client) = w # ws" | (rest) "b_out (S Client) = 1" "b_out (S Server) = 1"
      "?dc \<or> b_cqes (S Client) = []"
    using outs(1) by (metis (full_types) list.exhaust order_le_less who.exhaust)
  then show ?thesis
  proof cases
    case down
    then have nd: "\<not> b_down (S x)" using outs(3,4) by blast
    from side_establish [where ids = ids, OF assms(1) ok(1) [of x] down nd ok(2) [of x]] basic_step.establish [where S = S and a = x and ids = ids and Es = Es, OF down]
    show ?thesis by (cases x) (force simp: b_quiet_def)+
  next
    case out
    have nd: "\<not> b_down (S y)" for y using outs(3,4) out(3) by fastforce
    have "b_out (S x) < sends (hist (b_prc (S x)))" "b_out (S x) < recvs (hist (b_prc (S (other x))))"
      using ok(1) [of x] ok(1) [of "other x"] out by (cases x; simp add: b_side_ok_def)+
    from basic_step.arrive [where S = S and a = x and ids = ids and Es = Es, OF this nd nd refl refl] show ?thesis
      by (cases x) (force simp: b_quiet_def b_store_def)+
  next
    case poll
    have nd: "\<not> b_down (S Client)" using outs(4) poll(1) by blast
    have one: "b_out (S Server) \<le> 1" by (rule outs(1))
    from side_polls_client [OF assms(1) _ one poll(2) nd] ok(1) [of Client] obtain s' where
      "b_poll_cq (Es Client) (bc_on_completion (Es Client)) w (b_prc (S Client)) = Run s'" by fastforce
    then show ?thesis using basic_step.poll [where S = S and a = Client and ids = ids and Es = Es, OF poll(2) nd] by (force simp: b_quiet_def)
  next
    case rest
    have dc: ?dc
    proof (rule ccontr)
      assume no: "\<not> ?dc"
      then have "\<not> b_down (S Client)" using outs(4) by blast
      with ok(1) [of Client] obtain c where "b_live Client (ps Client) ?dc (b_out (S Server)) (S Client) c"
        by (auto simp: b_side_ok_def)
      then show False using no rest by (simp add: b_live_def)
    qed
    from side_down [where ids = ids and E = "Es a", OF ok(1) [of a] dc ok(2) [of a]] basic_step.disconnect [where S = S and a = a and ids = ids and Es = Es, OF dc assms(3)] show ?thesis
      by (cases a) (force simp: b_quiet_def)+
  qed
qed

lemma b_runs:
  assumes "b_calls_ok Es" "b_inv ids ps S"
  shows "\<exists>n S'. (basic_step Es ids ^^ n) S S' \<and> (\<forall>a. b_down (S' a)) \<and> b_inv ids ps S' \<and> (b_quiet S \<longrightarrow> b_quiet S')"
  using assms(2)
proof (induction "b_left (S Client) + b_left (S Server)" arbitrary: S rule: less_induct)
  case less
  show ?case
  proof (cases "\<forall>a. b_down (S a)")
    case True
    then show ?thesis using less.prems by (intro exI [of _ 0] exI [of _ S]) simp
  next
    case False
    then obtain S1 where S1: "basic_step Es ids S S1" "b_quiet S \<longrightarrow> b_quiet S1"
      using b_progress [OF assms(1) less.prems] by blast
    have "b_inv ids ps S1" by (rule b_step_inv [OF S1(1) assms(1) less.prems])
    then obtain n S' where "(basic_step Es ids ^^ n) S1 S'" "\<forall>a. b_down (S' a)" "b_inv ids ps S'" "b_quiet S1 \<longrightarrow> b_quiet S'"
      using less.hyps [of S1] b_step_left [OF S1(1) less.prems] by fastforce
    then show ?thesis using S1 relpowp_Suc_I2 [of "basic_step Es ids" S S1 n S'] by blast
  qed
qed

lemma b_steps_inv:
  assumes "(basic_step Es ids ^^ n) S S'" and "b_calls_ok Es" "b_inv ids ps S"
  shows "b_inv ids ps S' \<and> b_left (S' Client) + b_left (S' Server) + n = b_left (S Client) + b_left (S Server)"
  using assms(1)
proof (induction n arbitrary: S')
  case 0
  then show ?case using assms(3) by simp
next
  case (Suc n)
  then obtain S1 where "(basic_step Es ids ^^ n) S S1" "basic_step Es ids S1 S'" by auto
  with Suc.IH [of S1] b_step_left [of Es ids S1 S' ps] b_step_inv [OF _ assms(2), of ids S1 S' ps] show ?case by simp
qed

lemma b_start_inv:
  assumes "\<And>a. b_setup a (Es a) (ids a) (vs a) b_fresh = Run (s a)"
  shows "b_inv ids (\<lambda>a. b_context (s a) (ids a)) (\<lambda>a. b_waiting (s a))"
proof -
  have "b_inv ids (\<lambda>a. b_conn ids a (b_waiting (s a))) (\<lambda>a. b_waiting (s a))"
    by (rule b_inv_start) (rule b_setup_ready [OF assms])
  then show ?thesis by (simp add: b_conn_def b_waiting_def)
qed

text \<open>An adapter on which every call succeeds.\<close>

definition basic_net :: api_env where
  "basic_net = const_env (\<lambda>c. case c of
      Data d \<Rightarrow> 0 | Cm d \<Rightarrow> 0 | Libc (Pthread_create f) \<Rightarrow> 0 | _ \<Rightarrow> 1) (\<lambda>c. [])"

definition b_demo :: "who \<Rightarrow> basic_process" where
  "b_demo a = final (b_setup a basic_net 1 7 b_fresh)"

lemma basic_net_ok: "b_calls_ok (\<lambda>_. basic_net)"
  by (simp add: b_calls_ok_def basic_net_def const_env_def)

lemma basic_net_runs:
  "ret basic_net h (Cm d) = 0" "ret basic_net h (Data x) = 0" "ret basic_net h (Ibv l) = 1"
  "runs (TEST_NZ basic_net m (Cm d))" "runs (TEST_NZ basic_net m (Data x))"
  "(\<And>r. runs (k r)) \<Longrightarrow> runs (reg_mr basic_net l k)" "runs (b_upd p f)"
  by (simp_all add: runs_def cmd_simps basic_net_def const_env_def b_upd_def)

lemma running_first: "running (c s) \<Longrightarrow> runs (seq cs) \<Longrightarrow> running (seq (c # cs) s)"
  by (cases "c s") (auto simp: runs_def)

lemma b_demo_set_up: "b_setup a basic_net 1 7 b_fresh = Run (b_demo a)"
proof -
  have "running (build_context basic_net 7 b_fresh)"
    by (simp add: build_context_def cmd_simps b_fresh_def basic_net_def const_env_def)
  then have build: "running (b_build basic_net 1 7 b_fresh)" unfolding b_build_def
    by (rule running_first) (simp add: runs_intro basic_net_runs b_register_memory_def b_malloc_def b_register_def b_post_receives_def)
  then have "running (bc_on_addr_resolved basic_net 1 7 b_fresh)" unfolding bc_on_addr_resolved_def
    by (rule running_first) (simp add: runs_intro basic_net_runs)
  then have "running (b_setup a basic_net 1 7 b_fresh)" using build
    by (cases a) (auto simp del: seq.simps simp: bs_on_connect_request_def bc_on_route_resolved_def runs_intro basic_net_runs
      intro!: running_first)
  then show ?thesis by (simp add: b_demo_def running_final [symmetric])
qed

text \<open>
  C36: the client of the basic example is served.  Both sides have run their handlers up to the connection
  (\<open>on_addr_resolved\<close> and \<open>on_route_resolved\<close>, \<open>on_connect_request\<close>) and no call on the data path fails.
  Then the two processes take at most ten steps in whatever order; until the client has torn its
  connection down there is always a next step; and when it has, it has printed exactly one message, the
  one the server sends (as far as 1023 bytes hold it), and its queue is empty, so that its poller never
  uses the freed connection.  The server prints at most once, and as long as it has not torn its own
  connection down, nothing but the client's message.
\<close>

theorem basic_client_served:
  assumes "\<And>a. b_setup a (Es a) (ids a) (vs a) b_fresh = Run (s a)" and "b_calls_ok Es"
    and "(basic_step Es ids ^^ n) (\<lambda>a. b_waiting (s a)) S"
  shows "n \<le> 10 \<and> (\<not> b_down (S Client) \<longrightarrow> (\<exists>S'. basic_step Es ids S S'))
    \<and> (b_down (S Client) \<longrightarrow> b_cqes (S Client) = [] \<and> (\<exists>m. hello Server m \<and> b_printed (b_prc (S Client)) = [m]))
    \<and> length (b_printed (b_prc (S Server))) \<le> 1
    \<and> (\<not> b_down (S Server) \<longrightarrow> (\<forall>m \<in> set (b_printed (b_prc (S Server))). hello Client m))"
proof -
  let ?dc = "disconnecting (hist (b_prc (S Client)))"
  have inv: "b_inv ids (\<lambda>a. b_context (s a) (ids a)) S" and n: "b_left (S Client) + b_left (S Server) + n = 10"
    using b_steps_inv [OF assms(3,2) b_start_inv [OF assms(1)]] by (simp_all add: b_left_def b_waiting_def)
  have ok: "b_side_ok a (b_context (s a) (ids a)) ?dc (b_out (S (other a))) (S a)" for a
    using inv by (simp add: b_inv_def)
  have "b_cqes (S Client) = [] \<and> (\<exists>m. hello Server m \<and> b_printed (b_prc (S Client)) = [m])" if "b_down (S Client)"
  proof -
    have "?dc" using b_inv_outs(4) [OF inv that] .
    then have "b_cqes (S Client) = []" "length (b_printed (b_prc (S Client))) = 1" "list_all (hello Server) (b_printed (b_prc (S Client)))"
      using ok [of Client] by (auto simp: b_side_ok_def)
    then show ?thesis by (auto simp: length_Suc_conv)
  qed
  moreover have "length (b_printed (b_prc (S Server))) \<le> 1"
    "\<not> b_down (S Server) \<longrightarrow> (\<forall>m \<in> set (b_printed (b_prc (S Server))). hello Client m)"
    using ok [of Server] b_inv_outs(1) [OF inv, of Client] by (auto simp: b_side_ok_def list_all_iff)
  ultimately show ?thesis using n b_progress [OF assms(2) inv, of Client] by auto
qed

theorem basic_client_served_witness:
  "\<exists>n S. (basic_step (\<lambda>_. basic_net) (\<lambda>_. 1) ^^ n) (\<lambda>a. b_waiting (b_demo a)) S \<and> b_down (S Client)
     \<and> (\<exists>m. hello Server m \<and> b_printed (b_prc (S Client)) = [m])"
proof -
  from b_runs [OF basic_net_ok b_start_inv [where Es = "\<lambda>_. basic_net" and ids = "\<lambda>_. 1" and vs = "\<lambda>_. 7", OF b_demo_set_up]]
  obtain n S where S: "(basic_step (\<lambda>_. basic_net) (\<lambda>_. 1) ^^ n) (\<lambda>a. b_waiting (b_demo a)) S" "\<forall>a. b_down (S a)"
    by blast
  have "b_down (S Client) \<longrightarrow> b_cqes (S Client) = [] \<and> (\<exists>m. hello Server m \<and> b_printed (b_prc (S Client)) = [m])"
    using basic_client_served [where Es = "\<lambda>_. basic_net" and ids = "\<lambda>_. 1" and vs = "\<lambda>_. 7",
      OF b_demo_set_up basic_net_ok S(1)] by (elim conjE)
  then show ?thesis using S by blast
qed

text \<open>
  C37: the server of the basic example may lose the client's message.  Its main thread tears the connection
  down at the disconnect whether or not the poller has taken the completions, and the client disconnects
  on its own two.  So from the same start there is a run at whose end the server's connection is freed,
  the two completions still wait in its queue, and it has printed nothing; the one that carries the
  message leads its handler to the freed connection, of which it prints what it then finds there.
\<close>

theorem basic_server_race:
  assumes "\<And>a. b_setup a (Es a) (ids a) (vs a) b_fresh = Run (s a)" and "b_calls_ok Es"
  shows "\<exists>n S. (basic_step Es ids ^^ n) (\<lambda>a. b_waiting (s a)) S \<and> b_down (S Server)
    \<and> b_printed (b_prc (S Server)) = [] \<and> length (b_cqes (S Server)) = 2
    \<and> b_wc (b_context (s Server) (ids Server)) WC_RECV \<in> set (b_cqes (S Server))
    \<and> b_conns (b_prc (S Server)) (b_context (s Server) (ids Server)) = None"
proof -
  have "b_quiet (\<lambda>a. b_waiting (s a))" using b_setup_ready [where ids = ids, OF assms(1) [of Server]]
    by (simp add: b_quiet_def basic_ready_def b_waiting_def)
  then obtain n S where S: "(basic_step Es ids ^^ n) (\<lambda>a. b_waiting (s a)) S" "\<forall>a. b_down (S a)"
    "b_inv ids (\<lambda>a. b_context (s a) (ids a)) S" "b_quiet S"
    using b_runs [OF assms(2) b_start_inv [where ids = ids, OF assms(1)]] by blast
  let ?p = "b_context (s Server) (ids Server)"
  have ok: "b_side_ok Server ?p (disconnecting (hist (b_prc (S Client)))) (b_out (S Client)) (S Server)"
    using S(3) by (simp add: b_inv_who)
  have outs: "b_out (S a) = 1" for a using b_inv_outs(3,4) [OF S(3)] S(2) by blast
  have "rcv (b_cqes (S Server)) = 1" using ok S(4) outs by (simp add: b_side_ok_def b_quiet_def)
  then obtain w where "w \<in> set (b_cqes (S Server))" "wc_is_recv (wc_opcode w)"
    unfolding rcv_def by (metis One_nat_def filter_False length_0_conv nat.simps(3))
  moreover have "b_wc_ok Server ?p w" using ok calculation(1) by (auto simp: b_side_ok_def list_all_iff)
  ultimately have "b_wc ?p WC_RECV \<in> set (b_cqes (S Server))"
    by (auto simp: b_wc_ok_def b_wc_def wc_is_recv_def)
  then show ?thesis using S(1,2,4) ok outs by (intro exI [of _ n] exI [of _ S]) (simp add: b_side_ok_def b_quiet_def)
qed

theorem basic_server_race_witness:
  "\<exists>n S. (basic_step (\<lambda>_. basic_net) (\<lambda>_. 1) ^^ n) (\<lambda>a. b_waiting (b_demo a)) S \<and> b_down (S Server)
     \<and> b_printed (b_prc (S Server)) = [] \<and> length (b_cqes (S Server)) = 2"
  using basic_server_race [where Es = "\<lambda>_. basic_net" and ids = "\<lambda>_. 1" and vs = "\<lambda>_. 7", OF b_demo_set_up basic_net_ok]
  by blast

end
