(* ===== verification/Spec2Isabelle.thy ===== *)
theory Spec2Isabelle
  imports RcSystem FileSystem RwExchange IntfMain SrqSystem XrcSystem UcPingpong UdPingpong
    DcInitiator UmrResources BasicPair
begin

text \<open>
  A verification library for the RDMA example programs of this repository.

  The programs.  src/examples/libibverbs-examples holds ping-pong programs that talk to libibverbs
  directly and exchange their addresses over TCP; src/examples/the-geek-in-the-corner holds
  client and server pairs over librdmacm.  Each program acquires a context (device, protection
  domain, memory region, completion queue, queue pairs), tells its peer how to reach it, and then
  runs a loop driven by completions; the pairs of programs are what has to work together.

  How a program is modelled.  A call of libibverbs, librdmacm or the C library is a value of the
  type \<open>api\<close> (theory Verbs).  What it returns, stores or delivers is chosen by an environment that
  sees the whole history of calls (theory Prelude), so every statement holds for every behaviour of
  these libraries unless it names a hypothesis on them.  A C function is a state monad over the
  history (\<open>'a prog\<close>), or, where a program keeps static state and may call \<open>exit\<close>, a command on a
  record that carries the history (\<open>'s cmd\<close>).  Pointers and handles are integers, 0 is NULL.
  Integers have their C widths where the code depends on it (\<open>u32\<close>, \<open>to_int32\<close>).  A \<open>goto\<close> label is
  a definition that runs to the end of its function.  A loop that may not end takes fuel and
  returns \<open>None\<close> when the fuel is used up; statements about such loops either hold for every amount
  of fuel or say how much is enough.

  The theories.
  \<^item> Prelude: environments and histories, the logics \<open>sat\<close> (a property of the calls made, stated as an
    automaton), \<open>wp\<close> (symbolic runs) and \<open>gives\<close> (results), commands that may exit.  CLib: the printf
    and scanf conversions, strtol and strings the code uses.  Verbs: the structures of verbs.h, the
    calls, and the automata \<open>track\<close> (resources held) and \<open>qp_step\<close> (the states of a queue pair).
  \<^item> Wire: pingpong.c and the destination message of rc_pingpong.c.  RcContext, RcExchange, RcMain:
    rc_pingpong.c (its context and labels, the exchange of destinations, options and \<open>main\<close>).
    RcSystem: a client and a server of it over a reliable network.
  \<^item> PlainContext: what uc_pingpong.c, ud_pingpong.c and srq_pingpong.c share.  UcPingpong, with a
    network that loses messages; UdPingpong; SrqContext, SrqExchange, SrqMain and SrqSystem for the
    queue pairs over a shared receive queue.
  \<^item> XrcContext, XrcExchange, XrcMain: xsrq_pingpong.c, a server and several clients over shared receive
    queues in an XRC domain.  XrcResources: what such a process holds from its start to its end.
    XrcSystem: a server with any number of clients.
  \<^item> DcWire, DcTarget, DcInitiator: dc.h, dctgt.c and dcini.c, the target and the initiator of the
    dynamically connected transport.
  \<^item> UmrContext, UmrMain: umr_rc.c, the ping-pong over several regions registered as one.  UmrResources:
    what it holds, when the adapter takes the registration and when it does not, and its status.
  \<^item> IntfData, IntfLoop, IntfContext, IntfThreads, IntfExchange, IntfMain: intf.c, the program over
    the burst interfaces: data and names, the data path, the resources with their cleanup, the
    threads and their schedules, the exchange, options and \<open>main\<close>.
  \<^item> BasicPair: 01_basic-client-server, from the set-up of both sides to the end of the client.
  \<^item> RwCommon, RwMain, RwPair, RwSystem, RwExchange: 02_read-write, with its poller that spins on a
    flag.  FileCommon, FileClient, FileServer, FileSystem: 03_file-transfer.

  The interfaces.  \<open>ctx_lifecycle\<close> states the contract between making and closing a context and is
  interpreted for the contexts of rc, uc and srq; \<open>wire_codec\<close> that of a fixed-size message and is
  interpreted for the destination messages of rc, xsrq and the DC programs; \<open>rc_callbacks\<close> that between the event loop of the file
  transfer and the callbacks of its two programs.

  What the lemmas show.  Setting up and closing: on every path what was acquired is given back, or
  exactly what is left (the lemmas named \<open>sat_\<close> and \<open>held_\<close>).  Exchanges: what one side writes is what
  the other reads (Wire, RcExchange, IntfExchange).  Loops: the credits of the send and receive
  queues (\<open>main_loop_credits\<close>, \<open>send_recv_whole_bursts\<close>).  Systems: step relations of two processes and a network,
  their invariants, a measure that bounds the number of steps, and progress.  Where a
  program does not do what it means to, the run that shows it is a theorem.

  Not modelled: \<open>printf\<close> output other than what carries a peer's data, usage texts, the timing and
  the statistics, the seed of the random numbers, the splitting of the command line by getopt_long
  (its result is an argument), the contents of a buffer that is only written.  Whole programs left out:
  cc_pingpong.c and task_pingpong.c (lists of requests that wait for and enable each other inside the
  adapter: what they do is the adapter's), devinfo.c, device_list.c, asyncwatch.c and polldcinfo.c (they print what the adapter
  reports), get_clock.c (the cycle counter and a regression in floating point), and the scripts of src/exps.
\<close>

end
